(* ===== verification/Prelude.thy ===== *)
theory Prelude
  imports Main "HOL-Library.Word" "HOL-Library.List_Lexorder" "HOL-Library.Monad_Syntax"
begin

text \<open>
  Shared vocabulary of the development: the machine types of the Rust code, little-endian
  byte encodings, the checked arithmetic of \<open>usize\<close>, early returns as \<open>option\<close> values,
  ordered sets of the standard library as sorted distinct lists, and the interface
  \<open>codec\<close> that every encoder/decoder pair of the wire formats implements.
\<close>

section \<open>Machine types\<close>

type_synonym byte = "8 word"
type_synonym u32 = "32 word"
type_synonym u64 = "64 word"

text \<open>Facts that open an encoder, and facts that invert a successful decoder.\<close>

named_theorems enc_simps "defining equations of encoders"
named_theorems dec_simps "characterisations of successful decoding steps"

text \<open>\<open>usize\<close> is 64 bits wide on every supported target; sizes are natural numbers, and an
  addition or multiplication the code checks is checked here.\<close>

definition checked_add :: "nat \<Rightarrow> nat \<Rightarrow> nat option" where
  "checked_add a b = (if a + b < 2 ^ 64 then Some (a + b) else None)"

definition checked_mul :: "nat \<Rightarrow> nat \<Rightarrow> nat option" where
  "checked_mul a b = (if a * b < 2 ^ 64 then Some (a * b) else None)"

lemma checked_add_Some [dec_simps]: "checked_add a b = Some c \<longleftrightarrow> a + b < 2 ^ 64 \<and> c = a + b"
  by (auto simp: checked_add_def)

lemma checked_mul_Some [dec_simps]: "checked_mul a b = Some c \<longleftrightarrow> a * b < 2 ^ 64 \<and> c = a * b"
  by (auto simp: checked_mul_def)

section \<open>Early returns\<close>

text \<open>The crate's \<open>Result<T, ()>\<close> is \<open>'a option\<close>; \<open>if c { return Err(()) }\<close> is \<open>guard (\<not> c)\<close>.\<close>

definition guard :: "bool \<Rightarrow> unit option" where
  "guard b = (if b then Some () else None)"

lemma guard_simps [simp]: "guard True = Some ()" "guard False = None"
  by (simp_all add: guard_def)

lemma guard_Some [dec_simps]: "guard b = Some u \<longleftrightarrow> b"
  by (simp add: guard_def)

lemma guard_bind_Some [dec_simps]: "(guard b \<bind> f) = Some y \<longleftrightarrow> b \<and> f () = Some y"
  by (simp add: guard_def)

lemma bind_Some_conv [dec_simps]: "(m \<bind> f) = Some y \<longleftrightarrow> (\<exists>x. m = Some x \<and> f x = Some y)"
  by (cases m) auto

lemma guard_bind_if: "(guard b \<bind> f) = (if b then f () else None)"
  by simp

section \<open>Sums as \<open>Result<T, E>\<close>\<close>

definition rbind :: "'e + 'a \<Rightarrow> ('a \<Rightarrow> 'e + 'b) \<Rightarrow> 'e + 'b" where
  "rbind m f = (case m of Inl e \<Rightarrow> Inl e | Inr x \<Rightarrow> f x)"

definition rcheck :: "bool \<Rightarrow> 'e \<Rightarrow> 'e + unit" where
  "rcheck b e = (if b then Inr () else Inl e)"

lemma rbind_simps [simp]: "rbind (Inl e) f = Inl e" "rbind (Inr x) f = f x"
  by (simp_all add: rbind_def)

lemma rbind_Inr [dec_simps]: "rbind m f = Inr y \<longleftrightarrow> (\<exists>x. m = Inr x \<and> f x = Inr y)"
  by (cases m) auto

lemma rbind_Inl: "rbind m f = Inl e \<longleftrightarrow> m = Inl e \<or> (\<exists>x. m = Inr x \<and> f x = Inl e)"
  by (cases m) auto

lemma rcheck_simps [simp]: "rcheck True e = Inr ()" "rcheck False e = Inl e"
  by (simp_all add: rcheck_def)

lemma rcheck_Inr [dec_simps]: "rcheck b e = Inr u \<longleftrightarrow> b"
  by (simp add: rcheck_def)

lemma rcheck_Inl: "rcheck b e = Inl e' \<longleftrightarrow> \<not> b \<and> e' = e"
  by (auto simp: rcheck_def)

text \<open>\<open>map_err(|_| ())\<close>, \<open>ok()\<close>, \<open>ok_or(e)\<close> and \<open>map_err(f)\<close>.\<close>

definition result_ok :: "'e + 'a \<Rightarrow> 'a option" where
  "result_ok m = (case m of Inl _ \<Rightarrow> None | Inr x \<Rightarrow> Some x)"

definition ok_or :: "'a option \<Rightarrow> 'e \<Rightarrow> 'e + 'a" where
  "ok_or m e = (case m of None \<Rightarrow> Inl e | Some x \<Rightarrow> Inr x)"

definition map_err :: "('e \<Rightarrow> 'f) \<Rightarrow> 'e + 'a \<Rightarrow> 'f + 'a" where
  "map_err f m = (case m of Inl e \<Rightarrow> Inl (f e) | Inr x \<Rightarrow> Inr x)"

lemma result_ok_Some [dec_simps]: "result_ok m = Some x \<longleftrightarrow> m = Inr x"
  by (cases m) (auto simp: result_ok_def)

lemma ok_or_Inr [dec_simps]: "ok_or m e = Inr x \<longleftrightarrow> m = Some x"
  by (cases m) (auto simp: ok_or_def)

lemma map_err_Inr [dec_simps]: "map_err f m = Inr x \<longleftrightarrow> m = Inr x"
  by (cases m) (auto simp: map_err_def)

text \<open>A fallible loop over a list, \<open>for x in xs { f(x)? }\<close> collecting the results.\<close>

fun rmap :: "('a \<Rightarrow> 'e + 'b) \<Rightarrow> 'a list \<Rightarrow> 'e + 'b list" where
  "rmap f [] = Inr []"
| "rmap f (x # xs) = rbind (f x) (\<lambda>y. rbind (rmap f xs) (\<lambda>ys. Inr (y # ys)))"

lemma rmap_Inr: "rmap f xs = Inr ys \<longleftrightarrow> list_all2 (\<lambda>x y. f x = Inr y) xs ys"
  by (induction xs arbitrary: ys) (auto simp: dec_simps list_all2_Cons1)

fun omap :: "('a \<Rightarrow> 'b option) \<Rightarrow> 'a list \<Rightarrow> 'b list option" where
  "omap f [] = Some []"
| "omap f (x # xs) = do { y \<leftarrow> f x; ys \<leftarrow> omap f xs; Some (y # ys) }"

lemma omap_Some: "omap f xs = Some ys \<longleftrightarrow> list_all2 (\<lambda>x y. f x = Some y) xs ys"
  by (induction xs arbitrary: ys) (auto simp: dec_simps list_all2_Cons1)

lemma omap_length: "omap f xs = Some ys \<Longrightarrow> length ys = length xs"
  by (auto simp: omap_Some dest: list_all2_lengthD)

text \<open>A computation that may panic (an \<open>assert!\<close>, an \<open>expect\<close> on an error, a crash of a called
  crate).\<close>

datatype 'a outcome = Crash | Value 'a

definition obind :: "'a outcome \<Rightarrow> ('a \<Rightarrow> 'b outcome) \<Rightarrow> 'b outcome" where
  "obind m f = (case m of Crash \<Rightarrow> Crash | Value x \<Rightarrow> f x)"

definition expect :: "'a option \<Rightarrow> 'a outcome" where
  "expect m = (case m of None \<Rightarrow> Crash | Some x \<Rightarrow> Value x)"

lemma obind_simps [simp]: "obind Crash f = Crash" "obind (Value x) f = f x"
  by (simp_all add: obind_def)

lemma obind_Value [dec_simps]: "obind m f = Value y \<longleftrightarrow> (\<exists>x. m = Value x \<and> f x = Value y)"
  by (cases m) auto

lemma expect_Value [dec_simps]: "expect m = Value x \<longleftrightarrow> m = Some x"
  by (cases m) (auto simp: expect_def)

section \<open>Little-endian integers\<close>

fun le_bytes :: "nat \<Rightarrow> nat \<Rightarrow> byte list" where
  "le_bytes 0 n = []"
| "le_bytes (Suc k) n = of_nat (n mod 256) # le_bytes k (n div 256)"

fun le_nat :: "byte list \<Rightarrow> nat" where
  "le_nat [] = 0"
| "le_nat (b # bs) = unat b + 256 * le_nat bs"

text \<open>Not a default rule: \<open>le_bytes 4\<close> and \<open>le_bytes 8\<close> stay folded outside closed evaluations.\<close>

lemma le_bytes_numeral:
  "le_bytes (numeral k) n = of_nat (n mod 256) # le_bytes (pred_numeral k) (n div 256)"
  by (simp only: numeral_eq_Suc le_bytes.simps)

lemma unat_byte_less: "unat (b :: byte) < 256"
  using unsigned_less [of b] by simp

lemma length_le_bytes [simp]: "length (le_bytes k n) = k"
  by (induction k arbitrary: n) simp_all

lemma le_nat_le_bytes [simp]: "le_nat (le_bytes k n) = n mod 256 ^ k"
proof (induction k arbitrary: n)
  case 0
  then show ?case by simp
next
  case (Suc k)
  have "unat (of_nat (n mod 256) :: byte) = n mod 256"
    by (simp add: unat_of_nat)
  with Suc show ?case
    by (simp add: mod_mult2_eq add.commute)
qed

lemma le_nat_bound: "le_nat bs < 256 ^ length bs"
proof (induction bs)
  case Nil
  then show ?case by simp
next
  case (Cons b bs)
  have "unat b < 256" by (rule unat_byte_less)
  with Cons show ?case by simp
qed

lemma le_bytes_le_nat: "length bs = k \<Longrightarrow> le_bytes k (le_nat bs) = bs"
proof (induction bs arbitrary: k)
  case Nil
  then show ?case by simp
next
  case (Cons b bs)
  have "unat b < 256" by (rule unat_byte_less)
  moreover have "(of_nat (unat b) :: byte) = b" by simp
  ultimately show ?case using Cons by auto
qed

lemma le_nat_eq_iff:
  assumes "length bs = k" and "n < 256 ^ k"
  shows "le_nat bs = n \<longleftrightarrow> bs = le_bytes k n"
proof
  assume "le_nat bs = n"
  with assms show "bs = le_bytes k n" by (auto simp: le_bytes_le_nat)
next
  assume "bs = le_bytes k n"
  with assms show "le_nat bs = n" by simp
qed

lemma le_bytes_inject:
  assumes "m < 256 ^ k" and "n < 256 ^ k" and "le_bytes k m = le_bytes k n"
  shows "m = n"
  using assms by (metis le_nat_le_bytes mod_less)

section \<open>Ordered sets\<close>

text \<open>
  \<open>collect::<BTreeSet<_>>().into_iter().collect::<Vec<_>>()\<close> sorts and removes duplicates.
  Byte arrays are compared lexicographically, which is the order of
  \<^theory_text>\<open>HOL-Library.List_Lexorder\<close>.
\<close>

definition btree_vec :: "'a::linorder list \<Rightarrow> 'a list" where
  "btree_vec xs = sort (remdups xs)"

lemma set_btree_vec [simp]: "set (btree_vec xs) = set xs"
  by (simp add: btree_vec_def)

lemma sorted_btree_vec [simp]: "sorted_wrt (<) (btree_vec xs)"
  by (simp add: btree_vec_def strict_sorted_iff)

lemma btree_vec_Nil [simp]: "btree_vec [] = []"
  by (simp add: btree_vec_def)

lemma btree_vec_eq_Nil [simp]: "btree_vec xs = [] \<longleftrightarrow> xs = []"
  by (metis set_btree_vec set_empty)

lemma btree_vec_idem: "sorted_wrt (<) xs \<Longrightarrow> btree_vec xs = xs"
  by (simp add: btree_vec_def strict_sorted_iff sorted_sort_id distinct_remdups_id)

lemma btree_vec_unique:
  assumes "sorted_wrt (<) ys" and "set ys = set xs"
  shows "btree_vec xs = ys"
  using assms by (simp add: strict_sorted_equal)

lemma btree_vec_cong: "set xs = set ys \<Longrightarrow> btree_vec xs = btree_vec ys"
  by (rule btree_vec_unique) simp_all

text \<open>\<open>xs.windows(2).all(|w| w[0] < w[1])\<close>.\<close>

fun windows_less :: "'a::linorder list \<Rightarrow> bool" where
  "windows_less (x # y # zs) \<longleftrightarrow> x < y \<and> windows_less (y # zs)"
| "windows_less _ \<longleftrightarrow> True"

lemma windows_less_sorted: "windows_less xs \<longleftrightarrow> sorted_wrt (<) xs"
proof (induction xs rule: windows_less.induct)
  case (1 x y zs)
  then show ?case by fastforce
qed simp_all

lemma windows_less_btree_vec [simp]: "windows_less (btree_vec xs)"
  by (simp add: windows_less_sorted)

section \<open>Chunks\<close>

text \<open>\<open>xs.chunks(n)\<close>, for the positive sizes the code passes, and the full chunks of
  \<open>xs.as_chunks::<n>()\<close>.\<close>

function chunks :: "nat \<Rightarrow> 'a list \<Rightarrow> 'a list list" where
  "chunks n xs = (if n = 0 \<or> xs = [] then [] else take n xs # chunks n (drop n xs))"
  by pat_completeness auto
termination
  by (relation "measure (\<lambda>(n, xs). length xs)") auto

declare chunks.simps [simp del]

definition as_chunks :: "nat \<Rightarrow> 'a list \<Rightarrow> 'a list list" where
  "as_chunks n xs = filter (\<lambda>c. length c = n) (chunks n xs)"

lemma chunks_Nil [simp]: "chunks n [] = []"
  by (simp add: chunks.simps)

lemma chunks_Cons: "0 < n \<Longrightarrow> xs \<noteq> [] \<Longrightarrow> chunks n xs = take n xs # chunks n (drop n xs)"
  by (subst chunks.simps) simp

lemma concat_chunks: "0 < n \<Longrightarrow> concat (chunks n xs) = xs"
  by (induction n xs rule: chunks.induct) (subst chunks.simps, auto)

lemma chunks_length: "c \<in> set (chunks n xs) \<Longrightarrow> c \<noteq> [] \<and> length c \<le> n"
  by (induction n xs rule: chunks.induct) (subst (asm) chunks.simps, auto split: if_splits)

lemma chunks_subset: "c \<in> set (chunks n xs) \<Longrightarrow> set c \<subseteq> set xs"
  by (induction n xs rule: chunks.induct)
    (subst (asm) chunks.simps, auto split: if_splits dest: in_set_takeD in_set_dropD)

section \<open>The codec interface\<close>

text \<open>
  A decoder reads a value from the front of a byte string and returns the rest; an encoder
  writes one. The law of the interface says that the decoder accepts exactly the encodings
  of the well-formed values: every round trip, the injectivity of the encoding and the
  repetition of the codec follow from it.
\<close>

fun dec_list :: "(byte list \<Rightarrow> ('a \<times> byte list) option) \<Rightarrow> nat \<Rightarrow> byte list
    \<Rightarrow> ('a list \<times> byte list) option" where
  "dec_list dec 0 bs = Some ([], bs)"
| "dec_list dec (Suc n) bs = do {
     (x, bs) \<leftarrow> dec bs;
     (xs, bs) \<leftarrow> dec_list dec n bs;
     Some (x # xs, bs) }"

lemma dec_list_roundtrip:
  assumes "\<And>x r. x \<in> set xs \<Longrightarrow> dec (enc x @ r) = Some (x, r)"
  shows "dec_list dec (length xs) (concat (map enc xs) @ rest) = Some (xs, rest)"
  using assms by (induction xs) auto

lemma dec_list_all:
  assumes "dec_list dec n bs = Some (xs, rest)" and "\<And>bs x r. dec bs = Some (x, r) \<Longrightarrow> P x"
  shows "length xs = n \<and> list_all P xs"
  using assms(1)
  by (induction n arbitrary: bs xs) (auto simp: bind_Some_conv split: prod.splits dest: assms(2))

locale codec =
  fixes enc :: "'a \<Rightarrow> byte list"
    and dec :: "byte list \<Rightarrow> ('a \<times> byte list) option"
    and ok :: "'a \<Rightarrow> bool"
  assumes dec_iff: "dec bs = Some (x, rest) \<longleftrightarrow> ok x \<and> bs = enc x @ rest"
begin

lemma roundtrip: "ok x \<Longrightarrow> dec (enc x @ rest) = Some (x, rest)"
  by (simp add: dec_iff)

lemma decoded: "dec bs = Some (x, rest) \<Longrightarrow> ok x \<and> bs = enc x @ rest"
  by (simp add: dec_iff)

lemma prefix_free: "ok x \<Longrightarrow> ok y \<Longrightarrow> enc x @ r = enc y @ s \<Longrightarrow> x = y \<and> r = s"
  by (metis Pair_inject option.inject roundtrip)

lemma enc_inj: "ok x \<Longrightarrow> ok y \<Longrightarrow> enc x = enc y \<Longrightarrow> x = y"
  using prefix_free by blast

lemma dec_list_iff:
  "dec_list dec n bs = Some (xs, rest)
     \<longleftrightarrow> length xs = n \<and> list_all ok xs \<and> bs = concat (map enc xs) @ rest"
proof (induction n arbitrary: bs xs)
  case 0
  then show ?case by auto
next
  case (Suc n)
  show ?case
  proof (cases xs)
    case Nil
    then show ?thesis by (auto simp: bind_Some_conv split: prod.splits)
  next
    case (Cons y ys)
    have "dec_list dec (Suc n) bs = Some (y # ys, rest)
        \<longleftrightarrow> (\<exists>r. dec bs = Some (y, r) \<and> dec_list dec n r = Some (ys, rest))"
      by (auto simp: bind_Some_conv split: prod.splits)
    with Cons show ?thesis by (auto simp: dec_iff Suc)
  qed
qed

end

section \<open>Steps\<close>

text \<open>A step returns its result beside the state it leaves, changed or not.\<close>

type_synonym ('st, 'e, 'a) step = "'st \<Rightarrow> ('e + 'a) \<times> 'st"

definition step_bind :: "('st, 'e, 'a) step \<Rightarrow> ('a \<Rightarrow> ('st, 'e, 'b) step) \<Rightarrow> ('st, 'e, 'b) step" where
  "step_bind m k st = (case m st of (Inl e, st) \<Rightarrow> (Inl e, st) | (Inr x, st) \<Rightarrow> k x st)"

text \<open>A value read from the state, and an update that may fail and then changes nothing.\<close>

definition step_get :: "('st \<Rightarrow> 'e + 'a) \<Rightarrow> ('st, 'e, 'a) step" where
  "step_get f st = (f st, st)"

definition step_try :: "('st \<Rightarrow> 'e + 'st) \<Rightarrow> ('st, 'e, unit) step" where
  "step_try f st = (case f st of Inl e \<Rightarrow> (Inl e, st) | Inr st \<Rightarrow> (Inr (), st))"

definition step_err :: "('e \<Rightarrow> 'f) \<Rightarrow> ('st, 'e, 'a) step \<Rightarrow> ('st, 'f, 'a) step" where
  "step_err f m st = (case m st of (Inl e, st) \<Rightarrow> (Inl (f e), st) | (Inr x, st) \<Rightarrow> (Inr x, st))"

end
