(* ===== verification/Wire.thy ===== *)
theory Wire
  imports Prelude
begin

text \<open>
  The byte-level framing of the native proof library, \<open>adaptive/native/ffi/src/lib.rs\<close>:
  the bounded \<open>Reader\<close> and its writers, and the \<open>Preflight\<close> pass that walks a serialised
  proof and bounds every allocation before the deserialiser runs.

  The reader's state is the unread rest of its buffer; a method returns its value with the
  new rest, and \<open>None\<close> for \<open>Err(())\<close> (all callers return early, so the state after an
  error is never seen).
\<close>

section \<open>Limits\<close>

definition MAX_DEPENDENCIES :: nat where "MAX_DEPENDENCIES = 256"
definition MAX_GENERIC_DEPENDENCIES :: nat where "MAX_GENERIC_DEPENDENCIES = 16"
definition MAX_GENERIC_BYTECODE_LOG :: nat where "MAX_GENERIC_BYTECODE_LOG = 11"

definition MAX_BYTES :: nat where "MAX_BYTES = 8 * 1024 * 1024"
definition MAX_INPUT_BYTES :: nat where "MAX_INPUT_BYTES = 18 * 1024 * 1024"
definition MAX_DEPS :: nat where "MAX_DEPS = MAX_DEPENDENCIES"
definition MAX_MIXED_GUEST_BYTES :: nat where
  "MAX_MIXED_GUEST_BYTES = MAX_BYTES - 12 - 96 * MAX_DEPS"
definition MAX_INSTRUCTIONS :: nat where "MAX_INSTRUCTIONS = 2 ^ MAX_GENERIC_BYTECODE_LOG"
definition MAX_OPERAND :: nat where "MAX_OPERAND = 65535"
definition MAX_GENERIC_STARKS :: nat where "MAX_GENERIC_STARKS = MAX_GENERIC_DEPENDENCIES"
definition MAX_DECODE_BYTES :: nat where "MAX_DECODE_BYTES = 32 * 1024 * 1024"
definition MAGIC :: "byte list" where "MAGIC = [0x4E, 0x4C, 0x52, 0x33]"

lemmas limit_defs =
  MAX_DEPENDENCIES_def MAX_GENERIC_DEPENDENCIES_def MAX_GENERIC_BYTECODE_LOG_def
  MAX_BYTES_def MAX_INPUT_BYTES_def MAX_DEPS_def MAX_MIXED_GUEST_BYTES_def
  MAX_INSTRUCTIONS_def MAX_OPERAND_def MAX_GENERIC_STARKS_def MAX_DECODE_BYTES_def

lemma length_MAGIC [simp]: "length MAGIC = 4"
  by (simp add: MAGIC_def)

section \<open>The reader\<close>

type_synonym dep = "byte list"

definition rd_take :: "nat \<Rightarrow> byte list \<Rightarrow> (byte list \<times> byte list) option" where
  "rd_take n bytes = (if n > length bytes then None else Some (take n bytes, drop n bytes))"

definition rd_number :: "byte list \<Rightarrow> (nat \<times> byte list) option" where
  "rd_number bytes = do { (b, bytes) \<leftarrow> rd_take 4 bytes; Some (le_nat b, bytes) }"

definition rd_count :: "byte list \<Rightarrow> (nat \<times> byte list) option" where
  "rd_count bytes = do {
     (n, bytes) \<leftarrow> rd_number bytes;
     if n > MAX_DEPS then None else Some (n, bytes) }"

definition rd_blob :: "byte list \<Rightarrow> (byte list \<times> byte list) option" where
  "rd_blob bytes = do {
     (n, bytes) \<leftarrow> rd_number bytes;
     guard (\<not> n > MAX_BYTES);
     rd_take n bytes }"

definition rd_dep :: "byte list \<Rightarrow> (dep \<times> byte list) option" where
  "rd_dep bytes = do {
     (d, bytes) \<leftarrow> rd_take 96 bytes;
     guard (\<not> (list_ex (\<lambda>b. b \<noteq> 0) (take 31 d) \<or> d ! 31 \<notin> {0x10, 0x11}));
     Some (d, bytes) }"

definition rd_deps :: "byte list \<Rightarrow> (dep list \<times> byte list) option" where
  "rd_deps bytes = do { (n, bytes) \<leftarrow> rd_count bytes; dec_list rd_dep n bytes }"

definition rd_end :: "byte list \<Rightarrow> unit option" where
  "rd_end bytes = (if bytes = [] then Some () else None)"

subsection \<open>Writers\<close>

definition put_number :: "byte list \<Rightarrow> nat \<Rightarrow> byte list" where
  "put_number out n = out @ le_bytes 4 (n mod 2 ^ 32)"

definition put_blob :: "byte list \<Rightarrow> byte list \<Rightarrow> byte list" where
  "put_blob out b = put_number out (length b) @ b"

definition put_deps :: "byte list \<Rightarrow> dep list \<Rightarrow> byte list" where
  "put_deps out ds = fold (\<lambda>d out. out @ d) ds (put_number out (length ds))"

lemma put_deps_eq: "put_deps out ds = put_number out (length ds) @ concat ds"
proof -
  have "fold (\<lambda>d out. out @ d) ds acc = acc @ concat ds" for acc :: "byte list"
    by (induction ds arbitrary: acc) auto
  then show ?thesis by (simp add: put_deps_def)
qed

subsection \<open>What a successful read says\<close>

text \<open>A dependency is a big-endian scheme word (only \<open>0x10\<close> and \<open>0x11\<close> exist), the data
  hash and the verification-key hash.\<close>

definition canonical_dep :: "dep \<Rightarrow> bool" where
  "canonical_dep d \<longleftrightarrow> length d = 96 \<and> take 31 d = replicate 31 0 \<and> d ! 31 \<in> {0x10, 0x11}"

lemma list_ex_zero: "\<not> list_ex (\<lambda>b. b \<noteq> (0::byte)) xs \<longleftrightarrow> xs = replicate (length xs) 0"
  by (induction xs) auto

lemma rd_take_Some [dec_simps]:
  "rd_take n bs = Some (b, rest) \<longleftrightarrow> length b = n \<and> bs = b @ rest"
  by (auto simp: rd_take_def)

lemma rd_number_Some [dec_simps]:
  "rd_number bs = Some (n, rest) \<longleftrightarrow> n < 2 ^ 32 \<and> bs = le_bytes 4 n @ rest"
proof
  assume "rd_number bs = Some (n, rest)"
  then obtain b where "length b = 4" "bs = b @ rest" "n = le_nat b"
    by (auto simp: rd_number_def dec_simps split: prod.splits)
  then show "n < 2 ^ 32 \<and> bs = le_bytes 4 n @ rest"
    using le_nat_bound [of b] by (simp add: le_bytes_le_nat)
next
  assume "n < 2 ^ 32 \<and> bs = le_bytes 4 n @ rest"
  then show "rd_number bs = Some (n, rest)"
    by (simp add: rd_number_def rd_take_def)
qed

lemma rd_count_Some [dec_simps]:
  "rd_count bs = Some (n, rest) \<longleftrightarrow> n \<le> MAX_DEPS \<and> bs = le_bytes 4 n @ rest"
  by (auto simp: rd_count_def dec_simps limit_defs split: if_splits prod.splits intro!: exI [of _ n])

lemma rd_end_Some [dec_simps]: "rd_end bs = Some u \<longleftrightarrow> bs = []"
  by (simp add: rd_end_def)

lemma dep_guard_iff:
  assumes "length d = 96"
  shows "\<not> (list_ex (\<lambda>b. b \<noteq> 0) (take 31 d) \<or> d ! 31 \<notin> {0x10, 0x11}) \<longleftrightarrow> canonical_dep d"
proof -
  have "(\<not> list_ex (\<lambda>b. b \<noteq> (0::byte)) (take 31 d)) \<longleftrightarrow> take 31 d = replicate 31 0"
    using list_ex_zero [of "take 31 d"] assms by simp
  then show ?thesis using assms unfolding canonical_dep_def by blast
qed

interpretation blob: codec "put_blob []" rd_blob "\<lambda>b. length b \<le> MAX_BYTES"
proof unfold_locales
  fix bs b rest
  show "rd_blob bs = Some (b, rest) \<longleftrightarrow> length b \<le> MAX_BYTES \<and> bs = put_blob [] b @ rest"
    by (auto simp: rd_blob_def put_blob_def put_number_def dec_simps limit_defs split: prod.splits)
qed

interpretation dependency: codec "\<lambda>d. d" rd_dep canonical_dep
proof unfold_locales
  fix bs d rest
  have "rd_dep bs = Some (d, rest) \<longleftrightarrow> length d = 96 \<and> bs = d @ rest
      \<and> \<not> (list_ex (\<lambda>b. b \<noteq> 0) (take 31 d) \<or> d ! 31 \<notin> {0x10, 0x11})"
    by (auto simp: rd_dep_def dec_simps split: prod.splits)
  also have "\<dots> \<longleftrightarrow> length d = 96 \<and> bs = d @ rest \<and> canonical_dep d"
    using dep_guard_iff [of d] by blast
  finally have "rd_dep bs = Some (d, rest) \<longleftrightarrow> length d = 96 \<and> bs = d @ rest \<and> canonical_dep d" .
  then show "rd_dep bs = Some (d, rest) \<longleftrightarrow> canonical_dep d \<and> bs = d @ rest"
    by (auto simp: canonical_dep_def)
qed

interpretation dependencies: codec "put_deps []" rd_deps
  "\<lambda>ds. length ds \<le> MAX_DEPS \<and> list_all canonical_dep ds"
proof unfold_locales
  fix bs ds rest
  show "rd_deps bs = Some (ds, rest)
      \<longleftrightarrow> (length ds \<le> MAX_DEPS \<and> list_all canonical_dep ds) \<and> bs = put_deps [] ds @ rest"
    by (auto simp: rd_deps_def put_deps_eq put_number_def dec_simps dependency.dec_list_iff
        limit_defs split: prod.splits)
qed

lemmas reader_simps = dec_simps blob.dec_iff dependency.dec_iff dependencies.dec_iff

lemma canonical_dep_length: "canonical_dep d \<Longrightarrow> length d = 96"
  by (simp add: canonical_dep_def)

lemma length_concat_deps: "list_all canonical_dep ds \<Longrightarrow> length (concat ds) = 96 * length ds"
  by (induction ds) (auto simp: canonical_dep_length)

text \<open>Dependencies have a fixed width, so their concatenation, the preimage of the
  commitment, determines the list.\<close>

lemma concat_deps_inj:
  assumes "list_all canonical_dep xs" and "list_all canonical_dep ys" and "concat xs = concat ys"
  shows "xs = ys"
  using assms
proof (induction xs arbitrary: ys)
  case Nil
  then show ?case by (cases ys) (auto simp: canonical_dep_def)
next
  case (Cons x xs)
  from Cons.prems obtain y ys' where ys: "ys = y # ys'"
    by (cases ys) (auto simp: canonical_dep_def)
  with Cons.prems have "x = y \<and> concat xs = concat ys'"
    by (auto simp: canonical_dep_def append_eq_append_conv)
  with Cons ys show ?case by simp
qed

end
