(* ===== verification/Program_Codec.thy ===== *)
theory Program_Codec
  imports Wire
begin

unbundle bit_operations_syntax

text \<open>
  Programs of the proving machine and their two byte encoders: \<open>encode_program\<close> and the strict
  decoder \<open>stark_program\<close> of \<open>adaptive/native/ffi/src/lib.rs\<close>, and the checking encoder of
  \<open>rec_aggregation/src/eip8288_mixed.rs\<close>, whose hash is a program's verification key.
\<close>

section \<open>Instructions and programs\<close>

text \<open>A machine word: three 64-bit limbs over \<open>GF(2^64)\<close>. \<open>F192::new\<close> stores the limbs as given.\<close>

datatype F192 = F192 (c0: u64) (c1: u64) (c2: u64)

datatype deref_mode = Cell | Pc | Fp

text \<open>The opcodes, with the operands both encoders destructure in full.\<close>

datatype opcode =
    Op_Xor u32 u32 u32
  | Op_Mul u32 u32 u32
  | Op_Set u32 F192
  | Op_Deref u32 u32 u32 deref_mode
  | Op_Jump u32 u32 u32
  | Op_Blake2s "u32 \<times> u32 \<times> u32 \<times> u32" u32 u32 u32
  | Op_Sha3 "u32 \<times> u32 \<times> u32 \<times> u32 \<times> u32 \<times> u32 \<times> u32 \<times> u32" u32 u32 bool

text \<open>
  The part of \<open>lean_vm::cpu::Program\<close> that verification and the recursive prover read. The
  allocation hints, fill blocks, function ranges and source lines serve the interpreter and
  its diagnostics only; the bytecode columns are a cache of \<open>prog\<close>.
\<close>

record program =
  prog :: "opcode list"
  bytecode_hash :: "byte list"
  witness_streams :: "string \<rightharpoonup> F192 list list"
  min_log_committed :: nat

text \<open>\<open>Program::assemble\<close>: the hash of the bytecode table, which lies outside this repository,
  is the parameter \<open>digest\<close>.\<close>

definition assemble :: "(opcode list \<Rightarrow> byte list) \<Rightarrow> opcode list \<Rightarrow> program" where
  "assemble digest ops = \<lparr>prog = ops, bytecode_hash = digest ops, witness_streams = Map.empty,
     min_log_committed = 0\<rparr>"

text \<open>\<open>usize::is_power_of_two\<close> and \<open>usize::trailing_zeros\<close>.\<close>

fun is_power_of_two :: "nat \<Rightarrow> bool" where
  "is_power_of_two n = (if n = 0 then False else if n = 1 then True
     else even n \<and> is_power_of_two (n div 2))"

declare is_power_of_two.simps [simp del]

lemma is_power_of_two_iff: "is_power_of_two n \<longleftrightarrow> (\<exists>k. n = 2 ^ k)"
proof (induction n rule: is_power_of_two.induct)
  case (1 n)
  show ?case
  proof (cases "n = 0 \<or> n = 1")
    case True
    then show ?thesis
      by (subst is_power_of_two.simps) (auto intro: exI [of _ 0])
  next
    case False
    then have "is_power_of_two n \<longleftrightarrow> even n \<and> (\<exists>k. n div 2 = 2 ^ k)"
      using 1 by (subst is_power_of_two.simps) auto
    also have "\<dots> \<longleftrightarrow> (\<exists>k. n = 2 ^ Suc k)"
      by auto
    also have "\<dots> \<longleftrightarrow> (\<exists>k. n = 2 ^ k)"
      using False by (metis not0_implies_Suc power_0)
    finally show ?thesis .
  qed
qed

section \<open>The instruction record\<close>

text \<open>\<open>m[4] as u64 | ((m[5] as u64) << 32)\<close> and its inverse \<open>halves\<close>.\<close>

definition join32 :: "u32 \<Rightarrow> u32 \<Rightarrow> u64" where
  "join32 lo hi = (ucast lo OR push_bit 32 (ucast hi))"

definition halves :: "u64 \<Rightarrow> u32 \<times> u32" where
  "halves v = (ucast v, ucast (drop_bit 32 v))"

lemma halves_join32 [simp]: "halves (join32 lo hi) = (lo, hi)"
proof -
  have "ucast (join32 lo hi) = lo"
    by (rule bit_word_eqI) (auto simp: join32_def bit_simps)
  moreover have "ucast (drop_bit 32 (join32 lo hi)) = hi"
    by (rule bit_word_eqI) (auto simp: join32_def bit_simps dest: bit_imp_le_length)
  ultimately show ?thesis by (simp add: halves_def)
qed

text \<open>Tag, four operands, three limbs and the metadata operand.\<close>

fun op_record :: "opcode \<Rightarrow> byte \<times> u32 list \<times> u64 list \<times> u32" where
  "op_record (Op_Xor a b c) = (0, [a, b, c, 0], [0, 0, 0], 0)"
| "op_record (Op_Mul a b c) = (1, [a, b, c, 0], [0, 0, 0], 0)"
| "op_record (Op_Set out k) = (2, [out, 0, 0, 0], [c0 k, c1 k, c2 k], 0)"
| "op_record (Op_Deref o1 o2 o3 mode) =
     (3, [o1, o2, o3, (case mode of Cell \<Rightarrow> 0 | Pc \<Rightarrow> 1 | Fp \<Rightarrow> 2)], [0, 0, 0], 0)"
| "op_record (Op_Jump oc od off) = (4, [oc, od, off, 0], [0, 0, 0], 0)"
| "op_record (Op_Blake2s (i0, i1, i2, i3) cv out md) =
     (5, [i0, i1, i2, i3], [ucast cv, ucast out, 0], md)"
| "op_record (Op_Sha3 (m0, m1, m2, m3, m4, m5, m6, m7) cap out digest) =
     (6, [m0, m1, m2, m3], [join32 m4 m5, join32 m6 m7, join32 cap out], of_bool digest)"

definition le32 :: "u32 \<Rightarrow> byte list" where "le32 x = le_bytes 4 (unat x)"
definition le64 :: "u64 \<Rightarrow> byte list" where "le64 x = le_bytes 8 (unat x)"

definition record_bytes :: "byte \<times> u32 list \<times> u64 list \<times> u32 \<Rightarrow> byte list" where
  "record_bytes r = (case r of (tag, args, limbs, md) \<Rightarrow>
     tag # concat (map le32 args) @ concat (map le64 limbs) @ le32 md)"

definition encode_op :: "opcode \<Rightarrow> byte list" where
  "encode_op i = record_bytes (op_record i)"

definition encode_program :: "program \<Rightarrow> byte list" where
  "encode_program p = fold (\<lambda>i out. out @ encode_op i) (prog p) (put_number [] (length (prog p)))"

lemma encode_program_eq:
  "encode_program p = le_bytes 4 (length (prog p) mod 2 ^ 32) @ concat (map encode_op (prog p))"
proof -
  have "fold (\<lambda>i out. out @ encode_op i) is acc = acc @ concat (map encode_op is)" for "is" acc
    by (induction "is" arbitrary: acc) auto
  then show ?thesis by (simp add: encode_program_def put_number_def)
qed

section \<open>The strict decoder\<close>

definition rd_u32 :: "byte list \<Rightarrow> (u32 \<times> byte list) option" where
  "rd_u32 bytes = do { (n, bytes) \<leftarrow> rd_number bytes; Some (of_nat n, bytes) }"

definition rd_u64 :: "byte list \<Rightarrow> (u64 \<times> byte list) option" where
  "rd_u64 bytes = do { (b, bytes) \<leftarrow> rd_take 8 bytes; Some (of_nat (le_nat b), bytes) }"

definition above_operand :: "u32 \<Rightarrow> bool" where
  "above_operand v \<longleftrightarrow> unat v > MAX_OPERAND"

text \<open>The \<open>match tag\<close> of \<open>stark_program\<close>, on the four operands, the limbs and the metadata.\<close>

definition build_op :: "byte \<Rightarrow> u32 list \<Rightarrow> u64 list \<Rightarrow> u32 \<Rightarrow> opcode option" where
  "build_op tag a k md =
     (if tag = 0 then Some (Op_Xor (a ! 0) (a ! 1) (a ! 2))
      else if tag = 1 then Some (Op_Mul (a ! 0) (a ! 1) (a ! 2))
      else if tag = 2 then Some (Op_Set (a ! 0) (F192 (k ! 0) (k ! 1) (k ! 2)))
      else if tag = 3 then
        (if a ! 3 = 0 then Some (Op_Deref (a ! 0) (a ! 1) (a ! 2) Cell)
         else if a ! 3 = 1 then Some (Op_Deref (a ! 0) (a ! 1) (a ! 2) Pc)
         else if a ! 3 = 2 then Some (Op_Deref (a ! 0) (a ! 1) (a ! 2) Fp)
         else None)
      else if tag = 4 then Some (Op_Jump (a ! 0) (a ! 1) (a ! 2))
      else if tag = 5 \<and> unat (k ! 0) < 2 ^ 32 \<and> unat (k ! 1) < 2 ^ 32 then
        Some (Op_Blake2s (a ! 0, a ! 1, a ! 2, a ! 3) (ucast (k ! 0)) (ucast (k ! 1)) md)
      else if tag = 6 \<and> md \<le> 1 then
        (let (m4, m5) = halves (k ! 0); (m6, m7) = halves (k ! 1); (cap, out) = halves (k ! 2)
         in if list_ex above_operand [a ! 0, a ! 1, a ! 2, a ! 3, m4, m5, m6, m7]
               \<or> unat cap > MAX_OPERAND - 4 \<or> unat out > MAX_OPERAND - 12
            then None
            else Some (Op_Sha3 (a ! 0, a ! 1, a ! 2, a ! 3, m4, m5, m6, m7) cap out (md \<noteq> 0)))
      else None)"

definition decode_op :: "byte list \<Rightarrow> (opcode \<times> byte list) option" where
  "decode_op r = do {
     (t, r) \<leftarrow> rd_take 1 r;
     let tag = t ! 0;
     (a, r) \<leftarrow> dec_list rd_u32 4 r;
     (k, r) \<leftarrow> dec_list rd_u64 3 r;
     (md, r) \<leftarrow> rd_u32 r;
     guard (\<not> (list_ex above_operand a \<or> above_operand md
       \<or> (tag = 5 \<and> (unat (k ! 0) > MAX_OPERAND \<or> unat (k ! 1) > MAX_OPERAND))));
     i \<leftarrow> build_op tag a k md;
     Some (i, r) }"

definition stark_program :: "(opcode list \<Rightarrow> byte list) \<Rightarrow> byte list \<Rightarrow> program option" where
  "stark_program digest code = do {
     (n, r) \<leftarrow> rd_number code;
     guard (\<not> (n = 0 \<or> n > MAX_INSTRUCTIONS \<or> \<not> is_power_of_two n \<or> length r \<noteq> n * 45));
     (ops, r) \<leftarrow> dec_list decode_op n r;
     let p = assemble digest ops;
     guard (encode_program p = code);
     Some p }"

section \<open>The checking encoder of the mixed profile\<close>

text \<open>Errors of crates outside this repository are carried as the text they display.\<close>

datatype mixed_error =
    Err_Dependencies
  | Err_Program
  | Err_Encoding
  | Err_Capacity
  | Err_Proof string
  | Err_Witness string
  | Err_Prover string

fun fmt_mixed_error :: "mixed_error \<Rightarrow> string" where
  "fmt_mixed_error Err_Dependencies = ''noncanonical mixed dependency set''"
| "fmt_mixed_error Err_Program = ''unsupported generic program encoding''"
| "fmt_mixed_error Err_Encoding = ''malformed mixed proof encoding''"
| "fmt_mixed_error Err_Capacity = ''mixed proof exceeds profile capacity''"
| "fmt_mixed_error (Err_Proof e) = ''mixed proof verification failed: '' @ e"
| "fmt_mixed_error (Err_Witness e) = ''mixed proof witness failed: '' @ e"
| "fmt_mixed_error (Err_Prover e) = ''mixed prover failed: '' @ e"

text \<open>The match guards of the mixed encoder: \<open>None\<close> is its \<open>_ => return Err(Program)\<close> arm.\<close>

definition mixed_op_record :: "opcode \<Rightarrow> (byte \<times> u32 list \<times> u64 list \<times> u32) option" where
  "mixed_op_record i = (case i of
       Op_Blake2s ins cv out md \<Rightarrow>
         if unat cv \<le> 65535 \<and> unat out \<le> 65535 then Some (op_record i) else None
     | Op_Sha3 (m0, m1, m2, m3, m4, m5, m6, m7) cap out digest \<Rightarrow>
         if list_all (\<lambda>v. unat v \<le> 65535) [m0, m1, m2, m3, m4, m5, m6, m7]
           \<and> unat cap \<le> 65531 \<and> unat out \<le> 65523
         then Some (op_record i) else None
     | _ \<Rightarrow> Some (op_record i))"

fun mixed_encode_ops :: "opcode list \<Rightarrow> byte list \<Rightarrow> mixed_error + byte list" where
  "mixed_encode_ops [] bytes = Inr bytes"
| "mixed_encode_ops (i # is) bytes = (case mixed_op_record i of
       None \<Rightarrow> Inl Err_Program
     | Some (tag, args, limbs, md) \<Rightarrow>
         if list_ex (\<lambda>v. unat v > 65535) args \<or> unat md > 65535 then Inl Err_Program
         else mixed_encode_ops is (bytes @ record_bytes (tag, args, limbs, md)))"

definition mixed_encode_program :: "program \<Rightarrow> mixed_error + byte list" where
  "mixed_encode_program p =
     (let n = length (prog p) in
      if \<not> is_power_of_two n \<or> n > 2 ^ MAX_GENERIC_BYTECODE_LOG then Inl Err_Program
      else mixed_encode_ops (prog p) (le_bytes 4 (n mod 2 ^ 32)))"

section \<open>Well-formed instructions\<close>

definition small :: "u32 \<Rightarrow> bool" where "small v \<longleftrightarrow> unat v \<le> MAX_OPERAND"

fun op_ok :: "opcode \<Rightarrow> bool" where
  "op_ok (Op_Xor a b c) \<longleftrightarrow> small a \<and> small b \<and> small c"
| "op_ok (Op_Mul a b c) \<longleftrightarrow> small a \<and> small b \<and> small c"
| "op_ok (Op_Set out k) \<longleftrightarrow> small out"
| "op_ok (Op_Deref o1 o2 o3 mode) \<longleftrightarrow> small o1 \<and> small o2 \<and> small o3"
| "op_ok (Op_Jump oc od off) \<longleftrightarrow> small oc \<and> small od \<and> small off"
| "op_ok (Op_Blake2s (i0, i1, i2, i3) cv out md) \<longleftrightarrow>
     small i0 \<and> small i1 \<and> small i2 \<and> small i3 \<and> small cv \<and> small out \<and> small md"
| "op_ok (Op_Sha3 (m0, m1, m2, m3, m4, m5, m6, m7) cap out digest) \<longleftrightarrow>
     list_all small [m0, m1, m2, m3, m4, m5, m6, m7]
     \<and> unat cap \<le> MAX_OPERAND - 4 \<and> unat out \<le> MAX_OPERAND - 12"

definition program_ok :: "opcode list \<Rightarrow> bool" where
  "program_ok ops \<longleftrightarrow> is_power_of_two (length ops) \<and> length ops \<le> MAX_INSTRUCTIONS
     \<and> list_all op_ok ops"

lemma length_le32 [simp]: "length (le32 x) = 4"
  by (simp add: le32_def)

lemma length_le64 [simp]: "length (le64 x) = 8"
  by (simp add: le64_def)

lemma length_concat_le32: "length (concat (map le32 xs)) = 4 * length xs"
  by (induction xs) auto

lemma length_concat_le64: "length (concat (map le64 xs)) = 8 * length xs"
  by (induction xs) auto

lemma length_encode_op [simp]: "length (encode_op i) = 45"
  by (cases i rule: op_record.cases)
    (auto simp: encode_op_def record_bytes_def)

lemma length_encode_program: "length (encode_program p) = 4 + 45 * length (prog p)"
proof -
  have "length (concat (map encode_op is)) = 45 * length is" for "is"
    by (induction "is") auto
  then show ?thesis by (simp add: encode_program_eq)
qed

interpretation u32: codec le32 rd_u32 "\<lambda>_. True"
proof unfold_locales
  fix bs x rest
  have "rd_u32 bs = Some (x, rest)
      \<longleftrightarrow> (\<exists>n. n < 2 ^ 32 \<and> bs = le_bytes 4 n @ rest \<and> x = of_nat n)"
    by (auto simp: rd_u32_def dec_simps split: prod.splits)
  also have "\<dots> \<longleftrightarrow> bs = le32 x @ rest"
    by (auto simp: le32_def unat_of_nat take_bit_nat_eq_self unsigned_of_nat
        intro!: exI [of _ "unat x"] order_less_le_trans [OF unsigned_less])
  finally show "rd_u32 bs = Some (x, rest) \<longleftrightarrow> True \<and> bs = le32 x @ rest" by simp
qed

interpretation u64: codec le64 rd_u64 "\<lambda>_. True"
proof unfold_locales
  fix bs x rest
  have "rd_u64 bs = Some (x, rest)
      \<longleftrightarrow> (\<exists>b. length b = 8 \<and> bs = b @ rest \<and> x = of_nat (le_nat b))"
    by (auto simp: rd_u64_def dec_simps split: prod.splits)
  also have "\<dots> \<longleftrightarrow> bs = le64 x @ rest"
  proof
    assume "\<exists>b. length b = 8 \<and> bs = b @ rest \<and> x = of_nat (le_nat b)"
    then obtain b where b: "length b = 8" "bs = b @ rest" "x = of_nat (le_nat b)" by blast
    from b(1) have "le_nat b < 2 ^ 64" using le_nat_bound [of b] by simp
    with b have "unat x = le_nat b" by (simp add: unsigned_of_nat take_bit_nat_eq_self)
    with b show "bs = le64 x @ rest" by (simp add: le64_def le_bytes_le_nat)
  next
    assume "bs = le64 x @ rest"
    moreover have "unat x < 256 ^ 8" using unsigned_less [of x] by simp
    ultimately show "\<exists>b. length b = 8 \<and> bs = b @ rest \<and> x = of_nat (le_nat b)"
      by (intro exI [of _ "le64 x"]) (simp add: le64_def)
  qed
  finally show "rd_u64 bs = Some (x, rest) \<longleftrightarrow> True \<and> bs = le64 x @ rest" by simp
qed

section \<open>The decoder inverts the encoder\<close>

definition operands_refused :: "byte \<Rightarrow> u32 list \<Rightarrow> u64 list \<Rightarrow> u32 \<Rightarrow> bool" where
  "operands_refused tag a k md \<longleftrightarrow> list_ex above_operand a \<or> above_operand md
     \<or> (tag = 5 \<and> (unat (k ! 0) > MAX_OPERAND \<or> unat (k ! 1) > MAX_OPERAND))"

lemma decode_op_record:
  assumes "length a = 4" and "length k = 3"
  shows "decode_op (record_bytes (tag, a, k, md) @ r) =
    (if operands_refused tag a k md then None else map_option (\<lambda>i. (i, r)) (build_op tag a k md))"
proof -
  let ?r1 = "concat (map le64 k) @ le32 md @ r"
  have "rd_take 1 (record_bytes (tag, a, k, md) @ r) = Some ([tag], concat (map le32 a) @ ?r1)"
    by (simp add: rd_take_def record_bytes_def)
  moreover have "dec_list rd_u32 4 (concat (map le32 a) @ ?r1) = Some (a, ?r1)"
    using assms by (simp add: u32.dec_list_iff list_all_iff)
  moreover have "dec_list rd_u64 3 ?r1 = Some (k, le32 md @ r)"
    using assms by (simp add: u64.dec_list_iff list_all_iff)
  moreover have "rd_u32 (le32 md @ r) = Some (md, r)"
    by (simp add: u32.dec_iff)
  ultimately show ?thesis
    by (cases "build_op tag a k md")
      (simp_all add: decode_op_def operands_refused_def Let_def guard_def)
qed

lemma decode_op_SomeE:
  assumes "decode_op bs = Some (i, r)"
  obtains tag a0 a1 a2 a3 k0 k1 k2 md where
    "\<not> operands_refused tag [a0, a1, a2, a3] [k0, k1, k2] md"
    "build_op tag [a0, a1, a2, a3] [k0, k1, k2] md = Some i"
proof -
  from assms obtain tag a k md r1 r2 r3 where a: "dec_list rd_u32 4 r1 = Some (a, r2)"
    and k: "dec_list rd_u64 3 r2 = Some (k, r3)"
    and g: "\<not> operands_refused tag a k md" and b: "build_op tag a k md = Some i"
    unfolding decode_op_def operands_refused_def Let_def
    by (simp only: bind_Some_conv split_paired_Ex case_prod_conv guard_Some option.inject prod.inject)
      blast
  from a have "length a = 4" by (simp add: u32.dec_list_iff)
  then obtain a0 a1 a2 a3 where "a = [a0, a1, a2, a3]"
    by (auto simp: eval_nat_numeral length_Suc_conv)
  moreover from k have "length k = 3" by (simp add: u64.dec_list_iff)
  then obtain k0 k1 k2 where "k = [k0, k1, k2]"
    by (auto simp: eval_nat_numeral length_Suc_conv)
  ultimately show ?thesis using g b that by blast
qed

lemma unat_ucast_small:
  assumes "unat (x :: u64) < 2 ^ 32"
  shows "unat (ucast x :: u32) = unat x"
  using assms by (simp add: take_bit_nat_eq_self unsigned_ucast_eq)

lemma build_op_ok:
  assumes "\<not> operands_refused tag [a0, a1, a2, a3] [k0, k1, k2] md"
    and "build_op tag [a0, a1, a2, a3] [k0, k1, k2] md = Some i"
  shows "op_ok i"
  using assms
  by (auto simp: build_op_def operands_refused_def above_operand_def small_def not_less Let_def
      unat_ucast_small split: if_splits prod.splits)

lemma decode_op_ok: "decode_op bs = Some (i, r) \<Longrightarrow> op_ok i"
  by (erule decode_op_SomeE) (rule build_op_ok)

lemma unat_ucast_up [simp]: "unat (ucast (x :: u32) :: u64) = unat x"
  by (simp add: unsigned_ucast_eq take_bit_nat_eq_self less_le_trans [OF unsigned_less])

lemma ucast_up_down [simp]: "(ucast (ucast (x :: u32) :: u64) :: u32) = x"
  by (rule bit_word_eqI) (auto simp: bit_simps)

lemma build_op_record:
  assumes "op_ok i" and "op_record i = (tag, a, k, md)"
  shows "\<not> operands_refused tag a k md \<and> build_op tag a k md = Some i"
  using assms
  by (cases i rule: op_record.cases)
    (auto simp: build_op_def operands_refused_def above_operand_def small_def not_less Let_def
      limit_defs split: deref_mode.splits)

lemma op_record_lengths: "op_record i = (tag, a, k, md) \<Longrightarrow> length a = 4 \<and> length k = 3"
  by (cases i rule: op_record.cases) auto

lemma decode_encode_op: "op_ok i \<Longrightarrow> decode_op (encode_op i @ r) = Some (i, r)"
proof -
  assume ok: "op_ok i"
  obtain tag a k md where rec: "op_record i = (tag, a, k, md)" by (cases "op_record i")
  show ?thesis
    using build_op_record [OF ok rec] op_record_lengths [OF rec]
    by (simp add: encode_op_def rec decode_op_record)
qed

lemma decode_encode_ops:
  "list_all op_ok ops \<Longrightarrow> dec_list decode_op (length ops) (concat (map encode_op ops)) = Some (ops, [])"
  using dec_list_roundtrip [of ops decode_op encode_op "[]"]
  by (simp add: list_all_iff decode_encode_op)

lemma prog_assemble [simp]: "prog (assemble digest ops) = ops"
  by (simp add: assemble_def)

lemma stark_program_Some:
  assumes "stark_program digest code = Some p"
  shows "program_ok (prog p)" and "encode_program p = code" and "p = assemble digest (prog p)"
proof -
  from assms obtain n r ops r' where n: "is_power_of_two n" "n \<le> MAX_INSTRUCTIONS"
    and ops: "dec_list decode_op n r = Some (ops, r')"
    and p: "p = assemble digest ops" "encode_program p = code"
    by (auto simp: stark_program_def dec_simps Let_def not_less split: prod.splits)
  moreover from ops have "length ops = n \<and> list_all op_ok ops"
    by (rule dec_list_all) (rule decode_op_ok)
  ultimately show "program_ok (prog p)" and "encode_program p = code"
    and "p = assemble digest (prog p)"
    by (auto simp: program_ok_def)
qed

lemma stark_program_of_ok:
  assumes "program_ok ops"
  shows "stark_program digest (encode_program (assemble digest ops)) = Some (assemble digest ops)"
proof -
  let ?code = "encode_program (assemble digest ops)"
  let ?n = "length ops"
  have n: "?n \<noteq> 0" "?n < 2 ^ 32"
    using assms by (auto simp: program_ok_def is_power_of_two.simps [of 0] limit_defs)
  have "?code = le_bytes 4 ?n @ concat (map encode_op ops)"
    using assms n by (simp add: encode_program_eq)
  then have "rd_number ?code = Some (?n, concat (map encode_op ops))"
    using n by (simp add: rd_number_Some)
  moreover have "length (concat (map encode_op ops)) = ?n * 45"
    by (induction ops) auto
  ultimately show ?thesis
    using assms n decode_encode_ops [of ops]
    by (simp add: stark_program_def guard_def program_ok_def Let_def)
qed

text \<open>
  C7. The strict decoder accepts a byte string exactly when it is the encoding of a program
  whose length is a power of two of at most 2048 instructions and whose operands are within
  their bounds, and it then returns that program: every accepted verification-key preimage is
  canonical, whatever a looser parse of its records would read.
\<close>

theorem stark_program_exact:
  "stark_program digest code = Some p \<longleftrightarrow>
     (\<exists>ops. program_ok ops \<and> p = assemble digest ops \<and> code = encode_program p)"
  using stark_program_Some [of digest code p] stark_program_of_ok by metis

section \<open>The two encoders agree\<close>

lemma mixed_op_record_ok:
  "op_ok i \<longleftrightarrow> (\<exists>tag a k md. mixed_op_record i = Some (tag, a, k, md)
     \<and> \<not> (list_ex (\<lambda>v. unat v > 65535) a \<or> unat md > 65535))"
  by (cases i rule: op_record.cases)
    (auto simp: mixed_op_record_def small_def limit_defs not_less split: deref_mode.split)

lemma mixed_op_record_Some: "mixed_op_record i = Some r \<Longrightarrow> r = op_record i"
  by (auto simp: mixed_op_record_def split: opcode.splits if_splits)

lemma mixed_encode_ops_Inr:
  "mixed_encode_ops is acc = Inr bytes \<longleftrightarrow> list_all op_ok is \<and> bytes = acc @ concat (map encode_op is)"
proof (induction "is" arbitrary: acc)
  case Nil
  then show ?case by auto
next
  case (Cons i "is")
  show ?case
  proof (cases "op_ok i")
    case True
    then obtain tag a k md where rec: "mixed_op_record i = Some (tag, a, k, md)"
      "\<not> (list_ex (\<lambda>v. unat v > 65535) a \<or> unat md > 65535)"
      by (auto simp: mixed_op_record_ok)
    then have "encode_op i = record_bytes (tag, a, k, md)"
      by (simp add: encode_op_def mixed_op_record_Some [OF rec(1)])
    with rec True Cons show ?thesis by simp
  next
    case False
    then show ?thesis
      by (auto simp: mixed_op_record_ok split: option.splits)
  qed
qed

lemma mixed_encode_Inr:
  "mixed_encode_program p = Inr bytes \<longleftrightarrow> program_ok (prog p) \<and> bytes = encode_program p"
  by (auto simp: mixed_encode_program_def Let_def mixed_encode_ops_Inr program_ok_def
      encode_program_eq MAX_INSTRUCTIONS_def)

text \<open>
  The checking encoder of the mixed profile succeeds exactly on the programs the strict
  decoder of the native library can return, and produces the same bytes as that library's
  encoder: the two crates hash one preimage for a program's verification key.
\<close>

theorem mixed_encode_agrees:
  "mixed_encode_program p = Inr bytes \<longleftrightarrow> program_ok (prog p) \<and> bytes = encode_program p"
  by (rule mixed_encode_Inr)

end
