(* ===== verification/Backend.thy ===== *)
theory Backend
  imports Program_Codec
begin

text \<open>
  The code the native library calls and this repository does not hold: hash functions, the
  SPHINCS signature crate, the field's generator powers, the machine's layout, prover and
  verifier, the guest compiler, the serialiser and the recursion harness of
  \<open>rec_aggregation\<close>. Each is a field of one record that the definitions take as an argument;
  nothing is assumed of any of them here.

  Type variables: \<open>'pk\<close> and \<open>'sg\<close> are SPHINCS keys and signatures, \<open>'pf\<close> machine proofs,
  \<open>'vs\<close> the summary of an accepting verification, \<open>'mc\<close> a matrix claim and \<open>'s\<close> the
  fields of a deferred sub-claim the library does not touch.
\<close>

type_synonym hash = "byte list"
type_synonym statement = "F192 \<times> F192"
type_synonym hint_log = "(string \<times> F192 list) list"

datatype circuit = Circuit_Blake2s | Circuit_Keccak

text \<open>\<open>DeferredClaim\<close> and the three fields of a sub-claim that the profile rewrites.\<close>

record 'mc deferred_claim =
  bytecode_point :: "F192 list"
  bytecode_value :: F192
  matrices :: "'mc \<times> 'mc"

record 's sub_claim =
  bytecode_row_point :: "F192 list"
  bytecode_selector_point :: "F192 list"
  sub_bytecode_value :: F192
  sub_rest :: 's

text \<open>The sizes of a layout the profile bounds: \<open>shape.mu\<close> and the three bus sides' \<open>leaf::layout(side).mu\<close>.\<close>

record layout_dims =
  shape_mu :: nat
  push_mu :: nat
  pull_mu :: nat
  count_mu :: nat

record ('pk, 'sg, 'pf, 'vs, 'mc, 's) backend =
  keccak256 :: "byte list \<Rightarrow> hash"
  hasher :: "byte list \<Rightarrow> hash"
  r1cs_digests :: "byte list \<times> byte list"
  bytecode_table :: "opcode list \<Rightarrow> u64 list"
  g_pow :: "nat \<Rightarrow> u64"
  lane_hash :: "u64 list \<Rightarrow> statement"
  pack_16_bytes :: "byte list \<Rightarrow> F192"
  pack_hash_state :: "hash \<Rightarrow> statement"
  pk_size :: nat
  sig_size :: nat
  pk_from_bytes :: "byte list \<Rightarrow> 'pk"
  pk_flatten :: "'pk \<Rightarrow> byte list"
  sig_from_bytes :: "byte list \<Rightarrow> 'sg"
  sphincs_verify :: "'pk \<Rightarrow> hash \<Rightarrow> 'sg \<Rightarrow> bool"
  sphincs_signer_cells :: "hash \<Rightarrow> 'pk \<Rightarrow> F192 list"
  sphincs_hints :: "hash \<Rightarrow> 'pk \<Rightarrow> 'sg \<Rightarrow> string + hint_log"
  stream_cap :: nat
  min_mu :: nat
  proof_stream :: "'pf \<Rightarrow> F192 list"
  cpu_layout :: "opcode list \<Rightarrow> nat \<Rightarrow> nat list \<Rightarrow> statement \<Rightarrow> layout_dims"
  cpu_deserialize :: "byte list \<Rightarrow> 'pf option"
  cpu_serialize :: "'pf \<Rightarrow> byte list"
  cpu_verify :: "program \<Rightarrow> statement \<Rightarrow> 'pf \<Rightarrow> string + 'vs"
  cpu_prove :: "program \<Rightarrow> statement \<Rightarrow> nat \<Rightarrow> string + 'pf"
  compile_guest :: "nat \<Rightarrow> program"
  mixed_serialize :: "F192 list \<times> (F192 list \<times> F192 list) \<times> 'pf \<Rightarrow> byte list"
  mixed_deserialize :: "byte list \<Rightarrow> (F192 list \<times> (F192 list \<times> F192 list) \<times> 'pf) option"
  n_bytecode_selectors :: nat
  k_log :: "circuit \<Rightarrow> nat"
  mle_eval :: "u64 list \<Rightarrow> F192 list \<Rightarrow> F192"
  matrix_at :: "circuit \<Rightarrow> F192 list \<Rightarrow> string + 'mc"
  matrix_values :: "'mc \<Rightarrow> F192 \<times> F192"
  matrix_points :: "'mc deferred_claim \<Rightarrow> F192 list \<times> F192 list"
  deferred_cells :: "'mc deferred_claim \<Rightarrow> F192 list"
  gen_verify :: "program \<Rightarrow> statement \<Rightarrow> 'vs \<Rightarrow> nat \<Rightarrow> string + hint_log \<times> 's sub_claim"
  aggregate_claims :: "'s sub_claim list \<Rightarrow> 'mc deferred_claim list \<Rightarrow> u64 list \<Rightarrow> nat
    \<Rightarrow> hint_log \<times> 'mc deferred_claim"
  max_recursions :: nat
  compile_source :: "string \<Rightarrow> program option"
  install_hints :: "hint_log \<Rightarrow> program \<Rightarrow> program"

section \<open>Seeds and packings\<close>

text \<open>The bytecode table as bytes, hashed once at assembly (\<open>Program::assemble\<close>).\<close>

definition bytecode_digest ::
  "('pk, 'sg, 'pf, 'vs, 'mc, 's) backend \<Rightarrow> opcode list \<Rightarrow> hash" where
  "bytecode_digest B ops = hasher B (concat (map le64 (bytecode_table B ops)))"

text \<open>Eight bytes of a digest as a little-endian word.\<close>

definition word_at :: "hash \<Rightarrow> nat \<Rightarrow> u64" where
  "word_at h i = of_nat (le_nat (take 8 (drop i h)))"

text \<open>\<open>fn pi\<close> of the ffi crate: a 256-bit hash as two cells.\<close>

definition public_input :: "hash \<Rightarrow> statement" where
  "public_input h = (F192 (word_at h 0) (word_at h 8) 0, F192 (word_at h 16) (word_at h 24) 0)"

text \<open>\<open>fs_seed\<close> of \<open>lean_vm/src/cpu/mod.rs\<close>; the prefix is \<open>b"leanvm"\<close>.\<close>

definition fs_seed :: "('pk, 'sg, 'pf, 'vs, 'mc, 's) backend \<Rightarrow> program \<Rightarrow> statement" where
  "fs_seed B p =
     (let d = hasher B ([0x6C, 0x65, 0x61, 0x6E, 0x76, 0x6D]
        @ concat (map (\<lambda>digest. le_bytes 8 (length digest) @ digest)
            [fst (r1cs_digests B), snd (r1cs_digests B)])
        @ bytecode_hash p)
      in (F192 (word_at d 0) (word_at d 8) 0, F192 (word_at d 16) (word_at d 24) 0))"

text \<open>\<open>digest_words\<close>: the four words the transcript runs on; \<open>cells_bytes\<close> spells a pair of
  cells back as the 32 bytes of its low limbs.\<close>

definition digest_words :: "statement \<Rightarrow> u64 list" where
  "digest_words s = [c0 (fst s), c1 (fst s), c0 (snd s), c1 (snd s)]"

definition cells_bytes :: "statement \<Rightarrow> byte list" where
  "cells_bytes s = concat (map le64 (digest_words s))"

lemma le64_word_at:
  assumes "i + 8 \<le> length h"
  shows "le64 (word_at h i) = take 8 (drop i h)"
proof -
  have len: "length (take 8 (drop i h)) = 8" using assms by simp
  have "le_nat (take 8 (drop i h)) < 2 ^ 64"
    using le_nat_bound [of "take 8 (drop i h)"] len by simp
  then show ?thesis
    using le_bytes_le_nat [OF len]
    by (simp add: le64_def word_at_def unsigned_of_nat take_bit_nat_eq_self)
qed

lemma cells_bytes_public_input_aux:
  assumes "length h = 32"
  shows "cells_bytes (public_input h) = h"
proof -
  have "take 8 h @ take 8 (drop 8 h) @ take 8 (drop 16 h) @ take 8 (drop 24 h) = h"
    using append_take_drop_id [of 8 h] append_take_drop_id [of 8 "drop 8 h"]
      append_take_drop_id [of 8 "drop 16 h"] assms
    by simp
  with assms show ?thesis
    by (simp add: cells_bytes_def digest_words_def public_input_def le64_word_at)
qed

end
