(* ===== verification/Preflight.thy ===== *)
theory Preflight
  imports Wire
begin

text \<open>
  The allocation preflight of \<open>adaptive/native/ffi/src/lib.rs\<close>. It walks the fixed-width
  serde layout of a proof without allocating and keeps a running total of what the
  deserialiser would allocate. The walk is stated against a grammar of the wire format:
  \<open>walker\<close> is the interface of one step, and its laws give the loops.
\<close>

section \<open>The preflight state and its methods\<close>

record preflight =
  pf_reader :: "byte list"
  pf_allocated :: nat

definition pf_new :: "byte list \<Rightarrow> preflight" where
  "pf_new bytes = \<lparr>pf_reader = bytes, pf_allocated = 0\<rparr>"

text \<open>\<open>usize::try_from(u64)\<close> cannot fail where \<open>usize\<close> has 64 bits.\<close>

definition pf_count :: "nat \<Rightarrow> nat \<Rightarrow> preflight \<Rightarrow> (nat \<times> preflight) option" where
  "pf_count max_n width p = do {
     (b, rest) \<leftarrow> rd_take 8 (pf_reader p);
     let n = le_nat b;
     guard (\<not> (n > max_n \<or> n > length rest div width));
     bytes \<leftarrow> checked_mul n width;
     allocated \<leftarrow> checked_add (pf_allocated p) bytes;
     guard (\<not> allocated > MAX_DECODE_BYTES);
     Some (n, \<lparr>pf_reader = rest, pf_allocated = allocated\<rparr>) }"

definition pf_vector :: "nat \<Rightarrow> nat \<Rightarrow> preflight \<Rightarrow> preflight option" where
  "pf_vector max_n width p = do {
     (n, p) \<leftarrow> pf_count max_n width p;
     (_, rest) \<leftarrow> rd_take (n * width) (pf_reader p);
     Some (p\<lparr>pf_reader := rest\<rparr>) }"

fun pf_repeat :: "('s \<Rightarrow> 's option) \<Rightarrow> nat \<Rightarrow> 's \<Rightarrow> 's option" where
  "pf_repeat f 0 p = Some p"
| "pf_repeat f (Suc n) p = do { p \<leftarrow> f p; pf_repeat f n p }"

text \<open>The body of the phase loop of \<open>Preflight::cpu\<close>.\<close>

definition pf_phase :: "preflight \<Rightarrow> preflight option" where
  "pf_phase p = do {
     (rows, p) \<leftarrow> pf_count 4096 8 p;
     allocated \<leftarrow> checked_add (pf_allocated p) (rows * 24);
     guard (\<not> allocated > MAX_DECODE_BYTES);
     let p = p\<lparr>pf_allocated := allocated\<rparr>;
     p \<leftarrow> pf_repeat (pf_vector (MAX_BYTES div 8) 8) rows p;
     pf_vector (MAX_BYTES div 32) 32 p }"

definition pf_cpu :: "preflight \<Rightarrow> preflight option" where
  "pf_cpu p = do {
     p \<leftarrow> pf_vector (MAX_BYTES div 24) 24 p;
     (phases, p) \<leftarrow> pf_count 128 16 p;
     pf_repeat pf_phase phases p }"

definition pf_mixed :: "preflight \<Rightarrow> preflight option" where
  "pf_mixed p = do {
     p \<leftarrow> pf_vector 32 24 p;
     p \<leftarrow> pf_vector 32 24 p;
     p \<leftarrow> pf_vector 32 24 p;
     pf_cpu p }"

definition pf_end :: "preflight \<Rightarrow> unit option" where
  "pf_end p = rd_end (pf_reader p)"

section \<open>The wire grammar\<close>

text \<open>A vector is a 64-bit element count and the elements; a proof's query phase is a vector
  of rows, each a vector of 8-byte words, and a vector of 32-byte hashes. Elements are kept
  as their bytes.\<close>

definition ser_vec :: "nat \<Rightarrow> byte list \<Rightarrow> byte list" where
  "ser_vec w bs = le_bytes 8 (length bs div w) @ bs"

record wire_phase =
  ph_rows :: "byte list list"
  ph_hashes :: "byte list"

definition ser_phase :: "wire_phase \<Rightarrow> byte list" where
  "ser_phase ph = le_bytes 8 (length (ph_rows ph)) @ concat (map (ser_vec 8) (ph_rows ph))
     @ ser_vec 32 (ph_hashes ph)"

record wire_cpu =
  wc_stream :: "byte list"
  wc_phases :: "wire_phase list"

definition ser_cpu :: "wire_cpu \<Rightarrow> byte list" where
  "ser_cpu c = ser_vec 24 (wc_stream c) @ le_bytes 8 (length (wc_phases c))
     @ concat (map ser_phase (wc_phases c))"

definition vec_ok :: "nat \<Rightarrow> nat \<Rightarrow> byte list \<Rightarrow> bool" where
  "vec_ok max_n w bs \<longleftrightarrow> w dvd length bs \<and> length bs div w \<le> max_n"

definition phase_ok :: "wire_phase \<Rightarrow> bool" where
  "phase_ok ph \<longleftrightarrow> length (ph_rows ph) \<le> 4096
     \<and> list_all (vec_ok (MAX_BYTES div 8) 8) (ph_rows ph)
     \<and> vec_ok (MAX_BYTES div 32) 32 (ph_hashes ph)"

text \<open>What the deserialiser allocates: the bytes of every vector, 8 bytes per row counted
  with the row table and a 24-byte vector header per row.\<close>

definition phase_cost :: "wire_phase \<Rightarrow> nat" where
  "phase_cost ph = 8 * length (ph_rows ph) + 24 * length (ph_rows ph)
     + sum_list (map length (ph_rows ph)) + length (ph_hashes ph)"

definition cpu_cost :: "wire_cpu \<Rightarrow> nat" where
  "cpu_cost c = length (wc_stream c) + 16 * length (wc_phases c)
     + sum_list (map phase_cost (wc_phases c))"

definition cpu_ok :: "wire_cpu \<Rightarrow> bool" where
  "cpu_ok c \<longleftrightarrow> vec_ok (MAX_BYTES div 24) 24 (wc_stream c) \<and> length (wc_phases c) \<le> 128
     \<and> list_all phase_ok (wc_phases c)"

section \<open>The walking interface\<close>

text \<open>One step reads one item, adds its cost and keeps the total within the budget. The laws
  are stated for an abstract state with a reader and a total, so that both preflight passes
  of the code provide them.\<close>

locale walker =
  fixes step :: "'s \<Rightarrow> 's option"
    and mk :: "byte list \<Rightarrow> nat \<Rightarrow> 's"
    and rest :: "'s \<Rightarrow> byte list"
    and total :: "'s \<Rightarrow> nat"
    and budget :: nat
    and ser :: "'a \<Rightarrow> byte list"
    and ok :: "'a \<Rightarrow> bool"
    and cost :: "'a \<Rightarrow> nat"
  assumes state [simp]: "rest (mk r t) = r" "total (mk r t) = t" "mk (rest p) (total p) = p"
    and step_iff: "total p \<le> budget \<Longrightarrow> step p = Some p' \<longleftrightarrow>
      (\<exists>x. ok x \<and> rest p = ser x @ rest p' \<and> total p' = total p + cost x \<and> total p' \<le> budget)"
begin

lemma repeat_iff:
  "total p \<le> budget \<Longrightarrow> pf_repeat step n p = Some p' \<longleftrightarrow>
    (\<exists>xs. length xs = n \<and> list_all ok xs \<and> rest p = concat (map ser xs) @ rest p'
      \<and> total p' = total p + sum_list (map cost xs) \<and> total p' \<le> budget)"
proof (induction n arbitrary: p)
  case 0
  have "rest p = rest p' \<Longrightarrow> total p = total p' \<Longrightarrow> p = p'"
    by (metis state(3))
  with 0 show ?case by auto
next
  case (Suc n)
  show ?case (is "?run \<longleftrightarrow> (\<exists>xs. ?spec xs)")
  proof
    assume ?run
    then obtain q where q: "step p = Some q" "pf_repeat step n q = Some p'"
      by (auto simp: dec_simps)
    then obtain x where x: "ok x" "rest p = ser x @ rest q" "total q = total p + cost x"
      "total q \<le> budget"
      using step_iff [OF Suc.prems] by blast
    then obtain xs where "length xs = n" "list_all ok xs" "rest q = concat (map ser xs) @ rest p'"
      "total p' = total q + sum_list (map cost xs)" "total p' \<le> budget"
      using q Suc.IH by blast
    with x have "?spec (x # xs)" by simp
    then show "\<exists>xs. ?spec xs" ..
  next
    assume "\<exists>xs. ?spec xs"
    then obtain x xs where xs: "length xs = n" "ok x" "list_all ok xs"
      "rest p = ser x @ concat (map ser xs) @ rest p'"
      "total p' = total p + (cost x + sum_list (map cost xs))" "total p' \<le> budget"
      by (auto simp: length_Suc_conv)
    let ?q = "mk (concat (map ser xs) @ rest p') (total p + cost x)"
    have "step p = Some ?q"
      using xs by (auto simp: step_iff [OF Suc.prems])
    moreover have "pf_repeat step n ?q = Some p'"
      using xs by (subst Suc.IH) auto
    ultimately show ?run by simp
  qed
qed

end

section \<open>Counts, vectors and phases\<close>

lemma total_fits: "a \<le> MAX_DECODE_BYTES \<Longrightarrow> a < 2 ^ 64"
  by (simp add: limit_defs)

lemma pf_count_Some:
  assumes "0 < w" and "max_n < 2 ^ 64"
  shows "pf_count max_n w p = Some (n, p') \<longleftrightarrow>
    n \<le> max_n \<and> n * w \<le> length (pf_reader p') \<and> pf_reader p = le_bytes 8 n @ pf_reader p'
    \<and> pf_allocated p' = pf_allocated p + n * w \<and> pf_allocated p' \<le> MAX_DECODE_BYTES"
    (is "?run \<longleftrightarrow> ?spec")
proof
  assume ?run
  then obtain b r where b: "length b = 8" "pf_reader p = b @ r" "n = le_nat b"
    "n \<le> max_n" "n \<le> length r div w" "pf_allocated p + n * w \<le> MAX_DECODE_BYTES"
    "p' = \<lparr>pf_reader = r, pf_allocated = pf_allocated p + n * w\<rparr>"
    by (auto simp: pf_count_def dec_simps Let_def not_less split: prod.splits)
  then show ?spec
    using assms by (auto simp: le_bytes_le_nat less_eq_div_iff_mult_less_eq)
next
  assume spec: ?spec
  moreover from spec assms have "n \<le> length (pf_reader p') div w"
    by (simp add: less_eq_div_iff_mult_less_eq)
  moreover from spec assms have "n < 256 ^ 8"
    by simp
  moreover from spec have "n * w < 2 ^ 64" "pf_allocated p + n * w < 2 ^ 64"
    by (auto dest!: total_fits)
  ultimately show ?run
    by (auto simp: pf_count_def rd_take_def checked_mul_def checked_add_def Let_def guard_def)
qed

lemma length_ser_vec [simp]: "length (ser_vec w bs) = 8 + length bs"
  by (simp add: ser_vec_def)

lemma pf_vector_Some:
  assumes "0 < w" and "max_n < 2 ^ 64"
  shows "pf_vector max_n w p = Some p' \<longleftrightarrow> (\<exists>bs. vec_ok max_n w bs
    \<and> pf_reader p = ser_vec w bs @ pf_reader p'
    \<and> pf_allocated p' = pf_allocated p + length bs \<and> pf_allocated p' \<le> MAX_DECODE_BYTES)"
    (is "?run \<longleftrightarrow> (\<exists>bs. ?spec bs)")
proof
  assume ?run
  then obtain n q bs r where q: "pf_count max_n w p = Some (n, q)" "length bs = n * w"
    "pf_reader q = bs @ r" "p' = q\<lparr>pf_reader := r\<rparr>"
    by (auto simp: pf_vector_def dec_simps split: prod.splits)
  then have "?spec bs"
    using assms by (auto simp: pf_count_Some vec_ok_def ser_vec_def)
  then show "\<exists>bs. ?spec bs" ..
next
  assume "\<exists>bs. ?spec bs"
  then obtain bs where bs: "?spec bs" ..
  define n where "n = length bs div w"
  have n: "length bs = n * w" "n \<le> max_n"
    using bs by (auto simp: n_def vec_ok_def)
  let ?q = "\<lparr>pf_reader = bs @ pf_reader p', pf_allocated = pf_allocated p'\<rparr>"
  have "pf_count max_n w p = Some (n, ?q)"
    using assms bs n by (simp add: pf_count_Some ser_vec_def)
  then show ?run
    using n by (simp add: pf_vector_def rd_take_def)
qed

lemma pf_total_le: "pf_vector m w p = Some p' \<Longrightarrow> 0 < w \<Longrightarrow> m < 2 ^ 64
    \<Longrightarrow> pf_allocated p' \<le> MAX_DECODE_BYTES"
  by (auto simp: pf_vector_Some)

text \<open>The rows of a phase are vectors of words; the walker's laws are those of \<open>pf_vector\<close>.\<close>

interpretation row_walker: walker "pf_vector (MAX_BYTES div 8) 8"
  "\<lambda>r t. \<lparr>pf_reader = r, pf_allocated = t\<rparr>" pf_reader pf_allocated MAX_DECODE_BYTES
  "ser_vec 8" "vec_ok (MAX_BYTES div 8) 8" length
  by unfold_locales (simp_all add: pf_vector_Some limit_defs)

lemma rows_fit: "8 * length rows \<le> length (concat (map (ser_vec 8) rows))"
  by (induction rows) auto

lemma phases_fit: "16 * length phs \<le> length (concat (map ser_phase phs))"
  by (induction phs) (auto simp: ser_phase_def)

lemma pf_phase_iff:
  assumes "pf_allocated p \<le> MAX_DECODE_BYTES"
  shows "pf_phase p = Some p' \<longleftrightarrow> (\<exists>ph. phase_ok ph \<and> pf_reader p = ser_phase ph @ pf_reader p'
    \<and> pf_allocated p' = pf_allocated p + phase_cost ph \<and> pf_allocated p' \<le> MAX_DECODE_BYTES)"
    (is "?run \<longleftrightarrow> (\<exists>ph. ?spec ph)")
proof
  assume ?run
  then obtain n q1 q3 where q1: "pf_count 4096 8 p = Some (n, q1)"
    and total: "pf_allocated q1 + n * 24 \<le> MAX_DECODE_BYTES"
    and q3: "pf_repeat (pf_vector (MAX_BYTES div 8) 8) n
        (q1\<lparr>pf_allocated := pf_allocated q1 + n * 24\<rparr>) = Some q3"
    and hashes: "pf_vector (MAX_BYTES div 32) 32 q3 = Some p'"
    by (auto simp: pf_phase_def dec_simps Let_def not_less split: prod.splits)
  from q3 total obtain rows where rows: "length rows = n"
    "list_all (vec_ok (MAX_BYTES div 8) 8) rows"
    "pf_reader q1 = concat (map (ser_vec 8) rows) @ pf_reader q3"
    "pf_allocated q3 = pf_allocated q1 + n * 24 + sum_list (map length rows)"
    by (subst (asm) row_walker.repeat_iff) auto
  from hashes obtain hs where hs: "vec_ok (MAX_BYTES div 32) 32 hs"
    "pf_reader q3 = ser_vec 32 hs @ pf_reader p'"
    "pf_allocated p' = pf_allocated q3 + length hs" "pf_allocated p' \<le> MAX_DECODE_BYTES"
    by (subst (asm) pf_vector_Some) (auto simp: limit_defs)
  from q1 rows hs have "?spec \<lparr>ph_rows = rows, ph_hashes = hs\<rparr>"
    by (auto simp: pf_count_Some phase_ok_def ser_phase_def phase_cost_def)
  then show "\<exists>ph. ?spec ph" ..
next
  assume "\<exists>ph. ?spec ph"
  then obtain ph where ph: "?spec ph" ..
  let ?n = "length (ph_rows ph)"
  let ?hs = "ser_vec 32 (ph_hashes ph) @ pf_reader p'"
  let ?t1 = "pf_allocated p + ?n * 8"
  let ?q1 = "\<lparr>pf_reader = concat (map (ser_vec 8) (ph_rows ph)) @ ?hs, pf_allocated = ?t1\<rparr>"
  let ?q2 = "?q1\<lparr>pf_allocated := ?t1 + ?n * 24\<rparr>"
  let ?q3 = "\<lparr>pf_reader = ?hs,
    pf_allocated = ?t1 + ?n * 24 + sum_list (map length (ph_rows ph))\<rparr>"
  have total: "?t1 + ?n * 24 + sum_list (map length (ph_rows ph)) + length (ph_hashes ph)
      \<le> MAX_DECODE_BYTES"
    using ph by (simp add: phase_cost_def)
  have "pf_count 4096 8 p = Some (?n, ?q1)"
    using ph total rows_fit [of "ph_rows ph"]
    by (auto simp: pf_count_Some phase_ok_def ser_phase_def)
  moreover have "pf_repeat (pf_vector (MAX_BYTES div 8) 8) ?n ?q2 = Some ?q3"
    using ph total by (subst row_walker.repeat_iff) (auto simp: phase_ok_def)
  moreover have "pf_vector (MAX_BYTES div 32) 32 ?q3 = Some p'"
    using ph by (subst pf_vector_Some) (auto simp: limit_defs phase_ok_def phase_cost_def)
  moreover have "checked_add ?t1 (?n * 24) = Some (?t1 + ?n * 24)"
    using total by (auto simp: checked_add_def limit_defs)
  ultimately show ?run
    using total by (simp add: pf_phase_def Let_def not_less guard_def)
qed

interpretation phase_walker: walker pf_phase
  "\<lambda>r t. \<lparr>pf_reader = r, pf_allocated = t\<rparr>" pf_reader pf_allocated MAX_DECODE_BYTES
  ser_phase phase_ok phase_cost
  by unfold_locales (simp_all add: pf_phase_iff)

lemma pf_cpu_iff:
  assumes "pf_allocated p \<le> MAX_DECODE_BYTES"
  shows "pf_cpu p = Some p' \<longleftrightarrow> (\<exists>c. cpu_ok c \<and> pf_reader p = ser_cpu c @ pf_reader p'
    \<and> pf_allocated p' = pf_allocated p + cpu_cost c \<and> pf_allocated p' \<le> MAX_DECODE_BYTES)"
    (is "?run \<longleftrightarrow> (\<exists>c. ?spec c)")
proof
  assume ?run
  then obtain q1 n q2 where q1: "pf_vector (MAX_BYTES div 24) 24 p = Some q1"
    and q2: "pf_count 128 16 q1 = Some (n, q2)" and rep: "pf_repeat pf_phase n q2 = Some p'"
    by (auto simp: pf_cpu_def dec_simps split: prod.splits)
  from q1 obtain s where s: "vec_ok (MAX_BYTES div 24) 24 s"
    "pf_reader p = ser_vec 24 s @ pf_reader q1" "pf_allocated q1 = pf_allocated p + length s"
    by (subst (asm) pf_vector_Some) (auto simp: limit_defs)
  from q2 have n: "n \<le> 128" "pf_reader q1 = le_bytes 8 n @ pf_reader q2"
    "pf_allocated q2 = pf_allocated q1 + n * 16" "pf_allocated q2 \<le> MAX_DECODE_BYTES"
    by (auto simp: pf_count_Some)
  from rep n obtain phs where "length phs = n" "list_all phase_ok phs"
    "pf_reader q2 = concat (map ser_phase phs) @ pf_reader p'"
    "pf_allocated p' = pf_allocated q2 + sum_list (map phase_cost phs)"
    "pf_allocated p' \<le> MAX_DECODE_BYTES"
    by (subst (asm) phase_walker.repeat_iff) auto
  with s n have "?spec \<lparr>wc_stream = s, wc_phases = phs\<rparr>"
    by (auto simp: cpu_ok_def ser_cpu_def cpu_cost_def)
  then show "\<exists>c. ?spec c" ..
next
  assume "\<exists>c. ?spec c"
  then obtain c where c: "?spec c" ..
  let ?n = "length (wc_phases c)"
  let ?r2 = "concat (map ser_phase (wc_phases c)) @ pf_reader p'"
  let ?t1 = "pf_allocated p + length (wc_stream c)"
  let ?q1 = "\<lparr>pf_reader = le_bytes 8 ?n @ ?r2, pf_allocated = ?t1\<rparr>"
  let ?q2 = "\<lparr>pf_reader = ?r2, pf_allocated = ?t1 + ?n * 16\<rparr>"
  have total: "?t1 + ?n * 16 + sum_list (map phase_cost (wc_phases c)) \<le> MAX_DECODE_BYTES"
    using c by (simp add: cpu_cost_def)
  have "pf_vector (MAX_BYTES div 24) 24 p = Some ?q1"
    using c total by (subst pf_vector_Some) (auto simp: limit_defs cpu_ok_def ser_cpu_def)
  moreover have "pf_count 128 16 ?q1 = Some (?n, ?q2)"
    using c total phases_fit [of "wc_phases c"] by (auto simp: pf_count_Some cpu_ok_def)
  moreover have "pf_repeat pf_phase ?n ?q2 = Some p'"
    using c total by (subst phase_walker.repeat_iff) (auto simp: cpu_ok_def cpu_cost_def)
  ultimately show ?run
    by (simp add: pf_cpu_def)
qed

section \<open>What the preflight guarantees\<close>

text \<open>A mixed payload starts with three evaluation points of at most 32 field elements.\<close>

record wire_mixed =
  wm_points :: "byte list \<times> byte list \<times> byte list"
  wm_cpu :: wire_cpu

definition ser_mixed :: "wire_mixed \<Rightarrow> byte list" where
  "ser_mixed m = (case wm_points m of (a, b, c) \<Rightarrow>
     ser_vec 24 a @ ser_vec 24 b @ ser_vec 24 c @ ser_cpu (wm_cpu m))"

definition mixed_ok :: "wire_mixed \<Rightarrow> bool" where
  "mixed_ok m \<longleftrightarrow> (case wm_points m of (a, b, c) \<Rightarrow>
     vec_ok 32 24 a \<and> vec_ok 32 24 b \<and> vec_ok 32 24 c) \<and> cpu_ok (wm_cpu m)"

definition mixed_cost :: "wire_mixed \<Rightarrow> nat" where
  "mixed_cost m = (case wm_points m of (a, b, c) \<Rightarrow> length a + length b + length c)
     + cpu_cost (wm_cpu m)"

definition preflight_cpu :: "byte list \<Rightarrow> unit option" where
  "preflight_cpu bytes = do { p \<leftarrow> pf_cpu (pf_new bytes); pf_end p }"

definition preflight_mixed :: "byte list \<Rightarrow> unit option" where
  "preflight_mixed bytes = do { p \<leftarrow> pf_mixed (pf_new bytes); pf_end p }"

lemma pf_new_simps [simp]: "pf_reader (pf_new bs) = bs" "pf_allocated (pf_new bs) = 0"
  by (simp_all add: pf_new_def)

lemma ex_preflight: "(\<exists>p. P (pf_reader p) (pf_allocated p)) \<longleftrightarrow> (\<exists>r t. P r t)"
  by (metis preflight.select_convs(1,2))

lemma preflight_cpu_iff:
  "preflight_cpu bs = Some u \<longleftrightarrow> (\<exists>c. cpu_ok c \<and> bs = ser_cpu c \<and> cpu_cost c \<le> MAX_DECODE_BYTES)"
proof -
  have "preflight_cpu bs = Some u
      \<longleftrightarrow> (\<exists>p. pf_cpu (pf_new bs) = Some p \<and> pf_reader p = [])"
    by (auto simp: preflight_cpu_def pf_end_def dec_simps)
  also have "\<dots> \<longleftrightarrow> (\<exists>c. cpu_ok c \<and> bs = ser_cpu c \<and> cpu_cost c \<le> MAX_DECODE_BYTES)"
    by (simp add: pf_cpu_iff ex_preflight [where P = "\<lambda>r t. (\<exists>c. cpu_ok c \<and> bs = ser_cpu c @ r
        \<and> t = cpu_cost c \<and> t \<le> MAX_DECODE_BYTES) \<and> r = []"])
  finally show ?thesis .
qed

lemma pf_mixed_iff:
  "pf_mixed (pf_new bs) = Some p \<longleftrightarrow> (\<exists>m. mixed_ok m \<and> bs = ser_mixed m @ pf_reader p
     \<and> pf_allocated p = mixed_cost m \<and> pf_allocated p \<le> MAX_DECODE_BYTES)"
    (is "?run \<longleftrightarrow> (\<exists>m. ?spec m)")
proof
  assume ?run
  then obtain q1 q2 q3 where qs: "pf_vector 32 24 (pf_new bs) = Some q1"
    "pf_vector 32 24 q1 = Some q2" "pf_vector 32 24 q2 = Some q3" "pf_cpu q3 = Some p"
    by (auto simp: pf_mixed_def dec_simps)
  from qs(1,2,3) obtain a b c where abc: "vec_ok 32 24 a" "vec_ok 32 24 b" "vec_ok 32 24 c"
    "bs = ser_vec 24 a @ ser_vec 24 b @ ser_vec 24 c @ pf_reader q3"
    "pf_allocated q3 = length a + length b + length c" "pf_allocated q3 \<le> MAX_DECODE_BYTES"
    by (auto simp: pf_vector_Some)
  from qs(4) abc obtain w where "cpu_ok w" "pf_reader q3 = ser_cpu w @ pf_reader p"
    "pf_allocated p = pf_allocated q3 + cpu_cost w" "pf_allocated p \<le> MAX_DECODE_BYTES"
    by (auto simp: pf_cpu_iff)
  with abc have "?spec \<lparr>wm_points = (a, b, c), wm_cpu = w\<rparr>"
    by (simp add: mixed_ok_def ser_mixed_def mixed_cost_def)
  then show "\<exists>m. ?spec m" ..
next
  assume "\<exists>m. ?spec m"
  then obtain m where m: "?spec m" ..
  obtain a b c where abc: "wm_points m = (a, b, c)" by (cases "wm_points m")
  let ?q3 = "\<lparr>pf_reader = ser_cpu (wm_cpu m) @ pf_reader p,
    pf_allocated = length a + length b + length c\<rparr>"
  let ?q2 = "\<lparr>pf_reader = ser_vec 24 c @ pf_reader ?q3, pf_allocated = length a + length b\<rparr>"
  let ?q1 = "\<lparr>pf_reader = ser_vec 24 b @ pf_reader ?q2, pf_allocated = length a\<rparr>"
  have "pf_vector 32 24 (pf_new bs) = Some ?q1" "pf_vector 32 24 ?q1 = Some ?q2"
    "pf_vector 32 24 ?q2 = Some ?q3" "pf_cpu ?q3 = Some p"
    using m abc
    by (auto simp: pf_vector_Some pf_cpu_iff mixed_ok_def ser_mixed_def mixed_cost_def)
  then show ?run by (simp add: pf_mixed_def)
qed

lemma preflight_mixed_iff:
  "preflight_mixed bs = Some () \<longleftrightarrow>
     (\<exists>m. mixed_ok m \<and> bs = ser_mixed m \<and> mixed_cost m \<le> MAX_DECODE_BYTES)"
proof -
  have "preflight_mixed bs = Some ()
      \<longleftrightarrow> (\<exists>p. pf_mixed (pf_new bs) = Some p \<and> pf_reader p = [])"
    by (auto simp: preflight_mixed_def pf_end_def dec_simps)
  also have "\<dots> \<longleftrightarrow> (\<exists>m. mixed_ok m \<and> bs = ser_mixed m \<and> mixed_cost m \<le> MAX_DECODE_BYTES)"
    by (simp add: pf_mixed_iff ex_preflight [where P = "\<lambda>r t. (\<exists>m. mixed_ok m \<and> bs = ser_mixed m @ r
        \<and> t = mixed_cost m \<and> t \<le> MAX_DECODE_BYTES) \<and> r = []"])
  finally show ?thesis .
qed

text \<open>
  C8. The preflight of a mixed payload accepts exactly the byte strings of the wire grammar
  whose counts are within the profile and whose total allocation, every vector, row table
  and row header, is at most 32 MiB, with no byte left over.
\<close>

theorem preflight_mixed_exact:
  "preflight_mixed bs = Some () \<longleftrightarrow>
     (\<exists>m. mixed_ok m \<and> bs = ser_mixed m \<and> mixed_cost m \<le> 32 * 1024 * 1024)"
  by (simp add: preflight_mixed_iff MAX_DECODE_BYTES_def)

end
