(* ===== verification/Mixed_Profile.thy ===== *)
theory Mixed_Profile
  imports Backend Preflight
begin

unbundle bit_operations_syntax

text \<open>
  The mixed recursive proof profile, \<open>rec_aggregation/src/eip8288_mixed.rs\<close>: the dependency
  set and its commitment, the capacity checks on a proof, the payload format, the guest's
  statement, and the preparation and proving of an aggregate with the hints it feeds the
  guest. Functions of other crates are fields of \<open>backend\<close>.
\<close>

section \<open>Profile constants\<close>

definition MAX_RAW_SPHINCS :: nat where "MAX_RAW_SPHINCS = 64"
definition MAX_GENERIC_COMMITTED_LOG :: nat where "MAX_GENERIC_COMMITTED_LOG = 22"
definition MAX_GENERIC_BUS_LOG :: nat where "MAX_GENERIC_BUS_LOG = 22"
definition MAX_MIXED_COMMITTED_LOG :: nat where "MAX_MIXED_COMMITTED_LOG = 28"
definition MAX_MIXED_BUS_LOG :: nat where "MAX_MIXED_BUS_LOG = 26"
definition LOG_INV_RATE :: nat where "LOG_INV_RATE = 1"
definition MAX_PAYLOAD_BYTES :: nat where "MAX_PAYLOAD_BYTES = 8 * 1024 * 1024"

text \<open>The seven tables of \<open>Stats::TABLES\<close>.\<close>

definition N_TABLES :: nat where "N_TABLES = 7"

section \<open>Dependency sets\<close>

definition scheme :: "dep \<Rightarrow> byte" where "scheme d = d ! 31"

definition generic_count :: "dep list \<Rightarrow> nat" where
  "generic_count ds = length (filter (\<lambda>d. scheme d = 0x11) ds)"

definition check_dependencies :: "dep list \<Rightarrow> mixed_error + unit" where
  "check_dependencies deps =
     (if length deps > MAX_DEPENDENCIES
        \<or> generic_count deps > MAX_GENERIC_DEPENDENCIES
        \<or> list_ex (\<lambda>d. take 31 d \<noteq> replicate 31 0 \<or> \<not> (scheme d = 0x10 \<or> scheme d = 0x11)) deps
        \<or> \<not> windows_less deps
      then Inl Err_Dependencies else Inr ())"

definition dependency_hash ::
  "('pk, 'sg, 'pf, 'vs, 'mc, 's) backend \<Rightarrow> dep list \<Rightarrow> hash" where
  "dependency_hash B deps = keccak256 B (concat deps)"

definition dep_of :: "byte \<Rightarrow> hash \<Rightarrow> hash \<Rightarrow> dep" where
  "dep_of sch data key = replicate 31 0 @ [sch] @ data @ key"

definition sph_dep ::
  "('pk, 'sg, 'pf, 'vs, 'mc, 's) backend \<Rightarrow> 'pk \<Rightarrow> hash \<Rightarrow> dep" where
  "sph_dep B pk data = dep_of 0x10 data (keccak256 B (pk_flatten B pk))"

definition generic_verification_key ::
  "('pk, 'sg, 'pf, 'vs, 'mc, 's) backend \<Rightarrow> program \<Rightarrow> mixed_error + hash" where
  "generic_verification_key B p =
     rbind (mixed_encode_program p) (\<lambda>bytes. Inr (keccak256 B bytes))"

section \<open>Capacity of a proof\<close>

definition plain_scalar :: "F192 \<Rightarrow> bool" where
  "plain_scalar v \<longleftrightarrow> c1 v = 0 \<and> c2 v = 0"

definition recursion_supported_with_bounds ::
  "('pk, 'sg, 'pf, 'vs, 'mc, 's) backend \<Rightarrow> program \<Rightarrow> 'pf \<Rightarrow> nat \<Rightarrow> nat \<Rightarrow> bool" where
  "recursion_supported_with_bounds B p proof max_mu max_bus =
     (let stream = proof_stream B proof in
      if length stream > stream_cap B \<or> length stream < N_TABLES + 2
        \<or> list_ex (\<lambda>v. c1 v \<noteq> 0 \<or> c2 v \<noteq> 0 \<or> unat (c0 v) > 32) (take (N_TABLES + 1) stream)
        \<or> c1 (stream ! (N_TABLES + 1)) \<noteq> 0
        \<or> c2 (stream ! (N_TABLES + 1)) \<noteq> 0
        \<or> unat (c0 (stream ! (N_TABLES + 1))) \<noteq> LOG_INV_RATE
      then False
      else
        (let l = cpu_layout B (prog p) (unat (c0 (stream ! 0)))
               (map (\<lambda>i. unat (c0 (stream ! (i + 1)))) [0..<N_TABLES])
               (F192 0 0 0, F192 0 0 0)
         in min_mu B \<le> shape_mu l \<and> shape_mu l \<le> max_mu
            \<and> list_all (\<lambda>mu. mu \<le> max_bus) [push_mu l, pull_mu l, count_mu l]))"

definition recursion_supported ::
  "('pk, 'sg, 'pf, 'vs, 'mc, 's) backend \<Rightarrow> program \<Rightarrow> 'pf \<Rightarrow> bool" where
  "recursion_supported B p proof =
     recursion_supported_with_bounds B p proof MAX_MIXED_COMMITTED_LOG MAX_MIXED_BUS_LOG"

definition generic_recursion_supported ::
  "('pk, 'sg, 'pf, 'vs, 'mc, 's) backend \<Rightarrow> program \<Rightarrow> 'pf \<Rightarrow> bool" where
  "generic_recursion_supported B p proof \<longleftrightarrow>
     result_ok (mixed_encode_program p) \<noteq> None
     \<and> recursion_supported_with_bounds B p proof MAX_GENERIC_COMMITTED_LOG MAX_GENERIC_BUS_LOG"

section \<open>The guest\<close>

text \<open>\<open>usize::trailing_zeros\<close>, on the nonzero program lengths it is applied to.\<close>

fun trailing_zeros :: "nat \<Rightarrow> nat" where
  "trailing_zeros n = (if n = 0 then 64 else if even n then Suc (trailing_zeros (n div 2)) else 0)"

declare trailing_zeros.simps [simp del]

text \<open>The guest embeds its own bytecode size, so compilation is iterated until the size it was
  compiled for is the size it has; eight rounds without a fixed point panic (\<open>None\<close>).\<close>

fun guest_fixpoint :: "(nat \<Rightarrow> program) \<Rightarrow> nat \<Rightarrow> nat \<Rightarrow> program option" where
  "guest_fixpoint compile 0 log = None"
| "guest_fixpoint compile (Suc rounds) log =
     (let p = compile log; actual = trailing_zeros (length (prog p))
      in if log = actual then Some p else guest_fixpoint compile rounds actual)"

definition unified_guest_result ::
  "('pk, 'sg, 'pf, 'vs, 'mc, 's) backend \<Rightarrow> program option" where
  "unified_guest_result B = guest_fixpoint (compile_guest B) 8 19"

text \<open>Every caller dereferences the compiled guest; a process whose guest does not converge
  panics at its first use and goes no further.\<close>

definition unified_guest :: "('pk, 'sg, 'pf, 'vs, 'mc, 's) backend \<Rightarrow> program" where
  "unified_guest B = the (unified_guest_result B)"

definition mixed_table :: "('pk, 'sg, 'pf, 'vs, 'mc, 's) backend \<Rightarrow> u64 list" where
  "mixed_table B = bytecode_table B (prog (unified_guest B))"

definition mixed_vars :: "('pk, 'sg, 'pf, 'vs, 'mc, 's) backend \<Rightarrow> nat" where
  "mixed_vars B = trailing_zeros (length (prog (unified_guest B))) + n_bytecode_selectors B"

definition ZERO :: F192 where "ZERO = F192 0 0 0"
definition ONE :: F192 where "ONE = F192 1 0 0"

definition integer :: "nat \<Rightarrow> F192" where "integer n = F192 (of_nat n) 0 0"

definition gcount :: "('pk, 'sg, 'pf, 'vs, 'mc, 's) backend \<Rightarrow> nat \<Rightarrow> F192" where
  "gcount B n = F192 (g_pow B n) 0 0"

definition mixed_deferred ::
  "('pk, 'sg, 'pf, 'vs, 'mc, 's) backend \<Rightarrow> F192 list \<Rightarrow> F192 list \<times> F192 list
     \<Rightarrow> mixed_error + 'mc deferred_claim" where
  "mixed_deferred B points mats =
     (if length points \<noteq> mixed_vars B
        \<or> length (fst mats) \<noteq> 2 * k_log B Circuit_Blake2s
        \<or> length (snd mats) \<noteq> 2 * k_log B Circuit_Keccak
      then Inl Err_Encoding
      else
        (let value = (if list_all (\<lambda>x. x = ZERO) points then F192 (mixed_table B ! 0) 0 0
                      else mle_eval B (mixed_table B) points)
         in rbind (map_err Err_Proof (matrix_at B Circuit_Blake2s (fst mats))) (\<lambda>blake.
            rbind (map_err Err_Proof (matrix_at B Circuit_Keccak (snd mats))) (\<lambda>keccak.
            Inr \<lparr>bytecode_point = points, bytecode_value = value, matrices = (blake, keccak)\<rparr>))))"

text \<open>The 32-byte key of the guest: the low limbs of its two seed halves.\<close>

definition mixed_guest_key :: "('pk, 'sg, 'pf, 'vs, 'mc, 's) backend \<Rightarrow> hash" where
  "mixed_guest_key B =
     concat (map (\<lambda>v. le64 (c0 v) @ le64 (c1 v))
       [fst (fs_seed B (unified_guest B)), snd (fs_seed B (unified_guest B))])"

text \<open>The statement a guest proof is about: seed, dependency digest, and the deferred claim,
  padded to an even number of cells.\<close>

definition mixed_statement ::
  "('pk, 'sg, 'pf, 'vs, 'mc, 's) backend \<Rightarrow> hash \<Rightarrow> 'mc deferred_claim \<Rightarrow> statement" where
  "mixed_statement B h deferred =
     (let seed = fs_seed B (unified_guest B);
          digest = pack_hash_state B h;
          header = [fst seed, snd seed, fst digest, snd digest, ZERO, ZERO];
          cells = deferred_cells B deferred;
          cells = (if length cells mod 2 \<noteq> 0 then cells @ [ZERO] else cells)
      in lane_hash B (concat (map (\<lambda>v. [c0 v, c1 v]) header)
           @ concat (map (\<lambda>v. [c0 v, c1 v, c2 v]) cells)))"

section \<open>Payloads\<close>

text \<open>The payload's own preflight: the layout of the wire grammar, with the rows' headers as its
  only allocation total.\<close>

type_synonym pl_state = "byte list \<times> nat"

definition pl_length :: "nat \<Rightarrow> nat \<Rightarrow> byte list \<Rightarrow> mixed_error + nat \<times> byte list" where
  "pl_length max_n width bytes =
     (if length bytes < 8 then Inl Err_Encoding
      else
        (let count = le_nat (take 8 bytes); bytes = drop 8 bytes
         in if count > max_n \<or> count > length bytes div width then Inl Err_Encoding
            else Inr (count, bytes)))"

definition pl_take :: "nat \<Rightarrow> byte list \<Rightarrow> mixed_error + byte list" where
  "pl_take n bytes = (if n > length bytes then Inl Err_Encoding else Inr (drop n bytes))"

definition pl_vector :: "nat \<Rightarrow> nat \<Rightarrow> byte list \<Rightarrow> mixed_error + byte list" where
  "pl_vector max_n width bytes =
     rbind (pl_length max_n width bytes) (\<lambda>(count, bytes). pl_take (count * width) bytes)"

fun pl_repeat :: "('s \<Rightarrow> mixed_error + 's) \<Rightarrow> nat \<Rightarrow> 's \<Rightarrow> mixed_error + 's" where
  "pl_repeat f 0 s = Inr s"
| "pl_repeat f (Suc n) s = rbind (f s) (pl_repeat f n)"

definition pl_phase :: "pl_state \<Rightarrow> mixed_error + pl_state" where
  "pl_phase s = (case s of (bytes, allocation) \<Rightarrow>
     rbind (pl_length 4096 8 bytes) (\<lambda>(rows, bytes).
     let allocation = allocation + rows * 24 in
     if allocation > 32 * 1024 * 1024 then Inl Err_Encoding
     else
       rbind (pl_repeat (pl_vector (MAX_PAYLOAD_BYTES div 8) 8) rows bytes) (\<lambda>bytes.
       rbind (pl_vector (MAX_PAYLOAD_BYTES div 32) 32 bytes) (\<lambda>bytes.
       Inr (bytes, allocation)))))"

definition preflight_payload ::
  "('pk, 'sg, 'pf, 'vs, 'mc, 's) backend \<Rightarrow> byte list \<Rightarrow> mixed_error + unit" where
  "preflight_payload B bytes =
     rbind (pl_repeat (pl_vector 32 24) 3 bytes) (\<lambda>bytes.
     rbind (pl_vector (stream_cap B) 24 bytes) (\<lambda>bytes.
     rbind (pl_length 128 16 bytes) (\<lambda>(phases, bytes).
     rbind (pl_repeat pl_phase phases (bytes, 0)) (\<lambda>(bytes, _).
     if bytes \<noteq> [] then Inl Err_Encoding else Inr ()))))"

record ('mc, 'pf) mixed_proof =
  mp_deps :: "dep list"
  mp_deferred :: "'mc deferred_claim"
  mp_proof :: 'pf

definition decode_payload ::
  "('pk, 'sg, 'pf, 'vs, 'mc, 's) backend \<Rightarrow> byte list
     \<Rightarrow> mixed_error + 'mc deferred_claim \<times> 'pf" where
  "decode_payload B payload =
     (if length payload > MAX_PAYLOAD_BYTES then Inl Err_Capacity
      else
        rbind (preflight_payload B payload) (\<lambda>_.
        rbind (ok_or (mixed_deserialize B payload) Err_Encoding) (\<lambda>(points, mats, proof).
        if \<not> recursion_supported B (unified_guest B) proof then Inl Err_Capacity
        else rbind (mixed_deferred B points mats) (\<lambda>deferred. Inr (deferred, proof)))))"

definition from_bytes_without_deps ::
  "('pk, 'sg, 'pf, 'vs, 'mc, 's) backend \<Rightarrow> dep list \<Rightarrow> byte list
     \<Rightarrow> mixed_error + ('mc, 'pf) mixed_proof" where
  "from_bytes_without_deps B deps payload =
     rbind (check_dependencies deps) (\<lambda>_.
     rbind (decode_payload B payload) (\<lambda>(deferred, proof).
     Inr \<lparr>mp_deps = deps, mp_deferred = deferred, mp_proof = proof\<rparr>))"

definition to_bytes_without_deps ::
  "('pk, 'sg, 'pf, 'vs, 'mc, 's) backend \<Rightarrow> ('mc, 'pf) mixed_proof \<Rightarrow> byte list" where
  "to_bytes_without_deps B p = mixed_serialize B
     (bytecode_point (mp_deferred p), matrix_points B (mp_deferred p), mp_proof p)"

definition verify_mixed_proof ::
  "('pk, 'sg, 'pf, 'vs, 'mc, 's) backend \<Rightarrow> ('mc, 'pf) mixed_proof \<Rightarrow> mixed_error + unit" where
  "verify_mixed_proof B p =
     rbind (check_dependencies (mp_deps p)) (\<lambda>_.
     if \<not> recursion_supported B (unified_guest B) (mp_proof p) then Inl Err_Capacity
     else
       (let pi = mixed_statement B (dependency_hash B (mp_deps p)) (mp_deferred p)
        in rbind (map_err Err_Proof (cpu_verify B (unified_guest B) pi (mp_proof p))) (\<lambda>_. Inr ())))"

definition verify_mixed_deps ::
  "('pk, 'sg, 'pf, 'vs, 'mc, 's) backend \<Rightarrow> hash \<Rightarrow> byte list \<Rightarrow> mixed_error + unit" where
  "verify_mixed_deps B h payload =
     rbind (decode_payload B payload) (\<lambda>(deferred, proof).
     let pi = mixed_statement B h deferred
     in rbind (map_err Err_Proof (cpu_verify B (unified_guest B) pi proof)) (\<lambda>_. Inr ()))"

end
