(* ===== verification/Mixed_Prepare.thy ===== *)
theory Mixed_Prepare
  imports Mixed_Profile
begin

unbundle bit_operations_syntax

text \<open>
  The second half of \<open>rec_aggregation/src/eip8288_mixed.rs\<close>: the hints a mixed guest run is fed
  and the two entry points \<open>prepare_mixed_with_hints\<close> and \<open>aggregate_mixed\<close>. A hint log lists
  the pushes in order, each a stream name and an entry.
\<close>

section \<open>Hint pushes\<close>

definition cells_of ::
  "('pk, 'sg, 'pf, 'vs, 'mc, 's) backend \<Rightarrow> dep \<Rightarrow> F192 list" where
  "cells_of B d = map (pack_16_bytes B) (as_chunks 16 d)"

text \<open>The sponge padding of a 136-byte rate: a one byte, zeros to a full block, the top bit of
  the last byte.\<close>

definition keccak_pad :: "byte list \<Rightarrow> byte list" where
  "keccak_pad bytes =
     (let padded = bytes @ [1];
          size = (length padded + 135) div 136 * 136;
          padded = padded @ replicate (size - length padded) 0
      in butlast padded @ [last padded XOR 128])"

definition byte_indices ::
  "('pk, 'sg, 'pf, 'vs, 'mc, 's) backend \<Rightarrow> byte list \<Rightarrow> F192 list list" where
  "byte_indices B bytes = map (\<lambda>b. [gcount B (unat b)]) (filter (\<lambda>b. b \<noteq> 0) (keccak_pad bytes))"

text \<open>The cells are 16 bytes long: the code asserts that the length is a multiple of 16, which
  holds for the 96-byte dependencies and 32-byte digests it is given.\<close>

definition cell_byte_hints ::
  "('pk, 'sg, 'pf, 'vs, 'mc, 's) backend \<Rightarrow> byte list \<Rightarrow> hint_log" where
  "cell_byte_hints B bytes = concat (map (\<lambda>cell.
       (''cell_bytes'', map (\<lambda>b. integer (unat b)) cell)
       # map (\<lambda>b. (''cell_index'', [gcount B (unat b)])) cell)
     (as_chunks 16 bytes))"

definition dependency_byte_hints ::
  "('pk, 'sg, 'pf, 'vs, 'mc, 's) backend \<Rightarrow> dep list \<Rightarrow> hint_log" where
  "dependency_byte_hints B deps = concat (map (cell_byte_hints B) deps)"

definition hash_split_hints ::
  "('pk, 'sg, 'pf, 'vs, 'mc, 's) backend \<Rightarrow> byte list \<Rightarrow> hint_log" where
  "hash_split_hints B bytes =
     (''keccak_split'', [gcount B (length bytes div 136), gcount B (length bytes mod 136)])
     # map (\<lambda>entry. (''byte_index'', entry)) (byte_indices B bytes)"

definition program_digest ::
  "('pk, 'sg, 'pf, 'vs, 'mc, 's) backend \<Rightarrow> program \<Rightarrow> hash" where
  "program_digest B p = hasher B (concat (map le64 (bytecode_table B (prog p))))"

text \<open>\<open>binary_search\<close> on a strictly sorted slice: the index of the only equal element.\<close>

definition binary_search :: "'a list \<Rightarrow> 'a \<Rightarrow> nat option" where
  "binary_search xs x =
     (let i = length (takeWhile (\<lambda>y. y \<noteq> x) xs) in if i < length xs then Some i else None)"

text \<open>A claim is selected where it is a member of the output set that no earlier claim covered.\<close>

definition selection_index :: "dep list \<Rightarrow> dep list \<Rightarrow> dep \<Rightarrow> nat option" where
  "selection_index selected seen d =
     (case binary_search selected d of None \<Rightarrow> None | Some i \<Rightarrow> if d \<in> set seen then None else Some i)"

text \<open>\<open>seen.insert\<close> runs only where the search succeeds.\<close>

definition push_selection ::
  "('pk, 'sg, 'pf, 'vs, 'mc, 's) backend \<Rightarrow> dep list \<Rightarrow> dep \<Rightarrow> hint_log \<times> dep list
     \<Rightarrow> hint_log \<times> dep list" where
  "push_selection B selected d st = (case st of (hints, seen) \<Rightarrow>
     (let index = selection_index selected seen d;
          seen = (if binary_search selected d \<noteq> None then List.insert d seen else seen)
      in (hints @ [(''selection'',
            [integer (of_bool (index \<noteq> None)),
             gcount B (case index of None \<Rightarrow> 0 | Some i \<Rightarrow> i)])], seen)))"

section \<open>Inputs and the state of the preparation\<close>

record 'pf generic_input =
  gi_program :: program
  gi_proof :: 'pf
  gi_data :: hash

type_synonym ('pk, 'sg) raw_claim = "'pk \<times> hash \<times> 'sg"

record ('mc, 's) prep =
  pr_hints :: hint_log
  pr_seen :: "dep list"
  pr_fresh :: "'s sub_claim list"
  pr_carried :: "'mc deferred_claim list"

definition prep_push :: "hint_log \<Rightarrow> ('mc, 's) prep \<Rightarrow> ('mc, 's) prep" where
  "prep_push hs st = st\<lparr>pr_hints := pr_hints st @ hs\<rparr>"

definition prep_select ::
  "('pk, 'sg, 'pf, 'vs, 'mc, 's) backend \<Rightarrow> dep list \<Rightarrow> dep \<Rightarrow> ('mc, 's) prep \<Rightarrow> ('mc, 's) prep" where
  "prep_select B selected d st = (case push_selection B selected d (pr_hints st, pr_seen st) of
     (hints, seen) \<Rightarrow> st\<lparr>pr_hints := hints, pr_seen := seen\<rparr>)"

text \<open>One raw signature.\<close>

definition prep_raw ::
  "('pk, 'sg, 'pf, 'vs, 'mc, 's) backend \<Rightarrow> dep list \<Rightarrow> ('pk, 'sg) raw_claim \<Rightarrow> ('mc, 's) prep
     \<Rightarrow> mixed_error + ('mc, 's) prep" where
  "prep_raw B selected claim st = (case claim of (pk, data, sig) \<Rightarrow>
     (let st = prep_push [(''raw_sph_claim'', sphincs_signer_cells B data pk)] st
      in rbind (map_err Err_Witness (sphincs_hints B data pk sig)) (\<lambda>hs.
         Inr (prep_select B selected (sph_dep B pk data) (prep_push hs st)))))"

text \<open>The operand bytes of one instruction record, by its tag.\<close>

definition operand_offsets :: "byte \<Rightarrow> nat list option" where
  "operand_offsets tag =
     (if tag \<in> {0, 1, 3, 4} then Some [1, 5, 9]
      else if tag = 2 then Some [1]
      else if tag = 5 then Some [1, 5, 9, 13, 17, 25, 41]
      else if tag = 6 then Some [1, 5, 9, 13, 17, 21, 25, 29, 33, 37]
      else None)"

definition instruction_hints ::
  "('pk, 'sg, 'pf, 'vs, 'mc, 's) backend \<Rightarrow> byte list \<Rightarrow> mixed_error + hint_log" where
  "instruction_hints B instruction =
     rbind (ok_or (operand_offsets (instruction ! 0)) Err_Capacity) (\<lambda>offsets.
     Inr ((''code_instruction'', map (\<lambda>b. integer (unat b)) instruction)
       # concat (map (\<lambda>offset. map (\<lambda>b. (''operand_index'', [gcount B (unat b)]))
           (take 2 (drop offset instruction))) offsets)))"

definition counter_hints ::
  "('pk, 'sg, 'pf, 'vs, 'mc, 's) backend \<Rightarrow> nat \<Rightarrow> hint_log" where
  "counter_hints B n = concat (map (\<lambda>block.
       [(''counter_index'', [gcount B (block AND 255)]),
        (''counter_index'', [gcount B (drop_bit 8 block)])]) [1..<2 * n + 1])"

text \<open>One generic proof: it is checked, its program re-encoded for the guest, and its deferred
  claim carried with cleared bytecode points.\<close>

definition prep_generic ::
  "('pk, 'sg, 'pf, 'vs, 'mc, 's) backend \<Rightarrow> dep list \<Rightarrow> 'mc deferred_claim
     \<Rightarrow> 'pf generic_input \<Rightarrow> ('mc, 's) prep \<Rightarrow> mixed_error + ('mc, 's) prep" where
  "prep_generic B selected leaf input st =
     (let p = gi_program input; pi = pack_hash_state B (gi_data input) in
      rbind (rcheck (generic_recursion_supported B p (gi_proof input)) Err_Capacity) (\<lambda>_.
      rbind (map_err Err_Proof (cpu_verify B p pi (gi_proof input))) (\<lambda>summary.
      rbind (mixed_encode_program p) (\<lambda>code.
      rbind (rmap (instruction_hints B) (as_chunks 45 (drop 4 code))) (\<lambda>instructions.
      rbind (map_err Err_Witness (gen_verify B p pi summary (min_mu B))) (\<lambda>(sub_hints, sub).
      rbind (generic_verification_key B p) (\<lambda>key.
      (let st = prep_push
             ([(''program_log'', [integer (trailing_zeros (length (prog p)))]),
               (''code_header'', map (\<lambda>b. integer (unat b)) (take 4 code))]
              @ concat instructions @ hash_split_hints B code
              @ counter_hints B (length (prog p))
              @ cell_byte_hints B (program_digest B p)
              @ [(''generic_data'', [fst pi, snd pi])]
              @ sub_hints) st;
           sub = sub\<lparr>bytecode_row_point := replicate (mixed_vars B - 4) ZERO,
             bytecode_selector_point := replicate 4 ZERO, sub_bytecode_value := ZERO\<rparr>;
           st = prep_select B selected (dep_of 0x11 (gi_data input) key) st
       in Inr (st\<lparr>pr_fresh := pr_fresh st @ [sub], pr_carried := pr_carried st @ [leaf]\<rparr>)))))))))"

text \<open>One child proof.\<close>

definition prep_child_deps ::
  "('pk, 'sg, 'pf, 'vs, 'mc, 's) backend \<Rightarrow> dep list \<Rightarrow> dep list \<Rightarrow> ('mc, 's) prep
     \<Rightarrow> ('mc, 's) prep" where
  "prep_child_deps B selected deps st =
     fold (\<lambda>d st. prep_select B selected d (prep_push [(''dependency'', cells_of B d)] st)) deps st"

definition prep_child ::
  "('pk, 'sg, 'pf, 'vs, 'mc, 's) backend \<Rightarrow> dep list \<Rightarrow> ('mc, 'pf) mixed_proof \<Rightarrow> ('mc, 's) prep
     \<Rightarrow> mixed_error + ('mc, 's) prep" where
  "prep_child B selected child st =
     (let guest = unified_guest B; deps = mp_deps child in
      rbind (rcheck (recursion_supported B guest (mp_proof child)) Err_Capacity) (\<lambda>_.
      (let st = prep_push [(''child_count'', [gcount B (length deps)])] st;
           st = prep_child_deps B selected deps st;
           st = prep_push (dependency_byte_hints B deps @ hash_split_hints B (concat deps)
             @ [(''child_carried'', deferred_cells B (mp_deferred child))]) st;
           pi = mixed_statement B (dependency_hash B deps) (mp_deferred child)
       in rbind (map_err Err_Proof (cpu_verify B guest pi (mp_proof child))) (\<lambda>summary.
          rbind (map_err Err_Witness (gen_verify B guest pi summary (min_mu B))) (\<lambda>(sub_hints, sub).
          (let st = prep_push sub_hints st
           in Inr (st\<lparr>pr_fresh := pr_fresh st @ [sub],
                 pr_carried := pr_carried st @ [mp_deferred child]\<rparr>)))))))"

text \<open>A fallible loop that threads a state.\<close>

fun rfold :: "('a \<Rightarrow> 's \<Rightarrow> 'e + 's) \<Rightarrow> 'a list \<Rightarrow> 's \<Rightarrow> 'e + 's" where
  "rfold f [] s = Inr s"
| "rfold f (x # xs) s = rbind (f x s) (rfold f xs)"

section \<open>Preparation and proving\<close>

text \<open>The claims the inputs support: the children's sets, the raw signatures' dependencies and
  the generic programs'. The first error, in this order, is the result.\<close>

definition child_claims :: "('mc, 'pf) mixed_proof list \<Rightarrow> mixed_error + dep list" where
  "child_claims children = rbind
     (rmap (\<lambda>child. rbind (check_dependencies (mp_deps child)) (\<lambda>_. Inr (mp_deps child))) children)
     (\<lambda>dss. Inr (concat dss))"

definition generic_claims ::
  "('pk, 'sg, 'pf, 'vs, 'mc, 's) backend \<Rightarrow> 'pf generic_input list \<Rightarrow> mixed_error + dep list" where
  "generic_claims B inputs = rmap (\<lambda>input.
     rbind (generic_verification_key B (gi_program input)) (\<lambda>key.
     Inr (dep_of 0x11 (gi_data input) key))) inputs"

definition available_claims ::
  "('pk, 'sg, 'pf, 'vs, 'mc, 's) backend \<Rightarrow> ('mc, 'pf) mixed_proof list
     \<Rightarrow> ('pk, 'sg) raw_claim list \<Rightarrow> 'pf generic_input list \<Rightarrow> mixed_error + dep list" where
  "available_claims B children raw generic =
     rbind (child_claims children) (\<lambda>from_children.
     rbind (generic_claims B generic) (\<lambda>from_generic.
     Inr (from_children @ map (\<lambda>(pk, data, _). sph_dep B pk data) raw @ from_generic)))"

definition input_capacity_ok ::
  "('mc, 'pf) mixed_proof list \<Rightarrow> ('pk, 'sg) raw_claim list \<Rightarrow> 'pf generic_input list
     \<Rightarrow> nat \<Rightarrow> bool" where
  "input_capacity_ok children raw generic rate \<longleftrightarrow>
     \<not> (length children > 2 \<or> length raw > MAX_RAW_SPHINCS \<or> length generic > 1
       \<or> of_bool (children \<noteq> []) + of_bool (raw \<noteq> []) + of_bool (generic \<noteq> []) > (1 :: nat)
       \<or> rate \<noteq> LOG_INV_RATE)"

definition initial_hints ::
  "('pk, 'sg, 'pf, 'vs, 'mc, 's) backend \<Rightarrow> dep list \<Rightarrow> nat \<Rightarrow> nat \<Rightarrow> nat \<Rightarrow> 'mc deferred_claim
     \<Rightarrow> hint_log" where
  "initial_hints B selected n_raw n_generic n_children leaf =
     (let seed = fs_seed B (unified_guest B);
          ma = matrix_values B (fst (matrices leaf)); mb = matrix_values B (snd (matrices leaf)) in
      [(''mixed_meta'', [gcount B (length selected), gcount B n_raw, gcount B n_generic,
          gcount B n_children]),
       (''fs_seed'', [fst seed, snd seed])]
      @ map (\<lambda>d. (''dependency'', cells_of B d)) selected
      @ dependency_byte_hints B selected
      @ hash_split_hints B (concat selected)
      @ [(''leaf_defer'', [bytecode_value leaf, fst ma, snd ma, fst mb, snd mb])])"

definition prepare_mixed_with_hints ::
  "('pk, 'sg, 'pf, 'vs, 'mc, 's) backend \<Rightarrow> ('mc, 'pf) mixed_proof list
     \<Rightarrow> ('pk, 'sg) raw_claim list \<Rightarrow> 'pf generic_input list \<Rightarrow> dep list \<Rightarrow> nat
     \<Rightarrow> (hint_log \<Rightarrow> hint_log) \<Rightarrow> mixed_error + program \<times> 'mc deferred_claim \<times> statement" where
  "prepare_mixed_with_hints B children raw generic selected rate mutate =
     rbind (check_dependencies selected) (\<lambda>_.
     rbind (rcheck (input_capacity_ok children raw generic rate) Err_Capacity) (\<lambda>_.
     rbind (available_claims B children raw generic) (\<lambda>available.
     rbind (rcheck (\<not> list_ex (\<lambda>d. d \<notin> set available) selected) Err_Dependencies) (\<lambda>_.
     rbind (mixed_deferred B (replicate (mixed_vars B) ZERO)
        (replicate (2 * k_log B Circuit_Blake2s) ZERO, replicate (2 * k_log B Circuit_Keccak) ZERO))
       (\<lambda>leaf.
     (let st = \<lparr>pr_hints = initial_hints B selected (length raw) (length generic)
                  (length children) leaf,
               pr_seen = [], pr_fresh = [], pr_carried = []\<rparr> in
      rbind (rfold (prep_raw B selected) raw st) (\<lambda>st.
      rbind (rfold (prep_generic B selected leaf) generic st) (\<lambda>st.
      rbind (rfold (prep_child B selected) children st) (\<lambda>st.
      (let (st, deferred) = (if pr_fresh st = [] then (st, leaf)
             else (case aggregate_claims B (pr_fresh st) (pr_carried st) (mixed_table B) (mixed_vars B)
               of (sub_hints, claim) \<Rightarrow> (prep_push sub_hints st, claim)));
           pi = mixed_statement B (dependency_hash B selected) deferred;
           guest = install_hints B (mutate (pr_hints st)) (unified_guest B)
       in Inr (guest, deferred, pi)))))))))))"

definition prepare_mixed ::
  "('pk, 'sg, 'pf, 'vs, 'mc, 's) backend \<Rightarrow> ('mc, 'pf) mixed_proof list
     \<Rightarrow> ('pk, 'sg) raw_claim list \<Rightarrow> 'pf generic_input list \<Rightarrow> dep list \<Rightarrow> nat
     \<Rightarrow> mixed_error + program \<times> 'mc deferred_claim \<times> statement" where
  "prepare_mixed B children raw generic selected rate =
     prepare_mixed_with_hints B children raw generic selected rate (\<lambda>hints. hints)"

definition aggregate_mixed ::
  "('pk, 'sg, 'pf, 'vs, 'mc, 's) backend \<Rightarrow> ('mc, 'pf) mixed_proof list
     \<Rightarrow> ('pk, 'sg) raw_claim list \<Rightarrow> 'pf generic_input list \<Rightarrow> dep list \<Rightarrow> nat
     \<Rightarrow> mixed_error + ('mc, 'pf) mixed_proof" where
  "aggregate_mixed B children raw generic selected rate =
     rbind (prepare_mixed B children raw generic selected rate) (\<lambda>(guest, deferred, pi).
     rbind (map_err Err_Prover (cpu_prove B guest pi rate)) (\<lambda>proof.
     if \<not> recursion_supported B (unified_guest B) proof then Inl Err_Capacity
     else
       (let result = \<lparr>mp_deps = selected, mp_deferred = deferred, mp_proof = proof\<rparr>
        in if length (to_bytes_without_deps B result) > MAX_PAYLOAD_BYTES then Inl Err_Capacity
           else Inr result)))"

end
