(* ===== verification/Text_Codec.thy ===== *)
theory Text_Codec
  imports Prelude
begin

text \<open>
  Numbers and bytes as text: decimal as \<open>str::parse\<close> reads it and \<open>Display\<close> writes it, hexadecimal as the
  \<open>hex\<close> crate does, and the parts of a string between separators.
\<close>

section \<open>Decimal\<close>

text \<open>\<open>str::parse::<usize>\<close>: an optional plus sign, then decimal digits, within 64 bits.\<close>

fun parse_digits :: "nat \<Rightarrow> string \<Rightarrow> nat option" where
  "parse_digits acc [] = (if acc < 2 ^ 64 then Some acc else None)"
| "parse_digits acc (c # cs) =
     (let d = of_char c :: nat in
      if 48 \<le> d \<and> d \<le> 57 then parse_digits (acc * 10 + (d - 48)) cs else None)"

definition parse_usize :: "string \<Rightarrow> nat option" where
  "parse_usize s =
     (let digits = (case s of c # cs \<Rightarrow> if c = CHR ''+'' then cs else s | [] \<Rightarrow> [])
      in if digits = [] then None else parse_digits 0 digits)"

text \<open>\<open>Display\<close> of an unsigned integer.\<close>

fun show_nat :: "nat \<Rightarrow> string" where
  "show_nat n = (if n < 10 then [char_of (48 + n)] else show_nat (n div 10) @ [char_of (48 + n mod 10)])"

declare show_nat.simps [simp del]

definition show_u64 :: "u64 \<Rightarrow> string" where
  "show_u64 n = show_nat (unat n)"

definition parse_u64 :: "string \<Rightarrow> u64 option" where
  "parse_u64 s = map_option of_nat (parse_usize s)"

fun digits_value :: "nat \<Rightarrow> string \<Rightarrow> nat" where
  "digits_value acc [] = acc"
| "digits_value acc (c # cs) = digits_value (acc * 10 + (of_char c - 48)) cs"

definition is_digit :: "char \<Rightarrow> bool" where
  "is_digit c \<longleftrightarrow> 48 \<le> (of_char c :: nat) \<and> (of_char c :: nat) \<le> 57"

lemma parse_digits_eq: "parse_digits acc s =
    (if list_all is_digit s \<and> digits_value acc s < 2 ^ 64 then Some (digits_value acc s) else None)"
  by (induction s arbitrary: acc) (simp_all add: is_digit_def Let_def)

lemma digits_value_append: "digits_value acc (s @ t) = digits_value (digits_value acc s) t"
  by (induction s arbitrary: acc) simp_all

lemma digit_char: "n < 10 \<Longrightarrow> (of_char (char_of (48 + n)) :: nat) = 48 + n"
  by simp

lemma show_nat_digits: "list_all is_digit (show_nat n) \<and> show_nat n \<noteq> [] \<and> digits_value 0 (show_nat n) = n"
proof (induction n rule: show_nat.induct)
  case (1 n)
  show ?case
  proof (cases "n < 10")
    case True
    then show ?thesis using digit_char [of n] by (subst (1 2 3) show_nat.simps) (simp add: is_digit_def)
  next
    case False
    have "n mod 10 < 10" by simp
    then have "is_digit (char_of (48 + n mod 10))" using digit_char [of "n mod 10"] by (simp add: is_digit_def)
    then show ?thesis using 1 False digit_char [OF \<open>n mod 10 < 10\<close>]
      by (subst (1 2 3) show_nat.simps) (simp add: digits_value_append)
  qed
qed

lemma digit_not: "is_digit c \<Longrightarrow> c \<noteq> CHR ''+'' \<and> c \<noteq> CHR ''/''"
  by (auto simp: is_digit_def)

lemma parse_show_u64: "parse_u64 (show_u64 n) = Some n"
proof -
  have "unat n < 2 ^ 64" using unsigned_less [of n] by simp
  moreover obtain c cs where "show_nat (unat n) = c # cs" using show_nat_digits [of "unat n"] by (cases "show_nat (unat n)") auto
  ultimately show ?thesis using show_nat_digits [of "unat n"] digit_not [of c]
    by (simp add: parse_u64_def parse_usize_def show_u64_def parse_digits_eq del: digits_value.simps)
qed

lemma show_u64_digits: "list_all is_digit (show_u64 n)"
  using show_nat_digits by (simp add: show_u64_def)

section \<open>Hexadecimal\<close>

definition hex_value :: "char \<Rightarrow> nat option" where
  "hex_value c = (let n = of_char c :: nat in
     if 48 \<le> n \<and> n \<le> 57 then Some (n - 48)
     else if 97 \<le> n \<and> n \<le> 102 then Some (n - 87)
     else if 65 \<le> n \<and> n \<le> 70 then Some (n - 55)
     else None)"

text \<open>\<open>hex::decode\<close>: an even number of digits of either case.\<close>

fun hex_decode :: "string \<Rightarrow> byte list option" where
  "hex_decode [] = Some []"
| "hex_decode [c] = None"
| "hex_decode (c # d # cs) = do {
     hi \<leftarrow> hex_value c;
     lo \<leftarrow> hex_value d;
     bs \<leftarrow> hex_decode cs;
     Some (of_nat (16 * hi + lo) # bs) }"

lemma hex_decode_length: "hex_decode s = Some bs \<Longrightarrow> length s = 2 * length bs"
  by (induction s arbitrary: bs rule: hex_decode.induct) (auto simp: dec_simps)

text \<open>Lower-case hexadecimal, the reference for the decoder.\<close>

definition hex_digit :: "nat \<Rightarrow> char" where
  "hex_digit n = (if n < 10 then char_of (48 + n) else char_of (87 + n))"

definition hex_encode :: "byte list \<Rightarrow> string" where
  "hex_encode bs = concat (map (\<lambda>b. [hex_digit (unat b div 16), hex_digit (unat b mod 16)]) bs)"

lemma hex_value_digit: "n < 16 \<Longrightarrow> hex_value (hex_digit n) = Some n"
  by (auto simp: hex_value_def hex_digit_def Let_def)

lemma hex_decode_encode: "hex_decode (hex_encode bs) = Some bs"
proof (induction bs)
  case (Cons b bs)
  have "unat b div 16 < 16" "unat b mod 16 < 16"
    using unat_byte_less [of b] by (simp_all add: less_mult_imp_div_less)
  moreover have "(of_nat (16 * (unat b div 16) + unat b mod 16) :: byte) = b"
    unfolding mult_div_mod_eq by simp
  ultimately show ?case
    using Cons by (simp add: hex_encode_def hex_value_digit del: of_nat_add of_nat_mult)
qed (simp add: hex_encode_def)

lemma length_hex_encode: "length (hex_encode bs) = 2 * length bs"
  by (induction bs) (simp_all add: hex_encode_def)

section \<open>Parts of a string\<close>

text \<open>\<open>split\<close> at a separator; there is always one part more than separators.\<close>

fun split_on :: "char \<Rightarrow> string \<Rightarrow> string list" where
  "split_on sep [] = [[]]"
| "split_on sep (c # cs) = (if c = sep then [] # split_on sep cs
     else (c # hd (split_on sep cs)) # tl (split_on sep cs))"

definition strip_prefix :: "string \<Rightarrow> string \<Rightarrow> string option" where
  "strip_prefix p s = (if take (length p) s = p then Some (drop (length p) s) else None)"

text \<open>The inverse of splitting.\<close>

fun join_with :: "char \<Rightarrow> string list \<Rightarrow> string" where
  "join_with sep [] = []"
| "join_with sep [w] = w"
| "join_with sep (w # ws) = w @ sep # join_with sep ws"

lemma split_on_not_Nil [simp]: "split_on sep s \<noteq> []"
  by (cases s) simp_all

lemma join_split: "join_with sep (split_on sep s) = s"
proof (induction s)
  case (Cons c s)
  obtain w ws where "split_on sep s = w # ws" by (cases "split_on sep s") simp_all
  then show ?case using Cons by (cases ws) simp_all
qed simp

lemma split_parts: "\<forall>w \<in> set (split_on sep s). sep \<notin> set w"
proof (induction s)
  case (Cons c s)
  obtain w ws where "split_on sep s = w # ws" by (cases "split_on sep s") simp_all
  then show ?case using Cons by auto
qed simp

lemma split_word: "sep \<notin> set w \<Longrightarrow> split_on sep w = [w]"
  by (induction w) auto

lemma split_word_sep: "sep \<notin> set w \<Longrightarrow> split_on sep (w @ sep # s) = w # split_on sep s"
  by (induction w) auto

lemma split_join: "\<forall>w \<in> set ws. sep \<notin> set w \<Longrightarrow> ws \<noteq> [] \<Longrightarrow> split_on sep (join_with sep ws) = ws"
  by (induction sep ws rule: join_with.induct) (simp_all add: split_word split_word_sep)

lemma split_eq_iff: "split_on sep s = ws \<longleftrightarrow> ws \<noteq> [] \<and> (\<forall>w \<in> set ws. sep \<notin> set w) \<and> s = join_with sep ws"
  using join_split split_parts split_join split_on_not_Nil by metis

lemma strip_prefix_append [simp]: "strip_prefix p (p @ s) = Some s"
  by (simp add: strip_prefix_def)

lemma strip_prefix_Some: "strip_prefix p s = Some t \<longleftrightarrow> s = p @ t"
  by (auto simp: strip_prefix_def) (metis append_take_drop_id)

end
