(* ===== verification/Aggregation.thy ===== *)
theory Aggregation
  imports Mixed_Prepare Text_Codec
begin

text \<open>
  The aggregation layer of \<open>adaptive/native/ffi/src/lib.rs\<close>: verification of the two witness
  kinds, decoding of an aggregate, the bounded recursive aggregation and the aggregate prover.
  \<open>None\<close> stands for \<open>Err(())\<close>.
\<close>

section \<open>Witnesses\<close>

definition commitment ::
  "('pk, 'sg, 'pf, 'vs, 'mc, 's) backend \<Rightarrow> dep list \<Rightarrow> hash" where
  "commitment B ds = keccak256 B (concat ds)"

definition parse_sphincs ::
  "('pk, 'sg, 'pf, 'vs, 'mc, 's) backend \<Rightarrow> hash \<Rightarrow> hash \<Rightarrow> byte list \<Rightarrow> ('pk \<times> 'sg) option" where
  "parse_sphincs B h vk witness = do {
     guard (\<not> length witness \<noteq> pk_size B + sig_size B);
     let pk = pk_from_bytes B (take 32 witness);
     guard (\<not> keccak256 B (pk_flatten B pk) \<noteq> vk);
     let sig = sig_from_bytes B (drop 32 witness);
     guard (sphincs_verify B pk h sig);
     Some (pk, sig) }"

definition decode_stark ::
  "('pk, 'sg, 'pf, 'vs, 'mc, 's) backend \<Rightarrow> hash \<Rightarrow> hash \<Rightarrow> byte list \<Rightarrow> (program \<times> 'pf) option" where
  "decode_stark B h vk witness = do {
     guard (\<not> length witness > MAX_BYTES);
     (code, r) \<leftarrow> rd_blob witness;
     guard (\<not> keccak256 B code \<noteq> vk);
     p \<leftarrow> stark_program (bytecode_digest B) code;
     preflight_cpu r;
     proof \<leftarrow> cpu_deserialize B r;
     guard (generic_recursion_supported B p proof);
     _ \<leftarrow> result_ok (cpu_verify B p (public_input h) proof);
     Some (p, proof) }"

definition verify_sphincs ::
  "('pk, 'sg, 'pf, 'vs, 'mc, 's) backend \<Rightarrow> hash \<Rightarrow> hash \<Rightarrow> byte list \<Rightarrow> bool" where
  "verify_sphincs B h vk witness = (parse_sphincs B h vk witness \<noteq> None)"

definition verify_stark ::
  "('pk, 'sg, 'pf, 'vs, 'mc, 's) backend \<Rightarrow> hash \<Rightarrow> hash \<Rightarrow> byte list \<Rightarrow> bool" where
  "verify_stark B h vk witness = (decode_stark B h vk witness \<noteq> None)"

section \<open>Aggregates\<close>

record ('mc, 'pf) aggregate =
  ag_deps :: "dep list"
  ag_proof :: "('mc, 'pf) mixed_proof option"

definition decode_aggregate_with_hash ::
  "('pk, 'sg, 'pf, 'vs, 'mc, 's) backend \<Rightarrow> byte list \<Rightarrow> hash option
     \<Rightarrow> ('mc, 'pf) aggregate option" where
  "decode_aggregate_with_hash B bytes expected = do {
     guard (\<not> length bytes > MAX_BYTES);
     (magic, r) \<leftarrow> rd_take 4 bytes;
     guard (\<not> magic \<noteq> MAGIC);
     (deps, r) \<leftarrow> rd_deps r;
     guard (\<not> (\<not> windows_less deps
       \<or> generic_count deps > MAX_GENERIC_STARKS
       \<or> (case expected of None \<Rightarrow> False | Some h \<Rightarrow> commitment B deps \<noteq> h)));
     (payload, r) \<leftarrow> rd_blob r;
     rd_end r;
     guard (\<not> (length payload > MAX_MIXED_GUEST_BYTES \<or> (payload = []) \<noteq> (deps = [])));
     proof \<leftarrow>
       (if deps = [] then Some None
        else do {
          preflight_mixed payload;
          proof \<leftarrow> result_ok (from_bytes_without_deps B deps payload);
          result_ok (verify_mixed_proof B proof);
          Some (Some proof) });
     Some \<lparr>ag_deps = deps, ag_proof = proof\<rparr> }"

definition decode_aggregate ::
  "('pk, 'sg, 'pf, 'vs, 'mc, 's) backend \<Rightarrow> byte list \<Rightarrow> ('mc, 'pf) aggregate option" where
  "decode_aggregate B bytes = decode_aggregate_with_hash B bytes None"

section \<open>Bounded aggregation\<close>

text \<open>The environment variable \<open>DAISUGI_BENCH_LEAF_SIZE\<close>, \<open>None\<close> when it is not set.\<close>

definition raw_signatures_per_leaf :: "string option \<Rightarrow> nat option" where
  "raw_signatures_per_leaf var = do {
     v \<leftarrow> var;
     size \<leftarrow> parse_usize v;
     guard (1 \<le> size \<and> size \<le> MAX_RAW_SPHINCS);
     Some size }"

definition RAW_GENERICS_PER_LEAF :: nat where "RAW_GENERICS_PER_LEAF = 1"
definition RECURSIVE_FAN_IN :: nat where "RECURSIVE_FAN_IN = 2"

type_synonym ('pk, 'sg) raw_input = "dep \<times> 'pk \<times> hash \<times> 'sg"
type_synonym 'pf stark_input = "dep \<times> program \<times> 'pf"

text \<open>\<open>filter(|x| p(x) && seen.insert(key))\<close>: the set grows only past \<open>p\<close>.\<close>

fun filter_unseen :: "(dep \<Rightarrow> bool) \<Rightarrow> dep list \<Rightarrow> (dep \<times> 'a) list \<Rightarrow> (dep \<times> 'a) list \<times> dep list" where
  "filter_unseen P seen [] = ([], seen)"
| "filter_unseen P seen ((d, x) # xs) =
     (if P d \<and> d \<notin> set seen then
        (case filter_unseen P (d # seen) xs of (ys, seen) \<Rightarrow> ((d, x) # ys, seen))
      else filter_unseen P seen xs)"

text \<open>\<open>Vec::swap_remove\<close> of the node found by \<open>position\<close> returns that node.\<close>

definition find_node :: "dep list \<Rightarrow> ('mc, 'pf) mixed_proof list \<Rightarrow> ('mc, 'pf) mixed_proof option" where
  "find_node desired nodes = List.find (\<lambda>node. mp_deps node = desired) nodes"

definition raw_leaf ::
  "('pk, 'sg, 'pf, 'vs, 'mc, 's) backend \<Rightarrow> ('pk, 'sg) raw_input list
     \<Rightarrow> ('mc, 'pf) mixed_proof option" where
  "raw_leaf B leaf =
     (let signatures = map (\<lambda>(_, pk, message, sig). (pk, message, sig)) leaf;
          deps = btree_vec (map fst leaf)
      in result_ok (aggregate_mixed B [] signatures [] deps 1))"

definition generic_leaf ::
  "('pk, 'sg, 'pf, 'vs, 'mc, 's) backend \<Rightarrow> 'pf stark_input list \<Rightarrow> ('mc, 'pf) mixed_proof option" where
  "generic_leaf B leaf =
     (let inputs = map (\<lambda>(d, p, proof). \<lparr>gi_program = p, gi_proof = proof,
             gi_data = take 32 (drop 32 d)\<rparr>) leaf;
          deps = btree_vec (map fst leaf)
      in result_ok (aggregate_mixed B [] [] inputs deps 1))"

text \<open>One batch of the recursion: a lone node that carries only selected claims is kept.\<close>

definition merge_batch ::
  "('pk, 'sg, 'pf, 'vs, 'mc, 's) backend \<Rightarrow> dep list \<Rightarrow> ('mc, 'pf) mixed_proof list
     \<Rightarrow> ('mc, 'pf) mixed_proof option" where
  "merge_batch B selected batch =
     (let deps = btree_vec (filter (\<lambda>d. d \<in> set selected) (concat (map mp_deps batch)))
      in if length batch = 1 \<and> mp_deps (batch ! 0) = deps then Some (last batch)
         else result_ok (aggregate_mixed B batch [] [] deps 1))"

definition merge_level ::
  "('pk, 'sg, 'pf, 'vs, 'mc, 's) backend \<Rightarrow> dep list \<Rightarrow> ('mc, 'pf) mixed_proof list
     \<Rightarrow> ('mc, 'pf) mixed_proof list option" where
  "merge_level B selected nodes = omap (merge_batch B selected) (chunks RECURSIVE_FAN_IN nodes)"

lemma length_chunks_le: "0 < n \<Longrightarrow> length (chunks n xs) \<le> length xs"
  by (induction n xs rule: chunks.induct)
    (subst chunks.simps, auto simp: neq_Nil_conv Suc_le_eq intro: le_trans)

lemma length_chunks_less:
  assumes "2 \<le> n" and "2 \<le> length xs"
  shows "length (chunks n xs) < length xs"
proof -
  have "xs \<noteq> []" using assms(2) by auto
  then have "length (chunks n xs) = Suc (length (chunks n (drop n xs)))"
    using assms(1) by (simp add: chunks_Cons)
  also have "\<dots> \<le> Suc (length (drop n xs))"
    using assms(1) length_chunks_le [of n "drop n xs"] by simp
  also have "\<dots> < length xs"
    using assms by simp
  finally show ?thesis .
qed

lemma merge_level_length: "merge_level B selected nodes = Some next' \<Longrightarrow> 1 < length nodes
    \<Longrightarrow> length next' < length nodes"
  using length_chunks_less [of RECURSIVE_FAN_IN nodes]
  by (auto simp: merge_level_def RECURSIVE_FAN_IN_def dest: omap_length)

text \<open>\<open>while nodes.len() > 1\<close>.\<close>

function merge_nodes ::
  "('pk, 'sg, 'pf, 'vs, 'mc, 's) backend \<Rightarrow> dep list \<Rightarrow> ('mc, 'pf) mixed_proof list
     \<Rightarrow> ('mc, 'pf) mixed_proof list option" where
  "merge_nodes B selected nodes =
     (if length nodes > 1 then do {
        next \<leftarrow> merge_level B selected nodes;
        merge_nodes B selected next }
      else Some nodes)"
  by pat_completeness auto
termination
  by (relation "measure (\<lambda>(_, _, nodes). length nodes)") (auto dest: merge_level_length)

declare merge_nodes.simps [simp del]

definition aggregate_bounded ::
  "('pk, 'sg, 'pf, 'vs, 'mc, 's) backend \<Rightarrow> string option \<Rightarrow> ('mc, 'pf) mixed_proof list
     \<Rightarrow> ('pk, 'sg) raw_input list \<Rightarrow> 'pf stark_input list \<Rightarrow> dep list
     \<Rightarrow> ('mc, 'pf) mixed_proof option" where
  "aggregate_bounded B leaf_var children raw generic desired =
     (let selected = btree_vec desired;
          nodes = filter (\<lambda>child. list_ex (\<lambda>claim. claim \<in> set selected) (mp_deps child)) children
      in case find_node desired nodes of
           Some node \<Rightarrow> Some node
         | None \<Rightarrow>
           (let covered = concat (map mp_deps nodes);
                wanted = (\<lambda>d. d \<in> set selected \<and> d \<notin> set covered);
                (raw, seen) = filter_unseen wanted [] raw;
                (generic, seen) = filter_unseen wanted seen generic
            in do {
              per_leaf \<leftarrow> raw_signatures_per_leaf leaf_var;
              raw_nodes \<leftarrow> omap (raw_leaf B) (chunks per_leaf raw);
              generic_nodes \<leftarrow> omap (generic_leaf B) (chunks RAW_GENERICS_PER_LEAF generic);
              nodes \<leftarrow> merge_nodes B selected (nodes @ raw_nodes @ generic_nodes);
              node \<leftarrow> (case nodes of [] \<Rightarrow> None | _ \<Rightarrow> Some (last nodes));
              if mp_deps node = desired then Some node
              else result_ok (aggregate_mixed B [node] [] [] desired 1) }))"

section \<open>The aggregate prover\<close>

record ('pk, 'sg, 'pf) witnesses =
  ws_all :: "dep list"
  ws_raw :: "('pk, 'sg) raw_input list"
  ws_generic :: "'pf stark_input list"

text \<open>One witnessed dependency of the input.\<close>

definition read_witness ::
  "('pk, 'sg, 'pf, 'vs, 'mc, 's) backend \<Rightarrow> ('pk, 'sg, 'pf) witnesses \<times> byte list
     \<Rightarrow> (('pk, 'sg, 'pf) witnesses \<times> byte list) option" where
  "read_witness B st = (case st of (ws, r) \<Rightarrow> do {
     (d, r) \<leftarrow> rd_dep r;
     (witness, r) \<leftarrow> rd_blob r;
     let data = take 32 (drop 32 d);
     let key = take 32 (drop 64 d);
     ws \<leftarrow>
       (if scheme d = 0x10 then do {
          (pk, sig) \<leftarrow> parse_sphincs B data key witness;
          Some (ws\<lparr>ws_raw := ws_raw ws @ [(d, pk, data, sig)]\<rparr>) }
        else do {
          (p, proof) \<leftarrow> decode_stark B data key witness;
          Some (ws\<lparr>ws_generic := ws_generic ws @ [(d, p, proof)]\<rparr>) });
     Some (ws\<lparr>ws_all := ws_all ws @ [d]\<rparr>, r) })"

text \<open>One child: its declared dependencies, as a set, are those of its verified aggregate.\<close>

type_synonym ('mc, 'pf) child_state = "dep list \<times> ('mc, 'pf) mixed_proof list \<times> byte list"

definition read_child ::
  "('pk, 'sg, 'pf, 'vs, 'mc, 's) backend \<Rightarrow> ('mc, 'pf) child_state \<Rightarrow> ('mc, 'pf) child_state option" where
  "read_child B st = (case st of (all, children, r) \<Rightarrow> do {
     (declared, r) \<leftarrow> rd_deps r;
     (blob, r) \<leftarrow> rd_blob r;
     child \<leftarrow> decode_aggregate B blob;
     guard (\<not> ag_deps child \<noteq> btree_vec declared);
     Some (all @ declared,
       (case ag_proof child of None \<Rightarrow> children | Some proof \<Rightarrow> children @ [proof]), r) })"

definition prove_aggregate ::
  "('pk, 'sg, 'pf, 'vs, 'mc, 's) backend \<Rightarrow> string option \<Rightarrow> hash \<Rightarrow> byte list
     \<Rightarrow> byte list option" where
  "prove_aggregate B leaf_var h input = do {
     guard (\<not> length input > MAX_INPUT_BYTES);
     if input = replicate 12 0 then
       (if h = commitment B [] then Some (MAGIC @ replicate 8 0) else None)
     else do {
       (n, r) \<leftarrow> rd_count input;
       (ws, r) \<leftarrow> pf_repeat (read_witness B) n
         (\<lparr>ws_all = [], ws_raw = [], ws_generic = []\<rparr>, r);
       (child_count, r) \<leftarrow> rd_count r;
       guard (\<not> child_count > max_recursions B);
       (all, children, r) \<leftarrow> pf_repeat (read_child B) child_count (ws_all ws, [], r);
       (discards, r) \<leftarrow> rd_deps r;
       rd_end r;
       let deps = btree_vec (filter (\<lambda>d. d \<notin> set discards) all);
       guard (\<not> (length deps > MAX_DEPS
         \<or> generic_count deps > MAX_GENERIC_STARKS
         \<or> commitment B deps \<noteq> h));
       payload \<leftarrow>
         (if deps = [] then Some []
          else map_option (to_bytes_without_deps B)
            (aggregate_bounded B leaf_var children (ws_raw ws) (ws_generic ws) deps));
       guard (\<not> length payload > MAX_MIXED_GUEST_BYTES);
       let out = put_blob (put_deps MAGIC deps) payload;
       guard (\<not> length out > MAX_BYTES);
       Some out } }"

text \<open>The standalone STARK prover: the witness blob and the program's key.\<close>

definition prove_stark ::
  "('pk, 'sg, 'pf, 'vs, 'mc, 's) backend \<Rightarrow> string \<Rightarrow> hash \<Rightarrow> (byte list \<times> hash) option" where
  "prove_stark B source h = do {
     p \<leftarrow> compile_source B source;
     key \<leftarrow> result_ok (generic_verification_key B p);
     let code = encode_program p;
     proof \<leftarrow> result_ok (cpu_prove B p (public_input h) 1);
     guard (generic_recursion_supported B p proof);
     let out = put_blob [] code @ cpu_serialize B proof;
     guard (\<not> length out > MAX_BYTES);
     Some (out, key) }"

end
