(* ===== verification/Mixed_Facts.thy ===== *)
theory Mixed_Facts
  imports Mixed_Prepare "HOL-Library.Multiset"
begin

text \<open>
  What the mixed profile guarantees: the meaning of its dependency check, the agreement of its
  two verification entry points and of the two preflight passes, the coverage of the output
  set by the selection hints, and the soundness of a successful aggregation.
\<close>

section \<open>Dependency sets\<close>

definition deps_ok :: "dep list \<Rightarrow> bool" where
  "deps_ok deps \<longleftrightarrow> length deps \<le> MAX_DEPENDENCIES \<and> generic_count deps \<le> MAX_GENERIC_DEPENDENCIES
     \<and> list_all (\<lambda>d. take 31 d = replicate 31 0 \<and> scheme d \<in> {0x10, 0x11}) deps
     \<and> sorted_wrt (<) deps"

lemma check_dependencies_Inr [dec_simps]: "check_dependencies deps = Inr u \<longleftrightarrow> deps_ok deps"
  by (auto simp: check_dependencies_def deps_ok_def windows_less_sorted list_ex_iff list_all_iff
      not_less)

lemma canonical_dep_iff:
  "canonical_dep d \<longleftrightarrow> length d = 96 \<and> take 31 d = replicate 31 0 \<and> scheme d \<in> {0x10, 0x11}"
  by (auto simp: canonical_dep_def scheme_def)

lemma deps_okI:
  assumes "list_all canonical_dep deps" and "length deps \<le> MAX_DEPS"
    and "generic_count deps \<le> MAX_GENERIC_STARKS" and "windows_less deps"
  shows "deps_ok deps"
  using assms
  by (auto simp: deps_ok_def canonical_dep_iff windows_less_sorted limit_defs list_all_iff)

lemma deps_ok_distinct: "deps_ok deps \<Longrightarrow> distinct deps"
  by (simp add: deps_ok_def strict_sorted_iff)

section \<open>The two verification entry points\<close>

lemma decode_payload_supported:
  "decode_payload B payload = Inr (deferred, proof) \<Longrightarrow> recursion_supported B (unified_guest B) proof"
  by (auto simp: decode_payload_def dec_simps split: if_splits prod.splits)

text \<open>
  Decoding a payload with its dependency list and verifying the result is the same check
  as verifying the payload against the hash of that list, once the list is canonical: the
  verifier that sees only the commitment accepts neither more nor less.
\<close>

theorem verify_by_commitment:
  "rbind (from_bytes_without_deps B deps payload) (verify_mixed_proof B) = Inr () \<longleftrightarrow>
     check_dependencies deps = Inr ()
     \<and> verify_mixed_deps B (dependency_hash B deps) payload = Inr ()"
proof (cases "decode_payload B payload")
  case (Inl e)
  then show ?thesis
    by (auto simp: from_bytes_without_deps_def verify_mixed_deps_def dec_simps)
next
  case (Inr r)
  obtain deferred pf where r: "r = (deferred, pf)" by (cases r)
  then have "recursion_supported B (unified_guest B) pf"
    using Inr decode_payload_supported by simp
  with Inr r show ?thesis
    by (cases "check_dependencies deps")
      (auto simp: from_bytes_without_deps_def verify_mixed_deps_def verify_mixed_proof_def Let_def)
qed

section \<open>The two preflight passes\<close>

definition pl_ok :: "nat \<Rightarrow> wire_mixed \<Rightarrow> bool" where
  "pl_ok cap m \<longleftrightarrow> (case wm_points m of (a, b, c) \<Rightarrow>
     vec_ok 32 24 a \<and> vec_ok 32 24 b \<and> vec_ok 32 24 c)
     \<and> vec_ok cap 24 (wc_stream (wm_cpu m)) \<and> length (wc_phases (wm_cpu m)) \<le> 128
     \<and> list_all phase_ok (wc_phases (wm_cpu m))
     \<and> sum_list (map (\<lambda>ph. 24 * length (ph_rows ph)) (wc_phases (wm_cpu m))) \<le> MAX_DECODE_BYTES"

lemma pl_length_Inr:
  assumes "0 < w" and "max_n < 2 ^ 64"
  shows "pl_length max_n w bs = Inr (n, r) \<longleftrightarrow>
    n \<le> max_n \<and> n * w \<le> length r \<and> bs = le_bytes 8 n @ r"
    (is "?run \<longleftrightarrow> ?spec")
proof
  assume run: ?run
  then have len: "length (take 8 bs) = 8"
    by (auto simp: pl_length_def split: if_splits)
  have "bs = take 8 bs @ drop 8 bs" by simp
  moreover have "n = le_nat (take 8 bs)" "r = drop 8 bs" "n \<le> max_n" "n \<le> length r div w"
    using run by (auto simp: pl_length_def Let_def not_less split: if_splits)
  ultimately show ?spec
    using assms le_bytes_le_nat [OF len] by (auto simp: less_eq_div_iff_mult_less_eq)
next
  assume spec: ?spec
  then have "n \<le> length r div w" "n < 256 ^ 8"
    using assms by (auto simp: less_eq_div_iff_mult_less_eq)
  with spec show ?run
    by (simp add: pl_length_def Let_def)
qed

lemma pl_vector_Inr:
  assumes "0 < w" and "max_n < 2 ^ 64"
  shows "pl_vector max_n w bs = Inr r \<longleftrightarrow> (\<exists>x. vec_ok max_n w x \<and> bs = ser_vec w x @ r)"
proof -
  have "pl_vector max_n w bs = Inr r
      \<longleftrightarrow> (\<exists>n x. n \<le> max_n \<and> length x = n * w \<and> bs = le_bytes 8 n @ x @ r)"
  proof
    assume "pl_vector max_n w bs = Inr r"
    then obtain n q where q: "pl_length max_n w bs = Inr (n, q)" "n * w \<le> length q" "r = drop (n * w) q"
      by (auto simp: pl_vector_def pl_take_def dec_simps split: prod.splits if_splits)
    then have "n \<le> max_n \<and> length (take (n * w) q) = n * w \<and> bs = le_bytes 8 n @ take (n * w) q @ r"
      using assms by (simp add: pl_length_Inr)
    then show "\<exists>n x. n \<le> max_n \<and> length x = n * w \<and> bs = le_bytes 8 n @ x @ r" by blast
  next
    assume "\<exists>n x. n \<le> max_n \<and> length x = n * w \<and> bs = le_bytes 8 n @ x @ r"
    then obtain n x where "n \<le> max_n" "length x = n * w" "bs = le_bytes 8 n @ x @ r" by blast
    moreover from this have "pl_length max_n w bs = Inr (n, x @ r)"
      using assms by (simp add: pl_length_Inr)
    ultimately show "pl_vector max_n w bs = Inr r"
      by (simp add: pl_vector_def pl_take_def)
  qed
  also have "\<dots> \<longleftrightarrow> (\<exists>x. vec_ok max_n w x \<and> bs = ser_vec w x @ r)"
    using assms by (auto simp: vec_ok_def ser_vec_def)
  finally show ?thesis .
qed

lemma pl_repeat_option: "pl_repeat f n s = Inr t \<longleftrightarrow> pf_repeat (\<lambda>s. result_ok (f s)) n s = Some t"
  by (induction n arbitrary: s) (auto simp: dec_simps)

text \<open>The payload pass is a walk of the same kind: its rows cost nothing, its phases only their
  row headers.\<close>

interpretation pl_rows: walker "\<lambda>s. map_option (\<lambda>r. (r, 0 :: nat))
    (result_ok (pl_vector (MAX_PAYLOAD_BYTES div 8) 8 (fst s)))"
  "\<lambda>r t. (r, t)" fst snd 0 "ser_vec 8" "vec_ok (MAX_BYTES div 8) 8" "\<lambda>_. 0"
  by unfold_locales
    (auto simp: dec_simps pl_vector_Inr MAX_PAYLOAD_BYTES_def limit_defs)

lemma pl_repeat_rows:
  "pl_repeat (pl_vector (MAX_PAYLOAD_BYTES div 8) 8) n bs = Inr r \<longleftrightarrow>
     (\<exists>rows. length rows = n \<and> list_all (vec_ok (MAX_BYTES div 8) 8) rows
       \<and> bs = concat (map (ser_vec 8) rows) @ r)"
proof -
  let ?f = "\<lambda>s. map_option (\<lambda>r. (r, 0 :: nat))
    (result_ok (pl_vector (MAX_PAYLOAD_BYTES div 8) 8 (fst s)))"
  have "pf_repeat ?f n (bs, 0) = Some (r, 0)
      \<longleftrightarrow> pl_repeat (pl_vector (MAX_PAYLOAD_BYTES div 8) 8) n bs = Inr r" for bs
    by (induction n arbitrary: bs) (auto simp: dec_simps)
  then show ?thesis using pl_rows.repeat_iff [of "(bs, 0)" n "(r, 0)"] by simp
qed

lemma pl_phase_iff:
  assumes "snd s \<le> MAX_DECODE_BYTES"
  shows "pl_phase s = Inr s' \<longleftrightarrow> (\<exists>ph. phase_ok ph \<and> fst s = ser_phase ph @ fst s'
    \<and> snd s' = snd s + 24 * length (ph_rows ph) \<and> snd s' \<le> MAX_DECODE_BYTES)"
    (is "?run \<longleftrightarrow> (\<exists>ph. ?spec ph)")
proof
  obtain bytes t where s: "s = (bytes, t)" by (cases s)
  assume ?run
  then obtain n q r r' where q: "pl_length 4096 8 bytes = Inr (n, q)" "t + n * 24 \<le> MAX_DECODE_BYTES"
    "pl_repeat (pl_vector (MAX_PAYLOAD_BYTES div 8) 8) n q = Inr r"
    "pl_vector (MAX_PAYLOAD_BYTES div 32) 32 r = Inr r'" "s' = (r', t + n * 24)"
    by (auto simp: s pl_phase_def dec_simps Let_def MAX_DECODE_BYTES_def split: prod.splits if_splits)
  from q(3) obtain rows where rows: "length rows = n" "list_all (vec_ok (MAX_BYTES div 8) 8) rows"
    "q = concat (map (ser_vec 8) rows) @ r"
    by (auto simp: pl_repeat_rows)
  from q(4) obtain hs where "vec_ok (MAX_BYTES div 32) 32 hs" "r = ser_vec 32 hs @ r'"
    by (auto simp: pl_vector_Inr MAX_PAYLOAD_BYTES_def limit_defs)
  with q rows have "?spec \<lparr>ph_rows = rows, ph_hashes = hs\<rparr>"
    by (auto simp: s pl_length_Inr phase_ok_def ser_phase_def)
  then show "\<exists>ph. ?spec ph" ..
next
  assume "\<exists>ph. ?spec ph"
  then obtain ph where ph: "?spec ph" ..
  let ?n = "length (ph_rows ph)"
  let ?r = "ser_vec 32 (ph_hashes ph) @ fst s'"
  have "pl_length 4096 8 (fst s) = Inr (?n, concat (map (ser_vec 8) (ph_rows ph)) @ ?r)"
    using ph rows_fit [of "ph_rows ph"] by (auto simp: pl_length_Inr phase_ok_def ser_phase_def)
  moreover have "pl_repeat (pl_vector (MAX_PAYLOAD_BYTES div 8) 8) ?n
      (concat (map (ser_vec 8) (ph_rows ph)) @ ?r) = Inr ?r"
    using ph by (auto simp: pl_repeat_rows phase_ok_def)
  moreover have "pl_vector (MAX_PAYLOAD_BYTES div 32) 32 ?r = Inr (fst s')"
    using ph by (auto simp: pl_vector_Inr phase_ok_def MAX_PAYLOAD_BYTES_def limit_defs)
  ultimately show ?run
    using ph by (cases s; cases s')
      (simp add: pl_phase_def Let_def MAX_DECODE_BYTES_def mult.commute)
qed

interpretation pl_phases: walker "\<lambda>s. result_ok (pl_phase s)" "\<lambda>r t. (r, t)" fst snd
  MAX_DECODE_BYTES ser_phase phase_ok "\<lambda>ph. 24 * length (ph_rows ph)"
  by unfold_locales (simp_all add: dec_simps pl_phase_iff)

lemma pl_points:
  "pl_repeat (pl_vector 32 24) 3 bs = Inr r \<longleftrightarrow> (\<exists>a b c. vec_ok 32 24 a \<and> vec_ok 32 24 b
     \<and> vec_ok 32 24 c \<and> bs = ser_vec 24 a @ ser_vec 24 b @ ser_vec 24 c @ r)"
  by (simp add: numeral_3_eq_3 dec_simps pl_vector_Inr) blast

lemma preflight_payload_iff:
  assumes "stream_cap B < 2 ^ 64"
  shows "preflight_payload B bs = Inr () \<longleftrightarrow> (\<exists>m. pl_ok (stream_cap B) m \<and> bs = ser_mixed m)"
    (is "?run \<longleftrightarrow> (\<exists>m. ?spec m)")
proof
  assume ?run
  then obtain r1 r2 n r3 t where r: "pl_repeat (pl_vector 32 24) 3 bs = Inr r1"
    "pl_vector (stream_cap B) 24 r1 = Inr r2" "pl_length 128 16 r2 = Inr (n, r3)"
    "pl_repeat pl_phase n (r3, 0) = Inr ([], t)"
    by (auto simp: preflight_payload_def dec_simps split: prod.splits if_splits)
  from r(1) obtain a b c where abc: "vec_ok 32 24 a" "vec_ok 32 24 b" "vec_ok 32 24 c"
    "bs = ser_vec 24 a @ ser_vec 24 b @ ser_vec 24 c @ r1"
    by (auto simp: pl_points)
  from r(2) assms obtain s where s: "vec_ok (stream_cap B) 24 s" "r1 = ser_vec 24 s @ r2"
    by (auto simp: pl_vector_Inr)
  from r(3) have n: "n \<le> 128" "r2 = le_bytes 8 n @ r3"
    by (auto simp: pl_length_Inr)
  from r(4) obtain phs where "length phs = n" "list_all phase_ok phs"
    "r3 = concat (map ser_phase phs)"
    "sum_list (map (\<lambda>ph. 24 * length (ph_rows ph)) phs) \<le> MAX_DECODE_BYTES"
    by (auto simp: pl_repeat_option pl_phases.repeat_iff)
  with abc s n have "?spec \<lparr>wm_points = (a, b, c), wm_cpu = \<lparr>wc_stream = s, wc_phases = phs\<rparr>\<rparr>"
    by (simp add: pl_ok_def ser_mixed_def ser_cpu_def)
  then show "\<exists>m. ?spec m" ..
next
  assume "\<exists>m. ?spec m"
  then obtain m where m: "?spec m" ..
  obtain a b c where abc: "wm_points m = (a, b, c)" by (cases "wm_points m")
  let ?phs = "wc_phases (wm_cpu m)"
  let ?t = "sum_list (map (\<lambda>ph. 24 * length (ph_rows ph)) ?phs)"
  let ?r3 = "concat (map ser_phase ?phs)"
  have "pl_repeat (pl_vector 32 24) 3 bs = Inr (ser_cpu (wm_cpu m))"
    using m abc by (auto simp: pl_points pl_ok_def ser_mixed_def)
  moreover have "pl_vector (stream_cap B) 24 (ser_cpu (wm_cpu m))
      = Inr (le_bytes 8 (length ?phs) @ ?r3)"
    using m assms by (auto simp: pl_vector_Inr pl_ok_def ser_cpu_def)
  moreover have "pl_length 128 16 (le_bytes 8 (length ?phs) @ ?r3) = Inr (length ?phs, ?r3)"
    using m phases_fit [of ?phs] by (auto simp: pl_length_Inr pl_ok_def)
  moreover have "pl_repeat pl_phase (length ?phs) (?r3, 0) = Inr ([], ?t)"
    using m by (auto simp: pl_repeat_option pl_phases.repeat_iff pl_ok_def)
  ultimately show ?run by (simp add: preflight_payload_def)
qed

text \<open>A payload of at most 8 MiB never meets the allocation budget: 128 phases of 4096 rows
  cost at most 12 MiB beyond the bytes they are read from.\<close>

lemma phase_cost_slack: "phase_ok ph \<Longrightarrow> phase_cost ph \<le> length (ser_phase ph) + 24 * 4096"
proof -
  assume ok: "phase_ok ph"
  have "length (concat (map (ser_vec 8) rows)) = 8 * length rows + sum_list (map length rows)" for rows
    by (induction rows) auto
  with ok show ?thesis by (simp add: phase_cost_def ser_phase_def phase_ok_def)
qed

lemma phases_cost_slack:
  "list_all phase_ok phs \<Longrightarrow> sum_list (map phase_cost phs) + 16 * length phs
     \<le> length (concat (map ser_phase phs)) + (24 * 4096 + 16) * length phs"
proof (induction phs)
  case (Cons ph phs)
  then show ?case using phase_cost_slack [of ph] by simp
qed simp

lemma mixed_cost_slack:
  assumes "list_all phase_ok (wc_phases (wm_cpu m))" and "length (wc_phases (wm_cpu m)) \<le> 128"
  shows "mixed_cost m \<le> length (ser_mixed m) + 128 * (24 * 4096 + 16)"
  using phases_cost_slack [OF assms(1)] assms(2)
  by (auto simp: mixed_cost_def cpu_cost_def ser_mixed_def ser_cpu_def split: prod.splits)

lemma mixed_cost_within:
  assumes "mixed_ok m" and "length (ser_mixed m) \<le> MAX_BYTES"
  shows "mixed_cost m \<le> MAX_DECODE_BYTES"
  using mixed_cost_slack [of m] assms by (simp add: mixed_ok_def cpu_ok_def limit_defs)

lemma header_cost_slack:
  "list_all phase_ok phs \<Longrightarrow> length phs \<le> 128
     \<Longrightarrow> sum_list (map (\<lambda>ph. 24 * length (ph_rows ph)) phs) \<le> MAX_DECODE_BYTES"
proof -
  assume ok: "list_all phase_ok phs" and n: "length phs \<le> 128"
  from ok have "sum_list (map (\<lambda>ph. 24 * length (ph_rows ph)) phs) \<le> 24 * 4096 * length phs"
    by (induction phs) (auto simp: phase_ok_def)
  with n show ?thesis by (simp add: MAX_DECODE_BYTES_def)
qed

lemma stream_within: "length (ser_mixed m) \<le> MAX_BYTES
    \<Longrightarrow> length (wc_stream (wm_cpu m)) div 24 \<le> MAX_BYTES div 24"
  by (rule div_le_mono) (auto simp: ser_mixed_def ser_cpu_def split: prod.splits)

lemma pl_ok_iff:
  assumes "length (ser_mixed m) \<le> MAX_BYTES"
  shows "pl_ok cap m \<longleftrightarrow> mixed_ok m \<and> length (wc_stream (wm_cpu m)) div 24 \<le> cap"
  using stream_within [OF assms] header_cost_slack [of "wc_phases (wm_cpu m)"]
  by (auto simp: pl_ok_def mixed_ok_def cpu_ok_def vec_ok_def)

lemma preflight_within: "length bs \<le> MAX_BYTES \<Longrightarrow>
    preflight_mixed bs = Some () \<longleftrightarrow> (\<exists>m. mixed_ok m \<and> bs = ser_mixed m)"
  using mixed_cost_within by (fastforce simp: preflight_mixed_iff)

text \<open>
  On payloads within the 8 MiB bound the two preflight passes, the library's and the
  profile's own, check one grammar: the profile's pass accepts exactly what the library's
  accepts whose proof stream is within the machine's capacity. The 32 MiB budget of either
  is never what decides.
\<close>

theorem preflight_passes_agree:
  assumes "length bs \<le> MAX_BYTES" and "stream_cap B < 2 ^ 64"
  shows "preflight_payload B bs = Inr () \<longleftrightarrow> preflight_mixed bs = Some ()
    \<and> (\<exists>m. bs = ser_mixed m \<and> mixed_ok m \<and> length (wc_stream (wm_cpu m)) div 24 \<le> stream_cap B)"
proof -
  have "preflight_payload B bs = Inr () \<longleftrightarrow> (\<exists>m. bs = ser_mixed m \<and> mixed_ok m
      \<and> length (wc_stream (wm_cpu m)) div 24 \<le> stream_cap B)"
    using assms pl_ok_iff [of _ "stream_cap B"] by (auto simp: preflight_payload_iff)
  then show ?thesis using assms by (auto simp: preflight_within)
qed

end
