(* ===== verification/Mixed_Sound.thy ===== *)
theory Mixed_Sound
  imports Mixed_Facts
begin

text \<open>
  The guarantees of the mixed profile's prover: the selection hints cover the output set
  exactly once, a successful aggregation rests on checked inputs, and an honest machine's
  aggregate verifies.
\<close>

section \<open>Selection\<close>

lemma binary_search_None: "binary_search xs x = None \<longleftrightarrow> x \<notin> set xs"
  by (induction xs) (auto simp: binary_search_def Let_def split: if_splits)

lemma binary_search_nth: "binary_search xs x = Some i \<Longrightarrow> i < length xs \<and> xs ! i = x"
  using nth_length_takeWhile [of "\<lambda>y. y \<noteq> x" xs]
  by (auto simp: binary_search_def Let_def split: if_splits)

lemma binary_search_distinct:
  "distinct xs \<Longrightarrow> binary_search xs x = Some i \<longleftrightarrow> i < length xs \<and> xs ! i = x"
  using binary_search_nth [of xs x] binary_search_None [of xs x]
  by (cases "binary_search xs x") (auto simp: nth_eq_iff_index_eq)

text \<open>The answers given to a sequence of claims.\<close>

fun selection_indices :: "dep list \<Rightarrow> dep list \<Rightarrow> dep list \<Rightarrow> nat option list" where
  "selection_indices selected seen [] = []"
| "selection_indices selected seen (d # ds) =
     selection_index selected seen d
       # selection_indices selected
           (if binary_search selected d \<noteq> None then List.insert d seen else seen) ds"

definition selection_entry ::
  "('pk, 'sg, 'pf, 'vs, 'mc, 's) backend \<Rightarrow> nat option \<Rightarrow> string \<times> F192 list" where
  "selection_entry B index = (''selection'',
     [integer (of_bool (index \<noteq> None)), gcount B (case index of None \<Rightarrow> 0 | Some i \<Rightarrow> i)])"

lemma fold_push_selection:
  "fst (fold (push_selection B selected) ds (hints, seen))
     = hints @ map (selection_entry B) (selection_indices selected seen ds)"
  by (induction ds arbitrary: hints seen) (simp_all add: push_selection_def selection_entry_def Let_def)

lemma length_selection_indices [simp]: "length (selection_indices selected seen ds) = length ds"
  by (induction ds arbitrary: seen) simp_all

lemma selection_indices_nth:
  "k < length ds \<Longrightarrow> selection_indices selected seen ds ! k = Some i
     \<Longrightarrow> i < length selected \<and> selected ! i = ds ! k"
proof (induction ds arbitrary: seen k)
  case (Cons d ds)
  then show ?case
    by (cases k) (auto simp: selection_index_def split: option.splits if_splits dest: binary_search_nth)
qed simp

lemma selected_iff:
  "distinct selected \<Longrightarrow> Some i \<in> set (selection_indices selected seen ds)
     \<longleftrightarrow> i < length selected \<and> selected ! i \<in> set ds \<and> selected ! i \<notin> set seen"
proof (induction ds arbitrary: seen)
  case (Cons d ds)
  show ?case
  proof (cases "binary_search selected d")
    case None
    then have "d \<notin> set selected" by (simp add: binary_search_None)
    with None Cons show ?thesis
      by (auto simp: selection_index_def in_set_conv_nth)
  next
    case (Some j)
    then have j: "j < length selected" "selected ! j = d"
      using binary_search_nth by metis+
    with Cons.prems have "i < length selected \<Longrightarrow> selected ! i = d \<longleftrightarrow> i = j"
      by (auto simp: nth_eq_iff_index_eq)
    with Some j Cons.IH [OF Cons.prems] show ?thesis
      by (auto simp: selection_index_def)
  qed
qed simp

lemma selected_once:
  "distinct selected \<Longrightarrow> distinct (List.map_filter id (selection_indices selected seen ds))"
proof (induction ds arbitrary: seen)
  case (Cons d ds)
  have "Some i \<notin> set (selection_indices selected (List.insert d seen) ds)"
    if "binary_search selected d = Some i" for i
    using selected_iff [OF Cons.prems] binary_search_nth [OF that] by auto
  with Cons show ?case
    by (auto simp: selection_index_def map_filter_def split: option.splits)
qed (simp add: map_filter_def)

lemma map_filter_id_set: "set (List.map_filter id xs) = {i. Some i \<in> set xs}"
  by (auto simp: map_filter_def image_iff) (metis (mono_tags, lifting) mem_Collect_eq option.sel option.simps(3))

text \<open>
  C9. The selection hints of an aggregation whose inputs claim every output dependency mark
  each dependency of the output set exactly once: the indices of the marked claims are a
  permutation of \<open>0, ..., n - 1\<close>, each the index of the claim it stands at, and a claim seen
  before or outside the set is marked by a zero flag.
\<close>

theorem selection_covers_once:
  assumes "deps_ok selected" and "set selected \<subseteq> set claims"
  shows "\<exists>indices. fst (fold (push_selection B selected) claims (hints, []))
      = hints @ map (selection_entry B) indices
    \<and> length indices = length claims
    \<and> mset (List.map_filter id indices) = mset [0..<length selected]
    \<and> (\<forall>k < length claims. \<forall>i. indices ! k = Some i \<longrightarrow> selected ! i = claims ! k)"
proof -
  let ?indices = "selection_indices selected [] claims"
  have dist: "distinct selected" using assms(1) by (rule deps_ok_distinct)
  have "set (List.map_filter id ?indices) = {0..<length selected}"
    using selected_iff [OF dist] assms(2) by (auto simp: map_filter_id_set)
  then have "mset (List.map_filter id ?indices) = mset [0..<length selected]"
    using mset_set_set [OF selected_once [OF dist, of "[]" claims]] by simp
  moreover have "\<forall>k < length claims. \<forall>i. ?indices ! k = Some i \<longrightarrow> selected ! i = claims ! k"
    using selection_indices_nth by blast
  moreover have "fst (fold (push_selection B selected) claims (hints, []))
      = hints @ map (selection_entry B) ?indices"
    by (rule fold_push_selection)
  ultimately show ?thesis by (intro exI [of _ ?indices]) (simp only: length_selection_indices simp_thms)
qed

section \<open>Checked inputs\<close>

text \<open>What the prover has checked of an input when it returns: a child is a verified aggregate,
  a generic proof a verified proof of a program within the generic profile, a raw signature
  one that the witness generator accepted.\<close>

definition child_valid ::
  "('pk, 'sg, 'pf, 'vs, 'mc, 's) backend \<Rightarrow> ('mc, 'pf) mixed_proof \<Rightarrow> bool" where
  "child_valid B child \<longleftrightarrow> verify_mixed_proof B child = Inr ()"

definition generic_valid ::
  "('pk, 'sg, 'pf, 'vs, 'mc, 's) backend \<Rightarrow> 'pf generic_input \<Rightarrow> bool" where
  "generic_valid B input \<longleftrightarrow> generic_recursion_supported B (gi_program input) (gi_proof input)
     \<and> (\<exists>vs. cpu_verify B (gi_program input) (pack_hash_state B (gi_data input)) (gi_proof input)
          = Inr vs)"

definition raw_valid ::
  "('pk, 'sg, 'pf, 'vs, 'mc, 's) backend \<Rightarrow> ('pk, 'sg) raw_claim \<Rightarrow> bool" where
  "raw_valid B claim \<longleftrightarrow> (case claim of (pk, data, sig) \<Rightarrow> \<exists>hs. sphincs_hints B data pk sig = Inr hs)"

lemma rfold_Inr_all:
  "rfold f xs s = Inr s' \<Longrightarrow> (\<And>x s s'. f x s = Inr s' \<Longrightarrow> P x) \<Longrightarrow> list_all P xs"
  by (induction xs arbitrary: s) (auto simp: dec_simps)

lemma prep_raw_valid: "prep_raw B selected claim st = Inr st' \<Longrightarrow> raw_valid B claim"
  by (auto simp: prep_raw_def raw_valid_def Let_def dec_simps split: prod.splits)

lemma prep_generic_valid: "prep_generic B selected leaf input st = Inr st' \<Longrightarrow> generic_valid B input"
  by (auto simp: prep_generic_def generic_valid_def Let_def dec_simps)

lemma prep_child_valid:
  "prep_child B selected child st = Inr st' \<Longrightarrow> check_dependencies (mp_deps child) = Inr ()
     \<Longrightarrow> child_valid B child"
  by (auto simp: prep_child_def child_valid_def verify_mixed_proof_def Let_def dec_simps)

lemma child_claims_rmap:
  "rmap (\<lambda>child. rbind (check_dependencies (mp_deps child)) (\<lambda>_. Inr (mp_deps child))) children
     = Inr dss \<Longrightarrow> list_all (\<lambda>c. check_dependencies (mp_deps c) = Inr ()) children
       \<and> dss = map mp_deps children"
  by (induction children arbitrary: dss) (auto simp: rbind_Inr)

lemma child_claims_Inr:
  "child_claims children = Inr ds \<Longrightarrow> list_all (\<lambda>c. check_dependencies (mp_deps c) = Inr ()) children
     \<and> ds = concat (map mp_deps children)"
  unfolding child_claims_def rbind_Inr by (blast dest: child_claims_rmap)

text \<open>The dependency a generic input stands for.\<close>

definition generic_dep ::
  "('pk, 'sg, 'pf, 'vs, 'mc, 's) backend \<Rightarrow> 'pf generic_input \<Rightarrow> dep \<Rightarrow> bool" where
  "generic_dep B input d \<longleftrightarrow> (\<exists>key. generic_verification_key B (gi_program input) = Inr key
     \<and> d = dep_of 0x11 (gi_data input) key)"

lemma generic_claims_Inr:
  "generic_claims B inputs = Inr ds \<Longrightarrow> d \<in> set ds \<Longrightarrow> \<exists>input \<in> set inputs. generic_dep B input d"
  by (induction inputs arbitrary: ds)
    (auto simp: generic_claims_def generic_dep_def rbind_Inr)

definition supports ::
  "('pk, 'sg, 'pf, 'vs, 'mc, 's) backend \<Rightarrow> ('mc, 'pf) mixed_proof list
     \<Rightarrow> ('pk, 'sg) raw_claim list \<Rightarrow> 'pf generic_input list \<Rightarrow> dep \<Rightarrow> bool" where
  "supports B children raw generic d \<longleftrightarrow>
     (\<exists>child \<in> set children. child_valid B child \<and> d \<in> set (mp_deps child))
     \<or> (\<exists>claim \<in> set raw. raw_valid B claim \<and> d = sph_dep B (fst claim) (fst (snd claim)))
     \<or> (\<exists>input \<in> set generic. generic_valid B input \<and> generic_dep B input d)"

lemma available_claims_supports:
  assumes "available_claims B children raw generic = Inr ds" and "d \<in> set ds"
    and "list_all (child_valid B) children" and "list_all (raw_valid B) raw"
    and "list_all (generic_valid B) generic"
  shows "supports B children raw generic d"
  using assms child_claims_Inr [of children] generic_claims_Inr [of B generic]
  by (auto simp: available_claims_def supports_def dec_simps list_all_iff split: prod.splits)
    (metis fst_conv snd_conv)+

text \<open>The deferred claim of a prepared run is well formed when the combination of claims is.\<close>

lemma prepare_mixed_sound:
  assumes "prepare_mixed_with_hints B children raw generic selected rate mutate
    = Inr (guest, deferred, pi)"
  shows "deps_ok selected \<and> input_capacity_ok children raw generic rate
    \<and> list_all (child_valid B) children \<and> list_all (raw_valid B) raw
    \<and> list_all (generic_valid B) generic
    \<and> (\<forall>d \<in> set selected. supports B children raw generic d)
    \<and> pi = mixed_statement B (dependency_hash B selected) deferred
    \<and> (\<exists>hints. guest = install_hints B (mutate hints) (unified_guest B))
    \<and> ((\<exists>points mats. mixed_deferred B points mats = Inr deferred)
       \<or> (\<exists>fresh carried hs. fresh \<noteq> [] \<and>
            aggregate_claims B fresh carried (mixed_table B) (mixed_vars B) = (hs, deferred)))"
proof -
  from assms obtain available leaf st0 st1 st2 st3 where s:
    "deps_ok selected" "input_capacity_ok children raw generic rate"
    "available_claims B children raw generic = Inr available"
    "\<not> list_ex (\<lambda>d. d \<notin> set available) selected"
    "mixed_deferred B (replicate (mixed_vars B) ZERO)
        (replicate (2 * k_log B Circuit_Blake2s) ZERO, replicate (2 * k_log B Circuit_Keccak) ZERO)
      = Inr leaf"
    "rfold (prep_raw B selected) raw st0 = Inr st1"
    "rfold (prep_generic B selected leaf) generic st1 = Inr st2"
    "rfold (prep_child B selected) children st2 = Inr st3"
    and out: "(let (st, deferred) = (if pr_fresh st3 = [] then (st3, leaf)
             else (case aggregate_claims B (pr_fresh st3) (pr_carried st3) (mixed_table B) (mixed_vars B)
               of (sub_hints, claim) \<Rightarrow> (prep_push sub_hints st3, claim)));
           pi = mixed_statement B (dependency_hash B selected) deferred;
           guest = install_hints B (mutate (pr_hints st)) (unified_guest B)
       in Inr (guest, deferred, pi)) = (Inr (guest, deferred, pi) :: mixed_error + _)"
    unfolding prepare_mixed_with_hints_def
    by (auto simp: dec_simps Let_def split del: if_split prod.split)
  have children: "list_all (child_valid B) children"
  proof -
    from s(3) have "list_all (\<lambda>c. check_dependencies (mp_deps c) = Inr ()) children"
      by (auto simp: available_claims_def dec_simps dest: child_claims_Inr)
    moreover have "list_all (\<lambda>c. check_dependencies (mp_deps c) = Inr () \<longrightarrow> child_valid B c) children"
      using s(8) by (rule rfold_Inr_all) (blast dest: prep_child_valid)
    ultimately show ?thesis by (auto simp: list_all_iff)
  qed
  have raw: "list_all (raw_valid B) raw"
    using s(6) by (rule rfold_Inr_all) (rule prep_raw_valid)
  have generic: "list_all (generic_valid B) generic"
    using s(7) by (rule rfold_Inr_all) (rule prep_generic_valid)
  have "\<forall>d \<in> set selected. supports B children raw generic d"
    using s(3,4) children raw generic available_claims_supports by (fastforce simp: list_ex_iff)
  moreover have "(\<exists>points mats. mixed_deferred B points mats = Inr deferred)
       \<or> (\<exists>fresh carried hs. fresh \<noteq> [] \<and>
            aggregate_claims B fresh carried (mixed_table B) (mixed_vars B) = (hs, deferred))"
  proof (cases "pr_fresh st3 = []")
    case True
    with out s(5) show ?thesis by (auto simp: Let_def)
  next
    case False
    with out show ?thesis
      by (auto simp: Let_def split: prod.splits intro!: disjI2 exI [of _ "pr_fresh st3"]
          exI [of _ "pr_carried st3"])
  qed
  moreover have "pi = mixed_statement B (dependency_hash B selected) deferred
    \<and> (\<exists>hints. guest = install_hints B (mutate hints) (unified_guest B))"
    using out by (auto simp: Let_def split: if_splits prod.splits)
  ultimately show ?thesis using s(1,2) children raw generic by blast
qed

lemma aggregate_mixed_Inr:
  "aggregate_mixed B children raw generic selected rate = Inr p \<longleftrightarrow>
    (\<exists>guest deferred pi proof.
       prepare_mixed B children raw generic selected rate = Inr (guest, deferred, pi)
       \<and> cpu_prove B guest pi rate = Inr proof
       \<and> recursion_supported B (unified_guest B) proof
       \<and> p = \<lparr>mp_deps = selected, mp_deferred = deferred, mp_proof = proof\<rparr>
       \<and> length (to_bytes_without_deps B p) \<le> MAX_PAYLOAD_BYTES)"
  by (auto simp: aggregate_mixed_def dec_simps Let_def not_less split: prod.splits if_splits)

lemma aggregate_mixed_deps: "aggregate_mixed B children raw generic selected rate = Inr p
    \<Longrightarrow> mp_deps p = selected"
  by (auto simp: aggregate_mixed_Inr)

lemma aggregate_mixed_supports:
  assumes "aggregate_mixed B children raw generic selected rate = Inr p" and "d \<in> set selected"
  shows "supports B children raw generic d"
proof -
  obtain guest deferred pi where
    "prepare_mixed B children raw generic selected rate = Inr (guest, deferred, pi)"
    using assms(1) unfolding aggregate_mixed_Inr by blast
  then show ?thesis
    using prepare_mixed_sound assms(2) unfolding prepare_mixed_def by blast
qed

text \<open>
  C6. When aggregation succeeds, the output carries exactly the requested dependencies, which
  form a canonical set; every one of them is backed by a verified child, an accepted raw
  signature or a verified generic proof among the inputs; the inputs are of one kind and
  within the profile's capacity; and the payload fits its bound.
\<close>

theorem aggregate_mixed_sound:
  assumes "aggregate_mixed B children raw generic selected rate = Inr p"
  shows "mp_deps p = selected \<and> deps_ok selected
    \<and> (\<forall>d \<in> set selected. supports B children raw generic d)
    \<and> list_all (child_valid B) children \<and> list_all (generic_valid B) generic
    \<and> input_capacity_ok children raw generic rate
    \<and> recursion_supported B (unified_guest B) (mp_proof p)
    \<and> length (to_bytes_without_deps B p) \<le> MAX_PAYLOAD_BYTES"
proof -
  obtain guest deferred pi pf where p:
    "prepare_mixed B children raw generic selected rate = Inr (guest, deferred, pi)"
    "recursion_supported B (unified_guest B) pf"
    "p = \<lparr>mp_deps = selected, mp_deferred = deferred, mp_proof = pf\<rparr>"
    "length (to_bytes_without_deps B p) \<le> MAX_PAYLOAD_BYTES"
    using assms unfolding aggregate_mixed_Inr by blast
  from p(1) [unfolded prepare_mixed_def] show ?thesis
    using prepare_mixed_sound p(2-4) by fastforce
qed

section \<open>Honest machines\<close>

text \<open>The documented behaviour of the code outside the repository, as named hypotheses: the
  verifier accepts what the prover proves of the program without its hints; claims that come
  out of the recursion harness are evaluated at their own points; the serialiser is inverted
  by the deserialiser and writes verified proofs in the wire grammar.\<close>

definition machine_complete :: "('pk, 'sg, 'pf, 'vs, 'mc, 's) backend \<Rightarrow> bool" where
  "machine_complete B \<longleftrightarrow> (\<forall>p hints pi rate proof.
     cpu_prove B (install_hints B hints p) pi rate = Inr proof
       \<longrightarrow> (\<exists>vs. cpu_verify B p pi proof = Inr vs))"

definition claim_wf ::
  "('pk, 'sg, 'pf, 'vs, 'mc, 's) backend \<Rightarrow> 'mc deferred_claim \<Rightarrow> bool" where
  "claim_wf B d \<longleftrightarrow> mixed_deferred B (bytecode_point d) (matrix_points B d) = Inr d"

definition claims_lawful :: "('pk, 'sg, 'pf, 'vs, 'mc, 's) backend \<Rightarrow> bool" where
  "claims_lawful B \<longleftrightarrow>
     (\<forall>points mats d. mixed_deferred B points mats = Inr d \<longrightarrow> matrix_points B d = mats)
     \<and> (\<forall>fresh carried hints d. fresh \<noteq> []
          \<longrightarrow> aggregate_claims B fresh carried (mixed_table B) (mixed_vars B) = (hints, d)
          \<longrightarrow> claim_wf B d)"

definition serializer_lawful :: "('pk, 'sg, 'pf, 'vs, 'mc, 's) backend \<Rightarrow> bool" where
  "serializer_lawful B \<longleftrightarrow> stream_cap B < 2 ^ 64
     \<and> (\<forall>d pi proof vs. claim_wf B d \<longrightarrow> cpu_verify B (unified_guest B) pi proof = Inr vs
          \<longrightarrow> recursion_supported B (unified_guest B) proof
          \<longrightarrow> (let x = (bytecode_point d, matrix_points B d, proof) in
                mixed_deserialize B (mixed_serialize B x) = Some x
                \<and> (\<exists>m. pl_ok (stream_cap B) m \<and> mixed_serialize B x = ser_mixed m)))"

definition node_ok ::
  "('pk, 'sg, 'pf, 'vs, 'mc, 's) backend \<Rightarrow> ('mc, 'pf) mixed_proof \<Rightarrow> bool" where
  "node_ok B p \<longleftrightarrow> verify_mixed_proof B p = Inr () \<and> claim_wf B (mp_deferred p)"

lemma mixed_deferred_wf:
  assumes "claims_lawful B" and "mixed_deferred B points mats = Inr d"
  shows "claim_wf B d"
proof -
  have "bytecode_point d = points"
    using assms(2) by (auto simp: mixed_deferred_def Let_def dec_simps split: if_splits)
  moreover have "matrix_points B d = mats"
    using assms unfolding claims_lawful_def by blast
  ultimately show ?thesis using assms(2) by (simp add: claim_wf_def)
qed

lemma verify_mixed_proof_iff: "verify_mixed_proof B p = Inr () \<longleftrightarrow> deps_ok (mp_deps p)
    \<and> recursion_supported B (unified_guest B) (mp_proof p)
    \<and> (\<exists>vs. cpu_verify B (unified_guest B)
         (mixed_statement B (dependency_hash B (mp_deps p)) (mp_deferred p)) (mp_proof p) = Inr vs)"
  by (auto simp: verify_mixed_proof_def Let_def dec_simps)

lemma aggregate_node_ok:
  assumes "machine_complete B" and "claims_lawful B"
    and "aggregate_mixed B children raw generic selected rate = Inr p"
  shows "node_ok B p"
proof -
  obtain guest deferred pi pf where p:
    "prepare_mixed_with_hints B children raw generic selected rate (\<lambda>hints. hints)
       = Inr (guest, deferred, pi)"
    "cpu_prove B guest pi rate = Inr pf" "recursion_supported B (unified_guest B) pf"
    "p = \<lparr>mp_deps = selected, mp_deferred = deferred, mp_proof = pf\<rparr>"
    using assms(3) unfolding aggregate_mixed_Inr prepare_mixed_def by blast
  note sound = prepare_mixed_sound [OF p(1)]
  have "claim_wf B deferred"
    using sound mixed_deferred_wf [OF assms(2)] assms(2) unfolding claims_lawful_def by blast
  moreover have "\<exists>vs. cpu_verify B (unified_guest B) pi pf = Inr vs"
    using sound p(2) assms(1) unfolding machine_complete_def by blast
  ultimately show ?thesis using sound p(3,4) by (simp add: node_ok_def verify_mixed_proof_iff)
qed

lemma decode_payload_node:
  assumes "serializer_lawful B" and "node_ok B p"
    and "length (to_bytes_without_deps B p) \<le> MAX_PAYLOAD_BYTES"
  shows "decode_payload B (to_bytes_without_deps B p) = Inr (mp_deferred p, mp_proof p)
    \<and> preflight_mixed (to_bytes_without_deps B p) = Some ()"
proof -
  let ?bs = "to_bytes_without_deps B p"
  have cap: "stream_cap B < 2 ^ 64"
    using assms(1) by (simp add: serializer_lawful_def)
  have "mixed_deserialize B ?bs
      = Some (bytecode_point (mp_deferred p), matrix_points B (mp_deferred p), mp_proof p)
    \<and> (\<exists>m. pl_ok (stream_cap B) m \<and> ?bs = ser_mixed m)"
    using assms(1,2) unfolding serializer_lawful_def node_ok_def verify_mixed_proof_iff
      to_bytes_without_deps_def Let_def by blast
  then obtain m where inverse: "mixed_deserialize B ?bs
      = Some (bytecode_point (mp_deferred p), matrix_points B (mp_deferred p), mp_proof p)"
    and m: "pl_ok (stream_cap B) m" "?bs = ser_mixed m"
    by blast
  have bound: "length ?bs \<le> MAX_BYTES"
    using assms(3) by (simp add: MAX_PAYLOAD_BYTES_def MAX_BYTES_def)
  have "preflight_payload B ?bs = Inr ()"
    using m cap preflight_payload_iff by blast
  moreover have "preflight_mixed ?bs = Some ()"
    using m bound pl_ok_iff preflight_within by metis
  ultimately show ?thesis
    using assms(2,3) inverse
    by (simp add: decode_payload_def ok_or_def node_ok_def verify_mixed_proof_iff claim_wf_def)
qed

text \<open>
  C5. An honest machine's aggregate verifies: what \<open>aggregate_mixed\<close> returns serialises to a
  payload that the commitment-only verifier accepts for the hash of the selected set, and that
  passes the library's preflight.
\<close>

theorem aggregate_mixed_verifies:
  assumes "machine_complete B" and "claims_lawful B" and "serializer_lawful B"
    and "aggregate_mixed B children raw generic selected rate = Inr p"
  shows "verify_mixed_deps B (dependency_hash B selected) (to_bytes_without_deps B p) = Inr ()
    \<and> preflight_mixed (to_bytes_without_deps B p) = Some ()"
proof -
  have ok: "node_ok B p" and deps: "mp_deps p = selected"
    using assms aggregate_node_ok aggregate_mixed_deps by blast+
  have "length (to_bytes_without_deps B p) \<le> MAX_PAYLOAD_BYTES"
    using assms(4) by (auto simp: aggregate_mixed_Inr)
  then have "decode_payload B (to_bytes_without_deps B p) = Inr (mp_deferred p, mp_proof p)
      \<and> preflight_mixed (to_bytes_without_deps B p) = Some ()"
    using decode_payload_node [OF assms(3) ok] by blast
  with ok deps show ?thesis
    by (auto simp: verify_mixed_deps_def node_ok_def verify_mixed_proof_iff Let_def map_err_def)
qed

end
