(* ===== verification/Aggregation_Facts.thy ===== *)
theory Aggregation_Facts
  imports Aggregation Mixed_Sound
begin

text \<open>
  The guarantees of the native library's verifier and prover: what an accepted aggregate or
  witness is, what the bounded recursion returns, and the soundness and round trip of
  \<open>prove_aggregate\<close>.
\<close>

section \<open>Accepted witnesses\<close>

lemma parse_sphincs_Some: "parse_sphincs B h vk witness = Some (pk, sig) \<longleftrightarrow>
    length witness = pk_size B + sig_size B
    \<and> pk = pk_from_bytes B (take 32 witness) \<and> sig = sig_from_bytes B (drop 32 witness)
    \<and> keccak256 B (pk_flatten B pk) = vk \<and> sphincs_verify B pk h sig"
  by (auto simp: parse_sphincs_def dec_simps Let_def)

lemma decode_stark_Some: "decode_stark B h vk witness = Some (p, pf) \<longleftrightarrow>
    (\<exists>r. length witness \<le> MAX_BYTES \<and> witness = put_blob [] (encode_program p) @ r
      \<and> program_ok (prog p) \<and> p = assemble (bytecode_digest B) (prog p)
      \<and> keccak256 B (encode_program p) = vk
      \<and> preflight_cpu r = Some () \<and> cpu_deserialize B r = Some pf
      \<and> generic_recursion_supported B p pf
      \<and> (\<exists>vs. cpu_verify B p (public_input h) pf = Inr vs))" (is "?run \<longleftrightarrow> ?spec")
proof
  assume ?run
  then obtain code r where r: "length witness \<le> MAX_BYTES" "witness = put_blob [] code @ r"
    "keccak256 B code = vk" "stark_program (bytecode_digest B) code = Some p"
    "preflight_cpu r = Some ()" "cpu_deserialize B r = Some pf"
    "generic_recursion_supported B p pf" "\<exists>vs. cpu_verify B p (public_input h) pf = Inr vs"
    by (auto simp: decode_stark_def reader_simps not_less split: prod.splits)
  from stark_program_Some [OF r(4)] r show ?spec by auto
next
  assume ?spec
  then obtain r vs where r: "length witness \<le> MAX_BYTES" "witness = put_blob [] (encode_program p) @ r"
    "program_ok (prog p)" "p = assemble (bytecode_digest B) (prog p)"
    "keccak256 B (encode_program p) = vk"
    "preflight_cpu r = Some ()" "cpu_deserialize B r = Some pf"
    "generic_recursion_supported B p pf" "cpu_verify B p (public_input h) pf = Inr vs"
    by blast
  then have "rd_blob witness = Some (encode_program p, r)"
    by (simp add: blob.dec_iff put_blob_def)
  moreover have "stark_program (bytecode_digest B) (encode_program p) = Some p"
    using r(3,4) stark_program_of_ok by metis
  ultimately show ?run
    using r by (simp add: decode_stark_def result_ok_def guard_def)
qed

text \<open>
  A STARK witness is accepted for a data hash and a verification key exactly when it is
  the canonical encoding of a program within the profile, followed by a proof within the
  preflight's bounds and the machine's capacity that the machine accepts for that data; and
  the verification key is then the one the recursive profile derives from the program.
\<close>

theorem decode_stark_exact:
  "decode_stark B h vk witness = Some (p, pf) \<longleftrightarrow>
    (\<exists>r. length witness \<le> MAX_BYTES \<and> witness = put_blob [] (encode_program p) @ r
      \<and> generic_verification_key B p = Inr vk \<and> p = assemble (bytecode_digest B) (prog p)
      \<and> preflight_cpu r = Some () \<and> cpu_deserialize B r = Some pf
      \<and> generic_recursion_supported B p pf
      \<and> (\<exists>vs. cpu_verify B p (public_input h) pf = Inr vs))"
  unfolding decode_stark_Some generic_verification_key_def rbind_Inr mixed_encode_Inr by blast

section \<open>Accepted aggregates\<close>

definition payload_proof ::
  "('pk, 'sg, 'pf, 'vs, 'mc, 's) backend \<Rightarrow> dep list \<Rightarrow> byte list \<Rightarrow> ('mc, 'pf) mixed_proof \<Rightarrow> bool" where
  "payload_proof B deps payload p \<longleftrightarrow> preflight_mixed payload = Some ()
     \<and> from_bytes_without_deps B deps payload = Inr p \<and> verify_mixed_proof B p = Inr ()"

definition envelope :: "dep list \<Rightarrow> byte list \<Rightarrow> byte list" where
  "envelope deps payload = put_blob (put_deps MAGIC deps) payload"

lemma envelope_eq: "envelope deps payload = MAGIC @ put_deps [] deps @ put_blob [] payload"
  by (simp add: envelope_def put_deps_eq put_number_def put_blob_def)

lemma decode_aggregate_Some:
  "decode_aggregate_with_hash B bytes expected = Some a \<longleftrightarrow>
    (\<exists>payload. length bytes \<le> MAX_BYTES \<and> bytes = envelope (ag_deps a) payload
      \<and> list_all canonical_dep (ag_deps a) \<and> deps_ok (ag_deps a)
      \<and> (\<forall>h. expected = Some h \<longrightarrow> commitment B (ag_deps a) = h)
      \<and> length payload \<le> MAX_MIXED_GUEST_BYTES \<and> (payload = [] \<longleftrightarrow> ag_deps a = [])
      \<and> (case ag_proof a of None \<Rightarrow> ag_deps a = []
           | Some p \<Rightarrow> ag_deps a \<noteq> [] \<and> payload_proof B (ag_deps a) payload p))"
    (is "?run \<longleftrightarrow> (\<exists>payload. ?spec payload)")
proof
  assume ?run
  then obtain magic r0 deps r1 payload r2 u pf where
    steps: "\<not> length bytes > MAX_BYTES" "rd_take 4 bytes = Some (magic, r0)" "\<not> magic \<noteq> MAGIC"
      "rd_deps r0 = Some (deps, r1)" "rd_blob r1 = Some (payload, r2)" "rd_end r2 = Some u"
    and checks: "\<not> (\<not> windows_less deps \<or> generic_count deps > MAX_GENERIC_STARKS
       \<or> (case expected of None \<Rightarrow> False | Some h \<Rightarrow> commitment B deps \<noteq> h))"
      "\<not> (length payload > MAX_MIXED_GUEST_BYTES \<or> (payload = []) \<noteq> (deps = []))"
    and pf: "(if deps = [] then Some None
        else do {
          preflight_mixed payload;
          proof \<leftarrow> result_ok (from_bytes_without_deps B deps payload);
          result_ok (verify_mixed_proof B proof);
          Some (Some proof) }) = Some pf"
    and a: "Some \<lparr>ag_deps = deps, ag_proof = pf\<rparr> = Some a"
    unfolding decode_aggregate_with_hash_def bind_Some_conv guard_Some split_paired_Ex prod.case
    by blast
  have wire: "bytes = envelope deps payload" "length deps \<le> MAX_DEPS" "list_all canonical_dep deps"
    using steps by (auto simp: reader_simps envelope_eq)
  have "deps = [] \<and> pf = None \<or> deps \<noteq> [] \<and> (\<exists>p. pf = Some p \<and> payload_proof B deps payload p)"
    using pf by (auto simp: payload_proof_def dec_simps split: if_splits)
  with a wire checks steps(1) have "?spec payload"
    by (auto simp: deps_okI not_less split: option.splits)
  then show "\<exists>payload. ?spec payload" ..
next
  assume "\<exists>payload. ?spec payload"
  then obtain payload where s: "?spec payload" ..
  obtain deps pf where a: "a = \<lparr>ag_deps = deps, ag_proof = pf\<rparr>" by (cases a)
  have deps: "length deps \<le> MAX_DEPS" "windows_less deps" "generic_count deps \<le> MAX_GENERIC_STARKS"
    using s a by (auto simp: deps_ok_def windows_less_sorted limit_defs)
  have pl: "length payload \<le> MAX_BYTES"
    using s by (simp add: limit_defs)
  have "rd_deps (put_deps [] deps @ put_blob [] payload) = Some (deps, put_blob [] payload)"
    using deps s a by (auto simp: dependencies.dec_iff)
  moreover have "rd_blob (put_blob [] payload) = Some (payload, [])"
    using pl by (simp add: blob.dec_iff)
  moreover have "\<not> (case expected of None \<Rightarrow> False | Some h \<Rightarrow> commitment B deps \<noteq> h)"
    using s a by (auto split: option.splits)
  ultimately show ?run
    using s a deps
    by (auto simp: decode_aggregate_with_hash_def envelope_eq rd_take_def guard_def rd_end_def
        payload_proof_def result_ok_def split: option.splits)
qed

text \<open>
  C2. The aggregate verifier accepts a byte string under a hash exactly when it is the
  envelope of a canonical, strictly sorted dependency list within the limits that commits to
  the hash, around an empty payload for the empty list and otherwise a payload that passes
  the preflight and holds a proof that the machine accepts for that very list; nothing may
  follow the payload.
\<close>

theorem decode_aggregate_exact:
  "decode_aggregate_with_hash B bytes (Some h) = Some a \<longleftrightarrow>
    (\<exists>payload. length bytes \<le> MAX_BYTES \<and> bytes = envelope (ag_deps a) payload
      \<and> list_all canonical_dep (ag_deps a) \<and> deps_ok (ag_deps a)
      \<and> commitment B (ag_deps a) = h
      \<and> length payload \<le> MAX_MIXED_GUEST_BYTES \<and> (payload = [] \<longleftrightarrow> ag_deps a = [])
      \<and> (case ag_proof a of None \<Rightarrow> ag_deps a = []
           | Some p \<Rightarrow> ag_deps a \<noteq> [] \<and> payload_proof B (ag_deps a) payload p))"
  unfolding decode_aggregate_Some by simp

text \<open>
  C4. A hash determines what was proved: two aggregates accepted under one hash carry the
  same dependency list, unless their two lists are a collision of the hash function.
\<close>

theorem aggregate_binding:
  assumes "decode_aggregate_with_hash B x (Some h) = Some a"
    and "decode_aggregate_with_hash B y (Some h) = Some b"
    and "keccak256 B (concat (ag_deps a)) = keccak256 B (concat (ag_deps b))
      \<longrightarrow> concat (ag_deps a) = concat (ag_deps b)"
  shows "ag_deps a = ag_deps b"
proof -
  have "list_all canonical_dep (ag_deps a)" "list_all canonical_dep (ag_deps b)"
    "commitment B (ag_deps a) = commitment B (ag_deps b)"
    using assms(1,2) unfolding decode_aggregate_Some by auto
  then show ?thesis
    using assms(3) concat_deps_inj by (simp add: commitment_def)
qed

section \<open>The bounded recursion\<close>

text \<open>A dependency the inputs of the recursion account for.\<close>

definition backed ::
  "('pk, 'sg, 'pf, 'vs, 'mc, 's) backend \<Rightarrow> ('mc, 'pf) mixed_proof list
     \<Rightarrow> ('pk, 'sg) raw_input list \<Rightarrow> 'pf stark_input list \<Rightarrow> dep \<Rightarrow> bool" where
  "backed B children raw generic d \<longleftrightarrow>
     (\<exists>child \<in> set children. d \<in> set (mp_deps child))
     \<or> (\<exists>(_, pk, data, sig) \<in> set raw. raw_valid B (pk, data, sig) \<and> d = sph_dep B pk data)
     \<or> (\<exists>(d', p, pf) \<in> set generic.
          generic_valid B \<lparr>gi_program = p, gi_proof = pf, gi_data = take 32 (drop 32 d')\<rparr>
          \<and> generic_dep B \<lparr>gi_program = p, gi_proof = pf, gi_data = take 32 (drop 32 d')\<rparr> d)"

lemma filter_unseen_subset: "set (fst (filter_unseen P seen xs)) \<subseteq> set xs"
  by (induction P seen xs rule: filter_unseen.induct) (auto split: prod.splits)

lemma raw_leaf_backed:
  assumes "raw_leaf B leaf = Some node" and "set leaf \<subseteq> set raw" and "d \<in> set (mp_deps node)"
  shows "backed B children raw generic d"
proof -
  let ?signatures = "map (\<lambda>(_, pk, message, sig). (pk, message, sig)) leaf"
  have agg: "aggregate_mixed B [] ?signatures [] (btree_vec (map fst leaf)) 1 = Inr node"
    using assms(1) by (simp add: raw_leaf_def dec_simps Let_def)
  then have "supports B [] ?signatures [] d"
    using aggregate_mixed_supports [OF agg] aggregate_mixed_deps [OF agg] assms(3) by simp
  then show ?thesis using assms(2) by (fastforce simp: supports_def backed_def)
qed

lemma generic_leaf_backed:
  assumes "generic_leaf B leaf = Some node" and "set leaf \<subseteq> set generic" and "d \<in> set (mp_deps node)"
  shows "backed B children raw generic d"
proof -
  let ?inputs = "map (\<lambda>(d, p, pf). \<lparr>gi_program = p, gi_proof = pf, gi_data = take 32 (drop 32 d)\<rparr>) leaf"
  have agg: "aggregate_mixed B [] [] ?inputs (btree_vec (map fst leaf)) 1 = Inr node"
    using assms(1) by (simp add: generic_leaf_def dec_simps Let_def)
  then have "supports B [] [] ?inputs d"
    using aggregate_mixed_supports [OF agg] aggregate_mixed_deps [OF agg] assms(3) by simp
  then show ?thesis using assms(2) by (fastforce simp: supports_def backed_def)
qed

lemma omap_all:
  "omap f xs = Some ys \<Longrightarrow> (\<And>x y. x \<in> set xs \<Longrightarrow> f x = Some y \<Longrightarrow> P y) \<Longrightarrow> list_all P ys"
  unfolding omap_Some list_all2_conv_all_nth list_all_length by (metis nth_mem)

text \<open>The interface of the recursion: a predicate on nodes that every batch preserves holds of
  every node of the final level.\<close>

locale merging =
  fixes B :: "('pk, 'sg, 'pf, 'vs, 'mc, 's) backend" and selected :: "dep list"
    and P :: "('mc, 'pf) mixed_proof \<Rightarrow> bool"
  assumes batch: "list_all P nodes \<Longrightarrow> merge_batch B selected nodes = Some node \<Longrightarrow> P node"
begin

lemma level: "list_all P nodes \<Longrightarrow> merge_level B selected nodes = Some next' \<Longrightarrow> list_all P next'"
  unfolding merge_level_def
  by (erule omap_all) (metis batch chunks_subset list_all_iff subsetD)

lemma nodes: "list_all P nodes \<Longrightarrow> merge_nodes B selected nodes = Some final \<Longrightarrow> list_all P final"
proof (induction "length nodes" arbitrary: nodes rule: less_induct)
  case less
  show ?case
  proof (cases "length nodes > 1")
    case False
    with less.prems show ?thesis by (simp add: merge_nodes.simps [of B selected nodes])
  next
    case True
    with less.prems(2) obtain next' where n: "merge_level B selected nodes = Some next'"
      "merge_nodes B selected next' = Some final"
      by (auto simp: merge_nodes.simps [of B selected nodes] dec_simps)
    show ?thesis
      using less.hyps [OF merge_level_length [OF n(1) True] level [OF less.prems(1) n(1)] n(2)] .
  qed
qed

lemma last_node: "list_all P ns \<Longrightarrow> merge_nodes B selected ns = Some final \<Longrightarrow> final \<noteq> []
    \<Longrightarrow> P (last final)"
  using nodes by (simp add: list_all_iff)

end

lemma merge_batch_cases:
  assumes "merge_batch B selected nodes = Some node"
  obtains "node \<in> set nodes" "set (mp_deps node) \<subseteq> set selected"
  | deps where "aggregate_mixed B nodes [] [] deps 1 = Inr node" "mp_deps node = deps"
      "set deps = {d \<in> set selected. \<exists>n \<in> set nodes. d \<in> set (mp_deps n)}"
proof -
  let ?deps = "btree_vec (filter (\<lambda>d. d \<in> set selected) (concat (map mp_deps nodes)))"
  consider "length nodes = 1" "mp_deps (nodes ! 0) = ?deps" "node = last nodes"
    | "aggregate_mixed B nodes [] [] ?deps 1 = Inr node"
    using assms by (auto simp: merge_batch_def Let_def dec_simps split: if_splits)
  then show thesis
  proof cases
    case 1
    then obtain n where "nodes = [n]" by (auto simp: length_Suc_conv)
    moreover have "set ?deps \<subseteq> set selected" by auto
    ultimately show thesis using 1 that(1) by (metis last_ConsL list.set_intros(1) nth_Cons_0)
  next
    case 2
    have "set ?deps = {d \<in> set selected. \<exists>n \<in> set nodes. d \<in> set (mp_deps n)}" by auto
    with 2 show thesis by (rule that(2) [OF _ aggregate_mixed_deps [OF 2]])
  qed
qed

interpretation backed_merge: merging B selected
  "\<lambda>node. \<forall>d \<in> set (mp_deps node). backed B children raw generic d"
  for B :: "('pk, 'sg, 'pf, 'vs, 'mc, 's) backend" and selected children raw generic
proof unfold_locales
  fix nodes node
  assume all: "list_all (\<lambda>node. \<forall>d \<in> set (mp_deps node). backed B children raw generic d) nodes"
    and "merge_batch B selected nodes = Some node"
  from this(2) show "\<forall>d \<in> set (mp_deps node). backed B children raw generic d"
    by (cases rule: merge_batch_cases) (use all in \<open>auto simp: list_all_iff\<close>)
qed

interpretation honest_merge: merging B selected
  "\<lambda>node. machine_complete B \<longrightarrow> claims_lawful B \<longrightarrow> node_ok B node"
  for B :: "('pk, 'sg, 'pf, 'vs, 'mc, 's) backend" and selected
proof unfold_locales
  fix nodes node
  assume all: "list_all (\<lambda>node. machine_complete B \<longrightarrow> claims_lawful B \<longrightarrow> node_ok B node) nodes"
    and "merge_batch B selected nodes = Some node"
  from this(2) show "machine_complete B \<longrightarrow> claims_lawful B \<longrightarrow> node_ok B node"
    by (cases rule: merge_batch_cases) (use all aggregate_node_ok in \<open>auto simp: list_all_iff\<close>)
qed

text \<open>The result of the bounded aggregation is one of the given children or the aggregate of a
  last node.\<close>

lemma find_node_Some: "find_node desired nodes = Some n \<Longrightarrow> n \<in> set nodes \<and> mp_deps n = desired"
  by (auto simp: find_node_def find_Some_iff)

lemma aggregate_bounded_cases:
  assumes "aggregate_bounded B leaf_var children raw generic desired = Some node"
  obtains "node \<in> set children" "mp_deps node = desired"
  | raws generics raw_nodes generic_nodes final where
      "set (concat raws) \<subseteq> set raw" "set (concat generics) \<subseteq> set generic"
      "omap (raw_leaf B) raws = Some raw_nodes" "omap (generic_leaf B) generics = Some generic_nodes"
      "merge_nodes B (btree_vec desired)
         (filter (\<lambda>child. list_ex (\<lambda>claim. claim \<in> set desired) (mp_deps child)) children
          @ raw_nodes @ generic_nodes) = Some final"
      "final \<noteq> []"
      "(node = last final \<and> mp_deps node = desired)
       \<or> aggregate_mixed B [last final] [] [] desired 1 = Inr node"
proof -
  let ?nodes = "filter (\<lambda>child. list_ex (\<lambda>claim. claim \<in> set desired) (mp_deps child)) children"
  show thesis
  proof (cases "find_node desired ?nodes")
    case (Some n)
    with assms have "n = node" by (simp add: aggregate_bounded_def Let_def)
    with Some have "node \<in> set ?nodes \<and> mp_deps node = desired"
      using find_node_Some by blast
    then show thesis using that(1) by simp
  next
    case None
    define wanted where "wanted = (\<lambda>d. d \<in> set desired \<and> d \<notin> set (concat (map mp_deps ?nodes)))"
    obtain fraw seen where fr: "filter_unseen wanted [] raw = (fraw, seen)" by fastforce
    obtain fgen seen' where fg: "filter_unseen wanted seen generic = (fgen, seen')" by fastforce
    from assms None have "do {
        per_leaf \<leftarrow> raw_signatures_per_leaf leaf_var;
        raw_nodes \<leftarrow> omap (raw_leaf B) (chunks per_leaf fraw);
        generic_nodes \<leftarrow> omap (generic_leaf B) (chunks RAW_GENERICS_PER_LEAF fgen);
        nodes \<leftarrow> merge_nodes B (btree_vec desired) (?nodes @ raw_nodes @ generic_nodes);
        node \<leftarrow> (case nodes of [] \<Rightarrow> None | _ \<Rightarrow> Some (last nodes));
        if mp_deps node = desired then Some node
        else result_ok (aggregate_mixed B [node] [] [] desired 1) } = Some node"
      using fr fg by (simp add: aggregate_bounded_def Let_def wanted_def)
    then obtain per_leaf raw_nodes generic_nodes nodes last' where s:
      "raw_signatures_per_leaf leaf_var = Some per_leaf"
      "omap (raw_leaf B) (chunks per_leaf fraw) = Some raw_nodes"
      "omap (generic_leaf B) (chunks RAW_GENERICS_PER_LEAF fgen) = Some generic_nodes"
      "merge_nodes B (btree_vec desired) (?nodes @ raw_nodes @ generic_nodes) = Some nodes"
      "(case nodes of [] \<Rightarrow> None | _ \<Rightarrow> Some (last nodes)) = Some last'"
      "(if mp_deps last' = desired then Some last'
        else result_ok (aggregate_mixed B [last'] [] [] desired 1)) = Some node"
      unfolding bind_Some_conv by blast
    from s(1) have "0 < per_leaf"
      by (auto simp: raw_signatures_per_leaf_def dec_simps)
    then have subs: "set (concat (chunks per_leaf fraw)) \<subseteq> set raw"
      "set (concat (chunks RAW_GENERICS_PER_LEAF fgen)) \<subseteq> set generic"
      using filter_unseen_subset [of wanted "[]" raw] filter_unseen_subset [of wanted seen generic] fr fg
      by (simp_all only: concat_chunks RAW_GENERICS_PER_LEAF_def zero_less_one fst_conv)
    have l: "nodes \<noteq> []" "last' = last nodes"
      using s(5) by (auto split: list.splits)
    have "(node = last nodes \<and> mp_deps node = desired)
       \<or> aggregate_mixed B [last nodes] [] [] desired 1 = Inr node"
      using s(6) l(2) by (auto simp: dec_simps split: if_splits)
    then show thesis
      using that(2) [OF subs s(2-4) l(1)] by blast
  qed
qed

lemma aggregate_bounded_deps:
  "aggregate_bounded B leaf_var children raw generic desired = Some node \<Longrightarrow> mp_deps node = desired"
  by (erule aggregate_bounded_cases) (auto dest: aggregate_mixed_deps)

lemma leaves_backed:
  assumes "set (concat raws) \<subseteq> set raw" "set (concat generics) \<subseteq> set generic"
    "omap (raw_leaf B) raws = Some raw_nodes" "omap (generic_leaf B) generics = Some generic_nodes"
  shows "list_all (\<lambda>node. \<forall>d \<in> set (mp_deps node). backed B children raw generic d)
    (raw_nodes @ generic_nodes)"
proof -
  let ?P = "\<lambda>node. \<forall>d \<in> set (mp_deps node). backed B children raw generic d"
  have "list_all ?P raw_nodes"
    using assms(3)
  proof (rule omap_all)
    fix leaf node assume "leaf \<in> set raws" "raw_leaf B leaf = Some node"
    moreover from this(1) assms(1) have "set leaf \<subseteq> set raw" by auto
    ultimately show "?P node" using raw_leaf_backed by blast
  qed
  moreover have "list_all ?P generic_nodes"
    using assms(4)
  proof (rule omap_all)
    fix leaf node assume "leaf \<in> set generics" "generic_leaf B leaf = Some node"
    moreover from this(1) assms(2) have "set leaf \<subseteq> set generic" by auto
    ultimately show "?P node" using generic_leaf_backed by blast
  qed
  ultimately show ?thesis by simp
qed

lemma aggregate_bounded_backed:
  assumes "aggregate_bounded B leaf_var children raw generic desired = Some node" and "d \<in> set desired"
  shows "backed B children raw generic d"
  using assms(1)
proof (cases rule: aggregate_bounded_cases)
  case 1
  with assms(2) show ?thesis by (auto simp: backed_def)
next
  case (2 raws generics raw_nodes generic_nodes final)
  let ?P = "\<lambda>node. \<forall>d \<in> set (mp_deps node). backed B children raw generic d"
  have "list_all ?P (filter (\<lambda>child. list_ex (\<lambda>claim. claim \<in> set desired) (mp_deps child)) children
      @ raw_nodes @ generic_nodes)"
    using leaves_backed [OF 2(1-4)] by (auto simp: list_all_iff backed_def)
  then have "?P (last final)"
    using 2(5,6) by (rule backed_merge.last_node)
  moreover have "d \<in> set (mp_deps (last final))"
    using 2(7) assms(2) aggregate_mixed_supports [of B "[last final]" "[]" "[]" desired 1 node d]
    by (auto simp: supports_def)
  ultimately show ?thesis by blast
qed

text \<open>
  The bounded recursion returns a node that carries exactly the desired dependencies, in
  their order, and each of them is carried by one of the children or is the dependency of an
  accepted raw signature or of a verified generic proof among the inputs, however the inputs
  were grouped into leaves and merged.
\<close>

theorem aggregate_bounded_sound:
  assumes "aggregate_bounded B leaf_var children raw generic desired = Some node"
  shows "mp_deps node = desired \<and> (\<forall>d \<in> set desired. backed B children raw generic d)"
  using aggregate_bounded_deps [OF assms] aggregate_bounded_backed [OF assms] by blast

lemma aggregate_bounded_node_ok:
  assumes honest: "machine_complete B" "claims_lawful B"
    and children: "list_all (node_ok B) children"
    and run: "aggregate_bounded B leaf_var children raw generic desired = Some node"
  shows "node_ok B node"
  using run
proof (cases rule: aggregate_bounded_cases)
  case 1
  with children show ?thesis by (simp add: list_all_iff)
next
  case (2 raws generics raw_nodes generic_nodes final)
  let ?P = "\<lambda>node. machine_complete B \<longrightarrow> claims_lawful B \<longrightarrow> node_ok B node"
  have "list_all ?P raw_nodes"
    using 2(3) by (rule omap_all) (auto simp: raw_leaf_def dec_simps Let_def intro: aggregate_node_ok)
  moreover have "list_all ?P generic_nodes"
    using 2(4) by (rule omap_all) (auto simp: generic_leaf_def dec_simps Let_def intro: aggregate_node_ok)
  ultimately have "list_all ?P (filter (\<lambda>child. list_ex (\<lambda>claim. claim \<in> set desired) (mp_deps child)) children
      @ raw_nodes @ generic_nodes)"
    using children by (auto simp: list_all_iff)
  then have "?P (last final)"
    using 2(5,6) by (rule honest_merge.last_node)
  then show ?thesis
    using 2(7) honest aggregate_node_ok by blast
qed

section \<open>The aggregate prover\<close>

text \<open>The prover's input: witnessed dependencies, children with their declared dependencies, and
  the dependencies to drop.\<close>

record wire_input =
  wi_witnesses :: "(dep \<times> byte list) list"
  wi_children :: "(dep list \<times> byte list) list"
  wi_discards :: "dep list"

definition ser_witness :: "dep \<times> byte list \<Rightarrow> byte list" where
  "ser_witness x = fst x @ put_blob [] (snd x)"

definition ser_child :: "dep list \<times> byte list \<Rightarrow> byte list" where
  "ser_child x = put_deps [] (fst x) @ put_blob [] (snd x)"

definition ser_input :: "wire_input \<Rightarrow> byte list" where
  "ser_input w = le_bytes 4 (length (wi_witnesses w)) @ concat (map ser_witness (wi_witnesses w))
     @ le_bytes 4 (length (wi_children w)) @ concat (map ser_child (wi_children w))
     @ put_deps [] (wi_discards w)"

definition witness_ok ::
  "('pk, 'sg, 'pf, 'vs, 'mc, 's) backend \<Rightarrow> dep \<times> byte list \<Rightarrow> bool" where
  "witness_ok B x \<longleftrightarrow> canonical_dep (fst x) \<and> (let d = fst x; data = take 32 (drop 32 d);
       key = take 32 (drop 64 d)
     in if scheme d = 0x10 then verify_sphincs B data key (snd x) else verify_stark B data key (snd x))"

definition child_ok ::
  "('pk, 'sg, 'pf, 'vs, 'mc, 's) backend \<Rightarrow> dep list \<times> byte list \<Rightarrow> bool" where
  "child_ok B x \<longleftrightarrow> list_all canonical_dep (fst x)
     \<and> (\<exists>a. decode_aggregate B (snd x) = Some a \<and> ag_deps a = btree_vec (fst x))"

definition input_deps :: "wire_input \<Rightarrow> dep list" where
  "input_deps w = btree_vec (filter (\<lambda>d. d \<notin> set (wi_discards w))
     (map fst (wi_witnesses w) @ concat (map fst (wi_children w))))"

lemma read_witness_Some:
  assumes "read_witness B (ws, r) = Some (ws', r')"
  shows "\<exists>x. witness_ok B x \<and> r = ser_witness x @ r' \<and> ws_all ws' = ws_all ws @ [fst x]"
proof -
  from assms obtain d r1 b ws1 where s: "rd_dep r = Some (d, r1)" "rd_blob r1 = Some (b, r')"
    "(if scheme d = 0x10 then do {
          (pk, sig) \<leftarrow> parse_sphincs B (take 32 (drop 32 d)) (take 32 (drop 64 d)) b;
          Some (ws\<lparr>ws_raw := ws_raw ws @ [(d, pk, take 32 (drop 32 d), sig)]\<rparr>) }
        else do {
          (p, pf) \<leftarrow> decode_stark B (take 32 (drop 32 d)) (take 32 (drop 64 d)) b;
          Some (ws\<lparr>ws_generic := ws_generic ws @ [(d, p, pf)]\<rparr>) }) = Some ws1"
    "ws' = ws1\<lparr>ws_all := ws_all ws1 @ [d]\<rparr>"
    by (auto simp: read_witness_def bind_Some_conv Let_def split: prod.splits)
  from s(3) have "ws_all ws1 = ws_all ws \<and> witness_ok B (d, b)"
    using s(1)
    by (auto simp: witness_ok_def verify_sphincs_def verify_stark_def bind_Some_conv
        dependency.dec_iff Let_def split: if_splits prod.splits)
  then show ?thesis
    using s(1,2,4)
    by (intro exI [of _ "(d, b)"]) (simp add: dependency.dec_iff blob.dec_iff ser_witness_def)
qed

lemma read_witnesses_Some:
  "pf_repeat (read_witness B) n (ws, r) = Some (ws', r') \<Longrightarrow>
    \<exists>xs. length xs = n \<and> list_all (witness_ok B) xs \<and> r = concat (map ser_witness xs) @ r'
      \<and> ws_all ws' = ws_all ws @ map fst xs"
proof (induction n arbitrary: ws r)
  case (Suc n)
  then obtain ws1 r1 where s: "read_witness B (ws, r) = Some (ws1, r1)"
    "pf_repeat (read_witness B) n (ws1, r1) = Some (ws', r')"
    by (auto simp: dec_simps)
  obtain x where x: "witness_ok B x" "r = ser_witness x @ r1" "ws_all ws1 = ws_all ws @ [fst x]"
    using read_witness_Some [OF s(1)] by blast
  obtain xs where "length xs = n" "list_all (witness_ok B) xs"
    "r1 = concat (map ser_witness xs) @ r'" "ws_all ws' = ws_all ws1 @ map fst xs"
    using Suc.IH [OF s(2)] by blast
  with x show ?case by (intro exI [of _ "x # xs"]) simp
qed simp

lemma read_child_Some:
  assumes "read_child B (all, children, r) = Some (all', children', r')"
  shows "\<exists>x. child_ok B x \<and> r = ser_child x @ r' \<and> all' = all @ fst x
    \<and> (children' = children \<or> (\<exists>a p. decode_aggregate B (snd x) = Some a \<and> ag_proof a = Some p
          \<and> children' = children @ [p]))"
proof -
  from assms obtain declared r1 b a where s: "rd_deps r = Some (declared, r1)"
    "rd_blob r1 = Some (b, r')" "decode_aggregate B b = Some a" "ag_deps a = btree_vec declared"
    "all' = all @ declared"
    "children' = (case ag_proof a of None \<Rightarrow> children | Some p \<Rightarrow> children @ [p])"
    by (auto simp: read_child_def bind_Some_conv guard_Some split: prod.splits)
  then show ?thesis
    by (intro exI [of _ "(declared, b)"])
      (auto simp: dependencies.dec_iff blob.dec_iff ser_child_def child_ok_def split: option.splits)
qed

text \<open>A child proof that was decoded from an accepted aggregate.\<close>

definition decoded_child ::
  "('pk, 'sg, 'pf, 'vs, 'mc, 's) backend \<Rightarrow> ('mc, 'pf) mixed_proof \<Rightarrow> bool" where
  "decoded_child B p \<longleftrightarrow> (\<exists>b a. decode_aggregate B b = Some a \<and> ag_proof a = Some p)"

lemma decoded_childI: "decode_aggregate B b = Some a \<Longrightarrow> ag_proof a = Some p \<Longrightarrow> decoded_child B p"
  by (auto simp: decoded_child_def)

lemma read_children_Some:
  "pf_repeat (read_child B) n (all, children, r) = Some (all', children', r') \<Longrightarrow>
    list_all (decoded_child B) children \<Longrightarrow>
    list_all (decoded_child B) children' \<and>
    (\<exists>xs. length xs = n \<and> list_all (child_ok B) xs \<and> r = concat (map ser_child xs) @ r'
      \<and> all' = all @ concat (map fst xs))"
proof (induction n arbitrary: all children r)
  case (Suc n)
  then obtain all1 children1 r1 where s: "read_child B (all, children, r) = Some (all1, children1, r1)"
    "pf_repeat (read_child B) n (all1, children1, r1) = Some (all', children', r')"
    by (auto simp: dec_simps)
  obtain x where x: "child_ok B x" "r = ser_child x @ r1" "all1 = all @ fst x"
    "children1 = children \<or> (\<exists>a p. decode_aggregate B (snd x) = Some a \<and> ag_proof a = Some p
       \<and> children1 = children @ [p])"
    using read_child_Some [OF s(1)] by blast
  have "list_all (decoded_child B) children1"
    using x(4) Suc.prems(2) decoded_childI by auto
  from Suc.IH [OF s(2) this] obtain xs where "list_all (decoded_child B) children'"
    "length xs = n" "list_all (child_ok B) xs"
    "r1 = concat (map ser_child xs) @ r'" "all' = all1 @ concat (map fst xs)"
    by blast
  with x(1-3) show ?case by (intro conjI exI [of _ "x # xs"]) simp_all
qed simp

lemma decoded_child_node_ok:
  assumes "claims_lawful B" and "decoded_child B p"
  shows "node_ok B p"
proof -
  from assms(2) obtain deps payload where p: "payload_proof B deps payload p"
    unfolding decoded_child_def decode_aggregate_def decode_aggregate_Some by force
  then obtain points mats where "mixed_deferred B points mats = Inr (mp_deferred p)"
    by (auto simp: payload_proof_def from_bytes_without_deps_def decode_payload_def dec_simps
        split: prod.splits if_splits)
  with assms(1) p show ?thesis
    by (auto simp: node_ok_def payload_proof_def intro: mixed_deferred_wf)
qed

lemma le_bytes_zero: "le_bytes k 0 = replicate k 0"
  by (induction k) simp_all

lemma zeros_12: "replicate 12 (0 :: byte) = replicate 4 0 @ replicate 4 0 @ replicate 4 0"
  by (simp flip: replicate_add)

lemma zeros_8: "replicate 8 (0 :: byte) = replicate 4 0 @ replicate 4 0"
  by (simp flip: replicate_add)

lemma empty_input: "ser_input \<lparr>wi_witnesses = [], wi_children = [], wi_discards = []\<rparr> = replicate 12 0"
  unfolding zeros_12 by (simp add: ser_input_def put_deps_eq put_number_def le_bytes_zero)

lemma empty_envelope: "envelope [] [] = MAGIC @ replicate 8 0"
  unfolding zeros_8 by (simp add: envelope_eq put_deps_eq put_blob_def put_number_def le_bytes_zero)

text \<open>What one successful run of the prover went through.\<close>

lemma prove_aggregate_Some:
  assumes "prove_aggregate B leaf_var h input = Some out"
  shows "\<exists>w payload. length input \<le> MAX_INPUT_BYTES \<and> input = ser_input w
    \<and> list_all (witness_ok B) (wi_witnesses w) \<and> list_all (child_ok B) (wi_children w)
    \<and> list_all canonical_dep (wi_discards w)
    \<and> commitment B (input_deps w) = h \<and> length (input_deps w) \<le> MAX_DEPS
    \<and> generic_count (input_deps w) \<le> MAX_GENERIC_STARKS
    \<and> out = envelope (input_deps w) payload \<and> length out \<le> MAX_BYTES
    \<and> length payload \<le> MAX_MIXED_GUEST_BYTES
    \<and> (if input_deps w = [] then payload = []
       else (\<exists>children raw generic node. list_all (decoded_child B) children
          \<and> aggregate_bounded B leaf_var children raw generic (input_deps w) = Some node
          \<and> payload = to_bytes_without_deps B node))"
proof (cases "input = replicate 12 0")
  case True
  let ?w = "\<lparr>wi_witnesses = [], wi_children = [], wi_discards = []\<rparr>"
  have "input = ser_input ?w" using True by (simp only: empty_input)
  moreover have "out = envelope [] []" "h = commitment B []" "length input \<le> MAX_INPUT_BYTES"
    using assms True by (auto simp: prove_aggregate_def dec_simps empty_envelope split: if_splits)
  moreover have "length (envelope [] []) \<le> MAX_BYTES"
    by (simp add: empty_envelope MAX_BYTES_def)
  ultimately show ?thesis
    by (intro exI [of _ ?w] exI [of _ "[]"]) (simp add: input_deps_def generic_count_def)
next
  case False
  with assms obtain n r0 ws r1 k r2 all children r3 discards r4 u payload where s:
    "\<not> length input > MAX_INPUT_BYTES" "rd_count input = Some (n, r0)"
    "pf_repeat (read_witness B) n (\<lparr>ws_all = [], ws_raw = [], ws_generic = []\<rparr>, r0) = Some (ws, r1)"
    "rd_count r1 = Some (k, r2)"
    "pf_repeat (read_child B) k (ws_all ws, [], r2) = Some (all, children, r3)"
    "rd_deps r3 = Some (discards, r4)" "rd_end r4 = Some u"
    and deps: "\<not> (length (btree_vec (filter (\<lambda>d. d \<notin> set discards) all)) > MAX_DEPS
         \<or> generic_count (btree_vec (filter (\<lambda>d. d \<notin> set discards) all)) > MAX_GENERIC_STARKS
         \<or> commitment B (btree_vec (filter (\<lambda>d. d \<notin> set discards) all)) \<noteq> h)"
    and payload: "(if btree_vec (filter (\<lambda>d. d \<notin> set discards) all) = [] then Some []
          else map_option (to_bytes_without_deps B)
            (aggregate_bounded B leaf_var children (ws_raw ws) (ws_generic ws)
              (btree_vec (filter (\<lambda>d. d \<notin> set discards) all)))) = Some payload"
    and out: "\<not> length payload > MAX_MIXED_GUEST_BYTES"
      "\<not> length (put_blob (put_deps MAGIC (btree_vec (filter (\<lambda>d. d \<notin> set discards) all))) payload)
         > MAX_BYTES"
      "Some out = Some (put_blob (put_deps MAGIC (btree_vec (filter (\<lambda>d. d \<notin> set discards) all))) payload)"
    unfolding prove_aggregate_def if_not_P [OF False] bind_Some_conv guard_Some split_paired_Ex
      prod.case Let_def
    by (metis (no_types, lifting))
  obtain xs where xs: "length xs = n" "list_all (witness_ok B) xs"
    "r0 = concat (map ser_witness xs) @ r1" "ws_all ws = map fst xs"
    using read_witnesses_Some [OF s(3)] by auto
  obtain cs where cs: "list_all (decoded_child B) children" "length cs = k"
    "list_all (child_ok B) cs" "r2 = concat (map ser_child cs) @ r3" "all = ws_all ws @ concat (map fst cs)"
    using read_children_Some [OF s(5)] by auto
  let ?w = "\<lparr>wi_witnesses = xs, wi_children = cs, wi_discards = discards\<rparr>"
  have d: "btree_vec (filter (\<lambda>d. d \<notin> set discards) all) = input_deps ?w"
    using xs(4) cs(5) by (simp add: input_deps_def)
  have "input = ser_input ?w" "list_all canonical_dep discards"
    using s xs cs by (auto simp: reader_simps ser_input_def)
  moreover have "if input_deps ?w = [] then payload = []
       else (\<exists>children raw generic node. list_all (decoded_child B) children
          \<and> aggregate_bounded B leaf_var children raw generic (input_deps ?w) = Some node
          \<and> payload = to_bytes_without_deps B node)"
    using payload cs(1) unfolding d by (cases "input_deps ?w = []") auto
  ultimately show ?thesis
    using s(1) xs(2) cs(3) deps out unfolding d not_less envelope_def
    by (intro exI [of _ ?w] exI [of _ payload]) simp
qed

lemma ser_mixed_not_Nil: "ser_mixed m \<noteq> []" "[] \<noteq> ser_mixed m"
proof -
  have "0 < length (ser_mixed m)"
    by (cases "wm_points m") (simp add: ser_mixed_def del: length_greater_0_conv)
  then show "ser_mixed m \<noteq> []" "[] \<noteq> ser_mixed m" by auto
qed

text \<open>A dependency the prover's input accounts for: a verified witness, or membership in the
  verified aggregate of a child.\<close>

definition attested ::
  "('pk, 'sg, 'pf, 'vs, 'mc, 's) backend \<Rightarrow> wire_input \<Rightarrow> dep \<Rightarrow> bool" where
  "attested B w d \<longleftrightarrow> (\<exists>b. (d, b) \<in> set (wi_witnesses w) \<and> witness_ok B (d, b))
     \<or> (\<exists>(ds, b) \<in> set (wi_children w). \<exists>a. decode_aggregate B b = Some a \<and> d \<in> set (ag_deps a))"

lemma input_deps_attested:
  assumes "list_all (witness_ok B) (wi_witnesses w)" and "list_all (child_ok B) (wi_children w)"
    and "d \<in> set (input_deps w)"
  shows "attested B w d \<and> d \<notin> set (wi_discards w) \<and> canonical_dep d"
proof -
  have nd: "d \<notin> set (wi_discards w)" using assms(3) by (auto simp: input_deps_def)
  consider b where "(d, b) \<in> set (wi_witnesses w)"
    | ds b where "(ds, b) \<in> set (wi_children w)" "d \<in> set ds"
    using assms(3) by (auto simp: input_deps_def)
  then show ?thesis
  proof cases
    case 1
    then have "witness_ok B (d, b)" using assms(1) by (auto simp: list_all_iff)
    moreover from this have "canonical_dep d" by (simp add: witness_ok_def)
    ultimately show ?thesis using 1 nd unfolding attested_def by blast
  next
    case 2
    then have "child_ok B (ds, b)" using assms(2) by (auto simp: list_all_iff)
    then obtain a where "decode_aggregate B b = Some a" "ag_deps a = btree_vec ds"
      "list_all canonical_dep ds"
      by (auto simp: child_ok_def)
    with 2 nd show ?thesis by (fastforce simp: attested_def list_all_iff)
  qed
qed

lemma input_deps_ok:
  assumes "list_all (witness_ok B) (wi_witnesses w)" and "list_all (child_ok B) (wi_children w)"
    and "length (input_deps w) \<le> MAX_DEPS" and "generic_count (input_deps w) \<le> MAX_GENERIC_STARKS"
  shows "list_all canonical_dep (input_deps w) \<and> deps_ok (input_deps w)"
proof -
  have "list_all canonical_dep (input_deps w)"
    using input_deps_attested [OF assms(1,2)] by (auto simp: list_all_iff)
  then show ?thesis
    using assms(3,4) by (simp add: deps_okI input_deps_def)
qed

text \<open>
  C3. A successful run of the aggregate prover parsed its whole input, and its output is the
  envelope of a dependency list that commits to the requested hash and is canonical, sorted
  and within the limits. Every dependency in it was attested by the input, by a witness that
  verifies for its data and key or by the verified aggregate of a child that carries it, and
  none was on the discard list.
\<close>

theorem prove_aggregate_sound:
  assumes "prove_aggregate B leaf_var h input = Some out"
  shows "\<exists>w payload. input = ser_input w \<and> out = envelope (input_deps w) payload
    \<and> length out \<le> MAX_BYTES \<and> commitment B (input_deps w) = h
    \<and> list_all canonical_dep (input_deps w) \<and> deps_ok (input_deps w)
    \<and> (\<forall>d \<in> set (input_deps w). attested B w d \<and> d \<notin> set (wi_discards w))"
proof -
  obtain w payload where w: "input = ser_input w" "out = envelope (input_deps w) payload"
    "length out \<le> MAX_BYTES" "commitment B (input_deps w) = h"
    "list_all (witness_ok B) (wi_witnesses w)" "list_all (child_ok B) (wi_children w)"
    "length (input_deps w) \<le> MAX_DEPS" "generic_count (input_deps w) \<le> MAX_GENERIC_STARKS"
    using prove_aggregate_Some [OF assms] by blast
  then show ?thesis
    using input_deps_ok [OF w(5-8)] input_deps_attested [OF w(5,6)] by blast
qed

text \<open>
  C1. On an honest machine what the aggregate prover outputs for a hash is an aggregate that
  the verifier accepts for that hash, with exactly the dependencies of the input.
\<close>

theorem prove_then_verify:
  assumes honest: "machine_complete B" "claims_lawful B" "serializer_lawful B"
    and run: "prove_aggregate B leaf_var h input = Some out"
  shows "\<exists>w a. input = ser_input w \<and> decode_aggregate_with_hash B out (Some h) = Some a
    \<and> ag_deps a = input_deps w"
proof -
  obtain w payload where w: "input = ser_input w"
    "list_all (witness_ok B) (wi_witnesses w)" "list_all (child_ok B) (wi_children w)"
    "commitment B (input_deps w) = h" "length (input_deps w) \<le> MAX_DEPS"
    "generic_count (input_deps w) \<le> MAX_GENERIC_STARKS"
    "out = envelope (input_deps w) payload" "length out \<le> MAX_BYTES"
    "length payload \<le> MAX_MIXED_GUEST_BYTES"
    and payload: "if input_deps w = [] then payload = []
       else (\<exists>children raw generic node. list_all (decoded_child B) children
          \<and> aggregate_bounded B leaf_var children raw generic (input_deps w) = Some node
          \<and> payload = to_bytes_without_deps B node)"
    using prove_aggregate_Some [OF run] by blast
  note ok = input_deps_ok [OF w(2,3,5,6)]
  show ?thesis
  proof (cases "input_deps w = []")
    case True
    with w ok payload show ?thesis
      by (intro exI [of _ w] exI [of _ "\<lparr>ag_deps = [], ag_proof = None\<rparr>"])
        (auto simp: decode_aggregate_Some)
  next
    case False
    with payload obtain children raw generic node where n: "list_all (decoded_child B) children"
      "aggregate_bounded B leaf_var children raw generic (input_deps w) = Some node"
      "payload = to_bytes_without_deps B node"
      by auto
    have deps: "mp_deps node = input_deps w"
      using n(2) by (rule aggregate_bounded_deps)
    have "list_all (node_ok B) children"
      using n(1) decoded_child_node_ok [OF honest(2)] by (auto simp: list_all_iff)
    then have node: "node_ok B node"
      using aggregate_bounded_node_ok [OF honest(1,2) _ n(2)] by blast
    have "length payload \<le> MAX_PAYLOAD_BYTES"
      using w(9) by (simp add: limit_defs MAX_PAYLOAD_BYTES_def)
    then have decode: "decode_payload B payload = Inr (mp_deferred node, mp_proof node)"
      and pre: "preflight_mixed payload = Some ()"
      using decode_payload_node [OF honest(3) node] n(3) by auto
    have "payload \<noteq> []"
      using pre by (auto simp: preflight_mixed_iff ser_mixed_not_Nil)
    moreover have "check_dependencies (input_deps w) = Inr ()"
      using ok by (simp add: check_dependencies_Inr)
    then have "payload_proof B (input_deps w) payload node"
      using decode pre node deps
      by (cases node) (simp add: payload_proof_def from_bytes_without_deps_def node_ok_def)
    ultimately show ?thesis
      using w ok False
      by (intro exI [of _ w] exI [of _ "\<lparr>ag_deps = input_deps w, ag_proof = Some node\<rparr>"])
        (auto simp: decode_aggregate_Some)
  qed
qed

end
