(* ===== verification/Sample_Machine.thy ===== *)
theory Sample_Machine
  imports Aggregation_Facts
begin

text \<open>
  A concrete machine, small enough to compute with, that has the documented behaviour assumed
  of the external code: the hypotheses of the development can hold together, and its theorems
  apply to runs that produce and verify proofs. Its hash is the length of its input, its
  guest has one instruction, it has one proof, and a signature is valid when it repeats the
  message.
\<close>

definition sample_stream :: "F192 list" where
  "sample_stream = replicate 8 ZERO @ [ONE]"

definition sample_program :: program where
  "sample_program = \<lparr>prog = [Op_Jump 0 0 0], bytecode_hash = [], witness_streams = (\<lambda>_. None),
     min_log_committed = 0\<rparr>"

definition sample_payload :: wire_mixed where
  "sample_payload = \<lparr>wm_points = ([], [], []),
     wm_cpu = \<lparr>wc_stream = concat (map (\<lambda>v. le64 (c0 v) @ le64 (c1 v) @ le64 (c2 v)) sample_stream),
       wc_phases = []\<rparr>\<rparr>"

definition sample_hash :: "byte list \<Rightarrow> hash" where
  "sample_hash bytes = le_bytes 32 (length bytes)"

definition sample_claim :: "unit deferred_claim" where
  "sample_claim = \<lparr>bytecode_point = [], bytecode_value = F192 7 0 0, matrices = ((), ())\<rparr>"

definition sample ::
  "(byte list, byte list, F192 list, unit, unit, unit) backend" where
  "sample = \<lparr>
     keccak256 = sample_hash,
     hasher = sample_hash,
     r1cs_digests = ([], []),
     bytecode_table = (\<lambda>_. [7]),
     g_pow = of_nat,
     lane_hash = (\<lambda>_. (ZERO, ZERO)),
     pack_16_bytes = (\<lambda>_. ZERO),
     pack_hash_state = public_input,
     pk_size = 32,
     sig_size = 32,
     pk_from_bytes = (\<lambda>bytes. bytes),
     pk_flatten = (\<lambda>pk. pk),
     sig_from_bytes = (\<lambda>bytes. bytes),
     sphincs_verify = (\<lambda>pk h sig. sig = h),
     sphincs_signer_cells = (\<lambda>_ _. []),
     sphincs_hints = (\<lambda>_ _ _. Inr []),
     stream_cap = 100,
     min_mu = 0,
     proof_stream = (\<lambda>pf. pf),
     cpu_layout = (\<lambda>_ _ _ _. \<lparr>shape_mu = 0, push_mu = 0, pull_mu = 0, count_mu = 0\<rparr>),
     cpu_deserialize = (\<lambda>bytes. if bytes = [] then None else Some sample_stream),
     cpu_serialize = (\<lambda>_. [0]),
     cpu_verify = (\<lambda>p pi pf. if pf = sample_stream then Inr () else Inl ''proof''),
     cpu_prove = (\<lambda>p pi rate. Inr sample_stream),
     compile_guest = (\<lambda>_. sample_program),
     mixed_serialize = (\<lambda>_. ser_mixed sample_payload),
     mixed_deserialize = (\<lambda>bytes. if bytes = ser_mixed sample_payload
       then Some ([], ([], []), sample_stream) else None),
     n_bytecode_selectors = 0,
     k_log = (\<lambda>_. 0),
     mle_eval = (\<lambda>_ _. ZERO),
     matrix_at = (\<lambda>_ _. Inr ()),
     matrix_values = (\<lambda>_. (ZERO, ZERO)),
     matrix_points = (\<lambda>_. ([], [])),
     deferred_cells = (\<lambda>_. []),
     gen_verify = (\<lambda>_ _ _ _. Inr ([], \<lparr>bytecode_row_point = [], bytecode_selector_point = [],
       sub_bytecode_value = ZERO, sub_rest = ()\<rparr>)),
     aggregate_claims = (\<lambda>_ _ _ _. ([], sample_claim)),
     max_recursions = 16,
     compile_source = (\<lambda>_. Some sample_program),
     install_hints = (\<lambda>_ p. p)\<rparr>"

text \<open>The fields, one by one.\<close>

lemma sample_fields [simp]:
  "keccak256 sample = sample_hash" "pk_size sample = 32" "sig_size sample = 32"
  "pk_from_bytes sample bs = bs" "pk_flatten sample bs = bs" "sig_from_bytes sample bs = bs"
  "sphincs_verify sample pk h sig \<longleftrightarrow> sig = h" "sphincs_hints sample h pk sig = Inr []"
  "stream_cap sample = 100" "min_mu sample = 0" "proof_stream sample pf = pf"
  "cpu_layout sample ops n ns pi = \<lparr>shape_mu = 0, push_mu = 0, pull_mu = 0, count_mu = 0\<rparr>"
  "cpu_verify sample p pi pf = (if pf = sample_stream then Inr () else Inl ''proof'')"
  "cpu_prove sample p pi rate = Inr sample_stream" "compile_guest sample n = sample_program"
  "mixed_serialize sample x = ser_mixed sample_payload"
  "mixed_deserialize sample bs = (if bs = ser_mixed sample_payload
     then Some ([], ([], []), sample_stream) else None)"
  "n_bytecode_selectors sample = 0" "k_log sample c = 0" "matrix_at sample c xs = Inr ()"
  "matrix_points sample d = ([], [])" "aggregate_claims sample fs cs tb n = ([], sample_claim)"
  "bytecode_table sample ops = [7]" "install_hints sample hs p = p" "max_recursions sample = 16"
  by (simp_all add: sample_def)

lemma sample_claim_fields [simp]: "bytecode_point sample_claim = []"
  by (simp add: sample_claim_def)

lemma sample_guest: "unified_guest sample = sample_program"
  by (simp add: unified_guest_def unified_guest_result_def numeral_eq_Suc Let_def
      sample_program_def trailing_zeros.simps)

lemma sample_vars: "mixed_vars sample = 0" "mixed_table sample = [7]"
  by (simp_all add: mixed_vars_def mixed_table_def sample_guest)
    (simp_all add: sample_program_def trailing_zeros.simps)

lemma sample_supported: "recursion_supported sample p sample_stream"
  by (simp add: recursion_supported_def recursion_supported_with_bounds_def
      sample_stream_def N_TABLES_def ZERO_def ONE_def LOG_INV_RATE_def numeral_eq_Suc)

lemma sample_deferred:
  "mixed_deferred sample points mats = Inr d \<longleftrightarrow> points = [] \<and> mats = ([], []) \<and> d = sample_claim"
  by (cases mats) (auto simp: mixed_deferred_def sample_vars Let_def sample_claim_def
      map_err_def)

lemma sample_claim_wf: "claim_wf sample d \<longleftrightarrow> d = sample_claim"
  by (auto simp: claim_wf_def sample_deferred)

lemma sample_machine_complete: "machine_complete sample"
  by (simp add: machine_complete_def)

lemma sample_claims_lawful: "claims_lawful sample"
  by (simp add: claims_lawful_def sample_deferred sample_claim_wf)

lemma length_sample_cells: "length (concat (map (\<lambda>v. le64 (c0 v) @ le64 (c1 v) @ le64 (c2 v)) xs))
    = 24 * length xs"
  by (induction xs) auto

lemma sample_payload_ok: "pl_ok 100 sample_payload"
  using length_sample_cells [of sample_stream]
  by (simp add: pl_ok_def sample_payload_def vec_ok_def) (simp add: sample_stream_def)

lemma sample_serializer_lawful: "serializer_lawful sample"
  unfolding serializer_lawful_def Let_def
  using sample_payload_ok by (auto simp: sample_claim_wf split: if_splits)

text \<open>A signed claim, its witness and the prover's input for it.\<close>

definition sample_data :: hash where "sample_data = replicate 32 5"
definition sample_dep :: dep where "sample_dep = dep_of 0x10 sample_data (sample_hash (replicate 32 1))"
definition sample_witness :: "byte list" where "sample_witness = replicate 32 1 @ sample_data"

definition sample_input :: wire_input where
  "sample_input = \<lparr>wi_witnesses = [(sample_dep, sample_witness)], wi_children = [], wi_discards = []\<rparr>"

definition sample_node :: "(unit, F192 list) mixed_proof" where
  "sample_node = \<lparr>mp_deps = [sample_dep], mp_deferred = sample_claim, mp_proof = sample_stream\<rparr>"

lemma sample_dep_ok: "canonical_dep sample_dep" "scheme sample_dep = 0x10"
  "take 32 (drop 32 sample_dep) = sample_data"
  "take 32 (drop 64 sample_dep) = sample_hash (replicate 32 1)"
  by (simp_all add: sample_dep_def dep_of_def canonical_dep_def scheme_def nth_append
      sample_data_def sample_hash_def)

lemma sample_deps_ok: "deps_ok [sample_dep]"
  using sample_dep_ok by (simp add: deps_ok_def canonical_dep_iff limit_defs generic_count_def)

lemma sample_sph_dep: "sph_dep sample (replicate 32 1) sample_data = sample_dep"
  by (simp add: sph_dep_def sample_dep_def)

lemma sample_prepare:
  "\<exists>st. rfold (prep_raw sample sel) [(pk, data, sig)] st0 = Inr st \<and> pr_fresh st = pr_fresh st0"
  by (simp add: prep_raw_def map_err_def Let_def prep_select_def prep_push_def split: prod.split)

lemma sample_aggregate:
  "aggregate_mixed sample [] [(replicate 32 1, sample_data, sample_data)] [] [sample_dep] 1
     = Inr sample_node"
proof -
  let ?raw = "[(replicate 32 1, sample_data, sample_data)]"
  let ?st0 = "\<lparr>pr_hints = initial_hints sample [sample_dep] 1 0 0 sample_claim,
    pr_seen = [], pr_fresh = [], pr_carried = []\<rparr>"
  obtain st where st: "rfold (prep_raw sample [sample_dep]) ?raw ?st0 = Inr st" "pr_fresh st = []"
    using sample_prepare [of "[sample_dep]" "replicate 32 1" sample_data sample_data ?st0] by auto
  have check: "check_dependencies [sample_dep] = Inr ()"
    using sample_deps_ok by (simp add: check_dependencies_Inr)
  have leaf: "mixed_deferred sample [] ([], []) = Inr sample_claim"
    by (simp add: sample_deferred)
  note cap = input_capacity_ok_def LOG_INV_RATE_def MAX_RAW_SPHINCS_def
  have avail: "available_claims sample [] ?raw [] = Inr [sample_dep]"
    by (simp add: available_claims_def child_claims_def generic_claims_def sample_sph_dep)
  obtain pi where "prepare_mixed sample [] ?raw [] [sample_dep] 1 = Inr (sample_program, sample_claim, pi)"
    using st check leaf avail
    by (auto simp: prepare_mixed_def prepare_mixed_with_hints_def sample_vars sample_guest cap
        simp del: rfold.simps(2))
  moreover have "length (ser_mixed sample_payload) \<le> MAX_PAYLOAD_BYTES"
    using length_sample_cells [of sample_stream]
    by (simp add: ser_mixed_def sample_payload_def ser_cpu_def MAX_PAYLOAD_BYTES_def)
      (simp add: sample_stream_def)
  ultimately show ?thesis
    by (simp add: aggregate_mixed_Inr sample_guest sample_supported sample_node_def
        to_bytes_without_deps_def)
qed

definition sample_hash_of_deps :: hash where
  "sample_hash_of_deps = commitment sample [sample_dep]"

definition sample_output :: "byte list" where
  "sample_output = envelope [sample_dep] (ser_mixed sample_payload)"

lemma sample_parse: "parse_sphincs sample sample_data (sample_hash (replicate 32 1)) sample_witness
    = Some (replicate 32 1, sample_data)"
  by (simp add: parse_sphincs_Some sample_witness_def) (simp add: sample_data_def)

lemma sample_leaf: "raw_leaf sample [(sample_dep, replicate 32 1, sample_data, sample_data)]
    = Some sample_node"
  using sample_aggregate by (simp add: raw_leaf_def btree_vec_def result_ok_def)

lemma one_leaf: "raw_signatures_per_leaf (Some ''1'') = Some 1"
  by (simp add: raw_signatures_per_leaf_def parse_usize_def MAX_RAW_SPHINCS_def of_char_def)

lemma chunks_one: "chunks (Suc 0) [x] = [[x]]"
  by (simp add: chunks_Cons)

lemma sample_bounded:
  "aggregate_bounded sample (Some ''1'') [] [(sample_dep, replicate 32 1, sample_data, sample_data)] []
     [sample_dep] = Some sample_node"
  using sample_leaf one_leaf
  by (simp add: aggregate_bounded_def find_node_def chunks_one merge_nodes.simps [of _ _ "[sample_node]"]
      btree_vec_def) (simp add: sample_node_def)

lemma sample_input_deps: "input_deps sample_input = [sample_dep]"
  by (simp add: input_deps_def sample_input_def btree_vec_def)

lemma sample_dep_not_discarded: "rd_deps (put_deps [] []) = Some ([], [])"
  using dependencies.roundtrip [of "[]" "[]"] by simp

lemma sample_run:
  "prove_aggregate sample (Some ''1'') sample_hash_of_deps (ser_input sample_input)
     = Some sample_output"
proof -
  let ?rest = "le_bytes 4 0 @ put_deps [] []"
  let ?ws = "\<lparr>ws_all = [sample_dep],
    ws_raw = [(sample_dep, replicate 32 1, sample_data, sample_data)], ws_generic = []\<rparr>"
  have w: "length sample_witness = 64"
    by (simp add: sample_witness_def sample_data_def)
  have len: "length (ser_input sample_input) = 176"
    using sample_dep_ok(1)
    by (simp add: ser_input_def sample_input_def ser_witness_def put_blob_def put_number_def
        put_deps_eq w canonical_dep_def)
  have input: "ser_input sample_input = le_bytes 4 1 @ sample_dep @ put_blob [] sample_witness @ ?rest"
    by (simp add: ser_input_def sample_input_def ser_witness_def)
  have "length (ser_input sample_input) \<noteq> length (replicate 12 (0 :: byte))"
    by (simp add: len)
  then have ne: "ser_input sample_input \<noteq> replicate 12 0" by metis
  have "rd_count (ser_input sample_input) = Some (1, sample_dep @ put_blob [] sample_witness @ ?rest)"
    by (simp add: input rd_count_Some MAX_DEPS_def MAX_DEPENDENCIES_def)
  moreover have "rd_dep (sample_dep @ put_blob [] sample_witness @ ?rest)
      = Some (sample_dep, put_blob [] sample_witness @ ?rest)"
    using sample_dep_ok(1) by (rule dependency.roundtrip)
  moreover have "rd_blob (put_blob [] sample_witness @ ?rest) = Some (sample_witness, ?rest)"
    by (rule blob.roundtrip) (simp add: w MAX_BYTES_def)
  ultimately have read: "rd_count (ser_input sample_input)
      = Some (1, sample_dep @ put_blob [] sample_witness @ ?rest)"
    "read_witness sample (\<lparr>ws_all = [], ws_raw = [], ws_generic = []\<rparr>,
       sample_dep @ put_blob [] sample_witness @ ?rest) = Some (?ws, ?rest)"
    using sample_dep_ok sample_parse by (simp_all add: read_witness_def)
  have none: "rd_count ?rest = Some (0, put_deps [] [])"
    by (simp add: rd_count_Some)
  have size: "length (ser_mixed sample_payload) = 256"
    using length_sample_cells [of sample_stream]
    by (simp add: ser_mixed_def sample_payload_def ser_cpu_def) (simp add: sample_stream_def)
  have out: "length (ser_mixed sample_payload) \<le> MAX_MIXED_GUEST_BYTES"
    "length (envelope [sample_dep] (ser_mixed sample_payload)) \<le> MAX_BYTES"
    using sample_dep_ok(1)
    by (simp_all add: size limit_defs envelope_def put_blob_def put_number_def put_deps_eq
        canonical_dep_def)
  have "generic_count [sample_dep] = 0"
    using sample_dep_ok(2) by (simp add: generic_count_def)
  then show ?thesis
    using ne len read none sample_dep_not_discarded sample_bounded out
    by (simp add: prove_aggregate_def MAX_INPUT_BYTES_def rd_end_def sample_hash_of_deps_def
        btree_vec_def to_bytes_without_deps_def sample_output_def envelope_def MAX_DEPS_def
        MAX_DEPENDENCIES_def)
qed

end
