(* ===== verification/Abi.thy ===== *)
theory Abi
  imports Aggregation_Facts
begin

text \<open>
  The C interface of the native library (\<open>checked\<close>, \<open>bytes\<close>, \<open>nlean_*\<close> of
  \<open>adaptive/native/ffi/src/lib.rs\<close>) and the pipe worker that calls it (\<open>adaptive/worker.rs\<close>).

  The state is the part of the process the interface touches: the thread-local flag and the
  call counter of the panic hook, the two once-cells, the caller's memory and the live
  allocations handed out. Addresses are numbers, 0 is null. Reads and writes go where the
  caller's contract says its pointers reach.
\<close>

section \<open>State and memory\<close>

record abi =
  in_abi :: "nat \<Rightarrow> bool"
  active_calls :: nat
  hook_set :: bool
  abi_workers :: "nat list option"
  memory :: "nat \<Rightarrow> byte"
  allocations :: "nat \<rightharpoonup> nat"

definition load :: "abi \<Rightarrow> nat \<Rightarrow> nat \<Rightarrow> byte list" where
  "load st p n = map (memory st) [p..<p + n]"

definition store :: "nat \<Rightarrow> byte list \<Rightarrow> abi \<Rightarrow> abi" where
  "store p bs st = st\<lparr>memory := (\<lambda>a. if p \<le> a \<and> a < p + length bs then bs ! (a - p) else memory st a)\<rparr>"

text \<open>\<open>from_raw_parts\<close> behind the length and null checks.\<close>

definition bytes_with_limit :: "abi \<Rightarrow> nat \<Rightarrow> nat \<Rightarrow> nat \<Rightarrow> byte list option" where
  "bytes_with_limit st ptr len limit =
     (if len > limit \<or> (ptr = 0 \<and> len \<noteq> 0) then None
      else if len = 0 then Some [] else Some (load st ptr len))"

definition abi_bytes :: "abi \<Rightarrow> nat \<Rightarrow> nat \<Rightarrow> byte list option" where
  "abi_bytes st ptr len = bytes_with_limit st ptr len MAX_BYTES"

section \<open>Guarded calls\<close>

text \<open>A closure ends in a panic, in \<open>Err(())\<close> or in \<open>Ok(b)\<close>.\<close>

datatype call = Panicked | Errored | Returned bool

definition call_code :: "call \<Rightarrow> int" where
  "call_code r = (case r of Returned True \<Rightarrow> 1 | _ \<Rightarrow> 0)"

text \<open>The panic hook: a panic is passed on to the previous hook unless its thread is inside a
  guarded call or is a worker of the pool while one is active.\<close>

definition hook_reports :: "abi \<Rightarrow> nat \<Rightarrow> bool" where
  "hook_reports st thread \<longleftrightarrow>
     \<not> in_abi st thread
     \<and> \<not> (active_calls st \<noteq> 0
          \<and> (case abi_workers st of None \<Rightarrow> False | Some ws \<Rightarrow> thread \<in> set ws))"

text \<open>\<open>checked\<close>: the flag of the calling thread is replaced and the counter raised, the hook
  and the worker list are initialised once, the closure runs, and the drop of \<open>CallGuard\<close>
  undoes the first two, whether the closure returned or unwound. \<open>pool\<close> is the list of the
  pool's other threads that the barrier collects.\<close>

definition enter_call :: "nat list \<Rightarrow> nat \<Rightarrow> abi \<Rightarrow> abi" where
  "enter_call pool thread st =
     st\<lparr>in_abi := (in_abi st)(thread := True),
        active_calls := active_calls st + 1,
        hook_set := True,
        abi_workers := (case abi_workers st of
            None \<Rightarrow> Some (filter (\<lambda>t. t \<noteq> thread) pool)
          | Some ws \<Rightarrow> Some ws)\<rparr>"

definition leave_call :: "bool \<Rightarrow> nat \<Rightarrow> abi \<Rightarrow> abi" where
  "leave_call flag thread st =
     st\<lparr>active_calls := active_calls st - 1, in_abi := (in_abi st)(thread := flag)\<rparr>"

definition checked :: "nat list \<Rightarrow> nat \<Rightarrow> (abi \<Rightarrow> call \<times> abi) \<Rightarrow> abi \<Rightarrow> int \<times> abi" where
  "checked pool thread f st =
     (let flag = in_abi st thread;
          (r, st) = f (enter_call pool thread st)
      in (call_code r, leave_call flag thread st))"

text \<open>The \<open>?\<close> of a closure that does not change the state.\<close>

definition attempt :: "'a option \<Rightarrow> ('a \<Rightarrow> abi \<Rightarrow> call \<times> abi) \<Rightarrow> abi \<Rightarrow> call \<times> abi" where
  "attempt m k st = (case m of None \<Rightarrow> (Errored, st) | Some x \<Rightarrow> k x st)"

section \<open>The exported functions\<close>

definition nlean_abi_version :: nat where "nlean_abi_version = 5"

definition abi_limits :: "('pk, 'sg, 'pf, 'vs, 'mc, 's) backend \<Rightarrow> nat list" where
  "abi_limits B = [MAX_BYTES, MAX_DEPS, max_recursions B, pk_size B + sig_size B,
     MAX_GENERIC_STARKS, MAX_INSTRUCTIONS, MAX_OPERAND, MAX_INPUT_BYTES, MAX_MIXED_GUEST_BYTES]"

definition nlean_limits ::
  "('pk, 'sg, 'pf, 'vs, 'mc, 's) backend \<Rightarrow> nat \<Rightarrow> nat \<Rightarrow> abi \<Rightarrow> int \<times> abi" where
  "nlean_limits B out len st =
     (if out = 0 \<or> len \<noteq> 9 then (0, st)
      else (1, store out (concat (map (\<lambda>n. le_bytes 4 (n mod 2 ^ 32)) (abi_limits B))) st))"

text \<open>The key of the guest; a guest that does not converge panics here.\<close>

definition aggregated_vk :: "('pk, 'sg, 'pf, 'vs, 'mc, 's) backend \<Rightarrow> hash option" where
  "aggregated_vk B = (if unified_guest_result B = None then None else Some (mixed_guest_key B))"

definition nlean_aggregated_vk ::
  "('pk, 'sg, 'pf, 'vs, 'mc, 's) backend \<Rightarrow> nat list \<Rightarrow> nat \<Rightarrow> nat \<Rightarrow> abi \<Rightarrow> int \<times> abi" where
  "nlean_aggregated_vk B pool thread out st =
     (if out = 0 then (0, st)
      else checked pool thread (\<lambda>st. case aggregated_vk B of
          None \<Rightarrow> (Panicked, st)
        | Some key \<Rightarrow> (Returned True, store out key st)) st)"

definition nlean_verify_leansphincs ::
  "('pk, 'sg, 'pf, 'vs, 'mc, 's) backend \<Rightarrow> nat list \<Rightarrow> nat \<Rightarrow> nat \<Rightarrow> nat \<Rightarrow> nat \<Rightarrow> nat
     \<Rightarrow> abi \<Rightarrow> int \<times> abi" where
  "nlean_verify_leansphincs B pool thread data vk witness len = checked pool thread (\<lambda>st.
     attempt (abi_bytes st data 32) (\<lambda>data.
     attempt (abi_bytes st vk 32) (\<lambda>vk.
     attempt (abi_bytes st witness len) (\<lambda>witness st.
       (Returned (verify_sphincs B data vk witness), st)))) st)"

definition nlean_verify_leanstark ::
  "('pk, 'sg, 'pf, 'vs, 'mc, 's) backend \<Rightarrow> nat list \<Rightarrow> nat \<Rightarrow> nat \<Rightarrow> nat \<Rightarrow> nat \<Rightarrow> nat
     \<Rightarrow> abi \<Rightarrow> int \<times> abi" where
  "nlean_verify_leanstark B pool thread data vk witness len = checked pool thread (\<lambda>st.
     attempt (abi_bytes st data 32) (\<lambda>data.
     attempt (abi_bytes st vk 32) (\<lambda>vk.
     attempt (abi_bytes st witness len) (\<lambda>witness st.
       (Returned (verify_stark B data vk witness), st)))) st)"

definition nlean_verify_recursive ::
  "('pk, 'sg, 'pf, 'vs, 'mc, 's) backend \<Rightarrow> nat list \<Rightarrow> nat \<Rightarrow> nat \<Rightarrow> nat \<Rightarrow> nat \<Rightarrow> nat \<Rightarrow> nat
     \<Rightarrow> abi \<Rightarrow> int \<times> abi" where
  "nlean_verify_recursive B pool thread hash vk vk_len proof_ptr len = checked pool thread (\<lambda>st.
     attempt (abi_bytes st vk vk_len) (\<lambda>vk st.
     case aggregated_vk B of None \<Rightarrow> (Panicked, st) | Some key \<Rightarrow>
     if vk \<noteq> key then (Returned False, st)
     else
       attempt (abi_bytes st hash 32) (\<lambda>expected.
       attempt (abi_bytes st proof_ptr len) (\<lambda>bytes.
       attempt (decode_aggregate_with_hash B bytes (Some expected)) (\<lambda>_ st.
         (Returned True, st)))) st) st)"

text \<open>\<open>alloc\<close> is the allocator's choice for a buffer of a given length; the caller's two output
  words receive the address and the length.\<close>

definition nlean_prove_recursive ::
  "('pk, 'sg, 'pf, 'vs, 'mc, 's) backend \<Rightarrow> string option \<Rightarrow> (abi \<Rightarrow> nat \<Rightarrow> nat) \<Rightarrow> nat list \<Rightarrow> nat
     \<Rightarrow> nat \<Rightarrow> nat \<Rightarrow> nat \<Rightarrow> nat \<Rightarrow> nat \<Rightarrow> nat \<Rightarrow> nat \<Rightarrow> abi \<Rightarrow> int \<times> abi" where
  "nlean_prove_recursive B leaf_var alloc pool thread hash vk vk_len input input_len out out_len =
     checked pool thread (\<lambda>st.
       if out = 0 \<or> out_len = 0 then (Returned False, st)
       else attempt (abi_bytes st vk vk_len) (\<lambda>vk st.
         case aggregated_vk B of None \<Rightarrow> (Panicked, st) | Some key \<Rightarrow>
         if vk \<noteq> key then (Returned False, st)
         else
           attempt (abi_bytes st hash 32) (\<lambda>hash.
           attempt (bytes_with_limit st input input_len MAX_INPUT_BYTES) (\<lambda>input.
           attempt (prove_aggregate B leaf_var hash input) (\<lambda>bytes st.
             (let len = length bytes; ptr = alloc st len;
                  st = (store ptr bytes st)\<lparr>allocations := (allocations st)(ptr \<mapsto> len)\<rparr>;
                  st = store out (le_bytes 8 ptr) st;
                  st = store out_len (le_bytes 8 len) st
              in (Returned True, st))))) st) st)"

text \<open>The contract: null, or exactly one live allocation with its length.\<close>

definition nlean_free :: "nat \<Rightarrow> nat \<Rightarrow> abi \<Rightarrow> abi" where
  "nlean_free ptr len st =
     (if ptr \<noteq> 0 then st\<lparr>allocations := (allocations st)(ptr := None)\<rparr> else st)"

section \<open>The worker\<close>

text \<open>The worker's result of one request: what the call left in its buffer if it succeeded with
  a proof of an admissible size. The key is always 32 bytes and no pointer is null.\<close>

definition WORKER_MAX_INPUT :: nat where "WORKER_MAX_INPUT = 18 * 1024 * 1024"
definition WORKER_MAX_PROOF :: nat where "WORKER_MAX_PROOF = 8 * 1024 * 1024"

definition worker_call ::
  "('pk, 'sg, 'pf, 'vs, 'mc, 's) backend \<Rightarrow> string option \<Rightarrow> hash \<Rightarrow> hash \<Rightarrow> byte list
     \<Rightarrow> byte list option" where
  "worker_call B leaf_var hash key request =
     (if aggregated_vk B \<noteq> Some key then None
      else case prove_aggregate B leaf_var hash request of
          None \<Rightarrow> None
        | Some bytes \<Rightarrow>
            if 0 < length bytes \<and> length bytes \<le> WORKER_MAX_PROOF then Some bytes else None)"

definition worker_response :: "byte list option \<Rightarrow> byte list" where
  "worker_response r = (case r of
       None \<Rightarrow> 0 # le_bytes 4 0
     | Some bytes \<Rightarrow> 1 # le_bytes 4 (length bytes mod 2 ^ 32) @ bytes)"

text \<open>The request loop over the remaining standard input: the output written, and whether the
  loop ended in \<open>Ok\<close>. End of file inside the length word ends the loop like end of file
  before it, since \<open>read_exact\<close> reports both alike.\<close>

function worker_loop ::
  "(hash \<Rightarrow> hash \<Rightarrow> byte list \<Rightarrow> byte list option) \<Rightarrow> byte list \<Rightarrow> byte list \<times> bool" where
  "worker_loop prove stdin =
     (if length stdin < 4 then ([], True)
      else
        (let len = le_nat (take 4 stdin); rest = drop 4 stdin
         in if len > WORKER_MAX_INPUT \<or> length rest < 64 + len then ([], False)
            else
              (case worker_loop prove (drop (64 + len) rest) of
                 (out, ok) \<Rightarrow>
                   (worker_response (prove (take 32 rest) (take 32 (drop 32 rest))
                      (take len (drop 64 rest))) @ out, ok))))"
  by pat_completeness auto
termination
  by (relation "measure (\<lambda>(_, stdin). length stdin)") auto

declare worker_loop.simps [simp del]

section \<open>Guarded calls restore their state\<close>

lemma call_code_1 [simp]: "call_code r = 1 \<longleftrightarrow> r = Returned True"
  by (simp add: call_code_def split: call.splits bool.splits)

lemma call_code_range: "call_code r = 0 \<or> call_code r = 1"
  by (simp add: call_code_def split: call.splits bool.splits)


section \<open>Memory\<close>

lemma load_cong:
  assumes "\<And>a. p \<le> a \<Longrightarrow> a < p + n \<Longrightarrow> memory st a = memory st' a"
  shows "load st p n = load st' p n"
  using assms by (simp add: load_def)

lemma load_store [simp]: "load (store p bs st) p (length bs) = bs"
  by (rule nth_equalityI) (simp_all add: load_def store_def)

lemma load_store_other: "p + n \<le> q \<or> q + length bs \<le> p \<Longrightarrow> load (store q bs st) p n = load st p n"
  by (rule load_cong) (auto simp: store_def)

lemma load_update [simp]:
  "load (st\<lparr>allocations := x\<rparr>) p n = load st p n" "load (st\<lparr>in_abi := f\<rparr>) p n = load st p n"
  "load (st\<lparr>active_calls := k\<rparr>) p n = load st p n" "load (st\<lparr>hook_set := b\<rparr>) p n = load st p n"
  "load (st\<lparr>abi_workers := w\<rparr>) p n = load st p n"
  by (simp_all add: load_def)

lemma load_enter [simp]: "load (enter_call pool thread st) p n = load st p n"
  by (simp add: load_def enter_call_def)

lemma load_leave [simp]: "load (leave_call flag thread st) p n = load st p n"
  by (simp add: load_def leave_call_def)

lemma bytes_enter [simp]:
  "bytes_with_limit (enter_call pool thread st) p n l = bytes_with_limit st p n l"
  "abi_bytes (enter_call pool thread st) p n = abi_bytes st p n"
  by (simp_all add: bytes_with_limit_def abi_bytes_def)

lemma store_fields [simp]:
  "allocations (store p bs st) = allocations st" "active_calls (store p bs st) = active_calls st"
  "in_abi (store p bs st) = in_abi st"
  by (simp_all add: store_def)

lemma enter_fields [simp]:
  "allocations (enter_call pool thread st) = allocations st"
  "memory (enter_call pool thread st) = memory st"
  by (simp_all add: enter_call_def)

lemma leave_fields [simp]:
  "allocations (leave_call flag thread st) = allocations st"
  "memory (leave_call flag thread st) = memory st"
  by (simp_all add: leave_call_def)

lemma checked_eq: "f (enter_call pool thread st) = (r, st1)
    \<Longrightarrow> checked pool thread f st = (call_code r, leave_call (in_abi st thread) thread st1)"
  by (simp add: checked_def Let_def)

section \<open>The exported verifier and prover\<close>

lemma attempt_fst: "fst (attempt m k st) = Returned True
    \<longleftrightarrow> (\<exists>x. m = Some x \<and> fst (k x st) = Returned True)"
  by (cases m) (simp_all add: attempt_def)

lemma checked_fst: "fst (checked pool thread f st) = 1
    \<longleftrightarrow> fst (f (enter_call pool thread st)) = Returned True"
  by (simp add: checked_def Let_def split: prod.split)

text \<open>
  C10. The exported aggregate verifier returns 1 exactly when the caller's key is the guest's
  key and the proof bytes are an aggregate that the verifier accepts for the 32-byte hash;
  any other outcome, null pointers and oversized buffers included, returns 0.
\<close>

theorem nlean_verify_recursive_iff:
  "fst (nlean_verify_recursive B pool thread hash vk vk_len proof_ptr len st) = 1 \<longleftrightarrow>
    (\<exists>key h bytes a. abi_bytes st vk vk_len = Some key \<and> aggregated_vk B = Some key
      \<and> abi_bytes st hash 32 = Some h \<and> abi_bytes st proof_ptr len = Some bytes
      \<and> decode_aggregate_with_hash B bytes (Some h) = Some a)"
  unfolding nlean_verify_recursive_def checked_fst attempt_fst
  by (auto simp: attempt_fst attempt_def split: option.splits)


section \<open>The worker answers every request\<close>

definition ser_request :: "hash \<times> hash \<times> byte list \<Rightarrow> byte list" where
  "ser_request q = (case q of (h, key, request) \<Rightarrow> le_bytes 4 (length request) @ h @ key @ request)"

definition request_ok :: "hash \<times> hash \<times> byte list \<Rightarrow> bool" where
  "request_ok q \<longleftrightarrow> (case q of (h, key, request) \<Rightarrow>
     length h = 32 \<and> length key = 32 \<and> length request \<le> WORKER_MAX_INPUT)"

lemma worker_loop_request:
  assumes "request_ok (h, key, request)"
  shows "worker_loop prove (ser_request (h, key, request) @ rest)
    = (worker_response (prove h key request) @ fst (worker_loop prove rest),
       snd (worker_loop prove rest))"
proof -
  have "le_nat (le_bytes 4 (length request)) = length request"
    using assms by (simp add: request_ok_def WORKER_MAX_INPUT_def)
  then show ?thesis
    using assms
    by (subst worker_loop.simps)
      (simp add: ser_request_def request_ok_def Let_def split: prod.split)
qed

text \<open>
  The worker answers a stream of well-formed requests one by one and in order, each from
  its own hash, key and body only, and stops with success at the end of the stream; a request
  beyond the input bound ends the loop with an error after the answers to those before it.
\<close>

theorem worker_answers_in_order:
  assumes "list_all request_ok qs" and "length tail < 4 \<or> WORKER_MAX_INPUT < le_nat (take 4 tail)"
  shows "worker_loop prove (concat (map ser_request qs) @ tail)
    = (concat (map (\<lambda>(h, key, request). worker_response (prove h key request)) qs), length tail < 4)"
  using assms
proof (induction qs)
  case Nil
  then show ?case by (subst worker_loop.simps) (auto simp: Let_def)
next
  case (Cons q qs)
  obtain h key request where "q = (h, key, request)" by (cases q)
  with Cons show ?case by (simp add: worker_loop_request)
qed

end
