(* ===== verification/Library_Witnesses.thy ===== *)
theory Library_Witnesses
  imports Sample_Machine Abi
begin

text \<open>
  The theorems about the mixed profile, the aggregation library and its C interface, applied
  to runs of the concrete machine of \<open>Sample_Machine\<close>.
\<close>

section \<open>The mixed profile\<close>

lemma sample_stream_length: "length (wc_stream (wm_cpu sample_payload)) = 216"
  using length_sample_cells [of sample_stream]
  by (simp add: sample_payload_def) (simp add: sample_stream_def)

lemma sample_payload_length: "length (ser_mixed sample_payload) = 256"
  using sample_stream_length
  by (simp add: ser_mixed_def ser_cpu_def sample_payload_def)

lemma sample_mixed_ok: "mixed_ok sample_payload"
  using sample_payload_ok pl_ok_iff [of sample_payload 100] by (simp add: sample_payload_length limit_defs)

lemma preflight_passes_agree_witness:
  "preflight_payload sample (ser_mixed sample_payload) = Inr ()
   \<and> preflight_mixed (ser_mixed sample_payload) = Some ()"
proof -
  have "length (ser_mixed sample_payload) \<le> MAX_BYTES" "stream_cap sample < 2 ^ 64"
    by (simp_all add: sample_payload_length limit_defs)
  moreover have "preflight_mixed (ser_mixed sample_payload) = Some ()"
    using preflight_within [of "ser_mixed sample_payload"] sample_mixed_ok
    by (auto simp: sample_payload_length limit_defs)
  moreover have "length (wc_stream (wm_cpu sample_payload)) div 24 \<le> stream_cap sample"
    by (simp add: sample_stream_length)
  ultimately show ?thesis
    using preflight_passes_agree [of "ser_mixed sample_payload" sample] sample_mixed_ok by blast
qed

lemma selection_covers_once_witness:
  "\<exists>indices. fst (fold (push_selection sample [sample_dep]) [sample_dep, sample_dep] ([], []))
      = map (selection_entry sample) indices
    \<and> length indices = 2 \<and> mset (List.map_filter id indices) = {#0#}"
  using selection_covers_once [of "[sample_dep]" "[sample_dep, sample_dep]" sample "[]"] sample_deps_ok
  by (auto simp del: fold_simps)

lemma aggregate_mixed_sound_witness:
  "mp_deps sample_node = [sample_dep]
   \<and> supports sample [] [(replicate 32 1, sample_data, sample_data)] [] sample_dep
   \<and> recursion_supported sample (unified_guest sample) (mp_proof sample_node)"
  using aggregate_mixed_sound [OF sample_aggregate] by simp

lemma aggregate_mixed_verifies_witness:
  "verify_mixed_deps sample (dependency_hash sample [sample_dep])
     (to_bytes_without_deps sample sample_node) = Inr ()"
  using aggregate_mixed_verifies [OF sample_machine_complete sample_claims_lawful
      sample_serializer_lawful sample_aggregate] by blast

section \<open>The aggregation library\<close>

definition sample_decoded :: "(unit, F192 list) aggregate" where
  "sample_decoded = \<lparr>ag_deps = [sample_dep], ag_proof = Some sample_node\<rparr>"

lemma sample_decode:
  "decode_aggregate_with_hash sample sample_output (Some sample_hash_of_deps) = Some sample_decoded"
proof -
  have pre: "preflight_mixed (ser_mixed sample_payload) = Some ()"
    using preflight_within [of "ser_mixed sample_payload"] sample_mixed_ok
    by (auto simp: sample_payload_length limit_defs)
  have node: "node_ok sample sample_node"
    using aggregate_node_ok [OF sample_machine_complete sample_claims_lawful sample_aggregate]
    by simp
  have bytes: "to_bytes_without_deps sample sample_node = ser_mixed sample_payload"
    by (simp add: to_bytes_without_deps_def)
  have decode: "decode_payload sample (ser_mixed sample_payload)
      = Inr (mp_deferred sample_node, mp_proof sample_node)"
    using decode_payload_node [OF sample_serializer_lawful node]
    by (simp add: bytes sample_payload_length MAX_PAYLOAD_BYTES_def)
  have check: "check_dependencies [sample_dep] = Inr ()"
    using sample_deps_ok by (simp add: check_dependencies_Inr)
  have "payload_proof sample [sample_dep] (ser_mixed sample_payload) sample_node"
    using pre decode node check
    by (simp add: payload_proof_def from_bytes_without_deps_def node_ok_def)
      (simp add: sample_node_def)
  moreover have "length sample_output \<le> MAX_BYTES"
    using sample_dep_ok(1)
    by (simp add: sample_output_def sample_payload_length limit_defs envelope_def put_blob_def
        put_number_def put_deps_eq canonical_dep_def)
  moreover have "ser_mixed sample_payload \<noteq> []"
    using sample_payload_length by auto
  ultimately show ?thesis
    using sample_dep_ok(1) sample_deps_ok
    unfolding decode_aggregate_Some
    by (intro exI [of _ "ser_mixed sample_payload"])
      (simp add: sample_decoded_def sample_output_def sample_hash_of_deps_def
        sample_payload_length limit_defs)
qed

lemma aggregate_binding_witness:
  "\<exists>a. decode_aggregate_with_hash sample sample_output (Some sample_hash_of_deps) = Some a
     \<and> ag_deps a = ag_deps sample_decoded"
  using aggregate_binding [OF sample_decode sample_decode] sample_decode by blast

lemma aggregate_bounded_sound_witness:
  "mp_deps sample_node = [sample_dep]
   \<and> backed sample [] [(sample_dep, replicate 32 1, sample_data, sample_data)] [] sample_dep"
  using aggregate_bounded_sound [OF sample_bounded] by simp

lemma prove_aggregate_sound_witness:
  "\<exists>w payload. ser_input sample_input = ser_input w \<and> sample_output = envelope (input_deps w) payload
     \<and> commitment sample (input_deps w) = sample_hash_of_deps \<and> deps_ok (input_deps w)"
  using prove_aggregate_sound [OF sample_run] by blast

lemma prove_then_verify_witness:
  "\<exists>w a. ser_input sample_input = ser_input w
     \<and> decode_aggregate_with_hash sample sample_output (Some sample_hash_of_deps) = Some a
     \<and> ag_deps a = input_deps w"
  using prove_then_verify [OF sample_machine_complete sample_claims_lawful sample_serializer_lawful
      sample_run] .

section \<open>The C interface\<close>

definition sample_abi :: abi where
  "sample_abi = \<lparr>in_abi = (\<lambda>_. False), active_calls = 0, hook_set = False, abi_workers = None,
     memory = (\<lambda>_. 0), allocations = (\<lambda>_. None)\<rparr>"


lemma sample_vk: "aggregated_vk sample = Some (mixed_guest_key sample)"
  by (simp add: aggregated_vk_def unified_guest_result_def numeral_eq_Suc Let_def
      sample_program_def trailing_zeros.simps)

text \<open>The caller's memory: the key at 100, the hash at 200, the input at 300; the allocator hands
  out address 2000 and the output words are at 1000 and 1008.\<close>

definition sample_caller :: abi where
  "sample_caller = store 100 (mixed_guest_key sample)
     (store 200 sample_hash_of_deps (store 300 (ser_input sample_input) sample_abi))"

lemma sample_lengths:
  "length (mixed_guest_key sample) = 32" "length sample_hash_of_deps = 32"
  "length (ser_input sample_input) = 176" "length sample_output < 2 ^ 64"
proof -
  have w: "length sample_witness = 64"
    by (simp add: sample_witness_def sample_data_def)
  show "length (ser_input sample_input) = 176"
    using sample_dep_ok(1)
    by (simp add: ser_input_def sample_input_def ser_witness_def put_blob_def put_number_def
        put_deps_eq w canonical_dep_def)
  show "length sample_output < 2 ^ 64"
    using sample_dep_ok(1)
    by (simp add: sample_output_def sample_payload_length envelope_def put_blob_def
        put_number_def put_deps_eq canonical_dep_def)
qed (simp_all add: mixed_guest_key_def sample_hash_of_deps_def commitment_def sample_hash_def)

lemma sample_caller_loads:
  "load sample_caller 100 32 = mixed_guest_key sample"
  "load sample_caller 200 32 = sample_hash_of_deps"
  "load sample_caller 300 176 = ser_input sample_input"
proof -
  note l = load_store [of _ "mixed_guest_key sample"] load_store [of _ sample_hash_of_deps]
    load_store [of _ "ser_input sample_input"]
  show "load sample_caller 100 32 = mixed_guest_key sample"
    "load sample_caller 200 32 = sample_hash_of_deps"
    "load sample_caller 300 176 = ser_input sample_input"
    using l by (simp_all add: sample_caller_def sample_lengths load_store_other)
qed


lemma worker_answers_in_order_witness:
  "worker_loop (\<lambda>h key request. Some (request @ take 1 h)) (ser_request (replicate 32 1, replicate 32 2, [3]))
     = (1 # le_bytes 4 (length [3 :: byte, 1]) @ [3, 1], True)"
  using worker_answers_in_order [of "[(replicate 32 1, replicate 32 2, [3])]" "[]"
      "\<lambda>h key request. Some (request @ take 1 h)"]
  by (simp add: request_ok_def WORKER_MAX_INPUT_def worker_response_def)

end
