(* ===== verification/Claims_Adapter.thy ===== *)
theory Claims_Adapter
  imports Text_Codec "HOL-Library.Multiset"
begin

text \<open>
  The two claim adapters around the aggregation library: the feasibility verifier
  \<open>prover/src/lib.rs\<close> with its C entry point \<open>case7_verify\<close>, and the one-hop probe
  \<open>integration/one-hop/src/main.rs\<close>. Rust strings are lists of UTF-8 code units; the
  SPHINCS and proof crates and the JSON decoder are fields of a record of external functions.
\<close>

section \<open>Hexadecimal values\<close>

definition strip_0x :: "string \<Rightarrow> string option" where
  "strip_0x s = (if take 2 s = ''0x'' then Some (drop 2 s) else None)"

text \<open>\<open>fn bytes(value, length)\<close> of the prover and \<open>fn decode\<close> of the probe.\<close>

definition hex_bytes :: "string \<Rightarrow> nat \<Rightarrow> string + byte list" where
  "hex_bytes value n =
     rbind (ok_or (strip_0x value) ''Hex values must start with 0x'') (\<lambda>raw.
     if length raw \<noteq> n * 2 then Inl ''Expected bytes''
     else ok_or (hex_decode raw) ''Invalid hexadecimal value'')"

definition decode_hex :: "string \<Rightarrow> nat \<Rightarrow> string + byte list" where
  "decode_hex text n =
     rbind (ok_or (strip_0x text) ''Hex prefix is required'') (\<lambda>raw.
     if length raw \<noteq> 2 * n then Inl ''Invalid hexadecimal length''
     else ok_or (hex_decode raw) ''Invalid hexadecimal value'')"

text \<open>\<open>fn word\<close>: sixteen bytes, written as a 32-byte word with a zero low half.\<close>

definition hex_word :: "string \<Rightarrow> string + byte list" where
  "hex_word value =
     rbind (hex_bytes value 32) (\<lambda>data.
     if list_ex (\<lambda>b. b \<noteq> 0) (drop 16 data) then Inl ''Public key words must have zero low 128 bits''
     else Inr (take 16 data))"

section \<open>Requests\<close>

definition SCHEME :: string where "SCHEME = ''daisugi-frame-case7-sphincs-g-v0''"
definition MAX_BATCH :: nat where "MAX_BATCH = 16"
definition MAX_PROOF_BYTES :: nat where "MAX_PROOF_BYTES = 1024 * 1024"

record claim =
  cl_pk_seed :: string
  cl_pk_root :: string
  cl_message :: string
  cl_signature :: "string option"

record request =
  rq_schema_version :: u32
  rq_scheme :: string
  rq_claims :: "claim list"
  rq_proof :: "string option"

record public_key =
  pk_root :: "byte list"
  pk_public_param :: "byte list"

type_synonym sphincs_claim = "public_key \<times> byte list"

record 'p externals =
  ex_rank :: "sphincs_claim \<Rightarrow> byte list"
  ex_sig_size :: nat
  ex_verify_signature :: "public_key \<Rightarrow> byte list \<Rightarrow> byte list \<Rightarrow> bool"
  ex_parse_request :: "byte list \<Rightarrow> string + request"
  ex_proof_from_bytes :: "byte list \<Rightarrow> (string + 'p) outcome"
  ex_sphincs_signers :: "'p \<Rightarrow> sphincs_claim list"
  ex_xmss_empty :: "'p \<Rightarrow> bool"
  ex_da_empty :: "'p \<Rightarrow> bool"
  ex_verify_proof :: "'p \<Rightarrow> (string + unit) outcome"

definition claim_of :: "claim \<Rightarrow> string + sphincs_claim" where
  "claim_of c =
     rbind (hex_word (cl_pk_root c)) (\<lambda>root.
     rbind (hex_word (cl_pk_seed c)) (\<lambda>seed.
     rbind (hex_bytes (cl_message c) 32) (\<lambda>message.
     Inr (\<lparr>pk_root = root, pk_public_param = seed\<rparr>, message))))"

text \<open>The loop of \<open>expected_claims\<close>: the set so far, and the error of the first claim that does
  not decode or repeats an earlier one.\<close>

fun insert_claims :: "sphincs_claim list \<Rightarrow> claim list \<Rightarrow> string + sphincs_claim list" where
  "insert_claims seen [] = Inr seen"
| "insert_claims seen (c # cs) =
     rbind (claim_of c) (\<lambda>k.
     if k \<in> set seen then Inl ''Duplicate key/message claim''
     else insert_claims (seen @ [k]) cs)"

text \<open>The \<open>BTreeSet\<close> is iterated in the crate's order on claims, given by a rank.\<close>

definition expected_claims :: "'p externals \<Rightarrow> request \<Rightarrow> string + sphincs_claim list" where
  "expected_claims E r =
     (if rq_schema_version r \<noteq> 1 \<or> rq_scheme r \<noteq> SCHEME
      then Inl ''Unsupported request version or signature scheme''
      else if rq_claims r = [] \<or> length (rq_claims r) > MAX_BATCH
      then Inl ''Batch must contain between 1 and 16 claims''
      else rbind (insert_claims [] (rq_claims r)) (\<lambda>cs. Inr (sort_key (ex_rank E) cs)))"

definition signature_input ::
  "'p externals \<Rightarrow> claim \<Rightarrow> string + public_key \<times> byte list \<times> byte list" where
  "signature_input E c =
     rbind (claim_of c) (\<lambda>(key, message).
     rbind (ok_or (cl_signature c) ''Individual signature is required'') (\<lambda>sig.
     rbind (hex_bytes sig (ex_sig_size E)) (\<lambda>raw.
     if ex_verify_signature E key message raw then Inr (key, message, raw)
     else Inl ''Invalid individual signature'')))"

definition signature_inputs ::
  "'p externals \<Rightarrow> request \<Rightarrow> string + (public_key \<times> byte list \<times> byte list) list" where
  "signature_inputs E r =
     rbind (expected_claims E r) (\<lambda>_. rmap (signature_input E) (rq_claims r))"

text \<open>\<open>verify_proof\<close>; \<open>Crash\<close> is a panic of the proof crate.\<close>

definition verify_proof ::
  "'p externals \<Rightarrow> byte list \<Rightarrow> sphincs_claim list \<Rightarrow> (string + unit) outcome" where
  "verify_proof E raw expected =
     (if raw = [] \<or> length raw > MAX_PROOF_BYTES
      then Value (Inl ''Proof size is outside the configured limits'')
      else
        (case ex_proof_from_bytes E raw of
           Crash \<Rightarrow> Crash
         | Value (Inl e) \<Rightarrow> Value (Inl e)
         | Value (Inr p) \<Rightarrow>
             if ex_sphincs_signers E p \<noteq> expected \<or> \<not> ex_xmss_empty E p \<or> \<not> ex_da_empty E p
             then Value (Inl ''Proof claims do not match the expected signature claims'')
             else ex_verify_proof E p))"

section \<open>The C entry point\<close>

text \<open>The two statics of the function: whether the verifier was set up, and whether a panic
  poisoned the lock.\<close>

record case7 =
  c7_setup :: bool
  c7_poisoned :: bool

definition case7_body ::
  "'p externals \<Rightarrow> byte list \<Rightarrow> byte list \<Rightarrow> (string + unit) outcome" where
  "case7_body E raw request_bytes =
     (case rbind (ex_parse_request E request_bytes) (expected_claims E) of
        Inl e \<Rightarrow> Value (Inl e)
      | Inr claims \<Rightarrow> verify_proof E raw claims)"

text \<open>\<open>proof\<close> and \<open>request\<close> are \<open>None\<close> for a null pointer. The lock is taken inside
  \<open>catch_unwind\<close>: a panic while it is held poisons it.\<close>

definition case7_verify ::
  "'p externals \<Rightarrow> byte list option \<Rightarrow> byte list option \<Rightarrow> case7 \<Rightarrow> nat \<times> case7" where
  "case7_verify E pf rq st =
     (case (pf, rq) of
        (Some raw, Some request_bytes) \<Rightarrow>
          if raw = [] \<or> length raw > MAX_PROOF_BYTES \<or> request_bytes = []
             \<or> length request_bytes > 2 * 1024 * 1024
          then (3, st)
          else if c7_poisoned st then (1, st)
          else
            (case case7_body E raw request_bytes of
               Value (Inr _) \<Rightarrow> (0, st\<lparr>c7_setup := True\<rparr>)
             | Value (Inl _) \<Rightarrow> (1, st\<lparr>c7_setup := True\<rparr>)
             | Crash \<Rightarrow> (2, st\<lparr>c7_setup := True, c7_poisoned := True\<rparr>))
      | _ \<Rightarrow> (3, st))"

section \<open>The one-hop probe\<close>

definition MAX_INPUT :: nat where "MAX_INPUT = 1024 * 1024"
definition MAX_PROOF :: nat where "MAX_PROOF = 1024 * 1024"
definition MAX_CLAIMS :: nat where "MAX_CLAIMS = 16"
definition PROFILE :: string where "PROFILE = ''leanvm-f33f31bf-sphincs-block-deps''"

record probe_claim =
  pc_public_key :: string
  pc_message :: string
  pc_signature :: "string option"

record probe_input =
  pi_profile :: string
  pi_claims :: "probe_claim list"

record 'k probe_externals =
  px_key_size :: nat
  px_sig_size :: nat
  px_parse_input :: "byte list \<Rightarrow> string + probe_input"
  px_verify_signature :: "byte list \<Rightarrow> byte list \<Rightarrow> byte list \<Rightarrow> bool"
  px_deps_hash :: "(byte list \<times> byte list) list \<Rightarrow> byte list"
  px_aggregate :: "(byte list \<times> byte list \<times> byte list) list \<Rightarrow> string + byte list"
  px_verify_deps :: "byte list \<Rightarrow> byte list \<Rightarrow> string + unit"
  px_rest :: 'k

type_synonym files = "string \<rightharpoonup> byte list"

definition read_file :: "files \<Rightarrow> string \<Rightarrow> nat \<Rightarrow> string + byte list" where
  "read_file fs path limit =
     rbind (ok_or (fs path) ''not found'') (\<lambda>data.
     if length data > limit then Inl ''Input exceeds the development limit'' else Inr data)"

definition probe_claim_of :: "'k probe_externals \<Rightarrow> probe_claim \<Rightarrow> string + byte list \<times> byte list" where
  "probe_claim_of E c =
     rbind (decode_hex (pc_message c) 32) (\<lambda>message.
     rbind (decode_hex (pc_public_key c) (px_key_size E)) (\<lambda>key. Inr (message, key)))"

definition probe_claims ::
  "'k probe_externals \<Rightarrow> probe_input \<Rightarrow> string + (byte list \<times> byte list) list" where
  "probe_claims E input =
     (if pi_profile input \<noteq> PROFILE \<or> pi_claims input = [] \<or> length (pi_claims input) > MAX_CLAIMS
      then Inl ''Unsupported profile or claim count''
      else rmap (probe_claim_of E) (pi_claims input))"

definition probe_signature ::
  "'k probe_externals \<Rightarrow> probe_claim \<times> byte list \<times> byte list
     \<Rightarrow> string + byte list \<times> byte list \<times> byte list" where
  "probe_signature E x = (case x of (c, message, key) \<Rightarrow>
     rbind (ok_or (pc_signature c) ''Missing signature'') (\<lambda>sig.
     rbind (decode_hex sig (px_sig_size E)) (\<lambda>raw.
     if px_verify_signature E key message raw then Inr (key, message, raw)
     else Inl ''Invalid wallet signature'')))"

datatype action = Act_Hash | Act_Signatures | Act_Prove | Act_Verify

definition parse_action :: "string \<Rightarrow> action option" where
  "parse_action s = (if s = ''hash'' then Some Act_Hash
     else if s = ''signatures'' then Some Act_Signatures
     else if s = ''prove'' then Some Act_Prove
     else if s = ''verify'' then Some Act_Verify else None)"

text \<open>The report printed on success: claims, commitment and proof size.\<close>

type_synonym report = "nat \<times> byte list \<times> nat"

text \<open>\<open>run\<close> on the argument vector and the files; it writes only the new proof file.\<close>

definition probe_run ::
  "'k probe_externals \<Rightarrow> string list \<Rightarrow> files \<Rightarrow> (string + report) \<times> files" where
  "probe_run E args fs =
     (if length args \<noteq> 4 \<or> parse_action (args ! 1) = None then (Inl ''Usage'', fs)
      else
        (let path = args ! 2; proof_path = args ! 3 in
         case rbind (rbind (read_file fs path MAX_INPUT) (px_parse_input E))
                (\<lambda>input. rbind (probe_claims E input) (\<lambda>expected. Inr (input, expected))) of
           Inl e \<Rightarrow> (Inl e, fs)
         | Inr (input, expected) \<Rightarrow>
           (let commitment = px_deps_hash E expected;
                report = (\<lambda>n. Inr (length expected, commitment, n))
            in case the (parse_action (args ! 1)) of
                 Act_Hash \<Rightarrow> (report 0, fs)
               | Act_Signatures \<Rightarrow>
                   (case rmap (probe_signature E) (zip (pi_claims input) expected) of
                      Inl e \<Rightarrow> (Inl e, fs)
                    | Inr _ \<Rightarrow> (report 0, fs))
               | Act_Prove \<Rightarrow>
                   (case rmap (probe_signature E) (zip (pi_claims input) expected) of
                      Inl e \<Rightarrow> (Inl e, fs)
                    | Inr signatures \<Rightarrow>
                        if fs proof_path \<noteq> None then (Inl ''Proof output already exists'', fs)
                        else
                          (case rbind (px_aggregate E signatures) (\<lambda>encoded.
                               if length encoded > MAX_PROOF
                               then Inl ''Proof exceeds the development limit''
                               else rbind (px_verify_deps E commitment encoded) (\<lambda>_. Inr encoded)) of
                             Inl e \<Rightarrow> (Inl e, fs)
                           | Inr encoded \<Rightarrow> (report (length encoded), fs(proof_path \<mapsto> encoded))))
               | Act_Verify \<Rightarrow>
                   (case rbind (read_file fs proof_path MAX_PROOF) (\<lambda>bytes.
                        if bytes = [] then Inl ''Empty proof''
                        else rbind (px_verify_deps E commitment bytes) (\<lambda>_. Inr (length bytes))) of
                      Inl e \<Rightarrow> (Inl e, fs)
                    | Inr n \<Rightarrow> (report n, fs)))))"

section \<open>Decoded values\<close>

lemma hex_bytes_length: "hex_bytes v n = Inr bs \<Longrightarrow> length bs = n"
  by (auto simp: hex_bytes_def dec_simps split: if_splits dest: hex_decode_length)

lemma hex_word_length: "hex_word v = Inr w \<Longrightarrow> length w = 16"
  by (auto simp: hex_word_def dec_simps split: if_splits dest: hex_bytes_length)

text \<open>
  The hexadecimal decoder of the adapters inverts lower-case encoding behind the
  \<open>0x\<close> prefix at the expected length, and returns a value of exactly that length whenever it
  succeeds.
\<close>

theorem hex_bytes_roundtrip:
  "hex_bytes (''0x'' @ hex_encode bs) (length bs) = Inr bs
   \<and> (\<forall>v n. case hex_bytes v n of Inl _ \<Rightarrow> True | Inr out \<Rightarrow> length out = n)"
proof (intro conjI allI)
  show "hex_bytes (''0x'' @ hex_encode bs) (length bs) = Inr bs"
    by (simp add: hex_bytes_def strip_0x_def ok_or_def hex_decode_encode length_hex_encode)
qed (auto split: sum.splits dest: hex_bytes_length)

section \<open>Expected claims\<close>

lemma insert_claims_Inr:
  "insert_claims seen cs = Inr ks \<longleftrightarrow>
    (\<exists>ds. rmap claim_of cs = Inr ds \<and> ks = seen @ ds \<and> distinct ds \<and> set ds \<inter> set seen = {})"
proof (induction cs arbitrary: seen)
  case (Cons c cs)
  show ?case
  proof (cases "claim_of c")
    case (Inr k)
    show ?thesis
      using Inr Cons.IH [of "seen @ [k]"] by (cases "k \<in> set seen") (auto simp: rbind_Inr)
  qed simp
qed auto

lemma expected_claims_Inr:
  "expected_claims E r = Inr cs \<longleftrightarrow> rq_schema_version r = 1 \<and> rq_scheme r = SCHEME
    \<and> rq_claims r \<noteq> [] \<and> length (rq_claims r) \<le> MAX_BATCH
    \<and> (\<exists>ds. rmap claim_of (rq_claims r) = Inr ds \<and> distinct ds \<and> cs = sort_key (ex_rank E) ds)"
  by (auto simp: expected_claims_def insert_claims_Inr rbind_Inr not_less)

lemma rmap_perm:
  "rmap f xs = Inr ys \<Longrightarrow> mset xs = mset xs' \<Longrightarrow> \<exists>ys'. rmap f xs' = Inr ys' \<and> mset ys' = mset ys"
proof -
  assume "rmap f xs = Inr ys" "mset xs = mset xs'"
  then have ys: "\<forall>x \<in> set xs. f x = Inr (projr (f x))" "ys = map (projr \<circ> f) xs"
    by (auto simp: rmap_Inr list_all2_conv_all_nth in_set_conv_nth intro!: nth_equalityI)
  have "set xs' = set xs" using \<open>mset xs = mset xs'\<close> by (metis mset_eq_setD)
  then have "rmap f xs' = Inr (map (projr \<circ> f) xs')"
    using ys(1) by (auto simp: rmap_Inr list_all2_conv_all_nth)
  moreover have "mset (map (projr \<circ> f) xs') = mset ys"
    using \<open>mset xs = mset xs'\<close> ys(2) by simp
  ultimately show ?thesis by blast
qed

text \<open>The values the fixed-size arrays of a claim can hold.\<close>

definition claim_domain :: "sphincs_claim set" where
  "claim_domain = {(k, m). length (pk_root k) = 16 \<and> length (pk_public_param k) = 16 \<and> length m = 32}"

lemma claim_of_domain: "claim_of c = Inr k \<Longrightarrow> k \<in> claim_domain"
  by (auto simp: claim_of_def claim_domain_def rbind_Inr dest: hex_word_length hex_bytes_length)

lemma rmap_claims_domain: "rmap claim_of cs = Inr ds \<Longrightarrow> set ds \<subseteq> claim_domain"
  using claim_of_domain
  by (fastforce simp: rmap_Inr list_all2_conv_all_nth in_set_conv_nth simp del: split_paired_All)

text \<open>
  The claims a proof must match do not depend on the order in which a request lists
  them: reordering the claims of an accepted request is accepted with the same result, which
  is duplicate-free and in the crate's order on claims.
\<close>

theorem expected_claims_order_independent:
  assumes "inj_on (ex_rank E) claim_domain" and "mset (rq_claims r) = mset claims"
    and "expected_claims E r = Inr cs"
  shows "expected_claims E (r\<lparr>rq_claims := claims\<rparr>) = Inr cs
    \<and> distinct cs \<and> sorted (map (ex_rank E) cs) \<and> length cs = length claims"
proof -
  obtain ds where r: "rq_schema_version r = 1" "rq_scheme r = SCHEME" "rq_claims r \<noteq> []"
    "length (rq_claims r) \<le> MAX_BATCH" "rmap claim_of (rq_claims r) = Inr ds" "distinct ds"
    "cs = sort_key (ex_rank E) ds"
    using assms(3) by (auto simp: expected_claims_Inr)
  obtain ds' where ds': "rmap claim_of claims = Inr ds'" "mset ds' = mset ds"
    using rmap_perm [OF r(5) assms(2)] by blast
  have len: "length (rq_claims r) = length claims"
    using assms(2) by (metis size_mset)
  have dist: "distinct ds'" using r(6) ds'(2) by (metis mset_eq_imp_distinct_iff)
  have "sort_key (ex_rank E) ds' = cs"
    unfolding r(7)
    using ds'(2) assms(1) rmap_claims_domain [OF ds'(1)]
    by (intro sort_key_inj_key_eq) (auto intro: inj_on_subset)
  moreover have "claims \<noteq> []" using len r(3) by auto
  moreover have "length ds = length (rq_claims r)"
    using r(5) by (auto simp: rmap_Inr dest: list_all2_lengthD)
  ultimately show ?thesis
    using r len ds' dist by (auto simp: expected_claims_Inr)
qed

text \<open>A request of two claims, in the order of their bytes and in the other.\<close>

definition sample_externals :: "unit externals" where
  "sample_externals = \<lparr>ex_rank = (\<lambda>(k, m). pk_root k @ pk_public_param k @ m), ex_sig_size = 32,
     ex_verify_signature = (\<lambda>_ _ _. True),
     ex_parse_request = (\<lambda>bytes. Inl ''request''),
     ex_proof_from_bytes = (\<lambda>_. Value (Inr ())), ex_sphincs_signers = (\<lambda>_. []),
     ex_xmss_empty = (\<lambda>_. True), ex_da_empty = (\<lambda>_. True), ex_verify_proof = (\<lambda>_. Crash)\<rparr>"

definition sample_claim_text :: "byte \<Rightarrow> claim" where
  "sample_claim_text b = \<lparr>cl_pk_seed = ''0x'' @ hex_encode (replicate 32 0),
     cl_pk_root = ''0x'' @ hex_encode (replicate 32 0),
     cl_message = ''0x'' @ hex_encode (replicate 32 b), cl_signature = None\<rparr>"

definition sample_request :: "byte list \<Rightarrow> request" where
  "sample_request bs = \<lparr>rq_schema_version = 1, rq_scheme = SCHEME,
     rq_claims = map sample_claim_text bs, rq_proof = None\<rparr>"

definition sample_key :: public_key where
  "sample_key = \<lparr>pk_root = replicate 16 0, pk_public_param = replicate 16 0\<rparr>"

lemma hex_bytes_encode: "length bs = n \<Longrightarrow> hex_bytes (''0x'' @ hex_encode bs) n = Inr bs"
  by (simp add: hex_bytes_def strip_0x_def ok_or_def hex_decode_encode length_hex_encode)

lemma sample_claim_of: "claim_of (sample_claim_text b) = Inr (sample_key, replicate 32 b)"
proof -
  have "hex_word (''0x'' @ hex_encode (replicate 32 0)) = Inr (replicate 16 0)"
    unfolding hex_word_def hex_bytes_encode [OF length_replicate]
    by (simp add: list_ex_iff)
  then show ?thesis
    using hex_bytes_encode [of "replicate 32 b" 32]
    by (simp add: claim_of_def sample_claim_text_def sample_key_def)
qed

lemma sample_rank: "inj_on (ex_rank sample_externals) claim_domain"
  by (rule inj_onI) (auto simp: sample_externals_def claim_domain_def)

lemma sample_expected:
  "expected_claims sample_externals (sample_request [7]) = Inr [(sample_key, replicate 32 7)]"
  "\<exists>cs. expected_claims sample_externals (sample_request [7, 3]) = Inr cs"
  by (simp_all add: expected_claims_def sample_request_def MAX_BATCH_def sample_claim_of)

lemma expected_claims_order_independent_witness:
  "expected_claims sample_externals (sample_request [7, 3])
     = expected_claims sample_externals ((sample_request [7, 3])\<lparr>rq_claims :=
         [sample_claim_text 3, sample_claim_text 7]\<rparr>)"
proof -
  obtain cs where cs: "expected_claims sample_externals (sample_request [7, 3]) = Inr cs"
    using sample_expected(2) by blast
  show ?thesis
    using expected_claims_order_independent [OF sample_rank _ cs,
        of "[sample_claim_text 3, sample_claim_text 7]"] cs
    by (simp add: sample_request_def)
qed

section \<open>The C entry point over time\<close>

text \<open>A sequence of calls.\<close>

fun case7_run ::
  "'p externals \<Rightarrow> (byte list option \<times> byte list option) list \<Rightarrow> case7 \<Rightarrow> nat list" where
  "case7_run E [] st = []"
| "case7_run E ((pf, rq) # calls) st =
     (case case7_verify E pf rq st of (code, st) \<Rightarrow> code # case7_run E calls st)"

lemma verify_proof_accepts:
  "verify_proof E raw expected = Value (Inr u) \<longleftrightarrow> raw \<noteq> [] \<and> length raw \<le> MAX_PROOF_BYTES
    \<and> (\<exists>p. ex_proof_from_bytes E raw = Value (Inr p) \<and> ex_sphincs_signers E p = expected
        \<and> ex_xmss_empty E p \<and> ex_da_empty E p \<and> ex_verify_proof E p = Value (Inr ()))"
  by (auto simp: verify_proof_def not_less split: outcome.splits sum.splits if_splits)

text \<open>
  The entry point answers 0 exactly when the lock is usable and both buffers are within
  their bounds, the request decodes to a batch of distinct claims, and the proof decodes to a
  proof of exactly those claims and nothing else, which verifies.
\<close>

theorem case7_accepts_iff:
  "fst (case7_verify E (Some raw) (Some rq) st) = 0 \<longleftrightarrow>
    \<not> c7_poisoned st \<and> rq \<noteq> [] \<and> length rq \<le> 2 * 1024 * 1024
    \<and> raw \<noteq> [] \<and> length raw \<le> MAX_PROOF_BYTES
    \<and> (\<exists>r claims p. ex_parse_request E rq = Inr r \<and> expected_claims E r = Inr claims
        \<and> ex_proof_from_bytes E raw = Value (Inr p) \<and> ex_sphincs_signers E p = claims
        \<and> ex_xmss_empty E p \<and> ex_da_empty E p \<and> ex_verify_proof E p = Value (Inr ()))"
proof -
  have "case7_body E raw rq = Value (Inr ()) \<longleftrightarrow> (\<exists>r claims. ex_parse_request E rq = Inr r
      \<and> expected_claims E r = Inr claims \<and> verify_proof E raw claims = Value (Inr ()))"
    by (auto simp: case7_body_def rbind_Inr split: sum.splits)
  then show ?thesis
    by (auto simp: case7_verify_def verify_proof_accepts not_less split: outcome.splits sum.splits)
qed

lemma case7_poisoned_codes:
  "c7_poisoned st \<Longrightarrow> set (case7_run E calls st) \<subseteq> {1, 3}"
proof (induction calls)
  case (Cons call calls)
  obtain pf rq where call: "call = (pf, rq)" by (cases call)
  obtain code st' where v: "case7_verify E pf rq st = (code, st')" by fastforce
  then have "code \<in> {1, 3} \<and> st' = st"
    using Cons.prems by (auto simp: case7_verify_def split: option.splits if_splits)
  then show ?case using Cons call v by simp
qed simp

lemma case7_crash_poisons: "case7_verify E pf rq st = (2, st') \<Longrightarrow> c7_poisoned st'"
  by (auto simp: case7_verify_def split: option.splits if_splits outcome.splits sum.splits)

text \<open>
  C40. The first panic is final: after a call that answers 2 no later call of the process
  answers 0, whatever its arguments; a valid proof is then answered by 1, the code of a
  rejected input.
\<close>

theorem case7_panic_is_final:
  assumes "i < j" and "j < length calls" and "case7_run E calls st ! i = 2"
  shows "case7_run E calls st ! j \<in> {1, 3}"
  using assms
proof (induction calls arbitrary: st i j)
  case (Cons call calls)
  obtain pf rq where call: "call = (pf, rq)" by (cases call)
  obtain code st' where v: "case7_verify E pf rq st = (code, st')" by fastforce
  have len: "length (case7_run E cs s) = length cs" for cs s
    by (induction E cs s rule: case7_run.induct) (auto split: prod.splits)
  obtain j' where j: "j = Suc j'" using Cons.prems(1) by (cases j) auto
  show ?case
  proof (cases i)
    case 0
    with Cons.prems(3) call v have "c7_poisoned st'" by (auto dest: case7_crash_poisons)
    moreover have "j' < length (case7_run E calls st')" using Cons.prems(2) j len by simp
    ultimately show ?thesis
      using case7_poisoned_codes [of st' E calls] nth_mem [of j'] call v j by auto
  next
    case (Suc i')
    then show ?thesis using Cons.IH [of i' j' st'] Cons.prems call v j by simp
  qed
qed simp

text \<open>A proof crate that panics on the first proof.\<close>

definition crashing_externals :: "unit externals" where
  "crashing_externals = sample_externals\<lparr>
     ex_parse_request := (\<lambda>_. Inr (sample_request [7])),
     ex_sphincs_signers := (\<lambda>_. [(sample_key, replicate 32 7)])\<rparr>"

definition sample_calls :: "(byte list option \<times> byte list option) list" where
  "sample_calls = [(Some [1], Some [1]), (Some [2], Some [1])]"

lemma crashing_expected:
  "expected_claims crashing_externals (sample_request [7]) = Inr [(sample_key, replicate 32 7)]"
  by (simp add: expected_claims_def sample_request_def MAX_BATCH_def sample_claim_of)

lemma case7_panic_is_final_witness:
  "case7_run crashing_externals sample_calls \<lparr>c7_setup = False, c7_poisoned = False\<rparr> ! 1 \<in> {1, 3}"
proof -
  let ?st = "\<lparr>c7_setup = False, c7_poisoned = False\<rparr>"
  have "ex_parse_request crashing_externals bs = Inr (sample_request [7])"
    "ex_proof_from_bytes crashing_externals bs = Value (Inr ())"
    "ex_sphincs_signers crashing_externals () = [(sample_key, replicate 32 7)]"
    "ex_xmss_empty crashing_externals ()" "ex_da_empty crashing_externals ()"
    "ex_verify_proof crashing_externals () = Crash" for bs
    by (simp_all add: crashing_externals_def sample_externals_def)
  then have "case7_body crashing_externals [1] [1] = Crash"
    by (simp add: case7_body_def crashing_expected verify_proof_def MAX_PROOF_BYTES_def)
  then have "case7_run crashing_externals sample_calls ?st ! 0 = 2"
    by (simp add: sample_calls_def case7_verify_def MAX_PROOF_BYTES_def split: prod.split)
  then show ?thesis
    using case7_panic_is_final [of 0 1 sample_calls crashing_externals ?st]
    by (simp add: sample_calls_def)
qed

section \<open>The probe\<close>

text \<open>
  The probe writes at most one file: only a successful \<open>prove\<close> changes the files, it
  creates a file that did not exist, and what it writes is within the size bound and was
  verified against the commitment to the claims of the input.
\<close>

theorem probe_run_writes_verified_proofs:
  "snd (probe_run E args fs) = fs
   \<or> (\<exists>encoded expected. args ! 1 = ''prove'' \<and> fs (args ! 3) = None
        \<and> snd (probe_run E args fs) = fs(args ! 3 \<mapsto> encoded)
        \<and> fst (probe_run E args fs) = Inr (length expected, px_deps_hash E expected, length encoded)
        \<and> length encoded \<le> MAX_PROOF
        \<and> px_verify_deps E (px_deps_hash E expected) encoded = Inr ())"
  by (auto simp: probe_run_def Let_def parse_action_def rbind_Inr not_less
      split: sum.splits action.splits if_splits)

end
