(* ===== verification/Fork_Name.thy ===== *)
theory Fork_Name
  imports Prelude
begin

text \<open>
  The consensus forks, \<open>consensus/types/src/fork/fork_name.rs\<close> of the Lighthouse overlay.
  Daisugi is a branch off Electra: it comes after Electra and before Fulu in the order on
  forks, has no successor, and is not the predecessor of Fulu.
\<close>

datatype fork_name = Base | Altair | Bellatrix | Capella | Deneb | Electra | Fulu | Gloas | Daisugi

definition list_all_forks :: "fork_name list" where
  "list_all_forks = [Base, Altair, Bellatrix, Capella, Deneb, Electra, Fulu, Gloas, Daisugi]"

definition latest :: fork_name where "latest = Gloas"

definition latest_stable :: fork_name where "latest_stable = Fulu"

fun previous_fork :: "fork_name \<Rightarrow> fork_name option" where
  "previous_fork Base = None"
| "previous_fork Altair = Some Base"
| "previous_fork Bellatrix = Some Altair"
| "previous_fork Capella = Some Bellatrix"
| "previous_fork Deneb = Some Capella"
| "previous_fork Electra = Some Deneb"
| "previous_fork Fulu = Some Electra"
| "previous_fork Gloas = Some Fulu"
| "previous_fork Daisugi = Some Electra"

fun next_fork :: "fork_name \<Rightarrow> fork_name option" where
  "next_fork Base = Some Altair"
| "next_fork Altair = Some Bellatrix"
| "next_fork Bellatrix = Some Capella"
| "next_fork Capella = Some Deneb"
| "next_fork Deneb = Some Electra"
| "next_fork Electra = Some Fulu"
| "next_fork Fulu = Some Gloas"
| "next_fork Gloas = None"
| "next_fork Daisugi = None"

section \<open>The order on forks\<close>

fun fork_rank :: "fork_name \<Rightarrow> nat" where
  "fork_rank Base = 0"
| "fork_rank Altair = 1"
| "fork_rank Bellatrix = 2"
| "fork_rank Capella = 3"
| "fork_rank Deneb = 4"
| "fork_rank Electra = 5"
| "fork_rank Daisugi = 6"
| "fork_rank Fulu = 7"
| "fork_rank Gloas = 8"

lemma fork_rank_inject: "fork_rank a = fork_rank b \<longleftrightarrow> a = b"
  by (cases a; cases b) simp_all

instantiation fork_name :: linorder
begin

definition less_eq_fork_name :: "fork_name \<Rightarrow> fork_name \<Rightarrow> bool" where
  "less_eq_fork_name a b \<longleftrightarrow> fork_rank a \<le> fork_rank b"

definition less_fork_name :: "fork_name \<Rightarrow> fork_name \<Rightarrow> bool" where
  "less_fork_name a b \<longleftrightarrow> fork_rank a < fork_rank b"

instance
  by standard (auto simp: less_eq_fork_name_def less_fork_name_def fork_rank_inject)

end

lemmas fork_order = less_eq_fork_name_def less_fork_name_def

definition altair_enabled :: "fork_name \<Rightarrow> bool" where "altair_enabled f \<longleftrightarrow> f \<ge> Altair"
definition bellatrix_enabled :: "fork_name \<Rightarrow> bool" where "bellatrix_enabled f \<longleftrightarrow> f \<ge> Bellatrix"
definition capella_enabled :: "fork_name \<Rightarrow> bool" where "capella_enabled f \<longleftrightarrow> f \<ge> Capella"
definition deneb_enabled :: "fork_name \<Rightarrow> bool" where "deneb_enabled f \<longleftrightarrow> f \<ge> Deneb"
definition electra_enabled :: "fork_name \<Rightarrow> bool" where "electra_enabled f \<longleftrightarrow> f \<ge> Electra"
definition fulu_enabled :: "fork_name \<Rightarrow> bool" where "fulu_enabled f \<longleftrightarrow> f \<ge> Fulu"
definition gloas_enabled :: "fork_name \<Rightarrow> bool" where "gloas_enabled f \<longleftrightarrow> f \<ge> Gloas"

lemmas enabled_defs = altair_enabled_def bellatrix_enabled_def capella_enabled_def deneb_enabled_def
  electra_enabled_def fulu_enabled_def gloas_enabled_def fork_order

section \<open>Names\<close>

text \<open>\<open>to_lowercase\<close>, on the ASCII letters; no other character lower-cases to a fork's name.\<close>

definition lower_char :: "char \<Rightarrow> char" where
  "lower_char c = (let n = of_char c :: nat in if 65 \<le> n \<and> n \<le> 90 then char_of (n + 32) else c)"

definition fork_from_str :: "string \<Rightarrow> string + fork_name" where
  "fork_from_str s =
     (let n = map lower_char s in
      if n = ''phase0'' \<or> n = ''base'' then Inr Base
      else if n = ''altair'' then Inr Altair
      else if n = ''bellatrix'' \<or> n = ''merge'' then Inr Bellatrix
      else if n = ''capella'' then Inr Capella
      else if n = ''deneb'' then Inr Deneb
      else if n = ''electra'' then Inr Electra
      else if n = ''daisugi'' then Inr Daisugi
      else if n = ''fulu'' then Inr Fulu
      else if n = ''gloas'' then Inr Gloas
      else Inl (''unknown fork name: '' @ s))"

fun fork_display :: "fork_name \<Rightarrow> string" where
  "fork_display Base = ''phase0''"
| "fork_display Altair = ''altair''"
| "fork_display Bellatrix = ''bellatrix''"
| "fork_display Capella = ''capella''"
| "fork_display Deneb = ''deneb''"
| "fork_display Electra = ''electra''"
| "fork_display Daisugi = ''daisugi''"
| "fork_display Fulu = ''fulu''"
| "fork_display Gloas = ''gloas''"

lemma lower_char_idem: "lower_char (lower_char c) = lower_char c"
  by (auto simp: lower_char_def Let_def)

lemma fork_from_display: "fork_from_str (fork_display f) = Inr f"
  by (cases f) (simp_all add: fork_from_str_def lower_char_def Let_def)

lemma fork_from_lower:
  "map lower_char s = map lower_char t \<Longrightarrow> fork_from_str s = Inr f \<longleftrightarrow> fork_from_str t = Inr f"
  by (simp add: fork_from_str_def Let_def)

lemma fork_from_str_Inr: "fork_from_str s = Inr f \<Longrightarrow>
    map lower_char s = fork_display f \<or> (f = Base \<and> map lower_char s = ''base'')
    \<or> (f = Bellatrix \<and> map lower_char s = ''merge'')"
  by (auto simp: fork_from_str_def Let_def split: if_splits)

text \<open>
  Fork names round-trip: every displayed name parses back to its fork, whatever the case
  of its letters, and the only other names accepted are the two aliases of the first fork and
  of Bellatrix.
\<close>

theorem fork_name_roundtrip:
  "(map lower_char s = fork_display f \<longrightarrow> fork_from_str s = Inr f)
   \<and> (fork_from_str s = Inr f \<longrightarrow> map lower_char s = fork_display f
        \<or> (f = Base \<and> map lower_char s = ''base'')
        \<or> (f = Bellatrix \<and> map lower_char s = ''merge''))"
proof (intro conjI impI)
  assume "map lower_char s = fork_display f"
  moreover have "map lower_char (fork_display f) = fork_display f"
    by (cases f) (simp_all add: lower_char_def)
  ultimately show "fork_from_str s = Inr f"
    using fork_from_lower [of s "fork_display f"] fork_from_display by simp
qed (rule fork_from_str_Inr)

text \<open>The chain of forks without Daisugi.\<close>

lemma next_previous: "f \<noteq> Daisugi \<Longrightarrow> next_fork f = Some g \<longleftrightarrow> previous_fork g = Some f \<and> g \<noteq> Daisugi"
  by (cases f; cases g) simp_all

lemma previous_less: "previous_fork f = Some g \<Longrightarrow> g < f"
  by (cases f) (auto simp: fork_order)

text \<open>
  Predecessors and successors agree on the main line and strictly respect the order on
  forks; Daisugi is reached from no fork, leads to none, and sits strictly between Electra,
  its predecessor, and Fulu, so that it enables every feature of Electra and none of Fulu.
\<close>

theorem fork_chain:
  "(next_fork f = Some g \<longrightarrow> previous_fork g = Some f \<and> f < g)
   \<and> (previous_fork g = Some f \<and> g \<noteq> Daisugi \<longrightarrow> next_fork f = Some g)
   \<and> (previous_fork g = Some f \<longrightarrow> f < g)
   \<and> next_fork f \<noteq> Some Daisugi \<and> next_fork Daisugi = None \<and> previous_fork Daisugi = Some Electra
   \<and> Electra < Daisugi \<and> Daisugi < Fulu
   \<and> electra_enabled Daisugi \<and> \<not> fulu_enabled Daisugi \<and> \<not> gloas_enabled Daisugi"
  using next_previous [of f g] previous_less [of g f]
  by (cases f; cases g) (auto simp: enabled_defs)

end
