(* ===== verification/Chain_Types.thy ===== *)
theory Chain_Types
  imports Fork_Name
begin

text \<open>
  The data of \<open>consensus/types/src/core/chain_spec.rs\<close> in the Lighthouse overlay: the blob
  schedule, the \<open>ChainSpec\<close> struct and the default values of its configuration. The struct's
  fields are grouped into one record per comment section of the source, under the source's
  names; \<open>ChainSpec\<close> is the record of the groups. Epochs and slots are the 64-bit words they
  wrap, a duration is its number of milliseconds.
\<close>

type_synonym version = "byte list"
type_synonym epoch = u64
type_synonym slot = u64

text \<open>What the file takes from elsewhere: two constants, the SHA-256 hash and the tree hash of
  \<open>ForkData\<close>.\<close>

record chain_externals =
  basis_points :: u64
  application_domain_builder :: u32
  sha256 :: "byte list \<Rightarrow> byte list"
  fork_data_root :: "version \<Rightarrow> byte list \<Rightarrow> byte list"

text \<open>The preset parameters (\<open>E: EthSpec\<close>) the functions use.\<close>

record eth_spec =
  es_name :: string
  es_slots_per_epoch :: u64
  es_number_of_columns :: nat

section \<open>Blob schedule\<close>

record blob_parameters =
  bp_epoch :: epoch
  bp_max_blobs :: u64

record blob_schedule =
  bs_schedule :: "blob_parameters list"
  bs_skip_serializing :: bool

text \<open>\<open>sort_by_key\<close> with \<open>Reverse\<close> is stable: equal epochs keep their order.\<close>

definition blob_schedule_new :: "blob_parameters list \<Rightarrow> blob_schedule" where
  "blob_schedule_new v = \<lparr>bs_schedule = sort_key (\<lambda>b. - uint (bp_epoch b)) v,
     bs_skip_serializing = False\<rparr>"

definition blob_schedule_default :: blob_schedule where
  "blob_schedule_default = \<lparr>bs_schedule = [], bs_skip_serializing = False\<rparr>"

definition blob_schedule_is_empty :: "blob_schedule \<Rightarrow> bool" where
  "blob_schedule_is_empty b \<longleftrightarrow> bs_schedule b = []"

definition set_skip_serializing :: "blob_schedule \<Rightarrow> blob_schedule" where
  "set_skip_serializing b = b\<lparr>bs_skip_serializing := True\<rparr>"

definition blob_parameters_for_epoch :: "blob_schedule \<Rightarrow> epoch \<Rightarrow> blob_parameters option" where
  "blob_parameters_for_epoch b e = List.find (\<lambda>entry. e \<ge> bp_epoch entry) (bs_schedule b)"

definition max_blobs_for_epoch :: "blob_schedule \<Rightarrow> epoch \<Rightarrow> u64 option" where
  "max_blobs_for_epoch b e =
     map_option bp_max_blobs (List.find (\<lambda>entry. e \<ge> bp_epoch entry) (bs_schedule b))"

text \<open>The serialised schedule is ascending; deserialising sorts again.\<close>

definition blob_schedule_serialize :: "blob_schedule \<Rightarrow> blob_parameters list" where
  "blob_schedule_serialize b = rev (bs_schedule b)"

definition blob_schedule_deserialize :: "blob_parameters list \<Rightarrow> blob_schedule" where
  "blob_schedule_deserialize v = blob_schedule_new v"

section \<open>The chain specification\<close>

record cs_constants =
  genesis_slot :: u64
  far_future_epoch :: u64
  base_rewards_per_epoch :: u64
  deposit_contract_tree_depth :: u64

record cs_misc =
  max_committees_per_slot :: nat
  target_committee_size :: nat
  min_per_epoch_churn_limit :: u64
  max_per_epoch_activation_churn_limit :: u64
  churn_limit_quotient :: u64
  shuffle_round_count :: byte
  min_genesis_active_validator_count :: u64
  min_genesis_time :: u64
  hysteresis_quotient :: u64
  hysteresis_downward_multiplier :: u64
  hysteresis_upward_multiplier :: u64
  proportional_slashing_multiplier :: u64

record cs_gwei =
  min_deposit_amount :: u64
  max_effective_balance :: u64
  ejection_balance :: u64
  effective_balance_increment :: u64

record cs_initial =
  genesis_fork_version :: version
  bls_withdrawal_prefix_byte :: byte
  eth1_address_withdrawal_prefix_byte :: byte
  compounding_withdrawal_prefix_byte :: byte
  builder_withdrawal_prefix_byte :: byte

record cs_timing =
  genesis_delay :: u64
  seconds_per_slot :: u64
  slot_duration_ms :: u64
  min_attestation_inclusion_delay :: u64
  min_seed_lookahead :: u64
  max_seed_lookahead :: u64
  min_epochs_to_inactivity_penalty :: u64
  min_validator_withdrawability_delay :: u64
  shard_committee_period :: u64
  proposer_reorg_cutoff_bps :: u64
  attestation_due_bps :: u64
  attestation_due_bps_gloas :: u64
  payload_due_bps :: u64
  payload_attestation_due_bps :: u64
  aggregate_due_bps :: u64
  sync_message_due_bps :: u64
  contribution_due_bps :: u64

record cs_due =
  unaggregated_attestation_due :: u64
  unaggregated_attestation_due_gloas :: u64
  payload_due :: u64
  payload_attestation_due :: u64
  aggregate_attestation_due :: u64
  sync_message_due :: u64
  contribution_and_proof_due :: u64

record cs_rewards =
  base_reward_factor :: u64
  whistleblower_reward_quotient :: u64
  proposer_reward_quotient :: u64
  inactivity_penalty_quotient :: u64
  min_slashing_penalty_quotient :: u64

record cs_domains =
  domain_beacon_proposer :: u32
  domain_beacon_attester :: u32
  domain_randao :: u32
  domain_deposit :: u32
  domain_voluntary_exit :: u32
  domain_selection_proof :: u32
  domain_aggregate_and_proof :: u32
  domain_beacon_builder :: u32
  domain_ptc_attester :: u32
  domain_proposer_preferences :: u32

record cs_fork_choice =
  proposer_score_boost :: u64
  reorg_head_weight_threshold :: u64
  reorg_parent_weight_threshold :: u64
  reorg_max_epochs_since_finalization :: u64

record cs_eth1 =
  eth1_follow_distance :: u64
  seconds_per_eth1_block :: u64
  deposit_chain_id :: u64
  deposit_network_id :: u64
  deposit_contract_address :: "byte list"

record cs_execution =
  gas_limit_adjustment_factor :: u64

record cs_altair =
  inactivity_penalty_quotient_altair :: u64
  min_slashing_penalty_quotient_altair :: u64
  proportional_slashing_multiplier_altair :: u64
  epochs_per_sync_committee_period :: u64
  inactivity_score_bias :: u64
  inactivity_score_recovery_rate :: u64
  min_sync_committee_participants :: u64
  update_timeout :: u64
  domain_sync_committee :: u32
  domain_sync_committee_selection_proof :: u32
  domain_contribution_and_proof :: u32
  altair_fork_version :: version
  altair_fork_epoch :: "u64 option"

record cs_bellatrix =
  inactivity_penalty_quotient_bellatrix :: u64
  min_slashing_penalty_quotient_bellatrix :: u64
  proportional_slashing_multiplier_bellatrix :: u64
  bellatrix_fork_version :: version
  bellatrix_fork_epoch :: "u64 option"
  terminal_total_difficulty :: "256 word"
  terminal_block_hash :: "byte list"
  terminal_block_hash_activation_epoch :: u64

record cs_capella =
  capella_fork_version :: version
  capella_fork_epoch :: "u64 option"
  max_validators_per_withdrawals_sweep :: u64

record cs_deneb =
  deneb_fork_version :: version
  deneb_fork_epoch :: "u64 option"

record cs_electra =
  electra_fork_version :: version
  electra_fork_epoch :: "u64 option"
  unset_deposit_requests_start_index :: u64
  full_exit_request_amount :: u64
  min_activation_balance :: u64
  max_effective_balance_electra :: u64
  min_slashing_penalty_quotient_electra :: u64
  whistleblower_reward_quotient_electra :: u64
  max_pending_partials_per_withdrawals_sweep :: u64
  min_per_epoch_churn_limit_electra :: u64
  max_per_epoch_activation_exit_churn_limit :: u64

record cs_daisugi =
  daisugi_fork_version :: version
  daisugi_fork_epoch :: "u64 option"

record cs_fulu =
  fulu_fork_version :: version
  fulu_fork_epoch :: "u64 option"
  number_of_custody_groups :: u64
  data_column_sidecar_subnet_count :: u64
  samples_per_slot :: u64
  custody_requirement :: u64
  validator_custody_requirement :: u64
  balance_per_additional_custody_group :: u64

record cs_gloas =
  gloas_fork_version :: version
  gloas_fork_epoch :: "u64 option"
  builder_payment_threshold_numerator :: u64
  builder_payment_threshold_denominator :: u64
  min_builder_withdrawability_delay :: u64
  churn_limit_quotient_gloas :: u64
  consolidation_churn_limit_quotient :: u64
  max_per_epoch_activation_churn_limit_gloas :: u64

record cs_networking =
  boot_nodes :: "string list"
  network_id :: byte
  target_aggregators_per_committee :: u64
  max_payload_size :: u64
  max_request_blocks :: u64
  min_epochs_for_block_requests :: u64
  ttfb_timeout :: u64
  resp_timeout :: u64
  attestation_propagation_slot_range :: u64
  maximum_gossip_clock_disparity :: u64
  message_domain_invalid_snappy :: version
  message_domain_valid_snappy :: version
  subnets_per_node :: byte
  epochs_per_subnet_subscription :: u64
  attestation_subnet_count :: u64
  attestation_subnet_extra_bits :: byte
  attestation_subnet_prefix_bits :: byte

record cs_net_deneb =
  max_request_blocks_deneb :: u64
  max_request_blob_sidecars :: u64
  max_request_data_column_sidecars :: u64
  min_epochs_for_blob_sidecars_requests :: u64
  blob_sidecar_subnet_count :: u64
  max_blobs_per_block :: u64

record cs_net_electra =
  max_blobs_per_block_electra :: u64
  blob_sidecar_subnet_count_electra :: u64
  max_request_blob_sidecars_electra :: u64

record cs_net_fulu =
  blob_schedule :: blob_schedule
  min_epochs_for_data_column_sidecars_requests :: u64

record cs_net_gloas =
  max_request_payloads :: u64

record cs_net_derived =
  max_blocks_by_root_request :: nat
  max_blocks_by_root_request_deneb :: nat
  max_blobs_by_root_request :: nat
  max_data_columns_by_root_request :: nat
  max_payload_envelopes_by_root_request :: nat

record cs_application =
  domain_application_mask :: u32

record cs_capella_domain =
  domain_bls_to_execution_change :: u32

record chain_spec =
  config_name :: "string option"
  sp_constants :: cs_constants
  sp_misc :: cs_misc
  sp_gwei :: cs_gwei
  sp_initial :: cs_initial
  sp_timing :: cs_timing
  sp_due :: cs_due
  sp_rewards :: cs_rewards
  sp_domains :: cs_domains
  sp_fork_choice :: cs_fork_choice
  sp_eth1 :: cs_eth1
  sp_execution :: cs_execution
  sp_altair :: cs_altair
  sp_bellatrix :: cs_bellatrix
  sp_capella :: cs_capella
  sp_deneb :: cs_deneb
  sp_electra :: cs_electra
  sp_daisugi :: cs_daisugi
  sp_fulu :: cs_fulu
  sp_gloas :: cs_gloas
  sp_networking :: cs_networking
  sp_net_deneb :: cs_net_deneb
  sp_net_electra :: cs_net_electra
  sp_net_fulu :: cs_net_fulu
  sp_net_gloas :: cs_net_gloas
  sp_net_derived :: cs_net_derived
  sp_application :: cs_application
  sp_capella_domain :: cs_capella_domain

section \<open>Default values\<close>

definition default_bellatrix_fork_version :: version where
  "default_bellatrix_fork_version = [255, 255, 255, 255]"
definition default_capella_fork_version :: version where
  "default_capella_fork_version = [255, 255, 255, 255]"
definition default_deneb_fork_version :: version where "default_deneb_fork_version = [255, 255, 255, 255]"
definition default_electra_fork_version :: version where
  "default_electra_fork_version = [255, 255, 255, 255]"
definition default_fulu_fork_version :: version where "default_fulu_fork_version = [255, 255, 255, 255]"
definition default_gloas_fork_version :: version where "default_gloas_fork_version = [255, 255, 255, 255]"
definition default_terminal_total_difficulty :: "256 word" where
  "default_terminal_total_difficulty = 18446744073709550592 + 18446744073709551615 * 2 ^ 64
     + 18446744073709551615 * 2 ^ 128 + 18446744073709551615 * 2 ^ 192"
definition default_terminal_block_hash :: "byte list" where "default_terminal_block_hash = replicate 32 0"
definition default_terminal_block_hash_activation_epoch :: epoch where
  "default_terminal_block_hash_activation_epoch = - 1"
definition default_subnets_per_node :: byte where "default_subnets_per_node = 2"
definition default_epochs_per_subnet_subscription :: u64 where
  "default_epochs_per_subnet_subscription = 256"
definition default_attestation_subnet_count :: u64 where "default_attestation_subnet_count = 64"
definition default_attestation_subnet_extra_bits :: byte where
  "default_attestation_subnet_extra_bits = 0"
definition default_max_per_epoch_activation_churn_limit :: u64 where
  "default_max_per_epoch_activation_churn_limit = 8"
definition default_gas_limit_adjustment_factor :: u64 where "default_gas_limit_adjustment_factor = 1024"
definition default_max_payload_size :: u64 where "default_max_payload_size = 10485760"
definition default_min_epochs_for_block_requests :: u64 where
  "default_min_epochs_for_block_requests = 33024"
definition default_ttfb_timeout :: u64 where "default_ttfb_timeout = 5"
definition default_resp_timeout :: u64 where "default_resp_timeout = 10"
definition default_message_domain_invalid_snappy :: version where
  "default_message_domain_invalid_snappy = [0, 0, 0, 0]"
definition default_message_domain_valid_snappy :: version where
  "default_message_domain_valid_snappy = [1, 0, 0, 0]"
definition default_max_request_blocks :: u64 where "default_max_request_blocks = 1024"
definition default_max_request_blocks_deneb :: u64 where "default_max_request_blocks_deneb = 128"
definition default_max_request_blob_sidecars :: u64 where "default_max_request_blob_sidecars = 768"
definition default_max_request_data_column_sidecars :: u64 where
  "default_max_request_data_column_sidecars = 16384"
definition default_min_epochs_for_blob_sidecars_requests :: u64 where
  "default_min_epochs_for_blob_sidecars_requests = 4096"
definition default_blob_sidecar_subnet_count :: u64 where "default_blob_sidecar_subnet_count = 6"
definition default_max_blobs_per_block :: u64 where "default_max_blobs_per_block = 6"
definition default_blob_sidecar_subnet_count_electra :: u64 where
  "default_blob_sidecar_subnet_count_electra = 9"
definition default_max_request_blob_sidecars_electra :: u64 where
  "default_max_request_blob_sidecars_electra = 1152"
definition default_min_per_epoch_churn_limit_electra :: u64 where
  "default_min_per_epoch_churn_limit_electra = 128000000000"
definition default_max_per_epoch_activation_exit_churn_limit :: u64 where
  "default_max_per_epoch_activation_exit_churn_limit = 256000000000"
definition default_max_blobs_per_block_electra :: u64 where "default_max_blobs_per_block_electra = 9"
definition default_attestation_propagation_slot_range :: u64 where
  "default_attestation_propagation_slot_range = 32"
definition default_maximum_gossip_clock_disparity :: u64 where
  "default_maximum_gossip_clock_disparity = 500"
definition default_custody_requirement :: u64 where "default_custody_requirement = 4"
definition default_data_column_sidecar_subnet_count :: u64 where
  "default_data_column_sidecar_subnet_count = 128"
definition default_number_of_custody_groups :: u64 where "default_number_of_custody_groups = 128"
definition default_samples_per_slot :: u64 where "default_samples_per_slot = 8"
definition default_validator_custody_requirement :: u64 where
  "default_validator_custody_requirement = 8"
definition default_balance_per_additional_custody_group :: u64 where
  "default_balance_per_additional_custody_group = 32000000000"
definition default_min_epochs_for_data_column_sidecars_requests :: u64 where
  "default_min_epochs_for_data_column_sidecars_requests = 4096"
definition default_proposer_reorg_cutoff_bps :: u64 where "default_proposer_reorg_cutoff_bps = 1667"
definition default_attestation_due_bps :: u64 where "default_attestation_due_bps = 3333"
definition default_attestation_due_bps_gloas :: u64 where "default_attestation_due_bps_gloas = 2500"
definition default_payload_due_bps :: u64 where "default_payload_due_bps = 7500"
definition default_payload_attestation_due_bps :: u64 where "default_payload_attestation_due_bps = 7500"
definition default_aggregate_due_bps :: u64 where "default_aggregate_due_bps = 6667"
definition default_sync_message_due_bps :: u64 where "default_sync_message_due_bps = 3333"
definition default_contribution_due_bps :: u64 where "default_contribution_due_bps = 6667"
definition default_min_builder_withdrawability_delay :: u64 where
  "default_min_builder_withdrawability_delay = 8192"
definition default_churn_limit_quotient_gloas :: u64 where "default_churn_limit_quotient_gloas = 32768"
definition default_consolidation_churn_limit_quotient :: u64 where
  "default_consolidation_churn_limit_quotient = 65536"
definition default_max_per_epoch_activation_churn_limit_gloas :: u64 where
  "default_max_per_epoch_activation_churn_limit_gloas = 256000000000"
definition default_reorg_head_weight_threshold :: u64 where "default_reorg_head_weight_threshold = 20"
definition default_reorg_parent_weight_threshold :: u64 where
  "default_reorg_parent_weight_threshold = 160"
definition default_reorg_max_epochs_since_finalization :: u64 where
  "default_reorg_max_epochs_since_finalization = 2"
definition default_max_request_payloads :: u64 where "default_max_request_payloads = 128"

text \<open>Sizes of the largest by-root requests in bytes: 32 per block root, 40 per blob
  identifier, and per column identifier a 40-byte frame with 8 bytes for each column. Of these
  the last two are checked products. \<open>MainnetEthSpec\<close> has 128 columns.\<close>

definition max_blocks_by_root_request_common :: "u64 \<Rightarrow> nat" where
  "max_blocks_by_root_request_common n = 32 * unat n"

definition max_blobs_by_root_request_common :: "u64 \<Rightarrow> nat outcome" where
  "max_blobs_by_root_request_common n = expect (checked_mul (unat n) 40)"

definition max_data_columns_by_root_request_common :: "nat \<Rightarrow> u64 \<Rightarrow> nat outcome" where
  "max_data_columns_by_root_request_common columns n =
     obind (expect (do { b \<leftarrow> checked_mul 8 columns; checked_add b 40 })) (\<lambda>size.
     expect (checked_mul (unat n) size))"

text \<open>The defaults below unwrap products of constants, which do not overflow.\<close>

fun the_value :: "'a outcome \<Rightarrow> 'a" where
  "the_value (Value x) = x"
| "the_value Crash = undefined"

definition mainnet_columns :: nat where "mainnet_columns = 128"

definition default_max_blocks_by_root_request :: nat where
  "default_max_blocks_by_root_request = max_blocks_by_root_request_common default_max_request_blocks"
definition default_max_blocks_by_root_request_deneb :: nat where
  "default_max_blocks_by_root_request_deneb = max_blocks_by_root_request_common default_max_request_blocks_deneb"
definition default_max_blobs_by_root_request :: nat where
  "default_max_blobs_by_root_request = the_value (max_blobs_by_root_request_common default_max_request_blob_sidecars)"
definition default_data_columns_by_root_request :: nat where
  "default_data_columns_by_root_request = the_value (max_data_columns_by_root_request_common mainnet_columns default_max_request_blocks_deneb)"
definition default_max_payload_envelopes_by_root_request :: nat where
  "default_max_payload_envelopes_by_root_request = max_blocks_by_root_request_common default_max_request_payloads"

text \<open>\<open>compute_attestation_subnet_prefix_bits\<close>: the logarithm of the next power of two, six bits
  when that power or the sum of bits does not fit.\<close>

fun ceil_log2 :: "nat \<Rightarrow> nat" where
  "ceil_log2 n = (if n \<le> 1 then 0 else Suc (ceil_log2 ((n + 1) div 2)))"

declare ceil_log2.simps [simp del]

definition compute_attestation_subnet_prefix_bits :: "u64 \<Rightarrow> byte \<Rightarrow> byte" where
  "compute_attestation_subnet_prefix_bits count extra =
     (let bits = (if unat count > 2 ^ 63 then 6 else ceil_log2 (unat count))
      in if bits + unat extra < 256 then of_nat (bits + unat extra) else 6)"

end
