(* ===== verification/Chain_Spec.thy ===== *)
theory Chain_Spec
  imports Chain_Types
begin

unbundle bit_operations_syntax

text \<open>
  The operations of \<open>ChainSpec\<close> (\<open>consensus/types/src/core/chain_spec.rs\<close>) and the functions of
  \<open>fork_name.rs\<close> that work on a specification: the fork schedule, fork digests and domains,
  per-fork limits, and the derived values. A function that may panic returns an \<open>outcome\<close>.
\<close>

section \<open>Arithmetic\<close>

definition sat_sub :: "u64 \<Rightarrow> u64 \<Rightarrow> u64" where
  "sat_sub a b = (if a < b then 0 else a - b)"

definition sat_add :: "u64 \<Rightarrow> u64 \<Rightarrow> u64" where
  "sat_add a b = (if unat a + unat b < 2 ^ 64 then a + b else - 1)"

definition sat_mul :: "u64 \<Rightarrow> u64 \<Rightarrow> u64" where
  "sat_mul a b = (if unat a * unat b < 2 ^ 64 then a * b else - 1)"

definition safe_add :: "u64 \<Rightarrow> u64 \<Rightarrow> u64 option" where
  "safe_add a b = (if unat a + unat b < 2 ^ 64 then Some (a + b) else None)"

definition safe_mul :: "u64 \<Rightarrow> u64 \<Rightarrow> u64 option" where
  "safe_mul a b = (if unat a * unat b < 2 ^ 64 then Some (a * b) else None)"

definition safe_div :: "u64 \<Rightarrow> u64 \<Rightarrow> u64 option" where
  "safe_div a b = (if b = 0 then None else Some (a div b))"

text \<open>\<open>slot.epoch(E::slots_per_epoch())\<close> and \<open>epoch.start_slot(...)\<close>.\<close>

definition epoch_of :: "eth_spec \<Rightarrow> slot \<Rightarrow> epoch" where
  "epoch_of E s = s div es_slots_per_epoch E"

definition start_slot :: "eth_spec \<Rightarrow> epoch \<Rightarrow> slot" where
  "start_slot E e = sat_mul e (es_slots_per_epoch E)"

text \<open>\<open>min_by_key\<close>: the first of the smallest.\<close>

fun min_by :: "('a \<Rightarrow> 'k::linorder) \<Rightarrow> 'a list \<Rightarrow> 'a option" where
  "min_by k [] = None"
| "min_by k (x # xs) = (case min_by k xs of
       None \<Rightarrow> Some x | Some y \<Rightarrow> if k y < k x then Some y else Some x)"

section \<open>The fork schedule\<close>

definition fork_epoch :: "chain_spec \<Rightarrow> fork_name \<Rightarrow> epoch option" where
  "fork_epoch s f = (case f of
       Base \<Rightarrow> Some 0
     | Altair \<Rightarrow> altair_fork_epoch (sp_altair s)
     | Bellatrix \<Rightarrow> bellatrix_fork_epoch (sp_bellatrix s)
     | Capella \<Rightarrow> capella_fork_epoch (sp_capella s)
     | Deneb \<Rightarrow> deneb_fork_epoch (sp_deneb s)
     | Electra \<Rightarrow> electra_fork_epoch (sp_electra s)
     | Daisugi \<Rightarrow> daisugi_fork_epoch (sp_daisugi s)
     | Fulu \<Rightarrow> fulu_fork_epoch (sp_fulu s)
     | Gloas \<Rightarrow> gloas_fork_epoch (sp_gloas s))"

definition fork_version_for_name :: "chain_spec \<Rightarrow> fork_name \<Rightarrow> version" where
  "fork_version_for_name s f = (case f of
       Base \<Rightarrow> genesis_fork_version (sp_initial s)
     | Altair \<Rightarrow> altair_fork_version (sp_altair s)
     | Bellatrix \<Rightarrow> bellatrix_fork_version (sp_bellatrix s)
     | Capella \<Rightarrow> capella_fork_version (sp_capella s)
     | Deneb \<Rightarrow> deneb_fork_version (sp_deneb s)
     | Electra \<Rightarrow> electra_fork_version (sp_electra s)
     | Daisugi \<Rightarrow> daisugi_fork_version (sp_daisugi s)
     | Fulu \<Rightarrow> fulu_fork_version (sp_fulu s)
     | Gloas \<Rightarrow> gloas_fork_version (sp_gloas s))"

definition list_all_fork_epochs :: "chain_spec \<Rightarrow> (fork_name \<times> epoch option) list" where
  "list_all_fork_epochs s = map (\<lambda>f. (f, fork_epoch s f)) list_all_forks"

text \<open>The array of \<open>fork_name_at_epoch\<close>, newest first, and its loop.\<close>

definition fork_table :: "chain_spec \<Rightarrow> (epoch option \<times> fork_name) list" where
  "fork_table s =
     [(gloas_fork_epoch (sp_gloas s), Gloas),
      (fulu_fork_epoch (sp_fulu s), Fulu),
      (daisugi_fork_epoch (sp_daisugi s), Daisugi),
      (electra_fork_epoch (sp_electra s), Electra),
      (deneb_fork_epoch (sp_deneb s), Deneb),
      (capella_fork_epoch (sp_capella s), Capella),
      (bellatrix_fork_epoch (sp_bellatrix s), Bellatrix),
      (altair_fork_epoch (sp_altair s), Altair)]"

fun first_active :: "epoch \<Rightarrow> (epoch option \<times> fork_name) list \<Rightarrow> fork_name" where
  "first_active e [] = Base"
| "first_active e ((Some a, f) # forks) = (if e \<ge> a then f else first_active e forks)"
| "first_active e ((None, f) # forks) = first_active e forks"

definition fork_name_at_epoch :: "chain_spec \<Rightarrow> epoch \<Rightarrow> fork_name" where
  "fork_name_at_epoch s e = first_active e (fork_table s)"

definition fork_name_at_slot :: "eth_spec \<Rightarrow> chain_spec \<Rightarrow> slot \<Rightarrow> fork_name" where
  "fork_name_at_slot E s sl = fork_name_at_epoch s (epoch_of E sl)"

definition fork_version_for_epoch :: "chain_spec \<Rightarrow> epoch \<Rightarrow> version" where
  "fork_version_for_epoch s e = fork_version_for_name s (fork_name_at_epoch s e)"

definition next_fork_epoch :: "eth_spec \<Rightarrow> chain_spec \<Rightarrow> slot \<Rightarrow> (fork_name \<times> epoch) option" where
  "next_fork_epoch E s sl =
     (let e = epoch_of E sl
      in min_by snd (List.map_filter
           (\<lambda>(f, activation). case activation of
                None \<Rightarrow> None | Some a \<Rightarrow> if a > e then Some (f, a) else None)
           (list_all_fork_epochs s)))"

definition next_fork_version :: "eth_spec \<Rightarrow> chain_spec \<Rightarrow> slot \<Rightarrow> version" where
  "next_fork_version E s sl = (case next_fork_epoch E s sl of
       Some (f, _) \<Rightarrow> fork_version_for_name s f
     | None \<Rightarrow> fork_version_for_name s (fork_name_at_slot E s sl))"

record fork =
  fk_previous_version :: version
  fk_current_version :: version
  fk_epoch :: epoch

definition fork_at_epoch :: "chain_spec \<Rightarrow> epoch \<Rightarrow> fork" where
  "fork_at_epoch s e =
     (let current = fork_name_at_epoch s e;
          activation = (case fork_epoch s current of Some a \<Rightarrow> a | None \<Rightarrow> 0);
          previous = (if activation = 0 then current
            else (case previous_fork current of Some p \<Rightarrow> p | None \<Rightarrow> Base))
      in \<lparr>fk_previous_version = fork_version_for_name s previous,
          fk_current_version = fork_version_for_name s current,
          fk_epoch = activation\<rparr>)"

definition fork_for_name :: "chain_spec \<Rightarrow> fork_name \<Rightarrow> fork option" where
  "fork_for_name s f =
     (let previous = (case previous_fork f of Some p \<Rightarrow> p | None \<Rightarrow> Base)
      in map_option (\<lambda>a. \<lparr>fk_previous_version = fork_version_for_name s previous,
           fk_current_version = fork_version_for_name s f, fk_epoch = a\<rparr>) (fork_epoch s f))"

text \<open>\<open>ForkName::make_genesis_spec\<close>: setters for the epochs, and the assignments per fork.\<close>

definition set_fork_epoch :: "fork_name \<Rightarrow> epoch option \<Rightarrow> chain_spec \<Rightarrow> chain_spec" where
  "set_fork_epoch f e s = (case f of
       Base \<Rightarrow> s
     | Altair \<Rightarrow> s\<lparr>sp_altair := (sp_altair s)\<lparr>altair_fork_epoch := e\<rparr>\<rparr>
     | Bellatrix \<Rightarrow> s\<lparr>sp_bellatrix := (sp_bellatrix s)\<lparr>bellatrix_fork_epoch := e\<rparr>\<rparr>
     | Capella \<Rightarrow> s\<lparr>sp_capella := (sp_capella s)\<lparr>capella_fork_epoch := e\<rparr>\<rparr>
     | Deneb \<Rightarrow> s\<lparr>sp_deneb := (sp_deneb s)\<lparr>deneb_fork_epoch := e\<rparr>\<rparr>
     | Electra \<Rightarrow> s\<lparr>sp_electra := (sp_electra s)\<lparr>electra_fork_epoch := e\<rparr>\<rparr>
     | Daisugi \<Rightarrow> s\<lparr>sp_daisugi := (sp_daisugi s)\<lparr>daisugi_fork_epoch := e\<rparr>\<rparr>
     | Fulu \<Rightarrow> s\<lparr>sp_fulu := (sp_fulu s)\<lparr>fulu_fork_epoch := e\<rparr>\<rparr>
     | Gloas \<Rightarrow> s\<lparr>sp_gloas := (sp_gloas s)\<lparr>gloas_fork_epoch := e\<rparr>\<rparr>)"

definition set_genesis_epochs ::
  "epoch option \<Rightarrow> epoch option \<Rightarrow> epoch option \<Rightarrow> epoch option \<Rightarrow> epoch option \<Rightarrow> epoch option
     \<Rightarrow> epoch option \<Rightarrow> chain_spec \<Rightarrow> chain_spec" where
  "set_genesis_epochs a b c d e f g s =
     set_fork_epoch Gloas g (set_fork_epoch Fulu f (set_fork_epoch Electra e
       (set_fork_epoch Deneb d (set_fork_epoch Capella c (set_fork_epoch Bellatrix b
         (set_fork_epoch Altair a s))))))"

definition make_genesis_spec :: "fork_name \<Rightarrow> chain_spec \<Rightarrow> chain_spec" where
  "make_genesis_spec fork s =
     (let s = set_fork_epoch Daisugi None s; z = Some 0; n = None in case fork of
        Base \<Rightarrow> set_genesis_epochs n n n n n n n s
      | Altair \<Rightarrow> set_genesis_epochs z n n n n n n s
      | Bellatrix \<Rightarrow> set_genesis_epochs z z n n n n n s
      | Capella \<Rightarrow> set_genesis_epochs z z z n n n n s
      | Deneb \<Rightarrow> set_genesis_epochs z z z z n n n s
      | Electra \<Rightarrow> set_genesis_epochs z z z z z n n s
      | Fulu \<Rightarrow> set_genesis_epochs z z z z z z n s
      | Daisugi \<Rightarrow> set_fork_epoch Daisugi z
          (set_genesis_epochs z z z z z n n (set_fork_epoch Daisugi None s))
      | Gloas \<Rightarrow> set_genesis_epochs z z z z z z z s)"

section \<open>Per-fork parameters\<close>

definition inactivity_penalty_quotient_for_fork :: "chain_spec \<Rightarrow> fork_name \<Rightarrow> u64" where
  "inactivity_penalty_quotient_for_fork s f =
     (if f \<ge> Bellatrix then inactivity_penalty_quotient_bellatrix (sp_bellatrix s)
      else if f \<ge> Altair then inactivity_penalty_quotient_altair (sp_altair s)
      else inactivity_penalty_quotient (sp_rewards s))"

definition max_effective_balance_for_fork :: "chain_spec \<Rightarrow> fork_name \<Rightarrow> u64" where
  "max_effective_balance_for_fork s f =
     (if electra_enabled f then max_effective_balance_electra (sp_electra s)
      else max_effective_balance (sp_gwei s))"

definition is_peer_das_enabled_for_epoch :: "chain_spec \<Rightarrow> epoch \<Rightarrow> bool" where
  "is_peer_das_enabled_for_epoch s e =
     (case fulu_fork_epoch (sp_fulu s) of None \<Rightarrow> False | Some a \<Rightarrow> e \<ge> a)"

definition is_fulu_scheduled :: "chain_spec \<Rightarrow> bool" where
  "is_fulu_scheduled s =
     (case fulu_fork_epoch (sp_fulu s) of None \<Rightarrow> False
      | Some a \<Rightarrow> a \<noteq> far_future_epoch (sp_constants s))"

definition is_peer_das_scheduled :: "chain_spec \<Rightarrow> bool" where
  "is_peer_das_scheduled s = is_fulu_scheduled s"

definition is_gloas_scheduled :: "chain_spec \<Rightarrow> bool" where
  "is_gloas_scheduled s =
     (case gloas_fork_epoch (sp_gloas s) of None \<Rightarrow> False
      | Some a \<Rightarrow> a \<noteq> far_future_epoch (sp_constants s))"

definition max_blocks_by_root_request_for :: "chain_spec \<Rightarrow> fork_name \<Rightarrow> nat" where
  "max_blocks_by_root_request_for s f =
     (if f \<ge> Deneb then max_blocks_by_root_request_deneb (sp_net_derived s)
      else max_blocks_by_root_request (sp_net_derived s))"

definition max_request_blocks_for :: "chain_spec \<Rightarrow> fork_name \<Rightarrow> nat" where
  "max_request_blocks_for s f =
     (if f \<ge> Deneb then unat (max_request_blocks_deneb (sp_net_deneb s))
      else unat (max_request_blocks (sp_networking s)))"

definition max_request_blob_sidecars_for :: "chain_spec \<Rightarrow> fork_name \<Rightarrow> nat" where
  "max_request_blob_sidecars_for s f =
     (if electra_enabled f then unat (max_request_blob_sidecars_electra (sp_net_electra s))
      else unat (max_request_blob_sidecars (sp_net_deneb s)))"

definition max_request_blobs_upper_bound :: "chain_spec \<Rightarrow> nat" where
  "max_request_blobs_upper_bound s =
     (if electra_fork_epoch (sp_electra s) \<noteq> None
      then unat (max_request_blob_sidecars_electra (sp_net_electra s))
      else unat (max_request_blob_sidecars (sp_net_deneb s)))"

definition blob_sidecar_subnet_count_for :: "chain_spec \<Rightarrow> fork_name \<Rightarrow> u64" where
  "blob_sidecar_subnet_count_for s f =
     (if electra_enabled f then blob_sidecar_subnet_count_electra (sp_net_electra s)
      else blob_sidecar_subnet_count (sp_net_deneb s))"

definition blob_sidecar_subnet_count_max :: "chain_spec \<Rightarrow> u64" where
  "blob_sidecar_subnet_count_max s =
     (if electra_fork_epoch (sp_electra s) \<noteq> None
      then blob_sidecar_subnet_count_electra (sp_net_electra s)
      else blob_sidecar_subnet_count (sp_net_deneb s))"

section \<open>Blobs\<close>

definition max_blobs_per_block_at :: "chain_spec \<Rightarrow> epoch \<Rightarrow> u64" where
  "max_blobs_per_block_at s e =
     (let electra = (case electra_fork_epoch (sp_electra s) of
            Some a \<Rightarrow> if e \<ge> a then max_blobs_per_block_electra (sp_net_electra s)
                       else max_blobs_per_block (sp_net_deneb s)
          | None \<Rightarrow> max_blobs_per_block (sp_net_deneb s))
      in case fulu_fork_epoch (sp_fulu s) of
           Some a \<Rightarrow> if e \<ge> a then
               (case max_blobs_for_epoch (blob_schedule (sp_net_fulu s)) e of
                  Some n \<Rightarrow> n | None \<Rightarrow> max_blobs_per_block_electra (sp_net_electra s))
             else electra
         | None \<Rightarrow> electra)"

definition get_blob_parameters :: "chain_spec \<Rightarrow> epoch \<Rightarrow> blob_parameters option outcome" where
  "get_blob_parameters s e =
     (case fulu_fork_epoch (sp_fulu s) of
        Some a \<Rightarrow> if e \<ge> a then
            (case blob_parameters_for_epoch (blob_schedule (sp_net_fulu s)) e of
               Some p \<Rightarrow> Value (Some p)
             | None \<Rightarrow> obind (expect (electra_fork_epoch (sp_electra s))) (\<lambda>electra.
                 Value (Some \<lparr>bp_epoch = electra,
                   bp_max_blobs = max_blobs_per_block_electra (sp_net_electra s)\<rparr>)))
          else Value None
      | None \<Rightarrow> Value None)"

definition max_blobs_per_block_within_fork :: "chain_spec \<Rightarrow> fork_name \<Rightarrow> u64" where
  "max_blobs_per_block_within_fork s f =
     (if \<not> fulu_enabled f then
        (if electra_enabled f then max_blobs_per_block_electra (sp_net_electra s)
         else max_blobs_per_block (sp_net_deneb s))
      else
        fold (\<lambda>entry n. if bp_max_blobs entry > n then bp_max_blobs entry else n)
          (bs_schedule (blob_schedule (sp_net_fulu s)))
          (max_blobs_per_block_electra (sp_net_electra s)))"

section \<open>Digests and domains\<close>

definition compute_fork_digest ::
  "chain_externals \<Rightarrow> chain_spec \<Rightarrow> byte list \<Rightarrow> epoch \<Rightarrow> version outcome" where
  "compute_fork_digest X s root e =
     (let base = take 4 (fork_data_root X (fork_version_for_epoch s e) root) in
      obind (get_blob_parameters s e) (\<lambda>params.
      case params of
        None \<Rightarrow> Value base
      | Some p \<Rightarrow>
          (case fulu_fork_epoch (sp_fulu s) of
             Some a \<Rightarrow> if e \<ge> a then
                 (let h = sha256 X (le_bytes 8 (unat (bp_epoch p)) @ le_bytes 8 (unat (bp_max_blobs p)))
                  in Value (map2 (\<lambda>x y. x XOR y) base h))
               else Value base
           | None \<Rightarrow> Value base)))"

definition all_digest_epochs :: "chain_spec \<Rightarrow> epoch list" where
  "all_digest_epochs s =
     btree_vec (List.map_filter snd (list_all_fork_epochs s)
       @ (if is_fulu_scheduled s then map bp_epoch (bs_schedule (blob_schedule (sp_net_fulu s)))
          else []))"

definition next_digest_epoch :: "chain_spec \<Rightarrow> epoch \<Rightarrow> epoch option" where
  "next_digest_epoch s e = List.find (\<lambda>d. d > e) (all_digest_epochs s)"

record enr_fork_id =
  en_fork_digest :: version
  en_next_fork_version :: version
  en_next_fork_epoch :: epoch

definition enr_fork_id_at ::
  "chain_externals \<Rightarrow> eth_spec \<Rightarrow> chain_spec \<Rightarrow> slot \<Rightarrow> byte list \<Rightarrow> enr_fork_id outcome" where
  "enr_fork_id_at X E s sl root =
     obind (compute_fork_digest X s root (epoch_of E sl)) (\<lambda>digest.
     Value \<lparr>en_fork_digest = digest, en_next_fork_version = next_fork_version E s sl,
       en_next_fork_epoch = (case next_digest_epoch s (epoch_of E sl) of
           Some e \<Rightarrow> e | None \<Rightarrow> far_future_epoch (sp_constants s))\<rparr>)"

text \<open>An application domain carries its own constant.\<close>

datatype domain =
    BlsToExecutionChange | BeaconProposer | BeaconAttester | Randao | Deposit | VoluntaryExit
  | SelectionProof | AggregateAndProof | SyncCommittee | ContributionAndProof
  | SyncCommitteeSelectionProof | BeaconBuilder | PTCAttester | ProposerPreferences
  | ApplicationMask u32

definition get_domain_constant :: "chain_spec \<Rightarrow> domain \<Rightarrow> u32" where
  "get_domain_constant s d = (case d of
       BeaconProposer \<Rightarrow> domain_beacon_proposer (sp_domains s)
     | BeaconAttester \<Rightarrow> domain_beacon_attester (sp_domains s)
     | Randao \<Rightarrow> domain_randao (sp_domains s)
     | Deposit \<Rightarrow> domain_deposit (sp_domains s)
     | VoluntaryExit \<Rightarrow> domain_voluntary_exit (sp_domains s)
     | SelectionProof \<Rightarrow> domain_selection_proof (sp_domains s)
     | AggregateAndProof \<Rightarrow> domain_aggregate_and_proof (sp_domains s)
     | BeaconBuilder \<Rightarrow> domain_beacon_builder (sp_domains s)
     | PTCAttester \<Rightarrow> domain_ptc_attester (sp_domains s)
     | ProposerPreferences \<Rightarrow> domain_proposer_preferences (sp_domains s)
     | SyncCommittee \<Rightarrow> domain_sync_committee (sp_altair s)
     | ContributionAndProof \<Rightarrow> domain_contribution_and_proof (sp_altair s)
     | SyncCommitteeSelectionProof \<Rightarrow> domain_sync_committee_selection_proof (sp_altair s)
     | ApplicationMask c \<Rightarrow> c
     | BlsToExecutionChange \<Rightarrow> domain_bls_to_execution_change (sp_capella_domain s))"

definition compute_domain ::
  "chain_externals \<Rightarrow> chain_spec \<Rightarrow> domain \<Rightarrow> version \<Rightarrow> byte list \<Rightarrow> byte list" where
  "compute_domain X s d v root =
     le_bytes 4 (unat (get_domain_constant s d)) @ take 28 (fork_data_root X v root)"

text \<open>\<open>Fork::get_fork_version\<close> lies outside the overlay.\<close>

definition get_domain ::
  "chain_externals \<Rightarrow> (fork \<Rightarrow> epoch \<Rightarrow> version) \<Rightarrow> chain_spec \<Rightarrow> epoch \<Rightarrow> domain \<Rightarrow> fork
     \<Rightarrow> byte list \<Rightarrow> byte list" where
  "get_domain X get_fork_version s e d fk root = compute_domain X s d (get_fork_version fk e) root"

definition get_deposit_domain :: "chain_externals \<Rightarrow> chain_spec \<Rightarrow> byte list" where
  "get_deposit_domain X s = compute_domain X s Deposit (genesis_fork_version (sp_initial s)) (replicate 32 0)"

definition get_builder_application_domain :: "chain_externals \<Rightarrow> chain_spec \<Rightarrow> byte list" where
  "get_builder_application_domain X s =
     compute_domain X s (ApplicationMask (application_domain_builder X))
       (genesis_fork_version (sp_initial s)) (replicate 32 0)"

section \<open>Epoch arithmetic and sizes\<close>

definition compute_activation_exit_epoch :: "chain_spec \<Rightarrow> epoch \<Rightarrow> epoch option" where
  "compute_activation_exit_epoch s e =
     do { e \<leftarrow> safe_add e 1; safe_add e (max_seed_lookahead (sp_timing s)) }"

definition data_columns_per_group :: "eth_spec \<Rightarrow> chain_spec \<Rightarrow> u64 outcome" where
  "data_columns_per_group E s =
     expect (safe_div (of_nat (es_number_of_columns E)) (number_of_custody_groups (sp_fulu s)))"

definition sampling_size_custody_groups :: "chain_spec \<Rightarrow> u64 \<Rightarrow> u64" where
  "sampling_size_custody_groups s n = max n (samples_per_slot (sp_fulu s))"

text \<open>A panic of the column count, or the overflow error, \<open>None\<close>.\<close>

definition sampling_size_columns :: "eth_spec \<Rightarrow> chain_spec \<Rightarrow> u64 \<Rightarrow> nat option outcome" where
  "sampling_size_columns E s n =
     obind (data_columns_per_group E s) (\<lambda>columns.
     Value (map_option unat (safe_mul columns (sampling_size_custody_groups s n))))"

definition min_epoch_data_availability_boundary :: "chain_spec \<Rightarrow> epoch \<Rightarrow> epoch option" where
  "min_epoch_data_availability_boundary s current = do {
     deneb \<leftarrow> deneb_fork_epoch (sp_deneb s);
     let retention = sat_sub current (min_epochs_for_blob_sidecars_requests (sp_net_deneb s));
     let blobs = Some (max deneb retention);
     (case fulu_fork_epoch (sp_fulu s) of
        Some fulu \<Rightarrow> if retention \<ge> fulu
          then Some (sat_sub current (min_epochs_for_data_column_sidecars_requests (sp_net_fulu s)))
          else blobs
      | None \<Rightarrow> blobs) }"

definition max_compressed_len_snappy :: "nat \<Rightarrow> nat option" where
  "max_compressed_len_snappy n = do { m \<leftarrow> checked_add 32 n; checked_add m (n div 6) }"

definition max_compressed_len :: "chain_spec \<Rightarrow> nat outcome" where
  "max_compressed_len s = expect (max_compressed_len_snappy (unat (max_payload_size (sp_networking s))))"

definition max_message_size :: "chain_spec \<Rightarrow> nat outcome" where
  "max_message_size s =
     obind (expect (max_compressed_len_snappy (unat (max_payload_size (sp_networking s))))) (\<lambda>n.
     obind (expect (checked_add n 1024)) (\<lambda>n. Value (max n (1024 * 1024))))"

definition get_attestation_due :: "eth_spec \<Rightarrow> chain_spec \<Rightarrow> slot \<Rightarrow> u64" where
  "get_attestation_due E s sl =
     (if gloas_enabled (fork_name_at_slot E s sl) then unaggregated_attestation_due_gloas (sp_due s)
      else unaggregated_attestation_due (sp_due s))"

definition proposer_shuffling_decision_slot :: "eth_spec \<Rightarrow> chain_spec \<Rightarrow> epoch \<Rightarrow> slot" where
  "proposer_shuffling_decision_slot E s e =
     (if fulu_enabled (fork_name_at_epoch s (sat_sub e 1))
      then sat_sub (start_slot E (sat_sub e (min_seed_lookahead (sp_timing s)))) 1
      else sat_sub (start_slot E (sat_sub (sat_add e 1) (min_seed_lookahead (sp_timing s)))) 1)"

section \<open>Derived values\<close>

definition compute_slot_component_duration ::
  "chain_externals \<Rightarrow> chain_spec \<Rightarrow> u64 \<Rightarrow> u64 option" where
  "compute_slot_component_duration X s bps =
     do { ms \<leftarrow> safe_mul bps (slot_duration_ms (sp_timing s)); safe_div ms (basis_points X) }"

definition due_times :: "chain_externals \<Rightarrow> chain_spec \<Rightarrow> cs_due outcome" where
  "due_times X s =
     (let t = sp_timing s; due = (\<lambda>bps. expect (compute_slot_component_duration X s bps)) in
      obind (due (attestation_due_bps t)) (\<lambda>attestation.
      obind (due (attestation_due_bps_gloas t)) (\<lambda>attestation_gloas.
      obind (due (payload_due_bps t)) (\<lambda>payload.
      obind (due (payload_attestation_due_bps t)) (\<lambda>payload_attestation.
      obind (due (aggregate_due_bps t)) (\<lambda>aggregate.
      obind (due (sync_message_due_bps t)) (\<lambda>sync.
      obind (due (contribution_due_bps t)) (\<lambda>contribution.
      Value \<lparr>unaggregated_attestation_due = attestation,
        unaggregated_attestation_due_gloas = attestation_gloas,
        payload_due = payload, payload_attestation_due = payload_attestation,
        aggregate_attestation_due = aggregate, sync_message_due = sync,
        contribution_and_proof_due = contribution\<rparr>))))))))"

definition net_derived_values :: "eth_spec \<Rightarrow> chain_spec \<Rightarrow> cs_net_derived outcome" where
  "net_derived_values E s =
     obind (max_blobs_by_root_request_common (max_request_blob_sidecars (sp_net_deneb s))) (\<lambda>blobs.
     obind (max_data_columns_by_root_request_common (es_number_of_columns E)
         (max_request_blocks_deneb (sp_net_deneb s))) (\<lambda>columns.
     Value \<lparr>max_blocks_by_root_request =
         max_blocks_by_root_request_common (max_request_blocks (sp_networking s)),
       max_blocks_by_root_request_deneb =
         max_blocks_by_root_request_common (max_request_blocks_deneb (sp_net_deneb s)),
       max_blobs_by_root_request = blobs,
       max_data_columns_by_root_request = columns,
       max_payload_envelopes_by_root_request =
         max_blocks_by_root_request_common (max_request_payloads (sp_net_gloas s))\<rparr>))"

text \<open>The four assertions, then the derived fields.\<close>

definition bps_within :: "chain_externals \<Rightarrow> chain_spec \<Rightarrow> bool" where
  "bps_within X s \<longleftrightarrow> (let t = sp_timing s in
     attestation_due_bps t \<le> basis_points X \<and> aggregate_due_bps t \<le> basis_points X
     \<and> sync_message_due_bps t \<le> basis_points X \<and> contribution_due_bps t \<le> basis_points X)"

definition compute_derived_values ::
  "chain_externals \<Rightarrow> eth_spec \<Rightarrow> chain_spec \<Rightarrow> chain_spec outcome" where
  "compute_derived_values X E s =
     (if \<not> bps_within X s then Crash
      else
        obind (due_times X s) (\<lambda>due.
        obind (net_derived_values E s) (\<lambda>derived.
        Value (s\<lparr>sp_due := due,
          sp_networking := (sp_networking s)\<lparr>attestation_subnet_prefix_bits :=
            compute_attestation_subnet_prefix_bits (attestation_subnet_count (sp_networking s))
              (attestation_subnet_extra_bits (sp_networking s))\<rparr>,
          sp_net_derived := derived\<rparr>))))"

definition set_slot_duration_ms ::
  "chain_externals \<Rightarrow> eth_spec \<Rightarrow> u64 \<Rightarrow> chain_spec \<Rightarrow> chain_spec outcome" where
  "set_slot_duration_ms X E ms s =
     compute_derived_values X E (s\<lparr>sp_timing := (sp_timing s)\<lparr>slot_duration_ms := ms,
       seconds_per_slot := ms div 1000\<rparr>\<rparr>)"

end
