(* ===== verification/Beacon_State.thy ===== *)
theory Beacon_State
  imports Chain_Spec
begin

text \<open>
  The beacon state (\<open>consensus/types/src/state/beacon_state.rs\<close>): its fields in the groups of
  the source's comments, and its accessors, the ring buffers of roots, mixes and slashings, the
  churn limits and the exit and consolidation queues. The variants of the state are a fork name
  beside one record of all fields; a field that a variant lacks is reached only behind the
  variant check of its partial getter.

  A value of a type that is defined outside the repository and that the functions here do not
  inspect has the type \<open>'o\<close>.
\<close>

section \<open>Fields\<close>

type_synonym root = "byte list"

text \<open>The parts of upstream types that the functions read.\<close>

record block_header =
  bh_slot :: slot
  bh_proposer_index :: u64
  bh_parent_root :: root
  bh_state_root :: root
  bh_body_root :: root

record eth1_data =
  e1_deposit_root :: root
  e1_deposit_count :: u64
  e1_block_hash :: root

record checkpoint =
  cp_epoch :: epoch
  cp_root :: root

record validator =
  va_pubkey :: "byte list"
  va_withdrawal_credentials :: "byte list"
  va_effective_balance :: u64
  va_slashed :: bool
  va_activation_eligibility_epoch :: epoch
  va_activation_epoch :: epoch
  va_exit_epoch :: epoch
  va_withdrawable_epoch :: epoch

record sync_committee =
  sc_pubkeys :: "byte list list"
  sc_aggregate_pubkey :: "byte list"

record pending_deposit =
  pd_pubkey :: "byte list"
  pd_withdrawal_credentials :: "byte list"
  pd_amount :: u64
  pd_signature :: "byte list"
  pd_slot :: slot

record 'o partial_withdrawal =
  pw_validator_index :: u64
  pw_amount :: u64
  pw_rest :: 'o

text \<open>Builders, their payments and bids.\<close>

record builder =
  bu_pubkey :: "byte list"
  bu_version :: byte
  bu_execution_address :: "byte list"
  bu_balance :: u64
  bu_deposit_epoch :: epoch
  bu_withdrawable_epoch :: epoch

record builder_withdrawal =
  bw_fee_recipient :: "byte list"
  bw_amount :: u64
  bw_builder_index :: u64

record builder_payment =
  bp_weight :: u64
  bp_withdrawal :: builder_withdrawal

record 'o payload_bid =
  pb_parent_block_hash :: root
  pb_parent_block_root :: root
  pb_block_hash :: root
  pb_prev_randao :: root
  pb_fee_recipient :: "byte list"
  pb_builder_index :: u64
  pb_slot :: slot
  pb_value :: u64
  pb_blob_kzg_commitments :: "byte list list"
  pb_execution_requests_root :: root
  pb_rest :: 'o

text \<open>Execution payload headers; the last two fields are those of Daisugi.\<close>

record exec_header =
  eh_parent_hash :: root
  eh_fee_recipient :: "byte list"
  eh_state_root :: root
  eh_receipts_root :: root
  eh_logs_bloom :: "byte list"
  eh_prev_randao :: root
  eh_block_number :: u64
  eh_gas_limit :: u64
  eh_gas_used :: u64
  eh_timestamp :: u64
  eh_extra_data :: "byte list"
  eh_base_fee_per_gas :: nat
  eh_block_hash :: root
  eh_transactions_root :: root
  eh_withdrawals_root :: root
  eh_blob_gas_used :: u64
  eh_excess_blob_gas :: u64
  eh_recursive_stark_proof_root :: root
  eh_recursive_stark_block_deps_hash :: root

record bs_versioning =
  bs_genesis_time :: u64
  bs_genesis_validators_root :: root
  bs_slot :: slot
  bs_fork :: fork

record bs_history =
  bs_latest_block_header :: "block_header"
  bs_block_roots :: "root list"
  bs_state_roots :: "root list"
  bs_historical_roots :: "root list"

record bs_eth1 =
  bs_eth1_data :: eth1_data
  bs_eth1_data_votes :: "eth1_data list"
  bs_eth1_deposit_index :: u64

record bs_registry =
  bs_validators :: "validator list"
  bs_balances :: "u64 list"

record bs_mixes =
  bs_randao_mixes :: "root list"
  bs_slashings :: "u64 list"

record 'o bs_attestations =
  bs_previous_epoch_attestations :: "'o list"
  bs_current_epoch_attestations :: "'o list"

record bs_participation =
  bs_previous_epoch_participation :: "byte list"
  bs_current_epoch_participation :: "byte list"
  bs_inactivity_scores :: "u64 list"
  bs_current_sync_committee :: sync_committee
  bs_next_sync_committee :: sync_committee

record bs_finality =
  bs_justification_bits :: "bool list"
  bs_previous_justified_checkpoint :: checkpoint
  bs_current_justified_checkpoint :: checkpoint
  bs_finalized_checkpoint :: checkpoint

record 'o bs_capella =
  bs_next_withdrawal_index :: u64
  bs_next_withdrawal_validator_index :: u64
  bs_historical_summaries :: "'o list"

record 'o bs_electra =
  bs_deposit_requests_start_index :: u64
  bs_deposit_balance_to_consume :: u64
  bs_exit_balance_to_consume :: u64
  bs_earliest_exit_epoch :: epoch
  bs_consolidation_balance_to_consume :: u64
  bs_earliest_consolidation_epoch :: epoch
  bs_pending_deposits :: "pending_deposit list"
  bs_pending_partial_withdrawals :: "'o partial_withdrawal list"
  bs_pending_consolidations :: "'o list"

record 'o bs_gloas =
  bs_proposer_lookahead :: "u64 list"
  bs_builders :: "builder list"
  bs_next_withdrawal_builder_index :: u64
  bs_execution_payload_availability :: "bool list"
  bs_builder_pending_payments :: "builder_payment list"
  bs_builder_pending_withdrawals :: "builder_withdrawal list"
  bs_latest_execution_payload_bid :: "'o payload_bid"
  bs_latest_block_hash :: root
  bs_payload_expected_withdrawals :: "'o list"
  bs_ptc_window :: "u64 list list"

record 'o bs_caches =
  bs_total_active_balance :: "(epoch \<times> u64) option"
  bs_committee_caches :: "'o list"
  bs_progressive_balances_cache :: 'o
  bs_pubkey_cache :: 'o
  bs_exit_cache :: 'o
  bs_slashings_cache :: 'o
  bs_epoch_cache :: 'o

record 'o beacon_state =
  st_variant :: fork_name
  st_versioning :: bs_versioning
  st_history :: "bs_history"
  st_eth1 :: "bs_eth1"
  st_registry :: "bs_registry"
  st_mixes :: bs_mixes
  st_attestations :: "'o bs_attestations"
  st_participation :: "bs_participation"
  st_finality :: bs_finality
  st_execution :: exec_header
  st_capella :: "'o bs_capella"
  st_electra :: "'o bs_electra"
  st_gloas :: "'o bs_gloas"
  st_caches :: "'o bs_caches"

datatype relative_epoch = Rel_Previous | Rel_Current | Rel_Next

datatype state_error =
    BSE_Arith
  | BSE_IncorrectStateVariant
  | BSE_SlotOutOfBounds
  | BSE_EpochOutOfBounds
  | BSE_BlockRootsOutOfBounds nat
  | BSE_StateRootsOutOfBounds nat
  | BSE_RandaoMixesOutOfBounds nat
  | BSE_SlashingsOutOfBounds nat
  | BSE_BalancesOutOfBounds nat
  | BSE_InactivityScoresOutOfBounds nat
  | BSE_UnknownValidator nat
  | BSE_TotalActiveBalanceCacheUninitialized
  | BSE_TotalActiveBalanceCacheInconsistent epoch epoch
  | BSE_InsufficientValidators
  | BSE_UnableToShuffle
  | BSE_ShuffleIndexOutOfBounds nat
  | BSE_ComputeProposerIndicesPastEpoch epoch epoch
  | BSE_ComputeProposerIndicesInsufficientLookahead epoch epoch
  | BSE_ComputeProposerIndicesExcessiveLookahead epoch epoch
  | BSE_ProposerLookaheadOutOfBounds nat
  | BSE_InvalidIndicesCount
  | BSE_SyncCommitteeNotKnown epoch epoch
  | BSE_PubkeyCacheInconsistent
  | BSE_IsAggregatorOutOfBounds
  | BSE_UnknownBuilder u64
  | BSE_WithdrawalCredentialMissingVersion
  | BSE_WithdrawalCredentialMissingAddress
  | BSE_InvalidBuilderPendingPaymentsIndex nat
  | BSE_NoCommittee slot u64
  | BSE_CommitteeCachesOutOfBounds nat
  | BSE_CommitteeCacheUninitialized "relative_epoch option"
  | BSE_MilhouseError
  | BSE_SszTypesError
  | BSE_IndexNotSupported nat
  | BSE_GeneralizedIndexNotSupported nat
  | BSE_External string

text \<open>The sizes that \<open>E: EthSpec\<close> fixes for the state.\<close>

record state_spec =
  ss_eth :: eth_spec
  ss_epochs_per_historical_vector :: u64
  ss_epochs_per_slashings_vector :: u64
  ss_slots_per_historical_root :: nat
  ss_sync_committee_size :: nat
  ss_ptc_size :: nat
  ss_slots_per_eth1_voting_period :: nat
  ss_validator_registry_limit :: nat
  ss_builder_registry_limit :: nat
  ss_builder_pending_withdrawals_limit :: nat
  ss_bytes_per_logs_bloom :: nat

section \<open>Arithmetic\<close>

definition safe_sub :: "u64 \<Rightarrow> u64 \<Rightarrow> u64 option" where
  "safe_sub a b = (if a < b then None else Some (a - b))"

definition safe_rem :: "u64 \<Rightarrow> u64 \<Rightarrow> u64 option" where
  "safe_rem a b = (if b = 0 then None else Some (a mod b))"

definition usize_rem :: "nat \<Rightarrow> nat \<Rightarrow> nat option" where
  "usize_rem a b = (if b = 0 then None else Some (a mod b))"

abbreviation arith :: "'a option \<Rightarrow> state_error + 'a" where
  "arith x \<equiv> ok_or x BSE_Arith"

text \<open>\<open>xs.get(i)\<close>.\<close>

definition list_get :: "'a list \<Rightarrow> nat \<Rightarrow> 'a option" where
  "list_get xs i = (if i < length xs then Some (xs ! i) else None)"

section \<open>Epochs and forks\<close>

abbreviation state_slot :: "'o beacon_state \<Rightarrow> slot" where
  "state_slot st \<equiv> bs_slot (st_versioning st)"

definition set_slot :: "slot \<Rightarrow> 'o beacon_state \<Rightarrow> 'o beacon_state" where
  "set_slot s st = st\<lparr>st_versioning := (st_versioning st)\<lparr>bs_slot := s\<rparr>\<rparr>"

definition current_epoch :: "state_spec \<Rightarrow> 'o beacon_state \<Rightarrow> epoch" where
  "current_epoch E st = epoch_of (ss_eth E) (state_slot st)"

definition previous_epoch :: "state_spec \<Rightarrow> 'o beacon_state \<Rightarrow> epoch" where
  "previous_epoch E st =
     (case safe_sub (current_epoch E st) 1 of Some e \<Rightarrow> e | None \<Rightarrow> current_epoch E st)"

definition next_epoch :: "state_spec \<Rightarrow> 'o beacon_state \<Rightarrow> state_error + epoch" where
  "next_epoch E st = arith (safe_add (current_epoch E st) 1)"

definition fork_name_unchecked :: "'o beacon_state \<Rightarrow> fork_name" where
  "fork_name_unchecked st = st_variant st"

text \<open>The error carries the fork at the slot and the fork of the object.\<close>

definition state_fork_name ::
  "state_spec \<Rightarrow> chain_spec \<Rightarrow> 'o beacon_state \<Rightarrow> (fork_name \<times> fork_name) + fork_name" where
  "state_fork_name E s st =
     (let at_slot = fork_name_at_epoch s (current_epoch E st); object = fork_name_unchecked st
      in if at_slot = object then Inr object else Inl (at_slot, object))"

section \<open>Roots\<close>

text \<open>\<open>slot < self.slot() && self.slot() <= slot.safe_add(len)?\<close>, then the remainder.\<close>

definition roots_index :: "'o beacon_state \<Rightarrow> nat \<Rightarrow> slot \<Rightarrow> state_error + nat" where
  "roots_index st len s =
     (if s < state_slot st then
        rbind (arith (safe_add s (of_nat len))) (\<lambda>upper.
        if state_slot st \<le> upper then arith (usize_rem (unat s) len) else Inl BSE_SlotOutOfBounds)
      else Inl BSE_SlotOutOfBounds)"

definition get_latest_block_roots_index :: "'o beacon_state \<Rightarrow> slot \<Rightarrow> state_error + nat" where
  "get_latest_block_roots_index st s = roots_index st (length (bs_block_roots (st_history st))) s"

definition get_latest_state_roots_index :: "'o beacon_state \<Rightarrow> slot \<Rightarrow> state_error + nat" where
  "get_latest_state_roots_index st s = roots_index st (length (bs_state_roots (st_history st))) s"

definition get_block_root :: "'o beacon_state \<Rightarrow> slot \<Rightarrow> state_error + root" where
  "get_block_root st s = rbind (get_latest_block_roots_index st s) (\<lambda>i.
     ok_or (list_get (bs_block_roots (st_history st)) i) (BSE_BlockRootsOutOfBounds i))"

definition set_block_root ::
  "slot \<Rightarrow> root \<Rightarrow> 'o beacon_state \<Rightarrow> state_error + 'o beacon_state" where
  "set_block_root s r st = rbind (get_latest_block_roots_index st s) (\<lambda>i.
     let roots = bs_block_roots (st_history st) in
     if i < length roots
     then Inr (st\<lparr>st_history := (st_history st)\<lparr>bs_block_roots := roots[i := r]\<rparr>\<rparr>)
     else Inl (BSE_BlockRootsOutOfBounds i))"

definition get_state_root :: "'o beacon_state \<Rightarrow> slot \<Rightarrow> state_error + root" where
  "get_state_root st s = rbind (get_latest_state_roots_index st s) (\<lambda>i.
     ok_or (list_get (bs_state_roots (st_history st)) i) (BSE_StateRootsOutOfBounds i))"

definition set_state_root ::
  "slot \<Rightarrow> root \<Rightarrow> 'o beacon_state \<Rightarrow> state_error + 'o beacon_state" where
  "set_state_root s r st = rbind (get_latest_state_roots_index st s) (\<lambda>i.
     let roots = bs_state_roots (st_history st) in
     if i < length roots
     then Inr (st\<lparr>st_history := (st_history st)\<lparr>bs_state_roots := roots[i := r]\<rparr>\<rparr>)
     else Inl (BSE_StateRootsOutOfBounds i))"

definition get_block_root_at_epoch ::
  "state_spec \<Rightarrow> 'o beacon_state \<Rightarrow> epoch \<Rightarrow> state_error + root" where
  "get_block_root_at_epoch E st e = get_block_root st (start_slot (ss_eth E) e)"

definition get_state_root_at_epoch_start ::
  "state_spec \<Rightarrow> 'o beacon_state \<Rightarrow> epoch \<Rightarrow> state_error + root" where
  "get_state_root_at_epoch_start E st e = get_state_root st (start_slot (ss_eth E) e)"

definition get_oldest_block_root :: "'o beacon_state \<Rightarrow> state_error + root" where
  "get_oldest_block_root st = get_block_root st
     (sat_sub (state_slot st) (of_nat (length (bs_block_roots (st_history st)))))"

definition get_oldest_state_root :: "'o beacon_state \<Rightarrow> state_error + root" where
  "get_oldest_state_root st = get_state_root st
     (sat_sub (state_slot st) (of_nat (length (bs_state_roots (st_history st)))))"

text \<open>\<open>canonical_root\<close> is the tree hash of the header.\<close>

definition get_latest_block_root ::
  "(block_header \<Rightarrow> root) \<Rightarrow> 'o beacon_state \<Rightarrow> root \<Rightarrow> root" where
  "get_latest_block_root canonical_root st current =
     (let header = bs_latest_block_header (st_history st)
      in if bh_state_root header = replicate 32 0
         then canonical_root (header\<lparr>bh_state_root := current\<rparr>)
         else canonical_root header)"

definition proposer_shuffling_decision_root_at_epoch ::
  "state_spec \<Rightarrow> chain_spec \<Rightarrow> 'o beacon_state \<Rightarrow> epoch \<Rightarrow> root \<Rightarrow> state_error + root" where
  "proposer_shuffling_decision_root_at_epoch E s st e block_root =
     (let decision = proposer_shuffling_decision_slot (ss_eth E) s e
      in if state_slot st \<le> decision then Inr block_root else get_block_root st decision)"

definition attester_shuffling_decision_slot ::
  "state_spec \<Rightarrow> 'o beacon_state \<Rightarrow> relative_epoch \<Rightarrow> slot" where
  "attester_shuffling_decision_slot E st rel =
     sat_sub (start_slot (ss_eth E) (case rel of
         Rel_Next \<Rightarrow> current_epoch E st
       | Rel_Current \<Rightarrow> previous_epoch E st
       | Rel_Previous \<Rightarrow> sat_sub (previous_epoch E st) 1)) 1"

definition attester_shuffling_decision_root ::
  "state_spec \<Rightarrow> 'o beacon_state \<Rightarrow> root \<Rightarrow> relative_epoch \<Rightarrow> state_error + root" where
  "attester_shuffling_decision_root E st block_root rel =
     (let decision = attester_shuffling_decision_slot E st rel
      in if state_slot st = decision then Inr block_root else get_block_root st decision)"

section \<open>Randomness and slashings\<close>

datatype allow_next_epoch = Allow_True | Allow_False

definition upper_bound_of :: "allow_next_epoch \<Rightarrow> epoch \<Rightarrow> state_error + epoch" where
  "upper_bound_of allow e = (case allow of
       Allow_True \<Rightarrow> arith (safe_add e 1) | Allow_False \<Rightarrow> Inr e)"

text \<open>\<open>current < epoch.safe_add(len)? && epoch <= upper_bound?\<close>, then the remainder.\<close>

definition epoch_index ::
  "state_spec \<Rightarrow> u64 \<Rightarrow> 'o beacon_state \<Rightarrow> epoch \<Rightarrow> allow_next_epoch \<Rightarrow> state_error + nat" where
  "epoch_index E len st e allow =
     (let current = current_epoch E st in
      rbind (arith (safe_add e len)) (\<lambda>limit.
      if current < limit then
        rbind (upper_bound_of allow current) (\<lambda>upper.
        if e \<le> upper then arith (usize_rem (unat e) (unat len)) else Inl BSE_EpochOutOfBounds)
      else Inl BSE_EpochOutOfBounds))"

definition get_randao_mix_index ::
  "state_spec \<Rightarrow> 'o beacon_state \<Rightarrow> epoch \<Rightarrow> allow_next_epoch \<Rightarrow> state_error + nat" where
  "get_randao_mix_index E st e allow = epoch_index E (ss_epochs_per_historical_vector E) st e allow"

definition get_randao_mix :: "state_spec \<Rightarrow> 'o beacon_state \<Rightarrow> epoch \<Rightarrow> state_error + root" where
  "get_randao_mix E st e = rbind (get_randao_mix_index E st e Allow_False) (\<lambda>i.
     ok_or (list_get (bs_randao_mixes (st_mixes st)) i) (BSE_RandaoMixesOutOfBounds i))"

definition set_randao_mix ::
  "state_spec \<Rightarrow> epoch \<Rightarrow> root \<Rightarrow> 'o beacon_state \<Rightarrow> state_error + 'o beacon_state" where
  "set_randao_mix E e mix st = rbind (get_randao_mix_index E st e Allow_True) (\<lambda>i.
     let mixes = bs_randao_mixes (st_mixes st) in
     if i < length mixes
     then Inr (st\<lparr>st_mixes := (st_mixes st)\<lparr>bs_randao_mixes := mixes[i := mix]\<rparr>\<rparr>)
     else Inl (BSE_RandaoMixesOutOfBounds i))"

definition min_randao_epoch :: "state_spec \<Rightarrow> 'o beacon_state \<Rightarrow> epoch" where
  "min_randao_epoch E st =
     sat_sub (sat_add (current_epoch E st) 1) (ss_epochs_per_historical_vector E)"

text \<open>The assignment evaluates its right-hand side, \<open>get_randao_mix\<close>, before its place.\<close>

definition update_randao_mix ::
  "state_spec \<Rightarrow> chain_externals \<Rightarrow> epoch \<Rightarrow> byte list \<Rightarrow> 'o beacon_state
     \<Rightarrow> state_error + 'o beacon_state" where
  "update_randao_mix E X e signature st =
     rbind (arith (usize_rem (unat e) (unat (ss_epochs_per_historical_vector E)))) (\<lambda>i.
     rbind (get_randao_mix E st e) (\<lambda>mix.
     let mixes = bs_randao_mixes (st_mixes st) in
     if i < length mixes
     then Inr (st\<lparr>st_mixes := (st_mixes st)\<lparr>bs_randao_mixes :=
            mixes[i := map2 (\<lambda>x y. x XOR y) mix (sha256 X signature)]\<rparr>\<rparr>)
     else Inl (BSE_RandaoMixesOutOfBounds i)))"

definition get_slashings_index ::
  "state_spec \<Rightarrow> 'o beacon_state \<Rightarrow> epoch \<Rightarrow> allow_next_epoch \<Rightarrow> state_error + nat" where
  "get_slashings_index E st e allow = epoch_index E (ss_epochs_per_slashings_vector E) st e allow"

definition get_slashings :: "state_spec \<Rightarrow> 'o beacon_state \<Rightarrow> epoch \<Rightarrow> state_error + u64" where
  "get_slashings E st e = rbind (get_slashings_index E st e Allow_False) (\<lambda>i.
     ok_or (list_get (bs_slashings (st_mixes st)) i) (BSE_SlashingsOutOfBounds i))"

definition set_slashings ::
  "state_spec \<Rightarrow> epoch \<Rightarrow> u64 \<Rightarrow> 'o beacon_state \<Rightarrow> state_error + 'o beacon_state" where
  "set_slashings E e v st = rbind (get_slashings_index E st e Allow_True) (\<lambda>i.
     let slashings = bs_slashings (st_mixes st) in
     if i < length slashings
     then Inr (st\<lparr>st_mixes := (st_mixes st)\<lparr>bs_slashings := slashings[i := v]\<rparr>\<rparr>)
     else Inl (BSE_SlashingsOutOfBounds i))"

definition get_seed ::
  "state_spec \<Rightarrow> chain_externals \<Rightarrow> chain_spec \<Rightarrow> 'o beacon_state \<Rightarrow> epoch \<Rightarrow> domain
     \<Rightarrow> state_error + root" where
  "get_seed E X s st e d =
     rbind (arith (do {
       i \<leftarrow> safe_add e (ss_epochs_per_historical_vector E);
       i \<leftarrow> safe_sub i (min_seed_lookahead (sp_timing s));
       i \<leftarrow> safe_sub i 1;
       usize_rem (unat i) (length (bs_randao_mixes (st_mixes st))) })) (\<lambda>i.
     rbind (ok_or (list_get (bs_randao_mixes (st_mixes st)) i) (BSE_RandaoMixesOutOfBounds i)) (\<lambda>mix.
     Inr (sha256 X (le_bytes 4 (unat (get_domain_constant s d)) @ le_bytes 8 (unat e) @ mix))))"

end
