(* ===== verification/Slot_Processing.thy ===== *)
theory Slot_Processing
  imports Beacon_State
begin

text \<open>
  Slot processing (\<open>consensus/state_processing/src/per_slot_processing.rs\<close>), the upgrade of an
  Electra state to Daisugi (\<open>upgrade/daisugi.rs\<close>) and of its payload header
  (\<open>types/src/execution/execution_payload_header.rs\<close>). Every step returns its result beside the
  state it leaves, changed or not. Epoch processing, the other upgrades, the caches and the tree
  hash are upstream code and fields of \<open>slot_externals\<close>.
\<close>

datatype slot_error =
    SE_State state_error
  | SE_Epoch string
  | SE_Arith
  | SE_Inconsistent fork_name fork_name
  | SE_Bitfield

record ('o, 'm) slot_externals =
  sx_tree_hash :: "'o beacon_state \<Rightarrow> state_error + root"
  sx_header_root :: "block_header \<Rightarrow> root"
  sx_epoch_processing :: "chain_spec \<Rightarrow> ('o beacon_state, string, 'm) step"
  sx_upgrade :: "fork_name \<Rightarrow> chain_spec \<Rightarrow> ('o beacon_state, state_error, unit) step"
  sx_build_caches :: "chain_spec \<Rightarrow> ('o beacon_state, state_error, unit) step"
  sx_empty_caches :: "'o bs_caches"

section \<open>The upgrade to Daisugi\<close>

text \<open>\<open>ExecutionPayloadHeaderElectra::upgrade_to_daisugi\<close>.\<close>

definition upgrade_header_to_daisugi :: "exec_header \<Rightarrow> exec_header" where
  "upgrade_header_to_daisugi h = \<lparr>
     eh_parent_hash = eh_parent_hash h,
     eh_fee_recipient = eh_fee_recipient h,
     eh_state_root = eh_state_root h,
     eh_receipts_root = eh_receipts_root h,
     eh_logs_bloom = eh_logs_bloom h,
     eh_prev_randao = eh_prev_randao h,
     eh_block_number = eh_block_number h,
     eh_gas_limit = eh_gas_limit h,
     eh_gas_used = eh_gas_used h,
     eh_timestamp = eh_timestamp h,
     eh_extra_data = eh_extra_data h,
     eh_base_fee_per_gas = eh_base_fee_per_gas h,
     eh_block_hash = eh_block_hash h,
     eh_transactions_root = eh_transactions_root h,
     eh_withdrawals_root = eh_withdrawals_root h,
     eh_blob_gas_used = eh_blob_gas_used h,
     eh_excess_blob_gas = eh_excess_blob_gas h,
     eh_recursive_stark_proof_root = replicate 32 0,
     eh_recursive_stark_block_deps_hash = replicate 32 0\<rparr>"

text \<open>\<open>BeaconStateDaisugi { ... }\<close>, field by field. The groups that neither variant has keep the
  value no getter reaches.\<close>

definition daisugi_state :: "state_spec \<Rightarrow> chain_spec \<Rightarrow> 'o beacon_state \<Rightarrow> 'o beacon_state" where
  "daisugi_state E s pre = \<lparr>
     st_variant = Daisugi,
     st_versioning = \<lparr>
       bs_genesis_time = bs_genesis_time (st_versioning pre),
       bs_genesis_validators_root = bs_genesis_validators_root (st_versioning pre),
       bs_slot = bs_slot (st_versioning pre),
       bs_fork = \<lparr>
         fk_previous_version = fk_current_version (bs_fork (st_versioning pre)),
         fk_current_version = daisugi_fork_version (sp_daisugi s),
         fk_epoch = current_epoch E pre\<rparr>\<rparr>,
     st_history = \<lparr>
       bs_latest_block_header = bs_latest_block_header (st_history pre),
       bs_block_roots = bs_block_roots (st_history pre),
       bs_state_roots = bs_state_roots (st_history pre),
       bs_historical_roots = bs_historical_roots (st_history pre)\<rparr>,
     st_eth1 = \<lparr>
       bs_eth1_data = bs_eth1_data (st_eth1 pre),
       bs_eth1_data_votes = bs_eth1_data_votes (st_eth1 pre),
       bs_eth1_deposit_index = bs_eth1_deposit_index (st_eth1 pre)\<rparr>,
     st_registry = \<lparr>
       bs_validators = bs_validators (st_registry pre),
       bs_balances = bs_balances (st_registry pre)\<rparr>,
     st_mixes = \<lparr>
       bs_randao_mixes = bs_randao_mixes (st_mixes pre),
       bs_slashings = bs_slashings (st_mixes pre)\<rparr>,
     st_attestations = st_attestations pre,
     st_participation = \<lparr>
       bs_previous_epoch_participation = bs_previous_epoch_participation (st_participation pre),
       bs_current_epoch_participation = bs_current_epoch_participation (st_participation pre),
       bs_inactivity_scores = bs_inactivity_scores (st_participation pre),
       bs_current_sync_committee = bs_current_sync_committee (st_participation pre),
       bs_next_sync_committee = bs_next_sync_committee (st_participation pre)\<rparr>,
     st_finality = \<lparr>
       bs_justification_bits = bs_justification_bits (st_finality pre),
       bs_previous_justified_checkpoint = bs_previous_justified_checkpoint (st_finality pre),
       bs_current_justified_checkpoint = bs_current_justified_checkpoint (st_finality pre),
       bs_finalized_checkpoint = bs_finalized_checkpoint (st_finality pre)\<rparr>,
     st_execution = upgrade_header_to_daisugi (st_execution pre),
     st_capella = \<lparr>
       bs_next_withdrawal_index = bs_next_withdrawal_index (st_capella pre),
       bs_next_withdrawal_validator_index = bs_next_withdrawal_validator_index (st_capella pre),
       bs_historical_summaries = bs_historical_summaries (st_capella pre)\<rparr>,
     st_electra = \<lparr>
       bs_deposit_requests_start_index = bs_deposit_requests_start_index (st_electra pre),
       bs_deposit_balance_to_consume = bs_deposit_balance_to_consume (st_electra pre),
       bs_exit_balance_to_consume = bs_exit_balance_to_consume (st_electra pre),
       bs_earliest_exit_epoch = bs_earliest_exit_epoch (st_electra pre),
       bs_consolidation_balance_to_consume = bs_consolidation_balance_to_consume (st_electra pre),
       bs_earliest_consolidation_epoch = bs_earliest_consolidation_epoch (st_electra pre),
       bs_pending_deposits = bs_pending_deposits (st_electra pre),
       bs_pending_partial_withdrawals = bs_pending_partial_withdrawals (st_electra pre),
       bs_pending_consolidations = bs_pending_consolidations (st_electra pre)\<rparr>,
     st_gloas = st_gloas pre,
     st_caches = \<lparr>
       bs_total_active_balance = bs_total_active_balance (st_caches pre),
       bs_committee_caches = bs_committee_caches (st_caches pre),
       bs_progressive_balances_cache = bs_progressive_balances_cache (st_caches pre),
       bs_pubkey_cache = bs_pubkey_cache (st_caches pre),
       bs_exit_cache = bs_exit_cache (st_caches pre),
       bs_slashings_cache = bs_slashings_cache (st_caches pre),
       bs_epoch_cache = bs_epoch_cache (st_caches pre)\<rparr>\<rparr>"

text \<open>What \<open>mem::take\<close> leaves behind.\<close>

definition taken_state :: "'o bs_caches \<Rightarrow> 'o beacon_state \<Rightarrow> 'o beacon_state" where
  "taken_state defaults pre = pre\<lparr>
     st_history := (st_history pre)\<lparr>bs_historical_roots := []\<rparr>,
     st_eth1 := (st_eth1 pre)\<lparr>bs_eth1_data_votes := []\<rparr>,
     st_registry := (st_registry pre)\<lparr>bs_validators := [], bs_balances := []\<rparr>,
     st_participation := (st_participation pre)\<lparr>bs_previous_epoch_participation := [],
       bs_current_epoch_participation := [], bs_inactivity_scores := []\<rparr>,
     st_caches := defaults\<lparr>bs_total_active_balance := bs_total_active_balance (st_caches pre)\<rparr>\<rparr>"

definition upgrade_state_to_daisugi ::
  "('o, 'm) slot_externals \<Rightarrow> state_spec \<Rightarrow> chain_spec
     \<Rightarrow> ('o beacon_state, state_error, 'o beacon_state) step" where
  "upgrade_state_to_daisugi X E s pre =
     (if st_variant pre \<noteq> Electra then (Inl BSE_IncorrectStateVariant, pre)
      else (Inr (daisugi_state E s pre), taken_state (sx_empty_caches X) pre))"

definition upgrade_to_daisugi ::
  "('o, 'm) slot_externals \<Rightarrow> state_spec \<Rightarrow> chain_spec \<Rightarrow> ('o beacon_state, state_error, unit) step" where
  "upgrade_to_daisugi X E s =
     step_bind (upgrade_state_to_daisugi X E s) (\<lambda>post st. (Inr (), post))"

section \<open>Caching the previous roots\<close>

definition add_slot :: "('o beacon_state, slot_error, unit) step" where
  "add_slot = step_try (\<lambda>st. case safe_add (state_slot st) 1 of
     None \<Rightarrow> Inl SE_Arith | Some sl \<Rightarrow> Inr (set_slot sl st))"

definition sub_slot :: "('o beacon_state, slot_error, unit) step" where
  "sub_slot = step_try (\<lambda>st. case safe_sub (state_slot st) 1 of
     None \<Rightarrow> Inl SE_Arith | Some sl \<Rightarrow> Inr (set_slot sl st))"

definition fill_header_root :: "root \<Rightarrow> 'o beacon_state \<Rightarrow> 'o beacon_state" where
  "fill_header_root r st =
     (let h = bs_latest_block_header (st_history st) in
      if bh_state_root h = replicate 32 0
      then st\<lparr>st_history := (st_history st)\<lparr>bs_latest_block_header := h\<lparr>bh_state_root := r\<rparr>\<rparr>\<rparr>
      else st)"

definition cache_state ::
  "('o, 'm) slot_externals \<Rightarrow> root option \<Rightarrow> ('o beacon_state, slot_error, unit) step" where
  "cache_state X state_root =
     step_bind (case state_root of
         Some r \<Rightarrow> step_get (\<lambda>st. Inr r)
       | None \<Rightarrow> step_err SE_State (step_get (sx_tree_hash X))) (\<lambda>previous_root.
     step_bind (step_get (\<lambda>st. Inr (state_slot st))) (\<lambda>previous_slot.
     step_bind add_slot (\<lambda>_.
     step_bind (step_err SE_State (step_try (set_state_root previous_slot previous_root))) (\<lambda>_.
     step_bind (step_try (\<lambda>st. Inr (fill_header_root previous_root st))) (\<lambda>_.
     step_bind (step_err SE_State (step_try (\<lambda>st.
         set_block_root previous_slot (sx_header_root X (bs_latest_block_header (st_history st))) st)))
       (\<lambda>_. sub_slot))))))"

section \<open>One slot\<close>

text \<open>The upgrades in the order of the code, each when its epoch has come.\<close>

definition upgrade_to ::
  "('o, 'm) slot_externals \<Rightarrow> state_spec \<Rightarrow> chain_spec \<Rightarrow> fork_name
     \<Rightarrow> ('o beacon_state, state_error, unit) step" where
  "upgrade_to X E s f = (if f = Daisugi then upgrade_to_daisugi X E s else sx_upgrade X f s)"

definition maybe_upgrade ::
  "('o, 'm) slot_externals \<Rightarrow> state_spec \<Rightarrow> chain_spec \<Rightarrow> fork_name
     \<Rightarrow> ('o beacon_state, slot_error, unit) step" where
  "maybe_upgrade X E s f st =
     (if fork_epoch s f = Some (current_epoch E st)
      then step_err SE_State (upgrade_to X E s f) st else (Inr (), st))"

fun run_upgrades ::
  "('o, 'm) slot_externals \<Rightarrow> state_spec \<Rightarrow> chain_spec \<Rightarrow> fork_name list
     \<Rightarrow> ('o beacon_state, slot_error, unit) step" where
  "run_upgrades X E s [] = step_get (\<lambda>st. Inr ())"
| "run_upgrades X E s (f # fs) = step_bind (maybe_upgrade X E s f) (\<lambda>_. run_upgrades X E s fs)"

definition upgrade_order :: "fork_name list" where
  "upgrade_order = [Altair, Bellatrix, Capella, Deneb, Electra, Daisugi, Fulu, Gloas]"

definition unset_next_availability ::
  "state_spec \<Rightarrow> ('o beacon_state, slot_error, unit) step" where
  "unset_next_availability E = step_try (\<lambda>st.
     if gloas_enabled (fork_name_unchecked st) then
       (case do { n \<leftarrow> checked_add (unat (state_slot st)) 1; usize_rem n (ss_slots_per_historical_root E) } of
          None \<Rightarrow> Inl SE_Arith
        | Some i \<Rightarrow>
            (let bits = bs_execution_payload_availability (st_gloas st) in
             if i < length bits
             then Inr (st\<lparr>st_gloas := (st_gloas st)\<lparr>bs_execution_payload_availability := bits[i := False]\<rparr>\<rparr>)
             else Inl SE_Bitfield))
     else Inr st)"

text \<open>\<open>slot > genesis_slot && (slot + 1) % slots_per_epoch == 0\<close>, and the check after the
  increment.\<close>

definition ends_epoch :: "state_spec \<Rightarrow> chain_spec \<Rightarrow> 'o beacon_state \<Rightarrow> slot_error + bool" where
  "ends_epoch E s st =
     (if state_slot st > genesis_slot (sp_constants s) then
        rbind (ok_or (do { n \<leftarrow> safe_add (state_slot st) 1; safe_rem n (es_slots_per_epoch (ss_eth E)) }) SE_Arith)
          (\<lambda>r. Inr (r = 0))
      else Inr False)"

definition starts_epoch :: "state_spec \<Rightarrow> 'o beacon_state \<Rightarrow> slot_error + bool" where
  "starts_epoch E st = rbind (ok_or (safe_rem (state_slot st) (es_slots_per_epoch (ss_eth E))) SE_Arith)
     (\<lambda>r. Inr (r = 0))"

definition per_slot_processing ::
  "('o, 'm) slot_externals \<Rightarrow> state_spec \<Rightarrow> chain_spec \<Rightarrow> root option
     \<Rightarrow> ('o beacon_state, slot_error, 'm option) step" where
  "per_slot_processing X E s state_root =
     step_bind (step_get (\<lambda>st. case state_fork_name E s st of
         Inl (a, b) \<Rightarrow> Inl (SE_Inconsistent a b) | Inr f \<Rightarrow> Inr f)) (\<lambda>_.
     step_bind (cache_state X state_root) (\<lambda>_.
     step_bind (step_get (ends_epoch E s)) (\<lambda>ends.
     step_bind (if ends then step_bind (step_err SE_Epoch (sx_epoch_processing X s))
           (\<lambda>m. step_get (\<lambda>st. Inr (Some m)))
         else step_get (\<lambda>st. Inr None)) (\<lambda>summary.
     step_bind (unset_next_availability E) (\<lambda>_.
     step_bind add_slot (\<lambda>_.
     step_bind (step_get (starts_epoch E)) (\<lambda>starts.
     step_bind (if starts then step_bind (run_upgrades X E s upgrade_order)
           (\<lambda>_. step_err SE_State (sx_build_caches X s))
         else step_get (\<lambda>st. Inr ())) (\<lambda>_.
     step_get (\<lambda>st. Inr summary)))))))))"

end
