(* ===== verification/Beacon_Churn.thy ===== *)
theory Beacon_Churn
  imports Beacon_State
begin

text \<open>
  Balances, churn and the exit and consolidation queues of the beacon state
  (\<open>consensus/types/src/state/beacon_state.rs\<close>). A function that changes the state and may
  fail after a change returns the result beside the state it leaves.
\<close>

section \<open>Balances and validators\<close>

definition get_balance :: "'o beacon_state \<Rightarrow> nat \<Rightarrow> state_error + u64" where
  "get_balance st i = ok_or (list_get (bs_balances (st_registry st)) i) (BSE_BalancesOutOfBounds i)"

definition get_validator :: "'o beacon_state \<Rightarrow> nat \<Rightarrow> state_error + validator" where
  "get_validator st i = ok_or (list_get (bs_validators (st_registry st)) i) (BSE_UnknownValidator i)"

definition get_effective_balance :: "'o beacon_state \<Rightarrow> nat \<Rightarrow> state_error + u64" where
  "get_effective_balance st i = rbind (get_validator st i) (\<lambda>v. Inr (va_effective_balance v))"

text \<open>Partial getters: the field behind its variant check.\<close>

definition partial_getter :: "bool \<Rightarrow> 'a \<Rightarrow> state_error + 'a" where
  "partial_getter present x = (if present then Inr x else Inl BSE_IncorrectStateVariant)"

abbreviation electra_field :: "'o beacon_state \<Rightarrow> ('o bs_electra \<Rightarrow> 'a) \<Rightarrow> state_error + 'a" where
  "electra_field st f \<equiv> partial_getter (electra_enabled (st_variant st)) (f (st_electra st))"

definition get_inactivity_score :: "'o beacon_state \<Rightarrow> nat \<Rightarrow> state_error + u64" where
  "get_inactivity_score st i =
     rbind (partial_getter (altair_enabled (st_variant st)) (bs_inactivity_scores (st_participation st)))
       (\<lambda>scores. ok_or (list_get scores i) (BSE_InactivityScoresOutOfBounds i))"

text \<open>The active balance; \<open>is_active_at\<close> is a method of \<open>Validator\<close>.\<close>

fun sum_active :: "(validator \<Rightarrow> epoch \<Rightarrow> bool) \<Rightarrow> epoch \<Rightarrow> validator list \<Rightarrow> u64 \<Rightarrow> u64 option" where
  "sum_active is_active_at e [] acc = Some acc"
| "sum_active is_active_at e (v # vs) acc =
     (if is_active_at v e
      then do { acc \<leftarrow> safe_add acc (va_effective_balance v); sum_active is_active_at e vs acc }
      else sum_active is_active_at e vs acc)"

definition compute_total_active_balance_slow ::
  "(validator \<Rightarrow> epoch \<Rightarrow> bool) \<Rightarrow> state_spec \<Rightarrow> chain_spec \<Rightarrow> 'o beacon_state \<Rightarrow> state_error + u64" where
  "compute_total_active_balance_slow is_active_at E s st =
     rbind (arith (sum_active is_active_at (current_epoch E st) (bs_validators (st_registry st)) 0))
       (\<lambda>total. Inr (max total (effective_balance_increment (sp_gwei s))))"

definition get_total_active_balance_at_epoch :: "'o beacon_state \<Rightarrow> epoch \<Rightarrow> state_error + u64" where
  "get_total_active_balance_at_epoch st e =
     (case bs_total_active_balance (st_caches st) of
        None \<Rightarrow> Inl BSE_TotalActiveBalanceCacheUninitialized
      | Some (initialized, balance) \<Rightarrow>
          if initialized = e then Inr balance
          else Inl (BSE_TotalActiveBalanceCacheInconsistent initialized e))"

definition get_total_active_balance :: "state_spec \<Rightarrow> 'o beacon_state \<Rightarrow> state_error + u64" where
  "get_total_active_balance E st = get_total_active_balance_at_epoch st (current_epoch E st)"

definition set_total_active_balance ::
  "epoch \<Rightarrow> u64 \<Rightarrow> chain_spec \<Rightarrow> 'o beacon_state \<Rightarrow> 'o beacon_state" where
  "set_total_active_balance e balance s st = st\<lparr>st_caches := (st_caches st)\<lparr>bs_total_active_balance :=
     Some (e, max balance (effective_balance_increment (sp_gwei s)))\<rparr>\<rparr>"

definition force_build_total_active_balance_cache ::
  "(validator \<Rightarrow> epoch \<Rightarrow> bool) \<Rightarrow> state_spec \<Rightarrow> chain_spec \<Rightarrow> 'o beacon_state
     \<Rightarrow> state_error + 'o beacon_state" where
  "force_build_total_active_balance_cache is_active_at E s st =
     rbind (compute_total_active_balance_slow is_active_at E s st) (\<lambda>total.
     Inr (st\<lparr>st_caches := (st_caches st)\<lparr>bs_total_active_balance := Some (current_epoch E st, total)\<rparr>\<rparr>))"

definition build_total_active_balance_cache ::
  "(validator \<Rightarrow> epoch \<Rightarrow> bool) \<Rightarrow> state_spec \<Rightarrow> chain_spec \<Rightarrow> 'o beacon_state
     \<Rightarrow> state_error + 'o beacon_state" where
  "build_total_active_balance_cache is_active_at E s st =
     (case get_total_active_balance_at_epoch st (current_epoch E st) of
        Inl _ \<Rightarrow> force_build_total_active_balance_cache is_active_at E s st
      | Inr _ \<Rightarrow> Inr st)"

definition drop_total_active_balance_cache :: "'o beacon_state \<Rightarrow> 'o beacon_state" where
  "drop_total_active_balance_cache st =
     st\<lparr>st_caches := (st_caches st)\<lparr>bs_total_active_balance := None\<rparr>\<rparr>"

definition is_eligible_validator ::
  "(validator \<Rightarrow> epoch \<Rightarrow> bool) \<Rightarrow> epoch \<Rightarrow> validator \<Rightarrow> state_error + bool" where
  "is_eligible_validator is_active_at previous v =
     (if is_active_at v previous then Inr True
      else if va_slashed v
      then rbind (arith (safe_add previous 1)) (\<lambda>e. Inr (e < va_withdrawable_epoch v))
      else Inr False)"

definition is_in_inactivity_leak ::
  "chain_spec \<Rightarrow> 'o beacon_state \<Rightarrow> epoch \<Rightarrow> bool option" where
  "is_in_inactivity_leak s st previous =
     map_option (\<lambda>d. d > min_epochs_to_inactivity_penalty (sp_timing s))
       (safe_sub previous (cp_epoch (bs_finalized_checkpoint (st_finality st))))"

definition get_proportional_slashing_multiplier :: "chain_spec \<Rightarrow> 'o beacon_state \<Rightarrow> u64" where
  "get_proportional_slashing_multiplier s st =
     (let f = fork_name_unchecked st in
      if f \<ge> Bellatrix then proportional_slashing_multiplier_bellatrix (sp_bellatrix s)
      else if f \<ge> Altair then proportional_slashing_multiplier_altair (sp_altair s)
      else proportional_slashing_multiplier (sp_misc s))"

definition get_min_slashing_penalty_quotient :: "chain_spec \<Rightarrow> 'o beacon_state \<Rightarrow> u64" where
  "get_min_slashing_penalty_quotient s st =
     (let f = fork_name_unchecked st in
      if electra_enabled f then min_slashing_penalty_quotient_electra (sp_electra s)
      else if f \<ge> Bellatrix then min_slashing_penalty_quotient_bellatrix (sp_bellatrix s)
      else if f \<ge> Altair then min_slashing_penalty_quotient_altair (sp_altair s)
      else min_slashing_penalty_quotient (sp_rewards s))"

definition get_whistleblower_reward_quotient :: "chain_spec \<Rightarrow> 'o beacon_state \<Rightarrow> u64" where
  "get_whistleblower_reward_quotient s st =
     (if electra_enabled (fork_name_unchecked st)
      then whistleblower_reward_quotient_electra (sp_electra s)
      else whistleblower_reward_quotient (sp_rewards s))"

section \<open>Churn limits\<close>

text \<open>The active validator count of the current committee cache is a parameter.\<close>

definition get_validator_churn_limit :: "chain_spec \<Rightarrow> u64 \<Rightarrow> state_error + u64" where
  "get_validator_churn_limit s active =
     rbind (arith (safe_div active (churn_limit_quotient (sp_misc s)))) (\<lambda>n.
     Inr (max (min_per_epoch_churn_limit (sp_misc s)) n))"

definition get_activation_churn_limit ::
  "chain_spec \<Rightarrow> 'o beacon_state \<Rightarrow> u64 \<Rightarrow> state_error + u64" where
  "get_activation_churn_limit s st active =
     (if st_variant st \<in> {Base, Altair, Bellatrix, Capella} then get_validator_churn_limit s active
      else rbind (get_validator_churn_limit s active) (\<lambda>n.
        Inr (min (max_per_epoch_activation_churn_limit (sp_misc s)) n)))"

definition round_down :: "u64 \<Rightarrow> u64 \<Rightarrow> state_error + u64" where
  "round_down increment churn =
     arith (do { r \<leftarrow> safe_rem churn increment; safe_sub churn r })"

definition get_balance_churn_limit ::
  "state_spec \<Rightarrow> chain_spec \<Rightarrow> 'o beacon_state \<Rightarrow> state_error + u64" where
  "get_balance_churn_limit E s st =
     rbind (get_total_active_balance E st) (\<lambda>total.
     (let quotient = (if gloas_enabled (fork_name_unchecked st)
            then churn_limit_quotient_gloas (sp_gloas s) else churn_limit_quotient (sp_misc s))
      in rbind (arith (safe_div total quotient)) (\<lambda>n.
         round_down (effective_balance_increment (sp_gwei s))
           (max (min_per_epoch_churn_limit_electra (sp_electra s)) n))))"

definition get_activation_exit_churn_limit ::
  "state_spec \<Rightarrow> chain_spec \<Rightarrow> 'o beacon_state \<Rightarrow> state_error + u64" where
  "get_activation_exit_churn_limit E s st =
     (let max_limit = (if gloas_enabled (fork_name_unchecked st)
            then max_per_epoch_activation_churn_limit_gloas (sp_gloas s)
            else max_per_epoch_activation_exit_churn_limit (sp_electra s))
      in rbind (get_balance_churn_limit E s st) (\<lambda>n. Inr (min max_limit n)))"

definition get_exit_churn_limit ::
  "state_spec \<Rightarrow> chain_spec \<Rightarrow> 'o beacon_state \<Rightarrow> state_error + u64" where
  "get_exit_churn_limit E s st = get_balance_churn_limit E s st"

definition get_consolidation_churn_limit ::
  "state_spec \<Rightarrow> chain_spec \<Rightarrow> 'o beacon_state \<Rightarrow> state_error + u64" where
  "get_consolidation_churn_limit E s st =
     (if gloas_enabled (fork_name_unchecked st) then
        rbind (get_total_active_balance E st) (\<lambda>total.
        rbind (arith (safe_div total (consolidation_churn_limit_quotient (sp_gloas s)))) (\<lambda>churn.
        round_down (effective_balance_increment (sp_gwei s)) churn))
      else
        rbind (get_balance_churn_limit E s st) (\<lambda>n.
        rbind (get_activation_exit_churn_limit E s st) (\<lambda>m. arith (safe_sub n m))))"

section \<open>Pending withdrawals and excess balance\<close>

fun safe_sum :: "u64 list \<Rightarrow> u64 \<Rightarrow> u64 option" where
  "safe_sum [] acc = Some acc"
| "safe_sum (x # xs) acc = do { acc \<leftarrow> safe_add acc x; safe_sum xs acc }"

definition get_pending_balance_to_withdraw :: "'o beacon_state \<Rightarrow> nat \<Rightarrow> state_error + u64" where
  "get_pending_balance_to_withdraw st i =
     rbind (electra_field st bs_pending_partial_withdrawals) (\<lambda>ws.
     arith (safe_sum (map pw_amount (filter (\<lambda>w. unat (pw_validator_index w) = i) ws)) 0))"

text \<open>\<open>infinity\<close> is the signature at infinity, and \<open>limit\<close> the capacity of the list, beyond which
  \<open>push\<close> fails. The balance is lowered before the validator and the list are reached.\<close>

definition queue_excess_active_balance ::
  "chain_spec \<Rightarrow> byte list \<Rightarrow> nat \<Rightarrow> nat \<Rightarrow> 'o beacon_state
     \<Rightarrow> (state_error + unit) \<times> 'o beacon_state" where
  "queue_excess_active_balance s infinity limit i st =
     (let balances = bs_balances (st_registry st); floor = min_activation_balance (sp_electra s) in
      if i \<ge> length balances then (Inl (BSE_UnknownValidator i), st)
      else if balances ! i > floor then
        (let excess = balances ! i - floor;
             st = st\<lparr>st_registry := (st_registry st)\<lparr>bs_balances := balances[i := floor]\<rparr>\<rparr>
         in case get_validator st i of
              Inl e \<Rightarrow> (Inl e, st)
            | Inr v \<Rightarrow>
                (case electra_field st bs_pending_deposits of
                   Inl e \<Rightarrow> (Inl e, st)
                 | Inr pending \<Rightarrow>
                     if length pending \<ge> limit then (Inl (BSE_External ''list full''), st)
                     else (Inr (), st\<lparr>st_electra := (st_electra st)\<lparr>bs_pending_deposits :=
                       pending @ [\<lparr>pd_pubkey = va_pubkey v,
                         pd_withdrawal_credentials = va_withdrawal_credentials v,
                         pd_amount = excess, pd_signature = infinity,
                         pd_slot = genesis_slot (sp_constants s)\<rparr>]\<rparr>\<rparr>)))
      else (Inr (), st))"

definition switch_to_compounding_validator ::
  "chain_spec \<Rightarrow> byte list \<Rightarrow> nat \<Rightarrow> nat \<Rightarrow> 'o beacon_state
     \<Rightarrow> (state_error + unit) \<times> 'o beacon_state" where
  "switch_to_compounding_validator s infinity limit i st =
     (let validators = bs_validators (st_registry st) in
      if i \<ge> length validators then (Inl (BSE_UnknownValidator i), st)
      else
        (let v = validators ! i;
             v = v\<lparr>va_withdrawal_credentials := (va_withdrawal_credentials v)
               [0 := compounding_withdrawal_prefix_byte (sp_initial s)]\<rparr>
         in queue_excess_active_balance s infinity limit i
              (st\<lparr>st_registry := (st_registry st)\<lparr>bs_validators := validators[i := v]\<rparr>\<rparr>)))"

section \<open>The exit and consolidation queues\<close>

text \<open>The common computation: the new earliest epoch and the balance left in it.\<close>

definition churn_step ::
  "epoch \<Rightarrow> u64 \<Rightarrow> u64 \<Rightarrow> u64 \<Rightarrow> (epoch \<times> u64) option" where
  "churn_step earliest to_consume balance churn =
     (if balance > to_consume then do {
        to_process \<leftarrow> safe_sub balance to_consume;
        n \<leftarrow> safe_sub to_process 1;
        n \<leftarrow> safe_div n churn;
        additional \<leftarrow> safe_add n 1;
        earliest \<leftarrow> safe_add earliest additional;
        more \<leftarrow> safe_mul additional churn;
        to_consume \<leftarrow> safe_add to_consume more;
        rest \<leftarrow> safe_sub to_consume balance;
        Some (earliest, rest) }
      else do {
        rest \<leftarrow> safe_sub to_consume balance;
        Some (earliest, rest) })"

definition compute_exit_epoch_and_update_churn ::
  "state_spec \<Rightarrow> chain_spec \<Rightarrow> u64 \<Rightarrow> 'o beacon_state \<Rightarrow> state_error + epoch \<times> 'o beacon_state" where
  "compute_exit_epoch_and_update_churn E s balance st =
     rbind (electra_field st bs_earliest_exit_epoch) (\<lambda>queued.
     rbind (arith (compute_activation_exit_epoch s (current_epoch E st))) (\<lambda>activation.
     (let earliest = max queued activation in
      rbind (if gloas_enabled (fork_name_unchecked st) then get_exit_churn_limit E s st
             else get_activation_exit_churn_limit E s st) (\<lambda>churn.
      rbind (if queued < earliest then Inr churn else electra_field st bs_exit_balance_to_consume)
        (\<lambda>to_consume.
      rbind (arith (churn_step earliest to_consume balance churn)) (\<lambda>(earliest, rest).
      Inr (earliest, st\<lparr>st_electra := (st_electra st)\<lparr>bs_exit_balance_to_consume := rest,
        bs_earliest_exit_epoch := earliest\<rparr>\<rparr>)))))))"

definition compute_consolidation_epoch_and_update_churn ::
  "state_spec \<Rightarrow> chain_spec \<Rightarrow> u64 \<Rightarrow> 'o beacon_state \<Rightarrow> state_error + epoch \<times> 'o beacon_state" where
  "compute_consolidation_epoch_and_update_churn E s balance st =
     rbind (electra_field st bs_earliest_consolidation_epoch) (\<lambda>queued.
     rbind (arith (compute_activation_exit_epoch s (current_epoch E st))) (\<lambda>activation.
     (let earliest = max queued activation in
      rbind (get_consolidation_churn_limit E s st) (\<lambda>churn.
      rbind (if queued < earliest then Inr churn
             else electra_field st bs_consolidation_balance_to_consume) (\<lambda>to_consume.
      rbind (arith (churn_step earliest to_consume balance churn)) (\<lambda>(earliest, rest).
      Inr (earliest, st\<lparr>st_electra := (st_electra st)\<lparr>bs_consolidation_balance_to_consume := rest,
        bs_earliest_consolidation_epoch := earliest\<rparr>\<rparr>)))))))"

section \<open>Weak subjectivity\<close>

definition SAFETY_DECAY :: u64 where "SAFETY_DECAY = 10"
definition DEFAULT_PRE_ELECTRA_WS_PERIOD :: u64 where "DEFAULT_PRE_ELECTRA_WS_PERIOD = 256"

definition compute_weak_subjectivity_period_electra ::
  "chain_spec \<Rightarrow> u64 \<Rightarrow> u64 \<Rightarrow> state_error + epoch" where
  "compute_weak_subjectivity_period_electra s active churn = arith (do {
     a \<leftarrow> safe_mul SAFETY_DECAY active;
     b \<leftarrow> safe_mul churn 200;
     epochs \<leftarrow> safe_div a b;
     safe_add (min_validator_withdrawability_delay (sp_timing s)) epochs })"

definition compute_weak_subjectivity_period_gloas ::
  "chain_spec \<Rightarrow> u64 \<Rightarrow> u64 \<Rightarrow> u64 \<Rightarrow> u64 \<Rightarrow> state_error + epoch" where
  "compute_weak_subjectivity_period_gloas s active exit activation consolidation = arith (do {
     a \<leftarrow> safe_mul exit 2;
     a \<leftarrow> safe_div a 3;
     b \<leftarrow> safe_div activation 3;
     a \<leftarrow> safe_add a b;
     delta \<leftarrow> safe_add a consolidation;
     n \<leftarrow> safe_mul SAFETY_DECAY active;
     d \<leftarrow> safe_mul delta 200;
     epochs \<leftarrow> safe_div n d;
     safe_add (min_validator_withdrawability_delay (sp_timing s)) epochs })"

definition compute_weak_subjectivity_period ::
  "state_spec \<Rightarrow> chain_spec \<Rightarrow> 'o beacon_state \<Rightarrow> state_error + epoch" where
  "compute_weak_subjectivity_period E s st =
     rbind (get_total_active_balance E st) (\<lambda>total.
     (let f = fork_name_unchecked st in
      if gloas_enabled f then
        rbind (get_exit_churn_limit E s st) (\<lambda>exit.
        rbind (get_activation_exit_churn_limit E s st) (\<lambda>activation.
        rbind (get_consolidation_churn_limit E s st) (\<lambda>consolidation.
        compute_weak_subjectivity_period_gloas s total exit activation consolidation)))
      else if electra_enabled f then
        rbind (get_balance_churn_limit E s st) (\<lambda>churn.
        compute_weak_subjectivity_period_electra s total churn)
      else Inr DEFAULT_PRE_ELECTRA_WS_PERIOD))"

end
