(* ===== verification/Beacon_Facts.thy ===== *)
theory Beacon_Facts
  imports Beacon_Churn
begin

text \<open>
  The guarantees of the state's accessors: the ring buffers of roots, mixes and slashings behave
  like maps on the window of positions that can be read, the exit queue gives each exit the
  earliest epoch with room for it, and the churn limits share out the balance churn.
\<close>

section \<open>Ring buffers\<close>

text \<open>A vector indexed by a position that moves with the state. Writing may reach a position that
  cannot be read yet, and then overwrites the position it will replace.\<close>

locale ring_buffer =
  fixes get_index :: "'st \<Rightarrow> 'p \<Rightarrow> 'e + nat"
    and set_index :: "'st \<Rightarrow> 'p \<Rightarrow> 'e + nat"
    and cells :: "'st \<Rightarrow> 'v list"
    and put :: "'v list \<Rightarrow> 'st \<Rightarrow> 'st"
    and get :: "'st \<Rightarrow> 'p \<Rightarrow> 'e + 'v"
    and set_cell :: "'p \<Rightarrow> 'v \<Rightarrow> 'st \<Rightarrow> 'e + 'st"
    and err :: "nat \<Rightarrow> 'e"
    and ok :: "'st \<Rightarrow> bool"
    and replaces :: "'st \<Rightarrow> 'p \<Rightarrow> 'p \<Rightarrow> bool"
  assumes get_eq: "get st a = rbind (get_index st a) (\<lambda>i. ok_or (list_get (cells st) i) (err i))"
    and set_eq: "set_cell a v st = rbind (set_index st a) (\<lambda>i. if i < length (cells st)
      then Inr (put ((cells st)[i := v]) st) else Inl (err i))"
    and cells_put: "cells (put xs st) = xs"
    and index_put: "length xs = length (cells st) \<Longrightarrow> get_index (put xs st) a = get_index st a"
    and index_same: "set_index st a = Inr i \<Longrightarrow> get_index st a = Inr j \<Longrightarrow> i = j"
    and index_inj: "ok st \<Longrightarrow> set_index st a = Inr i \<Longrightarrow> get_index st b = Inr i \<Longrightarrow> a \<noteq> b
      \<Longrightarrow> replaces st a b"
begin

lemma set_cell_Inr:
  assumes "set_cell a v st = Inr st'"
  obtains i where "set_index st a = Inr i" "i < length (cells st)"
    "st' = put ((cells st)[i := v]) st"
  using assms by (auto simp: set_eq rbind_Inr split: if_splits)

lemma get_set_same:
  assumes "set_cell a v st = Inr st'" and "get_index st a = Inr j"
  shows "get st' a = Inr v"
  using assms(1)
proof (rule set_cell_Inr)
  fix i assume i: "set_index st a = Inr i" "i < length (cells st)" "st' = put ((cells st)[i := v]) st"
  then show ?thesis
    using index_same [OF i(1) assms(2)] assms(2)
    by (simp add: get_eq index_put cells_put list_get_def ok_or_def)
qed

lemma get_set_other:
  assumes "ok st" and "set_cell a v st = Inr st'" and "a \<noteq> b" and "\<not> replaces st a b"
  shows "get st' b = get st b"
  using assms(2)
proof (rule set_cell_Inr)
  fix i assume i: "set_index st a = Inr i" "i < length (cells st)" "st' = put ((cells st)[i := v]) st"
  then have "get_index st b \<noteq> Inr i" using assms index_inj by blast
  with i show ?thesis
    by (cases "get_index st b") (auto simp: get_eq index_put cells_put list_get_def ok_or_def)
qed

end

lemma safe_add_Some: "safe_add a b = Some c \<longleftrightarrow> unat a + unat b < 2 ^ 64 \<and> c = a + b"
  by (auto simp: safe_add_def)

lemma unat_safe_add: "safe_add a b = Some c \<Longrightarrow> unat c = unat a + unat b"
  by (auto simp: safe_add_Some unat_add_lem [THEN iffD1])

lemma usize_rem_Some: "usize_rem a b = Some c \<longleftrightarrow> b \<noteq> 0 \<and> c = a mod b"
  by (auto simp: usize_rem_def)

lemma arith_Inr: "arith x = Inr y \<longleftrightarrow> x = Some y"
  by (auto simp: ok_or_def split: option.splits)

lemma close_mod_eq:
  fixes a b n :: nat
  assumes "a mod n = b mod n" and "a < b + n" and "b < a + n"
  shows "a = b"
proof (rule ccontr)
  assume "a \<noteq> b"
  have far: "x + n \<le> y" if "x < y" "x mod n = y mod n" for x y
  proof -
    have "n dvd y - x" using that mod_eq_dvd_iff_nat [of x y n] by simp
    then have "n \<le> y - x" using that by (intro dvd_imp_le) auto
    then show ?thesis using that by linarith
  qed
  show False using far [of a b] far [of b a] assms \<open>a \<noteq> b\<close> by (cases "a < b") auto
qed

lemma roots_index_Inr:
  assumes "roots_index st len s = Inr i" and "len < 2 ^ 64"
  shows "i = unat s mod len \<and> 0 < len \<and> s < state_slot st \<and> unat (state_slot st) \<le> unat s + len"
proof -
  have "s < state_slot st"
    using assms(1) by (simp add: roots_index_def split: if_splits)
  moreover from this obtain upper where u: "safe_add s (of_nat len) = Some upper"
    "state_slot st \<le> upper" "usize_rem (unat s) len = Some i"
    using assms(1) by (simp add: roots_index_def rbind_Inr arith_Inr split: if_splits)
  moreover have "unat upper = unat s + len"
    using unat_safe_add [OF u(1)] assms(2) by (simp add: unat_of_nat take_bit_nat_eq_self)
  ultimately show ?thesis by (simp add: usize_rem_Some word_le_nat_alt)
qed

lemma roots_index_inj:
  assumes "roots_index st len a = Inr i" and "roots_index st len b = Inr i" and "len < 2 ^ 64"
  shows "a = b"
proof -
  note w = roots_index_Inr [OF assms(1,3)] roots_index_Inr [OF assms(2,3)]
  have "unat a < unat (state_slot st)" "unat b < unat (state_slot st)"
    using w unfolding word_less_nat_alt by blast+
  then have "unat a < unat b + len" "unat b < unat a + len" using w by linarith+
  then have "unat a = unat b" using w close_mod_eq by metis
  then show ?thesis by (rule word_unat_eq_iff [THEN iffD2])
qed

definition put_block_roots :: "root list \<Rightarrow> 'o beacon_state \<Rightarrow> 'o beacon_state" where
  "put_block_roots xs st = st\<lparr>st_history := (st_history st)\<lparr>bs_block_roots := xs\<rparr>\<rparr>"

definition put_state_roots :: "root list \<Rightarrow> 'o beacon_state \<Rightarrow> 'o beacon_state" where
  "put_state_roots xs st = st\<lparr>st_history := (st_history st)\<lparr>bs_state_roots := xs\<rparr>\<rparr>"

lemma roots_index_cong: "state_slot st' = state_slot st \<Longrightarrow> roots_index st' = roots_index st"
  by (simp add: fun_eq_iff roots_index_def)

abbreviation bounded_roots :: "(bs_history \<Rightarrow> root list) \<Rightarrow> 'o beacon_state \<Rightarrow> bool" where
  "bounded_roots f st \<equiv> length (f (st_history st)) < 2 ^ 64"

interpretation block_ring: ring_buffer get_latest_block_roots_index get_latest_block_roots_index
  "\<lambda>st. bs_block_roots (st_history st)" put_block_roots get_block_root set_block_root
  BSE_BlockRootsOutOfBounds "bounded_roots bs_block_roots" "\<lambda>st a b. False"
proof unfold_locales
  fix st :: "'a beacon_state" and xs a
  show "get_latest_block_roots_index (put_block_roots xs st) a = get_latest_block_roots_index st a"
    if "length xs = length (bs_block_roots (st_history st))"
    using that roots_index_cong [of "put_block_roots xs st" st]
    by (simp add: get_latest_block_roots_index_def put_block_roots_def)
qed (auto simp: get_block_root_def set_block_root_def put_block_roots_def Let_def
      get_latest_block_roots_index_def dest: roots_index_inj cong: if_cong)

interpretation state_ring: ring_buffer get_latest_state_roots_index get_latest_state_roots_index
  "\<lambda>st. bs_state_roots (st_history st)" put_state_roots get_state_root set_state_root
  BSE_StateRootsOutOfBounds "bounded_roots bs_state_roots" "\<lambda>st a b. False"
proof unfold_locales
  fix st :: "'a beacon_state" and xs a
  show "get_latest_state_roots_index (put_state_roots xs st) a = get_latest_state_roots_index st a"
    if "length xs = length (bs_state_roots (st_history st))"
    using that roots_index_cong [of "put_state_roots xs st" st]
    by (simp add: get_latest_state_roots_index_def put_state_roots_def)
qed (auto simp: get_state_root_def set_state_root_def put_state_roots_def Let_def
      get_latest_state_roots_index_def dest: roots_index_inj cong: if_cong)


text \<open>Mixes and slashings may also be written one epoch ahead.\<close>

lemma upper_bound_le: "(\<exists>u. upper_bound_of allow c = Inr u \<and> e \<le> u) \<longleftrightarrow> (case allow of
    Allow_False \<Rightarrow> unat e \<le> unat c
  | Allow_True \<Rightarrow> unat c + 1 < 2 ^ 64 \<and> unat e \<le> unat c + 1)"
proof (cases allow)
  case Allow_True
  have "unat (c + 1) = unat c + 1" if "unat c + 1 < 2 ^ 64"
    using that unat_safe_add [of c 1 "c + 1"] by (simp add: safe_add_def)
  with Allow_True show ?thesis
    by (simp add: upper_bound_of_def arith_Inr safe_add_Some word_le_nat_alt) metis
qed (simp add: upper_bound_of_def word_le_nat_alt)

lemma epoch_index_Inr: "epoch_index E len st e allow = Inr i \<longleftrightarrow>
    len \<noteq> 0 \<and> unat e + unat len < 2 ^ 64 \<and> unat (current_epoch E st) < unat e + unat len \<and>
    (case allow of Allow_False \<Rightarrow> unat e \<le> unat (current_epoch E st)
       | Allow_True \<Rightarrow> unat (current_epoch E st) + 1 < 2 ^ 64 \<and> unat e \<le> unat (current_epoch E st) + 1) \<and>
    i = unat e mod unat len"
proof (cases "unat e + unat len < 2 ^ 64")
  case True
  then have limit: "safe_add e len = Some (e + len)" and sum: "unat (e + len) = unat e + unat len"
    by (simp_all add: safe_add_Some unat_add_lem [THEN iffD1])
  have "epoch_index E len st e allow = Inr i \<longleftrightarrow> unat (current_epoch E st) < unat e + unat len \<and>
      (\<exists>u. upper_bound_of allow (current_epoch E st) = Inr u \<and> e \<le> u) \<and>
      len \<noteq> 0 \<and> i = unat e mod unat len"
    by (auto simp: epoch_index_def Let_def rbind_Inr limit sum usize_rem_def ok_or_def
        word_less_nat_alt unat_eq_0 split: if_splits)
  then show ?thesis unfolding upper_bound_le using True by blast
qed (simp add: epoch_index_def Let_def safe_add_def ok_or_def)


lemma epoch_index_replaces:
  assumes "epoch_index E len st a Allow_True = Inr i" and "epoch_index E len st b Allow_False = Inr i"
    and "a \<noteq> b"
  shows "unat a = unat b + unat len"
proof -
  note w = assms(1,2) [unfolded epoch_index_Inr, simplified]
  have ne: "unat a \<noteq> unat b" using assms(3) by (simp add: word_unat_eq_iff)
  have lt: "unat b < unat a"
  proof (rule ccontr)
    assume "\<not> unat b < unat a"
    then have "unat a < unat b + unat len" "unat b < unat a + unat len" using w by linarith+
    then show False using w ne close_mod_eq by metis
  qed
  show ?thesis
  proof (rule ccontr)
    assume "unat a \<noteq> unat b + unat len"
    then have "unat a < unat b + unat len" using w by linarith
    then show False using w ne lt close_mod_eq [of "unat a" "unat len" "unat b"] by simp
  qed
qed

lemma epoch_index_replaced:
  assumes "epoch_index E len st a Allow_True = Inr i" and "unat a = unat b + unat len"
    and "current_epoch E st < a"
  shows "epoch_index E len st b Allow_False = Inr i"
proof -
  have "unat len \<noteq> 0" using assms(1) by (simp add: epoch_index_Inr unat_eq_0)
  then show ?thesis using assms by (simp add: epoch_index_Inr word_less_nat_alt)
qed

definition put_mixes :: "root list \<Rightarrow> 'o beacon_state \<Rightarrow> 'o beacon_state" where
  "put_mixes xs st = st\<lparr>st_mixes := (st_mixes st)\<lparr>bs_randao_mixes := xs\<rparr>\<rparr>"

definition put_slashings :: "u64 list \<Rightarrow> 'o beacon_state \<Rightarrow> 'o beacon_state" where
  "put_slashings xs st = st\<lparr>st_mixes := (st_mixes st)\<lparr>bs_slashings := xs\<rparr>\<rparr>"

lemma put_mixes_slot [simp]:
  "st_versioning (put_mixes xs st) = st_versioning st"
  "st_versioning (put_slashings ys st) = st_versioning st"
  "bs_randao_mixes (st_mixes (put_mixes xs st)) = xs"
  "bs_slashings (st_mixes (put_slashings ys st)) = ys"
  by (simp_all add: put_mixes_def put_slashings_def)

lemma epoch_index_cong:
  "st_versioning st' = st_versioning st \<Longrightarrow> epoch_index E len st' = epoch_index E len st"
  by (simp add: fun_eq_iff epoch_index_def current_epoch_def)

abbreviation replaces_by :: "u64 \<Rightarrow> epoch \<Rightarrow> epoch \<Rightarrow> bool" where
  "replaces_by len a b \<equiv> unat a = unat b + unat len"

interpretation mix_ring: ring_buffer "\<lambda>st e. get_randao_mix_index E st e Allow_False"
  "\<lambda>st e. get_randao_mix_index E st e Allow_True" "\<lambda>st. bs_randao_mixes (st_mixes st)" put_mixes
  "get_randao_mix E" "set_randao_mix E" BSE_RandaoMixesOutOfBounds "\<lambda>st. True"
  "\<lambda>st. replaces_by (ss_epochs_per_historical_vector E)" for E
proof unfold_locales
  fix st :: "'a beacon_state" and a b i
  assume "get_randao_mix_index E st a Allow_True = Inr i" "get_randao_mix_index E st b Allow_False = Inr i" "a \<noteq> b"
  then show "unat a = unat b + unat (ss_epochs_per_historical_vector E)"
    unfolding get_randao_mix_index_def by (rule epoch_index_replaces)
next
  fix st :: "'a beacon_state" and xs a
  show "get_randao_mix_index E (put_mixes xs st) a Allow_False = get_randao_mix_index E st a Allow_False"
    unfolding get_randao_mix_index_def by (simp add: epoch_index_cong [of "put_mixes xs st" st])
qed (simp_all add: get_randao_mix_def set_randao_mix_def get_randao_mix_index_def put_mixes_def Let_def epoch_index_Inr
      cong: if_cong)

interpretation slashing_ring: ring_buffer "\<lambda>st e. get_slashings_index E st e Allow_False"
  "\<lambda>st e. get_slashings_index E st e Allow_True" "\<lambda>st. bs_slashings (st_mixes st)" put_slashings
  "get_slashings E" "set_slashings E" BSE_SlashingsOutOfBounds "\<lambda>st. True"
  "\<lambda>st. replaces_by (ss_epochs_per_slashings_vector E)" for E
proof unfold_locales
  fix st :: "'a beacon_state" and a b i
  assume "get_slashings_index E st a Allow_True = Inr i" "get_slashings_index E st b Allow_False = Inr i" "a \<noteq> b"
  then show "unat a = unat b + unat (ss_epochs_per_slashings_vector E)"
    unfolding get_slashings_index_def by (rule epoch_index_replaces)
next
  fix st :: "'a beacon_state" and xs a
  show "get_slashings_index E (put_slashings xs st) a Allow_False = get_slashings_index E st a Allow_False"
    unfolding get_slashings_index_def by (simp add: epoch_index_cong [of "put_slashings xs st" st])
qed (simp_all add: get_slashings_def set_slashings_def get_slashings_index_def put_slashings_def Let_def epoch_index_Inr
      cong: if_cong)


lemma set_randao_mix_Inr:
  assumes "set_randao_mix E e mix st = Inr st'"
  obtains i where "epoch_index E (ss_epochs_per_historical_vector E) st e Allow_True = Inr i"
    and "i < length (bs_randao_mixes (st_mixes st))"
    and "st' = put_mixes ((bs_randao_mixes (st_mixes st))[i := mix]) st"
  using assms by (rule mix_ring.set_cell_Inr) (simp add: get_randao_mix_index_def)

lemma mix_written:
  assumes "set_randao_mix E e mix st = Inr st'" and "e \<le> current_epoch E st"
  shows "get_randao_mix E st' e = Inr mix"
  using assms(1)
proof (rule set_randao_mix_Inr)
  fix i assume "epoch_index E (ss_epochs_per_historical_vector E) st e Allow_True = Inr i"
  then have "get_randao_mix_index E st e Allow_False = Inr i"
    using assms(2) by (simp add: get_randao_mix_index_def epoch_index_Inr word_le_nat_alt)
  then show ?thesis by (rule mix_ring.get_set_same [OF assms(1)])
qed

lemma mix_replaced:
  assumes "set_randao_mix E e mix st = Inr st'" and "current_epoch E st < e"
    and "replaces_by (ss_epochs_per_historical_vector E) e b"
  shows "get_randao_mix E st' b = Inr mix"
  using assms(1)
proof (rule set_randao_mix_Inr)
  fix i assume i: "epoch_index E (ss_epochs_per_historical_vector E) st e Allow_True = Inr i"
    "i < length (bs_randao_mixes (st_mixes st))"
    and st': "st' = put_mixes ((bs_randao_mixes (st_mixes st))[i := mix]) st"
  have "epoch_index E (ss_epochs_per_historical_vector E) st b Allow_False = Inr i"
    using i(1) assms(3,2) by (rule epoch_index_replaced)
  then have "epoch_index E (ss_epochs_per_historical_vector E) st' b Allow_False = Inr i"
    by (simp add: st' epoch_index_cong [of "put_mixes _ st" st])
  then show ?thesis using i(2)
    by (simp add: get_randao_mix_def get_randao_mix_index_def list_get_def ok_or_def st')
qed

lemma mix_unreadable:
  assumes "set_randao_mix E e mix st = Inr st'"
    and "\<And>i. epoch_index E (ss_epochs_per_historical_vector E) st b Allow_False \<noteq> Inr i"
  shows "get_randao_mix E st' b = get_randao_mix E st b"
  using assms(1)
proof (rule set_randao_mix_Inr)
  fix i assume st': "st' = put_mixes ((bs_randao_mixes (st_mixes st))[i := mix]) st"
  obtain err where "epoch_index E (ss_epochs_per_historical_vector E) st b Allow_False = Inl err"
    using assms(2) by (cases "epoch_index E (ss_epochs_per_historical_vector E) st b Allow_False") auto
  then show ?thesis
    by (simp add: get_randao_mix_def get_randao_mix_index_def st' epoch_index_cong [of "put_mixes _ st" st])
qed

lemma mix_ahead:
  "set_randao_mix E e mix st = Inr st' \<Longrightarrow> current_epoch E st < e
    \<Longrightarrow> get_randao_mix E st' e = get_randao_mix E st e"
  by (erule mix_unreadable) (simp add: epoch_index_Inr word_less_nat_alt)

lemma mix_unread:
  "set_randao_mix E e mix st = Inr st' \<Longrightarrow> e \<le> current_epoch E st
    \<Longrightarrow> replaces_by (ss_epochs_per_historical_vector E) e b
    \<Longrightarrow> get_randao_mix E st' b = get_randao_mix E st b"
  by (erule mix_unreadable) (simp add: epoch_index_Inr word_le_nat_alt)

text \<open>
  Writing the mix of an epoch up to the next one keeps every mix that can be read, with two
  exceptions: the epoch itself reads the new mix, if it can be read at all, and writing the next
  epoch ahead replaces the mix of the epoch one vector length before it.\<close>

theorem mixes_ring:
  assumes "set_randao_mix E e mix st = Inr st'"
  shows "unat e \<le> unat (current_epoch E st) + 1 \<and> get_randao_mix E st' b =
    (if e \<le> current_epoch E st then (if b = e then Inr mix else get_randao_mix E st b)
     else if unat e = unat b + unat (ss_epochs_per_historical_vector E) then Inr mix
     else get_randao_mix E st b)"
proof
  show "unat e \<le> unat (current_epoch E st) + 1"
    using assms by (rule set_randao_mix_Inr) (simp add: epoch_index_Inr)
  have ahead: "get_randao_mix E st' e = get_randao_mix E st e" if "\<not> e \<le> current_epoch E st"
    using mix_ahead [OF assms] that by simp
  show "get_randao_mix E st' b =
    (if e \<le> current_epoch E st then (if b = e then Inr mix else get_randao_mix E st b)
     else if unat e = unat b + unat (ss_epochs_per_historical_vector E) then Inr mix
     else get_randao_mix E st b)"
    using mix_written [OF assms] mix_replaced [OF assms, of b] mix_unread [OF assms, of b] ahead
      mix_ring.get_set_other [OF TrueI assms, of b] by (auto simp: not_le)
qed


section \<open>Roots\<close>

lemma set_block_root_keeps: "set_block_root s r st = Inr st' \<Longrightarrow>
    st' = put_block_roots (bs_block_roots (st_history st')) st"
  by (auto simp: set_block_root_def Let_def rbind_Inr put_block_roots_def split: if_splits)

lemma set_state_root_keeps: "set_state_root s r st = Inr st' \<Longrightarrow>
    st' = put_state_roots (bs_state_roots (st_history st')) st"
  by (auto simp: set_state_root_def Let_def rbind_Inr put_state_roots_def split: if_splits)

section \<open>The exit and consolidation queues\<close>

text \<open>The number of further epochs is the least that makes room for the balance.\<close>

definition least_epochs :: "nat \<Rightarrow> nat \<Rightarrow> nat \<Rightarrow> nat \<Rightarrow> bool" where
  "least_epochs left churn balance n \<longleftrightarrow>
     balance \<le> left + n * churn \<and> (\<forall>m < n. left + m * churn < balance)"

lemma least_epochs_unique:
  "least_epochs l c b n \<Longrightarrow> least_epochs l c b m \<Longrightarrow> n = m"
  by (metis least_epochs_def linorder_neqE_nat not_le)

lemma least_epochs_div:
  assumes "l < b" and "0 < c"
  shows "least_epochs l c b ((b - l - 1) div c + 1)"
  unfolding least_epochs_def
proof (intro conjI allI impI)
  let ?k = "(b - l - 1) div c"
  have "b - l - 1 < (?k + 1) * c" using assms(2)
    by (metis Suc_eq_plus1 dividend_less_div_times mult.commute mult_Suc)
  then show "b \<le> l + (?k + 1) * c" using assms(1) by linarith
  fix m assume "m < ?k + 1"
  then have "m * c \<le> ?k * c" by (intro mult_right_mono) auto
  also have "\<dots> \<le> b - l - 1" by (rule div_times_less_eq_dividend)
  finally show "l + m * c < b" using assms(1) by linarith
qed

lemma least_epochs_add:
  assumes "least_epochs l c b n" and "least_epochs (l + n * c - b) c b' n'"
  shows "least_epochs l c (b + b') (n + n')"
  unfolding least_epochs_def
proof (intro conjI allI impI)
  show "b + b' \<le> l + (n + n') * c"
    using assms unfolding least_epochs_def add_mult_distrib by linarith
  fix m assume m: "m < n + n'"
  show "l + m * c < b + b'"
  proof (cases "m < n")
    case True
    then show ?thesis using assms(1) by (force simp: least_epochs_def)
  next
    case False
    then obtain k where k: "m = n + k" "k < n'" using m by (metis add_less_cancel_left le_Suc_ex not_less)
    then have "l + n * c - b + k * c < b'" using assms(2) by (simp add: least_epochs_def)
    then show ?thesis using assms(1) k(1) by (simp add: least_epochs_def algebra_simps)
  qed
qed

lemma least_epochs_split:
  assumes "least_epochs l c (b + b') n"
  obtains m m' where "n = m + m'" and "least_epochs l c b m" and "least_epochs (l + m * c - b) c b' m'"
proof -
  define m where "m = (LEAST m. b \<le> l + m * c)"
  have ok: "b \<le> l + n * c" using assms by (simp add: least_epochs_def)
  have m: "least_epochs l c b m" unfolding least_epochs_def m_def
    using LeastI [of "\<lambda>m. b \<le> l + m * c", OF ok] not_less_Least [of _ "\<lambda>m. b \<le> l + m * c"] by force
  have "m \<le> n" unfolding m_def using ok by (rule Least_le)
  moreover have "least_epochs (l + m * c - b) c b' (n - m)"
    unfolding least_epochs_def
  proof (intro conjI allI impI)
    have "b \<le> l + m * c" using m by (simp add: least_epochs_def)
    then show "b' \<le> l + m * c - b + (n - m) * c"
      using assms mult_le_mono1 [OF \<open>m \<le> n\<close>, of c]
      unfolding least_epochs_def diff_mult_distrib by linarith
    fix k assume "k < n - m"
    then have "l + (m + k) * c < b + b'" using assms by (simp add: least_epochs_def)
    then show "l + m * c - b + k * c < b'"
      using \<open>b \<le> l + m * c\<close> by (simp add: algebra_simps)
  qed
  ultimately show thesis using that [of m "n - m"] m by simp
qed


text \<open>Checked arithmetic succeeds exactly when the word holds the value on natural numbers.\<close>

lemma unat_64: "unat (x :: u64) < 2 ^ 64"
  using unsigned_less [of x] by simp

lemma ex_u64: "k < 2 ^ 64 \<Longrightarrow> \<exists>x :: u64. unat x = k"
  by (rule exI [of _ "of_nat k"]) (simp add: unat_of_nat take_bit_nat_eq_self)

lemma safe_iffs:
  "safe_add a b = Some x \<longleftrightarrow> unat x = unat a + unat b"
  "safe_mul a b = Some x \<longleftrightarrow> unat x = unat a * unat b"
  "safe_sub a b = Some x \<longleftrightarrow> unat x + unat b = unat a"
  "safe_div a b = Some x \<longleftrightarrow> b \<noteq> 0 \<and> unat x = unat a div unat b"
proof -
  have add: "unat (a + b) = unat a + unat b" if "unat a + unat b < 2 ^ 64"
    using that by (simp add: unat_add_lem [THEN iffD1])
  have mul: "unat (a * b) = unat a * unat b" if "unat a * unat b < 2 ^ 64"
    using that by (simp add: unat_mult_lem [THEN iffD1])
  have sub: "unat (a - b) = unat a - unat b" if "unat b \<le> unat a"
    using that by (simp add: unat_sub word_le_nat_alt)
  show "safe_add a b = Some x \<longleftrightarrow> unat x = unat a + unat b"
    unfolding safe_add_def using add unat_64 [of x] word_unat_eq_iff [of x "a + b"] by auto
  show "safe_mul a b = Some x \<longleftrightarrow> unat x = unat a * unat b"
    unfolding safe_mul_def using mul unat_64 [of x] word_unat_eq_iff [of x "a * b"] by auto
  show "safe_sub a b = Some x \<longleftrightarrow> unat x + unat b = unat a"
    unfolding safe_sub_def word_less_nat_alt using sub word_unat_eq_iff [of x "a - b"] by auto
  show "safe_div a b = Some x \<longleftrightarrow> b \<noteq> 0 \<and> unat x = unat a div unat b"
    unfolding safe_div_def by (auto simp: word_unat_eq_iff unat_div)
qed

lemma churn_step_Some: "churn_step e0 l b c = Some (e, r) \<longleftrightarrow>
    (\<exists>n. least_epochs (unat l) (unat c) (unat b) n \<and> unat e = unat e0 + n \<and>
       unat r + unat b = unat l + n * unat c \<and> unat l + n * unat c < 2 ^ 64)"
  (is "_ \<longleftrightarrow> (\<exists>n. ?queued n)")
proof (cases "l < b")
  case False
  then have "least_epochs (unat l) (unat c) (unat b) 0"
    by (simp add: least_epochs_def not_less word_le_nat_alt)
  then have "least_epochs (unat l) (unat c) (unat b) n \<longleftrightarrow> n = 0" for n
    using least_epochs_unique by blast
  then show ?thesis
    using False unat_64 [of l] by (simp add: churn_step_def safe_iffs bind_Some_conv word_unat_eq_iff) metis
next
  case True
  let ?n = "(unat b - unat l - 1) div unat c + 1"
  have lt: "unat l < unat b" using True by (simp add: word_less_nat_alt)
  have zero: "c \<noteq> 0" if "?queued n" for n
    using that lt by (cases n) (auto simp: least_epochs_def)
  have least: "least_epochs (unat l) (unat c) (unat b) n \<longleftrightarrow> n = ?n" if "c \<noteq> 0" for n
    using least_epochs_div [OF lt, of "unat c"] least_epochs_unique that
    by (metis unat_eq_0 bot_nat_0.not_eq_extremum)
  have steps: "churn_step e0 l b c = Some (e, r) \<longleftrightarrow> c \<noteq> 0 \<and> unat e = unat e0 + ?n \<and>
      unat r + unat b = unat l + ?n * unat c \<and> unat l + ?n * unat c < 2 ^ 64"
    (is "_ \<longleftrightarrow> ?r")
  proof
    assume "churn_step e0 l b c = Some (e, r)"
    then obtain p q k a m t where w: "safe_sub b l = Some p" "safe_sub p 1 = Some q"
      "safe_div q c = Some k" "safe_add k 1 = Some a" "safe_add e0 a = Some e"
      "safe_mul a c = Some m" "safe_add l m = Some t" "safe_sub t b = Some r"
      using True unfolding churn_step_def by (auto simp: bind_Some_conv)
    note w = w [unfolded safe_iffs unat_1]
    then have "unat q = unat b - unat l - 1" by linarith
    then show ?r using w unat_64 [of t] by simp
  next
    assume r: ?r
    have "?n \<le> unat b - unat l" using lt div_le_dividend [of "unat b - unat l - 1" "unat c"] by linarith
    then have "?n < 2 ^ 64" using unat_64 [of b] by linarith
    then obtain a :: u64 where a: "unat a = ?n" using ex_u64 by blast
    obtain k :: u64 where k: "unat k = (unat b - unat l - 1) div unat c" using ex_u64 \<open>?n < 2 ^ 64\<close> by force
    obtain p :: u64 where p: "unat p = unat b - unat l" using ex_u64 unat_64 [of b] by (meson less_imp_diff_less)
    obtain q :: u64 where q: "unat q = unat b - unat l - 1" using ex_u64 unat_64 [of b] by (meson less_imp_diff_less)
    have "?n * unat c < 2 ^ 64" "unat l + ?n * unat c < 2 ^ 64" using r by linarith+
    then obtain m t :: u64 where mt: "unat m = ?n * unat c" "unat t = unat l + ?n * unat c"
      using ex_u64 by metis
    have "safe_sub b l = Some p" "safe_sub p 1 = Some q" using lt p q by (simp_all add: safe_iffs)
    moreover have "safe_div q c = Some k" using k q r by (simp add: safe_iffs)
    moreover have "safe_add k 1 = Some a" using k a by (simp add: safe_iffs)
    moreover have "safe_add e0 a = Some e" using r unfolding safe_iffs a by blast
    moreover have "safe_mul a c = Some m" "safe_add l m = Some t" unfolding safe_iffs a mt by (rule refl)+
    moreover have "safe_sub t b = Some r" using r unfolding safe_iffs mt by blast
    ultimately show "churn_step e0 l b c = Some (e, r)" using True by (simp add: churn_step_def)
  qed
  show ?thesis
  proof (cases "c = 0")
    case True
    then show ?thesis unfolding steps using zero by blast
  next
    case False
    then show ?thesis unfolding steps least [OF False] by simp
  qed
qed


text \<open>What the two queues share: the epoch already queued for and the balance left in it, kept in
  the state, and an activation epoch and a churn that do not depend on them.\<close>

locale churn_queue =
  fixes compute :: "u64 \<Rightarrow> 'st \<Rightarrow> 'e + epoch \<times> 'st"
    and limits :: "'st \<Rightarrow> 'e + epoch \<times> u64"
    and queued :: "'st \<Rightarrow> epoch"
    and left :: "'st \<Rightarrow> u64"
    and put :: "epoch \<Rightarrow> u64 \<Rightarrow> 'st \<Rightarrow> 'st"
    and err :: 'e
  assumes compute_eq: "compute b st = rbind (limits st) (\<lambda>(a, c).
      rbind (ok_or (churn_step (max (queued st) a) (if queued st < a then c else left st) b c) err)
        (\<lambda>(e, r). Inr (e, put e r st)))"
    and limits_put: "limits (put e r st) = limits st"
    and queued_put: "queued (put e r st) = e"
    and left_put: "left (put e r st) = r"
    and put_put: "put e r (put e' r' st) = put e r st"
begin

definition room :: "'st \<Rightarrow> epoch \<Rightarrow> u64 \<Rightarrow> u64" where
  "room st a c = (if queued st < a then c else left st)"

lemma compute_Inr: "compute b st = Inr (e, st') \<longleftrightarrow> (\<exists>a c n r. limits st = Inr (a, c) \<and>
    least_epochs (unat (room st a c)) (unat c) (unat b) n \<and>
    unat e = unat (max (queued st) a) + n \<and> unat r + unat b = unat (room st a c) + n * unat c \<and>
    unat (room st a c) + n * unat c < 2 ^ 64 \<and> st' = put e r st)"
proof (cases "limits st")
  case (Inr ac)
  then show ?thesis
    by (cases ac) (auto simp: compute_eq rbind_Inr ok_or_Inr churn_step_Some room_def)
qed (simp add: compute_eq)

lemma compute_InrI:
  "limits st = Inr (a, c) \<Longrightarrow> least_epochs (unat (room st a c)) (unat c) (unat b) n
    \<Longrightarrow> unat e = unat (max (queued st) a) + n \<Longrightarrow> unat r + unat b = unat (room st a c) + n * unat c
    \<Longrightarrow> unat (room st a c) + n * unat c < 2 ^ 64 \<Longrightarrow> compute b st = Inr (e, put e r st)"
  unfolding compute_Inr by blast

lemma next_limits: "limits st = Inr (a, c) \<Longrightarrow> a \<le> e \<Longrightarrow> room (put e r st) a c = r"
  by (auto simp: room_def queued_put left_put)

lemma compute_split:
  assumes "compute b st = Inr (e, st')" and "unat b = unat b1 + unat b2"
  shows "\<exists>e1 st1. compute b1 st = Inr (e1, st1) \<and> compute b2 st1 = Inr (e, st') \<and> e1 \<le> e"
proof -
  from assms(1) obtain a c n r where w: "limits st = Inr (a, c)"
    "least_epochs (unat (room st a c)) (unat c) (unat b) n" "unat e = unat (max (queued st) a) + n"
    "unat r + unat b = unat (room st a c) + n * unat c" "unat (room st a c) + n * unat c < 2 ^ 64"
    "st' = put e r st"
    unfolding compute_Inr by blast
  let ?l = "unat (room st a c)"
  from w(2) obtain m m' where m: "n = m + m'" "least_epochs ?l (unat c) (unat b1) m"
    "least_epochs (?l + m * unat c - unat b1) (unat c) (unat b2) m'"
    unfolding assms(2) by (rule least_epochs_split)
  have "unat (max (queued st) a) + m < 2 ^ 64" using w(3) m(1) unat_64 [of e] by linarith
  then obtain e1 :: u64 where e1: "unat e1 = unat (max (queued st) a) + m" using ex_u64 by blast
  have le: "?l + m * unat c \<le> ?l + n * unat c" using m(1) by simp
  then obtain r1 :: u64 where r1: "unat r1 = ?l + m * unat c - unat b1"
    using ex_u64 w(5) by (meson le_less_trans less_imp_diff_less)
  have room1: "unat b1 \<le> ?l + m * unat c" using m(2) by (simp add: least_epochs_def)
  have "compute b1 st = Inr (e1, put e1 r1 st)"
    using r1 room1 le w(5) by (intro compute_InrI [OF w(1) m(2) e1]) linarith+
  moreover have "a \<le> e1" using e1 by (simp add: word_le_nat_alt max_def split: if_splits)
  then have room2: "room (put e1 r1 st) a c = r1" "max e1 a = e1" using next_limits w(1) by (auto simp: max_def)
  have "compute b2 (put e1 r1 st) = Inr (e, st')"
    unfolding compute_Inr
  proof (intro exI conjI)
    show "limits (put e1 r1 st) = Inr (a, c)" using w(1) by (simp add: limits_put)
    show "least_epochs (unat (room (put e1 r1 st) a c)) (unat c) (unat b2) m'"
      using m(3) r1 room2 by simp
    show "unat e = unat (max (queued (put e1 r1 st)) a) + m'"
      using w(3) m(1) e1 room2 by (simp add: queued_put)
    show "unat r + unat b2 = unat (room (put e1 r1 st) a c) + m' * unat c"
      using w(4) m(1) r1 room1 room2 assms(2) by (simp add: add_mult_distrib)
    show "unat (room (put e1 r1 st) a c) + m' * unat c < 2 ^ 64"
      using w(5) m(1) r1 room2 by (simp add: add_mult_distrib)
    show "st' = put e r (put e1 r1 st)" using w(6) by (simp add: put_put)
  qed
  moreover have "e1 \<le> e" using e1 w(3) m(1) by (simp add: word_le_nat_alt)
  ultimately show ?thesis by blast
qed

end


definition put_electra :: "('o bs_electra \<Rightarrow> 'o bs_electra) \<Rightarrow> 'o beacon_state \<Rightarrow> 'o beacon_state" where
  "put_electra f st = st\<lparr>st_electra := f (st_electra st)\<rparr>"

lemma put_electra_simps [simp]:
  "st_electra (put_electra f st) = f (st_electra st)"
  "st_variant (put_electra f st) = st_variant st"
  "st_versioning (put_electra f st) = st_versioning st"
  "st_caches (put_electra f st) = st_caches st"
  "put_electra f (put_electra g st) = put_electra (\<lambda>x. f (g x)) st"
  by (simp_all add: put_electra_def)

lemmas churn_limit_defs = get_consolidation_churn_limit_def get_activation_exit_churn_limit_def
  get_exit_churn_limit_def get_balance_churn_limit_def get_total_active_balance_def
  get_total_active_balance_at_epoch_def current_epoch_def fork_name_unchecked_def

text \<open>The churn limits do not read the queues.\<close>

lemma churn_limits_put [simp]:
  "current_epoch E (put_electra f st) = current_epoch E st"
  "get_exit_churn_limit E s (put_electra f st) = get_exit_churn_limit E s st"
  "get_activation_exit_churn_limit E s (put_electra f st) = get_activation_exit_churn_limit E s st"
  "get_consolidation_churn_limit E s (put_electra f st) = get_consolidation_churn_limit E s st"
  by (simp_all add: churn_limit_defs)

text \<open>The activation epoch and the churn of each queue, behind the variant check.\<close>

definition exit_limits :: "state_spec \<Rightarrow> chain_spec \<Rightarrow> 'o beacon_state \<Rightarrow> state_error + epoch \<times> u64" where
  "exit_limits E s st = rbind (electra_field st (\<lambda>_. ())) (\<lambda>_.
     rbind (arith (compute_activation_exit_epoch s (current_epoch E st))) (\<lambda>a.
     rbind (if gloas_enabled (fork_name_unchecked st) then get_exit_churn_limit E s st
       else get_activation_exit_churn_limit E s st) (\<lambda>c. Inr (a, c))))"

definition consolidation_limits ::
  "state_spec \<Rightarrow> chain_spec \<Rightarrow> 'o beacon_state \<Rightarrow> state_error + epoch \<times> u64" where
  "consolidation_limits E s st = rbind (electra_field st (\<lambda>_. ())) (\<lambda>_.
     rbind (arith (compute_activation_exit_epoch s (current_epoch E st))) (\<lambda>a.
     rbind (get_consolidation_churn_limit E s st) (\<lambda>c. Inr (a, c))))"

definition put_exit :: "epoch \<Rightarrow> u64 \<Rightarrow> 'o beacon_state \<Rightarrow> 'o beacon_state" where
  "put_exit e r = put_electra (\<lambda>x. x\<lparr>bs_exit_balance_to_consume := r, bs_earliest_exit_epoch := e\<rparr>)"

definition put_consolidation :: "epoch \<Rightarrow> u64 \<Rightarrow> 'o beacon_state \<Rightarrow> 'o beacon_state" where
  "put_consolidation e r = put_electra (\<lambda>x.
     x\<lparr>bs_consolidation_balance_to_consume := r, bs_earliest_consolidation_epoch := e\<rparr>)"

interpretation exit_queue: churn_queue "compute_exit_epoch_and_update_churn E s" "exit_limits E s"
  "\<lambda>st. bs_earliest_exit_epoch (st_electra st)" "\<lambda>st. bs_exit_balance_to_consume (st_electra st)"
  put_exit BSE_Arith for E s
proof unfold_locales
  fix b and st :: "'a beacon_state"
  show "compute_exit_epoch_and_update_churn E s b st = rbind (exit_limits E s st) (\<lambda>(a, c).
      rbind (arith (churn_step (max (bs_earliest_exit_epoch (st_electra st)) a)
        (if bs_earliest_exit_epoch (st_electra st) < a then c else bs_exit_balance_to_consume (st_electra st)) b c))
        (\<lambda>(e, r). Inr (e, put_exit e r st)))"
    by (auto simp: compute_exit_epoch_and_update_churn_def exit_limits_def partial_getter_def
        rbind_def Let_def put_exit_def put_electra_def less_max_iff_disj split: sum.split cong: if_cong)
qed (simp_all add: exit_limits_def put_exit_def partial_getter_def fork_name_unchecked_def)

interpretation consolidation_queue: churn_queue "compute_consolidation_epoch_and_update_churn E s"
  "consolidation_limits E s" "\<lambda>st. bs_earliest_consolidation_epoch (st_electra st)"
  "\<lambda>st. bs_consolidation_balance_to_consume (st_electra st)" put_consolidation BSE_Arith for E s
proof unfold_locales
  fix b and st :: "'a beacon_state"
  show "compute_consolidation_epoch_and_update_churn E s b st = rbind (consolidation_limits E s st) (\<lambda>(a, c).
      rbind (arith (churn_step (max (bs_earliest_consolidation_epoch (st_electra st)) a)
        (if bs_earliest_consolidation_epoch (st_electra st) < a then c
         else bs_consolidation_balance_to_consume (st_electra st)) b c))
        (\<lambda>(e, r). Inr (e, put_consolidation e r st)))"
    by (auto simp: compute_consolidation_epoch_and_update_churn_def consolidation_limits_def
        partial_getter_def rbind_def Let_def put_consolidation_def put_electra_def less_max_iff_disj
        split: sum.split cong: if_cong)
qed (simp_all add: consolidation_limits_def put_consolidation_def partial_getter_def fork_name_unchecked_def)


lemma exit_limits_Inr: "exit_limits E s st = Inr (a, c) \<longleftrightarrow> electra_enabled (st_variant st) \<and>
    compute_activation_exit_epoch s (current_epoch E st) = Some a \<and>
    (if gloas_enabled (st_variant st) then get_exit_churn_limit E s st
     else get_activation_exit_churn_limit E s st) = Inr c"
  by (auto simp: exit_limits_def partial_getter_def rbind_Inr arith_Inr fork_name_unchecked_def)

text \<open>
  C31. An exit is assigned the earliest epoch with room for its balance: the queue starts at the
  later of the epoch it has reached and the earliest exit epoch, a fresh epoch offers the whole
  churn, and the exit takes the least number of further epochs whose churn covers the balance. What
  is left of the last epoch is kept, and nothing else of the state changes.\<close>

theorem exit_epoch_least:
  "compute_exit_epoch_and_update_churn E s balance st = Inr (e, st') \<longleftrightarrow>
   (\<exists>activation churn left n rest. electra_enabled (st_variant st) \<and>
      compute_activation_exit_epoch s (current_epoch E st) = Some activation \<and>
      (if gloas_enabled (st_variant st) then get_exit_churn_limit E s st
       else get_activation_exit_churn_limit E s st) = Inr churn \<and>
      left = (if bs_earliest_exit_epoch (st_electra st) < activation then churn
              else bs_exit_balance_to_consume (st_electra st)) \<and>
      least_epochs (unat left) (unat churn) (unat balance) n \<and>
      unat e = unat (max (bs_earliest_exit_epoch (st_electra st)) activation) + n \<and>
      unat rest + unat balance = unat left + n * unat churn \<and> unat left + n * unat churn < 2 ^ 64 \<and>
      st' = st\<lparr>st_electra := (st_electra st)\<lparr>bs_exit_balance_to_consume := rest,
        bs_earliest_exit_epoch := e\<rparr>\<rparr>)"
  unfolding exit_queue.compute_Inr exit_limits_Inr exit_queue.room_def put_exit_def put_electra_def
  by blast

text \<open>
  The exit queue is first come, first served and loses nothing: exiting a balance in two parts,
  one after the other, gives the last part the epoch that the whole would get and leaves the same
  state, and the first part exits no later.\<close>

theorem exit_epochs_add:
  assumes "compute_exit_epoch_and_update_churn E s balance st = Inr (e, st')"
    and "unat balance = unat first + unat second"
  shows "\<exists>e1 st1. compute_exit_epoch_and_update_churn E s first st = Inr (e1, st1) \<and>
    compute_exit_epoch_and_update_churn E s second st1 = Inr (e, st') \<and> e1 \<le> e"
  using assms by (rule exit_queue.compute_split)

lemma consolidation_epochs_add:
  assumes "compute_consolidation_epoch_and_update_churn E s balance st = Inr (e, st')"
    and "unat balance = unat first + unat second"
  shows "\<exists>e1 st1. compute_consolidation_epoch_and_update_churn E s first st = Inr (e1, st1) \<and>
    compute_consolidation_epoch_and_update_churn E s second st1 = Inr (e, st') \<and> e1 \<le> e"
  using assms by (rule consolidation_queue.compute_split)

section \<open>Churn limits\<close>

text \<open>Before Gloas exits and consolidations share the balance churn, and the difference never
  underflows.\<close>

lemma churn_split:
  assumes "\<not> gloas_enabled (st_variant st)" and "get_balance_churn_limit E s st = Inr t"
  shows "\<exists>a c. get_activation_exit_churn_limit E s st = Inr a \<and>
    get_consolidation_churn_limit E s st = Inr c \<and> unat a + unat c = unat t"
proof -
  let ?m = "min (max_per_epoch_activation_exit_churn_limit (sp_electra s)) t"
  have "?m \<le> t" by simp
  then have "safe_sub t ?m = Some (t - ?m)" "unat ?m + unat (t - ?m) = unat t"
    by (simp_all add: safe_sub_def unat_sub word_le_nat_alt del: min.cobounded2)
  then show ?thesis using assms
    by (simp add: get_activation_exit_churn_limit_def get_consolidation_churn_limit_def
        fork_name_unchecked_def Let_def ok_or_def)
qed

end
