(* ===== verification/Chain_Spec_Facts.thy ===== *)
theory Chain_Spec_Facts
  imports Chain_Spec "HOL-Library.Multiset"
begin

text \<open>
  The guarantees of the fork schedule: which fork is active, when that changes, what a genesis
  specification activates, that digests only change at announced epochs, and the lookup in the
  blob schedule.
\<close>

section \<open>The active fork\<close>

lemma fork_table_epochs: "fork_table s = map (\<lambda>f. (fork_epoch s f, f))
    [Gloas, Fulu, Daisugi, Electra, Deneb, Capella, Bellatrix, Altair]"
  by (simp add: fork_table_def fork_epoch_def)

lemma first_active_map:
  "sorted_wrt (>) fs \<Longrightarrow> Base \<notin> set fs \<Longrightarrow>
    (let f = first_active e (map (\<lambda>f. (ep f, f)) fs) in
     ((f = Base \<or> (f \<in> set fs \<and> (\<exists>a. ep f = Some a \<and> a \<le> e)))
      \<and> (\<forall>g \<in> set fs. \<forall>a. ep g = Some a \<longrightarrow> a \<le> e \<longrightarrow> g \<le> f)))"
proof (induction fs)
  case (Cons f fs)
  have base: "Base \<le> g" for g
    by (cases g) (simp_all add: fork_order)
  show ?case
  proof (cases "\<exists>a. ep f = Some a \<and> a \<le> e")
    case True
    then show ?thesis using Cons.prems by (auto simp: Let_def)
  next
    case False
    then have "first_active e (map (\<lambda>f. (ep f, f)) (f # fs)) = first_active e (map (\<lambda>f. (ep f, f)) fs)"
      by (cases "ep f") auto
    with False Cons base show ?thesis by (auto simp: Let_def)
  qed
qed simp

lemma active_fork_props:
  shows active_fork: "\<exists>a. fork_epoch s (fork_name_at_epoch s e) = Some a \<and> a \<le> e"
    and active_latest: "fork_epoch s g = Some a \<Longrightarrow> a \<le> e \<Longrightarrow> g \<le> fork_name_at_epoch s e"
proof -
  let ?fs = "[Gloas, Fulu, Daisugi, Electra, Deneb, Capella, Bellatrix, Altair]"
  have "sorted_wrt (>) ?fs" "Base \<notin> set ?fs"
    by (simp_all add: fork_order)
  from first_active_map [OF this, of e "fork_epoch s"]
  have m: "(fork_name_at_epoch s e = Base \<or> (\<exists>a. fork_epoch s (fork_name_at_epoch s e) = Some a \<and> a \<le> e))"
    "\<forall>g \<in> set ?fs. \<forall>a. fork_epoch s g = Some a \<longrightarrow> a \<le> e \<longrightarrow> g \<le> fork_name_at_epoch s e"
    by (auto simp only: Let_def fork_name_at_epoch_def fork_table_epochs)
  show "\<exists>a. fork_epoch s (fork_name_at_epoch s e) = Some a \<and> a \<le> e"
    using m(1) by (auto simp: fork_epoch_def [of s Base])
  assume "fork_epoch s g = Some a" "a \<le> e"
  then show "g \<le> fork_name_at_epoch s e"
    using m(2) by (cases g) (auto simp: fork_order)
qed

text \<open>
  The fork reported for an epoch is the greatest fork, in the order on forks, that has an
  activation epoch and is active at that epoch.
\<close>

theorem fork_name_at_epoch_greatest:
  "fork_name_at_epoch s e = f \<longleftrightarrow> (\<exists>a. fork_epoch s f = Some a \<and> a \<le> e)
     \<and> (\<forall>g a. fork_epoch s g = Some a \<longrightarrow> a \<le> e \<longrightarrow> g \<le> f)"
  using active_fork [of s e] active_latest [of s] by (metis order_antisym)

lemma fork_name_unchanged:
  assumes "e \<le> e'" and "\<And>g a. fork_epoch s g = Some a \<Longrightarrow> \<not> (e < a \<and> a \<le> e')"
  shows "fork_name_at_epoch s e' = fork_name_at_epoch s e"
proof -
  obtain a where "fork_epoch s (fork_name_at_epoch s e) = Some a" "a \<le> e"
    using active_fork by blast
  then have "fork_name_at_epoch s e \<le> fork_name_at_epoch s e'"
    using active_latest assms(1) order_trans by blast
  moreover obtain a' where a': "fork_epoch s (fork_name_at_epoch s e') = Some a'" "a' \<le> e'"
    using active_fork by blast
  then have "a' \<le> e" using assms(2) [OF a'(1)] by (auto simp: not_less)
  then have "fork_name_at_epoch s e' \<le> fork_name_at_epoch s e"
    using a'(1) active_latest by blast
  ultimately show ?thesis by simp
qed

section \<open>The next fork\<close>

lemma min_by_None [simp]: "min_by k xs = None \<longleftrightarrow> xs = []"
  by (cases xs) (auto split: option.splits)

lemma min_by_Some: "min_by k xs = Some x \<Longrightarrow> x \<in> set xs \<and> (\<forall>y \<in> set xs. k x \<le> k y)"
proof (induction xs arbitrary: x)
  case (Cons z xs)
  show ?case
  proof (cases "min_by k xs")
    case None
    then have "xs = []" by simp
    with Cons.prems show ?thesis by simp
  next
    case (Some y)
    from Cons.IH [OF Some] Cons.prems Some show ?thesis
      by (auto split: if_splits intro: order_trans)
  qed
qed simp

lemma all_forks: "f \<in> set list_all_forks"
  by (cases f) (simp_all add: list_all_forks_def)

lemma future_forks: "(f, a) \<in> set (List.map_filter
    (\<lambda>(f, activation). case activation of None \<Rightarrow> None | Some a \<Rightarrow> if a > e then Some (f, a) else None)
    (list_all_fork_epochs s)) \<longleftrightarrow> fork_epoch s f = Some a \<and> e < a"
  using all_forks [of f]
  by (auto simp: List.map_filter_def list_all_fork_epochs_def image_iff split: option.splits if_splits)

lemma next_fork_epoch_Some:
  assumes "next_fork_epoch E s sl = Some (f, a)"
  shows "fork_epoch s f = Some a \<and> epoch_of E sl < a
    \<and> (\<forall>g b. fork_epoch s g = Some b \<longrightarrow> epoch_of E sl < b \<longrightarrow> a \<le> b)"
proof -
  note m = min_by_Some [OF assms [unfolded next_fork_epoch_def Let_def]]
  have "a \<le> b" if "fork_epoch s g = Some b" "epoch_of E sl < b" for g b
    using conjunct2 [OF m, THEN bspec, of "(g, b)"] that unfolding future_forks by simp
  then show ?thesis using conjunct1 [OF m] unfolding future_forks by blast
qed

lemma next_fork_epoch_None:
  assumes "next_fork_epoch E s sl = None" and "fork_epoch s g = Some b"
  shows "\<not> epoch_of E sl < b"
proof
  assume "epoch_of E sl < b"
  then have "(g, b) \<in> set []"
    using assms future_forks [of g b "epoch_of E sl" s]
    by (simp add: next_fork_epoch_def Let_def)
  then show False by simp
qed

text \<open>
  The fork and the fork version stay the same from a slot until the epoch that
  \<open>next_fork_epoch\<close> announces, and for good when it announces none; at the announced epoch the
  announced fork has activated.
\<close>

theorem forks_change_when_announced:
  assumes "epoch_of E sl \<le> e"
    and "case next_fork_epoch E s sl of None \<Rightarrow> True | Some (_, a) \<Rightarrow> e < a"
  shows "fork_name_at_epoch s e = fork_name_at_slot E s sl
    \<and> fork_version_for_epoch s e = fork_version_for_epoch s (epoch_of E sl)
    \<and> (\<forall>f a. next_fork_epoch E s sl = Some (f, a) \<longrightarrow> f \<le> fork_name_at_epoch s a)"
proof -
  have "\<not> (epoch_of E sl < b \<and> b \<le> e)" if "fork_epoch s g = Some b" for g b
  proof (cases "next_fork_epoch E s sl")
    case None
    then show ?thesis using next_fork_epoch_None that by blast
  next
    case (Some fa)
    then obtain f a where fa: "next_fork_epoch E s sl = Some (f, a)" by (cases fa) auto
    with assms(2) next_fork_epoch_Some [OF fa] that show ?thesis by force
  qed
  then have "fork_name_at_epoch s e = fork_name_at_slot E s sl"
    unfolding fork_name_at_slot_def using fork_name_unchanged assms(1) by blast
  moreover have "f \<le> fork_name_at_epoch s a" if "next_fork_epoch E s sl = Some (f, a)" for f a
    using next_fork_epoch_Some [OF that] active_latest by blast
  ultimately show ?thesis by (simp add: fork_version_for_epoch_def fork_name_at_slot_def)
qed

section \<open>Genesis specifications\<close>

lemma fork_epoch_set: "fork_epoch (set_fork_epoch f e s) g
    = (if f = g \<and> f \<noteq> Base then e else fork_epoch s g)"
  by (cases f; cases g) (simp_all add: set_fork_epoch_def fork_epoch_def)

lemma fork_epoch_genesis: "fork_epoch (make_genesis_spec f s) g
    = (if g = Base \<or> g = f \<or> (g < f \<and> g \<noteq> Daisugi) then Some 0 else None)"
  by (cases f; cases g)
    (simp_all add: make_genesis_spec_def set_genesis_epochs_def fork_epoch_set fork_order Let_def
      fork_epoch_def [of _ Base])

text \<open>
  The genesis specification of a fork activates it, and nothing later, at every epoch:
  the Daisugi genesis runs Daisugi with Electra and everything before it and without Fulu or
  Gloas, and no other fork's genesis activates Daisugi.
\<close>

theorem genesis_spec_runs_fork:
  "fork_name_at_epoch (make_genesis_spec f s) e = f
   \<and> (fork_epoch (make_genesis_spec f s) g = Some 0
        \<longleftrightarrow> g = Base \<or> g = f \<or> (g < f \<and> g \<noteq> Daisugi))"
proof -
  have "fork_name_at_epoch (make_genesis_spec f s) e = f"
  proof (rule order_antisym)
    obtain a where "fork_epoch (make_genesis_spec f s) (fork_name_at_epoch (make_genesis_spec f s) e)
        = Some a"
      using active_fork by blast
    then show "fork_name_at_epoch (make_genesis_spec f s) e \<le> f"
      by (auto simp: fork_epoch_genesis less_imp_le split: if_splits)
        (cases f; simp add: fork_order)
    show "f \<le> fork_name_at_epoch (make_genesis_spec f s) e"
      by (rule active_latest [of _ _ 0]) (simp_all add: fork_epoch_genesis)
  qed
  then show ?thesis by (simp add: fork_epoch_genesis)
qed

section \<open>Forks that activate together\<close>

text \<open>\<open>min_by_key\<close> keeps the first of several forks with the smallest activation epoch, in the
  order of \<open>list_all\<close>, while the active fork is the greatest of them.\<close>

lemma next_fork_tie:
  assumes "fork_epoch s Electra = Some a" and "fork_epoch s Daisugi = Some a" and "epoch_of E sl < a"
    and "\<And>g b. fork_epoch s g = Some b \<Longrightarrow> g \<notin> {Electra, Daisugi} \<Longrightarrow> b \<le> epoch_of E sl"
    and "fork_epoch s Fulu = None" and "fork_epoch s Gloas = None"
  shows "next_fork_epoch E s sl = Some (Electra, a) \<and> fork_name_at_epoch s a = Daisugi"
proof
  let ?P = "\<lambda>(f, activation). case activation of None \<Rightarrow> None
    | Some a \<Rightarrow> if a > epoch_of E sl then Some (f, a) else None"
  have no: "?P (g, fork_epoch s g) = None" if "g \<notin> {Electra, Daisugi}" for g
    using assms(4) [of g] that by (cases "fork_epoch s g") (auto simp: not_less)
  have "List.map_filter ?P (list_all_fork_epochs s) = [(Electra, a), (Daisugi, a)]"
    using no [of Base] no [of Altair] no [of Bellatrix] no [of Capella] no [of Deneb] no [of Fulu]
      no [of Gloas] assms(1-3)
    by (simp add: list_all_fork_epochs_def list_all_forks_def List.map_filter_simps)
  then show "next_fork_epoch E s sl = Some (Electra, a)"
    by (simp add: next_fork_epoch_def Let_def)
  show "fork_name_at_epoch s a = Daisugi"
  proof (rule order_antisym)
    show "fork_name_at_epoch s a \<le> Daisugi"
      using active_fork [of s a] assms(5,6) by (cases "fork_name_at_epoch s a") (auto simp: fork_order)
    show "Daisugi \<le> fork_name_at_epoch s a"
      using active_latest [OF assms(2)] by simp
  qed
qed

section \<open>Digests\<close>

lemma digest_epochs: "b \<in> set (all_digest_epochs s) \<longleftrightarrow> (\<exists>f. fork_epoch s f = Some b)
    \<or> (is_fulu_scheduled s \<and> b \<in> bp_epoch ` set (bs_schedule (blob_schedule (sp_net_fulu s))))"
  using all_forks
  by (auto simp: all_digest_epochs_def List.map_filter_def list_all_fork_epochs_def image_iff)

lemma find_sorted:
  "sorted_wrt (<) (xs :: 'a::linorder list) \<Longrightarrow>
    (case List.find (\<lambda>d. d > e) xs of None \<Rightarrow> \<forall>d \<in> set xs. d \<le> e
     | Some a \<Rightarrow> a \<in> set xs \<and> e < a \<and> (\<forall>d \<in> set xs. e < d \<longrightarrow> a \<le> d))"
  by (induction xs) (auto split: option.splits simp: not_less)

lemma no_digest_epoch_between:
  assumes "case next_digest_epoch s e of None \<Rightarrow> True | Some a \<Rightarrow> e' < a"
    and "b \<in> set (all_digest_epochs s)"
  shows "\<not> (e < b \<and> b \<le> e')"
proof -
  have "sorted_wrt (<) (all_digest_epochs s)" by (simp add: all_digest_epochs_def)
  from find_sorted [OF this, of e] assms show ?thesis
    by (auto simp: next_digest_epoch_def split: option.splits)
qed

lemma find_same: "(\<And>x. x \<in> set xs \<Longrightarrow> P x = Q x) \<Longrightarrow> List.find P xs = List.find Q xs"
  by (induction xs) auto

text \<open>
  The fork digest of an epoch is the digest of every later epoch before the next digest
  epoch, the one announced in the node's record: digests change only there, across forks and
  blob-parameter changes alike.
\<close>

theorem digest_changes_when_announced:
  assumes "e \<le> e'" and "case next_digest_epoch s e of None \<Rightarrow> True | Some a \<Rightarrow> e' < a"
    and "far_future_epoch (sp_constants s) = - 1"
  shows "compute_fork_digest X s root e' = compute_fork_digest X s root e"
proof -
  note between = no_digest_epoch_between [OF assms(2)]
  have forks: "\<not> (e < a \<and> a \<le> e')" if "fork_epoch s g = Some a" for g a
    using between that by (auto simp: digest_epochs)
  have version: "fork_version_for_epoch s e' = fork_version_for_epoch s e"
    using fork_name_unchanged [OF assms(1) forks] by (simp add: fork_version_for_epoch_def)
  have fulu: "a \<le> e' \<longleftrightarrow> a \<le> e" if "fulu_fork_epoch (sp_fulu s) = Some a" for a
    using forks [of Fulu a] that assms(1) by (auto simp: fork_epoch_def)
  have schedule: "blob_parameters_for_epoch (blob_schedule (sp_net_fulu s)) e'
      = blob_parameters_for_epoch (blob_schedule (sp_net_fulu s)) e"
    if f: "fulu_fork_epoch (sp_fulu s) = Some a" "a \<le> e" for a
  proof (cases "is_fulu_scheduled s")
    case True
    show ?thesis unfolding blob_parameters_for_epoch_def
    proof (rule find_same)
      fix x assume "x \<in> set (bs_schedule (blob_schedule (sp_net_fulu s)))"
      then have "\<not> (e < bp_epoch x \<and> bp_epoch x \<le> e')"
        using between True by (auto simp: digest_epochs)
      then show "(bp_epoch x \<le> e') = (bp_epoch x \<le> e)"
        using assms(1) by auto
    qed
  next
    case False
    then have far: "a = far_future_epoch (sp_constants s)"
      using f by (simp add: is_fulu_scheduled_def)
    then have "a = - 1" using assms(3) by simp
    then have "e = - 1" "e' = - 1"
      using f(2) assms(1) word_order.extremum_unique by (metis order_trans)+
    then show ?thesis by simp
  qed
  show ?thesis
    unfolding compute_fork_digest_def get_blob_parameters_def version
    using fulu schedule by (auto split: option.splits simp: Let_def)
qed

section \<open>The blob schedule\<close>

definition schedule_wf :: "blob_schedule \<Rightarrow> bool" where
  "schedule_wf b \<longleftrightarrow> sorted_wrt (\<lambda>x y. bp_epoch x \<ge> bp_epoch y) (bs_schedule b)"

lemma schedule_new_wf: "schedule_wf (blob_schedule_new v)"
proof -
  have "sorted (map (\<lambda>b. - uint (bp_epoch b)) (bs_schedule (blob_schedule_new v)))"
    by (simp add: blob_schedule_new_def)
  then show ?thesis
    by (simp add: schedule_wf_def sorted_wrt_map word_le_def)
qed

lemma find_descending:
  "sorted_wrt (\<lambda>x y. bp_epoch x \<ge> bp_epoch y) xs \<Longrightarrow>
    (case List.find (\<lambda>entry. bp_epoch entry \<le> e) xs of None \<Rightarrow> \<forall>y \<in> set xs. e < bp_epoch y
     | Some x \<Rightarrow> x \<in> set xs \<and> bp_epoch x \<le> e \<and> (\<forall>y \<in> set xs. bp_epoch y \<le> e \<longrightarrow> bp_epoch y \<le> bp_epoch x))"
  by (induction xs) (auto split: option.splits simp: not_le)

text \<open>
  A lookup in a schedule built from any list of entries returns an entry of the list with
  the latest epoch that has begun, and nothing exactly when no entry's epoch has begun.
\<close>

theorem blob_lookup_latest:
  "case blob_parameters_for_epoch (blob_schedule_new v) e of
     None \<Rightarrow> \<forall>y \<in> set v. e < bp_epoch y
   | Some x \<Rightarrow> x \<in> set v \<and> bp_epoch x \<le> e \<and> (\<forall>y \<in> set v. bp_epoch y \<le> e \<longrightarrow> bp_epoch y \<le> bp_epoch x)"
proof -
  have "set (bs_schedule (blob_schedule_new v)) = set v" by (simp add: blob_schedule_new_def)
  then show ?thesis
    using find_descending [OF schedule_new_wf [of v, unfolded schedule_wf_def], of e]
    by (simp add: blob_parameters_for_epoch_def split: option.splits)
qed

lemma schedule_roundtrip_sorted:
  assumes "schedule_wf b" and "distinct (map bp_epoch (bs_schedule b))"
  shows "bs_schedule (blob_schedule_deserialize (blob_schedule_serialize b)) = bs_schedule b"
proof -
  let ?k = "\<lambda>b. - uint (bp_epoch b)"
  have "sort_key ?k (rev (bs_schedule b)) = bs_schedule b"
  proof (rule sort_key_inj_key_eq)
    show "inj_on ?k (set (rev (bs_schedule b)))"
      using assms(2) by (auto simp: distinct_map inj_on_def word_uint_eq_iff [symmetric])
    show "sorted (map ?k (bs_schedule b))"
      using assms(1) by (simp add: schedule_wf_def sorted_wrt_map word_le_def)
  qed simp
  then show ?thesis
    by (simp add: blob_schedule_deserialize_def blob_schedule_serialize_def blob_schedule_new_def)
qed

text \<open>
  Writing a schedule and reading it back gives the same schedule when its epochs are
  distinct; two entries of one epoch come back in the opposite order, which changes the
  parameters in force.
\<close>

theorem schedule_roundtrip:
  "(schedule_wf b \<and> distinct (map bp_epoch (bs_schedule b)) \<longrightarrow>
      bs_schedule (blob_schedule_deserialize (blob_schedule_serialize b)) = bs_schedule b)
   \<and> (let x = \<lparr>bp_epoch = 5, bp_max_blobs = 9\<rparr>; y = \<lparr>bp_epoch = 5, bp_max_blobs = 12\<rparr>;
          s = blob_schedule_new [x, y]
      in max_blobs_for_epoch s 6 = Some 9
         \<and> max_blobs_for_epoch (blob_schedule_deserialize (blob_schedule_serialize s)) 6 = Some 12)"
  using schedule_roundtrip_sorted [of b]
  by (simp add: Let_def max_blobs_for_epoch_def blob_schedule_new_def blob_schedule_serialize_def
      blob_schedule_deserialize_def)

end
