(* ===== verification/Slot_Facts.thy ===== *)
theory Slot_Facts
  imports Slot_Processing Beacon_Facts Chain_Spec_Facts
begin

text \<open>
  The guarantees of slot processing: a state that is advanced keeps the variant of the fork
  schedule, the upgrade to Daisugi changes the variant, the fork and the payload header only, and
  the roots of the previous slot are recorded without disturbing the others.
\<close>

section \<open>Successful steps\<close>

named_theorems step_simps "when a step succeeds"

lemma step_bind_Inr [step_simps]: "step_bind m k st = (Inr y, st') \<longleftrightarrow>
    (\<exists>x st1. m st = (Inr x, st1) \<and> k x st1 = (Inr y, st'))"
  by (cases "m st" rule: prod.exhaust; cases "fst (m st)") (auto simp: step_bind_def)

lemma step_get_Inr [step_simps]: "step_get f st = (Inr y, st') \<longleftrightarrow> f st = Inr y \<and> st' = st"
  by (auto simp: step_get_def)

lemma step_try_Inr [step_simps]: "step_try f st = (Inr u, st') \<longleftrightarrow> f st = Inr st'"
  by (auto simp: step_try_def split: sum.split)

lemma step_err_Inr [step_simps]: "step_err g m st = (Inr y, st') \<longleftrightarrow> m st = (Inr y, st')"
  by (cases "m st" rule: prod.exhaust; cases "fst (m st)") (auto simp: step_err_def)

lemma set_slot_simps [simp]:
  "state_slot (set_slot sl st) = sl"
  "st_variant (set_slot sl st) = st_variant st"
  "st_history (set_slot sl st) = st_history st"
  by (simp_all add: set_slot_def)

lemma add_slot_Inr [step_simps]: "add_slot st = (Inr u, st') \<longleftrightarrow>
    unat (state_slot st) + 1 < 2 ^ 64 \<and> st' = set_slot (state_slot st + 1) st"
  by (auto simp: add_slot_def step_try_Inr safe_add_def)

lemma sub_slot_Inr [step_simps]: "sub_slot st = (Inr u, st') \<longleftrightarrow>
    state_slot st \<noteq> 0 \<and> st' = set_slot (state_slot st - 1) st"
  by (auto simp: sub_slot_def step_try_Inr safe_sub_def)

section \<open>Recording the roots\<close>

lemma put_roots_simps [simp]:
  "st_versioning (put_block_roots xs st) = st_versioning st"
  "st_variant (put_block_roots xs st) = st_variant st"
  "bs_block_roots (st_history (put_block_roots xs st)) = xs"
  "bs_state_roots (st_history (put_block_roots xs st)) = bs_state_roots (st_history st)"
  "bs_latest_block_header (st_history (put_block_roots xs st)) = bs_latest_block_header (st_history st)"
  "st_versioning (put_state_roots xs st) = st_versioning st"
  "st_variant (put_state_roots xs st) = st_variant st"
  "bs_state_roots (st_history (put_state_roots xs st)) = xs"
  "bs_block_roots (st_history (put_state_roots xs st)) = bs_block_roots (st_history st)"
  "bs_latest_block_header (st_history (put_state_roots xs st)) = bs_latest_block_header (st_history st)"
  by (simp_all add: put_block_roots_def put_state_roots_def)

lemma fill_header_simps [simp]:
  "st_versioning (fill_header_root r st) = st_versioning st"
  "st_variant (fill_header_root r st) = st_variant st"
  "bs_block_roots (st_history (fill_header_root r st)) = bs_block_roots (st_history st)"
  "bs_state_roots (st_history (fill_header_root r st)) = bs_state_roots (st_history st)"
  by (simp_all add: fill_header_root_def Let_def)

text \<open>Reading a root looks at the slot and the roots only.\<close>

lemma get_root_cong:
  assumes "state_slot st' = state_slot st"
  shows "bs_block_roots (st_history st') = bs_block_roots (st_history st) \<Longrightarrow>
      get_block_root st' = get_block_root st"
    and "bs_state_roots (st_history st') = bs_state_roots (st_history st) \<Longrightarrow>
      get_state_root st' = get_state_root st"
  by (simp_all add: fun_eq_iff get_block_root_def get_state_root_def get_latest_block_roots_index_def
      get_latest_state_roots_index_def roots_index_cong [OF assms])

lemma set_root_index:
  "set_state_root sl r st = Inr st' \<Longrightarrow> \<exists>i. get_latest_state_roots_index st sl = Inr i"
  "set_block_root sl r st = Inr st' \<Longrightarrow> \<exists>i. get_latest_block_roots_index st sl = Inr i"
  by (auto simp: set_state_root_def set_block_root_def rbind_Inr)

text \<open>The states \<open>cache_state\<close> passes through.\<close>

definition recorded_root :: "('o, 'm) slot_externals \<Rightarrow> root option \<Rightarrow> 'o beacon_state \<Rightarrow> state_error + root" where
  "recorded_root X known st = (case known of Some r \<Rightarrow> Inr r | None \<Rightarrow> sx_tree_hash X st)"

lemma cache_state_Inr:
  "cache_state X known st = (Inr u, st') \<longleftrightarrow> (\<exists>r st1 st2. recorded_root X known st = Inr r \<and>
    unat (state_slot st) + 1 < 2 ^ 64 \<and>
    set_state_root (state_slot st) r (set_slot (state_slot st + 1) st) = Inr st1 \<and>
    set_block_root (state_slot st)
      (sx_header_root X (bs_latest_block_header (st_history (fill_header_root r st1))))
      (fill_header_root r st1) = Inr st2 \<and>
    state_slot st2 \<noteq> 0 \<and> st' = set_slot (state_slot st2 - 1) st2)"
  by (cases known) (auto simp: cache_state_def step_simps recorded_root_def)

lemma set_roots_keep:
  "set_state_root sl r st = Inr st' \<Longrightarrow> st_versioning st' = st_versioning st \<and> st_variant st' = st_variant st
     \<and> bs_block_roots (st_history st') = bs_block_roots (st_history st)
     \<and> length (bs_state_roots (st_history st')) = length (bs_state_roots (st_history st))
     \<and> bs_latest_block_header (st_history st') = bs_latest_block_header (st_history st)"
  "set_block_root sl r st = Inr st' \<Longrightarrow> st_versioning st' = st_versioning st \<and> st_variant st' = st_variant st
     \<and> bs_state_roots (st_history st') = bs_state_roots (st_history st)
     \<and> bs_latest_block_header (st_history st') = bs_latest_block_header (st_history st)"
  by (auto simp: set_state_root_def set_block_root_def rbind_Inr Let_def split: if_splits)

lemma cache_state_keeps: "cache_state X known st = (Inr u, st') \<Longrightarrow>
    state_slot st' = state_slot st \<and> st_variant st' = st_variant st"
  by (auto simp: cache_state_Inr dest!: set_roots_keep)

text \<open>
  After the roots of a slot are cached, the next slot reads the recorded state root and the
  root of the completed header for that slot, and every other slot as before.\<close>

theorem cache_state_records:
  assumes "cache_state X known st = (Inr (), st')"
    and "bounded_roots bs_block_roots st" and "bounded_roots bs_state_roots st"
  shows "\<exists>r. recorded_root X known st = Inr r \<and> state_slot st' = state_slot st \<and>
    (let after = set_slot (state_slot st + 1) st'; before = set_slot (state_slot st + 1) st;
         header = bs_latest_block_header (st_history (fill_header_root r st)) in
     bs_latest_block_header (st_history st') = header \<and>
     get_state_root after = (get_state_root before)(state_slot st := Inr r) \<and>
     get_block_root after = (get_block_root before)(state_slot st := Inr (sx_header_root X header)))"
proof -
  let ?sl = "state_slot st" let ?before = "set_slot (?sl + 1) st" let ?after = "set_slot (?sl + 1) st'"
  obtain r st1 st2 where r: "recorded_root X known st = Inr r"
    and st1: "set_state_root ?sl r ?before = Inr st1"
    and st2: "set_block_root ?sl (sx_header_root X (bs_latest_block_header (st_history (fill_header_root r st1))))
      (fill_header_root r st1) = Inr st2"
    and st': "st' = set_slot (state_slot st2 - 1) st2"
    using assms(1) unfolding cache_state_Inr by blast
  note k1 = set_roots_keep(1) [OF st1] and k2 = set_roots_keep(2) [OF st2]
  have header: "bs_latest_block_header (st_history (fill_header_root r st1)) =
      bs_latest_block_header (st_history (fill_header_root r st))"
    using k1 by (simp add: fill_header_root_def Let_def)
  have slots: "state_slot st1 = ?sl + 1" "state_slot st2 = ?sl + 1" using k1 k2 by simp_all
  have state: "get_state_root ?after = get_state_root st1"
    using k2 slots by (intro get_root_cong) (simp_all add: st')
  have block: "get_block_root ?after = get_block_root st2"
    using slots by (intro get_root_cong) (simp_all add: st')
  have block0: "get_block_root (fill_header_root r st1) = get_block_root ?before"
    using k1 slots by (intro get_root_cong) simp_all
  obtain i j where i: "get_latest_state_roots_index ?before ?sl = Inr i"
    and j: "get_latest_block_roots_index (fill_header_root r st1) ?sl = Inr j"
    using set_root_index st1 st2 by blast
  have "get_state_root st1 = (get_state_root ?before)(?sl := Inr r)"
    using state_ring.get_set_same [OF st1 i] state_ring.get_set_other [OF _ st1] assms(3) by force
  moreover have "get_block_root st2 = (get_block_root ?before)(?sl := Inr (sx_header_root X
      (bs_latest_block_header (st_history (fill_header_root r st)))))"
    using block_ring.get_set_same [OF st2 j] block_ring.get_set_other [OF _ st2] assms(2) k1 block0 header
    by force
  ultimately show ?thesis using r slots state block k2 header by (simp add: Let_def st')
qed


section \<open>The upgrade to Daisugi\<close>

lemma upgrade_to_daisugi_eq: "upgrade_to_daisugi X E s st =
    (if st_variant st = Electra then (Inr (), daisugi_state E s st)
     else (Inl BSE_IncorrectStateVariant, st))"
  by (simp add: upgrade_to_daisugi_def upgrade_state_to_daisugi_def step_bind_def)

text \<open>
  C30. The upgrade succeeds on Electra states only and leaves any other state as it was. It keeps
  the whole state except for the variant, the fork, which moves to the Daisugi version at the
  current epoch, and the two new fields of the payload header, which are zero.\<close>

theorem daisugi_upgrade_keeps:
  "upgrade_to_daisugi X E s st =
    (if st_variant st = Electra then (Inr (), st\<lparr>st_variant := Daisugi,
       st_versioning := (st_versioning st)\<lparr>bs_fork := \<lparr>
         fk_previous_version = fk_current_version (bs_fork (st_versioning st)),
         fk_current_version = fork_version_for_name s Daisugi,
         fk_epoch = current_epoch E st\<rparr>\<rparr>,
       st_execution := (st_execution st)\<lparr>eh_recursive_stark_proof_root := replicate 32 0,
         eh_recursive_stark_block_deps_hash := replicate 32 0\<rparr>\<rparr>)
     else (Inl BSE_IncorrectStateVariant, st))"
  unfolding upgrade_to_daisugi_eq
  by (simp add: daisugi_state_def upgrade_header_to_daisugi_def fork_version_for_name_def)

section \<open>The fork of an advanced state\<close>

text \<open>What is relied on: epoch processing and the caches keep the slot and the variant, and the
  upgrade to a fork turns a state of the fork before it into a state of that fork.\<close>

definition keeps_fork :: "('o beacon_state, 'e, 'a) step \<Rightarrow> bool" where
  "keeps_fork m \<longleftrightarrow> (\<forall>st x st'. m st = (Inr x, st') \<longrightarrow>
     state_slot st' = state_slot st \<and> st_variant st' = st_variant st)"

definition upgrades_to :: "('o beacon_state, 'e, 'a) step \<Rightarrow> fork_name \<Rightarrow> bool" where
  "upgrades_to m f \<longleftrightarrow> (\<forall>st x st'. m st = (Inr x, st') \<longrightarrow> previous_fork f = Some (st_variant st) \<and>
     state_slot st' = state_slot st \<and> st_variant st' = f)"

definition slot_externals_lawful :: "('o, 'm) slot_externals \<Rightarrow> chain_spec \<Rightarrow> bool" where
  "slot_externals_lawful X s \<longleftrightarrow> keeps_fork (sx_epoch_processing X s) \<and>
     keeps_fork (sx_build_caches X s) \<and> (\<forall>f. f \<noteq> Daisugi \<longrightarrow> upgrades_to (sx_upgrade X f s) f)"

lemma keeps_forkD: "keeps_fork m \<Longrightarrow> m st = (Inr x, st') \<Longrightarrow>
    state_slot st' = state_slot st \<and> st_variant st' = st_variant st"
  unfolding keeps_fork_def by blast

lemma upgrade_to_upgrades: "slot_externals_lawful X s \<Longrightarrow> upgrades_to (upgrade_to X E s f) f"
  by (auto simp: slot_externals_lawful_def upgrade_to_def upgrades_to_def upgrade_to_daisugi_eq
      daisugi_state_def split: if_splits)

lemma maybe_upgrade_Inr:
  assumes "slot_externals_lawful X s" and "maybe_upgrade X E s f st = (Inr u, st')"
  shows "state_slot st' = state_slot st \<and>
    (if fork_epoch s f = Some (current_epoch E st) then st_variant st < f \<and> st_variant st' = f
     else st_variant st' = st_variant st)"
  using assms(2) upgrade_to_upgrades [OF assms(1), of E f] previous_less
  by (auto simp: maybe_upgrade_def step_err_Inr upgrades_to_def split: if_splits)

text \<open>A run of upgrades reaches the last fork of the list that activates now.\<close>

definition last_activated :: "chain_spec \<Rightarrow> epoch \<Rightarrow> fork_name list \<Rightarrow> fork_name \<Rightarrow> fork_name \<Rightarrow> bool" where
  "last_activated s e fs f g \<longleftrightarrow> f \<le> g \<and> (f = g \<or> fork_epoch s g = Some e) \<and>
     (\<forall>h \<in> set fs. fork_epoch s h = Some e \<longrightarrow> h \<le> g)"

lemma run_upgrades_Inr:
  assumes "slot_externals_lawful X s" and "sorted_wrt (<) fs"
    and "run_upgrades X E s fs st = (Inr u, st')"
  shows "state_slot st' = state_slot st \<and>
    last_activated s (current_epoch E st) fs (st_variant st) (st_variant st')"
  using assms(2,3)
proof (induction fs arbitrary: st)
  case (Cons f fs)
  then obtain st1 where st1: "maybe_upgrade X E s f st = (Inr (), st1)" "run_upgrades X E s fs st1 = (Inr u, st')"
    by (auto simp: step_simps)
  have m: "state_slot st1 = state_slot st"
    "if fork_epoch s f = Some (current_epoch E st) then st_variant st < f \<and> st_variant st1 = f
     else st_variant st1 = st_variant st"
    using maybe_upgrade_Inr [OF assms(1) st1(1)] by simp_all
  have "current_epoch E st1 = current_epoch E st" using m(1) by (simp add: current_epoch_def)
  then show ?case using Cons.IH [OF _ st1(2)] Cons.prems(1) m
    by (auto simp: last_activated_def split: if_splits)
qed (simp add: last_activated_def step_simps)

lemma upgrade_order_sorted: "sorted_wrt (<) upgrade_order"
  by (simp add: upgrade_order_def fork_order)

lemma in_upgrade_order: "f \<noteq> Base \<Longrightarrow> f \<in> set upgrade_order"
  by (cases f) (simp_all add: upgrade_order_def)

lemma last_activated_fork:
  assumes "last_activated s (e + 1) upgrade_order (fork_name_at_epoch s e) g" and "e < e + 1"
  shows "g = fork_name_at_epoch s (e + 1)"
proof (rule order_antisym)
  have le: "a \<le> e" if "a \<le> e + 1" "a \<noteq> e + 1" for a :: epoch
    using that assms(2) by (metis inc_le order_le_less word_le_less_eq linorder_not_less)
  obtain a where a: "fork_epoch s (fork_name_at_epoch s e) = Some a" "a \<le> e" using active_fork by blast
  show "g \<le> fork_name_at_epoch s (e + 1)"
    using assms a active_latest [of s] by (auto simp: last_activated_def)
  obtain b where b: "fork_epoch s (fork_name_at_epoch s (e + 1)) = Some b" "b \<le> e + 1"
    using active_fork by blast
  show "fork_name_at_epoch s (e + 1) \<le> g"
  proof (cases "b = e + 1")
    case True
    then have "fork_name_at_epoch s (e + 1) \<noteq> Base"
      using b(1) assms(2) by (auto simp: fork_epoch_def)
    then show ?thesis using assms(1) b(1) True in_upgrade_order by (simp add: last_activated_def)
  next
    case False
    then have "fork_name_at_epoch s (e + 1) \<le> fork_name_at_epoch s e"
      using b le active_latest by blast
    then show ?thesis using assms(1) by (auto simp: last_activated_def intro: order_trans)
  qed
qed


lemma epoch_step_nat: "(sl + 1) div n = (if (sl + 1) mod n = 0 then sl div n + 1 else sl div (n::nat))"
  if "0 < n"
  by (simp add: div_Suc)

lemma epoch_step:
  assumes "unat sl + 1 < 2 ^ 64" and "n \<noteq> (0 :: u64)"
  shows "(sl + 1) div n = (if (sl + 1) mod n = 0 then sl div n + 1 else sl div n) \<and>
    ((sl + 1) mod n = 0 \<longrightarrow> sl div n < sl div n + 1)"
proof -
  have n: "0 < unat n" using assms(2) by (simp add: unat_gt_0)
  have s: "unat (sl + 1) = unat sl + 1" using assms(1) unat_safe_add [of sl 1 "sl + 1"] by (simp add: safe_add_def)
  have zero: "(sl + 1) mod n = 0 \<longleftrightarrow> (unat sl + 1) mod unat n = 0"
    by (simp add: word_unat_eq_iff unat_mod s)
  have "unat sl div unat n + 1 < 2 ^ 64" using assms(1) div_le_dividend [of "unat sl" "unat n"] by linarith
  then have d: "unat (sl div n + 1) = unat (sl div n) + 1"
    using unat_safe_add [of "sl div n" 1 "sl div n + 1"] by (simp add: safe_add_def unat_div)
  show ?thesis using epoch_step_nat [OF n, of "unat sl"] zero d
    by (simp add: word_unat_eq_iff unat_div s word_less_nat_alt)
qed

lemma unset_next_availability_keeps: "keeps_fork (unset_next_availability E)"
  by (auto simp: keeps_fork_def unset_next_availability_def step_try_Inr Let_def split: if_splits option.splits)

text \<open>The part of the step after the increment of the slot.\<close>

lemma begin_slot:
  assumes "slot_externals_lawful X s" and "starts_epoch E st1 = Inr starts"
    and "unat sl + 1 < 2 ^ 64" and "state_slot st1 = sl + 1"
    and "st_variant st1 = fork_name_at_epoch s (epoch_of (ss_eth E) sl)"
    and "(if starts then step_bind (run_upgrades X E s upgrade_order) (\<lambda>_. step_err SE_State (sx_build_caches X s))
      else step_get (\<lambda>st. Inr ())) st1 = (Inr (), st')"
  shows "state_slot st' = sl + 1 \<and> st_variant st' = fork_name_at_epoch s (epoch_of (ss_eth E) (sl + 1))"
proof -
  let ?n = "es_slots_per_epoch (ss_eth E)"
  have n: "?n \<noteq> 0" "starts \<longleftrightarrow> (sl + 1) mod ?n = 0"
    using assms(2,4) by (auto simp: starts_epoch_def rbind_Inr ok_or_Inr safe_rem_def split: if_splits)
  note step = epoch_step [OF assms(3) n(1)]
  show ?thesis
  proof (cases starts)
    case False
    then show ?thesis using assms(4-6) step n by (simp add: step_simps epoch_of_def)
  next
    case True
    then obtain st2 where st2: "run_upgrades X E s upgrade_order st1 = (Inr (), st2)"
      "sx_build_caches X s st2 = (Inr (), st')"
      using assms(6) by (auto simp: step_simps)
    have e: "current_epoch E st1 = epoch_of (ss_eth E) sl + 1" "epoch_of (ss_eth E) sl < epoch_of (ss_eth E) sl + 1"
      using step True n assms(4) by (simp_all add: current_epoch_def epoch_of_def)
    have "state_slot st2 = sl + 1" "st_variant st2 = fork_name_at_epoch s (epoch_of (ss_eth E) sl + 1)"
      using run_upgrades_Inr [OF assms(1) upgrade_order_sorted st2(1)] assms(4,5) e last_activated_fork
      by simp_all
    moreover have "keeps_fork (sx_build_caches X s)" using assms(1) by (simp add: slot_externals_lawful_def)
    ultimately show ?thesis using keeps_forkD [of "sx_build_caches X s", OF _ st2(2)] step True n by (simp add: epoch_of_def)
  qed
qed

lemma per_slot_fork:
  assumes "slot_externals_lawful X s" and "per_slot_processing X E s known st = (Inr summary, st')"
  shows "unat (state_slot st') = unat (state_slot st) + 1 \<and>
    state_fork_name E s st' = Inr (st_variant st') \<and>
    st_variant st' = fork_name_at_slot (ss_eth E) s (state_slot st + 1) \<and>
    (summary \<noteq> None \<longleftrightarrow> state_slot st > genesis_slot (sp_constants s) \<and>
       (state_slot st + 1) mod es_slots_per_epoch (ss_eth E) = 0)"
proof -
  let ?sl = "state_slot st"
  obtain st1 ends st2 st3 starts where
    fork: "state_fork_name E s st = Inr (st_variant st)"
    and st1: "cache_state X known st = (Inr (), st1)" and ends: "ends_epoch E s st1 = Inr ends"
    and st2: "(if ends then step_bind (step_err SE_Epoch (sx_epoch_processing X s)) (\<lambda>m. step_get (\<lambda>st. Inr (Some m)))
      else step_get (\<lambda>st. Inr None)) st1 = (Inr summary, st2)"
    and st3: "unset_next_availability E st2 = (Inr (), st3)" and ok: "unat (state_slot st3) + 1 < 2 ^ 64"
    and starts: "starts_epoch E (set_slot (state_slot st3 + 1) st3) = Inr starts"
    and last: "(if starts then step_bind (run_upgrades X E s upgrade_order) (\<lambda>_. step_err SE_State (sx_build_caches X s))
      else step_get (\<lambda>st. Inr ())) (set_slot (state_slot st3 + 1) st3) = (Inr (), st')"
    using assms(2) unfolding per_slot_processing_def step_simps
    by (auto simp: state_fork_name_def Let_def fork_name_unchecked_def split: if_splits)
  note k1 = cache_state_keeps [OF st1]
  have k2: "state_slot st2 = state_slot st1 \<and> st_variant st2 = st_variant st1" and some: "summary \<noteq> None \<longleftrightarrow> ends"
    using st2 assms(1) by (auto simp: step_simps slot_externals_lawful_def dest!: keeps_forkD split: if_splits)
  note k3 = keeps_forkD [OF unset_next_availability_keeps st3]
  have slot: "state_slot st3 = ?sl" using k1 k2 k3 by simp
  have "state_slot st' = ?sl + 1 \<and> st_variant st' = fork_name_at_epoch s (epoch_of (ss_eth E) (?sl + 1))"
  proof (rule begin_slot [OF assms(1) starts _ _ _ last])
    show "st_variant (set_slot (state_slot st3 + 1) st3) = fork_name_at_epoch s (epoch_of (ss_eth E) ?sl)"
      using fork k1 k2 k3 by (auto simp: state_fork_name_def Let_def current_epoch_def split: if_splits)
  qed (use slot ok in simp_all)
  moreover have "unat (?sl + 1) = unat ?sl + 1"
    using ok slot unat_safe_add [of ?sl 1 "?sl + 1"] by (simp add: safe_add_def)
  moreover have "ends \<longleftrightarrow> ?sl > genesis_slot (sp_constants s) \<and> (?sl + 1) mod es_slots_per_epoch (ss_eth E) = 0"
    using ends k1 by (auto simp: ends_epoch_def rbind_Inr ok_or_Inr bind_Some_conv safe_add_def safe_rem_def split: if_splits)
  ultimately show ?thesis using some
    by (simp add: state_fork_name_def fork_name_unchecked_def current_epoch_def fork_name_at_slot_def)
qed

text \<open>
  C29. A state that is advanced by one slot is at the next slot and has the variant of the fork
  scheduled for the epoch of that slot, whatever upgrades the slot triggers; epoch processing ran
  exactly when the slot that was left was the last of an epoch after genesis.\<close>

theorem per_slot_fork_consistent:
  assumes "slot_externals_lawful X s" and "per_slot_processing X E s known st = (Inr summary, st')"
  shows "unat (state_slot st') = unat (state_slot st) + 1 \<and>
    state_fork_name E s st' = Inr (st_variant st') \<and>
    st_variant st' = fork_name_at_slot (ss_eth E) s (state_slot st + 1) \<and>
    (summary \<noteq> None \<longleftrightarrow> state_slot st > genesis_slot (sp_constants s) \<and>
       (state_slot st + 1) mod es_slots_per_epoch (ss_eth E) = 0)"
  by (rule per_slot_fork [OF assms])

end
