(* ===== verification/Chain_Presets.thy ===== *)
theory Chain_Presets
  imports Chain_Spec
begin

text \<open>
  The three specifications of \<open>consensus/types/src/core/chain_spec.rs\<close>: \<open>mainnet\<close>, \<open>gnosis\<close>,
  and \<open>minimal\<close>, which overrides \<open>mainnet\<close>. One definition per group of fields.
\<close>

section \<open>Mainnet\<close>

definition mainnet_constants :: cs_constants where
  "mainnet_constants = \<lparr>
     genesis_slot = 0, far_future_epoch = - 1, base_rewards_per_epoch = 4,
     deposit_contract_tree_depth = 32\<rparr>"

definition mainnet_misc :: cs_misc where
  "mainnet_misc = \<lparr>
     max_committees_per_slot = 64, target_committee_size = 128, min_per_epoch_churn_limit = 4,
     max_per_epoch_activation_churn_limit = 8, churn_limit_quotient = 65536,
     shuffle_round_count = 90, min_genesis_active_validator_count = 16384,
     min_genesis_time = 1606824000, hysteresis_quotient = 4, hysteresis_downward_multiplier = 1,
     hysteresis_upward_multiplier = 5, proportional_slashing_multiplier = 1\<rparr>"

definition mainnet_gwei :: cs_gwei where
  "mainnet_gwei = \<lparr>
     min_deposit_amount = 2 ^ 0 * 10 ^ 9, max_effective_balance = 2 ^ 5 * 10 ^ 9,
     ejection_balance = 2 ^ 4 * 10 ^ 9, effective_balance_increment = 2 ^ 0 * 10 ^ 9\<rparr>"

definition mainnet_initial :: cs_initial where
  "mainnet_initial = \<lparr>
     genesis_fork_version = [0, 0, 0, 0], bls_withdrawal_prefix_byte = 0x00,
     eth1_address_withdrawal_prefix_byte = 0x01, compounding_withdrawal_prefix_byte = 0x02,
     builder_withdrawal_prefix_byte = 0x03\<rparr>"

definition mainnet_timing :: cs_timing where
  "mainnet_timing = \<lparr>
     genesis_delay = 604800, seconds_per_slot = 12, slot_duration_ms = 12000,
     min_attestation_inclusion_delay = 1, min_seed_lookahead = 1, max_seed_lookahead = 4,
     min_epochs_to_inactivity_penalty = 4, min_validator_withdrawability_delay = 256,
     shard_committee_period = 256, proposer_reorg_cutoff_bps = 1667, attestation_due_bps = 3333,
     attestation_due_bps_gloas = 2500, payload_due_bps = 7500, payload_attestation_due_bps = 7500,
     aggregate_due_bps = 6667, sync_message_due_bps = 3333, contribution_due_bps = 6667\<rparr>"

definition mainnet_due :: cs_due where
  "mainnet_due = \<lparr>
     unaggregated_attestation_due = 3999, unaggregated_attestation_due_gloas = 3000,
     payload_due = 9000, payload_attestation_due = 9000, aggregate_attestation_due = 8000,
     sync_message_due = 3999, contribution_and_proof_due = 8000\<rparr>"

definition mainnet_rewards :: cs_rewards where
  "mainnet_rewards = \<lparr>
     base_reward_factor = 64, whistleblower_reward_quotient = 512, proposer_reward_quotient = 8,
     inactivity_penalty_quotient = 2 ^ 26, min_slashing_penalty_quotient = 128\<rparr>"

definition mainnet_domains :: cs_domains where
  "mainnet_domains = \<lparr>
     domain_beacon_proposer = 0, domain_beacon_attester = 1, domain_randao = 2,
     domain_deposit = 3, domain_voluntary_exit = 4, domain_selection_proof = 5,
     domain_aggregate_and_proof = 6, domain_beacon_builder = 0x0B, domain_ptc_attester = 0x0C,
     domain_proposer_preferences = 0x0D\<rparr>"

definition mainnet_fork_choice :: cs_fork_choice where
  "mainnet_fork_choice = \<lparr>
     proposer_score_boost = 40, reorg_head_weight_threshold = 20,
     reorg_parent_weight_threshold = 160, reorg_max_epochs_since_finalization = 2\<rparr>"

definition mainnet_eth1 :: cs_eth1 where
  "mainnet_eth1 = \<lparr>
     eth1_follow_distance = 2048, seconds_per_eth1_block = 14, deposit_chain_id = 1,
     deposit_network_id = 1,
     deposit_contract_address = [0x00, 0x00, 0x00, 0x00, 0x21, 0x9A, 0xB5, 0x40, 0x35, 0x6C, 0xBB, 0x83, 0x9C, 0xBE, 0x05, 0x30, 0x3D, 0x77, 0x05, 0xFA]\<rparr>"

definition mainnet_execution :: cs_execution where
  "mainnet_execution = \<lparr>
     gas_limit_adjustment_factor = 1024\<rparr>"

definition mainnet_altair :: cs_altair where
  "mainnet_altair = \<lparr>
     inactivity_penalty_quotient_altair = 2 ^ 24 * 3,
     min_slashing_penalty_quotient_altair = 2 ^ 6, proportional_slashing_multiplier_altair = 2,
     epochs_per_sync_committee_period = 256, inactivity_score_bias = 4,
     inactivity_score_recovery_rate = 16, min_sync_committee_participants = 1,
     update_timeout = 8192, domain_sync_committee = 7, domain_sync_committee_selection_proof = 8,
     domain_contribution_and_proof = 9, altair_fork_version = [1, 0, 0, 0],
     altair_fork_epoch = Some 74240\<rparr>"

definition mainnet_bellatrix :: cs_bellatrix where
  "mainnet_bellatrix = \<lparr>
     inactivity_penalty_quotient_bellatrix = 2 ^ 24,
     min_slashing_penalty_quotient_bellatrix = 2 ^ 5,
     proportional_slashing_multiplier_bellatrix = 3, bellatrix_fork_version = [2, 0, 0, 0],
     bellatrix_fork_epoch = Some 144896, terminal_total_difficulty = 58750000000000000000000,
     terminal_block_hash = replicate 32 0, terminal_block_hash_activation_epoch = - 1\<rparr>"

definition mainnet_capella :: cs_capella where
  "mainnet_capella = \<lparr>
     capella_fork_version = [3, 0, 0, 0], capella_fork_epoch = Some 194048,
     max_validators_per_withdrawals_sweep = 16384\<rparr>"

definition mainnet_deneb :: cs_deneb where
  "mainnet_deneb = \<lparr>
     deneb_fork_version = [4, 0, 0, 0], deneb_fork_epoch = Some 269568\<rparr>"

definition mainnet_electra :: cs_electra where
  "mainnet_electra = \<lparr>
     electra_fork_version = [5, 0, 0, 0], electra_fork_epoch = Some 364032,
     unset_deposit_requests_start_index = - 1, full_exit_request_amount = 0,
     min_activation_balance = 2 ^ 5 * 10 ^ 9, max_effective_balance_electra = 2 ^ 11 * 10 ^ 9,
     min_slashing_penalty_quotient_electra = 2 ^ 12,
     whistleblower_reward_quotient_electra = 2 ^ 12,
     max_pending_partials_per_withdrawals_sweep = 2 ^ 3,
     min_per_epoch_churn_limit_electra = 2 ^ 7 * 10 ^ 9,
     max_per_epoch_activation_exit_churn_limit = 2 ^ 8 * 10 ^ 9\<rparr>"

definition mainnet_daisugi :: cs_daisugi where
  "mainnet_daisugi = \<lparr>
     daisugi_fork_version = [0, 0, 0, 0], daisugi_fork_epoch = None\<rparr>"

definition mainnet_fulu :: cs_fulu where
  "mainnet_fulu = \<lparr>
     fulu_fork_version = [6, 0, 0, 0], fulu_fork_epoch = Some 411392,
     number_of_custody_groups = 128, data_column_sidecar_subnet_count = 128, samples_per_slot = 8,
     custody_requirement = 4, validator_custody_requirement = 8,
     balance_per_additional_custody_group = 32000000000\<rparr>"

definition mainnet_gloas :: cs_gloas where
  "mainnet_gloas = \<lparr>
     gloas_fork_version = [7, 0, 0, 0], gloas_fork_epoch = None,
     builder_payment_threshold_numerator = 6, builder_payment_threshold_denominator = 10,
     min_builder_withdrawability_delay = 8192, churn_limit_quotient_gloas = 2 ^ 15,
     consolidation_churn_limit_quotient = 2 ^ 16,
     max_per_epoch_activation_churn_limit_gloas = 2 ^ 8 * 10 ^ 9\<rparr>"

definition mainnet_networking :: cs_networking where
  "mainnet_networking = \<lparr>
     boot_nodes = [], network_id = 1, target_aggregators_per_committee = 16,
     max_payload_size = default_max_payload_size, max_request_blocks = default_max_request_blocks,
     min_epochs_for_block_requests = default_min_epochs_for_block_requests,
     ttfb_timeout = default_ttfb_timeout, resp_timeout = default_resp_timeout,
     attestation_propagation_slot_range = default_attestation_propagation_slot_range,
     maximum_gossip_clock_disparity = default_maximum_gossip_clock_disparity,
     message_domain_invalid_snappy = default_message_domain_invalid_snappy,
     message_domain_valid_snappy = default_message_domain_valid_snappy, subnets_per_node = 2,
     epochs_per_subnet_subscription = 256, attestation_subnet_count = 64,
     attestation_subnet_extra_bits = 0,
     attestation_subnet_prefix_bits = compute_attestation_subnet_prefix_bits default_attestation_subnet_count default_attestation_subnet_extra_bits\<rparr>"

definition mainnet_net_deneb :: cs_net_deneb where
  "mainnet_net_deneb = \<lparr>
     max_request_blocks_deneb = default_max_request_blocks_deneb,
     max_request_blob_sidecars = default_max_request_blob_sidecars,
     max_request_data_column_sidecars = default_max_request_data_column_sidecars,
     min_epochs_for_blob_sidecars_requests = default_min_epochs_for_blob_sidecars_requests,
     blob_sidecar_subnet_count = default_blob_sidecar_subnet_count,
     max_blobs_per_block = default_max_blobs_per_block\<rparr>"

definition mainnet_net_electra :: cs_net_electra where
  "mainnet_net_electra = \<lparr>
     max_blobs_per_block_electra = default_max_blobs_per_block_electra,
     blob_sidecar_subnet_count_electra = default_blob_sidecar_subnet_count_electra,
     max_request_blob_sidecars_electra = default_max_request_blob_sidecars_electra\<rparr>"

definition mainnet_net_fulu :: cs_net_fulu where
  "mainnet_net_fulu = \<lparr>

     blob_schedule = blob_schedule_new [\<lparr>bp_epoch = 412672, bp_max_blobs = 15\<rparr>, \<lparr>bp_epoch = 419072, bp_max_blobs = 21\<rparr>],
     min_epochs_for_data_column_sidecars_requests = default_min_epochs_for_data_column_sidecars_requests\<rparr>"

definition mainnet_net_gloas :: cs_net_gloas where
  "mainnet_net_gloas = \<lparr>
     max_request_payloads = 128\<rparr>"

definition mainnet_net_derived :: cs_net_derived where
  "mainnet_net_derived = \<lparr>
     max_blocks_by_root_request = default_max_blocks_by_root_request,
     max_blocks_by_root_request_deneb = default_max_blocks_by_root_request_deneb,
     max_blobs_by_root_request = default_max_blobs_by_root_request,
     max_data_columns_by_root_request = default_data_columns_by_root_request,
     max_payload_envelopes_by_root_request = default_max_payload_envelopes_by_root_request\<rparr>"

definition mainnet_application :: "chain_externals \<Rightarrow> cs_application" where
  "mainnet_application X = \<lparr>
     domain_application_mask = application_domain_builder X\<rparr>"

definition mainnet_capella_domain :: cs_capella_domain where
  "mainnet_capella_domain = \<lparr>
     domain_bls_to_execution_change = 10\<rparr>"

definition mainnet :: "chain_externals \<Rightarrow> chain_spec" where
  "mainnet X = \<lparr>config_name = Some ''mainnet'',
     sp_constants = mainnet_constants, sp_misc = mainnet_misc, sp_gwei = mainnet_gwei,
     sp_initial = mainnet_initial, sp_timing = mainnet_timing, sp_due = mainnet_due,
     sp_rewards = mainnet_rewards, sp_domains = mainnet_domains,
     sp_fork_choice = mainnet_fork_choice, sp_eth1 = mainnet_eth1,
     sp_execution = mainnet_execution, sp_altair = mainnet_altair,
     sp_bellatrix = mainnet_bellatrix, sp_capella = mainnet_capella, sp_deneb = mainnet_deneb,
     sp_electra = mainnet_electra, sp_daisugi = mainnet_daisugi, sp_fulu = mainnet_fulu,
     sp_gloas = mainnet_gloas, sp_networking = mainnet_networking,
     sp_net_deneb = mainnet_net_deneb, sp_net_electra = mainnet_net_electra,
     sp_net_fulu = mainnet_net_fulu, sp_net_gloas = mainnet_net_gloas,
     sp_net_derived = mainnet_net_derived, sp_application = mainnet_application X,
     sp_capella_domain = mainnet_capella_domain\<rparr>"

section \<open>Gnosis\<close>

definition gnosis_constants :: cs_constants where
  "gnosis_constants = \<lparr>
     genesis_slot = 0, far_future_epoch = - 1, base_rewards_per_epoch = 4,
     deposit_contract_tree_depth = 32\<rparr>"

definition gnosis_misc :: cs_misc where
  "gnosis_misc = \<lparr>
     max_committees_per_slot = 64, target_committee_size = 128, min_per_epoch_churn_limit = 4,
     max_per_epoch_activation_churn_limit = 2, churn_limit_quotient = 4096,
     shuffle_round_count = 90, min_genesis_active_validator_count = 4096,
     min_genesis_time = 1638968400, hysteresis_quotient = 4, hysteresis_downward_multiplier = 1,
     hysteresis_upward_multiplier = 5, proportional_slashing_multiplier = 1\<rparr>"

definition gnosis_gwei :: cs_gwei where
  "gnosis_gwei = \<lparr>
     min_deposit_amount = 2 ^ 0 * 10 ^ 9, max_effective_balance = 2 ^ 5 * 10 ^ 9,
     ejection_balance = 2 ^ 4 * 10 ^ 9, effective_balance_increment = 2 ^ 0 * 10 ^ 9\<rparr>"

definition gnosis_initial :: cs_initial where
  "gnosis_initial = \<lparr>
     genesis_fork_version = [0, 0, 0, 100], bls_withdrawal_prefix_byte = 0x00,
     eth1_address_withdrawal_prefix_byte = 0x01, compounding_withdrawal_prefix_byte = 0x02,
     builder_withdrawal_prefix_byte = 0x03\<rparr>"

definition gnosis_timing :: cs_timing where
  "gnosis_timing = \<lparr>
     genesis_delay = 6000, seconds_per_slot = 5, slot_duration_ms = 5000,
     min_attestation_inclusion_delay = 1, min_seed_lookahead = 1, max_seed_lookahead = 4,
     min_epochs_to_inactivity_penalty = 4, min_validator_withdrawability_delay = 256,
     shard_committee_period = 256, proposer_reorg_cutoff_bps = 1667, attestation_due_bps = 3333,
     attestation_due_bps_gloas = 2500, payload_due_bps = 7500, payload_attestation_due_bps = 7500,
     aggregate_due_bps = 6667, sync_message_due_bps = 3333, contribution_due_bps = 6667\<rparr>"

definition gnosis_due :: cs_due where
  "gnosis_due = \<lparr>
     unaggregated_attestation_due = 1666, unaggregated_attestation_due_gloas = 1250,
     payload_due = 3750, payload_attestation_due = 3750, aggregate_attestation_due = 3333,
     sync_message_due = 1666, contribution_and_proof_due = 3333\<rparr>"

definition gnosis_rewards :: cs_rewards where
  "gnosis_rewards = \<lparr>
     base_reward_factor = 25, whistleblower_reward_quotient = 512, proposer_reward_quotient = 8,
     inactivity_penalty_quotient = 2 ^ 26, min_slashing_penalty_quotient = 128\<rparr>"

definition gnosis_domains :: cs_domains where
  "gnosis_domains = \<lparr>
     domain_beacon_proposer = 0, domain_beacon_attester = 1, domain_randao = 2,
     domain_deposit = 3, domain_voluntary_exit = 4, domain_selection_proof = 5,
     domain_aggregate_and_proof = 6, domain_beacon_builder = 0x0B, domain_ptc_attester = 0x0C,
     domain_proposer_preferences = 0x0D\<rparr>"

definition gnosis_fork_choice :: cs_fork_choice where
  "gnosis_fork_choice = \<lparr>
     proposer_score_boost = 40, reorg_head_weight_threshold = 20,
     reorg_parent_weight_threshold = 160, reorg_max_epochs_since_finalization = 2\<rparr>"

definition gnosis_eth1 :: cs_eth1 where
  "gnosis_eth1 = \<lparr>
     eth1_follow_distance = 1024, seconds_per_eth1_block = 6, deposit_chain_id = 100,
     deposit_network_id = 100,
     deposit_contract_address = [0x0B, 0x98, 0x05, 0x7E, 0xA3, 0x10, 0xF4, 0xD3, 0x1F, 0x2A, 0x45, 0x2B, 0x41, 0x46, 0x47, 0x00, 0x7D, 0x16, 0x45, 0xD9]\<rparr>"

definition gnosis_execution :: cs_execution where
  "gnosis_execution = \<lparr>
     gas_limit_adjustment_factor = 1024\<rparr>"

definition gnosis_altair :: cs_altair where
  "gnosis_altair = \<lparr>
     inactivity_penalty_quotient_altair = 2 ^ 24 * 3,
     min_slashing_penalty_quotient_altair = 2 ^ 6, proportional_slashing_multiplier_altair = 2,
     epochs_per_sync_committee_period = 512, inactivity_score_bias = 4,
     inactivity_score_recovery_rate = 16, min_sync_committee_participants = 1,
     update_timeout = 8192, domain_sync_committee = 7, domain_sync_committee_selection_proof = 8,
     domain_contribution_and_proof = 9, altair_fork_version = [1, 0, 0, 100],
     altair_fork_epoch = Some 512\<rparr>"

definition gnosis_bellatrix :: cs_bellatrix where
  "gnosis_bellatrix = \<lparr>
     inactivity_penalty_quotient_bellatrix = 2 ^ 24,
     min_slashing_penalty_quotient_bellatrix = 2 ^ 5,
     proportional_slashing_multiplier_bellatrix = 3, bellatrix_fork_version = [2, 0, 0, 100],
     bellatrix_fork_epoch = Some 385536,
     terminal_total_difficulty = 8626000000000000000000058750000000000000000000,
     terminal_block_hash = replicate 32 0, terminal_block_hash_activation_epoch = - 1\<rparr>"

definition gnosis_capella :: cs_capella where
  "gnosis_capella = \<lparr>
     capella_fork_version = [3, 0, 0, 100], capella_fork_epoch = Some 648704,
     max_validators_per_withdrawals_sweep = 8192\<rparr>"

definition gnosis_deneb :: cs_deneb where
  "gnosis_deneb = \<lparr>
     deneb_fork_version = [4, 0, 0, 100], deneb_fork_epoch = Some 889856\<rparr>"

definition gnosis_electra :: cs_electra where
  "gnosis_electra = \<lparr>
     electra_fork_version = [5, 0, 0, 100], electra_fork_epoch = Some 1337856,
     unset_deposit_requests_start_index = - 1, full_exit_request_amount = 0,
     min_activation_balance = 2 ^ 5 * 10 ^ 9, max_effective_balance_electra = 2 ^ 11 * 10 ^ 9,
     min_slashing_penalty_quotient_electra = 2 ^ 12,
     whistleblower_reward_quotient_electra = 2 ^ 12,
     max_pending_partials_per_withdrawals_sweep = 6,
     min_per_epoch_churn_limit_electra = 2 ^ 7 * 10 ^ 9,
     max_per_epoch_activation_exit_churn_limit = 2 ^ 6 * 10 ^ 9\<rparr>"

definition gnosis_daisugi :: cs_daisugi where
  "gnosis_daisugi = \<lparr>
     daisugi_fork_version = [0, 0, 0, 0], daisugi_fork_epoch = None\<rparr>"

definition gnosis_fulu :: cs_fulu where
  "gnosis_fulu = \<lparr>
     fulu_fork_version = [6, 0, 0, 100], fulu_fork_epoch = Some 1714688,
     number_of_custody_groups = 128, data_column_sidecar_subnet_count = 128, samples_per_slot = 8,
     custody_requirement = 4, validator_custody_requirement = 8,
     balance_per_additional_custody_group = 32000000000\<rparr>"

definition gnosis_gloas :: cs_gloas where
  "gnosis_gloas = \<lparr>
     gloas_fork_version = [7, 0, 0, 100], gloas_fork_epoch = None,
     builder_payment_threshold_numerator = 6, builder_payment_threshold_denominator = 10,
     min_builder_withdrawability_delay = 8192, churn_limit_quotient_gloas = 2 ^ 15,
     consolidation_churn_limit_quotient = 2 ^ 16,
     max_per_epoch_activation_churn_limit_gloas = 2 ^ 8 * 10 ^ 9\<rparr>"

definition gnosis_networking :: cs_networking where
  "gnosis_networking = \<lparr>
     boot_nodes = [], network_id = 100, target_aggregators_per_committee = 16,
     max_payload_size = default_max_payload_size, max_request_blocks = default_max_request_blocks,
     min_epochs_for_block_requests = 33024, ttfb_timeout = default_ttfb_timeout,
     resp_timeout = default_resp_timeout,
     attestation_propagation_slot_range = default_attestation_propagation_slot_range,
     maximum_gossip_clock_disparity = default_maximum_gossip_clock_disparity,
     message_domain_invalid_snappy = default_message_domain_invalid_snappy,
     message_domain_valid_snappy = default_message_domain_valid_snappy, subnets_per_node = 4,
     epochs_per_subnet_subscription = 256, attestation_subnet_count = 64,
     attestation_subnet_extra_bits = 0,
     attestation_subnet_prefix_bits = compute_attestation_subnet_prefix_bits default_attestation_subnet_count default_attestation_subnet_extra_bits\<rparr>"

definition gnosis_net_deneb :: cs_net_deneb where
  "gnosis_net_deneb = \<lparr>
     max_request_blocks_deneb = default_max_request_blocks_deneb,
     max_request_blob_sidecars = default_max_request_blob_sidecars,
     max_request_data_column_sidecars = default_max_request_data_column_sidecars,
     min_epochs_for_blob_sidecars_requests = 16384,
     blob_sidecar_subnet_count = default_blob_sidecar_subnet_count, max_blobs_per_block = 2\<rparr>"

definition gnosis_net_electra :: cs_net_electra where
  "gnosis_net_electra = \<lparr>
     max_blobs_per_block_electra = 2, blob_sidecar_subnet_count_electra = 2,
     max_request_blob_sidecars_electra = 256\<rparr>"

definition gnosis_net_fulu :: cs_net_fulu where
  "gnosis_net_fulu = \<lparr>
     blob_schedule = blob_schedule_default, min_epochs_for_data_column_sidecars_requests = 16384\<rparr>"

definition gnosis_net_gloas :: cs_net_gloas where
  "gnosis_net_gloas = \<lparr>
     max_request_payloads = 128\<rparr>"

definition gnosis_net_derived :: cs_net_derived where
  "gnosis_net_derived = \<lparr>
     max_blocks_by_root_request = default_max_blocks_by_root_request,
     max_blocks_by_root_request_deneb = default_max_blocks_by_root_request_deneb,
     max_blobs_by_root_request = default_max_blobs_by_root_request,
     max_data_columns_by_root_request = default_data_columns_by_root_request,
     max_payload_envelopes_by_root_request = default_max_payload_envelopes_by_root_request\<rparr>"

definition gnosis_application :: "chain_externals \<Rightarrow> cs_application" where
  "gnosis_application X = \<lparr>
     domain_application_mask = application_domain_builder X\<rparr>"

definition gnosis_capella_domain :: cs_capella_domain where
  "gnosis_capella_domain = \<lparr>
     domain_bls_to_execution_change = 10\<rparr>"

definition gnosis :: "chain_externals \<Rightarrow> chain_spec" where
  "gnosis X = \<lparr>config_name = Some ''gnosis'',
     sp_constants = gnosis_constants, sp_misc = gnosis_misc, sp_gwei = gnosis_gwei,
     sp_initial = gnosis_initial, sp_timing = gnosis_timing, sp_due = gnosis_due,
     sp_rewards = gnosis_rewards, sp_domains = gnosis_domains,
     sp_fork_choice = gnosis_fork_choice, sp_eth1 = gnosis_eth1, sp_execution = gnosis_execution,
     sp_altair = gnosis_altair, sp_bellatrix = gnosis_bellatrix, sp_capella = gnosis_capella,
     sp_deneb = gnosis_deneb, sp_electra = gnosis_electra, sp_daisugi = gnosis_daisugi,
     sp_fulu = gnosis_fulu, sp_gloas = gnosis_gloas, sp_networking = gnosis_networking,
     sp_net_deneb = gnosis_net_deneb, sp_net_electra = gnosis_net_electra,
     sp_net_fulu = gnosis_net_fulu, sp_net_gloas = gnosis_net_gloas,
     sp_net_derived = gnosis_net_derived, sp_application = gnosis_application X,
     sp_capella_domain = gnosis_capella_domain\<rparr>"

section \<open>Minimal\<close>

definition minimal_misc :: cs_misc where
  "minimal_misc = mainnet_misc\<lparr>
     max_committees_per_slot := 4, target_committee_size := 4, min_per_epoch_churn_limit := 2,
     max_per_epoch_activation_churn_limit := 4, churn_limit_quotient := 32,
     shuffle_round_count := 10, min_genesis_active_validator_count := 64,
     min_genesis_time := 1578009600, proportional_slashing_multiplier := 2\<rparr>"

definition minimal_initial :: cs_initial where
  "minimal_initial = mainnet_initial\<lparr>
     genesis_fork_version := [0, 0, 0, 1]\<rparr>"

definition minimal_timing :: cs_timing where
  "minimal_timing = mainnet_timing\<lparr>
     genesis_delay := 300, seconds_per_slot := 6, slot_duration_ms := 6000,
     shard_committee_period := 64\<rparr>"

definition minimal_due :: cs_due where
  "minimal_due = mainnet_due\<lparr>
     unaggregated_attestation_due := 1999, unaggregated_attestation_due_gloas := 1500,
     payload_due := 4500, payload_attestation_due := 4500, aggregate_attestation_due := 4000,
     sync_message_due := 1999, contribution_and_proof_due := 4000\<rparr>"

definition minimal_rewards :: cs_rewards where
  "minimal_rewards = mainnet_rewards\<lparr>
     inactivity_penalty_quotient := 2 ^ 25, min_slashing_penalty_quotient := 64\<rparr>"

definition minimal_eth1 :: cs_eth1 where
  "minimal_eth1 = mainnet_eth1\<lparr>
     eth1_follow_distance := 16, deposit_chain_id := 5, deposit_network_id := 5,
     deposit_contract_address := [0x12, 0x34, 0x56, 0x78, 0x90, 0x12, 0x34, 0x56, 0x78, 0x90, 0x12, 0x34, 0x56, 0x78, 0x90, 0x12, 0x34, 0x56, 0x78, 0x90]\<rparr>"

definition minimal_altair :: cs_altair where
  "minimal_altair = mainnet_altair\<lparr>
     epochs_per_sync_committee_period := 8, update_timeout := 64,
     altair_fork_version := [1, 0, 0, 1], altair_fork_epoch := None\<rparr>"

definition minimal_bellatrix :: cs_bellatrix where
  "minimal_bellatrix = mainnet_bellatrix\<lparr>
     bellatrix_fork_version := [2, 0, 0, 1], bellatrix_fork_epoch := None,
     terminal_total_difficulty := - 1 - 2 ^ 10 + 2 ^ 0\<rparr>"

definition minimal_capella :: cs_capella where
  "minimal_capella = mainnet_capella\<lparr>
     capella_fork_version := [3, 0, 0, 1], capella_fork_epoch := None,
     max_validators_per_withdrawals_sweep := 16\<rparr>"

definition minimal_deneb :: cs_deneb where
  "minimal_deneb = mainnet_deneb\<lparr>
     deneb_fork_version := [4, 0, 0, 1], deneb_fork_epoch := None\<rparr>"

definition minimal_electra :: cs_electra where
  "minimal_electra = mainnet_electra\<lparr>
     electra_fork_version := [5, 0, 0, 1], electra_fork_epoch := None,
     max_pending_partials_per_withdrawals_sweep := 2 ^ 1,
     min_per_epoch_churn_limit_electra := 2 ^ 6 * 10 ^ 9,
     max_per_epoch_activation_exit_churn_limit := 2 ^ 7 * 10 ^ 9\<rparr>"

definition minimal_daisugi :: cs_daisugi where
  "minimal_daisugi = mainnet_daisugi\<lparr>
     daisugi_fork_version := [0, 0, 0, 0], daisugi_fork_epoch := None\<rparr>"

definition minimal_fulu :: cs_fulu where
  "minimal_fulu = mainnet_fulu\<lparr>
     fulu_fork_version := [6, 0, 0, 1], fulu_fork_epoch := None\<rparr>"

definition minimal_gloas :: cs_gloas where
  "minimal_gloas = mainnet_gloas\<lparr>
     gloas_fork_version := [7, 0, 0, 1], gloas_fork_epoch := None,
     min_builder_withdrawability_delay := 2, churn_limit_quotient_gloas := 2 ^ 4,
     consolidation_churn_limit_quotient := 2 ^ 5,
     max_per_epoch_activation_churn_limit_gloas := 2 ^ 7 * 10 ^ 9\<rparr>"

definition minimal_networking :: cs_networking where
  "minimal_networking = mainnet_networking\<lparr>
     boot_nodes := [], network_id := 2\<rparr>"

definition minimal_net_fulu :: cs_net_fulu where
  "minimal_net_fulu = mainnet_net_fulu\<lparr>
     blob_schedule := blob_schedule_default\<rparr>"

definition minimal :: "chain_externals \<Rightarrow> chain_spec" where
  "minimal X = (mainnet X)\<lparr>config_name := None,
     sp_misc := minimal_misc, sp_initial := minimal_initial, sp_timing := minimal_timing,
     sp_due := minimal_due, sp_rewards := minimal_rewards, sp_eth1 := minimal_eth1,
     sp_altair := minimal_altair, sp_bellatrix := minimal_bellatrix,
     sp_capella := minimal_capella, sp_deneb := minimal_deneb, sp_electra := minimal_electra,
     sp_daisugi := minimal_daisugi, sp_fulu := minimal_fulu, sp_gloas := minimal_gloas,
     sp_networking := minimal_networking, sp_net_fulu := minimal_net_fulu\<rparr>"

section \<open>The presets are consistent\<close>

lemma component_duration: "basis_points X = 10000 \<Longrightarrow> slot_duration_ms (sp_timing s) = ms
    \<Longrightarrow> unat bps * unat ms < 2 ^ 64
    \<Longrightarrow> compute_slot_component_duration X s bps = Some (bps * ms div 10000)"
  by (simp add: compute_slot_component_duration_def safe_mul_def safe_div_def)

lemma mainnet_groups [simp]:
  "sp_timing (mainnet X) = mainnet_timing" "sp_due (mainnet X) = mainnet_due"
  "sp_networking (mainnet X) = mainnet_networking" "sp_net_deneb (mainnet X) = mainnet_net_deneb"
  "sp_net_gloas (mainnet X) = mainnet_net_gloas" "sp_net_derived (mainnet X) = mainnet_net_derived"
  "sp_constants (mainnet X) = mainnet_constants"
  by (simp_all add: mainnet_def)

lemma gnosis_groups [simp]:
  "sp_timing (gnosis X) = gnosis_timing" "sp_due (gnosis X) = gnosis_due"
  "sp_networking (gnosis X) = gnosis_networking" "sp_net_deneb (gnosis X) = gnosis_net_deneb"
  "sp_net_gloas (gnosis X) = gnosis_net_gloas" "sp_net_derived (gnosis X) = gnosis_net_derived"
  by (simp_all add: gnosis_def)

lemma minimal_groups [simp]:
  "sp_timing (minimal X) = minimal_timing" "sp_due (minimal X) = minimal_due"
  "sp_networking (minimal X) = minimal_networking" "sp_net_deneb (minimal X) = mainnet_net_deneb"
  "sp_net_gloas (minimal X) = mainnet_net_gloas" "sp_net_derived (minimal X) = mainnet_net_derived"
  by (simp_all add: minimal_def)

lemma mainnet_due_times: "basis_points X = 10000 \<Longrightarrow> due_times X (mainnet X) = Value mainnet_due"
  by (simp add: due_times_def Let_def component_duration [of X "mainnet X" 12000] mainnet_timing_def
      mainnet_due_def expect_def)

lemma gnosis_due_times: "basis_points X = 10000 \<Longrightarrow> due_times X (gnosis X) = Value gnosis_due"
  by (simp add: due_times_def Let_def component_duration [of X "gnosis X" 5000] gnosis_timing_def
      gnosis_due_def expect_def)

lemma minimal_due_times: "basis_points X = 10000 \<Longrightarrow> due_times X (minimal X) = Value minimal_due"
  by (simp add: due_times_def Let_def component_duration [of X "minimal X" 6000] minimal_timing_def
      mainnet_timing_def minimal_due_def mainnet_due_def expect_def)

lemmas derived_defs = net_derived_values_def max_blobs_by_root_request_common_def
  max_data_columns_by_root_request_common_def max_blocks_by_root_request_common_def
  checked_mul_def checked_add_def expect_def

lemmas default_defs = default_max_request_blocks_def default_max_request_blocks_deneb_def
  default_max_request_blob_sidecars_def default_max_request_payloads_def
  default_max_blocks_by_root_request_def default_max_blocks_by_root_request_deneb_def
  default_max_blobs_by_root_request_def default_data_columns_by_root_request_def
  default_max_payload_envelopes_by_root_request_def mainnet_columns_def

lemma mainnet_derived: "es_number_of_columns E = 128 \<Longrightarrow>
    net_derived_values E (mainnet X) = Value mainnet_net_derived"
  by (simp add: derived_defs default_defs mainnet_networking_def mainnet_net_deneb_def
      mainnet_net_gloas_def mainnet_net_derived_def)

lemma gnosis_derived: "es_number_of_columns E = 128 \<Longrightarrow>
    net_derived_values E (gnosis X) = Value gnosis_net_derived"
  by (simp add: derived_defs default_defs gnosis_networking_def gnosis_net_deneb_def
      gnosis_net_gloas_def gnosis_net_derived_def)

lemma minimal_derived: "es_number_of_columns E = 128 \<Longrightarrow>
    net_derived_values E (minimal X) = Value mainnet_net_derived"
  by (simp add: derived_defs default_defs minimal_networking_def mainnet_networking_def
      mainnet_net_deneb_def mainnet_net_gloas_def mainnet_net_derived_def)

lemma prefix_bits: "mainnet_networking\<lparr>attestation_subnet_prefix_bits :=
      compute_attestation_subnet_prefix_bits (attestation_subnet_count mainnet_networking)
        (attestation_subnet_extra_bits mainnet_networking)\<rparr> = mainnet_networking"
  "minimal_networking\<lparr>attestation_subnet_prefix_bits :=
      compute_attestation_subnet_prefix_bits (attestation_subnet_count minimal_networking)
        (attestation_subnet_extra_bits minimal_networking)\<rparr> = minimal_networking"
  "gnosis_networking\<lparr>attestation_subnet_prefix_bits :=
      compute_attestation_subnet_prefix_bits (attestation_subnet_count gnosis_networking)
        (attestation_subnet_extra_bits gnosis_networking)\<rparr> = gnosis_networking"
  by (simp_all add: mainnet_networking_def minimal_networking_def gnosis_networking_def
      default_attestation_subnet_count_def default_attestation_subnet_extra_bits_def)

lemma derived_fixed:
  assumes "bps_within X s" and "due_times X s = Value (sp_due s)"
    and "net_derived_values E s = Value (sp_net_derived s)"
    and "(sp_networking s)\<lparr>attestation_subnet_prefix_bits :=
      compute_attestation_subnet_prefix_bits (attestation_subnet_count (sp_networking s))
        (attestation_subnet_extra_bits (sp_networking s))\<rparr> = sp_networking s"
  shows "compute_derived_values X E s = Value s"
  using assms by (simp add: compute_derived_values_def)

text \<open>
  Each preset is a fixed point of the computation of derived values: the durations, the
  subnet prefix bits and the request sizes it writes out are those computed from its other
  fields, and none of the computation's assertions fails.
\<close>

theorem presets_derived:
  assumes "basis_points X = 10000" and "es_number_of_columns E = 128"
  shows "compute_derived_values X E (mainnet X) = Value (mainnet X)
    \<and> compute_derived_values X E (minimal X) = Value (minimal X)
    \<and> compute_derived_values X E (gnosis X) = Value (gnosis X)"
proof (intro conjI)
  have bps: "bps_within X (mainnet X)" "bps_within X (minimal X)" "bps_within X (gnosis X)"
    by (simp_all add: bps_within_def assms(1) Let_def mainnet_timing_def minimal_timing_def
        gnosis_timing_def)
  note facts = assms bps prefix_bits mainnet_due_times minimal_due_times gnosis_due_times
    mainnet_derived minimal_derived gnosis_derived
  show "compute_derived_values X E (mainnet X) = Value (mainnet X)"
    "compute_derived_values X E (minimal X) = Value (minimal X)"
    "compute_derived_values X E (gnosis X) = Value (gnosis X)"
    by (rule derived_fixed; simp add: facts)+
qed

end
