(* ===== verification/Chain_Config.thy ===== *)
theory Chain_Config
  imports Chain_Presets
begin

text \<open>
  The \<open>Config\<close> of \<open>consensus/types/src/core/chain_spec.rs\<close>: the configuration file's data, its
  extraction from a specification and its application to one. Fields carry the prefix \<open>cf_\<close>
  and are grouped like the paragraphs of the struct; \<open>MaybeQuoted\<close> is the value it wraps.
\<close>

section \<open>The configuration\<close>

record cg_meta =
  cf_config_name :: "string option"
  cf_preset_base :: string

record cg_terminal =
  cf_terminal_total_difficulty :: "256 word"
  cf_terminal_block_hash :: "byte list"
  cf_terminal_block_hash_activation_epoch :: u64

record cg_genesis =
  cf_min_genesis_active_validator_count :: u64
  cf_min_genesis_time :: u64
  cf_genesis_fork_version :: version
  cf_genesis_delay :: u64

record cg_forks =
  cf_altair_fork_version :: version
  cf_altair_fork_epoch :: "u64 option"
  cf_bellatrix_fork_version :: version
  cf_bellatrix_fork_epoch :: "u64 option"
  cf_capella_fork_version :: version
  cf_capella_fork_epoch :: "u64 option"
  cf_deneb_fork_version :: version
  cf_deneb_fork_epoch :: "u64 option"
  cf_electra_fork_version :: version
  cf_electra_fork_epoch :: "u64 option"
  cf_daisugi_fork_version :: version
  cf_daisugi_fork_epoch :: "u64 option"
  cf_fulu_fork_version :: version
  cf_fulu_fork_epoch :: "u64 option"
  cf_gloas_fork_version :: version
  cf_gloas_fork_epoch :: "u64 option"

record cg_time =
  cf_seconds_per_slot :: "u64 option"
  cf_slot_duration_ms :: "u64 option"
  cf_seconds_per_eth1_block :: u64
  cf_min_validator_withdrawability_delay :: u64
  cf_shard_committee_period :: u64
  cf_eth1_follow_distance :: u64
  cf_subnets_per_node :: byte

record cg_validators =
  cf_inactivity_score_bias :: u64
  cf_inactivity_score_recovery_rate :: u64
  cf_ejection_balance :: u64
  cf_min_per_epoch_churn_limit :: u64
  cf_max_per_epoch_activation_churn_limit :: u64
  cf_churn_limit_quotient :: u64

record cg_fork_choice =
  cf_proposer_score_boost :: "u64 option"
  cf_reorg_head_weight_threshold :: u64
  cf_reorg_parent_weight_threshold :: u64
  cf_reorg_max_epochs_since_finalization :: u64

record cg_deposit =
  cf_deposit_chain_id :: u64
  cf_deposit_network_id :: u64
  cf_deposit_contract_address :: "byte list"
  cf_gas_limit_adjustment_factor :: u64

record cg_networking =
  cf_max_payload_size :: u64
  cf_max_request_blocks :: u64
  cf_min_epochs_for_block_requests :: u64
  cf_ttfb_timeout :: u64
  cf_resp_timeout :: u64
  cf_attestation_propagation_slot_range :: u64
  cf_maximum_gossip_clock_disparity :: u64
  cf_message_domain_invalid_snappy :: version
  cf_message_domain_valid_snappy :: version
  cf_epochs_per_subnet_subscription :: u64
  cf_attestation_subnet_count :: u64
  cf_attestation_subnet_extra_bits :: byte

record cg_deneb =
  cf_max_request_blocks_deneb :: u64
  cf_max_request_blob_sidecars :: u64
  cf_max_request_data_column_sidecars :: u64
  cf_min_epochs_for_blob_sidecars_requests :: u64
  cf_blob_sidecar_subnet_count :: u64
  cf_max_blobs_per_block :: u64

record cg_electra =
  cf_min_per_epoch_churn_limit_electra :: u64
  cf_max_per_epoch_activation_exit_churn_limit :: u64
  cf_max_blobs_per_block_electra :: u64
  cf_blob_sidecar_subnet_count_electra :: u64
  cf_max_request_blob_sidecars_electra :: u64

record cg_fulu =
  cf_number_of_custody_groups :: u64
  cf_data_column_sidecar_subnet_count :: u64
  cf_samples_per_slot :: u64
  cf_custody_requirement :: u64
  cf_blob_schedule :: blob_schedule
  cf_validator_custody_requirement :: u64
  cf_balance_per_additional_custody_group :: u64
  cf_min_epochs_for_data_column_sidecars_requests :: u64

record cg_due =
  cf_proposer_reorg_cutoff_bps :: u64
  cf_attestation_due_bps :: u64
  cf_attestation_due_bps_gloas :: u64
  cf_payload_due_bps :: u64
  cf_payload_attestation_due_bps :: u64
  cf_aggregate_due_bps :: u64
  cf_sync_message_due_bps :: u64
  cf_contribution_due_bps :: u64

record cg_gloas =
  cf_min_builder_withdrawability_delay :: u64
  cf_churn_limit_quotient_gloas :: u64
  cf_consolidation_churn_limit_quotient :: u64
  cf_max_per_epoch_activation_churn_limit_gloas :: u64

record config =
  co_meta :: cg_meta
  co_terminal :: cg_terminal
  co_genesis :: cg_genesis
  co_forks :: cg_forks
  co_time :: cg_time
  co_validators :: cg_validators
  co_fork_choice :: cg_fork_choice
  co_deposit :: cg_deposit
  co_networking :: cg_networking
  co_deneb :: cg_deneb
  co_electra :: cg_electra
  co_fulu :: cg_fulu
  co_due :: cg_due
  co_gloas :: cg_gloas

text \<open>An unscheduled fork is written as the largest epoch, and read back as unscheduled.\<close>

definition serialize_fork_epoch :: "epoch option \<Rightarrow> epoch" where
  "serialize_fork_epoch v = (case v of None \<Rightarrow> - 1 | Some e \<Rightarrow> e)"

definition deserialize_fork_epoch :: "epoch option \<Rightarrow> epoch option" where
  "deserialize_fork_epoch decoded =
     (case decoded of Some e \<Rightarrow> if e \<noteq> - 1 then Some e else None | None \<Rightarrow> None)"

datatype eth_spec_id = Spec_Minimal | Spec_Mainnet | Spec_Gnosis

definition eth_spec_id_of :: "config \<Rightarrow> eth_spec_id option" where
  "eth_spec_id_of c = (let n = cf_preset_base (co_meta c) in
     if n = ''minimal'' then Some Spec_Minimal
     else if n = ''mainnet'' then Some Spec_Mainnet
     else if n = ''gnosis'' then Some Spec_Gnosis else None)"

section \<open>From a specification\<close>

definition config_meta :: "eth_spec \<Rightarrow> chain_spec \<Rightarrow> cg_meta" where
  "config_meta E s = \<lparr>
     cf_config_name = config_name s, cf_preset_base = es_name E\<rparr>"

definition config_terminal :: "chain_spec \<Rightarrow> cg_terminal" where
  "config_terminal s = \<lparr>
     cf_terminal_total_difficulty = terminal_total_difficulty (sp_bellatrix s),
     cf_terminal_block_hash = terminal_block_hash (sp_bellatrix s),
     cf_terminal_block_hash_activation_epoch = terminal_block_hash_activation_epoch (sp_bellatrix s)\<rparr>"

definition config_genesis :: "chain_spec \<Rightarrow> cg_genesis" where
  "config_genesis s = \<lparr>
     cf_min_genesis_active_validator_count = min_genesis_active_validator_count (sp_misc s),
     cf_min_genesis_time = min_genesis_time (sp_misc s),
     cf_genesis_fork_version = genesis_fork_version (sp_initial s),
     cf_genesis_delay = genesis_delay (sp_timing s)\<rparr>"

definition config_forks :: "chain_spec \<Rightarrow> cg_forks" where
  "config_forks s = \<lparr>
     cf_altair_fork_version = altair_fork_version (sp_altair s),
     cf_altair_fork_epoch = altair_fork_epoch (sp_altair s),
     cf_bellatrix_fork_version = bellatrix_fork_version (sp_bellatrix s),
     cf_bellatrix_fork_epoch = bellatrix_fork_epoch (sp_bellatrix s),
     cf_capella_fork_version = capella_fork_version (sp_capella s),
     cf_capella_fork_epoch = capella_fork_epoch (sp_capella s),
     cf_deneb_fork_version = deneb_fork_version (sp_deneb s),
     cf_deneb_fork_epoch = deneb_fork_epoch (sp_deneb s),
     cf_electra_fork_version = electra_fork_version (sp_electra s),
     cf_electra_fork_epoch = electra_fork_epoch (sp_electra s),
     cf_daisugi_fork_version = daisugi_fork_version (sp_daisugi s),
     cf_daisugi_fork_epoch = daisugi_fork_epoch (sp_daisugi s),
     cf_fulu_fork_version = fulu_fork_version (sp_fulu s),
     cf_fulu_fork_epoch = fulu_fork_epoch (sp_fulu s),
     cf_gloas_fork_version = gloas_fork_version (sp_gloas s),
     cf_gloas_fork_epoch = gloas_fork_epoch (sp_gloas s)\<rparr>"

definition config_time :: "chain_spec \<Rightarrow> cg_time" where
  "config_time s = \<lparr>
     cf_seconds_per_slot = Some (seconds_per_slot (sp_timing s)),
     cf_slot_duration_ms = Some (slot_duration_ms (sp_timing s)),
     cf_seconds_per_eth1_block = seconds_per_eth1_block (sp_eth1 s),
     cf_min_validator_withdrawability_delay = min_validator_withdrawability_delay (sp_timing s),
     cf_shard_committee_period = shard_committee_period (sp_timing s),
     cf_eth1_follow_distance = eth1_follow_distance (sp_eth1 s),
     cf_subnets_per_node = subnets_per_node (sp_networking s)\<rparr>"

definition config_validators :: "chain_spec \<Rightarrow> cg_validators" where
  "config_validators s = \<lparr>
     cf_inactivity_score_bias = inactivity_score_bias (sp_altair s),
     cf_inactivity_score_recovery_rate = inactivity_score_recovery_rate (sp_altair s),
     cf_ejection_balance = ejection_balance (sp_gwei s),
     cf_min_per_epoch_churn_limit = min_per_epoch_churn_limit (sp_misc s),
     cf_max_per_epoch_activation_churn_limit = max_per_epoch_activation_churn_limit (sp_misc s),
     cf_churn_limit_quotient = churn_limit_quotient (sp_misc s)\<rparr>"

definition config_fork_choice :: "chain_spec \<Rightarrow> cg_fork_choice" where
  "config_fork_choice s = \<lparr>
     cf_proposer_score_boost = Some (proposer_score_boost (sp_fork_choice s)),
     cf_reorg_head_weight_threshold = reorg_head_weight_threshold (sp_fork_choice s),
     cf_reorg_parent_weight_threshold = reorg_parent_weight_threshold (sp_fork_choice s),
     cf_reorg_max_epochs_since_finalization = reorg_max_epochs_since_finalization (sp_fork_choice s)\<rparr>"

definition config_deposit :: "chain_spec \<Rightarrow> cg_deposit" where
  "config_deposit s = \<lparr>
     cf_deposit_chain_id = deposit_chain_id (sp_eth1 s),
     cf_deposit_network_id = deposit_network_id (sp_eth1 s),
     cf_deposit_contract_address = deposit_contract_address (sp_eth1 s),
     cf_gas_limit_adjustment_factor = gas_limit_adjustment_factor (sp_execution s)\<rparr>"

definition config_networking :: "chain_spec \<Rightarrow> cg_networking" where
  "config_networking s = \<lparr>
     cf_max_payload_size = max_payload_size (sp_networking s),
     cf_max_request_blocks = max_request_blocks (sp_networking s),
     cf_min_epochs_for_block_requests = min_epochs_for_block_requests (sp_networking s),
     cf_ttfb_timeout = ttfb_timeout (sp_networking s),
     cf_resp_timeout = resp_timeout (sp_networking s),
     cf_attestation_propagation_slot_range = attestation_propagation_slot_range (sp_networking s),
     cf_maximum_gossip_clock_disparity = maximum_gossip_clock_disparity (sp_networking s),
     cf_message_domain_invalid_snappy = message_domain_invalid_snappy (sp_networking s),
     cf_message_domain_valid_snappy = message_domain_valid_snappy (sp_networking s),
     cf_epochs_per_subnet_subscription = epochs_per_subnet_subscription (sp_networking s),
     cf_attestation_subnet_count = attestation_subnet_count (sp_networking s),
     cf_attestation_subnet_extra_bits = attestation_subnet_extra_bits (sp_networking s)\<rparr>"

definition config_deneb :: "chain_spec \<Rightarrow> cg_deneb" where
  "config_deneb s = \<lparr>
     cf_max_request_blocks_deneb = max_request_blocks_deneb (sp_net_deneb s),
     cf_max_request_blob_sidecars = max_request_blob_sidecars (sp_net_deneb s),
     cf_max_request_data_column_sidecars = max_request_data_column_sidecars (sp_net_deneb s),
     cf_min_epochs_for_blob_sidecars_requests = min_epochs_for_blob_sidecars_requests (sp_net_deneb s),
     cf_blob_sidecar_subnet_count = blob_sidecar_subnet_count (sp_net_deneb s),
     cf_max_blobs_per_block = max_blobs_per_block (sp_net_deneb s)\<rparr>"

definition config_electra :: "chain_spec \<Rightarrow> cg_electra" where
  "config_electra s = \<lparr>
     cf_min_per_epoch_churn_limit_electra = min_per_epoch_churn_limit_electra (sp_electra s),
     cf_max_per_epoch_activation_exit_churn_limit = max_per_epoch_activation_exit_churn_limit (sp_electra s),
     cf_max_blobs_per_block_electra = max_blobs_per_block_electra (sp_net_electra s),
     cf_blob_sidecar_subnet_count_electra = blob_sidecar_subnet_count_electra (sp_net_electra s),
     cf_max_request_blob_sidecars_electra = max_request_blob_sidecars_electra (sp_net_electra s)\<rparr>"

definition config_fulu :: "chain_spec \<Rightarrow> cg_fulu" where
  "config_fulu s = \<lparr>
     cf_number_of_custody_groups = number_of_custody_groups (sp_fulu s),
     cf_data_column_sidecar_subnet_count = data_column_sidecar_subnet_count (sp_fulu s),
     cf_samples_per_slot = samples_per_slot (sp_fulu s),
     cf_custody_requirement = custody_requirement (sp_fulu s),
     cf_blob_schedule = blob_schedule (sp_net_fulu s),
     cf_validator_custody_requirement = validator_custody_requirement (sp_fulu s),
     cf_balance_per_additional_custody_group = balance_per_additional_custody_group (sp_fulu s),
     cf_min_epochs_for_data_column_sidecars_requests = min_epochs_for_data_column_sidecars_requests (sp_net_fulu s)\<rparr>"

definition config_due :: "chain_spec \<Rightarrow> cg_due" where
  "config_due s = \<lparr>
     cf_proposer_reorg_cutoff_bps = proposer_reorg_cutoff_bps (sp_timing s),
     cf_attestation_due_bps = attestation_due_bps (sp_timing s),
     cf_attestation_due_bps_gloas = attestation_due_bps_gloas (sp_timing s),
     cf_payload_due_bps = payload_due_bps (sp_timing s),
     cf_payload_attestation_due_bps = payload_attestation_due_bps (sp_timing s),
     cf_aggregate_due_bps = aggregate_due_bps (sp_timing s),
     cf_sync_message_due_bps = sync_message_due_bps (sp_timing s),
     cf_contribution_due_bps = contribution_due_bps (sp_timing s)\<rparr>"

definition config_gloas :: "chain_spec \<Rightarrow> cg_gloas" where
  "config_gloas s = \<lparr>
     cf_min_builder_withdrawability_delay = min_builder_withdrawability_delay (sp_gloas s),
     cf_churn_limit_quotient_gloas = churn_limit_quotient_gloas (sp_gloas s),
     cf_consolidation_churn_limit_quotient = consolidation_churn_limit_quotient (sp_gloas s),
     cf_max_per_epoch_activation_churn_limit_gloas = max_per_epoch_activation_churn_limit_gloas (sp_gloas s)\<rparr>"

definition from_chain_spec :: "eth_spec \<Rightarrow> chain_spec \<Rightarrow> config" where
  "from_chain_spec E s = \<lparr>
     co_meta = config_meta E s, co_terminal = config_terminal s, co_genesis = config_genesis s,
     co_forks = config_forks s, co_time = config_time s, co_validators = config_validators s,
     co_fork_choice = config_fork_choice s, co_deposit = config_deposit s,
     co_networking = config_networking s, co_deneb = config_deneb s,
     co_electra = config_electra s, co_fulu = config_fulu s, co_due = config_due s,
     co_gloas = config_gloas s\<rparr>"

section \<open>Application to a specification\<close>

definition apply_misc :: "config \<Rightarrow> chain_spec \<Rightarrow> cs_misc" where
  "apply_misc c s = (sp_misc s)\<lparr>
     min_genesis_active_validator_count := cf_min_genesis_active_validator_count (co_genesis c),
     min_genesis_time := cf_min_genesis_time (co_genesis c),
     min_per_epoch_churn_limit := cf_min_per_epoch_churn_limit (co_validators c),
     max_per_epoch_activation_churn_limit := cf_max_per_epoch_activation_churn_limit (co_validators c),
     churn_limit_quotient := cf_churn_limit_quotient (co_validators c)\<rparr>"

definition apply_gwei :: "config \<Rightarrow> chain_spec \<Rightarrow> cs_gwei" where
  "apply_gwei c s = (sp_gwei s)\<lparr>
     ejection_balance := cf_ejection_balance (co_validators c)\<rparr>"

definition apply_initial :: "config \<Rightarrow> chain_spec \<Rightarrow> cs_initial" where
  "apply_initial c s = (sp_initial s)\<lparr>
     genesis_fork_version := cf_genesis_fork_version (co_genesis c)\<rparr>"

definition apply_timing :: "u64 \<Rightarrow> u64 \<Rightarrow> config \<Rightarrow> chain_spec \<Rightarrow> cs_timing" where
  "apply_timing seconds ms c s = (sp_timing s)\<lparr>
     genesis_delay := cf_genesis_delay (co_genesis c), seconds_per_slot := seconds,
     slot_duration_ms := ms,
     min_validator_withdrawability_delay := cf_min_validator_withdrawability_delay (co_time c),
     shard_committee_period := cf_shard_committee_period (co_time c),
     proposer_reorg_cutoff_bps := cf_proposer_reorg_cutoff_bps (co_due c),
     attestation_due_bps := cf_attestation_due_bps (co_due c),
     attestation_due_bps_gloas := cf_attestation_due_bps_gloas (co_due c),
     payload_due_bps := cf_payload_due_bps (co_due c),
     payload_attestation_due_bps := cf_payload_attestation_due_bps (co_due c),
     aggregate_due_bps := cf_aggregate_due_bps (co_due c),
     sync_message_due_bps := cf_sync_message_due_bps (co_due c),
     contribution_due_bps := cf_contribution_due_bps (co_due c)\<rparr>"

definition apply_fork_choice :: "config \<Rightarrow> chain_spec \<Rightarrow> cs_fork_choice" where
  "apply_fork_choice c s = (sp_fork_choice s)\<lparr>

     proposer_score_boost := (case cf_proposer_score_boost (co_fork_choice c) of Some v \<Rightarrow> v
       | None \<Rightarrow> proposer_score_boost (sp_fork_choice s)),
     reorg_head_weight_threshold := cf_reorg_head_weight_threshold (co_fork_choice c),
     reorg_parent_weight_threshold := cf_reorg_parent_weight_threshold (co_fork_choice c),
     reorg_max_epochs_since_finalization := cf_reorg_max_epochs_since_finalization (co_fork_choice c)\<rparr>"

definition apply_eth1 :: "config \<Rightarrow> chain_spec \<Rightarrow> cs_eth1" where
  "apply_eth1 c s = (sp_eth1 s)\<lparr>
     seconds_per_eth1_block := cf_seconds_per_eth1_block (co_time c),
     eth1_follow_distance := cf_eth1_follow_distance (co_time c),
     deposit_chain_id := cf_deposit_chain_id (co_deposit c),
     deposit_network_id := cf_deposit_network_id (co_deposit c),
     deposit_contract_address := cf_deposit_contract_address (co_deposit c)\<rparr>"

definition apply_execution :: "config \<Rightarrow> chain_spec \<Rightarrow> cs_execution" where
  "apply_execution c s = (sp_execution s)\<lparr>
     gas_limit_adjustment_factor := cf_gas_limit_adjustment_factor (co_deposit c)\<rparr>"

definition apply_altair :: "config \<Rightarrow> chain_spec \<Rightarrow> cs_altair" where
  "apply_altair c s = (sp_altair s)\<lparr>
     altair_fork_version := cf_altair_fork_version (co_forks c),
     altair_fork_epoch := cf_altair_fork_epoch (co_forks c),
     inactivity_score_bias := cf_inactivity_score_bias (co_validators c),
     inactivity_score_recovery_rate := cf_inactivity_score_recovery_rate (co_validators c)\<rparr>"

definition apply_bellatrix :: "config \<Rightarrow> chain_spec \<Rightarrow> cs_bellatrix" where
  "apply_bellatrix c s = (sp_bellatrix s)\<lparr>
     bellatrix_fork_epoch := cf_bellatrix_fork_epoch (co_forks c),
     bellatrix_fork_version := cf_bellatrix_fork_version (co_forks c),
     terminal_total_difficulty := cf_terminal_total_difficulty (co_terminal c),
     terminal_block_hash := cf_terminal_block_hash (co_terminal c),
     terminal_block_hash_activation_epoch := cf_terminal_block_hash_activation_epoch (co_terminal c)\<rparr>"

definition apply_capella :: "config \<Rightarrow> chain_spec \<Rightarrow> cs_capella" where
  "apply_capella c s = (sp_capella s)\<lparr>
     capella_fork_epoch := cf_capella_fork_epoch (co_forks c),
     capella_fork_version := cf_capella_fork_version (co_forks c)\<rparr>"

definition apply_deneb :: "config \<Rightarrow> chain_spec \<Rightarrow> cs_deneb" where
  "apply_deneb c s = (sp_deneb s)\<lparr>
     deneb_fork_epoch := cf_deneb_fork_epoch (co_forks c),
     deneb_fork_version := cf_deneb_fork_version (co_forks c)\<rparr>"

definition apply_electra :: "config \<Rightarrow> chain_spec \<Rightarrow> cs_electra" where
  "apply_electra c s = (sp_electra s)\<lparr>
     electra_fork_epoch := cf_electra_fork_epoch (co_forks c),
     electra_fork_version := cf_electra_fork_version (co_forks c),
     min_per_epoch_churn_limit_electra := cf_min_per_epoch_churn_limit_electra (co_electra c),
     max_per_epoch_activation_exit_churn_limit := cf_max_per_epoch_activation_exit_churn_limit (co_electra c)\<rparr>"

definition apply_daisugi :: "config \<Rightarrow> chain_spec \<Rightarrow> cs_daisugi" where
  "apply_daisugi c s = (sp_daisugi s)\<lparr>
     daisugi_fork_epoch := cf_daisugi_fork_epoch (co_forks c),
     daisugi_fork_version := cf_daisugi_fork_version (co_forks c)\<rparr>"

definition apply_fulu :: "config \<Rightarrow> chain_spec \<Rightarrow> cs_fulu" where
  "apply_fulu c s = (sp_fulu s)\<lparr>
     fulu_fork_epoch := cf_fulu_fork_epoch (co_forks c),
     fulu_fork_version := cf_fulu_fork_version (co_forks c),
     number_of_custody_groups := cf_number_of_custody_groups (co_fulu c),
     data_column_sidecar_subnet_count := cf_data_column_sidecar_subnet_count (co_fulu c),
     samples_per_slot := cf_samples_per_slot (co_fulu c),
     custody_requirement := cf_custody_requirement (co_fulu c),
     validator_custody_requirement := cf_validator_custody_requirement (co_fulu c),
     balance_per_additional_custody_group := cf_balance_per_additional_custody_group (co_fulu c)\<rparr>"

definition apply_gloas :: "config \<Rightarrow> chain_spec \<Rightarrow> cs_gloas" where
  "apply_gloas c s = (sp_gloas s)\<lparr>
     gloas_fork_version := cf_gloas_fork_version (co_forks c),
     gloas_fork_epoch := cf_gloas_fork_epoch (co_forks c),
     min_builder_withdrawability_delay := cf_min_builder_withdrawability_delay (co_gloas c),
     churn_limit_quotient_gloas := cf_churn_limit_quotient_gloas (co_gloas c),
     consolidation_churn_limit_quotient := cf_consolidation_churn_limit_quotient (co_gloas c),
     max_per_epoch_activation_churn_limit_gloas := cf_max_per_epoch_activation_churn_limit_gloas (co_gloas c)\<rparr>"

definition apply_networking :: "config \<Rightarrow> chain_spec \<Rightarrow> cs_networking" where
  "apply_networking c s = (sp_networking s)\<lparr>
     subnets_per_node := cf_subnets_per_node (co_time c),
     epochs_per_subnet_subscription := cf_epochs_per_subnet_subscription (co_networking c),
     attestation_subnet_count := cf_attestation_subnet_count (co_networking c),
     attestation_subnet_extra_bits := cf_attestation_subnet_extra_bits (co_networking c),
     max_payload_size := cf_max_payload_size (co_networking c),
     min_epochs_for_block_requests := cf_min_epochs_for_block_requests (co_networking c),
     ttfb_timeout := cf_ttfb_timeout (co_networking c),
     resp_timeout := cf_resp_timeout (co_networking c),
     message_domain_invalid_snappy := cf_message_domain_invalid_snappy (co_networking c),
     message_domain_valid_snappy := cf_message_domain_valid_snappy (co_networking c),
     max_request_blocks := cf_max_request_blocks (co_networking c),
     attestation_propagation_slot_range := cf_attestation_propagation_slot_range (co_networking c),
     maximum_gossip_clock_disparity := cf_maximum_gossip_clock_disparity (co_networking c)\<rparr>"

definition apply_net_deneb :: "config \<Rightarrow> chain_spec \<Rightarrow> cs_net_deneb" where
  "apply_net_deneb c s = (sp_net_deneb s)\<lparr>
     max_request_blocks_deneb := cf_max_request_blocks_deneb (co_deneb c),
     max_request_blob_sidecars := cf_max_request_blob_sidecars (co_deneb c),
     max_request_data_column_sidecars := cf_max_request_data_column_sidecars (co_deneb c),
     min_epochs_for_blob_sidecars_requests := cf_min_epochs_for_blob_sidecars_requests (co_deneb c),
     blob_sidecar_subnet_count := cf_blob_sidecar_subnet_count (co_deneb c),
     max_blobs_per_block := cf_max_blobs_per_block (co_deneb c)\<rparr>"

definition apply_net_electra :: "config \<Rightarrow> chain_spec \<Rightarrow> cs_net_electra" where
  "apply_net_electra c s = (sp_net_electra s)\<lparr>
     max_blobs_per_block_electra := cf_max_blobs_per_block_electra (co_electra c),
     max_request_blob_sidecars_electra := cf_max_request_blob_sidecars_electra (co_electra c),
     blob_sidecar_subnet_count_electra := cf_blob_sidecar_subnet_count_electra (co_electra c)\<rparr>"

definition apply_net_fulu :: "config \<Rightarrow> chain_spec \<Rightarrow> cs_net_fulu" where
  "apply_net_fulu c s = (sp_net_fulu s)\<lparr>
     blob_schedule := cf_blob_schedule (co_fulu c),
     min_epochs_for_data_column_sidecars_requests := cf_min_epochs_for_data_column_sidecars_requests (co_fulu c)\<rparr>"

definition apply_fields :: "u64 \<Rightarrow> u64 \<Rightarrow> config \<Rightarrow> chain_spec \<Rightarrow> chain_spec" where
  "apply_fields seconds ms c s = s\<lparr>config_name := cf_config_name (co_meta c),
     sp_misc := apply_misc c s, sp_gwei := apply_gwei c s, sp_initial := apply_initial c s,
     sp_timing := apply_timing seconds ms c s, sp_fork_choice := apply_fork_choice c s,
     sp_eth1 := apply_eth1 c s, sp_execution := apply_execution c s,
     sp_altair := apply_altair c s, sp_bellatrix := apply_bellatrix c s,
     sp_capella := apply_capella c s, sp_deneb := apply_deneb c s,
     sp_electra := apply_electra c s, sp_daisugi := apply_daisugi c s, sp_fulu := apply_fulu c s,
     sp_gloas := apply_gloas c s, sp_networking := apply_networking c s,
     sp_net_deneb := apply_net_deneb c s, sp_net_electra := apply_net_electra c s,
     sp_net_fulu := apply_net_fulu c s\<rparr>"

text \<open>The guard on a Daisugi activation: an Electra branch, so Electra must be scheduled and not
  later, Fulu and Gloas unscheduled, and its version one that no other fork has.\<close>

definition existing_versions :: "config \<Rightarrow> version list" where
  "existing_versions c = (let f = co_forks c in
     [cf_genesis_fork_version (co_genesis c), cf_altair_fork_version f, cf_bellatrix_fork_version f,
      cf_capella_fork_version f, cf_deneb_fork_version f, cf_electra_fork_version f,
      cf_fulu_fork_version f, cf_gloas_fork_version f])"

definition daisugi_admissible :: "config \<Rightarrow> bool" where
  "daisugi_admissible c = (let f = co_forks c in
     case cf_daisugi_fork_epoch f of
       None \<Rightarrow> True
     | Some activation \<Rightarrow>
         (case cf_electra_fork_epoch f of
            None \<Rightarrow> False
          | Some electra \<Rightarrow>
              \<not> (activation < electra
                \<or> cf_fulu_fork_epoch f \<noteq> None \<or> cf_gloas_fork_epoch f \<noteq> None
                \<or> cf_daisugi_fork_version f = [0, 0, 0, 0]
                \<or> cf_daisugi_fork_version f \<in> set (existing_versions c))))"

text \<open>The slot time in seconds and in milliseconds: either may be missing, not both, and they
  must agree when both are given.\<close>

definition slot_times :: "config \<Rightarrow> (u64 \<times> u64) option" where
  "slot_times c = (let t = co_time c in
     case (cf_seconds_per_slot t, cf_slot_duration_ms t) of
       (Some seconds, Some ms) \<Rightarrow> if sat_mul seconds 1000 \<noteq> ms then None else Some (seconds, ms)
     | (Some seconds, None) \<Rightarrow> Some (seconds, sat_mul seconds 1000)
     | (None, Some ms) \<Rightarrow> Some (ms div 1000, ms)
     | (None, None) \<Rightarrow> None)"

definition apply_to_chain_spec ::
  "chain_externals \<Rightarrow> eth_spec \<Rightarrow> config \<Rightarrow> chain_spec \<Rightarrow> chain_spec option outcome" where
  "apply_to_chain_spec X E c s =
     (if \<not> daisugi_admissible c \<or> cf_preset_base (co_meta c) \<noteq> es_name E then Value None
      else
        (case slot_times c of
           None \<Rightarrow> Value None
         | Some (seconds, ms) \<Rightarrow>
             obind (compute_derived_values X E (apply_fields seconds ms c s)) (\<lambda>spec.
             Value (Some spec))))"

definition from_config ::
  "chain_externals \<Rightarrow> eth_spec \<Rightarrow> chain_spec \<Rightarrow> config \<Rightarrow> chain_spec option outcome" where
  "from_config X E default_spec c = apply_to_chain_spec X E c default_spec"

end
