(* ===== verification/Chain_Config_Facts.thy ===== *)
theory Chain_Config_Facts
  imports Chain_Config Chain_Spec_Facts
begin

text \<open>
  The guarantees of the configuration: extraction and application are inverse, an application
  that schedules Daisugi yields an unambiguous fork schedule, and the slot time in whole
  seconds limits which specifications survive the trip.
\<close>

section \<open>Extraction and application\<close>

lemma from_groups [simp]:
  "co_meta (from_chain_spec E s) = config_meta E s"
  "co_terminal (from_chain_spec E s) = config_terminal s"
  "co_genesis (from_chain_spec E s) = config_genesis s"
  "co_forks (from_chain_spec E s) = config_forks s"
  "co_time (from_chain_spec E s) = config_time s"
  "co_validators (from_chain_spec E s) = config_validators s"
  "co_fork_choice (from_chain_spec E s) = config_fork_choice s"
  "co_deposit (from_chain_spec E s) = config_deposit s"
  "co_networking (from_chain_spec E s) = config_networking s"
  "co_deneb (from_chain_spec E s) = config_deneb s"
  "co_electra (from_chain_spec E s) = config_electra s"
  "co_fulu (from_chain_spec E s) = config_fulu s"
  "co_due (from_chain_spec E s) = config_due s"
  "co_gloas (from_chain_spec E s) = config_gloas s"
  by (simp_all add: from_chain_spec_def)

lemmas config_defs = config_meta_def config_terminal_def config_genesis_def config_forks_def
  config_time_def config_validators_def config_fork_choice_def config_deposit_def
  config_networking_def config_deneb_def config_electra_def config_fulu_def config_due_def
  config_gloas_def

lemma apply_from_groups:
  "apply_misc (from_chain_spec E s) s = sp_misc s"
  "apply_gwei (from_chain_spec E s) s = sp_gwei s"
  "apply_initial (from_chain_spec E s) s = sp_initial s"
  "apply_timing (seconds_per_slot (sp_timing s)) (slot_duration_ms (sp_timing s))
     (from_chain_spec E s) s = sp_timing s"
  "apply_fork_choice (from_chain_spec E s) s = sp_fork_choice s"
  "apply_eth1 (from_chain_spec E s) s = sp_eth1 s"
  "apply_execution (from_chain_spec E s) s = sp_execution s"
  "apply_altair (from_chain_spec E s) s = sp_altair s"
  "apply_bellatrix (from_chain_spec E s) s = sp_bellatrix s"
  "apply_capella (from_chain_spec E s) s = sp_capella s"
  "apply_deneb (from_chain_spec E s) s = sp_deneb s"
  "apply_electra (from_chain_spec E s) s = sp_electra s"
  "apply_daisugi (from_chain_spec E s) s = sp_daisugi s"
  "apply_fulu (from_chain_spec E s) s = sp_fulu s"
  "apply_gloas (from_chain_spec E s) s = sp_gloas s"
  "apply_networking (from_chain_spec E s) s = sp_networking s"
  "apply_net_deneb (from_chain_spec E s) s = sp_net_deneb s"
  "apply_net_electra (from_chain_spec E s) s = sp_net_electra s"
  "apply_net_fulu (from_chain_spec E s) s = sp_net_fulu s"
  by (simp_all add: apply_misc_def apply_gwei_def apply_initial_def apply_timing_def
      apply_fork_choice_def apply_eth1_def apply_execution_def apply_altair_def apply_bellatrix_def
      apply_capella_def apply_deneb_def apply_electra_def apply_daisugi_def apply_fulu_def
      apply_gloas_def apply_networking_def apply_net_deneb_def apply_net_electra_def
      apply_net_fulu_def config_defs)

lemma apply_from_fields:
  "apply_fields (seconds_per_slot (sp_timing s)) (slot_duration_ms (sp_timing s))
     (from_chain_spec E s) s = s"
  by (simp add: apply_fields_def apply_from_groups config_meta_def)

lemma slot_times_from: "slot_times (from_chain_spec E s)
    = (if sat_mul (seconds_per_slot (sp_timing s)) 1000 = slot_duration_ms (sp_timing s)
       then Some (seconds_per_slot (sp_timing s), slot_duration_ms (sp_timing s)) else None)"
  by (simp add: slot_times_def config_time_def Let_def)


lemma derived_keeps:
  assumes "compute_derived_values X E s = Value s'"
  shows "\<exists>due net derived. s' = s\<lparr>sp_due := due, sp_networking := (sp_networking s)\<lparr>
    attestation_subnet_prefix_bits := net\<rparr>, sp_net_derived := derived\<rparr>"
  using assms by (auto simp: compute_derived_values_def dec_simps split: if_splits)

lemma apply_Some:
  assumes "apply_to_chain_spec X E c s0 = Value (Some s)"
  shows "daisugi_admissible c \<and> cf_preset_base (co_meta c) = es_name E
    \<and> (\<exists>seconds ms due net derived. slot_times c = Some (seconds, ms)
      \<and> s = (apply_fields seconds ms c s0)\<lparr>sp_due := due,
          sp_networking := (sp_networking (apply_fields seconds ms c s0))\<lparr>
            attestation_subnet_prefix_bits := net\<rparr>, sp_net_derived := derived\<rparr>)"
  using assms derived_keeps
  by (auto simp: apply_to_chain_spec_def dec_simps split: if_splits option.splits prod.splits)

lemma fields_groups [simp]:
  "config_name (apply_fields a b c s) = cf_config_name (co_meta c)"
  "sp_misc (apply_fields a b c s) = apply_misc c s"
  "sp_gwei (apply_fields a b c s) = apply_gwei c s"
  "sp_initial (apply_fields a b c s) = apply_initial c s"
  "sp_timing (apply_fields a b c s) = apply_timing a b c s"
  "sp_fork_choice (apply_fields a b c s) = apply_fork_choice c s"
  "sp_eth1 (apply_fields a b c s) = apply_eth1 c s"
  "sp_execution (apply_fields a b c s) = apply_execution c s"
  "sp_altair (apply_fields a b c s) = apply_altair c s"
  "sp_bellatrix (apply_fields a b c s) = apply_bellatrix c s"
  "sp_capella (apply_fields a b c s) = apply_capella c s"
  "sp_deneb (apply_fields a b c s) = apply_deneb c s"
  "sp_electra (apply_fields a b c s) = apply_electra c s"
  "sp_daisugi (apply_fields a b c s) = apply_daisugi c s"
  "sp_fulu (apply_fields a b c s) = apply_fulu c s"
  "sp_gloas (apply_fields a b c s) = apply_gloas c s"
  "sp_networking (apply_fields a b c s) = apply_networking c s"
  "sp_net_deneb (apply_fields a b c s) = apply_net_deneb c s"
  "sp_net_electra (apply_fields a b c s) = apply_net_electra c s"
  "sp_net_fulu (apply_fields a b c s) = apply_net_fulu c s"
  by (simp_all add: apply_fields_def)

lemmas apply_group_defs = apply_misc_def apply_gwei_def apply_initial_def apply_timing_def
  apply_fork_choice_def apply_eth1_def apply_execution_def apply_altair_def apply_bellatrix_def
  apply_capella_def apply_deneb_def apply_electra_def apply_daisugi_def apply_fulu_def
  apply_gloas_def apply_networking_def apply_net_deneb_def apply_net_electra_def
  apply_net_fulu_def

text \<open>
  No configuration value is lost: the configuration extracted from the result of a
  successful application is the configuration that was applied, once its three optional values
  are given, whatever specification it was applied to.
\<close>

theorem config_values_kept:
  assumes "apply_to_chain_spec X E c s0 = Value (Some s)"
    and "cf_seconds_per_slot (co_time c) \<noteq> None" and "cf_slot_duration_ms (co_time c) \<noteq> None"
    and "cf_proposer_score_boost (co_fork_choice c) \<noteq> None"
  shows "from_chain_spec E s = c"
proof -
  obtain seconds ms due net derived where s: "cf_preset_base (co_meta c) = es_name E"
    "slot_times c = Some (seconds, ms)"
    "s = (apply_fields seconds ms c s0)\<lparr>sp_due := due,
          sp_networking := (sp_networking (apply_fields seconds ms c s0))\<lparr>
            attestation_subnet_prefix_bits := net\<rparr>, sp_net_derived := derived\<rparr>"
    using apply_Some [OF assms(1)] by blast
  have "cf_seconds_per_slot (co_time c) = Some seconds" "cf_slot_duration_ms (co_time c) = Some ms"
    using s(2) assms(2,3) by (auto simp: slot_times_def Let_def split: option.splits if_splits)
  moreover obtain boost where "cf_proposer_score_boost (co_fork_choice c) = Some boost"
    using assms(4) by blast
  ultimately have
    "config_meta E s = co_meta c" "config_terminal s = co_terminal c" "config_genesis s = co_genesis c"
    "config_forks s = co_forks c" "config_time s = co_time c" "config_validators s = co_validators c"
    "config_fork_choice s = co_fork_choice c" "config_deposit s = co_deposit c"
    "config_networking s = co_networking c" "config_deneb s = co_deneb c"
    "config_electra s = co_electra c" "config_fulu s = co_fulu c" "config_due s = co_due c"
    "config_gloas s = co_gloas c"
    using s(1) unfolding s(3) by (simp_all add: config_defs apply_group_defs)
  then show ?thesis by (simp add: from_chain_spec_def)
qed

section \<open>The Daisugi branch\<close>

lemma applied_forks:
  assumes "apply_to_chain_spec X E c s0 = Value (Some s)"
  shows "config_forks s = co_forks c \<and> genesis_fork_version (sp_initial s)
    = cf_genesis_fork_version (co_genesis c)"
proof -
  obtain seconds ms due net derived where s:
    "s = (apply_fields seconds ms c s0)\<lparr>sp_due := due,
          sp_networking := (sp_networking (apply_fields seconds ms c s0))\<lparr>
            attestation_subnet_prefix_bits := net\<rparr>, sp_net_derived := derived\<rparr>"
    using apply_Some [OF assms] by blast
  show ?thesis unfolding s by (simp add: config_forks_def apply_group_defs)
qed

text \<open>
  C13. A configuration that schedules Daisugi is either rejected or yields a specification that
  runs Daisugi at exactly the epochs from its activation on, with Electra scheduled no later,
  Fulu and Gloas never active, and a fork version that no other fork of the specification has.
\<close>

theorem daisugi_schedule:
  assumes "apply_to_chain_spec X E c s0 = Value (Some s)"
    and "cf_daisugi_fork_epoch (co_forks c) = Some d"
  shows "(fork_name_at_epoch s e = Daisugi \<longleftrightarrow> d \<le> e)
    \<and> \<not> fulu_enabled (fork_name_at_epoch s e)
    \<and> (\<exists>electra. fork_epoch s Electra = Some electra \<and> electra \<le> d)
    \<and> (\<forall>f. f \<noteq> Daisugi \<longrightarrow> fork_version_for_name s f \<noteq> fork_version_for_name s Daisugi)"
proof -
  have "daisugi_admissible c" using apply_Some [OF assms(1)] by blast
  then obtain electra where g: "cf_electra_fork_epoch (co_forks c) = Some electra" "electra \<le> d"
    "cf_fulu_fork_epoch (co_forks c) = None" "cf_gloas_fork_epoch (co_forks c) = None"
    "cf_daisugi_fork_version (co_forks c) \<notin> set (existing_versions c)"
    using assms(2) by (auto simp: daisugi_admissible_def Let_def not_less split: option.splits)
  note forks = applied_forks [OF assms(1)]
  then have f: "co_forks c = config_forks s" by simp
  have epochs: "fork_epoch s Daisugi = Some d" "fork_epoch s Electra = Some electra"
    "fork_epoch s Fulu = None" "fork_epoch s Gloas = None"
    using assms(2) g unfolding f by (simp_all add: fork_epoch_def config_forks_def)
  have not_late: "fork_name_at_epoch s e \<noteq> Fulu" "fork_name_at_epoch s e \<noteq> Gloas"
    using active_fork [of s e] epochs by auto
  have "fork_name_at_epoch s e = Daisugi \<longleftrightarrow> d \<le> e"
  proof
    assume "fork_name_at_epoch s e = Daisugi"
    then show "d \<le> e" using active_fork [of s e] epochs(1) by simp
  next
    assume "d \<le> e"
    then have "Daisugi \<le> fork_name_at_epoch s e" using active_latest epochs(1) by blast
    with not_late show "fork_name_at_epoch s e = Daisugi"
      by (cases "fork_name_at_epoch s e") (auto simp: fork_order)
  qed
  moreover have "\<not> fulu_enabled (fork_name_at_epoch s e)"
    using not_late by (cases "fork_name_at_epoch s e") (auto simp: fulu_enabled_def fork_order)
  moreover have "fork_version_for_name s f \<noteq> fork_version_for_name s Daisugi" if "f \<noteq> Daisugi" for f
    using g(5) that forks
    by (cases f) (auto simp: existing_versions_def Let_def fork_version_for_name_def config_forks_def f)
  ultimately show ?thesis using epochs(2) g(2) by blast
qed

section \<open>Slot times\<close>

text \<open>
  C39. A specification whose slot time was set to a number of milliseconds that is not a whole
  number of seconds does not survive the trip through its own configuration: the seconds are
  rounded down, the two values then disagree, and the application is refused.
\<close>

theorem fractional_slots_rejected:
  assumes "set_slot_duration_ms X E ms s = Value s'" and "unat ms mod 1000 \<noteq> 0"
  shows "apply_to_chain_spec X E (from_chain_spec E s') s0 = Value None"
proof -
  have t: "slot_duration_ms (sp_timing s') = ms" "seconds_per_slot (sp_timing s') = ms div 1000"
    using derived_keeps [OF assms(1) [unfolded set_slot_duration_ms_def]] by auto
  have "unat (ms div 1000) * 1000 < 2 ^ 64"
  proof -
    have "unat (ms div 1000) * 1000 \<le> unat ms"
      by (simp add: unat_div div_times_less_eq_dividend)
    also have "unat ms < 2 ^ 64" using unsigned_less [of ms] by simp
    finally show ?thesis .
  qed
  moreover from this have "unat (ms div 1000 * 1000) = unat ms div 1000 * 1000"
    by (simp add: unat_mult_lem [THEN iffD1] unat_div)
  moreover have "unat ms div 1000 * 1000 \<noteq> unat ms"
    using assms(2) by (metis mod_mult_self2_is_0 mult.commute)
  ultimately have "sat_mul (ms div 1000) 1000 \<noteq> ms"
    by (auto simp: sat_mul_def)
  then have "slot_times (from_chain_spec E s') = None"
    by (simp add: slot_times_from t)
  then show ?thesis
    by (simp add: apply_to_chain_spec_def)
qed

end
