(* ===== verification/Chain_Witnesses.thy ===== *)
theory Chain_Witnesses
  imports Chain_Config_Facts Chain_Presets
begin

text \<open>
  The theorems about the fork schedule and the configuration, applied to a development network:
  the mainnet specification with every fork up to Electra active from genesis, neither Fulu
  nor Gloas scheduled, and Daisugi active from epoch 10.
\<close>

definition chain_x :: chain_externals where
  "chain_x = \<lparr>basis_points = 10000, application_domain_builder = 0, sha256 = take 32,
     fork_data_root = (\<lambda>v root. v @ root)\<rparr>"

definition mainnet_e :: eth_spec where
  "mainnet_e = \<lparr>es_name = ''mainnet'', es_slots_per_epoch = 32, es_number_of_columns = 128\<rparr>"

definition devnet :: chain_spec where
  "devnet = (make_genesis_spec Electra (mainnet chain_x))\<lparr>sp_daisugi :=
     \<lparr>daisugi_fork_version = [0x60, 0, 0, 0], daisugi_fork_epoch = Some 10\<rparr>\<rparr>"

lemma externals [simp]: "basis_points chain_x = 10000" "es_number_of_columns mainnet_e = 128"
  "es_slots_per_epoch mainnet_e = 32" "es_name mainnet_e = ''mainnet''"
  by (simp_all add: chain_x_def mainnet_e_def)

lemma genesis_groups [simp]:
  "sp_timing (make_genesis_spec f s) = sp_timing s" "sp_due (make_genesis_spec f s) = sp_due s"
  "sp_networking (make_genesis_spec f s) = sp_networking s"
  "sp_net_deneb (make_genesis_spec f s) = sp_net_deneb s"
  "sp_net_fulu (make_genesis_spec f s) = sp_net_fulu s"
  "sp_net_gloas (make_genesis_spec f s) = sp_net_gloas s"
  "sp_net_derived (make_genesis_spec f s) = sp_net_derived s"
  "sp_constants (make_genesis_spec f s) = sp_constants s"
  by (cases f; simp add: make_genesis_spec_def set_genesis_epochs_def set_fork_epoch_def Let_def)+

lemma genesis_versions:
  "fork_version_for_name (make_genesis_spec f s) g = fork_version_for_name s g"
  by (cases f; cases g; simp add: fork_version_for_name_def make_genesis_spec_def
      set_genesis_epochs_def set_fork_epoch_def Let_def)

lemma devnet_epochs: "fork_epoch devnet f = (case f of
    Daisugi \<Rightarrow> Some 10 | Fulu \<Rightarrow> None | Gloas \<Rightarrow> None | _ \<Rightarrow> Some 0)"
proof -
  have "fork_epoch devnet f = (if f = Daisugi then Some 10
      else fork_epoch (make_genesis_spec Electra (mainnet chain_x)) f)"
    by (cases f) (simp_all add: devnet_def fork_epoch_def)
  then show ?thesis by (cases f) (simp_all add: fork_epoch_genesis fork_order)
qed

lemma devnet_due: "due_times chain_x devnet = due_times chain_x (mainnet chain_x)"
  by (simp add: devnet_def due_times_def compute_slot_component_duration_def)

lemma devnet_net: "net_derived_values mainnet_e devnet = net_derived_values mainnet_e (mainnet chain_x)"
  by (simp add: devnet_def net_derived_values_def)

lemma devnet_groups:
  "sp_timing devnet = mainnet_timing" "sp_due devnet = mainnet_due"
  "sp_networking devnet = mainnet_networking" "sp_net_derived devnet = mainnet_net_derived"
  "sp_constants devnet = mainnet_constants" "sp_net_fulu devnet = mainnet_net_fulu"
  by (simp_all add: devnet_def) (simp add: mainnet_def)

lemma devnet_derived: "compute_derived_values chain_x mainnet_e devnet = Value devnet"
proof (rule derived_fixed)
  show "bps_within chain_x devnet"
    by (simp add: devnet_groups bps_within_def Let_def mainnet_timing_def)
  show "due_times chain_x devnet = Value (sp_due devnet)"
    by (simp add: devnet_due mainnet_due_times devnet_groups)
  show "net_derived_values mainnet_e devnet = Value (sp_net_derived devnet)"
    by (simp add: devnet_net mainnet_derived devnet_groups)
qed (use prefix_bits(1) in \<open>simp add: devnet_groups\<close>)

lemma devnet_admissible: "daisugi_admissible (from_chain_spec mainnet_e devnet)"
proof -
  let ?s = "make_genesis_spec Electra (mainnet chain_x)"
  have "fork_version_for_name ?s f \<noteq> [0x60, 0, 0, 0]" for f
    unfolding genesis_versions
    by (cases f)
      (simp_all add: fork_version_for_name_def mainnet_def mainnet_initial_def
        mainnet_altair_def mainnet_bellatrix_def mainnet_capella_def mainnet_deneb_def
        mainnet_electra_def mainnet_daisugi_def mainnet_fulu_def mainnet_gloas_def)
  from this [of Base] this [of Altair] this [of Bellatrix] this [of Capella] this [of Deneb]
    this [of Electra] this [of Fulu] this [of Gloas]
  have "[0x60, 0, 0, 0] \<notin> set (existing_versions (from_chain_spec mainnet_e devnet))"
    by (simp add: existing_versions_def Let_def config_forks_def config_genesis_def devnet_def
        fork_version_for_name_def eq_commute)
  moreover have "cf_daisugi_fork_epoch (config_forks devnet) = Some 10"
    "cf_electra_fork_epoch (config_forks devnet) = Some 0"
    "cf_fulu_fork_epoch (config_forks devnet) = None" "cf_gloas_fork_epoch (config_forks devnet) = None"
    "cf_daisugi_fork_version (config_forks devnet) = [0x60, 0, 0, 0]"
    using devnet_epochs [of Daisugi] devnet_epochs [of Electra] devnet_epochs [of Fulu]
      devnet_epochs [of Gloas]
    by (simp_all add: config_forks_def fork_epoch_def) (simp add: devnet_def)
  ultimately show ?thesis
    by (simp add: daisugi_admissible_def Let_def)
qed

lemma devnet_slot_times:
  "sat_mul (seconds_per_slot (sp_timing devnet)) 1000 = slot_duration_ms (sp_timing devnet)"
  by (simp add: devnet_groups sat_mul_def mainnet_timing_def)

lemma devnet_applies:
  "apply_to_chain_spec chain_x mainnet_e (from_chain_spec mainnet_e devnet) devnet = Value (Some devnet)"
  using devnet_derived devnet_admissible devnet_slot_times
  by (simp add: apply_to_chain_spec_def slot_times_from apply_from_fields) (simp add: config_meta_def)

section \<open>Forks\<close>

lemma fork_name_roundtrip_witness: "fork_from_str ''Daisugi'' = Inr Daisugi"
  using fork_name_roundtrip [of "''Daisugi''" Daisugi] by (simp add: lower_char_def char_of_def bit_simps)

lemma fork_chain_witness: "previous_fork Fulu = Some Electra \<and> Electra < Fulu"
  using fork_chain [of Electra Fulu] by simp

lemma fork_name_at_epoch_greatest_witness:
  "fork_name_at_epoch devnet 9 = Electra \<and> fork_name_at_epoch devnet 10 = Daisugi"
proof -
  have "fork_name_at_epoch devnet 9 = Electra"
    unfolding fork_name_at_epoch_greatest
    by (auto simp: devnet_epochs fork_order split: fork_name.splits)
  moreover have "fork_name_at_epoch devnet 10 = Daisugi"
    unfolding fork_name_at_epoch_greatest
    by (auto simp: devnet_epochs fork_order split: fork_name.splits)
  ultimately show ?thesis ..
qed

lemma devnet_next_fork: "next_fork_epoch mainnet_e devnet 64 = Some (Daisugi, 10)"
  by (simp add: next_fork_epoch_def Let_def list_all_fork_epochs_def list_all_forks_def
      devnet_epochs epoch_of_def List.map_filter_simps)

lemma forks_change_when_announced_witness:
  "fork_name_at_epoch devnet 9 = fork_name_at_slot mainnet_e devnet 64
   \<and> Daisugi \<le> fork_name_at_epoch devnet 10"
proof -
  have "epoch_of mainnet_e 64 \<le> 9" by (simp add: epoch_of_def)
  then show ?thesis
    using forks_change_when_announced [of mainnet_e 64 9 devnet] devnet_next_fork by simp
qed

lemma digest_changes_when_announced_witness:
  "compute_fork_digest chain_x devnet [] 9 = compute_fork_digest chain_x devnet [] 2"
proof -
  have "next_digest_epoch devnet 2 = Some 10"
    by (simp add: next_digest_epoch_def all_digest_epochs_def is_fulu_scheduled_def
        list_all_fork_epochs_def list_all_forks_def devnet_epochs List.map_filter_simps btree_vec_def
        devnet_epochs [of Fulu, unfolded fork_epoch_def, simplified])
  moreover have "far_future_epoch (sp_constants devnet) = - 1"
    by (simp add: devnet_groups mainnet_constants_def)
  ultimately show ?thesis
    using digest_changes_when_announced [of 2 9 devnet chain_x "[]"] by simp
qed

lemma blob_lookup_latest_witness:
  "bp_epoch (the (blob_parameters_for_epoch (blob_schedule_new
     [\<lparr>bp_epoch = 5, bp_max_blobs = 9\<rparr>, \<lparr>bp_epoch = 7, bp_max_blobs = 12\<rparr>]) 8)) = 7"
proof -
  let ?v = "[\<lparr>bp_epoch = 5, bp_max_blobs = 9\<rparr>, \<lparr>bp_epoch = 7, bp_max_blobs = 12\<rparr>]"
  show ?thesis
    using blob_lookup_latest [of ?v 8]
    by (auto split: option.splits simp: word_le_nat_alt)
qed

lemma schedule_roundtrip_witness:
  "bs_schedule (blob_schedule_deserialize (blob_schedule_serialize (blob_schedule mainnet_net_fulu)))
     = bs_schedule (blob_schedule mainnet_net_fulu)"
proof -
  have "schedule_wf (blob_schedule mainnet_net_fulu)"
    by (simp add: mainnet_net_fulu_def schedule_new_wf)
  moreover have "distinct (map bp_epoch (bs_schedule (blob_schedule mainnet_net_fulu)))"
    by (simp add: mainnet_net_fulu_def blob_schedule_new_def)
  ultimately show ?thesis using schedule_roundtrip [of "blob_schedule mainnet_net_fulu"] by blast
qed

section \<open>Configuration\<close>

lemma presets_derived_witness:
  "compute_derived_values chain_x mainnet_e (gnosis chain_x) = Value (gnosis chain_x)"
  using presets_derived [of chain_x mainnet_e] by simp


lemma config_values_kept_witness:
  "from_chain_spec mainnet_e devnet = from_chain_spec mainnet_e devnet
   \<and> cf_seconds_per_slot (co_time (from_chain_spec mainnet_e devnet)) = Some 12"
proof -
  have "cf_seconds_per_slot (config_time devnet) = Some 12" "cf_slot_duration_ms (config_time devnet) \<noteq> None"
    "cf_proposer_score_boost (config_fork_choice devnet) \<noteq> None"
    by (simp_all add: devnet_groups config_time_def mainnet_timing_def config_fork_choice_def)
  then show ?thesis using config_values_kept [OF devnet_applies] by simp
qed

lemma daisugi_schedule_witness:
  "fork_name_at_epoch devnet 25 = Daisugi \<and> \<not> fulu_enabled (fork_name_at_epoch devnet 25)"
proof -
  have "cf_daisugi_fork_epoch (co_forks (from_chain_spec mainnet_e devnet)) = Some 10"
    using devnet_epochs [of Daisugi] by (simp add: config_forks_def fork_epoch_def)
  moreover have "(10 :: u64) \<le> 25" by simp
  ultimately show ?thesis using daisugi_schedule [OF devnet_applies, of 10 25] by blast
qed

lemma devnet_slow: "\<exists>s. set_slot_duration_ms chain_x mainnet_e 2500 devnet = Value s"
proof -
  let ?s = "devnet\<lparr>sp_timing := (sp_timing devnet)\<lparr>slot_duration_ms := 2500,
       seconds_per_slot := 2500 div 1000\<rparr>\<rparr>"
  have "bps_within chain_x ?s"
    by (simp add: bps_within_def Let_def devnet_groups mainnet_timing_def)
  moreover have "\<exists>due. due_times chain_x ?s = Value due"
    by (simp add: due_times_def compute_slot_component_duration_def Let_def devnet_groups
        mainnet_timing_def safe_mul_def safe_div_def expect_def)
  moreover have "net_derived_values mainnet_e ?s = net_derived_values mainnet_e devnet"
    by (simp add: net_derived_values_def)
  ultimately show ?thesis
    using devnet_net mainnet_derived [of mainnet_e chain_x]
    by (auto simp: set_slot_duration_ms_def compute_derived_values_def)
qed

lemma fractional_slots_rejected_witness:
  "\<exists>s. set_slot_duration_ms chain_x mainnet_e 2500 devnet = Value s
     \<and> apply_to_chain_spec chain_x mainnet_e (from_chain_spec mainnet_e s) devnet = Value None"
proof -
  obtain s where s: "set_slot_duration_ms chain_x mainnet_e 2500 devnet = Value s"
    using devnet_slow by blast
  then show ?thesis using fractional_slots_rejected [OF s, of devnet] by simp
qed

end
