(* ===== verification/Slot_Witnesses.thy ===== *)
theory Slot_Witnesses
  imports Slot_Facts Chain_Witnesses
begin

text \<open>
  The theorems about the beacon state and slot processing, applied to an Electra state of the
  development network in the last slot before its Daisugi epoch.
\<close>

definition sample_sizes :: state_spec where
  "sample_sizes = \<lparr>ss_eth = mainnet_e, ss_epochs_per_historical_vector = 4,
     ss_epochs_per_slashings_vector = 2, ss_slots_per_historical_root = 8,
     ss_sync_committee_size = 3, ss_ptc_size = 2, ss_slots_per_eth1_voting_period = 4,
     ss_validator_registry_limit = 16, ss_builder_registry_limit = 4,
     ss_builder_pending_withdrawals_limit = 4, ss_bytes_per_logs_bloom = 256\<rparr>"

definition zero_hash :: root where "zero_hash = replicate 32 0"

definition sample_header :: exec_header where
  "sample_header = \<lparr>eh_parent_hash = zero_hash, eh_fee_recipient = replicate 20 0,
     eh_state_root = zero_hash, eh_receipts_root = zero_hash, eh_logs_bloom = replicate 256 0,
     eh_prev_randao = zero_hash, eh_block_number = 300, eh_gas_limit = 30000000, eh_gas_used = 21000,
     eh_timestamp = 3828, eh_extra_data = [], eh_base_fee_per_gas = 7, eh_block_hash = zero_hash,
     eh_transactions_root = zero_hash, eh_withdrawals_root = zero_hash, eh_blob_gas_used = 0,
     eh_excess_blob_gas = 0, eh_recursive_stark_proof_root = zero_hash,
     eh_recursive_stark_block_deps_hash = zero_hash\<rparr>"

definition sample_electra :: "unit bs_electra" where
  "sample_electra = \<lparr>bs_deposit_requests_start_index = - 1, bs_deposit_balance_to_consume = 0,
     bs_exit_balance_to_consume = 0, bs_earliest_exit_epoch = 3,
     bs_consolidation_balance_to_consume = 0, bs_earliest_consolidation_epoch = 3,
     bs_pending_deposits = [], bs_pending_partial_withdrawals = [], bs_pending_consolidations = []\<rparr>"

definition sample_checkpoint :: checkpoint where
  "sample_checkpoint = \<lparr>cp_epoch = 8, cp_root = zero_hash\<rparr>"

definition sample_caches :: "unit bs_caches" where
  "sample_caches = \<lparr>bs_total_active_balance = Some (9, 1000000 * 1000000000), bs_committee_caches = [(), (), ()],
     bs_progressive_balances_cache = (), bs_pubkey_cache = (), bs_exit_cache = (),
     bs_slashings_cache = (), bs_epoch_cache = ()\<rparr>"

definition sample_committee :: sync_committee where
  "sample_committee = \<lparr>sc_pubkeys = [], sc_aggregate_pubkey = []\<rparr>"

definition sample_bid :: "unit payload_bid" where
  "sample_bid = \<lparr>pb_parent_block_hash = zero_hash, pb_parent_block_root = zero_hash, pb_block_hash = zero_hash,
     pb_prev_randao = zero_hash, pb_fee_recipient = [], pb_builder_index = 0, pb_slot = 0, pb_value = 0,
     pb_blob_kzg_commitments = [], pb_execution_requests_root = zero_hash, pb_rest = ()\<rparr>"

definition sample_gloas :: "unit bs_gloas" where
  "sample_gloas = \<lparr>bs_proposer_lookahead = [], bs_builders = [], bs_next_withdrawal_builder_index = 0,
     bs_execution_payload_availability = [], bs_builder_pending_payments = [],
     bs_builder_pending_withdrawals = [], bs_latest_execution_payload_bid = sample_bid,
     bs_latest_block_hash = zero_hash, bs_payload_expected_withdrawals = [], bs_ptc_window = []\<rparr>"

definition sample_state :: "unit beacon_state" where
  "sample_state = \<lparr>st_variant = Electra,
     st_versioning = \<lparr>bs_genesis_time = 0, bs_genesis_validators_root = zero_hash, bs_slot = 319,
       bs_fork = \<lparr>fk_previous_version = [4, 0, 0, 0], fk_current_version = [5, 0, 0, 0], fk_epoch = 0\<rparr>\<rparr>,
     st_history = \<lparr>bs_latest_block_header = \<lparr>bh_slot = 318, bh_proposer_index = 0,
         bh_parent_root = zero_hash, bh_state_root = zero_hash, bh_body_root = zero_hash\<rparr>,
       bs_block_roots = replicate 8 zero_hash, bs_state_roots = replicate 8 zero_hash,
       bs_historical_roots = []\<rparr>,
     st_eth1 = \<lparr>bs_eth1_data = \<lparr>e1_deposit_root = zero_hash, e1_deposit_count = 0, e1_block_hash = zero_hash\<rparr>,
        bs_eth1_data_votes = [], bs_eth1_deposit_index = 0\<rparr>,
     st_registry = \<lparr>bs_validators = [], bs_balances = []\<rparr>,
     st_mixes = \<lparr>bs_randao_mixes = replicate 4 zero_hash, bs_slashings = [0, 0]\<rparr>,
     st_attestations = \<lparr>bs_previous_epoch_attestations = [], bs_current_epoch_attestations = []\<rparr>,
     st_participation = \<lparr>bs_previous_epoch_participation = [], bs_current_epoch_participation = [],
       bs_inactivity_scores = [], bs_current_sync_committee = sample_committee, bs_next_sync_committee = sample_committee\<rparr>,
     st_finality = \<lparr>bs_justification_bits = [True, True, True, True],
       bs_previous_justified_checkpoint = sample_checkpoint,
       bs_current_justified_checkpoint = sample_checkpoint, bs_finalized_checkpoint = sample_checkpoint\<rparr>,
     st_execution = sample_header,
     st_capella = \<lparr>bs_next_withdrawal_index = 0, bs_next_withdrawal_validator_index = 0,
       bs_historical_summaries = []\<rparr>,
     st_electra = sample_electra,
     st_gloas = sample_gloas,
     st_caches = sample_caches\<rparr>"

definition slot_x :: "(unit, unit) slot_externals" where
  "slot_x = \<lparr>sx_tree_hash = (\<lambda>st. Inr (replicate 32 1)), sx_header_root = (\<lambda>h. bh_state_root h),
     sx_epoch_processing = (\<lambda>s st. (Inr (), st)),
     sx_upgrade = (\<lambda>f s st. if previous_fork f = Some (st_variant st) then (Inr (), st\<lparr>st_variant := f\<rparr>)
       else (Inl BSE_IncorrectStateVariant, st)),
     sx_build_caches = (\<lambda>s st. (Inr (), st)), sx_empty_caches = sample_caches\<rparr>"

lemma sample_sizes_simps [simp]:
  "ss_eth sample_sizes = mainnet_e" "ss_epochs_per_historical_vector sample_sizes = 4"
  "ss_slots_per_historical_root sample_sizes = 8"
  by (simp_all add: sample_sizes_def)

lemma sample_epoch: "current_epoch sample_sizes sample_state = 9"
  by (simp add: current_epoch_def epoch_of_def sample_state_def)

lemma slot_x_simps [simp]: "sx_epoch_processing slot_x s st = (Inr (), st)"
  "sx_build_caches slot_x s st = (Inr (), st)"
  by (simp_all add: slot_x_def)

lemma sample_lawful: "slot_externals_lawful slot_x s"
  by (auto simp: slot_externals_lawful_def keeps_fork_def upgrades_to_def slot_x_def split: if_splits)

section \<open>The state\<close>

lemma sample_set_mix: "set_randao_mix sample_sizes 10 (replicate 32 7) sample_state =
    Inr (put_mixes [zero_hash, zero_hash, replicate 32 7, zero_hash] sample_state)"
  by (simp add: set_randao_mix_def get_randao_mix_index_def epoch_index_def sample_epoch Let_def
      safe_add_def ok_or_def upper_bound_of_def usize_rem_def put_mixes_def)
    (simp add: sample_state_def numeral_eq_Suc)

lemma mixes_ring_witness: "get_randao_mix sample_sizes
    (put_mixes [zero_hash, zero_hash, replicate 32 7, zero_hash] sample_state) 6 = Inr (replicate 32 7)"
  using mixes_ring [OF sample_set_mix, of 6] by (simp add: sample_epoch)

lemma devnet_churn:
  "min_per_epoch_churn_limit_electra (sp_electra devnet) = 128000000000"
  "max_per_epoch_activation_exit_churn_limit (sp_electra devnet) = 256000000000"
  "churn_limit_quotient (sp_misc devnet) = 65536"
  "effective_balance_increment (sp_gwei devnet) = 1000000000"
  "max_seed_lookahead (sp_timing devnet) = 4"
  by (simp_all add: devnet_def make_genesis_spec_def set_genesis_epochs_def set_fork_epoch_def Let_def)
    (simp_all add: mainnet_def mainnet_electra_def mainnet_misc_def mainnet_gwei_def mainnet_timing_def)

lemma sample_limits: "exit_limits sample_sizes devnet sample_state = Inr (14, 128000000000)"
  unfolding exit_limits_Inr
  by (simp add: sample_state_def sample_caches_def enabled_defs fork_order churn_limit_defs devnet_churn
      compute_activation_exit_epoch_def safe_add_def safe_div_def round_down_def safe_rem_def safe_sub_def
      ok_or_def epoch_of_def Let_def)

lemma sample_churn: "compute_exit_epoch_and_update_churn sample_sizes devnet 300000000000 sample_state =
    Inr (16, put_exit 16 84000000000 sample_state)"
  unfolding exit_queue.compute_eq sample_limits
  by (simp add: sample_state_def sample_electra_def churn_step_def safe_add_def safe_sub_def
      safe_div_def safe_mul_def ok_or_def)

lemma exit_epochs_add_witness: "\<exists>e1 st1.
    compute_exit_epoch_and_update_churn sample_sizes devnet 100000000000 sample_state = Inr (e1, st1) \<and>
    compute_exit_epoch_and_update_churn sample_sizes devnet 200000000000 st1 =
      Inr (16, put_exit 16 84000000000 sample_state) \<and> e1 \<le> 16"
  using exit_epochs_add [OF sample_churn, of 100000000000 200000000000] by simp

section \<open>Slots\<close>

lemma sample_history:
  "state_slot sample_state = 319" "st_variant sample_state = Electra"
  "bs_block_roots (st_history sample_state) = replicate 8 zero_hash"
  "bs_state_roots (st_history sample_state) = replicate 8 zero_hash"
  "bs_latest_block_header (st_history sample_state) = \<lparr>bh_slot = 318, bh_proposer_index = 0,
         bh_parent_root = zero_hash, bh_state_root = zero_hash, bh_body_root = zero_hash\<rparr>"
  by (simp_all add: sample_state_def)

lemma sample_cached: "\<exists>st'. cache_state slot_x None sample_state = (Inr (), st')"
  unfolding cache_state_Inr
  by (simp add: recorded_root_def slot_x_def sample_history set_state_root_def set_block_root_def
      get_latest_state_roots_index_def get_latest_block_roots_index_def roots_index_def safe_add_def
      ok_or_def usize_rem_def Let_def set_slot_def fill_header_root_def)

lemma cache_state_records_witness: "\<exists>st'. cache_state slot_x None sample_state = (Inr (), st') \<and>
    get_state_root (set_slot 320 st') 319 = Inr (replicate 32 1)"
proof -
  obtain st' where st': "cache_state slot_x None sample_state = (Inr (), st')" using sample_cached by blast
  show ?thesis using cache_state_records [OF st'] st'
    by (auto simp: sample_history Let_def recorded_root_def slot_x_def)
qed

lemma devnet_forks: "fork_name_at_epoch devnet 9 = Electra" "fork_name_at_epoch devnet 10 = Daisugi"
  using devnet_epochs [of Altair] devnet_epochs [of Bellatrix] devnet_epochs [of Capella]
    devnet_epochs [of Deneb] devnet_epochs [of Electra] devnet_epochs [of Daisugi]
    devnet_epochs [of Fulu] devnet_epochs [of Gloas]
  by (simp_all add: fork_name_at_epoch_def fork_table_epochs)

lemma sample_upgrades:
  assumes "st_variant st = Electra" and "state_slot st = 320"
  shows "run_upgrades slot_x sample_sizes devnet upgrade_order st = (Inr (), daisugi_state sample_sizes devnet st)"
proof -
  have e: "current_epoch sample_sizes st = 10" "current_epoch sample_sizes (daisugi_state sample_sizes devnet st) = 10"
    using assms(2) by (simp_all add: current_epoch_def epoch_of_def daisugi_state_def)
  show ?thesis
    using assms(1) by (simp add: upgrade_order_def maybe_upgrade_def step_bind_def step_err_def step_get_def
        devnet_epochs e upgrade_to_def upgrade_to_daisugi_eq)
qed

lemma sample_advances: "\<exists>st'. per_slot_processing slot_x sample_sizes devnet None sample_state = (Inr (Some ()), st')"
proof -
  obtain st1 where st1: "cache_state slot_x None sample_state = (Inr (), st1)" using sample_cached by blast
  then have k: "state_slot st1 = 319" "st_variant st1 = Electra"
    using cache_state_keeps sample_history by metis+
  have fork: "state_fork_name sample_sizes devnet sample_state = Inr Electra"
    by (simp add: state_fork_name_def fork_name_unchecked_def sample_epoch sample_history devnet_forks)
  have ends: "ends_epoch sample_sizes devnet st1 = Inr True"
    by (simp add: ends_epoch_def k devnet_groups mainnet_constants_def safe_add_def safe_rem_def ok_or_def)
  have avail: "unset_next_availability sample_sizes st1 = (Inr (), st1)"
    by (simp add: unset_next_availability_def step_try_def fork_name_unchecked_def k enabled_defs fork_order)
  have add: "add_slot st1 = (Inr (), set_slot 320 st1)" by (simp add: add_slot_Inr k)
  have starts: "starts_epoch sample_sizes (set_slot 320 st1) = Inr True"
    by (simp add: starts_epoch_def safe_rem_def ok_or_def)
  show ?thesis
    using sample_upgrades [of "set_slot 320 st1"] k
    by (simp add: per_slot_processing_def step_bind_def step_get_def step_err_def st1 fork ends avail add starts)
qed

lemma per_slot_fork_consistent_witness: "\<exists>st'. per_slot_processing slot_x sample_sizes devnet None sample_state
     = (Inr (Some ()), st') \<and> st_variant st' = Daisugi"
proof -
  obtain st' where st': "per_slot_processing slot_x sample_sizes devnet None sample_state = (Inr (Some ()), st')"
    using sample_advances by blast
  have "fork_name_at_slot mainnet_e devnet 320 = Daisugi"
    by (simp add: fork_name_at_slot_def epoch_of_def devnet_forks)
  then show ?thesis using per_slot_fork_consistent [OF sample_lawful st'] st'
    by (auto simp: sample_history)
qed

end
