(* ===== verification/Frame_Envelope.thy ===== *)
theory Frame_Envelope
  imports Prelude
begin

text \<open>
  The blob hashes that an execution payload commits to
  (\<open>beacon_node/execution_layer/src/versioned_hashes.rs\<close>). A transaction of type 6 is a frame
  transaction, whose envelope the file parses itself; the other types are decoded by the
  transaction library.

  The RLP library is the record \<open>rlp\<close>: its functions read from the front of a buffer and return
  the rest, or the text of their error. The loop over the blob hashes ends because every item takes
  bytes off the buffer, which is a property of the library: the loop is a partial function, and
  \<open>None\<close> is a loop that does not end.
\<close>

section \<open>The libraries\<close>

type_synonym hash32 = "byte list"

record rlp =
  rx_decode_header :: "byte list \<Rightarrow> string + (bool \<times> nat) \<times> byte list"
  rx_decode_bytes :: "byte list \<Rightarrow> bool \<Rightarrow> string + byte list \<times> byte list"
  rx_decode_u64 :: "byte list \<Rightarrow> string + 64 word \<times> byte list"
  rx_encode_header :: "bool \<times> nat \<Rightarrow> byte list"
  rx_encode_bytes :: "byte list \<Rightarrow> byte list"
  rx_encode_u64 :: "64 word \<Rightarrow> byte list"

text \<open>\<open>TxEnvelope\<close>: only the blob hashes of one variant are read.\<close>

datatype tx_envelope = Eip4844 "hash32 list" | Other_Tx

datatype versioned_error =
    DecodingTransaction string
  | LengthMismatch nat nat
  | VersionHashMismatch hash32 hash32

section \<open>The envelope of a frame transaction\<close>

text \<open>\<open>for _ in 0..3\<close>.\<close>

fun frame_fees :: "rlp \<Rightarrow> nat \<Rightarrow> byte list \<Rightarrow> string + byte list" where
  "frame_fees A 0 fees = Inr fees"
| "frame_fees A (Suc n) fees =
     rbind (rx_decode_bytes A fees False) (\<lambda>(fee, fees).
     if length fee > 32 \<or> (fee \<noteq> [] \<and> hd fee = 0) then Inl ''Invalid frame fee''
     else frame_fees A n fees)"

partial_function (option) frame_blobs ::
  "rlp \<Rightarrow> byte list \<Rightarrow> hash32 list \<Rightarrow> (string + hash32 list) option" where
  "frame_blobs A blobs hashes =
     (if blobs = [] then Some (Inr hashes)
      else (case rx_decode_bytes A blobs False of
          Inl e \<Rightarrow> Some (Inl e)
        | Inr (bytes, blobs) \<Rightarrow>
            if length bytes \<noteq> 32 then Some (Inl ''Invalid frame blob hash length'')
            else frame_blobs A blobs (hashes @ [bytes])))"

text \<open>The fields from the sender to the blob hashes: the items of the hashes and the fields after
  them; the nonce, which a list of keys may precede; then the envelope.\<close>

definition frame_fields :: "rlp \<Rightarrow> byte list \<Rightarrow> string + byte list \<times> byte list" where
  "frame_fields A body =
     rbind (rx_decode_bytes A body False) (\<lambda>(sender, body).
     rbind (rcheck (length sender = 20) ''Invalid frame sender'') (\<lambda>_.
     rbind (rx_decode_bytes A body True) (\<lambda>(frames, body).
     rbind (rx_decode_bytes A body True) (\<lambda>(signatures, body).
     rbind (rx_decode_bytes A body True) (\<lambda>(fees, body).
     rbind (frame_fees A 3 fees) (\<lambda>fees.
     rbind (rcheck (fees = []) ''Unexpected frame fee field'') (\<lambda>_.
     rx_decode_bytes A body True)))))))"

definition frame_nonce :: "rlp \<Rightarrow> byte list \<Rightarrow> string + byte list \<times> byte list" where
  "frame_nonce A body =
     rbind (if body \<noteq> [] \<and> hd body \<ge> 0xC0
            then rbind (rx_decode_bytes A body True) (\<lambda>(keys, body). Inr body)
            else Inr body) (\<lambda>body.
     rbind (rx_decode_u64 A body) (\<lambda>(nonce, body).
     frame_fields A body))"

definition frame_head :: "rlp \<Rightarrow> byte list \<Rightarrow> string + byte list \<times> byte list" where
  "frame_head A encoded =
     rbind (rx_decode_bytes A encoded True) (\<lambda>(body, encoded).
     rbind (rcheck (encoded = []) ''Trailing frame transaction bytes'') (\<lambda>_.
     rbind (rx_decode_u64 A body) (\<lambda>(chain_id, body).
     frame_nonce A body)))"

definition frame_tail :: "rlp \<Rightarrow> byte list \<Rightarrow> hash32 list \<Rightarrow> string + hash32 list" where
  "frame_tail A body hashes =
     rbind (if body \<noteq> []
            then rbind (rx_decode_bytes A body True) (\<lambda>(references, body). Inr body)
            else Inr body) (\<lambda>body.
     rbind (rcheck (body = []) ''Unexpected frame transaction field'') (\<lambda>_.
     Inr hashes))"

definition frame_versioned_hashes :: "rlp \<Rightarrow> byte list \<Rightarrow> (string + hash32 list) option" where
  "frame_versioned_hashes A encoded =
     (case frame_head A encoded of
        Inl e \<Rightarrow> Some (Inl e)
      | Inr (blobs, body) \<Rightarrow>
          (case frame_blobs A blobs [] of
             None \<Rightarrow> None
           | Some (Inl e) \<Rightarrow> Some (Inl e)
           | Some (Inr hashes) \<Rightarrow> Some (frame_tail A body hashes)))"

section \<open>The transactions of a payload\<close>

definition tx_versioned_hashes ::
  "rlp \<Rightarrow> (byte list \<Rightarrow> string + tx_envelope) \<Rightarrow> byte list \<Rightarrow> (versioned_error + hash32 list) option" where
  "tx_versioned_hashes A decode tx =
     (if tx \<noteq> [] \<and> hd tx = 6 then
        map_option (map_err DecodingTransaction) (frame_versioned_hashes A (tl tx))
      else Some (case decode tx of
          Inl e \<Rightarrow> Inl (DecodingTransaction e)
        | Inr (Eip4844 hashes) \<Rightarrow> Inr hashes
        | Inr Other_Tx \<Rightarrow> Inr []))"

fun extract_versioned_hashes ::
  "rlp \<Rightarrow> (byte list \<Rightarrow> string + tx_envelope) \<Rightarrow> byte list list \<Rightarrow> hash32 list
     \<Rightarrow> (versioned_error + hash32 list) option" where
  "extract_versioned_hashes A decode [] hashes = Some (Inr hashes)"
| "extract_versioned_hashes A decode (tx # txs) hashes =
     (case tx_versioned_hashes A decode tx of
        None \<Rightarrow> None
      | Some (Inl e) \<Rightarrow> Some (Inl e)
      | Some (Inr new) \<Rightarrow> extract_versioned_hashes A decode txs (hashes @ new))"

fun compare_hashes :: "(hash32 \<times> hash32) list \<Rightarrow> versioned_error + unit" where
  "compare_hashes [] = Inr ()"
| "compare_hashes ((found, expected) # hs) =
     (if found \<noteq> expected then Inl (VersionHashMismatch expected found) else compare_hashes hs)"

definition verify_versioned_hashes ::
  "rlp \<Rightarrow> (byte list \<Rightarrow> string + tx_envelope) \<Rightarrow> byte list list \<Rightarrow> hash32 list
     \<Rightarrow> (versioned_error + unit) option" where
  "verify_versioned_hashes A decode transactions expected =
     (case extract_versioned_hashes A decode transactions [] of
        None \<Rightarrow> None
      | Some (Inl e) \<Rightarrow> Some (Inl e)
      | Some (Inr hashes) \<Rightarrow> Some
          (if length hashes \<noteq> length expected then Inl (LengthMismatch (length expected) (length hashes))
           else compare_hashes (zip hashes expected)))"

section \<open>The grammar of the envelope\<close>

text \<open>What is relied on, for buffers of less than \<open>2 ^ 64\<close> bytes: the library's decoders accept
  exactly the output of its encoders, an item is not empty and not shorter than its payload, and the
  first byte tells lists from strings.\<close>

definition rlp_item :: "rlp \<Rightarrow> bool \<Rightarrow> byte list \<Rightarrow> byte list" where
  "rlp_item A is_list payload =
     (if is_list then rx_encode_header A (True, length payload) @ payload else rx_encode_bytes A payload)"

abbreviation fits :: "byte list \<Rightarrow> bool" where
  "fits bs \<equiv> length bs < 2 ^ 64"

definition rlp_lawful :: "rlp \<Rightarrow> bool" where
  "rlp_lawful A \<longleftrightarrow>
     (\<forall>bs is_list payload rest. fits bs \<longrightarrow>
        rx_decode_bytes A bs is_list = Inr (payload, rest) \<longleftrightarrow> bs = rlp_item A is_list payload @ rest) \<and>
     (\<forall>bs n rest. fits bs \<longrightarrow>
        rx_decode_u64 A bs = Inr (n, rest) \<longleftrightarrow> bs = rx_encode_u64 A n @ rest) \<and>
     (\<forall>payload. fits payload \<longrightarrow> rlp_item A True payload \<noteq> [] \<and> hd (rlp_item A True payload) \<ge> 0xC0) \<and>
     (\<forall>payload. fits payload \<longrightarrow> rlp_item A False payload \<noteq> [] \<and> hd (rlp_item A False payload) < 0xC0) \<and>
     (\<forall>payload. length payload \<le> length (rlp_item A False payload)) \<and>
     (\<forall>n. rx_encode_u64 A n \<noteq> [] \<and> hd (rx_encode_u64 A n) < 0xC0) \<and>
     (\<forall>payload rest. fits (rlp_item A True payload @ rest) \<longrightarrow>
        rx_decode_header A (rlp_item A True payload @ rest) = Inr ((True, length payload), payload @ rest))"

text \<open>The fields of a frame transaction that the parser distinguishes.\<close>

record frame_tx =
  fr_chain_id :: "64 word"
  fr_keys :: "byte list option"
  fr_nonce :: "64 word"
  fr_sender :: "byte list"
  fr_frames :: "byte list"
  fr_signatures :: "byte list"
  fr_fees :: "byte list list"
  fr_blobs :: "hash32 list"
  fr_references :: "byte list option"

definition fee_ok :: "byte list \<Rightarrow> bool" where
  "fee_ok fee \<longleftrightarrow> length fee \<le> 32 \<and> (fee = [] \<or> hd fee \<noteq> 0)"

definition frame_ok :: "frame_tx \<Rightarrow> bool" where
  "frame_ok f \<longleftrightarrow> length (fr_sender f) = 20 \<and> length (fr_fees f) = 3 \<and> list_all fee_ok (fr_fees f) \<and>
     list_all (\<lambda>h. length h = 32) (fr_blobs f)"

definition opt_list :: "rlp \<Rightarrow> byte list option \<Rightarrow> byte list" where
  "opt_list A x = (case x of None \<Rightarrow> [] | Some payload \<Rightarrow> rlp_item A True payload)"

definition encode_frame :: "rlp \<Rightarrow> frame_tx \<Rightarrow> byte list" where
  "encode_frame A f = rlp_item A True
     (rx_encode_u64 A (fr_chain_id f) @ opt_list A (fr_keys f) @ rx_encode_u64 A (fr_nonce f) @
      rlp_item A False (fr_sender f) @ rlp_item A True (fr_frames f) @ rlp_item A True (fr_signatures f) @
      rlp_item A True (concat (map (rlp_item A False) (fr_fees f))) @
      rlp_item A True (concat (map (rlp_item A False) (fr_blobs f))) @ opt_list A (fr_references f))"

end
