(* ===== verification/Exec_Payload.thy ===== *)
theory Exec_Payload
  imports Beacon_State Frame_Envelope Wire
begin

text \<open>
  Execution payloads that carry a recursive proof: \<open>RecursiveProof\<close> and the candidate containers of
  \<open>types/src/execution/aggregate_payload.rs\<close>, the payload of \<open>execution_payload.rs\<close> and the
  header made from it in \<open>execution_payload_header.rs\<close>, the block hash of
  \<open>execution_layer/src/block_hash.rs\<close> and \<open>aggregate_block_hash.rs\<close>, and the checks of
  \<open>engine_api/new_payload_request.rs\<close>. The variants of a payload are a fork name beside one
  record of all fields.
\<close>

section \<open>Payloads\<close>

record 'w exec_payload =
  ep_variant :: fork_name
  ep_parent_hash :: root
  ep_fee_recipient :: "byte list"
  ep_state_root :: root
  ep_receipts_root :: root
  ep_logs_bloom :: "byte list"
  ep_prev_randao :: root
  ep_block_number :: u64
  ep_gas_limit :: u64
  ep_gas_used :: u64
  ep_timestamp :: u64
  ep_extra_data :: "byte list"
  ep_base_fee_per_gas :: nat
  ep_block_hash :: root
  ep_transactions :: "byte list list"
  ep_withdrawals :: "'w list"
  ep_blob_gas_used :: u64
  ep_excess_blob_gas :: u64
  ep_recursive_stark_proof :: "byte list"
  ep_recursive_stark_block_deps_hash :: root
  ep_block_access_list :: "byte list"
  ep_slot_number :: slot

text \<open>The partial getters that the code uses.\<close>

definition payload_withdrawals :: "'w exec_payload \<Rightarrow> 'w list option" where
  "payload_withdrawals p = (if capella_enabled (ep_variant p) then Some (ep_withdrawals p) else None)"

definition payload_blob_gas_used :: "'w exec_payload \<Rightarrow> u64 option" where
  "payload_blob_gas_used p = (if deneb_enabled (ep_variant p) then Some (ep_blob_gas_used p) else None)"

definition payload_excess_blob_gas :: "'w exec_payload \<Rightarrow> u64 option" where
  "payload_excess_blob_gas p = (if deneb_enabled (ep_variant p) then Some (ep_excess_blob_gas p) else None)"

section \<open>Recursive proofs\<close>

definition MAX_RECURSIVE_PROOF_BYTES :: nat where "MAX_RECURSIVE_PROOF_BYTES = 8 * 1024 * 1024"

text \<open>\<open>VariableList<u8, U8388608>\<close> holds at most \<open>2 ^ 23\<close> bytes.\<close>

definition recursive_proof_try_from :: "byte list \<Rightarrow> string + byte list" where
  "recursive_proof_try_from bytes =
     (if bytes = [] then Inl ''Recursive proof must not be empty''
      else if length bytes > 8388608 then Inl ''Recursive proof exceeds 8 MiB''
      else Inr bytes)"

definition recursive_proof_from_ssz_bytes :: "(byte list \<Rightarrow> string + byte list) \<Rightarrow> byte list \<Rightarrow> string + byte list" where
  "recursive_proof_from_ssz_bytes var_list bytes =
     (if bytes = [] then Inl ''Recursive proof must not be empty'' else var_list bytes)"

definition recursive_proof_deserialize :: "('j \<Rightarrow> string + byte list) \<Rightarrow> 'j \<Rightarrow> string + byte list" where
  "recursive_proof_deserialize hex_var_list value =
     rbind (hex_var_list value) (\<lambda>bytes.
     if bytes = [] then Inl ''Recursive proof must not be empty'' else Inr bytes)"

definition recursive_proof_default :: "byte list outcome" where
  "recursive_proof_default =
     expect (result_ok (recursive_proof_try_from [0x4E, 0x4C, 0x52, 0x33, 0, 0, 0, 0, 0, 0, 0, 0]))"

section \<open>Containers and headers\<close>

text \<open>The tree hashes are library code; a derived tree hash combines the roots of the fields.\<close>

record 'w tree_hashes =
  th_transactions :: "byte list list \<Rightarrow> root"
  th_withdrawals :: "'w list \<Rightarrow> root"
  th_bytes :: "byte list \<Rightarrow> root"
  th_payload :: "'w exec_payload \<Rightarrow> root"
  th_header :: "exec_header \<Rightarrow> root"
  th_container :: "root list \<Rightarrow> root"

definition header_from_electra :: "'w tree_hashes \<Rightarrow> 'w exec_payload \<Rightarrow> exec_header" where
  "header_from_electra T p = \<lparr>
     eh_parent_hash = ep_parent_hash p,
     eh_fee_recipient = ep_fee_recipient p,
     eh_state_root = ep_state_root p,
     eh_receipts_root = ep_receipts_root p,
     eh_logs_bloom = ep_logs_bloom p,
     eh_prev_randao = ep_prev_randao p,
     eh_block_number = ep_block_number p,
     eh_gas_limit = ep_gas_limit p,
     eh_gas_used = ep_gas_used p,
     eh_timestamp = ep_timestamp p,
     eh_extra_data = ep_extra_data p,
     eh_base_fee_per_gas = ep_base_fee_per_gas p,
     eh_block_hash = ep_block_hash p,
     eh_transactions_root = th_transactions T (ep_transactions p),
     eh_withdrawals_root = th_withdrawals T (ep_withdrawals p),
     eh_blob_gas_used = ep_blob_gas_used p,
     eh_excess_blob_gas = ep_excess_blob_gas p,
     eh_recursive_stark_proof_root = replicate 32 0,
     eh_recursive_stark_block_deps_hash = replicate 32 0\<rparr>"

definition header_from_daisugi :: "'w tree_hashes \<Rightarrow> 'w exec_payload \<Rightarrow> exec_header" where
  "header_from_daisugi T p = \<lparr>
     eh_parent_hash = ep_parent_hash p,
     eh_fee_recipient = ep_fee_recipient p,
     eh_state_root = ep_state_root p,
     eh_receipts_root = ep_receipts_root p,
     eh_logs_bloom = ep_logs_bloom p,
     eh_prev_randao = ep_prev_randao p,
     eh_block_number = ep_block_number p,
     eh_gas_limit = ep_gas_limit p,
     eh_gas_used = ep_gas_used p,
     eh_timestamp = ep_timestamp p,
     eh_extra_data = ep_extra_data p,
     eh_base_fee_per_gas = ep_base_fee_per_gas p,
     eh_block_hash = ep_block_hash p,
     eh_transactions_root = th_transactions T (ep_transactions p),
     eh_withdrawals_root = th_withdrawals T (ep_withdrawals p),
     eh_blob_gas_used = ep_blob_gas_used p,
     eh_excess_blob_gas = ep_excess_blob_gas p,
     eh_recursive_stark_proof_root = th_bytes T (ep_recursive_stark_proof p),
     eh_recursive_stark_block_deps_hash = ep_recursive_stark_block_deps_hash p\<rparr>"

record 'w aggregate_payload =
  ap_payload :: "'w exec_payload"
  ap_recursive_stark_proof :: "byte list"
  ap_recursive_stark_block_deps_hash :: root

record aggregate_header =
  ah_payload :: exec_header
  ah_recursive_stark_proof_root :: root
  ah_recursive_stark_block_deps_hash :: root

definition aggregate_to_header :: "'w tree_hashes \<Rightarrow> 'w aggregate_payload \<Rightarrow> aggregate_header" where
  "aggregate_to_header T a = \<lparr>
     ah_payload = header_from_electra T (ap_payload a),
     ah_recursive_stark_proof_root = th_bytes T (ap_recursive_stark_proof a),
     ah_recursive_stark_block_deps_hash = ap_recursive_stark_block_deps_hash a\<rparr>"

definition aggregate_payload_root :: "'w tree_hashes \<Rightarrow> 'w aggregate_payload \<Rightarrow> root" where
  "aggregate_payload_root T a = th_container T [th_payload T (ap_payload a),
     th_bytes T (ap_recursive_stark_proof a), ap_recursive_stark_block_deps_hash a]"

definition aggregate_header_root :: "'w tree_hashes \<Rightarrow> aggregate_header \<Rightarrow> root" where
  "aggregate_header_root T h = th_container T [th_header T (ah_payload h),
     ah_recursive_stark_proof_root h, ah_recursive_stark_block_deps_hash h]"

definition header_accepts :: "'w tree_hashes \<Rightarrow> aggregate_header \<Rightarrow> 'w aggregate_payload \<Rightarrow> bool" where
  "header_accepts T h a \<longleftrightarrow> aggregate_header_root T h = aggregate_payload_root T a"

section \<open>The block hash\<close>

text \<open>The record of the hash functions and of \<open>ExecutionBlockHeader\<close>: \<open>bx_from_payload\<close> takes
  the payload, the ommers hash, the roots of the transactions and withdrawals, the blob gas, the
  parent beacon block root and the requests hash.\<close>

record ('w, 'h, 'q) block_externals =
  bx_rlp :: rlp
  bx_keccak256 :: "byte list \<Rightarrow> root"
  bx_ordered_trie_root :: "byte list list \<Rightarrow> root"
  bx_empty_list_rlp :: root
  bx_rlp_encode_withdrawal :: "'w \<Rightarrow> byte list"
  bx_requests_hash :: "'q \<Rightarrow> root"
  bx_from_payload :: "'w exec_payload \<Rightarrow> root \<Rightarrow> root \<Rightarrow> root option \<Rightarrow> u64 option \<Rightarrow> u64 option
    \<Rightarrow> root option \<Rightarrow> root option \<Rightarrow> 'h"
  bx_rlp_encode_block_header :: "'h \<Rightarrow> byte list"
  bx_decode_envelope :: "byte list \<Rightarrow> string + tx_envelope"

text \<open>The proof fields behind the base header: absent access list and slot, then the tuple.\<close>

definition proof_fields :: "rlp \<Rightarrow> byte list \<Rightarrow> root \<Rightarrow> byte list" where
  "proof_fields A proofs commitment = [0x80, 0x80] @
     rx_encode_header A (True, length (rx_encode_bytes A proofs) + length (rx_encode_bytes A commitment)) @
     rx_encode_bytes A proofs @ rx_encode_bytes A commitment"

definition wrap_list :: "rlp \<Rightarrow> byte list \<Rightarrow> byte list" where
  "wrap_list A body = rx_encode_header A (True, length body) @ body"

definition daisugi_block_rlp :: "rlp \<Rightarrow> byte list \<Rightarrow> 'w exec_payload \<Rightarrow> byte list outcome" where
  "daisugi_block_rlp A base p =
     obind (expect (result_ok (rx_decode_header A base))) (\<lambda>(prefix, body).
     Value (wrap_list A
       (body @ proof_fields A (ep_recursive_stark_proof p) (ep_recursive_stark_block_deps_hash p))))"

definition execution_block_rlp ::
  "('w, 'h, 'q) block_externals \<Rightarrow> 'w exec_payload \<Rightarrow> root option \<Rightarrow> 'q option \<Rightarrow> byte list outcome" where
  "execution_block_rlp X p parent_root requests =
     (let withdrawals_root = map_option (\<lambda>ws. bx_ordered_trie_root X (map (bx_rlp_encode_withdrawal X) ws))
            (payload_withdrawals p);
          header = bx_from_payload X p (bx_empty_list_rlp X) (bx_ordered_trie_root X (ep_transactions p))
            withdrawals_root (payload_blob_gas_used p) (payload_excess_blob_gas p) parent_root
            (map_option (bx_requests_hash X) requests);
          base = bx_rlp_encode_block_header X header
      in if ep_variant p = Daisugi then daisugi_block_rlp (bx_rlp X) base p else Value base)"

definition calculate_execution_block_hash ::
  "('w, 'h, 'q) block_externals \<Rightarrow> 'w exec_payload \<Rightarrow> root option \<Rightarrow> 'q option \<Rightarrow> (root \<times> root) outcome" where
  "calculate_execution_block_hash X p parent_root requests =
     obind (execution_block_rlp X p parent_root requests) (\<lambda>encoded.
     Value (bx_keccak256 X encoded, bx_ordered_trie_root X (ep_transactions p)))"

definition aggregate_execution_block_hash ::
  "('w, 'h, 'q) block_externals \<Rightarrow> 'w aggregate_payload \<Rightarrow> root \<Rightarrow> 'q \<Rightarrow> (string + root) outcome" where
  "aggregate_execution_block_hash X a parent_root requests =
     (let base = ap_payload a in
      obind (calculate_execution_block_hash X base (Some parent_root) (Some requests)) (\<lambda>(_, tx_root).
      let withdrawals_root = bx_ordered_trie_root X (map (bx_rlp_encode_withdrawal X) (ep_withdrawals base));
          header = bx_from_payload X base (bx_empty_list_rlp X) tx_root (Some withdrawals_root)
            (Some (ep_blob_gas_used base)) (Some (ep_excess_blob_gas base)) (Some parent_root)
            (Some (bx_requests_hash X requests));
          legacy = bx_rlp_encode_block_header X header
      in Value (rbind (rx_decode_header (bx_rlp X) legacy) (\<lambda>((is_list, payload_length), content).
           if \<not> is_list \<or> payload_length \<noteq> length content then Inl ''Invalid base header''
           else Inr (bx_keccak256 X (wrap_list (bx_rlp X) (content @ proof_fields (bx_rlp X)
             (ap_recursive_stark_proof a) (ap_recursive_stark_block_deps_hash a))))))))"

section \<open>Requests for new payloads\<close>

record ('w, 'q) payload_request =
  nr_payload :: "'w exec_payload"
  nr_versioned_hashes :: "hash32 list"
  nr_parent_beacon_block_root :: root
  nr_execution_requests :: 'q

abbreviation nr_variant :: "('w, 'q) payload_request \<Rightarrow> fork_name" where
  "nr_variant r \<equiv> ep_variant (nr_payload r)"

definition request_versioned_hashes :: "('w, 'q) payload_request \<Rightarrow> hash32 list option" where
  "request_versioned_hashes r = (if deneb_enabled (nr_variant r) then Some (nr_versioned_hashes r) else None)"

definition request_parent_root :: "('w, 'q) payload_request \<Rightarrow> root option" where
  "request_parent_root r =
     (if deneb_enabled (nr_variant r) then Some (nr_parent_beacon_block_root r) else None)"

definition request_requests :: "('w, 'q) payload_request \<Rightarrow> 'q option" where
  "request_requests r = (if electra_enabled (nr_variant r) then Some (nr_execution_requests r) else None)"

datatype request_error =
    ZeroLengthTransaction
  | BlockHashMismatch root root root
  | VerifyingVersionedHashes versioned_error

definition verify_payload_block_hash ::
  "('w, 'h, 'q) block_externals \<Rightarrow> ('w, 'q) payload_request \<Rightarrow> (request_error + unit) outcome" where
  "verify_payload_block_hash X r =
     (let p = nr_payload r in
      if list_ex (\<lambda>tx. tx = []) (ep_transactions p) then Value (Inl ZeroLengthTransaction)
      else obind (calculate_execution_block_hash X p (request_parent_root r) (request_requests r))
        (\<lambda>(header_hash, tx_root). Value
          (if header_hash \<noteq> ep_block_hash p then Inl (BlockHashMismatch header_hash (ep_block_hash p) tx_root)
           else Inr ())))"

text \<open>\<open>None\<close> is a loop over blob hashes that does not end.\<close>

definition request_verify_versioned_hashes ::
  "('w, 'h, 'q) block_externals \<Rightarrow> ('w, 'q) payload_request \<Rightarrow> (request_error + unit) option" where
  "request_verify_versioned_hashes X r =
     (case request_versioned_hashes r of
        None \<Rightarrow> Some (Inr ())
      | Some hashes \<Rightarrow> map_option (map_err VerifyingVersionedHashes)
          (verify_versioned_hashes (bx_rlp X) (bx_decode_envelope X) (ep_transactions (nr_payload r)) hashes))"

definition perform_optimistic_sync_verifications ::
  "('w, 'h, 'q) block_externals \<Rightarrow> ('w, 'q) payload_request \<Rightarrow> (request_error + unit) outcome option" where
  "perform_optimistic_sync_verifications X r =
     (case verify_payload_block_hash X r of
        Crash \<Rightarrow> Some Crash
      | Value (Inl e) \<Rightarrow> Some (Value (Inl e))
      | Value (Inr _) \<Rightarrow> map_option Value (request_verify_versioned_hashes X r))"

text \<open>The request made from a block; \<open>bb_variant\<close> is the variant of the block.\<close>

record ('w, 'q, 'c) beacon_block_parts =
  bb_variant :: fork_name
  bb_parent_root :: root
  bb_payload :: "'w exec_payload"
  bb_blob_kzg_commitments :: "'c list"
  bb_execution_requests :: 'q

definition request_from_block ::
  "('c \<Rightarrow> hash32) \<Rightarrow> ('w, 'q, 'c) beacon_block_parts \<Rightarrow> state_error + ('w, 'q) payload_request" where
  "request_from_block kzg_commitment_to_versioned_hash b =
     (if bb_variant b \<in> {Base, Altair, Gloas} then Inl BSE_IncorrectStateVariant
      else Inr \<lparr>nr_payload = bb_payload b,
        nr_versioned_hashes = map kzg_commitment_to_versioned_hash (bb_blob_kzg_commitments b),
        nr_parent_beacon_block_root = bb_parent_root b,
        nr_execution_requests = bb_execution_requests b\<rparr>)"

definition request_from_payload ::
  "'q \<Rightarrow> 'w exec_payload \<Rightarrow> state_error + ('w, 'q) payload_request" where
  "request_from_payload none p =
     (if ep_variant p \<in> {Bellatrix, Capella}
      then Inr \<lparr>nr_payload = p, nr_versioned_hashes = [], nr_parent_beacon_block_root = [],
        nr_execution_requests = none\<rparr>
      else Inl BSE_IncorrectStateVariant)"

section \<open>Engine JSON\<close>

text \<open>\<open>JsonAggregateExecutionPayload\<close>: the conversions of the Electra payload to and from its JSON
  structure are parameters.\<close>

record 'j json_aggregate =
  ja_payload :: 'j
  ja_recursive_stark_proof :: "byte list"
  ja_recursive_stark_block_deps_hash :: root

definition aggregate_from_json ::
  "('j \<Rightarrow> string + 'w exec_payload) \<Rightarrow> 'j json_aggregate \<Rightarrow> string + 'w aggregate_payload" where
  "aggregate_from_json from_json value = rbind (from_json (ja_payload value)) (\<lambda>p.
     Inr \<lparr>ap_payload = p, ap_recursive_stark_proof = ja_recursive_stark_proof value,
       ap_recursive_stark_block_deps_hash = ja_recursive_stark_block_deps_hash value\<rparr>)"

definition aggregate_to_json ::
  "('w exec_payload \<Rightarrow> string + 'j) \<Rightarrow> 'w aggregate_payload \<Rightarrow> string + 'j json_aggregate" where
  "aggregate_to_json to_json value = rbind (to_json (ap_payload value)) (\<lambda>p.
     Inr \<lparr>ja_payload = p, ja_recursive_stark_proof = ap_recursive_stark_proof value,
       ja_recursive_stark_block_deps_hash = ap_recursive_stark_block_deps_hash value\<rparr>)"

end
