(* ===== verification/Frame_Facts.thy ===== *)
theory Frame_Facts
  imports Frame_Envelope
begin

text \<open>
  The frame parser accepts exactly the envelopes of the grammar and returns their blob hashes, and
  the check of a payload's hashes is equality with the hashes its transactions commit to.
\<close>

section \<open>The library's laws\<close>

lemma item_length: "rlp_lawful A \<Longrightarrow> length payload \<le> length (rlp_item A is_list payload)"
  by (cases is_list) (simp_all add: rlp_lawful_def rlp_item_def)

lemma fits_payload: "rlp_lawful A \<Longrightarrow> fits (rlp_item A is_list payload) \<Longrightarrow> fits payload"
  using item_length le_less_trans by blast

lemma item_nonempty: "rlp_lawful A \<Longrightarrow> fits payload \<Longrightarrow> rlp_item A is_list payload \<noteq> []"
  by (cases is_list) (simp_all add: rlp_lawful_def)

lemma item_head: "rlp_lawful A \<Longrightarrow> fits payload \<Longrightarrow> hd (rlp_item A is_list payload) \<ge> 0xC0 \<longleftrightarrow> is_list"
  by (cases is_list) (simp_all add: rlp_lawful_def not_le)

lemma u64_head: "rlp_lawful A \<Longrightarrow> rx_encode_u64 A n \<noteq> [] \<and> \<not> hd (rx_encode_u64 A n) \<ge> 0xC0"
  by (simp add: rlp_lawful_def not_le)

lemma decode_item: "rlp_lawful A \<Longrightarrow> fits (rlp_item A is_list payload @ rest) \<Longrightarrow>
    rx_decode_bytes A (rlp_item A is_list payload @ rest) is_list = Inr (payload, rest)"
  by (simp add: rlp_lawful_def)

lemma decode_u64: "rlp_lawful A \<Longrightarrow> fits (rx_encode_u64 A n @ rest) \<Longrightarrow>
    rx_decode_u64 A (rx_encode_u64 A n @ rest) = Inr (n, rest)"
  by (simp add: rlp_lawful_def)

lemma decode_bytes_Inr:
  assumes "rlp_lawful A" and "rx_decode_bytes A bs is_list = Inr (payload, rest)" and "fits bs"
  shows "bs = rlp_item A is_list payload @ rest \<and> fits payload \<and> fits rest \<and> length rest < length bs"
proof -
  have "bs = rlp_item A is_list payload @ rest" using assms by (simp add: rlp_lawful_def)
  moreover from this have "fits payload" using item_length [OF assms(1), of payload is_list] assms(3) by simp
  ultimately show ?thesis using assms(3) item_nonempty [OF assms(1), of payload is_list] by simp
qed

lemma decode_u64_Inr: "rlp_lawful A \<Longrightarrow> rx_decode_u64 A bs = Inr (n, rest) \<Longrightarrow> fits bs \<Longrightarrow>
    bs = rx_encode_u64 A n @ rest \<and> fits rest"
  by (auto simp: rlp_lawful_def)

section \<open>The loops\<close>

abbreviation items :: "rlp \<Rightarrow> byte list list \<Rightarrow> byte list" where
  "items A ps \<equiv> concat (map (rlp_item A False) ps)"

lemma frame_fees_Inr:
  assumes "rlp_lawful A" and "fits fees"
  shows "frame_fees A n fees = Inr rest \<longleftrightarrow>
    (\<exists>fs. length fs = n \<and> list_all fee_ok fs \<and> fees = items A fs @ rest)"
  using assms(2)
proof (induction n arbitrary: fees)
  case (Suc n)
  show ?case
  proof
    assume "frame_fees A (Suc n) fees = Inr rest"
    then obtain fee fees' where d: "rx_decode_bytes A fees False = Inr (fee, fees')" "fee_ok fee"
      "frame_fees A n fees' = Inr rest"
      by (auto simp: rbind_Inr fee_ok_def not_less split: if_splits)
    note w = decode_bytes_Inr [OF assms(1) d(1) Suc.prems]
    then obtain fs where "length fs = n" "list_all fee_ok fs" "fees' = items A fs @ rest"
      using Suc.IH d(3) by blast
    then show "\<exists>fs. length fs = Suc n \<and> list_all fee_ok fs \<and> fees = items A fs @ rest"
      using w d(2) by (intro exI [of _ "fee # fs"]) simp
  next
    assume "\<exists>fs. length fs = Suc n \<and> list_all fee_ok fs \<and> fees = items A fs @ rest"
    then obtain fee fs where f: "length fs = n" "fee_ok fee" "list_all fee_ok fs"
      "fees = rlp_item A False fee @ (items A fs @ rest)"
      by (auto simp: length_Suc_conv)
    then have "rx_decode_bytes A fees False = Inr (fee, items A fs @ rest)" "fits (items A fs @ rest)"
      using decode_item [OF assms(1)] Suc.prems by auto
    moreover from this have "frame_fees A n (items A fs @ rest) = Inr rest"
      using Suc.IH f(1,3) by blast
    moreover have "\<not> (length fee > 32 \<or> (fee \<noteq> [] \<and> hd fee = 0))"
      using f(2) by (auto simp: fee_ok_def)
    ultimately show "frame_fees A (Suc n) fees = Inr rest" by simp
  qed
qed simp

lemma frame_blobs_returns:
  assumes "rlp_lawful A" and "fits blobs"
  shows "\<exists>r. frame_blobs A blobs hashes = Some r"
  using assms(2)
proof (induction "length blobs" arbitrary: blobs hashes rule: less_induct)
  case less
  show ?case
  proof (cases "rx_decode_bytes A blobs False")
    case (Inr d)
    then obtain bytes rest where d: "rx_decode_bytes A blobs False = Inr (bytes, rest)" by (cases d) auto
    then have "\<exists>r. frame_blobs A rest (hashes @ [bytes]) = Some r"
      using decode_bytes_Inr [OF assms(1) d less.prems] less.hyps by blast
    then show ?thesis using d by (subst frame_blobs.simps) auto
  qed (subst frame_blobs.simps, simp)
qed

lemma frame_blobs_Inr:
  assumes "rlp_lawful A" and "fits blobs"
  shows "frame_blobs A blobs hashes = Some (Inr hs) \<longleftrightarrow>
    (\<exists>new. hs = hashes @ new \<and> list_all (\<lambda>h. length h = 32) new \<and> blobs = items A new)"
  using assms(2)
proof (induction "length blobs" arbitrary: blobs hashes rule: less_induct)
  case less
  show ?case
  proof
    assume run: "frame_blobs A blobs hashes = Some (Inr hs)"
    show "\<exists>new. hs = hashes @ new \<and> list_all (\<lambda>h. length h = 32) new \<and> blobs = items A new"
    proof (cases "blobs = []")
      case True
      then show ?thesis using run by (subst (asm) frame_blobs.simps) simp
    next
      case False
      then obtain bytes rest where d: "rx_decode_bytes A blobs False = Inr (bytes, rest)"
        "length bytes = 32" "frame_blobs A rest (hashes @ [bytes]) = Some (Inr hs)"
        using run by (subst (asm) frame_blobs.simps) (auto split: sum.splits if_splits)
      note w = decode_bytes_Inr [OF assms(1) d(1) less.prems]
      then obtain new where "hs = (hashes @ [bytes]) @ new" "list_all (\<lambda>h. length h = 32) new" "rest = items A new"
        using less.hyps d(3) by blast
      then show ?thesis using w d(2) by (intro exI [of _ "bytes # new"]) simp
    qed
  next
    assume "\<exists>new. hs = hashes @ new \<and> list_all (\<lambda>h. length h = 32) new \<and> blobs = items A new"
    then obtain new where new: "hs = hashes @ new" "list_all (\<lambda>h. length h = 32) new" "blobs = items A new"
      by blast
    show "frame_blobs A blobs hashes = Some (Inr hs)"
    proof (cases new)
      case Nil
      then show ?thesis using new by (subst frame_blobs.simps) simp
    next
      case (Cons h hs')
      then have b: "blobs = rlp_item A False h @ items A hs'" using new by simp
      have d: "rx_decode_bytes A blobs False = Inr (h, items A hs')"
        using decode_item [OF assms(1)] less.prems b by auto
      note w = decode_bytes_Inr [OF assms(1) d less.prems]
      have "0 < length blobs" using w by linarith
      moreover have "frame_blobs A (items A hs') (hashes @ [h]) = Some (Inr hs)"
        using less.hyps [of "items A hs'" "hashes @ [h]"] w new Cons by auto
      ultimately show ?thesis using d new Cons by (subst frame_blobs.simps) simp
    qed
  qed
qed


section \<open>The envelope\<close>

lemma opt_list_Inr:
  assumes "rlp_lawful A" and "fits body" and "body \<noteq> []"
    and "rx_decode_bytes A body True = Inr (payload, rest)"
  shows "body = opt_list A (Some payload) @ rest \<and> fits rest"
  using decode_bytes_Inr [OF assms(1,4,2)] by (simp add: opt_list_def)

text \<open>The nonce keys are present exactly when the next field is a list.\<close>

lemma frame_nonce_Inr:
  assumes "rlp_lawful A" and "fits body"
  shows "frame_nonce A body = Inr y \<longleftrightarrow> (\<exists>keys nonce rest.
    body = opt_list A keys @ rx_encode_u64 A nonce @ rest \<and> frame_fields A rest = Inr y)"
    (is "?l \<longleftrightarrow> ?r")
proof
  assume ?l
  then obtain keys body' nonce rest where "body = opt_list A keys @ body'" "fits body'"
    "rx_decode_u64 A body' = Inr (nonce, rest)" "frame_fields A rest = Inr y"
  proof (cases "body \<noteq> [] \<and> hd body \<ge> 0xC0")
    case True
    with \<open>?l\<close> obtain keys body' nonce rest where d: "rx_decode_bytes A body True = Inr (keys, body')"
      "rx_decode_u64 A body' = Inr (nonce, rest)" "frame_fields A rest = Inr y"
      by (auto simp: frame_nonce_def rbind_Inr)
    show thesis using that [of "Some keys" body' nonce rest] d opt_list_Inr [OF assms _ d(1)] True by simp
  next
    case False
    with \<open>?l\<close> obtain nonce rest where "rx_decode_u64 A body = Inr (nonce, rest)" "frame_fields A rest = Inr y"
      by (auto simp: frame_nonce_def rbind_Inr)
    then show thesis using that [of None body nonce rest] assms(2) by (simp add: opt_list_def)
  qed
  then show ?r using decode_u64_Inr [OF assms(1)] by blast
next
  assume ?r
  then obtain keys nonce rest where b: "body = opt_list A keys @ rx_encode_u64 A nonce @ rest" "frame_fields A rest = Inr y"
    by blast
  have d: "rx_decode_u64 A (rx_encode_u64 A nonce @ rest) = Inr (nonce, rest)"
    using decode_u64 [OF assms(1)] assms(2) b(1) by auto
  show ?l
  proof (cases keys)
    case None
    then show ?thesis using b d u64_head [OF assms(1), of nonce] by (simp add: frame_nonce_def opt_list_def)
  next
    case (Some payload)
    have f: "fits (rlp_item A True payload @ rx_encode_u64 A nonce @ rest)"
      using assms(2) b(1) Some by (simp add: opt_list_def)
    then have "fits payload" using item_length [OF assms(1), of payload True] by simp
    then show ?thesis using b d Some decode_item [OF assms(1) f] item_nonempty [OF assms(1), of payload True]
      item_head [OF assms(1), of payload True] by (simp add: frame_nonce_def opt_list_def)
  qed
qed

lemma frame_fields_Inr:
  assumes "rlp_lawful A" and "fits body"
  shows "frame_fields A body = Inr (blobs, tail) \<longleftrightarrow> (\<exists>sender frames signatures fees.
    body = rlp_item A False sender @ rlp_item A True frames @ rlp_item A True signatures @
      rlp_item A True (items A fees) @ rlp_item A True blobs @ tail \<and>
    length sender = 20 \<and> length fees = 3 \<and> list_all fee_ok fees)" (is "_ \<longleftrightarrow> ?r")
proof
  assume "frame_fields A body = Inr (blobs, tail)"
  then obtain sender b1 frames b2 signatures b3 fees b4 where
    d: "rx_decode_bytes A body False = Inr (sender, b1)" "rx_decode_bytes A b1 True = Inr (frames, b2)"
    "rx_decode_bytes A b2 True = Inr (signatures, b3)" "rx_decode_bytes A b3 True = Inr (fees, b4)"
    "rx_decode_bytes A b4 True = Inr (blobs, tail)"
    and s: "length sender = 20" and f: "frame_fees A 3 fees = Inr []"
    by (auto simp: frame_fields_def rbind_Inr rcheck_Inr)
  note w1 = decode_bytes_Inr [OF assms(1) d(1) assms(2)]
  note w2 = decode_bytes_Inr [OF assms(1) d(2)] note w3 = decode_bytes_Inr [OF assms(1) d(3)]
  note w4 = decode_bytes_Inr [OF assms(1) d(4)] note w5 = decode_bytes_Inr [OF assms(1) d(5)]
  have "fits fees" using w1 w2 w3 w4 by blast
  then obtain fs where "length fs = 3" "list_all fee_ok fs" "fees = items A fs"
    using f frame_fees_Inr [OF assms(1)] by auto
  moreover have "body = rlp_item A False sender @ rlp_item A True frames @ rlp_item A True signatures @
      rlp_item A True fees @ rlp_item A True blobs @ tail"
    using w1 w2 w3 w4 w5 by metis
  ultimately show ?r using s by blast
next
  assume ?r
  then obtain sender frames signatures fees where
    b: "body = rlp_item A False sender @ rlp_item A True frames @ rlp_item A True signatures @
      rlp_item A True (items A fees) @ rlp_item A True blobs @ tail"
    and s: "length sender = 20" and f: "length fees = 3" "list_all fee_ok fees" by blast
  have "fits (items A fees)"
    using assms(2) b item_length [OF assms(1), of "items A fees" True] by simp
  then have "frame_fees A 3 (items A fees) = Inr []" using frame_fees_Inr [OF assms(1)] f by auto
  then show "frame_fields A body = Inr (blobs, tail)"
    using assms b s decode_item [OF assms(1)] by (simp add: frame_fields_def)
qed

lemma frame_head_Inr:
  assumes "rlp_lawful A" and "fits encoded"
  shows "frame_head A encoded = Inr (blobs, tail) \<longleftrightarrow> (\<exists>chain keys nonce sender frames signatures fees.
    encoded = rlp_item A True (rx_encode_u64 A chain @ opt_list A keys @ rx_encode_u64 A nonce @
      rlp_item A False sender @ rlp_item A True frames @ rlp_item A True signatures @
      rlp_item A True (items A fees) @ rlp_item A True blobs @ tail) \<and>
    length sender = 20 \<and> length fees = 3 \<and> list_all fee_ok fees)" (is "_ \<longleftrightarrow> ?r")
proof
  assume "frame_head A encoded = Inr (blobs, tail)"
  then obtain body chain b1 where d: "rx_decode_bytes A encoded True = Inr (body, [])"
    "rx_decode_u64 A body = Inr (chain, b1)" "frame_nonce A b1 = Inr (blobs, tail)"
    by (auto simp: frame_head_def rbind_Inr rcheck_Inr)
  note w1 = decode_bytes_Inr [OF assms(1) d(1) assms(2)] note w2 = decode_u64_Inr [OF assms(1) d(2)]
  have "fits b1" using w1 w2 by blast
  from d(3) [unfolded frame_nonce_Inr [OF assms(1) this]] obtain keys nonce rest where
    b1: "b1 = opt_list A keys @ rx_encode_u64 A nonce @ rest" "frame_fields A rest = Inr (blobs, tail)" by blast
  have "fits rest" using \<open>fits b1\<close> b1(1) by simp
  from b1(2) [unfolded frame_fields_Inr [OF assms(1) this]] obtain sender frames signatures fees where
    r: "rest = rlp_item A False sender @ rlp_item A True frames @ rlp_item A True signatures @
      rlp_item A True (items A fees) @ rlp_item A True blobs @ tail"
    and s: "length sender = 20 \<and> length fees = 3 \<and> list_all fee_ok fees" by blast
  have "encoded = rlp_item A True (rx_encode_u64 A chain @ opt_list A keys @ rx_encode_u64 A nonce @ rest)"
    using w1 w2 b1(1) by simp
  then show ?r using s unfolding r by blast
next
  assume ?r
  then obtain chain keys nonce sender frames signatures fees where
    e: "encoded = rlp_item A True (rx_encode_u64 A chain @ opt_list A keys @ rx_encode_u64 A nonce @
      rlp_item A False sender @ rlp_item A True frames @ rlp_item A True signatures @
      rlp_item A True (items A fees) @ rlp_item A True blobs @ tail)" (is "_ = rlp_item A True (_ @ ?b1)")
    and s: "length sender = 20" "length fees = 3" "list_all fee_ok fees" by blast
  let ?rest = "rlp_item A False sender @ rlp_item A True frames @ rlp_item A True signatures @
      rlp_item A True (items A fees) @ rlp_item A True blobs @ tail"
  have f: "fits (rx_encode_u64 A chain @ ?b1)"
    by (rule fits_payload [OF assms(1), of True]) (use assms(2) in \<open>simp only: e\<close>)
  then have "fits ?b1" "fits ?rest" by simp_all
  then have "frame_fields A ?rest = Inr (blobs, tail)" using frame_fields_Inr [OF assms(1)] s by blast
  then have "frame_nonce A ?b1 = Inr (blobs, tail)" using frame_nonce_Inr [OF assms(1) \<open>fits ?b1\<close>] by blast
  then show "frame_head A encoded = Inr (blobs, tail)"
    using decode_u64 [OF assms(1) f] decode_item [OF assms(1), of True _ "[]"] assms(2) e
    by (simp add: frame_head_def)
qed

lemma frame_tail_Inr:
  assumes "rlp_lawful A" and "fits body"
  shows "frame_tail A body hashes = Inr hs \<longleftrightarrow> hs = hashes \<and> (\<exists>references. body = opt_list A references)"
proof -
  have some: "body = opt_list A (Some p) \<longleftrightarrow> rx_decode_bytes A body True = Inr (p, [])" for p
    using assms by (simp add: opt_list_def rlp_lawful_def)
  have "body \<noteq> []" if "body = opt_list A (Some p)" for p
    using that item_nonempty [OF assms(1)] item_length [OF assms(1), of p True] assms(2)
    by (auto simp: opt_list_def)
  then have "(\<exists>references. body = opt_list A references) \<longleftrightarrow>
      body = [] \<or> (body \<noteq> [] \<and> (\<exists>p. rx_decode_bytes A body True = Inr (p, [])))"
    unfolding some [symmetric] by (metis not_None_eq opt_list_def option.simps(4))
  then show ?thesis by (auto simp: frame_tail_def rbind_Inr rcheck_Inr)
qed

lemma frame_parts_fit:
  assumes "rlp_lawful A" and "fits encoded" and h: "frame_head A encoded = Inr (blobs, tail)"
  shows "fits blobs \<and> fits tail"
proof -
  obtain chain keys nonce sender frames signatures fees where
    e: "encoded = rlp_item A True (rx_encode_u64 A chain @ opt_list A keys @ rx_encode_u64 A nonce @
      rlp_item A False sender @ rlp_item A True frames @ rlp_item A True signatures @
      rlp_item A True (items A fees) @ rlp_item A True blobs @ tail)"
    using h [unfolded frame_head_Inr [OF assms(1,2)]] by blast
  have "fits (rlp_item A True blobs)" "fits tail"
    using fits_payload [OF assms(1), OF assms(2) [unfolded e]] by simp_all
  then show ?thesis using fits_payload [OF assms(1)] by blast
qed

lemma frame_returns:
  assumes "rlp_lawful A" and "fits encoded"
  shows "frame_versioned_hashes A encoded \<noteq> None"
proof (cases "frame_head A encoded")
  case (Inr d)
  obtain blobs tail where d: "d = (blobs, tail)" by (cases d)
  obtain r where "frame_blobs A blobs [] = Some r"
    using frame_blobs_returns [OF assms(1)] frame_parts_fit [OF assms] Inr d by blast
  then show ?thesis using Inr d by (simp add: frame_versioned_hashes_def split: sum.split)
qed (simp add: frame_versioned_hashes_def)

lemma frame_accepted:
  assumes "rlp_lawful A" and "fits encoded" and "frame_versioned_hashes A encoded = Some (Inr hs)"
  shows "\<exists>f. frame_ok f \<and> encoded = encode_frame A f \<and> hs = fr_blobs f"
proof -
  from assms(3) obtain blobs tail new where h: "frame_head A encoded = Inr (blobs, tail)"
    and b: "frame_blobs A blobs [] = Some (Inr new)" and r: "frame_tail A tail new = Inr hs"
    by (auto simp: frame_versioned_hashes_def split: sum.splits option.splits)
  note f = frame_parts_fit [OF assms(1,2) h]
  have "blobs = items A new" "list_all (\<lambda>h. length h = 32) new"
    using b frame_blobs_Inr [OF assms(1)] f by auto
  moreover obtain references where "hs = new" "tail = opt_list A references"
    using r frame_tail_Inr [OF assms(1)] f by auto
  moreover obtain chain keys nonce sender frames signatures fees where
    "encoded = rlp_item A True (rx_encode_u64 A chain @ opt_list A keys @ rx_encode_u64 A nonce @
      rlp_item A False sender @ rlp_item A True frames @ rlp_item A True signatures @
      rlp_item A True (items A fees) @ rlp_item A True blobs @ tail)"
    "length sender = 20" "length fees = 3" "list_all fee_ok fees"
    using h [unfolded frame_head_Inr [OF assms(1,2)]] by blast
  ultimately show ?thesis
    by (intro exI [of _ "\<lparr>fr_chain_id = chain, fr_keys = keys, fr_nonce = nonce, fr_sender = sender,
        fr_frames = frames, fr_signatures = signatures, fr_fees = fees, fr_blobs = new,
        fr_references = references\<rparr>"]) (simp add: frame_ok_def encode_frame_def)
qed

lemma frame_accepts:
  assumes "rlp_lawful A" and "fits encoded" and "frame_ok f" and "encoded = encode_frame A f"
  shows "frame_versioned_hashes A encoded = Some (Inr (fr_blobs f))"
proof -
  have h: "frame_head A encoded = Inr (items A (fr_blobs f), opt_list A (fr_references f))"
    unfolding frame_head_Inr [OF assms(1,2)]
    using assms(3,4) unfolding frame_ok_def encode_frame_def by blast
  note f = frame_parts_fit [OF assms(1,2) h]
  have "frame_blobs A (items A (fr_blobs f)) [] = Some (Inr (fr_blobs f))"
    using frame_blobs_Inr [OF assms(1)] f assms(3) by (auto simp: frame_ok_def)
  moreover have "frame_tail A (opt_list A (fr_references f)) (fr_blobs f) = Inr (fr_blobs f)"
    using frame_tail_Inr [OF assms(1)] f by blast
  ultimately show ?thesis using h by (simp add: frame_versioned_hashes_def)
qed

text \<open>
  C22. The frame parser accepts a byte string exactly when it is the envelope of
  a frame transaction: chain id, optional nonce keys, nonce, sender of 20 bytes, frames,
  signatures, three fees that are 32-byte integers without leading zeros, blob hashes of 32 bytes and
  optional references. It returns the blob hashes of that transaction.\<close>

theorem frame_parser_exact:
  assumes "rlp_lawful A" and "fits encoded"
  shows "frame_versioned_hashes A encoded = Some (Inr hs) \<longleftrightarrow>
    (\<exists>f. frame_ok f \<and> encoded = encode_frame A f \<and> hs = fr_blobs f)"
  using frame_accepted [OF assms] frame_accepts [OF assms] by blast


section \<open>The scan of a payload\<close>

text \<open>
  The scan of the transactions of a payload and the comparison with the expected hashes always
  return, whatever bytes the transactions hold.\<close>

theorem payload_scan_returns:
  assumes "rlp_lawful A" and "list_all fits transactions"
  shows "\<exists>r. verify_versioned_hashes A decode transactions expected = Some r"
proof -
  have one: "\<exists>r. tx_versioned_hashes A decode tx = Some r" if "fits tx" for tx
    using frame_returns [OF assms(1), of "tl tx"] that by (auto simp: tx_versioned_hashes_def)
  have "\<exists>r. extract_versioned_hashes A decode transactions acc = Some r" for acc
    using assms(2)
  proof (induction transactions arbitrary: acc)
    case (Cons tx txs)
    then show ?case using one [of tx] by (auto split: sum.split)
  qed simp
  from this [of "[]"] show ?thesis by (auto simp: verify_versioned_hashes_def split: sum.split)
qed

end
