(* ===== verification/Payload_Facts.thy ===== *)
theory Payload_Facts
  imports Exec_Payload Frame_Facts Aggregation_Facts
begin

text \<open>
  The guarantees of proof-carrying payloads: which proofs can be carried, that the block hash is the
  same in both implementations and commits to the proof and the dependency hash, and what the checks of
  a new payload establish.
\<close>

section \<open>Recursive proofs\<close>

lemma recursive_proof_Inr: "recursive_proof_try_from bytes = Inr b \<longleftrightarrow>
    b = bytes \<and> bytes \<noteq> [] \<and> length bytes \<le> MAX_RECURSIVE_PROOF_BYTES"
  by (auto simp: recursive_proof_try_from_def MAX_RECURSIVE_PROOF_BYTES_def)

lemma default_proof: "recursive_proof_default = Value (put_blob (put_deps MAGIC []) [])"
  by (simp add: recursive_proof_default_def recursive_proof_try_from_def MAGIC_def put_blob_def
      put_deps_def put_number_def le_bytes_numeral expect_def result_ok_def)


text \<open>
  The default proof is the one canonical envelope of the empty dependency set: the aggregate
  verifier accepts it exactly under the hash of no dependencies, as an aggregate of nothing, and
  accepts no other byte string with no dependencies.\<close>

theorem default_proof_is_empty:
  "\<exists>bytes. recursive_proof_default = Value bytes \<and>
    (decode_aggregate_with_hash B bytes (Some h) = Some a \<longleftrightarrow>
       a = \<lparr>ag_deps = [], ag_proof = None\<rparr> \<and> h = commitment B []) \<and>
    (decode_aggregate_with_hash B other (Some h) = Some \<lparr>ag_deps = [], ag_proof = None\<rparr> \<longleftrightarrow>
       other = bytes \<and> h = commitment B [])"
proof -
  have bytes: "recursive_proof_default = Value (envelope [] [])" by (simp add: default_proof envelope_def)
  have size: "length (envelope [] []) \<le> MAX_BYTES"
    by (simp add: envelope_def put_blob_def put_deps_def put_number_def MAX_BYTES_def)
  have none: "ag_deps a = [] \<longleftrightarrow> a = \<lparr>ag_deps = [], ag_proof = None\<rparr>"
    if "decode_aggregate_with_hash B x (Some h) = Some a" for a x
    using that unfolding decode_aggregate_Some by (cases a) (auto split: option.splits)
  have iff: "decode_aggregate_with_hash B x (Some h) = Some \<lparr>ag_deps = [], ag_proof = None\<rparr> \<longleftrightarrow>
      x = envelope [] [] \<and> h = commitment B []" for x
    using size unfolding decode_aggregate_Some by (auto simp: deps_ok_def generic_count_def)
  have "a = \<lparr>ag_deps = [], ag_proof = None\<rparr>"
    if "decode_aggregate_with_hash B (envelope [] []) (Some h) = Some a"
  proof -
    from that obtain payload where "length (envelope [] []) = length (envelope (ag_deps a) payload)"
      "payload = [] \<longleftrightarrow> ag_deps a = []"
      unfolding decode_aggregate_Some by metis
    then have "ag_deps a = []" by (simp add: envelope_def put_blob_def put_deps_eq put_number_def)
    with none [OF that] show ?thesis by blast
  qed
  then show ?thesis unfolding bytes using iff by blast
qed

section \<open>The block hash\<close>

text \<open>What is relied on: the block header is made from the fields that all payloads share, and its
  encoder writes a list with one item for each field, 21 when every optional field is present.\<close>

definition header_lawful :: "('w, 'h, 'q) block_externals \<Rightarrow> bool" where
  "header_lawful X \<longleftrightarrow>
     (\<forall>p v pr d. bx_from_payload X (p\<lparr>ep_variant := v, ep_recursive_stark_proof := pr,
        ep_recursive_stark_block_deps_hash := d\<rparr>) = bx_from_payload X p) \<and>
     (\<forall>p om tx wd bg eb pb rq. \<exists>fs. length fs = 21 \<and>
        bx_rlp_encode_block_header X (bx_from_payload X p om tx (Some wd) (Some bg) (Some eb) (Some pb) (Some rq))
          = rlp_item (bx_rlp X) True (concat (map (\<lambda>(l, f). rlp_item (bx_rlp X) l f) fs)) \<and>
        fits (rlp_item (bx_rlp X) True (concat (map (\<lambda>(l, f). rlp_item (bx_rlp X) l f) fs))))"

text \<open>The base header of a Daisugi payload in a block.\<close>

definition base_header :: "('w, 'h, 'q) block_externals \<Rightarrow> 'w exec_payload \<Rightarrow> root \<Rightarrow> 'q \<Rightarrow> byte list" where
  "base_header X p parent requests = bx_rlp_encode_block_header X (bx_from_payload X p (bx_empty_list_rlp X)
     (bx_ordered_trie_root X (ep_transactions p))
     (Some (bx_ordered_trie_root X (map (bx_rlp_encode_withdrawal X) (ep_withdrawals p))))
     (Some (ep_blob_gas_used p)) (Some (ep_excess_blob_gas p)) (Some parent) (Some (bx_requests_hash X requests)))"

abbreviation rlp_items :: "rlp \<Rightarrow> (bool \<times> byte list) list \<Rightarrow> byte list" where
  "rlp_items A fs \<equiv> concat (map (\<lambda>(l, f). rlp_item A l f) fs)"

lemma base_header_items:
  assumes "header_lawful X"
  obtains fs where "length fs = 21" and "base_header X p parent requests = rlp_item (bx_rlp X) True (rlp_items (bx_rlp X) fs)"
    and "fits (base_header X p parent requests)"
  using assms unfolding header_lawful_def base_header_def by metis

lemma wrap_list_item: "wrap_list A body = rlp_item A True body"
  by (simp add: wrap_list_def rlp_item_def)

lemma proof_fields_items: "proof_fields A pr c =
    [0x80, 0x80] @ rlp_item A True (rlp_item A False pr @ rlp_item A False c)"
  by (simp add: proof_fields_def rlp_item_def)

lemma decode_header_item: "rlp_lawful A \<Longrightarrow> fits (rlp_item A True body) \<Longrightarrow>
    rx_decode_header A (rlp_item A True body) = Inr ((True, length body), body)"
  unfolding rlp_lawful_def by (metis append_Nil2)

lemma daisugi_rlp_eq:
  assumes "rlp_lawful (bx_rlp X)" and "header_lawful X" and "ep_variant p = Daisugi"
  obtains fs where "length fs = 21"
    and "base_header X p parent requests = rlp_item (bx_rlp X) True (rlp_items (bx_rlp X) fs)"
    and "execution_block_rlp X p (Some parent) (Some requests) = Value (rlp_item (bx_rlp X) True
      (rlp_items (bx_rlp X) fs @ proof_fields (bx_rlp X) (ep_recursive_stark_proof p)
        (ep_recursive_stark_block_deps_hash p)))"
proof -
  obtain fs where fs: "length fs = 21" "base_header X p parent requests = rlp_item (bx_rlp X) True (rlp_items (bx_rlp X) fs)"
    "fits (base_header X p parent requests)"
    using base_header_items [OF assms(2)] .
  have base: "execution_block_rlp X p (Some parent) (Some requests) =
      daisugi_block_rlp (bx_rlp X) (base_header X p parent requests) p"
    using assms(3) by (simp add: execution_block_rlp_def base_header_def payload_withdrawals_def
        payload_blob_gas_used_def payload_excess_blob_gas_def enabled_defs fork_order)
  show thesis using that [OF fs(1,2)] decode_header_item [OF assms(1)] fs(2,3)
    unfolding base by (simp add: daisugi_block_rlp_def expect_def result_ok_def wrap_list_item)
qed

text \<open>The Daisugi payload that a candidate container stands for.\<close>

definition as_daisugi :: "'w aggregate_payload \<Rightarrow> 'w exec_payload" where
  "as_daisugi a = (ap_payload a)\<lparr>ep_variant := Daisugi,
     ep_recursive_stark_proof := ap_recursive_stark_proof a,
     ep_recursive_stark_block_deps_hash := ap_recursive_stark_block_deps_hash a\<rparr>"

lemma as_daisugi_simps [simp]:
  "ep_variant (as_daisugi a) = Daisugi" "ep_transactions (as_daisugi a) = ep_transactions (ap_payload a)"
  "ep_withdrawals (as_daisugi a) = ep_withdrawals (ap_payload a)"
  "ep_blob_gas_used (as_daisugi a) = ep_blob_gas_used (ap_payload a)"
  "ep_excess_blob_gas (as_daisugi a) = ep_excess_blob_gas (ap_payload a)"
  "ep_recursive_stark_proof (as_daisugi a) = ap_recursive_stark_proof a"
  "ep_recursive_stark_block_deps_hash (as_daisugi a) = ap_recursive_stark_block_deps_hash a"
  by (simp_all add: as_daisugi_def)

lemma base_header_as_daisugi: "header_lawful X \<Longrightarrow>
    base_header X (as_daisugi a) parent requests = base_header X (ap_payload a) parent requests"
  by (simp add: base_header_def header_lawful_def as_daisugi_def)

text \<open>
  C23. The reconstruction of the block hash from the candidate container and the block hash of the
  Daisugi payload with the same contents are the same function, and neither of them fails.\<close>

theorem block_hashes_agree:
  assumes "rlp_lawful (bx_rlp X)" and "header_lawful X" and "ep_variant (ap_payload a) = Electra"
  shows "\<exists>h. aggregate_execution_block_hash X a parent requests = Value (Inr h) \<and>
    calculate_execution_block_hash X (as_daisugi a) (Some parent) (Some requests)
      = Value (h, bx_ordered_trie_root X (ep_transactions (ap_payload a)))"
proof -
  obtain fs where base: "base_header X (as_daisugi a) parent requests = rlp_item (bx_rlp X) True (rlp_items (bx_rlp X) fs)"
    and rlp: "execution_block_rlp X (as_daisugi a) (Some parent) (Some requests) = Value (rlp_item (bx_rlp X) True
      (rlp_items (bx_rlp X) fs @ proof_fields (bx_rlp X) (ap_recursive_stark_proof a)
        (ap_recursive_stark_block_deps_hash a)))"
    using daisugi_rlp_eq [OF assms(1,2), of "as_daisugi a" parent requests] by auto
  have fit: "fits (base_header X (ap_payload a) parent requests)"
    using base_header_items [OF assms(2)] .
  have dec: "rx_decode_header (bx_rlp X) (base_header X (ap_payload a) parent requests) =
      Inr ((True, length (rlp_items (bx_rlp X) fs)), rlp_items (bx_rlp X) fs)"
    using decode_header_item [OF assms(1)] fit base unfolding base_header_as_daisugi [OF assms(2)] by simp
  have "execution_block_rlp X (ap_payload a) (Some parent) (Some requests) =
      Value (base_header X (ap_payload a) parent requests)"
    using assms(3) by (simp add: execution_block_rlp_def base_header_def payload_withdrawals_def
        payload_blob_gas_used_def payload_excess_blob_gas_def enabled_defs fork_order)
  then show ?thesis using rlp dec
    by (simp add: aggregate_execution_block_hash_def calculate_execution_block_hash_def
        base_header_def [symmetric] wrap_list_item Let_def)
qed


text \<open>Items are read from the front in one way.\<close>

lemma fits_front: "rlp_lawful A \<Longrightarrow> fits (rlp_item A l p @ r) \<Longrightarrow> fits p"
  using item_length [of A p l] by simp

lemma item_unique:
  assumes "rlp_lawful A" and "fits (rlp_item A l p @ r)" and "rlp_item A l p @ r = rlp_item A l' p' @ r'"
  shows "l = l' \<and> p = p' \<and> r = r'"
proof -
  have f: "fits (rlp_item A l' p' @ r')" using assms(2) unfolding assms(3) .
  then have "fits p" "fits p'" using fits_front [OF assms(1)] assms(2) by blast+
  then have "hd (rlp_item A l p @ r) \<ge> 0xC0 \<longleftrightarrow> l" "hd (rlp_item A l' p' @ r') \<ge> 0xC0 \<longleftrightarrow> l'"
    using item_head [OF assms(1)] item_nonempty [OF assms(1)] by simp_all
  then have "l = l'" unfolding assms(3) by simp
  then show ?thesis using decode_item [OF assms(1) f] decode_item [OF assms(1,2)] assms(3) by simp
qed

lemma items_unique:
  assumes "rlp_lawful A"
  shows "length fs = length gs \<Longrightarrow> fits (rlp_items A fs @ r) \<Longrightarrow> rlp_items A fs @ r = rlp_items A gs @ s
    \<Longrightarrow> fs = gs \<and> r = s"
proof (induction fs gs rule: list_induct2)
  case (Cons f fs g gs)
  obtain l p l' p' where d: "f = (l, p)" "g = (l', p')" by (cases f; cases g)
  have "fits (rlp_item A l p @ (rlp_items A fs @ r))" using Cons.prems(1) d by simp
  moreover have "rlp_item A l p @ (rlp_items A fs @ r) = rlp_item A l' p' @ (rlp_items A gs @ s)"
    using Cons.prems(2) d by simp
  ultimately have u: "l = l' \<and> p = p' \<and> rlp_items A fs @ r = rlp_items A gs @ s"
    by (rule item_unique [OF assms])
  then show ?case using Cons.IH Cons.prems(1) d by simp
qed simp

text \<open>
  C20. The block hash commits to the proof: when two Daisugi payloads have the same block hash, they
  carry the same proof and dependency hash under the same base header, unless the encodings that were
  hashed are a collision of Keccak.\<close>

theorem block_hash_binds_proof:
  assumes "rlp_lawful (bx_rlp X)" and "header_lawful X"
    and "ep_variant p = Daisugi" and "ep_variant q = Daisugi"
    and "execution_block_rlp X p (Some parent) (Some requests) = Value x" and "fits x"
    and "execution_block_rlp X q (Some parent') (Some requests') = Value y"
    and "calculate_execution_block_hash X p (Some parent) (Some requests) = Value (h, tx)"
    and "calculate_execution_block_hash X q (Some parent') (Some requests') = Value (h, tx')"
  shows "(x \<noteq> y \<and> bx_keccak256 X x = bx_keccak256 X y) \<or>
    (ep_recursive_stark_proof p = ep_recursive_stark_proof q \<and>
     ep_recursive_stark_block_deps_hash p = ep_recursive_stark_block_deps_hash q \<and>
     base_header X p parent requests = base_header X q parent' requests')"
proof (cases "x = y")
  case False
  then show ?thesis using assms(5,7,8,9) by (auto simp: calculate_execution_block_hash_def)
next
  case True
  let ?A = "bx_rlp X"
  let ?tail = "\<lambda>p. rlp_item ?A True (rlp_item ?A False (ep_recursive_stark_proof p) @
    rlp_item ?A False (ep_recursive_stark_block_deps_hash p))"
  obtain fs where fs: "length fs = 21" "base_header X p parent requests = rlp_item ?A True (rlp_items ?A fs)"
    "x = rlp_item ?A True (rlp_items ?A fs @ [0x80, 0x80] @ ?tail p)"
    using daisugi_rlp_eq [OF assms(1-3), of parent requests] assms(5) unfolding proof_fields_items by auto
  obtain gs where gs: "length gs = 21" "base_header X q parent' requests' = rlp_item ?A True (rlp_items ?A gs)"
    "y = rlp_item ?A True (rlp_items ?A gs @ [0x80, 0x80] @ ?tail q)"
    using daisugi_rlp_eq [OF assms(1,2,4), of parent' requests'] assms(7) unfolding proof_fields_items by auto
  have f: "fits (rlp_items ?A fs @ [0x80, 0x80] @ ?tail p)" using assms(6) fits_payload [OF assms(1)] fs(3) by blast
  have "rlp_items ?A fs @ [0x80, 0x80] @ ?tail p = rlp_items ?A gs @ [0x80, 0x80] @ ?tail q"
    using item_unique [OF assms(1), of True _ "[]" True _ "[]"] assms(6) True fs(3) gs(3) by simp
  then have u: "fs = gs" "?tail p = ?tail q" using items_unique [OF assms(1) _ f] fs(1) gs(1) by auto
  have tail: "fits (?tail p @ [])" "?tail p @ [] = ?tail q @ []" using f u(2) by simp_all
  have t: "fits (rlp_item ?A False (ep_recursive_stark_proof p) @ rlp_item ?A False (ep_recursive_stark_block_deps_hash p))"
    "rlp_item ?A False (ep_recursive_stark_proof p) @ rlp_item ?A False (ep_recursive_stark_block_deps_hash p) =
     rlp_item ?A False (ep_recursive_stark_proof q) @ rlp_item ?A False (ep_recursive_stark_block_deps_hash q)"
    using fits_front [OF assms(1) tail(1)] item_unique [OF assms(1) tail] by blast+
  have "ep_recursive_stark_proof p = ep_recursive_stark_proof q \<and>
      rlp_item ?A False (ep_recursive_stark_block_deps_hash p) = rlp_item ?A False (ep_recursive_stark_block_deps_hash q)"
    using item_unique [OF assms(1) t] by simp
  moreover from this have "ep_recursive_stark_block_deps_hash p = ep_recursive_stark_block_deps_hash q"
    using item_unique [OF assms(1), of False _ "[]" False _ "[]"] t(1) by simp
  ultimately show ?thesis using fs(2) gs(2) u(1) by simp
qed

section \<open>Checks of a new payload\<close>

lemma extract_Inr: "extract_versioned_hashes A decode txs acc = Some (Inr hs) \<longleftrightarrow>
    (\<exists>hss. list_all2 (\<lambda>tx h. tx_versioned_hashes A decode tx = Some (Inr h)) txs hss \<and> hs = acc @ concat hss)"
proof (induction txs arbitrary: acc)
  case (Cons tx txs)
  show ?case by (auto simp: Cons list_all2_Cons1 split: option.splits sum.splits)
qed auto

lemma compare_hashes_Inr: "length xs = length ys \<Longrightarrow> compare_hashes (zip xs ys) = Inr () \<longleftrightarrow> xs = ys"
  by (induction xs ys rule: list_induct2) auto

lemma verify_versioned_hashes_Inr: "verify_versioned_hashes A decode txs expected = Some (Inr ()) \<longleftrightarrow>
    extract_versioned_hashes A decode txs [] = Some (Inr expected)"
  by (auto simp: verify_versioned_hashes_def compare_hashes_Inr split: option.splits sum.splits if_splits)


lemma verify_block_hash_Inr: "verify_payload_block_hash X r = Value (Inr ()) \<longleftrightarrow>
    [] \<notin> set (ep_transactions (nr_payload r)) \<and>
    (\<exists>tx. calculate_execution_block_hash X (nr_payload r) (request_parent_root r) (request_requests r)
       = Value (ep_block_hash (nr_payload r), tx))"
  by (auto simp: verify_payload_block_hash_def Let_def list_ex_iff obind_Value split: if_splits)

lemma request_hashes_Inr: "request_verify_versioned_hashes X r = Some (Inr ()) \<longleftrightarrow>
    (deneb_enabled (nr_variant r) \<longrightarrow> extract_versioned_hashes (bx_rlp X) (bx_decode_envelope X)
       (ep_transactions (nr_payload r)) [] = Some (Inr (nr_versioned_hashes r)))"
  by (auto simp: request_verify_versioned_hashes_def request_versioned_hashes_def map_err_Inr
      verify_versioned_hashes_Inr)

text \<open>
  C21. The optimistic checks of the request made from a block from Deneb on succeed exactly when no transaction
  is empty, the payload names the block hash that is computed from it, the parent root of the block and
  (from Electra on) its execution requests, and the blob hashes of the transactions, in order, are the
  hashes of the blob commitments of the block.\<close>

theorem block_payload_checked:
  assumes "request_from_block kzg b = Inr r" and "ep_variant (bb_payload b) = bb_variant b"
    and "deneb_enabled (bb_variant b)"
  shows "perform_optimistic_sync_verifications X r = Some (Value (Inr ())) \<longleftrightarrow>
    [] \<notin> set (ep_transactions (bb_payload b)) \<and>
    (\<exists>tx. calculate_execution_block_hash X (bb_payload b) (Some (bb_parent_root b))
       (if electra_enabled (bb_variant b) then Some (bb_execution_requests b) else None)
       = Value (ep_block_hash (bb_payload b), tx)) \<and>
    (\<exists>hss. list_all2 (\<lambda>tx h. tx_versioned_hashes (bx_rlp X) (bx_decode_envelope X) tx = Some (Inr h))
       (ep_transactions (bb_payload b)) hss \<and> concat hss = map kzg (bb_blob_kzg_commitments b))"
proof -
  have r: "nr_payload r = bb_payload b" "nr_versioned_hashes r = map kzg (bb_blob_kzg_commitments b)"
    "request_parent_root r = Some (bb_parent_root b)"
    "request_requests r = (if electra_enabled (bb_variant b) then Some (bb_execution_requests b) else None)"
    using assms by (auto simp: request_from_block_def request_parent_root_def request_requests_def split: if_splits)
  have "perform_optimistic_sync_verifications X r = Some (Value (Inr ())) \<longleftrightarrow>
      verify_payload_block_hash X r = Value (Inr ()) \<and> request_verify_versioned_hashes X r = Some (Inr ())"
    by (auto simp: perform_optimistic_sync_verifications_def split: outcome.splits sum.splits)
  then show ?thesis
    unfolding verify_block_hash_Inr request_hashes_Inr extract_Inr r using assms(2,3) by auto
qed

section \<open>Blinding\<close>

text \<open>What is relied on: a header has the tree hash of the payload it was made from.\<close>

definition header_hash_lawful :: "'w tree_hashes \<Rightarrow> bool" where
  "header_hash_lawful T \<longleftrightarrow> (\<forall>p. th_header T (header_from_electra T p) = th_payload T p)"

definition container_fields :: "'w tree_hashes \<Rightarrow> 'w aggregate_payload \<Rightarrow> root list" where
  "container_fields T a = [th_payload T (ap_payload a), th_bytes T (ap_recursive_stark_proof a),
     ap_recursive_stark_block_deps_hash a]"

text \<open>The header of a container accepts the containers with the same field roots, and no others but
  collisions.\<close>

lemma unblinding: "header_hash_lawful T \<Longrightarrow> header_accepts T (aggregate_to_header T a) b \<longleftrightarrow>
    th_container T (container_fields T a) = th_container T (container_fields T b)"
  by (simp add: header_accepts_def aggregate_header_root_def aggregate_payload_root_def
      aggregate_to_header_def header_hash_lawful_def container_fields_def)

lemma json_roundtrip:
  assumes "\<And>p j. to_json p = Inr j \<Longrightarrow> from_json j = Inr p" and "aggregate_to_json to_json a = Inr j"
  shows "aggregate_from_json from_json j = Inr a"
  using assms by (auto simp: aggregate_to_json_def aggregate_from_json_def rbind_Inr)

text \<open>The upgraded header of an Electra payload is the Daisugi header of that payload, up to the proof.\<close>

lemma upgraded_header:
  "header_from_daisugi T p = (header_from_electra T p)\<lparr>
     eh_recursive_stark_proof_root := th_bytes T (ep_recursive_stark_proof p),
     eh_recursive_stark_block_deps_hash := ep_recursive_stark_block_deps_hash p\<rparr>"
  by (simp add: header_from_daisugi_def header_from_electra_def)

end
