(* ===== verification/Payload_Witnesses.thy ===== *)
theory Payload_Witnesses
  imports Payload_Facts
begin

text \<open>
  An RLP library that has the laws the theorems about frames and payloads rely on, and these theorems
  applied to a frame transaction and to a payload that carries a proof. The encoder is the one of the
  RLP specification; the decoder looks for the item that the buffer starts with.
\<close>

section \<open>Big-endian numbers\<close>

fun be_bytes :: "nat \<Rightarrow> byte list" where
  "be_bytes n = (if n = 0 then [] else be_bytes (n div 256) @ [of_nat (n mod 256)])"

declare be_bytes.simps [simp del]

definition be_nat :: "byte list \<Rightarrow> nat" where
  "be_nat bs = foldl (\<lambda>n b. n * 256 + unat b) 0 bs"

lemma be_nat_append [simp]: "be_nat (bs @ [b]) = be_nat bs * 256 + unat b"
  by (simp add: be_nat_def)

lemma be_nat_be_bytes [simp]: "be_nat (be_bytes n) = n"
proof (induction n rule: be_bytes.induct)
  case (1 n)
  then show ?case
    by (subst be_bytes.simps) (simp add: be_nat_def unat_of_nat take_bit_nat_eq_self)
qed

lemma be_bytes_length: "n < 256 ^ k \<Longrightarrow> length (be_bytes n) \<le> k"
proof (induction k arbitrary: n)
  case (Suc k)
  then have "n div 256 < 256 ^ k" by (simp add: less_mult_imp_div_less mult.commute)
  then show ?case using Suc.IH by (subst be_bytes.simps) simp
qed (simp add: be_bytes.simps)

lemma be_bytes_pos: "0 < n \<Longrightarrow> 0 < length (be_bytes n)"
  by (subst be_bytes.simps) simp

lemma be_nat_bound: "be_nat bs < 256 ^ length bs"
proof (induction bs rule: rev_induct)
  case (snoc b bs)
  then show ?case using unat_byte_less [of b] by simp
qed (simp add: be_nat_def)

section \<open>Items\<close>

definition rlp_header :: "bool \<times> nat \<Rightarrow> byte list" where
  "rlp_header = (\<lambda>(l, n). let base = if l then 0xC0 else 0x80 in
     if n < 56 then [of_nat (base + n)]
     else of_nat (base + 55 + length (be_bytes n)) # be_bytes n)"

definition rlp_bytes :: "byte list \<Rightarrow> byte list" where
  "rlp_bytes p = (if length p = 1 \<and> hd p < 0x80 then p else rlp_header (False, length p) @ p)"

definition item_x :: "bool \<Rightarrow> byte list \<Rightarrow> byte list" where
  "item_x l p = (if l then rlp_header (True, length p) @ p else rlp_bytes p)"

lemma small_length: "n < 2 ^ 64 \<Longrightarrow> length (be_bytes n) \<le> 8"
  by (rule be_bytes_length) simp

lemma unat_small: "k < 256 \<Longrightarrow> unat (of_nat k :: byte) = k"
  by (simp add: unat_of_nat take_bit_nat_eq_self)

lemma header_first:
  assumes "n < 2 ^ 64"
  shows "rlp_header (l, n) \<noteq> [] \<and> unat (hd (rlp_header (l, n))) =
    (if l then 0xC0 else 0x80) + (if n < 56 then n else 55 + length (be_bytes n))"
proof -
  let ?base = "if l then 0xC0 else 0x80 :: nat"
  let ?k = "if n < 56 then n else 55 + length (be_bytes n)"
  have "?base + ?k < 256" using small_length [OF assms] by auto
  then have "unat (of_nat (?base + ?k) :: byte) = ?base + ?k" by (rule unat_small)
  moreover have "rlp_header (l, n) = of_nat (?base + ?k) # (if n < 56 then [] else be_bytes n)"
    by (simp add: rlp_header_def Let_def add.assoc)
  ultimately show ?thesis by (simp only: list.sel list.distinct) simp
qed

lemma header_unique:
  assumes "n < 2 ^ 64" and "m < 2 ^ 64" and "rlp_header (l, n) @ x = rlp_header (l, m) @ y"
  shows "n = m \<and> x = y"
proof -
  note f = header_first [OF assms(1), of l] header_first [OF assms(2), of l]
  have "hd (rlp_header (l, n)) = hd (rlp_header (l, m))"
    using f assms(3) by (metis hd_append2)
  then have "(if l then 0xC0 else 0x80) + (if n < 56 then n else 55 + length (be_bytes n)) =
      (if l then 0xC0 else 0x80) + (if m < 56 then m else 55 + length (be_bytes m))"
    using f [THEN conjunct2] by (simp only:)
  then have k: "(if n < 56 then n else 55 + length (be_bytes n)) = (if m < 56 then m else 55 + length (be_bytes m))"
    by (rule add_left_imp_eq)
  have "n < 56 \<longleftrightarrow> m < 56" using k be_bytes_pos [of n] be_bytes_pos [of m] by (auto split: if_splits)
  then show ?thesis
  proof (cases "n < 56")
    case True
    then show ?thesis using k assms(3) \<open>n < 56 \<longleftrightarrow> m < 56\<close> by (simp add: rlp_header_def)
  next
    case False
    then have "length (be_bytes n) = length (be_bytes m)" using k \<open>n < 56 \<longleftrightarrow> m < 56\<close> by simp
    then have "be_bytes n = be_bytes m \<and> x = y"
      using False \<open>n < 56 \<longleftrightarrow> m < 56\<close> assms(3) by (simp add: rlp_header_def Let_def)
    then show ?thesis by (metis be_nat_be_bytes)
  qed
qed

lemma item_x_first:
  assumes "fits p"
  shows "item_x l p \<noteq> [] \<and> (hd (item_x l p) \<ge> 0xC0 \<longleftrightarrow> l) \<and>
    (hd (item_x False p) < 0x80 \<longleftrightarrow> length p = 1 \<and> hd p < 0x80)"
proof -
  note f = header_first [OF assms, of True] header_first [OF assms, of False]
  have "length (be_bytes (length p)) \<le> 8" using assms by (rule small_length)
  moreover have "length p = 1 \<Longrightarrow> p \<noteq> []" by auto
  ultimately show ?thesis using f
    by (auto simp: item_x_def rlp_bytes_def word_le_nat_alt word_less_nat_alt split: if_splits)
qed

lemma item_x_unique:
  assumes "fits p" and "fits q" and "item_x l p @ r = item_x l q @ s"
  shows "p = q \<and> r = s"
proof -
  have hd: "hd (item_x l p) = hd (item_x l q)"
    using item_x_first [OF assms(1), of l] item_x_first [OF assms(2), of l] assms(3) by (metis hd_append2)
  have "length p = 1 \<and> hd p < 0x80 \<longleftrightarrow> length q = 1 \<and> hd q < 0x80" if "\<not> l"
    using hd that item_x_first [OF assms(1), of l] item_x_first [OF assms(2), of l] by simp
  then have "(\<not> l \<and> length p = 1 \<and> length q = 1 \<and> p @ r = q @ s) \<or>
      rlp_header (l, length p) @ (p @ r) = rlp_header (l, length q) @ (q @ s)"
    using assms(3) by (cases l) (auto simp: item_x_def rlp_bytes_def split: if_splits)
  then show ?thesis using header_unique [OF assms(1,2)] by fastforce
qed


lemma item_x_length: "length p \<le> length (item_x l p) \<and> (fits p \<longrightarrow> length (item_x l p) \<le> length p + 9)"
proof -
  have "length (rlp_header (l, length p)) \<le> 9" if "fits p"
    using small_length [OF that] by (simp add: rlp_header_def Let_def)
  then show ?thesis by (cases l) (auto simp: item_x_def rlp_bytes_def)
qed

section \<open>The library\<close>

definition item_at :: "bool \<Rightarrow> byte list \<Rightarrow> nat \<times> nat \<Rightarrow> bool" where
  "item_at l bs = (\<lambda>(i, j). j \<le> length bs \<and> item_x l (take j (drop i bs)) @ drop (i + j) bs = bs)"

definition decode_x :: "byte list \<Rightarrow> bool \<Rightarrow> string + byte list \<times> byte list" where
  "decode_x bs l = (case List.find (item_at l bs) (List.product [0..<10] [0..<length bs + 1]) of
     None \<Rightarrow> Inl ''rlp'' | Some (i, j) \<Rightarrow> Inr (take j (drop i bs), drop (i + j) bs))"

definition rlp_x :: rlp where
  "rlp_x = \<lparr>
     rx_decode_header = (\<lambda>bs. case decode_x bs True of
         Inr (p, rest) \<Rightarrow> Inr ((True, length p), p @ rest)
       | Inl e \<Rightarrow> rbind (decode_x bs False) (\<lambda>(p, rest). Inr ((False, length p), p @ rest))),
     rx_decode_bytes = decode_x,
     rx_decode_u64 = (\<lambda>bs. rbind (decode_x bs False) (\<lambda>(p, rest).
       if length p \<le> 8 \<and> be_bytes (be_nat p) = p then Inr (of_nat (be_nat p), rest) else Inl ''rlp'')),
     rx_encode_header = rlp_header, rx_encode_bytes = rlp_bytes,
     rx_encode_u64 = (\<lambda>n. rlp_bytes (be_bytes (unat n)))\<rparr>"

lemma rlp_x_item [simp]: "rlp_item rlp_x l p = item_x l p"
  by (simp add: rlp_item_def rlp_x_def item_x_def)

lemma decode_x_iff:
  assumes "fits bs"
  shows "decode_x bs l = Inr (p, rest) \<longleftrightarrow> bs = item_x l p @ rest"
proof -
  have sound: "bs = item_x l p @ rest" if "decode_x bs l = Inr (p, rest)" for p rest
    using that by (auto simp: decode_x_def item_at_def find_Some_iff split: option.splits)
  have "decode_x bs l \<noteq> Inl e" if "bs = item_x l p @ rest" for e
  proof -
    have "fits p" using assms that item_x_length [of p l] by simp
    then obtain h where h: "item_x l p = h @ p" "length h < 10"
    proof -
      have "length (rlp_header (l, length p)) < 10"
        using small_length [OF \<open>fits p\<close>] by (simp add: rlp_header_def Let_def)
      then show thesis
        by (intro that [of "if \<not> l \<and> length p = 1 \<and> hd p < 0x80 then [] else rlp_header (l, length p)"])
          (simp_all add: item_x_def rlp_bytes_def)
    qed
    then have "item_at l bs (length h, length p)"
      "(length h, length p) \<in> set (List.product [0..<10] [0..<length bs + 1])"
      using that by (simp_all add: item_at_def)
    then have "List.find (item_at l bs) (List.product [0..<10] [0..<length bs + 1]) \<noteq> None"
      unfolding find_None_iff by blast
    then show ?thesis by (auto simp: decode_x_def)
  qed
  then obtain p' rest' where d: "decode_x bs l = Inr (p', rest')" if "bs = item_x l p @ rest"
    by (metis obj_sumE prod.exhaust)
  have "p' = p \<and> rest' = rest" if e: "bs = item_x l p @ rest"
  proof (rule item_x_unique)
    note s = sound [OF d [OF e]]
    show "item_x l p' @ rest' = item_x l p @ rest" using s e by simp
    show "fits p'" using arg_cong [OF s, of length] assms item_x_length [of p' l] by simp
    show "fits p" using arg_cong [OF e, of length] assms item_x_length [of p l] by simp
  qed
  then show ?thesis using sound d by auto
qed

lemma decode_x_item: "fits (item_x l p @ rest) \<Longrightarrow> decode_x (item_x l p @ rest) l = Inr (p, rest)"
  by (simp add: decode_x_iff)

lemma u64_x: "fits bs \<Longrightarrow> rx_decode_u64 rlp_x bs = Inr (n, rest) \<longleftrightarrow> bs = rx_encode_u64 rlp_x n @ rest"
proof -
  assume f: "fits bs"
  have len: "length (be_bytes (unat n)) \<le> 8" using unsigned_less [of n] by (intro small_length) simp
  have num: "unat (of_nat (be_nat p) :: 64 word) = be_nat p" if "length p \<le> 8" for p
  proof -
    have "be_nat p < 256 ^ 8" using be_nat_bound [of p] power_increasing [OF that, of "256 :: nat"] by simp
    then show ?thesis by (simp add: unat_of_nat take_bit_nat_eq_self)
  qed
  have "rx_decode_u64 rlp_x bs = Inr (n, rest) \<longleftrightarrow> (\<exists>p. bs = item_x False p @ rest \<and>
      length p \<le> 8 \<and> be_bytes (be_nat p) = p \<and> of_nat (be_nat p) = n)"
    by (auto simp: rlp_x_def rbind_Inr decode_x_iff [OF f] split: if_splits)
  also have "\<dots> \<longleftrightarrow> bs = item_x False (be_bytes (unat n)) @ rest"
    using len num by (auto simp: exI [of _ "be_bytes (unat n)"])
  finally show ?thesis by (simp add: rlp_x_def item_x_def)
qed

lemma rlp_x_lawful: "rlp_lawful rlp_x"
proof -
  have "rx_decode_header rlp_x (item_x True p @ rest) = Inr ((True, length p), p @ rest)"
    if "fits (item_x True p @ rest)" for p rest
    using decode_x_item [OF that] by (simp add: rlp_x_def)
  moreover have "rx_encode_u64 rlp_x n \<noteq> [] \<and> hd (rx_encode_u64 rlp_x n) < 0xC0" for n
  proof -
    have "unat n < 2 ^ 64" using unsigned_less [of n] by simp
    then have "fits (be_bytes (unat n))" using small_length [of "unat n"] by simp
    from item_x_first [OF this, of False] show ?thesis by (simp add: rlp_x_def item_x_def not_le)
  qed
  ultimately show ?thesis
    using decode_x_iff u64_x item_x_first item_x_length
    by (auto simp: rlp_lawful_def not_le [symmetric]) (auto simp: rlp_x_def)
qed


section \<open>Witnesses\<close>

definition sample_frame :: frame_tx where
  "sample_frame = \<lparr>fr_chain_id = 1, fr_keys = None, fr_nonce = 7, fr_sender = replicate 20 0xAA,
     fr_frames = [], fr_signatures = [], fr_fees = [[1], [2], []], fr_blobs = [replicate 32 1],
     fr_references = Some []\<rparr>"

lemma item_x_fits: "length p + 9 < 2 ^ 64 \<Longrightarrow> length (item_x l p) \<le> length p + 9"
  using item_x_length [of p l] by simp

lemma u64_x_fits: "length (rx_encode_u64 rlp_x n) \<le> 17"
proof -
  have "unat n < 2 ^ 64" using unsigned_less [of n] by simp
  then have "length (be_bytes (unat n)) \<le> 8" by (rule small_length)
  then show ?thesis using item_x_fits [of "be_bytes (unat n)" False] by (simp add: rlp_x_def item_x_def)
qed

lemma sample_frame_fits: "fits (encode_frame rlp_x sample_frame)"
proof -
  have fees: "length (concat (map (item_x False) [[1], [2], []])) \<le> 29"
    using item_x_fits [of "[1]" False] item_x_fits [of "[2]" False] item_x_fits [of "[]" False] by simp
  have blobs: "length (concat (map (item_x False) [replicate 32 1])) \<le> 41"
    using item_x_fits [of "replicate 32 1" False] by simp
  show ?thesis
    using item_x_fits [of "replicate 20 0xAA" False] item_x_fits [of "[]" True] fees blobs
      item_x_fits [of "concat (map (item_x False) [[1], [2], []])" True]
      item_x_fits [of "concat (map (item_x False) [replicate 32 1])" True]
      u64_x_fits [of 1] u64_x_fits [of 7]
    by (auto simp: encode_frame_def sample_frame_def opt_list_def
        intro!: le_less_trans [OF item_x_fits])
qed

lemma frame_parser_exact_witness:
  "frame_versioned_hashes rlp_x (encode_frame rlp_x sample_frame) = Some (Inr [replicate 32 1])"
proof -
  have "frame_ok sample_frame" "fr_blobs sample_frame = [replicate 32 1]"
    by (simp_all add: sample_frame_def frame_ok_def fee_ok_def)
  then show ?thesis using frame_parser_exact [OF rlp_x_lawful sample_frame_fits] by metis
qed


lemma payload_scan_returns_witness:
  "\<exists>r. verify_versioned_hashes rlp_x (\<lambda>_. Inr Other_Tx) [[0x06, 0xC0], [0x02]] [] = Some r"
  using payload_scan_returns [OF rlp_x_lawful, of "[[0x06, 0xC0], [0x02]]" "\<lambda>_. Inr Other_Tx" "[]"] by simp

section \<open>A payload with a proof\<close>

text \<open>A block header of 21 strings, and a hash that is the identity.\<close>

definition header_fields_x :: "unit exec_payload \<Rightarrow> root \<Rightarrow> root \<Rightarrow> root option \<Rightarrow> u64 option \<Rightarrow> u64 option
    \<Rightarrow> root option \<Rightarrow> root option \<Rightarrow> byte list list" where
  "header_fields_x p om tx wd bg eb pb rq =
     (let num = (\<lambda>n :: u64. be_bytes (unat n)); opt = (\<lambda>x. case x of None \<Rightarrow> [] | Some r \<Rightarrow> [r]);
          opt_num = (\<lambda>x :: u64 option. case x of None \<Rightarrow> [] | Some n \<Rightarrow> [be_bytes (unat n)])
      in map (take 256) ([ep_parent_hash p, om, ep_fee_recipient p, ep_state_root p, tx, ep_receipts_root p,
        ep_logs_bloom p, [], num (ep_block_number p), num (ep_gas_limit p), num (ep_gas_used p),
        num (ep_timestamp p), ep_extra_data p, ep_prev_randao p, replicate 8 0, be_bytes (ep_base_fee_per_gas p)]
        @ opt wd @ opt_num bg @ opt_num eb @ opt pb @ opt rq))"

definition block_x :: "(unit, byte list list, unit) block_externals" where
  "block_x = \<lparr>bx_rlp = rlp_x, bx_keccak256 = (\<lambda>bs. bs), bx_ordered_trie_root = concat,
     bx_empty_list_rlp = replicate 32 0, bx_rlp_encode_withdrawal = (\<lambda>_. []),
     bx_requests_hash = (\<lambda>_. replicate 32 0), bx_from_payload = header_fields_x,
     bx_rlp_encode_block_header = (\<lambda>h. item_x True (concat (map (item_x False) h))),
     bx_decode_envelope = (\<lambda>_. Inr Other_Tx)\<rparr>"

lemma short_items_fit: "list_all (\<lambda>f. length f \<le> 256) fs \<Longrightarrow> length (concat (map (item_x False) fs)) \<le> 265 * length fs"
proof (induction fs)
  case (Cons f fs)
  then show ?case using item_x_fits [of f False] by simp
qed simp

lemma block_x_rlp [simp]: "bx_rlp block_x = rlp_x"
  by (simp add: block_x_def)

lemma header_x_size: "length (base_header block_x p parent ()) \<le> 6000"
proof -
  let ?fs = "header_fields_x p (replicate 32 0) (concat (ep_transactions p)) (Some (concat (map (\<lambda>_. []) (ep_withdrawals p))))
    (Some (ep_blob_gas_used p)) (Some (ep_excess_blob_gas p)) (Some parent) (Some (replicate 32 0))"
  have "length ?fs = 21" "list_all (\<lambda>f. length f \<le> 256) ?fs" by (simp_all add: header_fields_x_def Let_def)
  then have "length (concat (map (item_x False) ?fs)) \<le> 5565" using short_items_fit by fastforce
  then show ?thesis using item_x_fits [of "concat (map (item_x False) ?fs)" True]
    by (simp add: base_header_def block_x_def)
qed

lemma block_x_lawful: "header_lawful block_x"
proof -
  have law: "\<exists>gs. length gs = 21 \<and> item_x True (concat (map (item_x False) fs)) =
      item_x True (concat (map (\<lambda>(l, f). item_x l f) gs)) \<and> fits (item_x True (concat (map (\<lambda>(l, f). item_x l f) gs)))"
    if "length fs = 21" "list_all (\<lambda>f. length f \<le> 256) fs" for fs
  proof (intro exI [of _ "map (Pair False) fs"] conjI)
    show "item_x True (concat (map (item_x False) fs)) = item_x True (concat (map (\<lambda>(l, f). item_x l f) (map (Pair False) fs)))"
      by (simp add: comp_def)
    show "fits (item_x True (concat (map (\<lambda>(l, f). item_x l f) (map (Pair False) fs))))"
      using short_items_fit [OF that(2)] that(1) item_x_fits [of "concat (map (item_x False) fs)" True]
      by (simp add: comp_def)
  qed (use that in simp)
  have "bx_from_payload block_x (p\<lparr>ep_variant := v, ep_recursive_stark_proof := pr,
      ep_recursive_stark_block_deps_hash := d\<rparr>) = bx_from_payload block_x p" for p v pr d
    by (simp add: block_x_def header_fields_x_def fun_eq_iff)
  moreover have short: "length (header_fields_x p om tx (Some wd) (Some bg) (Some eb) (Some pb) (Some rq)) = 21"
      "list_all (\<lambda>f. length f \<le> 256) (header_fields_x p om tx (Some wd) (Some bg) (Some eb) (Some pb) (Some rq))"
    for p om tx wd bg eb pb rq
    by (simp_all add: header_fields_x_def Let_def)
  moreover have "bx_rlp_encode_block_header block_x (bx_from_payload block_x p om tx wd bg eb pb rq) =
      item_x True (concat (map (item_x False) (header_fields_x p om tx wd bg eb pb rq)))"
    for p om tx wd bg eb pb rq
    by (simp add: block_x_def)
  ultimately show ?thesis unfolding header_lawful_def block_x_rlp rlp_x_item
    using law [OF short] by simp
qed

definition sample_payload :: "unit exec_payload" where
  "sample_payload = \<lparr>ep_variant = Electra, ep_parent_hash = replicate 32 0, ep_fee_recipient = replicate 20 0,
     ep_state_root = replicate 32 0, ep_receipts_root = replicate 32 0, ep_logs_bloom = replicate 256 0,
     ep_prev_randao = replicate 32 0, ep_block_number = 300, ep_gas_limit = 30000000, ep_gas_used = 21000,
     ep_timestamp = 3840, ep_extra_data = [], ep_base_fee_per_gas = 7, ep_block_hash = replicate 32 0,
     ep_transactions = [[0x02, 0x01]], ep_withdrawals = [], ep_blob_gas_used = 0, ep_excess_blob_gas = 0,
     ep_recursive_stark_proof = [], ep_recursive_stark_block_deps_hash = [], ep_block_access_list = [],
     ep_slot_number = 0\<rparr>"

definition sample_aggregate :: "unit aggregate_payload" where
  "sample_aggregate = \<lparr>ap_payload = sample_payload,
     ap_recursive_stark_proof = [0x4E, 0x4C, 0x52, 0x33, 0, 0, 0, 0, 0, 0, 0, 0],
     ap_recursive_stark_block_deps_hash = replicate 32 9\<rparr>"

lemma block_hashes_agree_witness: "\<exists>h.
    aggregate_execution_block_hash block_x sample_aggregate (replicate 32 5) () = Value (Inr h) \<and>
    calculate_execution_block_hash block_x (as_daisugi sample_aggregate) (Some (replicate 32 5)) (Some ())
      = Value (h, [0x02, 0x01])"
  using block_hashes_agree [of block_x sample_aggregate "replicate 32 5" "()"] rlp_x_lawful block_x_lawful
  by (simp add: sample_aggregate_def sample_payload_def) (simp add: block_x_def)

lemma sample_rlp: "\<exists>x. execution_block_rlp block_x (as_daisugi sample_aggregate) (Some (replicate 32 5)) (Some ())
    = Value x \<and> fits x"
proof -
  obtain fs where fs: "length fs = 21"
    "base_header block_x (as_daisugi sample_aggregate) (replicate 32 5) () = item_x True (rlp_items rlp_x fs)"
    "execution_block_rlp block_x (as_daisugi sample_aggregate) (Some (replicate 32 5)) (Some ()) =
      Value (item_x True (rlp_items rlp_x fs @ proof_fields rlp_x (ap_recursive_stark_proof sample_aggregate)
        (ap_recursive_stark_block_deps_hash sample_aggregate)))"
    using daisugi_rlp_eq [of block_x "as_daisugi sample_aggregate" "replicate 32 5" "()"] rlp_x_lawful block_x_lawful
    by auto
  have "length (rlp_items rlp_x fs) \<le> 6000"
    using header_x_size [of "as_daisugi sample_aggregate" "replicate 32 5"] fs(2)
      item_x_length [of "rlp_items rlp_x fs" True] by simp
  moreover have "length (proof_fields rlp_x (ap_recursive_stark_proof sample_aggregate)
      (ap_recursive_stark_block_deps_hash sample_aggregate)) \<le> 100"
  proof -
    let ?pr = "item_x False (ap_recursive_stark_proof sample_aggregate)"
    let ?c = "item_x False (ap_recursive_stark_block_deps_hash sample_aggregate)"
    have "length ?pr \<le> 21" "length ?c \<le> 41"
      using item_x_fits [of "ap_recursive_stark_proof sample_aggregate" False]
        item_x_fits [of "ap_recursive_stark_block_deps_hash sample_aggregate" False]
      by (simp_all add: sample_aggregate_def)
    then show ?thesis unfolding proof_fields_items using item_x_fits [of "?pr @ ?c" True] by simp
  qed
  ultimately have "fits (item_x True (rlp_items rlp_x fs @ proof_fields rlp_x (ap_recursive_stark_proof sample_aggregate)
        (ap_recursive_stark_block_deps_hash sample_aggregate)))"
    by (intro le_less_trans [OF item_x_fits]) simp_all
  with fs(3) show ?thesis by blast
qed

lemma block_hash_binds_proof_witness: "\<exists>x. execution_block_rlp block_x (as_daisugi sample_aggregate)
      (Some (replicate 32 5)) (Some ()) = Value x \<and>
    ((x \<noteq> x \<and> bx_keccak256 block_x x = bx_keccak256 block_x x) \<or>
     base_header block_x (as_daisugi sample_aggregate) (replicate 32 5) () =
     base_header block_x (as_daisugi sample_aggregate) (replicate 32 5) ())"
proof -
  obtain x where x: "execution_block_rlp block_x (as_daisugi sample_aggregate) (Some (replicate 32 5)) (Some ()) = Value x"
    "fits x"
    using sample_rlp by blast
  have "rlp_lawful (bx_rlp block_x)" by (simp add: rlp_x_lawful)
  moreover have "calculate_execution_block_hash block_x (as_daisugi sample_aggregate) (Some (replicate 32 5)) (Some ())
      = Value (x, [0x02, 0x01])"
    using x(1) by (simp add: calculate_execution_block_hash_def)
      (simp add: block_x_def sample_aggregate_def sample_payload_def)
  ultimately show ?thesis
    using block_hash_binds_proof [of block_x "as_daisugi sample_aggregate" "as_daisugi sample_aggregate",
        OF _ block_x_lawful _ _ x x(1)] x(1) by auto
qed


definition sample_block :: "root \<Rightarrow> (unit, unit, unit) beacon_block_parts" where
  "sample_block h = \<lparr>bb_variant = Daisugi, bb_parent_root = replicate 32 5,
     bb_payload = (as_daisugi sample_aggregate)\<lparr>ep_block_hash := h\<rparr>, bb_blob_kzg_commitments = [],
     bb_execution_requests = ()\<rparr>"

lemma header_hash_free: "bx_from_payload block_x (p\<lparr>ep_block_hash := h\<rparr>) = bx_from_payload block_x p"
  by (simp add: fun_eq_iff block_x_def header_fields_x_def)

lemma block_rlp_hash_free: "execution_block_rlp block_x (p\<lparr>ep_block_hash := h\<rparr>) = execution_block_rlp block_x p"
  by (simp add: fun_eq_iff execution_block_rlp_def header_hash_free payload_withdrawals_def Let_def
      payload_blob_gas_used_def payload_excess_blob_gas_def daisugi_block_rlp_def)

lemma block_payload_checked_witness: "\<exists>h r. request_from_block (\<lambda>_. []) (sample_block h) = Inr r \<and>
    perform_optimistic_sync_verifications block_x r = Some (Value (Inr ()))"
proof -
  obtain x where x: "execution_block_rlp block_x (as_daisugi sample_aggregate) (Some (replicate 32 5)) (Some ()) = Value x"
    using sample_rlp by blast
  obtain r where r: "request_from_block (\<lambda>_. []) (sample_block x) = Inr r"
    by (simp add: request_from_block_def sample_block_def)
  have "\<exists>tx. calculate_execution_block_hash block_x (bb_payload (sample_block x)) (Some (replicate 32 5)) (Some ())
      = Value (x, tx)"
    using x by (simp add: calculate_execution_block_hash_def sample_block_def block_rlp_hash_free)
      (simp add: block_x_def)
  moreover have "tx_versioned_hashes rlp_x (bx_decode_envelope block_x) [0x02, 0x01] = Some (Inr [])"
    by (simp add: tx_versioned_hashes_def block_x_def)
  ultimately have "perform_optimistic_sync_verifications block_x r = Some (Value (Inr ()))"
    using block_payload_checked [OF r, of block_x]
    by (simp add: sample_block_def sample_aggregate_def sample_payload_def enabled_defs fork_order
        list_all2_Cons1) 
  then show ?thesis using r by blast
qed

end
