(* ===== verification/Multilinear.thy ===== *)
theory Multilinear
  imports Prelude
begin

text \<open>
  The multilinear helpers of \<open>pcs/src/whir.rs\<close>: the table of the equality polynomial, the
  evaluation of a table at a point and its partial evaluation, as the code computes them; and the
  weights \<open>eq_weight\<close> that all of them are shown to compute with. The extension field is any
  commutative ring; characteristic two is assumed only where it matters.
\<close>

section \<open>The code\<close>

text \<open>\<open>Vec::resize\<close>, and one round of the loop of \<open>build_eq_table_ext\<close>.\<close>

definition resize :: "nat \<Rightarrow> 'a \<Rightarrow> 'a list \<Rightarrow> 'a list" where
  "resize n x xs = take n xs @ replicate (n - length xs) x"

definition eq_round :: "'e::comm_ring_1 \<Rightarrow> nat \<Rightarrow> 'e list \<Rightarrow> 'e list" where
  "eq_round r_j len out = foldl (\<lambda>out i. let v = out ! i; high = v * r_j in
     (out[i + len := high])[i := v + high]) (resize (2 * len) 0 out) [0..<len]"

definition build_eq_table_ext :: "'e::comm_ring_1 list \<Rightarrow> 'e list" where
  "build_eq_table_ext point = foldl (\<lambda>out j. eq_round (point ! j) (2 ^ j) out) [1] [0..<length point]"

text \<open>One challenge of \<open>mle_eval_ext\<close>, in place; the assertion of the length is a panic.\<close>

definition mle_round :: "'e::comm_ring_1 list \<Rightarrow> 'e \<Rightarrow> 'e list" where
  "mle_round folded challenge =
     (let half = length folded div 2
      in take half (foldl (\<lambda>t row. let lo = t ! (2 * row); hi = t ! (2 * row + 1)
           in t[row := lo + challenge * (lo + hi)]) folded [0..<half]))"

definition mle_eval_ext :: "'e::comm_ring_1 list \<Rightarrow> 'e list \<Rightarrow> 'e outcome" where
  "mle_eval_ext table point =
     (if length table \<noteq> 2 ^ length point then Crash else Value (foldl mle_round table point ! 0))"

definition partial_round :: "'e::comm_ring_1 list \<Rightarrow> 'e \<Rightarrow> 'e list" where
  "partial_round cur r = map (\<lambda>i. cur ! (2 * i) * (1 + r) + cur ! (2 * i + 1) * r) [0..<length cur div 2]"

definition partial_eval_lsb_ext :: "'e::comm_ring_1 list \<Rightarrow> 'e list \<Rightarrow> 'e list" where
  "partial_eval_lsb_ext evals rs = foldl partial_round evals rs"

section \<open>Sums over a range\<close>

lemma sum_pairs: "(\<Sum>i<2 * n. g i) = (\<Sum>j<n. g (2 * j) + g (2 * j + 1 :: nat) :: 'a::comm_monoid_add)"
  by (induction n) (simp_all add: add.assoc)

lemma sum_blocks: "(\<Sum>i<m * n :: nat. g i) = (\<Sum>x<m. \<Sum>y<n. g (x * n + y) :: 'a::comm_monoid_add)"
proof (induction m)
  case (Suc m)
  have "(\<Sum>i<n + m * n. g i) = (\<Sum>i<m * n. g i) + (\<Sum>i = m * n..<m * n + n. g i)"
    by (metis add.commute atLeast0LessThan le_add1 sum.atLeastLessThan_concat zero_le)
  also have "(\<Sum>i = m * n..<m * n + n. g i) = (\<Sum>y<n. g (m * n + y))"
    using sum.shift_bounds_nat_ivl [of g 0 "m * n" n] by (simp add: atLeast0LessThan add.commute)
  finally show ?case using Suc by simp
qed simp

lemma sum_list_upt: "sum_list (map f [0..<n]) = (\<Sum>i<n. f i :: 'a::comm_monoid_add)"
  by (simp add: interv_sum_list_conv_sum_set_nat atLeast0LessThan)

section \<open>Folds of a list, pair by pair\<close>

text \<open>What both rounds compute: the interpolation of adjacent elements.\<close>

definition fold_lsb :: "'e::comm_ring_1 \<Rightarrow> 'e list \<Rightarrow> 'e list" where
  "fold_lsb r xs = map (\<lambda>j. xs ! (2 * j) + r * (xs ! (2 * j) + xs ! (2 * j + 1))) [0..<length xs div 2]"

definition fold_all :: "'e::comm_ring_1 list \<Rightarrow> 'e list \<Rightarrow> 'e list" where
  "fold_all xs rs = foldl (\<lambda>t r. fold_lsb r t) xs rs"

lemma length_fold_lsb [simp]: "length (fold_lsb r xs) = length xs div 2"
  by (simp add: fold_lsb_def)

lemma nth_fold_lsb [simp]: "j < length xs div 2 \<Longrightarrow>
    fold_lsb r xs ! j = xs ! (2 * j) + r * (xs ! (2 * j) + xs ! (2 * j + 1))"
  by (simp add: fold_lsb_def)

lemma fold_all_simps [simp]: "fold_all xs [] = xs" "fold_all xs (r # rs) = fold_all (fold_lsb r xs) rs"
  by (simp_all add: fold_all_def)

lemma fold_all_append: "fold_all xs (rs @ ss) = fold_all (fold_all xs rs) ss"
  by (simp add: fold_all_def)

lemma partial_round_fold: "partial_round xs r = fold_lsb r xs"
  by (simp add: partial_round_def fold_lsb_def algebra_simps)

lemma partial_eval_fold: "partial_eval_lsb_ext xs rs = fold_all xs rs"
  by (simp add: partial_eval_lsb_ext_def fold_all_def partial_round_fold [abs_def])

text \<open>The loop in place reads only elements it has not written yet.\<close>

lemma in_place_loop:
  assumes "\<And>t x i j. j < i \<Longrightarrow> f (t[j := x]) i = f t i" and "n \<le> length t"
  shows "foldl (\<lambda>t i. t[i := f t i]) t [0..<n] = map (f t) [0..<n] @ drop n t"
  using assms(2)
proof (induction n)
  case (Suc n)
  have stable: "f (map (f t) [0..<m] @ drop m t) n = f t n" if "m \<le> n" for m
    using that
  proof (induction m)
    case (Suc m)
    have "map (f t) [0..<Suc m] @ drop (Suc m) t = (map (f t) [0..<m] @ drop m t)[m := f t m]"
      using Suc.prems \<open>Suc n \<le> length t\<close> by (simp add: list_update_append Cons_nth_drop_Suc [symmetric])
    with Suc show ?case by (simp add: assms(1))
  qed simp
  from Suc have "foldl (\<lambda>t i. t[i := f t i]) t [0..<n] = map (f t) [0..<n] @ drop n t"
    by simp
  with stable [of n] Suc.prems show ?case
    by (simp add: list_update_append Cons_nth_drop_Suc [symmetric])
qed simp

lemma mle_round_fold: "mle_round xs r = fold_lsb r xs"
proof -
  let ?f = "\<lambda>t i. t ! (2 * i) + r * (t ! (2 * i) + t ! (2 * i + 1))"
  have "foldl (\<lambda>t i. t[i := ?f t i]) xs [0..<length xs div 2] =
      map (?f xs) [0..<length xs div 2] @ drop (length xs div 2) xs"
    by (rule in_place_loop) auto
  then show ?thesis by (simp add: mle_round_def fold_lsb_def Let_def)
qed

section \<open>Weights of the equality polynomial\<close>

text \<open>Coordinate \<open>j\<close> of the point weighs bit \<open>j\<close> of the index: \<open>r\<close> when it is set, \<open>1 + r\<close>
  when it is not.\<close>

fun eq_weight :: "'e::comm_ring_1 list \<Rightarrow> nat \<Rightarrow> 'e" where
  "eq_weight [] i = 1"
| "eq_weight (r # rs) i = (if odd i then r else 1 + r) * eq_weight rs (i div 2)"

lemma eq_weight_append: "i < 2 ^ length rs \<Longrightarrow>
    eq_weight (rs @ ss) (i + 2 ^ length rs * k) = eq_weight rs i * eq_weight ss k"
proof (induction rs arbitrary: i)
  case (Cons r rs)
  have "(i + 2 * 2 ^ length rs * k) div 2 = i div 2 + 2 ^ length rs * k"
    by simp
  moreover have "odd (i + 2 * 2 ^ length rs * k) = odd i" by simp
  ultimately show ?case using Cons.prems Cons.IH [of "i div 2"]
    by (auto simp: mult.assoc add.commute)
qed simp

lemma eq_weight_snoc: "i < 2 * 2 ^ length rs \<Longrightarrow> eq_weight (rs @ [r]) i =
    (if i < 2 ^ length rs then eq_weight rs i + eq_weight rs i * r
     else eq_weight rs (i - 2 ^ length rs) * r)"
  using eq_weight_append [of i rs "[r]" 0] eq_weight_append [of "i - 2 ^ length rs" rs "[r]" 1]
  by (auto simp: algebra_simps)

lemma update_two: "length A = n \<Longrightarrow> length A + Suc (length B) = len \<Longrightarrow> length C = n \<Longrightarrow>
    ((A @ x # B @ C @ y # D)[n + len := high])[n := v] = A @ v # B @ C @ high # D"
  by (auto simp: list_update_append split: nat.split)

lemma eq_round_eq: "length out = len \<Longrightarrow>
    eq_round r len out = map (\<lambda>v. v + v * r) out @ map (\<lambda>v. v * r) out"
proof -
  assume len: "length out = len"
  let ?step = "\<lambda>t i. let v = t ! i; high = v * r in (t[i + len := high])[i := v + high]"
  have "foldl ?step (out @ replicate len 0) [0..<n] =
      map (\<lambda>v. v + v * r) (take n out) @ drop n out @ map (\<lambda>v. v * r) (take n out) @ replicate (len - n) 0"
    if "n \<le> len" for n
    using that
  proof (induction n)
    case (Suc n)
    then have "n < length out" using len by simp
    let ?low = "map (\<lambda>v. v + v * r)" and ?high = "map (\<lambda>v. v * r)"
    have parts: "take (Suc n) out = take n out @ [out ! n]" "drop n out = out ! n # drop (Suc n) out"
      "replicate (len - n) (0 :: 'a) = 0 # replicate (len - Suc n) 0"
      using \<open>n < length out\<close> len by (simp_all add: take_Suc_conv_app_nth Cons_nth_drop_Suc
          replicate_Suc [symmetric] Suc_diff_Suc del: replicate_Suc)
    have "foldl ?step (out @ replicate len 0) [0..<Suc n] =
        ?step (?low (take n out) @ out ! n # drop (Suc n) out @ ?high (take n out) @ 0 # replicate (len - Suc n) 0) n"
      using Suc.IH Suc.prems by (simp add: parts)
    also have "\<dots> = ?low (take n out) @ (out ! n + out ! n * r) # drop (Suc n) out @ ?high (take n out) @
        out ! n * r # replicate (len - Suc n) 0"
      using \<open>n < length out\<close> len by (simp add: Let_def nth_append update_two)
    finally show ?case by (simp add: parts)
  qed simp
  from this [of len] show ?thesis
    using len by (simp add: eq_round_def resize_def)
qed

lemma length_eq_table [simp]: "length (build_eq_table_ext point) = 2 ^ length point"
  and eq_table_eq: "build_eq_table_ext point = map (eq_weight point) [0..<2 ^ length point]"
proof -
  show "build_eq_table_ext point = map (eq_weight point) [0..<2 ^ length point]"
  proof (induction point rule: rev_induct)
    case (snoc r rs)
    have "build_eq_table_ext (rs @ [r]) = eq_round r (2 ^ length rs) (build_eq_table_ext rs)"
      by (auto simp: build_eq_table_ext_def nth_append intro!: arg_cong [where f = "eq_round r _"] foldl_cong)
    also have "\<dots> = map (\<lambda>i. eq_weight (rs @ [r]) i) [0..<2 ^ length (rs @ [r])]"
      by (rule nth_equalityI) (auto simp: snoc eq_round_eq nth_append eq_weight_snoc)
    finally show ?case .
  qed (simp add: build_eq_table_ext_def)
  then show "length (build_eq_table_ext point) = 2 ^ length point" by simp
qed

lemma nth_eq_table: "i < 2 ^ length point \<Longrightarrow> build_eq_table_ext point ! i = eq_weight point i"
  by (simp add: eq_table_eq)

text \<open>Partial evaluation weighs the elements of each block.\<close>

lemma length_fold_all: "length xs = 2 ^ length rs * m \<Longrightarrow> length (fold_all xs rs) = m"
  by (induction rs arbitrary: xs) simp_all

lemma nth_fold_all: "length xs = 2 ^ length rs * m \<Longrightarrow> j < m \<Longrightarrow>
    fold_all xs rs ! j = (\<Sum>l<2 ^ length rs. eq_weight rs l * xs ! (2 ^ length rs * j + l))"
proof (induction rs arbitrary: xs)
  case (Cons r rs)
  let ?k = "2 ^ length rs :: nat"
  have bound: "?k * j + l < ?k * m" if "l < ?k" for l
  proof -
    have "?k * j + l < ?k * Suc j" using that by simp
    also have "\<dots> \<le> ?k * m" using Cons.prems(2) by (intro mult_le_mono2) simp
    finally show ?thesis .
  qed
  have "fold_all xs (r # rs) ! j = (\<Sum>l<?k. eq_weight rs l * fold_lsb r xs ! (?k * j + l))"
    using Cons by simp
  also have "\<dots> = (\<Sum>l<?k. eq_weight (r # rs) (2 * l) * xs ! (2 * ?k * j + 2 * l) +
      eq_weight (r # rs) (2 * l + 1) * xs ! (2 * ?k * j + (2 * l + 1)))"
    using Cons.prems bound by (intro sum.cong) (simp_all add: algebra_simps)
  also have "\<dots> = (\<Sum>l<2 * ?k. eq_weight (r # rs) l * xs ! (2 * ?k * j + l))"
    by (rule sum_pairs [symmetric])
  finally show ?case by simp
qed simp

lemma fold_all_point: "length xs = 2 ^ length rs \<Longrightarrow>
    fold_all xs rs = [\<Sum>l<2 ^ length rs. eq_weight rs l * xs ! l]"
  using length_fold_all [of xs rs 1] nth_fold_all [of xs rs 1 0]
  by (auto intro: nth_equalityI)

definition mle :: "'e::comm_ring_1 list \<Rightarrow> 'e list \<Rightarrow> 'e" where
  "mle xs rs = (\<Sum>l<2 ^ length rs. eq_weight rs l * xs ! l)"

lemma mle_eval_mle: "mle_eval_ext table point =
    (if length table = 2 ^ length point then Value (mle table point) else Crash)"
  using fold_all_point [of table point]
  by (simp add: mle_eval_ext_def mle_def mle_round_fold [abs_def] fold_all_def)

text \<open>The table of a point, folded at another point, is the product of the agreements.\<close>

definition eq_agree :: "'e::comm_ring_1 list \<Rightarrow> 'e list \<Rightarrow> 'e" where
  "eq_agree zs rs = prod_list (map2 (\<lambda>z r. (1 + z) * (1 + r) + z * r) zs rs)"

lemma mle_eq_weight: "length zs = length rs \<Longrightarrow>
    (\<Sum>l<2 ^ length rs. eq_weight rs l * eq_weight zs l) = eq_agree zs rs"
proof (induction zs rs rule: list_induct2)
  case (Cons z zs r rs)
  have "(\<Sum>l<2 ^ length (r # rs). eq_weight (r # rs) l * eq_weight (z # zs) l) =
      (\<Sum>l<2 ^ length rs. ((1 + z) * (1 + r) + z * r) * (eq_weight rs l * eq_weight zs l))"
    using sum_pairs [of "\<lambda>l. eq_weight (r # rs) l * eq_weight (z # zs) l" "2 ^ length rs"]
    by (auto intro!: sum.cong simp: algebra_simps)
  with Cons show ?case by (simp add: eq_agree_def sum_distrib_left [symmetric])
qed (simp add: eq_agree_def)

end
