(* ===== verification/Sumcheck_Kernels.thy ===== *)
theory Sumcheck_Kernels
  imports Multilinear
begin

text \<open>
  The sumcheck kernels of \<open>pcs/src/whir.rs\<close>: the round messages and folds over adjacent
  elements and over lanes, with their chunks and stages, and the basis that is streamed instead of
  stored. The field types, their unreduced accumulators and the thread pool belong to other crates
  and are the fields of \<open>primitives\<close>; the trait \<open>RoundWitness\<close> is a record with one value
  per implementation.
\<close>

section \<open>External primitives\<close>

text \<open>\<open>parallel::map_reduce(n, identity, map, combine)\<close>.\<close>

type_synonym 'a map_reduce = "nat \<Rightarrow> 'a \<Rightarrow> (nat \<Rightarrow> 'a) \<Rightarrow> ('a \<Rightarrow> 'a \<Rightarrow> 'a) \<Rightarrow> 'a"

text \<open>\<open>'k\<close> is \<open>F64\<close>, \<open>'e\<close> is \<open>F192\<close>, \<open>'u\<close> and \<open>'w\<close> are \<open>F192BaseUnreduced\<close> and
  \<open>F192Unreduced\<close>. \<open>pr_uninit n\<close> is what an uninitialised buffer of length \<open>n\<close> holds.\<close>

record ('k, 'e, 'u, 'w) primitives =
  pr_from :: "'k \<Rightarrow> 'e"
  pr_mul_base :: "'e \<Rightarrow> 'k \<Rightarrow> 'e"
  pr_base_zero :: 'u
  pr_base_xor :: "'u \<Rightarrow> 'u \<Rightarrow> 'u"
  pr_base_mul :: "'e \<Rightarrow> 'k \<Rightarrow> 'u"
  pr_base_reduce :: "'u \<Rightarrow> 'e"
  pr_ext_zero :: 'w
  pr_ext_xor :: "'w \<Rightarrow> 'w \<Rightarrow> 'w"
  pr_ext_mul :: "'e \<Rightarrow> 'e \<Rightarrow> 'w"
  pr_ext_reduce :: "'w \<Rightarrow> 'e"
  pr_base_par :: "('u \<times> 'u) map_reduce"
  pr_ext_par :: "('w \<times> 'w) map_reduce"
  pr_eval_par :: "('e \<times> 'e \<times> 'e) map_reduce"
  pr_sum_par :: "'e map_reduce"
  pr_uninit :: "nat \<Rightarrow> 'e list"

definition PAR_THRESHOLD :: nat where "PAR_THRESHOLD = 4096"
definition ROUND_CHUNK :: nat where "ROUND_CHUNK = 2048"
definition INITIAL_BASIS_CHUNK :: nat where "INITIAL_BASIS_CHUNK = 256"
definition STAGE :: nat where "STAGE = 128"

definition div_ceil :: "nat \<Rightarrow> nat \<Rightarrow> nat" where
  "div_ceil a b = (a + b - 1) div b"

definition window :: "'a list \<Rightarrow> nat \<Rightarrow> nat \<Rightarrow> 'a list" where
  "window xs start len = take len (drop start xs)"

text \<open>A task writes windows of a shared buffer.\<close>

definition write_window :: "'a list \<Rightarrow> nat \<times> 'a list \<Rightarrow> 'a list" where
  "write_window buf w = take (fst w) buf @ snd w @ drop (fst w + length (snd w)) buf"

definition write_windows :: "'a list \<Rightarrow> (nat \<times> 'a list) list \<Rightarrow> 'a list" where
  "write_windows buf ws = foldl write_window buf ws"

definition is_power_of_two :: "nat \<Rightarrow> bool" where
  "is_power_of_two n \<longleftrightarrow> list_ex (\<lambda>k. n = 2 ^ k) [0..<64]"

definition inner_product_base_ext ::
  "('k, 'e::comm_ring_1, 'u, 'w) primitives \<Rightarrow> 'k list \<Rightarrow> 'e list \<Rightarrow> 'e outcome" where
  "inner_product_base_ext P witness b =
     (if length witness \<noteq> length b then Crash
      else if length witness < PAR_THRESHOLD
      then Value (foldl (+) 0 (map2 (\<lambda>w e. pr_mul_base P e w) witness b))
      else Value (pr_sum_par P (length witness) 0 (\<lambda>i. pr_mul_base P (b ! i) (witness ! i)) (+)))"

section \<open>Round messages\<close>

record 'e sumcheck_message =
  u_0 :: 'e
  u_2 :: 'e

text \<open>\<open>RoundQuad\<close>: the coefficients of \<open>c + b X + a X\<^sup>2\<close>.\<close>

record 'e round_quad =
  rq_c :: 'e
  rq_b :: 'e
  rq_a :: 'e

definition quad_from_msg :: "'e::comm_ring_1 sumcheck_message \<Rightarrow> 'e \<Rightarrow> 'e round_quad" where
  "quad_from_msg msg t_r = \<lparr>rq_c = u_0 msg, rq_b = t_r + u_2 msg, rq_a = u_2 msg\<rparr>"

definition quad_eval :: "'e::comm_ring_1 round_quad \<Rightarrow> 'e \<Rightarrow> 'e" where
  "quad_eval q r = (rq_a q * r + rq_b q) * r + rq_c q"

definition quad_fold :: "'e::comm_ring_1 round_quad \<Rightarrow> 'e round_quad \<Rightarrow> 'e \<Rightarrow> 'e round_quad" where
  "quad_fold p1 p2 alpha = \<lparr>rq_c = rq_c p1 + alpha * rq_c p2, rq_b = rq_b p1 + alpha * rq_b p2,
     rq_a = rq_a p1 + alpha * rq_a p2\<rparr>"

section \<open>The two kinds of witness\<close>

record ('t, 'a, 'e) round_witness =
  rw_add :: "'t \<Rightarrow> 't \<Rightarrow> 't"
  rw_zero_acc :: 'a
  rw_xor :: "'a \<Rightarrow> 'a \<Rightarrow> 'a"
  rw_mul_basis :: "'t \<Rightarrow> 'e \<Rightarrow> 'a"
  rw_reduce :: "'a \<Rightarrow> 'e"
  rw_fold_pair :: "'t \<Rightarrow> 't \<Rightarrow> 'e \<Rightarrow> 'e"
  rw_fold_lone :: "'t \<Rightarrow> 'e \<Rightarrow> 'e"
  rw_par :: "('a \<times> 'a) map_reduce"

definition rw_base :: "('k::plus, 'e::comm_ring_1, 'u, 'w) primitives \<Rightarrow> ('k, 'u, 'e) round_witness" where
  "rw_base P = \<lparr>rw_add = (+), rw_zero_acc = pr_base_zero P, rw_xor = pr_base_xor P,
     rw_mul_basis = \<lambda>x b. pr_base_mul P b x, rw_reduce = pr_base_reduce P,
     rw_fold_pair = \<lambda>x0 x1 r. pr_from P x0 + pr_mul_base P r (x0 + x1),
     rw_fold_lone = \<lambda>x0 r. pr_from P x0 + pr_mul_base P r x0,
     rw_par = pr_base_par P\<rparr>"

definition rw_ext :: "('k, 'e::comm_ring_1, 'u, 'w) primitives \<Rightarrow> ('e, 'w, 'e) round_witness" where
  "rw_ext P = \<lparr>rw_add = (+), rw_zero_acc = pr_ext_zero P, rw_xor = pr_ext_xor P,
     rw_mul_basis = \<lambda>x b. pr_ext_mul P x b, rw_reduce = pr_ext_reduce P,
     rw_fold_pair = \<lambda>x0 x1 r. x0 + r * (x0 + x1),
     rw_fold_lone = \<lambda>x0 r. x0 + r * x0,
     rw_par = pr_ext_par P\<rparr>"

definition xor2 :: "('t, 'a, 'e) round_witness \<Rightarrow> 'a \<times> 'a \<Rightarrow> 'a \<times> 'a \<Rightarrow> 'a \<times> 'a" where
  "xor2 W x y = (rw_xor W (fst x) (fst y), rw_xor W (snd x) (snd y))"

definition accumulate_msg ::
  "('t, 'a, 'e) round_witness \<Rightarrow> nat \<Rightarrow> nat \<Rightarrow> 'a \<Rightarrow> (nat \<Rightarrow> 'a \<times> 'a) \<Rightarrow> 'a \<times> 'a" where
  "accumulate_msg W n_tasks n_pairs zero task =
     (if n_pairs < PAR_THRESHOLD then foldl (\<lambda>u t. xor2 W u (task t)) (zero, zero) [0..<n_tasks]
      else rw_par W n_tasks (zero, zero) task (xor2 W))"

definition reduce_msg :: "('t, 'a, 'e) round_witness \<Rightarrow> 'a \<times> 'a \<Rightarrow> 'e sumcheck_message" where
  "reduce_msg W u = \<lparr>u_0 = rw_reduce W (fst u), u_2 = rw_reduce W (snd u)\<rparr>"

section \<open>Adjacent pairs\<close>

definition round_msg_lsb :: "('t, 'a, 'e::comm_ring_1) round_witness \<Rightarrow> 't list \<Rightarrow> 'e list \<Rightarrow> 'e sumcheck_message" where
  "round_msg_lsb W f b =
     (let half = length f div 2;
          term = (\<lambda>j. let f0 = f ! (2 * j); f1 = f ! (2 * j + 1); b0 = b ! (2 * j); b1 = b ! (2 * j + 1)
            in (rw_mul_basis W f0 b0, rw_mul_basis W (rw_add W f0 f1) (b0 + b1)))
      in reduce_msg W (accumulate_msg W half half (rw_zero_acc W) term))"

definition round_msg_and_eval_lsb_ext ::
  "('k, 'e::comm_ring_1, 'u, 'w) primitives \<Rightarrow> 'e list \<Rightarrow> 'e list \<Rightarrow> 'e sumcheck_message \<times> 'e" where
  "round_msg_and_eval_lsb_ext P f b =
     (let term = (\<lambda>j. let f0 = f ! (2 * j); f1 = f ! (2 * j + 1); b0 = b ! (2 * j); b1 = b ! (2 * j + 1);
            e0 = f0 * b0 in (e0, (f0 + f1) * (b0 + b1), e0 + f1 * b1));
          add3 = (\<lambda>(a0, a2, ay) (b0, b2, wy). (a0 + b0, a2 + b2, ay + wy));
          half = length f div 2;
          (m0, m2, y) = (if half < PAR_THRESHOLD then foldl add3 (0, 0, 0) (map term [0..<half])
            else pr_eval_par P half (0, 0, 0) term add3)
      in (\<lparr>u_0 = m0, u_2 = m2\<rparr>, y))"

definition fold_msg_terms ::
  "('k, 'e::comm_ring_1, 'u, 'w) primitives \<Rightarrow> 'e list \<Rightarrow> 'e list \<Rightarrow> 'w \<times> 'w" where
  "fold_msg_terms P nf nb = foldl (\<lambda>u j. let k = 2 * j; f0 = nf ! k; f1 = nf ! (k + 1); b0 = nb ! k; b1 = nb ! (k + 1)
       in xor2 (rw_ext P) u (pr_ext_mul P f0 b0, pr_ext_mul P (f0 + f1) (b0 + b1)))
     (pr_ext_zero P, pr_ext_zero P) [0..<length nf div 2]"

text \<open>One chunk of the parallel path: the windows of the two buffers from \<open>base\<close> on.\<close>

definition lsb_chunk ::
  "('t, 'a, 'e::comm_ring_1) round_witness \<Rightarrow> 't list \<Rightarrow> 'e \<Rightarrow> nat \<Rightarrow> nat \<times> 'e list" where
  "lsb_chunk W f r ci =
     (let half = length f div 2; base = ci * ROUND_CHUNK; len = min ROUND_CHUNK (half - base)
      in (base, map (\<lambda>t. let j = base + t in rw_fold_pair W (f ! (2 * j)) (f ! (2 * j + 1)) r) [0..<len]))"

definition fold_and_msg_lsb ::
  "('k, 'e::comm_ring_1, 'u, 'w) primitives \<Rightarrow> ('t, 'a, 'e) round_witness \<Rightarrow> 't list \<Rightarrow> 'e list \<Rightarrow> 'e
     \<Rightarrow> 'e list \<times> 'e list \<times> 'e sumcheck_message" where
  "fold_and_msg_lsb P W f b r =
     (let half = length f div 2; X = rw_ext P in
      if half < PAR_THRESHOLD then
        (let nf = map (\<lambda>j. rw_fold_pair W (f ! (2 * j)) (f ! (2 * j + 1)) r) [0..<half];
             nb = map (\<lambda>j. rw_fold_pair X (b ! (2 * j)) (b ! (2 * j + 1)) r) [0..<half]
         in (nf, nb, reduce_msg X (fold_msg_terms P nf nb)))
      else
        (let n = div_ceil half ROUND_CHUNK;
             u = pr_ext_par P n (pr_ext_zero P, pr_ext_zero P)
               (\<lambda>ci. fold_msg_terms P (snd (lsb_chunk W f r ci)) (snd (lsb_chunk X b r ci))) (xor2 X)
         in (write_windows (pr_uninit P half) (map (lsb_chunk W f r) [0..<n]),
             write_windows (pr_uninit P half) (map (lsb_chunk X b r) [0..<n]), reduce_msg X u)))"

section \<open>Lanes\<close>

definition msg_terms_pair ::
  "('t, 'a, 'e::comm_ring_1) round_witness \<Rightarrow> 't list \<Rightarrow> 't list \<Rightarrow> 'e list \<Rightarrow> 'e list \<Rightarrow> 'a \<times> 'a" where
  "msg_terms_pair W f0 f1 b0 b1 = foldl (\<lambda>u (((x0, x1), y0), y1).
       xor2 W u (rw_mul_basis W x0 y0, rw_mul_basis W (rw_add W x0 x1) (y0 + y1)))
     (rw_zero_acc W, rw_zero_acc W) (zip (zip (zip f0 f1) b0) b1)"

definition msg_terms_lone :: "('t, 'a, 'e) round_witness \<Rightarrow> 't list \<Rightarrow> 'e list \<Rightarrow> 'a \<times> 'a" where
  "msg_terms_lone W f0 b0 =
     (let u = foldl (\<lambda>u (x0, y0). rw_xor W u (rw_mul_basis W x0 y0)) (rw_zero_acc W) (zip f0 b0) in (u, u))"

definition block_task ::
  "('t, 'a, 'e::comm_ring_1) round_witness \<Rightarrow> 't list \<Rightarrow> 'e list \<Rightarrow> nat \<Rightarrow> nat \<Rightarrow> 'a \<times> 'a" where
  "block_task W f b block t =
     (let n_blocks = length f div block; per = div_ceil block ROUND_CHUNK;
          i = t div per; c = t mod per; x0 = c * ROUND_CHUNK; len = min ROUND_CHUNK (block - x0);
          lo = 2 * i * block + x0
      in if 2 * i + 1 < n_blocks
         then msg_terms_pair W (window f lo len) (window f (lo + block) len) (window b lo len) (window b (lo + block) len)
         else msg_terms_lone W (window f lo len) (window b lo len))"

definition round_msg_blocks ::
  "('t, 'a, 'e::comm_ring_1) round_witness \<Rightarrow> 't list \<Rightarrow> 'e list \<Rightarrow> nat \<Rightarrow> 'e sumcheck_message outcome" where
  "round_msg_blocks W f b block =
     (if length b \<noteq> length f \<or> \<not> (block > 0 \<and> block dvd length f) then Crash
      else Value (reduce_msg W (accumulate_msg W (div_ceil (length f div block) 2 * div_ceil block ROUND_CHUNK)
        (length f div 2) (rw_zero_acc W) (block_task W f b block))))"

text \<open>A lane task of \<open>build_initial_basis\<close>: its message and its windows of the basis. The stack
  buffers start as zeros; \<open>fill\<close> is called on the part of one that it has to fill.\<close>

definition basis_task ::
  "('t, 'a, 'e::comm_ring_1) round_witness \<Rightarrow> 't list \<Rightarrow> nat \<Rightarrow> (nat \<Rightarrow> 'e list \<Rightarrow> 'e list) \<Rightarrow> nat
     \<Rightarrow> ('a \<times> 'a) \<times> (nat \<times> 'e list) list" where
  "basis_task W f block fill t =
     (let n_blocks = length f div block; per = div_ceil block INITIAL_BASIS_CHUNK;
          pair = t div per; chunk = t mod per; offset = chunk * INITIAL_BASIS_CHUNK;
          len = min INITIAL_BASIS_CHUNK (block - offset);
          lo = 2 * pair * block + offset; hi = lo + block;
          b0 = fill lo (replicate len 0)
      in if 2 * pair + 1 < n_blocks
         then (let b1 = fill hi (replicate len 0)
           in (msg_terms_pair W (window f lo len) (window f hi len) b0 b1, [(hi, b1), (lo, b0)]))
         else (msg_terms_lone W (window f lo len) b0, [(lo, b0)]))"

definition build_initial_basis ::
  "('k::plus, 'e::comm_ring_1, 'u, 'w) primitives \<Rightarrow> 'k list \<Rightarrow> nat \<Rightarrow> (nat \<Rightarrow> 'e list \<Rightarrow> 'e list)
     \<Rightarrow> ('e list \<times> 'e sumcheck_message) outcome" where
  "build_initial_basis P f block fill =
     (if \<not> (is_power_of_two block \<and> block dvd length f) then Crash
      else
        (let W = rw_base P; n_blocks = length f div block; per = div_ceil block INITIAL_BASIS_CHUNK;
             n_tasks = div_ceil n_blocks 2 * per;
             task = basis_task W f block fill;
             u = accumulate_msg W n_tasks (length f div 2) (pr_base_zero P) (\<lambda>t. fst (task t))
         in Value (write_windows (pr_uninit P (length f)) (concat (map (\<lambda>t. snd (task t)) [0..<n_tasks])),
              reduce_msg W u)))"

text \<open>\<open>fold_block\<close> on one of the two buffers: the stage it fills and publishes.\<close>

definition lane_stage ::
  "('t, 'a, 'e::comm_ring_1) round_witness \<Rightarrow> 't list \<Rightarrow> 'e \<Rightarrow> nat \<Rightarrow> nat \<Rightarrow> nat \<Rightarrow> nat \<Rightarrow> 'e list" where
  "lane_stage W f r block out_blk x0 len =
     (let n_in = length f div block; src0 = 2 * out_blk * block + x0; src1 = src0 + block;
          lo = window f src0 len
      in if 2 * out_blk + 1 < n_in then map2 (\<lambda>x0 x1. rw_fold_pair W x0 x1 r) lo (window f src1 len)
         else map (\<lambda>x0. rw_fold_lone W x0 r) lo)"

text \<open>One step of \<open>(0..len).step_by(STAGE)\<close> of a task: the message of the stage, its windows of
  the folded witness and of the folded basis.\<close>

definition stage_step ::
  "('k, 'e::comm_ring_1, 'u, 'w) primitives \<Rightarrow> ('t, 'a, 'e) round_witness \<Rightarrow> 't list \<Rightarrow> 'e list \<Rightarrow> 'e \<Rightarrow> nat
     \<Rightarrow> bool \<Rightarrow> nat \<Rightarrow> nat \<Rightarrow> nat \<Rightarrow> ('w \<times> 'w) \<times> (nat \<times> 'e list) list \<times> (nat \<times> 'e list) list" where
  "stage_step P W f b r block final i x0 n =
     (let X = rw_ext P; n_out = div_ceil (length f div block) 2;
          lo_f = lane_stage W f r block (2 * i) x0 n; lo_b = lane_stage X b r block (2 * i) x0 n;
          lo = 2 * i * block + x0; hi = (2 * i + 1) * block + x0
      in if 2 * i + 1 < n_out
         then (let hi_f = lane_stage W f r block (2 * i + 1) x0 n;
                   hi_b = lane_stage X b r block (2 * i + 1) x0 n
           in (msg_terms_pair X lo_f hi_f lo_b hi_b, [(lo, lo_f), (hi, hi_f)], [(lo, lo_b), (hi, hi_b)]))
         else if final then (fold_msg_terms P lo_f lo_b, [(lo, lo_f)], [(lo, lo_b)])
         else (msg_terms_lone X lo_f lo_b, [(lo, lo_f)], [(lo, lo_b)]))"

definition fold_task ::
  "('k, 'e::comm_ring_1, 'u, 'w) primitives \<Rightarrow> ('t, 'a, 'e) round_witness \<Rightarrow> 't list \<Rightarrow> 'e list \<Rightarrow> 'e \<Rightarrow> nat
     \<Rightarrow> bool \<Rightarrow> nat \<Rightarrow> ('w \<times> 'w) \<times> (nat \<times> 'e list) list \<times> (nat \<times> 'e list) list" where
  "fold_task P W f b r block final t =
     (let per = div_ceil block ROUND_CHUNK; i = t div per; c = t mod per;
          x0 = c * ROUND_CHUNK; len = min ROUND_CHUNK (block - x0);
          steps = map (\<lambda>j. let s = j * STAGE in stage_step P W f b r block final i (x0 + s) (min STAGE (len - s)))
            [0..<div_ceil len STAGE]
      in (foldl (\<lambda>acc st. xor2 (rw_ext P) acc (fst st)) (pr_ext_zero P, pr_ext_zero P) steps,
          concat (map (\<lambda>st. fst (snd st)) steps), concat (map (\<lambda>st. snd (snd st)) steps)))"

definition fold_and_msg_blocks ::
  "('k, 'e::comm_ring_1, 'u, 'w) primitives \<Rightarrow> ('t, 'a, 'e) round_witness \<Rightarrow> 't list \<Rightarrow> 'e list \<Rightarrow> 'e \<Rightarrow> nat
     \<Rightarrow> bool \<Rightarrow> ('e list \<times> 'e list \<times> 'e sumcheck_message) outcome" where
  "fold_and_msg_blocks P W f b r block final =
     (let n_in = length f div block; n_out = div_ceil n_in 2 in
      if length b \<noteq> length f \<or> \<not> (block > 0 \<and> block dvd length f) \<or> \<not> (\<not> final \<or> n_out = 1) then Crash
      else
        (let n_tasks = div_ceil n_out 2 * div_ceil block ROUND_CHUNK;
             task = fold_task P W f b r block final;
             u = accumulate_msg (rw_ext P) n_tasks (length f div 2) (pr_ext_zero P) (\<lambda>t. fst (task t));
             buf = pr_uninit P (n_out * block)
         in Value (write_windows buf (concat (map (\<lambda>t. fst (snd (task t))) [0..<n_tasks])),
              write_windows buf (concat (map (\<lambda>t. snd (snd (task t))) [0..<n_tasks])),
              reduce_msg (rw_ext P) u)))"

section \<open>A basis that is streamed\<close>

record ('k, 'e) streamed_lane_basis =
  sb_witness :: "'k list"
  sb_block :: nat
  sb_fill :: "nat \<Rightarrow> 'e list \<Rightarrow> 'e list"

text \<open>\<open>folded_chunk\<close> fills two chunks of length \<open>n\<close>; the state of the loop holds them and the
  buffer \<open>original_basis\<close>.\<close>

definition chunk_step ::
  "('k, 'e::comm_ring_1, 'u, 'w) primitives \<Rightarrow> ('k, 'e) streamed_lane_basis \<Rightarrow> 'e list \<Rightarrow> nat \<Rightarrow> nat \<Rightarrow> nat
     \<Rightarrow> 'e list \<times> 'e list \<times> 'e list \<Rightarrow> nat \<Rightarrow> 'e list \<times> 'e list \<times> 'e list" where
  "chunk_step P S weights lane offset n st index =
     (let (f, b, original_basis) = st; weight = weights ! index;
          start = (lane * length weights + index) * sb_block S + offset;
          original = window (sb_witness S) start n;
          original_basis = sb_fill S start (take n original_basis) @ drop n original_basis
      in if length weights = 1
         then (map2 (\<lambda>dst value. pr_from P value) f original, take n original_basis, original_basis)
         else (map2 (\<lambda>dst value. dst + pr_mul_base P weight value) f original,
           map2 (\<lambda>dst value. dst + weight * value) b original_basis, original_basis))"

definition folded_chunk ::
  "('k, 'e::comm_ring_1, 'u, 'w) primitives \<Rightarrow> ('k, 'e) streamed_lane_basis \<Rightarrow> 'e list \<Rightarrow> nat \<Rightarrow> nat \<Rightarrow> nat
     \<Rightarrow> 'e list \<times> 'e list" where
  "folded_chunk P S weights lane offset n =
     (let n_lanes = length (sb_witness S) div sb_block S; first = lane * length weights;
          (f, b, _) = foldl (chunk_step P S weights lane offset n)
            (replicate n 0, replicate n 0, replicate INITIAL_BASIS_CHUNK 0)
            [0..<min (length weights) (n_lanes - first)]
      in (f, b))"

definition streamed_task ::
  "('k, 'e::comm_ring_1, 'u, 'w) primitives \<Rightarrow> ('k, 'e) streamed_lane_basis \<Rightarrow> 'e list \<Rightarrow> nat \<Rightarrow> 'w \<times> 'w" where
  "streamed_task P S weights task =
     (let X = rw_ext P; n_lanes = div_ceil (length (sb_witness S) div sb_block S) (length weights);
          per = div_ceil (sb_block S) INITIAL_BASIS_CHUNK; pair = task div per; chunk = task mod per;
          offset = chunk * INITIAL_BASIS_CHUNK; len = min INITIAL_BASIS_CHUNK (sb_block S - offset);
          (f0, b0) = folded_chunk P S weights (2 * pair) offset len
      in if 2 * pair + 1 < n_lanes
         then (let (f1, b1) = folded_chunk P S weights (2 * pair + 1) offset len
           in msg_terms_pair X f0 f1 b0 b1)
         else msg_terms_lone X f0 b0)"

definition streamed_message ::
  "('k, 'e::comm_ring_1, 'u, 'w) primitives \<Rightarrow> ('k, 'e) streamed_lane_basis \<Rightarrow> 'e list \<Rightarrow> 'e sumcheck_message" where
  "streamed_message P S weights =
     (let n_lanes = div_ceil (length (sb_witness S) div sb_block S) (length weights);
          per = div_ceil (sb_block S) INITIAL_BASIS_CHUNK
      in reduce_msg (rw_ext P) (accumulate_msg (rw_ext P) (div_ceil n_lanes 2 * per)
        (length (sb_witness S) div 2) (pr_ext_zero P) (streamed_task P S weights)))"

definition streamed_collapse ::
  "('k, 'e::comm_ring_1, 'u, 'w) primitives \<Rightarrow> ('k, 'e) streamed_lane_basis \<Rightarrow> 'e list
     \<Rightarrow> ('e list \<times> 'e list \<times> 'e sumcheck_message) outcome" where
  "streamed_collapse P S weights =
     (if length weights < length (sb_witness S) div sb_block S then Crash
      else
        (let per = div_ceil (sb_block S) INITIAL_BASIS_CHUNK;
             chunk = (\<lambda>c. let start = c * INITIAL_BASIS_CHUNK;
                 len = min INITIAL_BASIS_CHUNK (sb_block S - start)
               in (start, folded_chunk P S weights 0 start len));
             u = accumulate_msg (rw_ext P) per (length (sb_witness S) div 2) (pr_ext_zero P)
               (\<lambda>c. let (fc, bc) = snd (chunk c) in fold_msg_terms P fc bc);
             buf = pr_uninit P (sb_block S)
         in Value (write_windows buf (map (\<lambda>c. (fst (chunk c), fst (snd (chunk c)))) [0..<per]),
              write_windows buf (map (\<lambda>c. (fst (chunk c), snd (snd (chunk c)))) [0..<per]),
              reduce_msg (rw_ext P) u)))"

end
