(* ===== verification/Sumcheck_Prover.thy ===== *)
theory Sumcheck_Prover
  imports Sumcheck_Kernels
begin

text \<open>
  The running sumcheck of \<open>pcs/src/whir.rs\<close>: \<open>SumcheckProver\<close> with its operations, the
  lane rounds over a stored basis and over a streamed one, and the claims taken after a commitment.
  The transcript belongs to another crate: \<open>transmitter\<close> holds the operations of its prover side
  that the code calls, over a state of any type.
\<close>

section \<open>The transcript of the prover\<close>

record ('p, 'e, 'h, 'm) transmitter =
  ps_add_round_poly :: "'e list \<Rightarrow> bool \<Rightarrow> 'p \<Rightarrow> 'p"
  ps_add_scalar :: "'e \<Rightarrow> 'p \<Rightarrow> 'p"
  ps_add_scalars :: "'e list \<Rightarrow> 'p \<Rightarrow> 'p"
  ps_add_root :: "'h \<Rightarrow> 'p \<Rightarrow> 'p"
  ps_hint_merkle :: "'m \<Rightarrow> 'p \<Rightarrow> 'p"
  ps_sample :: "'p \<Rightarrow> 'e \<times> 'p"
  ps_sample_vec :: "nat \<Rightarrow> 'p \<Rightarrow> 'e list \<times> 'p"
  ps_grind :: "nat \<Rightarrow> 'p \<Rightarrow> 'p"

definition send_msg ::
  "('p, 'e::comm_ring_1, 'h, 'm) transmitter \<Rightarrow> 'e sumcheck_message \<Rightarrow> 'e \<Rightarrow> 'p \<Rightarrow> 'p" where
  "send_msg T m claim ps = ps_add_round_poly T [u_0 m, claim + u_2 m, u_2 m] False ps"

section \<open>The state\<close>

datatype ('k, 'e) witness = Base_Witness "'k list" | Ext_Witness "'e list"

record ('k, 'e) sumcheck_prover =
  sp_f :: "('k, 'e) witness"
  sp_combined_basis :: "'e list"
  sp_t_r :: 'e
  sp_quad :: "'e round_quad"
  sp_round :: nat
  sp_pending :: "('e list \<times> 'e \<times> 'e round_quad) list"

definition witness_len :: "('k, 'e) witness \<Rightarrow> nat" where
  "witness_len w = (case w of Base_Witness f \<Rightarrow> length f | Ext_Witness f \<Rightarrow> length f)"

definition prover_new ::
  "('k::plus, 'e::comm_ring_1, 'u, 'w) primitives \<Rightarrow> 'k list \<Rightarrow> 'e list \<Rightarrow> 'e \<Rightarrow> nat \<Rightarrow> 'e sumcheck_message option
     \<Rightarrow> (('k, 'e) sumcheck_prover \<times> 'e sumcheck_message) outcome" where
  "prover_new P f b1 h1 block initial_message =
     (if length f \<noteq> length b1 then Crash
      else obind (case initial_message of Some msg \<Rightarrow> Value msg | None \<Rightarrow> round_msg_blocks (rw_base P) f b1 block)
        (\<lambda>msg. Value (\<lparr>sp_f = Base_Witness f, sp_combined_basis = b1, sp_t_r = h1,
           sp_quad = quad_from_msg msg h1, sp_round = 0, sp_pending = []\<rparr>, msg)))"

text \<open>\<open>ilog2\<close> of an empty witness panics in both folds.\<close>

definition fold_lane ::
  "('k::plus, 'e::comm_ring_1, 'u, 'w) primitives \<Rightarrow> ('k, 'e) sumcheck_prover \<Rightarrow> 'e \<Rightarrow> nat \<Rightarrow> bool
     \<Rightarrow> (('k, 'e) sumcheck_prover \<times> 'e sumcheck_message) outcome" where
  "fold_lane P sp r block final =
     (let t_r = quad_eval (sp_quad sp) r in
      if witness_len (sp_f sp) = 0 then Crash
      else obind (case sp_f sp of
          Base_Witness f \<Rightarrow> fold_and_msg_blocks P (rw_base P) f (sp_combined_basis sp) r block final
        | Ext_Witness f \<Rightarrow> fold_and_msg_blocks P (rw_ext P) f (sp_combined_basis sp) r block final)
        (\<lambda>(nf, nb, msg). Value (sp\<lparr>sp_t_r := t_r, sp_round := sp_round sp + 1, sp_f := Ext_Witness nf,
           sp_combined_basis := nb, sp_quad := quad_from_msg msg t_r\<rparr>, msg)))"

definition prover_fold ::
  "('k::plus, 'e::comm_ring_1, 'u, 'w) primitives \<Rightarrow> ('k, 'e) sumcheck_prover \<Rightarrow> 'e
     \<Rightarrow> (('k, 'e) sumcheck_prover \<times> 'e sumcheck_message) outcome" where
  "prover_fold P sp r =
     (let t_r = quad_eval (sp_quad sp) r in
      if witness_len (sp_f sp) = 0 then Crash
      else
        (let (nf, nb, msg) = (case sp_f sp of
             Base_Witness f \<Rightarrow> fold_and_msg_lsb P (rw_base P) f (sp_combined_basis sp) r
           | Ext_Witness f \<Rightarrow> fold_and_msg_lsb P (rw_ext P) f (sp_combined_basis sp) r)
         in Value (sp\<lparr>sp_t_r := t_r, sp_round := sp_round sp + 1, sp_f := Ext_Witness nf,
              sp_combined_basis := nb, sp_quad := quad_from_msg msg t_r\<rparr>, msg)))"

definition introduce_new ::
  "('k::plus, 'e::comm_ring_1, 'u, 'w) primitives \<Rightarrow> ('k, 'e) sumcheck_prover \<Rightarrow> 'e list \<Rightarrow> 'e
     \<Rightarrow> (('k, 'e) sumcheck_prover \<times> 'e sumcheck_message) outcome" where
  "introduce_new P sp b_new h_new =
     (if length b_new \<noteq> witness_len (sp_f sp) then Crash
      else
        (let msg = (case sp_f sp of Base_Witness f \<Rightarrow> round_msg_lsb (rw_base P) f b_new
             | Ext_Witness f \<Rightarrow> round_msg_lsb (rw_ext P) f b_new)
         in Value (sp\<lparr>sp_pending := sp_pending sp @ [(b_new, h_new, quad_from_msg msg h_new)]\<rparr>, msg)))"

definition introduce_new_with_eval ::
  "('k, 'e::comm_ring_1, 'u, 'w) primitives \<Rightarrow> ('k, 'e) sumcheck_prover \<Rightarrow> 'e list
     \<Rightarrow> (('k, 'e) sumcheck_prover \<times> 'e sumcheck_message \<times> 'e) outcome" where
  "introduce_new_with_eval P sp b_new =
     (case sp_f sp of
        Base_Witness _ \<Rightarrow> Crash
      | Ext_Witness f \<Rightarrow>
          if length b_new \<noteq> length f then Crash
          else
            (let (msg, h_new) = round_msg_and_eval_lsb_ext P f b_new
             in Value (sp\<lparr>sp_pending := sp_pending sp @ [(b_new, h_new, quad_from_msg msg h_new)]\<rparr>, msg, h_new)))"

text \<open>One pending claim of \<open>glue_pending\<close>; the loop carries the prover and the scalar.\<close>

fun glue_claims ::
  "'e::comm_ring_1 \<Rightarrow> 'e \<Rightarrow> ('e list \<times> 'e \<times> 'e round_quad) list \<Rightarrow> ('k, 'e) sumcheck_prover
     \<Rightarrow> ('k, 'e) sumcheck_prover outcome" where
  "glue_claims lambda scalar [] sp = Value sp"
| "glue_claims lambda scalar ((b_new, h_new, quad_new) # pending) sp =
     (let scalar = scalar * lambda in
      if length b_new \<noteq> length (sp_combined_basis sp) then Crash
      else glue_claims lambda scalar pending (sp\<lparr>
        sp_combined_basis := map2 (\<lambda>acc v. acc + scalar * v) (sp_combined_basis sp) b_new,
        sp_t_r := sp_t_r sp + scalar * h_new,
        sp_quad := quad_fold (sp_quad sp) quad_new scalar\<rparr>))"

definition glue_pending :: "'e::comm_ring_1 \<Rightarrow> ('k, 'e) sumcheck_prover \<Rightarrow> ('k, 'e) sumcheck_prover outcome" where
  "glue_pending lambda sp =
     (if sp_pending sp = [] then Crash
      else glue_claims lambda 1 (sp_pending sp) (sp\<lparr>sp_pending := []\<rparr>))"

definition f_ext :: "('k, 'e) sumcheck_prover \<Rightarrow> 'e list outcome" where
  "f_ext sp = (case sp_f sp of Ext_Witness f \<Rightarrow> Value f | Base_Witness _ \<Rightarrow> Crash)"

section \<open>Lane rounds\<close>

text \<open>The loop of the dense basis: \<open>j\<close> rounds of \<open>initial_k\<close> are left.\<close>

fun dense_rounds ::
  "('k::plus, 'e::comm_ring_1, 'u, 'w) primitives \<Rightarrow> ('p, 'e, 'h, 'm) transmitter \<Rightarrow> nat \<Rightarrow> nat
     \<Rightarrow> ('k, 'e) sumcheck_prover \<Rightarrow> 'e list \<Rightarrow> 'p \<Rightarrow> (('k, 'e) sumcheck_prover \<times> 'e list \<times> 'p) outcome" where
  "dense_rounds P T lane_block 0 prover challenges ps = Value (prover, challenges, ps)"
| "dense_rounds P T lane_block (Suc left) prover challenges ps =
     (let (challenge, ps) = ps_sample T ps in
      obind (fold_lane P prover challenge lane_block (left = 0)) (\<lambda>(prover, msg).
      dense_rounds P T lane_block left prover (challenges @ [challenge]) (send_msg T msg (sp_t_r prover) ps)))"

definition dense_lane_rounds ::
  "('k::plus, 'e::comm_ring_1, 'u, 'w) primitives \<Rightarrow> ('p, 'e, 'h, 'm) transmitter \<Rightarrow> 'k list \<Rightarrow> nat \<Rightarrow> nat
     \<Rightarrow> 'e list \<Rightarrow> 'e sumcheck_message option \<Rightarrow> 'e \<Rightarrow> 'p
     \<Rightarrow> (('k, 'e) sumcheck_prover \<times> 'e list \<times> 'p) outcome" where
  "dense_lane_rounds P T witness lane_block initial_k b_initial initial_message target ps =
     obind (prover_new P witness b_initial target lane_block initial_message) (\<lambda>(prover, start_msg).
     dense_rounds P T lane_block initial_k prover [] (send_msg T start_msg target ps))"

text \<open>The loop of \<open>streamed_lane_rounds\<close> with its message, claim and challenges; leaving it without
  a return is \<open>unreachable!\<close>.\<close>

fun streamed_rounds ::
  "('k, 'e::comm_ring_1, 'u, 'w) primitives \<Rightarrow> ('p, 'e, 'h, 'm) transmitter \<Rightarrow> ('k, 'e) streamed_lane_basis \<Rightarrow> nat
     \<Rightarrow> nat \<Rightarrow> 'e sumcheck_message \<Rightarrow> 'e \<Rightarrow> 'e list \<Rightarrow> 'p
     \<Rightarrow> (('k, 'e) sumcheck_prover \<times> 'e list \<times> 'p) outcome" where
  "streamed_rounds P T basis rounds 0 message claim challenges ps = Crash"
| "streamed_rounds P T basis rounds (Suc left) message claim challenges ps =
     (let (challenge, ps) = ps_sample T ps;
          claim = quad_eval (quad_from_msg message claim) challenge;
          challenges = challenges @ [challenge];
          weights = build_eq_table_ext challenges
      in if left = 0
         then obind (streamed_collapse P basis weights) (\<lambda>(f, combined_basis, message).
           Value (\<lparr>sp_f = Ext_Witness f, sp_combined_basis = combined_basis, sp_t_r = claim,
             sp_quad = quad_from_msg message claim, sp_round = rounds, sp_pending = []\<rparr>,
             challenges, send_msg T message claim ps))
         else (let message = streamed_message P basis weights
           in streamed_rounds P T basis rounds left message claim challenges (send_msg T message claim ps)))"

definition streamed_lane_rounds ::
  "('k, 'e::comm_ring_1, 'u, 'w) primitives \<Rightarrow> ('p, 'e, 'h, 'm) transmitter \<Rightarrow> 'k list \<Rightarrow> nat \<Rightarrow> nat
     \<Rightarrow> (nat \<Rightarrow> 'e list \<Rightarrow> 'e list) \<Rightarrow> 'e \<Rightarrow> 'p \<Rightarrow> (('k, 'e) sumcheck_prover \<times> 'e list \<times> 'p) outcome" where
  "streamed_lane_rounds P T witness block rounds fill target ps =
     (if \<not> (rounds > 0 \<and> is_power_of_two block \<and> block dvd length witness) then Crash
      else if \<not> length witness div block \<le> 2 ^ rounds then Crash
      else
        (let basis = \<lparr>sb_witness = witness, sb_block = block, sb_fill = fill\<rparr>;
             message = streamed_message P basis [1]
         in streamed_rounds P T basis rounds rounds message target [] (send_msg T message target ps)))"

end
