(* ===== verification/Whir_Verifier.thy ===== *)
theory Whir_Verifier
  imports Sumcheck_Prover
begin

text \<open>
  The verifier of an opening (\<open>recursive_verifier_with_basis_succinct\<close> of
  \<open>pcs/src/whir.rs\<close>) and what it shares with the prover: query sampling, rows of extension
  elements and the replay of rounds, claims and batches. The transcript and the code behind the
  commitment (induced bases, transforms, Merkle trees) belong to other crates and are the fields of
  \<open>receiver\<close> and \<open>pcs_externals\<close>.
\<close>

section \<open>External code\<close>

text \<open>\<open>next_round_poly\<close> is always called with \<open>None\<close> as its last argument.\<close>

record ('v, 'e, 'h, 'k, 'x) receiver =
  vs_next_round_poly :: "nat \<Rightarrow> 'e \<Rightarrow> 'v \<Rightarrow> 'x + 'e list \<times> 'v"
  vs_next_scalar :: "'v \<Rightarrow> 'x + 'e \<times> 'v"
  vs_next_scalars :: "nat \<Rightarrow> 'v \<Rightarrow> 'x + 'e list \<times> 'v"
  vs_next_root :: "'v \<Rightarrow> 'x + 'h \<times> 'v"
  vs_next_merkle_batch :: "'h \<Rightarrow> nat \<Rightarrow> nat list \<Rightarrow> nat \<Rightarrow> nat \<Rightarrow> 'v \<Rightarrow> 'x + 'k list list \<times> 'v"
  vs_sample :: "'v \<Rightarrow> 'e \<times> 'v"
  vs_sample_vec :: "nat \<Rightarrow> 'v \<Rightarrow> 'e list \<times> 'v"
  vs_grind_check :: "nat \<Rightarrow> 'v \<Rightarrow> 'x + 'v"

text \<open>\<open>'s\<close> is the table of \<open>eval_sk_at_vks\<close>, \<open>'n\<close> the transform, \<open>'m\<close> a pruned opening.
  The three words of an extension element are its limbs.\<close>

record ('k, 'e, 'h, 'm, 's, 'n) pcs_externals =
  px_powers :: "'e \<Rightarrow> nat \<Rightarrow> 'e list"
  px_eq_eval :: "'e list \<Rightarrow> 'e list \<Rightarrow> 'e"
  px_eq_table_arena :: "'e list \<Rightarrow> 'e list"
  px_limbs :: "'e \<Rightarrow> u64 \<times> u64 \<times> u64"
  px_from_limbs :: "u64 \<Rightarrow> u64 \<Rightarrow> u64 \<Rightarrow> 'e"
  px_word :: "u64 \<Rightarrow> 'k"
  px_unword :: "'k \<Rightarrow> u64"
  px_eval_sk_at_vks :: "nat \<Rightarrow> 's"
  px_induce_auto_base :: "nat \<Rightarrow> nat \<Rightarrow> 's \<Rightarrow> 'k list list \<Rightarrow> 'e list \<Rightarrow> nat list \<Rightarrow> 'e list \<Rightarrow> 'e list \<times> 'e"
  px_induce_poly :: "nat \<Rightarrow> 's \<Rightarrow> 'e list list \<Rightarrow> 'e list \<Rightarrow> nat list \<Rightarrow> 'e list \<Rightarrow> 'e list \<times> 'e"
  px_enforced_sum_base :: "'k list list \<Rightarrow> 'e list \<Rightarrow> nat list \<Rightarrow> 'e list \<Rightarrow> 'e"
  px_enforced_sum_ext :: "'e list list \<Rightarrow> 'e list \<Rightarrow> nat list \<Rightarrow> 'e list \<Rightarrow> 'e"
  px_residual :: "nat \<Rightarrow> 's \<Rightarrow> nat list \<Rightarrow> 'e list \<Rightarrow> 'e list \<Rightarrow> nat \<Rightarrow> 'e list"
  px_ntt_standard :: "nat \<Rightarrow> 'n"
  px_log_domain_size :: "'n \<Rightarrow> nat"
  px_transpose_lane_major :: "'k list \<Rightarrow> nat \<Rightarrow> nat \<Rightarrow> 'k list"
  px_encode_interleaved :: "'n \<Rightarrow> 'k list \<Rightarrow> nat \<Rightarrow> nat \<Rightarrow> 'k list"
  px_forward_ext :: "'n \<Rightarrow> 'e list \<Rightarrow> nat \<Rightarrow> nat \<Rightarrow> 'e list"
  px_ext_bytes :: "'e list \<Rightarrow> byte list"
  px_merkle_tree :: "byte list \<Rightarrow> nat \<Rightarrow> 'h list"
  px_merkle_tree_padded_rows :: "'k list \<Rightarrow> nat \<Rightarrow> nat \<Rightarrow> nat \<Rightarrow> 'h list"
  px_prune :: "'h list \<Rightarrow> nat \<Rightarrow> nat list \<Rightarrow> (nat \<Rightarrow> 'k list) \<Rightarrow> 'm"

record whir_config =
  wc_initial_k :: nat
  wc_level_steps :: nat
  wc_level_ks :: "nat list"
  wc_log_inv_rates :: "nat list"
  wc_ood_samples :: "nat list"
  wc_grinding_bits :: "nat list"
  wc_queries :: "nat list"

datatype 'x verify_error = Transcript_Error 'x | InvalidShape | TerminalMismatch

section \<open>Verifier computations\<close>

text \<open>A computation that reads the transcript, may fail with an error and may panic; the verifier of an
  opening fails with its own errors.\<close>

type_synonym ('v, 'err, 'a) reading = "'v \<Rightarrow> ('err + 'a \<times> 'v) outcome"
type_synonym ('v, 'x, 'a) verifier = "('v, 'x verify_error, 'a) reading"

definition vret :: "'a \<Rightarrow> ('v, 'err, 'a) reading" where
  "vret a = (\<lambda>v. Value (Inr (a, v)))"

definition vbind :: "('v, 'err, 'a) reading \<Rightarrow> ('a \<Rightarrow> ('v, 'err, 'b) reading) \<Rightarrow> ('v, 'err, 'b) reading" where
  "vbind m k = (\<lambda>v. obind (m v) (\<lambda>r. case r of Inl e \<Rightarrow> Value (Inl e) | Inr (a, v') \<Rightarrow> k a v'))"

definition vfail :: "'err \<Rightarrow> ('v, 'err, 'a) reading" where
  "vfail e = (\<lambda>_. Value (Inl e))"

text \<open>A pure step that may panic, a fallible read and a read that cannot fail.\<close>

definition vlift :: "'a outcome \<Rightarrow> ('v, 'err, 'a) reading" where
  "vlift m = (\<lambda>v. obind m (\<lambda>a. Value (Inr (a, v))))"

definition vread :: "('v \<Rightarrow> 'x + 'a \<times> 'v) \<Rightarrow> ('v, 'x, 'a) verifier" where
  "vread m = (\<lambda>v. Value (map_err Transcript_Error (m v)))"

definition vtake :: "('v \<Rightarrow> 'a \<times> 'v) \<Rightarrow> ('v, 'err, 'a) reading" where
  "vtake m = (\<lambda>v. Value (Inr (m v)))"

definition vgrind :: "('v, 'e, 'h, 'k, 'x) receiver \<Rightarrow> nat \<Rightarrow> ('v, 'x, unit) verifier" where
  "vgrind R bits = (\<lambda>v. Value (map_err Transcript_Error (rbind (vs_grind_check R bits v) (\<lambda>v. Inr ((), v)))))"

definition vcheck :: "bool \<Rightarrow> 'err \<Rightarrow> ('v, 'err, unit) reading" where
  "vcheck c e = (if c then vret () else vfail e)"

text \<open>Indexing and subtraction of \<open>usize\<close> panic out of range.\<close>

definition index :: "'a list \<Rightarrow> nat \<Rightarrow> 'a outcome" where
  "index xs i = (if i < length xs then Value (xs ! i) else Crash)"

definition usize_sub :: "nat \<Rightarrow> nat \<Rightarrow> nat outcome" where
  "usize_sub a b = (if b \<le> a then Value (a - b) else Crash)"

section \<open>Query positions\<close>

definition trailing_zeros :: "nat \<Rightarrow> nat" where
  "trailing_zeros n = (if n = 0 then 64 else length (takeWhile (\<lambda>k. even (n div 2 ^ k)) [0..<64]))"

text \<open>Chunk \<open>j\<close> of \<open>d\<close> bits of the three limbs.\<close>

definition query_chunk :: "u64 \<times> u64 \<times> u64 \<Rightarrow> nat \<Rightarrow> nat \<Rightarrow> u64 outcome" where
  "query_chunk v d j =
     (let (c0, c1, c2) = v; off = j * d; limbs = [c0, c1, c2]; li = off div 64; sh = off mod 64 in
      obind (index limbs li) (\<lambda>lo.
      let chunk = drop_bit sh lo in
      if sh + d > 64 then obind (index limbs (li + 1)) (\<lambda>hi. Value (or chunk (push_bit (64 - sh) hi)))
      else Value chunk))"

fun query_chunks :: "u64 \<times> u64 \<times> u64 \<Rightarrow> nat \<Rightarrow> nat \<Rightarrow> nat list \<Rightarrow> nat list outcome" where
  "query_chunks v d block_len [] = Value []"
| "query_chunks v d block_len (j # js) =
     obind (query_chunk v d j) (\<lambda>chunk.
     obind (usize_sub block_len 1) (\<lambda>mask.
     obind (query_chunks v d block_len js) (\<lambda>out.
     Value (unat (and chunk (of_nat mask)) # out))))"

lemma length_query_chunks: "query_chunks v d block_len js = Value out \<Longrightarrow> length out = length js"
  by (induction js arbitrary: out) (auto simp: dec_simps)

text \<open>The loop squeezes an element while positions are missing. Chunks are at most 64 bits wide, so
  each element yields at least three; the case of none is not reached.\<close>

function sample_loop ::
  "('e \<Rightarrow> u64 \<times> u64 \<times> u64) \<Rightarrow> ('s \<Rightarrow> 'e \<times> 's) \<Rightarrow> nat \<Rightarrow> nat \<Rightarrow> nat \<Rightarrow> nat list \<Rightarrow> 's \<Rightarrow> (nat list \<times> 's) outcome" where
  "sample_loop limbs sample d block_len count out s =
     (if length out < count then
        (if 192 div d = 0 then Crash
         else
           (let (v, s) = sample s in
            case query_chunks (limbs v) d block_len [0..<min (192 div d) (count - length out)] of
              Crash \<Rightarrow> Crash
            | Value new \<Rightarrow> sample_loop limbs sample d block_len count (out @ new) s))
      else Value (out, s))"
  by pat_completeness auto
termination
  by (relation "measure (\<lambda>(_, _, _, _, count, out, _). count - length out)") (auto dest!: length_query_chunks)

definition sample_queries_ordered ::
  "('e \<Rightarrow> u64 \<times> u64 \<times> u64) \<Rightarrow> ('s \<Rightarrow> 'e \<times> 's) \<Rightarrow> nat \<Rightarrow> nat \<Rightarrow> 's \<Rightarrow> (nat list \<times> 's) outcome" where
  "sample_queries_ordered limbs sample block_len count s =
     (let d = trailing_zeros block_len in
      if d = 0 then Crash else sample_loop limbs sample d block_len count [] s)"

text \<open>The verifier samples with its own transcript.\<close>

definition vqueries ::
  "('k, 'e, 'h, 'm, 's, 'n) pcs_externals \<Rightarrow> ('v, 'e, 'h, 'k, 'x) receiver \<Rightarrow> nat \<Rightarrow> nat \<Rightarrow> ('v, 'x, nat list) verifier" where
  "vqueries X R block_len count = (\<lambda>v. obind (sample_queries_ordered (px_limbs X) (vs_sample R) block_len count v)
     (\<lambda>r. Value (Inr r)))"

section \<open>Rows of extension elements\<close>

definition ext_row_words :: "('k, 'e, 'h, 'm, 's, 'n) pcs_externals \<Rightarrow> 'e list \<Rightarrow> 'k list" where
  "ext_row_words X row = concat (map (\<lambda>v. let (c0, c1, c2) = px_limbs X v in [px_word X c0, px_word X c1, px_word X c2]) row)"

text \<open>\<open>words.chunks(3)\<close>; a last chunk of fewer than three words panics.\<close>

fun ext_row_from_words :: "('k, 'e, 'h, 'm, 's, 'n) pcs_externals \<Rightarrow> 'k list \<Rightarrow> 'e list outcome" where
  "ext_row_from_words X [] = Value []"
| "ext_row_from_words X (c0 # c1 # c2 # words) =
     obind (ext_row_from_words X words) (\<lambda>row.
     Value (px_from_limbs X (px_unword X c0) (px_unword X c1) (px_unword X c2) # row))"
| "ext_row_from_words X [c0] = Crash"
| "ext_row_from_words X [c0, c1] = Crash"

fun decode_rows :: "('a \<Rightarrow> 'b outcome) \<Rightarrow> 'a list \<Rightarrow> 'b list outcome" where
  "decode_rows decode [] = Value []"
| "decode_rows decode (row # rows) =
     obind (decode row) (\<lambda>y. obind (decode_rows decode rows) (\<lambda>ys. Value (y # ys)))"

section \<open>Replaying the sumcheck\<close>

definition recv_quad :: "('v, 'e, 'h, 'k, 'x) receiver \<Rightarrow> 'e \<Rightarrow> ('v, 'x, 'e round_quad) verifier" where
  "recv_quad R claim =
     vbind (vread (vs_next_round_poly R 3 claim)) (\<lambda>h.
     vbind (vlift (index h 0)) (\<lambda>c. vbind (vlift (index h 1)) (\<lambda>b. vbind (vlift (index h 2)) (\<lambda>a.
     vret \<lparr>rq_c = c, rq_b = b, rq_a = a\<rparr>))))"

text \<open>The rounds left, the running claim and quadratic, the challenges so far.\<close>

fun replay_rounds ::
  "('v, 'e::comm_ring_1, 'h, 'k, 'x) receiver \<Rightarrow> nat \<Rightarrow> 'e \<Rightarrow> 'e round_quad \<Rightarrow> 'e list
     \<Rightarrow> ('v, 'x, 'e list \<times> 'e \<times> 'e round_quad) verifier" where
  "replay_rounds R 0 t_r quad rs = vret (rs, t_r, quad)"
| "replay_rounds R (Suc k) t_r quad rs =
     vbind (vtake (vs_sample R)) (\<lambda>ri.
     let t_r = quad_eval quad ri in
     vbind (recv_quad R t_r) (\<lambda>quad. replay_rounds R k t_r quad (rs @ [ri])))"

definition replay_fold_rounds ::
  "('v, 'e::comm_ring_1, 'h, 'k, 'x) receiver \<Rightarrow> nat \<Rightarrow> 'e \<Rightarrow> 'e round_quad
     \<Rightarrow> ('v, 'x, 'e list \<times> 'e \<times> 'e round_quad) verifier" where
  "replay_fold_rounds R k t_r running_quad = replay_rounds R k t_r running_quad []"

record 'e ood_replay =
  or_z :: "'e list"
  or_y :: 'e
  or_intro_quad :: "'e round_quad"

definition replay_ood :: "('v, 'e, 'h, 'k, 'x) receiver \<Rightarrow> nat \<Rightarrow> ('v, 'x, 'e ood_replay) verifier" where
  "replay_ood R n_vars =
     vbind (vtake (vs_sample_vec R n_vars)) (\<lambda>z.
     vbind (vread (vs_next_scalar R)) (\<lambda>y.
     vbind (recv_quad R y) (\<lambda>intro_quad.
     vret \<lparr>or_z = z, or_y = y, or_intro_quad = intro_quad\<rparr>)))"

fun replay_oods :: "('v, 'e, 'h, 'k, 'x) receiver \<Rightarrow> nat \<Rightarrow> nat \<Rightarrow> ('v, 'x, 'e ood_replay list) verifier" where
  "replay_oods R n_vars 0 = vret []"
| "replay_oods R n_vars (Suc count) =
     vbind (replay_ood R n_vars) (\<lambda>ood. vbind (replay_oods R n_vars count) (\<lambda>level_ood. vret (ood # level_ood)))"

definition batch_level_claims ::
  "'e::comm_ring_1 \<Rightarrow> 'e ood_replay list \<Rightarrow> 'e round_quad \<Rightarrow> 'e \<Rightarrow> 'e \<Rightarrow> 'e round_quad
     \<Rightarrow> 'e list \<times> 'e \<times> 'e \<times> 'e round_quad" where
  "batch_level_claims lambda ood query_intro query_sum t_r running_quad =
     (let (scalar, ood_scalars, t_r, running_quad) = foldl (\<lambda>(scalar, ood_scalars, t_r, running_quad) claim.
            let scalar = scalar * lambda
            in (scalar, ood_scalars @ [scalar], t_r + scalar * or_y claim,
                quad_fold running_quad (or_intro_quad claim) scalar)) (1, [], t_r, running_quad) ood;
          scalar = scalar * lambda
      in (ood_scalars, scalar, t_r + scalar * query_sum, quad_fold running_quad query_intro scalar))"

definition recv_level_rows ::
  "('v, 'e, 'h, 'k, 'x) receiver \<Rightarrow> 'h \<Rightarrow> nat \<Rightarrow> nat list \<Rightarrow> nat \<Rightarrow> nat \<Rightarrow> ('k list \<Rightarrow> 'b outcome)
     \<Rightarrow> ('v, 'x, 'b list) verifier" where
  "recv_level_rows R root block_len queries row_words leaf_words decode =
     vbind (vread (vs_next_merkle_batch R root block_len queries row_words leaf_words)) (\<lambda>rows.
     vlift (decode_rows decode rows))"

definition l0_row_ascending :: "'k list \<Rightarrow> 'k list outcome" where
  "l0_row_ascending row = Value (rev row)"

section \<open>The succinct verifier\<close>

record 'h prev_level =
  pl_root :: 'h
  pl_log_num_interleaved :: nat
  pl_log_msg_cols :: nat
  pl_log_inv_rate :: nat

definition block_len :: "'h prev_level \<Rightarrow> nat" where
  "block_len prev = 2 ^ (pl_log_msg_cols prev + pl_log_inv_rate prev)"

definition num_interleaved :: "'h prev_level \<Rightarrow> nat" where
  "num_interleaved prev = 2 ^ pl_log_num_interleaved prev"

definition advance :: "'h \<Rightarrow> nat \<Rightarrow> nat \<Rightarrow> nat \<Rightarrow> 'h prev_level option" where
  "advance root k_next n_current log_inv_rate =
     (if k_next \<le> n_current then Some \<lparr>pl_root = root, pl_log_num_interleaved = k_next,
        pl_log_msg_cols = n_current - k_next, pl_log_inv_rate = log_inv_rate\<rparr> else None)"

record 'e ood_ctx =
  oc_z :: "'e list"
  oc_ris_start :: nat
  oc_beta :: 'e

record 'e level_ctx =
  lc_log_msg_cols :: nat
  lc_queries :: "nat list"
  lc_weights :: "'e list"
  lc_ris_start :: nat
  lc_beta :: 'e

text \<open>The variables of the function that live across levels.\<close>

record ('e, 'h) verify_state =
  vf_t_r :: 'e
  vf_quad :: "'e round_quad"
  vf_ris :: "'e list"
  vf_prev :: "'h prev_level"
  vf_n_current :: nat
  vf_level_ctxs :: "'e level_ctx list"
  vf_ood_ctxs :: "'e ood_ctx list"

definition ood_count :: "whir_config \<Rightarrow> nat \<Rightarrow> nat" where
  "ood_count config lvl = (if lvl < length (wc_ood_samples config) then wc_ood_samples config ! lvl else 0)"

definition ood_contexts :: "'e ood_replay list \<Rightarrow> 'e list \<Rightarrow> nat \<Rightarrow> 'e ood_ctx list" where
  "ood_contexts level_ood scalars start =
     map2 (\<lambda>ood scalar. \<lparr>oc_z = or_z ood, oc_ris_start = start, oc_beta = scalar\<rparr>) level_ood scalars"

definition verify_shape :: "whir_config \<Rightarrow> nat \<Rightarrow> bool" where
  "verify_shape config n_lanes \<longleftrightarrow>
     \<not> (n_lanes = 0 \<or> n_lanes > 2 ^ wc_initial_k config) \<and>
     \<not> (wc_level_steps config < 1 \<or> length (wc_level_ks config) \<noteq> wc_level_steps config \<or>
        length (wc_log_inv_rates config) \<noteq> wc_level_steps config + 1) \<and>
     ood_count config 0 = 0"

text \<open>Level 0: the initial rounds, the first root with its claims, and the openings of the initial
  commitment.\<close>

definition verify_level0 ::
  "('k, 'e::comm_ring_1, 'h, 'm, 's, 'n) pcs_externals \<Rightarrow> ('v, 'e, 'h, 'k, 'x) receiver \<Rightarrow> whir_config \<Rightarrow> nat \<Rightarrow> nat
     \<Rightarrow> 'e \<Rightarrow> 'h \<Rightarrow> ('v, 'x, ('e, 'h) verify_state) verifier" where
  "verify_level0 X R config log_n n_lanes target expected_initial_root =
     vbind (vlift (index (wc_log_inv_rates config) 0)) (\<lambda>log_inv_rate_0.
     vbind (vlift (usize_sub log_n (wc_initial_k config))) (\<lambda>n1.
     let block_len_0 = 2 ^ (n1 + log_inv_rate_0) in
     vbind (recv_quad R target) (\<lambda>quad.
     vbind (replay_fold_rounds R (wc_initial_k config) target quad) (\<lambda>(r_lane_fold, t_r, quad).
     vbind (vread (vs_next_root R)) (\<lambda>root_1.
     vbind (replay_oods R n1 (ood_count config 1)) (\<lambda>level_ood.
     vbind (vlift (index (wc_grinding_bits config) 0)) (\<lambda>bits.
     vbind (vgrind R bits) (\<lambda>_.
     vbind (vlift (index (wc_queries config) 0)) (\<lambda>num_queries_0.
     vbind (vqueries X R block_len_0 num_queries_0) (\<lambda>queries_0.
     vbind (vtake (vs_sample R)) (\<lambda>lambda_0.
     let weights_0 = px_powers X lambda_0 num_queries_0 in
     vbind (recv_level_rows R expected_initial_root block_len_0 queries_0 n_lanes (2 ^ wc_initial_k config)
       l0_row_ascending) (\<lambda>rows_0.
     let enforced_sum_0 = px_enforced_sum_base X rows_0 r_lane_fold queries_0 weights_0 in
     vbind (recv_quad R enforced_sum_0) (\<lambda>intro_quad_0.
     let (ood_scalars_0, query_scalar_0, t_r, quad) =
           batch_level_claims lambda_0 level_ood intro_quad_0 enforced_sum_0 t_r quad in
     vbind (vlift (index (wc_level_ks config) 0)) (\<lambda>k_0.
     vbind (vlift (usize_sub n1 k_0)) (\<lambda>log_msg_cols_1.
     vbind (vlift (index (wc_log_inv_rates config) 1)) (\<lambda>log_inv_rate_1.
     vret \<lparr>vf_t_r = t_r, vf_quad = quad, vf_ris = r_lane_fold,
       vf_prev = \<lparr>pl_root = root_1, pl_log_num_interleaved = k_0, pl_log_msg_cols = log_msg_cols_1,
         pl_log_inv_rate = log_inv_rate_1\<rparr>,
       vf_n_current = n1,
       vf_level_ctxs = [\<lparr>lc_log_msg_cols = n1, lc_queries = queries_0, lc_weights = weights_0,
         lc_ris_start = wc_initial_k config, lc_beta = query_scalar_0\<rparr>],
       vf_ood_ctxs = ood_contexts level_ood ood_scalars_0 (wc_initial_k config)\<rparr>))))))))))))))))"

text \<open>What every level does first: its folds, which bind \<open>k_i\<close> variables.\<close>

definition verify_folds ::
  "('v, 'e::comm_ring_1, 'h, 'k, 'x) receiver \<Rightarrow> whir_config \<Rightarrow> nat \<Rightarrow> ('e, 'h) verify_state
     \<Rightarrow> ('v, 'x, 'e list \<times> ('e, 'h) verify_state) verifier" where
  "verify_folds R config i st =
     vbind (vlift (index (wc_level_ks config) i)) (\<lambda>k_i.
     vbind (vcheck (\<not> vf_n_current st < k_i) InvalidShape) (\<lambda>_.
     vbind (replay_fold_rounds R k_i (vf_t_r st) (vf_quad st)) (\<lambda>(level_rs, t_r, quad).
     vret (level_rs, st\<lparr>vf_t_r := t_r, vf_quad := quad, vf_ris := vf_ris st @ level_rs,
       vf_n_current := vf_n_current st - k_i\<rparr>))))"

text \<open>The openings of the previous commitment: the positions, the weights, the enforced sum and the
  message that introduces it.\<close>

definition verify_openings ::
  "('k, 'e::comm_ring_1, 'h, 'm, 's, 'n) pcs_externals \<Rightarrow> ('v, 'e, 'h, 'k, 'x) receiver \<Rightarrow> whir_config \<Rightarrow> nat
     \<Rightarrow> 'e list \<Rightarrow> 'h prev_level \<Rightarrow> ('v, 'x, nat list \<times> 'e \<times> 'e list \<times> 'e \<times> 'e round_quad) verifier" where
  "verify_openings X R config i level_rs prev =
     vbind (vlift (index (wc_grinding_bits config) (i + 1))) (\<lambda>bits.
     vbind (vgrind R bits) (\<lambda>_.
     vbind (vlift (index (wc_queries config) (i + 1))) (\<lambda>num_queries.
     vbind (vqueries X R (block_len prev) num_queries) (\<lambda>queries.
     vbind (vtake (vs_sample R)) (\<lambda>lambda.
     let weights = px_powers X lambda num_queries; leaf_words = 3 * num_interleaved prev in
     vbind (recv_level_rows R (pl_root prev) (block_len prev) queries leaf_words leaf_words
       (ext_row_from_words X)) (\<lambda>rows.
     let enforced_sum = px_enforced_sum_ext X rows level_rs queries weights in
     vbind (recv_quad R enforced_sum) (\<lambda>intro_quad.
     vret (queries, lambda, weights, enforced_sum, intro_quad))))))))"

text \<open>The residual rounds; the last one has no message.\<close>

fun replay_tail ::
  "('v, 'e::comm_ring_1, 'h, 'k, 'x) receiver \<Rightarrow> nat \<Rightarrow> 'e \<Rightarrow> 'e round_quad \<Rightarrow> 'e list
     \<Rightarrow> ('v, 'x, 'e list \<times> 'e) verifier" where
  "replay_tail R 0 t_r quad ris_tail = vret (ris_tail, t_r)"
| "replay_tail R (Suc left) t_r quad ris_tail =
     vbind (vtake (vs_sample R)) (\<lambda>ri.
     let t_r = quad_eval quad ri in
     if left = 0 then replay_tail R left t_r quad (ris_tail @ [ri])
     else vbind (recv_quad R t_r) (\<lambda>quad. replay_tail R left t_r quad (ris_tail @ [ri])))"

definition level_weight ::
  "('k, 'e::comm_ring_1, 'h, 'm, 's, 'n) pcs_externals \<Rightarrow> 'e list \<Rightarrow> 'e list \<Rightarrow> 'e level_ctx
     \<Rightarrow> ('x verify_error + 'e) outcome" where
  "level_weight X ris ris_tail ctx =
     (let yr_log_n = length ris_tail in
      if lc_log_msg_cols ctx < yr_log_n \<or> lc_ris_start ctx + (lc_log_msg_cols ctx - yr_log_n) > length ris
      then Value (Inl InvalidShape)
      else
        (let folded = lc_log_msg_cols ctx - yr_log_n;
             point = window ris (lc_ris_start ctx) folded @ ris_tail;
             at = px_residual X (lc_log_msg_cols ctx) (px_eval_sk_at_vks X (lc_log_msg_cols ctx))
               (lc_queries ctx) (lc_weights ctx) point 0
         in if length at \<noteq> 1 then Value (Inl InvalidShape) else Value (Inr (lc_beta ctx * at ! 0))))"

definition ood_weight ::
  "('k, 'e::comm_ring_1, 'h, 'm, 's, 'n) pcs_externals \<Rightarrow> 'e list \<Rightarrow> 'e list \<Rightarrow> 'e ood_ctx
     \<Rightarrow> ('x verify_error + 'e) outcome" where
  "ood_weight X ris ris_tail ctx =
     (let yr_log_n = length ris_tail in
      if length (oc_z ctx) < yr_log_n \<or> oc_ris_start ctx + (length (oc_z ctx) - yr_log_n) > length ris
      then Value (Inl InvalidShape)
      else
        (let folded = length (oc_z ctx) - yr_log_n;
             scalar = foldl (\<lambda>scalar b. scalar * (1 + oc_z ctx ! b + ris ! (oc_ris_start ctx + b)))
               (oc_beta ctx) [0..<folded]
         in Value (Inr (scalar * px_eq_eval X (drop folded (oc_z ctx)) ris_tail))))"

text \<open>\<open>for ctx in .. { weight += .. }\<close> with early returns.\<close>

fun sum_weights :: "('c \<Rightarrow> ('x verify_error + 'e::comm_ring_1) outcome) \<Rightarrow> 'c list \<Rightarrow> 'e \<Rightarrow> ('x verify_error + 'e) outcome" where
  "sum_weights f [] weight = Value (Inr weight)"
| "sum_weights f (ctx # ctxs) weight =
     obind (f ctx) (\<lambda>r. case r of Inl e \<Rightarrow> Value (Inl e) | Inr w \<Rightarrow> sum_weights f ctxs (weight + w))"

definition rotate_left :: "nat \<Rightarrow> 'a list \<Rightarrow> 'a list outcome" where
  "rotate_left k xs = (if k \<le> length xs then Value (drop k xs @ take k xs) else Crash)"

definition verify_terminal ::
  "('k, 'e::comm_ring_1, 'h, 'm, 's, 'n) pcs_externals \<Rightarrow> whir_config \<Rightarrow> ('e list \<Rightarrow> 'e) \<Rightarrow> ('e, 'h) verify_state
     \<Rightarrow> 'e list \<Rightarrow> 'e list \<Rightarrow> 'e \<Rightarrow> ('x verify_error + unit) outcome" where
  "verify_terminal X config eval_b_at st yr ris_tail t_r =
     obind (sum_weights (level_weight X (vf_ris st) ris_tail) (vf_level_ctxs st) 0) (\<lambda>r. case r of
       Inl e \<Rightarrow> Value (Inl e)
     | Inr weight \<Rightarrow>
     obind (sum_weights (ood_weight X (vf_ris st) ris_tail) (vf_ood_ctxs st) weight) (\<lambda>r. case r of
       Inl e \<Rightarrow> Value (Inl e)
     | Inr weight \<Rightarrow>
     obind (rotate_left (wc_initial_k config) (vf_ris st @ ris_tail)) (\<lambda>full_point.
     obind (mle_eval_ext yr ris_tail) (\<lambda>y.
     Value (rcheck ((weight + eval_b_at full_point) * y = t_r) TerminalMismatch)))))"

definition verify_last ::
  "('k, 'e::comm_ring_1, 'h, 'm, 's, 'n) pcs_externals \<Rightarrow> ('v, 'e, 'h, 'k, 'x) receiver \<Rightarrow> whir_config
     \<Rightarrow> ('e list \<Rightarrow> 'e) \<Rightarrow> nat \<Rightarrow> 'e list \<Rightarrow> ('e, 'h) verify_state \<Rightarrow> ('v, 'x, unit) verifier" where
  "verify_last X R config eval_b_at i level_rs st =
     vbind (vread (vs_next_scalars R (2 ^ vf_n_current st))) (\<lambda>yr.
     vbind (verify_openings X R config i level_rs (vf_prev st))
       (\<lambda>(queries_last, lambda_last, weights_last, enforced_sum_last, intro_quad_last).
     let (_, query_scalar_last, t_r, quad) =
           batch_level_claims lambda_last [] intro_quad_last enforced_sum_last (vf_t_r st) (vf_quad st);
         st = st\<lparr>vf_level_ctxs := vf_level_ctxs st @ [\<lparr>lc_log_msg_cols = vf_n_current st, lc_queries = queries_last,
           lc_weights = weights_last, lc_ris_start = length (vf_ris st), lc_beta = query_scalar_last\<rparr>]\<rparr> in
     vbind (replay_tail R (vf_n_current st) t_r quad []) (\<lambda>(ris_tail, t_r).
     (\<lambda>v. obind (verify_terminal X config eval_b_at st yr ris_tail t_r) (\<lambda>r. Value (map_sum (\<lambda>e. e) (\<lambda>u. (u, v)) r))))))"

definition verify_middle ::
  "('k, 'e::comm_ring_1, 'h, 'm, 's, 'n) pcs_externals \<Rightarrow> ('v, 'e, 'h, 'k, 'x) receiver \<Rightarrow> whir_config
     \<Rightarrow> nat \<Rightarrow> 'e list \<Rightarrow> ('e, 'h) verify_state \<Rightarrow> ('v, 'x, ('e, 'h) verify_state) verifier" where
  "verify_middle X R config i level_rs st =
     vbind (vread (vs_next_root R)) (\<lambda>root_next.
     vbind (replay_oods R (vf_n_current st) (ood_count config (i + 2))) (\<lambda>level_ood.
     vbind (verify_openings X R config i level_rs (vf_prev st))
       (\<lambda>(queries_i, lambda_i, weights_i, enforced_sum_i, intro_quad_i).
     let (ood_scalars_i, query_scalar_i, t_r, quad) =
           batch_level_claims lambda_i level_ood intro_quad_i enforced_sum_i (vf_t_r st) (vf_quad st);
         start = length (vf_ris st) in
     vbind (vlift (index (wc_level_ks config) (i + 1))) (\<lambda>k_next.
     vbind (vlift (index (wc_log_inv_rates config) (i + 2))) (\<lambda>log_inv_rate.
     case advance root_next k_next (vf_n_current st) log_inv_rate of
       None \<Rightarrow> vfail InvalidShape
     | Some prev \<Rightarrow> vret (st\<lparr>vf_t_r := t_r, vf_quad := quad, vf_prev := prev,
         vf_level_ctxs := vf_level_ctxs st @ [\<lparr>lc_log_msg_cols = vf_n_current st, lc_queries = queries_i,
           lc_weights = weights_i, lc_ris_start = start, lc_beta = query_scalar_i\<rparr>],
         vf_ood_ctxs := vf_ood_ctxs st @ ood_contexts level_ood ood_scalars_i start\<rparr>))))))"

text \<open>The loop over the levels; \<open>left\<close> of them remain. Leaving it is \<open>unreachable!\<close>.\<close>

fun verify_levels ::
  "('k, 'e::comm_ring_1, 'h, 'm, 's, 'n) pcs_externals \<Rightarrow> ('v, 'e, 'h, 'k, 'x) receiver \<Rightarrow> whir_config
     \<Rightarrow> ('e list \<Rightarrow> 'e) \<Rightarrow> nat \<Rightarrow> nat \<Rightarrow> ('e, 'h) verify_state \<Rightarrow> ('v, 'x, unit) verifier" where
  "verify_levels X R config eval_b_at i 0 st = vlift Crash"
| "verify_levels X R config eval_b_at i (Suc left) st =
     vbind (verify_folds R config i st) (\<lambda>(level_rs, st).
     if left = 0 then verify_last X R config eval_b_at i level_rs st
     else vbind (verify_middle X R config i level_rs st) (\<lambda>st.
       verify_levels X R config eval_b_at (i + 1) left st))"

definition recursive_verifier_with_basis_succinct ::
  "('k, 'e::comm_ring_1, 'h, 'm, 's, 'n) pcs_externals \<Rightarrow> ('v, 'e, 'h, 'k, 'x) receiver \<Rightarrow> whir_config \<Rightarrow> nat \<Rightarrow> nat
     \<Rightarrow> 'e \<Rightarrow> 'h \<Rightarrow> ('e list \<Rightarrow> 'e) \<Rightarrow> ('v, 'x, unit) verifier" where
  "recursive_verifier_with_basis_succinct X R config log_n n_lanes target expected_initial_root eval_b_at =
     vbind (vcheck (verify_shape config n_lanes) InvalidShape) (\<lambda>_.
     vbind (verify_level0 X R config log_n n_lanes target expected_initial_root) (\<lambda>st.
     verify_levels X R config eval_b_at 0 (wc_level_steps config) st))"

end
