(* ===== verification/Whir_Prover.thy ===== *)
theory Whir_Prover
  imports Whir_Verifier
begin

text \<open>
  The prover of an opening (\<open>recursive_prover_initial_basis\<close> of \<open>pcs/src/whir.rs\<close> and its
  entry points): the commitment of a message, the commitment of a folded witness and the levels of
  the recursion. Timing and tracing are not modelled.
\<close>

section \<open>Commitments\<close>

text \<open>A task copies one chunk of the message into one replica.\<close>

definition COPY_CHUNK :: nat where "COPY_CHUNK = 65536"

definition replicate_message_fill_uninit :: "'a list \<Rightarrow> 'a list \<Rightarrow> 'a list outcome" where
  "replicate_message_fill_uninit codeword msg =
     (if msg = [] then Crash
      else
        (let msg_len = length msg; replicas = length codeword div msg_len; n_chunks = div_ceil msg_len COPY_CHUNK
         in Value (write_windows codeword (map (\<lambda>t. let c = t div replicas; r = t mod replicas;
              start = c * COPY_CHUNK; len = min COPY_CHUNK (msg_len - start)
            in (r * msg_len + start, window msg start len)) [0..<n_chunks * replicas]))))"

text \<open>\<open>uninit n\<close> is what an uninitialised buffer of base elements holds.\<close>

definition encode_codeword ::
  "('k, 'e, 'h, 'm, 's, 'n) pcs_externals \<Rightarrow> (nat \<Rightarrow> 'k list) \<Rightarrow> 'k list \<Rightarrow> nat \<Rightarrow> nat \<Rightarrow> nat \<Rightarrow> 'k list outcome" where
  "encode_codeword X uninit message log_n log_batch_size log_inv_rate =
     (if \<not> 1 \<le> log_inv_rate \<or> \<not> log_batch_size < log_n then Crash
      else
        (let log_rows = log_n - log_batch_size; n_lanes = length message div 2 ^ log_rows in
         if length message \<noteq> n_lanes * 2 ^ log_rows \<or> \<not> (1 \<le> n_lanes \<and> n_lanes \<le> 2 ^ log_batch_size) then Crash
         else
           (let k_code = log_rows + log_inv_rate;
                codeword = uninit (2 ^ k_code * n_lanes);
                codeword = px_transpose_lane_major X message n_lanes log_rows @ drop (length message) codeword
            in Value (px_encode_interleaved X (px_ntt_standard X k_code) codeword n_lanes log_inv_rate))))"

record ('k, 'h) prover_data =
  pd_codeword :: "'k list"
  pd_merkle_tree :: "'h list"

definition commit ::
  "('k, 'e, 'h, 'm, 's, 'n) pcs_externals \<Rightarrow> (nat \<Rightarrow> 'k list) \<Rightarrow> 'k list \<Rightarrow> nat \<Rightarrow> nat \<Rightarrow> nat
     \<Rightarrow> ('h \<times> ('k, 'h) prover_data) outcome" where
  "commit X uninit message log_n log_batch_size log_inv_rate =
     obind (encode_codeword X uninit message log_n log_batch_size log_inv_rate) (\<lambda>codeword.
     let log_rows = log_n - log_batch_size; n_lanes = length message div 2 ^ log_rows;
         n_positions = 2 ^ (log_rows + log_inv_rate);
         merkle_tree = px_merkle_tree_padded_rows X codeword n_positions n_lanes (2 ^ log_batch_size) in
     if merkle_tree = [] then Crash
     else Value (last merkle_tree, \<lparr>pd_codeword = codeword, pd_merkle_tree = merkle_tree\<rparr>))"

record ('e, 'h) ligero_witness =
  lw_mat :: "'e list"
  lw_tree :: "'h list"
  lw_block_len :: nat
  lw_num_interleaved :: nat

definition ligero_row :: "('e, 'h) ligero_witness \<Rightarrow> nat \<Rightarrow> 'e list" where
  "ligero_row w pos = window (lw_mat w) (pos * lw_num_interleaved w) (lw_num_interleaved w)"

definition ligero_root :: "('e, 'h) ligero_witness \<Rightarrow> 'h outcome" where
  "ligero_root w = (if lw_tree w = [] then Crash else Value (lw_tree w ! (length (lw_tree w) - 1)))"

definition ligero_commit_ext ::
  "('k, 'e, 'u, 'w) primitives \<Rightarrow> ('k, 'e, 'h, 'm, 's, 'n) pcs_externals \<Rightarrow> 'e list \<Rightarrow> nat \<Rightarrow> nat \<Rightarrow> nat \<Rightarrow> 'n
     \<Rightarrow> ('e, 'h) ligero_witness outcome" where
  "ligero_commit_ext P X poly log_msg_cols log_num_interleaved log_inv_rate ntt =
     (let msg_cols = 2 ^ log_msg_cols; num_interleaved = 2 ^ log_num_interleaved;
          block_len = msg_cols * 2 ^ log_inv_rate in
      if length poly \<noteq> num_interleaved * msg_cols \<or> \<not> log_msg_cols + log_inv_rate \<le> px_log_domain_size X ntt then Crash
      else obind (replicate_message_fill_uninit (pr_uninit P (block_len * num_interleaved)) poly) (\<lambda>mat.
        let mat = px_forward_ext X ntt mat num_interleaved log_inv_rate
        in Value \<lparr>lw_mat = mat, lw_tree = px_merkle_tree X (px_ext_bytes X mat) block_len,
             lw_block_len = block_len, lw_num_interleaved = num_interleaved\<rparr>))"

section \<open>Claims and openings of a level\<close>

fun send_ood ::
  "('k::plus, 'e::comm_ring_1, 'u, 'w) primitives \<Rightarrow> ('k, 'e, 'h, 'm, 's, 'n) pcs_externals \<Rightarrow> ('p, 'e, 'h, 'm) transmitter
     \<Rightarrow> nat \<Rightarrow> nat \<Rightarrow> ('k, 'e) sumcheck_prover \<Rightarrow> 'p \<Rightarrow> (('k, 'e) sumcheck_prover \<times> 'p) outcome" where
  "send_ood P X T n_vars 0 sc ps = Value (sc, ps)"
| "send_ood P X T n_vars (Suc count) sc ps =
     (let (z, ps) = ps_sample_vec T n_vars ps in
      obind (introduce_new_with_eval P sc (px_eq_table_arena X z)) (\<lambda>(sc, intro, y).
      send_ood P X T n_vars count sc (send_msg T intro y (ps_add_scalar T y ps))))"

definition l0_row :: "'k list \<Rightarrow> nat \<Rightarrow> nat \<Rightarrow> 'k list" where
  "l0_row l0_codeword n_lanes q = window l0_codeword (q * n_lanes) n_lanes"

text \<open>The same row by ascending lane, padded with the absent lanes.\<close>

definition l0_fold_row :: "'k::zero list \<Rightarrow> nat \<Rightarrow> nat \<Rightarrow> nat \<Rightarrow> 'k list" where
  "l0_fold_row l0_codeword n_lanes num_interleaved_0 q =
     foldl (\<lambda>row (t, word). row[n_lanes - 1 - t := word]) (replicate num_interleaved_0 0)
       (zip [0..<n_lanes] (window l0_codeword (q * n_lanes) n_lanes))"

text \<open>The folds of level \<open>i\<close>.\<close>

fun level_folds ::
  "('k::plus, 'e::comm_ring_1, 'u, 'w) primitives \<Rightarrow> ('p, 'e, 'h, 'm) transmitter \<Rightarrow> nat \<Rightarrow> ('k, 'e) sumcheck_prover
     \<Rightarrow> 'e list \<Rightarrow> 'p \<Rightarrow> (('k, 'e) sumcheck_prover \<times> 'e list \<times> 'p) outcome" where
  "level_folds P T 0 sc level_rs ps = Value (sc, level_rs, ps)"
| "level_folds P T (Suc k) sc level_rs ps =
     (let (ri, ps) = ps_sample T ps in
      obind (prover_fold P sc ri) (\<lambda>(sc, msg).
      level_folds P T k sc (level_rs @ [ri]) (send_msg T msg (sp_t_r sc) ps)))"

text \<open>Grinding, positions, the batching challenge with its weights, and the authenticated openings of the
  previous commitment.\<close>

definition open_level ::
  "('k, 'e::comm_ring_1, 'h, 'm, 's, 'n) pcs_externals \<Rightarrow> ('p, 'e, 'h, 'm) transmitter \<Rightarrow> whir_config \<Rightarrow> nat
     \<Rightarrow> ('e, 'h) ligero_witness \<Rightarrow> 'p \<Rightarrow> (nat list \<times> 'e \<times> 'e list \<times> 'e list list \<times> 'p) outcome" where
  "open_level X T config i wtns_prev ps =
     obind (index (wc_grinding_bits config) (i + 1)) (\<lambda>bits.
     let ps = ps_grind T bits ps in
     obind (index (wc_queries config) (i + 1)) (\<lambda>num_queries.
     obind (sample_queries_ordered (px_limbs X) (ps_sample T) (lw_block_len wtns_prev) num_queries ps) (\<lambda>(queries, ps).
     let (lambda, ps) = ps_sample T ps;
         weights = px_powers X lambda num_queries;
         rows = map (ligero_row wtns_prev) queries;
         ps = ps_hint_merkle T (px_prune X (lw_tree wtns_prev) (lw_block_len wtns_prev) queries
           (\<lambda>q. ext_row_words X (ligero_row wtns_prev q))) ps
     in Value (queries, lambda, weights, rows, ps))))"

text \<open>The residual rounds: the last message is never transmitted.\<close>

fun residual_folds ::
  "('k::plus, 'e::comm_ring_1, 'u, 'w) primitives \<Rightarrow> ('p, 'e, 'h, 'm) transmitter \<Rightarrow> nat \<Rightarrow> ('k, 'e) sumcheck_prover
     \<Rightarrow> 'p \<Rightarrow> (('k, 'e) sumcheck_prover \<times> 'p) outcome" where
  "residual_folds P T 0 sc ps = Value (sc, ps)"
| "residual_folds P T (Suc left) sc ps =
     (let (ri, ps) = ps_sample T ps in
      obind (prover_fold P sc ri) (\<lambda>(sc, msg).
      residual_folds P T left sc (if left = 0 then ps else send_msg T msg (sp_t_r sc) ps)))"

definition prove_last ::
  "('k::plus, 'e::comm_ring_1, 'u, 'w) primitives \<Rightarrow> ('k, 'e, 'h, 'm, 's, 'n) pcs_externals \<Rightarrow> ('p, 'e, 'h, 'm) transmitter
     \<Rightarrow> whir_config \<Rightarrow> nat \<Rightarrow> 'e list \<Rightarrow> ('k, 'e) sumcheck_prover \<Rightarrow> ('e, 'h) ligero_witness \<Rightarrow> 'p \<Rightarrow> 'p outcome" where
  "prove_last P X T config i level_rs sc wtns_prev ps =
     obind (f_ext sc) (\<lambda>f.
     let ps = ps_add_scalars T f ps in
     obind (open_level X T config i wtns_prev ps) (\<lambda>(queries, lambda, weights, rows, ps).
     let enforced_sum = px_enforced_sum_ext X rows level_rs queries weights;
         n_res = trailing_zeros (length f);
         basis = px_residual X n_res (px_eval_sk_at_vks X n_res) queries weights [] n_res in
     obind (introduce_new P sc basis enforced_sum) (\<lambda>(sc, intro_msg).
     let ps = send_msg T intro_msg enforced_sum ps in
     obind (glue_pending lambda sc) (\<lambda>sc.
     obind (residual_folds P T n_res sc ps) (\<lambda>(sc, ps). Value ps)))))"

definition prove_middle ::
  "('k::plus, 'e::comm_ring_1, 'u, 'w) primitives \<Rightarrow> ('k, 'e, 'h, 'm, 's, 'n) pcs_externals \<Rightarrow> ('p, 'e, 'h, 'm) transmitter
     \<Rightarrow> whir_config \<Rightarrow> nat \<Rightarrow> 'e list \<Rightarrow> ('k, 'e) sumcheck_prover \<Rightarrow> ('e, 'h) ligero_witness \<Rightarrow> 'p
     \<Rightarrow> (('k, 'e) sumcheck_prover \<times> ('e, 'h) ligero_witness \<times> 'p) outcome" where
  "prove_middle P X T config i level_rs sc wtns_prev ps =
     obind (f_ext sc) (\<lambda>f.
     let n_next = trailing_zeros (length f) in
     obind (index (wc_level_ks config) (i + 1)) (\<lambda>k_next.
     if \<not> k_next \<le> n_next then Crash
     else
       (let log_msg_cols_next = n_next - k_next in
        obind (index (wc_log_inv_rates config) (i + 2)) (\<lambda>log_inv_rate_next.
        obind (ligero_commit_ext P X f log_msg_cols_next k_next log_inv_rate_next
          (px_ntt_standard X (log_msg_cols_next + log_inv_rate_next))) (\<lambda>wtns_next.
        obind (ligero_root wtns_next) (\<lambda>root.
        let ps = ps_add_root T root ps in
        obind (send_ood P X T n_next (ood_count config (i + 2)) sc ps) (\<lambda>(sc, ps).
        obind (open_level X T config i wtns_prev ps) (\<lambda>(queries, lambda, weights, rows, ps).
        let (basis, enforced_sum) = px_induce_poly X n_next (px_eval_sk_at_vks X n_next) rows level_rs queries weights in
        obind (introduce_new P sc basis enforced_sum) (\<lambda>(sc, intro_msg).
        let ps = send_msg T intro_msg enforced_sum ps in
        obind (glue_pending lambda sc) (\<lambda>sc. Value (sc, wtns_next, ps)))))))))))"

fun prove_levels ::
  "('k::plus, 'e::comm_ring_1, 'u, 'w) primitives \<Rightarrow> ('k, 'e, 'h, 'm, 's, 'n) pcs_externals \<Rightarrow> ('p, 'e, 'h, 'm) transmitter
     \<Rightarrow> whir_config \<Rightarrow> nat \<Rightarrow> nat \<Rightarrow> ('k, 'e) sumcheck_prover \<Rightarrow> ('e, 'h) ligero_witness \<Rightarrow> 'p \<Rightarrow> 'p outcome" where
  "prove_levels P X T config i 0 sc wtns_prev ps = Crash"
| "prove_levels P X T config i (Suc left) sc wtns_prev ps =
     obind (index (wc_level_ks config) i) (\<lambda>k_i.
     obind (level_folds P T k_i sc [] ps) (\<lambda>(sc, level_rs, ps).
     if left = 0 then prove_last P X T config i level_rs sc wtns_prev ps
     else obind (prove_middle P X T config i level_rs sc wtns_prev ps) (\<lambda>(sc, wtns_next, ps).
       prove_levels P X T config (i + 1) left sc wtns_next ps)))"

section \<open>The prover\<close>

datatype ('k, 'h) initial_commitment = Borrowed "'k list" "'h list" | Owned "('k, 'h) prover_data"

definition commitment_parts :: "('k, 'h) initial_commitment \<Rightarrow> 'k list \<times> 'h list" where
  "commitment_parts c = (case c of Borrowed codeword tree \<Rightarrow> (codeword, tree)
     | Owned data \<Rightarrow> (pd_codeword data, pd_merkle_tree data))"

datatype 'e initial_basis = Dense "'e list" "'e sumcheck_message option" | Streamed "nat \<Rightarrow> 'e list \<Rightarrow> 'e list"

definition initial_rounds ::
  "('k::plus, 'e::comm_ring_1, 'u, 'w) primitives \<Rightarrow> ('p, 'e, 'h, 'm) transmitter \<Rightarrow> 'k list \<Rightarrow> nat \<Rightarrow> nat
     \<Rightarrow> 'e initial_basis \<Rightarrow> 'e \<Rightarrow> 'p \<Rightarrow> (('k, 'e) sumcheck_prover \<times> 'e list \<times> 'p) outcome" where
  "initial_rounds P T witness lane_block initial_k basis target ps =
     (case basis of
        Dense b_initial initial_message \<Rightarrow>
          dense_lane_rounds P T witness lane_block initial_k b_initial initial_message target ps
      | Streamed fill \<Rightarrow> streamed_lane_rounds P T witness lane_block initial_k fill target ps)"

text \<open>Level 0: the commitment of the folded witness, its claims, and the openings of the initial
  commitment.\<close>

definition prove_level0 ::
  "('k::{zero,plus}, 'e::comm_ring_1, 'u, 'w) primitives \<Rightarrow> ('k, 'e, 'h, 'm, 's, 'n) pcs_externals
     \<Rightarrow> ('p, 'e, 'h, 'm) transmitter \<Rightarrow> whir_config \<Rightarrow> nat \<Rightarrow> nat \<Rightarrow> nat \<Rightarrow> 'k list \<Rightarrow> 'h list
     \<Rightarrow> ('k, 'e) sumcheck_prover \<Rightarrow> 'e list \<Rightarrow> 'p
     \<Rightarrow> (('k, 'e) sumcheck_prover \<times> ('e, 'h) ligero_witness \<times> 'p) outcome" where
  "prove_level0 P X T config n1 block_len_0 n_lanes l0_codeword l0_tree sc r_lane_fold ps =
     obind (index (wc_log_inv_rates config) 0) (\<lambda>log_inv_rate_0.
     obind (index (wc_level_ks config) 0) (\<lambda>k_0.
     if \<not> k_0 \<le> n1 then Crash
     else
       (let log_msg_cols_1 = n1 - k_0 in
        obind (index (wc_log_inv_rates config) 1) (\<lambda>log_inv_rate_1.
        obind (f_ext sc) (\<lambda>f.
        obind (ligero_commit_ext P X f log_msg_cols_1 k_0 log_inv_rate_1
          (px_ntt_standard X (log_msg_cols_1 + log_inv_rate_1))) (\<lambda>wtns_1.
        obind (ligero_root wtns_1) (\<lambda>root.
        let ps = ps_add_root T root ps in
        obind (send_ood P X T n1 (ood_count config 1) sc ps) (\<lambda>(sc, ps).
        obind (index (wc_grinding_bits config) 0) (\<lambda>bits.
        let ps = ps_grind T bits ps in
        obind (index (wc_queries config) 0) (\<lambda>num_queries_0.
        obind (sample_queries_ordered (px_limbs X) (ps_sample T) block_len_0 num_queries_0 ps) (\<lambda>(queries_0, ps).
        let (lambda_0, ps) = ps_sample T ps;
            weights_0 = px_powers X lambda_0 num_queries_0;
            opened_rows_0 = map (l0_fold_row l0_codeword n_lanes (2 ^ wc_initial_k config)) queries_0;
            ps = ps_hint_merkle T (px_prune X l0_tree block_len_0 queries_0 (l0_row l0_codeword n_lanes)) ps;
            (basis_0, enforced_sum_0) = px_induce_auto_base X n1 log_inv_rate_0 (px_eval_sk_at_vks X n1)
              opened_rows_0 r_lane_fold queries_0 weights_0 in
        obind (introduce_new P sc basis_0 enforced_sum_0) (\<lambda>(sc, intro_msg_0).
        let ps = send_msg T intro_msg_0 enforced_sum_0 ps in
        obind (glue_pending lambda_0 sc) (\<lambda>sc. Value (sc, wtns_1, ps))))))))))))))"

definition recursive_prover_initial_basis ::
  "('k::{zero,plus}, 'e::comm_ring_1, 'u, 'w) primitives \<Rightarrow> ('k, 'e, 'h, 'm, 's, 'n) pcs_externals
     \<Rightarrow> ('p, 'e, 'h, 'm) transmitter \<Rightarrow> whir_config \<Rightarrow> nat \<Rightarrow> 'k list \<Rightarrow> 'e initial_basis \<Rightarrow> 'e
     \<Rightarrow> ('k, 'h) initial_commitment \<Rightarrow> 'p \<Rightarrow> 'p outcome" where
  "recursive_prover_initial_basis P X T config log_n witness basis target commitment ps =
     (let r = wc_level_steps config; initial_k = wc_initial_k config in
      if length (wc_level_ks config) \<noteq> r \<or> length (wc_log_inv_rates config) \<noteq> r + 1 \<or> \<not> 1 \<le> r \<or>
         \<not> 1 \<le> initial_k \<or> ood_count config 0 \<noteq> 0 then Crash
      else obind (index (wc_log_inv_rates config) 0) (\<lambda>log_inv_rate_0.
        obind (usize_sub log_n initial_k) (\<lambda>log_msg_cols_0.
        let block_len_0 = 2 ^ (log_msg_cols_0 + log_inv_rate_0); lane_block = 2 ^ log_msg_cols_0;
            n_lanes = length witness div lane_block; (l0_codeword, l0_tree) = commitment_parts commitment in
        if length witness \<noteq> n_lanes * lane_block \<or> \<not> (1 \<le> n_lanes \<and> n_lanes \<le> 2 ^ initial_k) \<or>
           length l0_codeword \<noteq> block_len_0 * n_lanes \<or> length l0_tree \<noteq> 2 * block_len_0 - 1 then Crash
        else obind (initial_rounds P T witness lane_block initial_k basis target ps) (\<lambda>(sc, r_lane_fold, ps).
          obind (prove_level0 P X T config log_msg_cols_0 block_len_0 n_lanes l0_codeword l0_tree sc r_lane_fold ps)
            (\<lambda>(sc, wtns_1, ps).
          prove_levels P X T config 0 r sc wtns_1 ps)))))"

definition recursive_prover_with_prepared_basis ::
  "('k::{zero,plus}, 'e::comm_ring_1, 'u, 'w) primitives \<Rightarrow> ('k, 'e, 'h, 'm, 's, 'n) pcs_externals
     \<Rightarrow> ('p, 'e, 'h, 'm) transmitter \<Rightarrow> whir_config \<Rightarrow> nat \<Rightarrow> 'k list \<Rightarrow> 'e list \<Rightarrow> 'e \<Rightarrow> 'k list \<Rightarrow> 'h list
     \<Rightarrow> 'e sumcheck_message option \<Rightarrow> 'p \<Rightarrow> 'p outcome" where
  "recursive_prover_with_prepared_basis P X T config log_n witness b_initial target l0_codeword l0_tree initial_message ps =
     recursive_prover_initial_basis P X T config log_n witness (Dense b_initial initial_message) target
       (Borrowed l0_codeword l0_tree) ps"

definition recursive_prover_with_basis ::
  "('k::{zero,plus}, 'e::comm_ring_1, 'u, 'w) primitives \<Rightarrow> ('k, 'e, 'h, 'm, 's, 'n) pcs_externals
     \<Rightarrow> ('p, 'e, 'h, 'm) transmitter \<Rightarrow> whir_config \<Rightarrow> nat \<Rightarrow> 'k list \<Rightarrow> 'e list \<Rightarrow> 'e \<Rightarrow> 'k list \<Rightarrow> 'h list
     \<Rightarrow> 'p \<Rightarrow> 'p outcome" where
  "recursive_prover_with_basis P X T config log_n witness b_initial target l0_codeword l0_tree ps =
     recursive_prover_with_prepared_basis P X T config log_n witness b_initial target l0_codeword l0_tree None ps"

text \<open>\<open>dense\<close> says that the environment asks for the stored basis.\<close>

definition recursive_prover_with_streamed_commitment ::
  "('k::{zero,plus}, 'e::comm_ring_1, 'u, 'w) primitives \<Rightarrow> ('k, 'e, 'h, 'm, 's, 'n) pcs_externals
     \<Rightarrow> ('p, 'e, 'h, 'm) transmitter \<Rightarrow> bool \<Rightarrow> whir_config \<Rightarrow> nat \<Rightarrow> 'k list \<Rightarrow> (nat \<Rightarrow> 'e list \<Rightarrow> 'e list) \<Rightarrow> 'e
     \<Rightarrow> ('k, 'h) initial_commitment \<Rightarrow> 'p \<Rightarrow> 'p outcome" where
  "recursive_prover_with_streamed_commitment P X T dense config log_n witness fill target commitment ps =
     obind (if dense
       then obind (usize_sub log_n (wc_initial_k config)) (\<lambda>log_block.
         obind (build_initial_basis P witness (2 ^ log_block) fill) (\<lambda>(values, message).
         Value (Dense values (Some message))))
       else Value (Streamed fill)) (\<lambda>basis.
     recursive_prover_initial_basis P X T config log_n witness basis target commitment ps)"

end
