(* ===== verification/Sumcheck_Kernel_Facts.thy ===== *)
theory Sumcheck_Kernel_Facts
  imports Sumcheck_Kernels
begin

text \<open>
  The sumcheck kernels compute what they are meant to: every chunked, staged or streamed variant
  gives the fold and the round message of the whole buffers. The interface \<open>round_witness\<close>
  states what an element of a witness promises; base and extension elements provide it.
\<close>

section \<open>Windows\<close>

lemma length_write_window [simp]:
  "fst w + length (snd w) \<le> length buf \<Longrightarrow> length (write_window buf w) = length buf"
  by (simp add: write_window_def)

lemma nth_write_window: "fst w + length (snd w) \<le> length buf \<Longrightarrow> i < length buf \<Longrightarrow>
    write_window buf w ! i = (if fst w \<le> i \<and> i < fst w + length (snd w) then snd w ! (i - fst w) else buf ! i)"
  by (auto simp: write_window_def nth_append)

lemma length_window [simp]: "length (window xs start len) = min len (length xs - start)"
  by (simp add: window_def)

lemma nth_window [simp]: "y < len \<Longrightarrow> start + y < length xs \<Longrightarrow> window xs start len ! y = xs ! (start + y)"
  by (simp add: window_def)

lemma length_write_windows: "(\<And>w. w \<in> set ws \<Longrightarrow> fst w + length (snd w) \<le> length buf) \<Longrightarrow>
    length (write_windows buf ws) = length buf"
  by (induction ws arbitrary: buf) (simp_all add: write_windows_def)

lemma nth_write_windows:
  assumes "\<And>w. w \<in> set ws \<Longrightarrow> fst w + length (snd w) \<le> length T \<and> snd w = window T (fst w) (length (snd w))"
    and "length buf = length T" and "i < length T"
  shows "write_windows buf ws ! i =
      (if \<exists>w\<in>set ws. fst w \<le> i \<and> i < fst w + length (snd w) then T ! i else buf ! i)"
  using assms(1)
proof (induction ws rule: rev_induct)
  case (snoc w ws)
  have len: "length (write_windows buf ws) = length T"
    using snoc.prems assms(2) by (intro trans [OF length_write_windows]) auto
  have w: "fst w + length (snd w) \<le> length T" "snd w = window T (fst w) (length (snd w))"
    using snoc.prems by auto
  have inside: "snd w ! (i - fst w) = T ! i" if "fst w \<le> i" "i < fst w + length (snd w)"
    using that assms(3) by (subst w(2)) simp
  have "write_windows buf (ws @ [w]) = write_window (write_windows buf ws) w"
    by (simp add: write_windows_def)
  then have "write_windows buf (ws @ [w]) ! i =
      (if fst w \<le> i \<and> i < fst w + length (snd w) then T ! i else write_windows buf ws ! i)"
    using inside len w(1) assms(3) by (simp add: nth_write_window)
  then show ?case using snoc by auto
qed (simp add: write_windows_def)

lemma write_windows_eq:
  assumes "\<And>w. w \<in> set ws \<Longrightarrow> fst w + length (snd w) \<le> length T \<and> snd w = window T (fst w) (length (snd w))"
    and "length buf = length T"
    and "\<And>i. i < length T \<Longrightarrow> \<exists>w\<in>set ws. fst w \<le> i \<and> i < fst w + length (snd w)"
  shows "write_windows buf ws = T"
proof (rule nth_equalityI)
  show "length (write_windows buf ws) = length T"
    using assms by (intro trans [OF length_write_windows]) auto
  then show "write_windows buf ws ! i = T ! i" if "i < length (write_windows buf ws)" for i
    using nth_write_windows [OF assms(1,2)] assms(3) that by simp
qed

lemma in_concat_upt: "w \<in> set (concat (map g [0..<n])) \<longleftrightarrow> (\<exists>j<n. w \<in> set (g j))"
  by auto

lemma div_ceil_eq: "0 < b \<Longrightarrow> div_ceil a b = (if b dvd a then a div b else a div b + 1)"
proof -
  assume b: "0 < b"
  show ?thesis
  proof (cases "b dvd a")
    case True
    then obtain k where "a = b * k" by blast
    moreover have "(b * k + b - 1) div b = k"
      using b by (cases b) (simp_all add: div_nat_eqI algebra_simps)
    ultimately show ?thesis using b by (simp add: div_ceil_def)
  next
    case False
    then have "0 < a mod b" using b by (simp add: dvd_eq_mod_eq_0)
    moreover have "a mod b - 1 < b" using mod_less_divisor [OF b, of a] by linarith
    moreover have "a div b * b + a mod b = a" by simp
    ultimately have "a + b - 1 = (a mod b - 1) + (a div b + 1) * b"
      unfolding add_mult_distrib by linarith
    then have "(a + b - 1) div b = (a div b + 1) + (a mod b - 1) div b"
      using b by (simp only: div_mult_self1)
    also have "(a mod b - 1) div b = 0" using \<open>a mod b - 1 < b\<close> by simp
    finally have "(a + b - 1) div b = a div b + 1" by simp
    with False show ?thesis by (simp add: div_ceil_def)
  qed
qed

lemma div_ceil_covers: "0 < b \<Longrightarrow> a \<le> div_ceil a b * b"
proof -
  assume b: "0 < b"
  have "a \<le> b + a div b * b"
    using div_mult_mod_eq [of a b] mod_less_divisor [OF b, of a] by linarith
  with b show ?thesis by (auto simp: div_ceil_eq)
qed

lemma less_div_ceil: "0 < b \<Longrightarrow> i < div_ceil a b \<longleftrightarrow> i * b < a"
proof -
  assume b: "0 < b"
  have "i * b < a \<longleftrightarrow> (if b dvd a then i < a div b else i \<le> a div b)"
  proof (cases "b dvd a")
    case True
    then show ?thesis using b by (metis dvd_mult_div_cancel mult.commute mult_less_cancel2)
  next
    case False
    then have "i * b \<noteq> a" by auto
    with False show ?thesis using b by (metis le_neq_implies_less less_eq_div_iff_mult_less_eq less_imp_le)
  qed
  then show ?thesis using b by (auto simp: div_ceil_eq)
qed

lemma sum_windows: "0 < K \<Longrightarrow>
    (\<Sum>c<div_ceil n K. \<Sum>y<min K (n - c * K). h (c * K + y)) = (\<Sum>x<n. h x :: 'a::comm_monoid_add)"
proof -
  assume K: "0 < K"
  let ?h = "\<lambda>x. if x < n then h x else 0"
  have "(\<Sum>y<min K (n - c * K). h (c * K + y)) = (\<Sum>y<K. ?h (c * K + y))" for c
    by (rule sum.mono_neutral_cong_left) auto
  then have "(\<Sum>c<div_ceil n K. \<Sum>y<min K (n - c * K). h (c * K + y)) = (\<Sum>x<div_ceil n K * K. ?h x)"
    by (simp add: sum_blocks)
  also have "\<dots> = (\<Sum>x<n. h x)"
    by (rule sum.mono_neutral_cong_right) (use div_ceil_covers [OF K] in \<open>auto intro: less_le_trans\<close>)
  finally show ?thesis .
qed

lemma window_of: "0 < K \<Longrightarrow> x < n \<Longrightarrow> x div K < div_ceil n K \<and> x = x div K * K + x mod K \<and>
    x mod K < min K (n - x div K * K)"
  using div_mult_mod_eq [of x K] le_less_trans [OF div_times_less_eq_dividend, of x n K]
  by (simp add: less_div_ceil less_diff_conv min_def)

lemma sum_tasks: "0 < per \<Longrightarrow>
    (\<Sum>t<m * per. g (t div per) (t mod per)) = (\<Sum>i<m. \<Sum>c<per. g i c :: 'a::comm_monoid_add)" for per :: nat
  by (simp add: sum_blocks)

lemma task_bounds:
  assumes "0 < K" and "0 < block" and "t < m * div_ceil block K"
  shows "t div div_ceil block K < m" and "t mod div_ceil block K * K < block"
    and "t mod div_ceil block K * K + min K (block - t mod div_ceil block K * K) \<le> block"
proof -
  have per: "0 < div_ceil block K" using assms by (simp add: less_div_ceil)
  then show "t div div_ceil block K < m" using assms(3) by (simp add: div_less_iff_less_mult)
  have "t mod div_ceil block K < div_ceil block K" using per by simp
  then show "t mod div_ceil block K * K < block" using assms(1) by (simp only: less_div_ceil)
  then show "t mod div_ceil block K * K + min K (block - t mod div_ceil block K * K) \<le> block" by simp
qed

lemma stage_fits: "j < div_ceil (min ROUND_CHUNK (block - x0)) STAGE \<Longrightarrow> x0 + min ROUND_CHUNK (block - x0) \<le> block \<Longrightarrow>
    x0 + j * STAGE + min STAGE (min ROUND_CHUNK (block - x0) - j * STAGE) \<le> block"
proof -
  assume j: "j < div_ceil (min ROUND_CHUNK (block - x0)) STAGE" and le: "x0 + min ROUND_CHUNK (block - x0) \<le> block"
  from j have "j * STAGE < min ROUND_CHUNK (block - x0)"
    by (subst less_div_ceil [symmetric]) (simp_all add: STAGE_def)
  with le show ?thesis by linarith
qed

section \<open>What the primitives promise\<close>

text \<open>A parallel reduction combines the results of the tasks, in some order, with the identity.\<close>

definition parallel_lawful :: "'a map_reduce \<Rightarrow> bool" where
  "parallel_lawful mr \<longleftrightarrow> (\<forall>n z task comb. comm_monoid comb z \<longrightarrow>
     mr n z task comb = foldl comb z (map task [0..<n]))"

text \<open>Characteristic two; the embedding of the base field; reduction commutes with XOR.\<close>

definition primitives_lawful :: "('k::comm_monoid_add, 'e::comm_ring_1, 'u, 'w) primitives \<Rightarrow> bool" where
  "primitives_lawful P \<longleftrightarrow>
     (1 :: 'e) + 1 = 0 \<and>
     pr_from P 0 = 0 \<and> (\<forall>x y. pr_from P (x + y) = pr_from P x + pr_from P y) \<and>
     (\<forall>e x. pr_mul_base P e x = e * pr_from P x) \<and>
     comm_monoid (pr_base_xor P) (pr_base_zero P) \<and> pr_base_reduce P (pr_base_zero P) = 0 \<and>
     (\<forall>x y. pr_base_reduce P (pr_base_xor P x y) = pr_base_reduce P x + pr_base_reduce P y) \<and>
     (\<forall>e x. pr_base_reduce P (pr_base_mul P e x) = e * pr_from P x) \<and>
     comm_monoid (pr_ext_xor P) (pr_ext_zero P) \<and> pr_ext_reduce P (pr_ext_zero P) = 0 \<and>
     (\<forall>x y. pr_ext_reduce P (pr_ext_xor P x y) = pr_ext_reduce P x + pr_ext_reduce P y) \<and>
     (\<forall>x y. pr_ext_reduce P (pr_ext_mul P x y) = x * y) \<and>
     parallel_lawful (pr_base_par P) \<and> parallel_lawful (pr_ext_par P) \<and>
     parallel_lawful (pr_eval_par P) \<and> parallel_lawful (pr_sum_par P) \<and>
     (\<forall>n. length (pr_uninit P n) = n)"

section \<open>The interface of a witness element\<close>

definition pair_sum :: "nat \<Rightarrow> (nat \<Rightarrow> 'e::comm_ring_1) \<Rightarrow> (nat \<Rightarrow> 'e) \<Rightarrow> 'e sumcheck_message" where
  "pair_sum n g h = \<lparr>u_0 = \<Sum>i<n. g i, u_2 = \<Sum>i<n. h i\<rparr>"

locale round_witness =
  fixes W :: "('t, 'a, 'e::comm_ring_1) round_witness" and lift :: "'t \<Rightarrow> 'e" and ok :: bool
  assumes acc_monoid: "ok \<Longrightarrow> comm_monoid (rw_xor W) (rw_zero_acc W)"
    and reduce_zero: "ok \<Longrightarrow> rw_reduce W (rw_zero_acc W) = 0"
    and reduce_xor: "ok \<Longrightarrow> rw_reduce W (rw_xor W x y) = rw_reduce W x + rw_reduce W y"
    and reduce_mul: "ok \<Longrightarrow> rw_reduce W (rw_mul_basis W v b) = lift v * b"
    and lift_add: "ok \<Longrightarrow> lift (rw_add W v w) = lift v + lift w"
    and fold_pair: "ok \<Longrightarrow> rw_fold_pair W v w r = lift v + r * (lift v + lift w)"
    and fold_lone: "ok \<Longrightarrow> rw_fold_lone W v r = lift v + r * lift v"
    and par: "ok \<Longrightarrow> parallel_lawful (rw_par W)"
begin

lemma reduce_foldl: "ok \<Longrightarrow>
    rw_reduce W (fst (foldl (\<lambda>u t. xor2 W u (g t)) z ts)) = rw_reduce W (fst z) + sum_list (map (\<lambda>t. rw_reduce W (fst (g t))) ts) \<and>
    rw_reduce W (snd (foldl (\<lambda>u t. xor2 W u (g t)) z ts)) = rw_reduce W (snd z) + sum_list (map (\<lambda>t. rw_reduce W (snd (g t))) ts)"
  by (induction ts arbitrary: z) (simp_all add: xor2_def reduce_xor add.assoc)

lemma reduce_pairs: "ok \<Longrightarrow>
    reduce_msg W (foldl (\<lambda>u t. xor2 W u (g t)) (rw_zero_acc W, rw_zero_acc W) [0..<n]) =
    pair_sum n (\<lambda>t. rw_reduce W (fst (g t))) (\<lambda>t. rw_reduce W (snd (g t)))"
  by (simp add: reduce_msg_def reduce_foldl reduce_zero pair_sum_def sum_list_upt)

lemma xor2_monoid: "ok \<Longrightarrow> comm_monoid (xor2 W) (rw_zero_acc W, rw_zero_acc W)"
proof -
  assume ok
  note acc = acc_monoid [OF this]
  note acc_facts = comm_monoid.comm_neutral [OF acc]
    abel_semigroup.commute [OF comm_monoid.axioms(1) [OF acc]]
    semigroup.assoc [OF abel_semigroup.axioms(1) [OF comm_monoid.axioms(1) [OF acc]]]
  show ?thesis by unfold_locales (auto simp: xor2_def acc_facts(1,3) intro: acc_facts(2))
qed

lemma accumulate: "ok \<Longrightarrow> reduce_msg W (accumulate_msg W n p (rw_zero_acc W) task) =
    pair_sum n (\<lambda>t. rw_reduce W (fst (task t))) (\<lambda>t. rw_reduce W (snd (task t)))"
  using par xor2_monoid reduce_pairs [of task n]
  by (simp add: accumulate_msg_def parallel_lawful_def foldl_map)

lemma terms_pair: "ok \<Longrightarrow> length f1 = length f0 \<Longrightarrow> length b0 = length f0 \<Longrightarrow> length b1 = length f0 \<Longrightarrow>
    rw_reduce W (fst (msg_terms_pair W f0 f1 b0 b1)) = (\<Sum>y<length f0. lift (f0 ! y) * b0 ! y) \<and>
    rw_reduce W (snd (msg_terms_pair W f0 f1 b0 b1)) =
      (\<Sum>y<length f0. (lift (f0 ! y) + lift (f1 ! y)) * (b0 ! y + b1 ! y))"
proof -
  assume ok and len: "length f1 = length f0" "length b0 = length f0" "length b1 = length f0"
  let ?g = "\<lambda>(((x0, x1), y0), y1). (rw_mul_basis W x0 y0, rw_mul_basis W (rw_add W x0 x1) (y0 + y1))"
  have eq: "msg_terms_pair W f0 f1 b0 b1 = foldl (\<lambda>u t. xor2 W u (?g t)) (rw_zero_acc W, rw_zero_acc W)
      (zip (zip (zip f0 f1) b0) b1)"
    unfolding msg_terms_pair_def by (rule arg_cong [where f = "\<lambda>F. foldl F _ _"]) (auto simp: fun_eq_iff)
  have zip_eq: "zip (zip (zip f0 f1) b0) b1 = map (\<lambda>y. (((f0 ! y, f1 ! y), b0 ! y), b1 ! y)) [0..<length f0]"
    by (rule nth_equalityI) (simp_all add: len)
  show ?thesis unfolding eq zip_eq
    using \<open>ok\<close> by (simp add: reduce_foldl reduce_zero reduce_mul lift_add sum_list_upt o_def)
qed

lemma terms_lone: "ok \<Longrightarrow> length b0 = length f0 \<Longrightarrow>
    rw_reduce W (fst (msg_terms_lone W f0 b0)) = (\<Sum>y<length f0. lift (f0 ! y) * b0 ! y) \<and>
    snd (msg_terms_lone W f0 b0) = fst (msg_terms_lone W f0 b0)"
proof -
  assume ok and len: "length b0 = length f0"
  have "rw_reduce W (foldl (\<lambda>u (x0, y0). rw_xor W u (rw_mul_basis W x0 y0)) z ts) =
      rw_reduce W z + sum_list (map (\<lambda>(x0, y0). lift x0 * y0) ts)" for z ts
    using \<open>ok\<close> by (induction ts arbitrary: z) (auto simp: reduce_xor reduce_mul add.assoc)
  moreover have "zip f0 b0 = map (\<lambda>y. (f0 ! y, b0 ! y)) [0..<length f0]"
    by (rule nth_equalityI) (simp_all add: len)
  ultimately show ?thesis
    using \<open>ok\<close> by (simp add: msg_terms_lone_def Let_def reduce_zero sum_list_upt o_def)
qed

end

interpretation base_witness: round_witness "rw_base P" "pr_from P" "primitives_lawful P"
  by (rule round_witness.intro) (simp_all add: primitives_lawful_def rw_base_def mult.commute)

interpretation ext_witness: round_witness "rw_ext P" "\<lambda>x. x" "primitives_lawful P"
  by (rule round_witness.intro) (simp_all add: primitives_lawful_def rw_ext_def)

section \<open>Adjacent pairs\<close>

definition lsb_msg :: "'e::comm_ring_1 list \<Rightarrow> 'e list \<Rightarrow> 'e sumcheck_message" where
  "lsb_msg f b = pair_sum (length f div 2) (\<lambda>j. f ! (2 * j) * b ! (2 * j))
     (\<lambda>j. (f ! (2 * j) + f ! (2 * j + 1)) * (b ! (2 * j) + b ! (2 * j + 1)))"

lemma pair_sum_cong: "(\<And>i. i < n \<Longrightarrow> g i = g' i) \<Longrightarrow> (\<And>i. i < n \<Longrightarrow> h i = h' i) \<Longrightarrow> pair_sum n g h = pair_sum n g' h'"
  by (simp add: pair_sum_def)

lemma fold_terms: "primitives_lawful P \<Longrightarrow> reduce_msg (rw_ext P) (fold_msg_terms P nf nb) = lsb_msg nf nb"
proof -
  assume P: "primitives_lawful P"
  let ?g = "\<lambda>j. (rw_mul_basis (rw_ext P) (nf ! (2 * j)) (nb ! (2 * j)),
      rw_mul_basis (rw_ext P) (nf ! (2 * j) + nf ! (2 * j + 1)) (nb ! (2 * j) + nb ! (2 * j + 1)))"
  have "fold_msg_terms P nf nb = foldl (\<lambda>u j. xor2 (rw_ext P) u (?g j))
      (rw_zero_acc (rw_ext P), rw_zero_acc (rw_ext P)) [0..<length nf div 2]"
    by (simp add: fold_msg_terms_def rw_ext_def Let_def)
  then show ?thesis
    using P by (simp add: ext_witness.reduce_pairs ext_witness.reduce_mul lsb_msg_def)
qed

context round_witness begin

lemma round_msg: "ok \<Longrightarrow> length b = length f \<Longrightarrow> round_msg_lsb W f b = lsb_msg (map lift f) b"
  by (auto simp: round_msg_lsb_def Let_def accumulate lsb_msg_def reduce_mul lift_add intro!: pair_sum_cong)

lemma fold_pairs: "ok \<Longrightarrow>
    map (\<lambda>j. rw_fold_pair W (f ! (2 * j)) (f ! (2 * j + 1)) r) [0..<length f div 2] = fold_lsb r (map lift f)"
  by (auto simp: fold_lsb_def fold_pair)

lemma chunk_window: "ok \<Longrightarrow> lsb_chunk W f r ci = (ci * ROUND_CHUNK,
    window (fold_lsb r (map lift f)) (ci * ROUND_CHUNK) (min ROUND_CHUNK (length f div 2 - ci * ROUND_CHUNK)))"
  by (auto simp: lsb_chunk_def Let_def fold_pair intro!: nth_equalityI)

lemma chunks_fold:
  assumes ok and "length buf = length f div 2"
  shows "write_windows buf (map (lsb_chunk W f r) [0..<div_ceil (length f div 2) ROUND_CHUNK]) = fold_lsb r (map lift f)"
proof (rule write_windows_eq)
  fix i assume "i < length (fold_lsb r (map lift f))"
  then have i: "i < length f div 2" by simp
  moreover have "i div ROUND_CHUNK * ROUND_CHUNK \<le> i" by simp
  ultimately have "i div ROUND_CHUNK < div_ceil (length f div 2) ROUND_CHUNK"
    by (simp add: less_div_ceil ROUND_CHUNK_def)
  moreover have "i < i div ROUND_CHUNK * ROUND_CHUNK + ROUND_CHUNK"
    using div_mult_mod_eq [of i ROUND_CHUNK] mod_less_divisor [of ROUND_CHUNK i]
    by (simp add: ROUND_CHUNK_def)
  ultimately show "\<exists>w\<in>set (map (lsb_chunk W f r) [0..<div_ceil (length f div 2) ROUND_CHUNK]).
      fst w \<le> i \<and> i < fst w + length (snd w)"
    using i \<open>ok\<close> by (auto simp: chunk_window intro!: bexI [of _ "i div ROUND_CHUNK"])
qed (use assms in \<open>auto simp: chunk_window less_div_ceil ROUND_CHUNK_def\<close>)

end

text \<open>Sums over chunks of even length that start at even positions.\<close>

lemma sum_even_windows: "even K \<Longrightarrow> 0 < K \<Longrightarrow> even n \<Longrightarrow>
    (\<Sum>c<div_ceil n K. \<Sum>j<min K (n - c * K) div 2. h (c * (K div 2) + j)) = (\<Sum>j<n div 2. h j :: 'a::comm_monoid_add)"
proof -
  assume K: "even K" "0 < K" and n: "even n"
  then obtain k m where km: "K = 2 * k" "n = 2 * m" by (auto elim!: evenE)
  with K have "div_ceil n K = div_ceil m k"
    by (simp add: div_ceil_eq)
  moreover have "min K (n - c * K) div 2 = min k (m - c * k)" for c
  proof -
    have "n - c * K = 2 * (m - c * k)" by (simp add: km diff_mult_distrib2)
    then show ?thesis by (simp add: km min_def)
  qed
  ultimately show ?thesis using sum_windows [of k h m] K km by simp
qed

lemma lsb_msg_window: "length b = length f \<Longrightarrow> even s \<Longrightarrow> lsb_msg (window f s n) (window b s n) =
    pair_sum (min n (length f - s) div 2) (\<lambda>j. f ! (2 * (s div 2 + j)) * b ! (2 * (s div 2 + j)))
      (\<lambda>j. (f ! (2 * (s div 2 + j)) + f ! (2 * (s div 2 + j) + 1)) * (b ! (2 * (s div 2 + j)) + b ! (2 * (s div 2 + j) + 1)))"
  by (auto simp: lsb_msg_def algebra_simps intro!: pair_sum_cong)

lemma lsb_msg_small: "length f \<le> 1 \<Longrightarrow> lsb_msg f b = \<lparr>u_0 = 0, u_2 = 0\<rparr>"
  by (simp add: lsb_msg_def pair_sum_def)

lemma lsb_msg_tiny: "len \<le> 1 \<Longrightarrow> lsb_msg (window f s (min K (len - x))) b = \<lparr>u_0 = 0, u_2 = 0\<rparr>"
  by (rule lsb_msg_small) simp

lemma pair_sum_zero [simp]: "pair_sum n (\<lambda>_. 0) (\<lambda>_. 0) = \<lparr>u_0 = 0, u_2 = 0\<rparr>"
  by (simp add: pair_sum_def)

lemma window_window: "s + n \<le> len \<Longrightarrow> window (window xs x0 len) s n = window xs (x0 + s) n"
  by (simp add: window_def drop_take add.commute)

text \<open>Messages of chunks add up.\<close>

lemma reduce_msg_sum: "pair_sum n (\<lambda>t. rw_reduce W (fst (g t))) (\<lambda>t. rw_reduce W (snd (g t))) =
    pair_sum n (\<lambda>t. u_0 (reduce_msg W (g t))) (\<lambda>t. u_2 (reduce_msg W (g t)))"
  by (simp add: reduce_msg_def)

lemma lsb_msg_windows:
  assumes "length b = length f" and "even K" and "0 < K" and "even (length f)"
  shows "pair_sum (div_ceil (length f) K)
      (\<lambda>c. u_0 (lsb_msg (window f (c * K) (min K (length f - c * K))) (window b (c * K) (min K (length f - c * K)))))
      (\<lambda>c. u_2 (lsb_msg (window f (c * K) (min K (length f - c * K))) (window b (c * K) (min K (length f - c * K))))) =
    lsb_msg f b"
proof -
  have half: "c * K div 2 = c * (K div 2)" for c using assms(2) by (simp add: div_mult_swap)
  have "(\<Sum>c<div_ceil (length f) K. \<Sum>j<min K (length f - c * K) div 2. h (c * (K div 2) + j)) =
      (\<Sum>j<length f div 2. h j)" for h :: "nat \<Rightarrow> 'a"
    using assms by (rule_tac sum_even_windows) auto
  note sums = this [of "\<lambda>j. f ! (2 * j) * b ! (2 * j)"]
    this [of "\<lambda>j. (f ! (2 * j) + f ! Suc (2 * j)) * (b ! (2 * j) + b ! Suc (2 * j))"]
  show ?thesis
    using assms sums
    by (simp add: lsb_msg_window half pair_sum_def lsb_msg_def [of f b] del: distrib_left_numeral)
qed

context round_witness begin

lemma fold_and_msg:
  assumes ok and P: "primitives_lawful P" and len: "length b = length f" "length f = 2 ^ Suc n"
  shows "fold_and_msg_lsb P W f b r =
    (fold_lsb r (map lift f), fold_lsb r b, lsb_msg (fold_lsb r (map lift f)) (fold_lsb r b))"
proof (cases "length f div 2 < PAR_THRESHOLD")
  case True
  then show ?thesis
    using \<open>ok\<close> P len fold_pairs [of f r] ext_witness.fold_pairs [OF P, of b r]
    by (simp add: fold_and_msg_lsb_def Let_def fold_terms)
next
  case False
  let ?F = "fold_lsb r (map lift f)" and ?B = "fold_lsb r b" and ?X = "rw_ext P"
  let ?h = "length f div 2"
  let ?u = "\<lambda>ci. fold_msg_terms P (snd (lsb_chunk W f r ci)) (snd (lsb_chunk ?X b r ci))"
  have half: "even ?h" using False len(2) by (cases n) (simp_all add: PAR_THRESHOLD_def)
  have "pr_ext_par P k (pr_ext_zero P, pr_ext_zero P) ?u (xor2 ?X) =
      foldl (\<lambda>u t. xor2 ?X u (?u t)) (rw_zero_acc ?X, rw_zero_acc ?X) [0..<k]" for k
    using P ext_witness.xor2_monoid [OF P]
    by (simp add: primitives_lawful_def parallel_lawful_def foldl_map rw_ext_def)
  then have "reduce_msg ?X (pr_ext_par P k (pr_ext_zero P, pr_ext_zero P) ?u (xor2 ?X)) =
      pair_sum k (\<lambda>c. u_0 (reduce_msg ?X (?u c))) (\<lambda>c. u_2 (reduce_msg ?X (?u c)))" for k
    by (simp add: ext_witness.reduce_pairs [OF P] reduce_msg_sum)
  moreover have "pair_sum (div_ceil ?h ROUND_CHUNK) (\<lambda>c. u_0 (reduce_msg ?X (?u c))) (\<lambda>c. u_2 (reduce_msg ?X (?u c))) =
      lsb_msg ?F ?B"
    using lsb_msg_windows [of ?B ?F ROUND_CHUNK] half len \<open>ok\<close> P
    by (simp add: fold_terms chunk_window ext_witness.chunk_window ROUND_CHUNK_def)
  moreover have "write_windows (pr_uninit P ?h) (map (lsb_chunk W f r) [0..<div_ceil ?h ROUND_CHUNK]) = ?F"
    using \<open>ok\<close> P by (intro chunks_fold) (simp_all add: primitives_lawful_def)
  moreover have "write_windows (pr_uninit P ?h) (map (lsb_chunk ?X b r) [0..<div_ceil ?h ROUND_CHUNK]) = ?B"
    using ext_witness.chunks_fold [OF P, of "pr_uninit P ?h" b] P len by (simp add: primitives_lawful_def)
  ultimately show ?thesis using False by (simp add: fold_and_msg_lsb_def Let_def)
qed

end

section \<open>Lanes\<close>

text \<open>Absent lanes are zero. \<open>lane_fold\<close> folds lane \<open>2 i\<close> with lane \<open>2 i + 1\<close>.\<close>

definition at0 :: "'e::zero list \<Rightarrow> nat \<Rightarrow> 'e" where
  "at0 xs i = (if i < length xs then xs ! i else 0)"

definition lane_fold :: "nat \<Rightarrow> 'e::comm_ring_1 \<Rightarrow> 'e list \<Rightarrow> 'e list" where
  "lane_fold block r xs = map (\<lambda>k. let lo = 2 * (k div block) * block + k mod block
     in at0 xs lo + r * (at0 xs lo + at0 xs (lo + block))) [0..<div_ceil (length xs div block) 2 * block]"

definition lane_pair0 :: "nat \<Rightarrow> 'e::comm_ring_1 list \<Rightarrow> 'e list \<Rightarrow> nat \<Rightarrow> nat \<Rightarrow> 'e" where
  "lane_pair0 block f b i x = at0 f (2 * i * block + x) * at0 b (2 * i * block + x)"

definition lane_pair2 :: "nat \<Rightarrow> 'e::comm_ring_1 list \<Rightarrow> 'e list \<Rightarrow> nat \<Rightarrow> nat \<Rightarrow> 'e" where
  "lane_pair2 block f b i x =
     (at0 f (2 * i * block + x) + at0 f (2 * i * block + x + block)) *
     (at0 b (2 * i * block + x) + at0 b (2 * i * block + x + block))"

definition lane_msg :: "nat \<Rightarrow> 'e::comm_ring_1 list \<Rightarrow> 'e list \<Rightarrow> 'e sumcheck_message" where
  "lane_msg block f b = pair_sum (div_ceil (length f div block) 2)
     (\<lambda>i. \<Sum>x<block. lane_pair0 block f b i x) (\<lambda>i. \<Sum>x<block. lane_pair2 block f b i x)"

lemma length_lane_fold [simp]: "length (lane_fold block r xs) = div_ceil (length xs div block) 2 * block"
  by (simp add: lane_fold_def)

lemma sum_lane_tasks: "0 < K \<Longrightarrow> 0 < block \<Longrightarrow>
    (\<Sum>t<m * div_ceil block K. \<Sum>y<min K (block - t mod div_ceil block K * K).
      h (t div div_ceil block K) (t mod div_ceil block K * K + y)) =
    (\<Sum>i<m. \<Sum>x<block. h i x :: 'a::comm_monoid_add)"
  using less_div_ceil [of K 0 block] sum_windows [of K "h _" block]
    sum_tasks [of "div_ceil block K" "\<lambda>i c. \<Sum>y<min K (block - c * K). h i (c * K + y)" m]
  by simp

lemma pair_sum_lanes: "0 < K \<Longrightarrow> 0 < block \<Longrightarrow>
    (\<And>t. t < m * div_ceil block K \<Longrightarrow> g t = (\<Sum>y<min K (block - t mod div_ceil block K * K).
      g' (t div div_ceil block K) (t mod div_ceil block K * K + y))) \<Longrightarrow>
    (\<And>t. t < m * div_ceil block K \<Longrightarrow> h t = (\<Sum>y<min K (block - t mod div_ceil block K * K).
      h' (t div div_ceil block K) (t mod div_ceil block K * K + y))) \<Longrightarrow>
    pair_sum (m * div_ceil block K) g h = pair_sum m (\<lambda>i. \<Sum>x<block. g' i x) (\<lambda>i. \<Sum>x<block. h' i x)"
  by (simp add: pair_sum_def sum_lane_tasks)

text \<open>A pair of lanes lies in the buffer; the second lane of the last pair may be absent.\<close>

lemma lane_bounds:
  assumes "block dvd n" and "0 < (block :: nat)"
  shows "2 * i < n div block \<Longrightarrow> 2 * i * block + block \<le> n"
    and "2 * i + 1 < n div block \<Longrightarrow> 2 * i * block + block + block \<le> n"
    and "\<not> 2 * i + 1 < n div block \<Longrightarrow> n \<le> 2 * i * block + block"
proof -
  obtain k where n: "n = block * k" using assms(1) by (rule dvdE)
  have eq: "2 * i * block + block = (2 * i + 1) * block" "2 * i * block + block + block = (2 * i + 2) * block"
    by (simp_all add: algebra_simps)
  have k: "n div block = k" using assms(2) by (simp add: n)
  show "2 * i * block + block \<le> n" if "2 * i < n div block"
    unfolding eq using that mult_le_mono1 [of "2 * i + 1" k block] by (simp add: k) (simp add: n mult.commute)
  show "2 * i * block + block + block \<le> n" if "2 * i + 1 < n div block"
    unfolding eq using that mult_le_mono1 [of "2 * i + 2" k block] by (simp add: k) (simp add: n mult.commute)
  show "n \<le> 2 * i * block + block" if "\<not> 2 * i + 1 < n div block"
    unfolding eq using that mult_le_mono1 [of k "2 * i + 1" block] by (simp add: k) (simp add: n mult.commute)
qed

context round_witness begin

lemma at0_map: "at0 (map lift f) i = (if i < length f then lift (f ! i) else 0)"
  by (simp add: at0_def)

lemma lane_terms:
  assumes ok and "length b = length f" and "block dvd length f" and "0 < block"
    and "2 * i < length f div block" and "x0 + n \<le> block"
  defines "u \<equiv> if 2 * i + 1 < length f div block
      then msg_terms_pair W (window f (2 * i * block + x0) n) (window f (2 * i * block + x0 + block) n)
        (window b (2 * i * block + x0) n) (window b (2 * i * block + x0 + block) n)
      else msg_terms_lone W (window f (2 * i * block + x0) n) (window b (2 * i * block + x0) n)"
  shows "rw_reduce W (fst u) = (\<Sum>y<n. lane_pair0 block (map lift f) b i (x0 + y))"
    and "rw_reduce W (snd u) = (\<Sum>y<n. lane_pair2 block (map lift f) b i (x0 + y))"
proof -
  note bounds = lane_bounds [OF assms(3,4)]
  have lo: "2 * i * block + x0 + n \<le> length f"
    using bounds(1) [OF assms(5)] assms(6) by linarith
  have hi: "2 * i * block + x0 + block + n \<le> length f" if "2 * i + 1 < length f div block"
    using bounds(2) [OF that] assms(6) by linarith
  have absent: "(2 * i * block + x0 + y + block < length f) = False" if "\<not> 2 * i + 1 < length f div block" for y
    using bounds(3) [OF that] by auto
  show "rw_reduce W (fst u) = (\<Sum>y<n. lane_pair0 block (map lift f) b i (x0 + y))"
    using \<open>ok\<close> lo hi assms(2) by (auto simp: u_def terms_pair terms_lone lane_pair0_def at0_map at0_def
        add.assoc [symmetric] intro!: sum.cong)
  show "rw_reduce W (snd u) = (\<Sum>y<n. lane_pair2 block (map lift f) b i (x0 + y))"
  proof (cases "2 * i + 1 < length f div block")
    case True
    then show ?thesis
      using \<open>ok\<close> lo hi assms(2) by (auto simp: u_def terms_pair lane_pair2_def at0_map at0_def
          add.assoc [symmetric] add.commute [of _ block] add.left_commute [of _ block] intro!: sum.cong)
  next
    case False
    then show ?thesis
      using \<open>ok\<close> lo assms(2) absent [OF False]
      by (simp add: u_def terms_lone lane_pair2_def at0_map at0_def add.assoc [symmetric])
  qed
qed

lemma msg_blocks:
  assumes ok and "length b = length f" and "block dvd length f" and "0 < block"
  shows "round_msg_blocks W f b block = Value (lane_msg block (map lift f) b)"
proof -
  let ?m = "div_ceil (length f div block) 2" and ?per = "div_ceil block ROUND_CHUNK"
  have K: "0 < ROUND_CHUNK" by (simp add: ROUND_CHUNK_def)
  have "rw_reduce W (fst (block_task W f b block t)) = (\<Sum>y<min ROUND_CHUNK (block - t mod ?per * ROUND_CHUNK).
        lane_pair0 block (map lift f) b (t div ?per) (t mod ?per * ROUND_CHUNK + y)) \<and>
      rw_reduce W (snd (block_task W f b block t)) = (\<Sum>y<min ROUND_CHUNK (block - t mod ?per * ROUND_CHUNK).
        lane_pair2 block (map lift f) b (t div ?per) (t mod ?per * ROUND_CHUNK + y))" if "t < ?m * ?per" for t
  proof -
    note bounds = task_bounds [OF K assms(4) that]
    then have "2 * (t div ?per) < length f div block"
      by (metis less_div_ceil mult.commute zero_less_numeral)
    from lane_terms [OF assms this bounds(3)] show ?thesis
      unfolding block_task_def Let_def by (intro conjI)
  qed
  then have "reduce_msg W (accumulate_msg W (?m * ?per) (length f div 2) (rw_zero_acc W) (block_task W f b block)) =
      lane_msg block (map lift f) b"
    using \<open>ok\<close> K assms(4) by (auto simp: accumulate lane_msg_def intro!: pair_sum_lanes)
  with assms show ?thesis by (simp add: round_msg_blocks_def)
qed

text \<open>A stage is the window of the folded lanes.\<close>

lemma stage_window:
  assumes ok and "block dvd length f" and "0 < block" and "2 * i < length f div block" and "x0 + n \<le> block"
  shows "lane_stage W f r block i x0 n = window (lane_fold block r (map lift f)) (i * block + x0) n"
    and "i * block + x0 + n \<le> length (lane_fold block r (map lift f))"
    and "length (lane_stage W f r block i x0 n) = n"
proof -
  note bounds = lane_bounds [OF assms(2,3)]
  have lo: "2 * i * block + x0 + n \<le> length f"
    using bounds(1) [OF assms(4)] assms(5) by linarith
  have hi: "2 * i * block + x0 + block + n \<le> length f" if "2 * i + 1 < length f div block"
    using bounds(2) [OF that] assms(5) by linarith
  have absent: "(2 * i * block + x0 + y + block < length f) = False" if "\<not> 2 * i + 1 < length f div block" for y
    using bounds(3) [OF that] by auto
  have "i + 1 \<le> div_ceil (length f div block) 2"
    using assms(4) by (simp add: less_div_ceil Suc_le_eq mult.commute)
  then have "(i + 1) * block \<le> div_ceil (length f div block) 2 * block"
    by (rule mult_le_mono1)
  then show len: "i * block + x0 + n \<le> length (lane_fold block r (map lift f))"
    using assms(5) by (simp add: lane_fold_def)
  have at: "(i * block + x0 + y) div block = i" "(i * block + x0 + y) mod block = x0 + y" if "y < n" for y
    using that assms(3,5) by (simp_all add: add.assoc)
  show stage: "length (lane_stage W f r block i x0 n) = n"
    using lo hi by (auto simp: lane_stage_def Let_def)
  show "lane_stage W f r block i x0 n = window (lane_fold block r (map lift f)) (i * block + x0) n"
  proof (rule nth_equalityI)
    show "length (lane_stage W f r block i x0 n) = length (window (lane_fold block r (map lift f)) (i * block + x0) n)"
      using stage len by simp
    fix y assume "y < length (lane_stage W f r block i x0 n)"
    then have y: "y < n" by (simp add: stage)
    then have rhs: "window (lane_fold block r (map lift f)) (i * block + x0) n ! y =
        (let lo = 2 * i * block + (x0 + y) in at0 (map lift f) lo + r * (at0 (map lift f) lo + at0 (map lift f) (lo + block)))"
      using len at [OF y] by (simp add: lane_fold_def Let_def add.assoc)
    show "lane_stage W f r block i x0 n ! y = window (lane_fold block r (map lift f)) (i * block + x0) n ! y"
    proof (cases "2 * i + 1 < length f div block")
      case True
      then show ?thesis using \<open>ok\<close> lo hi y
        by (simp add: rhs lane_stage_def Let_def fold_pair at0_map add.assoc [symmetric]
            add.commute [of _ block] add.left_commute [of _ block])
    next
      case False
      then show ?thesis using \<open>ok\<close> lo y absent [OF False]
        by (simp add: rhs lane_stage_def Let_def fold_lone at0_map add.assoc [symmetric])
    qed
  qed
qed

lemma stage_step_writes: "fst (snd (stage_step P W f b r block final i x0 n)) =
    (2 * i * block + x0, lane_stage W f r block (2 * i) x0 n) #
    (if 2 * i + 1 < div_ceil (length f div block) 2
     then [((2 * i + 1) * block + x0, lane_stage W f r block (2 * i + 1) x0 n)] else [])"
  by (simp add: stage_step_def Let_def)

lemma fold_task_writes: "fst (snd (fold_task P W f b r block final t)) =
    concat (map (\<lambda>j. fst (snd (stage_step P W f b r block final (t div div_ceil block ROUND_CHUNK)
      (t mod div_ceil block ROUND_CHUNK * ROUND_CHUNK + j * STAGE)
      (min STAGE (min ROUND_CHUNK (block - t mod div_ceil block ROUND_CHUNK * ROUND_CHUNK) - j * STAGE)))))
    [0..<div_ceil (min ROUND_CHUNK (block - t mod div_ceil block ROUND_CHUNK * ROUND_CHUNK)) STAGE])"
  by (simp add: fold_task_def Let_def o_def)

lemma fold_task_member:
  assumes "t div div_ceil block ROUND_CHUNK = i" and "t mod div_ceil block ROUND_CHUNK * ROUND_CHUNK = x0"
    and "min ROUND_CHUNK (block - x0) = len"
  shows "w \<in> set (fst (snd (fold_task P W f b r block final t))) \<longleftrightarrow> (\<exists>j < div_ceil len STAGE.
      w \<in> set (fst (snd (stage_step P W f b r block final i (x0 + j * STAGE) (min STAGE (len - j * STAGE))))))"
  unfolding fold_task_writes in_concat_upt assms ..

lemma basis_writes: "length b = length f \<Longrightarrow>
    snd (snd (fold_task P W f b r block final t)) = fst (snd (fold_task P (rw_ext P) b b r block final t))"
proof -
  assume len: "length b = length f"
  have "snd (snd (stage_step P W f b r block final i x0 n)) = fst (snd (stage_step P (rw_ext P) b b r block final i x0 n))" for i x0 n
    unfolding stage_step_writes by (simp add: stage_step_def Let_def len)
  then show ?thesis unfolding fold_task_writes by (simp add: fold_task_def Let_def o_def)
qed

text \<open>What a step of a task contributes to the message, and the windows it writes.\<close>

lemma stage_step_windows:
  assumes ok and "primitives_lawful P" and "length b = length f" and "block dvd length f" and "0 < block"
    and "2 * i < div_ceil (length f div block) 2" and "x0 + n \<le> block"
    and "w \<in> set (fst (snd (stage_step P W f b r block final i x0 n)))"
  shows "fst w + length (snd w) \<le> length (lane_fold block r (map lift f)) \<and>
      snd w = window (lane_fold block r (map lift f)) (fst w) (length (snd w))"
proof -
  note stage = stage_window [OF assms(1,4,5) _ assms(7), of _ r]
  have 0: "2 * (2 * i) < length f div block" using assms(6) by (simp add: less_div_ceil)
  have 1: "2 * (2 * i + 1) < length f div block" if "2 * i + 1 < div_ceil (length f div block) 2"
    using that by (simp add: less_div_ceil)
  show ?thesis
    using assms(8) stage [OF 0] stage [OF 1]
    by (auto simp: stage_step_def Let_def split: if_splits)
qed

lemma stage_step_msg:
  fixes r :: 'e and final :: bool
  assumes ok and P: "primitives_lawful P" and "length b = length f" and "block dvd length f" and "0 < block"
    and "2 * i < div_ceil (length f div block) 2" and "x0 + n \<le> block"
  defines "F \<equiv> lane_fold block r (map lift f)" and "B \<equiv> lane_fold block r b"
  defines "u \<equiv> fst (stage_step P W f b r block final i x0 n)"
  shows "\<not> (final \<and> \<not> 2 * i + 1 < div_ceil (length f div block) 2) \<Longrightarrow>
      rw_reduce (rw_ext P) (fst u) = (\<Sum>y<n. lane_pair0 block F B i (x0 + y)) \<and>
      rw_reduce (rw_ext P) (snd u) = (\<Sum>y<n. lane_pair2 block F B i (x0 + y))"
    and "final \<Longrightarrow> \<not> 2 * i + 1 < div_ceil (length f div block) 2 \<Longrightarrow>
      reduce_msg (rw_ext P) u = lsb_msg (window F (2 * i * block + x0) n) (window B (2 * i * block + x0) n)"
proof -
  have 0: "2 * (2 * i) < length f div block" using assms(6) by (simp add: less_div_ceil)
  have 1: "2 * (2 * i + 1) < length f div block" if "2 * i + 1 < div_ceil (length f div block) 2"
    using that by (simp add: less_div_ceil)
  note stage = stage_window(1) [OF assms(1,4,5) _ assms(7), of _ r]
  note stage' = ext_witness.stage_window(1) [OF P _ assms(5) _ assms(7), of b _ r]
  have lo: "lane_stage W f r block (2 * i) x0 n = window F (2 * i * block + x0) n"
    "lane_stage (rw_ext P) b r block (2 * i) x0 n = window B (2 * i * block + x0) n"
    using stage [OF 0] stage' [of "2 * i"] 0 assms(3,4) by (simp_all add: F_def B_def)
  have hi: "lane_stage W f r block (2 * i + 1) x0 n = window F (2 * i * block + x0 + block) n"
    "lane_stage (rw_ext P) b r block (2 * i + 1) x0 n = window B (2 * i * block + x0 + block) n"
    if "2 * i + 1 < div_ceil (length f div block) 2"
    using stage [OF 1 [OF that]] stage' [of "2 * i + 1"] 1 [OF that] assms(3,4)
    by (simp_all add: F_def B_def algebra_simps)
  have lanes: "length F div block = div_ceil (length f div block) 2" "length B = length F" "block dvd length F"
    using assms(3,5) by (simp_all add: F_def B_def)
  show "rw_reduce (rw_ext P) (fst u) = (\<Sum>y<n. lane_pair0 block F B i (x0 + y)) \<and>
      rw_reduce (rw_ext P) (snd u) = (\<Sum>y<n. lane_pair2 block F B i (x0 + y))"
    if "\<not> (final \<and> \<not> 2 * i + 1 < div_ceil (length f div block) 2)"
    using ext_witness.lane_terms [OF P lanes(2,3) assms(5) _ assms(7), of i] assms(6) lo hi that lanes
    by (auto simp: u_def stage_step_def Let_def)
  show "reduce_msg (rw_ext P) u = lsb_msg (window F (2 * i * block + x0) n) (window B (2 * i * block + x0) n)"
    if "final" "\<not> 2 * i + 1 < div_ceil (length f div block) 2"
    using lo that by (simp add: u_def stage_step_def Let_def fold_terms [OF P])
qed

lemma task_windows:
  assumes ok and "primitives_lawful P" and "length b = length f" and "block dvd length f" and "0 < block"
    and t: "t < div_ceil (div_ceil (length f div block) 2) 2 * div_ceil block ROUND_CHUNK"
    and "w \<in> set (fst (snd (fold_task P W f b r block final t)))"
  shows "fst w + length (snd w) \<le> length (lane_fold block r (map lift f)) \<and>
      snd w = window (lane_fold block r (map lift f)) (fst w) (length (snd w))"
proof -
  let ?per = "div_ceil block ROUND_CHUNK"
  have K: "0 < ROUND_CHUNK" by (simp add: ROUND_CHUNK_def)
  note bounds = task_bounds [OF K assms(5) t]
  have i: "2 * (t div ?per) < div_ceil (length f div block) 2"
    using bounds(1) by (metis less_div_ceil mult.commute zero_less_numeral)
  from assms(7) obtain j where w: "w \<in> set (fst (snd (stage_step P W f b r block final (t div ?per)
      (t mod ?per * ROUND_CHUNK + j * STAGE)
      (min STAGE (min ROUND_CHUNK (block - t mod ?per * ROUND_CHUNK) - j * STAGE)))))"
    and j: "j < div_ceil (min ROUND_CHUNK (block - t mod ?per * ROUND_CHUNK)) STAGE"
    unfolding fold_task_writes in_concat_upt by blast
  have "j * STAGE < min ROUND_CHUNK (block - t mod ?per * ROUND_CHUNK)"
    using j by (subst less_div_ceil [symmetric]) (simp_all add: STAGE_def)
  then have "t mod ?per * ROUND_CHUNK + j * STAGE +
      min STAGE (min ROUND_CHUNK (block - t mod ?per * ROUND_CHUNK) - j * STAGE) \<le> block"
    using bounds(3) by linarith
  from stage_step_windows [OF assms(1-5) i this w] show ?thesis .
qed

text \<open>Every position of the folded lanes lies in a window.\<close>

lemma task_covers:
  assumes ok and "block dvd length f" and "0 < block"
    and "k < div_ceil (length f div block) 2 * block"
  shows "\<exists>t < div_ceil (div_ceil (length f div block) 2) 2 * div_ceil block ROUND_CHUNK.
      \<exists>w \<in> set (fst (snd (fold_task P W f b r block final t))). fst w \<le> k \<and> k < fst w + length (snd w)"
proof -
  let ?per = "div_ceil block ROUND_CHUNK" and ?n_out = "div_ceil (length f div block) 2"
  define out y where "out = k div block" and "y = k mod block"
  define i c s where "i = out div 2" and "c = y div ROUND_CHUNK" and "s = y mod ROUND_CHUNK"
  let ?x0 = "c * ROUND_CHUNK" let ?len = "min ROUND_CHUNK (block - ?x0)"
  let ?j = "s div STAGE" let ?n = "min STAGE (?len - ?j * STAGE)"
  have y: "y < block" and k: "k = out * block + y" using assms(3) by (simp_all add: y_def out_def)
  have out: "out < ?n_out" using assms(3,4) by (simp add: out_def div_less_iff_less_mult)
  have c: "c < ?per" "y = ?x0 + s" "s < ?len"
    using window_of [of ROUND_CHUNK y block] y by (simp_all add: c_def s_def ROUND_CHUNK_def)
  have j: "?j < div_ceil ?len STAGE" "s = ?j * STAGE + s mod STAGE" "s mod STAGE < ?n"
    using window_of [of STAGE s ?len] c(3) by (simp_all add: STAGE_def)
  define t where "t = i * ?per + c"
  have t: "t div ?per = i" "t mod ?per = c" using c(1) by (simp_all add: t_def)
  have i: "2 * i < ?n_out" "out = 2 * i \<or> out = 2 * i + 1"
    using out by (auto simp: i_def)
  then have "i + 1 \<le> div_ceil ?n_out 2" by (simp add: less_div_ceil Suc_le_eq mult.commute)
  then have "(i + 1) * ?per \<le> div_ceil ?n_out 2 * ?per" by (rule mult_le_mono1)
  then have "t < div_ceil ?n_out 2 * ?per" using c(1) by (simp add: t_def)
  let ?w = "(out * block + (?x0 + ?j * STAGE), lane_stage W f r block out (?x0 + ?j * STAGE) ?n)"
  have "?w \<in> set (fst (snd (stage_step P W f b r block final i (?x0 + ?j * STAGE) ?n)))"
    using i out by (auto simp: stage_step_writes)
  then have "?w \<in> set (fst (snd (fold_task P W f b r block final t)))"
    using j(1) by (subst fold_task_member [OF t(1) _ refl]) (simp only: t, blast)
  have out2: "2 * out < length f div block" using out by (simp add: less_div_ceil mult.commute)
  have "?x0 < block" using c(2) y by linarith
  then have "?x0 + ?len \<le> block" by simp
  then have fits: "?x0 + ?j * STAGE + ?n \<le> block" by (rule stage_fits [OF j(1)])
  have len: "length (lane_stage W f r block out (?x0 + ?j * STAGE) ?n) = ?n"
    by (rule stage_window(3) [OF assms(1-3) out2 fits])
  define n where "n = ?n"
  have "?j * STAGE \<le> s" and "s < ?j * STAGE + n" using j(2,3) by (simp_all only: n_def [symmetric])
  moreover have "k = out * block + ?x0 + s" using k c(2) by linarith
  ultimately have "fst ?w \<le> k \<and> k < fst ?w + length (snd ?w)"
    unfolding fst_conv snd_conv len unfolding n_def [symmetric] by linarith
  with \<open>t < _\<close> \<open>?w \<in> set (fst (snd (fold_task P W f b r block final t)))\<close> show ?thesis by blast
qed

lemma lanes_written:
  assumes "ok" and "primitives_lawful P" and "length b = length f" and "block dvd length f" and "0 < block"
    and "length buf = div_ceil (length f div block) 2 * block"
  shows "write_windows buf (concat (map (\<lambda>t. fst (snd (fold_task P W f b r block final t)))
      [0..<div_ceil (div_ceil (length f div block) 2) 2 * div_ceil block ROUND_CHUNK])) =
    lane_fold block r (map lift f)"
proof (rule write_windows_eq)
  fix i assume "i < length (lane_fold block r (map lift f))"
  then show "\<exists>w\<in>set (concat (map (\<lambda>t. fst (snd (fold_task P W f b r block final t)))
      [0..<div_ceil (div_ceil (length f div block) 2) 2 * div_ceil block ROUND_CHUNK])).
      fst w \<le> i \<and> i < fst w + length (snd w)"
    using task_covers [OF assms(1,4,5), of i P b r final] by auto
qed (use task_windows [OF assms(1-5)] assms(6) in auto)

text \<open>The message of a task is the sum over its stages.\<close>

lemma task_msg_stages:
  fixes f :: "'t list" and b :: "'e list" and r :: 'e and block t :: nat and final :: bool
  assumes P: "primitives_lawful P"
  defines "c \<equiv> t mod div_ceil block ROUND_CHUNK"
  defines "len \<equiv> min ROUND_CHUNK (block - c * ROUND_CHUNK)"
  defines "step \<equiv> \<lambda>j. fst (stage_step P W f b r block final (t div div_ceil block ROUND_CHUNK)
      (c * ROUND_CHUNK + j * STAGE) (min STAGE (len - j * STAGE)))"
  shows "reduce_msg (rw_ext P) (fst (fold_task P W f b r block final t)) = pair_sum (div_ceil len STAGE)
      (\<lambda>j. u_0 (reduce_msg (rw_ext P) (step j))) (\<lambda>j. u_2 (reduce_msg (rw_ext P) (step j)))"
proof -
  have "fst (fold_task P W f b r block final t) = foldl (\<lambda>u j. xor2 (rw_ext P) u (step j))
      (rw_zero_acc (rw_ext P), rw_zero_acc (rw_ext P)) [0..<div_ceil len STAGE]"
    by (simp add: fold_task_def Let_def foldl_map step_def len_def c_def) (simp add: rw_ext_def)
  then show ?thesis
    using ext_witness.reduce_pairs [OF P, of step] by (simp add: reduce_msg_sum)
qed

lemma task_msg:
  fixes f :: "'t list" and b :: "'e list" and r :: 'e and block t :: nat and final :: bool
  assumes "ok" and P: "primitives_lawful P" and "length b = length f" and "block dvd length f" and "0 < block"
    and t: "t < div_ceil (div_ceil (length f div block) 2) 2 * div_ceil block ROUND_CHUNK"
    and "\<not> final"
  defines "F \<equiv> lane_fold block r (map lift f)" and "B \<equiv> lane_fold block r b"
  defines "i \<equiv> t div div_ceil block ROUND_CHUNK" and "x0 \<equiv> t mod div_ceil block ROUND_CHUNK * ROUND_CHUNK"
  shows "reduce_msg (rw_ext P) (fst (fold_task P W f b r block final t)) =
      \<lparr>u_0 = \<Sum>y<min ROUND_CHUNK (block - x0). lane_pair0 block F B i (x0 + y),
       u_2 = \<Sum>y<min ROUND_CHUNK (block - x0). lane_pair2 block F B i (x0 + y)\<rparr>"
proof -
  let ?len = "min ROUND_CHUNK (block - x0)"
  let ?step = "\<lambda>j. fst (stage_step P W f b r block final i (x0 + j * STAGE) (min STAGE (?len - j * STAGE)))"
  have K: "0 < ROUND_CHUNK" "0 < STAGE" by (simp_all add: ROUND_CHUNK_def STAGE_def)
  note bounds = task_bounds [OF K(1) assms(5) t, folded i_def x0_def]
  have i: "2 * i < div_ceil (length f div block) 2"
    using bounds(1) by (metis less_div_ceil mult.commute zero_less_numeral)
  have "reduce_msg (rw_ext P) (fst (fold_task P W f b r block final t)) = pair_sum (div_ceil ?len STAGE)
      (\<lambda>j. u_0 (reduce_msg (rw_ext P) (?step j))) (\<lambda>j. u_2 (reduce_msg (rw_ext P) (?step j)))"
    using task_msg_stages [OF P, of f b r block final t] by (simp only: i_def x0_def)
  also have "\<dots> = pair_sum (div_ceil ?len STAGE)
      (\<lambda>j. \<Sum>y<min STAGE (?len - j * STAGE). lane_pair0 block F B i (x0 + (j * STAGE + y)))
      (\<lambda>j. \<Sum>y<min STAGE (?len - j * STAGE). lane_pair2 block F B i (x0 + (j * STAGE + y)))"
  proof (rule pair_sum_cong)
    fix j assume "j < div_ceil ?len STAGE"
    note fits = stage_fits [OF this bounds(3)]
    have "rw_reduce (rw_ext P) (fst (?step j)) =
          (\<Sum>y<min STAGE (?len - j * STAGE). lane_pair0 block F B i (x0 + j * STAGE + y)) \<and>
        rw_reduce (rw_ext P) (snd (?step j)) =
          (\<Sum>y<min STAGE (?len - j * STAGE). lane_pair2 block F B i (x0 + j * STAGE + y))"
      unfolding F_def B_def
      by (rule stage_step_msg(1) [OF assms(1) P assms(3-5) i fits]) (use \<open>\<not> final\<close> in simp)
    then show "u_0 (reduce_msg (rw_ext P) (?step j)) =
        (\<Sum>y<min STAGE (?len - j * STAGE). lane_pair0 block F B i (x0 + (j * STAGE + y)))"
      "u_2 (reduce_msg (rw_ext P) (?step j)) =
        (\<Sum>y<min STAGE (?len - j * STAGE). lane_pair2 block F B i (x0 + (j * STAGE + y)))"
      by (simp_all add: reduce_msg_def add.assoc)
  qed
  also have "\<dots> = \<lparr>u_0 = \<Sum>y<?len. lane_pair0 block F B i (x0 + y), u_2 = \<Sum>y<?len. lane_pair2 block F B i (x0 + y)\<rparr>"
    using sum_windows [OF K(2), of "\<lambda>y. lane_pair0 block F B i (x0 + y)" ?len]
      sum_windows [OF K(2), of "\<lambda>y. lane_pair2 block F B i (x0 + y)" ?len]
    by (simp only: pair_sum_def)
  finally show ?thesis .
qed

text \<open>After the last lane round the next message pairs adjacent elements of the single lane.\<close>

lemma final_task_msg:
  fixes f :: "'t list" and b :: "'e list" and r :: 'e and block t :: nat and final :: bool
  assumes "ok" and P: "primitives_lawful P" and "length b = length f" and "block dvd length f" and "block = 2 ^ k"
    and t: "t < div_ceil block ROUND_CHUNK" and "final" and n_out: "div_ceil (length f div block) 2 = 1"
  defines "F \<equiv> lane_fold block r (map lift f)" and "B \<equiv> lane_fold block r b"
  defines "len \<equiv> min ROUND_CHUNK (block - t * ROUND_CHUNK)"
  shows "reduce_msg (rw_ext P) (fst (fold_task P W f b r block final t)) =
    lsb_msg (window F (t * ROUND_CHUNK) len) (window B (t * ROUND_CHUNK) len)"
proof -
  let ?x0 = "t * ROUND_CHUNK"
  let ?step = "\<lambda>j. fst (stage_step P W f b r block final 0 (?x0 + j * STAGE) (min STAGE (len - j * STAGE)))"
  let ?f = "window F ?x0 len" and ?b = "window B ?x0 len"
  have K: "0 < ROUND_CHUNK" "even ROUND_CHUNK" "0 < STAGE" "even STAGE" "0 < block"
    using assms(5) by (simp_all add: ROUND_CHUNK_def STAGE_def)
  have task: "t div div_ceil block ROUND_CHUNK = 0" "t mod div_ceil block ROUND_CHUNK = t"
    using t by simp_all
  have "t < 1 * div_ceil block ROUND_CHUNK" using t by simp
  note bounds = task_bounds [OF K(1,5) this, unfolded task, folded len_def]
  have lens: "length F = block" "length B = block" using n_out assms(3) by (simp_all add: F_def B_def)
  have chunk: "length ?f = len" "length ?b = len" using lens bounds(3) by simp_all
  have "reduce_msg (rw_ext P) (fst (fold_task P W f b r block final t)) = pair_sum (div_ceil len STAGE)
      (\<lambda>j. u_0 (reduce_msg (rw_ext P) (?step j))) (\<lambda>j. u_2 (reduce_msg (rw_ext P) (?step j)))"
    using task_msg_stages [OF P, of f b r block final t] by (simp only: task len_def)
  also have "\<dots> = pair_sum (div_ceil len STAGE)
      (\<lambda>j. u_0 (lsb_msg (window ?f (j * STAGE) (min STAGE (len - j * STAGE))) (window ?b (j * STAGE) (min STAGE (len - j * STAGE)))))
      (\<lambda>j. u_2 (lsb_msg (window ?f (j * STAGE) (min STAGE (len - j * STAGE))) (window ?b (j * STAGE) (min STAGE (len - j * STAGE)))))"
  proof -
    have "reduce_msg (rw_ext P) (?step j) = lsb_msg (window ?f (j * STAGE) (min STAGE (len - j * STAGE)))
        (window ?b (j * STAGE) (min STAGE (len - j * STAGE)))" if j: "j < div_ceil len STAGE" for j
    proof -
      have fits: "?x0 + j * STAGE + min STAGE (len - j * STAGE) \<le> block"
        using stage_fits [of j block ?x0] j bounds(3) by (simp only: len_def)
      have "j * STAGE < len" using j K(3) by (simp only: less_div_ceil)
      then have inside: "j * STAGE + min STAGE (len - j * STAGE) \<le> len" by linarith
      have "reduce_msg (rw_ext P) (?step j) = lsb_msg (window F (2 * 0 * block + (?x0 + j * STAGE)) (min STAGE (len - j * STAGE)))
          (window B (2 * 0 * block + (?x0 + j * STAGE)) (min STAGE (len - j * STAGE)))"
        unfolding F_def B_def
        by (rule stage_step_msg(2) [OF assms(1) P assms(3,4) K(5) _ fits]) (use n_out \<open>final\<close> in simp_all)
      then show ?thesis using inside by (simp add: window_window)
    qed
    then show ?thesis by (intro pair_sum_cong) simp_all
  qed
  also have "\<dots> = lsb_msg ?f ?b"
  proof (cases k)
    case 0
    then have "len \<le> 1" using assms(5) by (simp add: len_def)
    moreover have "lsb_msg ?f ?b = \<lparr>u_0 = 0, u_2 = 0\<rparr>"
      using chunk \<open>len \<le> 1\<close> by (intro lsb_msg_small) simp
    ultimately show ?thesis by (simp only: lsb_msg_tiny sumcheck_message.simps pair_sum_zero)
  next
    case (Suc k')
    then have "even (block - t * ROUND_CHUNK)" using assms(5) K(2) by simp
    then have "even len" using K(2) by (simp add: len_def min_def)
    from lsb_msg_windows [of ?b ?f STAGE, unfolded chunk, OF refl K(4,3) this] show ?thesis .
  qed
  finally show ?thesis .
qed

lemma ceil_one: "div_ceil n 2 = 1 \<Longrightarrow> div_ceil (div_ceil n 2) 2 = 1"
  by (simp add: div_ceil_def)

lemma fold_blocks:
  fixes f :: "'t list" and b :: "'e list" and r :: 'e and block :: nat and final :: bool
  assumes "ok" and P: "primitives_lawful P" and "length b = length f" and "block dvd length f" and "block = 2 ^ k"
    and "final \<Longrightarrow> div_ceil (length f div block) 2 = 1"
  defines "F \<equiv> lane_fold block r (map lift f)" and "B \<equiv> lane_fold block r b"
  shows "fold_and_msg_blocks P W f b r block final = Value (F, B, if final then lsb_msg F B else lane_msg block F B)"
proof -
  let ?X = "rw_ext P" and ?n_out = "div_ceil (length f div block) 2" and ?per = "div_ceil block ROUND_CHUNK"
  let ?task = "fold_task P W f b r block final" and ?buf = "pr_uninit P (div_ceil (length f div block) 2 * block)"
  have K: "0 < ROUND_CHUNK" "even ROUND_CHUNK" "0 < block" using assms(5) by (simp_all add: ROUND_CHUNK_def)
  have buf: "length ?buf = ?n_out * block" using P by (simp add: primitives_lawful_def)
  have nf: "write_windows ?buf (concat (map (\<lambda>t. fst (snd (?task t))) [0..<div_ceil ?n_out 2 * ?per])) = F"
    unfolding F_def by (rule lanes_written [OF assms(1) P assms(3,4) K(3) buf])
  have basis: "snd (snd (fold_task P W f b r block final t)) = fst (snd (fold_task P ?X b b r block final t))" for t
    using basis_writes [OF assms(3)] .
  have nb: "write_windows ?buf (concat (map (\<lambda>t. snd (snd (?task t))) [0..<div_ceil ?n_out 2 * ?per])) = B"
    using ext_witness.lanes_written [OF P P, of b b block ?buf r final] assms(3,4) K(3) buf
    by (simp add: basis B_def)
  have "reduce_msg ?X (accumulate_msg ?X (div_ceil ?n_out 2 * ?per) (length f div 2) (rw_zero_acc ?X) (\<lambda>t. fst (?task t))) =
      pair_sum (div_ceil ?n_out 2 * ?per) (\<lambda>t. u_0 (reduce_msg ?X (fst (?task t)))) (\<lambda>t. u_2 (reduce_msg ?X (fst (?task t))))"
    by (simp add: ext_witness.accumulate [OF P] reduce_msg_sum)
  also have "\<dots> = (if final then lsb_msg F B else lane_msg block F B)"
  proof (cases final)
    case True
    have lens: "length F = block" "length B = block" using assms(3,6) True by (simp_all add: F_def B_def)
    have n: "div_ceil ?n_out 2 * ?per = ?per" using ceil_one [OF assms(6) [OF True]] by simp
    have "pair_sum ?per (\<lambda>t. u_0 (reduce_msg ?X (fst (?task t)))) (\<lambda>t. u_2 (reduce_msg ?X (fst (?task t)))) =
        pair_sum (div_ceil (length F) ROUND_CHUNK)
          (\<lambda>c. u_0 (lsb_msg (window F (c * ROUND_CHUNK) (min ROUND_CHUNK (length F - c * ROUND_CHUNK)))
             (window B (c * ROUND_CHUNK) (min ROUND_CHUNK (length F - c * ROUND_CHUNK)))))
          (\<lambda>c. u_2 (lsb_msg (window F (c * ROUND_CHUNK) (min ROUND_CHUNK (length F - c * ROUND_CHUNK)))
             (window B (c * ROUND_CHUNK) (min ROUND_CHUNK (length F - c * ROUND_CHUNK)))))"
      unfolding lens using final_task_msg [OF assms(1) P assms(3-5) _ True assms(6) [OF True], of _ r]
      by (intro pair_sum_cong) (simp_all add: F_def B_def)
    also have "\<dots> = lsb_msg F B"
    proof (cases k)
      case 0
      then have "block = 1" using assms(5) by simp
      then show ?thesis using lens by (simp add: lsb_msg_tiny [of "Suc 0"] lsb_msg_small [of F B])
    next
      case (Suc k')
      then show ?thesis using lsb_msg_windows [of B F ROUND_CHUNK] K lens assms(5) by simp
    qed
    finally show ?thesis using True by (simp add: n)
  next
    case False
    have lanes: "length F div block = ?n_out" using K(3) by (simp add: F_def)
    show ?thesis using False task_msg [OF assms(1) P assms(3,4) K(3) _ False, of _ r] K
      by (auto simp: lane_msg_def lanes F_def B_def intro!: pair_sum_lanes)
  qed
  finally show ?thesis
    using assms(3,4,6) K(3) nf nb
    by (simp add: fold_and_msg_blocks_def Let_def rw_ext_def)
qed

end

end
