(* ===== verification/Streamed_Facts.thy ===== *)
theory Streamed_Facts
  imports Sumcheck_Kernel_Facts
begin

text \<open>
  The basis built by chunks and the basis that is never stored: both give the messages and folds
  of the stored basis.
\<close>

section \<open>Repeated lane folds\<close>

definition lane_folds :: "nat \<Rightarrow> 'e::comm_ring_1 list \<Rightarrow> 'e list \<Rightarrow> 'e list" where
  "lane_folds block rs xs = foldl (\<lambda>xs r. lane_fold block r xs) xs rs"

lemma lane_folds_simps [simp]: "lane_folds block [] xs = xs"
  "lane_folds block (r # rs) xs = lane_folds block rs (lane_fold block r xs)"
  by (simp_all add: lane_folds_def)

lemma lane_folds_snoc: "lane_folds block (rs @ [r]) xs = lane_fold block r (lane_folds block rs xs)"
  by (simp add: lane_folds_def)

lemma div_ceil_div_ceil: "div_ceil (div_ceil n 2) (2 ^ k) = div_ceil n (2 ^ Suc k)"
proof -
  have "i < div_ceil (div_ceil n 2) (2 ^ k) \<longleftrightarrow> i < div_ceil n (2 ^ Suc k)" for i
    by (simp add: less_div_ceil mult.assoc mult.commute mult.left_commute)
  then show ?thesis by (metis linorder_neqE_nat less_irrefl_nat)
qed

lemma div_ceil_one [simp]: "div_ceil n (Suc 0) = n"
  by (simp add: div_ceil_def)

lemma length_lane_folds: "0 < block \<Longrightarrow> block dvd length xs \<Longrightarrow>
    length (lane_folds block rs xs) = div_ceil (length xs div block) (2 ^ length rs) * block"
  by (induction rs arbitrary: xs) (simp_all add: div_ceil_div_ceil del: power_Suc)

lemma at0_lane_fold:
  assumes "0 < block" and "block dvd length xs" and "x < block"
  shows "at0 (lane_fold block r xs) (i * block + x) =
    (1 + r) * at0 xs (2 * i * block + x) + r * at0 xs ((2 * i + 1) * block + x)"
proof (cases "2 * i < length xs div block")
  case True
  then have "i * block + x < length (lane_fold block r xs)"
  proof -
    have "i + 1 \<le> div_ceil (length xs div block) 2" using True by (simp add: less_div_ceil Suc_le_eq mult.commute)
    then have "(i + 1) * block \<le> div_ceil (length xs div block) 2 * block" by (rule mult_le_mono1)
    then show ?thesis using assms(3) by simp
  qed
  moreover have "(i * block + x) div block = i" "(i * block + x) mod block = x"
    using assms(3) by simp_all
  ultimately have "at0 (lane_fold block r xs) (i * block + x) = at0 xs (2 * i * block + x) +
      r * (at0 xs (2 * i * block + x) + at0 xs (2 * i * block + x + block))"
    by (simp add: at0_def [of "lane_fold block r xs"]) (simp add: lane_fold_def Let_def)
  moreover have "(2 * i + 1) * block + x = 2 * i * block + x + block" by simp
  ultimately show ?thesis by (simp only: distrib_left distrib_right mult_1_left add.assoc)
next
  case False
  then have "\<not> i < div_ceil (length xs div block) 2" by (simp add: less_div_ceil mult.commute)
  then have "div_ceil (length xs div block) 2 * block \<le> i * block" by (simp only: mult_le_mono1 not_less)
  then have "\<not> i * block + x < length (lane_fold block r xs)" unfolding length_lane_fold by linarith
  then have "at0 (lane_fold block r xs) (i * block + x) = 0" by (simp only: at0_def if_False)
  moreover have "length xs \<le> 2 * i * block"
    using False assms(1,2) by (metis dvd_div_mult_self mult_le_mono1 not_less)
  then have "at0 xs (2 * i * block + x) = 0" "at0 xs ((2 * i + 1) * block + x) = 0"
    by (simp_all add: at0_def)
  ultimately show ?thesis by simp
qed

lemma dvd_lane_fold: "block dvd length (lane_fold block r xs)"
  by simp

text \<open>Coordinate \<open>j\<close> of the challenges weighs bit \<open>j\<close> of the lane.\<close>

lemma at0_lane_folds: "0 < block \<Longrightarrow> block dvd length xs \<Longrightarrow> x < block \<Longrightarrow>
    at0 (lane_folds block rs xs) (i * block + x) =
      (\<Sum>l<2 ^ length rs. eq_weight rs l * at0 xs ((2 ^ length rs * i + l) * block + x))"
proof (induction rs arbitrary: xs)
  case (Cons r rs)
  let ?k = "2 ^ length rs :: nat"
  have "at0 (lane_folds block (r # rs) xs) (i * block + x) =
      (\<Sum>l<?k. eq_weight rs l * at0 (lane_fold block r xs) ((?k * i + l) * block + x))"
    using Cons by simp
  also have "\<dots> = (\<Sum>l<?k. eq_weight (r # rs) (2 * l) * at0 xs ((2 * ?k * i + 2 * l) * block + x) +
      eq_weight (r # rs) (2 * l + 1) * at0 xs ((2 * ?k * i + (2 * l + 1)) * block + x))"
  proof (rule sum.cong)
    fix l
    define A B where "A = at0 xs ((2 * ?k * i + 2 * l) * block + x)"
      and "B = at0 xs ((2 * ?k * i + (2 * l + 1)) * block + x)"
    have "2 * (?k * i + l) = 2 * ?k * i + 2 * l" "2 * (?k * i + l) + 1 = 2 * ?k * i + (2 * l + 1)" by simp_all
    then have eq: "at0 (lane_fold block r xs) ((?k * i + l) * block + x) = (1 + r) * A + r * B"
      using at0_lane_fold [OF Cons.prems, of r "?k * i + l"] by (simp only: A_def B_def)
    show "eq_weight rs l * at0 (lane_fold block r xs) ((?k * i + l) * block + x) =
        eq_weight (r # rs) (2 * l) * at0 xs ((2 * ?k * i + 2 * l) * block + x) +
        eq_weight (r # rs) (2 * l + 1) * at0 xs ((2 * ?k * i + (2 * l + 1)) * block + x)"
      unfolding eq A_def [symmetric] B_def [symmetric] by (simp add: algebra_simps)
  qed simp
  also have "\<dots> = (\<Sum>l<2 * ?k. eq_weight (r # rs) l * at0 xs ((2 * ?k * i + l) * block + x))"
    by (rule sum_pairs [symmetric])
  finally show ?case by simp
qed simp

section \<open>A basis that is filled by chunks\<close>

definition fills :: "(nat \<Rightarrow> 'e list \<Rightarrow> 'e list) \<Rightarrow> 'e list \<Rightarrow> bool" where
  "fills fill basis \<longleftrightarrow> (\<forall>start buf. start + length buf \<le> length basis \<longrightarrow>
     fill start buf = window basis start (length buf))"

lemma fillsD: "fills fill basis \<Longrightarrow> start + length buf \<le> length basis \<Longrightarrow>
    fill start buf = window basis start (length buf)"
  by (simp add: fills_def)

lemma lane_inside: "block dvd n \<Longrightarrow> 0 < block \<Longrightarrow> l < n div block \<Longrightarrow> x + k \<le> block \<Longrightarrow> l * block + x + k \<le> n"
  for block n :: nat
proof -
  assume "block dvd n" "0 < block" "l < n div block" "x + k \<le> block"
  then have "(l + 1) * block \<le> n div block * block" by (intro mult_le_mono1) simp
  with \<open>block dvd n\<close> \<open>x + k \<le> block\<close> show ?thesis by simp
qed

context round_witness begin

lemma basis_task_eq:
  assumes "ok" and "length basis = length f" and "fills fill basis" and "block dvd length f" and "0 < block"
    and "t < div_ceil (length f div block) 2 * div_ceil block INITIAL_BASIS_CHUNK"
  defines "i \<equiv> t div div_ceil block INITIAL_BASIS_CHUNK"
    and "x0 \<equiv> t mod div_ceil block INITIAL_BASIS_CHUNK * INITIAL_BASIS_CHUNK"
  defines "n \<equiv> min INITIAL_BASIS_CHUNK (block - x0)"
  shows "rw_reduce W (fst (fst (basis_task W f block fill t))) = (\<Sum>y<n. lane_pair0 block (map lift f) basis i (x0 + y))"
    and "rw_reduce W (snd (fst (basis_task W f block fill t))) = (\<Sum>y<n. lane_pair2 block (map lift f) basis i (x0 + y))"
    and "snd (basis_task W f block fill t) =
      (if 2 * i + 1 < length f div block then [(2 * i * block + x0 + block, window basis (2 * i * block + x0 + block) n)] else []) @
      [(2 * i * block + x0, window basis (2 * i * block + x0) n)]"
proof -
  have "0 < INITIAL_BASIS_CHUNK" by (simp add: INITIAL_BASIS_CHUNK_def)
  note bounds = task_bounds [OF this assms(5,6), folded i_def x0_def n_def]
  have i: "2 * i < length f div block"
    using bounds(1) by (metis less_div_ceil mult.commute zero_less_numeral)
  have lo: "2 * i * block + x0 + n \<le> length basis"
    using lane_inside [OF assms(4,5) i bounds(3)] assms(2) by simp
  have hi: "2 * i * block + x0 + block + n \<le> length basis" if "2 * i + 1 < length f div block"
    using lane_inside [OF assms(4,5) that bounds(3)] assms(2) by simp
  have b0: "fill (2 * i * block + x0) (replicate n 0) = window basis (2 * i * block + x0) n"
    using fillsD [OF assms(3), of _ "replicate n 0"] lo by simp
  have b1: "fill (2 * i * block + x0 + block) (replicate n 0) = window basis (2 * i * block + x0 + block) n"
    if "2 * i + 1 < length f div block"
    using fillsD [OF assms(3), of _ "replicate n 0"] hi [OF that] by simp
  note terms = lane_terms [OF assms(1,2,4,5) i bounds(3)]
  have task: "basis_task W f block fill t = (if 2 * i + 1 < length f div block
      then (msg_terms_pair W (window f (2 * i * block + x0) n) (window f (2 * i * block + x0 + block) n)
          (window basis (2 * i * block + x0) n) (window basis (2 * i * block + x0 + block) n),
        [(2 * i * block + x0 + block, window basis (2 * i * block + x0 + block) n),
         (2 * i * block + x0, window basis (2 * i * block + x0) n)])
      else (msg_terms_lone W (window f (2 * i * block + x0) n) (window basis (2 * i * block + x0) n),
        [(2 * i * block + x0, window basis (2 * i * block + x0) n)]))"
    using b0 b1 by (simp add: basis_task_def Let_def i_def x0_def n_def)
  show "rw_reduce W (fst (fst (basis_task W f block fill t))) = (\<Sum>y<n. lane_pair0 block (map lift f) basis i (x0 + y))"
    "rw_reduce W (snd (fst (basis_task W f block fill t))) = (\<Sum>y<n. lane_pair2 block (map lift f) basis i (x0 + y))"
    using terms by (simp_all add: task split: if_splits)
  show "snd (basis_task W f block fill t) =
      (if 2 * i + 1 < length f div block then [(2 * i * block + x0 + block, window basis (2 * i * block + x0 + block) n)] else []) @
      [(2 * i * block + x0, window basis (2 * i * block + x0) n)]"
    by (simp add: task)
qed

end

lemma window_around: "0 < K \<Longrightarrow> x < n \<Longrightarrow> x div K < div_ceil n K \<and> x div K * K \<le> x \<and>
    x < x div K * K + min K (n - x div K * K)" for x n :: nat
  using window_of [of K x n] by linarith

lemma build_basis:
  assumes P: "primitives_lawful P" and "length basis = length f" and "fills fill basis"
    and "block dvd length f" and "is_power_of_two block"
  shows "build_initial_basis P f block fill = Value (basis, lane_msg block (map (pr_from P) f) basis)"
proof -
  let ?W = "rw_base P" and ?m = "div_ceil (length f div block) 2" and ?per = "div_ceil block INITIAL_BASIS_CHUNK"
  let ?task = "basis_task ?W f block fill"
  have K: "0 < INITIAL_BASIS_CHUNK" by (simp add: INITIAL_BASIS_CHUNK_def)
  have block: "0 < block" using assms(5) by (auto simp: is_power_of_two_def list_ex_iff)
  note task = base_witness.basis_task_eq [OF P assms(2-4) block]
  have "reduce_msg ?W (accumulate_msg ?W (?m * ?per) (length f div 2) (rw_zero_acc ?W) (\<lambda>t. fst (?task t))) =
      lane_msg block (map (pr_from P) f) basis"
    using K block task(1,2) by (auto simp: base_witness.accumulate [OF P] lane_msg_def intro!: pair_sum_lanes)
  moreover have "write_windows (pr_uninit P (length f)) (concat (map (\<lambda>t. snd (?task t)) [0..<?m * ?per])) = basis"
  proof (rule write_windows_eq)
    fix w assume "w \<in> set (concat (map (\<lambda>t. snd (?task t)) [0..<?m * ?per]))"
    then obtain t where t: "t < ?m * ?per" "w \<in> set (snd (?task t))" by (auto simp: in_concat_upt)
    note bounds = task_bounds [OF K block t(1)]
    have i: "2 * (t div ?per) < length f div block"
      using bounds(1) by (metis less_div_ceil mult.commute zero_less_numeral)
    show "fst w + length (snd w) \<le> length basis \<and> snd w = window basis (fst w) (length (snd w))"
      using t(2) lane_inside [OF assms(4) block i bounds(3)] lane_inside [OF assms(4) block _ bounds(3), of "2 * (t div ?per) + 1"]
      by (auto simp: task(3) [OF t(1)] assms(2) split: if_splits)
  next
    fix k assume k: "k < length basis"
    define out y where "out = k div block" and "y = k mod block"
    define c where "c = y div INITIAL_BASIS_CHUNK"
    define t where "t = out div 2 * ?per + c"
    have y: "y < block" "k = out * block + y" using block by (simp_all add: y_def out_def)
    have out: "out < length f div block"
      using k assms(2,4) block by (simp add: out_def div_less_iff_less_mult)
    have c: "c < ?per" "c * INITIAL_BASIS_CHUNK \<le> y" "y < c * INITIAL_BASIS_CHUNK + min INITIAL_BASIS_CHUNK (block - c * INITIAL_BASIS_CHUNK)"
      using window_around [OF K y(1)] by (simp_all only: c_def)
    have t: "t div ?per = out div 2" "t mod ?per = c" using c(1) by (simp_all add: t_def)
    have "2 * (out div 2) < length f div block" using out by linarith
    then have "out div 2 + 1 \<le> ?m" by (simp add: less_div_ceil Suc_le_eq mult.commute)
    then have "(out div 2 + 1) * ?per \<le> ?m * ?per" by (rule mult_le_mono1)
    then have less: "t < ?m * ?per" using c(1) by (simp add: t_def)
    let ?n = "min INITIAL_BASIS_CHUNK (block - c * INITIAL_BASIS_CHUNK)"
    let ?w = "(out * block + c * INITIAL_BASIS_CHUNK, window basis (out * block + c * INITIAL_BASIS_CHUNK) ?n)"
    have "out = 2 * (out div 2) \<or> out = 2 * (out div 2) + 1" by linarith
    then consider (lo) "2 * (out div 2) * block + c * INITIAL_BASIS_CHUNK = out * block + c * INITIAL_BASIS_CHUNK" |
        (hi) "2 * (out div 2) + 1 < length f div block"
          "2 * (out div 2) * block + c * INITIAL_BASIS_CHUNK + block = out * block + c * INITIAL_BASIS_CHUNK"
      using out by (metis add.assoc add.commute mult_Suc plus_1_eq_Suc)
    then have mem: "?w \<in> set (snd (?task t))"
    proof cases
      case lo
      then show ?thesis unfolding task(3) [OF less, unfolded t] lo by simp
    next
      case hi
      then show ?thesis unfolding task(3) [OF less, unfolded t] hi(2) by simp
    qed
    have "c * INITIAL_BASIS_CHUNK + ?n \<le> block" using c(2) y(1) by linarith
    then have "out * block + c * INITIAL_BASIS_CHUNK + ?n \<le> length basis"
      unfolding assms(2) by (rule lane_inside [OF assms(4) block out])
    then have len: "length (window basis (out * block + c * INITIAL_BASIS_CHUNK) ?n) = ?n"
      unfolding length_window by linarith
    have "fst ?w \<le> k \<and> k < fst ?w + length (snd ?w)"
      unfolding fst_conv snd_conv len using y(2) c(2,3) by linarith
    with mem less show "\<exists>w\<in>set (concat (map (\<lambda>t. snd (?task t)) [0..<?m * ?per])). fst w \<le> k \<and> k < fst w + length (snd w)"
      unfolding Bex_def in_concat_upt by blast
  qed (use P assms(2) in \<open>simp add: primitives_lawful_def\<close>)
  ultimately show ?thesis
    using assms(4,5) by (simp add: build_initial_basis_def Let_def) (simp add: rw_base_def)
qed

section \<open>A basis that is streamed\<close>

definition chunk_sum :: "'e::comm_ring_1 list \<Rightarrow> 'e list \<Rightarrow> nat \<Rightarrow> nat \<Rightarrow> nat \<Rightarrow> nat \<Rightarrow> nat \<Rightarrow> 'e list" where
  "chunk_sum rs xs block first offset n m =
     map (\<lambda>y. \<Sum>l<m. eq_weight rs l * at0 xs ((first + l) * block + (offset + y))) [0..<n]"

lemma length_chunk_sum [simp]: "length (chunk_sum rs xs block first offset n m) = n"
  by (simp add: chunk_sum_def)

lemma chunk_step_sum:
  assumes P: "primitives_lawful P" and "fills (sb_fill S) basis" and "length basis = length (sb_witness S)"
    and "sb_block S dvd length basis" and "0 < sb_block S" and "offset + n \<le> sb_block S" and "length buf = c" and "n \<le> c"
    and "m < 2 ^ length rs" and "lane * 2 ^ length rs + m < length basis div sb_block S"
  defines "F \<equiv> map (pr_from P) (sb_witness S)"
  shows "\<exists>buf'. length buf' = c \<and> chunk_step P S (build_eq_table_ext rs) lane offset n
      (chunk_sum rs F (sb_block S) (lane * 2 ^ length rs) offset n m,
       chunk_sum rs basis (sb_block S) (lane * 2 ^ length rs) offset n m, buf) m =
    (chunk_sum rs F (sb_block S) (lane * 2 ^ length rs) offset n (Suc m),
     chunk_sum rs basis (sb_block S) (lane * 2 ^ length rs) offset n (Suc m), buf')"
proof -
  let ?start = "(lane * 2 ^ length rs + m) * sb_block S + offset"
  have inside: "?start + n \<le> length basis"
    by (rule lane_inside [OF assms(4,5,10,6)])
  have fill: "sb_fill S ?start (take n buf) = window basis ?start n"
    using fillsD [OF assms(2), of ?start "take n buf"] inside assms(7,8) by simp
  have at: "at0 F (?start + y) = pr_from P (sb_witness S ! (?start + y))" "at0 basis (?start + y) = basis ! (?start + y)"
    if "y < n" for y
    using that inside assms(3) by (simp_all add: at0_def F_def)
  let ?buf = "window basis ?start n @ drop n buf"
  have len: "length ?buf = c" using inside assms(7,8) by simp
  show ?thesis
  proof (cases "rs = []")
    case True
    then have "m = 0" using assms(9) by simp
    have "map2 (\<lambda>dst value. pr_from P value) (chunk_sum rs F (sb_block S) (lane * 2 ^ length rs) offset n 0)
        (window (sb_witness S) ?start n) = chunk_sum rs F (sb_block S) (lane * 2 ^ length rs) offset n (Suc 0)"
      using inside assms(3) at(1) \<open>m = 0\<close> True by (intro nth_equalityI) (simp_all add: chunk_sum_def add.assoc)
    moreover have "take n ?buf = chunk_sum rs basis (sb_block S) (lane * 2 ^ length rs) offset n (Suc 0)"
      using inside at(2) \<open>m = 0\<close> True by (intro nth_equalityI) (simp_all add: chunk_sum_def nth_append add.assoc)
    ultimately show ?thesis
      using len fill True \<open>m = 0\<close>
      by (intro exI [of _ ?buf] conjI) (simp_all add: chunk_step_def Let_def eq_table_eq)
  next
    case False
    then have two: "2 ^ length rs \<noteq> Suc 0" by simp
    have w: "build_eq_table_ext rs ! m = eq_weight rs m" using assms(9) by (rule nth_eq_table)
    have mul: "pr_mul_base P e x = e * pr_from P x" for e x using P by (simp add: primitives_lawful_def)
    have "map2 (\<lambda>dst value. dst + pr_mul_base P (eq_weight rs m) value)
        (chunk_sum rs F (sb_block S) (lane * 2 ^ length rs) offset n m) (window (sb_witness S) ?start n) =
        chunk_sum rs F (sb_block S) (lane * 2 ^ length rs) offset n (Suc m)"
      using inside assms(3) at(1) by (intro nth_equalityI) (simp_all add: chunk_sum_def mul add.assoc)
    moreover have "map2 (\<lambda>dst value. dst + eq_weight rs m * value)
        (chunk_sum rs basis (sb_block S) (lane * 2 ^ length rs) offset n m) ?buf =
        chunk_sum rs basis (sb_block S) (lane * 2 ^ length rs) offset n (Suc m)"
      using inside at(2) len assms(8)
      by (intro nth_equalityI) (simp_all add: chunk_sum_def nth_append add.assoc)
    ultimately show ?thesis
      using len fill two w
      by (intro exI [of _ ?buf] conjI) (simp_all add: chunk_step_def Let_def)
  qed
qed

lemma chunk_sum_zero: "chunk_sum rs xs block first offset n 0 = replicate n 0"
  by (simp add: chunk_sum_def map_replicate_const)

lemma folded_chunk_eq:
  assumes P: "primitives_lawful P" and "fills (sb_fill S) basis" and "length basis = length (sb_witness S)"
    and "sb_block S dvd length basis" and "0 < sb_block S" and "offset + n \<le> sb_block S" and "n \<le> INITIAL_BASIS_CHUNK"
  defines "F \<equiv> map (pr_from P) (sb_witness S)"
  shows "folded_chunk P S (build_eq_table_ext rs) lane offset n =
    (map (\<lambda>y. at0 (lane_folds (sb_block S) rs F) (lane * sb_block S + (offset + y))) [0..<n],
     map (\<lambda>y. at0 (lane_folds (sb_block S) rs basis) (lane * sb_block S + (offset + y))) [0..<n])"
proof -
  let ?k = "2 ^ length rs :: nat" and ?lanes = "length basis div sb_block S"
  let ?step = "chunk_step P S (build_eq_table_ext rs) lane offset n"
  let ?sum = "\<lambda>xs m. chunk_sum rs xs (sb_block S) (lane * ?k) offset n m"
  have loop: "\<exists>buf. length buf = INITIAL_BASIS_CHUNK \<and>
      foldl ?step (replicate n 0, replicate n 0, replicate INITIAL_BASIS_CHUNK 0) [0..<m] = (?sum F m, ?sum basis m, buf)"
    if "m \<le> min ?k (?lanes - lane * ?k)" for m
    using that
  proof (induction m)
    case (Suc m)
    then obtain buf where buf: "length buf = INITIAL_BASIS_CHUNK"
      "foldl ?step (replicate n 0, replicate n 0, replicate INITIAL_BASIS_CHUNK 0) [0..<m] = (?sum F m, ?sum basis m, buf)"
      by auto
    have "m < ?k" "lane * ?k + m < ?lanes" using Suc.prems by linarith+
    from chunk_step_sum [OF P assms(2-6) buf(1) assms(7) this] show ?case
      unfolding F_def [symmetric] by (simp add: buf(2))
  qed (auto simp: chunk_sum_zero)
  have all: "?sum xs (min ?k (?lanes - lane * ?k)) =
      map (\<lambda>y. at0 (lane_folds (sb_block S) rs xs) (lane * sb_block S + (offset + y))) [0..<n]"
    if len: "length xs = length basis" for xs
  proof -
    have zero: "at0 xs ((lane * ?k + l) * sb_block S + x) = 0" if "\<not> l < ?lanes - lane * ?k" for l x
    proof -
      have "?lanes * sb_block S \<le> (lane * ?k + l) * sb_block S" using that by (intro mult_le_mono1) simp
      then show ?thesis using assms(4) len by (simp add: at0_def)
    qed
    have "(\<Sum>l<min ?k (?lanes - lane * ?k). eq_weight rs l * at0 xs ((lane * ?k + l) * sb_block S + x)) =
        at0 (lane_folds (sb_block S) rs xs) (lane * sb_block S + x)" if "x < sb_block S" for x
    proof -
      have "at0 (lane_folds (sb_block S) rs xs) (lane * sb_block S + x) =
          (\<Sum>l<?k. eq_weight rs l * at0 xs ((lane * ?k + l) * sb_block S + x))"
        using at0_lane_folds [OF assms(5) _ that, of xs rs lane] len assms(4) by (simp add: mult.commute [of lane ?k])
      also have "\<dots> = (\<Sum>l<min ?k (?lanes - lane * ?k). eq_weight rs l * at0 xs ((lane * ?k + l) * sb_block S + x))"
        by (rule sum.mono_neutral_right) (use zero in auto)
      finally show ?thesis by (rule sym)
    qed
    then show ?thesis using assms(6) by (auto simp: chunk_sum_def)
  qed
  from loop [of "min ?k (?lanes - lane * ?k)"] obtain buf where
    "foldl ?step (replicate n 0, replicate n 0, replicate INITIAL_BASIS_CHUNK 0) [0..<min ?k (?lanes - lane * ?k)] =
      (?sum F (min ?k (?lanes - lane * ?k)), ?sum basis (min ?k (?lanes - lane * ?k)), buf)" by blast
  then show ?thesis
    using all [of F] all [of basis] assms(3) by (simp add: folded_chunk_def Let_def F_def)
qed

lemma window_at0: "start + n \<le> length xs \<Longrightarrow> map (\<lambda>y. at0 xs (start + y)) [0..<n] = window xs start n"
  by (intro nth_equalityI) (simp_all add: at0_def)

lemma streamed_window:
  assumes P: "primitives_lawful P" and "fills (sb_fill S) basis" and "length basis = length (sb_witness S)"
    and "sb_block S dvd length basis" and "0 < sb_block S" and "offset + n \<le> sb_block S" and "n \<le> INITIAL_BASIS_CHUNK"
    and "lane < div_ceil (length basis div sb_block S) (2 ^ length rs)"
  defines "F \<equiv> lane_folds (sb_block S) rs (map (pr_from P) (sb_witness S))" and "B \<equiv> lane_folds (sb_block S) rs basis"
  shows "folded_chunk P S (build_eq_table_ext rs) lane offset n =
    (window F (lane * sb_block S + offset) n, window B (lane * sb_block S + offset) n)"
proof -
  have lens: "length F = div_ceil (length basis div sb_block S) (2 ^ length rs) * sb_block S"
    "length B = div_ceil (length basis div sb_block S) (2 ^ length rs) * sb_block S"
    using assms(3-5) by (simp_all add: F_def B_def length_lane_folds)
  have "(lane + 1) * sb_block S \<le> div_ceil (length basis div sb_block S) (2 ^ length rs) * sb_block S"
    using assms(8) by (intro mult_le_mono1) simp
  then have "lane * sb_block S + offset + n \<le> length F" "lane * sb_block S + offset + n \<le> length B"
    using assms(6) unfolding lens by simp_all
  from this [THEN window_at0] show ?thesis
    unfolding folded_chunk_eq [OF assms(1-7)] F_def B_def by (simp add: add.assoc)
qed

lemma streamed_message_eq:
  assumes P: "primitives_lawful P" and "fills (sb_fill S) basis" and "length basis = length (sb_witness S)"
    and "sb_block S dvd length basis" and "0 < sb_block S"
  shows "streamed_message P S (build_eq_table_ext rs) =
    lane_msg (sb_block S) (lane_folds (sb_block S) rs (map (pr_from P) (sb_witness S))) (lane_folds (sb_block S) rs basis)"
proof -
  define F B where "F = lane_folds (sb_block S) rs (map (pr_from P) (sb_witness S))"
    and "B = lane_folds (sb_block S) rs basis"
  let ?X = "rw_ext P" and ?block = "sb_block S"
  let ?lanes = "div_ceil (length basis div ?block) (2 ^ length rs)" and ?per = "div_ceil ?block INITIAL_BASIS_CHUNK"
  have K: "0 < INITIAL_BASIS_CHUNK" by (simp add: INITIAL_BASIS_CHUNK_def)
  have lens: "length F = ?lanes * ?block" "length B = length F" "length F div ?block = ?lanes"
    using assms(3-5) by (simp_all add: F_def B_def length_lane_folds)
  then have dvd: "?block dvd length F" by simp
  have terms: "rw_reduce ?X (fst (streamed_task P S (build_eq_table_ext rs) t)) = (\<Sum>y<min INITIAL_BASIS_CHUNK (?block - t mod ?per * INITIAL_BASIS_CHUNK).
        lane_pair0 ?block F B (t div ?per) (t mod ?per * INITIAL_BASIS_CHUNK + y)) \<and>
      rw_reduce ?X (snd (streamed_task P S (build_eq_table_ext rs) t)) = (\<Sum>y<min INITIAL_BASIS_CHUNK (?block - t mod ?per * INITIAL_BASIS_CHUNK).
        lane_pair2 ?block F B (t div ?per) (t mod ?per * INITIAL_BASIS_CHUNK + y))"
    if t: "t < div_ceil ?lanes 2 * ?per" for t
  proof -
    define i x0 where "i = t div ?per" and "x0 = t mod ?per * INITIAL_BASIS_CHUNK"
    define n where "n = min INITIAL_BASIS_CHUNK (?block - x0)"
    note bounds = task_bounds [OF K assms(5) t, folded i_def x0_def, folded n_def]
    have i: "2 * i < ?lanes" using bounds(1) by (metis less_div_ceil mult.commute zero_less_numeral)
    have n: "n \<le> INITIAL_BASIS_CHUNK" by (simp add: n_def)
    note chunk = streamed_window [OF P assms(2-5) bounds(3) n, of _ rs, folded F_def B_def]
    have hi: "(2 * i + 1) * ?block + x0 = 2 * i * ?block + x0 + ?block" by simp
    have task: "streamed_task P S (build_eq_table_ext rs) t = (if 2 * i + 1 < length F div ?block
        then msg_terms_pair ?X (window F (2 * i * ?block + x0) n) (window F (2 * i * ?block + x0 + ?block) n)
          (window B (2 * i * ?block + x0) n) (window B (2 * i * ?block + x0 + ?block) n)
        else msg_terms_lone ?X (window F (2 * i * ?block + x0) n) (window B (2 * i * ?block + x0) n))"
      using chunk [OF i] chunk [of "2 * i + 1", unfolded hi] lens(3) assms(3)
      by (simp add: streamed_task_def Let_def i_def [symmetric] x0_def [symmetric] n_def [symmetric])
    show ?thesis
      using ext_witness.lane_terms [OF P lens(2) dvd assms(5) _ bounds(3), of i] i lens(3)
      unfolding task by (simp add: i_def [symmetric] x0_def [symmetric] n_def [symmetric])
  qed
  have "reduce_msg ?X (accumulate_msg ?X (div_ceil ?lanes 2 * ?per) p (rw_zero_acc ?X)
      (streamed_task P S (build_eq_table_ext rs))) = lane_msg ?block F B" for p
    using terms K assms(5) lens by (auto simp: ext_witness.accumulate [OF P] lane_msg_def intro!: pair_sum_lanes)
  then show ?thesis
    using assms(3) unfolding F_def [symmetric] B_def [symmetric]
    by (simp add: streamed_message_def Let_def) (simp add: rw_ext_def)
qed

lemma streamed_collapse_eq:
  fixes P :: "('k::comm_monoid_add, 'e::comm_ring_1, 'u, 'w) primitives"
  assumes P: "primitives_lawful P" and "fills (sb_fill S) basis" and "length basis = length (sb_witness S)"
    and "sb_block S dvd length basis" and "sb_block S = 2 ^ k" and "0 < length basis"
    and "length basis div sb_block S \<le> 2 ^ length rs"
  defines "F \<equiv> lane_folds (sb_block S) rs (map (pr_from P) (sb_witness S))" and "B \<equiv> lane_folds (sb_block S) rs basis"
  shows "streamed_collapse P S (build_eq_table_ext rs) = Value (F, B, lsb_msg F B)"
    and "length F = sb_block S" and "length B = sb_block S"
proof -
  let ?X = "rw_ext P" and ?block = "sb_block S" and ?K = INITIAL_BASIS_CHUNK
  let ?per = "div_ceil ?block ?K"
  let ?chunk = "\<lambda>c. folded_chunk P S (build_eq_table_ext rs) 0 (c * ?K) (min ?K (?block - c * ?K))"
  let ?u = "\<lambda>c. fold_msg_terms P (fst (?chunk c)) (snd (?chunk c))"
  have K: "0 < ?K" "even ?K" by (simp_all add: INITIAL_BASIS_CHUNK_def)
  have block: "0 < ?block" using assms(5) by simp
  have "0 < length basis div ?block"
    using assms(4,6) block by (simp add: div_greater_zero_iff dvd_imp_le)
  then have one: "div_ceil (length basis div ?block) (2 ^ length rs) = 1"
    using assms(7) less_div_ceil [of "2 ^ length rs" 0 "length basis div ?block"]
      less_div_ceil [of "2 ^ length rs" 1 "length basis div ?block"] by simp
  show lens: "length F = ?block" "length B = ?block"
    using assms(3,4) block one by (simp_all add: F_def B_def length_lane_folds)
  have chunk: "?chunk c = (window F (c * ?K) (min ?K (?block - c * ?K)), window B (c * ?K) (min ?K (?block - c * ?K)))"
    if "c < ?per" for c
  proof -
    have "c * ?K < ?block" using that K(1) by (simp only: less_div_ceil)
    then have fits: "c * ?K + min ?K (?block - c * ?K) \<le> ?block" by simp
    from streamed_window [OF P assms(2-4) block fits _, of 0 rs] one show ?thesis
      by (simp add: F_def B_def)
  qed
  have covered: "write_windows (pr_uninit P ?block) (map (\<lambda>c. (c * ?K, window T (c * ?K) (min ?K (?block - c * ?K)))) [0..<?per]) = T"
    if T: "length T = ?block" for T :: "'e list"
  proof (rule write_windows_eq)
    fix i assume i: "i < length T"
    note around = window_around [OF K(1) i, unfolded T]
    then have "length (window T (i div ?K * ?K) (min ?K (?block - i div ?K * ?K))) = min ?K (?block - i div ?K * ?K)"
      by (simp add: T)
    with around show "\<exists>w\<in>set (map (\<lambda>c. (c * ?K, window T (c * ?K) (min ?K (?block - c * ?K)))) [0..<?per]).
        fst w \<le> i \<and> i < fst w + length (snd w)"
      by (intro bexI [of _ "(i div ?K * ?K, window T (i div ?K * ?K) (min ?K (?block - i div ?K * ?K)))"]) auto
  qed (use P T K in \<open>auto simp: primitives_lawful_def less_div_ceil\<close>)
  have msg: "reduce_msg ?X (accumulate_msg ?X ?per p (rw_zero_acc ?X) ?u) = lsb_msg F B" for p
  proof -
    have "reduce_msg ?X (accumulate_msg ?X ?per p (rw_zero_acc ?X) ?u) =
        pair_sum (div_ceil (length F) ?K)
          (\<lambda>c. u_0 (lsb_msg (window F (c * ?K) (min ?K (length F - c * ?K))) (window B (c * ?K) (min ?K (length F - c * ?K)))))
          (\<lambda>c. u_2 (lsb_msg (window F (c * ?K) (min ?K (length F - c * ?K))) (window B (c * ?K) (min ?K (length F - c * ?K)))))"
      unfolding ext_witness.accumulate [OF P] reduce_msg_sum fold_terms [OF P] lens
      using chunk by (intro pair_sum_cong) simp_all
    also have "\<dots> = lsb_msg F B"
    proof (cases k)
      case 0
      then show ?thesis using lens assms(5) by (simp add: lsb_msg_tiny [of "Suc 0"] lsb_msg_small [of F B])
    next
      case (Suc k')
      then have "even (length F)" using lens assms(5) by simp
      from lsb_msg_windows [OF _ K(2,1) this] lens show ?thesis by simp
    qed
    finally show ?thesis .
  qed
  have maps: "map (\<lambda>c. (c * ?K, fst (?chunk c))) [0..<?per] = map (\<lambda>c. (c * ?K, window F (c * ?K) (min ?K (?block - c * ?K)))) [0..<?per]"
    "map (\<lambda>c. (c * ?K, snd (?chunk c))) [0..<?per] = map (\<lambda>c. (c * ?K, window B (c * ?K) (min ?K (?block - c * ?K)))) [0..<?per]"
    using chunk by auto
  have "rw_zero_acc ?X = pr_ext_zero P" by (simp add: rw_ext_def)
  then show "streamed_collapse P S (build_eq_table_ext rs) = Value (F, B, lsb_msg F B)"
    using covered [OF lens(1), folded maps(1)] covered [OF lens(2), folded maps(2)] msg [of "length (sb_witness S) div 2"] assms(3,7)
    by (simp add: streamed_collapse_def Let_def case_prod_unfold)
qed

end
