(* ===== verification/Sumcheck_Prover_Facts.thy ===== *)
theory Sumcheck_Prover_Facts
  imports Sumcheck_Prover Streamed_Facts
begin

text \<open>
  The lane rounds over a streamed basis and over a stored one are the same function, transcript
  included; the running claim of the sumcheck is the inner product of witness and basis.
\<close>

section \<open>Streamed and stored bases\<close>

lemma power_of_two_pos: "is_power_of_two n \<Longrightarrow> \<exists>k. n = 2 ^ k"
  by (auto simp: is_power_of_two_def list_ex_iff)

lemma div_ceil_final: "n \<le> 2 ^ k \<Longrightarrow> 0 < n \<Longrightarrow> div_ceil n (2 ^ k) = 1"
  using less_div_ceil [of "2 ^ k" 0 n] less_div_ceil [of "2 ^ k" 1 n] by simp

text \<open>The state of the dense loop after the challenges \<open>rs\<close>: the witness is still the base one
  before the first of them.\<close>

definition lane_state ::
  "('k::comm_monoid_add, 'e::comm_ring_1, 'u, 'w) primitives \<Rightarrow> 'k list \<Rightarrow> 'e list \<Rightarrow> nat \<Rightarrow> 'e list \<Rightarrow> 'e
     \<Rightarrow> 'e sumcheck_message \<Rightarrow> ('k, 'e) sumcheck_prover" where
  "lane_state P witness basis block rs claim msg = \<lparr>
     sp_f = (if rs = [] then Base_Witness witness else Ext_Witness (lane_folds block rs (map (pr_from P) witness))),
     sp_combined_basis = lane_folds block rs basis, sp_t_r = claim,
     sp_quad = quad_from_msg msg claim, sp_round = length rs, sp_pending = []\<rparr>"

lemma fold_lane_state:
  fixes P :: "('k::comm_monoid_add, 'e::comm_ring_1, 'u, 'w) primitives" and r claim :: 'e and msg :: "'e sumcheck_message"
    and left :: nat
  assumes P: "primitives_lawful P" and "length basis = length witness" and "block dvd length witness"
    and "block = 2 ^ k" and "witness \<noteq> []" and "length witness div block \<le> 2 ^ (length rs + Suc left)"
  defines "F \<equiv> lane_folds block (rs @ [r]) (map (pr_from P) witness)" and "B \<equiv> lane_folds block (rs @ [r]) basis"
  defines "msg' \<equiv> if left = 0 then lsb_msg F B else lane_msg block F B"
    and "claim' \<equiv> quad_eval (quad_from_msg msg claim) r"
  shows "fold_lane P (lane_state P witness basis block rs claim msg) r block (left = 0) =
    Value (lane_state P witness basis block (rs @ [r]) claim' msg', msg')"
proof -
  let ?F = "lane_folds block rs (map (pr_from P) witness)" and ?B = "lane_folds block rs basis"
  have block: "0 < block" using assms(4) by simp
  have n: "0 < length witness div block"
    using assms(3,5) block by (simp add: div_greater_zero_iff dvd_imp_le)
  have len: "length ?F = div_ceil (length witness div block) (2 ^ length rs) * block" "length ?B = length ?F"
    using assms(2,3) block by (simp_all add: length_lane_folds)
  then have dvd: "block dvd length ?F" by simp
  have lanes: "length ?F div block = div_ceil (length witness div block) (2 ^ length rs)"
    using len(1) block by simp
  have pos: "0 < length ?F"
    using n block less_div_ceil [of "2 ^ length rs" 0 "length witness div block"] by (simp add: len(1))
  have last: "div_ceil (length ?F div block) 2 = 1" if "left = 0"
  proof -
    have "div_ceil (length witness div block) (2 ^ length rs) \<le> 2"
      using assms(6) that less_div_ceil [of "2 ^ length rs" 2 "length witness div block"]
      by (simp add: mult.commute not_less [symmetric])
    with pos show ?thesis
      using div_ceil_final [of "length ?F div block" 1] lanes block len(1) by (simp add: zero_less_mult_iff)
  qed
  have F: "F = lane_fold block r ?F" and B: "B = lane_fold block r ?B"
    by (simp_all add: F_def B_def lane_folds_snoc)
  show ?thesis
  proof (cases "rs = []")
    case True
    have "fold_and_msg_blocks P (rw_base P) witness basis r block (left = 0) = Value (F, B, msg')"
      using base_witness.fold_blocks [OF P P assms(2,3,4), of "left = 0" r] last True by (simp add: F B msg'_def)
    then show ?thesis using True assms(5)
      by (simp add: fold_lane_def lane_state_def witness_len_def Let_def claim'_def F_def B_def)
  next
    case False
    have "fold_and_msg_blocks P (rw_ext P) ?F ?B r block (left = 0) = Value (F, B, msg')"
      using ext_witness.fold_blocks [OF P P len(2) dvd assms(4), of "left = 0" r] last by (simp add: F B msg'_def)
    then show ?thesis using False pos
      by (simp add: fold_lane_def lane_state_def witness_len_def Let_def claim'_def F_def B_def)
  qed
qed

lemma rounds_agree:
  assumes P: "primitives_lawful P" and "fills fill basis" and "length basis = length witness"
    and "block dvd length witness" and "block = 2 ^ k" and "witness \<noteq> []"
  shows "length witness div block \<le> 2 ^ (length rs + Suc left) \<Longrightarrow> rounds = length rs + Suc left \<Longrightarrow>
    streamed_rounds P T \<lparr>sb_witness = witness, sb_block = block, sb_fill = fill\<rparr> rounds (Suc left) msg claim rs ps =
    dense_rounds P T block (Suc left) (lane_state P witness basis block rs claim msg) rs ps"
proof (induction left arbitrary: rs msg claim ps)
  case 0
  let ?S = "\<lparr>sb_witness = witness, sb_block = block, sb_fill = fill\<rparr>"
  obtain r ps' where r: "ps_sample T ps = (r, ps')" by (cases "ps_sample T ps")
  have "fills (sb_fill ?S) basis" "length basis = length (sb_witness ?S)" "sb_block ?S dvd length basis"
    "sb_block ?S = 2 ^ k" "0 < length basis" "length basis div sb_block ?S \<le> 2 ^ length (rs @ [r])"
    using assms 0 by simp_all
  from streamed_collapse_eq(1) [OF P this] fold_lane_state [OF P assms(3-6) 0(1), where r = r and msg = msg and claim = claim] 0(2) show ?case
    by (simp add: r Let_def lane_state_def [of P witness basis block "rs @ [r]"])
next
  case (Suc left)
  let ?S = "\<lparr>sb_witness = witness, sb_block = block, sb_fill = fill\<rparr>"
  obtain r ps' where r: "ps_sample T ps = (r, ps')" by (cases "ps_sample T ps")
  have "fills (sb_fill ?S) basis" "length basis = length (sb_witness ?S)" "sb_block ?S dvd length basis" "0 < sb_block ?S"
    using assms by simp_all
  note message = streamed_message_eq [OF P this, of "rs @ [r]"]
  show ?case
    using fold_lane_state [OF P assms(3-6) Suc.prems(1), where r = r and msg = msg and claim = claim] message Suc.IH [of "rs @ [r]"] Suc.prems
    by (subst streamed_rounds.simps(2), subst dense_rounds.simps(2))
      (simp add: r Let_def sumcheck_prover.simps lane_state_def [of P witness basis block "rs @ [r]"]
        del: streamed_rounds.simps dense_rounds.simps)
qed

lemma prover_new_lanes:
  assumes "primitives_lawful P" and "length basis = length witness" and "block dvd length witness" and "0 < block"
  defines "msg \<equiv> lane_msg block (map (pr_from P) witness) basis"
  shows "prover_new P witness basis target block None = Value (lane_state P witness basis block [] target msg, msg)"
    and "prover_new P witness basis target block (Some msg) = Value (lane_state P witness basis block [] target msg, msg)"
  using assms(2) base_witness.msg_blocks [OF assms(1-4)]
  by (simp_all add: prover_new_def lane_state_def msg_def)

lemma streamed_lanes:
  assumes P: "primitives_lawful P" and "fills fill basis" and "length basis = length witness" and "witness \<noteq> []"
    and "0 < rounds" and "is_power_of_two block" and "block dvd length witness"
    and "length witness div block \<le> 2 ^ rounds"
  shows "streamed_lane_rounds P T witness block rounds fill target ps =
    dense_lane_rounds P T witness block rounds basis None target ps"
proof -
  let ?S = "\<lparr>sb_witness = witness, sb_block = block, sb_fill = fill\<rparr>"
  obtain k where k: "block = 2 ^ k" using power_of_two_pos [OF assms(6)] ..
  then have block: "0 < block" by simp
  obtain left where left: "rounds = Suc left" using assms(5) by (cases rounds) auto
  let ?msg = "lane_msg block (map (pr_from P) witness) basis"
  have "fills (sb_fill ?S) basis" "length basis = length (sb_witness ?S)" "sb_block ?S dvd length basis" "0 < sb_block ?S"
    using assms block by simp_all
  from streamed_message_eq [OF P this, of "[]"] have first: "streamed_message P ?S [1] = ?msg"
    by (simp add: build_eq_table_ext_def)
  show ?thesis
    using rounds_agree [OF assms(1-3,7) k assms(4), of "[]" left rounds T ?msg target "send_msg T ?msg target ps"] assms(6-8)
    by (simp add: streamed_lane_rounds_def dense_lane_rounds_def first prover_new_lanes(1) [OF P assms(3,7) block] left Let_def
        del: streamed_rounds.simps dense_rounds.simps)
qed

lemma built_lanes:
  assumes P: "primitives_lawful P" and "fills fill basis" and "length basis = length witness"
    and "is_power_of_two block" and "block dvd length witness"
  shows "obind (build_initial_basis P witness block fill) (\<lambda>(values, message). k values message) =
      k basis (lane_msg block (map (pr_from P) witness) basis)"
    and "dense_lane_rounds P T witness block rounds basis (Some (lane_msg block (map (pr_from P) witness) basis)) target ps =
      dense_lane_rounds P T witness block rounds basis None target ps"
proof -
  have block: "0 < block" using power_of_two_pos [OF assms(4)] by auto
  show "obind (build_initial_basis P witness block fill) (\<lambda>(values, message). k values message) =
      k basis (lane_msg block (map (pr_from P) witness) basis)"
    using build_basis [OF P assms(3,2,5,4)] by simp
  show "dense_lane_rounds P T witness block rounds basis (Some (lane_msg block (map (pr_from P) witness) basis)) target ps =
      dense_lane_rounds P T witness block rounds basis None target ps"
    by (simp add: dense_lane_rounds_def prover_new_lanes [OF P assms(3,5) block])
qed

text \<open>
  The lane rounds over a basis that is filled chunk by chunk and never stored return the same
  prover, the same challenges and the same transcript as the rounds over the stored basis, and so
  does the path that stores the basis while it computes the first message.\<close>

theorem streamed_rounds_agree:
  assumes "primitives_lawful P" and "fills fill basis" and "length basis = length witness" and "witness \<noteq> []"
    and "0 < rounds" and "is_power_of_two block" and "block dvd length witness"
    and "length witness div block \<le> 2 ^ rounds"
  shows "streamed_lane_rounds P T witness block rounds fill target ps =
      dense_lane_rounds P T witness block rounds basis None target ps \<and>
    obind (build_initial_basis P witness block fill) (\<lambda>(values, message).
      dense_lane_rounds P T witness block rounds values (Some message) target ps) =
      dense_lane_rounds P T witness block rounds basis None target ps"
  using streamed_lanes [OF assms]
    built_lanes(1) [OF assms(1-3,6,7),
      where k = "\<lambda>values message. dense_lane_rounds P T witness block rounds values (Some message) target ps"]
    built_lanes(2) [OF assms(1-3,6,7), of T rounds target ps]
  by simp

section \<open>Claims\<close>

definition inner :: "'e::comm_ring_1 list \<Rightarrow> 'e list \<Rightarrow> 'e" where
  "inner f b = (\<Sum>i<length f. f ! i * b ! i)"

definition char_two :: "'e::comm_ring_1 itself \<Rightarrow> bool" where
  "char_two T \<longleftrightarrow> (1 :: 'e) + 1 = 0"

lemma char_two_lawful: "primitives_lawful (P :: ('k::comm_monoid_add, 'e::comm_ring_1, 'u, 'w) primitives) \<Longrightarrow> char_two TYPE('e)"
  by (simp add: primitives_lawful_def char_two_def)

lemma char_two_add: "char_two TYPE('e) \<Longrightarrow> x + x = (0 :: 'e::comm_ring_1)"
  by (metis char_two_def distrib_left mult.right_neutral mult_zero_right)

lemma char_two_cancel: "char_two TYPE('e) \<Longrightarrow> x + (x + y) = (y :: 'e::comm_ring_1)"
  by (simp add: add.assoc [symmetric] char_two_add)

lemma pair_claim:
  assumes "char_two TYPE('e)"
  shows "((f0 + f1) * (b0 + b1) * r + ((f0 * b0 + f1 * b1) + (f0 + f1) * (b0 + b1))) * r + f0 * b0 =
    (f0 + r * (f0 + f1)) * (b0 + r * (b0 + b1 :: 'e::comm_ring_1))"
proof -
  have "((f0 + f1) * (b0 + b1) * r + ((f0 * b0 + f1 * b1) + (f0 + f1) * (b0 + b1))) * r + f0 * b0 =
      (f0 + r * (f0 + f1)) * (b0 + r * (b0 + b1)) + (f1 * b1 * r + f1 * b1 * r)"
    by (simp add: algebra_simps)
  then show ?thesis by (simp add: char_two_add [OF assms])
qed

lemma quad_eval_sums: "quad_eval (quad_from_msg (pair_sum n g h) (\<Sum>i<n. c i)) r =
    (\<Sum>i<n. (h i * r + (c i + h i)) * r + g i)"
  by (simp add: quad_eval_def quad_from_msg_def pair_sum_def sum.distrib distrib_right sum_distrib_right [symmetric])

lemma inner_pairs: "even (length f) \<Longrightarrow> inner f b =
    (\<Sum>j<length f div 2. f ! (2 * j) * b ! (2 * j) + f ! (2 * j + 1) * b ! (2 * j + 1))"
  using sum_pairs [of "\<lambda>i. f ! i * b ! i" "length f div 2"] by (simp add: inner_def)

text \<open>The quadratic of a round, at the challenge, is the inner product of the folded buffers.\<close>

lemma lsb_claim:
  assumes "char_two TYPE('e)" and "length b = length f" and "even (length f)"
  shows "quad_eval (quad_from_msg (lsb_msg f b) (inner f b)) r = inner (fold_lsb r f) (fold_lsb r (b :: 'e::comm_ring_1 list))"
  unfolding lsb_msg_def inner_pairs [OF assms(3)] quad_eval_sums
  using assms(2) by (auto simp: inner_def pair_claim [OF assms(1)] intro!: sum.cong)

lemma inner_lanes:
  assumes "length b = length f" and "length f \<le> n * block"
  shows "inner f b = (\<Sum>i<n. \<Sum>x<block. at0 f (i * block + x) * at0 b (i * block + x))"
proof -
  have "inner f b = (\<Sum>k<n * block. at0 f k * at0 b k)"
    unfolding inner_def by (rule sum.mono_neutral_cong_left) (use assms in \<open>auto simp: at0_def\<close>)
  then show ?thesis by (simp add: sum_blocks)
qed

lemma lane_claim:
  assumes "char_two TYPE('e)" and "length b = length f" and "block dvd length f" and "0 < block"
  shows "quad_eval (quad_from_msg (lane_msg block f b) (inner f b)) r =
    inner (lane_fold block r f) (lane_fold block r (b :: 'e::comm_ring_1 list))"
proof -
  let ?m = "div_ceil (length f div block) 2"
  have "length f div block \<le> 2 * ?m" using div_ceil_covers [of 2 "length f div block"] by simp
  then have len: "length f \<le> 2 * ?m * block"
    using assms(3) by (metis dvd_div_mult_self mult_le_mono1)
  have claim: "inner f b = (\<Sum>i<?m. \<Sum>x<block. lane_pair0 block f b i x +
      at0 f (2 * i * block + x + block) * at0 b (2 * i * block + x + block))"
    unfolding inner_lanes [OF assms(2) len] sum_pairs
    by (simp add: lane_pair0_def sum.distrib add.commute [of block] add.left_commute [of block] add.assoc)
  have "inner (lane_fold block r f) (lane_fold block r b) = (\<Sum>i<?m. \<Sum>x<block.
      at0 (lane_fold block r f) (i * block + x) * at0 (lane_fold block r b) (i * block + x))"
    using assms(2) by (intro inner_lanes) simp_all
  also have "\<dots> = (\<Sum>i<?m. \<Sum>x<block. (lane_pair2 block f b i x * r + ((lane_pair0 block f b i x +
      at0 f (2 * i * block + x + block) * at0 b (2 * i * block + x + block)) + lane_pair2 block f b i x)) * r +
      lane_pair0 block f b i x)"
  proof (intro sum.cong refl)
    fix i x assume x: "x \<in> {..<block}"
    have lane: "at0 (lane_fold block r xs) (i * block + x) =
        at0 xs (2 * i * block + x) + r * (at0 xs (2 * i * block + x) + at0 xs (2 * i * block + x + block))"
      if "length xs = length f" for xs
      using at0_lane_fold [of block xs x r i] that assms(3,4) x by (simp add: algebra_simps)
    show "at0 (lane_fold block r f) (i * block + x) * at0 (lane_fold block r b) (i * block + x) =
        (lane_pair2 block f b i x * r + ((lane_pair0 block f b i x +
        at0 f (2 * i * block + x + block) * at0 b (2 * i * block + x + block)) + lane_pair2 block f b i x)) * r +
        lane_pair0 block f b i x"
      unfolding lane_pair0_def lane_pair2_def pair_claim [OF assms(1)] using lane [of f] lane [of b] assms(2) by simp
  qed
  finally show ?thesis
    unfolding lane_msg_def claim quad_eval_sums
    by (simp add: sum.distrib distrib_right sum_distrib_right [symmetric])
qed

end
