(* ===== verification/Whir_Lockstep.thy ===== *)
theory Whir_Lockstep
  imports Whir_Prover Sumcheck_Prover_Facts
begin

text \<open>
  Prover and verifier in lockstep. \<open>lock\<close> relates a step of the prover's transcript to a
  computation of the verifier that reads what the step sent; it composes, and every operation of
  the transcript has a rule. On top of it: the rounds, the query positions, the claims after a
  commitment and their batching give both sides the same values.
\<close>

section \<open>The transcript\<close>

text \<open>\<open>transmits T p f\<close>: the prover's transcript reaches \<open>f\<close> from \<open>p\<close>.\<close>

inductive transmits :: "('p, 'e, 'h, 'm) transmitter \<Rightarrow> 'p \<Rightarrow> 'p \<Rightarrow> bool" for T where
  finished: "transmits T p p"
| round_poly: "transmits T (ps_add_round_poly T cs b p) f \<Longrightarrow> transmits T p f"
| scalar: "transmits T (ps_add_scalar T x p) f \<Longrightarrow> transmits T p f"
| scalars: "transmits T (ps_add_scalars T xs p) f \<Longrightarrow> transmits T p f"
| root: "transmits T (ps_add_root T h p) f \<Longrightarrow> transmits T p f"
| merkle: "transmits T (ps_hint_merkle T m p) f \<Longrightarrow> transmits T p f"
| sample: "ps_sample T p = (x, p') \<Longrightarrow> transmits T p' f \<Longrightarrow> transmits T p f"
| sample_vec: "ps_sample_vec T n p = (xs, p') \<Longrightarrow> transmits T p' f \<Longrightarrow> transmits T p f"
| grind: "transmits T (ps_grind T bits p) f \<Longrightarrow> transmits T p f"

lemma transmits_trans: "transmits T p q \<Longrightarrow> transmits T q f \<Longrightarrow> transmits T p f"
  by (induction rule: transmits.induct) (auto intro: transmits.intros)

lemma transmits_steps:
  "transmits T p (ps_add_round_poly T cs b p)" "transmits T p (ps_add_scalar T x p)"
  "transmits T p (ps_add_scalars T xs p)" "transmits T p (ps_add_root T h p)"
  "transmits T p (ps_hint_merkle T m p)" "transmits T p (ps_grind T bits p)"
  "ps_sample T p = (x, p') \<Longrightarrow> transmits T p p'" "ps_sample_vec T n p = (zs, p') \<Longrightarrow> transmits T p p'"
  by (auto intro: transmits.intros)

text \<open>A tree is bound to the rows it was built from: the openings of a base and of an extension
  commitment.\<close>

definition base_openings ::
  "('k::zero, 'e, 'h, 'm, 's, 'n) pcs_externals \<Rightarrow> 'k list \<Rightarrow> nat \<Rightarrow> nat \<Rightarrow> nat \<Rightarrow> nat list \<Rightarrow> 'h \<Rightarrow> 'm \<Rightarrow> 'k list list \<Rightarrow> bool" where
  "base_openings X cw positions lanes width queries root m rows \<longleftrightarrow>
     (\<exists>tree. tree = px_merkle_tree_padded_rows X cw positions lanes width \<and> tree \<noteq> [] \<and> root = last tree \<and>
       length cw = positions * lanes \<and> lanes \<le> width \<and> list_all (\<lambda>q. q < positions) queries \<and>
       m = px_prune X tree positions queries (\<lambda>q. window cw (q * lanes) lanes) \<and>
       rows = map (\<lambda>q. replicate (width - lanes) 0 @ window cw (q * lanes) lanes) queries)"

definition ext_openings ::
  "('k, 'e, 'h, 'm, 's, 'n) pcs_externals \<Rightarrow> 'e list \<Rightarrow> nat \<Rightarrow> nat \<Rightarrow> nat list \<Rightarrow> 'h \<Rightarrow> 'm \<Rightarrow> 'k list list \<Rightarrow> bool" where
  "ext_openings X mat positions width queries root m rows \<longleftrightarrow>
     (\<exists>tree. tree = px_merkle_tree X (px_ext_bytes X mat) positions \<and> tree \<noteq> [] \<and> root = last tree \<and>
       length mat = positions * width \<and> list_all (\<lambda>q. q < positions) queries \<and>
       m = px_prune X tree positions queries (\<lambda>q. ext_row_words X (window mat (q * width) width)) \<and>
       rows = map (\<lambda>q. ext_row_words X (window mat (q * width) width)) queries)"

section \<open>Lockstep\<close>

text \<open>\<open>reads f p v\<close>: the verifier, reading the proof of a prover that ended in \<open>f\<close>, is in state
  \<open>v\<close> where that prover was in state \<open>p\<close>. In lockstep, where the prover steps from \<open>p\<close> to
  \<open>p'\<close>, the verifier's computation returns \<open>a\<close>.\<close>

definition lock ::
  "('p, 'e, 'h, 'm) transmitter \<Rightarrow> ('p \<Rightarrow> 'p \<Rightarrow> 'v \<Rightarrow> bool) \<Rightarrow> 'p \<Rightarrow> 'p \<Rightarrow> ('v, 'err, 'a) reading \<Rightarrow> 'a \<Rightarrow> bool" where
  "lock T reads p p' m a \<longleftrightarrow> transmits T p p' \<and>
     (\<forall>f v. transmits T p' f \<longrightarrow> reads f p v \<longrightarrow> (\<exists>v'. m v = Value (Inr (a, v')) \<and> reads f p' v'))"

lemma lock_ret [simp]: "lock T reads p p (vret a) a" "lock T reads p p (vlift (Value a)) a"
  by (auto simp: lock_def vret_def vlift_def intro: transmits.intros)

lemma lock_bind:
  assumes "lock T reads p p' m a" and "lock T reads p' p'' (k a) c"
  shows "lock T reads p p'' (vbind m k) c"
  unfolding lock_def
proof (intro conjI allI impI)
  show "transmits T p p''" using assms by (auto simp: lock_def intro: transmits_trans)
next
  fix f v assume f: "transmits T p'' f" and v: "reads f p v"
  have "transmits T p' f" using assms(2) f by (auto simp: lock_def intro: transmits_trans)
  with assms(1) v obtain v' where "m v = Value (Inr (a, v'))" "reads f p' v'"
    unfolding lock_def by blast
  moreover from assms(2) f this(2) obtain v'' where "k a v' = Value (Inr (c, v''))" "reads f p'' v''"
    unfolding lock_def by blast
  ultimately show "\<exists>v'. vbind m k v = Value (Inr (c, v')) \<and> reads f p'' v'"
    by (simp add: vbind_def)
qed

lemma lock_pure: "m = Value a \<Longrightarrow> lock T reads p p' (k a) c \<Longrightarrow> lock T reads p p' (vbind (vlift m) k) c"
  by (rule lock_bind [where a = a and p' = p]) simp_all

lemma lock_check: "c \<Longrightarrow> lock T reads p p' (k ()) a \<Longrightarrow> lock T reads p p' (vbind (vcheck c e) k) a"
  by (rule lock_bind [where a = "()" and p' = p]) (simp_all add: vcheck_def)

lemma lock_transmits: "lock T reads p p' m a \<Longrightarrow> transmits T p p'"
  by (simp add: lock_def)

text \<open>What a transcript promises: both sides draw the same challenges, and every read returns what was
  sent. A round polynomial is read against the claim it sums to; Merkle openings are read against the
  root of the tree they were taken from.\<close>

definition transcript_lawful ::
  "('k::zero, 'e::comm_ring_1, 'h, 'm, 's, 'n) pcs_externals \<Rightarrow> ('p, 'e, 'h, 'm) transmitter \<Rightarrow> ('v, 'e, 'h, 'k, 'x) receiver
     \<Rightarrow> ('p \<Rightarrow> 'p \<Rightarrow> 'v \<Rightarrow> bool) \<Rightarrow> bool" where
  "transcript_lawful X T R reads \<longleftrightarrow>
     (\<forall>p c b a claim. c + (c + b + a) = claim \<longrightarrow>
        lock T reads p (ps_add_round_poly T [c, b, a] False p) (vread (vs_next_round_poly R 3 claim)) [c, b, a]) \<and>
     (\<forall>p x. lock T reads p (ps_add_scalar T x p) (vread (vs_next_scalar R)) x) \<and>
     (\<forall>p xs. lock T reads p (ps_add_scalars T xs p) (vread (vs_next_scalars R (length xs))) xs) \<and>
     (\<forall>p h. lock T reads p (ps_add_root T h p) (vread (vs_next_root R)) h) \<and>
     (\<forall>p bits. lock T reads p (ps_grind T bits p) (vgrind R bits) ()) \<and>
     (\<forall>p x p'. ps_sample T p = (x, p') \<longrightarrow> lock T reads p p' (vtake (vs_sample R) :: ('v, 'x, 'e) verifier) x) \<and>
     (\<forall>p n xs p'. ps_sample_vec T n p = (xs, p') \<longrightarrow>
        length xs = n \<and> lock T reads p p' (vtake (vs_sample_vec R n) :: ('v, 'x, 'e list) verifier) xs) \<and>
     (\<forall>p cw positions lanes width queries root m rows. base_openings X cw positions lanes width queries root m rows \<longrightarrow>
        lock T reads p (ps_hint_merkle T m p) (vread (vs_next_merkle_batch R root positions queries lanes width)) rows) \<and>
     (\<forall>p mat positions width queries root m rows. ext_openings X mat positions width queries root m rows \<longrightarrow>
        lock T reads p (ps_hint_merkle T m p)
          (vread (vs_next_merkle_batch R root positions queries (3 * width) (3 * width))) rows)"

lemma transcript_locks:
  fixes R :: "('v, 'e::comm_ring_1, 'h, 'k::zero, 'x) receiver"
  assumes "transcript_lawful X T R reads"
  shows lock_poly: "c + (c + b + a) = claim \<Longrightarrow>
      lock T reads p (ps_add_round_poly T [c, b, a] False p) (vread (vs_next_round_poly R 3 claim)) [c, b, a]"
    and lock_scalar: "lock T reads p (ps_add_scalar T x p) (vread (vs_next_scalar R)) x"
    and lock_scalars: "length xs = n \<Longrightarrow> lock T reads p (ps_add_scalars T xs p) (vread (vs_next_scalars R n)) xs"
    and lock_root: "lock T reads p (ps_add_root T h p) (vread (vs_next_root R)) h"
    and lock_grind: "lock T reads p (ps_grind T bits p) (vgrind R bits) ()"
    and lock_sample: "ps_sample T p = (x, p') \<Longrightarrow> lock T reads p p' (vtake (vs_sample R) :: ('v, 'x, 'e) verifier) x"
    and length_sample_vec: "ps_sample_vec T n p = (xs, p') \<Longrightarrow> length xs = n"
    and lock_sample_vec: "ps_sample_vec T n p = (xs, p') \<Longrightarrow> lock T reads p p' (vtake (vs_sample_vec R n) :: ('v, 'x, 'e list) verifier) xs"
    and lock_base_rows: "base_openings X cw positions lanes width queries root m rows \<Longrightarrow>
      lock T reads p (ps_hint_merkle T m p) (vread (vs_next_merkle_batch R root positions queries lanes width)) rows"
    and lock_ext_rows: "ext_openings X mat positions k queries root m rows \<Longrightarrow>
      lock T reads p (ps_hint_merkle T m p) (vread (vs_next_merkle_batch R root positions queries (3 * k) (3 * k))) rows"
proof -
  note laws = assms [unfolded transcript_lawful_def]
  show "c + (c + b + a) = claim \<Longrightarrow>
      lock T reads p (ps_add_round_poly T [c, b, a] False p) (vread (vs_next_round_poly R 3 claim)) [c, b, a]"
    by (rule laws [THEN conjunct1, rule_format])
  show "lock T reads p (ps_add_scalar T x p) (vread (vs_next_scalar R)) x"
    by (rule laws [THEN conjunct2, THEN conjunct1, rule_format])
  show "length xs = n \<Longrightarrow> lock T reads p (ps_add_scalars T xs p) (vread (vs_next_scalars R n)) xs"
    by (use laws [THEN conjunct2, THEN conjunct2, THEN conjunct1] in fastforce)
  show "lock T reads p (ps_add_root T h p) (vread (vs_next_root R)) h"
    by (rule laws [THEN conjunct2, THEN conjunct2, THEN conjunct2, THEN conjunct1, rule_format])
  show "lock T reads p (ps_grind T bits p) (vgrind R bits) ()"
    by (rule laws [THEN conjunct2, THEN conjunct2, THEN conjunct2, THEN conjunct2, THEN conjunct1, rule_format])
  show "ps_sample T p = (x, p') \<Longrightarrow> lock T reads p p' (vtake (vs_sample R) :: ('v, 'x, 'e) verifier) x"
    by (rule laws [THEN conjunct2, THEN conjunct2, THEN conjunct2, THEN conjunct2, THEN conjunct2, THEN conjunct1, rule_format])
  show "ps_sample_vec T n p = (xs, p') \<Longrightarrow> length xs = n"
    by (rule laws [THEN conjunct2, THEN conjunct2, THEN conjunct2, THEN conjunct2, THEN conjunct2, THEN conjunct2, THEN conjunct1, rule_format, THEN conjunct1])
  show "ps_sample_vec T n p = (xs, p') \<Longrightarrow> lock T reads p p' (vtake (vs_sample_vec R n) :: ('v, 'x, 'e list) verifier) xs"
    by (rule laws [THEN conjunct2, THEN conjunct2, THEN conjunct2, THEN conjunct2, THEN conjunct2, THEN conjunct2, THEN conjunct1, rule_format, THEN conjunct2])
  show "base_openings X cw positions lanes width queries root m rows \<Longrightarrow>
      lock T reads p (ps_hint_merkle T m p) (vread (vs_next_merkle_batch R root positions queries lanes width)) rows"
    by (rule laws [THEN conjunct2, THEN conjunct2, THEN conjunct2, THEN conjunct2, THEN conjunct2, THEN conjunct2, THEN conjunct2, THEN conjunct1, rule_format])
  show "ext_openings X mat positions k queries root m rows \<Longrightarrow>
      lock T reads p (ps_hint_merkle T m p) (vread (vs_next_merkle_batch R root positions queries (3 * k) (3 * k))) rows"
    by (rule laws [THEN conjunct2, THEN conjunct2, THEN conjunct2, THEN conjunct2, THEN conjunct2, THEN conjunct2, THEN conjunct2, THEN conjunct2, rule_format])
qed

end
