(* ===== verification/Whir_Rounds.thy ===== *)
theory Whir_Rounds
  imports Whir_Lockstep
begin

text \<open>
  The rounds of prover and verifier in lockstep: lane rounds, level folds and the residual rounds.
  After every round the claim is the inner product of the folded witness and the folded basis, and
  the verifier holds the quadratic of the prover.
\<close>

section \<open>The state between rounds\<close>

definition quad_of :: "'e::comm_ring_1 list \<Rightarrow> 'e list \<Rightarrow> 'e round_quad" where
  "quad_of f b = quad_from_msg (lsb_msg f b) (inner f b)"

definition ext_state ::
  "'e::comm_ring_1 list \<Rightarrow> 'e list \<Rightarrow> nat \<Rightarrow> ('e list \<times> 'e \<times> 'e round_quad) list \<Rightarrow> ('k, 'e) sumcheck_prover" where
  "ext_state f b n pending = \<lparr>sp_f = Ext_Witness f, sp_combined_basis = b, sp_t_r = inner f b,
     sp_quad = quad_of f b, sp_round = n, sp_pending = pending\<rparr>"

lemma ext_state_simps [simp]:
  "sp_f (ext_state f b n pending) = Ext_Witness f" "sp_combined_basis (ext_state f b n pending) = b"
  "sp_t_r (ext_state f b n pending) = inner f b" "sp_quad (ext_state f b n pending) = quad_of f b"
  "sp_round (ext_state f b n pending) = n" "sp_pending (ext_state f b n pending) = pending"
  "f_ext (ext_state f b n pending) = Value f"
  by (simp_all add: ext_state_def f_ext_def)

lemma prover_fold_ext:
  assumes "primitives_lawful P" and "length f = 2 ^ Suc n" and "length b = 2 ^ Suc n"
  shows "prover_fold P (ext_state f b c pending) r = Value
    (ext_state (fold_lsb r f) (fold_lsb r b) (Suc c) pending, lsb_msg (fold_lsb r f) (fold_lsb r b))"
proof -
  have "fold_and_msg_lsb P (rw_ext P) f b r =
      (fold_lsb r f, fold_lsb r b, lsb_msg (fold_lsb r f) (fold_lsb r b))"
    using ext_witness.fold_and_msg [OF assms(1,1), of b f n r] assms by simp
  moreover have "quad_eval (quad_of f b) r = inner (fold_lsb r f) (fold_lsb r b)"
    unfolding quad_of_def using assms by (intro lsb_claim char_two_lawful) simp_all
  ultimately show ?thesis
    using assms(2) by (simp add: prover_fold_def witness_len_def Let_def) (simp add: ext_state_def quad_of_def)
qed

section \<open>One message\<close>

lemma lock_quad:
  fixes R :: "('v, 'e::comm_ring_1, 'h, 'k::zero, 'x) receiver"
  assumes "transcript_lawful X T R reads" and "char_two TYPE('e)"
  shows "lock T reads p (send_msg T m claim p) (recv_quad R claim) (quad_from_msg m claim)"
  unfolding recv_quad_def send_msg_def
proof (rule lock_bind)
  have "u_0 m + (u_0 m + (claim + u_2 m) + u_2 m) = (u_0 m + (u_0 m + claim)) + (u_2 m + u_2 m)"
    by (simp add: algebra_simps)
  then show "lock T reads p (ps_add_round_poly T [u_0 m, claim + u_2 m, u_2 m] False p)
      (vread (vs_next_round_poly R 3 claim)) [u_0 m, claim + u_2 m, u_2 m]"
    by (intro lock_poly [OF assms(1)]) (simp add: char_two_cancel [OF assms(2)] char_two_add [OF assms(2)])
qed (simp add: vbind_def vlift_def index_def quad_from_msg_def lock_ret(1) [unfolded vret_def] vret_def)

section \<open>Rounds\<close>

text \<open>The messages of a round, after the challenge is drawn.\<close>

lemma lock_round:
  fixes R :: "('v, 'e::comm_ring_1, 'h, 'k::zero, 'x) receiver"
  assumes law: "transcript_lawful X T R reads" and two: "char_two TYPE('e)" and "ps_sample T p = (r, p')"
    and "quad_eval quad r = claim"
    and "lock T reads (send_msg T m claim p') p'' (replay_rounds R k claim (quad_from_msg m claim) (rs @ [r])) res"
  shows "lock T reads p p'' (replay_rounds R (Suc k) t_r quad rs) res"
  unfolding replay_rounds.simps Let_def
  using lock_sample [OF law assms(3)]
proof (rule lock_bind)
  show "lock T reads p' p'' (vbind (recv_quad R (quad_eval quad r)) (\<lambda>quad'. replay_rounds R k (quad_eval quad r) quad' (rs @ [r]))) res"
    unfolding assms(4) by (rule lock_bind, rule lock_quad [OF law two], rule assms(5))
qed

lemma level_folds_lock:
  fixes R :: "('v, 'e::comm_ring_1, 'h, 'k::comm_monoid_add, 'x) receiver"
  assumes P: "primitives_lawful (P :: ('k, 'e, 'u, 'w) primitives)" and law: "transcript_lawful X T R reads"
  shows "length f = 2 ^ (k + n) \<Longrightarrow> length b = 2 ^ (k + n) \<Longrightarrow>
    \<exists>rs p'. length rs = k \<and>
      level_folds P T k (ext_state f b c pending) rs0 p =
        Value (ext_state (fold_all f rs) (fold_all b rs) (c + k) pending, rs0 @ rs, p') \<and>
      lock T reads p p' (replay_rounds R k (inner f b) (quad_of f b) rs0)
        (rs0 @ rs, inner (fold_all f rs) (fold_all b rs), quad_of (fold_all f rs) (fold_all b rs))"
proof (induction k arbitrary: f b c rs0 p)
  case 0
  show ?case by (intro exI [of _ "[]"] exI [of _ p]) simp
next
  case (Suc k)
  obtain r p1 where r: "ps_sample T p = (r, p1)" by (cases "ps_sample T p")
  let ?f = "fold_lsb r f" and ?b = "fold_lsb r b"
  let ?msg = "lsb_msg ?f ?b" and ?claim = "inner ?f ?b"
  have fold: "prover_fold P (ext_state f b c pending) r = Value (ext_state ?f ?b (Suc c) pending, ?msg)"
    using Suc.prems by (intro prover_fold_ext [OF P]) simp_all
  have claim: "quad_eval (quad_of f b) r = ?claim"
    unfolding quad_of_def using Suc.prems P by (intro lsb_claim char_two_lawful) simp_all
  from Suc.IH [of ?f ?b "Suc c" "rs0 @ [r]" "send_msg T ?msg ?claim p1"] Suc.prems
  obtain rs p' where len: "length rs = k"
    and rest: "level_folds P T k (ext_state ?f ?b (Suc c) pending) (rs0 @ [r]) (send_msg T ?msg ?claim p1) =
      Value (ext_state (fold_all ?f rs) (fold_all ?b rs) (Suc c + k) pending, (rs0 @ [r]) @ rs, p')"
    and lock: "lock T reads (send_msg T ?msg ?claim p1) p' (replay_rounds R k ?claim (quad_of ?f ?b) (rs0 @ [r]))
      ((rs0 @ [r]) @ rs, inner (fold_all ?f rs) (fold_all ?b rs), quad_of (fold_all ?f rs) (fold_all ?b rs))"
    by auto
  note lock_round [OF law char_two_lawful [OF P] r claim, where m = ?msg, folded quad_of_def, OF lock]
  with len fold rest r show ?case
    by (intro exI [of _ "r # rs"] exI [of _ p']) simp
qed

lemma residual_folds_lock:
  fixes R :: "('v, 'e::comm_ring_1, 'h, 'k::comm_monoid_add, 'x) receiver"
  assumes P: "primitives_lawful (P :: ('k, 'e, 'u, 'w) primitives)" and law: "transcript_lawful X T R reads"
  shows "length f = 2 ^ n \<Longrightarrow> length b = 2 ^ n \<Longrightarrow>
    \<exists>rs p'. length rs = n \<and>
      residual_folds P T n (ext_state f b c pending) p =
        Value (ext_state (fold_all f rs) (fold_all b rs) (c + n) pending, p') \<and>
      lock T reads p p' (replay_tail R n (inner f b) (quad_of f b) tail)
        (tail @ rs, inner (fold_all f rs) (fold_all b rs))"
proof (induction n arbitrary: f b c tail p)
  case 0
  show ?case by (intro exI [of _ "[]"] exI [of _ p]) simp
next
  case (Suc n)
  obtain r p1 where r: "ps_sample T p = (r, p1)" by (cases "ps_sample T p")
  let ?f = "fold_lsb r f" and ?b = "fold_lsb r b"
  let ?msg = "lsb_msg ?f ?b" and ?claim = "inner ?f ?b"
  let ?p2 = "if n = 0 then p1 else send_msg T ?msg ?claim p1"
  have fold: "prover_fold P (ext_state f b c pending) r = Value (ext_state ?f ?b (Suc c) pending, ?msg)"
    using Suc.prems by (intro prover_fold_ext [OF P]) simp_all
  have claim: "quad_eval (quad_of f b) r = ?claim"
    unfolding quad_of_def using Suc.prems P by (intro lsb_claim char_two_lawful) simp_all
  from Suc.IH [of ?f ?b "Suc c" ?p2 "tail @ [r]"] Suc.prems
  obtain rs p' where len: "length rs = n"
    and rest: "residual_folds P T n (ext_state ?f ?b (Suc c) pending) ?p2 =
      Value (ext_state (fold_all ?f rs) (fold_all ?b rs) (Suc c + n) pending, p')"
    and lock: "lock T reads ?p2 p' (replay_tail R n ?claim (quad_of ?f ?b) (tail @ [r]))
      ((tail @ [r]) @ rs, inner (fold_all ?f rs) (fold_all ?b rs))"
    by auto
  have "lock T reads p p' (replay_tail R (Suc n) (inner f b) (quad_of f b) tail)
      ((tail @ [r]) @ rs, inner (fold_all ?f rs) (fold_all ?b rs))"
    unfolding replay_tail.simps Let_def claim
  proof (rule lock_bind [OF lock_sample [OF law r]])
    show "lock T reads p1 p' (if n = 0 then replay_tail R n (quad_eval (quad_of f b) r) (quad_of f b) (tail @ [r])
        else vbind (recv_quad R (quad_eval (quad_of f b) r))
          (\<lambda>quad. replay_tail R n (quad_eval (quad_of f b) r) quad (tail @ [r])))
        ((tail @ [r]) @ rs, inner (fold_all ?f rs) (fold_all ?b rs))"
    proof (cases "n = 0")
      case True
      with lock show ?thesis by (simp add: claim)
    next
      case False
      note quad = lock_quad [OF law char_two_lawful [OF P], of p1 ?msg ?claim, folded quad_of_def]
      show ?thesis unfolding claim using False lock by (simp add: lock_bind [OF quad])
    qed
  qed
  moreover have "residual_folds P T (Suc n) (ext_state f b c pending) p =
      Value (ext_state (fold_all ?f rs) (fold_all ?b rs) (Suc c + n) pending, p')"
    using fold rest r by (cases "n = 0") simp_all
  ultimately show ?case using len
    by (intro exI [of _ "r # rs"] exI [of _ p']) (simp del: residual_folds.simps replay_tail.simps)
qed

section \<open>Lane rounds\<close>

lemma lane_claim_fold:
  fixes P :: "('k::comm_monoid_add, 'e::comm_ring_1, 'u, 'w) primitives" and left :: nat and r :: 'e
  assumes P: "primitives_lawful P" and "length basis = length witness" and "block dvd length witness"
    and "block = 2 ^ k" and "witness \<noteq> []" and "length witness div block \<le> 2 ^ (length rs + Suc left)"
  defines "F \<equiv> \<lambda>rs. lane_folds block rs (map (pr_from P) witness)" and "B \<equiv> \<lambda>rs. lane_folds block rs basis"
  defines "msg \<equiv> lane_msg block (F rs) (B rs)"
    and "msg' \<equiv> if left = 0 then lsb_msg (F (rs @ [r])) (B (rs @ [r])) else lane_msg block (F (rs @ [r])) (B (rs @ [r]))"
  shows "quad_eval (quad_from_msg msg (inner (F rs) (B rs))) r = inner (F (rs @ [r])) (B (rs @ [r]))"
    and "fold_lane P (lane_state P witness basis block rs (inner (F rs) (B rs)) msg) r block (left = 0) =
      Value (lane_state P witness basis block (rs @ [r]) (inner (F (rs @ [r])) (B (rs @ [r]))) msg', msg')"
proof -
  show claim: "quad_eval (quad_from_msg msg (inner (F rs) (B rs))) r = inner (F (rs @ [r])) (B (rs @ [r]))"
    unfolding msg_def F_def B_def lane_folds_snoc
    using assms(2-4) by (intro lane_claim [OF char_two_lawful [OF P]]) (simp_all add: length_lane_folds)
  show "fold_lane P (lane_state P witness basis block rs (inner (F rs) (B rs)) msg) r block (left = 0) =
      Value (lane_state P witness basis block (rs @ [r]) (inner (F (rs @ [r])) (B (rs @ [r]))) msg', msg')"
    using fold_lane_state [OF assms(1-6), where msg = msg and claim = "inner (F rs) (B rs)" and r = r] claim
    unfolding msg_def msg'_def F_def B_def by (simp only:)
qed

lemma lane_rounds_lock:
  fixes R :: "('v, 'e::comm_ring_1, 'h, 'k::comm_monoid_add, 'x) receiver" and k :: nat
  assumes P: "primitives_lawful (P :: ('k, 'e, 'u, 'w) primitives)" and law: "transcript_lawful X T R reads"
    and W: "length basis = length witness" "block dvd length witness" "block = 2 ^ k" "witness \<noteq> []"
  defines "F \<equiv> \<lambda>rs. lane_folds block rs (map (pr_from P) witness)" and "B \<equiv> \<lambda>rs. lane_folds block rs basis"
  shows "length witness div block \<le> 2 ^ (length rs + Suc left) \<Longrightarrow> \<exists>rs' p'. length rs' = Suc left \<and>
    dense_rounds P T block (Suc left) (lane_state P witness basis block rs (inner (F rs) (B rs)) (lane_msg block (F rs) (B rs))) rs p =
      Value (ext_state (F (rs @ rs')) (B (rs @ rs')) (length (rs @ rs')) [], rs @ rs', p') \<and>
    lock T reads p p' (replay_rounds R (Suc left) (inner (F rs) (B rs))
        (quad_from_msg (lane_msg block (F rs) (B rs)) (inner (F rs) (B rs))) rs)
      (rs @ rs', inner (F (rs @ rs')) (B (rs @ rs')), quad_of (F (rs @ rs')) (B (rs @ rs')))"
proof (induction left arbitrary: rs p)
  case 0
  obtain r p1 where r: "ps_sample T p = (r, p1)" by (cases "ps_sample T p")
  let ?f = "F (rs @ [r])" and ?b = "B (rs @ [r])"
  have claim: "quad_eval (quad_from_msg (lane_msg block (F rs) (B rs)) (inner (F rs) (B rs))) r = inner ?f ?b"
    and fold: "fold_lane P (lane_state P witness basis block rs (inner (F rs) (B rs)) (lane_msg block (F rs) (B rs))) r block True =
      Value (lane_state P witness basis block (rs @ [r]) (inner ?f ?b) (lsb_msg ?f ?b), lsb_msg ?f ?b)"
    using lane_claim_fold [OF P W 0, of r] by (simp_all only: F_def B_def simp_thms if_True)
  have state: "lane_state P witness basis block (rs @ [r]) (inner ?f ?b) (lsb_msg ?f ?b) =
      ext_state ?f ?b (length (rs @ [r])) []"
    by (simp add: lane_state_def ext_state_def quad_of_def F_def B_def)
  have "lock T reads p (send_msg T (lsb_msg ?f ?b) (inner ?f ?b) p1) (replay_rounds R (Suc 0) (inner (F rs) (B rs))
      (quad_from_msg (lane_msg block (F rs) (B rs)) (inner (F rs) (B rs))) rs) (rs @ [r], inner ?f ?b, quad_of ?f ?b)"
    by (rule lock_round [OF law char_two_lawful [OF P] r claim, where m = "lsb_msg ?f ?b"]) (simp add: quad_of_def)
  with fold state show ?case
    by (intro exI [of _ "[r]"] exI [of _ "send_msg T (lsb_msg ?f ?b) (inner ?f ?b) p1"]) (simp add: r)
next
  case (Suc left)
  obtain r p1 where r: "ps_sample T p = (r, p1)" by (cases "ps_sample T p")
  let ?f = "F (rs @ [r])" and ?b = "B (rs @ [r])"
  let ?msg = "lane_msg block ?f ?b" and ?claim = "inner ?f ?b"
  have claim: "quad_eval (quad_from_msg (lane_msg block (F rs) (B rs)) (inner (F rs) (B rs))) r = ?claim"
    and fold: "fold_lane P (lane_state P witness basis block rs (inner (F rs) (B rs)) (lane_msg block (F rs) (B rs))) r block False =
      Value (lane_state P witness basis block (rs @ [r]) ?claim ?msg, ?msg)"
    using lane_claim_fold [OF P W Suc.prems, of r] by (simp_all only: F_def B_def nat.distinct if_False)
  from Suc.IH [of "rs @ [r]" "send_msg T ?msg ?claim p1"] Suc.prems obtain rs' p' where len: "length rs' = Suc left"
    and rest: "dense_rounds P T block (Suc left) (lane_state P witness basis block (rs @ [r]) ?claim ?msg) (rs @ [r]) (send_msg T ?msg ?claim p1) =
      Value (ext_state (F ((rs @ [r]) @ rs')) (B ((rs @ [r]) @ rs')) (length ((rs @ [r]) @ rs')) [], (rs @ [r]) @ rs', p')"
    and lock: "lock T reads (send_msg T ?msg ?claim p1) p' (replay_rounds R (Suc left) ?claim (quad_from_msg ?msg ?claim) (rs @ [r]))
      ((rs @ [r]) @ rs', inner (F ((rs @ [r]) @ rs')) (B ((rs @ [r]) @ rs')), quad_of (F ((rs @ [r]) @ rs')) (B ((rs @ [r]) @ rs')))"
    by auto
  have sp: "sp_t_r (lane_state P witness basis block (rs @ [r]) ?claim ?msg) = ?claim" by (simp add: lane_state_def)
  have "lock T reads p p' (replay_rounds R (Suc (Suc left)) (inner (F rs) (B rs))
        (quad_from_msg (lane_msg block (F rs) (B rs)) (inner (F rs) (B rs))) rs)
      ((rs @ [r]) @ rs', inner (F ((rs @ [r]) @ rs')) (B ((rs @ [r]) @ rs')), quad_of (F ((rs @ [r]) @ rs')) (B ((rs @ [r]) @ rs')))"
    by (rule lock_round [OF law char_two_lawful [OF P] r claim lock])
  with len fold rest r sp show ?case
    by (intro exI [of _ "r # rs'"] exI [of _ p'])
      (simp add: dense_rounds.simps(2) [of P T block "Suc left"] del: dense_rounds.simps replay_rounds.simps)
qed

end
