(* ===== verification/Whir_Queries.thy ===== *)
theory Whir_Queries
  imports Whir_Rounds
begin

text \<open>
  Query positions: sampling returns as many positions as asked for, which are the digits of the
  challenges and all of them within the block, and the verifier samples the positions of the prover.
\<close>

declare sample_loop.simps [simp del]

lemma trailing_zeros_power: "d < 64 \<Longrightarrow> trailing_zeros (2 ^ d) = d"
proof -
  assume "d < 64"
  have even_below: "even ((2 :: nat) ^ d div 2 ^ k)" if "k < d" for k
    using that by (simp add: power_diff [symmetric])
  have "takeWhile (\<lambda>k. even ((2 :: nat) ^ d div 2 ^ k)) ([0..<d] @ d # [Suc d..<64]) = [0..<d]"
    using even_below by (subst takeWhile_append2) auto
  moreover have "[0..<64] = [0..<d] @ d # [Suc d..<64]"
    using upt_add_eq_append [of 0 d "64 - d"] \<open>d < 64\<close> by (simp add: upt_conv_Cons)
  ultimately show ?thesis by (simp add: trailing_zeros_def)
qed

section \<open>The digits of a challenge\<close>

unbundle bit_operations_syntax

lemma unat_less_64: "unat (c :: u64) < 2 ^ 64"
  using unsigned_less [of c] by simp

lemma and_mask: "d < 64 \<Longrightarrow> unat (and w (of_nat (2 ^ d - 1)) :: u64) = unat w mod 2 ^ d"
proof -
  assume "d < 64"
  have "(of_nat (2 ^ d - 1) :: u64) = of_nat (mask d)"
    by (simp only: mask_eq_exp_minus_1)
  then have "(of_nat (2 ^ d - 1) :: u64) = mask d"
    by (simp only: of_nat_mask_eq)
  then have "unat (and w (of_nat (2 ^ d - 1)) :: u64) = unat (take_bit d w)"
    by (simp only: take_bit_eq_mask)
  also have "\<dots> = take_bit d (unat w)" by (rule unsigned_take_bit_eq)
  also have "\<dots> = unat w mod 2 ^ d" by (rule take_bit_eq_mod)
  finally show ?thesis .
qed

lemma shifted_limbs:
  fixes a b :: u64
  assumes "s < 64"
  shows "unat (drop_bit s a) = unat a div 2 ^ s"
    and "unat (or (drop_bit s a) (push_bit (64 - s) b)) = unat a div 2 ^ s + (2 ^ (64 - s) * unat b) mod 2 ^ 64"
proof -
  show drop: "unat (drop_bit s a) = unat a div 2 ^ s"
  proof -
    have "unat (drop_bit s a) = drop_bit s (take_bit 64 (unat a))"
      using unsigned_drop_bit_eq [of s a, where 'a = nat] by simp
    also have "take_bit 64 (unat a) = unat a" using unat_less_64 [of a] by (simp only: take_bit_nat_eq_self_iff)
    also have "drop_bit s (unat a) = unat a div 2 ^ s" by (rule drop_bit_eq_div)
    finally show ?thesis .
  qed
  have small: "unat a div 2 ^ s < 2 ^ (64 - s)"
  proof -
    have "unat a < 2 ^ (64 - s) * 2 ^ s" using unat_less_64 [of a] assms by (simp only: power_add [symmetric]) simp
    then show ?thesis by (simp add: less_mult_imp_div_less)
  qed
  have pushed: "unat (push_bit (64 - s) b) = (2 ^ (64 - s) * unat b) mod 2 ^ 64"
  proof -
    have "unat (push_bit (64 - s) b) = take_bit 64 (push_bit (64 - s) (unat b))"
      using unsigned_push_bit_eq [of "64 - s" b, where 'a = nat] by simp
    also have "\<dots> = (2 ^ (64 - s) * unat b) mod 2 ^ 64" by (simp only: take_bit_eq_mod push_bit_eq_mult mult.commute)
    finally show ?thesis .
  qed
  have "and (unat (drop_bit s a)) (unat (push_bit (64 - s) b)) = 0"
  proof (rule bit_eqI)
    fix n
    have "\<not> bit (unat a div 2 ^ s) n" if "64 - s \<le> n"
      using small that by (simp add: bit_iff_odd) (metis div_less dual_order.strict_trans1 even_zero power_increasing_iff one_less_numeral_iff semiring_norm(76))
    then show "bit (and (unat (drop_bit s a)) (unat (push_bit (64 - s) b))) n = bit 0 n"
      by (auto simp: bit_and_iff drop unsigned_push_bit_eq bit_take_bit_iff bit_push_bit_iff)
  qed
  then have "or (unat (drop_bit s a)) (unat (push_bit (64 - s) b)) = unat (drop_bit s a) + unat (push_bit (64 - s) b)"
    by (simp add: disjunctive_add_eq_or)
  then show "unat (or (drop_bit s a) (push_bit (64 - s) b)) = unat a div 2 ^ s + (2 ^ (64 - s) * unat b) mod 2 ^ 64"
    unfolding unsigned_or_eq drop pushed by simp
qed

text \<open>The 192-bit value of three limbs, and its digits of \<open>d\<close> bits.\<close>

definition limbs_value :: "u64 \<times> u64 \<times> u64 \<Rightarrow> nat" where
  "limbs_value v = (case v of (c0, c1, c2) \<Rightarrow> unat c0 + 2 ^ 64 * (unat c1 + 2 ^ 64 * unat c2))"

lemma digit_inside:
  fixes a r :: nat
  assumes "s + d \<le> w"
  shows "(a + 2 ^ w * r) div 2 ^ s mod 2 ^ d = a div 2 ^ s mod 2 ^ d"
proof -
  have "w = s + (d + (w - s - d))" using assms by simp
  then have "(2 :: nat) ^ w = 2 ^ s * (2 ^ d * 2 ^ (w - s - d))" by (metis power_add)
  then have "a + 2 ^ w * r = a + 2 ^ s * (2 ^ d * (2 ^ (w - s - d) * r))" by (simp only: mult.assoc)
  then have "(a + 2 ^ w * r) div 2 ^ s = 2 ^ d * (2 ^ (w - s - d) * r) + a div 2 ^ s"
    by (simp only: div_mult_self2 power_not_zero zero_neq_numeral not_False_eq_True numeral_neq_zero)
  then show ?thesis by simp
qed

lemma digit_across:
  fixes a b r :: nat
  assumes "s < w" and "d < w"
  shows "(a + 2 ^ w * (b + 2 ^ w * r)) div 2 ^ s mod 2 ^ d = (a div 2 ^ s + (2 ^ (w - s) * b) mod 2 ^ w) mod 2 ^ d"
proof -
  have pow: "(2 :: nat) ^ w = 2 ^ s * 2 ^ (w - s)" "(2 :: nat) ^ w = 2 ^ d * 2 ^ (w - d)"
    using assms by (simp_all add: power_add [symmetric])
  have "a + 2 ^ w * (b + 2 ^ w * r) = a + 2 ^ s * (2 ^ (w - s) * (b + 2 ^ w * r))"
    by (simp only: pow(1) mult.assoc)
  then have "(a + 2 ^ w * (b + 2 ^ w * r)) div 2 ^ s = 2 ^ (w - s) * (b + 2 ^ w * r) + a div 2 ^ s"
    by (simp only: div_mult_self2 power_not_zero zero_neq_numeral not_False_eq_True numeral_neq_zero)
  also have "\<dots> = a div 2 ^ s + 2 ^ (w - s) * b + 2 ^ w * (2 ^ (w - s) * r)"
    by (simp add: algebra_simps)
  also have "\<dots> = a div 2 ^ s + 2 ^ (w - s) * b + 2 ^ d * (2 ^ (w - d) * (2 ^ (w - s) * r))"
    by (simp only: pow(2) mult.assoc)
  also have "\<dots> mod 2 ^ d = (a div 2 ^ s + 2 ^ (w - s) * b) mod 2 ^ d" by simp
  also have "\<dots> = (a div 2 ^ s + 2 ^ (w - s) * b mod 2 ^ w) mod 2 ^ d"
    by (metis mod_add_right_eq mod_mod_cancel pow(2) dvd_triv_left)
  finally show ?thesis .
qed

lemma query_chunk_digit:
  assumes "(j + 1) * d \<le> 192" and "0 < d" and "d < 64"
  shows "\<exists>chunk. query_chunk v d j = Value chunk \<and>
    unat (and chunk (of_nat (2 ^ d - 1))) = limbs_value v div 2 ^ (j * d) mod 2 ^ d"
proof -
  obtain c0 c1 c2 where v: "v = (c0, c1, c2)" by (cases v)
  let ?li = "j * d div 64" and ?sh = "j * d mod 64"
  have off: "j * d = 64 * ?li + ?sh" and sh: "?sh < 64" by simp_all
  from assms have "j * d + d \<le> 192" by (simp add: algebra_simps)
  with off assms(2) have li: "?li < 3" "?sh + d > 64 \<Longrightarrow> ?li + 1 < 3" by linarith+
  define rest where "rest = (\<lambda>i. [unat c1 + 2 ^ 64 * unat c2, unat c2, 0 :: nat] ! i)"
  have digits: "limbs_value v div 2 ^ (j * d) = (unat ([c0, c1, c2] ! ?li) + 2 ^ 64 * rest ?li) div 2 ^ ?sh"
  proof -
    have limb: "(unat c + 2 ^ 64 * r) div 2 ^ 64 = r" for c :: u64 and r
      using unat_less_64 [of c] by (simp only: div_mult_self2 div_less power_not_zero numeral_neq_zero not_False_eq_True add_0_right)
    have "limbs_value v div 2 ^ (64 * i) = unat ([c0, c1, c2] ! i) + 2 ^ 64 * rest i" if "i < 3" for i
    proof -
      from that have "i = 0 \<or> i = 1 \<or> i = 2" by linarith
      then consider "i = 0" | "i = 1" | "i = 2" by blast
      then show ?thesis
      proof cases
        case 3
        have "limbs_value v div 2 ^ (64 * 2) = limbs_value v div 2 ^ 64 div 2 ^ 64"
          by (simp only: div_mult2_eq [symmetric] power_add [symmetric] mult_2_right)
        with 3 show ?thesis by (simp only: limbs_value_def v prod.case limb) (simp add: rest_def)
      next
        case 1
        then show ?thesis by (simp only: limbs_value_def v prod.case rest_def mult_0_right power_0 div_by_1 nth_Cons_0)
      next
        case 2
        then show ?thesis by (simp only: limbs_value_def v prod.case limb mult_1_right) (simp add: rest_def)
      qed
    qed
    moreover have "limbs_value v div 2 ^ (j * d) = limbs_value v div 2 ^ (64 * ?li) div 2 ^ ?sh"
      by (subst (1) off) (simp only: power_add div_mult2_eq)
    ultimately show ?thesis using li(1) by simp
  qed
  show ?thesis
  proof (cases "?sh + d > 64")
    case True
    let ?chunk = "or (drop_bit ?sh ([c0, c1, c2] ! ?li)) (push_bit (64 - ?sh) ([c0, c1, c2] ! (?li + 1)))"
    have rest: "rest ?li = unat ([c0, c1, c2] ! (?li + 1)) + 2 ^ 64 * (if ?li = 0 then unat c2 else 0)"
    proof -
      have "?li = 0 \<or> ?li = 1" using li(2) True by linarith
      then show ?thesis by (auto simp: rest_def)
    qed
    have "query_chunk v d j = Value ?chunk" using li True by (simp add: query_chunk_def v index_def Let_def)
    moreover have "unat (and ?chunk (of_nat (2 ^ d - 1))) = limbs_value v div 2 ^ (j * d) mod 2 ^ d"
      by (simp only: and_mask [OF assms(3)] shifted_limbs(2) [OF sh] digits rest digit_across [OF sh assms(3)] simp_thms)
    ultimately show ?thesis by blast
  next
    case False
    have "query_chunk v d j = Value (drop_bit ?sh ([c0, c1, c2] ! ?li))"
      using li False by (simp add: query_chunk_def v index_def Let_def)
    moreover have "unat (and (drop_bit ?sh ([c0, c1, c2] ! ?li)) (of_nat (2 ^ d - 1))) = limbs_value v div 2 ^ (j * d) mod 2 ^ d"
      using False by (simp only: and_mask [OF assms(3)] shifted_limbs(1) [OF sh] digits digit_inside not_less)
    ultimately show ?thesis by blast
  qed
qed


text \<open>The elements a sampler draws, and the digits of each.\<close>

fun draws :: "('s \<Rightarrow> 'e \<times> 's) \<Rightarrow> nat \<Rightarrow> 's \<Rightarrow> 'e list \<times> 's" where
  "draws sample 0 s = ([], s)"
| "draws sample (Suc n) s = (let (v, s) = sample s; (vs, s) = draws sample n s in (v # vs, s))"

definition query_digits :: "nat \<Rightarrow> u64 \<times> u64 \<times> u64 \<Rightarrow> nat list" where
  "query_digits d v = map (\<lambda>j. limbs_value v div 2 ^ (j * d) mod 2 ^ d) [0..<192 div d]"

lemma length_query_digits [simp]: "length (query_digits d v) = 192 div d"
  by (simp add: query_digits_def)

lemma query_chunks_digits:
  assumes "0 < d" and "d < 64"
  shows "\<forall>j \<in> set js. (j + 1) * d \<le> 192 \<Longrightarrow>
    query_chunks v d (2 ^ d) js = Value (map (\<lambda>j. limbs_value v div 2 ^ (j * d) mod 2 ^ d) js)"
proof (induction js)
  case (Cons j js)
  moreover obtain chunk where "query_chunk v d j = Value chunk"
    "unat (and chunk (of_nat (2 ^ d - 1))) = limbs_value v div 2 ^ (j * d) mod 2 ^ d"
    using query_chunk_digit [of j d v] Cons.prems assms by auto
  ultimately show ?case by (simp add: usize_sub_def)
qed simp

lemma query_chunks_take:
  assumes "0 < d" and "d < 64"
  shows "query_chunks v d (2 ^ d) [0..<min (192 div d) n] = Value (take n (query_digits d v))"
proof -
  have "(j + 1) * d \<le> 192" if "j < min (192 div d) n" for j
  proof -
    have "(j + 1) * d \<le> 192 div d * d" using that by (intro mult_le_mono1) simp
    also have "\<dots> \<le> 192" by simp
    finally show ?thesis .
  qed
  moreover have "take n [0..<192 div d] = [0..<min (192 div d) n]" by (cases "n \<le> 192 div d") (simp_all add: min_def)
  ultimately show ?thesis
    using query_chunks_digits [OF assms, of "[0..<min (192 div d) n]" v] by (simp add: query_digits_def take_map)
qed

lemma div_ceil_step:
  assumes "0 < n" and "0 < b"
  shows "div_ceil n b = Suc (div_ceil (n - b) b)"
proof (cases "b \<le> n")
  case True
  then have "n + b - 1 = b + (n - b + b - 1)" using assms by simp
  then show ?thesis using assms(2) by (simp only: div_ceil_def div_add_self1)
next
  case False
  then have "n + b - 1 = b + (n - 1)" "n - 1 < b" using assms by simp_all
  then have "(n + b - 1) div b = Suc ((n - 1) div b)" using assms(2) by (simp only: div_add_self1)
  then show ?thesis using False \<open>n - 1 < b\<close> assms(2) by (simp add: div_ceil_def)
qed

lemma draws_length: "length (fst (draws sample n s)) = n"
proof (induction n arbitrary: s)
  case (Suc n)
  obtain v s1 where "sample s = (v, s1)" by (cases "sample s")
  with Suc [of s1] show ?case by (cases "draws sample n s1") simp
qed simp

lemma sample_loop_digits:
  assumes "0 < d" and "d < 64"
  shows "length out \<le> count \<Longrightarrow> draws sample (div_ceil (count - length out) (192 div d)) s = (vs, s') \<Longrightarrow>
    sample_loop limbs sample d (2 ^ d) count out s =
      Value (out @ take (count - length out) (concat (map (\<lambda>v. query_digits d (limbs v)) vs)), s')"
proof (induction "count - length out" arbitrary: out s vs rule: less_induct)
  case less
  have per: "0 < 192 div d" using assms by (simp add: div_greater_zero_iff)
  show ?case
  proof (cases "length out < count")
    case True
    obtain v s1 where v: "sample s = (v, s1)" by (cases "sample s")
    let ?left = "count - length out" and ?new = "take (count - length out) (query_digits d (limbs v))"
    have "div_ceil ?left (192 div d) = Suc (div_ceil (?left - 192 div d) (192 div d))"
      using True per by (intro div_ceil_step) simp_all
    with less.prems(2) v obtain vs' where vs: "vs = v # vs'"
      and rest: "draws sample (div_ceil (?left - 192 div d) (192 div d)) s1 = (vs', s')"
      by (auto split: prod.splits)
    have drop: "count - (length out + min (192 div d) ?left) = count - (length out + 192 div d)" by simp
    have left: "count - length (out @ ?new) = ?left - 192 div d" by simp
    have "sample_loop limbs sample d (2 ^ d) count (out @ ?new) s1 =
        Value ((out @ ?new) @ take (count - length (out @ ?new)) (concat (map (\<lambda>v. query_digits d (limbs v)) vs')), s')"
      using True per rest less.prems(1) by (intro less.hyps) (simp_all only: left, auto)
    then show ?thesis
      using True per v drop by (subst sample_loop.simps) (simp add: query_chunks_take [OF assms] vs)
  next
    case False
    then have "div_ceil (count - length out) (192 div d) = 0" using per by (simp add: div_ceil_def)
    then show ?thesis using less.prems False by (subst sample_loop.simps) simp
  qed
qed

lemma sample_queries_digits:
  assumes "0 < d" and "d < 64"
  shows "let n = div_ceil count (192 div d); (vs, s') = draws sample n s;
      queries = take count (concat (map (\<lambda>v. query_digits d (limbs v)) vs))
    in sample_queries_ordered limbs sample (2 ^ d) count s = Value (queries, s') \<and> length queries = count \<and>
      list_all (\<lambda>q. q < 2 ^ d) queries"
proof -
  let ?n = "div_ceil count (192 div d)"
  obtain vs s' where draws: "draws sample ?n s = (vs, s')" by (cases "draws sample ?n s")
  let ?digits = "concat (map (\<lambda>v. query_digits d (limbs v)) vs)"
  have loop: "sample_queries_ordered limbs sample (2 ^ d) count s = Value (take count ?digits, s')"
    using sample_loop_digits [OF assms, of "[]" count sample s vs s' limbs] draws assms
    by (simp add: sample_queries_ordered_def trailing_zeros_power)
  have "length ?digits = ?n * (192 div d)"
    using draws_length [of sample ?n s] draws by (simp add: length_concat comp_def sum_list_triv)
  moreover have "count \<le> ?n * (192 div d)" using assms by (intro div_ceil_covers) (simp add: div_greater_zero_iff)
  ultimately have "length (take count ?digits) = count" by simp
  moreover have "list_all (\<lambda>q. q < 2 ^ d) (take count ?digits)"
    by (auto simp: list_all_iff query_digits_def dest!: in_set_takeD)
  ultimately show ?thesis using loop draws by (simp add: Let_def)
qed


lemma sample_queries_total:
  assumes "0 < d" and "d < 64"
  obtains qs s' where "sample_queries_ordered limbs sample (2 ^ d) count s = Value (qs, s')"
    "length qs = count" "list_all (\<lambda>q. q < 2 ^ d) qs"
  using sample_queries_digits [OF assms, of count sample s limbs] by (auto simp: Let_def split: prod.splits)

text \<open>
  C28. Sampling query positions ends for every stream of challenges: the positions are the first ones
  among the digits to the base of the block length of the 192-bit values drawn, each within the block, and
  no more elements are drawn than the number of positions needs.\<close>

theorem query_positions_are_digits:
  assumes "0 < d" and "d < 64"
  shows "let n = div_ceil count (192 div d); (vs, s') = draws sample n s;
      queries = take count (concat (map (\<lambda>v. query_digits d (limbs v)) vs))
    in sample_queries_ordered limbs sample (2 ^ d) count s = Value (queries, s') \<and> length queries = count \<and>
      list_all (\<lambda>q. q < 2 ^ d) queries"
  by (rule sample_queries_digits [OF assms])

section \<open>The verifier's positions\<close>

text \<open>The verifier's loop takes the same elements.\<close>

lemma sample_loop_reads:
  fixes R :: "('v, 'e::comm_ring_1, 'h, 'k::zero, 'x) receiver"
  assumes law: "transcript_lawful X T R reads"
  shows "sample_loop limbs (ps_sample T) d bl count out p = Value (qs, p') \<Longrightarrow> transmits T p p' \<and>
    (\<forall>f v. transmits T p' f \<longrightarrow> reads f p v \<longrightarrow>
      (\<exists>v'. sample_loop limbs (vs_sample R) d bl count out v = Value (qs, v') \<and> reads f p' v'))"
proof (induction limbs "ps_sample T" d bl count out p rule: sample_loop.induct)
  case (1 limbs d bl count out p)
  show ?case
  proof (cases "length out < count")
    case True
    obtain x p1 where x: "ps_sample T p = (x, p1)" by (cases "ps_sample T p")
    have per: "192 div d \<noteq> 0"
    proof
      assume "192 div d = 0"
      with "1.prems" True show False by (subst (asm) sample_loop.simps) simp
    qed
    let ?js = "[0..<min (192 div d) (count - length out)]"
    obtain new where new: "query_chunks (limbs x) d bl ?js = Value new"
    proof (cases "query_chunks (limbs x) d bl ?js")
      case Crash
      with "1.prems" True per x show ?thesis by (subst (asm) sample_loop.simps) simp
    qed simp
    have rest: "sample_loop limbs (ps_sample T) d bl count (out @ new) p1 = Value (qs, p')"
      using "1.prems" True per x new by (subst (asm) sample_loop.simps) simp
    have step: "lock T reads p p1 (vtake (vs_sample R) :: ('v, 'x, 'e) verifier) x"
      using law x by (rule lock_sample)
    have ih: "transmits T p1 p' \<and> (\<forall>f v. transmits T p' f \<longrightarrow> reads f p1 v \<longrightarrow>
        (\<exists>v'. sample_loop limbs (vs_sample R) d bl count (out @ new) v = Value (qs, v') \<and> reads f p' v'))"
      by (rule "1.hyps" [OF True per x [symmetric] refl new rest])
    show ?thesis
    proof (intro conjI allI impI)
      show "transmits T p p'" using lock_transmits [OF step] ih by (blast intro: transmits_trans)
    next
      fix f v assume "transmits T p' f" "reads f p v"
      moreover from this ih have "transmits T p1 f" by (blast intro: transmits_trans)
      ultimately obtain v1 where "vs_sample R v = (x, v1)" "reads f p1 v1"
        using step by (auto simp: lock_def vtake_def)
      moreover from this ih \<open>transmits T p' f\<close> obtain v' where
        "sample_loop limbs (vs_sample R) d bl count (out @ new) v1 = Value (qs, v')" "reads f p' v'"
        by blast
      ultimately show "\<exists>v'. sample_loop limbs (vs_sample R) d bl count out v = Value (qs, v') \<and> reads f p' v'"
        using True per new by (subst sample_loop.simps) simp
    qed
  next
    case False
    with "1.prems" have "qs = out" "p' = p" by (subst (asm) sample_loop.simps, simp)+
    with False show ?thesis by (subst sample_loop.simps) (auto intro: transmits.intros)
  qed
qed

lemma lock_queries:
  fixes R :: "('v, 'e::comm_ring_1, 'h, 'k::zero, 'x) receiver"
  assumes "transcript_lawful X T R reads"
    and "sample_queries_ordered (px_limbs X) (ps_sample T) bl count p = Value (qs, p')"
  shows "lock T reads p p' (vqueries X R bl count) qs"
proof -
  have d: "trailing_zeros bl \<noteq> 0" using assms(2) by (auto simp: sample_queries_ordered_def Let_def split: if_splits)
  then have "sample_loop (px_limbs X) (ps_sample T) (trailing_zeros bl) bl count [] p = Value (qs, p')"
    using assms(2) by (simp add: sample_queries_ordered_def Let_def)
  from sample_loop_reads [OF assms(1) this] d show ?thesis
    unfolding lock_def vqueries_def sample_queries_ordered_def by fastforce
qed

end
