(* ===== verification/Whir_Claims.thy ===== *)
theory Whir_Claims
  imports Whir_Queries
begin

text \<open>
  The claims of a level: out-of-domain claims and the opened rows enter the running sumcheck, and one
  challenge batches them. The witness stays, the basis grows by the weighted claims, and prover and
  verifier compute the same claim and quadratic.
\<close>

section \<open>Inner products are linear in the basis\<close>

definition add_scaled :: "'e::comm_ring_1 list \<Rightarrow> 'e \<Rightarrow> 'e list \<Rightarrow> 'e list" where
  "add_scaled b s b' = map2 (\<lambda>acc v. acc + s * v) b b'"

lemma length_add_scaled [simp]: "length (add_scaled b s b') = min (length b) (length b')"
  by (simp add: add_scaled_def)

lemma nth_add_scaled [simp]: "i < length b \<Longrightarrow> i < length b' \<Longrightarrow> add_scaled b s b' ! i = b ! i + s * b' ! i"
  by (simp add: add_scaled_def)

lemma inner_add_scaled: "length b = length f \<Longrightarrow> length b' = length f \<Longrightarrow>
    inner f (add_scaled b s b') = inner f b + s * inner f b'"
  by (simp add: inner_def algebra_simps sum.distrib sum_distrib_left)

lemma mle_add_scaled: "length b = 2 ^ length rs \<Longrightarrow> length b' = 2 ^ length rs \<Longrightarrow>
    mle (add_scaled b s b') rs = mle b rs + s * mle b' rs"
  by (simp add: mle_def algebra_simps sum.distrib sum_distrib_left)

lemma lsb_msg_add_scaled:
  assumes "length b = length f" and "length b' = length f"
  shows "lsb_msg f (add_scaled b s b') =
    \<lparr>u_0 = u_0 (lsb_msg f b) + s * u_0 (lsb_msg f b'), u_2 = u_2 (lsb_msg f b) + s * u_2 (lsb_msg f b')\<rparr>"
proof -
  have "add_scaled b s b' ! (2 * j) = b ! (2 * j) + s * b' ! (2 * j)"
    "add_scaled b s b' ! (2 * j + 1) = b ! (2 * j + 1) + s * b' ! (2 * j + 1)" if "j < length f div 2" for j
    using that assms by (intro nth_add_scaled; linarith)+
  then show ?thesis
    by (auto simp: lsb_msg_def pair_sum_def sum_distrib_left sum.distrib [symmetric] algebra_simps intro!: sum.cong)
qed

lemma quad_of_add_scaled: "length b = length f \<Longrightarrow> length b' = length f \<Longrightarrow>
    quad_fold (quad_of f b) (quad_of f b') s = quad_of f (add_scaled b s b')"
  by (simp add: quad_of_def quad_from_msg_def quad_fold_def lsb_msg_add_scaled inner_add_scaled algebra_simps)

section \<open>Batching\<close>

text \<open>The claim of a basis; the basis after batching claims with the powers after \<open>s\<close>.\<close>

definition claim_of :: "'e::comm_ring_1 list \<Rightarrow> 'e list \<Rightarrow> 'e list \<times> 'e \<times> 'e round_quad" where
  "claim_of f b = (b, inner f b, quad_of f b)"

fun glue_basis :: "'e::comm_ring_1 \<Rightarrow> 'e \<Rightarrow> 'e list list \<Rightarrow> 'e list \<Rightarrow> 'e list" where
  "glue_basis lambda s [] b = b"
| "glue_basis lambda s (b' # bs) b = glue_basis lambda (s * lambda) bs (add_scaled b (s * lambda) b')"

lemma length_glue_basis: "list_all (\<lambda>b'. length b' = length b) bs \<Longrightarrow> length (glue_basis lambda s bs b) = length b"
  by (induction bs arbitrary: s b) simp_all

lemma glue_basis_append: "glue_basis lambda s (bs @ bs') b =
    glue_basis lambda (s * lambda ^ length bs) bs' (glue_basis lambda s bs b)"
  by (induction bs arbitrary: s b) (simp_all add: mult.assoc)

lemma mle_glue_basis: "length b = 2 ^ length rs \<Longrightarrow> list_all (\<lambda>b'. length b' = length b) bs \<Longrightarrow>
    mle (glue_basis lambda s bs b) rs = mle b rs + (\<Sum>i<length bs. s * lambda ^ Suc i * mle (bs ! i) rs)"
proof (induction bs arbitrary: s b)
  case (Cons b' bs)
  have "mle (glue_basis lambda s (b' # bs) b) rs =
      mle (add_scaled b (s * lambda) b') rs + (\<Sum>i<length bs. s * lambda * lambda ^ Suc i * mle (bs ! i) rs)"
    using Cons.prems by (simp add: Cons.IH)
  also have "\<dots> = mle b rs + (\<Sum>i<Suc (length bs). s * lambda ^ Suc i * mle ((b' # bs) ! i) rs)"
    using Cons.prems by (simp add: mle_add_scaled sum.lessThan_Suc_shift mult.assoc del: sum.lessThan_Suc)
  finally show ?case by simp
qed simp

lemma ext_state_pending [simp]: "ext_state f b c pending\<lparr>sp_pending := pending'\<rparr> = ext_state f b c pending'"
  by (simp add: ext_state_def)

lemma glue_claims_ext:
  fixes f :: "'e::comm_ring_1 list"
  shows "length b = length f \<Longrightarrow> list_all (\<lambda>b'. length b' = length f) bs \<Longrightarrow>
    glue_claims lambda s (map (claim_of f) bs) (ext_state f b c pending :: ('k, 'e) sumcheck_prover) =
      Value (ext_state f (glue_basis lambda s bs b) c pending)"
proof (induction bs arbitrary: s b)
  case (Cons b' bs)
  have "(ext_state f b c pending :: ('k, 'e) sumcheck_prover)\<lparr>sp_combined_basis := map2 (\<lambda>acc v. acc + s * lambda * v) b b',
      sp_t_r := inner f b + s * lambda * inner f b', sp_quad := quad_fold (quad_of f b) (quad_of f b') (s * lambda)\<rparr> =
      ext_state f (add_scaled b (s * lambda) b') c pending"
    using Cons.prems
    by (simp add: ext_state_def inner_add_scaled quad_of_add_scaled) (simp add: add_scaled_def)
  then show ?case using Cons.prems Cons.IH [of "add_scaled b (s * lambda) b'" "s * lambda"]
    by (simp add: claim_of_def Let_def)
qed simp

lemma glue_pending_ext:
  fixes f :: "'e::comm_ring_1 list"
  assumes "bs \<noteq> []" and "length b = length f" and "list_all (\<lambda>b'. length b' = length f) bs"
  shows "glue_pending lambda (ext_state f b c (map (claim_of f) bs) :: ('k, 'e) sumcheck_prover) =
    Value (ext_state f (glue_basis lambda 1 bs b) c [])"
  using assms glue_claims_ext [OF assms(2,3), of lambda 1 c "[]"]
  by (simp add: glue_pending_def)

text \<open>The verifier's side: what it holds of a claim is its value and its message.\<close>

definition ood_of :: "'e::comm_ring_1 list \<Rightarrow> 'e list \<Rightarrow> 'e ood_replay" where
  "ood_of f z = \<lparr>or_z = z, or_y = inner f (build_eq_table_ext z), or_intro_quad = quad_of f (build_eq_table_ext z)\<rparr>"

lemma batch_fold: "length b = length f \<Longrightarrow> list_all (\<lambda>z. 2 ^ length z = length f) zs \<Longrightarrow>
    foldl (\<lambda>(scalar, ood_scalars, t_r, running_quad) claim.
        let scalar = scalar * lambda
        in (scalar, ood_scalars @ [scalar], t_r + scalar * or_y claim, quad_fold running_quad (or_intro_quad claim) scalar))
      (s, scalars, inner f b, quad_of f b) (map (ood_of f) zs) =
    (s * lambda ^ length zs, scalars @ map (\<lambda>i. s * lambda ^ Suc i) [0..<length zs],
     inner f (glue_basis lambda s (map build_eq_table_ext zs) b), quad_of f (glue_basis lambda s (map build_eq_table_ext zs) b))"
proof (induction zs arbitrary: s scalars b)
  case (Cons z zs)
  let ?t = "build_eq_table_ext z"
  let ?step = "\<lambda>(scalar, ood_scalars, t_r, running_quad) claim. let scalar = scalar * lambda
    in (scalar, ood_scalars @ [scalar], t_r + scalar * or_y claim, quad_fold running_quad (or_intro_quad claim) scalar)"
  let ?b = "add_scaled b (s * lambda) ?t"
  have step: "?step (s, scalars, inner f b, quad_of f b) (ood_of f z) =
      (s * lambda, scalars @ [s * lambda], inner f ?b, quad_of f ?b)"
    using Cons.prems by (simp add: ood_of_def Let_def inner_add_scaled quad_of_add_scaled)
  have scalars: "map (\<lambda>i. s * lambda ^ Suc i) [0..<length (z # zs)] =
      s * lambda # map (\<lambda>i. s * lambda * lambda ^ Suc i) [0..<length zs]"
    by (simp add: upt_conv_Cons map_Suc_upt [symmetric] mult.assoc del: upt_Suc)
  have "foldl ?step (s * lambda, scalars @ [s * lambda], inner f ?b, quad_of f ?b) (map (ood_of f) zs) =
      (s * lambda * lambda ^ length zs, (scalars @ [s * lambda]) @ map (\<lambda>i. s * lambda * lambda ^ Suc i) [0..<length zs],
       inner f (glue_basis lambda (s * lambda) (map build_eq_table_ext zs) ?b),
       quad_of f (glue_basis lambda (s * lambda) (map build_eq_table_ext zs) ?b))"
    using Cons.prems by (intro Cons.IH) simp_all
  then show ?case unfolding list.map foldl_Cons step scalars by (simp add: mult.assoc [symmetric])
qed simp

lemma batch_level:
  fixes f b q :: "'e::comm_ring_1 list" and lambda :: 'e and zs :: "'e list list"
  assumes "length b = length f" and "list_all (\<lambda>z. 2 ^ length z = length f) zs" and "length q = length f"
  defines "b' \<equiv> glue_basis lambda 1 (map build_eq_table_ext zs @ [q]) b"
  shows "batch_level_claims lambda (map (ood_of f) zs) (quad_of f q) (inner f q) (inner f b) (quad_of f b) =
    (map (\<lambda>i. lambda ^ Suc i) [0..<length zs], lambda ^ Suc (length zs), inner f b', quad_of f b')"
proof -
  let ?b = "glue_basis lambda 1 (map build_eq_table_ext zs) b"
  have len: "length ?b = length f"
    using assms(1,2) by (subst length_glue_basis) (simp_all add: list_all_iff)
  have "b' = add_scaled ?b (lambda ^ Suc (length zs)) q"
    by (simp add: b'_def glue_basis_append mult.commute)
  then show ?thesis
    using batch_fold [OF assms(1,2), of lambda 1 "[]"] len assms(3)
    by (simp add: batch_level_claims_def Let_def inner_add_scaled quad_of_add_scaled mult.commute)
qed

section \<open>Sending and replaying claims\<close>

lemma eval_kernel:
  assumes P: "primitives_lawful P" and "length b = length f" and "even (length f)"
  shows "round_msg_and_eval_lsb_ext P f b = (lsb_msg f b, inner f b)"
proof -
  let ?e = "\<lambda>j. f ! (2 * j) * b ! (2 * j)" and ?h = "\<lambda>j. (f ! (2 * j) + f ! (2 * j + 1)) * (b ! (2 * j) + b ! (2 * j + 1))"
    and ?y = "\<lambda>j. f ! (2 * j) * b ! (2 * j) + f ! (2 * j + 1) * b ! (2 * j + 1)"
  let ?add3 = "\<lambda>(a0 :: 'b, a2 :: 'b, ay :: 'b) (b0, b2, wy). (a0 + b0, a2 + b2, ay + wy)"
  let ?triple = "\<lambda>j. (?e j, ?h j, ?y j)"
  have fold: "foldl ?add3 z (map ?triple [0..<n]) = (fst z + (\<Sum>j<n. ?e j), fst (snd z) + (\<Sum>j<n. ?h j), snd (snd z) + (\<Sum>j<n. ?y j))"
    for z n by (induction n) (auto simp: add.assoc split: prod.splits)
  have "comm_monoid ?add3 (0, 0, 0)"
    by unfold_locales (auto simp: ac_simps)
  then have par: "pr_eval_par P n (0, 0, 0) ?triple ?add3 = foldl ?add3 (0, 0, 0) (map ?triple [0..<n])" for n
    using P by (simp add: primitives_lawful_def parallel_lawful_def)
  show ?thesis
    unfolding round_msg_and_eval_lsb_ext_def Let_def par fold inner_pairs [OF assms(3)]
    by (simp add: lsb_msg_def pair_sum_def)
qed

lemma send_ood_lock:
  fixes R :: "('v, 'e::comm_ring_1, 'h, 'k::comm_monoid_add, 'x) receiver"
  assumes P: "primitives_lawful (P :: ('k, 'e, 'u, 'w) primitives)" and law: "transcript_lawful X T R reads"
    and table: "\<And>z. px_eq_table_arena X z = build_eq_table_ext z" and len: "length f = 2 ^ Suc n"
  shows "\<exists>zs p'. length zs = count \<and> list_all (\<lambda>z. length z = Suc n) zs \<and>
    send_ood P X T (Suc n) count (ext_state f b c pending) p =
      Value (ext_state f b c (pending @ map (claim_of f) (map build_eq_table_ext zs)), p') \<and>
    lock T reads p p' (replay_oods R (Suc n) count) (map (ood_of f) zs)"
proof (induction count arbitrary: pending p)
  case 0
  show ?case by (intro exI [of _ "[]"] exI [of _ p]) simp
next
  case (Suc count)
  obtain z p1 where z: "ps_sample_vec T (Suc n) p = (z, p1)" by (cases "ps_sample_vec T (Suc n) p")
  let ?t = "build_eq_table_ext z"
  let ?p2 = "send_msg T (lsb_msg f ?t) (inner f ?t) (ps_add_scalar T (inner f ?t) p1)"
  have lz: "length z = Suc n" by (rule length_sample_vec [OF law z])
  have intro: "introduce_new_with_eval P (ext_state f b c pending) ?t =
      Value (ext_state f b c (pending @ [claim_of f ?t]), lsb_msg f ?t, inner f ?t)"
    using eval_kernel [OF P, of ?t f] lz len
    by (simp add: introduce_new_with_eval_def) (simp add: ext_state_def claim_of_def quad_of_def)
  obtain zs p' where rest: "length zs = count" "list_all (\<lambda>z. length z = Suc n) zs"
    "send_ood P X T (Suc n) count (ext_state f b c (pending @ [claim_of f ?t])) ?p2 =
      Value (ext_state f b c ((pending @ [claim_of f ?t]) @ map (claim_of f) (map build_eq_table_ext zs)), p')"
    and lock: "lock T reads ?p2 p' (replay_oods R (Suc n) count) (map (ood_of f) zs)"
    using Suc.IH [of "pending @ [claim_of f ?t]" ?p2] by blast
  have "lock T reads p ?p2 (replay_ood R (Suc n)) (ood_of f z)"
    unfolding replay_ood_def
    by (rule lock_bind [OF lock_sample_vec [OF law z]], rule lock_bind [OF lock_scalar [OF law, where x = "inner f ?t"]],
        rule lock_bind [OF lock_quad [OF law char_two_lawful [OF P], where m = "lsb_msg f ?t"]]) (simp add: ood_of_def quad_of_def)
  then have "lock T reads p p' (replay_oods R (Suc n) (Suc count)) (ood_of f z # map (ood_of f) zs)"
    unfolding replay_oods.simps by (rule lock_bind) (rule lock_bind [OF lock], simp)
  with rest intro z lz table show ?case
    by (intro exI [of _ "z # zs"] exI [of _ p']) simp
qed

lemma introduce_new_ext:
  assumes "primitives_lawful P" and "length q = length f"
  shows "introduce_new P (ext_state f b c pending) q (inner f q) =
    Value (ext_state f b c (pending @ [claim_of f q]), lsb_msg f q)"
  using ext_witness.round_msg [OF assms(1), of q f] assms(2)
  by (simp add: introduce_new_def witness_len_def Let_def) (simp add: ext_state_def claim_of_def quad_of_def)

end
