(* ===== verification/Whir_Codes.thy ===== *)
theory Whir_Codes
  imports Whir_Claims
begin

text \<open>
  What the code behind a commitment promises (transforms, induced bases, Merkle trees), and what
  follows for the commitments of the program: the sum over opened rows that verifier and prover
  compute is the inner product of the folded witness with the basis of the queries.
\<close>

section \<open>Laws\<close>

text \<open>\<open>G n pos x\<close> is the generator matrix of the code of dimension \<open>2 ^ n\<close>: the weight of
  message element \<open>x\<close> in codeword element \<open>pos\<close>.\<close>

type_synonym 'e generator = "nat \<Rightarrow> nat \<Rightarrow> nat \<Rightarrow> 'e"

definition query_basis :: "'e::comm_ring_1 generator \<Rightarrow> nat \<Rightarrow> nat list \<Rightarrow> 'e list \<Rightarrow> 'e list" where
  "query_basis G n queries weights = map (\<lambda>x. \<Sum>j<length queries. weights ! j * G n (queries ! j) x) [0..<2 ^ n]"

definition enforced_sum :: "('a \<Rightarrow> 'e::comm_ring_1) \<Rightarrow> 'a list list \<Rightarrow> 'e list \<Rightarrow> 'e list \<Rightarrow> 'e" where
  "enforced_sum lift rows rs weights =
     (\<Sum>j<length rows. weights ! j * (\<Sum>l<2 ^ length rs. eq_weight rs l * lift (rows ! j ! l)))"

text \<open>Weights and tables; the limbs of an extension element; the induced bases and the sums they
  enforce; encoding by lanes; the lengths of the trees.\<close>

definition tables_lawful :: "('k::zero, 'e::comm_ring_1, 'h, 'm, 's, 'n) pcs_externals \<Rightarrow> bool" where
  "tables_lawful X \<longleftrightarrow>
     (\<forall>z. px_eq_table_arena X z = build_eq_table_ext z) \<and>
     (\<forall>x n. length (px_powers X x n) = n) \<and>
     (\<forall>z rs. length z = length rs \<longrightarrow> px_eq_eval X z rs = eq_agree z rs) \<and>
     (\<forall>v c0 c1 c2. px_limbs X v = (c0, c1, c2) \<longrightarrow>
        px_from_limbs X (px_unword X (px_word X c0)) (px_unword X (px_word X c1)) (px_unword X (px_word X c2)) = v)"

definition induced_lawful ::
  "('k::comm_monoid_add \<Rightarrow> 'e) \<Rightarrow> ('k, 'e::comm_ring_1, 'h, 'm, 's, 'n) pcs_externals \<Rightarrow> 'e generator \<Rightarrow> bool" where
  "induced_lawful lift X G \<longleftrightarrow>
     (\<forall>rows rs queries weights. list_all (\<lambda>row. length row = 2 ^ length rs) rows \<longrightarrow>
        length queries = length rows \<longrightarrow> length weights = length rows \<longrightarrow>
        px_enforced_sum_base X rows rs queries weights = enforced_sum lift rows rs weights \<and>
        (\<forall>n rate. px_induce_auto_base X n rate (px_eval_sk_at_vks X n) rows rs queries weights =
           (query_basis G n queries weights, enforced_sum lift rows rs weights))) \<and>
     (\<forall>rows rs queries weights. list_all (\<lambda>row. length row = 2 ^ length rs) rows \<longrightarrow>
        length queries = length rows \<longrightarrow> length weights = length rows \<longrightarrow>
        px_enforced_sum_ext X rows rs queries weights = enforced_sum (\<lambda>x. x) rows rs weights \<and>
        (\<forall>n. px_induce_poly X n (px_eval_sk_at_vks X n) rows rs queries weights =
           (query_basis G n queries weights, enforced_sum (\<lambda>x. x) rows rs weights))) \<and>
     (\<forall>n queries weights point m. length point + m = n \<longrightarrow> length weights = length queries \<longrightarrow>
        px_residual X n (px_eval_sk_at_vks X n) queries weights point m = fold_all (query_basis G n queries weights) point)"

definition encoding_lawful ::
  "('k::comm_monoid_add \<Rightarrow> 'e) \<Rightarrow> ('k, 'e::comm_ring_1, 'h, 'm, 's, 'n) pcs_externals \<Rightarrow> 'e generator \<Rightarrow> bool" where
  "encoding_lawful lift X G \<longleftrightarrow>
     (\<forall>k. px_log_domain_size X (px_ntt_standard X k) = k) \<and>
     (\<forall>n k rate f. length f = 2 ^ (n + k) \<longrightarrow>
        (let mat = px_forward_ext X (px_ntt_standard X (n + rate)) (concat (replicate (2 ^ rate) f)) (2 ^ k) rate
         in length mat = 2 ^ (n + rate) * 2 ^ k \<and>
           (\<forall>pos<2 ^ (n + rate). \<forall>l<2 ^ k. mat ! (pos * 2 ^ k + l) = (\<Sum>x<2 ^ n. G n pos x * f ! (x * 2 ^ k + l))))) \<and>
     (\<forall>n lanes rate message rest. length message = lanes * 2 ^ n \<longrightarrow>
        length message + length rest = 2 ^ (n + rate) * lanes \<longrightarrow>
        (let cw = px_encode_interleaved X (px_ntt_standard X (n + rate))
             (px_transpose_lane_major X message lanes n @ rest) lanes rate
         in length cw = 2 ^ (n + rate) * lanes \<and>
           (\<forall>pos<2 ^ (n + rate). \<forall>t<lanes. lift (cw ! (pos * lanes + t)) =
              (\<Sum>x<2 ^ n. G n pos x * lift (message ! ((lanes - 1 - t) * 2 ^ n + x)))))) \<and>
     (\<forall>cw positions lanes width. 0 < positions \<longrightarrow>
        length (px_merkle_tree_padded_rows X cw positions lanes width) = 2 * positions - 1) \<and>
     (\<forall>bytes positions. 0 < positions \<longrightarrow> length (px_merkle_tree X bytes positions) = 2 * positions - 1)"

definition pcs_lawful ::
  "('k::comm_monoid_add, 'e::comm_ring_1, 'u, 'w) primitives \<Rightarrow> ('k, 'e, 'h, 'm, 's, 'n) pcs_externals \<Rightarrow> 'e generator \<Rightarrow> bool" where
  "pcs_lawful P X G \<longleftrightarrow> tables_lawful X \<and> induced_lawful (pr_from P) X G \<and> encoding_lawful (pr_from P) X G"

lemma pcs_tables:
  assumes "pcs_lawful P X G"
  shows pcs_eq_table: "px_eq_table_arena X z = build_eq_table_ext z"
    and pcs_powers: "length (px_powers X x n) = n"
    and pcs_eq_eval: "length z = length rs \<Longrightarrow> px_eq_eval X z rs = eq_agree z rs"
    and pcs_limbs: "px_limbs X v = (c0, c1, c2) \<Longrightarrow>
      px_from_limbs X (px_unword X (px_word X c0)) (px_unword X (px_word X c1)) (px_unword X (px_word X c2)) = v"
  using assms by (simp_all add: pcs_lawful_def tables_lawful_def)

lemma pcs_induced:
  assumes "pcs_lawful P X G"
  shows pcs_sum_base: "list_all (\<lambda>row. length row = 2 ^ length rs) rows \<Longrightarrow> length queries = length rows \<Longrightarrow>
      length weights = length rows \<Longrightarrow> px_enforced_sum_base X rows rs queries weights = enforced_sum (pr_from P) rows rs weights"
    and pcs_induce_base: "list_all (\<lambda>row. length row = 2 ^ length rs) rows \<Longrightarrow> length queries = length rows \<Longrightarrow>
      length weights = length rows \<Longrightarrow> px_induce_auto_base X n rate (px_eval_sk_at_vks X n) rows rs queries weights =
        (query_basis G n queries weights, enforced_sum (pr_from P) rows rs weights)"
    and pcs_sum_ext: "list_all (\<lambda>row. length row = 2 ^ length rs) erows \<Longrightarrow> length queries = length erows \<Longrightarrow>
      length weights = length erows \<Longrightarrow> px_enforced_sum_ext X erows rs queries weights = enforced_sum (\<lambda>x. x) erows rs weights"
    and pcs_induce_ext: "list_all (\<lambda>row. length row = 2 ^ length rs) erows \<Longrightarrow> length queries = length erows \<Longrightarrow>
      length weights = length erows \<Longrightarrow> px_induce_poly X n (px_eval_sk_at_vks X n) erows rs queries weights =
        (query_basis G n queries weights, enforced_sum (\<lambda>x. x) erows rs weights)"
    and pcs_residual: "length point + m = n \<Longrightarrow> length weights = length queries \<Longrightarrow>
      px_residual X n (px_eval_sk_at_vks X n) queries weights point m = fold_all (query_basis G n queries weights) point"
  using assms unfolding pcs_lawful_def induced_lawful_def by - ((simp; fail) | blast)+

lemma length_query_basis [simp]: "length (query_basis G n queries weights) = 2 ^ n"
  by (simp add: query_basis_def)

section \<open>Opened rows\<close>

lemma sum_rows:
  assumes "\<And>j l. j < length queries \<Longrightarrow> l < 2 ^ length rs \<Longrightarrow>
      lift (rows ! j ! l) = (\<Sum>x<2 ^ n. G n (queries ! j) x * lane l x)"
    and "\<And>x. x < 2 ^ n \<Longrightarrow> f ! x = (\<Sum>l<2 ^ length rs. eq_weight rs l * lane l x)"
    and "length rows = length queries" and "length f = 2 ^ n"
  shows "enforced_sum lift rows rs weights = inner f (query_basis G n queries weights)"
proof -
  have row: "(\<Sum>l<2 ^ length rs. eq_weight rs l * lift (rows ! j ! l)) = (\<Sum>x<2 ^ n. G n (queries ! j) x * f ! x)"
    if "j < length queries" for j
  proof -
    have "(\<Sum>l<2 ^ length rs. eq_weight rs l * lift (rows ! j ! l)) =
        (\<Sum>l<2 ^ length rs. \<Sum>x<2 ^ n. G n (queries ! j) x * (eq_weight rs l * lane l x))"
      using assms(1) [OF that] by (simp add: sum_distrib_left mult.left_commute)
    also have "\<dots> = (\<Sum>x<2 ^ n. \<Sum>l<2 ^ length rs. G n (queries ! j) x * (eq_weight rs l * lane l x))"
      by (rule sum.swap)
    finally show ?thesis by (simp add: assms(2) sum_distrib_left)
  qed
  have "enforced_sum lift rows rs weights =
      (\<Sum>j<length queries. \<Sum>x<2 ^ n. f ! x * (weights ! j * G n (queries ! j) x))"
    by (simp add: enforced_sum_def assms(3) row sum_distrib_left ac_simps)
  also have "\<dots> = (\<Sum>x<2 ^ n. \<Sum>j<length queries. f ! x * (weights ! j * G n (queries ! j) x))"
    by (rule sum.swap)
  finally show ?thesis
    by (simp add: inner_def query_basis_def assms(4) sum_distrib_left)
qed

section \<open>The commitment of a level\<close>

lemma replicate_fill:
  assumes "msg \<noteq> []" and "length codeword = n * length msg"
  shows "replicate_message_fill_uninit codeword msg = Value (concat (replicate n msg))"
proof -
  let ?len = "length msg" and ?full = "concat (replicate n msg)"
  have len: "0 < ?len" using assms(1) by simp
  have replicas: "length codeword div ?len = n" using assms by simp
  have nth: "?full ! (r * ?len + y) = msg ! y" if "r < n" "y < ?len" for r y
    using that
  proof (induction n arbitrary: r)
    case (Suc n)
    then show ?case by (cases r) (simp_all add: nth_append)
  qed simp
  have full: "length ?full = n * ?len" by (induction n) simp_all
  have fits: "r * ?len + start + min COPY_CHUNK (?len - start) \<le> n * ?len" if "r < n" "start \<le> ?len" for r start
  proof -
    have "r * ?len + ?len \<le> n * ?len" using that(1) by (metis Suc_leI add.commute mult_Suc mult_le_mono1)
    then show ?thesis using that(2) by linarith
  qed
  have start: "c * COPY_CHUNK \<le> ?len" if "c < div_ceil ?len COPY_CHUNK" for c
    using that by (simp add: less_div_ceil COPY_CHUNK_def)
  let ?task = "\<lambda>t. (t mod n * ?len + t div n * COPY_CHUNK, window msg (t div n * COPY_CHUNK)
    (min COPY_CHUNK (?len - t div n * COPY_CHUNK)))"
  have "write_windows codeword (map ?task [0..<div_ceil ?len COPY_CHUNK * n]) = ?full"
  proof (cases "n = 0")
    case True
    then show ?thesis using assms(2) by (simp add: write_windows_def)
  next
    case False
    show ?thesis
    proof (rule write_windows_eq)
      fix w assume "w \<in> set (map ?task [0..<div_ceil ?len COPY_CHUNK * n])"
      then obtain t where t: "t < div_ceil ?len COPY_CHUNK * n" "w = ?task t" by auto
      have c: "t div n < div_ceil ?len COPY_CHUNK" "t mod n < n"
        using t(1) False by (simp_all add: less_mult_imp_div_less)
      note bounds = fits [OF c(2) start [OF c(1)]] start [OF c(1)]
      show "fst w + length (snd w) \<le> length ?full \<and> snd w = window ?full (fst w) (length (snd w))"
        using bounds by (auto simp: t(2) full nth c add.assoc intro!: nth_equalityI)
    next
      fix i assume "i < length ?full"
      then have i: "i < n * ?len" by (simp add: full)
      let ?r = "i div ?len" and ?y = "i mod ?len"
      have y: "?y < ?len" "?r < n" using i len by (simp_all add: less_mult_imp_div_less)
      let ?c = "?y div COPY_CHUNK"
      have c: "?c < div_ceil ?len COPY_CHUNK" "?c * COPY_CHUNK \<le> ?y"
        "?y < ?c * COPY_CHUNK + min COPY_CHUNK (?len - ?c * COPY_CHUNK)"
        using window_around [of COPY_CHUNK ?y ?len] y by (simp_all add: COPY_CHUNK_def)
      have t: "?c * n + ?r < div_ceil ?len COPY_CHUNK * n"
      proof -
        have "?c * n + ?r < (?c + 1) * n" using y by simp
        also have "\<dots> \<le> div_ceil ?len COPY_CHUNK * n" using c(1) by (intro mult_le_mono1) simp
        finally show ?thesis .
      qed
      have "(?c * n + ?r) div n = ?c" "(?c * n + ?r) mod n = ?r" using y by simp_all
      moreover have "i = ?r * ?len + ?y" by simp
      ultimately have "fst (?task (?c * n + ?r)) \<le> i \<and> i < fst (?task (?c * n + ?r)) + length (snd (?task (?c * n + ?r)))"
        using c(2,3) by (simp only: fst_conv snd_conv length_window) linarith
      then show "\<exists>w \<in> set (map ?task [0..<div_ceil ?len COPY_CHUNK * n]). fst w \<le> i \<and> i < fst w + length (snd w)"
      proof (rule bexI)
        show "?task (?c * n + ?r) \<in> set (map ?task [0..<div_ceil ?len COPY_CHUNK * n])"
          unfolding set_map by (rule imageI) (use t in \<open>simp only: set_upt atLeastLessThan_iff\<close>, simp)
      qed
    qed (simp add: full assms(2))
  qed
  then show ?thesis
    using assms(1) by (simp add: replicate_message_fill_uninit_def Let_def replicas)
qed

text \<open>\<open>w\<close> commits to \<open>f\<close>, \<open>2 ^ k\<close> lanes of dimension \<open>2 ^ n\<close>.\<close>

definition commits ::
  "('k, 'e::comm_ring_1, 'h, 'm, 's, 'n) pcs_externals \<Rightarrow> 'e generator \<Rightarrow> 'e list \<Rightarrow> nat \<Rightarrow> nat \<Rightarrow> nat \<Rightarrow> ('e, 'h) ligero_witness \<Rightarrow> bool" where
  "commits X G f n k rate w \<longleftrightarrow> length f = 2 ^ (n + k) \<and>
     lw_tree w = px_merkle_tree X (px_ext_bytes X (lw_mat w)) (2 ^ (n + rate)) \<and> lw_tree w \<noteq> [] \<and>
     lw_block_len w = 2 ^ (n + rate) \<and> lw_num_interleaved w = 2 ^ k \<and> length (lw_mat w) = 2 ^ (n + rate) * 2 ^ k \<and>
     (\<forall>pos<2 ^ (n + rate). \<forall>l<2 ^ k. lw_mat w ! (pos * 2 ^ k + l) = (\<Sum>x<2 ^ n. G n pos x * f ! (x * 2 ^ k + l)))"

lemma ligero_commit:
  assumes P: "primitives_lawful P" and pcs: "pcs_lawful P X G" and len: "length f = 2 ^ (n + k)"
  obtains w where "ligero_commit_ext P X f n k rate (px_ntt_standard X (n + rate)) = Value w" "commits X G f n k rate w"
    "ligero_root w = Value (last (lw_tree w))"
proof -
  have uninit: "length (pr_uninit P ((2 ^ n * 2 ^ rate) * 2 ^ k)) = 2 ^ rate * length f"
    using P by (simp add: primitives_lawful_def len power_add)
  have fill: "replicate_message_fill_uninit (pr_uninit P ((2 ^ n * 2 ^ rate) * 2 ^ k)) f = Value (concat (replicate (2 ^ rate) f))"
    using len by (intro replicate_fill uninit) auto
  let ?mat = "px_forward_ext X (px_ntt_standard X (n + rate)) (concat (replicate (2 ^ rate) f)) (2 ^ k) rate"
  let ?w = "\<lparr>lw_mat = ?mat, lw_tree = px_merkle_tree X (px_ext_bytes X ?mat) (2 ^ n * 2 ^ rate),
    lw_block_len = 2 ^ n * 2 ^ rate, lw_num_interleaved = 2 ^ k\<rparr>"
  have enc: "encoding_lawful (pr_from P) X G" using pcs by (simp add: pcs_lawful_def)
  have size: "px_log_domain_size X (px_ntt_standard X (n + rate)) = n + rate"
    using enc by (simp add: encoding_lawful_def)
  have mat: "length ?mat = 2 ^ (n + rate) * 2 ^ k"
    "\<forall>pos<2 ^ (n + rate). \<forall>l<2 ^ k. ?mat ! (pos * 2 ^ k + l) = (\<Sum>x<2 ^ n. G n pos x * f ! (x * 2 ^ k + l))"
    using enc [unfolded encoding_lawful_def, THEN conjunct2, THEN conjunct1, rule_format, OF len, of rate]
    unfolding Let_def by simp_all
  have "length (px_merkle_tree X (px_ext_bytes X ?mat) (2 ^ n * 2 ^ rate)) = 2 * (2 ^ n * 2 ^ rate) - 1"
    using enc unfolding encoding_lawful_def by simp
  moreover have "0 < (2 :: nat) ^ n * 2 ^ rate" by simp
  then have "0 < 2 * (2 ^ n * 2 ^ rate) - (1 :: nat)" by linarith
  ultimately have tree: "lw_tree ?w \<noteq> []" by (simp flip: length_greater_0_conv)
  have "ligero_commit_ext P X f n k rate (px_ntt_standard X (n + rate)) = Value ?w"
    using len size fill by (simp add: ligero_commit_ext_def Let_def power_add mult.commute)
  moreover have "commits X G f n k rate ?w"
    using mat tree len by (simp add: commits_def power_add)
  moreover have "ligero_root ?w = Value (last (lw_tree ?w))"
    using tree by (simp add: ligero_root_def last_conv_nth)
  ultimately show thesis by (rule that)
qed

lemma row_inside: "q < (n :: nat) \<Longrightarrow> q * w + w \<le> n * w"
  by (metis Suc_leI add.commute mult_Suc mult_le_mono1)

lemma length_ligero_row: "commits X G f n k rate w \<Longrightarrow> q < 2 ^ (n + rate) \<Longrightarrow> length (ligero_row w q) = 2 ^ k"
  using row_inside [of q "2 ^ (n + rate)" "2 ^ k"] by (simp add: commits_def ligero_row_def)

lemma level_sum:
  assumes w: "commits X G f n k rate w" and "length rs = k" and q: "list_all (\<lambda>q. q < 2 ^ (n + rate)) queries"
  shows "enforced_sum (\<lambda>x. x) (map (ligero_row w) queries) rs weights = inner (fold_all f rs) (query_basis G n queries weights)"
proof (rule sum_rows [where lane = "\<lambda>l x. f ! (x * 2 ^ k + l)"])
  fix j l assume jl: "j < length queries" "l < (2 :: nat) ^ length rs"
  then have pos: "queries ! j < 2 ^ (n + rate)" using q by (simp add: list_all_length)
  have "ligero_row w (queries ! j) ! l = lw_mat w ! (queries ! j * 2 ^ k + l)"
    using row_inside [OF pos, of "2 ^ k"] w jl(2) assms(2) by (simp add: ligero_row_def commits_def)
  then show "map (ligero_row w) queries ! j ! l = (\<Sum>x<2 ^ n. G n (queries ! j) x * f ! (x * 2 ^ k + l))"
    using w pos jl assms(2) by (simp add: commits_def)
next
  have len: "length f = 2 ^ length rs * 2 ^ n" using w assms(2) by (simp add: commits_def power_add)
  show "length (fold_all f rs) = 2 ^ n" by (rule length_fold_all [OF len])
  show "fold_all f rs ! x = (\<Sum>l<2 ^ length rs. eq_weight rs l * f ! (x * 2 ^ k + l))" if "x < 2 ^ n" for x
    using nth_fold_all [OF len that] assms(2) by (simp add: mult.commute)
qed simp

lemma decode_words: "pcs_lawful P X G \<Longrightarrow> ext_row_from_words X (ext_row_words X row) = Value row"
proof (induction row)
  case (Cons v row)
  obtain c0 c1 c2 where v: "px_limbs X v = (c0, c1, c2)" by (cases "px_limbs X v")
  have "ext_row_words X (v # row) = px_word X c0 # px_word X c1 # px_word X c2 # ext_row_words X row"
    by (simp add: ext_row_words_def v)
  then show ?case using Cons pcs_limbs [OF Cons.prems v] by simp
qed (simp add: ext_row_words_def)

lemma decode_rows_map: "(\<And>y. y \<in> set ys \<Longrightarrow> decode (g y) = Value (h y)) \<Longrightarrow> decode_rows decode (map g ys) = Value (map h ys)"
  by (induction ys) simp_all

lemma lock_ext_openings:
  fixes R :: "('v, 'e::comm_ring_1, 'h, 'k::comm_monoid_add, 'x) receiver"
  assumes law: "transcript_lawful X T R reads" and pcs: "pcs_lawful P X G" and w: "commits X G f n k rate w"
    and q: "list_all (\<lambda>q. q < 2 ^ (n + rate)) queries"
  shows "lock T reads p (ps_hint_merkle T (px_prune X (lw_tree w) (lw_block_len w) queries (\<lambda>q. ext_row_words X (ligero_row w q))) p)
    (recv_level_rows R (last (lw_tree w)) (2 ^ (n + rate)) queries (3 * 2 ^ k) (3 * 2 ^ k) (ext_row_from_words X))
    (map (ligero_row w) queries)"
  unfolding recv_level_rows_def
proof (rule lock_bind)
  show "lock T reads p (ps_hint_merkle T (px_prune X (lw_tree w) (lw_block_len w) queries (\<lambda>q. ext_row_words X (ligero_row w q))) p)
      (vread (vs_next_merkle_batch R (last (lw_tree w)) (2 ^ (n + rate)) queries (3 * 2 ^ k) (3 * 2 ^ k)))
      (map (\<lambda>q. ext_row_words X (ligero_row w q)) queries)"
    using w q by (intro lock_ext_rows [OF law]) (auto simp: ext_openings_def commits_def ligero_row_def)
qed (simp add: decode_rows_map [where h = "ligero_row w"] decode_words [OF pcs])

section \<open>The initial commitment\<close>

lemma lane_updates:
  assumes "k \<le> length ws" and "length ws \<le> length row"
  defines "row' \<equiv> foldl (\<lambda>row (t, word). row[length ws - 1 - t := word]) row (zip [0..<k] ws)"
  shows "length row' = length row \<and> (\<forall>i<length row. row' ! i =
    (if length ws - k \<le> i \<and> i < length ws then ws ! (length ws - 1 - i) else row ! i))"
  using assms(1) unfolding row'_def
proof (induction k)
  case (Suc k)
  have "zip [0..<Suc k] ws = zip [0..<k] ws @ [(k, ws ! k)]"
    using Suc.prems by (intro nth_equalityI) (auto simp: nth_append less_Suc_eq)
  with Suc show ?case using assms(2) by (auto simp: nth_list_update)
qed auto

lemma l0_fold_row_eq:
  assumes "q * n_lanes + n_lanes \<le> length cw" and "n_lanes \<le> width"
  shows "l0_fold_row cw n_lanes width q = rev (window cw (q * n_lanes) n_lanes) @ replicate (width - n_lanes) 0"
proof -
  let ?ws = "window cw (q * n_lanes) n_lanes"
  have len: "length ?ws = n_lanes" using assms(1) by simp
  show ?thesis
    using lane_updates [of n_lanes ?ws "replicate width 0"] assms(2) len
    by (intro nth_equalityI) (auto simp: l0_fold_row_def nth_append rev_nth)
qed

text \<open>\<open>cw\<close> encodes the lanes of the message, the last lane first.\<close>

definition encodes ::
  "('k \<Rightarrow> 'e::comm_ring_1) \<Rightarrow> 'e generator \<Rightarrow> 'k list \<Rightarrow> nat \<Rightarrow> nat \<Rightarrow> nat \<Rightarrow> 'k list \<Rightarrow> bool" where
  "encodes lift G message n lanes rate cw \<longleftrightarrow> length message = lanes * 2 ^ n \<and> length cw = 2 ^ (n + rate) * lanes \<and>
     (\<forall>pos<2 ^ (n + rate). \<forall>t<lanes. lift (cw ! (pos * lanes + t)) =
        (\<Sum>x<2 ^ n. G n pos x * lift (message ! ((lanes - 1 - t) * 2 ^ n + x))))"

lemma initial_sum:
  fixes P :: "('k::comm_monoid_add, 'e::comm_ring_1, 'u, 'w) primitives"
  assumes P: "primitives_lawful P" and cw: "encodes (pr_from P) G message n lanes rate cw"
    and "0 < lanes" and "lanes \<le> 2 ^ length rs" and q: "list_all (\<lambda>q. q < 2 ^ (n + rate)) queries"
  shows "list_all (\<lambda>row. length row = 2 ^ length rs) (map (l0_fold_row cw lanes (2 ^ length rs)) queries)"
    and "enforced_sum (pr_from P) (map (l0_fold_row cw lanes (2 ^ length rs)) queries) rs weights =
      inner (lane_folds (2 ^ n) rs (map (pr_from P) message)) (query_basis G n queries weights)"
proof -
  let ?msg = "map (pr_from P) message" and ?width = "2 ^ length rs :: nat"
  let ?f = "lane_folds (2 ^ n) rs ?msg"
  have row: "l0_fold_row cw lanes ?width q = rev (window cw (q * lanes) lanes) @ replicate (?width - lanes) 0"
    "length (window cw (q * lanes) lanes) = lanes" if "q < 2 ^ (n + rate)" for q
    using row_inside [OF that, of lanes] cw assms(4) by (simp_all add: l0_fold_row_eq encodes_def)
  have "length (l0_fold_row cw lanes ?width q) = ?width" if "q < 2 ^ (n + rate)" for q
    unfolding row(1) [OF that] length_append length_rev row(2) [OF that] length_replicate using assms(4) by simp
  then show "list_all (\<lambda>row. length row = ?width) (map (l0_fold_row cw lanes ?width) queries)"
    using q by (auto simp: list_all_iff)
  have len: "length ?msg = lanes * 2 ^ n" using cw by (simp add: encodes_def)
  have dvd: "2 ^ n dvd length ?msg" unfolding len by simp
  have flen: "length ?f = 2 ^ n"
    using length_lane_folds [OF _ dvd, of rs, unfolded len] div_ceil_final [OF assms(4,3)] by simp
  show "enforced_sum (pr_from P) (map (l0_fold_row cw lanes ?width) queries) rs weights = inner ?f (query_basis G n queries weights)"
  proof (rule sum_rows [where lane = "\<lambda>l x. at0 ?msg (l * 2 ^ n + x)"])
    fix j l assume jl: "j < length queries" "l < ?width"
    then have pos: "queries ! j < 2 ^ (n + rate)" using q by (simp add: list_all_length)
    have zero: "pr_from P 0 = 0" using P by (simp add: primitives_lawful_def)
    show "pr_from P (map (l0_fold_row cw lanes ?width) queries ! j ! l) =
        (\<Sum>x<2 ^ n. G n (queries ! j) x * at0 ?msg (l * 2 ^ n + x))"
    proof (cases "l < lanes")
      case True
      have inside: "l * 2 ^ n + x < lanes * 2 ^ n" if "x < 2 ^ n" for x
        using row_inside [OF True, of "2 ^ n"] that by linarith
      have "map (l0_fold_row cw lanes ?width) queries ! j ! l = cw ! (queries ! j * lanes + (lanes - 1 - l))"
        using True jl row [OF pos] row_inside [OF pos, of lanes] cw
        by (simp add: nth_append rev_nth encodes_def)
      moreover have "pr_from P (cw ! (queries ! j * lanes + (lanes - 1 - l))) =
          (\<Sum>x<2 ^ n. G n (queries ! j) x * pr_from P (message ! (l * 2 ^ n + x)))"
      proof -
        have t: "lanes - 1 - l < lanes" "lanes - 1 - (lanes - 1 - l) = l" using True by simp_all
        show ?thesis
          using cw [unfolded encodes_def, THEN conjunct2, THEN conjunct2, rule_format, OF pos t(1)] by (simp only: t(2))
      qed
      ultimately show ?thesis
        using True inside len by (simp add: at0_def)
    next
      case False
      then have "lanes * 2 ^ n \<le> l * 2 ^ n" by simp
      then have "\<not> l * 2 ^ n + x < lanes * 2 ^ n" for x by (simp only: not_less trans_le_add1)
      then have "at0 ?msg (l * 2 ^ n + x) = 0" for x unfolding at0_def len by (simp only: if_False)
      then show ?thesis using False jl row [OF pos] by (simp add: nth_append zero)
    qed
  next
    show "?f ! x = (\<Sum>l<2 ^ length rs. eq_weight rs l * at0 ?msg (l * 2 ^ n + x))" if "x < 2 ^ n" for x
      using at0_lane_folds [OF _ dvd that, of rs 0] that flen by (simp add: at0_def [of ?f])
  qed (simp_all add: flen)
qed

lemma encode_commit:
  assumes pcs: "pcs_lawful P X G" and "commit X uninit message log_n k rate = Value (root, data)"
    and uninit: "\<And>m. length (uninit m) = m"
  shows "\<exists>lanes. encodes (pr_from P) G message (log_n - k) lanes rate (pd_codeword data) \<and> 0 < lanes \<and> lanes \<le> 2 ^ k \<and>
    k < log_n \<and> 1 \<le> rate \<and>
    length (pd_merkle_tree data) = 2 * 2 ^ (log_n - k + rate) - 1 \<and> root = last (pd_merkle_tree data) \<and>
    pd_merkle_tree data = px_merkle_tree_padded_rows X (pd_codeword data) (2 ^ (log_n - k + rate)) lanes (2 ^ k) \<and>
    pd_merkle_tree data \<noteq> []"
proof -
  let ?n = "log_n - k" and ?lanes = "length message div 2 ^ (log_n - k)"
  have enc: "encoding_lawful (pr_from P) X G" using pcs by (simp add: pcs_lawful_def)
  from assms(2) obtain cw where cw: "encode_codeword X uninit message log_n k rate = Value cw"
    by (cases "encode_codeword X uninit message log_n k rate") (auto simp: commit_def)
  then have shape: "1 \<le> rate" "k < log_n" "length message = ?lanes * 2 ^ ?n" "1 \<le> ?lanes" "?lanes \<le> 2 ^ k"
    and cw_eq: "cw = px_encode_interleaved X (px_ntt_standard X (?n + rate))
      (px_transpose_lane_major X message ?lanes ?n @ drop (length message) (uninit (2 ^ (?n + rate) * ?lanes))) ?lanes rate"
    by (auto simp: encode_codeword_def Let_def split: if_splits)
  have "length message \<le> 2 ^ (?n + rate) * ?lanes"
    by (subst shape(3)) (simp add: power_add mult.commute mult.left_commute)
  then have "length message + length (drop (length message) (uninit (2 ^ (?n + rate) * ?lanes))) = 2 ^ (?n + rate) * ?lanes"
    by (simp add: uninit)
  from enc [unfolded encoding_lawful_def, THEN conjunct2, THEN conjunct2, THEN conjunct1, rule_format, OF shape(3) this]
  have encodes: "encodes (pr_from P) G message ?n ?lanes rate cw"
    unfolding encodes_def Let_def cw_eq [symmetric] using shape(3) by simp
  have tree: "length (px_merkle_tree_padded_rows X cw (2 ^ (?n + rate)) ?lanes (2 ^ k)) = 2 * 2 ^ (?n + rate) - 1"
    using enc unfolding encoding_lawful_def by simp
  from assms(2) cw have "data = \<lparr>pd_codeword = cw, pd_merkle_tree = px_merkle_tree_padded_rows X cw (2 ^ (?n + rate)) ?lanes (2 ^ k)\<rparr>"
    "root = last (pd_merkle_tree data)" "pd_merkle_tree data \<noteq> []"
    by (auto simp: commit_def Let_def split: if_splits)
  with encodes shape tree show ?thesis by (intro exI [of _ ?lanes]) auto
qed

end
