(* ===== verification/Whir_Weights.thy ===== *)
theory Whir_Weights
  imports Whir_Codes
begin

text \<open>
  The weight the verifier evaluates at the end is the evaluation of the prover's basis: every claim
  context of the verifier stands for one summand of the basis, folds bind its first variables, and
  the terminal check compares the product of the two evaluations with the claim.
\<close>

section \<open>Evaluations\<close>

lemma fold_all_mle: "length xs = 2 ^ length rs \<Longrightarrow> fold_all xs rs = [mle xs rs]"
  by (simp add: fold_all_point mle_def)

lemma mle_fold_all:
  assumes "length b = 2 ^ (length rs + length tail)"
  shows "mle (fold_all b rs) tail = mle b (rs @ tail)"
proof -
  have "length (fold_all b rs) = 2 ^ length tail"
    using assms by (intro length_fold_all) (simp add: power_add)
  then have "[mle (fold_all b rs) tail] = fold_all (fold_all b rs) tail" by (simp add: fold_all_mle)
  also have "\<dots> = [mle b (rs @ tail)]"
    using assms by (simp add: fold_all_append [symmetric] fold_all_mle)
  finally show ?thesis by simp
qed

lemma mle_eq_table: "length z = length rs \<Longrightarrow> mle (build_eq_table_ext z) rs = eq_agree z rs"
  using mle_eq_weight [of z rs] by (simp add: mle_def nth_eq_table)

lemma eq_agree_append: "length zs = length rs \<Longrightarrow> eq_agree (zs @ zs') (rs @ rs') = eq_agree zs rs * eq_agree zs' rs'"
  by (simp add: eq_agree_def)

lemma agree_char_two: "char_two TYPE('e) \<Longrightarrow> (1 + z) * (1 + r) + z * r = 1 + z + (r :: 'e::comm_ring_1)"
  by (simp add: algebra_simps char_two_add)

lemma eq_agree_foldl:
  fixes zs rs :: "'e::comm_ring_1 list"
  assumes "char_two TYPE('e)" and "length zs = length rs"
  shows "foldl (\<lambda>scalar b. scalar * (1 + zs ! b + rs ! b)) s [0..<length rs] = s * eq_agree zs rs"
proof -
  have "foldl (\<lambda>scalar b. scalar * (1 + zs ! b + rs ! b)) s [0..<n] = s * eq_agree (take n zs) (take n rs)"
    if "n \<le> length rs" for n
    using that
  proof (induction n)
    case (Suc n)
    then have "eq_agree (take (Suc n) zs) (take (Suc n) rs) = eq_agree (take n zs) (take n rs) * eq_agree [zs ! n] [rs ! n]"
      using assms(2) eq_agree_append [of "take n zs" "take n rs" "[zs ! n]" "[rs ! n]"]
      by (simp add: take_Suc_conv_app_nth)
    with Suc show ?case by (simp add: eq_agree_def agree_char_two [OF assms(1)] mult.assoc)
  qed (simp add: eq_agree_def)
  from this [of "length rs"] assms(2) show ?thesis by simp
qed

section \<open>Contexts\<close>

definition level_value :: "'e::comm_ring_1 generator \<Rightarrow> 'e level_ctx \<Rightarrow> 'e list \<Rightarrow> 'e" where
  "level_value G ctx point = lc_beta ctx *
     mle (query_basis G (lc_log_msg_cols ctx) (lc_queries ctx) (lc_weights ctx)) (drop (lc_ris_start ctx) point)"

definition ood_value :: "'e::comm_ring_1 ood_ctx \<Rightarrow> 'e list \<Rightarrow> 'e" where
  "ood_value ctx point = oc_beta ctx * eq_agree (oc_z ctx) (drop (oc_ris_start ctx) point)"

definition level_fits :: "'e list \<Rightarrow> nat \<Rightarrow> 'e level_ctx \<Rightarrow> bool" where
  "level_fits ris n ctx \<longleftrightarrow> lc_ris_start ctx + lc_log_msg_cols ctx = length ris + n \<and>
     lc_ris_start ctx \<le> length ris \<and> length (lc_weights ctx) = length (lc_queries ctx)"

definition ood_fits :: "'e list \<Rightarrow> nat \<Rightarrow> 'e ood_ctx \<Rightarrow> bool" where
  "ood_fits ris n ctx \<longleftrightarrow> oc_ris_start ctx + length (oc_z ctx) = length ris + n \<and> oc_ris_start ctx \<le> length ris"

lemma level_weight_value:
  assumes pcs: "pcs_lawful P X G" and fits: "level_fits ris (length tail) ctx"
  shows "level_weight X ris tail ctx = Value (Inr (level_value G ctx (ris @ tail)))"
proof -
  let ?n = "lc_log_msg_cols ctx" and ?start = "lc_ris_start ctx"
  let ?basis = "query_basis G ?n (lc_queries ctx) (lc_weights ctx)" and ?point = "drop ?start (ris @ tail)"
  have shape: "?start + (?n - length tail) = length ris" "length tail \<le> ?n" "length ?point = ?n"
    "window ris ?start (?n - length tail) @ tail = ?point"
    using fits by (auto simp: level_fits_def window_def)
  have "px_residual X ?n (px_eval_sk_at_vks X ?n) (lc_queries ctx) (lc_weights ctx) ?point 0 = [mle ?basis ?point]"
    using pcs_residual [OF pcs, of ?point 0 ?n "lc_weights ctx" "lc_queries ctx"] fits shape(3)
      fold_all_mle [of ?basis ?point] by (simp add: level_fits_def)
  with shape show ?thesis by (simp add: level_weight_def Let_def level_value_def)
qed

lemma ood_weight_value:
  fixes X :: "('k::comm_monoid_add, 'e::comm_ring_1, 'h, 'm, 's, 'n) pcs_externals"
  assumes two: "char_two TYPE('e)" and pcs: "pcs_lawful P X G" and fits: "ood_fits ris (length tail) ctx"
  shows "ood_weight X ris tail ctx = Value (Inr (ood_value ctx (ris @ tail)))"
proof -
  let ?z = "oc_z ctx" and ?start = "oc_ris_start ctx"
  let ?k = "length (oc_z ctx) - length tail"
  have shape: "?start + ?k = length ris" "length tail \<le> length ?z"
    using fits by (auto simp: ood_fits_def)
  have "foldl (\<lambda>scalar b. scalar * (1 + ?z ! b + ris ! (?start + b))) (oc_beta ctx) [0..<?k] =
      foldl (\<lambda>scalar b. scalar * (1 + take ?k ?z ! b + drop ?start ris ! b)) (oc_beta ctx) [0..<length (drop ?start ris)]"
  proof (rule foldl_cong)
    show "[0..<?k] = [0..<length (drop ?start ris)]" by (simp only: length_drop shape(1) [symmetric] add_diff_cancel_left')
  qed (use shape in auto)
  also have "\<dots> = oc_beta ctx * eq_agree (take ?k ?z) (drop ?start ris)"
    using shape by (intro eq_agree_foldl [OF two]) simp
  finally have scalar: "foldl (\<lambda>scalar b. scalar * (1 + ?z ! b + ris ! (?start + b))) (oc_beta ctx) [0..<?k] =
      oc_beta ctx * eq_agree (take ?k ?z) (drop ?start ris)" .
  have "length (take ?k ?z) = length (drop ?start ris)"
    using shape(1) by (simp flip: shape(1))
  from eq_agree_append [OF this, of "drop ?k ?z" tail]
  have "eq_agree ?z (drop ?start (ris @ tail)) = eq_agree (take ?k ?z) (drop ?start ris) * eq_agree (drop ?k ?z) tail"
    using fits by (simp add: ood_fits_def)
  moreover have "px_eq_eval X (drop ?k ?z) tail = eq_agree (drop ?k ?z) tail"
    using shape by (intro pcs_eq_eval [OF pcs]) simp
  ultimately show ?thesis
    using shape scalar by (simp add: ood_weight_def Let_def ood_value_def mult.assoc)
qed

lemma sum_weights_values: "(\<And>ctx. ctx \<in> set ctxs \<Longrightarrow> f ctx = Value (Inr (value ctx))) \<Longrightarrow>
    sum_weights f ctxs w = Value (Inr (w + sum_list (map value ctxs)))"
  by (induction ctxs arbitrary: w) (simp_all add: add.assoc)

section \<open>The invariant\<close>

text \<open>\<open>b\<close> over the \<open>n\<close> variables left is the sum of the contexts and of the caller's weight,
  at every completion of the challenges.\<close>

definition weighs ::
  "'e::comm_ring_1 generator \<Rightarrow> ('e list \<Rightarrow> 'e) \<Rightarrow> nat \<Rightarrow> 'e level_ctx list \<Rightarrow> 'e ood_ctx list \<Rightarrow> 'e list \<Rightarrow> nat \<Rightarrow> 'e list \<Rightarrow> bool" where
  "weighs G eval_b_at k0 levels oods ris n b \<longleftrightarrow> length b = 2 ^ n \<and> k0 \<le> length ris \<and>
     (\<forall>ctx\<in>set levels. level_fits ris n ctx) \<and> (\<forall>ctx\<in>set oods. ood_fits ris n ctx) \<and>
     (\<forall>tail. length tail = n \<longrightarrow> mle b tail =
        (\<Sum>ctx\<leftarrow>levels. level_value G ctx (ris @ tail)) + (\<Sum>ctx\<leftarrow>oods. ood_value ctx (ris @ tail)) +
        eval_b_at (drop k0 (ris @ tail) @ take k0 (ris @ tail)))"

lemma weighs_fold:
  assumes "weighs G eval_b_at k0 levels oods ris (k + n) b" and "length rs = k"
  shows "weighs G eval_b_at k0 levels oods (ris @ rs) n (fold_all b rs)"
proof -
  have "length b = 2 ^ (k + n)" using assms(1) by (simp add: weighs_def)
  then have "length (fold_all b rs) = 2 ^ n"
    using assms(2) by (intro length_fold_all) (simp add: power_add)
  moreover have "mle (fold_all b rs) tail = mle b (rs @ tail)" if "length tail = n" for tail
    using \<open>length b = _\<close> that assms(2) by (intro mle_fold_all) simp
  ultimately show ?thesis
    using assms unfolding weighs_def by (auto simp: level_fits_def ood_fits_def)
qed

lemma weighs_claims:
  fixes b f ris weights :: "'e::comm_ring_1 list" and lambda :: 'e and zs :: "'e list list" and n :: nat and queries :: "nat list"
  assumes w: "weighs G eval_b_at k0 levels oods ris n b" and zs: "list_all (\<lambda>z. length z = n) zs"
    and "length weights = length queries"
  defines "b' \<equiv> glue_basis lambda 1 (map build_eq_table_ext zs @ [query_basis G n queries weights]) b"
    and "new_oods \<equiv> ood_contexts (map (ood_of f) zs) (map (\<lambda>i. lambda ^ Suc i) [0..<length zs]) (length ris)"
    and "new_level \<equiv> \<lparr>lc_log_msg_cols = n, lc_queries = queries, lc_weights = weights,
      lc_ris_start = length ris, lc_beta = lambda ^ Suc (length zs)\<rparr>"
  shows "weighs G eval_b_at k0 (levels @ [new_level]) (oods @ new_oods) ris n b'"
proof -
  have oods: "new_oods = map (\<lambda>i. \<lparr>oc_z = zs ! i, oc_ris_start = length ris, oc_beta = lambda ^ Suc i\<rparr>) [0..<length zs]"
    unfolding new_oods_def ood_contexts_def by (rule nth_equalityI) (simp_all add: ood_of_def)
  let ?bs = "map build_eq_table_ext zs @ [query_basis G n queries weights]"
  have len: "list_all (\<lambda>b'. length b' = length b) ?bs" "length b = 2 ^ n"
    using w zs by (auto simp: weighs_def list_all_iff)
  have mle: "mle b' tail = mle b tail + (\<Sum>ctx\<leftarrow>new_oods. ood_value ctx (ris @ tail)) + level_value G new_level (ris @ tail)"
    if tail: "length tail = n" for tail
  proof -
    have "mle b' tail = mle b tail + (\<Sum>i<length ?bs. 1 * lambda ^ Suc i * mle (?bs ! i) tail)"
      unfolding b'_def using len tail by (intro mle_glue_basis) simp_all
    also have "(\<Sum>i<length ?bs. 1 * lambda ^ Suc i * mle (?bs ! i) tail) =
        (\<Sum>i<length zs. lambda ^ Suc i * mle (build_eq_table_ext (zs ! i)) tail) +
        lambda ^ Suc (length zs) * mle (query_basis G n queries weights) tail"
      by (simp add: nth_append)
    also have "(\<Sum>i<length zs. lambda ^ Suc i * mle (build_eq_table_ext (zs ! i)) tail) =
        (\<Sum>ctx\<leftarrow>new_oods. ood_value ctx (ris @ tail))"
      using zs tail by (simp add: oods o_def sum_list_upt ood_value_def mle_eq_table list_all_length del: power_Suc)
    finally show ?thesis by (simp add: level_value_def new_level_def add.assoc)
  qed
  have "length b' = 2 ^ n" unfolding b'_def using len by (simp add: length_glue_basis)
  then show ?thesis
    using w assms(3) zs mle unfolding weighs_def
    by (auto simp: new_level_def level_fits_def oods ood_fits_def list_all_length ac_simps)
qed

lemma terminal_accepts:
  fixes X :: "('k::comm_monoid_add, 'e::comm_ring_1, 'h, 'm, 's, 'n) pcs_externals"
  assumes two: "char_two TYPE('e)" and pcs: "pcs_lawful P X G"
    and w: "weighs G eval_b_at (wc_initial_k config) (vf_level_ctxs st) (vf_ood_ctxs st) (vf_ris st) (length tail) b"
    and f: "length f = 2 ^ length tail"
  shows "(verify_terminal X config eval_b_at st f tail (inner (fold_all f tail) (fold_all b tail)) :: ('x verify_error + unit) outcome) =
    Value (Inr ())"
proof -
  let ?point = "vf_ris st @ tail" and ?k = "wc_initial_k config"
  let ?levels = "\<Sum>ctx\<leftarrow>vf_level_ctxs st. level_value G ctx ?point" and ?oods = "\<Sum>ctx\<leftarrow>vf_ood_ctxs st. ood_value ctx ?point"
  have "(sum_weights (level_weight X (vf_ris st) tail) (vf_level_ctxs st) 0 :: ('x verify_error + 'e) outcome) = Value (Inr (0 + ?levels))"
    using w by (intro sum_weights_values level_weight_value [OF pcs]) (simp add: weighs_def)
  then have levels: "(sum_weights (level_weight X (vf_ris st) tail) (vf_level_ctxs st) 0 :: ('x verify_error + 'e) outcome) = Value (Inr ?levels)"
    by simp
  have oods: "(sum_weights (ood_weight X (vf_ris st) tail) (vf_ood_ctxs st) ?levels :: ('x verify_error + 'e) outcome) = Value (Inr (?levels + ?oods))"
    using w by (intro sum_weights_values ood_weight_value [OF two pcs]) (simp add: weighs_def)
  have b: "length b = 2 ^ length tail" "?k \<le> length ?point" using w by (simp_all add: weighs_def)
  have "mle b tail = ?levels + ?oods + eval_b_at (drop ?k ?point @ take ?k ?point)"
    using w by (simp add: weighs_def)
  moreover have "inner (fold_all f tail) (fold_all b tail) = mle f tail * mle b tail"
    using f b(1) by (simp add: fold_all_mle inner_def)
  ultimately show ?thesis
    using f b(2) levels oods by (simp add: verify_terminal_def rotate_left_def mle_eval_mle mult.commute rcheck_def)
qed

end
