(* ===== verification/Whir_Levels.thy ===== *)
theory Whir_Levels
  imports Whir_Weights
begin

text \<open>
  The levels of the recursion in lockstep: the openings of the previous commitment, the last level
  and a middle level, and the loop over them.
\<close>

section \<open>Configurations\<close>

text \<open>What the code expects of a configuration: the lengths it indexes, levels that bind at least
  one variable and together at most those there are, positive rates, and blocks of fewer than
  \<open>2 ^ 64\<close> positions.\<close>

definition config_ok :: "whir_config \<Rightarrow> nat \<Rightarrow> bool" where
  "config_ok config log_n \<longleftrightarrow>
     1 \<le> wc_initial_k config \<and> wc_initial_k config \<le> log_n \<and> 1 \<le> wc_level_steps config \<and>
     length (wc_level_ks config) = wc_level_steps config \<and>
     length (wc_log_inv_rates config) = wc_level_steps config + 1 \<and> ood_count config 0 = 0 \<and>
     wc_level_steps config < length (wc_grinding_bits config) \<and> wc_level_steps config < length (wc_queries config) \<and>
     list_all (\<lambda>k. 1 \<le> k) (wc_level_ks config) \<and> sum_list (wc_level_ks config) \<le> log_n - wc_initial_k config \<and>
     list_all (\<lambda>rate. 1 \<le> rate \<and> log_n - wc_initial_k config + rate < 64) (wc_log_inv_rates config)"

lemma config_okD:
  assumes "config_ok config log_n"
  shows "1 \<le> wc_initial_k config" "wc_initial_k config \<le> log_n" "1 \<le> wc_level_steps config"
    "length (wc_level_ks config) = wc_level_steps config"
    "length (wc_log_inv_rates config) = wc_level_steps config + 1" "ood_count config 0 = 0"
    "wc_level_steps config < length (wc_grinding_bits config)" "wc_level_steps config < length (wc_queries config)"
    "i < wc_level_steps config \<Longrightarrow> 1 \<le> wc_level_ks config ! i"
    "sum_list (wc_level_ks config) \<le> log_n - wc_initial_k config"
    "i \<le> wc_level_steps config \<Longrightarrow> 1 \<le> wc_log_inv_rates config ! i"
    "i \<le> wc_level_steps config \<Longrightarrow> log_n - wc_initial_k config + wc_log_inv_rates config ! i < 64"
  using assms by (auto simp: config_ok_def list_all_length)

section \<open>Openings\<close>

lemma open_level_lock:
  fixes R :: "('v, 'e::comm_ring_1, 'h, 'k::comm_monoid_add, 'x) receiver"
  assumes law: "transcript_lawful X T R reads" and two: "char_two TYPE('e)"
    and pcs: "pcs_lawful (P :: ('k, 'e, 'u, 'w) primitives) X G" and w: "commits X G f n k rate w"
    and "length rs = k" and d: "0 < n + rate" "n + rate < 64"
    and "i + 1 < length (wc_grinding_bits config)" and "i + 1 < length (wc_queries config)"
    and prev: "pl_root prev = last (lw_tree w)" "block_len prev = 2 ^ (n + rate)" "num_interleaved prev = 2 ^ k"
  shows "\<exists>queries lambda weights p'. open_level X T config i w p = Value (queries, lambda, weights, map (ligero_row w) queries, p') \<and>
    length weights = length queries \<and> list_all (\<lambda>q. q < 2 ^ (n + rate)) queries \<and>
    (let basis = query_basis G n queries weights
     in enforced_sum (\<lambda>x. x) (map (ligero_row w) queries) rs weights = inner (fold_all f rs) basis \<and>
       lock T reads p (send_msg T (lsb_msg (fold_all f rs) basis) (inner (fold_all f rs) basis) p')
         (verify_openings X R config i rs prev) (queries, lambda, weights, inner (fold_all f rs) basis, quad_of (fold_all f rs) basis))"
proof -
  let ?bits = "wc_grinding_bits config ! (i + 1)" and ?count = "wc_queries config ! (i + 1)"
  let ?p1 = "ps_grind T ?bits p"
  obtain queries p2 where q: "sample_queries_ordered (px_limbs X) (ps_sample T) (2 ^ (n + rate)) ?count ?p1 = Value (queries, p2)"
    "length queries = ?count" "list_all (\<lambda>q. q < 2 ^ (n + rate)) queries"
    by (rule sample_queries_total [OF d])
  obtain lambda p3 where lambda: "ps_sample T p2 = (lambda, p3)" by (cases "ps_sample T p2")
  let ?weights = "px_powers X lambda ?count" and ?rows = "map (ligero_row w) queries"
  let ?p4 = "ps_hint_merkle T (px_prune X (lw_tree w) (lw_block_len w) queries (\<lambda>q. ext_row_words X (ligero_row w q))) p3"
  let ?basis = "query_basis G n queries ?weights" and ?f = "fold_all f rs"
  have weights: "length ?weights = length queries" using pcs_powers [OF pcs] q(2) by simp
  have widths: "list_all (\<lambda>row. length row = 2 ^ length rs) ?rows"
    using q(3) length_ligero_row [OF w] assms(5) by (auto simp: list_all_iff)
  note sum = level_sum [OF w assms(5) q(3), of ?weights]
  have enforced: "px_enforced_sum_ext X ?rows rs queries ?weights = inner ?f ?basis"
    using pcs_sum_ext [OF pcs widths, of queries ?weights] weights sum by simp
  have "open_level X T config i w p = Value (queries, lambda, ?weights, ?rows, ?p4)"
    using assms(8,9) q(1) lambda w by (simp add: open_level_def index_def commits_def Let_def)
  moreover have "lock T reads p (send_msg T (lsb_msg ?f ?basis) (inner ?f ?basis) ?p4) (verify_openings X R config i rs prev)
      (queries, lambda, ?weights, inner ?f ?basis, quad_of ?f ?basis)"
    unfolding verify_openings_def Let_def prev
  proof (rule lock_pure)
    show "index (wc_grinding_bits config) (i + 1) = Value ?bits" using assms(8) by (simp add: index_def)
    show "lock T reads p (send_msg T (lsb_msg ?f ?basis) (inner ?f ?basis) ?p4) (vbind (vgrind R ?bits) (\<lambda>_.
       vbind (vlift (index (wc_queries config) (i + 1))) (\<lambda>num_queries.
       vbind (vqueries X R (2 ^ (n + rate)) num_queries) (\<lambda>queries.
       vbind (vtake (vs_sample R)) (\<lambda>lambda.
       vbind (recv_level_rows R (last (lw_tree w)) (2 ^ (n + rate)) queries (3 * 2 ^ k) (3 * 2 ^ k) (ext_row_from_words X)) (\<lambda>rows.
       vbind (recv_quad R (px_enforced_sum_ext X rows rs queries (px_powers X lambda num_queries))) (\<lambda>intro_quad.
       vret (queries, lambda, px_powers X lambda num_queries,
         px_enforced_sum_ext X rows rs queries (px_powers X lambda num_queries), intro_quad))))))))
      (queries, lambda, ?weights, inner ?f ?basis, quad_of ?f ?basis)"
    proof (rule lock_bind [OF lock_grind [OF law]], rule lock_pure)
      show "index (wc_queries config) (i + 1) = Value ?count" using assms(9) by (simp add: index_def)
    qed (rule lock_bind [OF lock_queries [OF law q(1)]], rule lock_bind [OF lock_sample [OF law lambda]],
      rule lock_bind [OF lock_ext_openings [OF law pcs w q(3)]], unfold enforced,
      rule lock_bind [OF lock_quad [OF law two, where m = "lsb_msg ?f ?basis"]], simp add: quad_of_def)
  qed
  ultimately show ?thesis using weights q(3) sum by (auto simp: Let_def)
qed

lemma batch_query:
  fixes f b :: "'e::comm_ring_1 list"
  assumes "length b = length f" and "length q = length f"
  shows "batch_level_claims lambda [] (quad_of f q) (inner f q) (inner f b) (quad_of f b) =
    ([], lambda, inner f (glue_basis lambda 1 [q] b), quad_of f (glue_basis lambda 1 [q] b))"
  using batch_level [OF assms(1) _ assms(2), of "[]" lambda] by simp

section \<open>The state between levels\<close>

definition levels_match ::
  "('k, 'e::comm_ring_1, 'h, 'm, 's, 'n) pcs_externals \<Rightarrow> 'e generator \<Rightarrow> ('e list \<Rightarrow> 'e) \<Rightarrow> whir_config \<Rightarrow> 'e list \<Rightarrow> 'e list \<Rightarrow> nat
     \<Rightarrow> ('e, 'h) verify_state \<Rightarrow> bool" where
  "levels_match X G eval_b_at config f b n st \<longleftrightarrow> length f = 2 ^ n \<and>
     vf_t_r st = inner f b \<and> vf_quad st = quad_of f b \<and> vf_n_current st = n \<and>
     weighs G eval_b_at (wc_initial_k config) (vf_level_ctxs st) (vf_ood_ctxs st) (vf_ris st) n b"

definition committed ::
  "('k, 'e::comm_ring_1, 'h, 'm, 's, 'n) pcs_externals \<Rightarrow> 'e generator \<Rightarrow> 'e list \<Rightarrow> nat \<Rightarrow> nat \<Rightarrow> ('e, 'h) ligero_witness
     \<Rightarrow> 'h prev_level \<Rightarrow> bool" where
  "committed X G f n k w prev \<longleftrightarrow> (\<exists>rate. commits X G f n k rate w \<and> 0 < n + rate \<and> n + rate < 64 \<and>
     pl_root prev = last (lw_tree w) \<and> block_len prev = 2 ^ (n + rate) \<and> num_interleaved prev = 2 ^ k)"

lemma levels_matchD:
  assumes "levels_match X G eval_b_at config f b n st"
  shows "length f = 2 ^ n" "length b = 2 ^ n" "vf_t_r st = inner f b" "vf_quad st = quad_of f b" "vf_n_current st = n"
    "weighs G eval_b_at (wc_initial_k config) (vf_level_ctxs st) (vf_ood_ctxs st) (vf_ris st) n b"
  using assms by (simp_all add: levels_match_def weighs_def)

section \<open>The last level\<close>

lemma lock_terminal: "m = Value (Inr ()) \<Longrightarrow>
    lock T reads p p (\<lambda>v. obind m (\<lambda>r. Value (map_sum (\<lambda>e. e) (\<lambda>u. (u, v)) r))) ()"
  by (auto simp: lock_def intro: transmits.intros)

lemma last_level_lock:
  fixes R :: "('v, 'e::comm_ring_1, 'h, 'k::comm_monoid_add, 'x) receiver"
  assumes P: "primitives_lawful (P :: ('k, 'e, 'u, 'w) primitives)" and law: "transcript_lawful X T R reads"
    and pcs: "pcs_lawful P X G" and match: "levels_match X G eval_b_at config f b n st"
    and f: "f = fold_all f0 rs" and com: "committed X G f0 n (length rs) w (vf_prev st)"
    and "i + 1 < length (wc_grinding_bits config)" and "i + 1 < length (wc_queries config)"
  shows "\<exists>p'. prove_last P X T config i rs (ext_state f b c []) w p = Value p' \<and>
    lock T reads p p' (verify_last X R config eval_b_at i rs st) ()"
proof -
  note two = char_two_lawful [OF P] and m = levels_matchD [OF match]
  obtain rate where w: "commits X G f0 n (length rs) rate w" and d: "0 < n + rate" "n + rate < 64"
    and prev: "pl_root (vf_prev st) = last (lw_tree w)" "block_len (vf_prev st) = 2 ^ (n + rate)"
      "num_interleaved (vf_prev st) = 2 ^ length rs"
    using com by (auto simp: committed_def)
  let ?p1 = "ps_add_scalars T f p"
  from open_level_lock [OF law two pcs w refl d assms(7,8) prev, where p = ?p1] obtain queries lambda weights p2
    where opened: "open_level X T config i w ?p1 = Value (queries, lambda, weights, map (ligero_row w) queries, p2)"
      and weights: "length weights = length queries" and q: "list_all (\<lambda>q. q < 2 ^ (n + rate)) queries"
      and sum: "enforced_sum (\<lambda>x. x) (map (ligero_row w) queries) rs weights = inner f (query_basis G n queries weights)"
      and lock: "lock T reads ?p1 (send_msg T (lsb_msg f (query_basis G n queries weights)) (inner f (query_basis G n queries weights)) p2)
        (verify_openings X R config i rs (vf_prev st))
        (queries, lambda, weights, inner f (query_basis G n queries weights), quad_of f (query_basis G n queries weights))"
    unfolding f Let_def by blast
  let ?q = "query_basis G n queries weights"
  let ?b = "glue_basis lambda 1 [?q] b" and ?p3 = "send_msg T (lsb_msg f ?q) (inner f ?q) p2"
  let ?st = "st\<lparr>vf_level_ctxs := vf_level_ctxs st @ [\<lparr>lc_log_msg_cols = n, lc_queries = queries,
    lc_weights = weights, lc_ris_start = length (vf_ris st), lc_beta = lambda\<rparr>]\<rparr>"
  have len: "length ?q = length f" "length b = length f" "length ?b = 2 ^ n"
    using m(1,2) by (simp_all add: length_glue_basis)
  have n: "n < 64" using d by simp
  have widths: "list_all (\<lambda>row. length row = 2 ^ length rs) (map (ligero_row w) queries)"
    using q length_ligero_row [OF w] by (auto simp: list_all_iff)
  have enforced: "px_enforced_sum_ext X (map (ligero_row w) queries) rs queries weights = inner f ?q"
    using pcs_sum_ext [OF pcs widths, of queries weights] weights sum by simp
  have residual: "px_residual X n (px_eval_sk_at_vks X n) queries weights [] n = ?q"
    using pcs_residual [OF pcs, of "[]" n n weights queries] weights by simp
  have intro: "introduce_new P (ext_state f b c []) ?q (inner f ?q) = Value (ext_state f b c [claim_of f ?q], lsb_msg f ?q)"
    using introduce_new_ext [OF P len(1), of b c "[]"] by simp
  have glue: "glue_pending lambda (ext_state f b c [claim_of f ?q] :: ('k, 'e) sumcheck_prover) = Value (ext_state f ?b c [])"
    using glue_pending_ext [of "[?q]" b f lambda c] len by simp
  from residual_folds_lock [OF P law m(1) len(3), where c = c and pending = "[]" and p = ?p3 and tail = "[]"]
  obtain tail p' where tail: "length tail = n"
    and folds: "residual_folds P T n (ext_state f ?b c []) ?p3 =
      Value (ext_state (fold_all f tail) (fold_all ?b tail) (c + n) [], p')"
    and replay: "lock T reads ?p3 p' (replay_tail R n (inner f ?b) (quad_of f ?b) [])
      ([] @ tail, inner (fold_all f tail) (fold_all ?b tail))"
    by blast
  have "prove_last P X T config i rs (ext_state f b c []) w p = Value p'"
    using m(1) by (simp add: prove_last_def opened enforced trailing_zeros_power [OF n] residual intro glue folds Let_def
        del: residual_folds.simps glue_basis.simps)
  moreover have left: "vf_n_current ?st = n" using m(5) by simp
  have "lock T reads p p' (verify_last X R config eval_b_at i rs st) ()"
    unfolding verify_last_def m(3-5)
  proof (rule lock_bind [OF lock_scalars [OF law m(1)]], rule lock_bind [OF lock], simp only: prod.case batch_query [OF len(2,1)] Let_def left,
      rule lock_bind [OF replay], simp only: prod.case append_Nil, rule lock_terminal)
    have "weighs G eval_b_at (wc_initial_k config) (vf_level_ctxs ?st) (vf_ood_ctxs ?st) (vf_ris ?st) n ?b"
      using weighs_claims [OF m(6), of "[]" weights queries lambda f] weights by (simp add: ood_contexts_def)
    then show "verify_terminal X config eval_b_at ?st f tail (inner (fold_all f tail) (fold_all ?b tail)) = Value (Inr ())"
      using m(1) tail by (intro terminal_accepts [OF two pcs]) simp_all
  qed
  ultimately show ?thesis by blast
qed

section \<open>Claims of a level\<close>

text \<open>The out-of-domain claims and the claim of the openings, batched: the new basis and contexts.\<close>

lemma glued_match:
  fixes f b weights :: "'e::comm_ring_1 list" and zs :: "'e list list" and n :: nat and queries :: "nat list" and lambda :: 'e
  assumes match: "levels_match X G eval_b_at config f b n st" and zs: "list_all (\<lambda>z. length z = n) zs"
    and "length weights = length queries"
  defines "q \<equiv> query_basis G n queries weights"
  defines "b' \<equiv> glue_basis lambda 1 (map build_eq_table_ext zs @ [q]) b"
  shows "glue_pending lambda (ext_state f b c (map (claim_of f) (map build_eq_table_ext zs) @ [claim_of f q]) :: ('k, 'e) sumcheck_prover) =
      Value (ext_state f b' c [])"
    and "batch_level_claims lambda (map (ood_of f) zs) (quad_of f q) (inner f q) (inner f b) (quad_of f b) =
      (map (\<lambda>i. lambda ^ Suc i) [0..<length zs], lambda ^ Suc (length zs), inner f b', quad_of f b')"
    and "levels_match X G eval_b_at config f b' n (st\<lparr>vf_t_r := inner f b', vf_quad := quad_of f b', vf_prev := prev,
        vf_level_ctxs := vf_level_ctxs st @ [\<lparr>lc_log_msg_cols = n, lc_queries = queries, lc_weights = weights,
          lc_ris_start = length (vf_ris st), lc_beta = lambda ^ Suc (length zs)\<rparr>],
        vf_ood_ctxs := vf_ood_ctxs st @ ood_contexts (map (ood_of f) zs) (map (\<lambda>i. lambda ^ Suc i) [0..<length zs]) (length (vf_ris st))\<rparr>)"
proof -
  note m = levels_matchD [OF match]
  have len: "length b = length f" "length q = length f" "list_all (\<lambda>z. 2 ^ length z = length f) zs"
    using m(1,2) zs by (auto simp: q_def list_all_iff)
  have bs: "list_all (\<lambda>b'. length b' = length f) (map build_eq_table_ext zs @ [q])"
    using len by (auto simp: list_all_iff)
  show "glue_pending lambda (ext_state f b c (map (claim_of f) (map build_eq_table_ext zs) @ [claim_of f q]) :: ('k, 'e) sumcheck_prover) =
      Value (ext_state f b' c [])"
    using glue_pending_ext [OF _ len(1) bs, of lambda c] by (simp add: b'_def)
  show "batch_level_claims lambda (map (ood_of f) zs) (quad_of f q) (inner f q) (inner f b) (quad_of f b) =
      (map (\<lambda>i. lambda ^ Suc i) [0..<length zs], lambda ^ Suc (length zs), inner f b', quad_of f b')"
    unfolding b'_def by (rule batch_level [OF len(1,3,2)])
  show "levels_match X G eval_b_at config f b' n (st\<lparr>vf_t_r := inner f b', vf_quad := quad_of f b', vf_prev := prev,
        vf_level_ctxs := vf_level_ctxs st @ [\<lparr>lc_log_msg_cols = n, lc_queries = queries, lc_weights = weights,
          lc_ris_start = length (vf_ris st), lc_beta = lambda ^ Suc (length zs)\<rparr>],
        vf_ood_ctxs := vf_ood_ctxs st @ ood_contexts (map (ood_of f) zs) (map (\<lambda>i. lambda ^ Suc i) [0..<length zs]) (length (vf_ris st))\<rparr>)"
    using weighs_claims [OF m(6) zs assms(3), of lambda f] m(1,5) by (simp add: levels_match_def b'_def q_def)
qed

section \<open>A middle level\<close>

lemma middle_level_lock:
  fixes R :: "('v, 'e::comm_ring_1, 'h, 'k::comm_monoid_add, 'x) receiver"
  assumes P: "primitives_lawful (P :: ('k, 'e, 'u, 'w) primitives)" and law: "transcript_lawful X T R reads"
    and pcs: "pcs_lawful P X G" and match: "levels_match X G eval_b_at config f b n st"
    and f: "f = fold_all f0 rs" and com: "committed X G f0 n (length rs) w (vf_prev st)"
    and "i + 1 < length (wc_grinding_bits config)" and "i + 1 < length (wc_queries config)"
    and k: "i + 1 < length (wc_level_ks config)" "wc_level_ks config ! (i + 1) = k_next" "1 \<le> k_next" "k_next \<le> n"
    and rate: "i + 2 < length (wc_log_inv_rates config)" "wc_log_inv_rates config ! (i + 2) = rate" "1 \<le> rate" "n + rate < 64"
  shows "\<exists>b' w' p' st'. prove_middle P X T config i rs (ext_state f b c []) w p = Value (ext_state f b' c [], w', p') \<and>
    lock T reads p p' (verify_middle X R config i rs st) st' \<and>
    levels_match X G eval_b_at config f b' n st' \<and> committed X G f (n - k_next) k_next w' (vf_prev st')"
proof -
  note two = char_two_lawful [OF P] and m = levels_matchD [OF match]
  obtain rate0 where w: "commits X G f0 n (length rs) rate0 w" and d: "0 < n + rate0" "n + rate0 < 64"
    and prev: "pl_root (vf_prev st) = last (lw_tree w)" "block_len (vf_prev st) = 2 ^ (n + rate0)"
      "num_interleaved (vf_prev st) = 2 ^ length rs"
    using com by (auto simp: committed_def)
  have n: "n < 64" "Suc (n - 1) = n" "n - k_next + k_next = n" using d(2) k(3,4) by simp_all
  have split: "length f = 2 ^ (n - k_next + k_next)" by (simp add: m(1) n(3))
  obtain w' where commit: "ligero_commit_ext P X f (n - k_next) k_next rate (px_ntt_standard X (n - k_next + rate)) = Value w'"
    and w': "commits X G f (n - k_next) k_next rate w'" and root: "ligero_root w' = Value (last (lw_tree w'))"
    by (rule ligero_commit [OF P pcs split])
  let ?p1 = "ps_add_root T (last (lw_tree w')) p" and ?count = "ood_count config (i + 2)"
  have f_len: "length f = 2 ^ Suc (n - 1)" using m(1) n(2) by simp
  from send_ood_lock [OF P law pcs_eq_table [OF pcs] f_len, where count = ?count and b = b and c = c and pending = "[]" and p = ?p1]
  obtain zs p2 where zs: "length zs = ?count" "list_all (\<lambda>z. length z = n) zs"
    and oods: "send_ood P X T n ?count (ext_state f b c []) ?p1 = Value (ext_state f b c (map (claim_of f) (map build_eq_table_ext zs)), p2)"
    and oods_lock: "lock T reads ?p1 p2 (replay_oods R n ?count) (map (ood_of f) zs)"
    unfolding n(2) append_Nil by blast
  from open_level_lock [OF law two pcs w refl d assms(7,8) prev, where p = p2] obtain queries lambda weights p3
    where opened: "open_level X T config i w p2 = Value (queries, lambda, weights, map (ligero_row w) queries, p3)"
      and weights: "length weights = length queries" and q: "list_all (\<lambda>q. q < 2 ^ (n + rate0)) queries"
      and sum: "enforced_sum (\<lambda>x. x) (map (ligero_row w) queries) rs weights = inner f (query_basis G n queries weights)"
      and lock: "lock T reads p2 (send_msg T (lsb_msg f (query_basis G n queries weights)) (inner f (query_basis G n queries weights)) p3)
        (verify_openings X R config i rs (vf_prev st))
        (queries, lambda, weights, inner f (query_basis G n queries weights), quad_of f (query_basis G n queries weights))"
    unfolding f Let_def by blast
  let ?q = "query_basis G n queries weights" and ?tabs = "map (claim_of f) (map build_eq_table_ext zs)"
  let ?b = "glue_basis lambda 1 (map build_eq_table_ext zs @ [?q]) b" and ?p' = "send_msg T (lsb_msg f ?q) (inner f ?q) p3"
  let ?prev = "\<lparr>pl_root = last (lw_tree w'), pl_log_num_interleaved = k_next, pl_log_msg_cols = n - k_next, pl_log_inv_rate = rate\<rparr>"
  let ?st = "st\<lparr>vf_t_r := inner f ?b, vf_quad := quad_of f ?b, vf_prev := ?prev,
    vf_level_ctxs := vf_level_ctxs st @ [\<lparr>lc_log_msg_cols = n, lc_queries = queries, lc_weights = weights,
      lc_ris_start = length (vf_ris st), lc_beta = lambda ^ Suc (length zs)\<rparr>],
    vf_ood_ctxs := vf_ood_ctxs st @ ood_contexts (map (ood_of f) zs) (map (\<lambda>i. lambda ^ Suc i) [0..<length zs]) (length (vf_ris st))\<rparr>"
  note glued = glued_match [OF match zs(2) weights]
  have glue: "glue_pending lambda (ext_state f b c (?tabs @ [claim_of f ?q]) :: ('k, 'e) sumcheck_prover) = Value (ext_state f ?b c [])"
    by (rule glued(1))
  have widths: "list_all (\<lambda>row. length row = 2 ^ length rs) (map (ligero_row w) queries)"
    using q length_ligero_row [OF w] by (auto simp: list_all_iff)
  have induce: "px_induce_poly X n (px_eval_sk_at_vks X n) (map (ligero_row w) queries) rs queries weights = (?q, inner f ?q)"
    using pcs_induce_ext [OF pcs widths, of queries weights n] weights sum by simp
  have intro: "introduce_new P (ext_state f b c ?tabs) ?q (inner f ?q) = Value (ext_state f b c (?tabs @ [claim_of f ?q]), lsb_msg f ?q)"
    using m(1) by (intro introduce_new_ext [OF P]) simp
  have "prove_middle P X T config i rs (ext_state f b c []) w p = Value (ext_state f ?b c [], w', ?p')"
    using m(1) k rate commit root oods opened induce intro glue
    by (simp add: prove_middle_def trailing_zeros_power [OF n(1)] index_def Let_def
        del: send_ood.simps glue_basis.simps map_map)
  moreover have "lock T reads p ?p' (verify_middle X R config i rs st) ?st"
    unfolding verify_middle_def m(3-5)
  proof (rule lock_bind [OF lock_root [OF law]], rule lock_bind [OF oods_lock], rule lock_bind [OF lock],
      simp only: prod.case glued(2) Let_def, rule lock_pure)
    show "index (wc_level_ks config) (i + 1) = Value k_next" using k by (simp add: index_def)
  next
    show "lock T reads ?p' ?p' (vbind (vlift (index (wc_log_inv_rates config) (i + 2))) (\<lambda>log_inv_rate.
        case advance (last (lw_tree w')) k_next n log_inv_rate of None \<Rightarrow> vfail InvalidShape
        | Some prev \<Rightarrow> vret (st\<lparr>vf_t_r := inner f ?b, vf_quad := quad_of f ?b, vf_prev := prev,
            vf_level_ctxs := vf_level_ctxs st @ [\<lparr>lc_log_msg_cols = n, lc_queries = queries, lc_weights = weights,
              lc_ris_start = length (vf_ris st), lc_beta = lambda ^ Suc (length zs)\<rparr>],
            vf_ood_ctxs := vf_ood_ctxs st @ ood_contexts (map (ood_of f) zs) (map (\<lambda>i. lambda ^ Suc i) [0..<length zs]) (length (vf_ris st))\<rparr>))) ?st"
      using k(4) rate(1,2) by (intro lock_pure [where a = rate]) (simp_all add: index_def advance_def)
  qed
  moreover have "committed X G f (n - k_next) k_next w' (vf_prev ?st)"
    using w' rate(3,4) by (auto simp: committed_def block_len_def num_interleaved_def)
  ultimately show ?thesis using glued(3) [of lambda ?prev] by blast
qed

end
