(* ===== verification/Whir_Complete.thy ===== *)
theory Whir_Complete
  imports Whir_Levels
begin

text \<open>
  Completeness of the polynomial commitment: the loop over the levels, level 0, and the theorem that
  the verifier accepts what the prover writes.
\<close>

section \<open>The loop over the levels\<close>

lemma sum_drop: "i < length ks \<Longrightarrow> sum_list (drop i ks) = ks ! i + sum_list (drop (i + 1) ks)" for ks :: "nat list"
  by (simp add: Cons_nth_drop_Suc [symmetric])

lemma folds_lock:
  fixes R :: "('v, 'e::comm_ring_1, 'h, 'k::comm_monoid_add, 'x) receiver"
  assumes P: "primitives_lawful (P :: ('k, 'e, 'u, 'w) primitives)" and law: "transcript_lawful X T R reads"
    and "i < length (wc_level_ks config)" and "wc_level_ks config ! i = k" and "k \<le> n"
    and match: "levels_match X G eval_b_at config f b n st"
  shows "\<exists>rs p' st'. length rs = k \<and>
    level_folds P T k (ext_state f b c []) [] p = Value (ext_state (fold_all f rs) (fold_all b rs) (c + k) [], rs, p') \<and>
    lock T reads p p' (verify_folds R config i st) (rs, st') \<and> vf_prev st' = vf_prev st \<and>
    levels_match X G eval_b_at config (fold_all f rs) (fold_all b rs) (n - k) st'"
proof -
  note m = levels_matchD [OF match]
  have n: "n = k + (n - k)" using assms(5) by simp
  have len: "length f = 2 ^ (k + (n - k))" "length b = 2 ^ (k + (n - k))"
    using m(1,2) n by simp_all
  from level_folds_lock [OF P law len, where c = c and pending = "[]" and ?rs0.0 = "[]" and p = p] obtain rs p'
    where rs: "length rs = k"
      and folds: "level_folds P T k (ext_state f b c []) [] p = Value (ext_state (fold_all f rs) (fold_all b rs) (c + k) [], rs, p')"
      and replay: "lock T reads p p' (replay_rounds R k (inner f b) (quad_of f b) [])
        (rs, inner (fold_all f rs) (fold_all b rs), quad_of (fold_all f rs) (fold_all b rs))"
    unfolding append_Nil by blast
  let ?st = "st\<lparr>vf_t_r := inner (fold_all f rs) (fold_all b rs), vf_quad := quad_of (fold_all f rs) (fold_all b rs),
    vf_ris := vf_ris st @ rs, vf_n_current := n - k\<rparr>"
  have "lock T reads p p' (verify_folds R config i st) (rs, ?st)"
    unfolding verify_folds_def replay_fold_rounds_def m(3-5)
  proof (rule lock_pure [where a = k], goal_cases)
    case 1 show ?case using assms(3,4) by (simp add: index_def)
  next
    case 2 show ?case
      using assms(5) by (intro lock_check lock_bind [OF replay]) simp_all
  qed
  moreover have "weighs G eval_b_at (wc_initial_k config) (vf_level_ctxs st) (vf_ood_ctxs st) (vf_ris st @ rs) (n - k) (fold_all b rs)"
    using m(6) n by (intro weighs_fold [OF _ rs]) simp
  then have "levels_match X G eval_b_at config (fold_all f rs) (fold_all b rs) (n - k) ?st"
    using len(1) rs by (simp add: levels_match_def length_fold_all power_add)
  ultimately show ?thesis using rs folds by (intro exI [of _ rs] exI [of _ p'] exI [of _ ?st]) simp
qed

lemma levels_lock:
  fixes R :: "('v, 'e::comm_ring_1, 'h, 'k::comm_monoid_add, 'x) receiver"
  assumes P: "primitives_lawful (P :: ('k, 'e, 'u, 'w) primitives)" and law: "transcript_lawful X T R reads"
    and pcs: "pcs_lawful P X G" and ok: "config_ok config log_n"
  shows "i + Suc left = wc_level_steps config \<Longrightarrow> n \<le> log_n - wc_initial_k config \<Longrightarrow>
    sum_list (drop i (wc_level_ks config)) \<le> n \<Longrightarrow> levels_match X G eval_b_at config f b n st \<Longrightarrow>
    committed X G f (n - wc_level_ks config ! i) (wc_level_ks config ! i) w (vf_prev st) \<Longrightarrow>
    \<exists>p'. prove_levels P X T config i (Suc left) (ext_state f b c []) w p = Value p' \<and>
      lock T reads p p' (verify_levels X R config eval_b_at i (Suc left) st) ()"
proof (induction left arbitrary: i n f b c st w p)
  case 0
  note c = config_okD [OF ok]
  let ?k = "wc_level_ks config ! i"
  have i: "i < length (wc_level_ks config)" "i + 1 < length (wc_grinding_bits config)" "i + 1 < length (wc_queries config)"
    using 0 c(4,7,8) by simp_all
  have k: "?k \<le> n" using 0(3) by (simp add: sum_drop [OF i(1)])
  from folds_lock [OF P law i(1) refl k 0(4), where c = c and p = p] obtain rs p1 st1 where rs: "length rs = ?k"
    and folds: "level_folds P T ?k (ext_state f b c []) [] p = Value (ext_state (fold_all f rs) (fold_all b rs) (c + ?k) [], rs, p1)"
    and lock: "lock T reads p p1 (verify_folds R config i st) (rs, st1)" and prev: "vf_prev st1 = vf_prev st"
    and match: "levels_match X G eval_b_at config (fold_all f rs) (fold_all b rs) (n - ?k) st1"
    by blast
  have com: "committed X G f (n - ?k) (length rs) w (vf_prev st1)" using 0(5) by (simp add: rs prev)
  from last_level_lock [OF P law pcs match refl com i(2,3), where c = "c + ?k" and p = p1] obtain p'
    where fin: "prove_last P X T config i rs (ext_state (fold_all f rs) (fold_all b rs) (c + ?k) []) w p1 = Value p'"
      "lock T reads p1 p' (verify_last X R config eval_b_at i rs st1) ()"
    by blast
  have "prove_levels P X T config i (Suc 0) (ext_state f b c []) w p = Value p'"
    using i(1) by (simp add: index_def folds fin(1))
  moreover have "lock T reads p p' (verify_levels X R config eval_b_at i (Suc 0) st) ()"
    unfolding verify_levels.simps(2) by (rule lock_bind [OF lock]) (simp add: fin(2))
  ultimately show ?case by blast
next
  case (Suc left)
  note c = config_okD [OF ok]
  let ?k = "wc_level_ks config ! i" and ?k' = "wc_level_ks config ! (i + 1)" and ?rate = "wc_log_inv_rates config ! (i + 2)"
  have i: "i < length (wc_level_ks config)" "i + 1 < length (wc_grinding_bits config)" "i + 1 < length (wc_queries config)"
    "i + 1 < length (wc_level_ks config)" "i + 2 < length (wc_log_inv_rates config)"
    using Suc.prems(1) c(4,5,7,8) by simp_all
  have k: "?k \<le> n" and rest: "sum_list (drop (i + 1) (wc_level_ks config)) \<le> n - ?k" and k': "?k' \<le> n - ?k"
    using Suc.prems(3) sum_drop [OF i(1)] sum_drop [OF i(4)] by linarith+
  have pos: "1 \<le> ?k'" "1 \<le> ?rate" "log_n - wc_initial_k config + ?rate < 64"
    using i(4,5) c(4,5) c(9) [of "i + 1"] c(11,12) [of "i + 2"] by linarith+
  have bound: "n - ?k + ?rate < 64" using pos(3) Suc.prems(2) by simp
  from folds_lock [OF P law i(1) refl k Suc.prems(4), where c = c and p = p] obtain rs p1 st1 where rs: "length rs = ?k"
    and folds: "level_folds P T ?k (ext_state f b c []) [] p = Value (ext_state (fold_all f rs) (fold_all b rs) (c + ?k) [], rs, p1)"
    and lock: "lock T reads p p1 (verify_folds R config i st) (rs, st1)" and prev: "vf_prev st1 = vf_prev st"
    and match: "levels_match X G eval_b_at config (fold_all f rs) (fold_all b rs) (n - ?k) st1"
    by blast
  have com: "committed X G f (n - ?k) (length rs) w (vf_prev st1)" using Suc.prems(5) by (simp add: rs prev)
  from middle_level_lock [OF P law pcs match refl com i(2,3,4) refl pos(1) k' i(5) refl pos(2) bound, where c = "c + ?k" and p = p1]
  obtain b' w' p2 st2 where
    mid: "prove_middle P X T config i rs (ext_state (fold_all f rs) (fold_all b rs) (c + ?k) []) w p1 =
      Value (ext_state (fold_all f rs) b' (c + ?k) [], w', p2)"
    and mid_lock: "lock T reads p1 p2 (verify_middle X R config i rs st1) st2"
    and match2: "levels_match X G eval_b_at config (fold_all f rs) b' (n - ?k) st2"
    and com2: "committed X G (fold_all f rs) (n - ?k - ?k') ?k' w' (vf_prev st2)"
    by blast
  have "i + 1 + Suc left = wc_level_steps config" "n - ?k \<le> log_n - wc_initial_k config"
    using Suc.prems(1,2) by simp_all
  from Suc.IH [OF this rest match2 com2, where c = "c + ?k" and p = p2] obtain p' where
    tail: "prove_levels P X T config (i + 1) (Suc left) (ext_state (fold_all f rs) b' (c + ?k) []) w' p2 = Value p'"
    "lock T reads p2 p' (verify_levels X R config eval_b_at (i + 1) (Suc left) st2) ()"
    by blast
  have "prove_levels P X T config i (Suc (Suc left)) (ext_state f b c []) w p = Value p'"
    using i(1) tail(1) by (subst prove_levels.simps(2)) (simp add: index_def folds mid del: prove_levels.simps)
  moreover have "lock T reads p p' (verify_levels X R config eval_b_at i (Suc (Suc left)) st) ()"
  proof (subst verify_levels.simps(2), rule lock_bind [OF lock])
    have "lock T reads p1 p' (vbind (verify_middle X R config i rs st1) (\<lambda>st. verify_levels X R config eval_b_at (i + 1) (Suc left) st)) ()"
      by (rule lock_bind [OF mid_lock], rule tail(2))
    then show "lock T reads p1 p' (case (rs, st1) of (level_rs, st) \<Rightarrow>
        if Suc left = 0 then verify_last X R config eval_b_at i level_rs st
        else vbind (verify_middle X R config i level_rs st) (\<lambda>st. verify_levels X R config eval_b_at (i + 1) (Suc left) st)) ()"
      by (simp only: prod.case nat.distinct if_False)
  qed
  ultimately show ?case by blast
qed

section \<open>Level 0\<close>

lemma lock_base_openings:
  fixes R :: "('v, 'e::comm_ring_1, 'h, 'k::comm_monoid_add, 'x) receiver"
  assumes law: "transcript_lawful X T R reads" and "length cw = positions * lanes" and "lanes \<le> width"
    and tree: "tree = px_merkle_tree_padded_rows X cw positions lanes width" "tree \<noteq> []"
    and q: "list_all (\<lambda>q. q < positions) queries"
  shows "lock T reads p (ps_hint_merkle T (px_prune X tree positions queries (l0_row cw lanes)) p)
    (recv_level_rows R (last tree) positions queries lanes width l0_row_ascending) (map (l0_fold_row cw lanes width) queries)"
  unfolding recv_level_rows_def
proof (rule lock_bind)
  let ?row = "\<lambda>q. replicate (width - lanes) 0 @ window cw (q * lanes) lanes"
  show "lock T reads p (ps_hint_merkle T (px_prune X tree positions queries (l0_row cw lanes)) p)
      (vread (vs_next_merkle_batch R (last tree) positions queries lanes width)) (map ?row queries)"
    using assms by (intro lock_base_rows [OF law]) (auto simp: base_openings_def l0_row_def [abs_def])
  have "decode_rows l0_row_ascending (map ?row queries) = Value (map (l0_fold_row cw lanes width) queries)"
  proof (rule decode_rows_map)
    fix y assume "y \<in> set queries"
    then have "y < positions" using q by (simp add: list_all_iff)
    from row_inside [OF this, of lanes] assms(2,3)
    show "l0_row_ascending (?row y) = Value (l0_fold_row cw lanes width y)"
      by (simp add: l0_row_ascending_def l0_fold_row_eq)
  qed
  then show "lock T reads (ps_hint_merkle T (px_prune X tree positions queries (l0_row cw lanes)) p)
      (ps_hint_merkle T (px_prune X tree positions queries (l0_row cw lanes)) p)
      (vlift (decode_rows l0_row_ascending (map ?row queries))) (map (l0_fold_row cw lanes width) queries)"
    by simp
qed

text \<open>The basis after the lane rounds, against the caller's weight: the lanes are the top
  variables of the witness, and absent lanes weigh nothing.\<close>

lemma mle_lanes:
  assumes "0 < lanes" and "length b = lanes * 2 ^ n" and "lanes \<le> 2 ^ length rs" and "length tail = n"
  shows "mle (lane_folds (2 ^ n) rs b) tail = mle (b @ replicate (2 ^ (n + length rs) - length b) 0) (tail @ rs)"
proof -
  let ?B = "lane_folds (2 ^ n) rs b" and ?k = "2 ^ length rs :: nat"
  let ?pad = "b @ replicate (2 ^ (n + length rs) - length b) 0"
  have dvd: "2 ^ n dvd length b" unfolding assms(2) by simp
  have len: "length ?B = 2 ^ n"
    using length_lane_folds [OF _ dvd, of rs, unfolded assms(2)] div_ceil_final [OF assms(3,1)] by simp
  have B: "?B ! x = (\<Sum>l<?k. eq_weight rs l * at0 b (l * 2 ^ n + x))" if "x < 2 ^ n" for x
    using at0_lane_folds [OF _ dvd that, of rs 0] len that by (simp add: at0_def [of ?B])
  have "length b \<le> 2 ^ (n + length rs)"
    using assms(2,3) by (simp add: power_add)
  then have pad: "?pad ! i = at0 b i" if "i < 2 ^ (n + length rs)" for i
    using that by (auto simp: nth_append at0_def)
  have "mle ?B tail = (\<Sum>x<2 ^ n. \<Sum>l<?k. eq_weight tail x * eq_weight rs l * at0 b (l * 2 ^ n + x))"
    using assms(4) by (simp add: mle_def B sum_distrib_left mult.assoc)
  also have "\<dots> = (\<Sum>l<?k. \<Sum>x<2 ^ n. eq_weight tail x * eq_weight rs l * at0 b (l * 2 ^ n + x))"
    by (rule sum.swap)
  also have "\<dots> = (\<Sum>l<?k. \<Sum>x<2 ^ n. eq_weight (tail @ rs) (l * 2 ^ n + x) * ?pad ! (l * 2 ^ n + x))"
  proof (intro sum.cong refl)
    fix l x :: nat assume "l \<in> {..<?k}" "x \<in> {..<2 ^ n}"
    then have l: "l < ?k" and x: "x < 2 ^ n" by simp_all
    have "l * 2 ^ n + x < ?k * 2 ^ n" using row_inside [OF l, of "2 ^ n"] x by linarith
    then have "l * 2 ^ n + x < 2 ^ (n + length rs)" by (simp add: power_add mult.commute)
    moreover have "eq_weight (tail @ rs) (l * 2 ^ n + x) = eq_weight tail x * eq_weight rs l"
      using eq_weight_append [of x tail rs l] x assms(4) by (simp add: add.commute mult.commute)
    ultimately show "eq_weight tail x * eq_weight rs l * at0 b (l * 2 ^ n + x) =
        eq_weight (tail @ rs) (l * 2 ^ n + x) * ?pad ! (l * 2 ^ n + x)"
      by (simp add: pad)
  qed
  also have "\<dots> = (\<Sum>i<?k * 2 ^ n. eq_weight (tail @ rs) i * ?pad ! i)"
    by (rule sum_blocks [symmetric])
  also have "?k * 2 ^ n = (2 :: nat) ^ length (tail @ rs)" using assms(4) by (simp add: power_add mult.commute)
  finally show ?thesis by (simp only: mle_def)
qed

lemma lanes_weigh:
  assumes "0 < lanes" and "length b = lanes * 2 ^ n" and "lanes \<le> 2 ^ length rs"
    and "\<And>point. length point = n + length rs \<Longrightarrow>
      eval_b_at point = mle (b @ replicate (2 ^ (n + length rs) - length b) 0) point"
  shows "weighs G eval_b_at (length rs) [] [] rs n (lane_folds (2 ^ n) rs b)"
proof -
  have dvd: "2 ^ n dvd length b" unfolding assms(2) by simp
  have "length (lane_folds (2 ^ n) rs b) = 2 ^ n"
    using length_lane_folds [OF _ dvd, of rs, unfolded assms(2)] div_ceil_final [OF assms(3,1)] by simp
  then show ?thesis
    using mle_lanes [OF assms(1-3)] assms(4) by (simp add: weighs_def)
qed

text \<open>After the lane rounds: the commitment of the folded witness, its claims, and the openings of
  the initial commitment.\<close>

lemma level0_lock:
  fixes R :: "('v, 'e::comm_ring_1, 'h, 'k::comm_monoid_add, 'x) receiver" and rs :: "'e list"
  assumes P: "primitives_lawful (P :: ('k, 'e, 'u, 'w) primitives)" and law: "transcript_lawful X T R reads"
    and pcs: "pcs_lawful P X G" and ok: "config_ok config log_n"
    and n1: "n1 = log_n - wc_initial_k config" and rs: "length rs = wc_initial_k config"
    and cw: "encodes (pr_from P) G witness n1 lanes (wc_log_inv_rates config ! 0) cw" and lanes: "0 < lanes" "lanes \<le> 2 ^ length rs"
    and tree: "tree = px_merkle_tree_padded_rows X cw (2 ^ (n1 + wc_log_inv_rates config ! 0)) lanes (2 ^ length rs)" "tree \<noteq> []"
    and f: "f = lane_folds (2 ^ n1) rs (map (pr_from P) witness)" and f_len: "length f = 2 ^ n1"
    and w: "weighs G eval_b_at (length rs) [] [] rs n1 b"
    and start: "lock T reads p0 pa (recv_quad R target) quad0"
    and rounds: "lock T reads pa p (replay_fold_rounds R (wc_initial_k config) target quad0) (rs, inner f b, quad_of f b)"
  shows "\<exists>b' w' p' st. prove_level0 P X T config n1 (2 ^ (n1 + wc_log_inv_rates config ! 0)) lanes cw tree (ext_state f b c []) rs p =
      Value (ext_state f b' c [], w', p') \<and>
    lock T reads p0 p' (verify_level0 X R config log_n lanes target (last tree)) st \<and>
    levels_match X G eval_b_at config f b' n1 st \<and>
    committed X G f (n1 - wc_level_ks config ! 0) (wc_level_ks config ! 0) w' (vf_prev st)"
proof -
  note two = char_two_lawful [OF P] and c = config_okD [OF ok]
  let ?initial_rate = "wc_log_inv_rates config ! 0" and ?rate = "wc_log_inv_rates config ! 1" and ?k = "wc_level_ks config ! 0"
  let ?bits = "wc_grinding_bits config ! 0" and ?nq = "wc_queries config ! 0" and ?count = "ood_count config 1"
  have "0 < length (wc_log_inv_rates config)" "1 < length (wc_log_inv_rates config)" "0 < length (wc_level_ks config)"
    "0 < length (wc_grinding_bits config)" "0 < length (wc_queries config)"
    using c(3-5,7,8) by linarith+
  then have idx: "index (wc_log_inv_rates config) 0 = Value ?initial_rate" "index (wc_log_inv_rates config) 1 = Value ?rate"
    "index (wc_level_ks config) 0 = Value ?k" "index (wc_grinding_bits config) 0 = Value ?bits" "index (wc_queries config) 0 = Value ?nq"
    by (simp_all only: index_def if_True)
  have "sum_list (wc_level_ks config) = ?k + sum_list (drop (0 + 1) (wc_level_ks config))"
    using sum_drop [of 0 "wc_level_ks config"] c(3,4) by simp
  then have k: "1 \<le> ?k" "?k \<le> n1" using c(9) [of 0] c(3,10) n1 by linarith+
  have rates: "1 \<le> ?initial_rate" "n1 + ?initial_rate < 64" "1 \<le> ?rate" "n1 + ?rate < 64"
    using c(11) [of 0] c(12) [of 0] c(11) [of 1] c(12) [of 1] c(3) n1 by linarith+
  have d: "0 < n1 + ?initial_rate" using rates by simp
  have suc: "Suc (n1 - 1) = n1" using k by simp
  have split: "length f = 2 ^ (n1 - ?k + ?k)" using f_len k by simp
  obtain w' where commit: "ligero_commit_ext P X f (n1 - ?k) ?k ?rate (px_ntt_standard X (n1 - ?k + ?rate)) = Value w'"
    and w': "commits X G f (n1 - ?k) ?k ?rate w'" and root: "ligero_root w' = Value (last (lw_tree w'))"
    by (rule ligero_commit [OF P pcs split])
  let ?p1 = "ps_add_root T (last (lw_tree w')) p"
  have f_suc: "length f = 2 ^ Suc (n1 - 1)" using f_len suc by simp
  from send_ood_lock [OF P law pcs_eq_table [OF pcs] f_suc, where count = ?count and b = b and c = c and pending = "[]" and p = ?p1]
  obtain zs p2 where zs: "length zs = ?count" "list_all (\<lambda>z. length z = n1) zs"
    and oods: "send_ood P X T n1 ?count (ext_state f b c []) ?p1 = Value (ext_state f b c (map (claim_of f) (map build_eq_table_ext zs)), p2)"
    and oods_lock: "lock T reads ?p1 p2 (replay_oods R n1 ?count) (map (ood_of f) zs)"
    unfolding suc append_Nil by blast
  let ?p3 = "ps_grind T ?bits p2"
  obtain queries p4 where q: "sample_queries_ordered (px_limbs X) (ps_sample T) (2 ^ (n1 + ?initial_rate)) ?nq ?p3 = Value (queries, p4)"
    "length queries = ?nq" "list_all (\<lambda>q. q < 2 ^ (n1 + ?initial_rate)) queries"
    by (rule sample_queries_total [OF d rates(2)])
  obtain lambda p5 where lambda: "ps_sample T p4 = (lambda, p5)" by (cases "ps_sample T p4")
  let ?weights = "px_powers X lambda ?nq" and ?rows = "map (l0_fold_row cw lanes (2 ^ length rs)) queries"
  let ?p6 = "ps_hint_merkle T (px_prune X tree (2 ^ (n1 + ?initial_rate)) queries (l0_row cw lanes)) p5"
  let ?q = "query_basis G n1 queries ?weights" and ?tabs = "map (claim_of f) (map build_eq_table_ext zs)"
  let ?b = "glue_basis lambda 1 (map build_eq_table_ext zs @ [?q]) b" and ?p' = "send_msg T (lsb_msg f ?q) (inner f ?q) ?p6"
  have weights: "length ?weights = length queries" using pcs_powers [OF pcs] q(2) by simp
  have cw_len: "length cw = 2 ^ (n1 + ?initial_rate) * lanes" using cw by (simp add: encodes_def)
  note rows = initial_sum [OF P cw lanes q(3)]
  have enforced: "px_enforced_sum_base X ?rows rs queries ?weights = inner f ?q"
    using pcs_sum_base [OF pcs rows(1), of queries ?weights] weights rows(2) [of ?weights] by (simp add: f)
  have induce: "px_induce_auto_base X n1 ?initial_rate (px_eval_sk_at_vks X n1) ?rows rs queries ?weights = (?q, inner f ?q)"
    using pcs_induce_base [OF pcs rows(1), of queries ?weights n1 ?initial_rate] weights rows(2) [of ?weights] by (simp add: f)
  have intro: "introduce_new P (ext_state f b c ?tabs) ?q (inner f ?q) = Value (ext_state f b c (?tabs @ [claim_of f ?q]), lsb_msg f ?q)"
    using f_len by (intro introduce_new_ext [OF P]) simp
  let ?st0 = "\<lparr>vf_t_r = inner f b, vf_quad = quad_of f b, vf_ris = rs, vf_prev = undefined, vf_n_current = n1,
    vf_level_ctxs = [], vf_ood_ctxs = []\<rparr>"
  have match: "levels_match X G eval_b_at config f b n1 ?st0"
    using w f_len rs by (simp add: levels_match_def)
  note glued = glued_match [OF match zs(2) weights]
  have glue: "glue_pending lambda (ext_state f b c (?tabs @ [claim_of f ?q]) :: ('k, 'e) sumcheck_prover) = Value (ext_state f ?b c [])"
    by (rule glued(1))
  let ?prev = "\<lparr>pl_root = last (lw_tree w'), pl_log_num_interleaved = ?k, pl_log_msg_cols = n1 - ?k, pl_log_inv_rate = ?rate\<rparr>"
  let ?st = "\<lparr>vf_t_r = inner f ?b, vf_quad = quad_of f ?b, vf_ris = rs, vf_prev = ?prev, vf_n_current = n1,
    vf_level_ctxs = [\<lparr>lc_log_msg_cols = n1, lc_queries = queries, lc_weights = ?weights,
      lc_ris_start = length rs, lc_beta = lambda ^ Suc (length zs)\<rparr>],
    vf_ood_ctxs = ood_contexts (map (ood_of f) zs) (map (\<lambda>i. lambda ^ Suc i) [0..<length zs]) (length rs)\<rparr>"
  have "prove_level0 P X T config n1 (2 ^ (n1 + ?initial_rate)) lanes cw tree (ext_state f b c []) rs p = Value (ext_state f ?b c [], w', ?p')"
    unfolding prove_level0_def idx obind_simps
    using k(2) commit root oods q(1) lambda induce intro glue
    by (simp add: Let_def rs del: send_ood.simps glue_basis.simps map_map)
  moreover have "lock T reads p0 ?p' (verify_level0 X R config log_n lanes target (last tree)) ?st"
    unfolding verify_level0_def Let_def n1 [symmetric] rs [symmetric]
  proof (rule lock_pure [OF idx(1)], rule lock_pure [where a = n1], goal_cases)
    case 1 show ?case using c(2) by (simp add: usize_sub_def n1 rs)
  next
    case 2
    have last_steps: "lock T reads ?p' ?p' (vbind (vlift (index (wc_level_ks config) 0)) (\<lambda>k_0.
        vbind (vlift (usize_sub n1 k_0)) (\<lambda>log_msg_cols_1.
        vbind (vlift (index (wc_log_inv_rates config) 1)) (\<lambda>log_inv_rate_1.
        vret \<lparr>vf_t_r = inner f ?b, vf_quad = quad_of f ?b, vf_ris = rs,
          vf_prev = \<lparr>pl_root = last (lw_tree w'), pl_log_num_interleaved = k_0, pl_log_msg_cols = log_msg_cols_1,
            pl_log_inv_rate = log_inv_rate_1\<rparr>, vf_n_current = n1,
          vf_level_ctxs = [\<lparr>lc_log_msg_cols = n1, lc_queries = queries, lc_weights = ?weights,
            lc_ris_start = length rs, lc_beta = lambda ^ Suc (length zs)\<rparr>],
          vf_ood_ctxs = ood_contexts (map (ood_of f) zs) (map (\<lambda>i. lambda ^ Suc i) [0..<length zs]) (length rs)\<rparr>)))) ?st"
      using k(2) by (intro lock_pure [OF idx(3)] lock_pure [where a = "n1 - ?k"] lock_pure [OF idx(2)]) (simp_all add: usize_sub_def)
    show ?case
    proof (rule lock_bind [OF start], rule lock_bind [OF rounds [folded rs]], simp only: prod.case,
        rule lock_bind [OF lock_root [OF law]], rule lock_bind [OF oods_lock], rule lock_pure [OF idx(4)],
        rule lock_bind [OF lock_grind [OF law]], rule lock_pure [OF idx(5)], rule lock_bind [OF lock_queries [OF law q(1)]],
        rule lock_bind [OF lock_sample [OF law lambda]],
        rule lock_bind [OF lock_base_openings [OF law cw_len lanes(2) tree q(3)]], unfold enforced,
        rule lock_bind [OF lock_quad [OF law two, where m = "lsb_msg f ?q"]],
        fold quad_of_def, simp only: glued(2) prod.case, rule last_steps)
    qed
  qed
  moreover have "levels_match X G eval_b_at config f ?b n1 ?st"
    using glued(3) [of lambda ?prev] by simp
  moreover have "committed X G f (n1 - ?k) ?k w' (vf_prev ?st)"
    using w' rates(3,4) k by (auto simp: committed_def block_len_def num_interleaved_def)
  ultimately show ?thesis by blast
qed

section \<open>The whole opening\<close>

text \<open>The lane rounds of the stored basis, in step with the verifier's initial rounds.\<close>

lemma initial_lock:
  fixes R :: "('v, 'e::comm_ring_1, 'h, 'k::comm_monoid_add, 'x) receiver"
  assumes P: "primitives_lawful (P :: ('k, 'e, 'u, 'w) primitives)" and law: "transcript_lawful X T R reads"
    and W: "length basis = length witness" "2 ^ n dvd length witness" "witness \<noteq> []"
    and k: "0 < k" "length witness div 2 ^ n \<le> 2 ^ k"
  shows "\<exists>rs pa p f b. length rs = k \<and> f = lane_folds (2 ^ n) rs (map (pr_from P) witness) \<and> b = lane_folds (2 ^ n) rs basis \<and>
    dense_lane_rounds P T witness (2 ^ n) k basis None (inner (map (pr_from P) witness) basis) p0 =
      Value (ext_state f b k [], rs, p) \<and>
    lock T reads p0 pa (recv_quad R (inner (map (pr_from P) witness) basis))
      (quad_from_msg (lane_msg (2 ^ n) (map (pr_from P) witness) basis) (inner (map (pr_from P) witness) basis)) \<and>
    lock T reads pa p (replay_fold_rounds R k (inner (map (pr_from P) witness) basis)
      (quad_from_msg (lane_msg (2 ^ n) (map (pr_from P) witness) basis) (inner (map (pr_from P) witness) basis)))
      (rs, inner f b, quad_of f b)"
proof -
  let ?f = "map (pr_from P) witness"
  let ?target = "inner ?f basis" and ?msg = "lane_msg (2 ^ n) ?f basis"
  obtain left where left: "k = Suc left" using k(1) by (cases k) auto
  have bound: "length witness div 2 ^ n \<le> 2 ^ (length ([] :: 'e list) + Suc left)" using k(2) left by simp
  let ?pa = "send_msg T ?msg ?target p0"
  from lane_rounds_lock [OF P law W(1,2) refl W(3) bound, of ?pa] obtain rs p where rs: "length rs = k"
    and rounds: "dense_rounds P T (2 ^ n) k (lane_state P witness basis (2 ^ n) [] ?target ?msg) [] ?pa =
      Value (ext_state (lane_folds (2 ^ n) rs ?f) (lane_folds (2 ^ n) rs basis) k [], rs, p)"
    and replay: "lock T reads ?pa p (replay_rounds R k ?target (quad_from_msg ?msg ?target) [])
      (rs, inner (lane_folds (2 ^ n) rs ?f) (lane_folds (2 ^ n) rs basis), quad_of (lane_folds (2 ^ n) rs ?f) (lane_folds (2 ^ n) rs basis))"
    unfolding left append_Nil lane_folds_simps by auto
  have "dense_lane_rounds P T witness (2 ^ n) k basis None ?target p0 =
      Value (ext_state (lane_folds (2 ^ n) rs ?f) (lane_folds (2 ^ n) rs basis) k [], rs, p)"
    using rounds by (simp add: dense_lane_rounds_def prover_new_lanes(1) [OF P W(1,2)])
  moreover note lock_quad [OF law char_two_lawful [OF P], where m = ?msg and claim = ?target and p = p0]
  ultimately show ?thesis
    using rs replay by (intro exI [of _ rs] exI [of _ ?pa] exI [of _ p] exI [of _ "lane_folds (2 ^ n) rs ?f"]
      exI [of _ "lane_folds (2 ^ n) rs basis"]) (simp add: replay_fold_rounds_def)
qed

text \<open>After the lane rounds, the prover writes what the verifier accepts.\<close>

lemma opening_lock:
  fixes R :: "('v, 'e::comm_ring_1, 'h, 'k::comm_monoid_add, 'x) receiver"
  assumes P: "primitives_lawful (P :: ('k, 'e, 'u, 'w) primitives)" and law: "transcript_lawful X T R reads"
    and pcs: "pcs_lawful P X G" and ok: "config_ok config log_n"
    and com: "commit X uninit witness log_n (wc_initial_k config) (wc_log_inv_rates config ! 0) = Value (root, data)"
    and uninit: "\<And>m. length (uninit m) = m"
    and len: "length basis = length witness"
    and eval: "\<And>point. length point = log_n \<Longrightarrow> eval_b_at point = mle (basis @ replicate (2 ^ log_n - length basis) 0) point"
  defines "n \<equiv> log_n - wc_initial_k config" and "target \<equiv> inner (map (pr_from P) witness) basis"
  shows "\<exists>p'. recursive_prover_with_basis P X T config log_n witness basis target (pd_codeword data) (pd_merkle_tree data) p =
      Value p' \<and>
    lock T reads p p' (recursive_verifier_with_basis_succinct X R config log_n (length witness div 2 ^ n) target root eval_b_at) () \<and>
    witness \<noteq> [] \<and> 2 ^ n dvd length witness \<and> length witness div 2 ^ n \<le> 2 ^ wc_initial_k config"
proof -
  note c = config_okD [OF ok]
  let ?k = "wc_initial_k config" and ?rate = "wc_log_inv_rates config ! 0"
  from encode_commit [OF pcs com uninit] obtain lanes where enc: "encodes (pr_from P) G witness n lanes ?rate (pd_codeword data)"
    and lanes: "0 < lanes" "lanes \<le> 2 ^ ?k" and tree_len: "length (pd_merkle_tree data) = 2 * 2 ^ (n + ?rate) - 1"
    and root: "root = last (pd_merkle_tree data)"
    and tree: "pd_merkle_tree data = px_merkle_tree_padded_rows X (pd_codeword data) (2 ^ (n + ?rate)) lanes (2 ^ ?k)"
      "pd_merkle_tree data \<noteq> []"
    unfolding n_def by blast
  have wl: "length witness = lanes * 2 ^ n" and cwl: "length (pd_codeword data) = 2 ^ (n + ?rate) * lanes"
    using enc by (simp_all add: encodes_def)
  have shape: "witness \<noteq> []" "2 ^ n dvd length witness" "length witness div 2 ^ n = lanes"
    using lanes(1) by (auto simp: wl simp flip: length_greater_0_conv)
  have bound: "length witness div 2 ^ n \<le> 2 ^ ?k" using lanes(2) shape(3) by simp
  have k: "0 < ?k" using c(1) by simp
  from initial_lock [OF P law len shape(2,1) k bound, of p] obtain rs pa p1 f b where rs: "length rs = ?k"
    and f: "f = lane_folds (2 ^ n) rs (map (pr_from P) witness)" and b: "b = lane_folds (2 ^ n) rs basis"
    and init: "dense_lane_rounds P T witness (2 ^ n) ?k basis None target p = Value (ext_state f b ?k [], rs, p1)"
    and start: "lock T reads p pa (recv_quad R target) (quad_from_msg (lane_msg (2 ^ n) (map (pr_from P) witness) basis) target)"
    and rounds: "lock T reads pa p1 (replay_fold_rounds R ?k target (quad_from_msg (lane_msg (2 ^ n) (map (pr_from P) witness) basis) target))
      (rs, inner f b, quad_of f b)"
    unfolding target_def by blast
  have f_len: "length f = 2 ^ n"
    unfolding f using length_lane_folds [of "2 ^ n" "map (pr_from P) witness" rs] shape(2,3) lanes rs
    by (simp add: div_ceil_final)
  have sum: "n + length rs = log_n" using rs c(2) by (simp add: n_def)
  have w: "weighs G eval_b_at (length rs) [] [] rs n b"
    unfolding b
  proof (rule lanes_weigh [OF lanes(1)])
    show "length basis = lanes * 2 ^ n" using len wl by simp
    show "lanes \<le> 2 ^ length rs" using lanes(2) rs by simp
    show "eval_b_at point = mle (basis @ replicate (2 ^ (n + length rs) - length basis) 0) point"
      if "length point = n + length rs" for point
      using eval [of point] that unfolding sum by simp
  qed
  have fits: "lanes \<le> 2 ^ length rs" using lanes(2) rs by simp
  have tree': "pd_merkle_tree data = px_merkle_tree_padded_rows X (pd_codeword data) (2 ^ (n + ?rate)) lanes (2 ^ length rs)"
    using tree(1) rs by simp
  obtain b' w' p2 st
    where zero: "prove_level0 P X T config n (2 ^ (n + ?rate)) lanes (pd_codeword data) (pd_merkle_tree data) (ext_state f b ?k []) rs p1 =
      Value (ext_state f b' ?k [], w', p2)"
    and zero_lock: "lock T reads p p2 (verify_level0 X R config log_n lanes target (last (pd_merkle_tree data))) st"
    and match: "levels_match X G eval_b_at config f b' n st"
    and committed: "committed X G f (n - wc_level_ks config ! 0) (wc_level_ks config ! 0) w' (vf_prev st)"
    using level0_lock [OF P law pcs ok n_def [THEN meta_eq_to_obj_eq] rs enc lanes(1) fits tree' tree(2) f f_len w start rounds,
      where c = ?k]
    by blast
  obtain left where left: "wc_level_steps config = Suc left" using c(3) by (cases "wc_level_steps config") auto
  have "0 + Suc left = wc_level_steps config" "n \<le> log_n - ?k" "sum_list (drop 0 (wc_level_ks config)) \<le> n"
    using left c(10) by (simp_all add: n_def)
  from levels_lock [OF P law pcs ok this match committed, where c = ?k and p = p2] obtain p'
    where levels: "prove_levels P X T config 0 (wc_level_steps config) (ext_state f b' ?k []) w' p2 = Value p'"
      "lock T reads p2 p' (verify_levels X R config eval_b_at 0 (wc_level_steps config) st) ()"
    unfolding left by blast
  have idx: "index (wc_log_inv_rates config) 0 = Value ?rate" using c(5) by (simp add: index_def)
  have sub: "usize_sub log_n ?k = Value n" using c(2) by (simp add: usize_sub_def n_def)
  have "recursive_prover_with_basis P X T config log_n witness basis target (pd_codeword data) (pd_merkle_tree data) p = Value p'"
    unfolding recursive_prover_with_basis_def recursive_prover_with_prepared_basis_def recursive_prover_initial_basis_def
    using c(1,3-6) wl cwl tree_len lanes shape(3) init zero levels(1)
    by (simp add: Let_def idx sub commitment_parts_def initial_rounds_def del: prove_levels.simps)
  moreover have "lock T reads p p' (recursive_verifier_with_basis_succinct X R config log_n lanes target root eval_b_at) ()"
    unfolding recursive_verifier_with_basis_succinct_def root
  proof (rule lock_check, goal_cases)
    case 1 show ?case using lanes c(3-6) by (simp add: verify_shape_def)
  next
    case 2 show ?case by (rule lock_bind, rule zero_lock, rule levels(2))
  qed
  ultimately show ?thesis using shape bound by (intro exI [of _ p']) simp
qed

text \<open>What the levels see of the basis and the commitment: the lane rounds and the two buffers.\<close>

lemma rounds_determine:
  assumes "initial_rounds P T witness (2 ^ (log_n - wc_initial_k config)) (wc_initial_k config) b target ps =
      initial_rounds P T witness (2 ^ (log_n - wc_initial_k config)) (wc_initial_k config) b' target ps"
    and "wc_initial_k config \<le> log_n" and "commitment_parts c = commitment_parts c'"
  shows "recursive_prover_initial_basis P X T config log_n witness b target c ps =
    recursive_prover_initial_basis P X T config log_n witness b' target c' ps"
  unfolding recursive_prover_initial_basis_def Let_def usize_sub_def
  using assms(2) by (simp only: assms(1,3) if_True obind_simps)

text \<open>
  C27. Completeness of the polynomial commitment: for a witness the library commits to and a claim that holds
  of it, the prover writes the opening, the prover that streams its basis writes the same opening whether
  or not it stores the basis first, and the verifier that reads it accepts.\<close>

theorem whir_complete:
  fixes R :: "('v, 'e::comm_ring_1, 'h, 'k::comm_monoid_add, 'x) receiver"
  assumes "primitives_lawful (P :: ('k, 'e, 'u, 'w) primitives)" and "pcs_lawful P X G" and "transcript_lawful X T R reads"
    and "config_ok config log_n"
    and "commit X uninit witness log_n (wc_initial_k config) (wc_log_inv_rates config ! 0) = Value (root, data)"
    and "\<And>m. length (uninit m) = m"
    and "length basis = length witness" and "fills fill basis" and "target = inner (map (pr_from P) witness) basis"
    and "\<And>point. length point = log_n \<Longrightarrow> eval_b_at point = mle (basis @ replicate (2 ^ log_n - length basis) 0) point"
  shows "\<exists>ps'. recursive_prover_with_basis P X T config log_n witness basis target (pd_codeword data) (pd_merkle_tree data) ps =
      Value ps' \<and>
    (\<forall>dense. recursive_prover_with_streamed_commitment P X T dense config log_n witness fill target (Owned data) ps = Value ps') \<and>
    (\<forall>v. reads ps' ps v \<longrightarrow> (\<exists>v'. recursive_verifier_with_basis_succinct X R config log_n
      (length witness div 2 ^ (log_n - wc_initial_k config)) target root eval_b_at v = Value (Inr ((), v'))))"
proof -
  note P = assms(1) and c = config_okD [OF assms(4)]
  let ?n = "log_n - wc_initial_k config"
  from opening_lock [OF P assms(3,2,4,5,6,7,10), of ps] obtain ps'
    where dense: "recursive_prover_with_basis P X T config log_n witness basis target (pd_codeword data) (pd_merkle_tree data) ps = Value ps'"
    and lock: "lock T reads ps ps' (recursive_verifier_with_basis_succinct X R config log_n (length witness div 2 ^ ?n) target root eval_b_at) ()"
    and shape: "witness \<noteq> []" "2 ^ ?n dvd length witness" "length witness div 2 ^ ?n \<le> 2 ^ wc_initial_k config"
    unfolding assms(9) by blast
  have "?n < 64" using c(12) [of 0] by simp
  then have power: "is_power_of_two (2 ^ ?n)" by (auto simp: is_power_of_two_def list_ex_iff)
  have k: "0 < wc_initial_k config" using c(1) by simp
  note stream = streamed_lanes [OF P assms(8,7) shape(1) k power shape(2,3)]
  note built = built_lanes [OF P assms(8,7) power shape(2)]
  have sub: "usize_sub log_n (wc_initial_k config) = Value ?n" using c(2) by (simp add: usize_sub_def)
  have parts: "commitment_parts (Borrowed (pd_codeword data) (pd_merkle_tree data)) = commitment_parts (Owned data)"
    by (simp add: commitment_parts_def)
  note same = rounds_determine [OF _ c(2) parts, symmetric]
  have streamed: "recursive_prover_with_streamed_commitment P X T stored config log_n witness fill target (Owned data) ps =
      recursive_prover_with_basis P X T config log_n witness basis target (pd_codeword data) (pd_merkle_tree data) ps" for stored
  proof (cases stored)
    case True
    have "initial_rounds P T witness (2 ^ ?n) (wc_initial_k config) (Dense basis None) target ps =
        initial_rounds P T witness (2 ^ ?n) (wc_initial_k config)
          (Dense basis (Some (lane_msg (2 ^ ?n) (map (pr_from P) witness) basis))) target ps"
      by (simp add: initial_rounds_def built(2))
    from same [OF this, of X] True build_basis [OF P assms(7,8) shape(2) power] show ?thesis
      by (simp add: recursive_prover_with_streamed_commitment_def recursive_prover_with_basis_def
          recursive_prover_with_prepared_basis_def sub)
  next
    case False
    have "initial_rounds P T witness (2 ^ ?n) (wc_initial_k config) (Dense basis None) target ps =
        initial_rounds P T witness (2 ^ ?n) (wc_initial_k config) (Streamed fill) target ps"
      by (simp add: initial_rounds_def stream)
    from same [OF this, of X] False show ?thesis
      by (simp add: recursive_prover_with_streamed_commitment_def recursive_prover_with_basis_def
          recursive_prover_with_prepared_basis_def)
  qed
  have "\<exists>v'. recursive_verifier_with_basis_succinct X R config log_n (length witness div 2 ^ ?n) target root eval_b_at v =
      Value (Inr ((), v'))" if "reads ps' ps v" for v
    using lock [unfolded lock_def, THEN conjunct2, rule_format, OF transmits.intros(1) that] by blast
  with dense streamed show ?thesis by (intro exI [of _ ps']) simp
qed

end
