(* ===== verification/Whir_Witnesses.thy ===== *)
theory Whir_Witnesses
  imports Whir_Complete
begin

text \<open>
  Concrete inputs at which the facts about the polynomial commitment apply: the field of four
  elements for both fields of the code, primitives that compute in it and a transcript that records
  what is sent.
\<close>

section \<open>The field of four elements\<close>

datatype gf4 = Z4 | I4 | A4 | B4

fun gf4_add :: "gf4 \<Rightarrow> gf4 \<Rightarrow> gf4" where
  "gf4_add Z4 y = y"
| "gf4_add x Z4 = x"
| "gf4_add I4 I4 = Z4" | "gf4_add I4 A4 = B4" | "gf4_add I4 B4 = A4"
| "gf4_add A4 I4 = B4" | "gf4_add A4 A4 = Z4" | "gf4_add A4 B4 = I4"
| "gf4_add B4 I4 = A4" | "gf4_add B4 A4 = I4" | "gf4_add B4 B4 = Z4"

fun gf4_mul :: "gf4 \<Rightarrow> gf4 \<Rightarrow> gf4" where
  "gf4_mul Z4 y = Z4"
| "gf4_mul x Z4 = Z4"
| "gf4_mul I4 y = y"
| "gf4_mul x I4 = x"
| "gf4_mul A4 A4 = B4" | "gf4_mul A4 B4 = I4" | "gf4_mul B4 A4 = I4" | "gf4_mul B4 B4 = A4"

fun gf4_inv :: "gf4 \<Rightarrow> gf4" where
  "gf4_inv Z4 = Z4" | "gf4_inv I4 = I4" | "gf4_inv A4 = B4" | "gf4_inv B4 = A4"

instantiation gf4 :: field
begin

definition zero_gf4 :: gf4 where "0 = Z4"
definition one_gf4 :: gf4 where "1 = I4"
definition plus_gf4 :: "gf4 \<Rightarrow> gf4 \<Rightarrow> gf4" where "x + y = gf4_add x y"
definition uminus_gf4 :: "gf4 \<Rightarrow> gf4" where "- x = (x :: gf4)"
definition minus_gf4 :: "gf4 \<Rightarrow> gf4 \<Rightarrow> gf4" where "x - y = gf4_add x y"
definition times_gf4 :: "gf4 \<Rightarrow> gf4 \<Rightarrow> gf4" where "x * y = gf4_mul x y"
definition inverse_gf4 :: "gf4 \<Rightarrow> gf4" where "inverse x = gf4_inv x"
definition divide_gf4 :: "gf4 \<Rightarrow> gf4 \<Rightarrow> gf4" where "x div y = gf4_mul x (gf4_inv y)"

instance
proof
  fix a b c :: gf4
  show "a * b * c = a * (b * c)" by (cases a; cases b; cases c) (simp_all add: times_gf4_def)
  show "a * b = b * a" by (cases a; cases b) (simp_all add: times_gf4_def)
  show "1 * a = a" by (cases a) (simp_all add: times_gf4_def one_gf4_def)
  show "a + b + c = a + (b + c)" by (cases a; cases b; cases c) (simp_all add: plus_gf4_def)
  show "a + b = b + a" by (cases a; cases b) (simp_all add: plus_gf4_def)
  show "0 + a = a" by (simp add: plus_gf4_def zero_gf4_def)
  show "- a + a = 0" by (cases a) (simp_all add: plus_gf4_def uminus_gf4_def zero_gf4_def)
  show "a - b = a + - b" by (simp add: minus_gf4_def plus_gf4_def uminus_gf4_def)
  show "(a + b) * c = a * c + b * c"
    by (cases a; cases b; cases c) (simp_all add: plus_gf4_def times_gf4_def)
  show "(0 :: gf4) \<noteq> 1" by (simp add: zero_gf4_def one_gf4_def)
  show "a \<noteq> 0 \<Longrightarrow> inverse a * a = 1"
    by (cases a) (simp_all add: zero_gf4_def one_gf4_def times_gf4_def inverse_gf4_def)
  show "a div b = a * inverse b" by (simp add: divide_gf4_def times_gf4_def inverse_gf4_def)
  show "inverse (0 :: gf4) = 0" by (simp add: inverse_gf4_def zero_gf4_def)
qed

end

lemmas gf4_defs = zero_gf4_def one_gf4_def plus_gf4_def times_gf4_def

section \<open>Primitives and transcript\<close>

definition reduce_all :: "'a map_reduce" where
  "reduce_all n z task comb = foldl comb z (map task [0..<n])"

definition gf4_primitives :: "(gf4, gf4, gf4, gf4) primitives" where
  "gf4_primitives = \<lparr>pr_from = \<lambda>x. x, pr_mul_base = (*), pr_base_zero = 0, pr_base_xor = (+), pr_base_mul = (*),
     pr_base_reduce = \<lambda>x. x, pr_ext_zero = 0, pr_ext_xor = (+), pr_ext_mul = (*), pr_ext_reduce = \<lambda>x. x,
     pr_base_par = reduce_all, pr_ext_par = reduce_all, pr_eval_par = reduce_all, pr_sum_par = reduce_all,
     pr_uninit = \<lambda>n. replicate n A4\<rparr>"

lemma gf4_two: "(2 :: gf4) = 0"
  by (subst one_add_one [symmetric]) (simp only: gf4_defs gf4_add.simps)

lemma gf4_lawful: "primitives_lawful gf4_primitives"
  by (simp add: primitives_lawful_def gf4_primitives_def gf4_two parallel_lawful_def reduce_all_def
      add.comm_monoid_axioms)

text \<open>What is sent is recorded; the challenges cycle through the field.\<close>

datatype message = Poly "gf4 list" | Scalar gf4 | Scalars "gf4 list" | Root "gf4 list" | Opening "gf4 list list"

definition challenge :: "nat \<Rightarrow> gf4" where
  "challenge c = [A4, B4, I4, Z4] ! (c mod 4)"

definition recorder :: "(message list \<times> nat, gf4, gf4 list, gf4 list list) transmitter" where
  "recorder = \<lparr>ps_add_round_poly = \<lambda>cs _ (sent, c). (sent @ [Poly cs], c),
     ps_add_scalar = \<lambda>x (sent, c). (sent @ [Scalar x], c), ps_add_scalars = \<lambda>xs (sent, c). (sent @ [Scalars xs], c),
     ps_add_root = \<lambda>h (sent, c). (sent @ [Root h], c), ps_hint_merkle = \<lambda>m (sent, c). (sent @ [Opening m], c),
     ps_sample = \<lambda>(sent, c). (challenge c, (sent, c + 1)),
     ps_sample_vec = \<lambda>n (sent, c). (map (\<lambda>i. challenge (c + i)) [0..<n], (sent, c + n)),
     ps_grind = \<lambda>_ p. p\<rparr>"

section \<open>Streamed rounds\<close>

definition sample_witness :: "gf4 list" where "sample_witness = [I4, A4, B4, Z4, A4, I4]"
definition sample_basis :: "gf4 list" where "sample_basis = [A4, I4, I4, B4, Z4, A4]"

theorem streamed_rounds_agree_witness:
  "streamed_lane_rounds gf4_primitives recorder sample_witness 2 2
     (\<lambda>start buf. window sample_basis start (length buf)) B4 ([], 0) =
   dense_lane_rounds gf4_primitives recorder sample_witness 2 2 sample_basis None B4 ([], 0)"
proof -
  have len: "length sample_basis = length sample_witness" "sample_witness \<noteq> []" "2 dvd length sample_witness"
    "length sample_witness div 2 \<le> 2 ^ 2" "0 < (2 :: nat)"
    by (simp_all add: sample_basis_def sample_witness_def)
  have two: "is_power_of_two 2"
    unfolding is_power_of_two_def list_ex_iff by (rule bexI [where x = 1]) simp_all
  have fills: "fills (\<lambda>start buf. window sample_basis start (length buf)) sample_basis"
    by (simp add: fills_def)
  show ?thesis
    using streamed_rounds_agree [OF gf4_lawful fills len(1,2,5) two len(3,4), where T = recorder and target = B4 and ps = "([], 0)"]
    by (rule conjunct1)
qed

section \<open>A commitment scheme\<close>

text \<open>Codewords are evaluations at the powers of a generator; a tree is labelled with what it was built
  from; an opening is the rows themselves.\<close>

fun gf4_code :: "gf4 \<Rightarrow> u64" where
  "gf4_code Z4 = 0" | "gf4_code I4 = 1" | "gf4_code A4 = 2" | "gf4_code B4 = 3"

definition gf4_decode :: "u64 \<Rightarrow> gf4" where
  "gf4_decode w = (if w = 0 then Z4 else if w = 1 then I4 else if w = 2 then A4 else B4)"

lemma gf4_decode_code [simp]: "gf4_decode (gf4_code v) = v"
  by (cases v) (simp_all add: gf4_decode_def)

definition power_code :: "gf4 generator" where
  "power_code n pos x = A4 ^ (pos * x)"

definition gf4_pcs :: "(gf4, gf4, gf4 list, gf4 list list, nat, nat) pcs_externals" where
  "gf4_pcs = \<lparr>px_powers = \<lambda>x n. map (\<lambda>i. x ^ i) [0..<n], px_eq_eval = eq_agree, px_eq_table_arena = build_eq_table_ext,
     px_limbs = \<lambda>v. (gf4_code v, 0, 0), px_from_limbs = \<lambda>c0 c1 c2. gf4_decode c0, px_word = gf4_decode, px_unword = gf4_code,
     px_eval_sk_at_vks = \<lambda>n. n,
     px_induce_auto_base = \<lambda>n rate s rows rs queries weights.
       (query_basis power_code n queries weights, enforced_sum (\<lambda>x. x) rows rs weights),
     px_induce_poly = \<lambda>n s rows rs queries weights.
       (query_basis power_code n queries weights, enforced_sum (\<lambda>x. x) rows rs weights),
     px_enforced_sum_base = \<lambda>rows rs queries weights. enforced_sum (\<lambda>x. x) rows rs weights,
     px_enforced_sum_ext = \<lambda>rows rs queries weights. enforced_sum (\<lambda>x. x) rows rs weights,
     px_residual = \<lambda>n s queries weights point m. fold_all (query_basis power_code n queries weights) point,
     px_ntt_standard = \<lambda>k. k, px_log_domain_size = \<lambda>k. k,
     px_transpose_lane_major = \<lambda>message lanes n. message,
     px_encode_interleaved = \<lambda>k buf lanes rate. map (\<lambda>i. \<Sum>x<2 ^ (k - rate). power_code (k - rate) (i div lanes) x *
       buf ! ((lanes - 1 - i mod lanes) * 2 ^ (k - rate) + x)) [0..<2 ^ k * lanes],
     px_forward_ext = \<lambda>k buf width rate. map (\<lambda>i. \<Sum>x<2 ^ (k - rate). power_code (k - rate) (i div width) x *
       buf ! (x * width + i mod width)) [0..<2 ^ k * width],
     px_ext_bytes = map (\<lambda>v. ucast (gf4_code v)),
     px_merkle_tree = \<lambda>bytes positions. replicate (2 * positions - 1) (map (\<lambda>b. gf4_decode (ucast b)) bytes),
     px_merkle_tree_padded_rows = \<lambda>cw positions lanes width. replicate (2 * positions - 1) cw,
     px_prune = \<lambda>tree positions queries row. map row queries\<rparr>"

lemma gf4_tables: "tables_lawful gf4_pcs"
  by (simp add: tables_lawful_def gf4_pcs_def)

lemma gf4_induced: "induced_lawful (pr_from gf4_primitives) gf4_pcs power_code"
  by (simp add: induced_lawful_def gf4_pcs_def gf4_primitives_def)

lemma gf4_encoding: "encoding_lawful (pr_from gf4_primitives) gf4_pcs power_code"
proof -
  have inside: "pos * width + l < 2 ^ k * width" if "pos < 2 ^ k" "l < width" for pos width l k :: nat
    using row_inside [OF that(1), of width] that(2) by simp
  have rep: "concat (replicate (2 ^ rate) f) ! i = f ! i" if "i < length f" for rate i and f :: "gf4 list"
  proof -
    obtain m where "(2 :: nat) ^ rate = Suc m" by (metis not0_implies_Suc power_not_zero zero_neq_numeral)
    then show ?thesis using that by (simp add: nth_append)
  qed
  have fwd: "concat (replicate (2 ^ rate) f) ! (x * 2 ^ k + l) = f ! (x * 2 ^ k + l)"
    if "length f = 2 ^ (n + k)" "x < 2 ^ n" "l < 2 ^ k" for rate x k l n and f :: "gf4 list"
    using inside [OF that(2,3)] that(1) by (intro rep) (simp add: power_add)
  have msg: "(message @ rest) ! ((lanes - Suc t) * 2 ^ n + x) = message ! ((lanes - Suc t) * 2 ^ n + x)"
    if "length message = lanes * 2 ^ n" "t < lanes" "x < 2 ^ n" for message rest :: "gf4 list" and lanes t n x
  proof -
    have "lanes - Suc t < lanes" using that(2) by simp
    from row_inside [OF this, of "2 ^ n"] that(1,3) show ?thesis by (simp add: nth_append)
  qed
  show ?thesis
    unfolding encoding_lawful_def Let_def
    by (auto simp: gf4_pcs_def gf4_primitives_def inside fwd msg simp del: concat_replicate_trivial)
qed

lemma gf4_pcs_lawful: "pcs_lawful gf4_primitives gf4_pcs power_code"
  by (simp add: pcs_lawful_def gf4_tables gf4_induced gf4_encoding)

section \<open>Reading what was recorded\<close>

definition next_poly :: "nat \<Rightarrow> gf4 \<Rightarrow> message list \<times> nat \<Rightarrow> unit + gf4 list \<times> message list \<times> nat" where
  "next_poly n claim v = (case v of
     (Poly cs # ms, c) \<Rightarrow> if length cs = n \<and> hd cs + sum_list cs = claim then Inr (cs, ms, c) else Inl ()
   | _ \<Rightarrow> Inl ())"

definition next_scalar :: "message list \<times> nat \<Rightarrow> unit + gf4 \<times> message list \<times> nat" where
  "next_scalar v = (case v of (Scalar x # ms, c) \<Rightarrow> Inr (x, ms, c) | _ \<Rightarrow> Inl ())"

definition next_scalars :: "nat \<Rightarrow> message list \<times> nat \<Rightarrow> unit + gf4 list \<times> message list \<times> nat" where
  "next_scalars n v = (case v of (Scalars xs # ms, c) \<Rightarrow> if length xs = n then Inr (xs, ms, c) else Inl () | _ \<Rightarrow> Inl ())"

definition next_root :: "message list \<times> nat \<Rightarrow> unit + gf4 list \<times> message list \<times> nat" where
  "next_root v = (case v of (Root h # ms, c) \<Rightarrow> Inr (h, ms, c) | _ \<Rightarrow> Inl ())"

definition next_rows :: "nat \<Rightarrow> nat \<Rightarrow> message list \<times> nat \<Rightarrow> unit + gf4 list list \<times> message list \<times> nat" where
  "next_rows lanes width v = (case v of
     (Opening rows # ms, c) \<Rightarrow> Inr (map (\<lambda>row. replicate (width - lanes) 0 @ row) rows, ms, c) | _ \<Rightarrow> Inl ())"

definition player :: "(message list \<times> nat, gf4, gf4 list, gf4, unit) receiver" where
  "player = \<lparr>vs_next_round_poly = next_poly, vs_next_scalar = next_scalar, vs_next_scalars = next_scalars,
     vs_next_root = next_root,
     vs_next_merkle_batch = \<lambda>root positions queries lanes width v. next_rows lanes width v,
     vs_sample = \<lambda>(ms, c). (challenge c, (ms, c + 1)),
     vs_sample_vec = \<lambda>n (ms, c). (map (\<lambda>i. challenge (c + i)) [0..<n], (ms, c + n)),
     vs_grind_check = \<lambda>_ v. Inr v\<rparr>"

definition plays :: "message list \<times> nat \<Rightarrow> message list \<times> nat \<Rightarrow> message list \<times> nat \<Rightarrow> bool" where
  "plays f p v \<longleftrightarrow> fst f = fst p @ fst v \<and> snd p = snd v"

lemma recorded: "transmits recorder p f \<Longrightarrow> \<exists>ms. fst f = fst p @ ms"
  by (induction rule: transmits.induct) (auto simp: recorder_def split: prod.splits)

lemma play_lock:
  assumes "transmits recorder p p'" and "fst p' = fst p @ sent"
    and "\<And>ms. m (sent @ ms, snd p) = Value (Inr (a, ms, snd p'))"
  shows "lock recorder plays p p' m a"
  unfolding lock_def
proof (intro conjI assms(1) allI impI)
  fix f v assume "transmits recorder p' f" and v: "plays f p v"
  then obtain ms where ms: "fst f = fst p @ sent @ ms" using recorded assms(2) by fastforce
  then have "v = (sent @ ms, snd p)" using v by (cases v) (simp add: plays_def)
  then show "\<exists>v'. m v = Value (Inr (a, v')) \<and> plays f p' v'"
    using assms(2,3) ms by (intro exI [of _ "(ms, snd p')"]) (simp add: plays_def)
qed

lemmas play_defs = recorder_def player_def map_err_def vread_def vtake_def vgrind_def next_poly_def next_scalar_def next_scalars_def
  next_root_def next_rows_def

lemma play_lawful: "transcript_lawful gf4_pcs recorder player plays"
  unfolding transcript_lawful_def
proof (intro conjI allI impI, goal_cases)
  case (1 p c b a claim)
  then show ?case
    by (intro play_lock [where sent = "[Poly [c, b, a]]"] transmits_steps) (auto simp: play_defs split: prod.splits)
next
  case (2 p x)
  show ?case by (intro play_lock [where sent = "[Scalar x]"] transmits_steps) (auto simp: play_defs split: prod.splits)
next
  case (3 p xs)
  show ?case by (intro play_lock [where sent = "[Scalars xs]"] transmits_steps) (auto simp: play_defs split: prod.splits)
next
  case (4 p h)
  show ?case by (intro play_lock [where sent = "[Root h]"] transmits_steps) (auto simp: play_defs split: prod.splits)
next
  case (5 p bits)
  show ?case by (intro play_lock [where sent = "[]"] transmits_steps) (auto simp: play_defs split: prod.splits)
next
  case (6 p x p')
  then show ?case
    by (intro play_lock [where sent = "[]"] transmits_steps(7)) (auto simp: play_defs split: prod.splits)
next
  case (7 p n xs p')
  then show ?case by (auto simp: recorder_def split: prod.splits)
next
  case (8 p n xs p')
  then show ?case
    by (intro play_lock [where sent = "[]"] transmits_steps(8)) (auto simp: play_defs split: prod.splits)
next
  case (9 p cw positions lanes width queries root m rows)
  then show ?case
    by (intro play_lock [where sent = "[Opening m]"] transmits_steps)
      (auto simp: play_defs base_openings_def gf4_pcs_def zero_gf4_def split: prod.splits)
next
  case (10 p mat positions width queries root m rows)
  then show ?case
    by (intro play_lock [where sent = "[Opening m]"] transmits_steps)
      (auto simp: play_defs ext_openings_def gf4_pcs_def split: prod.splits)
qed

section \<open>An opening\<close>

text \<open>Three lanes of four elements, two levels with out-of-domain claims and two queries each.\<close>

definition opening_config :: whir_config where
  "opening_config = \<lparr>wc_initial_k = 2, wc_level_steps = 2, wc_level_ks = [1, 1], wc_log_inv_rates = [1, 2, 1],
     wc_ood_samples = [0, 1, 2], wc_grinding_bits = [1, 2, 3], wc_queries = [2, 2, 1]\<rparr>"

definition opening_witness :: "gf4 list" where
  "opening_witness = [I4, A4, B4, Z4, A4, I4, Z4, B4, B4, I4, A4, A4]"

definition opening_basis :: "gf4 list" where
  "opening_basis = [A4, I4, I4, B4, Z4, A4, B4, B4, I4, Z4, A4, I4]"

lemma opening_config_ok: "config_ok opening_config 4"
  by (simp add: config_ok_def opening_config_def ood_count_def)

theorem whir_complete_witness:
  "\<exists>root data ps'. commit gf4_pcs (\<lambda>m. replicate m Z4) opening_witness 4 2 1 = Value (root, data) \<and>
     recursive_prover_with_basis gf4_primitives gf4_pcs recorder opening_config 4 opening_witness opening_basis
       (inner opening_witness opening_basis) (pd_codeword data) (pd_merkle_tree data) ([], 0) = Value ps' \<and>
     (\<exists>v'. recursive_verifier_with_basis_succinct gf4_pcs player opening_config 4 3 (inner opening_witness opening_basis) root
       (mle (opening_basis @ [0, 0, 0, 0])) (fst ps', 0) = Value (Inr ((), v')))"
proof -
  let ?uninit = "\<lambda>m. replicate m Z4" and ?target = "inner opening_witness opening_basis"
  let ?eval = "mle (opening_basis @ [0, 0, 0, 0])" and ?ps = "([], 0) :: message list \<times> nat"
  have len: "length opening_witness = 12" "length opening_basis = 12"
    by (simp_all add: opening_witness_def opening_basis_def)
  obtain cw where "encode_codeword gf4_pcs ?uninit opening_witness 4 2 1 = Value cw"
    using len(1) by (simp add: encode_codeword_def Let_def)
  then obtain root data where com: "commit gf4_pcs ?uninit opening_witness 4 2 1 = Value (root, data)"
    by (simp add: commit_def gf4_pcs_def Let_def)
  have pad: "opening_basis @ replicate (2 ^ 4 - length opening_basis) 0 = opening_basis @ [0, 0, 0, 0]"
    by (simp add: len numeral_eq_Suc)
  have fills: "fills (\<lambda>start buf. window opening_basis start (length buf)) opening_basis"
    by (simp add: fills_def)
  have target: "?target = inner (map (pr_from gf4_primitives) opening_witness) opening_basis"
    by (simp add: gf4_primitives_def)
  have com': "commit gf4_pcs ?uninit opening_witness 4 (wc_initial_k opening_config) (wc_log_inv_rates opening_config ! 0) =
      Value (root, data)"
    using com by (simp add: opening_config_def)
  have eval: "?eval point = mle (opening_basis @ replicate (2 ^ 4 - length opening_basis) 0) point" for point
    by (simp only: pad)
  have basis: "length opening_basis = length opening_witness" by (simp only: len)
  from whir_complete [OF gf4_lawful gf4_pcs_lawful play_lawful opening_config_ok com' length_replicate basis fills target eval,
      of ?ps, unfolded len(1)] obtain ps'
    where prover: "recursive_prover_with_basis gf4_primitives gf4_pcs recorder opening_config 4 opening_witness opening_basis
        ?target (pd_codeword data) (pd_merkle_tree data) ?ps = Value ps'"
      and verifier: "\<And>v. plays ps' ?ps v \<Longrightarrow> \<exists>v'. recursive_verifier_with_basis_succinct gf4_pcs player opening_config 4
        (12 div 2 ^ (4 - wc_initial_k opening_config)) ?target root ?eval v = Value (Inr ((), v'))"
    by blast
  have "plays ps' ?ps (fst ps', 0)" by (simp add: plays_def)
  from verifier [OF this] have "\<exists>v'. recursive_verifier_with_basis_succinct gf4_pcs player opening_config 4 3 ?target root ?eval
      (fst ps', 0) = Value (Inr ((), v'))"
    by (simp add: opening_config_def)
  with com prover show ?thesis by blast
qed

text \<open>Five positions of three bits take one element of the transcript.\<close>

theorem query_positions_are_digits_witness:
  "sample_queries_ordered (px_limbs gf4_pcs) (ps_sample recorder) 8 5 ([], 0) = Value ([2, 0, 0, 0, 0], ([], 1))"
proof -
  have "div_ceil 5 (192 div 3) = 1" by (simp add: div_ceil_def)
  moreover have "take 5 (query_digits 3 (2, 0, 0)) = [2, 0, 0, 0, 0]"
    by (simp add: query_digits_def take_map upt_conv_Cons limbs_value_def)
  ultimately show ?thesis
    using query_positions_are_digits [of 3 5 "ps_sample recorder" "([], 0)" "px_limbs gf4_pcs"]
    by (simp add: recorder_def gf4_pcs_def challenge_def Let_def)
qed

end
