(* ===== verification/Cpu_Proof.thy ===== *)
theory Cpu_Proof
  imports Whir_Lockstep Text_Codec
begin

text \<open>
  The proof of a whole program run
  (\<open>adaptive/native/leanvm-overlay/files/crates/lean_vm/src/cpu/mod.rs\<close>): the announced sizes and their
  caps, the wiring of the bus, the claims an opening has to discharge, the prover and the verifier. The
  arguments they are composed of (bus, constraints, the two hash circuits, the opening), the execution and
  the layout belong to other files of that crate, which are not in the repository, and are parameters; \<open>'o\<close>
  stands for their opaque data and \<open>'err\<close> for their errors.
\<close>

section \<open>External code\<close>

text \<open>An element of the tower has three 64-bit limbs.\<close>

record 'e tower =
  tw_new :: "u64 \<Rightarrow> u64 \<Rightarrow> u64 \<Rightarrow> 'e"
  tw_limbs :: "'e \<Rightarrow> u64 \<times> u64 \<times> u64"
  tw_Y :: 'e
  tw_powers :: "'e \<Rightarrow> nat \<Rightarrow> 'e list"
  tw_interp :: "'e \<Rightarrow> 'e \<Rightarrow> 'e \<Rightarrow> 'e"
  tw_interp_k :: "u64 \<Rightarrow> u64 \<Rightarrow> 'e \<Rightarrow> 'e"

record 'e column_claim =
  cc_col :: nat
  cc_point :: "'e list"
  cc_value :: 'e

datatype 'e slot_claim =
    Strided nat nat nat "'e list" 'e
  | Point nat "'e list" 'e

record 'e table_claim =
  tc_chi :: "'e list"
  tc_evals :: "'e list"

record placement =
  pl_offset :: nat
  pl_n_vars :: nat

record ('e, 'o) vm_layout =
  vl_taus :: "nat list"
  vl_pi :: "'e \<times> 'e"
  vl_shape :: 'o
  vl_push :: "'o list"
  vl_pull :: "'o list"
  vl_count :: "'o list"
  vl_placements :: "placement list"

text \<open>The identities of a table over columns of the tower and of the base field, as unreduced sums.\<close>

record ('e, 'o) vm_table =
  tb_n_committed_columns :: nat
  tb_n_constraints :: nat
  tb_eval :: "'o \<Rightarrow> 'e list \<Rightarrow> bool \<Rightarrow> 'o"
  tb_eval_k :: "'o \<Rightarrow> u64 list \<Rightarrow> bool \<Rightarrow> 'o"

text \<open>\<open>TABLES\<close>, the schema of columns and the forms of the bus.\<close>

record ('e, 'o) vm_tables =
  vt_tables :: "('e, 'o) vm_table list"
  vt_blake2s :: nat
  vt_sha3 :: nat
  vt_blake2s_value_cols :: "nat list"
  vt_sha3_value_cols :: "nat list"
  vt_base :: "nat list"
  vt_kappa_sources :: "nat \<Rightarrow> nat list"
  vt_mem_lo :: nat
  vt_qflock :: nat
  vt_qflock_k :: nat
  vt_form_sum :: "'o list \<Rightarrow> 'o"
  vt_form_scaled :: "'o \<Rightarrow> 'e \<Rightarrow> 'o"
  vt_form_eval :: "'o \<Rightarrow> 'e list \<Rightarrow> bool \<Rightarrow> 'o"
  vt_form_eval_k :: "'o \<Rightarrow> u64 list \<Rightarrow> bool \<Rightarrow> 'o"
  vt_xor :: "'o \<Rightarrow> 'o \<Rightarrow> 'o"
  vt_reduce :: "'o \<Rightarrow> 'e"
  vt_reduce_k :: "'o \<Rightarrow> 'e"

record ('e, 'o) air =
  ai_tau :: nat
  ai_n_cols :: nat
  ai_n_constraints :: nat
  ai_eval :: "'o \<Rightarrow> 'e list \<Rightarrow> bool \<Rightarrow> 'e"
  ai_eval_k :: "'o \<Rightarrow> u64 list \<Rightarrow> bool \<Rightarrow> 'e"

text \<open>What the bus argument returns to the prover and to the verifier; a list per side.\<close>

record ('e, 'o) bus_proof =
  bp_claims :: "'e column_claim list"
  bp_forms :: "'o list list"
  bp_sigmas :: "'e list list"
  bp_point :: "'e list"

record ('e, 'o) bus_check =
  bk_claims :: "'e column_claim list"
  bk_forms :: "'o list list"
  bk_point :: "'e list"
  bk_totals :: "'e list"
  bk_bytecode_claim :: 'o

type_synonym block_owners = "(nat \<times> nat) option list list"
type_synonym table_spans = "(nat \<times> nat) list"

text \<open>The circuit of a hash function: the reduction of its validity and the claim on its region.\<close>

record 'o flock_replay =
  fr_claim :: 'o
  fr_zc_claim :: 'o
  fr_lc_claim :: 'o

record ('o, 'ps, 'v, 'err) flock_circuit =
  fl_digest :: "byte list"
  fl_slots :: "nat list"
  fl_stride_log :: nat
  fl_n_blocks_log :: "nat \<Rightarrow> nat"
  fl_prove :: "'o \<Rightarrow> 'ps \<Rightarrow> 'o \<times> 'ps"
  fl_n_blocks :: "'o \<Rightarrow> nat"
  fl_open :: "nat \<Rightarrow> nat \<Rightarrow> 'o \<Rightarrow> 'o"
  fl_verify_reduction :: "nat \<Rightarrow> 'v \<Rightarrow> 'err + 'o flock_replay \<times> 'v"
  fl_verify :: "nat \<Rightarrow> nat \<Rightarrow> 'o \<Rightarrow> 'o"

record ('e, 'o, 'ps, 'v, 'err) opener =
  op_min_mu :: nat
  op_max_mu :: nat
  op_mu :: "'o \<Rightarrow> nat"
  op_rate_ok :: "nat \<Rightarrow> bool"
  op_commit :: "'o \<Rightarrow> 'o \<Rightarrow> nat \<Rightarrow> 'ps \<Rightarrow> 'o \<times> 'ps"
  op_release :: "'o \<Rightarrow> 'o"
  op_rebuild :: "'o \<Rightarrow> 'o \<Rightarrow> 'o"
  op_open :: "'o \<Rightarrow> 'o \<Rightarrow> 'e slot_claim list \<Rightarrow> 'o list \<Rightarrow> 'ps \<Rightarrow> 'ps"
  op_read_commitment :: "'v \<Rightarrow> 'err + 'o \<times> 'v"
  op_verify :: "'e slot_claim list \<Rightarrow> 'o list \<Rightarrow> 'o \<Rightarrow> nat \<Rightarrow> 'o \<Rightarrow> 'v \<Rightarrow> 'err + unit \<times> 'v"

section \<open>Programs\<close>

record ('e, 'o) vm_program =
  vp_prog :: "'o list"
  vp_bytecode_hash :: "byte list"
  vp_hints :: "u32 \<rightharpoonup> 'o list"
  vp_main_frame :: u32
  vp_witness :: "string \<rightharpoonup> 'e list list"
  vp_filler :: "'o list"
  vp_fn_ranges :: "(string \<times> u32 \<times> u32) list"
  vp_src_lines :: "u32 list"
  vp_min_log_committed :: nat

record 'o vm_execution =
  ex_unconstrained_reads :: "'o list"
  ex_cycles :: nat
  ex_base_counts :: "nat list"
  ex_mem_used :: nat
  ex_rest :: 'o

record ('e, 'o) vm_witness =
  wt_layout :: "('e, 'o) vm_layout"
  wt_log_mem :: nat
  wt_q :: 'o
  wt_columns :: "u64 list list"
  wt_committed_size :: nat
  wt_flock_reduction :: 'o
  wt_flock_reduction_k :: 'o

record ('e, 'o, 'ps, 'v, 'err) cpu_env =
  ce_tower :: "'e tower"
  ce_hash :: "byte list \<Rightarrow> byte list"
  ce_bytecode_table :: "'o list \<Rightarrow> u64 list"
  ce_layout_of :: "'o list \<Rightarrow> nat \<Rightarrow> nat list \<Rightarrow> 'e \<times> 'e \<Rightarrow> ('e, 'o) vm_layout"
  ce_log2_strict :: "nat \<Rightarrow> nat outcome"
  ce_tables :: "('e, 'o) vm_tables"
  ce_transmitter :: "('ps, 'e, 'o, 'o) transmitter"
  ce_receiver :: "('v, 'e, 'o, 'o, 'err) receiver"
  ce_prover_new :: "u64 list \<Rightarrow> u64 list \<Rightarrow> 'ps"
  ce_verifier_new :: "u64 list \<Rightarrow> 'o \<Rightarrow> u64 list \<Rightarrow> 'v"
  ce_into_proof :: "'ps \<Rightarrow> 'o"
  ce_stream_offset :: "'v \<Rightarrow> nat"
  ce_finish :: "'v \<Rightarrow> 'err + 'v"
  ce_into_raw_proof :: "'v \<Rightarrow> 'o"
  ce_execute_to_floor :: "('e, 'o) vm_program \<Rightarrow> 'e \<times> 'e \<Rightarrow> 'o vm_execution"
  ce_build :: "('e, 'o) vm_program \<Rightarrow> 'o vm_execution \<Rightarrow> ('e, 'o) vm_witness"
  ce_prove_balance :: "'o list \<Rightarrow> 'o list \<Rightarrow> 'o list \<Rightarrow> u64 list list \<Rightarrow> block_owners \<Rightarrow> table_spans \<Rightarrow> 'ps
     \<Rightarrow> ('e, 'o) bus_proof \<times> 'ps"
  ce_verify_balance :: "'o list \<Rightarrow> 'o list \<Rightarrow> 'o list \<Rightarrow> block_owners \<Rightarrow> table_spans \<Rightarrow> 'v
     \<Rightarrow> 'err + ('e, 'o) bus_check \<times> 'v"
  ce_prove_constraints :: "('e, 'o) air list \<Rightarrow> u64 list list list \<Rightarrow> 'e \<Rightarrow> 'e list \<Rightarrow> 'e list \<Rightarrow> 'ps
     \<Rightarrow> 'e table_claim list \<times> 'ps"
  ce_verify_constraints :: "('e, 'o) air list \<Rightarrow> 'e \<Rightarrow> 'e list \<Rightarrow> 'e \<Rightarrow> 'v \<Rightarrow> 'err + 'e table_claim list \<times> 'v"
  ce_blake2s :: "('o, 'ps, 'v, 'err) flock_circuit"
  ce_keccak :: "('o, 'ps, 'v, 'err) flock_circuit"
  ce_opener :: "('e, 'o, 'ps, 'v, 'err) opener"

text \<open>The digest reads the table as the little-endian words of its elements.\<close>

definition assemble :: "('e, 'o, 'ps, 'v, 'err) cpu_env \<Rightarrow> 'o list \<Rightarrow> (u32 \<rightharpoonup> 'o list) \<Rightarrow> u32 \<Rightarrow> ('e, 'o) vm_program" where
  "assemble E ops hints main_frame =
     \<lparr>vp_prog = ops, vp_bytecode_hash = ce_hash E (concat (map (\<lambda>w. le_bytes 8 (unat w)) (ce_bytecode_table E ops))),
      vp_hints = hints, vp_main_frame = main_frame, vp_witness = Map.empty, vp_filler = [], vp_fn_ranges = [],
      vp_src_lines = [], vp_min_log_committed = 0\<rparr>"

text \<open>The sum of an entry and a length wraps in release builds.\<close>

definition fn_at :: "('e, 'o) vm_program \<Rightarrow> u32 \<Rightarrow> string" where
  "fn_at p pc =
     (case find (\<lambda>(_, entry, len). pc \<ge> entry \<and> pc < entry + len) (vp_fn_ranges p) of
        None \<Rightarrow> ''<unknown fn>'' | Some (name, _, _) \<Rightarrow> name)"

definition site_at :: "('e, 'o) vm_program \<Rightarrow> u32 \<Rightarrow> string" where
  "site_at p pc =
     (if unat pc < length (vp_src_lines p) \<and> vp_src_lines p ! unat pc \<noteq> 0
      then fn_at p pc @ '' (line '' @ show_nat (unat (vp_src_lines p ! unat pc)) @ '')''
      else fn_at p pc)"

definition set_witness :: "string \<Rightarrow> 'e list list \<Rightarrow> ('e, 'o) vm_program \<Rightarrow> ('e, 'o) vm_program" where
  "set_witness name entries p = p\<lparr>vp_witness := (vp_witness p)(name \<mapsto> entries)\<rparr>"

section \<open>The statement\<close>

text \<open>The digest as two elements without a third limb.\<close>

definition fs_preimage :: "('e, 'o, 'ps, 'v, 'err) cpu_env \<Rightarrow> ('e, 'o) vm_program \<Rightarrow> byte list" where
  "fs_preimage E p =
     map of_char ''leanvm'' @
     concat (map (\<lambda>digest. le_bytes 8 (length digest) @ digest) [fl_digest (ce_blake2s E), fl_digest (ce_keccak E)]) @
     vp_bytecode_hash p"

definition digest_word :: "byte list \<Rightarrow> nat \<Rightarrow> u64" where
  "digest_word d o' = of_nat (le_nat (take 8 (drop o' d)))"

definition fs_seed :: "('e, 'o, 'ps, 'v, 'err) cpu_env \<Rightarrow> ('e, 'o) vm_program \<Rightarrow> 'e \<times> 'e" where
  "fs_seed E p =
     (let d = ce_hash E (fs_preimage E p); new = tw_new (ce_tower E) in
      (new (digest_word d 0) (digest_word d 8) 0, new (digest_word d 16) (digest_word d 24) 0))"

definition limb2 :: "u64 \<times> u64 \<times> u64 \<Rightarrow> u64" where "limb2 w = snd (snd w)"

definition digest_words :: "'e tower \<Rightarrow> 'e \<times> 'e \<Rightarrow> u64 list" where
  "digest_words W halves =
     (let (a0, a1, _) = tw_limbs W (fst halves); (b0, b1, _) = tw_limbs W (snd halves) in [a0, a1, b0, b1])"

section \<open>Announced sizes\<close>

definition MIN_LOG_MEM :: nat where "MIN_LOG_MEM = 16"
definition MAX_LOG_MEM :: nat where "MAX_LOG_MEM = 32"
definition MAX_LOG_ROWS :: nat where "MAX_LOG_ROWS = 32"
definition MAX_LOG_BYTECODE :: nat where "MAX_LOG_BYTECODE = 32"

definition send_size :: "('e, 'o, 'ps, 'v, 'err) cpu_env \<Rightarrow> nat \<Rightarrow> 'ps \<Rightarrow> 'ps" where
  "send_size E n = ps_add_scalar (ce_transmitter E) (tw_new (ce_tower E) (of_nat n) 0 0)"

definition announce_public ::
  "('e, 'o, 'ps, 'v, 'err) cpu_env \<Rightarrow> nat \<Rightarrow> nat list \<Rightarrow> nat \<Rightarrow> 'ps \<Rightarrow> 'ps" where
  "announce_public E log_mem taus log_inv_rate ps =
     send_size E log_inv_rate (fold (send_size E) taus (send_size E log_mem ps))"

datatype 'err cpu_error =
    CE_Bus 'err
  | CE_Constraint 'err
  | CE_Open 'err
  | CE_PublicInput
  | CE_Transcript 'err
  | CE_Blake2s 'err
  | CE_Sha3 'err

text \<open>A fallible read of another part, with the error it is reported as.\<close>

definition vread_as :: "('x \<Rightarrow> 'err) \<Rightarrow> ('v \<Rightarrow> 'x + 'a \<times> 'v) \<Rightarrow> ('v, 'err, 'a) reading" where
  "vread_as err m = (\<lambda>v. Value (map_err err (m v)))"

definition read_scalar :: "('e, 'o, 'ps, 'v, 'err) cpu_env \<Rightarrow> ('v, 'err cpu_error, 'e) reading" where
  "read_scalar E = vread_as CE_Transcript (vs_next_scalar (ce_receiver E))"

definition read_size :: "('e, 'o, 'ps, 'v, 'err) cpu_env \<Rightarrow> ('v, 'err cpu_error, nat) reading" where
  "read_size E =
     vbind (read_scalar E) (\<lambda>word.
       let (c0, c1, c2) = tw_limbs (ce_tower E) word in
       vbind (vcheck (\<not> (c1 \<noteq> 0 \<or> c2 \<noteq> 0)) CE_PublicInput) (\<lambda>_. vret (unat c0)))"

fun read_sizes :: "('e, 'o, 'ps, 'v, 'err) cpu_env \<Rightarrow> nat \<Rightarrow> ('v, 'err cpu_error, nat list) reading" where
  "read_sizes E 0 = vret []"
| "read_sizes E (Suc n) = vbind (read_size E) (\<lambda>t. vbind (read_sizes E n) (\<lambda>ts. vret (t # ts)))"

definition n_tables :: "('e, 'o, 'ps, 'v, 'err) cpu_env \<Rightarrow> nat" where
  "n_tables E = length (vt_tables (ce_tables E))"

text \<open>The caps of an instance.\<close>

definition sizes_ok :: "('e, 'o, 'ps, 'v, 'err) cpu_env \<Rightarrow> nat \<Rightarrow> nat \<Rightarrow> nat list \<Rightarrow> nat \<Rightarrow> bool" where
  "sizes_ok E bytecode_size log_mem taus log_inv_rate \<longleftrightarrow>
     \<not> (\<not> is_power_of_two bytecode_size \<or> bytecode_size > 2 ^ MAX_LOG_BYTECODE \<or>
        \<not> (MIN_LOG_MEM \<le> log_mem \<and> log_mem \<le> MAX_LOG_MEM) \<or>
        list_ex (\<lambda>t. t > MAX_LOG_ROWS) taus \<or>
        taus ! vt_blake2s (ce_tables E) < fl_n_blocks_log (ce_blake2s E) 1 \<or>
        taus ! vt_sha3 (ce_tables E) < fl_n_blocks_log (ce_keccak E) 1 \<or>
        \<not> op_rate_ok (ce_opener E) log_inv_rate)"

definition mu_ok :: "('e, 'o, 'ps, 'v, 'err) cpu_env \<Rightarrow> ('e, 'o) vm_layout \<Rightarrow> bool" where
  "mu_ok E l \<longleftrightarrow> (let mu = op_mu (ce_opener E) (vl_shape l) in op_min_mu (ce_opener E) \<le> mu \<and> mu \<le> op_max_mu (ce_opener E))"

definition read_public ::
  "('e, 'o, 'ps, 'v, 'err) cpu_env \<Rightarrow> ('e, 'o) vm_program \<Rightarrow> 'e \<times> 'e
     \<Rightarrow> ('v, 'err cpu_error, ('e, 'o) vm_layout \<times> nat) reading" where
  "read_public E p public_input =
     vbind (vcheck (\<not> (limb2 (tw_limbs (ce_tower E) (fst public_input)) \<noteq> 0 \<or>
         limb2 (tw_limbs (ce_tower E) (snd public_input)) \<noteq> 0)) CE_PublicInput) (\<lambda>_.
     vbind (read_size E) (\<lambda>log_mem.
     vbind (read_sizes E (n_tables E)) (\<lambda>taus.
     vbind (read_size E) (\<lambda>log_inv_rate.
     vbind (vcheck (sizes_ok E (length (vp_prog p)) log_mem taus log_inv_rate) CE_PublicInput) (\<lambda>_.
     let l = ce_layout_of E (vp_prog p) log_mem taus public_input in
     vbind (vcheck (mu_ok E l) CE_PublicInput) (\<lambda>_. vret (l, log_inv_rate)))))))"

section \<open>The bus and the constraints\<close>

text \<open>The blocks of one side, in turn, from the sources that are left.\<close>

definition block_owner :: "('e, 'o) vm_tables \<Rightarrow> nat \<Rightarrow> (nat \<times> nat) option outcome" where
  "block_owner S source =
     (if source < 2 then Value None
      else obind (index (vt_base S) (source - 2)) (\<lambda>b. Value (Some (source - 2, b))))"

fun outcomes :: "('a \<Rightarrow> 'b outcome) \<Rightarrow> 'a list \<Rightarrow> 'b list outcome" where
  "outcomes f [] = Value []"
| "outcomes f (x # xs) = obind (f x) (\<lambda>y. obind (outcomes f xs) (\<lambda>ys. Value (y # ys)))"

fun split_sides :: "nat list \<Rightarrow> 'a list \<Rightarrow> 'a list list" where
  "split_sides [] xs = []"
| "split_sides (n # ns) xs = take n xs # split_sides ns (drop n xs)"

definition block_owners :: "('e, 'o) vm_tables \<Rightarrow> nat \<Rightarrow> nat list \<Rightarrow> block_owners outcome" where
  "block_owners S log_bytecode sides =
     outcomes (outcomes (block_owner S)) (split_sides sides (vt_kappa_sources S log_bytecode))"

definition table_spans :: "('e, 'o) vm_tables \<Rightarrow> table_spans outcome" where
  "table_spans S =
     outcomes (\<lambda>(t, table). obind (index (vt_base S) t) (\<lambda>b. Value (b, tb_n_committed_columns table)))
       (enumerate 0 (vt_tables S))"

definition bus_wiring ::
  "('e, 'o, 'ps, 'v, 'err) cpu_env \<Rightarrow> ('e, 'o) vm_program \<Rightarrow> ('e, 'o) vm_layout \<Rightarrow> (block_owners \<times> table_spans) outcome" where
  "bus_wiring E p l =
     obind (ce_log2_strict E (length (vp_prog p))) (\<lambda>log_bytecode.
     obind (block_owners (ce_tables E) log_bytecode [length (vl_push l), length (vl_pull l), length (vl_count l)]) (\<lambda>owners.
     obind (table_spans (ce_tables E)) (\<lambda>spans. Value (owners, spans))))"

definition xi_form_base :: "('e, 'o) vm_tables \<Rightarrow> nat" where
  "xi_form_base S = sum_list (map tb_n_constraints (vt_tables S))"

definition xi_form_pows :: "'e tower \<Rightarrow> ('e, 'o) vm_tables \<Rightarrow> 'e \<Rightarrow> 'e list outcome" where
  "xi_form_pows W S xi =
     (let base = xi_form_base S; pows = tw_powers W xi (base + 3) in
      outcomes (index pows) [base, base + 1, base + 2])"

text \<open>The sum over the three sides; \<open>form_pows\<close> and \<open>forms\<close> are arrays of three.\<close>

definition airs ::
  "('e, 'o) vm_tables \<Rightarrow> nat list \<Rightarrow> 'o list list \<Rightarrow> 'e list \<Rightarrow> ('e, 'o) air list outcome" where
  "airs S taus forms form_pows =
     outcomes (\<lambda>(t, table, tau).
       obind (outcomes (\<lambda>s. obind (index forms s) (\<lambda>fs. obind (index fs t) (\<lambda>form.
         obind (index form_pows s) (\<lambda>pow. Value (vt_form_scaled S form pow))))) [0, 1, 2]) (\<lambda>parts.
       let bus = vt_form_sum S parts in
       Value \<lparr>ai_tau = tau, ai_n_cols = tb_n_committed_columns table, ai_n_constraints = tb_n_constraints table,
         ai_eval = (\<lambda>p vals quadratic. vt_reduce S (vt_xor S (tb_eval table p vals quadratic) (vt_form_eval S bus vals quadratic))),
         ai_eval_k = (\<lambda>p vals quadratic.
           vt_reduce_k S (vt_xor S (tb_eval_k table p vals quadratic) (vt_form_eval_k S bus vals quadratic)))\<rparr>))
       (enumerate 0 (zip (vt_tables S) taus))"

text \<open>\<open>form_pows[s] * xs[s]\<close> over the three sides, from zero.\<close>

definition weighted_sides :: "'e::comm_ring_1 list \<Rightarrow> (nat \<Rightarrow> 'e outcome) \<Rightarrow> 'e outcome" where
  "weighted_sides form_pows x =
     obind (outcomes (\<lambda>s. obind (index form_pows s) (\<lambda>pow. obind (x s) (\<lambda>y. Value (pow * y)))) [0, 1, 2]) (\<lambda>terms.
     Value (fold (\<lambda>y acc. acc + y) terms 0))"

definition sigmas :: "('e::comm_ring_1, 'o) vm_tables \<Rightarrow> 'e list list \<Rightarrow> 'e list \<Rightarrow> 'e list outcome" where
  "sigmas S bus form_pows =
     outcomes (\<lambda>t. weighted_sides form_pows (\<lambda>s. obind (index bus s) (\<lambda>side. index side t))) [0..<length (vt_tables S)]"

section \<open>The claims of the opening\<close>

text \<open>The slot of a value column of a hash table; \<open>position\<close> finds the first.\<close>

definition value_slot :: "nat list \<Rightarrow> nat \<Rightarrow> nat list \<Rightarrow> nat \<Rightarrow> nat option outcome" where
  "value_slot value_cols base slots col =
     (case find (\<lambda>(_, c). base + c = col) (enumerate 0 value_cols) of
        None \<Rightarrow> Value None
      | Some (i, _) \<Rightarrow> obind (index slots i) (\<lambda>slot. Value (Some slot)))"

definition blake2s_value_slot :: "('e, 'o, 'ps, 'v, 'err) cpu_env \<Rightarrow> nat \<Rightarrow> nat option outcome" where
  "blake2s_value_slot E col =
     obind (index (vt_base (ce_tables E)) (vt_blake2s (ce_tables E))) (\<lambda>base.
     value_slot (vt_blake2s_value_cols (ce_tables E)) base (fl_slots (ce_blake2s E)) col)"

definition sha3_value_slot :: "('e, 'o, 'ps, 'v, 'err) cpu_env \<Rightarrow> nat \<Rightarrow> nat option outcome" where
  "sha3_value_slot E col =
     obind (index (vt_base (ce_tables E)) (vt_sha3 (ce_tables E))) (\<lambda>base.
     value_slot (vt_sha3_value_cols (ce_tables E)) base (fl_slots (ce_keccak E)) col)"

definition slot_of_claim ::
  "('e, 'o, 'ps, 'v, 'err) cpu_env \<Rightarrow> ('e, 'o) vm_layout \<Rightarrow> 'e column_claim \<Rightarrow> 'e slot_claim outcome" where
  "slot_of_claim E l c =
     obind (blake2s_value_slot E (cc_col c)) (\<lambda>b. case b of
       Some slot \<Rightarrow> obind (index (vl_placements l) (vt_qflock (ce_tables E))) (\<lambda>place.
         Value (Strided (pl_offset place) slot (fl_stride_log (ce_blake2s E)) (cc_point c) (cc_value c)))
     | None \<Rightarrow>
         obind (sha3_value_slot E (cc_col c)) (\<lambda>k. case k of
           Some slot \<Rightarrow> obind (index (vl_placements l) (vt_qflock_k (ce_tables E))) (\<lambda>place.
             Value (Strided (pl_offset place) slot (fl_stride_log (ce_keccak E)) (cc_point c) (cc_value c)))
         | None \<Rightarrow> obind (index (vl_placements l) (cc_col c)) (\<lambda>place.
             Value (Point (pl_offset place) (cc_point c) (cc_value c)))))"

definition slot_claims ::
  "('e, 'o, 'ps, 'v, 'err) cpu_env \<Rightarrow> ('e, 'o) vm_layout \<Rightarrow> 'e column_claim list \<Rightarrow> 'e slot_claim list outcome" where
  "slot_claims E l = outcomes (slot_of_claim E l)"

text \<open>The memory limbs are the columns from \<open>MEM_LO\<close> on.\<close>

definition bind_pi_claim ::
  "('e::zero, 'o) vm_tables \<Rightarrow> 'e \<Rightarrow> placement list \<Rightarrow> 'e list \<Rightarrow> 'e column_claim list outcome" where
  "bind_pi_claim S r placements limbs =
     obind (index placements (vt_mem_lo S)) (\<lambda>place.
     if pl_n_vars place = 0 then Crash
     else
       (let point = r # replicate (pl_n_vars place - 1) 0 in
        outcomes (\<lambda>i. obind (index limbs i) (\<lambda>v. Value \<lparr>cc_col = vt_mem_lo S + i, cc_point = point, cc_value = v\<rparr>)) [0, 1, 2]))"

definition table_column_claims ::
  "('e, 'o) vm_tables \<Rightarrow> 'e table_claim list \<Rightarrow> 'e column_claim list outcome" where
  "table_column_claims S table_claims =
     obind (outcomes (\<lambda>(t, table). outcomes (\<lambda>c.
         obind (index (vt_base S) t) (\<lambda>base. obind (index table_claims t) (\<lambda>claim. obind (index (tc_evals claim) c) (\<lambda>value.
         Value \<lparr>cc_col = base + c, cc_point = tc_chi claim, cc_value = value\<rparr>))))
         [0..<tb_n_committed_columns table]) (enumerate 0 (vt_tables S))) (\<lambda>claims. Value (concat claims))"

definition finish_claims ::
  "('e::zero, 'o, 'ps, 'v, 'err) cpu_env \<Rightarrow> ('e, 'o) vm_layout \<Rightarrow> 'e column_claim list \<Rightarrow> 'e table_claim list \<Rightarrow> 'e \<Rightarrow>
     'e list \<Rightarrow> 'e slot_claim list outcome" where
  "finish_claims E l bus_claims table_claims r_pi pi_limbs =
     obind (table_column_claims (ce_tables E) table_claims) (\<lambda>columns.
     obind (bind_pi_claim (ce_tables E) r_pi (vl_placements l) pi_limbs) (\<lambda>pi.
     slot_claims E l (bus_claims @ columns @ pi)))"

section \<open>The prover\<close>

datatype prove_error = InvalidRate nat | WitnessOutOfRange nat

fun fmt_prove_error :: "('e, 'o, 'ps, 'v, 'err) opener \<Rightarrow> prove_error \<Rightarrow> string" where
  "fmt_prove_error Q (InvalidRate log_inv_rate) = ''log_inv_rate '' @ show_nat log_inv_rate @ '' is not supported''"
| "fmt_prove_error Q (WitnessOutOfRange log_committed) =
     ''the committed witness would be 2^'' @ show_nat log_committed @ '' words, outside the verifiable 2^'' @
     show_nat (op_min_mu Q) @ ''..=2^'' @ show_nat (op_max_mu Q)"

record vm_stats =
  vs_cycles :: nat
  vs_counts :: "nat list"
  vs_base_counts :: "nat list"
  vs_committed :: nat
  vs_log_mem :: nat
  vs_mem_used :: nat

text \<open>The columns of each table, as windows of the columns of the witness.\<close>

definition span_columns :: "u64 list list \<Rightarrow> nat \<times> nat \<Rightarrow> u64 list list outcome" where
  "span_columns cols span = outcomes (\<lambda>c. index cols (fst span + c)) [0..<snd span]"

text \<open>\<open>retain\<close> is whether \<open>DAISUGI_BENCH_RETAIN_CODEWORD\<close> is set.\<close>

definition prove_witness ::
  "('e::comm_ring_1, 'o, 'ps, 'v, 'err) cpu_env \<Rightarrow> bool \<Rightarrow> ('e, 'o) vm_program \<Rightarrow> ('e, 'o) vm_witness \<Rightarrow> nat \<Rightarrow> 'ps \<Rightarrow> 'ps outcome" where
  "prove_witness E retain p w log_inv_rate ps =
     (let T = ce_transmitter E; S = ce_tables E; Q = ce_opener E; l = wt_layout w; cols = wt_columns w;
          ps = announce_public E (wt_log_mem w) (vl_taus l) log_inv_rate ps;
          (committed, ps) = op_commit Q (wt_q w) (vl_shape l) log_inv_rate ps;
          committed = (if retain then committed else op_release Q committed) in
      obind (bus_wiring E p l) (\<lambda>(owners, spans).
      let (bus, ps) = ce_prove_balance E (vl_push l) (vl_pull l) (vl_count l) cols owners spans ps in
      obind (outcomes (span_columns cols) spans) (\<lambda>table_cols.
      let (xi, ps) = ps_sample T ps in
      obind (xi_form_pows (ce_tower E) S xi) (\<lambda>form_pows.
      obind (sigmas S (bp_sigmas bus) form_pows) (\<lambda>sigma.
      obind (airs S (vl_taus l) (bp_forms bus) form_pows) (\<lambda>tables.
      let (table_claims, ps) = ce_prove_constraints E tables table_cols xi (bp_point bus) sigma ps;
          (r_pi, ps) = ps_sample T ps;
          (a0, a1, _) = tw_limbs (ce_tower E) (fst (vl_pi l)); (b0, b1, _) = tw_limbs (ce_tower E) (snd (vl_pi l));
          lo = tw_interp_k (ce_tower E) a0 b0 r_pi; hi = tw_interp_k (ce_tower E) a1 b1 r_pi;
          ps = ps_add_scalar T hi (ps_add_scalar T lo ps) in
      obind (finish_claims E l (bp_claims bus) table_claims r_pi [lo, hi, 0]) (\<lambda>slots.
      let (reduced, ps) = fl_prove (ce_blake2s E) (wt_flock_reduction w) ps;
          (reduced_k, ps) = fl_prove (ce_keccak E) (wt_flock_reduction_k w) ps in
      obind (index (vl_placements l) (vt_qflock S)) (\<lambda>place.
      obind (index (vl_placements l) (vt_qflock_k S)) (\<lambda>place_k.
      let rings = [fl_open (ce_blake2s E) (fl_n_blocks (ce_blake2s E) (wt_flock_reduction w)) (pl_offset place) reduced,
            fl_open (ce_keccak E) (fl_n_blocks (ce_keccak E) (wt_flock_reduction_k w)) (pl_offset place_k) reduced_k];
          committed = (if retain then committed else op_rebuild Q (wt_q w) committed) in
      Value (op_open Q committed (wt_q w) slots rings ps))))))))))"

definition vm_prove ::
  "('e::comm_ring_1, 'o, 'ps, 'v, 'err) cpu_env \<Rightarrow> bool \<Rightarrow> ('e, 'o) vm_program \<Rightarrow> 'e \<times> 'e \<Rightarrow> nat
     \<Rightarrow> (prove_error + 'o \<times> vm_stats) outcome" where
  "vm_prove E retain p public_input log_inv_rate =
     (if \<not> op_rate_ok (ce_opener E) log_inv_rate then Value (Inl (InvalidRate log_inv_rate))
      else
        (let exec = ce_execute_to_floor E p public_input in
         if ex_unconstrained_reads exec \<noteq> [] then Crash
         else
           (let w = ce_build E p exec; l = wt_layout w in
            if \<not> mu_ok E l then Value (Inl (WitnessOutOfRange (op_mu (ce_opener E) (vl_shape l))))
            else
              obind (prove_witness E retain p w log_inv_rate
                  (ce_prover_new E (digest_words (ce_tower E) (fs_seed E p)) (digest_words (ce_tower E) public_input))) (\<lambda>ps.
              Value (Inr (ce_into_proof E ps,
                \<lparr>vs_cycles = ex_cycles exec, vs_counts = map (\<lambda>t. 2 ^ t) (vl_taus l), vs_base_counts = ex_base_counts exec,
                 vs_committed = wt_committed_size w, vs_log_mem = wt_log_mem w, vs_mem_used = ex_mem_used exec\<rparr>))))))"

section \<open>The verifier\<close>

record 'o verify_summary =
  sm_log_inv_rate :: nat
  sm_bytecode_claim :: 'o
  sm_zc_claim :: 'o
  sm_lc_claim :: 'o
  sm_flock_stream_end :: nat
  sm_zc_claim_k :: 'o
  sm_lc_claim_k :: 'o
  sm_flock_k_stream_end :: nat
  sm_raw :: 'o

definition vm_verify_from ::
  "('e::comm_ring_1, 'o, 'ps, 'v, 'err) cpu_env \<Rightarrow> ('e, 'o) vm_program \<Rightarrow> 'e \<times> 'e
     \<Rightarrow> ('v, 'err cpu_error, 'o verify_summary) reading" where
  "vm_verify_from E p public_input =
     (let R = ce_receiver E; S = ce_tables E; W = ce_tower E; Q = ce_opener E in
      vbind (read_public E p public_input) (\<lambda>(l, log_inv_rate).
      vbind (vread_as CE_Transcript (op_read_commitment Q)) (\<lambda>root.
      vbind (vlift (index (vl_taus l) (vt_blake2s S))) (\<lambda>tau.
      vbind (vlift (index (vl_taus l) (vt_sha3 S))) (\<lambda>tau_k.
      vbind (vlift (bus_wiring E p l)) (\<lambda>(owners, spans).
      vbind (vread_as CE_Bus (ce_verify_balance E (vl_push l) (vl_pull l) (vl_count l) owners spans)) (\<lambda>bus.
      vbind (vtake (vs_sample R)) (\<lambda>zc_xi.
      vbind (vlift (xi_form_pows W S zc_xi)) (\<lambda>form_pows.
      vbind (vlift (weighted_sides form_pows (index (bk_totals bus)))) (\<lambda>target.
      vbind (vlift (airs S (vl_taus l) (bk_forms bus) form_pows)) (\<lambda>tables.
      vbind (vread_as CE_Constraint (ce_verify_constraints E tables zc_xi (bk_point bus) target)) (\<lambda>table_claims.
      vbind (vtake (vs_sample R)) (\<lambda>r_pi.
      vbind (read_scalar E) (\<lambda>lo.
      vbind (read_scalar E) (\<lambda>hi.
      vbind (vcheck (\<not> (lo + tw_Y W * hi \<noteq> tw_interp W (fst (vl_pi l)) (snd (vl_pi l)) r_pi)) CE_PublicInput) (\<lambda>_.
      vbind (vlift (finish_claims E l (bk_claims bus) table_claims r_pi [lo, hi, 0])) (\<lambda>slots.
      let n_blocks = max (2 ^ tau) 1; n_blocks_k = max (2 ^ tau_k) 1 in
      vbind (vread_as CE_Blake2s (fl_verify_reduction (ce_blake2s E) n_blocks)) (\<lambda>replay.
      vbind (vtake (\<lambda>v. (ce_stream_offset E v, v))) (\<lambda>flock_stream_end.
      vbind (vread_as CE_Sha3 (fl_verify_reduction (ce_keccak E) n_blocks_k)) (\<lambda>replay_k.
      vbind (vtake (\<lambda>v. (ce_stream_offset E v, v))) (\<lambda>flock_k_stream_end.
      vbind (vlift (index (vl_placements l) (vt_qflock S))) (\<lambda>place.
      vbind (vlift (index (vl_placements l) (vt_qflock_k S))) (\<lambda>place_k.
      let rings = [fl_verify (ce_blake2s E) n_blocks (pl_offset place) (fr_claim replay),
            fl_verify (ce_keccak E) n_blocks_k (pl_offset place_k) (fr_claim replay_k)] in
      vbind (vread_as CE_Open (op_verify Q slots rings (vl_shape l) log_inv_rate root)) (\<lambda>_.
      vbind (vread_as CE_Transcript (\<lambda>v. rbind (ce_finish E v) (\<lambda>v. Inr ((), v)))) (\<lambda>_.
      vbind (vtake (\<lambda>v. (ce_into_raw_proof E v, v))) (\<lambda>raw.
      vret \<lparr>sm_log_inv_rate = log_inv_rate, sm_bytecode_claim = bk_bytecode_claim bus, sm_zc_claim = fr_zc_claim replay,
        sm_lc_claim = fr_lc_claim replay, sm_flock_stream_end = flock_stream_end, sm_zc_claim_k = fr_zc_claim replay_k,
        sm_lc_claim_k = fr_lc_claim replay_k, sm_flock_k_stream_end = flock_k_stream_end, sm_raw = raw\<rparr>))))))))))))))))))))))))))"

definition vm_verify ::
  "('e::comm_ring_1, 'o, 'ps, 'v, 'err) cpu_env \<Rightarrow> ('e, 'o) vm_program \<Rightarrow> 'e \<times> 'e \<Rightarrow> 'o
     \<Rightarrow> ('err cpu_error + 'o verify_summary) outcome" where
  "vm_verify E p public_input proof' =
     obind (vm_verify_from E p public_input
         (ce_verifier_new E (digest_words (ce_tower E) (fs_seed E p)) proof' (digest_words (ce_tower E) public_input)))
       (\<lambda>r. Value (map_sum id fst r))"

end
