(* ===== verification/Cpu_Facts.thy ===== *)
theory Cpu_Facts
  imports Cpu_Proof
begin

text \<open>
  The proof of a run: an accepted proof is within the caps and every claim the arguments leave open is
  opened; the statement is bound by the start of the transcript; the proofs of the prover are accepted.
\<close>

section \<open>Lists of outcomes and computations that succeed\<close>

lemma outcomes_Value: "outcomes f xs = Value ys \<longleftrightarrow> list_all2 (\<lambda>x y. f x = Value y) xs ys"
  by (induction xs arbitrary: ys) (auto simp: dec_simps list_all2_Cons1)

lemma outcomes_map: "(\<And>x. x \<in> set xs \<Longrightarrow> f x = Value (g x)) \<Longrightarrow> outcomes f xs = Value (map g xs)"
  by (induction xs) simp_all

lemma outcomes_exists: "(\<And>x. x \<in> set xs \<Longrightarrow> \<exists>y. f x = Value y) \<Longrightarrow> \<exists>ys. outcomes f xs = Value ys"
  by (induction xs) fastforce+

lemma index_Value: "index xs i = Value x \<longleftrightarrow> i < length xs \<and> x = xs ! i"
  by (auto simp: index_def)

lemma vbind_Inr: "vbind m k v = Value (Inr r) \<longleftrightarrow> (\<exists>a v'. m v = Value (Inr (a, v')) \<and> k a v' = Value (Inr r))"
proof (cases "m v")
  case (Value x)
  then show ?thesis by (cases x) (auto simp: vbind_def)
qed (simp add: vbind_def)

lemma vlift_Inr: "vlift m v = Value (Inr (a, v')) \<longleftrightarrow> m = Value a \<and> v' = v"
  by (auto simp: vlift_def dec_simps)

lemma vcheck_Inr: "vcheck c e v = Value (Inr (a, v')) \<longleftrightarrow> c \<and> v' = v"
  by (auto simp: vcheck_def vret_def vfail_def)

lemma vret_Inr: "vret a v = Value (Inr (b, v')) \<longleftrightarrow> b = a \<and> v' = v"
  by (auto simp: vret_def)

lemma vread_as_Inr: "vread_as err m v = Value (Inr (a, v')) \<longleftrightarrow> m v = Inr (a, v')"
  by (simp add: vread_as_def dec_simps)

lemma vtake_Inr: "vtake m v = Value (Inr (a, v')) \<longleftrightarrow> m v = (a, v')"
  by (auto simp: vtake_def)

lemmas succeed_iff = vbind_Inr vlift_Inr vcheck_Inr vret_Inr vread_as_Inr vtake_Inr

section \<open>What is accepted\<close>

lemma map_sum_fst_Inr: "map_sum id fst r = Inr a \<longleftrightarrow> (\<exists>v. r = Inr (a, v))"
  by (cases r) auto

lemma vm_verify_Inr: "vm_verify E p public_input pf = Value (Inr sm) \<longleftrightarrow>
    (\<exists>v. vm_verify_from E p public_input (ce_verifier_new E (digest_words (ce_tower E) (fs_seed E p)) pf
      (digest_words (ce_tower E) public_input)) = Value (Inr (sm, v)))"
  unfolding vm_verify_def obind_Value by (auto simp: map_sum_fst_Inr)

lemma read_sizes_length: "read_sizes E n v = Value (Inr (ts, v')) \<Longrightarrow> length ts = n"
  by (induction n arbitrary: v ts) (auto simp: succeed_iff)

lemma read_public_Inr:
  assumes "read_public E p public_input v = Value (Inr ((l, rate), v'))"
  shows "limb2 (tw_limbs (ce_tower E) (fst public_input)) = 0 \<and> limb2 (tw_limbs (ce_tower E) (snd public_input)) = 0 \<and>
    mu_ok E l \<and> (\<exists>log_mem taus. length taus = n_tables E \<and> sizes_ok E (length (vp_prog p)) log_mem taus rate \<and>
      l = ce_layout_of E (vp_prog p) log_mem taus public_input)"
  using assms unfolding read_public_def by (auto simp: succeed_iff Let_def dest!: read_sizes_length)

lemma accepted_input:
  assumes "vm_verify E p public_input pf = Value (Inr sm)"
  shows "limb2 (tw_limbs (ce_tower E) (fst public_input)) = 0 \<and> limb2 (tw_limbs (ce_tower E) (snd public_input)) = 0"
  using assms unfolding vm_verify_Inr vm_verify_from_def Let_def by (auto simp: vbind_Inr dest!: read_public_Inr)

text \<open>The claims that are opened: those of the bus, one for each column of each table, and the three limbs
  of the public input.\<close>

definition column_of :: "('e, 'o) vm_tables \<Rightarrow> 'e table_claim list \<Rightarrow> nat \<Rightarrow> nat \<Rightarrow> 'e column_claim" where
  "column_of S claims t c =
     \<lparr>cc_col = vt_base S ! t + c, cc_point = tc_chi (claims ! t), cc_value = tc_evals (claims ! t) ! c\<rparr>"

definition limb_claim :: "('e::zero, 'o) vm_tables \<Rightarrow> ('e, 'o) vm_layout \<Rightarrow> 'e \<Rightarrow> 'e list \<Rightarrow> nat \<Rightarrow> 'e column_claim" where
  "limb_claim S l r limbs i = \<lparr>cc_col = vt_mem_lo S + i,
     cc_point = r # replicate (pl_n_vars (vl_placements l ! vt_mem_lo S) - 1) 0, cc_value = limbs ! i\<rparr>"

lemma table_column_claims_Value:
  "table_column_claims S claims = Value columns \<longleftrightarrow>
    (\<forall>t < length (vt_tables S). \<forall>c < tb_n_committed_columns (vt_tables S ! t).
       t < length (vt_base S) \<and> t < length claims \<and> c < length (tc_evals (claims ! t))) \<and>
    columns = concat (map (\<lambda>t. map (column_of S claims t) [0..<tb_n_committed_columns (vt_tables S ! t)])
      [0..<length (vt_tables S)])"
  (is "_ \<longleftrightarrow> ?ok \<and> _ = concat ?rows")
proof -
  let ?f = "\<lambda>(t, table). outcomes (\<lambda>c.
      obind (index (vt_base S) t) (\<lambda>base. obind (index claims t) (\<lambda>claim. obind (index (tc_evals claim) c) (\<lambda>value.
      Value \<lparr>cc_col = base + c, cc_point = tc_chi claim, cc_value = value\<rparr>)))) [0..<tb_n_committed_columns table]"
  have row: "?f (t, vt_tables S ! t) = Value row \<longleftrightarrow>
      (\<forall>c < tb_n_committed_columns (vt_tables S ! t). t < length (vt_base S) \<and> t < length claims \<and> c < length (tc_evals (claims ! t))) \<and>
      row = map (column_of S claims t) [0..<tb_n_committed_columns (vt_tables S ! t)]" for t row
    unfolding prod.case outcomes_Value list_all2_conv_all_nth
    by (auto simp: index_Value dec_simps column_of_def intro!: nth_equalityI)
  have enum: "enumerate 0 (vt_tables S) = map (\<lambda>t. (t, vt_tables S ! t)) [0..<length (vt_tables S)]"
    by (intro nth_equalityI) (simp_all add: nth_enumerate_eq)
  have "outcomes ?f (enumerate 0 (vt_tables S)) = Value rows \<longleftrightarrow> ?ok \<and> rows = ?rows" for rows
    unfolding outcomes_Value enum list_all2_map1 list_all2_conv_all_nth
    using row by (auto intro!: nth_equalityI)
  then show ?thesis
    by (auto simp: table_column_claims_def obind_Value)
qed

lemma bind_pi_Value:
  assumes "length limbs = 3"
  shows "bind_pi_claim S r (vl_placements l) limbs = Value claims \<longleftrightarrow>
    vt_mem_lo S < length (vl_placements l) \<and> pl_n_vars (vl_placements l ! vt_mem_lo S) \<noteq> 0 \<and>
    claims = map (limb_claim S l r limbs) [0, 1, 2]"
proof -
  let ?point = "r # replicate (pl_n_vars (vl_placements l ! vt_mem_lo S) - 1) 0"
  have "outcomes (\<lambda>i. obind (index limbs i) (\<lambda>v. Value \<lparr>cc_col = vt_mem_lo S + i, cc_point = ?point, cc_value = v\<rparr>)) [0, 1, 2] =
      Value (map (limb_claim S l r limbs) [0, 1, 2])"
    by (rule outcomes_map) (auto simp: index_def limb_claim_def assms)
  then show ?thesis unfolding bind_pi_claim_def obind_Value index_Value Let_def by auto
qed

lemma finish_claims_Value:
  assumes "length limbs = 3"
  shows "finish_claims E l bus_claims claims r limbs = Value slots \<longleftrightarrow> (\<exists>columns.
      table_column_claims (ce_tables E) claims = Value columns \<and>
      vt_mem_lo (ce_tables E) < length (vl_placements l) \<and> pl_n_vars (vl_placements l ! vt_mem_lo (ce_tables E)) \<noteq> 0 \<and>
      list_all2 (\<lambda>c s. slot_of_claim E l c = Value s)
        (bus_claims @ columns @ map (limb_claim (ce_tables E) l r limbs) [0, 1, 2]) slots)"
  unfolding finish_claims_def obind_Value bind_pi_Value [OF assms] slot_claims_def outcomes_Value by auto

lemma slots_of_claims: "list_all2 (\<lambda>c s. slot_of_claim E l c = Value s) cs slots \<Longrightarrow> c \<in> set cs \<Longrightarrow>
    \<exists>s \<in> set slots. slot_of_claim E l c = Value s"
  by (induction rule: list_all2_induct) auto


section \<open>The statement is bound\<close>

text \<open>What is relied on: an element is its three limbs, powers are powers, and the line through two elements
  without third limbs is the line through their limbs.\<close>

definition tower_lawful :: "'e::comm_ring_1 tower \<Rightarrow> bool" where
  "tower_lawful W \<longleftrightarrow> (\<forall>a b c. tw_limbs W (tw_new W a b c) = (a, b, c)) \<and> inj (tw_limbs W) \<and>
     (\<forall>x n. tw_powers W x n = map (\<lambda>i. x ^ i) [0..<n]) \<and>
     (\<forall>x y r a0 a1 b0 b1. tw_limbs W x = (a0, a1, 0) \<longrightarrow> tw_limbs W y = (b0, b1, 0) \<longrightarrow>
        tw_interp W x y r = tw_interp_k W a0 b0 r + tw_Y W * tw_interp_k W a1 b1 r)"

text \<open>A program whose hash is that of its bytecode, as \<open>assemble\<close> makes it.\<close>

definition table_bytes :: "u64 list \<Rightarrow> byte list" where
  "table_bytes ws = concat (map (\<lambda>w. le_bytes 8 (unat w)) ws)"

definition assembled :: "('e, 'o, 'ps, 'v, 'err) cpu_env \<Rightarrow> ('e, 'o) vm_program \<Rightarrow> bool" where
  "assembled E p \<longleftrightarrow> vp_bytecode_hash p = ce_hash E (table_bytes (ce_bytecode_table E (vp_prog p)))"

lemma assemble_assembled: "assembled E (assemble E ops hints frame)"
  by (simp add: assembled_def assemble_def table_bytes_def)

lemma table_bytes_inject: "table_bytes ws = table_bytes ws' \<Longrightarrow> ws = ws'"
proof (induction ws arbitrary: ws')
  case Nil
  then show ?case by (cases ws') (auto simp: table_bytes_def dest: arg_cong [where f = length])
next
  case (Cons w ws)
  then obtain w' ws'' where ws': "ws' = w' # ws''"
    by (cases ws') (auto simp: table_bytes_def dest: arg_cong [where f = length])
  have "le_bytes 8 (unat w) = le_bytes 8 (unat w')" "table_bytes ws = table_bytes ws''"
    using Cons.prems unfolding ws' by (auto simp: table_bytes_def)
  moreover have "unat x < 256 ^ 8" for x :: u64 using unsigned_less [of x] by simp
  ultimately show ?case using Cons.IH [of ws''] le_bytes_inject [of "unat w" 8 "unat w'"] unfolding ws' by (simp add: word_unat_eq_iff)
qed

lemma digest_words_inject:
  assumes "tower_lawful W" and "digest_words W x = digest_words W y"
    and "\<forall>h \<in> {fst x, snd x, fst y, snd y}. limb2 (tw_limbs W h) = 0"
  shows "x = y"
proof -
  have "tw_limbs W (fst x) = tw_limbs W (fst y)" "tw_limbs W (snd x) = tw_limbs W (snd y)"
    using assms(2,3) by (auto simp: digest_words_def limb2_def split: prod.splits)
  then show ?thesis using assms(1) by (metis tower_lawful_def injD prod.expand)
qed

lemma u64_of_nat_inject: "m < 256 ^ 8 \<Longrightarrow> n < 256 ^ 8 \<Longrightarrow> (of_nat m :: u64) = of_nat n \<Longrightarrow> m = n"
  by (drule arg_cong [where f = unat]) (simp add: unat_of_nat)

lemma digest_word_inject:
  assumes "length d = 32" "length d' = 32" and "\<forall>i \<in> {0, 8, 16, 24}. digest_word d i = digest_word d' i"
  shows "d = d'"
proof -
  have part: "take 8 (drop i d) = take 8 (drop i d')" if "i \<in> {0, 8, 16, 24}" for i
  proof -
    have len: "length (take 8 (drop i d)) = 8" "length (take 8 (drop i d')) = 8" using assms(1,2) that by auto
    then have "le_nat (take 8 (drop i d)) < 256 ^ 8" "le_nat (take 8 (drop i d')) < 256 ^ 8" by (metis le_nat_bound)+
    then have "le_nat (take 8 (drop i d)) = le_nat (take 8 (drop i d'))"
      using assms(3) that unfolding digest_word_def by (intro u64_of_nat_inject) auto
    then show ?thesis using len by (metis le_bytes_le_nat)
  qed
  have "d = take 8 (drop 0 d) @ take 8 (drop 8 d) @ take 8 (drop 16 d) @ take 8 (drop 24 d)" if "length d = 32" for d :: "byte list"
    using that append_take_drop_id [of 8 d] append_take_drop_id [of 8 "drop 8 d"] append_take_drop_id [of 8 "drop 16 d"]
    by (simp del: append_take_drop_id)
  then show ?thesis using assms(1,2) part by (metis insertCI)
qed


end
