(* ===== verification/Cpu_Complete.thy ===== *)
theory Cpu_Complete
  imports Cpu_Facts
begin

text \<open>
  Completeness of the proof of a run: the verifier that reads a proof of the prover accepts it, when each
  argument the proof is composed of does and the witness is what the execution promises.
\<close>

section \<open>What is relied on\<close>

text \<open>The transcript: reads return what was sent, both sides draw the same challenges, the verifier starts
  where the prover started, and a proof that was read to its end is finished.\<close>

definition cpu_transcript ::
  "('e, 'o, 'ps, 'v, 'err) cpu_env \<Rightarrow> ('ps \<Rightarrow> 'ps \<Rightarrow> 'v \<Rightarrow> bool) \<Rightarrow> bool" where
  "cpu_transcript E reads \<longleftrightarrow> (let T = ce_transmitter E in
     (\<forall>p x. lock T reads p (ps_add_scalar T x p) (read_scalar E) x) \<and>
     (\<forall>p x p'. ps_sample T p = (x, p') \<longrightarrow>
        lock T reads p p' (vtake (vs_sample (ce_receiver E)) :: ('v, 'err cpu_error, 'e) reading) x) \<and>
     (\<forall>a b f. transmits T (ce_prover_new E a b) f \<longrightarrow>
        reads f (ce_prover_new E a b) (ce_verifier_new E a (ce_into_proof E f) b)) \<and>
     (\<forall>f v. reads f f v \<longrightarrow> (\<exists>v'. ce_finish E v = Inr v')))"

text \<open>The constants of the tables.\<close>

definition schema_ok :: "('e, 'o, 'ps, 'v, 'err) cpu_env \<Rightarrow> bool" where
  "schema_ok E \<longleftrightarrow> (let S = ce_tables E; n = n_tables E in
     length (vt_base S) = n \<and> vt_blake2s S < n \<and> vt_sha3 S < n \<and>
     length (vt_blake2s_value_cols S) \<le> length (fl_slots (ce_blake2s E)) \<and>
     length (vt_sha3_value_cols S) \<le> length (fl_slots (ce_keccak E)) \<and>
     (\<forall>k. \<forall>source \<in> set (vt_kappa_sources S k). source - 2 < n) \<and>
     (\<forall>m. is_power_of_two m \<longrightarrow> (\<exists>k. ce_log2_strict E m = Value k)))"

text \<open>A witness: its layout is that of its sizes, its columns are in place, a claim that holds of a column
  holds of the committed polynomial where the column is located, and the memory starts with the input.\<close>

definition witness_ok ::
  "('e::zero, 'o, 'ps, 'v, 'err) cpu_env \<Rightarrow> ('e column_claim \<Rightarrow> bool) \<Rightarrow> ('e slot_claim \<Rightarrow> bool) \<Rightarrow> ('e, 'o) vm_program \<Rightarrow>
     'e \<times> 'e \<Rightarrow> ('e, 'o) vm_witness \<Rightarrow> bool" where
  "witness_ok E col holds p x w \<longleftrightarrow> (let S = ce_tables E; l = wt_layout w; places = vl_placements l in
     ce_layout_of E (vp_prog p) (wt_log_mem w) (vl_taus l) x = l \<and> vl_pi l = x \<and> length (vl_taus l) = n_tables E \<and>
     vt_mem_lo S < length places \<and> pl_n_vars (places ! vt_mem_lo S) \<noteq> 0 \<and>
     vt_qflock S < length places \<and> vt_qflock_k S < length places \<and>
     (\<forall>t < n_tables E. vt_base S ! t + tb_n_committed_columns (vt_tables S ! t) \<le> length (wt_columns w)) \<and>
     (\<forall>c. col c \<longrightarrow> blake2s_value_slot E (cc_col c) = Value None \<longrightarrow> sha3_value_slot E (cc_col c) = Value None \<longrightarrow>
        cc_col c < length places) \<and>
     (\<forall>c s. col c \<longrightarrow> slot_of_claim E l c = Value s \<longrightarrow> holds s) \<and>
     (\<forall>r a0 a1 b0 b1. tw_limbs (ce_tower E) (fst x) = (a0, a1, 0) \<longrightarrow> tw_limbs (ce_tower E) (snd x) = (b0, b1, 0) \<longrightarrow>
        (\<forall>i < 3. col (limb_claim S l r [tw_interp_k (ce_tower E) a0 b0 r, tw_interp_k (ce_tower E) a1 b1 r, 0] i))) \<and>
     fl_n_blocks (ce_blake2s E) (wt_flock_reduction w) = max (2 ^ (vl_taus l ! vt_blake2s S)) 1 \<and>
     fl_n_blocks (ce_keccak E) (wt_flock_reduction_k w) = max (2 ^ (vl_taus l ! vt_sha3 S)) 1)"

text \<open>The bus: its claims hold of the columns, and the share of the tables on each side is the sum of their
  shares.\<close>

definition bus_ok ::
  "('e::comm_ring_1, 'o, 'ps, 'v, 'err) cpu_env \<Rightarrow> ('ps \<Rightarrow> 'ps \<Rightarrow> 'v \<Rightarrow> bool) \<Rightarrow> ('e column_claim \<Rightarrow> bool) \<Rightarrow> ('e, 'o) vm_program \<Rightarrow>
     ('e, 'o) vm_witness \<Rightarrow> bool" where
  "bus_ok E reads col p w \<longleftrightarrow> (let l = wt_layout w in \<forall>owners spans ps bus ps'.
     bus_wiring E p l = Value (owners, spans) \<longrightarrow>
     ce_prove_balance E (vl_push l) (vl_pull l) (vl_count l) (wt_columns w) owners spans ps = (bus, ps') \<longrightarrow>
     (\<forall>c \<in> set (bp_claims bus). col c) \<and>
     length (bp_forms bus) = 3 \<and> (\<forall>side \<in> set (bp_forms bus). length side = n_tables E) \<and>
     length (bp_sigmas bus) = 3 \<and> (\<forall>side \<in> set (bp_sigmas bus). length side = n_tables E) \<and>
     (\<exists>claim. lock (ce_transmitter E) reads ps ps'
        (vread_as CE_Bus (ce_verify_balance E (vl_push l) (vl_pull l) (vl_count l) owners spans))
        \<lparr>bk_claims = bp_claims bus, bk_forms = bp_forms bus, bk_point = bp_point bus,
         bk_totals = map sum_list (bp_sigmas bus), bk_bytecode_claim = claim\<rparr>))"

text \<open>The sumcheck of the tables: for the forms and shares of the bus, it settles the sum of what the tables
  owe, and its claims hold of the columns.\<close>

definition constraints_ok ::
  "('e::comm_ring_1, 'o, 'ps, 'v, 'err) cpu_env \<Rightarrow> ('ps \<Rightarrow> 'ps \<Rightarrow> 'v \<Rightarrow> bool) \<Rightarrow> ('e column_claim \<Rightarrow> bool) \<Rightarrow> ('e, 'o) vm_program \<Rightarrow>
     ('e, 'o) vm_witness \<Rightarrow> bool" where
  "constraints_ok E reads col p w \<longleftrightarrow> (let l = wt_layout w; S = ce_tables E in
     \<forall>owners spans ps bus ps' cols xi pows sigma tables ps1 claims ps2.
     bus_wiring E p l = Value (owners, spans) \<longrightarrow>
     ce_prove_balance E (vl_push l) (vl_pull l) (vl_count l) (wt_columns w) owners spans ps = (bus, ps') \<longrightarrow>
     outcomes (span_columns (wt_columns w)) spans = Value cols \<longrightarrow> xi_form_pows (ce_tower E) S xi = Value pows \<longrightarrow>
     sigmas S (bp_sigmas bus) pows = Value sigma \<longrightarrow> airs S (vl_taus l) (bp_forms bus) pows = Value tables \<longrightarrow>
     ce_prove_constraints E tables cols xi (bp_point bus) sigma ps1 = (claims, ps2) \<longrightarrow>
     length claims = n_tables E \<and>
     (\<forall>t < n_tables E. \<forall>c < tb_n_committed_columns (vt_tables S ! t).
        c < length (tc_evals (claims ! t)) \<and> col (column_of S claims t c)) \<and>
     lock (ce_transmitter E) reads ps1 ps2
       (vread_as CE_Constraint (ce_verify_constraints E tables xi (bp_point bus) (sum_list sigma))) claims)"

text \<open>A hash circuit, up to the relation of the openings of its region on the two sides.\<close>

definition flock_ok ::
  "('ps, 'e, 'o, 'o) transmitter \<Rightarrow> ('ps \<Rightarrow> 'ps \<Rightarrow> 'v \<Rightarrow> bool) \<Rightarrow> ('o \<Rightarrow> 'o \<Rightarrow> bool) \<Rightarrow> ('err \<Rightarrow> 'err cpu_error) \<Rightarrow>
     ('o, 'ps, 'v, 'err) flock_circuit \<Rightarrow> 'o \<Rightarrow> bool" where
  "flock_ok T reads ring err C reduction \<longleftrightarrow> (let n = fl_n_blocks C reduction in
     \<forall>ps reduced ps'. fl_prove C reduction ps = (reduced, ps') \<longrightarrow>
       (\<exists>replay. lock T reads ps ps' (vread_as err (fl_verify_reduction C n)) replay \<and>
          (\<forall>offset. ring (fl_open C n offset reduced) (fl_verify C n offset (fr_claim replay)))))"

text \<open>The opening: rebuilding a released codeword gives the commitment back, rates are one to four, and
  claims that hold are opened.\<close>

definition opener_ok ::
  "('e, 'o, 'ps, 'v, 'err) cpu_env \<Rightarrow> ('ps \<Rightarrow> 'ps \<Rightarrow> 'v \<Rightarrow> bool) \<Rightarrow> ('e slot_claim \<Rightarrow> bool) \<Rightarrow> ('o \<Rightarrow> 'o \<Rightarrow> bool) \<Rightarrow>
     ('e, 'o) vm_witness \<Rightarrow> bool" where
  "opener_ok E reads holds ring w \<longleftrightarrow> (let Q = ce_opener E; T = ce_transmitter E; shape = vl_shape (wt_layout w) in
     \<forall>rate ps cm ps'. op_rate_ok Q rate \<longrightarrow> op_commit Q (wt_q w) shape rate ps = (cm, ps') \<longrightarrow>
       rate \<le> 4 \<and> op_rebuild Q (wt_q w) (op_release Q cm) = cm \<and>
       (\<exists>root. lock T reads ps ps' (vread_as CE_Transcript (op_read_commitment Q)) root \<and>
          (\<forall>slots rings rings' ps. (\<forall>s \<in> set slots. holds s) \<longrightarrow> list_all2 ring rings rings' \<longrightarrow>
             lock T reads ps (op_open Q cm (wt_q w) slots rings ps)
               (vread_as CE_Open (op_verify Q slots rings' shape rate root)) ())))"

definition parts_lawful ::
  "('e::comm_ring_1, 'o, 'ps, 'v, 'err) cpu_env \<Rightarrow> ('ps \<Rightarrow> 'ps \<Rightarrow> 'v \<Rightarrow> bool) \<Rightarrow> bool" where
  "parts_lawful E reads \<longleftrightarrow> tower_lawful (ce_tower E) \<and> cpu_transcript E reads \<and> schema_ok E \<and>
     (\<forall>p x. let exec = ce_execute_to_floor E p x; w = ce_build E p exec in
        ex_unconstrained_reads exec = [] \<longrightarrow> (\<exists>col holds ring.
          witness_ok E col holds p x w \<and> bus_ok E reads col p w \<and> constraints_ok E reads col p w \<and>
          flock_ok (ce_transmitter E) reads ring CE_Blake2s (ce_blake2s E) (wt_flock_reduction w) \<and>
          flock_ok (ce_transmitter E) reads ring CE_Sha3 (ce_keccak E) (wt_flock_reduction_k w) \<and>
          opener_ok E reads holds ring w))"

section \<open>Running the verifier\<close>

lemma run_lock:
  assumes "lock T reads p p' m a" and "transmits T p' f" and "reads f p v"
    and "\<And>v'. reads f p' v' \<Longrightarrow> \<exists>r. k a v' = Value (Inr r) \<and> Q r"
  shows "\<exists>r. vbind m k v = Value (Inr r) \<and> Q r"
proof -
  obtain v' where "m v = Value (Inr (a, v'))" "reads f p' v'"
    using assms(1) [unfolded lock_def, THEN conjunct2, rule_format, OF assms(2,3)] by blast
  then show ?thesis using assms(4) by (simp add: vbind_def)
qed

lemma run_pure: "m = Value a \<Longrightarrow> \<exists>r. k a v = Value (Inr r) \<and> Q r \<Longrightarrow> \<exists>r. vbind (vlift m) k v = Value (Inr r) \<and> Q r"
  by (simp add: vbind_def vlift_def)

lemma run_check: "c \<Longrightarrow> \<exists>r. k () v = Value (Inr r) \<and> Q r \<Longrightarrow> \<exists>r. vbind (vcheck c e) k v = Value (Inr r) \<and> Q r"
  by (simp add: vbind_def vcheck_def vret_def)

lemma run_take: "\<exists>r. k (g v) v = Value (Inr r) \<and> Q r \<Longrightarrow> \<exists>r. vbind (vtake (\<lambda>v. (g v, v))) k v = Value (Inr r) \<and> Q r"
  by (simp add: vbind_def vtake_def)

section \<open>Announced sizes\<close>

lemma cpu_locks:
  fixes E :: "('e, 'o, 'ps, 'v, 'err) cpu_env"
  assumes "cpu_transcript E reads"
  shows "lock (ce_transmitter E) reads p (ps_add_scalar (ce_transmitter E) x p) (read_scalar E) x"
    and "ps_sample (ce_transmitter E) p = (x, p') \<Longrightarrow> lock (ce_transmitter E) reads p p'
      (vtake (vs_sample (ce_receiver E)) :: ('v, 'err cpu_error, 'e) reading) x"
    and "transmits (ce_transmitter E) (ce_prover_new E a b) f \<Longrightarrow>
      reads f (ce_prover_new E a b) (ce_verifier_new E a (ce_into_proof E f) b)"
    and "reads f f v \<Longrightarrow> \<exists>v'. ce_finish E v = Inr v'"
  using assms unfolding cpu_transcript_def Let_def by blast+

lemma size_lock:
  assumes "tower_lawful (ce_tower E)" and "cpu_transcript E reads" and "n < 2 ^ 64"
  shows "lock (ce_transmitter E) reads p (send_size E n p) (read_size E) n"
proof -
  have "unat (of_nat n :: u64) = n" using assms(3) by (simp add: unat_of_nat)
  moreover have "tw_limbs (ce_tower E) (tw_new (ce_tower E) (of_nat n) 0 0) = (of_nat n, 0, 0)"
    using assms(1) by (simp add: tower_lawful_def)
  ultimately show ?thesis unfolding read_size_def send_size_def
    by (intro lock_bind [OF cpu_locks(1) [OF assms(2), of p "tw_new (ce_tower E) (of_nat n) 0 0"]])
      (simp, intro lock_check, simp_all)
qed

lemma sizes_lock:
  assumes "tower_lawful (ce_tower E)" and "cpu_transcript E reads" and "\<forall>t \<in> set ts. t < 2 ^ 64"
  shows "lock (ce_transmitter E) reads p (fold (send_size E) ts p) (read_sizes E (length ts)) ts"
  using assms(3)
proof (induction ts arbitrary: p)
  case (Cons t ts)
  have one: "lock (ce_transmitter E) reads p (send_size E t p) (read_size E) t"
    using Cons.prems by (intro size_lock [OF assms(1,2)]) simp
  have rest: "lock (ce_transmitter E) reads (send_size E t p) (fold (send_size E) ts (send_size E t p)) (read_sizes E (length ts)) ts"
    using Cons by simp
  show ?case by (simp, rule lock_bind [OF one], rule lock_bind [OF rest], rule lock_ret)
qed simp

lemma public_lock:
  assumes "tower_lawful (ce_tower E)" and "cpu_transcript E reads" and "rate \<le> 4"
    and "sizes_ok E (length (vp_prog p)) log_mem taus rate" and "length taus = n_tables E"
    and "ce_layout_of E (vp_prog p) log_mem taus x = l" and "mu_ok E l"
    and "limb2 (tw_limbs (ce_tower E) (fst x)) = 0" "limb2 (tw_limbs (ce_tower E) (snd x)) = 0"
  shows "lock (ce_transmitter E) reads ps (announce_public E log_mem taus rate ps) (read_public E p x) (l, rate)"
proof -
  have "log_mem < 2 ^ 64" "\<forall>t \<in> set taus. t < 2 ^ 64"
    using assms(4) by (auto simp: sizes_ok_def list_ex_iff MAX_LOG_MEM_def MAX_LOG_ROWS_def not_less dest!: bspec)
  then have sizes: "lock (ce_transmitter E) reads ps (send_size E log_mem ps) (read_size E) log_mem"
    "lock (ce_transmitter E) reads (send_size E log_mem ps) (fold (send_size E) taus (send_size E log_mem ps))
      (read_sizes E (n_tables E)) taus"
    "lock (ce_transmitter E) reads (fold (send_size E) taus (send_size E log_mem ps)) (announce_public E log_mem taus rate ps)
      (read_size E) rate"
    using size_lock [OF assms(1,2)] sizes_lock [OF assms(1,2), of taus] assms(3,5) by (simp_all add: announce_public_def)
  show ?thesis
    unfolding read_public_def Let_def
    by (rule lock_check, simp add: assms, rule lock_bind [OF sizes(1)], rule lock_bind [OF sizes(2)], rule lock_bind [OF sizes(3)],
        rule lock_check, simp add: assms, rule lock_check, simp_all add: assms)
qed

section \<open>The shares of the tables\<close>

lemma form_pows_Value:
  assumes "tower_lawful W"
  shows "xi_form_pows W S xi = Value [xi ^ xi_form_base S, xi ^ (xi_form_base S + 1), xi ^ (xi_form_base S + 2)]"
  using assms by (simp add: xi_form_pows_def tower_lawful_def Let_def index_def del: upt_Suc)

lemma weighted_sides_Value:
  assumes "\<And>s. s < 3 \<Longrightarrow> x s = Value (y s)"
  shows "weighted_sides [p0, p1, p2] x = Value (p0 * y 0 + p1 * y 1 + p2 * y 2)"
  using assms [of 0] assms [of 1] assms [of 2] by (simp add: weighted_sides_def index_def numeral_2_eq_2)

text \<open>What the tables owe, with shared weights, is what the sides owe.\<close>

lemma sigmas_target:
  fixes bus :: "'e::comm_ring_1 list list"
  assumes "length bus = 3" and "\<forall>side \<in> set bus. length side = length (vt_tables S)"
  shows "\<exists>sigma. sigmas S bus [p0, p1, p2] = Value sigma \<and>
    weighted_sides [p0, p1, p2] (index (map sum_list bus)) = Value (sum_list sigma)"
proof -
  let ?n = "length (vt_tables S)" let ?y = "\<lambda>t. p0 * bus ! 0 ! t + p1 * bus ! 1 ! t + p2 * bus ! 2 ! t"
  have len: "s < 3 \<Longrightarrow> length (bus ! s) = ?n" for s using assms by simp
  have "sigmas S bus [p0, p1, p2] = Value (map ?y [0..<?n])"
    unfolding sigmas_def using assms(1) len
    by (intro outcomes_map weighted_sides_Value) (auto simp: index_def)
  moreover have "weighted_sides [p0, p1, p2] (index (map sum_list bus)) =
      Value (p0 * sum_list (bus ! 0) + p1 * sum_list (bus ! 1) + p2 * sum_list (bus ! 2))"
    using assms(1) by (intro weighted_sides_Value) (simp add: index_def)
  moreover have "sum_list (bus ! s) = (\<Sum>t\<leftarrow>[0..<?n]. bus ! s ! t)" if "s < 3" for s
    using map_nth [of "bus ! s"] len [OF that] by simp
  then have "sum_list (map ?y [0..<?n]) = p0 * sum_list (bus ! 0) + p1 * sum_list (bus ! 1) + p2 * sum_list (bus ! 2)"
    by (simp add: sum_list_addf sum_list_const_mult)
  ultimately show ?thesis by auto
qed

section \<open>Nothing panics\<close>

lemma wiring_Value:
  assumes "schema_ok E" and "is_power_of_two (length (vp_prog p))"
  shows "\<exists>owners. bus_wiring E p l = Value (owners,
    map (\<lambda>t. (vt_base (ce_tables E) ! t, tb_n_committed_columns (vt_tables (ce_tables E) ! t))) [0..<n_tables E])"
proof -
  obtain k where k: "ce_log2_strict E (length (vp_prog p)) = Value k"
    using assms by (auto simp: schema_ok_def Let_def)
  have enum: "enumerate 0 (vt_tables (ce_tables E)) = map (\<lambda>t. (t, vt_tables (ce_tables E) ! t)) [0..<n_tables E]"
    by (intro nth_equalityI) (simp_all add: nth_enumerate_eq n_tables_def)
  have spans: "table_spans (ce_tables E) =
      Value (map (\<lambda>t. (vt_base (ce_tables E) ! t, tb_n_committed_columns (vt_tables (ce_tables E) ! t))) [0..<n_tables E])"
    unfolding table_spans_def enum outcomes_Value list_all2_map1 list_all2_map2
    using assms(1) by (auto simp: list_all2_conv_all_nth schema_ok_def Let_def index_def)
  have owner: "\<exists>o'. block_owner (ce_tables E) s = Value o'" if "s \<in> set (vt_kappa_sources (ce_tables E) k)" for s
    using assms(1) that by (auto simp: block_owner_def index_def schema_ok_def Let_def)
  have side: "set side \<subseteq> set xs" if "side \<in> set (split_sides ns xs)" for side ns and xs :: "nat list"
    using that by (induction ns xs rule: split_sides.induct) (auto dest: in_set_takeD in_set_dropD)
  have "\<exists>owners. block_owners (ce_tables E) k sides = Value owners" for sides
    unfolding block_owners_def by (intro outcomes_exists) (use owner side in blast)
  then obtain owners where
    "block_owners (ce_tables E) k [length (vl_push l), length (vl_pull l), length (vl_count l)] = Value owners" by blast
  then show ?thesis using k spans by (simp add: bus_wiring_def)
qed

lemma airs_Value:
  assumes "length forms = 3" and "\<forall>side \<in> set forms. length side = length (vt_tables S)"
  shows "\<exists>tables. airs S taus forms [p0, p1, p2] = Value tables"
proof -
  have len: "s < 3 \<Longrightarrow> length (forms ! s) = length (vt_tables S)" for s using assms by simp
  show ?thesis
    unfolding airs_def
    by (intro outcomes_exists)
      (use assms(1) len [of 0] len [of 1] len [of 2] in \<open>auto simp: index_def numeral_2_eq_2 in_set_enumerate_eq Let_def\<close>)
qed

lemma slot_Value:
  assumes "schema_ok E" and "witness_ok E col holds p x w" and "col c"
  shows "\<exists>s. slot_of_claim E (wt_layout w) c = Value s \<and> holds s"
proof -
  have slot: "\<exists>s. value_slot cols base slots n = Value s" if "length cols \<le> length slots" for cols base slots n
  proof (cases "find (\<lambda>(_, c). base + c = n) (enumerate 0 cols)")
    case (Some q)
    then have "q \<in> set (enumerate 0 cols)" by (metis find_Some_iff nth_mem)
    then have "fst q < length slots" using that unfolding in_set_enumerate_eq by simp
    then show ?thesis using Some by (cases q) (simp add: value_slot_def index_def)
  qed (simp add: value_slot_def)
  note wf = assms(1) [unfolded schema_ok_def Let_def] and w = assms(2) [unfolded witness_ok_def Let_def]
  have "\<exists>b. blake2s_value_slot E (cc_col c) = Value b" "\<exists>k. sha3_value_slot E (cc_col c) = Value k"
    using slot [of "vt_blake2s_value_cols (ce_tables E)" "fl_slots (ce_blake2s E)"]
      slot [of "vt_sha3_value_cols (ce_tables E)" "fl_slots (ce_keccak E)"] wf
    by (simp_all add: blake2s_value_slot_def sha3_value_slot_def index_def)
  then obtain b k where bk: "blake2s_value_slot E (cc_col c) = Value b" "sha3_value_slot E (cc_col c) = Value k" by blast
  then have "b = None \<Longrightarrow> k = None \<Longrightarrow> cc_col c < length (vl_placements (wt_layout w))" using w assms(3) by blast
  then have "\<exists>s. slot_of_claim E (wt_layout w) c = Value s"
    using bk w by (cases b; cases k) (simp_all add: slot_of_claim_def index_def)
  then show ?thesis using w assms(3) by blast
qed

lemma finish_Value:
  assumes "schema_ok E" and "witness_ok E col holds p x w"
    and "\<forall>c \<in> set bus_claims. col c" and "length claims = n_tables E"
    and "\<forall>t < n_tables E. \<forall>c < tb_n_committed_columns (vt_tables (ce_tables E) ! t).
        c < length (tc_evals (claims ! t)) \<and> col (column_of (ce_tables E) claims t c)"
    and "\<forall>i < 3. col (limb_claim (ce_tables E) (wt_layout w) r limbs i)" and "length limbs = 3"
  shows "\<exists>slots. finish_claims E (wt_layout w) bus_claims claims r limbs = Value slots \<and> (\<forall>s \<in> set slots. holds s)"
proof -
  obtain columns where columns: "table_column_claims (ce_tables E) claims = Value columns" "\<forall>c \<in> set columns. col c"
    using assms(1,4,5) by (auto simp: table_column_claims_Value schema_ok_def Let_def n_tables_def)
  let ?all = "bus_claims @ columns @ map (limb_claim (ce_tables E) (wt_layout w) r limbs) [0, 1, 2]"
  have "\<exists>s. slot_of_claim E (wt_layout w) c = Value s \<and> holds s" if "c \<in> set ?all" for c
    using slot_Value [OF assms(1,2)] assms(3,6) columns(2) that by auto
  then obtain f where f: "\<forall>c \<in> set ?all. slot_of_claim E (wt_layout w) c = Value (f c) \<and> holds (f c)" by metis
  then have slots: "list_all2 (\<lambda>c s. slot_of_claim E (wt_layout w) c = Value s) ?all (map f ?all)"
    unfolding list_all2_map2 by (intro list.rel_refl_strong) blast
  have "vt_mem_lo (ce_tables E) < length (vl_placements (wt_layout w))"
    "pl_n_vars (vl_placements (wt_layout w) ! vt_mem_lo (ce_tables E)) \<noteq> 0"
    using assms(2) unfolding witness_ok_def Let_def by blast+
  then have "finish_claims E (wt_layout w) bus_claims claims r limbs = Value (map f ?all)"
    unfolding finish_claims_Value [OF assms(7)] using columns(1) slots by blast
  moreover have "\<forall>s \<in> set (map f ?all). holds s" using f by auto
  ultimately show ?thesis by blast
qed

section \<open>Prover and verifier\<close>

text \<open>The verifier runs along a prover that went from \<open>ps\<close> to \<open>f\<close> with each part in lockstep.\<close>

lemma verifier_runs:
  fixes E :: "('e::comm_ring_1, 'o, 'ps, 'v, 'err) cpu_env"
  defines "T \<equiv> ce_transmitter E" and "S \<equiv> ce_tables E"
  assumes lawful: "cpu_transcript E reads"
    and public: "lock T reads ps ps1 (read_public E p x) (l, rate)"
    and root: "lock T reads ps1 ps2 (vread_as CE_Transcript (op_read_commitment (ce_opener E))) root"
    and wiring: "bus_wiring E p l = Value (owners, spans)"
    and balanced: "lock T reads ps2 ps3 (vread_as CE_Bus (ce_verify_balance E (vl_push l) (vl_pull l) (vl_count l) owners spans)) b"
    and xi: "ps_sample T ps3 = (xi, ps4)" and pows: "xi_form_pows (ce_tower E) S xi = Value pows"
    and target: "weighted_sides pows (index (bk_totals b)) = Value owed"
    and tables: "airs S (vl_taus l) (bk_forms b) pows = Value tables"
    and proved: "lock T reads ps4 ps5 (vread_as CE_Constraint (ce_verify_constraints E tables xi (bk_point b) owed)) cl"
    and r: "ps_sample T ps5 = (r, ps6)" and ps7: "ps7 = ps_add_scalar T hi (ps_add_scalar T lo ps6)"
    and line: "lo + tw_Y (ce_tower E) * hi = tw_interp (ce_tower E) (fst (vl_pi l)) (snd (vl_pi l)) r"
    and slots: "finish_claims E l (bk_claims b) cl r [lo, hi, 0] = Value slots"
    and taus: "index (vl_taus l) (vt_blake2s S) = Value tau" "index (vl_taus l) (vt_sha3 S) = Value tau_k"
    and replay: "lock T reads ps7 ps8 (vread_as CE_Blake2s (fl_verify_reduction (ce_blake2s E) (max (2 ^ tau) 1))) replay"
      "lock T reads ps8 ps9 (vread_as CE_Sha3 (fl_verify_reduction (ce_keccak E) (max (2 ^ tau_k) 1))) replay_k"
    and places: "index (vl_placements l) (vt_qflock S) = Value place" "index (vl_placements l) (vt_qflock_k S) = Value place_k"
    and opened: "lock T reads ps9 f (vread_as CE_Open (op_verify (ce_opener E) slots
      [fl_verify (ce_blake2s E) (max (2 ^ tau) 1) (pl_offset place) (fr_claim replay),
       fl_verify (ce_keccak E) (max (2 ^ tau_k) 1) (pl_offset place_k) (fr_claim replay_k)] (vl_shape l) rate root)) ()"
  shows "transmits T ps f \<and> (reads f ps v \<longrightarrow>
    (\<exists>r'. vm_verify_from E p x v = Value (Inr r') \<and> sm_log_inv_rate (fst r') = rate))"
proof -
  note sends = cpu_locks(1) [OF lawful, folded T_def] and draws = cpu_locks(2) [OF lawful, folded T_def]
  note locks = public root balanced draws [OF xi] proved draws [OF r] sends [of ps6 lo] sends [of "ps_add_scalar T lo ps6" hi, folded ps7]
    replay opened
  note steps = locks [THEN lock_transmits]
  have reach: "transmits T ps9 f" "transmits T ps8 f" "transmits T ps7 f" "transmits T (ps_add_scalar T lo ps6) f"
    "transmits T ps6 f" "transmits T ps5 f" "transmits T ps4 f" "transmits T ps3 f" "transmits T ps2 f" "transmits T ps1 f"
    "transmits T ps f" "transmits T f f"
    using steps by (meson transmits_trans transmits.finished)+
  have "\<exists>r'. vm_verify_from E p x v = Value (Inr r') \<and> sm_log_inv_rate (fst r') = rate" if v: "reads f ps v"
    unfolding vm_verify_from_def Let_def
    apply (rule run_lock [OF public reach(10) v])
    apply (simp only: prod.case)
    apply (erule run_lock [OF root reach(9)])
    apply (rule run_pure [OF taus(1) [unfolded S_def]], rule run_pure [OF taus(2) [unfolded S_def]], rule run_pure [OF wiring])
    apply (simp only: prod.case)
    apply (erule run_lock [OF balanced reach(8)])
    apply (erule run_lock [OF draws [OF xi] reach(7)])
    apply (rule run_pure [OF pows [unfolded S_def]])
    apply (rule run_pure [OF target], rule run_pure [OF tables [unfolded S_def]])
    apply (erule run_lock [OF proved reach(6)])
    apply (erule run_lock [OF draws [OF r] reach(5)])
    apply (erule run_lock [OF sends reach(4)])
    apply (erule run_lock [OF sends [of "ps_add_scalar T lo ps6" hi, folded ps7] reach(3)])
    apply (rule run_check, simp add: line)
    apply (rule run_pure [OF slots(1)])
    apply (erule run_lock [OF replay(1) reach(2)])
    apply (rule run_take)
    apply (erule run_lock [OF replay(2) reach(1)])
    apply (rule run_take)
    apply (rule run_pure [OF places(1) [unfolded S_def]], rule run_pure [OF places(2) [unfolded S_def]])
    apply (erule run_lock [OF opened reach(12)])
    apply (drule cpu_locks(4) [OF lawful])
    apply (auto simp: vbind_def vread_as_def map_err_def vtake_def vret_def)
    done
  then show ?thesis using reach(11) by blast
qed

lemma witness_accepted:
  fixes E :: "('e::comm_ring_1, 'o, 'ps, 'v, 'err) cpu_env"
  assumes lawful: "tower_lawful (ce_tower E)" "cpu_transcript E reads" "schema_ok E"
    and w: "witness_ok E col holds p x w" and bus: "bus_ok E reads col p w" and con: "constraints_ok E reads col p w"
    and flock: "flock_ok (ce_transmitter E) reads ring CE_Blake2s (ce_blake2s E) (wt_flock_reduction w)"
      "flock_ok (ce_transmitter E) reads ring CE_Sha3 (ce_keccak E) (wt_flock_reduction_k w)"
    and opener: "opener_ok E reads holds ring w"
    and sizes: "op_rate_ok (ce_opener E) rate" "mu_ok E (wt_layout w)"
      "sizes_ok E (length (vp_prog p)) (wt_log_mem w) (vl_taus (wt_layout w)) rate"
    and input: "limb2 (tw_limbs (ce_tower E) (fst x)) = 0" "limb2 (tw_limbs (ce_tower E) (snd x)) = 0"
  shows "\<exists>ps'. (\<forall>retain. prove_witness E retain p w rate ps = Value ps') \<and> transmits (ce_transmitter E) ps ps' \<and>
    (\<forall>v. reads ps' ps v \<longrightarrow> (\<exists>r. vm_verify_from E p x v = Value (Inr r) \<and> sm_log_inv_rate (fst r) = rate))"
proof -
  let ?T = "ce_transmitter E" let ?S = "ce_tables E" let ?Q = "ce_opener E" let ?W = "ce_tower E"
  let ?l = "wt_layout w" let ?n = "n_tables E"
  note wl = w [unfolded witness_ok_def Let_def] and sch = lawful(3) [unfolded schema_ok_def Let_def]
  define ps1 where "ps1 = announce_public E (wt_log_mem w) (vl_taus ?l) rate ps"
  obtain cm ps2 where commit: "op_commit ?Q (wt_q w) (vl_shape ?l) rate ps1 = (cm, ps2)" by (cases "op_commit ?Q (wt_q w) (vl_shape ?l) rate ps1")
  obtain root where rate: "rate \<le> 4" and rebuild: "op_rebuild ?Q (wt_q w) (op_release ?Q cm) = cm"
    and root: "lock ?T reads ps1 ps2 (vread_as CE_Transcript (op_read_commitment ?Q)) root"
    and opens: "\<And>slots rings rings' ps. \<forall>s \<in> set slots. holds s \<Longrightarrow> list_all2 ring rings rings' \<Longrightarrow>
      lock ?T reads ps (op_open ?Q cm (wt_q w) slots rings ps) (vread_as CE_Open (op_verify ?Q slots rings' (vl_shape ?l) rate root)) ()"
    using opener [unfolded opener_ok_def Let_def, rule_format, OF sizes(1) commit] by blast
  have public: "lock ?T reads ps ps1 (read_public E p x) (?l, rate)"
    unfolding ps1_def using wl sizes input by (intro public_lock [OF lawful(1,2) rate]) auto
  obtain owners where wiring: "bus_wiring E p ?l = Value (owners,
      map (\<lambda>t. (vt_base ?S ! t, tb_n_committed_columns (vt_tables ?S ! t))) [0..<?n])" (is "_ = Value (_, ?spans)")
    using wiring_Value [OF lawful(3)] sizes(3) by (auto simp: sizes_ok_def)
  obtain b ps3 where balance: "ce_prove_balance E (vl_push ?l) (vl_pull ?l) (vl_count ?l) (wt_columns w) owners ?spans ps2 = (b, ps3)"
    by fastforce
  obtain claim where b: "\<forall>c \<in> set (bp_claims b). col c" "length (bp_forms b) = 3" "\<forall>side \<in> set (bp_forms b). length side = ?n"
      "length (bp_sigmas b) = 3" "\<forall>side \<in> set (bp_sigmas b). length side = ?n"
    and balanced: "lock ?T reads ps2 ps3 (vread_as CE_Bus (ce_verify_balance E (vl_push ?l) (vl_pull ?l) (vl_count ?l) owners ?spans))
        \<lparr>bk_claims = bp_claims b, bk_forms = bp_forms b, bk_point = bp_point b,
         bk_totals = map sum_list (bp_sigmas b), bk_bytecode_claim = claim\<rparr>"
    using bus [unfolded bus_ok_def Let_def, rule_format, OF wiring balance] by blast
  have "\<exists>cols. outcomes (span_columns (wt_columns w)) ?spans = Value cols"
  proof (intro outcomes_exists)
    fix span assume "span \<in> set ?spans"
    then have "fst span + snd span \<le> length (wt_columns w)" using wl by auto
    then show "\<exists>y. span_columns (wt_columns w) span = Value y"
      unfolding span_columns_def by (intro outcomes_exists) (simp add: index_def)
  qed
  then obtain cols where cols: "outcomes (span_columns (wt_columns w)) ?spans = Value cols" ..
  obtain xi ps4 where xi: "ps_sample ?T ps3 = (xi, ps4)" by fastforce
  obtain p0 p1 p2 where pows: "xi_form_pows ?W ?S xi = Value [p0, p1, p2]" using form_pows_Value [OF lawful(1)] by blast
  obtain sigma where sigma: "sigmas ?S (bp_sigmas b) [p0, p1, p2] = Value sigma"
    and target: "weighted_sides [p0, p1, p2] (index (map sum_list (bp_sigmas b))) = Value (sum_list sigma)"
    using sigmas_target [of "bp_sigmas b" ?S] b(4,5) unfolding n_tables_def by blast
  obtain tables where tables: "airs ?S (vl_taus ?l) (bp_forms b) [p0, p1, p2] = Value tables"
    using airs_Value [of "bp_forms b" ?S] b(2,3) unfolding n_tables_def by blast
  obtain cl ps5 where prove: "ce_prove_constraints E tables cols xi (bp_point b) sigma ps4 = (cl, ps5)" by fastforce
  have cl: "length cl = ?n" "\<forall>t < ?n. \<forall>c < tb_n_committed_columns (vt_tables ?S ! t).
        c < length (tc_evals (cl ! t)) \<and> col (column_of ?S cl t c)"
    and proved: "lock ?T reads ps4 ps5 (vread_as CE_Constraint (ce_verify_constraints E tables xi (bp_point b) (sum_list sigma))) cl"
    using con [unfolded constraints_ok_def Let_def, rule_format, OF wiring balance cols pows sigma tables prove] by blast+
  obtain r ps6 where r: "ps_sample ?T ps5 = (r, ps6)" by fastforce
  obtain a0 a1 b0 b1 where limbs: "tw_limbs ?W (fst x) = (a0, a1, 0)" "tw_limbs ?W (snd x) = (b0, b1, 0)"
    using input by (cases "tw_limbs ?W (fst x)"; cases "tw_limbs ?W (snd x)") (simp add: limb2_def)
  let ?lo = "tw_interp_k ?W a0 b0 r" let ?hi = "tw_interp_k ?W a1 b1 r"
  have line: "?lo + tw_Y ?W * ?hi = tw_interp ?W (fst x) (snd x) r" using lawful(1) limbs by (simp add: tower_lawful_def)
  have "\<forall>i < 3. col (limb_claim ?S ?l r [?lo, ?hi, 0] i)" using wl limbs by blast
  from finish_Value [OF lawful(3) w b(1) cl(1,2) this] obtain slots
    where slots: "finish_claims E ?l (bp_claims b) cl r [?lo, ?hi, 0] = Value slots" "\<forall>s \<in> set slots. holds s" by auto
  let ?ps7 = "ps_add_scalar ?T ?hi (ps_add_scalar ?T ?lo ps6)"
  obtain red ps8 where red: "fl_prove (ce_blake2s E) (wt_flock_reduction w) ?ps7 = (red, ps8)" by fastforce
  obtain redk ps9 where redk: "fl_prove (ce_keccak E) (wt_flock_reduction_k w) ps8 = (redk, ps9)" by fastforce
  let ?nb = "fl_n_blocks (ce_blake2s E) (wt_flock_reduction w)" let ?nk = "fl_n_blocks (ce_keccak E) (wt_flock_reduction_k w)"
  obtain replay where replay: "lock ?T reads ?ps7 ps8 (vread_as CE_Blake2s (fl_verify_reduction (ce_blake2s E) ?nb)) replay"
      "\<And>off. ring (fl_open (ce_blake2s E) ?nb off red) (fl_verify (ce_blake2s E) ?nb off (fr_claim replay))"
    using flock(1) [unfolded flock_ok_def Let_def, rule_format, OF red] by blast
  obtain replayk where replayk: "lock ?T reads ps8 ps9 (vread_as CE_Sha3 (fl_verify_reduction (ce_keccak E) ?nk)) replayk"
      "\<And>off. ring (fl_open (ce_keccak E) ?nk off redk) (fl_verify (ce_keccak E) ?nk off (fr_claim replayk))"
    using flock(2) [unfolded flock_ok_def Let_def, rule_format, OF redk] by blast
  let ?o = "pl_offset (vl_placements ?l ! vt_qflock ?S)" let ?ok = "pl_offset (vl_placements ?l ! vt_qflock_k ?S)"
  let ?rings = "[fl_open (ce_blake2s E) ?nb ?o red, fl_open (ce_keccak E) ?nk ?ok redk]"
  let ?rings' = "[fl_verify (ce_blake2s E) ?nb ?o (fr_claim replay), fl_verify (ce_keccak E) ?nk ?ok (fr_claim replayk)]"
  define f where "f = op_open ?Q cm (wt_q w) slots ?rings ps9"
  have opened: "lock ?T reads ps9 f (vread_as CE_Open (op_verify ?Q slots ?rings' (vl_shape ?l) rate root)) ()"
    unfolding f_def using replay(2) replayk(2) by (intro opens [OF slots(2)]) simp
  have places: "index (vl_placements ?l) (vt_qflock ?S) = Value (vl_placements ?l ! vt_qflock ?S)"
    "index (vl_placements ?l) (vt_qflock_k ?S) = Value (vl_placements ?l ! vt_qflock_k ?S)" "vl_pi ?l = x"
    "index (vl_taus ?l) (vt_blake2s ?S) = Value (vl_taus ?l ! vt_blake2s ?S)"
    "index (vl_taus ?l) (vt_sha3 ?S) = Value (vl_taus ?l ! vt_sha3 ?S)"
    "max (2 ^ (vl_taus ?l ! vt_blake2s ?S)) 1 = ?nb" "max (2 ^ (vl_taus ?l ! vt_sha3 ?S)) 1 = ?nk"
    using wl sch by (simp_all add: index_def)
  have written: "prove_witness E retain p w rate ps = Value f" for retain
    unfolding prove_witness_def Let_def ps1_def [symmetric] f_def
    by (simp add: commit wiring balance cols xi pows sigma tables prove r limbs places slots(1) red redk rebuild)
  have "transmits ?T ps f \<and> (reads f ps v \<longrightarrow>
    (\<exists>r'. vm_verify_from E p x v = Value (Inr r') \<and> sm_log_inv_rate (fst r') = rate))" for v
    by (rule verifier_runs [OF lawful(2) public root wiring balanced xi pows, where owed = "sum_list sigma" and tables = tables
          and cl = cl and r = r and ?ps5.0 = ps5 and ?ps6.0 = ps6 and ?ps7.0 = ?ps7 and ?ps8.0 = ps8 and ?ps9.0 = ps9 and lo = ?lo and hi = ?hi and slots = slots and tau = "vl_taus ?l ! vt_blake2s ?S"
          and tau_k = "vl_taus ?l ! vt_sha3 ?S" and replay = replay and replay_k = replayk and
          place = "vl_placements ?l ! vt_qflock ?S" and place_k = "vl_placements ?l ! vt_qflock_k ?S"])
      (simp_all only: bus_check.simps places target tables proved r line slots(1) replay(1) replayk(1) opened)
  then show ?thesis using written by blast
qed

lemma prover_accepted:
  fixes E :: "('e::comm_ring_1, 'o, 'ps, 'v, 'err) cpu_env"
  assumes "parts_lawful E reads" and "ex_unconstrained_reads (ce_execute_to_floor E p x) = []"
    and "w = ce_build E p (ce_execute_to_floor E p x)" and "mu_ok E (wt_layout w)"
    and "sizes_ok E (length (vp_prog p)) (wt_log_mem w) (vl_taus (wt_layout w)) rate"
    and "limb2 (tw_limbs (ce_tower E) (fst x)) = 0" and "limb2 (tw_limbs (ce_tower E) (snd x)) = 0"
  defines "ps \<equiv> ce_prover_new E (digest_words (ce_tower E) (fs_seed E p)) (digest_words (ce_tower E) x)"
  shows "\<exists>ps'. (\<forall>retain. prove_witness E retain p w rate ps = Value ps') \<and>
    (\<exists>sm. vm_verify E p x (ce_into_proof E ps') = Value (Inr sm) \<and> sm_log_inv_rate sm = rate)"
proof -
  have lawful: "tower_lawful (ce_tower E)" "cpu_transcript E reads" "schema_ok E"
    using assms(1) unfolding parts_lawful_def by blast+
  obtain col holds ring where parts: "witness_ok E col holds p x w" "bus_ok E reads col p w" "constraints_ok E reads col p w"
    "flock_ok (ce_transmitter E) reads ring CE_Blake2s (ce_blake2s E) (wt_flock_reduction w)"
    "flock_ok (ce_transmitter E) reads ring CE_Sha3 (ce_keccak E) (wt_flock_reduction_k w)" "opener_ok E reads holds ring w"
    using assms(1,2) unfolding parts_lawful_def Let_def assms(3) by blast
  have rate: "op_rate_ok (ce_opener E) rate" using assms(5) by (simp add: sizes_ok_def)
  obtain ps' where ps': "\<forall>retain. prove_witness E retain p w rate ps = Value ps'" "transmits (ce_transmitter E) ps ps'"
    "\<forall>v. reads ps' ps v \<longrightarrow> (\<exists>r. vm_verify_from E p x v = Value (Inr r) \<and> sm_log_inv_rate (fst r) = rate)"
    using witness_accepted [OF lawful parts rate assms(4,5,6,7)] by blast
  have "\<exists>sm. vm_verify E p x (ce_into_proof E ps') = Value (Inr sm) \<and> sm_log_inv_rate sm = rate"
    using ps'(3) [rule_format, OF cpu_locks(3) [OF lawful(2) ps'(2) [unfolded ps_def], folded ps_def]] by (force simp: vm_verify_Inr ps_def)
  then show ?thesis using ps'(1) by blast
qed

text \<open>
  C24. Completeness of the proof of a run: when the program runs without reading cells that nothing writes,
  within the caps and on an input without third limbs, the prover returns a proof, the same whether or not
  it keeps the codeword, and the verifier accepts it with the rate it was made for.\<close>

theorem vm_complete:
  fixes E :: "('e::comm_ring_1, 'o, 'ps, 'v, 'err) cpu_env"
  assumes "parts_lawful E reads" and "ex_unconstrained_reads (ce_execute_to_floor E p x) = []"
    and "w = ce_build E p (ce_execute_to_floor E p x)" and "mu_ok E (wt_layout w)"
    and "sizes_ok E (length (vp_prog p)) (wt_log_mem w) (vl_taus (wt_layout w)) rate"
    and "limb2 (tw_limbs (ce_tower E) (fst x)) = 0" and "limb2 (tw_limbs (ce_tower E) (snd x)) = 0"
  shows "\<exists>pf stats. (\<forall>retain. vm_prove E retain p x rate = Value (Inr (pf, stats))) \<and>
    vs_counts stats = map (\<lambda>t. 2 ^ t) (vl_taus (wt_layout w)) \<and>
    (\<exists>sm. vm_verify E p x pf = Value (Inr sm) \<and> sm_log_inv_rate sm = rate)"
  using prover_accepted [OF assms] assms(2,4,5) by (auto simp: vm_prove_def Let_def assms(3) sizes_ok_def)

end
