(* ===== verification/Cpu_Witnesses.thy ===== *)
theory Cpu_Witnesses
  imports Cpu_Complete
begin

text \<open>
  The theorems about the proof of a run, applied to a machine with two tables of one column over words of 192
  bits, whose transcript is the list of the scalars sent and a counter of challenges.
\<close>

type_synonym word192 = "192 word"
type_synonym tape = "word192 list \<times> nat"

definition word_tower :: "word192 tower" where
  "word_tower = \<lparr>tw_new = (\<lambda>a b c. or (ucast a) (or (push_bit 64 (ucast b)) (push_bit 128 (ucast c)))),
     tw_limbs = (\<lambda>w. (ucast w, ucast (drop_bit 64 w), ucast (drop_bit 128 w))), tw_Y = 2 ^ 64,
     tw_powers = (\<lambda>x n. map (\<lambda>i. x ^ i) [0..<n]),
     tw_interp = (\<lambda>x y r. ucast (ucast x :: u64) + r * ucast (ucast y :: u64) +
       2 ^ 64 * (ucast (ucast (drop_bit 64 x) :: u64) + r * ucast (ucast (drop_bit 64 y) :: u64))),
     tw_interp_k = (\<lambda>a b r. ucast a + r * ucast b)\<rparr>"

lemma word_tower_new: "tw_limbs word_tower (tw_new word_tower a b c) = (a, b, c)"
  by (simp add: word_tower_def) (intro conjI bit_word_eqI; auto simp: bit_simps dest: bit_imp_le_length)

lemma word_tower_inj: "inj (tw_limbs word_tower)"
proof (rule injI)
  fix x y :: word192
  assume "tw_limbs word_tower x = tw_limbs word_tower y"
  then have eq: "(ucast x :: u64) = ucast y" "(ucast (drop_bit 64 x) :: u64) = ucast (drop_bit 64 y)"
    "(ucast (drop_bit 128 x) :: u64) = ucast (drop_bit 128 y)" by (simp_all add: word_tower_def)
  show "x = y"
  proof (rule bit_word_eqI)
    fix n assume n: "n < LENGTH(192)"
    have "bit x k = bit y k" if "k < 64" for k using arg_cong [OF eq(1), of "\<lambda>w. bit w k"] that by (simp add: bit_simps)
    moreover have "bit x (64 + k) = bit y (64 + k)" if "k < 64" for k
      using arg_cong [OF eq(2), of "\<lambda>w. bit w k"] that by (simp add: bit_simps)
    moreover have "bit x (128 + k) = bit y (128 + k)" if "k < 64" for k
      using arg_cong [OF eq(3), of "\<lambda>w. bit w k"] that by (simp add: bit_simps)
    moreover have "n < 64 \<or> (\<exists>k < 64. n = 64 + k) \<or> (\<exists>k < 64. n = 128 + k)" using n by simp presburger
    ultimately show "bit x n = bit y n" by blast
  qed
qed

lemma word_tower_lawful: "tower_lawful word_tower"
  unfolding tower_lawful_def
  using word_tower_new word_tower_inj by (auto simp: word_tower_def)

section \<open>A machine\<close>

definition tape_transmitter :: "(tape, word192, word192 list, word192 list) transmitter" where
  "tape_transmitter = \<lparr>ps_add_round_poly = (\<lambda>cs b p. (fst p @ cs, snd p)), ps_add_scalar = (\<lambda>x p. (fst p @ [x], snd p)),
     ps_add_scalars = (\<lambda>xs p. (fst p @ xs, snd p)), ps_add_root = (\<lambda>h p. p), ps_hint_merkle = (\<lambda>m p. p),
     ps_sample = (\<lambda>p. (of_nat (snd p), (fst p, snd p + 1))),
     ps_sample_vec = (\<lambda>n p. (replicate n 0, p)), ps_grind = (\<lambda>bits p. p)\<rparr>"

definition tape_receiver :: "(tape, word192, word192 list, word192 list, unit) receiver" where
  "tape_receiver = \<lparr>vs_next_round_poly = (\<lambda>n claim v. Inl ()),
     vs_next_scalar = (\<lambda>v. case fst v of [] \<Rightarrow> Inl () | x # xs \<Rightarrow> Inr (x, (xs, snd v))),
     vs_next_scalars = (\<lambda>n v. Inl ()), vs_next_root = (\<lambda>v. Inl ()), vs_next_merkle_batch = (\<lambda>h n qs a b v. Inl ()),
     vs_sample = (\<lambda>v. (of_nat (snd v), (fst v, snd v + 1))), vs_sample_vec = (\<lambda>n v. ([], v)), vs_grind_check = (\<lambda>bits v. Inr v)\<rparr>"

definition tape_reads :: "tape \<Rightarrow> tape \<Rightarrow> tape \<Rightarrow> bool" where
  "tape_reads f p v \<longleftrightarrow> fst f = fst p @ fst v \<and> snd v = snd p"

definition one_column :: "(word192, word192 list) vm_table" where
  "one_column = \<lparr>tb_n_committed_columns = 1, tb_n_constraints = 1, tb_eval = (\<lambda>p vals q. vals), tb_eval_k = (\<lambda>p vals q. [])\<rparr>"

definition two_tables :: "(word192, word192 list) vm_tables" where
  "two_tables = \<lparr>vt_tables = [one_column, one_column], vt_blake2s = 0, vt_sha3 = 1, vt_blake2s_value_cols = [],
     vt_sha3_value_cols = [], vt_base = [3, 4], vt_kappa_sources = (\<lambda>k. []), vt_mem_lo = 0, vt_qflock = 5, vt_qflock_k = 6,
     vt_form_sum = concat, vt_form_scaled = (\<lambda>f x. f), vt_form_eval = (\<lambda>f vals q. f), vt_form_eval_k = (\<lambda>f vals q. f),
     vt_xor = (\<lambda>a b. a), vt_reduce = (\<lambda>a. 0), vt_reduce_k = (\<lambda>a. 0)\<rparr>"

definition idle_circuit :: "(word192 list, tape, tape, unit) flock_circuit" where
  "idle_circuit = \<lparr>fl_digest = replicate 32 1, fl_slots = [], fl_stride_log = 8, fl_n_blocks_log = (\<lambda>n. 3),
     fl_prove = (\<lambda>red ps. ([], ps)), fl_n_blocks = (\<lambda>red. 8), fl_open = (\<lambda>n off red. []),
     fl_verify_reduction = (\<lambda>n v. Inr (\<lparr>fr_claim = [], fr_zc_claim = [], fr_lc_claim = []\<rparr>, v)), fl_verify = (\<lambda>n off claim. [])\<rparr>"

definition plain_opener :: "(word192, word192 list, tape, tape, unit) opener" where
  "plain_opener = \<lparr>op_min_mu = 20, op_max_mu = 32, op_mu = (\<lambda>shape. 20), op_rate_ok = (\<lambda>r. 1 \<le> r \<and> r \<le> 4),
     op_commit = (\<lambda>q shape rate ps. (q, ps)), op_release = (\<lambda>c. []), op_rebuild = (\<lambda>q c. q), op_open = (\<lambda>c q slots rings ps. ps),
     op_read_commitment = (\<lambda>v. Inr ([], v)), op_verify = (\<lambda>slots rings shape rate root v. Inr ((), v))\<rparr>"

definition idle_layout :: "word192 \<times> word192 \<Rightarrow> (word192, word192 list) vm_layout" where
  "idle_layout x = \<lparr>vl_taus = [3, 3], vl_pi = x, vl_shape = [], vl_push = [], vl_pull = [], vl_count = [],
     vl_placements = map (\<lambda>i. \<lparr>pl_offset = i * 2 ^ 16, pl_n_vars = 16\<rparr>) [0..<7]\<rparr>"

definition idle_env :: "(word192, word192 list, tape, tape, unit) cpu_env" where
  "idle_env = \<lparr>ce_tower = word_tower, ce_hash = (\<lambda>m. replicate 32 (if m = [] then 0 else hd m)), ce_bytecode_table = (\<lambda>ops. []),
     ce_layout_of = (\<lambda>ops log_mem taus x. idle_layout x), ce_log2_strict = (\<lambda>n. if is_power_of_two n then Value (trailing_zeros n) else Crash),
     ce_tables = two_tables, ce_transmitter = tape_transmitter, ce_receiver = tape_receiver,
     ce_prover_new = (\<lambda>a b. ([], 0)), ce_verifier_new = (\<lambda>a pf b. (pf, 0)), ce_into_proof = fst,
     ce_stream_offset = (\<lambda>v. length (fst v)), ce_finish = (\<lambda>v. if fst v = [] then Inr v else Inl ()), ce_into_raw_proof = fst,
     ce_execute_to_floor = (\<lambda>p x. \<lparr>ex_unconstrained_reads = [], ex_cycles = 16, ex_base_counts = [5, 0], ex_mem_used = 2,
       ex_rest = [fst x, snd x]\<rparr>),
     ce_build = (\<lambda>p exec. \<lparr>wt_layout = idle_layout (ex_rest exec ! 0, ex_rest exec ! 1), wt_log_mem = 16, wt_q = [],
       wt_columns = replicate 5 [], wt_committed_size = 0, wt_flock_reduction = [], wt_flock_reduction_k = []\<rparr>),
     ce_prove_balance = (\<lambda>push pull count cols owners spans ps. (\<lparr>bp_claims = [], bp_forms = replicate 3 [[], []],
       bp_sigmas = replicate 3 [0, 0], bp_point = []\<rparr>, ps)),
     ce_verify_balance = (\<lambda>push pull count owners spans v. Inr (\<lparr>bk_claims = [], bk_forms = replicate 3 [[], []], bk_point = [],
       bk_totals = [0, 0, 0], bk_bytecode_claim = []\<rparr>, v)),
     ce_prove_constraints = (\<lambda>tables cols xi point sigma ps. (replicate 2 \<lparr>tc_chi = [], tc_evals = [0]\<rparr>, ps)),
     ce_verify_constraints = (\<lambda>tables xi point target v. Inr (replicate 2 \<lparr>tc_chi = [], tc_evals = [0]\<rparr>, v)),
     ce_blake2s = idle_circuit, ce_keccak = idle_circuit, ce_opener = plain_opener\<rparr>"

lemma idle_env_simps [simp]:
  "ce_tower idle_env = word_tower" "ce_tables idle_env = two_tables" "ce_transmitter idle_env = tape_transmitter"
  "ce_receiver idle_env = tape_receiver" "ce_blake2s idle_env = idle_circuit" "ce_keccak idle_env = idle_circuit"
  "ce_opener idle_env = plain_opener" "n_tables idle_env = 2"
  by (simp_all add: idle_env_def n_tables_def two_tables_def)

text \<open>A step that sends nothing and reads nothing.\<close>

lemma idle_lock: "(\<And>v. m v = Inr (a, v)) \<Longrightarrow> lock T reads p p (vread_as err m) a"
  by (auto simp: lock_def vread_as_def map_err_def intro: transmits.finished)

lemma tape_transmits: "transmits tape_transmitter p f \<Longrightarrow> \<exists>xs. fst f = fst p @ xs"
  by (induction rule: transmits.induct) (auto simp: tape_transmitter_def)

lemma idle_transcript: "cpu_transcript idle_env tape_reads"
proof -
  have scalar: "lock tape_transmitter tape_reads p (ps_add_scalar tape_transmitter x p) (read_scalar idle_env) x" for p x
    unfolding lock_def
  proof (intro conjI allI impI)
    show "transmits tape_transmitter p (ps_add_scalar tape_transmitter x p)" by (rule transmits_steps)
    fix f v assume "transmits tape_transmitter (ps_add_scalar tape_transmitter x p) f" "tape_reads f p v"
    then obtain xs where "fst f = fst p @ x # xs" using tape_transmits by (fastforce simp: tape_transmitter_def)
    then show "\<exists>v'. read_scalar idle_env v = Value (Inr (x, v')) \<and> tape_reads f (ps_add_scalar tape_transmitter x p) v'"
      using \<open>tape_reads f p v\<close>
      by (cases v) (auto simp: tape_reads_def read_scalar_def vread_as_def map_err_def tape_receiver_def tape_transmitter_def)
  qed
  have sample: "lock tape_transmitter tape_reads p p'
      (vtake (vs_sample tape_receiver) :: (tape, unit cpu_error, word192) reading) x"
    if "ps_sample tape_transmitter p = (x, p')" for p p' x
    using that transmits_steps(7) [OF that]
    by (auto simp: lock_def tape_reads_def vtake_def tape_receiver_def tape_transmitter_def)
  have start: "tape_reads f (ce_prover_new idle_env a b) (ce_verifier_new idle_env a (ce_into_proof idle_env f) b)" for a b f
    by (simp add: idle_env_def tape_reads_def)
  have finish: "tape_reads f f v \<Longrightarrow> \<exists>v'. ce_finish idle_env v = Inr v'" for f v
    by (simp add: idle_env_def tape_reads_def)
  show ?thesis unfolding cpu_transcript_def Let_def using scalar sample start finish by (simp only: idle_env_simps) blast
qed

lemma idle_schema: "schema_ok idle_env"
  unfolding schema_ok_def Let_def by (simp add: two_tables_def) (simp add: idle_env_def)

lemma idle_witness: "witness_ok idle_env (\<lambda>c. cc_col c < 7) (\<lambda>s. True) p x (ce_build idle_env p (ce_execute_to_floor idle_env p x))"
  unfolding witness_ok_def Let_def
  by (simp add: two_tables_def less_2_cases_iff one_column_def)
    (simp add: idle_env_def idle_layout_def idle_circuit_def limb_claim_def)

lemma idle_parts: "parts_lawful idle_env tape_reads"
proof -
  have "bus_ok idle_env tape_reads (\<lambda>c. cc_col c < 7) p w" for p w
    unfolding bus_ok_def Let_def
    by (auto simp: idle_env_def n_tables_def two_tables_def numeral_3_eq_3 intro!: exI [of _ "[]"] idle_lock)
  moreover have "constraints_ok idle_env tape_reads (\<lambda>c. cc_col c < 7) p w" for p w
    unfolding constraints_ok_def Let_def
    by (auto simp: idle_env_def n_tables_def two_tables_def one_column_def column_of_def less_Suc_eq numeral_2_eq_2 intro!: idle_lock)
  moreover have "flock_ok tape_transmitter tape_reads (\<lambda>a b. True) err idle_circuit red" for err :: "unit \<Rightarrow> unit cpu_error" and red
    unfolding flock_ok_def Let_def by (auto simp: idle_circuit_def intro!: exI idle_lock)
  moreover have "opener_ok idle_env tape_reads (\<lambda>s. True) (\<lambda>a b. True) (ce_build idle_env p e)" for p e
    unfolding opener_ok_def Let_def by (auto simp: plain_opener_def idle_env_def intro!: exI idle_lock)
  ultimately show ?thesis
    unfolding parts_lawful_def Let_def using word_tower_lawful idle_transcript idle_schema idle_witness
    by (simp only: idle_env_simps) blast
qed

section \<open>A run and its proof\<close>

definition idle_program :: "(word192, word192 list) vm_program" where
  "idle_program = assemble idle_env [[], []] Map.empty 4"

definition idle_input :: "word192 \<times> word192" where "idle_input = (5, 7)"

lemma idle_announced:
  "sizes_ok idle_env (length (vp_prog idle_program)) 16 [3, 3] 1" "mu_ok idle_env (idle_layout idle_input)"
  "limb2 (tw_limbs word_tower (fst idle_input)) = 0" "limb2 (tw_limbs word_tower (snd idle_input)) = 0"
proof -
  have "is_power_of_two (Suc (Suc 0))" by (simp add: is_power_of_two_def list_ex_iff) (intro bexI [of _ 1]; simp)
  then show "sizes_ok idle_env (length (vp_prog idle_program)) 16 [3, 3] 1"
    by (simp add: sizes_ok_def idle_program_def assemble_def MAX_LOG_BYTECODE_def MIN_LOG_MEM_def MAX_LOG_MEM_def
        MAX_LOG_ROWS_def two_tables_def idle_circuit_def plain_opener_def)
  show "mu_ok idle_env (idle_layout idle_input)" by (simp add: mu_ok_def plain_opener_def)
  show "limb2 (tw_limbs word_tower (fst idle_input)) = 0" "limb2 (tw_limbs word_tower (snd idle_input)) = 0"
    by (simp_all add: word_tower_def limb2_def idle_input_def)
qed

lemma idle_built:
  "ex_unconstrained_reads (ce_execute_to_floor idle_env p x) = []"
  "wt_layout (ce_build idle_env p (ce_execute_to_floor idle_env p x)) = idle_layout x"
  "wt_log_mem (ce_build idle_env p (ce_execute_to_floor idle_env p x)) = 16" "vl_taus (idle_layout x) = [3, 3]"
  by (simp_all add: idle_env_def idle_layout_def)

lemma idle_accepted: "\<exists>pf sm. vm_verify idle_env idle_program idle_input pf = Value (Inr sm)"
  using prover_accepted [OF idle_parts idle_built(1) refl, of idle_program idle_input 1]
  by (simp only: idle_built idle_announced idle_env_simps) blast

lemma vm_complete_witness: "\<exists>pf sm. (\<exists>stats. vm_prove idle_env True idle_program idle_input 1 = Value (Inr (pf, stats))) \<and>
    vm_verify idle_env idle_program idle_input pf = Value (Inr sm) \<and> sm_log_inv_rate sm = 1"
  using vm_complete [OF idle_parts idle_built(1) refl, of idle_program idle_input 1]
  by (simp only: idle_built idle_announced idle_env_simps) blast



end
