(* ===== verification/Beacon_Selection.thy ===== *)
theory Beacon_Selection
  imports Beacon_Churn
begin

text \<open>
  Selection by effective balance in \<open>beacon_state.rs\<close>: proposers, sync committees and payload
  timeliness committees, and the registry of builders. The loops over candidates draw until enough are
  accepted; they end because the counter is a 64-bit number whose increment is checked. Shuffling,
  the list of active validators, the committee cache and the keys are upstream code and fields of
  \<open>selection_externals\<close>.
\<close>

record ('o, 'k) selection_externals =
  lx_shuffled_index :: "nat \<Rightarrow> nat \<Rightarrow> byte list \<Rightarrow> byte \<Rightarrow> nat option"
  lx_active_indices :: "validator list \<Rightarrow> epoch \<Rightarrow> nat list"
  lx_committees_at_slot :: "'o \<Rightarrow> slot \<Rightarrow> state_error + nat list list"
  lx_update_pubkey_cache :: "'o beacon_state \<Rightarrow> state_error + 'o beacon_state"
  lx_pubkey_index :: "'o \<Rightarrow> byte list \<Rightarrow> nat option"
  lx_decompress :: "byte list \<Rightarrow> state_error + 'k"
  lx_aggregate :: "'k list \<Rightarrow> state_error + byte list"
  lx_check_slashings_cache :: "'o \<Rightarrow> slot \<Rightarrow> state_error + unit"
  lx_is_slashed :: "'o \<Rightarrow> nat \<Rightarrow> bool"

section \<open>Random values\<close>

definition MAX_RANDOM_BYTE :: u64 where "MAX_RANDOM_BYTE = 2 ^ 8 - 1"
definition MAX_RANDOM_VALUE :: u64 where "MAX_RANDOM_VALUE = 2 ^ 16 - 1"

definition usize_div :: "nat \<Rightarrow> nat \<Rightarrow> nat option" where
  "usize_div a b = (if b = 0 then None else Some (a div b))"

definition shuffling_random_byte :: "chain_externals \<Rightarrow> nat \<Rightarrow> byte list \<Rightarrow> state_error + byte" where
  "shuffling_random_byte X i seed =
     rbind (arith (usize_div i 32)) (\<lambda>block.
     rbind (arith (usize_rem i 32)) (\<lambda>index.
     ok_or (list_get (sha256 X (seed @ le_bytes 8 block)) index) (BSE_ShuffleIndexOutOfBounds index)))"

definition shuffling_random_u16_electra :: "chain_externals \<Rightarrow> nat \<Rightarrow> byte list \<Rightarrow> state_error + nat" where
  "shuffling_random_u16_electra X i seed =
     rbind (arith (usize_div i 16)) (\<lambda>block.
     rbind (arith (do { r \<leftarrow> usize_rem i 16; checked_mul r 2 })) (\<lambda>offset.
     rbind (arith (checked_add offset 2)) (\<lambda>end.
     let digest = sha256 X (seed @ le_bytes 8 block)
     in if end \<le> length digest then Inr (le_nat (take 2 (drop offset digest)))
        else Inl (BSE_ShuffleIndexOutOfBounds offset))))"

definition shuffling_random_value :: "chain_externals \<Rightarrow> 'o beacon_state \<Rightarrow> nat \<Rightarrow> byte list \<Rightarrow> state_error + u64" where
  "shuffling_random_value X st i seed =
     (if electra_enabled (fork_name_unchecked st) then rbind (shuffling_random_u16_electra X i seed) (\<lambda>v. Inr (of_nat v))
      else rbind (shuffling_random_byte X i seed) (\<lambda>b. Inr (ucast b)))"

definition max_random_value_for :: "'o beacon_state \<Rightarrow> u64" where
  "max_random_value_for st = (if electra_enabled (fork_name_unchecked st) then MAX_RANDOM_VALUE else MAX_RANDOM_BYTE)"

section \<open>Proposers\<close>

text \<open>One iteration: the candidate and whether it is accepted.\<close>

definition draw_candidate ::
  "('o, 'k) selection_externals \<Rightarrow> chain_externals \<Rightarrow> chain_spec \<Rightarrow> 'o beacon_state \<Rightarrow> nat list \<Rightarrow> byte list \<Rightarrow> nat
     \<Rightarrow> state_error + nat \<times> bool" where
  "draw_candidate L X s st indices seed i =
     rbind (arith (usize_rem i (length indices))) (\<lambda>r.
     rbind (ok_or (lx_shuffled_index L r (length indices) seed (shuffle_round_count (sp_misc s))) BSE_UnableToShuffle)
       (\<lambda>shuffled_index.
     rbind (ok_or (list_get indices shuffled_index) (BSE_ShuffleIndexOutOfBounds shuffled_index)) (\<lambda>candidate_index.
     rbind (shuffling_random_value X st i seed) (\<lambda>random_value.
     rbind (get_effective_balance st candidate_index) (\<lambda>effective_balance.
     rbind (arith (safe_mul effective_balance (max_random_value_for st))) (\<lambda>weighted.
     rbind (arith (safe_mul (max_effective_balance_for_fork s (fork_name_unchecked st)) random_value)) (\<lambda>threshold.
     Inr (candidate_index, threshold \<le> weighted))))))))"

function proposer_loop ::
  "('o, 'k) selection_externals \<Rightarrow> chain_externals \<Rightarrow> chain_spec \<Rightarrow> 'o beacon_state \<Rightarrow> nat list \<Rightarrow> byte list \<Rightarrow> nat
     \<Rightarrow> state_error + nat" where
  "proposer_loop L X s st indices seed i =
     (case draw_candidate L X s st indices seed i of
        Inl e \<Rightarrow> Inl e
      | Inr (candidate, accepted) \<Rightarrow>
          if accepted then Inr candidate
          else (case checked_add i 1 of
                  None \<Rightarrow> Inl BSE_Arith
                | Some i \<Rightarrow> proposer_loop L X s st indices seed i))"
  by pat_completeness auto
termination
  by (relation "measure (\<lambda>(_, _, _, _, _, _, i). 2 ^ 64 - i)") (auto simp: checked_add_def split: if_splits)

definition compute_proposer_index ::
  "('o, 'k) selection_externals \<Rightarrow> chain_externals \<Rightarrow> chain_spec \<Rightarrow> 'o beacon_state \<Rightarrow> nat list \<Rightarrow> byte list
     \<Rightarrow> state_error + nat" where
  "compute_proposer_index L X s st indices seed =
     (if indices = [] then Inl BSE_InsufficientValidators else proposer_loop L X s st indices seed 0)"

section \<open>Weighted selection\<close>

definition compute_balance_weighted_acceptance ::
  "chain_externals \<Rightarrow> chain_spec \<Rightarrow> 'o beacon_state \<Rightarrow> nat \<Rightarrow> byte list \<Rightarrow> nat \<Rightarrow> state_error + bool" where
  "compute_balance_weighted_acceptance X s st index seed iteration =
     rbind (get_effective_balance st index) (\<lambda>effective_balance.
     let max_effective_balance = max_effective_balance_for_fork s (fork_name_unchecked st) in
     rbind (shuffling_random_value X st iteration seed) (\<lambda>random_value.
     rbind (arith (safe_mul effective_balance MAX_RANDOM_VALUE)) (\<lambda>weighted.
     rbind (arith (safe_mul max_effective_balance random_value)) (\<lambda>threshold.
     Inr (threshold \<le> weighted)))))"

definition weighted_candidate ::
  "('o, 'k) selection_externals \<Rightarrow> chain_externals \<Rightarrow> chain_spec \<Rightarrow> 'o beacon_state \<Rightarrow> nat list \<Rightarrow> byte list \<Rightarrow> bool \<Rightarrow> nat
     \<Rightarrow> state_error + nat \<times> bool" where
  "weighted_candidate L X s st indices seed shuffle_indices i =
     (let n = length indices in
      rbind (arith (usize_rem i n)) (\<lambda>next_index.
      rbind (if shuffle_indices
        then ok_or (lx_shuffled_index L next_index n seed (shuffle_round_count (sp_misc s))) BSE_UnableToShuffle
        else Inr next_index) (\<lambda>next_index.
      rbind (ok_or (list_get indices next_index) BSE_InvalidIndicesCount) (\<lambda>candidate_index.
      rbind (compute_balance_weighted_acceptance X s st candidate_index seed i) (\<lambda>accepted.
      Inr (candidate_index, accepted))))))"

function weighted_loop ::
  "('o, 'k) selection_externals \<Rightarrow> chain_externals \<Rightarrow> chain_spec \<Rightarrow> 'o beacon_state \<Rightarrow> nat list \<Rightarrow> byte list \<Rightarrow> bool \<Rightarrow> nat
     \<Rightarrow> nat \<Rightarrow> nat list \<Rightarrow> state_error + nat list" where
  "weighted_loop L X s st indices seed shuffle_indices wanted i selected =
     (if length selected < wanted then
        (case weighted_candidate L X s st indices seed shuffle_indices i of
           Inl e \<Rightarrow> Inl e
         | Inr (candidate, accepted) \<Rightarrow>
             (case checked_add i 1 of
                None \<Rightarrow> Inl BSE_Arith
              | Some i \<Rightarrow> weighted_loop L X s st indices seed shuffle_indices wanted i
                  (if accepted then selected @ [candidate] else selected)))
      else Inr selected)"
  by pat_completeness auto
termination
  by (relation "measure (\<lambda>(_, _, _, _, _, _, _, _, i, _). 2 ^ 64 - i)") (auto simp: checked_add_def split: if_splits)

definition compute_balance_weighted_selection ::
  "('o, 'k) selection_externals \<Rightarrow> chain_externals \<Rightarrow> chain_spec \<Rightarrow> 'o beacon_state \<Rightarrow> nat list \<Rightarrow> byte list \<Rightarrow> nat \<Rightarrow> bool
     \<Rightarrow> state_error + nat list" where
  "compute_balance_weighted_selection L X s st indices seed wanted shuffle_indices =
     (if length indices = 0 then Inl BSE_InvalidIndicesCount
      else weighted_loop L X s st indices seed shuffle_indices wanted 0 [])"

section \<open>The proposers of an epoch\<close>

definition compute_activation_exit_epoch :: "chain_spec \<Rightarrow> epoch \<Rightarrow> state_error + epoch" where
  "compute_activation_exit_epoch s e = arith (do { e \<leftarrow> safe_add e 1; safe_add e (max_seed_lookahead (sp_timing s)) })"

definition get_active_validator_indices ::
  "('o, 'k) selection_externals \<Rightarrow> state_spec \<Rightarrow> chain_spec \<Rightarrow> 'o beacon_state \<Rightarrow> epoch \<Rightarrow> state_error + nat list" where
  "get_active_validator_indices L E s st e =
     rbind (compute_activation_exit_epoch s (current_epoch E st)) (\<lambda>limit.
     if e \<ge> limit then Inl BSE_EpochOutOfBounds
     else Inr (lx_active_indices L (bs_validators (st_registry st)) e))"

text \<open>\<open>epoch.slot_iter(E::slots_per_epoch())\<close>.\<close>

definition slot_iter :: "state_spec \<Rightarrow> epoch \<Rightarrow> slot list" where
  "slot_iter E e = map (\<lambda>k. sat_add (start_slot (ss_eth E) e) (of_nat k)) [0..<unat (es_slots_per_epoch (ss_eth E))]"

definition slot_seed :: "chain_externals \<Rightarrow> byte list \<Rightarrow> slot \<Rightarrow> byte list" where
  "slot_seed X seed slot = sha256 X (seed @ le_bytes 8 (unat slot))"

definition compute_proposer_indices ::
  "('o, 'k) selection_externals \<Rightarrow> chain_externals \<Rightarrow> state_spec \<Rightarrow> chain_spec \<Rightarrow> 'o beacon_state \<Rightarrow> epoch \<Rightarrow> byte list
     \<Rightarrow> nat list \<Rightarrow> state_error + nat list" where
  "compute_proposer_indices L X E s st e seed indices =
     (let current_epoch = current_epoch E st in
      if e < current_epoch then Inl (BSE_ComputeProposerIndicesPastEpoch current_epoch e)
      else rbind (if fulu_enabled (fork_name_at_epoch s e) then
            (if fulu_enabled (fork_name_unchecked st) \<and> state_slot st \<noteq> proposer_shuffling_decision_slot (ss_eth E) s e
             then Inl (BSE_ComputeProposerIndicesInsufficientLookahead current_epoch e) else Inr ())
          else rbind (arith (safe_add current_epoch (min_seed_lookahead (sp_timing s)))) (\<lambda>limit.
            if e \<ge> limit then Inl (BSE_ComputeProposerIndicesExcessiveLookahead current_epoch e) else Inr ())) (\<lambda>_.
        rmap (\<lambda>slot.
          let seed = slot_seed X seed slot in
          if gloas_enabled (fork_name_unchecked st) then
            rbind (compute_balance_weighted_selection L X s st indices seed 1 True) (\<lambda>selected.
            ok_or (list_get selected 0) BSE_InsufficientValidators)
          else compute_proposer_index L X s st indices seed) (slot_iter E e)))"

abbreviation proposer_lookahead :: "'o beacon_state \<Rightarrow> state_error + u64 list" where
  "proposer_lookahead st \<equiv> partial_getter (fulu_enabled (st_variant st)) (bs_proposer_lookahead (st_gloas st))"

definition get_beacon_proposer_seed ::
  "chain_externals \<Rightarrow> state_spec \<Rightarrow> chain_spec \<Rightarrow> 'o beacon_state \<Rightarrow> slot \<Rightarrow> state_error + byte list" where
  "get_beacon_proposer_seed X E s st slot =
     rbind (get_seed E X s st (epoch_of (ss_eth E) slot) BeaconProposer) (\<lambda>seed.
     Inr (sha256 X (seed @ le_bytes 8 (unat slot))))"

definition get_beacon_proposer_index ::
  "('o, 'k) selection_externals \<Rightarrow> chain_externals \<Rightarrow> state_spec \<Rightarrow> chain_spec \<Rightarrow> 'o beacon_state \<Rightarrow> slot
     \<Rightarrow> state_error + nat" where
  "get_beacon_proposer_index L X E s st slot =
     (let e = epoch_of (ss_eth E) slot in
      if e \<noteq> current_epoch E st then Inl BSE_SlotOutOfBounds
      else (case proposer_lookahead st of
          Inr lookahead \<Rightarrow>
            rbind (arith (usize_rem (unat slot) (unat (es_slots_per_epoch (ss_eth E))))) (\<lambda>index.
            rbind (ok_or (list_get lookahead index) (BSE_ProposerLookaheadOutOfBounds index)) (\<lambda>i. Inr (unat i)))
        | Inl _ \<Rightarrow>
            rbind (get_beacon_proposer_seed X E s st slot) (\<lambda>seed.
            rbind (get_active_validator_indices L E s st e) (\<lambda>indices.
            compute_proposer_index L X s st indices seed))))"

definition is_valid_proposal_slot ::
  "state_spec \<Rightarrow> chain_spec \<Rightarrow> 'o beacon_state \<Rightarrow> slot \<Rightarrow> u64 \<Rightarrow> state_error + bool" where
  "is_valid_proposal_slot E s st proposal_slot validator_index =
     (let current_epoch = current_epoch E st; proposal_epoch = epoch_of (ss_eth E) proposal_slot;
          slots_per_epoch = es_slots_per_epoch (ss_eth E) in
      if proposal_epoch < current_epoch then Inr False
      else if proposal_epoch > sat_add current_epoch (min_seed_lookahead (sp_timing s)) then Inr False
      else rbind (arith (safe_sub proposal_epoch current_epoch)) (\<lambda>epoch_offset.
        rbind (arith (safe_rem proposal_slot slots_per_epoch)) (\<lambda>slot_in_epoch.
        rbind (arith (do { v \<leftarrow> safe_mul epoch_offset slots_per_epoch; safe_add v slot_in_epoch })) (\<lambda>index.
        rbind (proposer_lookahead st) (\<lambda>lookahead.
        rbind (ok_or (list_get lookahead (unat index)) (BSE_ProposerLookaheadOutOfBounds (unat index))) (\<lambda>proposer.
        Inr (proposer = validator_index)))))))"

text \<open>\<open>iter_from\<close> fails past the end of the list.\<close>

definition cached_proposer_indices ::
  "state_spec \<Rightarrow> 'o beacon_state \<Rightarrow> epoch \<Rightarrow> (state_error + nat list) option" where
  "cached_proposer_indices E st e =
     (case proposer_lookahead st of
        Inl _ \<Rightarrow> None
      | Inr lookahead \<Rightarrow>
          if e \<ge> current_epoch E st then
            (case next_epoch E st of
               Inl err \<Rightarrow> Some (Inl err)
             | Inr next \<Rightarrow>
                 if e \<le> next then
                   (let slots_per_epoch = unat (es_slots_per_epoch (ss_eth E));
                        start_offset = (if e = current_epoch E st then 0 else slots_per_epoch)
                    in if length lookahead < start_offset
                       then Some (Inl BSE_MilhouseError)
                       else Some (Inr (map unat (take slots_per_epoch (drop start_offset lookahead)))))
                 else None)
          else None)"

definition get_beacon_proposer_indices ::
  "('o, 'k) selection_externals \<Rightarrow> chain_externals \<Rightarrow> state_spec \<Rightarrow> chain_spec \<Rightarrow> 'o beacon_state \<Rightarrow> epoch
     \<Rightarrow> state_error + nat list" where
  "get_beacon_proposer_indices L X E s st e =
     (case cached_proposer_indices E st e of
        Some r \<Rightarrow> r
      | None \<Rightarrow>
          rbind (get_active_validator_indices L E s st e) (\<lambda>indices.
          rbind (if gloas_enabled (fork_name_unchecked st) then
              rbind (lx_check_slashings_cache L (bs_slashings_cache (st_caches st))
                  (bh_slot (bs_latest_block_header (st_history st)))) (\<lambda>_.
              Inr (filter (\<lambda>i. \<not> lx_is_slashed L (bs_slashings_cache (st_caches st)) i) indices))
            else Inr indices) (\<lambda>indices.
          rbind (get_seed E X s st e BeaconProposer) (\<lambda>preimage.
          compute_proposer_indices L X E s st e preimage indices))))"

section \<open>Sync committees\<close>

definition sync_committee_period :: "chain_spec \<Rightarrow> epoch \<Rightarrow> state_error + u64" where
  "sync_committee_period s e = arith (safe_div e (epochs_per_sync_committee_period (sp_altair s)))"

definition get_built_sync_committee ::
  "state_spec \<Rightarrow> chain_spec \<Rightarrow> 'o beacon_state \<Rightarrow> epoch \<Rightarrow> state_error + sync_committee" where
  "get_built_sync_committee E s st e =
     rbind (sync_committee_period s e) (\<lambda>period.
     rbind (sync_committee_period s (current_epoch E st)) (\<lambda>current.
     rbind (arith (safe_add current 1)) (\<lambda>next.
     if period = current then
       partial_getter (altair_enabled (st_variant st)) (bs_current_sync_committee (st_participation st))
     else if period = next then
       partial_getter (altair_enabled (st_variant st)) (bs_next_sync_committee (st_participation st))
     else Inl (BSE_SyncCommitteeNotKnown (current_epoch E st) e))))"

definition get_sync_committee_for_next_slot ::
  "state_spec \<Rightarrow> chain_spec \<Rightarrow> 'o beacon_state \<Rightarrow> state_error + sync_committee" where
  "get_sync_committee_for_next_slot E s st =
     (let next_slot_epoch = epoch_of (ss_eth E) (sat_add (state_slot st) 1) in
      if sync_committee_period s (current_epoch E st) = sync_committee_period s next_slot_epoch
      then partial_getter (altair_enabled (st_variant st)) (bs_current_sync_committee (st_participation st))
      else partial_getter (altair_enabled (st_variant st)) (bs_next_sync_committee (st_participation st)))"

definition get_sync_committee_indices ::
  "('o, 'k) selection_externals \<Rightarrow> 'o beacon_state \<Rightarrow> sync_committee \<Rightarrow> state_error + nat list \<times> 'o beacon_state" where
  "get_sync_committee_indices L st committee =
     rbind (lx_update_pubkey_cache L st) (\<lambda>st.
     rbind (rmap (\<lambda>pubkey. ok_or (lx_pubkey_index L (bs_pubkey_cache (st_caches st)) pubkey) BSE_PubkeyCacheInconsistent)
       (sc_pubkeys committee)) (\<lambda>indices. Inr (indices, st)))"

function sync_loop ::
  "('o, 'k) selection_externals \<Rightarrow> chain_externals \<Rightarrow> chain_spec \<Rightarrow> 'o beacon_state \<Rightarrow> nat list \<Rightarrow> byte list \<Rightarrow> nat
     \<Rightarrow> nat \<Rightarrow> nat list \<Rightarrow> state_error + nat list" where
  "sync_loop L X s st indices seed wanted i sync_committee_indices =
     (if length sync_committee_indices < wanted then
        (case draw_candidate L X s st indices seed i of
           Inl e \<Rightarrow> Inl e
         | Inr (candidate, accepted) \<Rightarrow>
             (case checked_add i 1 of
                None \<Rightarrow> Inl BSE_Arith
              | Some i \<Rightarrow> sync_loop L X s st indices seed wanted i
                  (if accepted then sync_committee_indices @ [candidate] else sync_committee_indices)))
      else Inr sync_committee_indices)"
  by pat_completeness auto
termination
  by (relation "measure (\<lambda>(_, _, _, _, _, _, _, i, _). 2 ^ 64 - i)") (auto simp: checked_add_def split: if_splits)

definition get_next_sync_committee_indices ::
  "('o, 'k) selection_externals \<Rightarrow> chain_externals \<Rightarrow> state_spec \<Rightarrow> chain_spec \<Rightarrow> 'o beacon_state \<Rightarrow> state_error + nat list" where
  "get_next_sync_committee_indices L X E s st =
     rbind (arith (safe_add (current_epoch E st) 1)) (\<lambda>e.
     rbind (get_active_validator_indices L E s st e) (\<lambda>active.
     rbind (get_seed E X s st e SyncCommittee) (\<lambda>seed.
     if gloas_enabled (fork_name_unchecked st)
     then compute_balance_weighted_selection L X s st active seed (ss_sync_committee_size E) True
     else sync_loop L X s st active seed (ss_sync_committee_size E) 0 [])))"

definition get_next_sync_committee ::
  "('o, 'k) selection_externals \<Rightarrow> chain_externals \<Rightarrow> state_spec \<Rightarrow> chain_spec \<Rightarrow> 'o beacon_state
     \<Rightarrow> state_error + sync_committee" where
  "get_next_sync_committee L X E s st =
     rbind (get_next_sync_committee_indices L X E s st) (\<lambda>indices.
     rbind (rmap (\<lambda>i. rbind (ok_or (list_get (bs_validators (st_registry st)) i) (BSE_UnknownValidator i))
       (\<lambda>v. Inr (va_pubkey v))) indices) (\<lambda>pubkeys.
     rbind (rmap (lx_decompress L) pubkeys) (\<lambda>decompressed.
     rbind (lx_aggregate L decompressed) (\<lambda>aggregate.
     if length pubkeys = ss_sync_committee_size E
     then Inr \<lparr>sc_pubkeys = pubkeys, sc_aggregate_pubkey = aggregate\<rparr> else Inl BSE_SszTypesError))))"

section \<open>Payload timeliness committees\<close>

definition get_ptc :: "state_spec \<Rightarrow> chain_spec \<Rightarrow> 'o beacon_state \<Rightarrow> slot \<Rightarrow> state_error + nat list" where
  "get_ptc E s st slot =
     rbind (partial_getter (gloas_enabled (st_variant st)) (bs_ptc_window (st_gloas st))) (\<lambda>ptc_window.
     let e = epoch_of (ss_eth E) slot; state_epoch = current_epoch E st;
         slots_per_epoch = unat (es_slots_per_epoch (ss_eth E)) in
     rbind (arith (usize_rem (unat slot) slots_per_epoch)) (\<lambda>slot_in_epoch.
     rbind (if e < state_epoch then
         rbind (arith (safe_add e 1)) (\<lambda>n. if n \<noteq> state_epoch then Inl BSE_SlotOutOfBounds else Inr slot_in_epoch)
       else
         rbind (arith (safe_add state_epoch (min_seed_lookahead (sp_timing s)))) (\<lambda>limit.
         if e > limit then Inl BSE_SlotOutOfBounds
         else arith (do {
           n \<leftarrow> safe_sub e state_epoch;
           n \<leftarrow> safe_add n 1;
           offset \<leftarrow> checked_mul (unat n) slots_per_epoch;
           checked_add offset slot_in_epoch }))) (\<lambda>index.
     rbind (ok_or (list_get ptc_window index) BSE_SlotOutOfBounds) (\<lambda>entry.
     Inr (map unat entry)))))"

definition get_ptc_attester_seed ::
  "chain_externals \<Rightarrow> state_spec \<Rightarrow> chain_spec \<Rightarrow> 'o beacon_state \<Rightarrow> slot \<Rightarrow> state_error + byte list" where
  "get_ptc_attester_seed X E s st slot =
     rbind (get_seed E X s st (epoch_of (ss_eth E) slot) PTCAttester) (\<lambda>seed.
     Inr (sha256 X (seed @ le_bytes 8 (unat slot))))"

definition compute_ptc_with_cache ::
  "('o, 'k) selection_externals \<Rightarrow> chain_externals \<Rightarrow> state_spec \<Rightarrow> chain_spec \<Rightarrow> 'o beacon_state \<Rightarrow> slot \<Rightarrow> 'o
     \<Rightarrow> state_error + nat list" where
  "compute_ptc_with_cache L X E s st slot committee_cache =
     rbind (lx_committees_at_slot L committee_cache slot) (\<lambda>committees.
     rbind (get_ptc_attester_seed X E s st slot) (\<lambda>seed.
     rbind (compute_balance_weighted_selection L X s st (concat committees) seed (ss_ptc_size E) False) (\<lambda>selected.
     if length selected = ss_ptc_size E then Inr selected else Inl BSE_SszTypesError)))"

fun first_ptc_slot ::
  "state_spec \<Rightarrow> chain_spec \<Rightarrow> 'o beacon_state \<Rightarrow> nat \<Rightarrow> slot list \<Rightarrow> state_error + slot option" where
  "first_ptc_slot E s st validator_index [] = Inr None"
| "first_ptc_slot E s st validator_index (slot # slots) =
     rbind (get_ptc E s st slot) (\<lambda>ptc.
     if validator_index \<in> set ptc then Inr (Some slot) else first_ptc_slot E s st validator_index slots)"

definition get_ptc_assignment ::
  "state_spec \<Rightarrow> chain_spec \<Rightarrow> 'o beacon_state \<Rightarrow> nat \<Rightarrow> epoch \<Rightarrow> state_error + slot option" where
  "get_ptc_assignment E s st validator_index e = first_ptc_slot E s st validator_index (slot_iter E e)"

section \<open>Builders\<close>

abbreviation gloas_field :: "'o beacon_state \<Rightarrow> ('o bs_gloas \<Rightarrow> 'a) \<Rightarrow> state_error + 'a" where
  "gloas_field st f \<equiv> partial_getter (gloas_enabled (st_variant st)) (f (st_gloas st))"

definition get_builder :: "'o beacon_state \<Rightarrow> u64 \<Rightarrow> state_error + builder" where
  "get_builder st i = rbind (gloas_field st bs_builders) (\<lambda>builders.
     ok_or (list_get builders (unat i)) (BSE_UnknownBuilder i))"

fun free_builder :: "epoch \<Rightarrow> nat \<Rightarrow> builder list \<Rightarrow> nat option" where
  "free_builder current i [] = None"
| "free_builder current i (b # bs) =
     (if bu_withdrawable_epoch b \<le> current \<and> bu_balance b = 0 then Some i else free_builder current (i + 1) bs)"

definition get_index_for_new_builder :: "state_spec \<Rightarrow> 'o beacon_state \<Rightarrow> state_error + u64" where
  "get_index_for_new_builder E st =
     rbind (gloas_field st bs_builders) (\<lambda>builders.
     Inr (of_nat (case free_builder (current_epoch E st) 0 builders of Some i \<Rightarrow> i | None \<Rightarrow> length builders)))"

definition set_builders :: "builder list \<Rightarrow> 'o beacon_state \<Rightarrow> 'o beacon_state" where
  "set_builders builders st = st\<lparr>st_gloas := (st_gloas st)\<lparr>bs_builders := builders\<rparr>\<rparr>"

definition add_builder_to_registry ::
  "state_spec \<Rightarrow> chain_spec \<Rightarrow> byte list \<Rightarrow> byte list \<Rightarrow> u64 \<Rightarrow> slot \<Rightarrow> 'o beacon_state
     \<Rightarrow> state_error + u64 \<times> 'o beacon_state" where
  "add_builder_to_registry E s pubkey withdrawal_credentials amount slot st =
     rbind (get_index_for_new_builder E st) (\<lambda>builder_index.
     rbind (gloas_field st bs_builders) (\<lambda>builders.
     rbind (ok_or (list_get withdrawal_credentials 0) BSE_WithdrawalCredentialMissingVersion) (\<lambda>version.
     rbind (if 12 \<le> length withdrawal_credentials \<and> length (drop 12 withdrawal_credentials) = 20
        then Inr (drop 12 withdrawal_credentials) else Inl BSE_WithdrawalCredentialMissingAddress) (\<lambda>execution_address.
     let builder = \<lparr>bu_pubkey = pubkey, bu_version = version, bu_execution_address = execution_address,
           bu_balance = amount, bu_deposit_epoch = epoch_of (ss_eth E) slot,
           bu_withdrawable_epoch = far_future_epoch (sp_constants s)\<rparr> in
     if builder_index = of_nat (length builders) then
       (if length builders < ss_builder_registry_limit E
        then Inr (builder_index, set_builders (builders @ [builder]) st) else Inl BSE_MilhouseError)
     else if unat builder_index < length builders
     then Inr (builder_index, set_builders (builders[unat builder_index := builder]) st)
     else Inl (BSE_UnknownBuilder builder_index)))))"

definition get_pending_balance_to_withdraw_for_builder :: "'o beacon_state \<Rightarrow> u64 \<Rightarrow> state_error + u64" where
  "get_pending_balance_to_withdraw_for_builder st builder_index =
     rbind (gloas_field st bs_builder_pending_withdrawals) (\<lambda>withdrawals.
     rbind (arith (safe_sum (map bw_amount (filter (\<lambda>w. bw_builder_index w = builder_index) withdrawals)) 0))
       (\<lambda>pending_withdrawals_total.
     rbind (gloas_field st bs_builder_pending_payments) (\<lambda>payments.
     rbind (arith (safe_sum (map (\<lambda>p. bw_amount (bp_withdrawal p))
       (filter (\<lambda>p. bw_builder_index (bp_withdrawal p) = builder_index) payments)) 0)) (\<lambda>pending_payments_total.
     arith (safe_add pending_withdrawals_total pending_payments_total)))))"

definition can_builder_cover_bid :: "chain_spec \<Rightarrow> 'o beacon_state \<Rightarrow> u64 \<Rightarrow> u64 \<Rightarrow> state_error + bool" where
  "can_builder_cover_bid s st builder_index bid_amount =
     rbind (get_builder st builder_index) (\<lambda>builder.
     rbind (get_pending_balance_to_withdraw_for_builder st builder_index) (\<lambda>pending.
     rbind (arith (safe_add (min_deposit_amount (sp_gwei s)) pending)) (\<lambda>min_balance.
     if bu_balance builder < min_balance then Inr False
     else rbind (arith (safe_sub (bu_balance builder) min_balance)) (\<lambda>free. Inr (free \<ge> bid_amount)))))"

definition is_active_builder :: "chain_spec \<Rightarrow> 'o beacon_state \<Rightarrow> u64 \<Rightarrow> state_error + bool" where
  "is_active_builder s st builder_index =
     rbind (get_builder st builder_index) (\<lambda>builder.
     Inr (bu_deposit_epoch builder < cp_epoch (bs_finalized_checkpoint (st_finality st)) \<and>
       bu_withdrawable_epoch builder = far_future_epoch (sp_constants s)))"

end
