(* ===== verification/Beacon_Caches.thy ===== *)
theory Beacon_Caches
  imports Beacon_Selection
begin

text \<open>
  The caches of the beacon state (\<open>beacon_state.rs\<close>): building, advancing and dropping the committee
  caches, the exit and slashings caches and the cache of public keys. The caches themselves are upstream
  types; \<open>cache_externals\<close> holds their constructors and readers. A step that fails leaves what it had
  already changed.
\<close>

record 'o cache_externals =
  cx_committee_at :: "'o \<Rightarrow> epoch \<Rightarrow> bool"
  cx_committee_new :: "chain_spec \<Rightarrow> 'o beacon_state \<Rightarrow> epoch \<Rightarrow> state_error + 'o"
  cx_committee_lookahead :: "chain_spec \<Rightarrow> 'o beacon_state \<Rightarrow> epoch \<Rightarrow> state_error + 'o"
  cx_committee_default :: 'o
  cx_committees_per_slot :: "'o \<Rightarrow> u64"
  cx_epoch_committee_count :: "'o \<Rightarrow> state_error + nat"
  cx_active_indices :: "'o \<Rightarrow> nat list"
  cx_shuffling :: "'o \<Rightarrow> nat list"
  cx_beacon_committee :: "'o \<Rightarrow> slot \<Rightarrow> u64 \<Rightarrow> 'o option"
  cx_committees_at_slot :: "'o \<Rightarrow> slot \<Rightarrow> state_error + 'o list"
  cx_all_committees :: "'o \<Rightarrow> state_error + 'o list"
  cx_into_epoch :: "relative_epoch \<Rightarrow> epoch \<Rightarrow> epoch"
  cx_from_epoch :: "epoch \<Rightarrow> epoch \<Rightarrow> state_error + relative_epoch"
  cx_is_active_at :: "validator \<Rightarrow> epoch \<Rightarrow> bool"
  cx_pubkey_len :: "'o \<Rightarrow> nat"
  cx_pubkey_insert :: "byte list \<Rightarrow> nat \<Rightarrow> 'o \<Rightarrow> bool \<times> 'o"
  cx_pubkey_default :: 'o
  cx_exit_initialized :: "'o \<Rightarrow> bool"
  cx_exit_new :: "chain_spec \<Rightarrow> validator list \<Rightarrow> state_error + 'o"
  cx_exit_default :: 'o
  cx_slashings_initialized :: "'o \<Rightarrow> slot \<Rightarrow> bool"
  cx_slashings_new :: "slot \<Rightarrow> validator list \<Rightarrow> 'o"
  cx_slashings_default :: 'o
  cx_slashings_slot :: "slot \<Rightarrow> 'o \<Rightarrow> 'o"
  cx_progressive_default :: 'o
  cx_epoch_default :: 'o

text \<open>The state with some of its caches replaced.\<close>

definition map_caches :: "('o bs_caches \<Rightarrow> 'o bs_caches) \<Rightarrow> 'o beacon_state \<Rightarrow> 'o beacon_state" where
  "map_caches f st = st\<lparr>st_caches := f (st_caches st)\<rparr>"

section \<open>Committee caches\<close>

fun committee_cache_index :: "relative_epoch \<Rightarrow> nat" where
  "committee_cache_index Rel_Previous = 0"
| "committee_cache_index Rel_Current = 1"
| "committee_cache_index Rel_Next = 2"

definition committee_cache_at_index :: "nat \<Rightarrow> 'o beacon_state \<Rightarrow> state_error + 'o" where
  "committee_cache_at_index i st =
     ok_or (list_get (bs_committee_caches (st_caches st)) i) (BSE_CommitteeCachesOutOfBounds i)"

definition put_committee_cache :: "nat \<Rightarrow> 'o \<Rightarrow> 'o beacon_state \<Rightarrow> state_error + 'o beacon_state" where
  "put_committee_cache i cache st =
     (if i < length (bs_committee_caches (st_caches st))
      then Inr (map_caches (\<lambda>c. c\<lparr>bs_committee_caches := (bs_committee_caches c)[i := cache]\<rparr>) st)
      else Inl (BSE_CommitteeCachesOutOfBounds i))"

definition set_committee_cache :: "relative_epoch \<Rightarrow> 'o \<Rightarrow> 'o beacon_state \<Rightarrow> state_error + 'o beacon_state" where
  "set_committee_cache r cache st = put_committee_cache (committee_cache_index r) cache st"

definition committee_cache_is_initialized ::
  "'o cache_externals \<Rightarrow> state_spec \<Rightarrow> relative_epoch \<Rightarrow> 'o beacon_state \<Rightarrow> bool" where
  "committee_cache_is_initialized C E r st =
     (case committee_cache_at_index (committee_cache_index r) st of
        Inl _ \<Rightarrow> False
      | Inr cache \<Rightarrow> cx_committee_at C cache (cx_into_epoch C r (current_epoch E st)))"

definition committee_cache ::
  "'o cache_externals \<Rightarrow> state_spec \<Rightarrow> relative_epoch \<Rightarrow> 'o beacon_state \<Rightarrow> state_error + 'o" where
  "committee_cache C E r st =
     rbind (committee_cache_at_index (committee_cache_index r) st) (\<lambda>cache.
     if cx_committee_at C cache (cx_into_epoch C r (current_epoch E st)) then Inr cache
     else Inl (BSE_CommitteeCacheUninitialized (Some r)))"

definition committee_cache_at_slot ::
  "'o cache_externals \<Rightarrow> state_spec \<Rightarrow> slot \<Rightarrow> 'o beacon_state \<Rightarrow> state_error + 'o" where
  "committee_cache_at_slot C E slot st =
     rbind (cx_from_epoch C (current_epoch E st) (epoch_of (ss_eth E) slot)) (\<lambda>r. committee_cache C E r st)"

definition initialize_committee_cache ::
  "'o cache_externals \<Rightarrow> chain_spec \<Rightarrow> 'o beacon_state \<Rightarrow> epoch \<Rightarrow> state_error + 'o" where
  "initialize_committee_cache C s st e = cx_committee_new C s st e"

definition force_build_committee_cache ::
  "'o cache_externals \<Rightarrow> state_spec \<Rightarrow> chain_spec \<Rightarrow> relative_epoch \<Rightarrow> 'o beacon_state \<Rightarrow> state_error + 'o beacon_state" where
  "force_build_committee_cache C E s r st =
     rbind (initialize_committee_cache C s st (cx_into_epoch C r (current_epoch E st))) (\<lambda>cache.
     put_committee_cache (committee_cache_index r) cache st)"

definition build_committee_cache ::
  "'o cache_externals \<Rightarrow> state_spec \<Rightarrow> chain_spec \<Rightarrow> relative_epoch \<Rightarrow> ('o beacon_state, state_error, unit) step" where
  "build_committee_cache C E s r =
     step_bind (step_get (committee_cache_at_index (committee_cache_index r))) (\<lambda>cache.
     step_bind (step_try (\<lambda>st.
         if cx_committee_at C cache (cx_into_epoch C r (current_epoch E st)) then Inr st
         else force_build_committee_cache C E s r st)) (\<lambda>_.
     step_try (\<lambda>st.
       if bs_total_active_balance (st_caches st) = None \<and> r = Rel_Current
       then build_total_active_balance_cache (cx_is_active_at C) E s st else Inr st)))"

definition drop_committee_cache ::
  "'o cache_externals \<Rightarrow> relative_epoch \<Rightarrow> 'o beacon_state \<Rightarrow> state_error + 'o beacon_state" where
  "drop_committee_cache C r st = put_committee_cache (committee_cache_index r) (cx_committee_default C) st"

text \<open>\<open>rotate_left(1)\<close> of the array, then an empty cache for the next epoch.\<close>

definition advance_caches :: "'o cache_externals \<Rightarrow> ('o beacon_state, state_error, unit) step" where
  "advance_caches C =
     step_bind (step_try (\<lambda>st. Inr (map_caches (\<lambda>c. c\<lparr>bs_committee_caches := rotate1 (bs_committee_caches c)\<rparr>) st)))
       (\<lambda>_. step_try (put_committee_cache (committee_cache_index Rel_Next) (cx_committee_default C)))"

section \<open>Committees\<close>

definition get_committee_count_at_slot ::
  "'o cache_externals \<Rightarrow> state_spec \<Rightarrow> slot \<Rightarrow> 'o beacon_state \<Rightarrow> state_error + u64" where
  "get_committee_count_at_slot C E slot st =
     rbind (committee_cache_at_slot C E slot st) (\<lambda>cache. Inr (cx_committees_per_slot C cache))"

definition get_epoch_committee_count ::
  "'o cache_externals \<Rightarrow> state_spec \<Rightarrow> relative_epoch \<Rightarrow> 'o beacon_state \<Rightarrow> state_error + u64" where
  "get_epoch_committee_count C E r st =
     rbind (committee_cache C E r st) (\<lambda>cache.
     rbind (cx_epoch_committee_count C cache) (\<lambda>n. Inr (of_nat n)))"

definition get_cached_active_validator_indices ::
  "'o cache_externals \<Rightarrow> state_spec \<Rightarrow> relative_epoch \<Rightarrow> 'o beacon_state \<Rightarrow> state_error + nat list" where
  "get_cached_active_validator_indices C E r st =
     rbind (committee_cache C E r st) (\<lambda>cache. Inr (cx_active_indices C cache))"

definition get_shuffling ::
  "'o cache_externals \<Rightarrow> state_spec \<Rightarrow> relative_epoch \<Rightarrow> 'o beacon_state \<Rightarrow> state_error + nat list" where
  "get_shuffling C E r st = rbind (committee_cache C E r st) (\<lambda>cache. Inr (cx_shuffling C cache))"

definition get_beacon_committee ::
  "'o cache_externals \<Rightarrow> state_spec \<Rightarrow> slot \<Rightarrow> u64 \<Rightarrow> 'o beacon_state \<Rightarrow> state_error + 'o" where
  "get_beacon_committee C E slot index st =
     rbind (cx_from_epoch C (current_epoch E st) (epoch_of (ss_eth E) slot)) (\<lambda>r.
     rbind (committee_cache C E r st) (\<lambda>cache.
     ok_or (cx_beacon_committee C cache slot index) (BSE_NoCommittee slot index)))"

definition get_beacon_committees_at_slot ::
  "'o cache_externals \<Rightarrow> state_spec \<Rightarrow> slot \<Rightarrow> 'o beacon_state \<Rightarrow> state_error + 'o list" where
  "get_beacon_committees_at_slot C E slot st =
     rbind (committee_cache_at_slot C E slot st) (\<lambda>cache. cx_committees_at_slot C cache slot)"

definition get_beacon_committees_at_epoch ::
  "'o cache_externals \<Rightarrow> state_spec \<Rightarrow> relative_epoch \<Rightarrow> 'o beacon_state \<Rightarrow> state_error + 'o list" where
  "get_beacon_committees_at_epoch C E r st =
     rbind (committee_cache C E r st) (\<lambda>cache. cx_all_committees C cache)"

section \<open>The other caches\<close>

definition build_exit_cache :: "'o cache_externals \<Rightarrow> chain_spec \<Rightarrow> 'o beacon_state \<Rightarrow> state_error + 'o beacon_state" where
  "build_exit_cache C s st =
     (if cx_exit_initialized C (bs_exit_cache (st_caches st)) then Inr st
      else rbind (cx_exit_new C s (bs_validators (st_registry st))) (\<lambda>cache.
        Inr (map_caches (\<lambda>c. c\<lparr>bs_exit_cache := cache\<rparr>) st)))"

definition slashings_cache_is_initialized :: "'o cache_externals \<Rightarrow> 'o beacon_state \<Rightarrow> bool" where
  "slashings_cache_is_initialized C st =
     cx_slashings_initialized C (bs_slashings_cache (st_caches st)) (bh_slot (bs_latest_block_header (st_history st)))"

definition build_slashings_cache :: "'o cache_externals \<Rightarrow> 'o beacon_state \<Rightarrow> 'o beacon_state" where
  "build_slashings_cache C st =
     (if slashings_cache_is_initialized C st then st
      else map_caches (\<lambda>c. c\<lparr>bs_slashings_cache := cx_slashings_new C (bh_slot (bs_latest_block_header (st_history st)))
          (bs_validators (st_registry st))\<rparr>) st)"

text \<open>The cache is taken out of the state first, so the state of a failed update has an empty cache.\<close>

fun insert_pubkeys :: "'o cache_externals \<Rightarrow> nat \<Rightarrow> validator list \<Rightarrow> 'o \<Rightarrow> state_error + 'o" where
  "insert_pubkeys C i [] cache = Inr cache"
| "insert_pubkeys C i (v # vs) cache =
     (let (success, cache) = cx_pubkey_insert C (va_pubkey v) i cache in
      if \<not> success then Inl BSE_PubkeyCacheInconsistent
      else insert_pubkeys C (i + 1) vs cache)"

definition put_pubkey_cache :: "'o \<Rightarrow> 'o beacon_state \<Rightarrow> 'o beacon_state" where
  "put_pubkey_cache cache = map_caches (\<lambda>c. c\<lparr>bs_pubkey_cache := cache\<rparr>)"

text \<open>\<open>iter_from\<close> fails past the end of the registry.\<close>

definition update_pubkey_cache :: "'o cache_externals \<Rightarrow> ('o beacon_state, state_error, unit) step" where
  "update_pubkey_cache C =
     step_bind (step_get (\<lambda>st. Inr (bs_pubkey_cache (st_caches st)))) (\<lambda>pubkey_cache.
     step_bind (step_try (\<lambda>st. Inr (put_pubkey_cache (cx_pubkey_default C) st))) (\<lambda>_.
     step_try (\<lambda>st.
       let validators = bs_validators (st_registry st); start_index = cx_pubkey_len C pubkey_cache in
       if start_index > length validators then Inl BSE_MilhouseError
       else rbind (insert_pubkeys C start_index (drop start_index validators) pubkey_cache) (\<lambda>cache.
         Inr (put_pubkey_cache cache st)))))"

section \<open>All caches\<close>

definition build_all_committee_caches ::
  "'o cache_externals \<Rightarrow> state_spec \<Rightarrow> chain_spec \<Rightarrow> ('o beacon_state, state_error, unit) step" where
  "build_all_committee_caches C E s =
     step_bind (build_committee_cache C E s Rel_Previous) (\<lambda>_.
     step_bind (build_committee_cache C E s Rel_Current) (\<lambda>_.
     build_committee_cache C E s Rel_Next))"

definition build_caches ::
  "'o cache_externals \<Rightarrow> state_spec \<Rightarrow> chain_spec \<Rightarrow> ('o beacon_state, state_error, unit) step" where
  "build_caches C E s =
     step_bind (build_all_committee_caches C E s) (\<lambda>_.
     step_bind (update_pubkey_cache C) (\<lambda>_.
     step_bind (step_try (build_exit_cache C s)) (\<lambda>_.
     step_try (\<lambda>st. Inr (build_slashings_cache C st)))))"

definition drop_all_caches :: "'o cache_externals \<Rightarrow> ('o beacon_state, state_error, unit) step" where
  "drop_all_caches C =
     step_bind (step_try (\<lambda>st. Inr (drop_total_active_balance_cache st))) (\<lambda>_.
     step_bind (step_try (drop_committee_cache C Rel_Previous)) (\<lambda>_.
     step_bind (step_try (drop_committee_cache C Rel_Current)) (\<lambda>_.
     step_bind (step_try (drop_committee_cache C Rel_Next)) (\<lambda>_.
     step_try (\<lambda>st. Inr (map_caches (\<lambda>c. c\<lparr>bs_pubkey_cache := cx_pubkey_default C,
       bs_progressive_balances_cache := cx_progressive_default C, bs_exit_cache := cx_exit_default C,
       bs_slashings_cache := cx_slashings_default C, bs_epoch_cache := cx_epoch_default C\<rparr>) st))))))"

section \<open>Validators\<close>

text \<open>\<open>RelativeEpoch\<close>-independent accessors of the registry that use the cache of public keys.\<close>

definition get_validator_index ::
  "'o cache_externals \<Rightarrow> ('o \<Rightarrow> byte list \<Rightarrow> nat option) \<Rightarrow> byte list
     \<Rightarrow> ('o beacon_state, state_error, nat option) step" where
  "get_validator_index C pubkey_get pubkey =
     step_bind (update_pubkey_cache C) (\<lambda>_.
     step_get (\<lambda>st. Inr (pubkey_get (bs_pubkey_cache (st_caches st)) pubkey)))"

end
