(* ===== verification/Cache_Facts.thy ===== *)
theory Cache_Facts
  imports Beacon_Caches Slot_Facts
begin

text \<open>
  The caches of the beacon state: building them changes nothing but the caches, leaves every cache at the
  state it belongs to, and changes nothing the second time; advancing an epoch moves the committees along.
  The locale \<open>kept_relation\<close> carries a relation through the steps of a computation.
\<close>

section \<open>Relations kept by steps\<close>

definition keeps :: "('st \<Rightarrow> 'st \<Rightarrow> bool) \<Rightarrow> ('st, 'e, 'a) step \<Rightarrow> bool" where
  "keeps P m \<longleftrightarrow> (\<forall>st r st'. m st = (r, st') \<longrightarrow> P st st')"

lemma keepsD: "keeps P m \<Longrightarrow> m st = (r, st') \<Longrightarrow> P st st'"
  unfolding keeps_def by blast

locale kept_relation =
  fixes P :: "'st \<Rightarrow> 'st \<Rightarrow> bool"
  assumes refl: "P st st" and trans: "P st st1 \<Longrightarrow> P st1 st2 \<Longrightarrow> P st st2"
begin

lemma kept_bind: "keeps P m \<Longrightarrow> (\<And>x. keeps P (k x)) \<Longrightarrow> keeps P (step_bind m k)"
  unfolding keeps_def step_bind_def by (auto split: prod.splits sum.splits) (metis trans)+

lemma kept_get: "keeps P (step_get f)"
  by (auto simp: keeps_def step_get_def refl)

lemma kept_try: "(\<And>st st'. f st = Inr st' \<Longrightarrow> P st st') \<Longrightarrow> keeps P (step_try f)"
  by (auto simp: keeps_def step_try_def refl split: sum.splits)

lemma kept_err: "keeps P m \<Longrightarrow> keeps P (step_err g m)"
  unfolding keeps_def step_err_def by (auto split: prod.splits sum.splits)

lemma kept_cases: "keeps P m \<Longrightarrow> keeps P m' \<Longrightarrow> keeps P (if c then m else m')"
  by simp

end

definition same_but_caches :: "'o beacon_state \<Rightarrow> 'o beacon_state \<Rightarrow> bool" where
  "same_but_caches st st' \<longleftrightarrow> st' = st\<lparr>st_caches := st_caches st'\<rparr>"

lemma same_but_cachesE:
  assumes "same_but_caches st st'"
  obtains c where "st' = st\<lparr>st_caches := c\<rparr>"
  using assms unfolding same_but_caches_def by blast

lemma same_but_caches_update [simp]: "same_but_caches st (st\<lparr>st_caches := c\<rparr>)"
  by (simp add: same_but_caches_def)

lemma map_caches_same [simp]: "same_but_caches st (map_caches f st)"
  by (simp add: map_caches_def)

interpretation caching: kept_relation same_but_caches
proof unfold_locales
  fix st st1 st2 :: "'o beacon_state"
  assume st1: "same_but_caches st st1" and st2: "same_but_caches st1 st2"
  show "same_but_caches st st2"
    by (rule same_but_cachesE [OF st1], rule same_but_cachesE [OF st2]) simp
qed (simp add: same_but_caches_def)

lemmas cache_kept = caching.kept_bind caching.kept_get caching.kept_try caching.kept_err caching.kept_cases

lemma put_committee_same: "put_committee_cache i c st = Inr st' \<Longrightarrow> same_but_caches st st'"
  by (auto simp: put_committee_cache_def split: if_splits)

lemma build_balance_same: "build_total_active_balance_cache f E s st = Inr st' \<Longrightarrow> same_but_caches st st'"
  by (auto simp: build_total_active_balance_cache_def force_build_total_active_balance_cache_def rbind_Inr
      caching.refl split: sum.splits)

lemma build_committee_same: "keeps same_but_caches (build_committee_cache C E s r)"
  unfolding build_committee_cache_def
  by (intro cache_kept) (auto simp: force_build_committee_cache_def rbind_Inr caching.refl split: if_splits
      dest: put_committee_same build_balance_same)

lemma update_pubkey_same: "keeps same_but_caches (update_pubkey_cache C)"
  unfolding update_pubkey_cache_def Let_def
  by (intro cache_kept) (auto simp: rbind_Inr put_pubkey_cache_def split: if_splits)

lemma build_caches_same: "keeps same_but_caches (build_caches C E s)"
  unfolding build_caches_def build_all_committee_caches_def
  by (intro cache_kept build_committee_same update_pubkey_same)
    (auto simp: build_exit_cache_def build_slashings_cache_def rbind_Inr caching.refl split: if_splits)

lemma advance_caches_same: "keeps same_but_caches (advance_caches C)"
  unfolding advance_caches_def by (intro cache_kept) (auto dest: put_committee_same)

lemma drop_all_caches_same: "keeps same_but_caches (drop_all_caches C)"
  unfolding drop_all_caches_def
  by (intro cache_kept) (auto simp: drop_total_active_balance_cache_def drop_committee_cache_def dest: put_committee_same)

section \<open>Built caches\<close>

text \<open>What is relied on: a new cache belongs to what it was made from, the epochs of the committee caches
  are the one before, the one and the one after, and the public keys are inserted in the order of the registry.\<close>

definition caches_lawful :: "'o cache_externals \<Rightarrow> bool" where
  "caches_lawful C \<longleftrightarrow>
     (\<forall>s st e c. cx_committee_new C s st e = Inr c \<longrightarrow> cx_committee_at C c e) \<and>
     (\<forall>e. cx_into_epoch C Rel_Current e = e) \<and>
     (\<forall>e. e < e + 1 \<longrightarrow> cx_into_epoch C Rel_Next e = e + 1 \<and> cx_into_epoch C Rel_Previous (e + 1) = e) \<and>
     (\<forall>s vs c. cx_exit_new C s vs = Inr c \<longrightarrow> cx_exit_initialized C c) \<and>
     (\<forall>slot vs. cx_slashings_initialized C (cx_slashings_new C slot vs) slot) \<and>
     (\<forall>k i c c'. cx_pubkey_insert C k i c = (True, c') \<longrightarrow> cx_pubkey_len C c = i \<and> cx_pubkey_len C c' = i + 1)"

text \<open>The caches of a state are those of the state.\<close>

definition caches_ready :: "'o cache_externals \<Rightarrow> state_spec \<Rightarrow> 'o beacon_state \<Rightarrow> bool" where
  "caches_ready C E st \<longleftrightarrow> (\<forall>r\<in>{Rel_Previous, Rel_Current, Rel_Next}. committee_cache_is_initialized C E r st) \<and>
     bs_total_active_balance (st_caches st) \<noteq> None \<and>
     cx_pubkey_len C (bs_pubkey_cache (st_caches st)) = length (bs_validators (st_registry st)) \<and>
     cx_exit_initialized C (bs_exit_cache (st_caches st)) \<and> slashings_cache_is_initialized C st"

lemma committee_index_cases: "committee_cache_index r = committee_cache_index r' \<longleftrightarrow> r = r'"
  by (cases r; cases r') auto

lemma initialized_iff: "committee_cache_is_initialized C E r st \<longleftrightarrow>
    committee_cache_index r < length (bs_committee_caches (st_caches st)) \<and>
    cx_committee_at C (bs_committee_caches (st_caches st) ! committee_cache_index r) (cx_into_epoch C r (current_epoch E st))"
  by (auto simp: committee_cache_is_initialized_def committee_cache_at_index_def list_get_def ok_or_def)

lemma build_balance_Inr:
  assumes "build_total_active_balance_cache f E s st = Inr st'"
  shows "\<exists>t. st' = st\<lparr>st_caches := (st_caches st)\<lparr>bs_total_active_balance := t\<rparr>\<rparr> \<and> t \<noteq> None"
proof (cases "get_total_active_balance_at_epoch st (current_epoch E st)")
  case (Inl e)
  then show ?thesis using assms
    by (auto simp: build_total_active_balance_cache_def force_build_total_active_balance_cache_def rbind_Inr)
next
  case (Inr x)
  then have "bs_total_active_balance (st_caches st) \<noteq> None"
    by (auto simp: get_total_active_balance_at_epoch_def split: option.splits)
  moreover have "st' = st" using Inr assms by (simp add: build_total_active_balance_cache_def)
  ultimately show ?thesis by (intro exI [of _ "bs_total_active_balance (st_caches st)"]) simp
qed

lemma build_committee_Inr:
  assumes "caches_lawful C" and "build_committee_cache C E s r st = (Inr (), st')"
  shows "\<exists>t cs. st' = st\<lparr>st_caches := (st_caches st)\<lparr>bs_total_active_balance := t, bs_committee_caches := cs\<rparr>\<rparr> \<and>
    committee_cache_index r < length (bs_committee_caches (st_caches st)) \<and>
    (\<exists>c. cs = (bs_committee_caches (st_caches st))[committee_cache_index r := c] \<and>
      cx_committee_at C c (cx_into_epoch C r (current_epoch E st))) \<and>
    (r = Rel_Current \<or> bs_total_active_balance (st_caches st) \<noteq> None \<longrightarrow> t \<noteq> None)"
proof -
  let ?cs = "bs_committee_caches (st_caches st)" let ?i = "committee_cache_index r"
  let ?e = "cx_into_epoch C r (current_epoch E st)"
  from assms(2) obtain st1 where i: "?i < length ?cs"
    and st1: "(if cx_committee_at C (?cs ! ?i) ?e then Inr st else force_build_committee_cache C E s r st) = Inr st1"
    and st': "(if bs_total_active_balance (st_caches st1) = None \<and> r = Rel_Current
       then build_total_active_balance_cache (cx_is_active_at C) E s st1 else Inr st1) = Inr st'"
    by (auto simp: build_committee_cache_def step_simps committee_cache_at_index_def list_get_def ok_or_def split: if_splits)
  have "\<exists>c. st1 = st\<lparr>st_caches := (st_caches st)\<lparr>bs_committee_caches := ?cs[?i := c]\<rparr>\<rparr> \<and> cx_committee_at C c ?e"
  proof (cases "cx_committee_at C (?cs ! ?i) ?e")
    case True
    then show ?thesis using st1 by (intro exI [of _ "?cs ! ?i"]) simp
  next
    case False
    then show ?thesis using st1 assms(1)
      by (auto simp: force_build_committee_cache_def rbind_Inr initialize_committee_cache_def put_committee_cache_def
          map_caches_def caches_lawful_def split: if_splits)
  qed
  then obtain c where c: "st1 = st\<lparr>st_caches := (st_caches st)\<lparr>bs_committee_caches := ?cs[?i := c]\<rparr>\<rparr>" "cx_committee_at C c ?e"
    by blast
  have "\<exists>t. st' = st1\<lparr>st_caches := (st_caches st1)\<lparr>bs_total_active_balance := t\<rparr>\<rparr> \<and>
      (r = Rel_Current \<or> bs_total_active_balance (st_caches st1) \<noteq> None \<longrightarrow> t \<noteq> None)"
  proof (cases "bs_total_active_balance (st_caches st1) = None \<and> r = Rel_Current")
    case True
    then show ?thesis using st' build_balance_Inr by fastforce
  next
    case False
    then show ?thesis using st' by (intro exI [of _ "bs_total_active_balance (st_caches st1)"]) auto
  qed
  then obtain t where "st' = st1\<lparr>st_caches := (st_caches st1)\<lparr>bs_total_active_balance := t\<rparr>\<rparr>"
    "r = Rel_Current \<or> bs_total_active_balance (st_caches st1) \<noteq> None \<longrightarrow> t \<noteq> None" by blast
  then show ?thesis using i c by (intro exI [of _ t] exI [of _ "?cs[?i := c]"]) auto
qed

lemma build_committee_ready:
  assumes "caches_lawful C" and "build_committee_cache C E s r st = (Inr (), st')"
  shows "committee_cache_is_initialized C E r st'"
    and "r' \<noteq> r \<Longrightarrow> committee_cache_is_initialized C E r' st \<Longrightarrow> committee_cache_is_initialized C E r' st'"
    and "r = Rel_Current \<or> bs_total_active_balance (st_caches st) \<noteq> None \<Longrightarrow> bs_total_active_balance (st_caches st') \<noteq> None"
proof -
  obtain t c where st': "st' = st\<lparr>st_caches := (st_caches st)\<lparr>bs_total_active_balance := t,
      bs_committee_caches := (bs_committee_caches (st_caches st))[committee_cache_index r := c]\<rparr>\<rparr>"
    and i: "committee_cache_index r < length (bs_committee_caches (st_caches st))"
    and c: "cx_committee_at C c (cx_into_epoch C r (current_epoch E st))"
    and t: "r = Rel_Current \<or> bs_total_active_balance (st_caches st) \<noteq> None \<longrightarrow> t \<noteq> None"
    using build_committee_Inr [OF assms] by blast
  have epoch: "current_epoch E st' = current_epoch E st" by (simp add: current_epoch_def st')
  show "committee_cache_is_initialized C E r st'" using i c unfolding initialized_iff epoch by (simp add: st')
  show "r' \<noteq> r \<Longrightarrow> committee_cache_is_initialized C E r' st \<Longrightarrow> committee_cache_is_initialized C E r' st'"
    unfolding initialized_iff epoch by (auto simp: st' committee_index_cases nth_list_update)
  show "r = Rel_Current \<or> bs_total_active_balance (st_caches st) \<noteq> None \<Longrightarrow> bs_total_active_balance (st_caches st') \<noteq> None"
    using t by (simp add: st')
qed

lemma insert_pubkeys_len:
  assumes "caches_lawful C"
  shows "insert_pubkeys C i vs c = Inr c' \<Longrightarrow> cx_pubkey_len C c = i \<Longrightarrow> cx_pubkey_len C c' = i + length vs"
proof (induction vs arbitrary: i c)
  case (Cons v vs)
  then obtain c1 where "cx_pubkey_insert C (va_pubkey v) i c = (True, c1)" "insert_pubkeys C (i + 1) vs c1 = Inr c'"
    by (auto split: prod.splits if_splits)
  moreover have "cx_pubkey_len C c1 = i + 1" using calculation(1) assms unfolding caches_lawful_def by blast
  ultimately show ?case using Cons.IH [of "i + 1" c1] by simp
qed simp

lemma update_pubkey_Inr:
  assumes "caches_lawful C" and "update_pubkey_cache C st = (Inr (), st')"
  shows "\<exists>c. st' = st\<lparr>st_caches := (st_caches st)\<lparr>bs_pubkey_cache := c\<rparr>\<rparr> \<and>
    cx_pubkey_len C c = length (bs_validators (st_registry st))"
  using assms(2) insert_pubkeys_len [OF assms(1)]
  by (fastforce simp: update_pubkey_cache_def step_simps Let_def put_pubkey_cache_def map_caches_def rbind_Inr split: if_splits)

lemma ready_committees: "caches_ready C E st \<Longrightarrow> build_committee_cache C E s r st = (Inr (), st)"
  by (cases r) (auto simp: caches_ready_def initialized_iff build_committee_cache_def step_simps committee_cache_at_index_def
      list_get_def ok_or_def)

text \<open>
  Building the caches makes every cache the one of the state, changes nothing else, and does
  nothing when it is done again.\<close>

theorem caches_built_once:
  assumes "caches_lawful C" and "build_caches C E s st = (Inr (), st')"
  shows "caches_ready C E st' \<and> st' = st\<lparr>st_caches := st_caches st'\<rparr> \<and> build_caches C E s st' = (Inr (), st')"
proof -
  from assms(2) obtain st1 st2 st3 st4 st5 where
    b1: "build_committee_cache C E s Rel_Previous st = (Inr (), st1)" and b2: "build_committee_cache C E s Rel_Current st1 = (Inr (), st2)"
    and b3: "build_committee_cache C E s Rel_Next st2 = (Inr (), st3)" and b4: "update_pubkey_cache C st3 = (Inr (), st4)"
    and b5: "build_exit_cache C s st4 = Inr st5" and st': "st' = build_slashings_cache C st5"
    by (auto simp: build_caches_def build_all_committee_caches_def step_simps)
  note r1 = build_committee_ready [OF assms(1) b1] and r2 = build_committee_ready [OF assms(1) b2]
    and r3 = build_committee_ready [OF assms(1) b3]
  have "committee_cache_is_initialized C E r st3" for r
    using r1(1) r2(1,2) r3(1,2) by (cases r) auto
  moreover have "bs_total_active_balance (st_caches st3) \<noteq> None" using r2(3) r3(3) by simp
  moreover obtain c where st4: "st4 = st3\<lparr>st_caches := (st_caches st3)\<lparr>bs_pubkey_cache := c\<rparr>\<rparr>"
    and c: "cx_pubkey_len C c = length (bs_validators (st_registry st3))"
    using update_pubkey_Inr [OF assms(1) b4] by blast
  moreover obtain x where st5: "st5 = st4\<lparr>st_caches := (st_caches st4)\<lparr>bs_exit_cache := x\<rparr>\<rparr>" "cx_exit_initialized C x"
  proof (cases "cx_exit_initialized C (bs_exit_cache (st_caches st4))")
    case True
    then show thesis using b5 that [of "bs_exit_cache (st_caches st4)"] by (simp add: build_exit_cache_def)
  next
    case False
    then show thesis using b5 that assms(1)
      by (auto simp: build_exit_cache_def rbind_Inr map_caches_def caches_lawful_def)
  qed
  moreover obtain y where "st' = st5\<lparr>st_caches := (st_caches st5)\<lparr>bs_slashings_cache := y\<rparr>\<rparr>"
    "cx_slashings_initialized C y (bh_slot (bs_latest_block_header (st_history st5)))"
  proof (cases "slashings_cache_is_initialized C st5")
    case True
    then show thesis using that [of "bs_slashings_cache (st_caches st5)"] st'
      by (simp add: build_slashings_cache_def slashings_cache_is_initialized_def)
  next
    case False
    then show thesis using that assms(1) st' by (auto simp: build_slashings_cache_def map_caches_def caches_lawful_def)
  qed
  ultimately have ready: "caches_ready C E st'"
    by (simp add: caches_ready_def initialized_iff current_epoch_def slashings_cache_is_initialized_def)
  moreover have "same_but_caches st st'" by (rule keepsD [OF build_caches_same assms(2)])
  moreover have "build_caches C E s st' = (Inr (), st')"
  proof -
    have "update_pubkey_cache C st' = (Inr (), st')"
      using ready by (simp add: update_pubkey_cache_def step_simps Let_def put_pubkey_cache_def map_caches_def caches_ready_def)
    then show ?thesis using ready ready_committees [OF ready]
      by (simp add: build_caches_def build_all_committee_caches_def step_simps build_exit_cache_def build_slashings_cache_def
          caches_ready_def)
  qed
  ultimately show ?thesis by (simp add: same_but_caches_def)
qed

text \<open>
  When the epoch advances, the committees move along: those of the current epoch become those of the
  previous one, those of the next epoch become the current ones without being built again, and those of the
  epoch after are not there yet.\<close>

theorem caches_advance:
  assumes lawful: "caches_lawful C" and ready: "caches_ready C E st" and three: "length (bs_committee_caches (st_caches st)) = 3"
    and later: "st_caches st2 = st_caches st" "current_epoch E st2 = current_epoch E st + 1" "current_epoch E st < current_epoch E st2"
    and advance: "advance_caches C st2 = (Inr (), st')"
  shows "committee_cache C E Rel_Previous st' = committee_cache C E Rel_Current st \<and>
    committee_cache C E Rel_Current st' = committee_cache C E Rel_Next st \<and>
    committee_cache_is_initialized C E Rel_Previous st' \<and> committee_cache_is_initialized C E Rel_Current st' \<and>
    bs_committee_caches (st_caches st') ! 2 = cx_committee_default C"
proof -
  obtain a b c where cs: "bs_committee_caches (st_caches st) = [a, b, c]"
    using three by (auto simp: numeral_3_eq_3 length_Suc_conv)
  have st': "bs_committee_caches (st_caches st') = [b, c, cx_committee_default C]" "current_epoch E st' = current_epoch E st + 1"
    using advance later cs
    by (auto simp: advance_caches_def step_simps map_caches_def put_committee_cache_def numeral_2_eq_2 current_epoch_def)
  have epochs: "cx_into_epoch C Rel_Previous (current_epoch E st + 1) = current_epoch E st"
    "cx_into_epoch C Rel_Current e = e" "cx_into_epoch C Rel_Next (current_epoch E st) = current_epoch E st + 1" for e
    using lawful later(2,3) by (auto simp: caches_lawful_def)
  have at: "cx_committee_at C b (current_epoch E st)" "cx_committee_at C c (current_epoch E st + 1)"
    using ready by (auto simp: caches_ready_def initialized_iff cs epochs numeral_2_eq_2)
  show ?thesis
    by (simp add: committee_cache_def committee_cache_at_index_def list_get_def st' cs epochs at ok_or_def initialized_iff
        numeral_2_eq_2)
qed

end
