(* ===== verification/Selection_Facts.thy ===== *)
theory Selection_Facts
  imports Beacon_Selection
begin

text \<open>
  Selection by balance: the loops return the first accepted candidates; the selection of the later
  forks and the older loops agree; the proposers of an epoch are the proposers of its slots; builders
  that are in use keep their place.
\<close>

section \<open>Loops over candidates\<close>

text \<open>The candidates accepted in the iterations from \<open>i\<close> up to \<open>n\<close>.\<close>

definition accepted_in :: "(nat \<Rightarrow> 'e + 'a \<times> bool) \<Rightarrow> nat \<Rightarrow> nat \<Rightarrow> 'a list" where
  "accepted_in draw i n = concat (map (\<lambda>j. case draw j of Inr (c, True) \<Rightarrow> [c] | _ \<Rightarrow> []) [i..<n])"

lemma accepted_in_step: "i < n \<Longrightarrow> accepted_in draw i n =
    (case draw i of Inr (c, True) \<Rightarrow> [c] | _ \<Rightarrow> []) @ accepted_in draw (Suc i) n"
  by (simp add: accepted_in_def upt_conv_Cons)

lemma accepted_in_empty [simp]: "accepted_in draw i i = []"
  by (simp add: accepted_in_def)

lemma accepted_member:
  assumes "draw j = Inr (c, True)" and "i \<le> j" and "j < n"
  shows "c \<in> set (accepted_in draw i n)"
proof -
  have "j \<in> set [i..<n]" using assms by simp
  moreover have "c \<in> set (case draw j of Inr (c, True) \<Rightarrow> [c] | _ \<Rightarrow> [])" using assms by simp
  ultimately show ?thesis unfolding accepted_in_def set_concat set_map by blast
qed

text \<open>The last of the iterations up to \<open>n\<close> was accepted, and all of them succeed.\<close>

definition complete_draws :: "(nat \<Rightarrow> 'e + 'a \<times> bool) \<Rightarrow> nat \<Rightarrow> nat \<Rightarrow> bool" where
  "complete_draws draw i n \<longleftrightarrow> i \<le> n \<and> n < 2 ^ 64 \<and> (\<forall>j\<in>{i..<n}. \<exists>p. draw j = Inr p) \<and>
     (n = i \<or> (\<exists>c. draw (n - 1) = Inr (c, True)))"

locale selection_loop =
  fixes draw :: "nat \<Rightarrow> state_error + 'a \<times> bool" and loop :: "nat \<Rightarrow> nat \<Rightarrow> 'a list \<Rightarrow> state_error + 'a list"
  assumes step: "loop wanted i out =
    (if length out < wanted then
       (case draw i of Inl e \<Rightarrow> Inl e
        | Inr (c, ok) \<Rightarrow> (case checked_add i 1 of None \<Rightarrow> Inl BSE_Arith
            | Some j \<Rightarrow> loop wanted j (if ok then out @ [c] else out)))
     else Inr out)"
begin

lemma loop_done: "wanted \<le> length out \<Longrightarrow> loop wanted i out = Inr out"
  by (subst step) simp

lemma loop_iff:
  assumes "i < 2 ^ 64" and "length out \<le> wanted"
  shows "loop wanted i out = Inr selected \<longleftrightarrow>
    (\<exists>n. complete_draws draw i n \<and> selected = out @ accepted_in draw i n \<and> length selected = wanted)"
  using assms
proof (induction "2 ^ 64 - i" arbitrary: i out rule: less_induct)
  case less
  have done_iff: "complete_draws draw i n \<and> selected = out @ accepted_in draw i n \<and> length selected = wanted \<longleftrightarrow>
      n = i \<and> selected = out" if "length out = wanted" for n
  proof
    assume n: "complete_draws draw i n \<and> selected = out @ accepted_in draw i n \<and> length selected = wanted"
    have "n = i"
    proof (rule ccontr)
      assume "n \<noteq> i"
      with n obtain c where "draw (n - 1) = Inr (c, True)" "i < n" by (auto simp: complete_draws_def)
      then have "c \<in> set (accepted_in draw i n)" by (intro accepted_member [of draw "n - 1"]) simp_all
      then show False using n that by auto
    qed
    then show "n = i \<and> selected = out" using n by simp
  next
    assume "n = i \<and> selected = out"
    then show "complete_draws draw i n \<and> selected = out @ accepted_in draw i n \<and> length selected = wanted"
      using that less.prems by (simp add: complete_draws_def)
  qed
  show ?case
  proof (cases "length out < wanted")
    case False
    then have "length out = wanted" using less.prems by simp
    then show ?thesis using done_iff less.prems by (simp add: loop_done) blast
  next
    case True
    show ?thesis
    proof (cases "draw i")
      case (Inl e)
      then have "\<not> complete_draws draw i n" if "n \<noteq> i" for n using that by (force simp: complete_draws_def)
      moreover have "loop wanted i out = Inl e" using True Inl by (subst step) simp
      ultimately show ?thesis using True by (metis accepted_in_empty append_Nil2 less_irrefl Inr_Inl_False)
    next
      case (Inr p)
      obtain c ok where p: "p = (c, ok)" by (cases p)
      let ?out = "if ok then out @ [c] else out"
      have unfold: "loop wanted i out = (case checked_add i 1 of None \<Rightarrow> Inl BSE_Arith | Some j \<Rightarrow> loop wanted j ?out)"
        using True Inr p by (subst step) simp
      have first: "selected = out @ accepted_in draw i n \<longleftrightarrow> selected = ?out @ accepted_in draw (Suc i) n" if "i < n" for n
        using accepted_in_step [OF that, of draw] Inr p by simp
      show ?thesis
      proof (cases "Suc i < 2 ^ 64")
        case False
        then have "\<not> complete_draws draw i n" if "n \<noteq> i" for n using that by (auto simp: complete_draws_def)
        moreover have "loop wanted i out = Inl BSE_Arith" using False by (simp add: unfold checked_add_def)
        ultimately show ?thesis using True by (metis accepted_in_empty append_Nil2 less_irrefl Inr_Inl_False)
      next
        case next_i: True
        have "loop wanted i out = loop wanted (Suc i) ?out" using next_i by (simp add: unfold checked_add_def)
        also have "\<dots> = Inr selected \<longleftrightarrow>
            (\<exists>n. complete_draws draw (Suc i) n \<and> selected = ?out @ accepted_in draw (Suc i) n \<and> length selected = wanted)"
          using less.prems True next_i by (intro less.hyps) auto
        also have "\<dots> \<longleftrightarrow> (\<exists>n. complete_draws draw i n \<and> selected = out @ accepted_in draw i n \<and> length selected = wanted)"
          (is "(\<exists>n. ?after n) = (\<exists>n. ?before n)")
        proof
          assume "\<exists>n. ?after n"
          then obtain n where n: "?after n" ..
          then have "i < n" by (simp add: complete_draws_def)
          have "n = Suc i \<Longrightarrow> ok" using n True by (cases ok) auto
          moreover have "\<exists>p. draw j = Inr p" if "j \<in> {i..<n}" for j
            using n Inr that by (cases "j = i") (auto simp: complete_draws_def)
          ultimately have "complete_draws draw i n" using n Inr p \<open>i < n\<close> by (auto simp: complete_draws_def)
          then show "\<exists>n. ?before n" using n first [OF \<open>i < n\<close>] by blast
        next
          assume "\<exists>n. ?before n"
          then obtain n where n: "?before n" ..
          then have "n \<noteq> i" using True by auto
          then have "i < n" using n by (simp add: complete_draws_def)
          then have "complete_draws draw (Suc i) n" using n by (auto simp: complete_draws_def)
          then show "\<exists>n. ?after n" using n first [OF \<open>i < n\<close>] by blast
        qed
        finally show ?thesis .
      qed
    qed
  qed
qed

lemma loop_single:
  "i \<le> n \<Longrightarrow> n < 2 ^ 64 \<Longrightarrow> \<forall>j\<in>{i..<n}. \<exists>c'. draw j = Inr (c', False) \<Longrightarrow> draw n = Inr (c, True) \<Longrightarrow>
    loop 1 i [] = (if Suc n < 2 ^ 64 then Inr [c] else Inl BSE_Arith)"
proof (induction "n - i" arbitrary: i)
  case 0
  then have "i = n" by simp
  then show ?case using 0 by (subst step) (simp add: checked_add_def loop_done)
next
  case (Suc m)
  then have "i < n" by simp
  then have "i \<in> {i..<n}" by simp
  from bspec [OF Suc.prems(3) this] obtain c' where c': "draw i = Inr (c', False)" by blast
  have "loop 1 (Suc i) [] = (if Suc n < 2 ^ 64 then Inr [c] else Inl BSE_Arith)"
    using Suc.prems Suc.hyps(2) \<open>i < n\<close> by (intro Suc.hyps(1)) auto
  then show ?case using c' \<open>i < n\<close> Suc.prems(2) by (subst step) (simp add: checked_add_def)
qed

end

interpretation sync: selection_loop "draw_candidate L X s st indices seed" "sync_loop L X s st indices seed"
  for L :: "('o, 'k) selection_externals" and X s st indices seed
  by unfold_locales (rule sync_loop.simps)

interpretation weighted: selection_loop "weighted_candidate L X s st indices seed shuffle_indices"
    "weighted_loop L X s st indices seed shuffle_indices"
  for L :: "('o, 'k) selection_externals" and X s st indices seed shuffle_indices
  by unfold_locales (rule weighted_loop.simps)

declare sync_loop.simps [simp del] weighted_loop.simps [simp del] proposer_loop.simps [simp del]

lemma accepted_in_cong: "(\<And>j. i \<le> j \<Longrightarrow> j < n \<Longrightarrow> draw j = draw' j) \<Longrightarrow> accepted_in draw i n = accepted_in draw' i n"
  unfolding accepted_in_def by (intro arg_cong [where f = concat] map_cong) auto

lemma complete_draws_agree:
  fixes draw draw' :: "nat \<Rightarrow> 'e + 'a \<times> bool"
  assumes "\<And>j p. draw j = Inr p \<longleftrightarrow> draw' j = Inr p"
  shows "complete_draws draw i n \<and> selected = out @ accepted_in draw i n \<longleftrightarrow>
    complete_draws draw' i n \<and> selected = out @ accepted_in draw' i n"
proof -
  have "accepted_in draw i n = accepted_in draw' i n" if "complete_draws draw i n"
  proof (rule accepted_in_cong)
    fix j assume "i \<le> j" "j < n"
    then have "\<exists>p. draw j = Inr p" using that by (simp add: complete_draws_def)
    then show "draw j = draw' j" using assms by metis
  qed
  moreover have "complete_draws draw i n \<longleftrightarrow> complete_draws draw' i n"
    by (simp add: complete_draws_def assms)
  ultimately show ?thesis by auto
qed

lemma proposer_loop_iff:
  "i < 2 ^ 64 \<Longrightarrow> proposer_loop L X s st indices seed i = Inr c \<longleftrightarrow>
    (\<exists>n. i \<le> n \<and> n < 2 ^ 64 \<and> (\<forall>j\<in>{i..<n}. \<exists>c'. draw_candidate L X s st indices seed j = Inr (c', False)) \<and>
      draw_candidate L X s st indices seed n = Inr (c, True))" (is "_ \<Longrightarrow> _ \<longleftrightarrow> (\<exists>n. ?found i n)")
proof (induction "2 ^ 64 - i" arbitrary: i rule: less_induct)
  case less
  let ?draw = "draw_candidate L X s st indices seed"
  have later: "?found i n \<longleftrightarrow> (\<exists>c'. ?draw i = Inr (c', False)) \<and> ?found (Suc i) n" if "i \<noteq> n" for n
    using that by (auto simp: Suc_le_eq Ball_def) (metis le_neq_implies_less)
  show ?case
  proof (cases "?draw i")
    case (Inl e)
    then have "\<not> ?found i n" for n using later [of n] by (cases "i = n") auto
    then show ?thesis using Inl by (subst proposer_loop.simps) simp
  next
    case (Inr p)
    obtain c' ok where p: "p = (c', ok)" by (cases p)
    show ?thesis
    proof (cases ok)
      case True
      then have "?found i n \<longleftrightarrow> n = i \<and> c = c'" for n using later [of n] Inr p less.prems by (cases "i = n") auto
      then show ?thesis using Inr p True by (subst proposer_loop.simps) auto
    next
      case rejected: False
      then have found: "?found i n \<longleftrightarrow> ?found (Suc i) n" for n
        using later [of n] Inr p by (cases "i = n") auto
      show ?thesis
      proof (cases "Suc i < 2 ^ 64")
        case True
        then have "proposer_loop L X s st indices seed (Suc i) = Inr c \<longleftrightarrow> (\<exists>n. ?found (Suc i) n)"
          using less.prems by (intro less.hyps) auto
        then show ?thesis using Inr p rejected True found
          by (subst proposer_loop.simps) (simp add: checked_add_def)
      next
        case False
        then have "\<not> ?found (Suc i) n" for n by auto
        then show ?thesis using Inr p rejected False found
          by (subst proposer_loop.simps) (simp add: checked_add_def)
      qed
    qed
  qed
qed

section \<open>Old and new selection\<close>

lemma candidates_agree:
  assumes "electra_enabled (fork_name_unchecked st)"
  shows "weighted_candidate L X s st indices seed True i = Inr p \<longleftrightarrow> draw_candidate L X s st indices seed i = Inr p"
  using assms
  by (cases p) (auto simp: weighted_candidate_def draw_candidate_def compute_balance_weighted_acceptance_def
      max_random_value_for_def Let_def dec_simps)

lemma sync_selection_agrees:
  assumes "electra_enabled (fork_name_unchecked st)" and "indices \<noteq> []"
  shows "result_ok (compute_balance_weighted_selection L X s st indices seed wanted True) =
    result_ok (sync_loop L X s st indices seed wanted 0 [])"
proof -
  let ?w = "weighted_candidate L X s st indices seed True" and ?d = "draw_candidate L X s st indices seed"
  have agree: "?w j = Inr p \<longleftrightarrow> ?d j = Inr p" for j p by (rule candidates_agree [OF assms(1)])
  have "weighted_loop L X s st indices seed True wanted 0 [] = Inr selected \<longleftrightarrow>
      sync_loop L X s st indices seed wanted 0 [] = Inr selected" for selected
    using complete_draws_agree [of ?w ?d 0 _ selected "[]", OF agree]
    by (simp add: weighted.loop_iff sync.loop_iff) blast
  then show ?thesis using assms(2)
    by (simp add: compute_balance_weighted_selection_def result_ok_def split: sum.splits) (metis Inl_Inr_False sum.exhaust)
qed

lemma proposer_selection:
  assumes "electra_enabled (fork_name_unchecked st)" and "indices \<noteq> []"
    and "compute_proposer_index L X s st indices seed = Inr c"
  shows "compute_balance_weighted_selection L X s st indices seed 1 True \<in> {Inr [c], Inl BSE_Arith}"
proof -
  from assms(2,3) obtain n where "n < 2 ^ 64" and "\<forall>j\<in>{0..<n}. \<exists>c'. draw_candidate L X s st indices seed j = Inr (c', False)"
    and "draw_candidate L X s st indices seed n = Inr (c, True)"
    by (auto simp: compute_proposer_index_def proposer_loop_iff)
  from weighted.loop_single [OF le0 this(1), of L X s st indices seed True c] this(2,3) show ?thesis
    using assms(2) by (simp add: compute_balance_weighted_selection_def candidates_agree [OF assms(1)] del: One_nat_def)
qed

lemma selection_proposer:
  assumes "electra_enabled (fork_name_unchecked st)" and "indices \<noteq> []"
    and "compute_balance_weighted_selection L X s st indices seed 1 True = Inr [c]"
  shows "compute_proposer_index L X s st indices seed = Inr c"
proof -
  let ?draw = "draw_candidate L X s st indices seed"
  have "weighted_loop L X s st indices seed True 1 0 [] = Inr [c]"
    using assms(2,3) by (simp add: compute_balance_weighted_selection_def)
  then obtain n where n: "complete_draws (weighted_candidate L X s st indices seed True) 0 n"
    "[c] = accepted_in (weighted_candidate L X s st indices seed True) 0 n"
    by (auto simp: weighted.loop_iff)
  then have d: "complete_draws ?draw 0 n" "[c] = accepted_in ?draw 0 n"
    using complete_draws_agree [of "weighted_candidate L X s st indices seed True" ?draw 0 n "[c]" "[]", OF candidates_agree [OF assms(1)]]
    by simp_all
  then have "n \<noteq> 0" by (cases "n = 0") simp_all
  then obtain c' where last: "?draw (n - 1) = Inr (c', True)" using d(1) by (auto simp: complete_draws_def)
  have split: "accepted_in ?draw 0 n = accepted_in ?draw 0 (n - 1) @ [c']"
  proof -
    have "[0..<n] = [0..<n - 1] @ [n - 1]" using \<open>n \<noteq> 0\<close> by (metis Suc_pred' bot_nat_0.not_eq_extremum le0 upt_Suc_append)
    then show ?thesis by (simp add: accepted_in_def last [unfolded One_nat_def])
  qed
  then have "accepted_in ?draw 0 (n - 1) = []" "c' = c" using d(2) by simp_all
  then have "\<exists>c'. ?draw j = Inr (c', False)" if "j < n - 1" for j
  proof -
    obtain c'' ok where p: "?draw j = Inr (c'', ok)" using d(1) \<open>j < n - 1\<close> unfolding complete_draws_def
      by (metis atLeastLessThan_iff diff_le_self le0 less_le_trans surj_pair)
    have "\<not> ok" using accepted_member [of ?draw j c'' 0 "n - 1"] p that \<open>accepted_in ?draw 0 (n - 1) = []\<close> by (cases ok) auto
    then show ?thesis using p by auto
  qed
  then have "proposer_loop L X s st indices seed 0 = Inr c"
    using last \<open>c' = c\<close> d(1)
    by (subst proposer_loop_iff) (simp, rule exI [of _ "n - 1"], auto simp: complete_draws_def)
  then show ?thesis using assms(2) by (simp add: compute_proposer_index_def)
qed

section \<open>Acceptance\<close>

definition shuffle_lawful :: "('o, 'k) selection_externals \<Rightarrow> bool" where
  "shuffle_lawful L \<longleftrightarrow> (\<forall>i n seed rounds. i < n \<longrightarrow> n \<le> 2 ^ 24 \<longrightarrow> (\<exists>j<n. lx_shuffled_index L i n seed rounds = Some j))"

lemma random_value_bound:
  assumes "\<And>m. length (sha256 X m) = 32"
  shows "\<exists>v. shuffling_random_value X st i seed = Inr v \<and> unat v \<le> 65535"
proof (cases "electra_enabled (fork_name_unchecked st)")
  case True
  have "i mod 16 < 16" by simp
  then have offset: "i mod 16 * 2 + 2 \<le> 32" by linarith
  let ?w = "take 2 (drop (i mod 16 * 2) (sha256 X (seed @ le_bytes 8 (i div 16))))"
  have "le_nat ?w < 256 ^ length ?w" by (rule le_nat_bound)
  also have "256 ^ length ?w \<le> (256 :: nat) ^ 2" by (intro power_increasing) simp_all
  finally have small: "le_nat ?w \<le> 65535" by simp
  then have "unat (of_nat (le_nat ?w) :: u64) = le_nat ?w" by (simp add: unat_of_nat)
  then show ?thesis using True offset small assms
    by (simp add: shuffling_random_value_def shuffling_random_u16_electra_def usize_div_def usize_rem_def
        checked_mul_def checked_add_def ok_or_def Let_def)
next
  case False
  have "unat (ucast b :: u64) \<le> 65535" for b :: byte
    using unat_byte_less [of b] by (simp add: unsigned_ucast_eq take_bit_eq_mod)
  then show ?thesis using False assms
    by (simp add: shuffling_random_value_def shuffling_random_byte_def usize_div_def usize_rem_def ok_or_def list_get_def)
qed

lemma full_balance_accepted:
  assumes hash: "\<And>m. length (sha256 X m) = 32"
    and full: "get_effective_balance st i = Inr (max_effective_balance_for_fork s (fork_name_unchecked st))"
    and small: "unat (max_effective_balance_for_fork s (fork_name_unchecked st)) * 65535 < 2 ^ 64"
  shows "compute_balance_weighted_acceptance X s st i seed n = Inr True"
proof -
  let ?max = "max_effective_balance_for_fork s (fork_name_unchecked st)"
  obtain v where v: "shuffling_random_value X st n seed = Inr v" "unat v \<le> 65535"
    using random_value_bound [OF hash] by blast
  have "unat MAX_RANDOM_VALUE = 65535" by (simp add: MAX_RANDOM_VALUE_def)
  moreover have le: "unat ?max * unat v \<le> unat ?max * 65535" using v(2) by (rule mult_le_mono2)
  moreover from this have "unat ?max * unat v < 2 ^ 64" using small by (rule le_less_trans)
  ultimately have m: "safe_mul ?max MAX_RANDOM_VALUE = Some (?max * MAX_RANDOM_VALUE)" "safe_mul ?max v = Some (?max * v)"
    "unat (?max * MAX_RANDOM_VALUE) = unat ?max * 65535" "unat (?max * v) = unat ?max * unat v"
    using small by (simp_all add: safe_mul_def unat_word_ariths(2))
  then show ?thesis using le full v
    by (simp add: compute_balance_weighted_acceptance_def ok_or_def word_le_nat_alt Let_def)
qed

lemma weighted_candidate_full:
  assumes "\<And>m. length (sha256 X m) = 32" and "shuffle_lawful L" and "indices \<noteq> []" and "length indices \<le> 2 ^ 24"
    and "\<And>i. i \<in> set indices \<Longrightarrow> get_effective_balance st i = Inr (max_effective_balance_for_fork s (fork_name_unchecked st))"
    and "unat (max_effective_balance_for_fork s (fork_name_unchecked st)) * 65535 < 2 ^ 64"
  shows "\<exists>j<length indices. weighted_candidate L X s st indices seed shuffle n = Inr (indices ! j, True) \<and>
    (\<not> shuffle \<longrightarrow> j = n mod length indices)"
proof -
  have "n mod length indices < length indices" using assms(3) by simp
  with assms(2,4) have "\<exists>j<length indices. lx_shuffled_index L (n mod length indices) (length indices) seed
      (shuffle_round_count (sp_misc s)) = Some j"
    unfolding shuffle_lawful_def by blast
  with \<open>n mod length indices < length indices\<close> obtain j where j: "j < length indices"
    "(if shuffle then ok_or (lx_shuffled_index L (n mod length indices) (length indices) seed (shuffle_round_count (sp_misc s))) BSE_UnableToShuffle
      else Inr (n mod length indices)) = Inr j" "\<not> shuffle \<longrightarrow> j = n mod length indices"
    by (cases shuffle) (auto simp: ok_or_def)
  have "compute_balance_weighted_acceptance X s st (indices ! j) seed n = Inr True"
    using j(1) by (intro full_balance_accepted assms(1,5,6)) simp_all
  then show ?thesis using j assms(3)
    by (intro exI [of _ j]) (simp add: weighted_candidate_def usize_rem_def list_get_def ok_or_def Let_def)
qed

text \<open>
  C32. From Electra on, the weighted selection that Gloas uses returns the first accepted candidates and
  agrees with the loops of the earlier forks: with the sync committee loop for every size, and with the
  choice of a proposer when one index is selected, unless the iteration counter is exhausted.\<close>

theorem selections_agree:
  assumes "electra_enabled (fork_name_unchecked st)" and "indices \<noteq> []"
  shows "(compute_balance_weighted_selection L X s st indices seed wanted True = Inr selected \<longleftrightarrow>
      (\<exists>n. complete_draws (weighted_candidate L X s st indices seed True) 0 n \<and>
        selected = accepted_in (weighted_candidate L X s st indices seed True) 0 n \<and> length selected = wanted)) \<and>
    result_ok (compute_balance_weighted_selection L X s st indices seed wanted True) =
      result_ok (sync_loop L X s st indices seed wanted 0 []) \<and>
    (compute_balance_weighted_selection L X s st indices seed 1 True = Inr [c] \<longrightarrow>
      compute_proposer_index L X s st indices seed = Inr c) \<and>
    (compute_proposer_index L X s st indices seed = Inr c \<longrightarrow>
      compute_balance_weighted_selection L X s st indices seed 1 True \<in> {Inr [c], Inl BSE_Arith})"
proof (intro conjI impI)
  show "compute_balance_weighted_selection L X s st indices seed wanted True = Inr selected \<longleftrightarrow>
      (\<exists>n. complete_draws (weighted_candidate L X s st indices seed True) 0 n \<and>
        selected = accepted_in (weighted_candidate L X s st indices seed True) 0 n \<and> length selected = wanted)"
    using assms(2) by (simp add: compute_balance_weighted_selection_def weighted.loop_iff)
  show "result_ok (compute_balance_weighted_selection L X s st indices seed wanted True) =
      result_ok (sync_loop L X s st indices seed wanted 0 [])"
    by (rule sync_selection_agrees [OF assms])
  show "compute_proposer_index L X s st indices seed = Inr c"
    if "compute_balance_weighted_selection L X s st indices seed 1 True = Inr [c]"
    by (rule selection_proposer [OF assms that])
  show "compute_balance_weighted_selection L X s st indices seed 1 True \<in> {Inr [c], Inl BSE_Arith}"
    if "compute_proposer_index L X s st indices seed = Inr c"
    by (rule proposer_selection [OF assms that])
qed

text \<open>
  When every candidate has the largest effective balance, nobody is skipped: a selection of fewer than
  \<open>2 ^ 64\<close> indices ends after as many iterations with indices of the candidates, in the order of the list
  when it is not shuffled, and a proposer is found at once.\<close>

theorem full_balances_selected:
  assumes hash: "\<And>m. length (sha256 X m) = 32" and shuffle: "shuffle_lawful L"
    and indices: "indices \<noteq> []" "length indices \<le> 2 ^ 24"
    and full: "\<And>i. i \<in> set indices \<Longrightarrow> get_effective_balance st i = Inr (max_effective_balance_for_fork s (fork_name_unchecked st))"
    and small: "unat (max_effective_balance_for_fork s (fork_name_unchecked st)) * 65535 < 2 ^ 64"
    and "wanted < 2 ^ 64"
  shows "\<exists>selected. compute_balance_weighted_selection L X s st indices seed wanted shuffle_indices = Inr selected \<and>
    length selected = wanted \<and> set selected \<subseteq> set indices \<and>
    (\<not> shuffle_indices \<longrightarrow> selected = map (\<lambda>k. indices ! (k mod length indices)) [0..<wanted])"
proof -
  let ?draw = "weighted_candidate L X s st indices seed shuffle_indices"
  from weighted_candidate_full [OF hash shuffle indices full small]
  obtain j where j: "\<And>n. j n < length indices" "\<And>n. ?draw n = Inr (indices ! j n, True)"
    "\<And>n. \<not> shuffle_indices \<longrightarrow> j n = n mod length indices"
    by metis
  have "complete_draws ?draw 0 wanted" using j(2) assms(7) by (auto simp: complete_draws_def)
  moreover have sel: "accepted_in ?draw 0 wanted = map (\<lambda>n. indices ! j n) [0..<wanted]"
    by (simp add: accepted_in_def j(2) concat_map_singleton)
  ultimately have "compute_balance_weighted_selection L X s st indices seed wanted shuffle_indices =
      Inr (map (\<lambda>n. indices ! j n) [0..<wanted])"
    using indices(1) by (auto simp: compute_balance_weighted_selection_def weighted.loop_iff)
  then show ?thesis using j(1,3) by (auto intro!: exI [of _ "map (\<lambda>n. indices ! j n) [0..<wanted]"])
qed

section \<open>The proposers of an epoch and of its slots\<close>

lemma slot_iter_nth:
  assumes "epoch_of (ss_eth E) slot = e" and "es_slots_per_epoch (ss_eth E) \<noteq> 0"
  shows "unat slot mod unat (es_slots_per_epoch (ss_eth E)) < length (slot_iter E e)"
    and "slot_iter E e ! (unat slot mod unat (es_slots_per_epoch (ss_eth E))) = slot"
proof -
  let ?n = "unat (es_slots_per_epoch (ss_eth E))"
  have n: "0 < ?n" using assms(2) by (simp add: unat_gt_0)
  show "unat slot mod ?n < length (slot_iter E e)" using n by (simp add: slot_iter_def)
  have e: "unat e = unat slot div ?n" using assms(1) by (simp add: epoch_of_def unat_div flip: assms(1))
  have split: "unat slot = unat slot div ?n * ?n + unat slot mod ?n" by simp
  have bound: "unat slot < 2 ^ 64" using unsigned_less [of slot] by simp
  have "unat e * ?n \<le> unat slot" unfolding e by simp
  then have "unat e * ?n < 2 ^ 64" using bound by (rule le_less_trans)
  then have start: "unat (start_slot (ss_eth E) e) = unat e * ?n"
    by (simp add: start_slot_def sat_mul_def unat_word_ariths(2))
  have "unat slot mod ?n < 2 ^ 64" using bound by (rule le_less_trans [OF mod_less_eq_dividend])
  then have "unat (of_nat (unat slot mod ?n) :: u64) = unat slot mod ?n" by (simp add: unat_of_nat)
  then have "sat_add (start_slot (ss_eth E) e) (of_nat (unat slot mod ?n)) = slot"
    using start e split bound by (intro word_unat_eq_iff [THEN iffD2]) (simp add: sat_add_def unat_word_ariths(1))
  then show "slot_iter E e ! (unat slot mod ?n) = slot" using n by (simp add: slot_iter_def)
qed

lemma current_le_next: "next_epoch E st = Inr e \<Longrightarrow> current_epoch E st \<le> e"
  by (auto simp: next_epoch_def dec_simps safe_add_def word_le_nat_alt unat_word_ariths(1) split: if_splits)

lemma cached_current:
  assumes "fulu_enabled (st_variant st)"
  shows "cached_proposer_indices E st (current_epoch E st) = (case next_epoch E st of Inl err \<Rightarrow> Some (Inl err)
    | Inr _ \<Rightarrow> Some (Inr (map unat (take (unat (es_slots_per_epoch (ss_eth E))) (bs_proposer_lookahead (st_gloas st))))))"
  using assms current_le_next [of E st]
  by (auto simp: cached_proposer_indices_def partial_getter_def Let_def split: sum.splits)

lemma rmap_nth: "rmap f xs = Inr ys \<Longrightarrow> i < length xs \<Longrightarrow> f (xs ! i) = Inr (ys ! i)"
  by (auto simp: rmap_Inr list_all2_conv_all_nth)

text \<open>
  The proposers computed for the current epoch are the proposers of its slots, whether they come from
  the cached lookahead of Fulu and Gloas or are computed from the seed: where the list for the epoch has an
  entry for a slot, asking for that slot returns this entry.\<close>

theorem proposer_schedule_agrees:
  assumes "get_beacon_proposer_indices L X E s st (current_epoch E st) = Inr proposers"
    and "epoch_of (ss_eth E) slot = current_epoch E st" and "es_slots_per_epoch (ss_eth E) \<noteq> 0"
    and "unat slot mod unat (es_slots_per_epoch (ss_eth E)) < length proposers"
  shows "get_beacon_proposer_index L X E s st slot = Inr (proposers ! (unat slot mod unat (es_slots_per_epoch (ss_eth E))))"
proof -
  let ?i = "unat slot mod unat (es_slots_per_epoch (ss_eth E))"
  have n: "unat (es_slots_per_epoch (ss_eth E)) \<noteq> 0" using assms(3) by (simp add: unat_eq_0)
  note slot = slot_iter_nth [OF assms(2,3)]
  show ?thesis
  proof (cases "fulu_enabled (st_variant st)")
    case True
    with assms(1,4) n show ?thesis
      by (auto simp: get_beacon_proposer_indices_def cached_current [OF True] get_beacon_proposer_index_def partial_getter_def
          assms(2) usize_rem_def list_get_def ok_or_def Let_def split: sum.splits)
  next
    case False
    then have "\<not> gloas_enabled (st_variant st)" by (auto simp: fulu_enabled_def gloas_enabled_def fork_order)
    with False assms(1) obtain indices preimage where
      "get_active_validator_indices L E s st (current_epoch E st) = Inr indices"
      and seed: "get_seed E X s st (current_epoch E st) BeaconProposer = Inr preimage"
      and "rmap (\<lambda>slot. compute_proposer_index L X s st indices (slot_seed X preimage slot)) (slot_iter E (current_epoch E st)) = Inr proposers"
      by (auto simp: get_beacon_proposer_indices_def cached_proposer_indices_def partial_getter_def fork_name_unchecked_def
          compute_proposer_indices_def dec_simps Let_def)
    with rmap_nth [OF this(3) slot(1)] slot(2) False show ?thesis
      by (simp add: get_beacon_proposer_index_def get_beacon_proposer_seed_def partial_getter_def assms(2) slot_seed_def Let_def)
  qed
qed

section \<open>Builders\<close>

lemma free_builder_Some: "free_builder current i bs = Some j \<Longrightarrow>
    i \<le> j \<and> j < i + length bs \<and> bu_withdrawable_epoch (bs ! (j - i)) \<le> current \<and> bu_balance (bs ! (j - i)) = 0"
  by (induction current i bs rule: free_builder.induct) (auto simp: nth_Cons' split: if_splits)

text \<open>
  A new builder takes a place that nobody uses: the index returned holds the new builder with its
  deposit, every builder that is not withdrawable yet or still has a balance keeps its place, and nothing
  else of the state changes.\<close>

theorem builders_in_use_kept:
  assumes "add_builder_to_registry E s pubkey credentials amount slot st = Inr (i, st')"
    and "length (bs_builders (st_gloas st)) < 2 ^ 64"
  shows "\<exists>builder. get_builder st' i = Inr builder \<and> bu_pubkey builder = pubkey \<and> bu_balance builder = amount \<and>
    bu_withdrawable_epoch builder = far_future_epoch (sp_constants s) \<and>
    (\<forall>j builder'. get_builder st j = Inr builder' \<and> (current_epoch E st < bu_withdrawable_epoch builder' \<or> bu_balance builder' \<noteq> 0) \<longrightarrow>
      j \<noteq> i \<and> get_builder st' j = Inr builder') \<and>
    st' = set_builders (bs_builders (st_gloas st')) st"
proof -
  let ?bs = "bs_builders (st_gloas st)"
  have getter: "st_variant (set_builders bs st) = st_variant st" "bs_builders (st_gloas (set_builders bs st)) = bs" for bs
    by (simp_all add: set_builders_def)
  let ?b = "\<lparr>bu_pubkey = pubkey, bu_version = credentials ! 0, bu_execution_address = drop 12 credentials, bu_balance = amount,
    bu_deposit_epoch = epoch_of (ss_eth E) slot, bu_withdrawable_epoch = far_future_epoch (sp_constants s)\<rparr>"
  from assms(1) have variant: "gloas_enabled (st_variant st)"
    and i: "i = of_nat (case free_builder (current_epoch E st) 0 ?bs of Some i \<Rightarrow> i | None \<Rightarrow> length ?bs)"
    and st': "st' = (if i = of_nat (length ?bs) then set_builders (?bs @ [?b]) st else set_builders (?bs[unat i := ?b]) st)"
    and inside: "i \<noteq> of_nat (length ?bs) \<Longrightarrow> unat i < length ?bs"
    by (auto simp: add_builder_to_registry_def get_index_for_new_builder_def partial_getter_def dec_simps list_get_def Let_def
        split: if_splits)
  have len: "unat (of_nat (length ?bs) :: u64) = length ?bs" using assms(2) by (simp add: unat_of_nat)
  have free: "bu_withdrawable_epoch (?bs ! unat i) \<le> current_epoch E st \<and> bu_balance (?bs ! unat i) = 0"
    if "i \<noteq> of_nat (length ?bs)"
  proof -
    from that i obtain k where k: "free_builder (current_epoch E st) 0 ?bs = Some k" "i = of_nat k" by (auto split: option.splits)
    then have "k < length ?bs" using free_builder_Some [OF k(1)] by simp
    then have "unat i = k" using assms(2) k(2) by (simp add: unat_of_nat)
    then show ?thesis using free_builder_Some [OF k(1)] by simp
  qed
  show ?thesis
    using variant inside len free
    by (intro exI [of _ ?b])
      (auto simp: st' getter get_builder_def partial_getter_def dec_simps list_get_def nth_append nth_list_update not_less split: if_splits)
qed

end
