(* ===== verification/Selection_Witnesses.thy ===== *)
theory Selection_Witnesses
  imports Selection_Facts Slot_Witnesses
begin

text \<open>
  The theorems about selection and builders, applied to states of the development network with two
  validators at the largest effective balance.
\<close>

definition full_validator :: validator where
  "full_validator = \<lparr>va_pubkey = replicate 48 0, va_withdrawal_credentials = zero_hash,
     va_effective_balance = 2048000000000, va_slashed = False, va_activation_eligibility_epoch = 0,
     va_activation_epoch = 0, va_exit_epoch = - 1, va_withdrawable_epoch = - 1\<rparr>"

definition full_state :: "unit beacon_state" where
  "full_state = sample_state\<lparr>st_registry := \<lparr>bs_validators = [full_validator, full_validator],
     bs_balances = [2048000000000, 2048000000000]\<rparr>\<rparr>"

definition scheduled_state :: "unit beacon_state" where
  "scheduled_state = full_state\<lparr>st_variant := Fulu,
     st_gloas := sample_gloas\<lparr>bs_proposer_lookahead := replicate 64 1\<rparr>\<rparr>"

definition selection_x :: "(unit, unit) selection_externals" where
  "selection_x = \<lparr>lx_shuffled_index = (\<lambda>i n seed rounds. Some i), lx_active_indices = (\<lambda>vs e. [0..<length vs]),
     lx_committees_at_slot = (\<lambda>c slot. Inr []), lx_update_pubkey_cache = Inr, lx_pubkey_index = (\<lambda>c k. None),
     lx_decompress = (\<lambda>k. Inr ()), lx_aggregate = (\<lambda>ks. Inr []), lx_check_slashings_cache = (\<lambda>c s. Inr ()),
     lx_is_slashed = (\<lambda>c i. False)\<rparr>"

definition selection_hash :: chain_externals where
  "selection_hash = \<lparr>basis_points = 10000, application_domain_builder = 0, sha256 = (\<lambda>m. replicate 32 7),
     fork_data_root = (\<lambda>v r. zero_hash)\<rparr>"

lemma full_state_simps [simp]:
  "st_variant full_state = Electra" "current_epoch sample_sizes full_state = 9"
  "bs_validators (st_registry full_state) = [full_validator, full_validator]"
  by (simp_all add: full_state_def sample_history current_epoch_def epoch_of_def sample_sizes_def)

lemma full_state_electra: "electra_enabled (fork_name_unchecked full_state)"
  by (simp add: fork_name_unchecked_def enabled_defs fork_order)

lemma devnet_max_balance: "max_effective_balance_for_fork devnet (fork_name_unchecked full_state) = 2048000000000"
  by (simp add: max_effective_balance_for_fork_def full_state_electra)
    (simp add: devnet_def make_genesis_spec_def set_genesis_epochs_def set_fork_epoch_def Let_def mainnet_def
      mainnet_electra_def)

lemma selections_agree_witness:
  "result_ok (compute_balance_weighted_selection selection_x selection_hash devnet full_state [0, 1] [] 3 True) =
    result_ok (sync_loop selection_x selection_hash devnet full_state [0, 1] [] 3 0 [])"
  using selections_agree [OF full_state_electra, where indices = "[0, 1]" and L = selection_x and X = selection_hash
      and s = devnet and seed = "[]" and wanted = 3] by simp

lemma full_balances_selected_witness:
  "compute_balance_weighted_selection selection_x selection_hash devnet full_state [0, 1] [] 3 False = Inr [0, 1, 0]"
proof -
  have hash: "\<And>m. length (sha256 selection_hash m) = 32" by (simp add: selection_hash_def)
  have shuffle: "shuffle_lawful selection_x" by (auto simp: shuffle_lawful_def selection_x_def)
  have full: "\<And>i. i \<in> set [0, 1] \<Longrightarrow>
      get_effective_balance full_state i = Inr (max_effective_balance_for_fork devnet (fork_name_unchecked full_state))"
    unfolding devnet_max_balance by (auto simp: get_effective_balance_def get_validator_def list_get_def ok_or_def full_validator_def)
  have small: "unat (max_effective_balance_for_fork devnet (fork_name_unchecked full_state)) * 65535 < 2 ^ 64"
    unfolding devnet_max_balance by simp
  have indices: "[0, 1 :: nat] \<noteq> []" "length [0, 1 :: nat] \<le> 2 ^ 24" "(3 :: nat) < 2 ^ 64" by simp_all
  have order: "map (\<lambda>k. [0, 1 :: nat] ! (k mod length [0, 1 :: nat])) [0..<3] = [0, 1, 0]" by (simp add: upt_rec)
  show ?thesis
    using full_balances_selected [OF hash shuffle indices(1,2) full small indices(3), of "[]" False]
    unfolding order by blast
qed

lemma proposer_schedule_agrees_witness:
  "get_beacon_proposer_index selection_x selection_hash sample_sizes devnet scheduled_state 300 = Inr 1"
proof -
  have epoch: "current_epoch sample_sizes scheduled_state = 9" "epoch_of mainnet_e 300 = 9"
    by (simp_all add: scheduled_state_def full_state_def sample_history current_epoch_def epoch_of_def sample_sizes_def)
  have "get_beacon_proposer_indices selection_x selection_hash sample_sizes devnet scheduled_state 9 = Inr (replicate 32 1)"
    by (simp add: get_beacon_proposer_indices_def cached_proposer_indices_def next_epoch_def epoch partial_getter_def
        safe_add_def ok_or_def Let_def enabled_defs fork_order)
      (simp add: scheduled_state_def enabled_defs fork_order)
  from proposer_schedule_agrees [of selection_x selection_hash sample_sizes devnet scheduled_state, unfolded epoch,
      OF this, of 300] show ?thesis
    by (simp add: epoch)
qed

definition free_builder_state :: "unit beacon_state" where
  "free_builder_state = sample_state\<lparr>st_variant := Gloas, st_gloas := sample_gloas\<lparr>bs_builders :=
     [\<lparr>bu_pubkey = [], bu_version = 3, bu_execution_address = [], bu_balance = 5, bu_deposit_epoch = 1, bu_withdrawable_epoch = 4\<rparr>,
      \<lparr>bu_pubkey = [], bu_version = 3, bu_execution_address = [], bu_balance = 0, bu_deposit_epoch = 1, bu_withdrawable_epoch = 4\<rparr>]\<rparr>\<rparr>"

lemma builders_in_use_kept_witness: "\<exists>st' builder.
    add_builder_to_registry sample_sizes devnet [1] (replicate 32 3) 9 300 free_builder_state = Inr (1, st') \<and>
    get_builder st' 1 = Inr builder \<and> bu_balance builder = 9"
proof -
  have epoch: "current_epoch sample_sizes free_builder_state = 9" and variant: "st_variant free_builder_state = Gloas"
    by (simp_all add: free_builder_state_def sample_history current_epoch_def epoch_of_def sample_sizes_def)
  have "\<exists>st'. add_builder_to_registry sample_sizes devnet [1] (replicate 32 3) 9 300 free_builder_state = Inr (1, st')"
    by (simp add: add_builder_to_registry_def get_index_for_new_builder_def partial_getter_def epoch variant enabled_defs
        fork_order list_get_def ok_or_def Let_def)
      (simp add: free_builder_state_def sample_sizes_def)
  then obtain st' where st': "add_builder_to_registry sample_sizes devnet [1] (replicate 32 3) 9 300 free_builder_state = Inr (1, st')"
    by blast
  show ?thesis using builders_in_use_kept [OF st'] st' by (auto simp: free_builder_state_def)
qed

end
