(* ===== verification/Cache_Witnesses.thy ===== *)
theory Cache_Witnesses
  imports Cache_Facts Selection_Witnesses
begin

text \<open>
  The theorems about the caches, applied to a state with two validators and to caches that count: the
  committees of an epoch are its number, the cache of public keys is its length.
\<close>

definition counting_caches :: "nat cache_externals" where
  "counting_caches = \<lparr>cx_committee_at = (\<lambda>c e. c = unat e + 1), cx_committee_new = (\<lambda>s st e. Inr (unat e + 1)),
     cx_committee_lookahead = (\<lambda>s st e. Inr 0), cx_committee_default = 0, cx_committees_per_slot = (\<lambda>c. 1),
     cx_epoch_committee_count = (\<lambda>c. Inr 32), cx_active_indices = (\<lambda>c. []), cx_shuffling = (\<lambda>c. []),
     cx_beacon_committee = (\<lambda>c slot i. None), cx_committees_at_slot = (\<lambda>c slot. Inr []),
     cx_all_committees = (\<lambda>c. Inr []),
     cx_into_epoch = (\<lambda>r e. case r of Rel_Previous \<Rightarrow> e - 1 | Rel_Current \<Rightarrow> e | Rel_Next \<Rightarrow> e + 1),
     cx_from_epoch = (\<lambda>e e'. Inr Rel_Current), cx_is_active_at = (\<lambda>v e. va_activation_epoch v \<le> e),
     cx_pubkey_len = (\<lambda>c. c), cx_pubkey_insert = (\<lambda>k i c. (i = c, if i = c then c + 1 else c)),
     cx_pubkey_default = 0, cx_exit_initialized = (\<lambda>c. c = 1), cx_exit_new = (\<lambda>s vs. Inr 1), cx_exit_default = 0,
     cx_slashings_initialized = (\<lambda>c slot. c = unat slot + 1), cx_slashings_new = (\<lambda>slot vs. unat slot + 1),
     cx_slashings_default = 0, cx_slashings_slot = (\<lambda>slot c. unat slot + 1), cx_progressive_default = 0,
     cx_epoch_default = 0\<rparr>"

lemma counting_lawful: "caches_lawful counting_caches"
  by (auto simp: caches_lawful_def counting_caches_def split: if_splits)

definition counted_state :: "nat list \<Rightarrow> nat bs_caches \<Rightarrow> nat beacon_state" where
  "counted_state attestations caches = \<lparr>st_variant = Altair, st_versioning = st_versioning sample_state,
     st_history = st_history sample_state, st_eth1 = st_eth1 sample_state, st_registry = st_registry full_state,
     st_mixes = st_mixes sample_state,
     st_attestations = \<lparr>bs_previous_epoch_attestations = attestations, bs_current_epoch_attestations = attestations\<rparr>,
     st_participation = st_participation sample_state, st_finality = st_finality sample_state, st_execution = sample_header,
     st_capella = \<lparr>bs_next_withdrawal_index = 0, bs_next_withdrawal_validator_index = 0, bs_historical_summaries = []\<rparr>,
     st_electra = \<lparr>bs_deposit_requests_start_index = - 1, bs_deposit_balance_to_consume = 0,
       bs_exit_balance_to_consume = 0, bs_earliest_exit_epoch = 3,
       bs_consolidation_balance_to_consume = 0, bs_earliest_consolidation_epoch = 3,
       bs_pending_deposits = [], bs_pending_partial_withdrawals = [], bs_pending_consolidations = []\<rparr>,
     st_gloas = \<lparr>bs_proposer_lookahead = [], bs_builders = [], bs_next_withdrawal_builder_index = 0,
       bs_execution_payload_availability = [], bs_builder_pending_payments = [],
       bs_builder_pending_withdrawals = [],
       bs_latest_execution_payload_bid = \<lparr>pb_parent_block_hash = zero_hash, pb_parent_block_root = zero_hash,
         pb_block_hash = zero_hash, pb_prev_randao = zero_hash, pb_fee_recipient = [], pb_builder_index = 0, pb_slot = 0,
         pb_value = 0, pb_blob_kzg_commitments = [], pb_execution_requests_root = zero_hash, pb_rest = 0\<rparr>,
       bs_latest_block_hash = zero_hash, bs_payload_expected_withdrawals = [], bs_ptc_window = []\<rparr>,
     st_caches = caches\<rparr>"

text \<open>Caches that are empty, and those of epoch 9, slot 318 and two validators.\<close>

definition empty_counts :: "nat bs_caches" where
  "empty_counts = \<lparr>bs_total_active_balance = None, bs_committee_caches = [0, 0, 0], bs_progressive_balances_cache = 0,
     bs_pubkey_cache = 0, bs_exit_cache = 0, bs_slashings_cache = 0, bs_epoch_cache = 0\<rparr>"

definition full_counts :: "nat bs_caches" where
  "full_counts = \<lparr>bs_total_active_balance = Some (9, 4096000000000), bs_committee_caches = [9, 10, 11],
     bs_progressive_balances_cache = 0, bs_pubkey_cache = 2, bs_exit_cache = 1, bs_slashings_cache = 319, bs_epoch_cache = 0\<rparr>"

lemma counted_simps [simp]:
  "current_epoch sample_sizes (counted_state xs c) = 9" "st_caches (counted_state xs c) = c"
  "bs_validators (st_registry (counted_state xs c)) = [full_validator, full_validator]"
  "bs_latest_block_header (st_history (counted_state xs c)) = bs_latest_block_header (st_history sample_state)"
  "(counted_state xs c)\<lparr>st_caches := c'\<rparr> = counted_state xs c'"
  by (simp_all add: counted_state_def current_epoch_def epoch_of_def full_state_def) (simp add: sample_state_def)

lemma counting_simps [simp]:
  "cx_committee_at counting_caches c e \<longleftrightarrow> c = unat e + 1" "cx_committee_new counting_caches s st e = Inr (unat e + 1)"
  "cx_into_epoch counting_caches Rel_Previous e = e - 1" "cx_into_epoch counting_caches Rel_Current e = e"
  "cx_into_epoch counting_caches Rel_Next e = e + 1" "cx_is_active_at counting_caches v e \<longleftrightarrow> va_activation_epoch v \<le> e"
  "cx_pubkey_len counting_caches n = n" "cx_pubkey_insert counting_caches k i c' = (i = c', if i = c' then c' + 1 else c')"
  "cx_exit_initialized counting_caches n \<longleftrightarrow> n = 1" "cx_exit_new counting_caches s vs = Inr 1"
  "cx_slashings_initialized counting_caches n slot \<longleftrightarrow> n = unat slot + 1"
  "cx_slashings_new counting_caches slot vs = unat slot + 1" "cx_committee_default counting_caches = 0"
  by (simp_all add: counting_caches_def)

lemma counted_total: "compute_total_active_balance_slow (cx_is_active_at counting_caches) sample_sizes devnet (counted_state xs c) =
    Inr 4096000000000"
  by (simp add: compute_total_active_balance_slow_def safe_add_def full_validator_def devnet_churn ok_or_def)

lemma put_third: "[a, b, c][2 := x] = [a, b, x]" "[a, b, c] ! 2 = c"
  by (simp_all add: numeral_2_eq_2)

lemmas counting_build = build_committee_cache_def step_simps committee_cache_at_index_def list_get_def ok_or_def
  force_build_committee_cache_def initialize_committee_cache_def put_committee_cache_def map_caches_def

lemma counted_build: "build_caches counting_caches sample_sizes devnet (counted_state xs empty_counts) =
    (Inr (), counted_state xs full_counts)"
proof -
  let ?b = "build_committee_cache counting_caches sample_sizes devnet" let ?st = "counted_state xs"
  have "?b Rel_Previous (?st empty_counts) = (Inr (), ?st (empty_counts\<lparr>bs_committee_caches := [9, 0, 0]\<rparr>))"
    by (simp add: counting_build empty_counts_def)
  moreover have "?b Rel_Current (?st (empty_counts\<lparr>bs_committee_caches := [9, 0, 0]\<rparr>)) =
      (Inr (), ?st (empty_counts\<lparr>bs_total_active_balance := Some (9, 4096000000000), bs_committee_caches := [9, 10, 0]\<rparr>))"
    by (simp add: counting_build empty_counts_def build_total_active_balance_cache_def get_total_active_balance_at_epoch_def
        force_build_total_active_balance_cache_def counted_total)
  moreover have "?b Rel_Next (?st (empty_counts\<lparr>bs_total_active_balance := Some (9, 4096000000000), bs_committee_caches := [9, 10, 0]\<rparr>)) =
      (Inr (), ?st (empty_counts\<lparr>bs_total_active_balance := Some (9, 4096000000000), bs_committee_caches := [9, 10, 11]\<rparr>))"
    by (simp add: counting_build empty_counts_def put_third)
  ultimately show ?thesis
    by (simp add: build_caches_def build_all_committee_caches_def step_simps update_pubkey_cache_def Let_def put_pubkey_cache_def
        map_caches_def build_exit_cache_def build_slashings_cache_def slashings_cache_is_initialized_def empty_counts_def
        full_counts_def sample_history flip: numeral_2_eq_2)
qed

lemma caches_built_once_witness:
  "build_caches counting_caches sample_sizes devnet (counted_state [5] full_counts) = (Inr (), counted_state [5] full_counts)"
  using caches_built_once [OF counting_lawful counted_build] by blast

lemma full_counts_ready: "caches_ready counting_caches sample_sizes (counted_state xs full_counts)"
  by (simp add: caches_ready_def committee_cache_is_initialized_def committee_cache_at_index_def list_get_def ok_or_def
      full_counts_def slashings_cache_is_initialized_def sample_history)

lemma caches_advance_witness: "\<exists>st'. advance_caches counting_caches (set_slot 320 (counted_state [5] full_counts)) = (Inr (), st') \<and>
    committee_cache counting_caches sample_sizes Rel_Current st' = Inr 11"
proof -
  let ?st = "counted_state [5] full_counts" let ?st2 = "set_slot 320 ?st"
  have st2: "st_caches ?st2 = st_caches ?st" "current_epoch sample_sizes ?st2 = 10"
    by (simp_all add: set_slot_def current_epoch_def epoch_of_def)
  then have three: "length (bs_committee_caches (st_caches ?st2)) = 3" by (simp add: full_counts_def)
  have "\<exists>st'. advance_caches counting_caches ?st2 = (Inr (), st')"
    by (simp add: advance_caches_def step_simps map_caches_def put_committee_cache_def three)
  then obtain st' where st': "advance_caches counting_caches ?st2 = (Inr (), st')" ..
  have "committee_cache counting_caches sample_sizes Rel_Next ?st = Inr 11"
    by (simp add: committee_cache_def committee_cache_at_index_def list_get_def ok_or_def full_counts_def)
  then show ?thesis using caches_advance [OF counting_lawful full_counts_ready _ st2(1) _ _ st'] st' st2(2)
    by (simp add: full_counts_def)
qed

end
