(* ===== verification/Block_Types.thy ===== *)
theory Block_Types
  imports Exec_Payload Beacon_Selection
begin

text \<open>
  Payloads inside blocks, and blocks (\<open>types/src/execution/payload.rs\<close>,
  \<open>execution_payload_header.rs\<close>, \<open>dumb_macros.rs\<close> and \<open>types/src/block\<close>): full and blinded
  payloads, the header made from a payload of each variant, bodies, blocks and signed blocks, blinding
  and unblinding, the empty blocks and the tagged codec of the database. A variant of a body is a fork
  name beside one record of all fields. The values of types outside the repository have the type
  \<open>'o\<close>; generated codecs and tree hashes are parameters.
\<close>

section \<open>Headers\<close>

text \<open>The fields a variant lacks are zero.\<close>

definition header_from_bellatrix :: "'w tree_hashes \<Rightarrow> 'w exec_payload \<Rightarrow> exec_header" where
  "header_from_bellatrix T p = \<lparr>
     eh_parent_hash = ep_parent_hash p,
     eh_fee_recipient = ep_fee_recipient p,
     eh_state_root = ep_state_root p,
     eh_receipts_root = ep_receipts_root p,
     eh_logs_bloom = ep_logs_bloom p,
     eh_prev_randao = ep_prev_randao p,
     eh_block_number = ep_block_number p,
     eh_gas_limit = ep_gas_limit p,
     eh_gas_used = ep_gas_used p,
     eh_timestamp = ep_timestamp p,
     eh_extra_data = ep_extra_data p,
     eh_base_fee_per_gas = ep_base_fee_per_gas p,
     eh_block_hash = ep_block_hash p,
     eh_transactions_root = th_transactions T (ep_transactions p),
     eh_withdrawals_root = replicate 32 0,
     eh_blob_gas_used = 0,
     eh_excess_blob_gas = 0,
     eh_recursive_stark_proof_root = replicate 32 0,
     eh_recursive_stark_block_deps_hash = replicate 32 0\<rparr>"

definition header_from_capella :: "'w tree_hashes \<Rightarrow> 'w exec_payload \<Rightarrow> exec_header" where
  "header_from_capella T p = \<lparr>
     eh_parent_hash = ep_parent_hash p,
     eh_fee_recipient = ep_fee_recipient p,
     eh_state_root = ep_state_root p,
     eh_receipts_root = ep_receipts_root p,
     eh_logs_bloom = ep_logs_bloom p,
     eh_prev_randao = ep_prev_randao p,
     eh_block_number = ep_block_number p,
     eh_gas_limit = ep_gas_limit p,
     eh_gas_used = ep_gas_used p,
     eh_timestamp = ep_timestamp p,
     eh_extra_data = ep_extra_data p,
     eh_base_fee_per_gas = ep_base_fee_per_gas p,
     eh_block_hash = ep_block_hash p,
     eh_transactions_root = th_transactions T (ep_transactions p),
     eh_withdrawals_root = th_withdrawals T (ep_withdrawals p),
     eh_blob_gas_used = 0,
     eh_excess_blob_gas = 0,
     eh_recursive_stark_proof_root = replicate 32 0,
     eh_recursive_stark_block_deps_hash = replicate 32 0\<rparr>"

definition header_from_deneb :: "'w tree_hashes \<Rightarrow> 'w exec_payload \<Rightarrow> exec_header" where
  "header_from_deneb T p = \<lparr>
     eh_parent_hash = ep_parent_hash p,
     eh_fee_recipient = ep_fee_recipient p,
     eh_state_root = ep_state_root p,
     eh_receipts_root = ep_receipts_root p,
     eh_logs_bloom = ep_logs_bloom p,
     eh_prev_randao = ep_prev_randao p,
     eh_block_number = ep_block_number p,
     eh_gas_limit = ep_gas_limit p,
     eh_gas_used = ep_gas_used p,
     eh_timestamp = ep_timestamp p,
     eh_extra_data = ep_extra_data p,
     eh_base_fee_per_gas = ep_base_fee_per_gas p,
     eh_block_hash = ep_block_hash p,
     eh_transactions_root = th_transactions T (ep_transactions p),
     eh_withdrawals_root = th_withdrawals T (ep_withdrawals p),
     eh_blob_gas_used = ep_blob_gas_used p,
     eh_excess_blob_gas = ep_excess_blob_gas p,
     eh_recursive_stark_proof_root = replicate 32 0,
     eh_recursive_stark_block_deps_hash = replicate 32 0\<rparr>"

definition header_from_fulu :: "'w tree_hashes \<Rightarrow> 'w exec_payload \<Rightarrow> exec_header" where
  "header_from_fulu T p = \<lparr>
     eh_parent_hash = ep_parent_hash p,
     eh_fee_recipient = ep_fee_recipient p,
     eh_state_root = ep_state_root p,
     eh_receipts_root = ep_receipts_root p,
     eh_logs_bloom = ep_logs_bloom p,
     eh_prev_randao = ep_prev_randao p,
     eh_block_number = ep_block_number p,
     eh_gas_limit = ep_gas_limit p,
     eh_gas_used = ep_gas_used p,
     eh_timestamp = ep_timestamp p,
     eh_extra_data = ep_extra_data p,
     eh_base_fee_per_gas = ep_base_fee_per_gas p,
     eh_block_hash = ep_block_hash p,
     eh_transactions_root = th_transactions T (ep_transactions p),
     eh_withdrawals_root = th_withdrawals T (ep_withdrawals p),
     eh_blob_gas_used = ep_blob_gas_used p,
     eh_excess_blob_gas = ep_excess_blob_gas p,
     eh_recursive_stark_proof_root = replicate 32 0,
     eh_recursive_stark_block_deps_hash = replicate 32 0\<rparr>"


text \<open>\<open>From<&ExecutionPayloadX> for ExecutionPayloadHeaderX\<close>, for the variants that have it.\<close>

definition header_from :: "fork_name \<Rightarrow> ('w tree_hashes \<Rightarrow> 'w exec_payload \<Rightarrow> exec_header) option" where
  "header_from f = (case f of
     Base \<Rightarrow> None | Altair \<Rightarrow> None
   | Bellatrix \<Rightarrow> Some header_from_bellatrix
   | Capella \<Rightarrow> Some header_from_capella
   | Deneb \<Rightarrow> Some header_from_deneb
   | Electra \<Rightarrow> Some header_from_electra
   | Fulu \<Rightarrow> Some header_from_fulu
   | Gloas \<Rightarrow> None
   | Daisugi \<Rightarrow> Some header_from_daisugi)"

text \<open>\<open>From<ExecutionPayloadRef> for ExecutionPayloadHeader\<close>; there is no header of Gloas.\<close>

definition execution_payload_header_from :: "'w tree_hashes \<Rightarrow> 'w exec_payload \<Rightarrow> (fork_name \<times> exec_header) outcome" where
  "execution_payload_header_from T p = (case header_from (ep_variant p) of
     Some h \<Rightarrow> Value (ep_variant p, h T p) | None \<Rightarrow> Crash)"

section \<open>Full and blinded payloads\<close>

datatype 'w payload = Full "'w exec_payload" | Blinded fork_name exec_header

fun payload_variant :: "'w payload \<Rightarrow> fork_name" where
  "payload_variant (Full p) = ep_variant p"
| "payload_variant (Blinded f h) = f"

fun payload_to_header :: "'w tree_hashes \<Rightarrow> 'w payload \<Rightarrow> (fork_name \<times> exec_header) outcome" where
  "payload_to_header T (Full p) = execution_payload_header_from T p"
| "payload_to_header T (Blinded f h) = Value (f, h)"

fun payload_parent_hash :: "'w payload \<Rightarrow> root" where
  "payload_parent_hash (Full p) = ep_parent_hash p"
| "payload_parent_hash (Blinded f h) = eh_parent_hash h"

fun payload_prev_randao :: "'w payload \<Rightarrow> root" where
  "payload_prev_randao (Full p) = ep_prev_randao p"
| "payload_prev_randao (Blinded f h) = eh_prev_randao h"

fun payload_block_number :: "'w payload \<Rightarrow> u64" where
  "payload_block_number (Full p) = ep_block_number p"
| "payload_block_number (Blinded f h) = eh_block_number h"

fun payload_timestamp :: "'w payload \<Rightarrow> u64" where
  "payload_timestamp (Full p) = ep_timestamp p"
| "payload_timestamp (Blinded f h) = eh_timestamp h"

fun payload_extra_data :: "'w payload \<Rightarrow> byte list" where
  "payload_extra_data (Full p) = ep_extra_data p"
| "payload_extra_data (Blinded f h) = eh_extra_data h"

fun payload_block_hash :: "'w payload \<Rightarrow> root" where
  "payload_block_hash (Full p) = ep_block_hash p"
| "payload_block_hash (Blinded f h) = eh_block_hash h"

fun payload_fee_recipient :: "'w payload \<Rightarrow> byte list" where
  "payload_fee_recipient (Full p) = ep_fee_recipient p"
| "payload_fee_recipient (Blinded f h) = eh_fee_recipient h"

fun payload_gas_limit :: "'w payload \<Rightarrow> u64" where
  "payload_gas_limit (Full p) = ep_gas_limit p"
| "payload_gas_limit (Blinded f h) = eh_gas_limit h"

fun payload_transactions :: "'w payload \<Rightarrow> byte list list option" where
  "payload_transactions (Full p) = Some (ep_transactions p)"
| "payload_transactions (Blinded f h) = None"

fun payload_withdrawals_root :: "'w tree_hashes \<Rightarrow> 'w payload \<Rightarrow> state_error + root" where
  "payload_withdrawals_root T (Full p) =
     partial_getter (ep_variant p \<noteq> Bellatrix) (th_withdrawals T (ep_withdrawals p))"
| "payload_withdrawals_root T (Blinded f h) = partial_getter (f \<noteq> Bellatrix) (eh_withdrawals_root h)"

fun payload_blob_gas :: "'w payload \<Rightarrow> state_error + u64" where
  "payload_blob_gas (Full p) = partial_getter (ep_variant p \<notin> {Bellatrix, Capella}) (ep_blob_gas_used p)"
| "payload_blob_gas (Blinded f h) = partial_getter (f \<notin> {Bellatrix, Capella}) (eh_blob_gas_used h)"

text \<open>The derived defaults; the default of a recursive proof is not empty.\<close>

definition default_payload :: "state_spec \<Rightarrow> fork_name \<Rightarrow> 'w exec_payload outcome" where
  "default_payload E f =
     obind (if f = Daisugi then recursive_proof_default else Value []) (\<lambda>proof_bytes. Value \<lparr>
     ep_variant = f,
     ep_parent_hash = replicate 32 0,
     ep_fee_recipient = replicate 20 0,
     ep_state_root = replicate 32 0,
     ep_receipts_root = replicate 32 0,
     ep_logs_bloom = replicate (ss_bytes_per_logs_bloom E) 0,
     ep_prev_randao = replicate 32 0,
     ep_block_number = 0,
     ep_gas_limit = 0,
     ep_gas_used = 0,
     ep_timestamp = 0,
     ep_extra_data = [],
     ep_base_fee_per_gas = 0,
     ep_block_hash = replicate 32 0,
     ep_transactions = [],
     ep_withdrawals = [],
     ep_blob_gas_used = 0,
     ep_excess_blob_gas = 0,
     ep_recursive_stark_proof = proof_bytes,
     ep_recursive_stark_block_deps_hash = replicate 32 0,
     ep_block_access_list = [],
     ep_slot_number = 0\<rparr>)"

definition default_header :: "state_spec \<Rightarrow> exec_header" where
  "default_header E = \<lparr>
     eh_parent_hash = replicate 32 0,
     eh_fee_recipient = replicate 20 0,
     eh_state_root = replicate 32 0,
     eh_receipts_root = replicate 32 0,
     eh_logs_bloom = replicate (ss_bytes_per_logs_bloom E) 0,
     eh_prev_randao = replicate 32 0,
     eh_block_number = 0,
     eh_gas_limit = 0,
     eh_gas_used = 0,
     eh_timestamp = 0,
     eh_extra_data = [],
     eh_base_fee_per_gas = 0,
     eh_block_hash = replicate 32 0,
     eh_transactions_root = replicate 32 0,
     eh_withdrawals_root = replicate 32 0,
     eh_blob_gas_used = 0,
     eh_excess_blob_gas = 0,
     eh_recursive_stark_proof_root = replicate 32 0,
     eh_recursive_stark_block_deps_hash = replicate 32 0\<rparr>"

fun is_default_with_zero_roots :: "state_spec \<Rightarrow> 'w payload \<Rightarrow> bool" where
  "is_default_with_zero_roots E (Full p) \<longleftrightarrow> default_payload E (ep_variant p) = Value p"
| "is_default_with_zero_roots E (Blinded f h) \<longleftrightarrow> h = default_header E"

fun is_default_with_empty_roots :: "state_spec \<Rightarrow> 'w tree_hashes \<Rightarrow> 'w payload \<Rightarrow> bool" where
  "is_default_with_empty_roots E T (Full p) \<longleftrightarrow> is_default_with_zero_roots E (Full p)"
| "is_default_with_empty_roots E T (Blinded f h) \<longleftrightarrow>
     obind (default_payload E f) (execution_payload_header_from T) = Value (f, h)"

text \<open>\<open>FullPayload::default_at_fork\<close>, and the conversions of \<open>dumb_macros.rs\<close>.\<close>

definition default_at_fork :: "state_spec \<Rightarrow> fork_name \<Rightarrow> (state_error + 'w payload) outcome" where
  "default_at_fork E f =
     (if f \<in> {Base, Altair, Gloas} then Value (Inl BSE_IncorrectStateVariant)
      else obind (default_payload E f) (\<lambda>p. Value (Inr (Full p))))"

definition full_payload_from :: "'w exec_payload \<Rightarrow> 'w payload outcome" where
  "full_payload_from p = (if ep_variant p = Gloas then Crash else Value (Full p))"

definition blinded_payload_from :: "'w tree_hashes \<Rightarrow> 'w exec_payload \<Rightarrow> 'w payload outcome" where
  "blinded_payload_from T p = obind (execution_payload_header_from T p) (\<lambda>(f, h). Value (Blinded f h))"

text \<open>\<open>ExecutionPayloadHeaderRefMut::replace\<close>: only by a header of the same variant.\<close>

definition replace_header :: "fork_name \<times> exec_header \<Rightarrow> fork_name \<times> exec_header \<Rightarrow> state_error + fork_name \<times> exec_header" where
  "replace_header old header = (if fst header = fst old then Inr header else Inl BSE_IncorrectStateVariant)"

text \<open>\<open>ssz_max_var_len_for_fork\<close>: the longest \<open>extra_data\<close>.\<close>

definition ssz_max_var_len_for_fork :: "nat \<Rightarrow> fork_name \<Rightarrow> nat" where
  "ssz_max_var_len_for_fork max_extra_data_bytes f =
     (if gloas_enabled f then 0 else if bellatrix_enabled f then max_extra_data_bytes else 0)"

section \<open>Bodies and blocks\<close>

record 'o execution_requests =
  er_deposits :: "'o list"
  er_withdrawals :: "'o list"
  er_consolidations :: "'o list"

definition no_requests :: "'o execution_requests" where
  "no_requests = \<lparr>er_deposits = [], er_withdrawals = [], er_consolidations = []\<rparr>"

record 'o signed_bid =
  sb_message :: "'o payload_bid"
  sb_signature :: "byte list"

record 'o block_body =
  bb_variant :: fork_name
  bb_randao_reveal :: "byte list"
  bb_eth1_data :: eth1_data
  bb_graffiti :: "byte list"
  bb_proposer_slashings :: "'o list"
  bb_attester_slashings :: "'o list"
  bb_attestations :: "'o list"
  bb_deposits :: "'o list"
  bb_voluntary_exits :: "'o list"
  bb_sync_aggregate :: 'o
  bb_execution_payload :: "'o payload"
  bb_bls_to_execution_changes :: "'o list"
  bb_blob_kzg_commitments :: "byte list list"
  bb_execution_requests :: "'o execution_requests"
  bb_signed_execution_payload_bid :: "'o signed_bid"
  bb_payload_attestations :: "'o list"
  bb_parent_execution_requests :: "'o execution_requests"

record 'o block =
  bk_slot :: slot
  bk_proposer_index :: u64
  bk_parent_root :: root
  bk_state_root :: root
  bk_body :: "'o block_body"

record 'o signed_block =
  sg_message :: "'o block"
  sg_signature :: "byte list"

abbreviation block_variant :: "'o block \<Rightarrow> fork_name" where
  "block_variant b \<equiv> bb_variant (bk_body b)"

text \<open>The variants with a payload, as in \<open>BeaconBlockBodyRef::execution_payload\<close>, and the other
  partial getters.\<close>

definition has_payload :: "fork_name \<Rightarrow> bool" where
  "has_payload f \<longleftrightarrow> (case f of Base \<Rightarrow> False | Altair \<Rightarrow> False | Gloas \<Rightarrow> False | _ \<Rightarrow> True)"

definition body_payload :: "'o block_body \<Rightarrow> state_error + 'o payload" where
  "body_payload b = partial_getter (has_payload (bb_variant b)) (bb_execution_payload b)"

definition body_sync_aggregate :: "'o block_body \<Rightarrow> state_error + 'o" where
  "body_sync_aggregate b = partial_getter (bb_variant b \<noteq> Base) (bb_sync_aggregate b)"

definition body_commitments :: "'o block_body \<Rightarrow> state_error + byte list list" where
  "body_commitments b =
     partial_getter (bb_variant b \<in> {Deneb, Electra, Fulu, Daisugi}) (bb_blob_kzg_commitments b)"

definition body_bid :: "'o block_body \<Rightarrow> state_error + 'o signed_bid" where
  "body_bid b = partial_getter (bb_variant b = Gloas) (bb_signed_execution_payload_bid b)"

definition body_parent_requests :: "'o block_body \<Rightarrow> state_error + 'o execution_requests" where
  "body_parent_requests b = partial_getter (bb_variant b = Gloas) (bb_parent_execution_requests b)"

definition has_blobs :: "'o block_body \<Rightarrow> bool" where
  "has_blobs b \<longleftrightarrow> (case body_commitments b of Inl _ \<Rightarrow> False | Inr blobs \<Rightarrow> blobs \<noteq> [])"

definition num_expected_blobs :: "'o signed_block \<Rightarrow> nat" where
  "num_expected_blobs sb =
     (let body = bk_body (sg_message sb) in
      case body_commitments body of
        Inr c \<Rightarrow> length c
      | Inl _ \<Rightarrow> (case body_bid body of Inr bid \<Rightarrow> length (pb_blob_kzg_commitments (sb_message bid)) | Inl _ \<Rightarrow> 0))"

definition blob_kzg_commitments_len :: "'o block \<Rightarrow> nat option" where
  "blob_kzg_commitments_len b = (let body = bk_body b in case bb_variant body of
     Base \<Rightarrow> None | Altair \<Rightarrow> None | Bellatrix \<Rightarrow> None | Capella \<Rightarrow> None
   | Deneb \<Rightarrow> Some (length (bb_blob_kzg_commitments body))
   | Electra \<Rightarrow> Some (length (bb_blob_kzg_commitments body))
   | Daisugi \<Rightarrow> Some (length (bb_blob_kzg_commitments body))
   | Fulu \<Rightarrow> Some (length (bb_blob_kzg_commitments body))
   | Gloas \<Rightarrow> Some (length (pb_blob_kzg_commitments (sb_message (bb_signed_execution_payload_bid body)))))"

definition is_parent_block_full :: "'o signed_block \<Rightarrow> root \<Rightarrow> bool" where
  "is_parent_block_full sb parent_block_hash =
     (case body_bid (bk_body (sg_message sb)) of
        Inl _ \<Rightarrow> False | Inr bid \<Rightarrow> pb_parent_block_hash (sb_message bid) = parent_block_hash)"

definition block_fork_name :: "state_spec \<Rightarrow> chain_spec \<Rightarrow> 'o block \<Rightarrow> fork_name \<times> fork_name + fork_name" where
  "block_fork_name E s b =
     (let fork_at_slot = fork_name_at_slot (ss_eth E) s (bk_slot b); object_fork = block_variant b in
      if fork_at_slot = object_fork then Inr object_fork else Inl (fork_at_slot, object_fork))"

section \<open>Roots\<close>

text \<open>The tree hashes of the fields. A derived tree hash combines the roots of the fields.\<close>

record 'o leaf_roots =
  lr_signature :: "byte list \<Rightarrow> root"
  lr_eth1_data :: "eth1_data \<Rightarrow> root"
  lr_graffiti :: "byte list \<Rightarrow> root"
  lr_list :: "'o list \<Rightarrow> root"
  lr_sync_aggregate :: "'o \<Rightarrow> root"
  lr_payload :: "'o exec_payload \<Rightarrow> root"
  lr_header :: "fork_name \<Rightarrow> exec_header \<Rightarrow> root"
  lr_commitments :: "byte list list \<Rightarrow> root"
  lr_requests :: "'o execution_requests \<Rightarrow> root"
  lr_bid :: "'o signed_bid \<Rightarrow> root"
  lr_container :: "root list \<Rightarrow> root"
  lr_proof :: "root list \<Rightarrow> nat \<Rightarrow> nat \<Rightarrow> state_error + root list"

fun payload_root :: "'o leaf_roots \<Rightarrow> 'o payload \<Rightarrow> root" where
  "payload_root R (Full p) = lr_payload R p"
| "payload_root R (Blinded f h) = lr_header R f h"

text \<open>The fields of each variant in the order of the struct.\<close>

definition body_merkle_leaves :: "'o leaf_roots \<Rightarrow> 'o block_body \<Rightarrow> root list" where
  "body_merkle_leaves R b =
     (let f = bb_variant b in
      [lr_signature R (bb_randao_reveal b), lr_eth1_data R (bb_eth1_data b), lr_graffiti R (bb_graffiti b),
       lr_list R (bb_proposer_slashings b), lr_list R (bb_attester_slashings b), lr_list R (bb_attestations b),
       lr_list R (bb_deposits b), lr_list R (bb_voluntary_exits b)] @
      (if f \<noteq> Base then [lr_sync_aggregate R (bb_sync_aggregate b)] else []) @
      (if has_payload f then [payload_root R (bb_execution_payload b)] else []) @
      (if f \<notin> {Base, Altair, Bellatrix} then [lr_list R (bb_bls_to_execution_changes b)] else []) @
      (if f \<in> {Deneb, Electra, Fulu, Daisugi} then [lr_commitments R (bb_blob_kzg_commitments b)] else []) @
      (if f \<in> {Electra, Fulu, Daisugi} then [lr_requests R (bb_execution_requests b)] else []) @
      (if f = Gloas then [lr_bid R (bb_signed_execution_payload_bid b), lr_list R (bb_payload_attestations b),
         lr_requests R (bb_parent_execution_requests b)] else []))"

definition body_root :: "'o leaf_roots \<Rightarrow> 'o block_body \<Rightarrow> root" where
  "body_root R b = lr_container R (body_merkle_leaves R b)"

definition BLOB_KZG_COMMITMENTS_INDEX :: nat where "BLOB_KZG_COMMITMENTS_INDEX = 11"

definition NUM_BEACON_BLOCK_BODY_HASH_TREE_ROOT_LEAVES :: nat where
  "NUM_BEACON_BLOCK_BODY_HASH_TREE_ROOT_LEAVES = 16"

text \<open>\<open>n.next_power_of_two().ilog2()\<close>.\<close>

fun log2_up :: "nat \<Rightarrow> nat" where
  "log2_up n = (if n \<le> 1 then 0 else Suc (log2_up ((n + 1) div 2)))"

definition kzg_commitments_merkle_proof :: "'o leaf_roots \<Rightarrow> 'o block_body \<Rightarrow> state_error + root list" where
  "kzg_commitments_merkle_proof R b =
     (let leaves = body_merkle_leaves R b in lr_proof R leaves BLOB_KZG_COMMITMENTS_INDEX (log2_up (length leaves)))"

definition block_header_of :: "'o leaf_roots \<Rightarrow> 'o block \<Rightarrow> block_header" where
  "block_header_of R b = \<lparr>bh_slot = bk_slot b, bh_proposer_index = bk_proposer_index b,
     bh_parent_root = bk_parent_root b, bh_state_root = bk_state_root b, bh_body_root = body_root R (bk_body b)\<rparr>"

definition temporary_block_header :: "'o leaf_roots \<Rightarrow> 'o block \<Rightarrow> block_header" where
  "temporary_block_header R b = (block_header_of R b)\<lparr>bh_state_root := replicate 32 0\<rparr>"

section \<open>Blinding and unblinding\<close>

text \<open>\<open>From<BeaconBlockBodyX<Full>>\<close> for a blinded body and the payload, for the nine variants: every
  field is kept, and the payload, where there is one, becomes its header.\<close>

definition body_into_blinded :: "'o tree_hashes \<Rightarrow> 'o block_body \<Rightarrow> 'o block_body \<times> 'o exec_payload option" where
  "body_into_blinded T b =
     (case (header_from (bb_variant b), bb_execution_payload b) of
        (Some h, Full p) \<Rightarrow> (b\<lparr>bb_execution_payload := Blinded (bb_variant b) (h T p)\<rparr>, Some p)
      | _ \<Rightarrow> (b, None))"

definition block_into_blinded :: "'o tree_hashes \<Rightarrow> 'o block \<Rightarrow> 'o block \<times> 'o exec_payload option" where
  "block_into_blinded T b =
     (let (body, payload) = body_into_blinded T (bk_body b) in
      (\<lparr>bk_slot = bk_slot b, bk_proposer_index = bk_proposer_index b, bk_parent_root = bk_parent_root b,
        bk_state_root = bk_state_root b, bk_body = body\<rparr>, payload))"

definition into_blinded :: "'o tree_hashes \<Rightarrow> 'o signed_block \<Rightarrow> 'o signed_block \<times> 'o exec_payload option" where
  "into_blinded T sb =
     (let (block, payload) = block_into_blinded T (sg_message sb) in
      (\<lparr>sg_message = block, sg_signature = sg_signature sb\<rparr>, payload))"

text \<open>\<open>clone_as_blinded\<close> of a borrowed body, block and signed block.\<close>

definition body_clone_as_blinded :: "'o tree_hashes \<Rightarrow> 'o block_body \<Rightarrow> 'o block_body" where
  "body_clone_as_blinded T b =
     (if bb_variant b \<in> {Base, Altair, Gloas} then fst (body_into_blinded T b)
      else b\<lparr>bb_execution_payload := (case (header_from (bb_variant b), bb_execution_payload b) of
        (Some h, Full p) \<Rightarrow> Blinded (bb_variant b) (h T p) | (_, p) \<Rightarrow> p)\<rparr>)"

definition block_clone_as_blinded :: "'o tree_hashes \<Rightarrow> 'o block \<Rightarrow> 'o block" where
  "block_clone_as_blinded T b =
     \<lparr>bk_slot = bk_slot b, bk_proposer_index = bk_proposer_index b, bk_parent_root = bk_parent_root b,
      bk_state_root = bk_state_root b, bk_body = body_clone_as_blinded T (bk_body b)\<rparr>"

definition clone_as_blinded :: "'o tree_hashes \<Rightarrow> 'o signed_block \<Rightarrow> 'o signed_block" where
  "clone_as_blinded T sb =
     \<lparr>sg_message = block_clone_as_blinded T (sg_message sb), sg_signature = sg_signature sb\<rparr>"

text \<open>\<open>into_full_block\<close> puts the payload in the place of the header.\<close>

definition into_full_block :: "'o signed_block \<Rightarrow> 'o exec_payload \<Rightarrow> 'o signed_block" where
  "into_full_block sb p =
     sb\<lparr>sg_message := (sg_message sb)\<lparr>bk_body := (bk_body (sg_message sb))\<lparr>bb_execution_payload := Full p\<rparr>\<rparr>\<rparr>"

definition try_into_full_block :: "'o signed_block \<Rightarrow> 'o exec_payload option \<Rightarrow> 'o signed_block option" where
  "try_into_full_block sb payload =
     (case block_variant (sg_message sb) of
        Base \<Rightarrow> Some sb
      | Altair \<Rightarrow> Some sb
      | Gloas \<Rightarrow> Some sb
      | f \<Rightarrow> (case payload of Some p \<Rightarrow> if ep_variant p = f then Some (into_full_block sb p) else None | None \<Rightarrow> None))"

section \<open>Empty blocks\<close>

text \<open>\<open>Signature::empty()\<close> and the other empty values of upstream types.\<close>

record 'o empty_values =
  ev_signature :: "byte list"
  ev_sync_aggregate :: 'o
  ev_signed_bid :: "'o signed_bid"

text \<open>A new block starts with \<open>Payload::X::default()\<close>, here that of a full payload.\<close>

definition empty_body :: "state_spec \<Rightarrow> 'o empty_values \<Rightarrow> fork_name \<Rightarrow> 'o block_body outcome" where
  "empty_body E V f = obind (default_payload E f) (\<lambda>payload. Value \<lparr>
     bb_variant = f,
     bb_randao_reveal = ev_signature V,
     bb_eth1_data = \<lparr>e1_deposit_root = replicate 32 0, e1_deposit_count = 0, e1_block_hash = replicate 32 0\<rparr>,
     bb_graffiti = replicate 32 0,
     bb_proposer_slashings = [],
     bb_attester_slashings = [],
     bb_attestations = [],
     bb_deposits = [],
     bb_voluntary_exits = [],
     bb_sync_aggregate = ev_sync_aggregate V,
     bb_execution_payload = Full payload,
     bb_bls_to_execution_changes = [],
     bb_blob_kzg_commitments = [],
     bb_execution_requests = no_requests,
     bb_signed_execution_payload_bid = ev_signed_bid V,
     bb_payload_attestations = [],
     bb_parent_execution_requests = no_requests\<rparr>)"

definition empty_slot :: "state_spec \<Rightarrow> chain_spec \<Rightarrow> fork_name \<Rightarrow> slot outcome" where
  "empty_slot E s f =
     (if f \<in> {Base, Gloas} then Value (genesis_slot (sp_constants s))
      else obind (expect (fork_epoch s f)) (\<lambda>e. Value (start_slot (ss_eth E) e)))"

definition empty_block_at :: "state_spec \<Rightarrow> 'o empty_values \<Rightarrow> chain_spec \<Rightarrow> fork_name \<Rightarrow> 'o block outcome" where
  "empty_block_at E V s f =
     obind (empty_slot E s f) (\<lambda>slot.
     obind (empty_body E V f) (\<lambda>body.
     Value \<lparr>bk_slot = slot, bk_proposer_index = 0, bk_parent_root = replicate 32 0,
       bk_state_root = replicate 32 0, bk_body = body\<rparr>))"

definition empty_block :: "state_spec \<Rightarrow> 'o empty_values \<Rightarrow> chain_spec \<Rightarrow> 'o block outcome" where
  "empty_block E V s = empty_block_at E V s (fork_name_at_epoch s 0)"

section \<open>Decoding\<close>

datatype decode_error = DE_InvalidByteLength nat nat | DE_OutOfBoundsByte nat | DE_BytesInvalid string

text \<open>The generated codecs, one for each variant.\<close>

record 'o block_codec =
  bc_block :: "fork_name \<Rightarrow> byte list \<Rightarrow> decode_error + 'o block"
  bc_signed :: "fork_name \<Rightarrow> byte list \<Rightarrow> decode_error + 'o signed_block"
  bc_append :: "'o signed_block \<Rightarrow> byte list"

definition block_from_ssz_bytes ::
  "'o block_codec \<Rightarrow> state_spec \<Rightarrow> chain_spec \<Rightarrow> byte list \<Rightarrow> decode_error + 'o block" where
  "block_from_ssz_bytes C E s bytes =
     (if length bytes < 8 then Inl (DE_InvalidByteLength (length bytes) 8)
      else bc_block C (fork_name_at_slot (ss_eth E) s (of_nat (le_nat (take 8 bytes)))) bytes)"

text \<open>\<open>or_else\<close>: the next variant when one fails.\<close>

fun first_decoded :: "(byte list \<Rightarrow> decode_error + 'b) list \<Rightarrow> byte list \<Rightarrow> decode_error + 'b" where
  "first_decoded [] bytes = Inl (DE_BytesInvalid [])"
| "first_decoded [d] bytes = d bytes"
| "first_decoded (d # ds) bytes = (case d bytes of Inr b \<Rightarrow> Inr b | Inl _ \<Rightarrow> first_decoded ds bytes)"

definition any_from_ssz_bytes :: "'o block_codec \<Rightarrow> byte list \<Rightarrow> decode_error + 'o block" where
  "any_from_ssz_bytes C = first_decoded (map (bc_block C)
     [Gloas, Fulu, Electra, Deneb, Capella, Bellatrix, Altair, Base])"

text \<open>The tag of a fork is its place in the enumeration.\<close>

definition fork_tag :: "fork_name \<Rightarrow> byte" where
  "fork_tag f = (case f of Base \<Rightarrow> 0 | Altair \<Rightarrow> 1 | Bellatrix \<Rightarrow> 2 | Capella \<Rightarrow> 3 | Deneb \<Rightarrow> 4 | Electra \<Rightarrow> 5
     | Fulu \<Rightarrow> 6 | Gloas \<Rightarrow> 7 | Daisugi \<Rightarrow> 8)"

definition fork_from_tag :: "byte \<Rightarrow> decode_error + fork_name" where
  "fork_from_tag b = (case find (\<lambda>f. fork_tag f = b) list_all_forks of
     Some f \<Rightarrow> Inr f | None \<Rightarrow> Inl (DE_BytesInvalid ''unknown fork''))"

definition tagged_as_ssz_bytes :: "'o block_codec \<Rightarrow> 'o signed_block \<Rightarrow> byte list" where
  "tagged_as_ssz_bytes C sb = fork_tag (block_variant (sg_message sb)) # bc_append C sb"

definition tagged_from_ssz_bytes :: "'o block_codec \<Rightarrow> byte list \<Rightarrow> decode_error + 'o signed_block" where
  "tagged_from_ssz_bytes C bytes = (case bytes of
     [] \<Rightarrow> Inl (DE_OutOfBoundsByte 0)
   | fork_byte # body \<Rightarrow> rbind (fork_from_tag fork_byte) (\<lambda>f. bc_signed C f body))"

end
