(* ===== verification/Block_Processing.thy ===== *)
theory Block_Processing
  imports Slot_Processing Block_Types Beacon_Caches
begin

text \<open>
  Block processing (\<open>consensus/state_processing/src/per_block_processing.rs\<close>). Every function is a
  step over the beacon state and the context of the block, and returns its result beside the state and
  context it leaves; a panic is the error \<open>BPE_Panic\<close>. The functions of other files (operations,
  withdrawals, sync aggregates, signature sets, the epoch cache and the context) are upstream code and
  fields of \<open>block_calls\<close>.
\<close>

datatype header_invalid =
    StateSlotMismatch
  | OlderThanLatestBlockHeader slot slot
  | ProposerIndexMismatch u64 u64
  | ParentBlockRootMismatch root root
  | ProposerSlashed u64
  | ProposalSignatureInvalid

datatype bid_invalid =
    SelfBuildNonZeroAmount
  | BadSignature
  | BuilderNotActive u64
  | InsufficientBalance u64 u64 u64
  | ExcessBlobCommitments nat nat
  | Bid_SlotMismatch slot slot
  | ParentBlockHashMismatch root root
  | Bid_ParentBlockRootMismatch root root
  | PrevRandaoMismatch root root

datatype block_error =
    BPE_InconsistentBlockFork "fork_name \<times> fork_name"
  | BPE_InconsistentStateFork "fork_name \<times> fork_name"
  | BPE_State state_error
  | BPE_Arith
  | BPE_HeaderInvalid header_invalid
  | BPE_BulkSignatureVerificationFailed
  | BPE_RandaoSignatureInvalid
  | BPE_ExecutionHashChainIncontiguous root root
  | BPE_ExecutionRandaoMismatch root root
  | BPE_ExecutionInvalidTimestamp u64 u64
  | BPE_ExecutionInvalidBlobsLen nat nat
  | BPE_IncorrectStateType
  | BPE_NonEmptyParentExecutionRequests
  | BPE_ExecutionRequestsRootMismatch root root
  | BPE_BuilderPaymentIndexOutOfBounds nat
  | BPE_BitfieldError
  | BPE_Bid bid_invalid
  | BPE_Panic
  | BPE_Other string

datatype signature_strategy = NoVerification | VerifyIndividual | VerifyRandao | VerifyBulk

type_synonym ('o, 'c, 'a) block_step = "('o beacon_state \<times> 'c, block_error, 'a) step"

record ('o, 'c) block_calls =
  kx_initialize_epoch_cache :: "chain_spec \<Rightarrow> ('o beacon_state, block_error, unit) step"
  kx_initialize_progressive_balances :: "chain_spec \<Rightarrow> ('o beacon_state, block_error, unit) step"
  kx_verify_entire_block :: "chain_spec \<Rightarrow> 'o signed_block \<Rightarrow> 'o beacon_state \<Rightarrow> 'c \<Rightarrow> bool \<times> 'c"
  kx_proposer_index :: "chain_spec \<Rightarrow> 'o beacon_state \<Rightarrow> 'c \<Rightarrow> (block_error + u64) \<times> 'c"
  kx_current_block_root :: "'o signed_block \<Rightarrow> 'c \<Rightarrow> (block_error + root) \<times> 'c"
  kx_header_root :: "block_header \<Rightarrow> root"
  kx_proposal_signature :: "chain_spec \<Rightarrow> 'o beacon_state \<Rightarrow> 'o signed_block \<Rightarrow> root \<Rightarrow> u64 \<Rightarrow> block_error + bool"
  kx_randao_signature :: "chain_spec \<Rightarrow> 'o beacon_state \<Rightarrow> 'o block \<Rightarrow> u64 \<Rightarrow> block_error + bool"
  kx_bid_signature :: "chain_spec \<Rightarrow> 'o beacon_state \<Rightarrow> 'o signed_bid \<Rightarrow> block_error + bool option"
  kx_is_infinity :: "byte list \<Rightarrow> bool"
  kx_withdrawals_gloas :: "chain_spec \<Rightarrow> ('o beacon_state, block_error, unit) step"
  kx_withdrawals :: "chain_spec \<Rightarrow> 'o payload \<Rightarrow> ('o beacon_state, block_error, unit) step"
  kx_operations :: "chain_spec \<Rightarrow> 'o block_body \<Rightarrow> bool \<Rightarrow> ('o, 'c, unit) block_step"
  kx_sync_aggregate :: "chain_spec \<Rightarrow> 'o \<Rightarrow> u64 \<Rightarrow> bool \<Rightarrow> ('o beacon_state, block_error, unit) step"
  kx_progressive_balances_enabled :: "'o beacon_state \<Rightarrow> bool"
  kx_update_metrics :: "'o \<Rightarrow> block_error + unit"
  kx_requests_root :: "'o execution_requests \<Rightarrow> root"
  kx_deposit_requests :: "chain_spec \<Rightarrow> 'o list \<Rightarrow> ('o beacon_state, block_error, unit) step"
  kx_withdrawal_requests :: "chain_spec \<Rightarrow> 'o list \<Rightarrow> ('o beacon_state, block_error, unit) step"
  kx_consolidation_requests :: "chain_spec \<Rightarrow> 'o list \<Rightarrow> ('o beacon_state, block_error, unit) step"
  kx_self_build_index :: u64

text \<open>All that a block step is given beside the block: the upstream functions, the presets and the chain.\<close>

record ('o, 'c) block_env =
  be_calls :: "('o, 'c) block_calls"
  be_caches :: "'o cache_externals"
  be_hashes :: "'o tree_hashes"
  be_roots :: "'o leaf_roots"
  be_chain :: chain_externals
  be_sizes :: state_spec
  be_spec :: chain_spec

section \<open>Steps of blocks\<close>

text \<open>A step of the state, a call that reads the state and changes the context, a value and a check.\<close>

definition on_state :: "('o beacon_state, 'e, 'a) step \<Rightarrow> ('o beacon_state \<times> 'c, 'e, 'a) step" where
  "on_state m p = (let (r, st) = m (fst p) in (r, (st, snd p)))"

definition on_ctxt :: "('o beacon_state \<Rightarrow> 'c \<Rightarrow> ('e + 'a) \<times> 'c) \<Rightarrow> ('o beacon_state \<times> 'c, 'e, 'a) step" where
  "on_ctxt f p = (let (r, c) = f (fst p) (snd p) in (r, (fst p, c)))"

definition read_state :: "('o beacon_state \<Rightarrow> 'e + 'a) \<Rightarrow> ('o beacon_state \<times> 'c, 'e, 'a) step" where
  "read_state f p = (f (fst p), p)"

definition check_state :: "('o beacon_state \<Rightarrow> bool) \<Rightarrow> ('o beacon_state \<Rightarrow> 'e) \<Rightarrow> ('o beacon_state \<times> 'c, 'e, unit) step" where
  "check_state ok e p = ((if ok (fst p) then Inr () else Inl (e (fst p))), p)"

definition update_state :: "('o beacon_state \<Rightarrow> 'e + 'o beacon_state) \<Rightarrow> ('o beacon_state \<times> 'c, 'e, unit) step" where
  "update_state f = on_state (step_try f)"

definition from_state :: "state_error + 'a \<Rightarrow> block_error + 'a" where
  "from_state r = (case r of Inl e \<Rightarrow> Inl (BPE_State e) | Inr x \<Rightarrow> Inr x)"

section \<open>The header of the block\<close>

definition latest_header :: "'o beacon_state \<Rightarrow> block_header" where
  "latest_header st = bs_latest_block_header (st_history st)"

definition set_latest_header :: "'o cache_externals \<Rightarrow> block_header \<Rightarrow> 'o beacon_state \<Rightarrow> 'o beacon_state" where
  "set_latest_header C header st =
     map_caches (\<lambda>c. c\<lparr>bs_slashings_cache := cx_slashings_slot C (bh_slot header) (bs_slashings_cache c)\<rparr>) st
       \<lparr>st_history := (st_history st)\<lparr>bs_latest_block_header := header\<rparr>\<rparr>"

definition process_block_header ::
  "('o, 'c) block_env \<Rightarrow> block_header \<Rightarrow> bool \<Rightarrow> ('o, 'c, u64) block_step" where
  "process_block_header V block_header verify_block_root =
     step_bind (check_state (\<lambda>st. bh_slot block_header = state_slot st) (\<lambda>_. BPE_HeaderInvalid StateSlotMismatch)) (\<lambda>_.
     step_bind (check_state (\<lambda>st. bh_slot block_header > bh_slot (latest_header st))
       (\<lambda>st. BPE_HeaderInvalid (OlderThanLatestBlockHeader (bh_slot block_header) (bh_slot (latest_header st))))) (\<lambda>_.
     let proposer_index = bh_proposer_index block_header in
     step_bind (on_ctxt (kx_proposer_index (be_calls V) (be_spec V))) (\<lambda>state_proposer_index.
     step_bind (check_state (\<lambda>_. proposer_index = state_proposer_index)
       (\<lambda>_. BPE_HeaderInvalid (ProposerIndexMismatch proposer_index state_proposer_index))) (\<lambda>_.
     step_bind (if verify_block_root then
         check_state (\<lambda>st. bh_parent_root block_header = kx_header_root (be_calls V) (latest_header st))
           (\<lambda>st. BPE_HeaderInvalid (ParentBlockRootMismatch (kx_header_root (be_calls V) (latest_header st))
              (bh_parent_root block_header)))
       else read_state (\<lambda>_. Inr ())) (\<lambda>_.
     step_bind (update_state (\<lambda>st. Inr (set_latest_header (be_caches V) block_header st))) (\<lambda>_.
     step_bind (read_state (\<lambda>st. from_state (get_validator st (unat proposer_index)))) (\<lambda>proposer.
     step_bind (check_state (\<lambda>_. \<not> va_slashed proposer) (\<lambda>_. BPE_HeaderInvalid (ProposerSlashed proposer_index))) (\<lambda>_.
     read_state (\<lambda>_. Inr proposer_index)))))))))"

definition verify_block_signature :: "('o, 'c) block_env \<Rightarrow> 'o signed_block \<Rightarrow> ('o, 'c, unit) block_step" where
  "verify_block_signature V sb =
     step_bind (on_ctxt (\<lambda>_. kx_current_block_root (be_calls V) sb)) (\<lambda>block_root.
     step_bind (on_ctxt (kx_proposer_index (be_calls V) (be_spec V))) (\<lambda>proposer_index.
     step_bind (read_state (\<lambda>st. kx_proposal_signature (be_calls V) (be_spec V) st sb block_root proposer_index)) (\<lambda>ok.
     check_state (\<lambda>_. ok) (\<lambda>_. BPE_HeaderInvalid ProposalSignatureInvalid))))"

section \<open>Randomness and votes\<close>

definition process_randao :: "('o, 'c) block_env \<Rightarrow> 'o block \<Rightarrow> bool \<Rightarrow> ('o, 'c, unit) block_step" where
  "process_randao V block verify_signatures =
     step_bind (if verify_signatures then
         step_bind (on_ctxt (kx_proposer_index (be_calls V) (be_spec V))) (\<lambda>proposer_index.
         step_bind (read_state (\<lambda>st. kx_randao_signature (be_calls V) (be_spec V) st block proposer_index)) (\<lambda>ok.
         check_state (\<lambda>_. ok) (\<lambda>_. BPE_RandaoSignatureInvalid)))
       else read_state (\<lambda>_. Inr ())) (\<lambda>_.
     update_state (\<lambda>st. from_state
       (update_randao_mix (be_sizes V) (be_chain V) (current_epoch (be_sizes V) st) (bb_randao_reveal (bk_body block)) st)))"

definition get_new_eth1_data :: "state_spec \<Rightarrow> eth1_data \<Rightarrow> 'o beacon_state \<Rightarrow> state_error + eth1_data option" where
  "get_new_eth1_data E eth1_data st =
     (let num_votes = length (filter (\<lambda>vote. vote = eth1_data) (bs_eth1_data_votes (st_eth1 st))) in
      rbind (arith (do { n \<leftarrow> checked_add num_votes 1; checked_mul n 2 })) (\<lambda>n.
      Inr (if n > ss_slots_per_eth1_voting_period E then Some eth1_data else None)))"

text \<open>The list of votes holds at most \<open>SlotsPerEth1VotingPeriod\<close> of them.\<close>

definition push_vote :: "state_spec \<Rightarrow> eth1_data \<Rightarrow> 'o beacon_state \<Rightarrow> state_error + 'o beacon_state" where
  "push_vote E eth1_data st =
     (let votes = bs_eth1_data_votes (st_eth1 st) in
      if length votes < ss_slots_per_eth1_voting_period E
      then Inr (st\<lparr>st_eth1 := (st_eth1 st)\<lparr>bs_eth1_data_votes := votes @ [eth1_data]\<rparr>\<rparr>)
      else Inl BSE_MilhouseError)"

definition process_eth1_data :: "state_spec \<Rightarrow> eth1_data \<Rightarrow> ('o beacon_state, state_error, unit) step" where
  "process_eth1_data E eth1_data =
     step_bind (step_get (get_new_eth1_data E eth1_data)) (\<lambda>new.
     step_bind (step_try (\<lambda>st. Inr (case new of
         Some data \<Rightarrow> st\<lparr>st_eth1 := (st_eth1 st)\<lparr>bs_eth1_data := data\<rparr>\<rparr> | None \<Rightarrow> st))) (\<lambda>_.
     step_try (push_vote E eth1_data)))"

section \<open>Execution payloads\<close>

definition latest_payload_header :: "'o beacon_state \<Rightarrow> state_error + fork_name \<times> exec_header" where
  "latest_payload_header st = partial_getter (has_payload (st_variant st)) (st_variant st, st_execution st)"

definition is_merge_transition_complete :: "state_spec \<Rightarrow> 'o beacon_state \<Rightarrow> bool" where
  "is_merge_transition_complete E st =
     (if capella_enabled (fork_name_unchecked st) then True
      else if bellatrix_enabled (fork_name_unchecked st) then
        (case latest_payload_header st of
           Inr (f, header) \<Rightarrow> \<not> is_default_with_zero_roots E (Blinded f header :: 'o payload) | Inl _ \<Rightarrow> False)
      else False)"

definition is_merge_transition_block :: "('o, 'c) block_env \<Rightarrow> 'o block_body \<Rightarrow> 'o beacon_state \<Rightarrow> bool" where
  "is_merge_transition_block V body st =
     (case body_payload body of
        Inr payload \<Rightarrow> \<not> is_merge_transition_complete (be_sizes V) st \<and>
          \<not> is_default_with_empty_roots (be_sizes V) (be_hashes V) payload
      | Inl _ \<Rightarrow> False)"

definition is_execution_enabled :: "('o, 'c) block_env \<Rightarrow> 'o block_body \<Rightarrow> 'o beacon_state \<Rightarrow> bool" where
  "is_execution_enabled V body st \<longleftrightarrow>
     is_merge_transition_block V body st \<or> is_merge_transition_complete (be_sizes V) st"

definition compute_timestamp_at_slot :: "chain_spec \<Rightarrow> slot \<Rightarrow> 'o beacon_state \<Rightarrow> u64 option" where
  "compute_timestamp_at_slot s block_slot st =
     do { slots_since_genesis \<leftarrow> safe_sub block_slot (genesis_slot (sp_constants s));
          since_genesis \<leftarrow> safe_mul slots_since_genesis (slot_duration_ms (sp_timing s) div 1000);
          safe_add (bs_genesis_time (st_versioning st)) since_genesis }"

definition partially_verify_execution_payload ::
  "('o, 'c) block_env \<Rightarrow> slot \<Rightarrow> 'o block_body \<Rightarrow> 'o beacon_state \<Rightarrow> block_error + unit" where
  "partially_verify_execution_payload V block_slot body st =
     rbind (from_state (body_payload body)) (\<lambda>payload.
     rbind (if is_merge_transition_complete (be_sizes V) st then
         rbind (from_state (latest_payload_header st)) (\<lambda>(f, header).
         if payload_parent_hash payload = eh_block_hash header then Inr ()
         else Inl (BPE_ExecutionHashChainIncontiguous (eh_block_hash header) (payload_parent_hash payload)))
       else Inr ()) (\<lambda>_.
     rbind (from_state (get_randao_mix (be_sizes V) st (current_epoch (be_sizes V) st))) (\<lambda>mix.
     if payload_prev_randao payload \<noteq> mix then Inl (BPE_ExecutionRandaoMismatch mix (payload_prev_randao payload))
     else rbind (ok_or (compute_timestamp_at_slot (be_spec V) block_slot st) BPE_Arith) (\<lambda>timestamp.
     if payload_timestamp payload \<noteq> timestamp then Inl (BPE_ExecutionInvalidTimestamp timestamp (payload_timestamp payload))
     else (case body_commitments body of
         Inl _ \<Rightarrow> Inr ()
       | Inr commitments \<Rightarrow>
           (let limit = unat (max_blobs_per_block_at (be_spec V) (epoch_of (ss_eth (be_sizes V)) block_slot)) in
            if length commitments \<le> limit then Inr ()
            else Inl (BPE_ExecutionInvalidBlobsLen limit (length commitments))))))))"

text \<open>The header of the state has the variant of the state.\<close>

definition put_payload_header :: "'o tree_hashes \<Rightarrow> 'o payload \<Rightarrow> 'o beacon_state \<Rightarrow> block_error + 'o beacon_state" where
  "put_payload_header T payload st =
     rbind (from_state (latest_payload_header st)) (\<lambda>(variant, _).
     (case payload_to_header T payload of
        Crash \<Rightarrow> Inl BPE_Panic
      | Value (f, header) \<Rightarrow> if f = variant then Inr (st\<lparr>st_execution := header\<rparr>) else Inl BPE_IncorrectStateType))"

definition process_execution_payload :: "('o, 'c) block_env \<Rightarrow> 'o block_body \<Rightarrow> ('o beacon_state, block_error, unit) step" where
  "process_execution_payload V body =
     step_bind (step_get (\<lambda>st. partially_verify_execution_payload V (state_slot st) body st)) (\<lambda>_.
     step_bind (step_get (\<lambda>_. from_state (body_payload body))) (\<lambda>payload.
     step_try (put_payload_header (be_hashes V) payload)))"

section \<open>Payloads of the parent and bids\<close>

definition set_gloas :: "('o bs_gloas \<Rightarrow> 'o bs_gloas) \<Rightarrow> 'o beacon_state \<Rightarrow> 'o beacon_state" where
  "set_gloas f st = st\<lparr>st_gloas := f (st_gloas st)\<rparr>"

definition no_withdrawal :: builder_withdrawal where
  "no_withdrawal = \<lparr>bw_fee_recipient = replicate 20 0, bw_amount = 0, bw_builder_index = 0\<rparr>"

definition no_payment :: builder_payment where
  "no_payment = \<lparr>bp_weight = 0, bp_withdrawal = no_withdrawal\<rparr>"

text \<open>\<open>builder_pending_withdrawals_mut()?.push(...)\<close>.\<close>

definition push_withdrawal :: "state_spec \<Rightarrow> builder_withdrawal \<Rightarrow> 'o beacon_state \<Rightarrow> block_error + 'o beacon_state" where
  "push_withdrawal E withdrawal st =
     rbind (from_state (gloas_field st bs_builder_pending_withdrawals)) (\<lambda>ws.
     if length ws < ss_builder_pending_withdrawals_limit E
     then Inr (set_gloas (\<lambda>g. g\<lparr>bs_builder_pending_withdrawals := ws @ [withdrawal]\<rparr>) st)
     else Inl (BPE_State BSE_MilhouseError))"

definition settle_builder_payment :: "state_spec \<Rightarrow> nat \<Rightarrow> ('o beacon_state, block_error, unit) step" where
  "settle_builder_payment E payment_index =
     step_bind (step_get (\<lambda>st. rbind (from_state (gloas_field st bs_builder_pending_payments)) (\<lambda>payments.
       ok_or (list_get payments payment_index) (BPE_BuilderPaymentIndexOutOfBounds payment_index)))) (\<lambda>payment.
     let withdrawal = bp_withdrawal payment in
     step_bind (step_try (\<lambda>st. Inr (set_gloas (\<lambda>g. g\<lparr>bs_builder_pending_payments :=
       (bs_builder_pending_payments g)[payment_index := no_payment]\<rparr>) st))) (\<lambda>_.
     if bw_amount withdrawal > 0 then step_try (push_withdrawal E withdrawal) else step_get (\<lambda>_. Inr ())))"

text \<open>The index of the payment of the current epoch is in the second half of the list.\<close>

definition parent_payment_index :: "state_spec \<Rightarrow> bool \<Rightarrow> slot \<Rightarrow> block_error + nat" where
  "parent_payment_index E current slot =
     ok_or (do { r \<leftarrow> safe_rem slot (es_slots_per_epoch (ss_eth E));
                 i \<leftarrow> (if current then safe_add (es_slots_per_epoch (ss_eth E)) r else Some r);
                 Some (unat i) }) BPE_Arith"

definition apply_parent_execution_payload ::
  "('o, 'c) block_env \<Rightarrow> 'o execution_requests \<Rightarrow> ('o beacon_state, block_error, unit) step" where
  "apply_parent_execution_payload V requests =
     (let E = be_sizes V; s = be_spec V; K = be_calls V in
     step_bind (step_get (\<lambda>st. from_state (gloas_field st bs_latest_execution_payload_bid))) (\<lambda>parent_bid.
     let parent_slot = pb_slot parent_bid; parent_epoch = epoch_of (ss_eth E) parent_slot in
     step_bind (kx_deposit_requests K s (er_deposits requests)) (\<lambda>_.
     step_bind (kx_withdrawal_requests K s (er_withdrawals requests)) (\<lambda>_.
     step_bind (kx_consolidation_requests K s (er_consolidations requests)) (\<lambda>_.
     step_bind (step_get (\<lambda>st. Inr (current_epoch E st, previous_epoch E st))) (\<lambda>(current, previous).
     step_bind (if parent_epoch = current then
         step_bind (step_get (\<lambda>_. parent_payment_index E True parent_slot)) (settle_builder_payment E)
       else if parent_epoch = previous then
         step_bind (step_get (\<lambda>_. parent_payment_index E False parent_slot)) (settle_builder_payment E)
       else if pb_value parent_bid > 0 then
         step_try (push_withdrawal E \<lparr>bw_fee_recipient = pb_fee_recipient parent_bid,
           bw_amount = pb_value parent_bid, bw_builder_index = pb_builder_index parent_bid\<rparr>)
       else step_get (\<lambda>_. Inr ())) (\<lambda>_.
     step_bind (step_get (\<lambda>_. ok_or (usize_rem (unat parent_slot) (ss_slots_per_historical_root E)) BPE_Arith)) (\<lambda>availability_index.
     step_bind (step_try (\<lambda>st. rbind (from_state (gloas_field st bs_execution_payload_availability)) (\<lambda>bits.
         if availability_index < length bits
         then Inr (set_gloas (\<lambda>g. g\<lparr>bs_execution_payload_availability := bits[availability_index := True]\<rparr>) st)
         else Inl BPE_BitfieldError))) (\<lambda>_.
     step_try (\<lambda>st. rbind (from_state (gloas_field st bs_latest_block_hash)) (\<lambda>_.
       Inr (set_gloas (\<lambda>g. g\<lparr>bs_latest_block_hash := pb_block_hash parent_bid\<rparr>) st))))))))))))"

definition process_parent_execution_payload ::
  "('o, 'c) block_env \<Rightarrow> 'o block \<Rightarrow> ('o beacon_state, block_error, unit) step" where
  "process_parent_execution_payload V block =
     step_bind (step_get (\<lambda>_. from_state (body_bid (bk_body block)))) (\<lambda>signed_bid.
     step_bind (step_get (\<lambda>st. from_state (gloas_field st bs_latest_execution_payload_bid))) (\<lambda>parent_bid.
     step_bind (step_get (\<lambda>_. from_state (body_parent_requests (bk_body block)))) (\<lambda>requests.
     if pb_parent_block_hash (sb_message signed_bid) \<noteq> pb_block_hash parent_bid then
       step_get (\<lambda>_. if requests = no_requests then Inr () else Inl BPE_NonEmptyParentExecutionRequests)
     else
       (let requests_root = kx_requests_root (be_calls V) requests in
        if requests_root \<noteq> pb_execution_requests_root parent_bid
        then step_get (\<lambda>_. Inl (BPE_ExecutionRequestsRootMismatch (pb_execution_requests_root parent_bid) requests_root))
        else apply_parent_execution_payload V requests))))"

definition verify_bid_builder ::
  "('o, 'c) block_env \<Rightarrow> 'o signed_bid \<Rightarrow> bool \<Rightarrow> 'o beacon_state \<Rightarrow> block_error + unit" where
  "verify_bid_builder V signed_bid verify_signatures st =
     (let bid = sb_message signed_bid; amount = pb_value bid; builder_index = pb_builder_index bid; s = be_spec V in
      if builder_index = kx_self_build_index (be_calls V) then
        (if amount \<noteq> 0 then Inl (BPE_Bid SelfBuildNonZeroAmount)
         else if kx_is_infinity (be_calls V) (sb_signature signed_bid) then Inr () else Inl (BPE_Bid BadSignature))
      else
        rbind (from_state (get_builder st builder_index)) (\<lambda>builder.
        rbind (from_state (is_active_builder s st builder_index)) (\<lambda>active.
        if \<not> active then Inl (BPE_Bid (BuilderNotActive builder_index))
        else rbind (from_state (can_builder_cover_bid s st builder_index amount)) (\<lambda>covered.
        if \<not> covered then Inl (BPE_Bid (InsufficientBalance builder_index (bu_balance builder) amount))
        else if verify_signatures then
          rbind (kx_bid_signature (be_calls V) s st signed_bid) (\<lambda>set.
          (case set of Some True \<Rightarrow> Inr () | _ \<Rightarrow> Inl (BPE_Bid BadSignature)))
        else Inr ()))))"

definition verify_bid_fields :: "('o, 'c) block_env \<Rightarrow> 'o block \<Rightarrow> 'o payload_bid \<Rightarrow> 'o beacon_state \<Rightarrow> block_error + unit" where
  "verify_bid_fields V block bid st =
     (let E = be_sizes V; limit = unat (max_blobs_per_block_at (be_spec V) (current_epoch E st)) in
      if length (pb_blob_kzg_commitments bid) > limit
      then Inl (BPE_Bid (ExcessBlobCommitments limit (length (pb_blob_kzg_commitments bid))))
      else if pb_slot bid \<noteq> bk_slot block then Inl (BPE_Bid (Bid_SlotMismatch (pb_slot bid) (bk_slot block)))
      else rbind (from_state (gloas_field st bs_latest_block_hash)) (\<lambda>latest_block_hash.
      if pb_parent_block_hash bid \<noteq> latest_block_hash
      then Inl (BPE_Bid (ParentBlockHashMismatch latest_block_hash (pb_parent_block_hash bid)))
      else if pb_parent_block_root bid \<noteq> bk_parent_root block
      then Inl (BPE_Bid (Bid_ParentBlockRootMismatch (bk_parent_root block) (pb_parent_block_root bid)))
      else rbind (from_state (get_randao_mix E st (current_epoch E st))) (\<lambda>expected_randao.
      if pb_prev_randao bid \<noteq> expected_randao
      then Inl (BPE_Bid (PrevRandaoMismatch expected_randao (pb_prev_randao bid))) else Inr ())))"

definition record_bid_payment :: "state_spec \<Rightarrow> 'o payload_bid \<Rightarrow> 'o beacon_state \<Rightarrow> block_error + 'o beacon_state" where
  "record_bid_payment E bid st =
     (if pb_value bid > 0 then
        rbind (ok_or (do { r \<leftarrow> usize_rem (unat (pb_slot bid)) (unat (es_slots_per_epoch (ss_eth E)));
                           checked_add (unat (es_slots_per_epoch (ss_eth E))) r }) BPE_Arith) (\<lambda>payment_index.
        rbind (from_state (gloas_field st bs_builder_pending_payments)) (\<lambda>payments.
        if payment_index < length payments then
          Inr (set_gloas (\<lambda>g. g\<lparr>bs_builder_pending_payments := payments[payment_index :=
            \<lparr>bp_weight = 0, bp_withdrawal = \<lparr>bw_fee_recipient = pb_fee_recipient bid, bw_amount = pb_value bid,
               bw_builder_index = pb_builder_index bid\<rparr>\<rparr>]\<rparr>) st)
        else Inl (BPE_State (BSE_InvalidBuilderPendingPaymentsIndex payment_index))))
      else Inr st)"

definition process_execution_payload_bid ::
  "('o, 'c) block_env \<Rightarrow> 'o block \<Rightarrow> bool \<Rightarrow> ('o beacon_state, block_error, unit) step" where
  "process_execution_payload_bid V block verify_signatures =
     step_bind (step_get (\<lambda>_. from_state (body_bid (bk_body block)))) (\<lambda>signed_bid.
     step_bind (step_get (verify_bid_builder V signed_bid verify_signatures)) (\<lambda>_.
     step_bind (step_get (verify_bid_fields V block (sb_message signed_bid))) (\<lambda>_.
     step_bind (step_try (record_bid_payment (be_sizes V) (sb_message signed_bid))) (\<lambda>_.
     step_try (\<lambda>st. rbind (from_state (gloas_field st bs_latest_execution_payload_bid)) (\<lambda>_.
       Inr (set_gloas (\<lambda>g. g\<lparr>bs_latest_execution_payload_bid := sb_message signed_bid\<rparr>) st)))))))"

section \<open>One block\<close>

text \<open>The parts of \<open>per_block_processing\<close>: the forks and caches, the signatures, the payload, and the rest
  of the body.\<close>

definition prepare_block :: "('o, 'c) block_env \<Rightarrow> 'o block \<Rightarrow> ('o, 'c, unit) block_step" where
  "prepare_block V block =
     step_bind (read_state (\<lambda>_. case block_fork_name (be_sizes V) (be_spec V) block of
         Inl e \<Rightarrow> Inl (BPE_InconsistentBlockFork e) | Inr f \<Rightarrow> Inr f)) (\<lambda>fork_name.
     step_bind (read_state (\<lambda>st. case state_fork_name (be_sizes V) (be_spec V) st of
         Inl e \<Rightarrow> Inl (BPE_InconsistentStateFork e) | Inr f \<Rightarrow> Inr f)) (\<lambda>_.
     step_bind (if gloas_enabled fork_name then on_state (process_parent_execution_payload V block)
         else read_state (\<lambda>_. Inr ())) (\<lambda>_.
     step_bind (on_state (kx_initialize_epoch_cache (be_calls V) (be_spec V))) (\<lambda>_.
     step_bind (on_state (kx_initialize_progressive_balances (be_calls V) (be_spec V))) (\<lambda>_.
     update_state (\<lambda>st. Inr (build_slashings_cache (be_caches V) st)))))))"

definition verify_strategy ::
  "('o, 'c) block_env \<Rightarrow> 'o signed_block \<Rightarrow> signature_strategy \<Rightarrow> ('o, 'c, bool) block_step" where
  "verify_strategy V sb strategy = (case strategy of
     VerifyBulk \<Rightarrow>
       step_bind (on_ctxt (\<lambda>st c. let (ok, c) = kx_verify_entire_block (be_calls V) (be_spec V) sb st c in (Inr ok, c))) (\<lambda>ok.
       read_state (\<lambda>_. if ok then Inr False else Inl BPE_BulkSignatureVerificationFailed))
   | VerifyIndividual \<Rightarrow> read_state (\<lambda>_. Inr True)
   | NoVerification \<Rightarrow> read_state (\<lambda>_. Inr False)
   | VerifyRandao \<Rightarrow> read_state (\<lambda>_. Inr False))"

definition process_payload :: "('o, 'c) block_env \<Rightarrow> 'o block \<Rightarrow> bool \<Rightarrow> ('o beacon_state, block_error, unit) step" where
  "process_payload V block verify_signatures =
     step_bind (step_get (\<lambda>st. Inr (is_execution_enabled V (bk_body block) st, fork_name_unchecked st))) (\<lambda>(enabled, f).
     if \<not> enabled then step_get (\<lambda>_. Inr ())
     else if gloas_enabled f then
       step_bind (kx_withdrawals_gloas (be_calls V) (be_spec V)) (\<lambda>_.
       process_execution_payload_bid V block verify_signatures)
     else
       step_bind (if capella_enabled f then
           step_bind (step_get (\<lambda>_. from_state (body_payload (bk_body block)))) (\<lambda>payload.
           kx_withdrawals (be_calls V) (be_spec V) payload)
         else step_get (\<lambda>_. Inr ())) (\<lambda>_.
       process_execution_payload V (bk_body block)))"

definition process_body ::
  "('o, 'c) block_env \<Rightarrow> 'o block \<Rightarrow> bool \<Rightarrow> bool \<Rightarrow> u64 \<Rightarrow> ('o, 'c, unit) block_step" where
  "process_body V block verify_randao verify_signatures proposer_index =
     step_bind (process_randao V block verify_randao) (\<lambda>_.
     step_bind (on_state (step_err BPE_State (process_eth1_data (be_sizes V) (bb_eth1_data (bk_body block))))) (\<lambda>_.
     step_bind (kx_operations (be_calls V) (be_spec V) (bk_body block) verify_signatures) (\<lambda>_.
     step_bind (case body_sync_aggregate (bk_body block) of
         Inr sync_aggregate \<Rightarrow>
           on_state (kx_sync_aggregate (be_calls V) (be_spec V) sync_aggregate proposer_index verify_signatures)
       | Inl _ \<Rightarrow> read_state (\<lambda>_. Inr ())) (\<lambda>_.
     read_state (\<lambda>st. if kx_progressive_balances_enabled (be_calls V) st
       then kx_update_metrics (be_calls V) (bs_progressive_balances_cache (st_caches st)) else Inr ())))))"

definition per_block_processing ::
  "('o, 'c) block_env \<Rightarrow> 'o signed_block \<Rightarrow> signature_strategy \<Rightarrow> bool \<Rightarrow> ('o, 'c, unit) block_step" where
  "per_block_processing V signed_block strategy verify_block_root =
     (let block = sg_message signed_block in
     step_bind (prepare_block V block) (\<lambda>_.
     step_bind (verify_strategy V signed_block strategy) (\<lambda>verify_signatures.
     step_bind (process_block_header V (temporary_block_header (be_roots V) block) verify_block_root) (\<lambda>proposer_index.
     step_bind (if verify_signatures then verify_block_signature V signed_block else read_state (\<lambda>_. Inr ())) (\<lambda>_.
     let verify_randao = (if strategy = VerifyRandao then True else verify_signatures) in
     step_bind (on_state (step_err BPE_State (build_committee_cache (be_caches V) (be_sizes V) (be_spec V) Rel_Previous))) (\<lambda>_.
     step_bind (on_state (step_err BPE_State (build_committee_cache (be_caches V) (be_sizes V) (be_spec V) Rel_Current))) (\<lambda>_.
     step_bind (on_state (process_payload V block verify_signatures)) (\<lambda>_.
     process_body V block verify_randao verify_signatures proposer_index))))))))"

end
