(* ===== verification/Genesis.thy ===== *)
theory Genesis
  imports Block_Processing
begin

text \<open>
  The genesis state and block (\<open>consensus/state_processing/src/genesis.rs\<close>) with the new state of
  \<open>beacon_state.rs\<close>: deposits, activations, the upgrades that are scheduled for the first epoch, and the
  header of the genesis block. Deposits and their tree, the upgrades of other forks, the root of the
  validators and the genesis epoch of the preset are upstream code and parameters.
\<close>

record ('o, 't) genesis_externals =
  gx_tree_new :: 't
  gx_push_leaf :: "'o \<Rightarrow> 't \<Rightarrow> block_error + 't"
  gx_tree_root :: "'t \<Rightarrow> root"
  gx_apply_deposit :: "chain_spec \<Rightarrow> 'o \<Rightarrow> ('o beacon_state, block_error, unit) step"
  gx_upgrade_state_to_electra :: "epoch \<Rightarrow> epoch \<Rightarrow> chain_spec \<Rightarrow> ('o beacon_state, state_error, 'o beacon_state) step"
  gx_validators_root :: "validator list \<Rightarrow> state_error + root"
  gx_absent :: "'o beacon_state"
  gx_genesis_epoch :: epoch
  gx_no_justification :: "bool list"

record ('o, 't, 'm, 'k) genesis_env =
  ge_calls :: "('o, 't) genesis_externals"
  ge_slots :: "('o, 'm) slot_externals"
  ge_select :: "('o, 'k) selection_externals"
  ge_caches :: "'o cache_externals"
  ge_chain :: chain_externals
  ge_roots :: "'o leaf_roots"
  ge_empty :: "'o empty_values"
  ge_sizes :: state_spec
  ge_spec :: chain_spec

section \<open>A new state\<close>

text \<open>\<open>BeaconState::new\<close>. The groups of later variants hold values that no getter reaches.\<close>

definition new_state :: "('o, 't, 'm, 'k) genesis_env \<Rightarrow> u64 \<Rightarrow> eth1_data \<Rightarrow> 'o beacon_state outcome" where
  "new_state G genesis_time eth1_data =
     (let E = ge_sizes G; s = ge_spec G; C = ge_caches G; absent = gx_absent (ge_calls G);
          zero_root = replicate 32 0; no_checkpoint = \<lparr>cp_epoch = 0, cp_root = zero_root\<rparr> in
     obind (empty_block E (ge_empty G) s) (\<lambda>block. Value \<lparr>
       st_variant = Base,
       st_versioning = \<lparr>
         bs_genesis_time = genesis_time,
         bs_genesis_validators_root = zero_root,
         bs_slot = genesis_slot (sp_constants s),
         bs_fork = \<lparr>
           fk_previous_version = genesis_fork_version (sp_initial s),
           fk_current_version = genesis_fork_version (sp_initial s),
           fk_epoch = gx_genesis_epoch (ge_calls G)\<rparr>\<rparr>,
       st_history = \<lparr>
         bs_latest_block_header = temporary_block_header (ge_roots G) block,
         bs_block_roots = replicate (ss_slots_per_historical_root E) zero_root,
         bs_state_roots = replicate (ss_slots_per_historical_root E) zero_root,
         bs_historical_roots = []\<rparr>,
       st_eth1 = \<lparr>bs_eth1_data = eth1_data, bs_eth1_data_votes = [], bs_eth1_deposit_index = 0\<rparr>,
       st_registry = \<lparr>bs_validators = [], bs_balances = []\<rparr>,
       st_mixes = \<lparr>
         bs_randao_mixes = replicate (unat (ss_epochs_per_historical_vector E)) zero_root,
         bs_slashings = replicate (unat (ss_epochs_per_slashings_vector E)) 0\<rparr>,
       st_attestations = \<lparr>bs_previous_epoch_attestations = [], bs_current_epoch_attestations = []\<rparr>,
       st_participation = st_participation absent,
       st_finality = \<lparr>
         bs_justification_bits = gx_no_justification (ge_calls G),
         bs_previous_justified_checkpoint = no_checkpoint,
         bs_current_justified_checkpoint = no_checkpoint,
         bs_finalized_checkpoint = no_checkpoint\<rparr>,
       st_execution = st_execution absent,
       st_capella = st_capella absent,
       st_electra = st_electra absent,
       st_gloas = st_gloas absent,
       st_caches = \<lparr>
         bs_total_active_balance = None,
         bs_committee_caches = replicate 3 (cx_committee_default C),
         bs_progressive_balances_cache = cx_progressive_default C,
         bs_pubkey_cache = cx_pubkey_default C,
         bs_exit_cache = cx_exit_default C,
         bs_slashings_cache = cx_slashings_default C,
         bs_epoch_cache = cx_epoch_default C\<rparr>\<rparr>))"

definition fill_randao_mixes_with :: "state_spec \<Rightarrow> root \<Rightarrow> 'o beacon_state \<Rightarrow> 'o beacon_state" where
  "fill_randao_mixes_with E index_root st =
     st\<lparr>st_mixes := (st_mixes st)\<lparr>bs_randao_mixes := replicate (unat (ss_epochs_per_historical_vector E)) index_root\<rparr>\<rparr>"

definition eth2_genesis_time :: "chain_spec \<Rightarrow> u64 \<Rightarrow> u64 option" where
  "eth2_genesis_time s eth1_timestamp = safe_add eth1_timestamp (genesis_delay (sp_timing s))"

section \<open>Deposits and activations\<close>

definition set_deposit_root :: "root \<Rightarrow> 'o beacon_state \<Rightarrow> 'o beacon_state" where
  "set_deposit_root r st =
     st\<lparr>st_eth1 := (st_eth1 st)\<lparr>bs_eth1_data := (bs_eth1_data (st_eth1 st))\<lparr>e1_deposit_root := r\<rparr>\<rparr>\<rparr>"

fun apply_deposits ::
  "('o, 't) genesis_externals \<Rightarrow> chain_spec \<Rightarrow> 't \<Rightarrow> 'o list \<Rightarrow> ('o beacon_state, block_error, unit) step" where
  "apply_deposits K s tree [] = step_get (\<lambda>_. Inr ())"
| "apply_deposits K s tree (deposit # deposits) =
     step_bind (step_get (\<lambda>_. gx_push_leaf K deposit tree)) (\<lambda>tree.
     step_bind (step_try (\<lambda>st. Inr (set_deposit_root (gx_tree_root K tree) st))) (\<lambda>_.
     step_bind (gx_apply_deposit K s deposit) (\<lambda>_. apply_deposits K s tree deposits)))"

definition activate_validator :: "chain_spec \<Rightarrow> epoch \<Rightarrow> u64 \<Rightarrow> validator \<Rightarrow> state_error + validator" where
  "activate_validator s genesis_epoch balance validator =
     rbind (arith (do { r \<leftarrow> safe_rem balance (effective_balance_increment (sp_gwei s)); safe_sub balance r })) (\<lambda>rounded.
     let validator = validator\<lparr>va_effective_balance := min rounded (max_effective_balance (sp_gwei s))\<rparr> in
     Inr (if va_effective_balance validator = max_effective_balance (sp_gwei s)
       then validator\<lparr>va_activation_eligibility_epoch := genesis_epoch, va_activation_epoch := genesis_epoch\<rparr>
       else validator))"

text \<open>The validators that were already visited keep their change when a later one fails.\<close>

fun activate_validators ::
  "chain_spec \<Rightarrow> epoch \<Rightarrow> u64 list \<Rightarrow> nat \<Rightarrow> validator list \<Rightarrow> (state_error + unit) \<times> validator list" where
  "activate_validators s genesis_epoch balances i [] = (Inr (), [])"
| "activate_validators s genesis_epoch balances i (v # vs) =
     (case rbind (ok_or (list_get balances i) (BSE_BalancesOutOfBounds i)) (\<lambda>balance. activate_validator s genesis_epoch balance v) of
        Inl e \<Rightarrow> (Inl e, v # vs)
      | Inr v \<Rightarrow> (let (r, vs) = activate_validators s genesis_epoch balances (i + 1) vs in (r, v # vs)))"

definition process_activations :: "chain_spec \<Rightarrow> epoch \<Rightarrow> ('o beacon_state, state_error, unit) step" where
  "process_activations s genesis_epoch st =
     (let (r, vs) = activate_validators s genesis_epoch (bs_balances (st_registry st)) 0 (bs_validators (st_registry st))
      in (r, st\<lparr>st_registry := (st_registry st)\<lparr>bs_validators := vs\<rparr>\<rparr>))"

definition is_valid_genesis_state ::
  "('o, 'k) selection_externals \<Rightarrow> state_spec \<Rightarrow> chain_spec \<Rightarrow> epoch \<Rightarrow> 'o beacon_state \<Rightarrow> bool" where
  "is_valid_genesis_state L E s genesis_epoch st =
     (case get_active_validator_indices L E s st genesis_epoch of
        Inl _ \<Rightarrow> False
      | Inr active \<Rightarrow> bs_genesis_time (st_versioning st) \<ge> min_genesis_time (sp_misc s) \<and>
          of_nat (length active) \<ge> min_genesis_active_validator_count (sp_misc s))"

section \<open>The genesis block\<close>

definition genesis_block :: "('o, 't, 'm, 'k) genesis_env \<Rightarrow> 'o beacon_state \<Rightarrow> (state_error + 'o block) outcome" where
  "genesis_block G st =
     obind (empty_block (ge_sizes G) (ge_empty G) (ge_spec G)) (\<lambda>block.
     Value (if block_variant block = Gloas then
         rbind (gloas_field st bs_latest_execution_payload_bid) (\<lambda>bid.
         Inr (block\<lparr>bk_body := (bk_body block)\<lparr>bb_signed_execution_payload_bid :=
           (bb_signed_execution_payload_bid (bk_body block))\<lparr>sb_message := bid\<rparr>\<rparr>\<rparr>))
       else Inr block))"

section \<open>Forks at genesis\<close>

definition set_previous_version :: "version \<Rightarrow> 'o beacon_state \<Rightarrow> 'o beacon_state" where
  "set_previous_version v st = st\<lparr>st_versioning := (st_versioning st)\<lparr>bs_fork :=
     (bs_fork (st_versioning st))\<lparr>fk_previous_version := v\<rparr>\<rparr>\<rparr>"

text \<open>\<open>latest_execution_payload_header_X_mut\<close>, when a header of the variant is given.\<close>

definition override_header ::
  "(fork_name \<times> exec_header) option \<Rightarrow> fork_name \<Rightarrow> ('o beacon_state, block_error, unit) step" where
  "override_header header f = (case header of
     Some (g, h) \<Rightarrow>
       if g = f \<and> has_payload f then
         step_try (\<lambda>st. rbind (from_state (partial_getter (st_variant st = f) ())) (\<lambda>_. Inr (st\<lparr>st_execution := h\<rparr>)))
       else step_get (\<lambda>_. Inr ())
   | None \<Rightarrow> step_get (\<lambda>_. Inr ()))"

definition genesis_upgrade ::
  "('o, 't, 'm, 'k) genesis_env \<Rightarrow> fork_name \<Rightarrow> ('o beacon_state, block_error, unit) step" where
  "genesis_upgrade G f =
     (if f = Electra then
        step_bind (step_err BPE_State (gx_upgrade_state_to_electra (ge_calls G) 0 0 (ge_spec G))) (\<lambda>post st. (Inr (), post))
      else step_err BPE_State (upgrade_to (ge_slots G) (ge_sizes G) (ge_spec G) f))"

text \<open>The sync committees of Electra, with its largest effective balance.\<close>

definition renew_sync_committees :: "('o, 't, 'm, 'k) genesis_env \<Rightarrow> ('o beacon_state, block_error, unit) step" where
  "renew_sync_committees G =
     step_bind (step_get (\<lambda>st. from_state
       (get_next_sync_committee (ge_select G) (ge_chain G) (ge_sizes G) (ge_spec G) st))) (\<lambda>committee.
     step_try (\<lambda>st. rbind (from_state (partial_getter (altair_enabled (st_variant st)) ())) (\<lambda>_.
       Inr (st\<lparr>st_participation := (st_participation st)\<lparr>bs_current_sync_committee := committee,
         bs_next_sync_committee := committee\<rparr>\<rparr>))))"

definition set_body_root :: "root \<Rightarrow> 'o beacon_state \<Rightarrow> 'o beacon_state" where
  "set_body_root r st = st\<lparr>st_history := (st_history st)\<lparr>bs_latest_block_header :=
     (bs_latest_block_header (st_history st))\<lparr>bh_body_root := r\<rparr>\<rparr>\<rparr>"

text \<open>The bid of the genesis block has an empty payload and continues the genesis of the execution chain.\<close>

definition genesis_bid :: "('o, 't, 'm, 'k) genesis_env \<Rightarrow> ('o beacon_state, block_error, unit) step" where
  "genesis_bid G =
     step_bind (step_get (\<lambda>st. from_state (gloas_field st bs_latest_execution_payload_bid))) (\<lambda>bid.
     step_bind (step_try (\<lambda>st. Inr (set_gloas (\<lambda>g. g\<lparr>bs_latest_execution_payload_bid :=
       bid\<lparr>pb_parent_block_hash := pb_block_hash bid, pb_block_hash := replicate 32 0\<rparr>\<rparr>) st))) (\<lambda>_.
     step_bind (step_get (\<lambda>st. case genesis_block G st of
         Crash \<Rightarrow> Inl BPE_Panic | Value r \<Rightarrow> from_state r)) (\<lambda>block.
     step_try (\<lambda>st. Inr (set_body_root (body_root (ge_roots G) (bk_body block)) st)))))"

definition genesis_fork ::
  "('o, 't, 'm, 'k) genesis_env \<Rightarrow> (fork_name \<times> exec_header) option \<Rightarrow> fork_name
     \<Rightarrow> ('o beacon_state, block_error, unit) step" where
  "genesis_fork G header f =
     (if fork_epoch (ge_spec G) f = Some (gx_genesis_epoch (ge_calls G)) then
        step_bind (genesis_upgrade G f) (\<lambda>_.
        step_bind (step_try (\<lambda>st. Inr (set_previous_version (fork_version_for_name (ge_spec G) f) st))) (\<lambda>_.
        step_bind (if f = Electra then renew_sync_committees G else step_get (\<lambda>_. Inr ())) (\<lambda>_.
        if f = Gloas then genesis_bid G else override_header header f)))
      else step_get (\<lambda>_. Inr ()))"

fun genesis_forks ::
  "('o, 't, 'm, 'k) genesis_env \<Rightarrow> (fork_name \<times> exec_header) option \<Rightarrow> fork_name list
     \<Rightarrow> ('o beacon_state, block_error, unit) step" where
  "genesis_forks G header [] = step_get (\<lambda>_. Inr ())"
| "genesis_forks G header (f # fs) = step_bind (genesis_fork G header f) (\<lambda>_. genesis_forks G header fs)"

section \<open>The genesis state\<close>

definition finish_genesis :: "('o, 't, 'm, 'k) genesis_env \<Rightarrow> ('o beacon_state, block_error, unit) step" where
  "finish_genesis G =
     step_bind (step_err BPE_State (build_caches (ge_caches G) (ge_sizes G) (ge_spec G))) (\<lambda>_.
     step_bind (step_get (\<lambda>st. from_state (gx_validators_root (ge_calls G) (bs_validators (st_registry st))))) (\<lambda>r.
     step_try (\<lambda>st. Inr (st\<lparr>st_versioning := (st_versioning st)\<lparr>bs_genesis_validators_root := r\<rparr>\<rparr>))))"

definition initialize_beacon_state_from_eth1 ::
  "('o, 't, 'm, 'k) genesis_env \<Rightarrow> root \<Rightarrow> u64 \<Rightarrow> 'o list \<Rightarrow> (fork_name \<times> exec_header) option
     \<Rightarrow> block_error + 'o beacon_state" where
  "initialize_beacon_state_from_eth1 G eth1_block_hash eth1_timestamp deposits header =
     (let s = ge_spec G; K = ge_calls G in
     rbind (ok_or (eth2_genesis_time s eth1_timestamp) BPE_Arith) (\<lambda>genesis_time.
     case new_state G genesis_time \<lparr>e1_deposit_root = replicate 32 0, e1_deposit_count = of_nat (length deposits),
         e1_block_hash = eth1_block_hash\<rparr> of
       Crash \<Rightarrow> Inl BPE_Panic
     | Value state \<Rightarrow>
         (let (r, st) =
            step_bind (apply_deposits K s (gx_tree_new K) deposits) (\<lambda>_.
            step_bind (step_err BPE_State (process_activations s (gx_genesis_epoch K))) (\<lambda>_.
            step_bind (genesis_forks G header upgrade_order) (\<lambda>_.
            finish_genesis G))) (fill_randao_mixes_with (ge_sizes G) eth1_block_hash state)
          in rbind r (\<lambda>_. Inr st))))"

end
