(* ===== verification/Block_Facts.thy ===== *)
theory Block_Facts
  imports Block_Processing Slot_Facts
begin

text \<open>
  What an accepted block guarantees. The steps of the upstream functions own other parts of the state:
  \<open>calls_keep_core\<close> is the law the facts about blocks rely on.
\<close>

section \<open>Successful steps\<close>

lemma on_state_Inr [step_simps]: "on_state m p = (Inr x, p') \<longleftrightarrow> (\<exists>st'. m (fst p) = (Inr x, st') \<and> p' = (st', snd p))"
  by (auto simp: on_state_def split: prod.splits)

lemma on_ctxt_Inr [step_simps]: "on_ctxt f p = (Inr x, p') \<longleftrightarrow> (\<exists>c'. f (fst p) (snd p) = (Inr x, c') \<and> p' = (fst p, c'))"
  by (auto simp: on_ctxt_def split: prod.splits)

lemma read_state_Inr [step_simps]: "read_state f p = (Inr x, p') \<longleftrightarrow> f (fst p) = Inr x \<and> p' = p"
  by (auto simp: read_state_def)

lemma check_state_Inr [step_simps]: "check_state ok e p = (Inr x, p') \<longleftrightarrow> ok (fst p) \<and> p' = p"
  by (auto simp: check_state_def)

lemma update_state_Inr [step_simps]: "update_state f p = (Inr x, p') \<longleftrightarrow> (\<exists>st'. f (fst p) = Inr st' \<and> p' = (st', snd p))"
  by (auto simp: update_state_def on_state_Inr step_try_Inr)

lemma from_state_Inr [step_simps]: "from_state r = Inr x \<longleftrightarrow> r = Inr x"
  by (auto simp: from_state_def split: sum.splits)

lemma partial_getter_Inr [step_simps]: "partial_getter present y = Inr x \<longleftrightarrow> present \<and> x = y"
  by (auto simp: partial_getter_def)

section \<open>What most steps keep\<close>

text \<open>The variant, the slot, the fork, the latest header, the payload header, the mixes and the votes.\<close>

definition same_core :: "'o beacon_state \<Rightarrow> 'o beacon_state \<Rightarrow> bool" where
  "same_core st st' \<longleftrightarrow> st_variant st' = st_variant st \<and> st_versioning st' = st_versioning st \<and>
     latest_header st' = latest_header st \<and> st_execution st' = st_execution st \<and>
     bs_randao_mixes (st_mixes st') = bs_randao_mixes (st_mixes st) \<and>
     bs_eth1_data (st_eth1 st') = bs_eth1_data (st_eth1 st) \<and>
     bs_eth1_data_votes (st_eth1 st') = bs_eth1_data_votes (st_eth1 st)"

definition keeps_core :: "('o beacon_state, 'e, 'a) step \<Rightarrow> bool" where
  "keeps_core m \<longleftrightarrow> (\<forall>st r st'. m st = (r, st') \<longrightarrow> same_core st st')"

lemma same_core_refl [simp]: "same_core st st"
  by (simp add: same_core_def)

lemma same_core_trans: "same_core st st1 \<Longrightarrow> same_core st1 st2 \<Longrightarrow> same_core st st2"
  by (simp add: same_core_def)

lemma keeps_coreD: "keeps_core m \<Longrightarrow> m st = (r, st') \<Longrightarrow> same_core st st'"
  unfolding keeps_core_def by blast

named_theorems core_steps "steps that keep the core of the state"

lemma keeps_bind [core_steps]: "keeps_core m \<Longrightarrow> (\<And>x. keeps_core (k x)) \<Longrightarrow> keeps_core (step_bind m k)"
  unfolding keeps_core_def step_bind_def
  by (auto split: prod.splits sum.splits) (metis same_core_trans)+

lemma keeps_get [core_steps]: "keeps_core (step_get f)"
  by (auto simp: keeps_core_def step_get_def)

lemma keeps_try [core_steps]: "(\<And>st st'. f st = Inr st' \<Longrightarrow> same_core st st') \<Longrightarrow> keeps_core (step_try f)"
  by (auto simp: keeps_core_def step_try_def split: sum.splits)

lemma keeps_err [core_steps]: "keeps_core m \<Longrightarrow> keeps_core (step_err g m)"
  unfolding keeps_core_def step_err_def by (auto split: prod.splits sum.splits)

lemma keeps_if [core_steps]: "keeps_core m \<Longrightarrow> keeps_core m' \<Longrightarrow> keeps_core (if c then m else m')"
  by simp

text \<open>What is relied on: the upstream functions keep the core, as they own other fields of the state.\<close>

definition calls_keep_core :: "('o, 'c) block_calls \<Rightarrow> bool" where
  "calls_keep_core K \<longleftrightarrow> (\<forall>s. keeps_core (kx_initialize_epoch_cache K s) \<and>
     keeps_core (kx_initialize_progressive_balances K s) \<and> keeps_core (kx_withdrawals_gloas K s) \<and>
     (\<forall>p. keeps_core (kx_withdrawals K s p)) \<and> (\<forall>a i v. keeps_core (kx_sync_aggregate K s a i v)) \<and>
     (\<forall>xs. keeps_core (kx_deposit_requests K s xs)) \<and> (\<forall>xs. keeps_core (kx_withdrawal_requests K s xs)) \<and>
     (\<forall>xs. keeps_core (kx_consolidation_requests K s xs)) \<and>
     (\<forall>body v p r p'. kx_operations K s body v p = (r, p') \<longrightarrow> same_core (fst p) (fst p')))"

lemma calls_keep [core_steps]:
  assumes "calls_keep_core K"
  shows "keeps_core (kx_initialize_epoch_cache K s)" "keeps_core (kx_initialize_progressive_balances K s)"
    "keeps_core (kx_withdrawals_gloas K s)" "keeps_core (kx_withdrawals K s p)" "keeps_core (kx_sync_aggregate K s a i v)"
    "keeps_core (kx_deposit_requests K s xs)" "keeps_core (kx_withdrawal_requests K s xs)"
    "keeps_core (kx_consolidation_requests K s xs)"
    "kx_operations K s body v q = (r, q') \<Longrightarrow> same_core (fst q) (fst q')"
  using assms unfolding calls_keep_core_def by blast+

lemma map_caches_core [simp]: "same_core st (map_caches f st)"
  by (simp add: same_core_def map_caches_def latest_header_def)

lemma set_gloas_core [simp]: "same_core st (set_gloas f st)"
  by (simp add: same_core_def set_gloas_def latest_header_def)

lemma set_gloas_simps [simp]:
  "st_variant (set_gloas f st) = st_variant st" "st_gloas (set_gloas f st) = f (st_gloas st)"
  "st_versioning (set_gloas f st) = st_versioning st" "st_finality (set_gloas f st) = st_finality st"
  by (simp_all add: set_gloas_def)

lemma push_withdrawal_core: "push_withdrawal E w st = Inr st' \<Longrightarrow> same_core st st'"
  by (auto simp: push_withdrawal_def rbind_Inr split: if_splits)

lemma settle_core [core_steps]: "keeps_core (settle_builder_payment E i)"
  unfolding settle_builder_payment_def Let_def
  by (intro core_steps) (auto dest: push_withdrawal_core)

lemma apply_parent_core [core_steps]:
  assumes "calls_keep_core (be_calls V)"
  shows "keeps_core (apply_parent_execution_payload V requests)"
  unfolding apply_parent_execution_payload_def Let_def
  by (intro core_steps assms) (auto simp: rbind_Inr split: if_splits prod.splits dest: push_withdrawal_core
    intro!: core_steps)

lemma process_parent_core [core_steps]:
  assumes "calls_keep_core (be_calls V)"
  shows "keeps_core (process_parent_execution_payload V block)"
  unfolding process_parent_execution_payload_def Let_def
  by (intro core_steps assms)

lemma process_bid_core [core_steps]: "keeps_core (process_execution_payload_bid V block v)"
  unfolding process_execution_payload_bid_def
  by (intro core_steps) (auto simp: record_bid_payment_def rbind_Inr split: if_splits)

section \<open>Caches keep the core\<close>

lemma put_committee_core: "put_committee_cache i c st = Inr st' \<Longrightarrow> same_core st st'"
  by (auto simp: put_committee_cache_def split: if_splits)

lemma force_balance_core: "force_build_total_active_balance_cache f E s st = Inr st' \<Longrightarrow> same_core st st'"
  by (auto simp: force_build_total_active_balance_cache_def rbind_Inr set_total_active_balance_def same_core_def
      latest_header_def Let_def)

lemma build_balance_core: "build_total_active_balance_cache f E s st = Inr st' \<Longrightarrow> same_core st st'"
  by (auto simp: build_total_active_balance_cache_def split: sum.splits dest: force_balance_core)

lemma build_committee_core [core_steps]: "keeps_core (build_committee_cache C E s r)"
  unfolding build_committee_cache_def
  by (intro core_steps)
    (auto simp: force_build_committee_cache_def rbind_Inr split: if_splits dest: put_committee_core build_balance_core)

lemma build_slashings_core [simp]: "same_core st (build_slashings_cache C st)"
  by (simp add: build_slashings_cache_def)

section \<open>Accepted blocks\<close>

text \<open>What the later part of block processing keeps: all of the core but the mixes and the votes.\<close>

definition same_chain :: "'o beacon_state \<Rightarrow> 'o beacon_state \<Rightarrow> bool" where
  "same_chain st st' \<longleftrightarrow> st_variant st' = st_variant st \<and> st_versioning st' = st_versioning st \<and>
     latest_header st' = latest_header st \<and> st_execution st' = st_execution st"

lemma core_chain: "same_core st st' \<Longrightarrow> same_chain st st'"
  by (simp add: same_core_def same_chain_def)

lemma same_chain_trans: "same_chain st st1 \<Longrightarrow> same_chain st1 st2 \<Longrightarrow> same_chain st st2"
  by (simp add: same_chain_def)

lemma core_epoch: "same_core st st' \<Longrightarrow> current_epoch E st' = current_epoch E st"
  by (simp add: same_core_def current_epoch_def)

lemma core_mix: "same_core st st' \<Longrightarrow> get_randao_mix E st' = get_randao_mix E st"
  by (simp add: fun_eq_iff get_randao_mix_def get_randao_mix_index_def epoch_index_def core_epoch Let_def)
    (simp add: same_core_def)

lemma set_latest_header_simps [simp]:
  "st_variant (set_latest_header C h st) = st_variant st"
  "st_versioning (set_latest_header C h st) = st_versioning st"
  "st_registry (set_latest_header C h st) = st_registry st"
  "st_execution (set_latest_header C h st) = st_execution st"
  "st_mixes (set_latest_header C h st) = st_mixes st"
  "latest_header (set_latest_header C h st) = h"
  by (simp_all add: set_latest_header_def map_caches_def latest_header_def)

lemma process_block_header_Inr:
  "process_block_header V h verify_root p = (Inr i, p') \<longleftrightarrow>
    bh_slot h = state_slot (fst p) \<and> bh_slot (latest_header (fst p)) < bh_slot h \<and> i = bh_proposer_index h \<and>
    (\<exists>c'. kx_proposer_index (be_calls V) (be_spec V) (fst p) (snd p) = (Inr i, c') \<and>
      p' = (set_latest_header (be_caches V) h (fst p), c')) \<and>
    (verify_root \<longrightarrow> bh_parent_root h = kx_header_root (be_calls V) (latest_header (fst p))) \<and>
    (\<exists>v. get_validator (fst p) (unat i) = Inr v \<and> \<not> va_slashed v)"
  by (auto simp: process_block_header_def step_simps Let_def get_validator_def split: if_splits)

lemma process_randao_chain: "process_randao V b v p = (Inr u, p') \<Longrightarrow> same_chain (fst p) (fst p')"
  by (auto simp: process_randao_def step_simps update_randao_mix_def rbind_Inr Let_def same_chain_def latest_header_def
      split: if_splits)

lemma process_eth1_chain: "process_eth1_data E d st = (Inr u, st') \<Longrightarrow> same_chain st st'"
  by (auto simp: process_eth1_data_def step_simps push_vote_def Let_def same_chain_def latest_header_def
      split: if_splits option.splits)

lemma process_body_chain:
  assumes "calls_keep_core (be_calls V)" and "process_body V b vr vs i p = (Inr u, p')"
  shows "same_chain (fst p) (fst p')"
proof -
  from assms(2) obtain p1 st2 p3 p4 where
    p1: "process_randao V b vr p = (Inr (), p1)"
    and p2: "process_eth1_data (be_sizes V) (bb_eth1_data (bk_body b)) (fst p1) = (Inr (), st2)"
    and p3: "kx_operations (be_calls V) (be_spec V) (bk_body b) vs (st2, snd p1) = (Inr (), p3)"
    and p4: "(case body_sync_aggregate (bk_body b) of
         Inr a \<Rightarrow> on_state (kx_sync_aggregate (be_calls V) (be_spec V) a i vs)
       | Inl _ \<Rightarrow> read_state (\<lambda>_. Inr ())) p3 = (Inr (), p4)" and p': "fst p' = fst p4"
    by (auto simp: process_body_def step_simps)
  have "same_chain (fst p3) (fst p4)"
    using p4 keeps_coreD [OF calls_keep(5) [OF assms(1)]]
    by (auto simp: step_simps intro: core_chain split: sum.splits)
  then show ?thesis
    using process_randao_chain [OF p1] process_eth1_chain [OF p2] core_chain [OF calls_keep(9) [OF assms(1) p3]] p'
    by (auto intro: same_chain_trans)
qed

lemma put_payload_header_Inr: "put_payload_header T payload st = Inr st' \<longleftrightarrow>
    has_payload (st_variant st) \<and> (\<exists>h. payload_to_header T payload = Value (st_variant st, h) \<and> st' = st\<lparr>st_execution := h\<rparr>)"
  by (auto simp: put_payload_header_def rbind_Inr step_simps latest_payload_header_def split: outcome.splits if_splits)

lemma process_execution_payload_Inr:
  "process_execution_payload V body st = (Inr u, st') \<longleftrightarrow>
    (\<exists>payload. partially_verify_execution_payload V (state_slot st) body st = Inr () \<and> body_payload body = Inr payload \<and>
      put_payload_header (be_hashes V) payload st = Inr st')"
  by (auto simp: process_execution_payload_def step_simps)

lemma partially_verify_Inr:
  "partially_verify_execution_payload V sl body st = Inr u \<longleftrightarrow> (\<exists>payload. body_payload body = Inr payload \<and>
    (is_merge_transition_complete (be_sizes V) st \<longrightarrow> has_payload (st_variant st) \<and>
      payload_parent_hash payload = eh_block_hash (st_execution st)) \<and>
    get_randao_mix (be_sizes V) st (current_epoch (be_sizes V) st) = Inr (payload_prev_randao payload) \<and>
    compute_timestamp_at_slot (be_spec V) sl st = Some (payload_timestamp payload) \<and>
    (\<forall>cs. body_commitments body = Inr cs \<longrightarrow>
      length cs \<le> unat (max_blobs_per_block_at (be_spec V) (epoch_of (ss_eth (be_sizes V)) sl))))"
  by (auto simp: partially_verify_execution_payload_def rbind_Inr step_simps ok_or_Inr latest_payload_header_def Let_def
      split: if_splits sum.splits)

text \<open>The states an accepted block passes through.\<close>

lemma per_block_Inr:
  assumes "calls_keep_core (be_calls V)"
    and "per_block_processing V sb strategy verify_root (st, c) = (Inr (), (st', c'))"
  obtains st1 st2 st3 where "same_core st st1"
    and "block_fork_name (be_sizes V) (be_spec V) (sg_message sb) = Inr (block_variant (sg_message sb))"
    and "state_fork_name (be_sizes V) (be_spec V) st = Inr (st_variant st)"
    and "state_slot st = bk_slot (sg_message sb)" and "bh_slot (latest_header st) < bk_slot (sg_message sb)"
    and "verify_root \<longrightarrow> bk_parent_root (sg_message sb) = kx_header_root (be_calls V) (latest_header st)"
    and "same_core (set_latest_header (be_caches V) (temporary_block_header (be_roots V) (sg_message sb)) st1) st2"
    and "\<exists>vs. process_payload V (sg_message sb) vs st2 = (Inr (), st3)"
    and "same_chain st3 st'"
proof -
  let ?b = "sg_message sb" let ?h = "temporary_block_header (be_roots V) ?b"
  from assms(2) obtain p1 vs p2 i p3 p4 st5 st6 st7 vr c7 where
    p1: "prepare_block V ?b (st, c) = (Inr (), p1)" and p2: "verify_strategy V sb strategy p1 = (Inr vs, p2)"
    and p3: "process_block_header V ?h verify_root p2 = (Inr i, p3)"
    and p4: "(if vs then verify_block_signature V sb else read_state (\<lambda>_. Inr ())) p3 = (Inr (), p4)"
    and p5: "build_committee_cache (be_caches V) (be_sizes V) (be_spec V) Rel_Previous (fst p4) = (Inr (), st5)"
    and p6: "build_committee_cache (be_caches V) (be_sizes V) (be_spec V) Rel_Current st5 = (Inr (), st6)"
    and p7: "process_payload V ?b vs st6 = (Inr (), st7)"
    and p8: "process_body V ?b vr vs i (st7, c7) = (Inr (), (st', c'))"
    unfolding per_block_processing_def Let_def step_simps by (auto simp: step_simps)
  have fork: "block_fork_name (be_sizes V) (be_spec V) ?b = Inr (block_variant ?b)"
    "state_fork_name (be_sizes V) (be_spec V) st = Inr (st_variant st)"
    using p1 by (auto simp: prepare_block_def step_simps block_fork_name_def state_fork_name_def fork_name_unchecked_def
        Let_def split: sum.splits if_splits)
  have core1: "same_core st (fst p1)"
  proof -
    from p1 obtain f q1 st2 st3 where
      q1: "(if gloas_enabled f then on_state (process_parent_execution_payload V ?b) else read_state (\<lambda>_. Inr ())) (st, c) = (Inr (), q1)"
      and s2: "kx_initialize_epoch_cache (be_calls V) (be_spec V) (fst q1) = (Inr (), st2)"
      and s3: "kx_initialize_progressive_balances (be_calls V) (be_spec V) st2 = (Inr (), st3)"
      and p1': "fst p1 = build_slashings_cache (be_caches V) st3"
      unfolding prepare_block_def step_simps by fastforce
    have "same_core st (fst q1)"
      using q1 keeps_coreD [OF process_parent_core [OF assms(1)]] by (auto simp: step_simps split: if_splits)
    then show ?thesis
      using keeps_coreD [OF calls_keep(1) [OF assms(1)] s2] keeps_coreD [OF calls_keep(2) [OF assms(1)] s3]
      unfolding p1' by (blast intro: same_core_trans build_slashings_core)
  qed
  have fst2: "fst p2 = fst p1"
    using p2 by (cases strategy) (auto simp: verify_strategy_def step_simps split: if_splits)
  have fst4: "fst p4 = fst p3" using p4 by (auto simp: verify_block_signature_def step_simps split: if_splits)
  note header = p3 [unfolded process_block_header_Inr]
  have "fst p3 = set_latest_header (be_caches V) ?h (fst p1)" using header fst2 by auto
  then have core2: "same_core (set_latest_header (be_caches V) ?h (fst p1)) st6"
    using keeps_coreD [OF build_committee_core p5] keeps_coreD [OF build_committee_core p6] fst4
    by (metis same_core_trans)
  show ?thesis
  proof (rule that [OF core1 fork _ _ _ core2])
    show "state_slot st = bk_slot ?b" "bh_slot (latest_header st) < bk_slot ?b"
      "verify_root \<longrightarrow> bk_parent_root ?b = kx_header_root (be_calls V) (latest_header st)"
      using header core1 fst2 by (auto simp: same_core_def temporary_block_header_def block_header_of_def)
    show "\<exists>vs. process_payload V ?b vs st6 = (Inr (), st7)" using p7 by blast
    show "same_chain st7 st'" using process_body_chain [OF assms(1) p8] by simp
  qed
qed

lemma gloas_iff: "gloas_enabled f \<longleftrightarrow> f = Gloas"
  by (cases f) (simp_all add: gloas_enabled_def fork_order)

lemma process_payload_Inr:
  assumes "calls_keep_core (be_calls V)" and "process_payload V b vs st = (Inr (), st')"
    and "capella_enabled (st_variant st)" and "st_variant st \<noteq> Gloas"
  obtains payload h where "same_core st (st'\<lparr>st_execution := st_execution st\<rparr>)"
    and "partially_verify_execution_payload V (state_slot st) (bk_body b) st = Inr ()"
    and "body_payload (bk_body b) = Inr payload" and "payload_to_header (be_hashes V) payload = Value (st_variant st, h)"
    and "st_execution st' = h" and "has_payload (st_variant st)"
proof -
  from assms(2-4) obtain payload st1 where
    w: "kx_withdrawals (be_calls V) (be_spec V) payload st = (Inr (), st1)"
    and e: "process_execution_payload V (bk_body b) st1 = (Inr (), st')"
    by (auto simp: process_payload_def step_simps fork_name_unchecked_def is_execution_enabled_def
        is_merge_transition_complete_def gloas_iff split: if_splits)
  note core = keeps_coreD [OF calls_keep(4) [OF assms(1)] w]
  then have fields: "st_variant st1 = st_variant st" "st_versioning st1 = st_versioning st" "st_execution st1 = st_execution st"
    by (simp_all add: same_core_def)
  then have parts: "is_merge_transition_complete E st1 = is_merge_transition_complete E st"
    "latest_payload_header st1 = latest_payload_header st"
    "compute_timestamp_at_slot s sl st1 = compute_timestamp_at_slot s sl st" for E s sl
    by (simp_all add: is_merge_transition_complete_def fork_name_unchecked_def latest_payload_header_def
        compute_timestamp_at_slot_def)
  have same: "partially_verify_execution_payload V (state_slot st1) (bk_body b) st1 =
      partially_verify_execution_payload V (state_slot st) (bk_body b) st"
    by (simp only: partially_verify_execution_payload_def parts core_mix [OF core] core_epoch [OF core] fields)
  from e obtain payload' h where "body_payload (bk_body b) = Inr payload'" "has_payload (st_variant st1)"
    "payload_to_header (be_hashes V) payload' = Value (st_variant st1, h)" "st' = st1\<lparr>st_execution := h\<rparr>"
    "partially_verify_execution_payload V (state_slot st1) (bk_body b) st1 = Inr ()"
    by (auto simp: process_execution_payload_Inr put_payload_header_Inr)
  then show ?thesis using core same
    by (intro that [of payload' h]) (simp_all add: same_core_def latest_header_def)
qed

lemma accepted:
  assumes "calls_keep_core (be_calls V)"
    and "per_block_processing V sb strategy verify_root (st, c) = (Inr (), (st', c'))"
    and "capella_enabled (st_variant st)" and "st_variant st \<noteq> Gloas"
  shows "let b = sg_message sb; E = be_sizes V; s = be_spec V in
    bk_slot b = state_slot st \<and> bh_slot (latest_header st) < bk_slot b \<and>
    block_variant b = fork_name_at_slot (ss_eth E) s (bk_slot b) \<and> st_variant st = block_variant b \<and>
    (verify_root \<longrightarrow> bk_parent_root b = kx_header_root (be_calls V) (latest_header st)) \<and>
    (\<exists>payload. body_payload (bk_body b) = Inr payload \<and>
      payload_parent_hash payload = eh_block_hash (st_execution st) \<and>
      get_randao_mix E st (current_epoch E st) = Inr (payload_prev_randao payload) \<and>
      compute_timestamp_at_slot s (bk_slot b) st = Some (payload_timestamp payload) \<and>
      (\<forall>cs. body_commitments (bk_body b) = Inr cs \<longrightarrow> length cs \<le> unat (max_blobs_per_block_at s (epoch_of (ss_eth E) (bk_slot b)))) \<and>
      payload_to_header (be_hashes V) payload = Value (st_variant st, st_execution st')) \<and>
    (\<forall>p. bb_execution_payload (bk_body b) = Full p \<and> block_variant b = Daisugi \<longrightarrow>
      eh_recursive_stark_proof_root (st_execution st') = th_bytes (be_hashes V) (ep_recursive_stark_proof p) \<and>
      eh_recursive_stark_block_deps_hash (st_execution st') = ep_recursive_stark_block_deps_hash p) \<and>
    st_variant st' = st_variant st \<and> state_slot st' = state_slot st \<and>
    latest_header st' = temporary_block_header (be_roots V) b"
proof -
  let ?b = "sg_message sb" let ?E = "be_sizes V" let ?s = "be_spec V"
  obtain st1 st2 st3 where core1: "same_core st st1"
    and fork: "block_fork_name ?E ?s ?b = Inr (block_variant ?b)" "state_fork_name ?E ?s st = Inr (st_variant st)"
    and slot: "state_slot st = bk_slot ?b" and newer: "bh_slot (latest_header st) < bk_slot ?b"
    and root: "verify_root \<longrightarrow> bk_parent_root ?b = kx_header_root (be_calls V) (latest_header st)"
    and core2: "same_core (set_latest_header (be_caches V) (temporary_block_header (be_roots V) ?b) st1) st2"
    and payload: "\<exists>vs. process_payload V ?b vs st2 = (Inr (), st3)" and chain: "same_chain st3 st'"
    by (rule per_block_Inr [OF assms(1,2)])
  have keep: "st_variant st2 = st_variant st" "st_versioning st2 = st_versioning st" "st_execution st2 = st_execution st"
    "latest_header st2 = temporary_block_header (be_roots V) ?b" "bs_randao_mixes (st_mixes st2) = bs_randao_mixes (st_mixes st)"
    using core1 core2 by (simp_all add: same_core_def)
  have mix: "get_randao_mix ?E st2 (current_epoch ?E st2) = get_randao_mix ?E st (current_epoch ?E st)"
    by (simp add: get_randao_mix_def get_randao_mix_index_def epoch_index_def current_epoch_def keep)
  from payload obtain vs where "process_payload V ?b vs st2 = (Inr (), st3)" ..
  from process_payload_Inr [OF assms(1) this] assms(3,4) keep(1) obtain p h where
    core3: "same_core st2 (st3\<lparr>st_execution := st_execution st2\<rparr>)"
    and verify: "partially_verify_execution_payload V (state_slot st2) (bk_body ?b) st2 = Inr ()"
    and p: "body_payload (bk_body ?b) = Inr p" and h: "payload_to_header (be_hashes V) p = Value (st_variant st2, h)"
    and st3: "st_execution st3 = h"
    by metis
  have merged: "is_merge_transition_complete ?E st2"
    using assms(3) keep(1) by (simp add: is_merge_transition_complete_def fork_name_unchecked_def)
  note verified = verify [unfolded partially_verify_Inr]
  have final: "st_variant st' = st_variant st" "st_versioning st' = st_versioning st" "st_execution st' = h"
    "latest_header st' = temporary_block_header (be_roots V) ?b"
    using core3 chain keep st3 by (simp_all add: same_core_def same_chain_def latest_header_def)
  have variants: "block_variant ?b = fork_name_at_slot (ss_eth ?E) ?s (bk_slot ?b)" "st_variant st = block_variant ?b"
    using fork slot by (auto simp: block_fork_name_def state_fork_name_def fork_name_unchecked_def current_epoch_def
        fork_name_at_slot_def Let_def split: if_splits)
  have daisugi: "eh_recursive_stark_proof_root (st_execution st') = th_bytes (be_hashes V) (ep_recursive_stark_proof q) \<and>
      eh_recursive_stark_block_deps_hash (st_execution st') = ep_recursive_stark_block_deps_hash q"
    if "bb_execution_payload (bk_body ?b) = Full q" "block_variant ?b = Daisugi" for q
  proof -
    have "p = Full q" "ep_variant q = Daisugi"
      using p h that variants(2) keep(1)
      by (auto simp: body_payload_def step_simps execution_payload_header_from_def split: option.splits)
    then have "h = header_from_daisugi (be_hashes V) q"
      using h by (simp add: execution_payload_header_from_def header_from_def)
    then show ?thesis using final(3) by (simp add: header_from_daisugi_def)
  qed
  show ?thesis
    unfolding Let_def
  proof (intro conjI)
    show "\<exists>payload. body_payload (bk_body ?b) = Inr payload \<and>
      payload_parent_hash payload = eh_block_hash (st_execution st) \<and>
      get_randao_mix ?E st (current_epoch ?E st) = Inr (payload_prev_randao payload) \<and>
      compute_timestamp_at_slot ?s (bk_slot ?b) st = Some (payload_timestamp payload) \<and>
      (\<forall>cs. body_commitments (bk_body ?b) = Inr cs \<longrightarrow> length cs \<le> unat (max_blobs_per_block_at ?s (epoch_of (ss_eth ?E) (bk_slot ?b)))) \<and>
      payload_to_header (be_hashes V) payload = Value (st_variant st, st_execution st')"
      using verified p h merged mix keep final slot
      by (intro exI [of _ p]) (simp add: compute_timestamp_at_slot_def)
    show "st_variant st = block_variant ?b" by (rule variants)
  qed (use slot newer root variants daisugi final in auto)
qed

text \<open>
  C14. A block that is accepted on a state with payloads has the variant scheduled for its slot, which is
  the slot and the variant of the state; it is newer than the latest block and, where that is checked, its
  child. Its payload continues the payload of the state, with the mix of the epoch, the time of the slot and
  no more commitments than the limit. Afterwards the state has the header of the block and the header of
  the payload, in Daisugi with the root of the recursive proof and the dependency hash.\<close>

theorem accepted_block:
  assumes "calls_keep_core (be_calls V)"
    and "per_block_processing V sb strategy verify_root (st, c) = (Inr (), (st', c'))"
    and "capella_enabled (st_variant st)" and "st_variant st \<noteq> Gloas"
  shows "let b = sg_message sb; E = be_sizes V; s = be_spec V in
    bk_slot b = state_slot st \<and> bh_slot (latest_header st) < bk_slot b \<and>
    block_variant b = fork_name_at_slot (ss_eth E) s (bk_slot b) \<and> st_variant st = block_variant b \<and>
    (verify_root \<longrightarrow> bk_parent_root b = kx_header_root (be_calls V) (latest_header st)) \<and>
    (\<exists>payload. body_payload (bk_body b) = Inr payload \<and>
      payload_parent_hash payload = eh_block_hash (st_execution st) \<and>
      get_randao_mix E st (current_epoch E st) = Inr (payload_prev_randao payload) \<and>
      compute_timestamp_at_slot s (bk_slot b) st = Some (payload_timestamp payload) \<and>
      (\<forall>cs. body_commitments (bk_body b) = Inr cs \<longrightarrow> length cs \<le> unat (max_blobs_per_block_at s (epoch_of (ss_eth E) (bk_slot b)))) \<and>
      payload_to_header (be_hashes V) payload = Value (st_variant st, st_execution st')) \<and>
    (\<forall>p. bb_execution_payload (bk_body b) = Full p \<and> block_variant b = Daisugi \<longrightarrow>
      eh_recursive_stark_proof_root (st_execution st') = th_bytes (be_hashes V) (ep_recursive_stark_proof p) \<and>
      eh_recursive_stark_block_deps_hash (st_execution st') = ep_recursive_stark_block_deps_hash p) \<and>
    st_variant st' = st_variant st \<and> state_slot st' = state_slot st \<and>
    latest_header st' = temporary_block_header (be_roots V) b"
  by (rule accepted [OF assms])

end
