(* ===== verification/Genesis_Facts.thy ===== *)
theory Genesis_Facts
  imports Genesis Cache_Facts Block_Facts
begin

text \<open>
  The genesis state: its variant, fork, header and payload header agree with the schedule and with the
  genesis block, and the activation of validators.
\<close>

section \<open>What is relied on\<close>

text \<open>An upgrade accepts the state of the fork before, keeps the slot and the header of the latest block, and
  records the change of version.\<close>

definition genesis_upgrades ::
  "state_spec \<Rightarrow> chain_spec \<Rightarrow> ('o beacon_state, 'e, unit) step \<Rightarrow> fork_name \<Rightarrow> bool" where
  "genesis_upgrades E s m f \<longleftrightarrow> (\<forall>st x st'. m st = (Inr x, st') \<longrightarrow>
     previous_fork f = Some (st_variant st) \<and> st_variant st' = f \<and> state_slot st' = state_slot st \<and>
     latest_header st' = latest_header st \<and>
     bs_fork (st_versioning st') = \<lparr>fk_previous_version = fk_current_version (bs_fork (st_versioning st)),
       fk_current_version = fork_version_for_name s f, fk_epoch = current_epoch E st\<rparr>)"

definition genesis_lawful :: "('o, 't, 'm, 'k) genesis_env \<Rightarrow> bool" where
  "genesis_lawful G \<longleftrightarrow> gx_genesis_epoch (ge_calls G) = 0 \<and>
     (\<forall>d st r st'. gx_apply_deposit (ge_calls G) (ge_spec G) d st = (r, st') \<longrightarrow> same_chain st st') \<and>
     (\<forall>f. f \<noteq> Daisugi \<longrightarrow> genesis_upgrades (ge_sizes G) (ge_spec G) (genesis_upgrade G f) f)"

lemma genesis_epoch_zero: "genesis_lawful G \<Longrightarrow> gx_genesis_epoch (ge_calls G) = 0"
  by (simp add: genesis_lawful_def)

lemma genesis_upgrade_lawful:
  assumes "genesis_lawful G"
  shows "genesis_upgrades (ge_sizes G) (ge_spec G) (genesis_upgrade G f) f"
proof (cases "f = Daisugi")
  case True
  then show ?thesis
    by (auto simp: genesis_upgrades_def genesis_upgrade_def upgrade_to_def upgrade_to_daisugi_eq step_simps daisugi_state_def
        latest_header_def fork_version_for_name_def split: if_splits)
next
  case False
  then show ?thesis using assms by (simp add: genesis_lawful_def)
qed

section \<open>Forks at genesis\<close>

text \<open>The genesis state so far: of one fork, at the genesis slot, and with the header of the genesis block.\<close>

definition genesis_so_far :: "('o, 't, 'm, 'k) genesis_env \<Rightarrow> 'o block \<Rightarrow> 'o beacon_state \<Rightarrow> bool" where
  "genesis_so_far G block st \<longleftrightarrow>
     state_slot st = genesis_slot (sp_constants (ge_spec G)) \<and>
     (let v = fork_version_for_name (ge_spec G) (st_variant st) in
      bs_fork (st_versioning st) = \<lparr>fk_previous_version = v, fk_current_version = v, fk_epoch = 0\<rparr>) \<and>
     (st_variant st \<noteq> Gloas \<longrightarrow> latest_header st = temporary_block_header (ge_roots G) block) \<and>
     (st_variant st = Gloas \<longrightarrow> (\<exists>b. genesis_block G st = Value (Inr b) \<and> latest_header st = temporary_block_header (ge_roots G) b))"

lemma at_genesis:
  assumes "genesis_slot (sp_constants s) = 0" and "state_slot st = genesis_slot (sp_constants s)"
  shows "current_epoch E st = 0"
  using assms by (simp add: current_epoch_def epoch_of_def)

lemma genesis_variant: "fork_epoch s f = Some 0 \<Longrightarrow> f \<le> fork_name_at_epoch s 0"
  using active_latest by blast

lemma gloas_greatest: "f \<le> Gloas"
  by (cases f) (simp_all add: fork_order)

lemma empty_block_variant: "empty_block E V s = Value b \<Longrightarrow> block_variant b = fork_name_at_epoch s 0"
  by (auto simp: empty_block_def empty_block_at_def empty_body_def obind_Value)

lemma genesis_block_empty:
  assumes "empty_block (ge_sizes G) (ge_empty G) (ge_spec G) = Value block"
  shows "genesis_block G st = Value (if block_variant block = Gloas then
      rbind (gloas_field st bs_latest_execution_payload_bid) (\<lambda>bid.
      Inr (block\<lparr>bk_body := (bk_body block)\<lparr>bb_signed_execution_payload_bid :=
        (bb_signed_execution_payload_bid (bk_body block))\<lparr>sb_message := bid\<rparr>\<rparr>\<rparr>))
    else Inr block)"
  using assms by (simp add: genesis_block_def)

lemma body_root_header: "temporary_block_header R (b\<lparr>bk_body := body\<rparr>) = (temporary_block_header R b)\<lparr>bh_body_root := body_root R body\<rparr>"
  by (simp add: temporary_block_header_def block_header_of_def)

lemma genesis_bid_Inr:
  assumes block: "empty_block (ge_sizes G) (ge_empty G) (ge_spec G) = Value block" "block_variant block = Gloas"
    and bid: "genesis_bid G st = (Inr (), st')" and header: "latest_header st = temporary_block_header (ge_roots G) block"
  shows "st_variant st' = st_variant st \<and> st_versioning st' = st_versioning st \<and>
    (\<exists>b. genesis_block G st' = Value (Inr b) \<and> latest_header st' = temporary_block_header (ge_roots G) b)"
  using bid header
  by (auto simp: genesis_bid_def step_simps genesis_block_empty [OF block(1)] block(2) set_body_root_def latest_header_def
      body_root_header set_gloas_def rbind_Inr)

lemma genesis_fork_Inr:
  assumes lawful: "genesis_lawful G" and slot: "genesis_slot (sp_constants (ge_spec G)) = 0"
    and block: "empty_block (ge_sizes G) (ge_empty G) (ge_spec G) = Value block"
    and so_far: "genesis_so_far G block st" and fork: "genesis_fork G header f st = (Inr (), st')"
  shows "genesis_so_far G block st' \<and>
    (if fork_epoch (ge_spec G) f = Some 0
     then st_variant st < f \<and> st_variant st' = f \<and> (\<forall>h. header = Some (f, h) \<and> has_payload f \<longrightarrow> st_execution st' = h)
     else st' = st)"
proof (cases "fork_epoch (ge_spec G) f = Some 0")
  case False
  then show ?thesis using fork so_far by (simp add: genesis_fork_def genesis_epoch_zero [OF lawful] step_simps)
next
  case True
  then obtain st1 st2 where st1: "genesis_upgrade G f st = (Inr (), st1)"
    and st2: "(if f = Electra then renew_sync_committees G else step_get (\<lambda>_. Inr ()))
      (set_previous_version (fork_version_for_name (ge_spec G) f) st1) = (Inr (), st2)"
    and st': "(if f = Gloas then genesis_bid G else override_header header f) st2 = (Inr (), st')"
    using fork by (auto simp: genesis_fork_def genesis_epoch_zero [OF lawful] step_simps)
  have up: "previous_fork f = Some (st_variant st)" "st_variant st1 = f" "state_slot st1 = state_slot st"
    "latest_header st1 = latest_header st"
    "fk_current_version (bs_fork (st_versioning st1)) = fork_version_for_name (ge_spec G) f"
    "fk_epoch (bs_fork (st_versioning st1)) = 0"
    using genesis_upgrade_lawful [OF lawful, of f] st1 so_far at_genesis [OF slot, of st "ge_sizes G"]
    unfolding genesis_upgrades_def genesis_so_far_def by (metis fork.select_convs)+
  have less: "st_variant st < f" using up(1) previous_less by blast
  then have "st_variant st \<noteq> Gloas" using gloas_greatest [of f] by auto
  then have header1: "latest_header st1 = temporary_block_header (ge_roots G) block"
    using so_far up(4) by (simp add: genesis_so_far_def)
  let ?v = "fork_version_for_name (ge_spec G) f"
  have two: "st_variant st2 = f" "state_slot st2 = state_slot st" "latest_header st2 = temporary_block_header (ge_roots G) block"
    "bs_fork (st_versioning st2) = \<lparr>fk_previous_version = ?v, fk_current_version = ?v, fk_epoch = 0\<rparr>"
    using st2 up header1
    by (auto simp: renew_sync_committees_def step_simps set_previous_version_def latest_header_def rbind_Inr split: if_splits)
  show ?thesis
  proof (cases "f = Gloas")
    case gloas: True
    then have "block_variant block = Gloas"
      using empty_block_variant [OF block] genesis_variant [OF True] gloas_greatest by (metis order_antisym)
    moreover have "genesis_bid G st2 = (Inr (), st')" using st' gloas by simp
    ultimately show ?thesis using genesis_bid_Inr [OF block] two so_far True less gloas
      by (auto simp: genesis_so_far_def has_payload_def Let_def)
  next
    case False
    then have st': "override_header header f st2 = (Inr (), st')" using st' by simp
    have "st' = st2 \<or> (\<exists>h. st' = st2\<lparr>st_execution := h\<rparr>)"
      using st' by (auto simp: override_header_def step_simps rbind_Inr split: option.splits if_splits)
    moreover have "st_execution st' = h" if "header = Some (f, h)" "has_payload f" for h
      using st' that by (auto simp: override_header_def step_simps rbind_Inr)
    ultimately show ?thesis using two so_far True less False
      by (auto simp: genesis_so_far_def Let_def latest_header_def)
  qed
qed

lemma genesis_forks_Inr:
  assumes lawful: "genesis_lawful G" and slot: "genesis_slot (sp_constants (ge_spec G)) = 0"
    and block: "empty_block (ge_sizes G) (ge_empty G) (ge_spec G) = Value block"
    and "genesis_so_far G block st" and "sorted_wrt (<) fs" and "genesis_forks G header fs st = (Inr (), st')"
  shows "genesis_so_far G block st' \<and> last_activated (ge_spec G) 0 fs (st_variant st) (st_variant st') \<and>
    (st_variant st' = st_variant st \<longrightarrow> st' = st) \<and>
    (\<forall>h. header = Some (st_variant st', h) \<and> has_payload (st_variant st') \<and> st_variant st' \<noteq> st_variant st \<longrightarrow> st_execution st' = h)"
  using assms(4-6)
proof (induction fs arbitrary: st)
  case (Cons f fs)
  then obtain st1 where st1: "genesis_fork G header f st = (Inr (), st1)" "genesis_forks G header fs st1 = (Inr (), st')"
    by (auto simp: step_simps)
  note one = genesis_fork_Inr [OF lawful slot block Cons.prems(1) st1(1)]
  have "sorted_wrt (<) fs" using Cons.prems(2) by simp
  note rest = Cons.IH [OF one [THEN conjunct1] this st1(2)]
  show ?case
  proof (cases "fork_epoch (ge_spec G) f = Some 0")
    case True
    then have "st_variant st < f" "st_variant st1 = f" "f \<le> st_variant st'"
      using one rest by (auto simp: last_activated_def)
    moreover have "\<forall>h. header = Some (f, h) \<and> has_payload f \<longrightarrow> st_execution st1 = h" using one True by auto
    ultimately show ?thesis using rest True Cons.prems(2)
      by (cases "st_variant st' = f") (auto simp: last_activated_def)
  next
    case False
    then have "st1 = st" using one by simp
    then show ?thesis using rest False Cons.prems(2) by (auto simp: last_activated_def)
  qed
qed (simp add: step_simps last_activated_def)

lemma last_activated_genesis:
  assumes "last_activated s 0 upgrade_order Base g"
  shows "g = fork_name_at_epoch s 0"
proof (rule order_antisym)
  have base: "fork_epoch s Base = Some 0" by (simp add: fork_epoch_def)
  show "g \<le> fork_name_at_epoch s 0"
    using assms base genesis_variant by (auto simp: last_activated_def)
  obtain b where "fork_epoch s (fork_name_at_epoch s 0) = Some b" "b \<le> 0" using active_fork by blast
  then have "fork_epoch s (fork_name_at_epoch s 0) = Some 0" by simp
  then show "fork_name_at_epoch s 0 \<le> g"
    using assms in_upgrade_order [of "fork_name_at_epoch s 0"] unfolding last_activated_def
    by (cases "fork_name_at_epoch s 0 = Base") auto
qed

section \<open>The genesis state\<close>

lemma apply_deposits_chain:
  assumes "genesis_lawful G"
  shows "apply_deposits (ge_calls G) (ge_spec G) tree ds st = (Inr (), st') \<Longrightarrow> same_chain st st'"
proof (induction ds arbitrary: tree st)
  case (Cons d ds)
  then obtain t st1 where "gx_apply_deposit (ge_calls G) (ge_spec G) d (set_deposit_root t st) = (Inr (), st1)"
    and rest: "\<exists>t. apply_deposits (ge_calls G) (ge_spec G) t ds st1 = (Inr (), st')"
    by (auto simp: step_simps)
  moreover have "same_chain st (set_deposit_root t st)" by (simp add: set_deposit_root_def same_chain_def latest_header_def)
  ultimately show ?case using Cons.IH assms unfolding genesis_lawful_def by (metis same_chain_trans)
qed (simp add: step_simps same_chain_def)

lemma process_activations_chain: "process_activations s e st = (r, st') \<Longrightarrow> same_chain st st'"
  by (auto simp: process_activations_def same_chain_def latest_header_def split: prod.splits)

lemma so_far_chain: "genesis_so_far G block st \<Longrightarrow> same_chain st st' \<Longrightarrow> st_variant st \<noteq> Gloas \<Longrightarrow> genesis_so_far G block st'"
  by (simp add: genesis_so_far_def same_chain_def)

lemma new_state_so_far:
  assumes "genesis_lawful G" and "new_state G t d = Value st"
  obtains block where "empty_block (ge_sizes G) (ge_empty G) (ge_spec G) = Value block" and "genesis_so_far G block st"
    and "st_variant st = Base"
  using assms by (auto simp: new_state_def Let_def obind_Value genesis_so_far_def fork_version_for_name_def latest_header_def
      genesis_lawful_def)

lemma empty_block_slot:
  assumes "empty_block E V s = Value b" and "genesis_slot (sp_constants s) = 0"
  shows "bk_slot b = 0"
proof -
  obtain a where "fork_epoch s (fork_name_at_epoch s 0) = Some a" "a \<le> 0" using active_fork by blast
  then show ?thesis using assms
    by (auto simp: empty_block_def empty_block_at_def empty_slot_def obind_Value start_slot_def sat_mul_def expect_def
        split: if_splits)
qed

lemma initialize_Inr:
  assumes "initialize_beacon_state_from_eth1 G block_hash timestamp deposits header = Inr st"
  obtains t state where "new_state G t \<lparr>e1_deposit_root = replicate 32 0, e1_deposit_count = of_nat (length deposits),
      e1_block_hash = block_hash\<rparr> = Value state"
    and "step_bind (apply_deposits (ge_calls G) (ge_spec G) (gx_tree_new (ge_calls G)) deposits) (\<lambda>_.
        step_bind (step_err BPE_State (process_activations (ge_spec G) (gx_genesis_epoch (ge_calls G)))) (\<lambda>_.
        step_bind (genesis_forks G header upgrade_order) (\<lambda>_. finish_genesis G)))
      (fill_randao_mixes_with (ge_sizes G) block_hash state) = (Inr (), st)"
proof -
  let ?d = "\<lparr>e1_deposit_root = replicate 32 0, e1_deposit_count = of_nat (length deposits), e1_block_hash = block_hash\<rparr>"
  let ?m = "step_bind (apply_deposits (ge_calls G) (ge_spec G) (gx_tree_new (ge_calls G)) deposits) (\<lambda>_.
        step_bind (step_err BPE_State (process_activations (ge_spec G) (gx_genesis_epoch (ge_calls G)))) (\<lambda>_.
        step_bind (genesis_forks G header upgrade_order) (\<lambda>_. finish_genesis G)))"
  obtain t where t: "(case new_state G t ?d of Crash \<Rightarrow> Inl BPE_Panic
     | Value state \<Rightarrow> (let (r, st) = ?m (fill_randao_mixes_with (ge_sizes G) block_hash state) in rbind r (\<lambda>_. Inr st))) = Inr st"
    using assms by (auto simp: initialize_beacon_state_from_eth1_def rbind_Inr Let_def)
  show thesis
  proof (cases "new_state G t ?d")
    case (Value state)
    then have "?m (fill_randao_mixes_with (ge_sizes G) block_hash state) = (Inr (), st)"
      using t by (cases "?m (fill_randao_mixes_with (ge_sizes G) block_hash state)") (auto simp: rbind_Inr)
    with Value show thesis by (rule that)
  qed (use t in simp)
qed

text \<open>
  C17. The genesis state agrees with the schedule and with the genesis block. It is at slot 0 in the variant
  scheduled for the first epoch, with the version of that fork as the previous and the current version; its
  latest header is the header of the genesis block, which is of the same variant and slot, in every fork;
  and it has the payload header it was given when that is of its variant.\<close>

theorem genesis_consistent:
  assumes lawful: "genesis_lawful G" and slot: "genesis_slot (sp_constants (ge_spec G)) = 0"
    and init: "initialize_beacon_state_from_eth1 G block_hash timestamp deposits header = Inr st"
  shows "let s = ge_spec G; f = fork_name_at_epoch s 0; v = fork_version_for_name s f in
    st_variant st = f \<and> state_slot st = 0 \<and>
    bs_fork (st_versioning st) = \<lparr>fk_previous_version = v, fk_current_version = v, fk_epoch = 0\<rparr> \<and>
    (\<exists>b. genesis_block G st = Value (Inr b) \<and> latest_header st = temporary_block_header (ge_roots G) b \<and>
       bk_slot b = 0 \<and> block_fork_name (ge_sizes G) s b = Inr f) \<and>
    (\<forall>h. header = Some (f, h) \<and> has_payload f \<longrightarrow> st_execution st = h)"
proof -
  let ?s = "ge_spec G" let ?K = "ge_calls G"
  from init obtain t state st1 st2 st3 where
    state: "new_state G t \<lparr>e1_deposit_root = replicate 32 0, e1_deposit_count = of_nat (length deposits), e1_block_hash = block_hash\<rparr> = Value state"
    and st1: "apply_deposits ?K ?s (gx_tree_new ?K) deposits (fill_randao_mixes_with (ge_sizes G) block_hash state) = (Inr (), st1)"
    and st2: "process_activations ?s (gx_genesis_epoch ?K) st1 = (Inr (), st2)" and st3: "genesis_forks G header upgrade_order st2 = (Inr (), st3)"
    and st: "finish_genesis G st3 = (Inr (), st)"
    by (rule initialize_Inr) (auto simp: step_simps)
  obtain block where block: "empty_block (ge_sizes G) (ge_empty G) ?s = Value block" and so_far: "genesis_so_far G block state"
    and base: "st_variant state = Base"
    by (rule new_state_so_far [OF lawful state])
  have "same_chain state (fill_randao_mixes_with (ge_sizes G) block_hash state)"
    by (simp add: fill_randao_mixes_with_def same_chain_def latest_header_def)
  then have chain: "same_chain state st2"
    using apply_deposits_chain [OF lawful st1] process_activations_chain [OF st2] same_chain_trans by blast
  then have so_far2: "genesis_so_far G block st2" and base2: "st_variant st2 = Base"
    using so_far_chain [OF so_far] base by (auto simp: same_chain_def)
  note forks = genesis_forks_Inr [OF lawful slot block so_far2 upgrade_order_sorted st3]
  have variant: "st_variant st3 = fork_name_at_epoch ?s 0"
    using forks base2 last_activated_genesis by metis
  from st obtain st4 r where "build_caches (ge_caches G) (ge_sizes G) ?s st3 = (Inr (), st4)"
    and st: "st = st4\<lparr>st_versioning := (st_versioning st4)\<lparr>bs_genesis_validators_root := r\<rparr>\<rparr>"
    by (auto simp: finish_genesis_def step_simps)
  then obtain c where st4: "st4 = st3\<lparr>st_caches := c\<rparr>"
    using keepsD [OF build_caches_same] same_but_cachesE by blast
  have same: "st_variant st = st_variant st3" "state_slot st = state_slot st3" "latest_header st = latest_header st3"
    "st_execution st = st_execution st3" "bs_fork (st_versioning st) = bs_fork (st_versioning st3)"
    "st_gloas st = st_gloas st3"
    by (simp_all add: st st4 latest_header_def)
  have gb: "genesis_block G st = genesis_block G st3" by (simp only: genesis_block_def same)
  have bv: "block_variant block = fork_name_at_epoch ?s 0" "bk_slot block = 0"
    using empty_block_variant [OF block] empty_block_slot [OF block slot] by simp_all
  have "\<exists>b. genesis_block G st3 = Value (Inr b) \<and> latest_header st3 = temporary_block_header (ge_roots G) b"
    using forks variant bv(1) by (auto simp: genesis_so_far_def genesis_block_empty [OF block])
  then obtain b where b: "genesis_block G st3 = Value (Inr b)" "latest_header st3 = temporary_block_header (ge_roots G) b" by blast
  then have b': "bk_slot b = 0" "block_variant b = fork_name_at_epoch ?s 0"
    using bv by (auto simp: genesis_block_empty [OF block] rbind_Inr split: if_splits)
  have "block_fork_name (ge_sizes G) ?s b = Inr (fork_name_at_epoch ?s 0)"
    by (simp add: block_fork_name_def b' fork_name_at_slot_def epoch_of_def Let_def)
  then show ?thesis
    using forks variant b b' slot unfolding Let_def same gb
    by (auto simp: genesis_so_far_def base2 has_payload_def Let_def)
qed

section \<open>Activation\<close>

text \<open>The effective balance of a validator at genesis, as a number.\<close>

definition genesis_effective :: "chain_spec \<Rightarrow> u64 \<Rightarrow> nat" where
  "genesis_effective s b = (let inc = unat (effective_balance_increment (sp_gwei s)) in
     min (unat b div inc * inc) (unat (max_effective_balance (sp_gwei s))))"

lemma activate_validator_eq: "activate_validator s genesis b v =
    (if effective_balance_increment (sp_gwei s) = 0 then Inl BSE_Arith
     else Inr (let e = of_nat (genesis_effective s b); v = v\<lparr>va_effective_balance := e\<rparr> in
       if e = max_effective_balance (sp_gwei s) then v\<lparr>va_activation_eligibility_epoch := genesis, va_activation_epoch := genesis\<rparr> else v))"
proof (cases "effective_balance_increment (sp_gwei s) = 0")
  case True
  then show ?thesis by (simp add: activate_validator_def safe_rem_def ok_or_def)
next
  case False
  let ?inc = "effective_balance_increment (sp_gwei s)" let ?max = "max_effective_balance (sp_gwei s)"
  have le: "b mod ?inc \<le> b" by (simp add: word_le_nat_alt unat_mod)
  have "unat (b - b mod ?inc) = unat b div unat ?inc * unat ?inc"
    unfolding unat_sub [OF le] unat_mod by (rule minus_mod_eq_div_mult)
  then have "unat (min (b - b mod ?inc) ?max) = genesis_effective s b"
    by (simp add: genesis_effective_def Let_def min_def word_le_nat_alt)
  then have "of_nat (unat (min (b - b mod ?inc) ?max)) = (of_nat (genesis_effective s b) :: u64)" by simp
  then have "min (b - b mod ?inc) ?max = of_nat (genesis_effective s b)" by simp
  then show ?thesis using False le
    by (simp add: activate_validator_def safe_rem_def safe_sub_def ok_or_def Let_def)
qed

lemma genesis_effective_bounds: "genesis_effective s b \<le> unat b" "genesis_effective s b \<le> unat (max_effective_balance (sp_gwei s))"
  by (simp_all add: genesis_effective_def Let_def min.coboundedI1 div_times_less_eq_dividend)

lemma activate_validators_Inr:
  assumes "activate_validators s genesis bs i vs = (Inr (), vs')"
  shows "length vs' = length vs \<and> i + length vs \<le> max i (length bs) \<and>
    (\<forall>k < length vs. activate_validator s genesis (bs ! (i + k)) (vs ! k) = Inr (vs' ! k))"
  using assms
proof (induction vs arbitrary: i vs')
  case (Cons v vs)
  from Cons.prems obtain v1 vs1 where v1: "i < length bs" "activate_validator s genesis (bs ! i) v = Inr v1"
    and vs1: "activate_validators s genesis bs (i + 1) vs = (Inr (), vs1)" "vs' = v1 # vs1"
    by (auto simp: rbind_Inr list_get_def ok_or_def split: sum.splits prod.splits if_splits)
  have rest: "length vs1 = length vs \<and> i + 1 + length vs \<le> max (i + 1) (length bs) \<and>
      (\<forall>k < length vs. activate_validator s genesis (bs ! (i + 1 + k)) (vs ! k) = Inr (vs1 ! k))"
    by (rule Cons.IH [OF vs1(1)])
  have "activate_validator s genesis (bs ! (i + k)) ((v # vs) ! k) = Inr (vs' ! k)" if "k < length (v # vs)" for k
    using that v1 rest by (cases k) (auto simp: vs1(2))
  then show ?case using rest v1(1) by (auto simp: vs1(2))
qed simp

text \<open>
  Activation gives every validator the effective balance of its balance, rounded down to a multiple of
  the increment and cut at the largest one, so never more than the balance; a validator is activated exactly
  when it reaches the largest one, and nothing else of it and of the state changes. It needs a balance for
  every validator.\<close>

theorem activation_exact:
  assumes "process_activations s genesis st = (Inr (), st')"
  shows "let vs = bs_validators (st_registry st); vs' = bs_validators (st_registry st'); bs = bs_balances (st_registry st) in
    st' = st\<lparr>st_registry := (st_registry st)\<lparr>bs_validators := vs'\<rparr>\<rparr> \<and> length vs' = length vs \<and> length vs \<le> length bs \<and>
    (\<forall>k < length vs. unat (va_effective_balance (vs' ! k)) = genesis_effective s (bs ! k) \<and>
       va_effective_balance (vs' ! k) \<le> bs ! k \<and>
       (let v = (vs ! k)\<lparr>va_effective_balance := va_effective_balance (vs' ! k)\<rparr> in
        vs' ! k = (if va_effective_balance (vs' ! k) = max_effective_balance (sp_gwei s)
          then v\<lparr>va_activation_eligibility_epoch := genesis, va_activation_epoch := genesis\<rparr> else v)))"
proof -
  let ?vs = "bs_validators (st_registry st)" let ?bs = "bs_balances (st_registry st)"
  obtain vs' where vs': "activate_validators s genesis ?bs 0 ?vs = (Inr (), vs')"
    and st': "st' = st\<lparr>st_registry := (st_registry st)\<lparr>bs_validators := vs'\<rparr>\<rparr>"
    using assms by (auto simp: process_activations_def split: prod.splits)
  note all = activate_validators_Inr [OF vs']
  have each: "unat (va_effective_balance (vs' ! k)) = genesis_effective s (?bs ! k) \<and>
      va_effective_balance (vs' ! k) \<le> ?bs ! k \<and>
       (let v = (?vs ! k)\<lparr>va_effective_balance := va_effective_balance (vs' ! k)\<rparr> in
        vs' ! k = (if va_effective_balance (vs' ! k) = max_effective_balance (sp_gwei s)
          then v\<lparr>va_activation_eligibility_epoch := genesis, va_activation_epoch := genesis\<rparr> else v))" if "k < length ?vs" for k
  proof -
    let ?e = "of_nat (genesis_effective s (?bs ! k)) :: u64"
    have "activate_validator s genesis (?bs ! k) (?vs ! k) = Inr (vs' ! k)" using all that by simp
    then have v: "vs' ! k = (let v = (?vs ! k)\<lparr>va_effective_balance := ?e\<rparr> in
        if ?e = max_effective_balance (sp_gwei s) then v\<lparr>va_activation_eligibility_epoch := genesis, va_activation_epoch := genesis\<rparr> else v)"
      by (auto simp: activate_validator_eq Let_def split: if_splits)
    have "genesis_effective s (?bs ! k) < 2 ^ 64"
    proof -
      have "unat (?bs ! k) < 2 ^ 64" using unsigned_less [of "?bs ! k"] by simp
      then show ?thesis using genesis_effective_bounds(1) [of s "?bs ! k"] by linarith
    qed
    then have e: "unat ?e = genesis_effective s (?bs ! k)" by (simp add: unat_of_nat)
    then have "?e \<le> ?bs ! k" using genesis_effective_bounds(1) by (simp add: word_le_nat_alt)
    then show ?thesis using v e by (auto simp: Let_def)
  qed
  show ?thesis using all each by (simp add: Let_def st')
qed

end
