(* ===== verification/Chain_Runs.thy ===== *)
theory Chain_Runs
  imports Block_Facts
begin

text \<open>
  Runs of a chain: slots and accepted blocks in any order. The locale \<open>slot_relation\<close> carries a relation
  between the states before and after through all parts of a slot; it is interpreted for the payload hash
  and the latest header. A run keeps the variant of the fork schedule, has at most one block in a slot, and
  its payloads form a chain of hashes, also across the upgrade to Daisugi.
\<close>

section \<open>Relations kept by a slot\<close>

locale slot_relation =
  fixes X :: "('o, 'm) slot_externals" and s :: chain_spec
    and P :: "'o beacon_state \<Rightarrow> 'o beacon_state \<Rightarrow> bool"
  assumes refl: "P st st" and trans: "P st st1 \<Longrightarrow> P st1 st2 \<Longrightarrow> P st st2"
    and slot: "P st (set_slot sl st)"
    and state_root: "set_state_root sl r st = Inr st1 \<Longrightarrow> P st st1"
    and block_root: "set_block_root sl r st = Inr st1 \<Longrightarrow> P st st1"
    and fill: "P st (fill_header_root r st)"
    and availability: "unset_next_availability E st = (Inr (), st1) \<Longrightarrow> P st st1"
    and epoch: "sx_epoch_processing X s st = (Inr m, st1) \<Longrightarrow> P st st1"
    and upgrade: "upgrade_to X E s f st = (Inr (), st1) \<Longrightarrow> P st st1"
    and caches: "sx_build_caches X s st = (Inr (), st1) \<Longrightarrow> P st st1"
begin

lemma cache:
  assumes "cache_state X known st = (Inr (), st')"
  shows "P st st'"
proof -
  obtain r st1 st2 where "set_state_root (state_slot st) r (set_slot (state_slot st + 1) st) = Inr st1"
    and "set_block_root (state_slot st) (sx_header_root X (bs_latest_block_header (st_history (fill_header_root r st1))))
      (fill_header_root r st1) = Inr st2"
    and st': "st' = set_slot (state_slot st2 - 1) st2"
    using assms unfolding cache_state_Inr by blast
  from trans [OF trans [OF trans [OF trans [OF slot state_root [OF this(1)]] fill] block_root [OF this(2)]] slot]
  show ?thesis unfolding st' .
qed

lemma upgrades: "run_upgrades X E s fs st = (Inr (), st') \<Longrightarrow> P st st'"
proof (induction fs arbitrary: st)
  case (Cons f fs)
  then obtain st1 where "maybe_upgrade X E s f st = (Inr (), st1)" "run_upgrades X E s fs st1 = (Inr (), st')"
    by (auto simp: step_simps)
  then show ?case using Cons.IH upgrade
    by (fastforce simp: maybe_upgrade_def step_err_Inr intro: trans split: if_splits)
qed (simp add: step_simps refl)

lemma per_slot:
  assumes "per_slot_processing X E s known st = (Inr summary, st')"
  shows "P st st'"
proof -
  obtain st1 ends st2 st3 starts where
    st1: "cache_state X known st = (Inr (), st1)"
    and st2: "(if ends then step_bind (step_err SE_Epoch (sx_epoch_processing X s)) (\<lambda>m. step_get (\<lambda>st. Inr (Some m)))
      else step_get (\<lambda>st. Inr None)) st1 = (Inr summary, st2)"
    and st3: "unset_next_availability E st2 = (Inr (), st3)"
    and last: "(if starts then step_bind (run_upgrades X E s upgrade_order) (\<lambda>_. step_err SE_State (sx_build_caches X s))
      else step_get (\<lambda>st. Inr ())) (set_slot (state_slot st3 + 1) st3) = (Inr (), st')"
    using assms unfolding per_slot_processing_def step_simps by auto
  have "P st1 st2" using st2 by (auto simp: step_simps intro: epoch refl split: if_splits)
  moreover have "P (set_slot (state_slot st3 + 1) st3) st'"
    using last by (auto simp: step_simps intro: trans upgrades caches refl split: if_splits)
  ultimately show ?thesis using trans [OF trans [OF trans [OF cache [OF st1] _] availability [OF st3]] trans [OF slot]] by blast
qed

end

text \<open>What a slot keeps of the chain: the variant never goes back, the latest header keeps its slot, and the
  payload hash stays as long as there is one.\<close>

definition chain_kept :: "'o beacon_state \<Rightarrow> 'o beacon_state \<Rightarrow> bool" where
  "chain_kept st st' \<longleftrightarrow> st_variant st \<le> st_variant st' \<and>
     bh_slot (latest_header st') = bh_slot (latest_header st) \<and>
     (capella_enabled (st_variant st) \<and> st_variant st' \<noteq> Gloas \<longrightarrow>
       eh_block_hash (st_execution st') = eh_block_hash (st_execution st))"

text \<open>What is relied on: epoch processing, the caches and the other upgrades keep the chain.\<close>

definition slots_keep_chain :: "('o, 'm) slot_externals \<Rightarrow> chain_spec \<Rightarrow> bool" where
  "slots_keep_chain X s \<longleftrightarrow>
     (\<forall>st m st'. sx_epoch_processing X s st = (Inr m, st') \<longrightarrow> chain_kept st st') \<and>
     (\<forall>st st'. sx_build_caches X s st = (Inr (), st') \<longrightarrow> chain_kept st st') \<and>
     (\<forall>f st st'. f \<noteq> Daisugi \<longrightarrow> sx_upgrade X f s st = (Inr (), st') \<longrightarrow> chain_kept st st')"

lemma chain_kept_trans: "chain_kept st st1 \<Longrightarrow> chain_kept st1 st2 \<Longrightarrow> chain_kept st st2"
proof -
  assume k: "chain_kept st st1" "chain_kept st1 st2"
  have "st_variant st1 = Gloas \<Longrightarrow> st_variant st2 = Gloas"
    using k by (cases "st_variant st2") (auto simp: chain_kept_def fork_order)
  then show ?thesis using k by (auto simp: chain_kept_def enabled_defs)
qed

lemma chain_kept_same: "st_variant st' = st_variant st \<Longrightarrow> bh_slot (latest_header st') = bh_slot (latest_header st) \<Longrightarrow>
    st_execution st' = st_execution st \<Longrightarrow> chain_kept st st'"
  by (simp add: chain_kept_def)

interpretation kept: slot_relation X s "\<lambda>st st'. slots_keep_chain X s \<longrightarrow> chain_kept st st'"
  for X :: "('o, 'm) slot_externals" and s
proof unfold_locales
  fix E and f :: fork_name and st st1 :: "'o beacon_state"
  assume "upgrade_to X E s f st = (Inr (), st1)"
  then show "slots_keep_chain X s \<longrightarrow> chain_kept st st1"
    by (auto simp: upgrade_to_def slots_keep_chain_def upgrade_to_daisugi_eq chain_kept_def daisugi_state_def
        upgrade_header_to_daisugi_def latest_header_def fork_order split: if_splits)
qed (auto simp: slots_keep_chain_def set_slot_def latest_header_def set_state_root_def set_block_root_def rbind_Inr
      fill_header_root_def unset_next_availability_def step_simps Let_def
      intro: chain_kept_same chain_kept_trans split: if_splits option.splits)

section \<open>Runs\<close>

inductive chain_run ::
  "('o, 'm) slot_externals \<Rightarrow> ('o, 'c) block_env \<Rightarrow> 'o beacon_state \<Rightarrow> 'o signed_block list \<Rightarrow> 'o beacon_state \<Rightarrow> bool"
  for X V st where
  start: "chain_run X V st [] st"
| slot: "chain_run X V st bs st1 \<Longrightarrow> per_slot_processing X (be_sizes V) (be_spec V) known st1 = (Inr summary, st2) \<Longrightarrow>
    chain_run X V st bs st2"
| block: "chain_run X V st bs st1 \<Longrightarrow> per_block_processing V sb strategy True (st1, c) = (Inr (), (st2, c')) \<Longrightarrow>
    chain_run X V st (bs @ [sb]) st2"

lemma process_payload_keeps:
  assumes "calls_keep_core (be_calls V)" and "process_payload V b vs st = (Inr (), st')"
  shows "st_variant st' = st_variant st \<and> st_versioning st' = st_versioning st"
proof -
  have pay: "same_core st1 st2 \<Longrightarrow> process_execution_payload V (bk_body b) st2 = (Inr (), st3) \<Longrightarrow>
      st_variant st3 = st_variant st1 \<and> st_versioning st3 = st_versioning st1" for st1 st2 st3
    by (auto simp: process_execution_payload_Inr put_payload_header_Inr same_core_def)
  have bid: "same_core st1 st2 \<Longrightarrow> process_execution_payload_bid V b vs st2 = (Inr (), st3) \<Longrightarrow>
      st_variant st3 = st_variant st1 \<and> st_versioning st3 = st_versioning st1" for st1 st2 st3
    using keeps_coreD [OF process_bid_core] by (fastforce simp: same_core_def)
  show ?thesis
    using assms(2) keeps_coreD [OF calls_keep(4) [OF assms(1)]] keeps_coreD [OF calls_keep(3) [OF assms(1)]]
    by (auto simp: process_payload_def step_simps split: if_splits dest: pay [OF same_core_refl] intro: pay bid)
      (use pay bid in blast)+
qed

lemma accepted_keeps:
  assumes "calls_keep_core (be_calls V)"
    and "per_block_processing V sb strategy verify_root (st, c) = (Inr (), (st', c'))"
  shows "st_variant st' = st_variant st \<and> st_versioning st' = st_versioning st \<and>
    block_variant (sg_message sb) = st_variant st \<and> bk_slot (sg_message sb) = state_slot st"
proof -
  obtain st1 st2 st3 where k: "same_core st st1"
    "block_fork_name (be_sizes V) (be_spec V) (sg_message sb) = Inr (block_variant (sg_message sb))"
    "state_fork_name (be_sizes V) (be_spec V) st = Inr (st_variant st)" "state_slot st = bk_slot (sg_message sb)"
    "same_core (set_latest_header (be_caches V) (temporary_block_header (be_roots V) (sg_message sb)) st1) st2"
    "\<exists>vs. process_payload V (sg_message sb) vs st2 = (Inr (), st3)" "same_chain st3 st'"
    by (rule per_block_Inr [OF assms])
  then show ?thesis using process_payload_keeps [OF assms(1)]
    by (auto simp: same_core_def same_chain_def block_fork_name_def state_fork_name_def fork_name_unchecked_def
        current_epoch_def fork_name_at_slot_def Let_def split: if_splits)
qed

lemma run_schedule:
  assumes "slot_externals_lawful X (be_spec V)" and "calls_keep_core (be_calls V)"
    and "state_fork_name (be_sizes V) (be_spec V) st = Inr (st_variant st)" and "chain_run X V st bs st'"
  shows "state_fork_name (be_sizes V) (be_spec V) st' = Inr (st_variant st') \<and> state_slot st \<le> state_slot st' \<and>
    (\<forall>sb\<in>set bs. block_variant (sg_message sb) = fork_name_at_slot (ss_eth (be_sizes V)) (be_spec V) (bk_slot (sg_message sb)) \<and>
       state_slot st \<le> bk_slot (sg_message sb) \<and> bk_slot (sg_message sb) \<le> state_slot st')"
  using assms(4)
proof induction
  case (slot bs st1 known summary st2)
  note step = per_slot_fork [OF assms(1) slot.hyps(2)]
  then have "state_slot st1 \<le> state_slot st2" by (simp add: word_le_nat_alt)
  with slot.IH step show ?case by (auto intro: order_trans)
next
  case (block bs st1 sb strategy c st2 c')
  note step = accepted_keeps [OF assms(2) block.hyps(2)]
  have "fork_name_at_slot (ss_eth (be_sizes V)) (be_spec V) (state_slot st1) = st_variant st1"
    using block.IH by (auto simp: state_fork_name_def fork_name_unchecked_def current_epoch_def fork_name_at_slot_def
        Let_def split: if_splits)
  moreover have "state_fork_name (be_sizes V) (be_spec V) st2 = state_fork_name (be_sizes V) (be_spec V) st1"
    using step by (simp add: state_fork_name_def fork_name_unchecked_def current_epoch_def)
  ultimately show ?case using block.IH step by auto
qed (use assms(3) in simp)

text \<open>
  C15. A state never has the wrong type: a run of slots and blocks that starts with a state of the variant
  scheduled for its slot ends with one, and every block it accepted is of the variant scheduled for its own
  slot, which lies between the two.\<close>

theorem run_keeps_schedule:
  assumes "slot_externals_lawful X (be_spec V)" and "calls_keep_core (be_calls V)"
    and "state_fork_name (be_sizes V) (be_spec V) st = Inr (st_variant st)" and "chain_run X V st bs st'"
  shows "st_variant st' = fork_name_at_slot (ss_eth (be_sizes V)) (be_spec V) (state_slot st') \<and>
    (\<forall>sb\<in>set bs. block_variant (sg_message sb) = fork_name_at_slot (ss_eth (be_sizes V)) (be_spec V) (bk_slot (sg_message sb)) \<and>
       state_slot st \<le> bk_slot (sg_message sb) \<and> bk_slot (sg_message sb) \<le> state_slot st')"
  using run_schedule [OF assms]
  by (auto simp: state_fork_name_def fork_name_unchecked_def current_epoch_def fork_name_at_slot_def Let_def split: if_splits)

section \<open>The chain of payloads\<close>

fun linked :: "root \<Rightarrow> 'o payload list \<Rightarrow> root \<Rightarrow> bool" where
  "linked h [] h' \<longleftrightarrow> h' = h"
| "linked h (p # ps) h' \<longleftrightarrow> payload_parent_hash p = h \<and> linked (payload_block_hash p) ps h'"

lemma linked_snoc: "linked h (ps @ [p]) h' \<longleftrightarrow> linked h ps (payload_parent_hash p) \<and> h' = payload_block_hash p"
  by (induction ps arbitrary: h) auto

lemma sorted_le_last: "sorted_wrt (<) xs \<Longrightarrow> x \<in> set xs \<Longrightarrow> x \<le> last (xs :: 'a :: linorder list)"
  by (induction xs) (auto simp: less_imp_le)

lemma payload_header_hash: "payload_to_header T p = Value (f, h) \<Longrightarrow> eh_block_hash h = payload_block_hash p"
  by (cases p) (auto simp: execution_payload_header_from_def header_from_def header_from_bellatrix_def
      header_from_capella_def header_from_deneb_def header_from_electra_def header_from_fulu_def header_from_daisugi_def
      split: option.splits fork_name.splits)

abbreviation payload_of :: "'o signed_block \<Rightarrow> 'o payload" where
  "payload_of sb \<equiv> bb_execution_payload (bk_body (sg_message sb))"

abbreviation slot_of :: "'o signed_block \<Rightarrow> slot" where
  "slot_of sb \<equiv> bk_slot (sg_message sb)"

text \<open>
  C16. Where Gloas is not scheduled, the payloads of a run that starts in Capella or later form one chain:
  each continues the payload before it, the first continues the payload of the state and the last is the
  payload of the state that is reached, also across the upgrade to Daisugi. The slots of the blocks
  increase, so no slot has two blocks.\<close>

theorem payloads_linked:
  assumes lawful: "slot_externals_lawful X (be_spec V)" "slots_keep_chain X (be_spec V)" "calls_keep_core (be_calls V)"
    and gloas: "fork_epoch (be_spec V) Gloas = None"
    and start: "state_fork_name (be_sizes V) (be_spec V) st = Inr (st_variant st)" "capella_enabled (st_variant st)"
    and "chain_run X V st bs st'"
  shows "linked (eh_block_hash (st_execution st)) (map payload_of bs) (eh_block_hash (st_execution st')) \<and>
    sorted_wrt (<) (bh_slot (latest_header st) # map slot_of bs)"
proof -
  have no_gloas: "v \<noteq> Gloas" if "state_fork_name (be_sizes V) (be_spec V) st1 = Inr v" for v and st1 :: "'a beacon_state"
  proof -
    have "\<exists>e. fork_epoch (be_spec V) v = Some e"
      using that active_fork by (auto simp: state_fork_name_def Let_def split: if_splits)
    then show ?thesis using gloas by auto
  qed
  have "linked (eh_block_hash (st_execution st)) (map payload_of bs) (eh_block_hash (st_execution st')) \<and>
      sorted_wrt (<) (bh_slot (latest_header st) # map slot_of bs) \<and> capella_enabled (st_variant st') \<and>
      bh_slot (latest_header st') = last (bh_slot (latest_header st) # map slot_of bs)"
    using assms(7)
  proof induction
    case start
    then show ?case using assms(6) by simp
  next
    case (slot bs st1 known summary st2)
    have "chain_run X V st bs st2" by (rule chain_run.slot [OF slot.hyps])
    then have "st_variant st2 \<noteq> Gloas" using run_schedule [OF lawful(1,3) start(1)] no_gloas by blast
    moreover have "chain_kept st1 st2" using kept.per_slot [OF slot.hyps(2)] lawful(2) by blast
    ultimately show ?case using slot.IH by (auto simp: chain_kept_def enabled_defs)
  next
    case (block bs st1 sb strategy c st2 c')
    have fork: "st_variant st1 \<noteq> Gloas" using run_schedule [OF lawful(1,3) start(1) block.hyps(1)] no_gloas by blast
    note acc = accepted [OF lawful(3) block.hyps(2) _ fork, unfolded Let_def]
    from acc block.IH obtain p where p: "body_payload (bk_body (sg_message sb)) = Inr p"
      "payload_parent_hash p = eh_block_hash (st_execution st1)"
      "payload_to_header (be_hashes V) p = Value (st_variant st1, st_execution st2)"
      and newer: "bh_slot (latest_header st1) < slot_of sb" and keep: "st_variant st2 = st_variant st1"
      and header: "latest_header st2 = temporary_block_header (be_roots V) (sg_message sb)"
      by blast
    have "p = payload_of sb" using p(1) by (simp add: body_payload_def step_simps)
    moreover have "sorted_wrt (<) ((bh_slot (latest_header st) # map slot_of bs) @ [slot_of sb])"
    proof -
      have "x \<le> bh_slot (latest_header st1)" if "x \<in> set (bh_slot (latest_header st) # map slot_of bs)" for x
        using that block.IH by (metis sorted_le_last)
      then have "x < slot_of sb" if "x \<in> set (bh_slot (latest_header st) # map slot_of bs)" for x
        using that newer by (blast intro: order.strict_trans1)
      then show ?thesis using block.IH unfolding sorted_wrt_append by auto
    qed
    ultimately show ?case using block.IH p payload_header_hash [OF p(3)] keep header
      by (simp add: linked_snoc temporary_block_header_def block_header_of_def)
  qed
  then show ?thesis by simp
qed

end
