(* ===== verification/Builder_Facts.thy ===== *)
theory Builder_Facts
  imports Block_Facts
begin

text \<open>
  The debts of builders and the votes for the deposit data: settling a payment moves a debt and keeps its
  amount, an accepted bid leaves its builder able to pay, and the deposit data that a voting period adopts
  is the one with a majority of the slots.
\<close>

section \<open>Debts\<close>

text \<open>What the pending withdrawals and payments owe to a builder, without the bound of 64 bits.\<close>

definition withdrawal_debt :: "u64 \<Rightarrow> builder_withdrawal \<Rightarrow> nat" where
  "withdrawal_debt i w = (if bw_builder_index w = i then unat (bw_amount w) else 0)"

definition debt :: "'o beacon_state \<Rightarrow> u64 \<Rightarrow> nat" where
  "debt st i = sum_list (map (withdrawal_debt i) (bs_builder_pending_withdrawals (st_gloas st))) +
     sum_list (map (withdrawal_debt i \<circ> bp_withdrawal) (bs_builder_pending_payments (st_gloas st)))"

lemma safe_add_nat: "safe_add a b = (if unat a + unat b < 2 ^ 64 then Some (of_nat (unat a + unat b)) else None)"
  by (simp add: safe_add_def)

lemma safe_sum_nat:
  "safe_sum xs acc = (if unat acc + sum_list (map unat xs) < 2 ^ 64 then Some (of_nat (unat acc + sum_list (map unat xs))) else None)"
proof (induction xs arbitrary: acc)
  case Nil
  have "unat acc < 2 ^ 64" using unsigned_less [of acc] by simp
  then show ?case by simp
next
  case (Cons x xs)
  show ?case
  proof (cases "unat acc + unat x < 2 ^ 64")
    case True
    then have "unat (acc + x) = unat acc + unat x" by (simp add: unat_word_ariths(1))
    then show ?thesis using True by (simp add: safe_add_nat Cons.IH add.assoc)
  next
    case False
    then show ?thesis by (simp add: safe_add_nat)
  qed
qed

lemma debt_filter: "sum_list (map (unat \<circ> bw_amount) (filter (\<lambda>w. bw_builder_index w = i) ws)) = sum_list (map (withdrawal_debt i) ws)"
  by (induction ws) (simp_all add: withdrawal_debt_def)

lemma debt_filter_payments:
  "sum_list (map (\<lambda>p. unat (bw_amount (bp_withdrawal p))) (filter (\<lambda>p. bw_builder_index (bp_withdrawal p) = i) ps)) =
    sum_list (map (withdrawal_debt i \<circ> bp_withdrawal) ps)"
  by (induction ps) (simp_all add: withdrawal_debt_def)

lemma pending_balance_eq: "gloas_enabled (st_variant st) \<Longrightarrow> get_pending_balance_to_withdraw_for_builder st i =
    (if debt st i < 2 ^ 64 then Inr (of_nat (debt st i)) else Inl BSE_Arith)"
  by (simp add: get_pending_balance_to_withdraw_for_builder_def partial_getter_def safe_sum_nat debt_def debt_filter
      debt_filter_payments safe_add_nat ok_or_def unat_of_nat o_def flip: debt_filter [unfolded o_def])

lemma debt_settled:
  assumes "i < length ps"
  shows "sum_list (map (withdrawal_debt b \<circ> bp_withdrawal) (ps[i := no_payment])) + withdrawal_debt b (bp_withdrawal (ps ! i)) =
    sum_list (map (withdrawal_debt b \<circ> bp_withdrawal) ps)"
  using assms
proof (induction ps arbitrary: i)
  case (Cons p ps)
  then show ?case by (cases i) (auto simp: withdrawal_debt_def no_payment_def no_withdrawal_def)
qed simp

lemma settle_Inr:
  assumes "settle_builder_payment E i st = (Inr (), st')"
  shows "gloas_enabled (st_variant st) \<and> i < length (bs_builder_pending_payments (st_gloas st)) \<and>
    (\<exists>f. st' = set_gloas f st) \<and> bs_builders (st_gloas st') = bs_builders (st_gloas st) \<and>
    bs_builder_pending_payments (st_gloas st') = (bs_builder_pending_payments (st_gloas st))[i := no_payment] \<and>
    (let w = bp_withdrawal (bs_builder_pending_payments (st_gloas st) ! i) in
     bs_builder_pending_withdrawals (st_gloas st') =
       bs_builder_pending_withdrawals (st_gloas st) @ (if bw_amount w > 0 then [w] else []))"
proof -
  have twice: "set_gloas f (set_gloas g st) = set_gloas (f \<circ> g) st" for f g and st :: "'a beacon_state"
    by (simp add: set_gloas_def)
  show ?thesis using assms
    by (auto simp: settle_builder_payment_def step_simps dec_simps list_get_def push_withdrawal_def Let_def twice
        split: if_splits)
qed

lemma settle_debt:
  assumes "settle_builder_payment E i st = (Inr (), st')"
  shows "debt st' b = debt st b"
proof -
  let ?ps = "bs_builder_pending_payments (st_gloas st)" let ?w = "bp_withdrawal (?ps ! i)"
  have s: "i < length ?ps" "bs_builder_pending_payments (st_gloas st') = ?ps[i := no_payment]"
    "bs_builder_pending_withdrawals (st_gloas st') =
      bs_builder_pending_withdrawals (st_gloas st) @ (if bw_amount ?w > 0 then [?w] else [])"
    using settle_Inr [OF assms] by (simp_all add: Let_def)
  have "bw_amount ?w = 0 \<Longrightarrow> withdrawal_debt b ?w = 0" by (simp add: withdrawal_debt_def)
  then show ?thesis using debt_settled [OF s(1), of b]
    unfolding debt_def s(2,3) by (cases "bw_amount ?w > 0") (auto simp: word_gt_0)
qed

text \<open>
  Settling the payment of a slot moves it to the withdrawals: the entry is cleared, and every builder
  has the same pending balance and can cover the same bids as before.\<close>

theorem settlement_keeps_debts:
  assumes "settle_builder_payment E i st = (Inr (), st')"
  shows "bs_builder_pending_payments (st_gloas st') ! i = no_payment \<and>
    get_pending_balance_to_withdraw_for_builder st' b = get_pending_balance_to_withdraw_for_builder st b \<and>
    can_builder_cover_bid s st' b amount = can_builder_cover_bid s st b amount"
proof -
  note settle = settle_Inr [OF assms]
  then obtain f where st': "st' = set_gloas f st" by blast
  have "get_pending_balance_to_withdraw_for_builder st' b = get_pending_balance_to_withdraw_for_builder st b"
    using settle settle_debt [OF assms] by (simp add: pending_balance_eq st')
  moreover have "get_builder st' b = get_builder st b"
    using settle by (simp add: get_builder_def st')
  ultimately show ?thesis using settle by (simp add: can_builder_cover_bid_def)
qed

section \<open>Bids\<close>

text \<open>A builder can pay its debts and keep the minimal deposit.\<close>

definition solvent :: "chain_spec \<Rightarrow> 'o beacon_state \<Rightarrow> u64 \<Rightarrow> bool" where
  "solvent s st i \<longleftrightarrow> (\<exists>builder. get_builder st i = Inr builder \<and>
     unat (min_deposit_amount (sp_gwei s)) + debt st i \<le> unat (bu_balance builder))"

lemma debt_recorded:
  assumes "i < length ps"
  shows "sum_list (map (withdrawal_debt b \<circ> bp_withdrawal) (ps[i := p])) \<le>
    sum_list (map (withdrawal_debt b \<circ> bp_withdrawal) ps) + withdrawal_debt b (bp_withdrawal p)"
  using assms
proof (induction ps arbitrary: i)
  case (Cons q ps)
  then show ?case by (cases i) auto
qed simp

lemma process_bid_Inr:
  assumes "process_execution_payload_bid V block vs st = (Inr (), st')"
  obtains signed_bid st1 where "body_bid (bk_body block) = Inr signed_bid"
    and "verify_bid_builder V signed_bid vs st = Inr ()" and "verify_bid_fields V block (sb_message signed_bid) st = Inr ()"
    and "record_bid_payment (be_sizes V) (sb_message signed_bid) st = Inr st1"
    and "st' = set_gloas (\<lambda>g. g\<lparr>bs_latest_execution_payload_bid := sb_message signed_bid\<rparr>) st1"
    and "gloas_enabled (st_variant st1)"
  using assms by (auto simp: process_execution_payload_bid_def step_simps dec_simps)

lemma record_bid_Inr:
  assumes "record_bid_payment E bid st = Inr st1"
  shows "(\<exists>f. st1 = set_gloas f st) \<and> bs_builders (st_gloas st1) = bs_builders (st_gloas st) \<and>
    debt st1 b \<le> debt st b + (if pb_builder_index bid = b then unat (pb_value bid) else 0)"
proof (cases "pb_value bid > 0")
  case True
  define p where "p = \<lparr>bp_weight = 0, bp_withdrawal = \<lparr>bw_fee_recipient = pb_fee_recipient bid, bw_amount = pb_value bid,
      bw_builder_index = pb_builder_index bid\<rparr>\<rparr>"
  obtain i where i: "i < length (bs_builder_pending_payments (st_gloas st))"
    "st1 = set_gloas (\<lambda>g. g\<lparr>bs_builder_pending_payments := (bs_builder_pending_payments (st_gloas st))[i := p]\<rparr>) st"
    using assms True by (auto simp: record_bid_payment_def step_simps dec_simps p_def split: if_splits)
  have "withdrawal_debt b (bp_withdrawal p) = (if pb_builder_index bid = b then unat (pb_value bid) else 0)"
    by (simp add: withdrawal_debt_def p_def)
  then show ?thesis using debt_recorded [OF i(1), of b p] i(2) by (auto simp: debt_def)
next
  case False
  then have "st1 = st" using assms by (simp add: record_bid_payment_def)
  moreover have "set_gloas (\<lambda>g. g) st = st" by (simp add: set_gloas_def)
  ultimately show ?thesis by (metis add_leE le_add1)
qed

lemma covered_bid:
  assumes "can_builder_cover_bid s st i amount = Inr True"
  shows "\<exists>builder. get_builder st i = Inr builder \<and>
    unat (min_deposit_amount (sp_gwei s)) + debt st i + unat amount \<le> unat (bu_balance builder)"
proof -
  from assms obtain builder pending limit free where b: "get_builder st i = Inr builder"
    "get_pending_balance_to_withdraw_for_builder st i = Inr pending"
    "safe_add (min_deposit_amount (sp_gwei s)) pending = Some limit" "\<not> bu_balance builder < limit"
    "safe_sub (bu_balance builder) limit = Some free" "amount \<le> free"
    by (auto simp: can_builder_cover_bid_def dec_simps split: if_splits)
  have "gloas_enabled (st_variant st)" using b(1) by (auto simp: get_builder_def dec_simps step_simps)
  then have "unat pending = debt st i" using b(2) by (auto simp: pending_balance_eq unat_of_nat split: if_splits)
  moreover have "unat limit = unat (min_deposit_amount (sp_gwei s)) + unat pending" by (rule unat_safe_add [OF b(3)])
  moreover have "unat free = unat (bu_balance builder) - unat limit"
    using b(4,5) by (auto simp: safe_sub_def unat_sub not_less split: if_splits)
  ultimately show ?thesis using b(1,4,6) by (auto simp: word_le_nat_alt word_less_nat_alt)
qed

text \<open>
  C36. A bid is accepted only from a builder that can pay it: after it is recorded, its builder still has
  the minimal deposit beside all its debts, every other builder that had it still has it, and a bid of the
  proposer itself is free of charge.\<close>

theorem bids_keep_solvency:
  assumes "process_execution_payload_bid V block vs st = (Inr (), st')"
  shows "\<exists>signed_bid. body_bid (bk_body block) = Inr signed_bid \<and>
    bs_latest_execution_payload_bid (st_gloas st') = sb_message signed_bid \<and>
    (if pb_builder_index (sb_message signed_bid) = kx_self_build_index (be_calls V)
     then pb_value (sb_message signed_bid) = 0 else solvent (be_spec V) st' (pb_builder_index (sb_message signed_bid))) \<and>
    (\<forall>i. solvent (be_spec V) st i \<longrightarrow> solvent (be_spec V) st' i)"
proof -
  obtain signed_bid st1 where bid: "body_bid (bk_body block) = Inr signed_bid"
    and verify: "verify_bid_builder V signed_bid vs st = Inr ()"
    and paid: "record_bid_payment (be_sizes V) (sb_message signed_bid) st = Inr st1"
    and st': "st' = set_gloas (\<lambda>g. g\<lparr>bs_latest_execution_payload_bid := sb_message signed_bid\<rparr>) st1"
    by (rule process_bid_Inr [OF assms])
  let ?i = "pb_builder_index (sb_message signed_bid)" and ?self = "kx_self_build_index (be_calls V)"
  let ?amount = "pb_value (sb_message signed_bid)"
  obtain f where f: "st1 = set_gloas f st" using record_bid_Inr [OF paid] by blast
  have builders: "get_builder st' i = get_builder st i" for i
    using record_bid_Inr [OF paid] by (simp add: get_builder_def st' f)
  have debts: "debt st' i \<le> debt st i + (if ?i = i then unat ?amount else 0)" for i
    using record_bid_Inr [OF paid, of i] by (simp add: debt_def st')
  have self: "?i = ?self \<Longrightarrow> ?amount = 0"
    using verify by (auto simp: verify_bid_builder_def Let_def split: if_splits)
  have other: "solvent (be_spec V) st' ?i" if "?i \<noteq> ?self"
  proof -
    have "can_builder_cover_bid (be_spec V) st ?i ?amount = Inr True"
      using verify that by (auto simp: verify_bid_builder_def Let_def dec_simps step_simps split: if_splits)
    from covered_bid [OF this] debts [of ?i] show ?thesis by (auto simp: solvent_def builders)
  qed
  have "solvent (be_spec V) st' i" if "solvent (be_spec V) st i" for i
  proof (cases "?i = i \<and> ?i \<noteq> ?self")
    case False
    then have "debt st' i \<le> debt st i" using debts [of i] self by (auto split: if_splits)
    then show ?thesis using that by (auto simp: solvent_def builders)
  qed (use other in blast)
  then show ?thesis using bid self other by (auto simp: st')
qed

section \<open>Votes for the deposit data\<close>

text \<open>The votes of a period, one in each block.\<close>

fun process_votes :: "state_spec \<Rightarrow> eth1_data list \<Rightarrow> ('o beacon_state, state_error, unit) step" where
  "process_votes E [] = step_get (\<lambda>_. Inr ())"
| "process_votes E (d # ds) = step_bind (process_eth1_data E d) (\<lambda>_. process_votes E ds)"

lemma process_votes_snoc: "process_votes E (ds @ [d]) st = (Inr (), st') \<longleftrightarrow>
    (\<exists>st1. process_votes E ds st = (Inr (), st1) \<and> process_eth1_data E d st1 = (Inr (), st'))"
  by (induction ds arbitrary: st) (auto simp: step_simps)

lemma process_eth1_Inr:
  assumes "process_eth1_data E d st = (Inr (), st')"
  shows "bs_eth1_data_votes (st_eth1 st') = bs_eth1_data_votes (st_eth1 st) @ [d] \<and>
    length (bs_eth1_data_votes (st_eth1 st)) < ss_slots_per_eth1_voting_period E \<and>
    bs_eth1_data (st_eth1 st') = (if 2 * count_list (bs_eth1_data_votes (st_eth1 st) @ [d]) d > ss_slots_per_eth1_voting_period E
      then d else bs_eth1_data (st_eth1 st))"
proof -
  have "length (filter (\<lambda>v. v = d) vs) = count_list vs d" for vs
    by (induction vs) simp_all
  then show ?thesis using assms
    by (auto simp: process_eth1_data_def step_simps get_new_eth1_data_def dec_simps checked_add_def checked_mul_def
        push_vote_def Let_def split: if_splits)
qed

lemma two_majorities:
  assumes "d \<noteq> d'" and "length vs \<le> n"
  shows "\<not> (2 * count_list vs d > n \<and> 2 * count_list vs d' > (n :: nat))"
proof -
  have "count_list vs d + count_list vs d' \<le> length vs"
    using assms(1) by (induction vs) auto
  then show ?thesis using assms(2) by linarith
qed

text \<open>
  In a voting period the state adopts the deposit data with the votes of more than half of the slots
  of the period as soon as there is one, keeps it to the end, and keeps the data it had when there is none.
  At most one vote for each slot is taken.\<close>

theorem majority_adopted:
  assumes "bs_eth1_data_votes (st_eth1 st) = []" and "process_votes E ds st = (Inr (), st')"
  shows "bs_eth1_data_votes (st_eth1 st') = ds \<and> length ds \<le> ss_slots_per_eth1_voting_period E \<and>
    (\<forall>d. 2 * count_list ds d > ss_slots_per_eth1_voting_period E \<longrightarrow> bs_eth1_data (st_eth1 st') = d) \<and>
    ((\<forall>d. 2 * count_list ds d \<le> ss_slots_per_eth1_voting_period E) \<longrightarrow> bs_eth1_data (st_eth1 st') = bs_eth1_data (st_eth1 st))"
  using assms(2)
proof (induction ds arbitrary: st' rule: rev_induct)
  case Nil
  then show ?case using assms(1) by (simp add: step_simps)
next
  case (snoc d ds)
  then obtain st1 where st1: "process_votes E ds st = (Inr (), st1)" "process_eth1_data E d st1 = (Inr (), st')"
    by (auto simp: process_votes_snoc)
  note old = snoc.IH [OF st1(1)] and new = process_eth1_Inr [OF st1(2)]
  let ?n = "ss_slots_per_eth1_voting_period E"
  have votes: "bs_eth1_data_votes (st_eth1 st') = ds @ [d]" "length (ds @ [d]) \<le> ?n" using old new by simp_all
  have major: "bs_eth1_data (st_eth1 st') = d'" if "2 * count_list (ds @ [d]) d' > ?n" for d'
  proof (cases "d' = d")
    case False
    then have "2 * count_list ds d' > ?n" using that by simp
    moreover have "\<not> 2 * count_list (ds @ [d]) d > ?n"
      using two_majorities [OF False votes(2)] that by blast
    ultimately show ?thesis using old new by simp
  qed (use old new that in simp)
  have "bs_eth1_data (st_eth1 st') = bs_eth1_data (st_eth1 st)" if "\<forall>d'. 2 * count_list (ds @ [d]) d' \<le> ?n"
  proof -
    have "count_list ds d' \<le> count_list (ds @ [d]) d'" for d' by simp
    then have "\<forall>d'. 2 * count_list ds d' \<le> ?n" using that by (meson le_trans mult_le_mono2)
    then show ?thesis using old new that [rule_format, of d] by (auto simp: not_less)
  qed
  then show ?case using votes major by blast
qed

end
