(* ===== verification/Blinding_Facts.thy ===== *)
theory Blinding_Facts
  imports Block_Facts
begin

text \<open>
  Full and blinded blocks: unblinding restores a block, blinding keeps its root, a blinded block is
  processed like the block, and the codecs of blocks.
\<close>

section \<open>Blocks of the program\<close>

text \<open>What the types of the source say: the payload of a full block has the variant of the block.\<close>

definition full_block :: "'o signed_block \<Rightarrow> bool" where
  "full_block sb \<longleftrightarrow> (let f = block_variant (sg_message sb) in
     has_payload f \<longrightarrow> (case bb_execution_payload (bk_body (sg_message sb)) of
       Full p \<Rightarrow> ep_variant p = f | Blinded _ _ \<Rightarrow> False))"

lemma has_payload_header: "has_payload f \<Longrightarrow> \<exists>h. header_from f = Some h"
  by (cases f) (simp_all add: has_payload_def header_from_def)

lemma no_payload_header: "\<not> has_payload f \<Longrightarrow> header_from f = None"
  by (cases f) (simp_all add: has_payload_def header_from_def)

lemma has_payload_eq: "has_payload f \<longleftrightarrow> f \<notin> {Base, Altair, Gloas}"
  by (cases f) (simp_all add: has_payload_def)

lemma full_blockE:
  fixes sb :: "'o signed_block"
  assumes "full_block sb"
  obtains (none) "\<not> has_payload (block_variant (sg_message sb))"
  | (some) p and h :: "'o tree_hashes \<Rightarrow> 'o exec_payload \<Rightarrow> exec_header" where "has_payload (block_variant (sg_message sb))"
    and "bb_execution_payload (bk_body (sg_message sb)) = Full p" and "ep_variant p = block_variant (sg_message sb)"
    and "header_from (block_variant (sg_message sb)) = Some h"
proof (cases "has_payload (block_variant (sg_message sb))")
  case True
  then obtain h :: "'o tree_hashes \<Rightarrow> 'o exec_payload \<Rightarrow> exec_header"
    where "header_from (block_variant (sg_message sb)) = Some h" using has_payload_header by blast
  with True assms show thesis by (auto simp: full_block_def Let_def intro: some split: payload.splits)
qed (rule none)

lemma into_blinded_none:
  assumes "\<not> has_payload (block_variant (sg_message sb))"
  shows "into_blinded T sb = (sb, None)" and "clone_as_blinded T sb = sb"
  using assms
  by (simp_all add: into_blinded_def block_into_blinded_def body_into_blinded_def no_payload_header clone_as_blinded_def
      block_clone_as_blinded_def body_clone_as_blinded_def split: payload.splits)

definition blinded_with :: "'o signed_block \<Rightarrow> 'o payload \<Rightarrow> 'o signed_block" where
  "blinded_with sb payload = sb\<lparr>sg_message := (sg_message sb)\<lparr>bk_body :=
     (bk_body (sg_message sb))\<lparr>bb_execution_payload := payload\<rparr>\<rparr>\<rparr>"

lemma into_blinded_some:
  assumes "has_payload (block_variant (sg_message sb))" and "bb_execution_payload (bk_body (sg_message sb)) = Full p"
    and "header_from (block_variant (sg_message sb)) = Some h"
  shows "into_blinded T sb = (blinded_with sb (Blinded (block_variant (sg_message sb)) (h T p)), Some p)"
    and "clone_as_blinded T sb = blinded_with sb (Blinded (block_variant (sg_message sb)) (h T p))"
  using assms
  by (simp_all add: into_blinded_def block_into_blinded_def body_into_blinded_def clone_as_blinded_def
      block_clone_as_blinded_def body_clone_as_blinded_def blinded_with_def has_payload_eq)

text \<open>
  C19. Unblinding restores the block: the blinded block and the payload taken out of it give the block
  back, a payload of another variant or none gives nothing, and both ways of blinding agree. A payload is
  taken out exactly for the variants that carry one.\<close>

theorem unblinding_restores:
  assumes "full_block sb"
  shows "let (blinded, payload) = into_blinded T sb in
    try_into_full_block blinded payload = Some sb \<and> clone_as_blinded T sb = blinded \<and>
    (payload = None \<longleftrightarrow> \<not> has_payload (block_variant (sg_message sb))) \<and>
    (\<forall>other. has_payload (block_variant (sg_message sb)) \<and> map_option ep_variant other \<noteq> Some (block_variant (sg_message sb)) \<longrightarrow>
       try_into_full_block blinded other = None)"
  using assms
proof (cases rule: full_blockE)
  case none
  then have "try_into_full_block sb None = Some sb"
    by (cases "block_variant (sg_message sb)") (simp_all add: try_into_full_block_def has_payload_def)
  then show ?thesis using none by (simp add: into_blinded_none)
next
  case (some p h)
  let ?b = "blinded_with sb (Blinded (block_variant (sg_message sb)) (h T p))"
  have unblind: "try_into_full_block ?b other = (case other of
      Some q \<Rightarrow> if ep_variant q = block_variant (sg_message sb) then Some (blinded_with sb (Full q)) else None | None \<Rightarrow> None)" for other
    using some(1) by (cases "block_variant (sg_message sb)")
      (simp_all add: try_into_full_block_def blinded_with_def into_full_block_def has_payload_def split: option.split)
  have "blinded_with sb (Full p) = sb" using some(2) by (simp add: blinded_with_def)
  then show ?thesis using some by (auto simp: into_blinded_some unblind split: option.splits)
qed

section \<open>Processing\<close>

lemma from_state_Inr_Inr: "from_state (Inr x) = Inr x"
  by (simp add: from_state_def)

text \<open>What is relied on for one block: the tree hash of a header is that of its payload, the upstream
  functions do not look at what a header leaves out, and the payload does not share its header with the
  default payload unless it is that payload.\<close>

definition blinding_lawful :: "('o, 'c) block_env \<Rightarrow> 'o signed_block \<Rightarrow> bool" where
  "blinding_lawful V sb \<longleftrightarrow>
     (let T = be_hashes V; K = be_calls V; blinded = clone_as_blinded T sb;
          payload = bb_execution_payload (bk_body (sg_message sb));
          payload' = bb_execution_payload (bk_body (sg_message blinded)); s = be_spec V in
      payload_root (be_roots V) payload' = payload_root (be_roots V) payload \<and>
      kx_verify_entire_block K s blinded = kx_verify_entire_block K s sb \<and>
      kx_current_block_root K blinded = kx_current_block_root K sb \<and>
      (\<forall>st. kx_proposal_signature K s st blinded = kx_proposal_signature K s st sb) \<and>
      (\<forall>st. kx_randao_signature K s st (sg_message blinded) = kx_randao_signature K s st (sg_message sb)) \<and>
      kx_withdrawals K s payload' = kx_withdrawals K s payload \<and>
      kx_operations K s (bk_body (sg_message blinded)) = kx_operations K s (bk_body (sg_message sb)) \<and>
      (\<forall>d. default_payload (be_sizes V) (payload_variant payload) = Value d \<longrightarrow>
         payload_to_header T (Full d) = payload_to_header T payload \<longrightarrow> Full d = payload))"

lemma default_payload_variant: "default_payload E f = Value d \<Longrightarrow> ep_variant d = f"
  by (auto simp: default_payload_def obind_Value)

lemma header_of_variant: "header_from (ep_variant q) = Some h \<Longrightarrow> execution_payload_header_from T q = Value (ep_variant q, h T q)"
  by (simp add: execution_payload_header_from_def)

lemma default_blinded:
  fixes p :: "'w exec_payload" and T :: "'w tree_hashes"
  assumes "header_from (ep_variant p) = Some h"
    and "\<And>d. default_payload E (ep_variant p) = Value d \<Longrightarrow> payload_to_header T (Full d) = payload_to_header T (Full p) \<Longrightarrow> d = p"
  shows "is_default_with_empty_roots E T (Blinded (ep_variant p) (h T p)) = is_default_with_empty_roots E T (Full p)"
proof (cases "default_payload E (ep_variant p) :: 'w exec_payload outcome")
  case (Value d)
  then have "ep_variant d = ep_variant p" by (rule default_payload_variant)
  then have "execution_payload_header_from T d = Value (ep_variant p, h T d)" "payload_to_header T (Full d) = Value (ep_variant p, h T d)"
    "payload_to_header T (Full p) = Value (ep_variant p, h T p)"
    using assms(1) header_of_variant [of d h T] header_of_variant [of p h T] by simp_all
  then show ?thesis using assms(2) [OF Value] Value by auto
qed simp

lemma getters_blinded:
  assumes "header_from (ep_variant p) = Some h"
  shows "payload_parent_hash (Blinded f (h T p)) = ep_parent_hash p"
    and "payload_prev_randao (Blinded f (h T p)) = ep_prev_randao p"
    and "payload_timestamp (Blinded f (h T p)) = ep_timestamp p"
  using assms by (cases "ep_variant p"; auto simp: header_from_def header_from_bellatrix_def header_from_capella_def
      header_from_deneb_def header_from_electra_def header_from_fulu_def header_from_daisugi_def)+

text \<open>
  C18. A blinded block is processed like the block: with the same strategy on the same state and context it
  is accepted or refused with the same error, and leaves the same state and context.\<close>

theorem blinded_processed_alike:
  assumes full: "full_block sb" and lawful: "blinding_lawful V sb"
  shows "per_block_processing V (clone_as_blinded (be_hashes V) sb) strategy verify_root =
    per_block_processing V sb strategy verify_root"
  using full
proof (cases rule: full_blockE)
  case none
  then show ?thesis by (simp add: into_blinded_none)
next
  case (some p h)
  let ?T = "be_hashes V" let ?b = "sg_message sb" let ?f = "block_variant (sg_message sb)"
  define sb' where "sb' = clone_as_blinded ?T sb"
  let ?b' = "sg_message sb'"
  have sb': "sb' = blinded_with sb (Blinded ?f (h ?T p))"
    unfolding sb'_def by (rule into_blinded_some(2) [OF some(1,2,4)])
  note law = lawful [unfolded blinding_lawful_def Let_def, folded sb'_def]
  have same [simp]: "bk_slot ?b' = bk_slot ?b" "bk_proposer_index ?b' = bk_proposer_index ?b" "bk_parent_root ?b' = bk_parent_root ?b"
    "bk_state_root ?b' = bk_state_root ?b" "block_variant ?b' = ?f"
    "bb_randao_reveal (bk_body ?b') = bb_randao_reveal (bk_body ?b)" "bb_eth1_data (bk_body ?b') = bb_eth1_data (bk_body ?b)"
    "body_sync_aggregate (bk_body ?b') = body_sync_aggregate (bk_body ?b)"
    "body_commitments (bk_body ?b') = body_commitments (bk_body ?b)"
    "body_bid (bk_body ?b') = body_bid (bk_body ?b)" "body_parent_requests (bk_body ?b') = body_parent_requests (bk_body ?b)"
    "bb_graffiti (bk_body ?b') = bb_graffiti (bk_body ?b)" "bb_proposer_slashings (bk_body ?b') = bb_proposer_slashings (bk_body ?b)"
    "bb_attester_slashings (bk_body ?b') = bb_attester_slashings (bk_body ?b)"
    "bb_attestations (bk_body ?b') = bb_attestations (bk_body ?b)" "bb_deposits (bk_body ?b') = bb_deposits (bk_body ?b)"
    "bb_voluntary_exits (bk_body ?b') = bb_voluntary_exits (bk_body ?b)"
    "bb_sync_aggregate (bk_body ?b') = bb_sync_aggregate (bk_body ?b)"
    "bb_bls_to_execution_changes (bk_body ?b') = bb_bls_to_execution_changes (bk_body ?b)"
    "bb_blob_kzg_commitments (bk_body ?b') = bb_blob_kzg_commitments (bk_body ?b)"
    "bb_execution_requests (bk_body ?b') = bb_execution_requests (bk_body ?b)"
    "bb_signed_execution_payload_bid (bk_body ?b') = bb_signed_execution_payload_bid (bk_body ?b)"
    "bb_payload_attestations (bk_body ?b') = bb_payload_attestations (bk_body ?b)"
    "bb_parent_execution_requests (bk_body ?b') = bb_parent_execution_requests (bk_body ?b)"
    by (simp_all add: sb' blinded_with_def body_sync_aggregate_def body_commitments_def body_bid_def body_parent_requests_def)
  have body: "body_payload (bk_body ?b) = Inr (Full p)" "body_payload (bk_body ?b') = Inr (Blinded ?f (h ?T p))"
    using some(1,2) by (simp_all add: body_payload_def partial_getter_def sb' blinded_with_def)
  have payloads: "bb_execution_payload (bk_body ?b) = Full p" "bb_execution_payload (bk_body ?b') = Blinded ?f (h ?T p)"
    using some(2) by (simp_all add: sb' blinded_with_def)
  have root: "body_root (be_roots V) (bk_body ?b') = body_root (be_roots V) (bk_body ?b)"
  proof -
    have "payload_root (be_roots V) (bb_execution_payload (bk_body ?b')) = payload_root (be_roots V) (bb_execution_payload (bk_body ?b))"
      using law by blast
    then have "body_merkle_leaves (be_roots V) (bk_body ?b') = body_merkle_leaves (be_roots V) (bk_body ?b)"
      by (simp only: body_merkle_leaves_def Let_def same)
    then show ?thesis by (simp add: body_root_def)
  qed
  have header: "temporary_block_header (be_roots V) ?b' = temporary_block_header (be_roots V) ?b"
    by (simp add: temporary_block_header_def block_header_of_def root)
  have get: "payload_parent_hash (Blinded ?f (h ?T p)) = payload_parent_hash (Full p)"
    "payload_prev_randao (Blinded ?f (h ?T p)) = payload_prev_randao (Full p)"
    "payload_timestamp (Blinded ?f (h ?T p)) = payload_timestamp (Full p)"
    using getters_blinded [of p h] some(3,4) by simp_all
  have prepare: "prepare_block V ?b' = prepare_block V ?b"
  proof -
    have "block_fork_name E s ?b' = block_fork_name E s ?b" for E s by (simp only: block_fork_name_def same)
    moreover have "process_parent_execution_payload V ?b' = process_parent_execution_payload V ?b"
      by (simp only: process_parent_execution_payload_def same)
    ultimately show ?thesis by (simp only: prepare_block_def)
  qed
  have verify: "verify_strategy V sb' = verify_strategy V sb" "verify_block_signature V sb' = verify_block_signature V sb"
  proof -
    have calls: "kx_verify_entire_block (be_calls V) (be_spec V) sb' = kx_verify_entire_block (be_calls V) (be_spec V) sb"
      "kx_current_block_root (be_calls V) sb' = kx_current_block_root (be_calls V) sb"
      "kx_proposal_signature (be_calls V) (be_spec V) st sb' = kx_proposal_signature (be_calls V) (be_spec V) st sb" for st
      using law by blast+
    show "verify_strategy V sb' = verify_strategy V sb" by (intro ext) (simp only: verify_strategy_def calls)
    show "verify_block_signature V sb' = verify_block_signature V sb" by (simp only: verify_block_signature_def calls)
  qed
  have enabled: "is_execution_enabled V (bk_body ?b') st = is_execution_enabled V (bk_body ?b) st" for st
  proof -
    have "is_default_with_empty_roots (be_sizes V) ?T (Blinded ?f (h ?T p)) = is_default_with_empty_roots (be_sizes V) ?T (Full p)"
      using law default_blinded [of p h "be_sizes V" ?T] some(3,4) payloads by auto
    then show ?thesis by (simp only: is_execution_enabled_def is_merge_transition_block_def body sum.case)
  qed
  have verified: "partially_verify_execution_payload V sl (bk_body ?b') st = partially_verify_execution_payload V sl (bk_body ?b) st" for sl st
    unfolding partially_verify_execution_payload_def body same from_state_Inr_Inr rbind_simps get by (rule refl)
  have put: "put_payload_header ?T (Blinded ?f (h ?T p)) st = put_payload_header ?T (Full p) st" for st :: "'a beacon_state"
    using some(3,4) by (simp add: put_payload_header_def execution_payload_header_from_def)
  have pay: "process_execution_payload V (bk_body ?b') = process_execution_payload V (bk_body ?b)"
    by (rule ext) (simp only: process_execution_payload_def step_bind_def step_get_def step_try_def verified body put from_state_def
        sum.case prod.case)
  have payload: "process_payload V ?b' vs = process_payload V ?b vs" for vs
  proof -
    have withdrawals: "kx_withdrawals (be_calls V) (be_spec V) (Blinded ?f (h ?T p)) = kx_withdrawals (be_calls V) (be_spec V) (Full p)"
      using law payloads by simp
    have bid: "process_execution_payload_bid V ?b' vs = process_execution_payload_bid V ?b vs"
    proof -
      have "verify_bid_fields V ?b' = verify_bid_fields V ?b" by (intro ext) (simp only: verify_bid_fields_def same)
      then show ?thesis by (simp only: process_execution_payload_bid_def same)
    qed
    show ?thesis
      by (rule ext) (simp add: process_payload_def step_bind_def step_get_def enabled body pay withdrawals bid from_state_def)
  qed
  have rest: "process_body V ?b' = process_body V ?b"
  proof -
    have "process_randao V ?b' v = process_randao V ?b v" for v
    proof -
      have "kx_randao_signature (be_calls V) (be_spec V) st ?b' = kx_randao_signature (be_calls V) (be_spec V) st ?b" for st
        using law by blast
      then show ?thesis by (simp only: process_randao_def same)
    qed
    moreover have "kx_operations (be_calls V) (be_spec V) (bk_body ?b') = kx_operations (be_calls V) (be_spec V) (bk_body ?b)"
      using law by blast
    ultimately show ?thesis by (intro ext) (simp only: process_body_def same)
  qed
  show ?thesis
    unfolding per_block_processing_def Let_def sb'_def [symmetric]
    by (simp only: prepare verify header payload rest)
qed

section \<open>Codecs\<close>

text \<open>What is relied on: a generated decoder gives blocks of its variant.\<close>

definition codec_typed :: "'o block_codec \<Rightarrow> bool" where
  "codec_typed C \<longleftrightarrow> (\<forall>f bytes sb. bc_signed C f bytes = Inr sb \<longrightarrow> block_variant (sg_message sb) = f) \<and>
     (\<forall>f bytes b. bc_block C f bytes = Inr b \<longrightarrow> block_variant b = f)"

lemma tag_roundtrip [simp]: "fork_from_tag (fork_tag f) = Inr f"
  by (cases f) (simp_all add: fork_from_tag_def fork_tag_def list_all_forks_def)

lemma tag_exact: "fork_from_tag b = Inr f \<longleftrightarrow> b = fork_tag f"
proof
  assume "fork_from_tag b = Inr f"
  then show "b = fork_tag f" by (auto simp: fork_from_tag_def find_Some_iff split: option.splits)
qed simp

text \<open>The database codec gives back what it stored, when the generated codec does.\<close>

theorem tagged_roundtrip: "bc_signed C (block_variant (sg_message sb)) (bc_append C sb) = Inr sb \<Longrightarrow>
    tagged_from_ssz_bytes C (tagged_as_ssz_bytes C sb) = Inr sb"
  by (simp add: tagged_from_ssz_bytes_def tagged_as_ssz_bytes_def)

theorem tag_of_decoded: "codec_typed C \<Longrightarrow> tagged_from_ssz_bytes C bytes = Inr sb \<Longrightarrow>
    hd bytes = fork_tag (block_variant (sg_message sb))"
  by (auto simp: tagged_from_ssz_bytes_def codec_typed_def rbind_Inr tag_exact split: list.splits)

lemma first_decoded_Inr: "first_decoded (map g fs) bytes = Inr b \<Longrightarrow> \<exists>f\<in>set fs. g f bytes = Inr b"
proof (induction fs)
  case (Cons f fs)
  then show ?case by (cases fs) (auto split: sum.splits)
qed simp

lemma first_decoded_Inl: "\<forall>f\<in>set fs. \<exists>e. g f bytes = Inl e \<Longrightarrow> \<exists>e. first_decoded (map g fs) bytes = Inl e"
proof (induction fs)
  case (Cons f fs)
  then show ?case by (cases fs) (auto split: sum.splits)
qed simp

text \<open>
  C37. A Daisugi block is only found by its slot: trying the variants in sequence never gives a Daisugi
  block and fails on bytes that are a block of Daisugi alone, while decoding by the slot reads them with
  the decoder of Daisugi.\<close>

theorem daisugi_not_guessed:
  assumes "codec_typed C"
  shows "(\<forall>b. any_from_ssz_bytes C bytes = Inr b \<longrightarrow> block_variant b \<noteq> Daisugi) \<and>
    ((\<forall>f. f \<noteq> Daisugi \<longrightarrow> (\<exists>e. bc_block C f bytes = Inl e)) \<longrightarrow> (\<exists>e. any_from_ssz_bytes C bytes = Inl e)) \<and>
    (8 \<le> length bytes \<and> fork_name_at_slot (ss_eth E) s (of_nat (le_nat (take 8 bytes))) = Daisugi \<longrightarrow>
       block_from_ssz_bytes C E s bytes = bc_block C Daisugi bytes)"
proof (intro conjI allI impI)
  fix b assume "any_from_ssz_bytes C bytes = Inr b"
  from first_decoded_Inr [OF this [unfolded any_from_ssz_bytes_def]]
  obtain f where "f \<in> set [Gloas, Fulu, Electra, Deneb, Capella, Bellatrix, Altair, Base]" "bc_block C f bytes = Inr b" by blast
  then have "f \<noteq> Daisugi" "bc_block C f bytes = Inr b" by auto
  then show "block_variant b \<noteq> Daisugi" using assms unfolding codec_typed_def by blast
next
  assume "\<forall>f. f \<noteq> Daisugi \<longrightarrow> (\<exists>e. bc_block C f bytes = Inl e)"
  then show "\<exists>e. any_from_ssz_bytes C bytes = Inl e"
    unfolding any_from_ssz_bytes_def by (intro first_decoded_Inl) simp
qed (simp add: block_from_ssz_bytes_def)

end
