(* ===== verification/Block_Witnesses.thy ===== *)
theory Block_Witnesses
  imports Chain_Runs Builder_Facts Blinding_Facts Selection_Witnesses
begin

text \<open>
  The theorems about blocks, runs, builders and votes, applied to a Daisugi state of the development
  network and a block that carries a recursive proof, and to a Gloas state with one builder.
\<close>

section \<open>An environment\<close>

definition block_caches :: "unit cache_externals" where
  "block_caches = \<lparr>cx_committee_at = (\<lambda>c e. True), cx_committee_new = (\<lambda>s st e. Inr ()),
     cx_committee_lookahead = (\<lambda>s st e. Inr ()), cx_committee_default = (), cx_committees_per_slot = (\<lambda>c. 1),
     cx_epoch_committee_count = (\<lambda>c. Inr 32), cx_active_indices = (\<lambda>c. []), cx_shuffling = (\<lambda>c. []),
     cx_beacon_committee = (\<lambda>c slot i. None), cx_committees_at_slot = (\<lambda>c slot. Inr []),
     cx_all_committees = (\<lambda>c. Inr []), cx_into_epoch = (\<lambda>r e. e), cx_from_epoch = (\<lambda>e e'. Inr Rel_Current),
     cx_is_active_at = (\<lambda>v e. True), cx_pubkey_len = (\<lambda>c. 0), cx_pubkey_insert = (\<lambda>k i c. (True, ())),
     cx_pubkey_default = (), cx_exit_initialized = (\<lambda>c. True), cx_exit_new = (\<lambda>s vs. Inr ()), cx_exit_default = (),
     cx_slashings_initialized = (\<lambda>c slot. True), cx_slashings_new = (\<lambda>slot vs. ()), cx_slashings_default = (),
     cx_slashings_slot = (\<lambda>slot c. ()), cx_progressive_default = (), cx_epoch_default = ()\<rparr>"

definition block_calls_x :: "(unit, unit) block_calls" where
  "block_calls_x = \<lparr>kx_initialize_epoch_cache = (\<lambda>s st. (Inr (), st)),
     kx_initialize_progressive_balances = (\<lambda>s st. (Inr (), st)),
     kx_verify_entire_block = (\<lambda>s sb st c. (sg_signature sb = [7], ())), kx_proposer_index = (\<lambda>s st c. (Inr 0, ())),
     kx_current_block_root = (\<lambda>sb c. (Inr zero_hash, ())), kx_header_root = bh_parent_root,
     kx_proposal_signature = (\<lambda>s st sb r i. Inr (sg_signature sb = [7])), kx_randao_signature = (\<lambda>s st b i. Inr True),
     kx_bid_signature = (\<lambda>s st b. Inr (Some True)), kx_is_infinity = (\<lambda>b. b = []),
     kx_withdrawals_gloas = (\<lambda>s st. (Inr (), st)), kx_withdrawals = (\<lambda>s p st. (Inr (), st)),
     kx_operations = (\<lambda>s b v p. (Inr (), p)), kx_sync_aggregate = (\<lambda>s a i v st. (Inr (), st)),
     kx_progressive_balances_enabled = (\<lambda>st. False), kx_update_metrics = (\<lambda>c. Inr ()),
     kx_requests_root = (\<lambda>r. zero_hash), kx_deposit_requests = (\<lambda>s xs st. (Inr (), st)),
     kx_withdrawal_requests = (\<lambda>s xs st. (Inr (), st)), kx_consolidation_requests = (\<lambda>s xs st. (Inr (), st)),
     kx_self_build_index = - 1\<rparr>"

definition block_hashes :: "unit tree_hashes" where
  "block_hashes = \<lparr>th_transactions = (\<lambda>ts. zero_hash), th_withdrawals = (\<lambda>ws. zero_hash), th_bytes = (\<lambda>bs. replicate 32 (hd bs)),
     th_payload = (\<lambda>p. zero_hash), th_header = (\<lambda>h. zero_hash), th_container = (\<lambda>rs. zero_hash)\<rparr>"

definition block_roots :: "unit leaf_roots" where
  "block_roots = \<lparr>lr_signature = (\<lambda>s. zero_hash), lr_eth1_data = (\<lambda>d. zero_hash), lr_graffiti = (\<lambda>g. zero_hash),
     lr_list = (\<lambda>xs. zero_hash), lr_sync_aggregate = (\<lambda>a. zero_hash), lr_payload = (\<lambda>p. zero_hash),
     lr_header = (\<lambda>f h. zero_hash), lr_commitments = (\<lambda>cs. zero_hash), lr_requests = (\<lambda>r. zero_hash),
     lr_bid = (\<lambda>b. zero_hash), lr_container = (\<lambda>rs. replicate 32 9), lr_proof = (\<lambda>rs i n. Inr [])\<rparr>"

definition sample_env :: "(unit, unit) block_env" where
  "sample_env = \<lparr>be_calls = block_calls_x, be_caches = block_caches, be_hashes = block_hashes, be_roots = block_roots,
     be_chain = selection_hash, be_sizes = sample_sizes, be_spec = devnet\<rparr>"

lemma sample_env_simps [simp]:
  "be_calls sample_env = block_calls_x" "be_caches sample_env = block_caches" "be_hashes sample_env = block_hashes"
  "be_roots sample_env = block_roots" "be_chain sample_env = selection_hash" "be_sizes sample_env = sample_sizes"
  "be_spec sample_env = devnet"
  by (simp_all add: sample_env_def)

lemma block_calls_lawful: "calls_keep_core block_calls_x"
  by (auto simp: calls_keep_core_def keeps_core_def block_calls_x_def)

lemma previous_rank: "previous_fork f = Some v \<Longrightarrow> fork_rank v \<le> fork_rank f"
  by (cases f) auto

lemma slots_lawful: "slots_keep_chain slot_x s"
  by (auto simp: slots_keep_chain_def slot_x_def chain_kept_def latest_header_def fork_order enabled_defs previous_rank
      split: if_splits)

section \<open>A block with a proof\<close>

definition daisugi_now :: "unit beacon_state" where
  "daisugi_now = full_state\<lparr>st_variant := Daisugi, st_versioning := (st_versioning sample_state)\<lparr>bs_slot := 321\<rparr>\<rparr>"

definition proof_payload :: "unit exec_payload" where
  "proof_payload = \<lparr>ep_variant = Daisugi, ep_parent_hash = zero_hash, ep_fee_recipient = replicate 20 0,
     ep_state_root = zero_hash, ep_receipts_root = zero_hash, ep_logs_bloom = replicate 256 0, ep_prev_randao = zero_hash,
     ep_block_number = 301, ep_gas_limit = 30000000, ep_gas_used = 21000, ep_timestamp = 3852, ep_extra_data = [],
     ep_base_fee_per_gas = 7, ep_block_hash = replicate 32 6, ep_transactions = [[6, 1]], ep_withdrawals = [],
     ep_blob_gas_used = 0, ep_excess_blob_gas = 0, ep_recursive_stark_proof = [2, 8, 8],
     ep_recursive_stark_block_deps_hash = replicate 32 8, ep_block_access_list = [], ep_slot_number = 0\<rparr>"

definition sample_data :: eth1_data where
  "sample_data = \<lparr>e1_deposit_root = zero_hash, e1_deposit_count = 4, e1_block_hash = zero_hash\<rparr>"

definition proof_block :: "unit signed_block" where
  "proof_block = \<lparr>sg_message = \<lparr>bk_slot = 321, bk_proposer_index = 0, bk_parent_root = zero_hash, bk_state_root = zero_hash,
     bk_body = \<lparr>bb_variant = Daisugi, bb_randao_reveal = [3], bb_eth1_data = sample_data, bb_graffiti = zero_hash,
       bb_proposer_slashings = [], bb_attester_slashings = [], bb_attestations = [], bb_deposits = [],
       bb_voluntary_exits = [], bb_sync_aggregate = (), bb_execution_payload = Full proof_payload,
       bb_bls_to_execution_changes = [], bb_blob_kzg_commitments = [], bb_execution_requests = no_requests,
       bb_signed_execution_payload_bid = \<lparr>sb_message = sample_bid, sb_signature = []\<rparr>,
       bb_payload_attestations = [], bb_parent_execution_requests = no_requests\<rparr>\<rparr>, sg_signature = [7]\<rparr>"

lemma daisugi_now_simps [simp]:
  "st_variant daisugi_now = Daisugi" "state_slot daisugi_now = 321" "current_epoch sample_sizes daisugi_now = 10"
  "st_execution daisugi_now = sample_header" "bs_randao_mixes (st_mixes daisugi_now) = replicate 4 zero_hash"
  "bs_validators (st_registry daisugi_now) = [full_validator, full_validator]"
  "bs_genesis_time (st_versioning daisugi_now) = 0" "bs_eth1_data_votes (st_eth1 daisugi_now) = []"
  "latest_header daisugi_now = \<lparr>bh_slot = 318, bh_proposer_index = 0, bh_parent_root = zero_hash, bh_state_root = zero_hash,
     bh_body_root = zero_hash\<rparr>" "st_caches daisugi_now = sample_caches"
  by (simp_all add: daisugi_now_def full_state_def sample_history current_epoch_def epoch_of_def latest_header_def)
    (simp_all add: sample_state_def)

lemma proof_block_simps [simp]:
  "bk_slot (sg_message proof_block) = 321" "block_variant (sg_message proof_block) = Daisugi"
  "bk_proposer_index (sg_message proof_block) = 0" "bk_parent_root (sg_message proof_block) = zero_hash"
  "bb_execution_payload (bk_body (sg_message proof_block)) = Full proof_payload"
  "bb_blob_kzg_commitments (bk_body (sg_message proof_block)) = []" "sg_signature proof_block = [7]"
  "bb_eth1_data (bk_body (sg_message proof_block)) = sample_data" "bb_randao_reveal (bk_body (sg_message proof_block)) = [3]"
  by (simp_all add: proof_block_def)

lemma daisugi_now_fork: "state_fork_name sample_sizes devnet daisugi_now = Inr Daisugi"
  by (simp add: state_fork_name_def fork_name_unchecked_def devnet_forks)

lemma proof_block_prepared: "prepare_block sample_env (sg_message proof_block) (daisugi_now, ()) = (Inr (), (daisugi_now, ()))"
proof -
  have "fork_name_at_slot mainnet_e devnet 321 = Daisugi"
    by (simp add: fork_name_at_slot_def epoch_of_def devnet_forks)
  then show ?thesis
    by (simp add: prepare_block_def step_simps daisugi_now_fork block_fork_name_def gloas_iff Let_def)
      (simp add: block_calls_x_def build_slashings_cache_def slashings_cache_is_initialized_def block_caches_def)
qed

lemma proof_block_header: "process_block_header sample_env (temporary_block_header block_roots (sg_message proof_block)) True
    (daisugi_now, ()) = (Inr 0, (set_latest_header block_caches (temporary_block_header block_roots (sg_message proof_block)) daisugi_now, ()))"
  unfolding process_block_header_Inr
  by (simp add: temporary_block_header_def block_header_of_def get_validator_def list_get_def ok_or_def)
    (simp add: block_calls_x_def full_validator_def)

text \<open>The state after the header, after the payload and after the rest of the body.\<close>

definition header_state :: "unit beacon_state" where
  "header_state = set_latest_header block_caches (temporary_block_header block_roots (sg_message proof_block)) daisugi_now"

lemma header_state_simps [simp]:
  "st_variant header_state = Daisugi" "state_slot header_state = 321" "current_epoch sample_sizes header_state = 10"
  "st_execution header_state = sample_header" "bs_randao_mixes (st_mixes header_state) = replicate 4 zero_hash"
  "bs_genesis_time (st_versioning header_state) = 0" "st_eth1 header_state = st_eth1 sample_state"
  "bs_committee_caches (st_caches header_state) = [(), (), ()]"
  "bs_total_active_balance (st_caches header_state) = Some (9, 1000000 * 1000000000)"
  by (simp_all add: header_state_def current_epoch_def epoch_of_def)
    (simp_all add: set_latest_header_def map_caches_def daisugi_now_def full_state_def sample_caches_def sample_state_def)

lemma built_caches: "build_committee_cache block_caches sample_sizes devnet Rel_Previous header_state = (Inr (), header_state)"
  "build_committee_cache block_caches sample_sizes devnet Rel_Current header_state = (Inr (), header_state)"
  by (simp_all add: build_committee_cache_def step_simps committee_cache_at_index_def list_get_def ok_or_def block_caches_def)

lemma header_mix: "get_randao_mix sample_sizes header_state 10 = Inr zero_hash"
  by (simp add: get_randao_mix_def get_randao_mix_index_def epoch_index_def Let_def safe_add_def ok_or_def upper_bound_of_def
      usize_rem_def list_get_def)

lemma payload_processed: "process_payload sample_env (sg_message proof_block) False header_state =
    (Inr (), header_state\<lparr>st_execution := header_from_daisugi block_hashes proof_payload\<rparr>)"
proof -
  have merged: "is_merge_transition_complete sample_sizes header_state"
    by (simp add: is_merge_transition_complete_def fork_name_unchecked_def enabled_defs fork_order)
  have time: "compute_timestamp_at_slot devnet 321 header_state = Some 3852"
    by (simp add: compute_timestamp_at_slot_def devnet_groups mainnet_constants_def mainnet_timing_def safe_sub_def safe_mul_def
        safe_add_def)
  have "process_execution_payload sample_env (bk_body (sg_message proof_block)) header_state =
      (Inr (), header_state\<lparr>st_execution := header_from_daisugi block_hashes proof_payload\<rparr>)"
    unfolding process_execution_payload_Inr put_payload_header_Inr partially_verify_Inr
    by (simp add: merged time header_mix body_payload_def partial_getter_def has_payload_def body_commitments_def
        execution_payload_header_from_def header_from_def)
      (simp add: proof_payload_def sample_header_def)
  then show ?thesis
    by (simp add: process_payload_def step_simps is_execution_enabled_def merged fork_name_unchecked_def gloas_iff
        enabled_defs fork_order body_payload_def has_payload_def)
      (simp add: block_calls_x_def step_simps)
qed

lemma body_processed: "\<exists>st'. process_body sample_env (sg_message proof_block) False False 0
    (header_state\<lparr>st_execution := header_from_daisugi block_hashes proof_payload\<rparr>, ()) = (Inr (), (st', ()))"
proof -
  let ?st = "header_state\<lparr>st_execution := header_from_daisugi block_hashes proof_payload\<rparr>"
  have epoch: "current_epoch sample_sizes ?st = 10" by (simp add: current_epoch_def epoch_of_def)
  then have mix: "get_randao_mix sample_sizes ?st 10 = Inr zero_hash"
    using header_mix by (simp add: get_randao_mix_def get_randao_mix_index_def epoch_index_def)
  obtain st1 where st1: "update_randao_mix sample_sizes selection_hash 10 [3] ?st = Inr st1" "st_eth1 st1 = st_eth1 sample_state"
    by (simp add: update_randao_mix_def mix usize_rem_def ok_or_def Let_def)
  have "\<exists>st2. process_eth1_data sample_sizes sample_data st1 = (Inr (), st2)"
    by (simp add: process_eth1_data_def step_simps get_new_eth1_data_def push_vote_def st1(2) checked_add_def checked_mul_def
        ok_or_def Let_def) (simp add: sample_state_def sample_sizes_def)
  then obtain st2 where st2: "process_eth1_data sample_sizes sample_data st1 = (Inr (), st2)" ..
  show ?thesis
    by (intro exI [of _ st2]) (simp add: process_body_def step_simps process_randao_def epoch st1(1) st2 body_sync_aggregate_def
      partial_getter_def block_calls_x_def)
qed

lemma proof_block_accepted:
  "\<exists>st'. per_block_processing sample_env proof_block VerifyBulk True (daisugi_now, ()) = (Inr (), (st', ()))"
proof -
  have bulk: "verify_strategy sample_env proof_block VerifyBulk (daisugi_now, ()) = (Inr False, (daisugi_now, ()))"
    by (simp add: verify_strategy_def step_bind_def on_ctxt_def read_state_def block_calls_x_def)
  show ?thesis using body_processed proof_block_header payload_processed
    by (simp add: per_block_processing_def Let_def step_bind_def on_state_def step_err_def read_state_def proof_block_prepared
        bulk built_caches flip: header_state_def)
qed

lemma accepted_block_witness: "\<exists>st'. per_block_processing sample_env proof_block VerifyBulk True (daisugi_now, ()) = (Inr (), (st', ())) \<and>
    eh_recursive_stark_block_deps_hash (st_execution st') = replicate 32 8"
proof -
  obtain st' where st': "per_block_processing sample_env proof_block VerifyBulk True (daisugi_now, ()) = (Inr (), (st', ()))"
    using proof_block_accepted by blast
  show ?thesis
    using accepted_block [of sample_env, OF _ st'] st' block_calls_lawful
    by (auto simp: Let_def enabled_defs fork_order proof_payload_def)
qed

lemma proof_block_run: "\<exists>st'. chain_run slot_x sample_env daisugi_now [proof_block] st'"
  using proof_block_accepted chain_run.block [OF chain_run.start] by fastforce

lemma run_keeps_schedule_witness:
  "\<exists>st'. chain_run slot_x sample_env daisugi_now [proof_block] st' \<and> st_variant st' = fork_name_at_slot mainnet_e devnet (state_slot st')"
proof -
  obtain st' where run: "chain_run slot_x sample_env daisugi_now [proof_block] st'" using proof_block_run by blast
  show ?thesis using run_keeps_schedule [OF _ _ _ run] run sample_lawful block_calls_lawful daisugi_now_fork by auto
qed

lemma payloads_linked_witness:
  "\<exists>st'. chain_run slot_x sample_env daisugi_now [proof_block] st' \<and> eh_block_hash (st_execution st') = replicate 32 6"
proof -
  obtain st' where run: "chain_run slot_x sample_env daisugi_now [proof_block] st'" using proof_block_run by blast
  have "fork_epoch devnet Gloas = None" using devnet_epochs [of Gloas] by simp
  then show ?thesis
    using payloads_linked [OF _ _ _ _ _ _ run] run sample_lawful slots_lawful block_calls_lawful daisugi_now_fork
    by (auto simp: enabled_defs fork_order proof_payload_def)
qed

section \<open>Builders and votes\<close>

definition rich_builder :: builder where
  "rich_builder = \<lparr>bu_pubkey = [], bu_version = 3, bu_execution_address = [], bu_balance = 64000000000, bu_deposit_epoch = 1,
     bu_withdrawable_epoch = - 1\<rparr>"

definition gloas_now :: "unit beacon_state" where
  "gloas_now = daisugi_now\<lparr>st_variant := Gloas, st_gloas := sample_gloas\<lparr>bs_builders := [rich_builder],
     bs_builder_pending_payments := replicate 64 \<lparr>bp_weight = 0,
       bp_withdrawal = \<lparr>bw_fee_recipient = [], bw_amount = 5, bw_builder_index = 0\<rparr>\<rparr>\<rparr>\<rparr>"

lemma settlement_keeps_debts_witness: "\<exists>st'. settle_builder_payment sample_sizes 3 gloas_now = (Inr (), st') \<and>
    get_pending_balance_to_withdraw_for_builder st' 0 = get_pending_balance_to_withdraw_for_builder gloas_now 0"
proof -
  have "\<exists>st'. settle_builder_payment sample_sizes 3 gloas_now = (Inr (), st')"
    by (simp add: settle_builder_payment_def step_bind_def step_get_def step_try_def from_state_def Let_def gloas_now_def list_get_def ok_or_def push_withdrawal_def set_gloas_def
        sample_gloas_def sample_sizes_def enabled_defs fork_order partial_getter_def)
  then obtain st' where st': "settle_builder_payment sample_sizes 3 gloas_now = (Inr (), st')" ..
  show ?thesis using settlement_keeps_debts [OF st'] st' by blast
qed

text \<open>A bid of the builder for the slot of the state.\<close>

definition paying_bid :: "unit payload_bid" where
  "paying_bid = sample_bid\<lparr>pb_slot := 321, pb_value := 7\<rparr>"

definition bid_block :: "unit block" where
  "bid_block = (sg_message proof_block)\<lparr>bk_body := (bk_body (sg_message proof_block))\<lparr>bb_variant := Gloas,
     bb_signed_execution_payload_bid := \<lparr>sb_message = paying_bid, sb_signature = [1]\<rparr>\<rparr>\<rparr>"

definition gloas_funded :: "unit beacon_state" where
  "gloas_funded = gloas_now\<lparr>st_gloas := (st_gloas gloas_now)\<lparr>bs_builder_pending_payments := replicate 64 no_payment\<rparr>\<rparr>"

lemma gloas_funded_simps [simp]:
  "st_variant gloas_funded = Gloas" "current_epoch sample_sizes gloas_funded = 10"
  "bs_builders (st_gloas gloas_funded) = [rich_builder]" "bs_builder_pending_withdrawals (st_gloas gloas_funded) = []"
  "bs_builder_pending_payments (st_gloas gloas_funded) = replicate 64 no_payment"
  "bs_latest_block_hash (st_gloas gloas_funded) = zero_hash" "cp_epoch (bs_finalized_checkpoint (st_finality gloas_funded)) = 8"
  "bs_randao_mixes (st_mixes gloas_funded) = replicate 4 zero_hash"
  by (simp_all add: gloas_funded_def gloas_now_def sample_gloas_def current_epoch_def epoch_of_def)
    (simp_all add: daisugi_now_def full_state_def sample_state_def sample_checkpoint_def)

lemma devnet_deposit: "min_deposit_amount (sp_gwei devnet) = 1000000000" "far_future_epoch (sp_constants devnet) = - 1"
  by (simp_all add: devnet_groups mainnet_constants_def)
    (simp add: devnet_def make_genesis_spec_def set_genesis_epochs_def set_fork_epoch_def Let_def mainnet_def mainnet_gwei_def)

lemma funded_bid: "verify_bid_builder sample_env \<lparr>sb_message = paying_bid, sb_signature = [1]\<rparr> True gloas_funded = Inr ()"
proof -
  have builder: "get_builder gloas_funded 0 = Inr rich_builder"
    by (simp add: get_builder_def partial_getter_def gloas_iff list_get_def ok_or_def)
  have "debt gloas_funded 0 = 0"
    by (simp add: debt_def withdrawal_debt_def no_payment_def no_withdrawal_def sum_list_replicate)
  then have "can_builder_cover_bid devnet gloas_funded 0 7 = Inr True"
    by (simp add: can_builder_cover_bid_def builder pending_balance_eq gloas_iff devnet_deposit safe_add_def ok_or_def
        rich_builder_def safe_sub_def)
  moreover have "is_active_builder devnet gloas_funded 0 = Inr True"
    by (simp add: is_active_builder_def builder rich_builder_def devnet_deposit)
  ultimately show ?thesis
    by (simp add: verify_bid_builder_def paying_bid_def sample_bid_def builder from_state_def
        block_calls_x_def)
qed

lemma funded_accepted: "\<exists>st'. process_execution_payload_bid sample_env bid_block True gloas_funded = (Inr (), st')"
proof -
  have bid: "body_bid (bk_body bid_block) = Inr \<lparr>sb_message = paying_bid, sb_signature = [1]\<rparr>"
    by (simp add: bid_block_def body_bid_def partial_getter_def)
  have mix: "get_randao_mix sample_sizes gloas_funded 10 = Inr zero_hash"
    by (simp add: get_randao_mix_def get_randao_mix_index_def epoch_index_def Let_def safe_add_def ok_or_def upper_bound_of_def
        usize_rem_def list_get_def)
  have "verify_bid_fields sample_env bid_block paying_bid gloas_funded = Inr ()"
    by (simp add: verify_bid_fields_def mix from_state_def partial_getter_def gloas_iff paying_bid_def sample_bid_def bid_block_def)
  moreover have "\<exists>st1. record_bid_payment sample_sizes paying_bid gloas_funded = Inr st1 \<and> st_variant st1 = Gloas"
    by (simp add: record_bid_payment_def paying_bid_def usize_rem_def checked_add_def ok_or_def from_state_def partial_getter_def
        gloas_iff)
  ultimately show ?thesis using funded_bid
    by (auto simp: process_execution_payload_bid_def step_bind_def step_get_def step_try_def bid from_state_def partial_getter_def
        gloas_iff)
qed

lemma bids_keep_solvency_witness:
  "\<exists>st'. process_execution_payload_bid sample_env bid_block True gloas_funded = (Inr (), st') \<and> solvent devnet st' 0"
proof -
  obtain st' where st': "process_execution_payload_bid sample_env bid_block True gloas_funded = (Inr (), st')"
    using funded_accepted by blast
  have bid: "body_bid (bk_body bid_block) = Inr \<lparr>sb_message = paying_bid, sb_signature = [1]\<rparr>"
    by (simp add: bid_block_def body_bid_def partial_getter_def)
  show ?thesis using bids_keep_solvency [OF st'] st'
    by (auto simp: bid paying_bid_def sample_bid_def block_calls_x_def)
qed

lemma majority_adopted_witness:
  "\<exists>st'. process_votes sample_sizes [sample_data, sample_data, sample_data] daisugi_now = (Inr (), st') \<and>
    bs_eth1_data (st_eth1 st') = sample_data"
proof -
  have "\<exists>st'. process_votes sample_sizes [sample_data, sample_data, sample_data] daisugi_now = (Inr (), st')"
    by (simp add: process_eth1_data_def step_bind_def step_get_def step_try_def get_new_eth1_data_def push_vote_def
        checked_add_def checked_mul_def ok_or_def Let_def sample_sizes_def)
  then obtain st' where st': "process_votes sample_sizes [sample_data, sample_data, sample_data] daisugi_now = (Inr (), st')" ..
  show ?thesis using majority_adopted [OF _ st'] st' by (auto simp: sample_sizes_def)
qed

section \<open>Blinding and decoding\<close>

lemma proof_block_full: "full_block proof_block"
  by (simp add: full_block_def Let_def proof_payload_def)

lemma unblinding_restores_witness: "\<exists>blinded. into_blinded block_hashes proof_block = (blinded, Some proof_payload) \<and>
    try_into_full_block blinded (Some proof_payload) = Some proof_block"
proof -
  have "into_blinded block_hashes proof_block =
      (blinded_with proof_block (Blinded Daisugi (header_from_daisugi block_hashes proof_payload)), Some proof_payload)"
    using into_blinded_some(1) [of proof_block proof_payload header_from_daisugi block_hashes]
    by (simp add: has_payload_def header_from_def)
  then show ?thesis using unblinding_restores [OF proof_block_full, of block_hashes] by (simp add: Let_def)
qed

lemma blinded_processed_alike_witness: "\<exists>st'. per_block_processing sample_env (clone_as_blinded block_hashes proof_block)
    VerifyBulk True (daisugi_now, ()) = (Inr (), (st', ()))"
proof -
  have blinded: "clone_as_blinded block_hashes proof_block =
      blinded_with proof_block (Blinded Daisugi (header_from_daisugi block_hashes proof_payload))"
    using into_blinded_some(2) [of proof_block proof_payload header_from_daisugi block_hashes]
    by (simp add: has_payload_def header_from_def)
  have other: "d = proof_payload"
    if "default_payload sample_sizes (ep_variant proof_payload) = Value d" "execution_payload_header_from block_hashes d = execution_payload_header_from block_hashes proof_payload" for d
  proof -
    have "ep_variant d = Daisugi" "ep_block_number d = 0"
      using that(1) by (auto simp: default_payload_def obind_Value proof_payload_def)
    then show ?thesis using that(2)
      by (simp add: execution_payload_header_from_def header_from_def header_from_daisugi_def proof_payload_def)
  qed
  have lawful: "blinding_lawful sample_env proof_block"
    unfolding blinding_lawful_def Let_def sample_env_simps blinded
    by (intro conjI) (auto simp: block_calls_x_def block_roots_def blinded_with_def proof_block_def dest: other)
  show ?thesis using blinded_processed_alike [OF proof_block_full lawful, of VerifyBulk True] proof_block_accepted by simp
qed

definition daisugi_codec :: "unit block_codec" where
  "daisugi_codec = \<lparr>bc_block = (\<lambda>f bytes. if f = Daisugi \<and> length bytes = 8 then Inr (sg_message proof_block) else Inl (DE_InvalidByteLength (length bytes) 8)),
     bc_signed = (\<lambda>f bytes. if f = Daisugi then Inr proof_block else Inl (DE_OutOfBoundsByte 0)), bc_append = (\<lambda>sb. [])\<rparr>"

lemma daisugi_not_guessed_witness: "\<exists>e. any_from_ssz_bytes daisugi_codec (replicate 8 0) = Inl e"
proof -
  have "codec_typed daisugi_codec" by (auto simp: codec_typed_def daisugi_codec_def split: if_splits)
  from daisugi_not_guessed [OF this, of "replicate 8 0"] show ?thesis by (simp add: daisugi_codec_def)
qed

end
