(* ===== verification/Genesis_Witnesses.thy ===== *)
theory Genesis_Witnesses
  imports Genesis_Facts Block_Witnesses
begin

text \<open>
  The theorems about genesis, applied to the genesis specification of Deneb without deposits and with the
  payload header of a chain that already exists, and to two validators with different balances.
\<close>

definition deneb_genesis :: chain_spec where
  "deneb_genesis = make_genesis_spec Deneb (mainnet chain_x)"

text \<open>An upgrade that changes the variant and records the fork, and nothing else.\<close>

definition raise_fork :: "fork_name \<Rightarrow> chain_spec \<Rightarrow> (unit beacon_state, state_error, unit) step" where
  "raise_fork f s st = (if previous_fork f = Some (st_variant st)
     then (Inr (), st\<lparr>st_variant := f, st_versioning := (st_versioning st)\<lparr>bs_fork :=
       \<lparr>fk_previous_version = fk_current_version (bs_fork (st_versioning st)),
        fk_current_version = fork_version_for_name s f, fk_epoch = current_epoch sample_sizes st\<rparr>\<rparr>\<rparr>)
     else (Inl BSE_IncorrectStateVariant, st))"

definition genesis_calls :: "(unit, nat) genesis_externals" where
  "genesis_calls = \<lparr>gx_tree_new = 0, gx_push_leaf = (\<lambda>d n. Inr (n + 1)), gx_tree_root = (\<lambda>n. replicate 32 (of_nat n)),
     gx_apply_deposit = (\<lambda>s d st. (Inr (), st)),
     gx_upgrade_state_to_electra = (\<lambda>e e' s st. case raise_fork Electra s st of
       (Inr _, st') \<Rightarrow> (Inr st', st) | (Inl e, st') \<Rightarrow> (Inl e, st')),
     gx_validators_root = (\<lambda>vs. Inr (replicate 32 4)), gx_absent = sample_state,
     gx_genesis_epoch = 0, gx_no_justification = replicate 4 False\<rparr>"

definition genesis_x :: "(unit, nat, unit, unit) genesis_env" where
  "genesis_x = \<lparr>ge_calls = genesis_calls, ge_slots = slot_x\<lparr>sx_upgrade := raise_fork\<rparr>, ge_select = selection_x,
     ge_caches = block_caches, ge_chain = selection_hash, ge_roots = block_roots,
     ge_empty = \<lparr>ev_signature = replicate 96 0, ev_sync_aggregate = (), ev_signed_bid = \<lparr>sb_message = sample_bid, sb_signature = []\<rparr>\<rparr>,
     ge_sizes = sample_sizes, ge_spec = deneb_genesis\<rparr>"

lemma genesis_x_simps [simp]:
  "ge_calls genesis_x = genesis_calls" "ge_slots genesis_x = slot_x\<lparr>sx_upgrade := raise_fork\<rparr>" "ge_caches genesis_x = block_caches"
  "ge_roots genesis_x = block_roots" "ge_sizes genesis_x = sample_sizes" "ge_spec genesis_x = deneb_genesis"
  by (simp_all add: genesis_x_def)

lemma raise_lawful: "genesis_upgrades sample_sizes s (raise_fork f s) f"
  by (auto simp: genesis_upgrades_def raise_fork_def latest_header_def split: if_splits)

lemma genesis_x_lawful: "genesis_lawful genesis_x"
proof -
  have "genesis_upgrades sample_sizes deneb_genesis (genesis_upgrade genesis_x f) f" if "f \<noteq> Daisugi" for f
  proof (cases "f = Electra")
    case True
    have "genesis_upgrade genesis_x f st = (Inr x, st') \<Longrightarrow> raise_fork f deneb_genesis st = (Inr x, st')" for st x st'
      by (auto simp: True genesis_upgrade_def step_simps genesis_calls_def split: prod.splits sum.splits)
    then show ?thesis using raise_lawful [of deneb_genesis f] unfolding genesis_upgrades_def by blast
  next
    case False
    then show ?thesis using that raise_lawful [of deneb_genesis f]
      by (simp add: genesis_upgrade_def upgrade_to_def genesis_upgrades_def step_simps)
  qed
  then show ?thesis by (auto simp: genesis_lawful_def genesis_calls_def same_chain_def)
qed

lemma genesis_zero: "gx_genesis_epoch genesis_calls = 0"
  by (simp add: genesis_calls_def)

lemma deneb_epochs: "fork_epoch deneb_genesis f = (if f \<in> {Base, Altair, Bellatrix, Capella, Deneb} then Some 0 else None)"
  by (cases f) (simp_all add: deneb_genesis_def fork_epoch_genesis fork_order)

lemma deneb_name: "fork_name_at_epoch deneb_genesis 0 = Deneb"
  by (simp add: fork_name_at_epoch_def fork_table_epochs deneb_epochs)

lemma deneb_slot: "genesis_slot (sp_constants deneb_genesis) = 0"
  by (simp add: deneb_genesis_def mainnet_def mainnet_constants_def)

section \<open>The state\<close>

lemma deneb_new: "\<exists>st. new_state genesis_x t d = Value st \<and> st_variant st = Base \<and> st_registry st = \<lparr>bs_validators = [], bs_balances = []\<rparr> \<and>
    bs_committee_caches (st_caches st) = [(), (), ()] \<and> bs_total_active_balance (st_caches st) = None \<and> state_slot st = 0"
proof -
  have "\<exists>b. empty_block sample_sizes (ge_empty genesis_x) deneb_genesis = Value b"
    by (simp add: empty_block_def deneb_name empty_block_at_def empty_slot_def deneb_epochs expect_def empty_body_def
        default_payload_def)
  then show ?thesis by (auto simp: new_state_def Let_def deneb_slot numeral_3_eq_3 block_caches_def)
qed

lemma deneb_fork:
  assumes "f \<in> {Altair, Bellatrix, Capella}" and "previous_fork f = Some (st_variant st)"
  shows "\<exists>st'. genesis_fork genesis_x (Some (Deneb, sample_header)) f st = (Inr (), st') \<and> st_variant st' = f \<and>
    st_registry st' = st_registry st \<and> st_caches st' = st_caches st \<and> state_slot st' = state_slot st"
  using assms by (auto simp: genesis_fork_def deneb_epochs genesis_calls_def genesis_upgrade_def upgrade_to_def step_bind_def
      step_err_def step_get_def step_try_def raise_fork_def set_previous_version_def override_header_def)

lemma deneb_last: "st_variant st = Capella \<Longrightarrow> \<exists>st'. genesis_fork genesis_x (Some (Deneb, sample_header)) Deneb st = (Inr (), st') \<and>
    st_variant st' = Deneb \<and> st_registry st' = st_registry st \<and> st_caches st' = st_caches st \<and> state_slot st' = state_slot st"
  by (auto simp: genesis_fork_def deneb_epochs genesis_calls_def genesis_upgrade_def upgrade_to_def step_bind_def
      step_err_def step_get_def step_try_def raise_fork_def set_previous_version_def override_header_def has_payload_def
      partial_getter_def from_state_def)

lemma deneb_later: "f \<in> {Electra, Daisugi, Fulu, Gloas} \<Longrightarrow> genesis_fork genesis_x h f st = (Inr (), st)"
  by (auto simp: genesis_fork_def deneb_epochs genesis_calls_def step_get_def)

lemma deneb_forks:
  assumes "st_variant st = Base"
  shows "\<exists>st'. genesis_forks genesis_x (Some (Deneb, sample_header)) upgrade_order st = (Inr (), st') \<and>
    st_registry st' = st_registry st \<and> st_caches st' = st_caches st \<and> state_slot st' = state_slot st"
proof -
  let ?f = "genesis_fork genesis_x (Some (Deneb, sample_header))"
  let ?same = "\<lambda>a b. st_registry b = st_registry a \<and> st_caches b = st_caches a \<and> state_slot b = state_slot a"
  obtain a where a: "?f Altair st = (Inr (), a)" "st_variant a = Altair" "?same st a"
    using deneb_fork [of Altair st] assms by auto
  obtain b where b: "?f Bellatrix a = (Inr (), b)" "st_variant b = Bellatrix" "?same a b"
    using deneb_fork [of Bellatrix a] a by auto
  obtain c where c: "?f Capella b = (Inr (), c)" "st_variant c = Capella" "?same b c"
    using deneb_fork [of Capella b] b by auto
  obtain d where d: "?f Deneb c = (Inr (), d)" "?same c d"
    using deneb_last [of c] c by auto
  show ?thesis using a b c d by (simp add: upgrade_order_def step_simps deneb_later)
qed

lemma deneb_caches:
  assumes "bs_committee_caches (st_caches st) = [(), (), ()]" "bs_total_active_balance (st_caches st) = None"
    and "bs_validators (st_registry st) = []"
  shows "\<exists>st'. finish_genesis genesis_x st = (Inr (), st')"
proof -
  let ?b = "build_committee_cache block_caches sample_sizes deneb_genesis"
  obtain t where t: "?b Rel_Current st = (Inr (), st\<lparr>st_caches := (st_caches st)\<lparr>bs_total_active_balance := Some t\<rparr>\<rparr>)"
    using assms by (simp add: build_committee_cache_def step_simps committee_cache_at_index_def list_get_def ok_or_def
        block_caches_def build_total_active_balance_cache_def get_total_active_balance_at_epoch_def
        force_build_total_active_balance_cache_def compute_total_active_balance_slow_def)
  have "?b Rel_Previous st = (Inr (), st)"
    "?b Rel_Next (st\<lparr>st_caches := (st_caches st)\<lparr>bs_total_active_balance := Some t\<rparr>\<rparr>) =
      (Inr (), st\<lparr>st_caches := (st_caches st)\<lparr>bs_total_active_balance := Some t\<rparr>\<rparr>)"
    using assms by (simp_all add: build_committee_cache_def step_simps committee_cache_at_index_def list_get_def ok_or_def
        block_caches_def)
  then show ?thesis using t assms
    by (simp add: finish_genesis_def step_simps build_caches_def build_all_committee_caches_def update_pubkey_cache_def Let_def
        put_pubkey_cache_def map_caches_def build_exit_cache_def build_slashings_cache_def slashings_cache_is_initialized_def
        genesis_calls_def from_state_def)
      (simp add: block_caches_def)
qed

lemma deneb_initialized:
  "\<exists>st. initialize_beacon_state_from_eth1 genesis_x zero_hash 1600 [] (Some (Deneb, sample_header)) = Inr st"
proof -
  have time: "\<exists>t. eth2_genesis_time deneb_genesis 1600 = Some t"
    by (simp add: eth2_genesis_time_def deneb_genesis_def safe_add_def mainnet_def mainnet_timing_def)
  then obtain t where t: "eth2_genesis_time deneb_genesis 1600 = Some t" ..
  let ?d = "\<lparr>e1_deposit_root = replicate 32 0, e1_deposit_count = of_nat (length ([] :: unit list)), e1_block_hash = zero_hash\<rparr>"
  obtain st0 where st0: "new_state genesis_x t ?d = Value st0" "st_variant st0 = Base"
    "st_registry st0 = \<lparr>bs_validators = [], bs_balances = []\<rparr>"
    "bs_committee_caches (st_caches st0) = [(), (), ()]" "bs_total_active_balance (st_caches st0) = None"
    using deneb_new by blast
  let ?st = "fill_randao_mixes_with sample_sizes zero_hash st0"
  have act: "process_activations deneb_genesis 0 ?st = (Inr (), ?st)"
    by (simp add: process_activations_def fill_randao_mixes_with_def st0)
  obtain st1 where st1: "genesis_forks genesis_x (Some (Deneb, sample_header)) upgrade_order ?st = (Inr (), st1)"
    "st_registry st1 = st_registry ?st" "st_caches st1 = st_caches ?st"
    using deneb_forks [of ?st] st0 by (auto simp: fill_randao_mixes_with_def)
  obtain st2 where "finish_genesis genesis_x st1 = (Inr (), st2)"
    using deneb_caches [of st1] st0 st1 by (auto simp: fill_randao_mixes_with_def)
  then show ?thesis using t st0(1) st1(1) act
    by (simp add: initialize_beacon_state_from_eth1_def genesis_zero Let_def ok_or_def step_bind_def step_err_def step_get_def)
qed

lemma genesis_consistent_witness:
  "\<exists>st. initialize_beacon_state_from_eth1 genesis_x zero_hash 1600 [] (Some (Deneb, sample_header)) = Inr st \<and>
     st_variant st = Deneb \<and> st_execution st = sample_header"
proof -
  obtain st where st: "initialize_beacon_state_from_eth1 genesis_x zero_hash 1600 [] (Some (Deneb, sample_header)) = Inr st"
    using deneb_initialized by blast
  have "genesis_slot (sp_constants (ge_spec genesis_x)) = 0" by (simp add: deneb_slot)
  from genesis_consistent [OF genesis_x_lawful this st] st show ?thesis
    by (auto simp: deneb_name Let_def has_payload_def)
qed

section \<open>Activations\<close>

text \<open>One validator with 40 and one with 31.5 tokens.\<close>

definition young_state :: "unit beacon_state" where
  "young_state = full_state\<lparr>st_registry := (st_registry full_state)\<lparr>bs_balances := [40000000000, 31500000000]\<rparr>\<rparr>"

lemma deneb_gwei: "effective_balance_increment (sp_gwei deneb_genesis) = 1000000000"
  "max_effective_balance (sp_gwei deneb_genesis) = 32000000000"
  by (simp_all add: deneb_genesis_def make_genesis_spec_def set_genesis_epochs_def set_fork_epoch_def Let_def mainnet_def
      mainnet_gwei_def)

lemma activation_exact_witness: "\<exists>st'. process_activations deneb_genesis 0 young_state = (Inr (), st') \<and>
    unat (va_effective_balance (bs_validators (st_registry st') ! 1)) = 31000000000"
proof -
  have "\<exists>st'. process_activations deneb_genesis 0 young_state = (Inr (), st')"
    by (simp add: process_activations_def young_state_def list_get_def ok_or_def activate_validator_def deneb_gwei safe_rem_def
        safe_sub_def Let_def)
  then obtain st' where st': "process_activations deneb_genesis 0 young_state = (Inr (), st')" ..
  have two: "bs_validators (st_registry young_state) = [full_validator, full_validator]"
    "bs_balances (st_registry young_state) = [40000000000, 31500000000]" by (simp_all add: young_state_def)
  have "unat (va_effective_balance (bs_validators (st_registry st') ! 1)) = genesis_effective deneb_genesis 31500000000"
    using activation_exact [OF st'] by (simp add: Let_def two)
  then show ?thesis using st' by (simp add: genesis_effective_def deneb_gwei)
qed

end
