(* ===== verification/State_Proofs.thy ===== *)
theory State_Proofs
  imports Block_Types
begin

text \<open>
  Merkle proofs for the fields of the beacon state and of a block body (\<open>beacon_state.rs\<close>,
  \<open>beacon_block_body.rs\<close>): the leaves of every variant in the order of the struct, the number of leaves
  and the proofs that light clients are served. The tree hashes of the fields, the tree and the generalized
  indices of the specification are upstream code and parameters.
\<close>

record 'o state_roots =
  hr_u64 :: "u64 \<Rightarrow> root"
  hr_root :: "root \<Rightarrow> root"
  hr_fork :: "fork \<Rightarrow> root"
  hr_header :: "block_header \<Rightarrow> root"
  hr_root_vector :: "root list \<Rightarrow> root"
  hr_root_list :: "root list \<Rightarrow> root"
  hr_eth1_data :: "eth1_data \<Rightarrow> root"
  hr_eth1_list :: "eth1_data list \<Rightarrow> root"
  hr_validators :: "validator list \<Rightarrow> root"
  hr_u64_list :: "u64 list \<Rightarrow> root"
  hr_u64_vector :: "u64 list \<Rightarrow> root"
  hr_list :: "'o list \<Rightarrow> root"
  hr_flags :: "byte list \<Rightarrow> root"
  hr_bits :: "bool list \<Rightarrow> root"
  hr_checkpoint :: "checkpoint \<Rightarrow> root"
  hr_sync_committee :: "sync_committee \<Rightarrow> root"
  hr_payload_header :: "fork_name \<Rightarrow> exec_header \<Rightarrow> root"
  hr_pending_deposits :: "pending_deposit list \<Rightarrow> root"
  hr_partial_withdrawals :: "'o partial_withdrawal list \<Rightarrow> root"
  hr_builders :: "builder list \<Rightarrow> root"
  hr_builder_payments :: "builder_payment list \<Rightarrow> root"
  hr_builder_withdrawals :: "builder_withdrawal list \<Rightarrow> root"
  hr_bid :: "'o payload_bid \<Rightarrow> root"
  hr_ptc_window :: "u64 list list \<Rightarrow> root"
  hr_proof :: "root list \<Rightarrow> nat \<Rightarrow> nat \<Rightarrow> state_error + root list"
  hr_current_sync_committee_index :: nat
  hr_current_sync_committee_index_electra :: nat
  hr_next_sync_committee_index :: nat
  hr_next_sync_committee_index_electra :: nat
  hr_finalized_root_index :: nat
  hr_finalized_root_index_electra :: nat

section \<open>The leaves of the state\<close>

definition versioning_leaves :: "'o state_roots \<Rightarrow> 'o beacon_state \<Rightarrow> root list" where
  "versioning_leaves H st =
     [hr_u64 H (bs_genesis_time (st_versioning st)),
      hr_root H (bs_genesis_validators_root (st_versioning st)),
      hr_u64 H (bs_slot (st_versioning st)),
      hr_fork H (bs_fork (st_versioning st)),
      hr_header H (bs_latest_block_header (st_history st)),
      hr_root_vector H (bs_block_roots (st_history st)),
      hr_root_vector H (bs_state_roots (st_history st)),
      hr_root_list H (bs_historical_roots (st_history st)),
      hr_eth1_data H (bs_eth1_data (st_eth1 st)),
      hr_eth1_list H (bs_eth1_data_votes (st_eth1 st)),
      hr_u64 H (bs_eth1_deposit_index (st_eth1 st)),
      hr_validators H (bs_validators (st_registry st)),
      hr_u64_list H (bs_balances (st_registry st)),
      hr_root_vector H (bs_randao_mixes (st_mixes st)),
      hr_u64_vector H (bs_slashings (st_mixes st))]"

definition participation_leaves :: "'o state_roots \<Rightarrow> 'o beacon_state \<Rightarrow> root list" where
  "participation_leaves H st =
     (if st_variant st = Base
      then [hr_list H (bs_previous_epoch_attestations (st_attestations st)),
        hr_list H (bs_current_epoch_attestations (st_attestations st))]
      else [hr_flags H (bs_previous_epoch_participation (st_participation st)),
        hr_flags H (bs_current_epoch_participation (st_participation st))])"

definition finality_leaves :: "'o state_roots \<Rightarrow> 'o beacon_state \<Rightarrow> root list" where
  "finality_leaves H st =
     [hr_bits H (bs_justification_bits (st_finality st)),
      hr_checkpoint H (bs_previous_justified_checkpoint (st_finality st)),
      hr_checkpoint H (bs_current_justified_checkpoint (st_finality st)),
      hr_checkpoint H (bs_finalized_checkpoint (st_finality st))]"

definition altair_leaves :: "'o state_roots \<Rightarrow> 'o beacon_state \<Rightarrow> root list" where
  "altair_leaves H st =
     [hr_u64_list H (bs_inactivity_scores (st_participation st)),
      hr_sync_committee H (bs_current_sync_committee (st_participation st)),
      hr_sync_committee H (bs_next_sync_committee (st_participation st))]"

definition execution_leaves :: "'o state_roots \<Rightarrow> 'o beacon_state \<Rightarrow> root list" where
  "execution_leaves H st =
     (if st_variant st = Gloas then [hr_root H (bs_latest_block_hash (st_gloas st))]
      else [hr_payload_header H (st_variant st) (st_execution st)])"

definition capella_leaves :: "'o state_roots \<Rightarrow> 'o beacon_state \<Rightarrow> root list" where
  "capella_leaves H st =
     [hr_u64 H (bs_next_withdrawal_index (st_capella st)),
      hr_u64 H (bs_next_withdrawal_validator_index (st_capella st)),
      hr_list H (bs_historical_summaries (st_capella st))]"

definition electra_leaves :: "'o state_roots \<Rightarrow> 'o beacon_state \<Rightarrow> root list" where
  "electra_leaves H st =
     [hr_u64 H (bs_deposit_requests_start_index (st_electra st)),
      hr_u64 H (bs_deposit_balance_to_consume (st_electra st)),
      hr_u64 H (bs_exit_balance_to_consume (st_electra st)),
      hr_u64 H (bs_earliest_exit_epoch (st_electra st)),
      hr_u64 H (bs_consolidation_balance_to_consume (st_electra st)),
      hr_u64 H (bs_earliest_consolidation_epoch (st_electra st)),
      hr_pending_deposits H (bs_pending_deposits (st_electra st)),
      hr_partial_withdrawals H (bs_pending_partial_withdrawals (st_electra st)),
      hr_list H (bs_pending_consolidations (st_electra st))]"

definition gloas_leaves :: "'o state_roots \<Rightarrow> 'o beacon_state \<Rightarrow> root list" where
  "gloas_leaves H st =
     [hr_builders H (bs_builders (st_gloas st)),
      hr_u64 H (bs_next_withdrawal_builder_index (st_gloas st)),
      hr_bits H (bs_execution_payload_availability (st_gloas st)),
      hr_builder_payments H (bs_builder_pending_payments (st_gloas st)),
      hr_builder_withdrawals H (bs_builder_pending_withdrawals (st_gloas st)),
      hr_bid H (bs_latest_execution_payload_bid (st_gloas st)),
      hr_list H (bs_payload_expected_withdrawals (st_gloas st)),
      hr_ptc_window H (bs_ptc_window (st_gloas st))]"

definition get_beacon_state_leaves :: "'o state_roots \<Rightarrow> 'o beacon_state \<Rightarrow> root list" where
  "get_beacon_state_leaves H st =
     (let f = st_variant st in
      versioning_leaves H st @ participation_leaves H st @ finality_leaves H st @
      (if f \<noteq> Base then altair_leaves H st else []) @
      (if f \<notin> {Base, Altair} then execution_leaves H st else []) @
      (if f \<notin> {Base, Altair, Bellatrix} then capella_leaves H st else []) @
      (if f \<in> {Electra, Fulu, Gloas, Daisugi} then electra_leaves H st else []) @
      (if f \<in> {Fulu, Gloas} then [hr_u64_vector H (bs_proposer_lookahead (st_gloas st))] else []) @
      (if f = Gloas then gloas_leaves H st else []))"

text \<open>\<open>NUM_FIELDS\<close> of each variant counts the fields of its struct without the caches.\<close>

fun num_fields :: "fork_name \<Rightarrow> nat" where
  "num_fields Base = 21"
| "num_fields Altair = 24"
| "num_fields Bellatrix = 25"
| "num_fields Capella = 28"
| "num_fields Deneb = 28"
| "num_fields Electra = 37"
| "num_fields Daisugi = 37"
| "num_fields Fulu = 38"
| "num_fields Gloas = 46"

definition num_fields_pow2 :: "'o beacon_state \<Rightarrow> nat" where
  "num_fields_pow2 st = 2 ^ log2_up (num_fields (fork_name_unchecked st))"

section \<open>Proofs of fields of the state\<close>

definition usize_safe_sub :: "nat \<Rightarrow> nat \<Rightarrow> nat option" where
  "usize_safe_sub a b = (if a < b then None else Some (a - b))"

definition generate_proof ::
  "'o state_roots \<Rightarrow> nat \<Rightarrow> root list \<Rightarrow> 'o beacon_state \<Rightarrow> state_error + root list" where
  "generate_proof H field_index leaves st =
     (if field_index \<ge> length leaves then Inl (BSE_IndexNotSupported field_index)
      else hr_proof H leaves field_index (log2_up (num_fields_pow2 st)))"

definition compute_current_sync_committee_proof :: "'o state_roots \<Rightarrow> 'o beacon_state \<Rightarrow> state_error + root list" where
  "compute_current_sync_committee_proof H st =
     (let field_gindex = if electra_enabled (fork_name_unchecked st)
        then hr_current_sync_committee_index_electra H else hr_current_sync_committee_index H in
      rbind (arith (usize_safe_sub field_gindex (num_fields_pow2 st))) (\<lambda>field_index.
      generate_proof H field_index (get_beacon_state_leaves H st) st))"

definition compute_next_sync_committee_proof :: "'o state_roots \<Rightarrow> 'o beacon_state \<Rightarrow> state_error + root list" where
  "compute_next_sync_committee_proof H st =
     (let field_gindex = if electra_enabled (fork_name_unchecked st)
        then hr_next_sync_committee_index_electra H else hr_next_sync_committee_index H in
      rbind (arith (usize_safe_sub field_gindex (num_fields_pow2 st))) (\<lambda>field_index.
      generate_proof H field_index (get_beacon_state_leaves H st) st))"

definition compute_finalized_root_proof :: "'o state_roots \<Rightarrow> 'o beacon_state \<Rightarrow> state_error + root list" where
  "compute_finalized_root_proof H st =
     (let checkpoint_root_gindex = if electra_enabled (fork_name_unchecked st)
        then hr_finalized_root_index_electra H else hr_finalized_root_index H;
          checkpoint_gindex = checkpoint_root_gindex div 2 in
      rbind (arith (usize_safe_sub checkpoint_gindex (num_fields_pow2 st))) (\<lambda>checkpoint_index.
      rbind (generate_proof H checkpoint_index (get_beacon_state_leaves H st) st) (\<lambda>proof_roots.
      Inr (hr_u64 H (cp_epoch (bs_finalized_checkpoint (st_finality st))) # proof_roots))))"

section \<open>The proof of the payload in a block body\<close>

text \<open>\<open>block_body_merkle_proof\<close>, with the generalized index and the proof length of the payload.\<close>

definition block_body_merkle_proof ::
  "'o leaf_roots \<Rightarrow> nat \<Rightarrow> nat \<Rightarrow> 'o block_body \<Rightarrow> nat \<Rightarrow> state_error + root list" where
  "block_body_merkle_proof R payload_index payload_proof_len b generalized_index =
     (if generalized_index = payload_index then
        rbind (ok_or (usize_safe_sub generalized_index NUM_BEACON_BLOCK_BODY_HASH_TREE_ROOT_LEAVES)
            (BSE_GeneralizedIndexNotSupported generalized_index)) (\<lambda>field_index.
        lr_proof R (body_merkle_leaves R b) field_index payload_proof_len)
      else Inl (BSE_GeneralizedIndexNotSupported generalized_index))"

end
