(* ===== verification/Light_Client.thy ===== *)
theory Light_Client
  imports State_Proofs
begin

text \<open>
  The light client types (\<open>consensus/types/src/light_client/\<close>): headers, bootstraps, updates, finality
  and optimistic updates over all variants, how they are made from blocks and states, and how updates are
  ranked. Blocks are blinded, as in the code. The generated codecs, the bits of a sync aggregate, the empty
  block header and the constants of the specification are parameters.
\<close>

datatype lc_error =
    LCE_BeaconStateError state_error
  | LCE_SszTypesError
  | LCE_ArithError
  | LCE_AltairForkNotActive
  | LCE_InconsistentFork
  | LCE_BeaconBlockBodyError
  | LCE_GloasNotImplemented

record 'o lc_env =
  le_sizes :: state_spec
  le_spec :: chain_spec
  le_roots :: "'o leaf_roots"
  le_state_roots :: "'o state_roots"
  le_empty_header :: block_header
  le_payload_index :: nat
  le_payload_proof_len :: nat
  le_sync_committee_bits :: "'o \<Rightarrow> bool list"
  le_canonical_root :: "block_header \<Rightarrow> root"

definition finalized_root_proof_len :: "fork_name \<Rightarrow> nat" where
  "finalized_root_proof_len f = (if f \<in> {Electra, Fulu, Daisugi} then 7 else 6)"

definition current_sync_committee_proof_len :: "fork_name \<Rightarrow> nat" where
  "current_sync_committee_proof_len f = (if f \<in> {Electra, Fulu, Daisugi} then 6 else 5)"

definition next_sync_committee_proof_len :: "fork_name \<Rightarrow> nat" where
  "next_sync_committee_proof_len f = (if f \<in> {Electra, Fulu, Daisugi} then 6 else 5)"

definition execution_payload_proof_len :: nat where "execution_payload_proof_len = 4"

text \<open>A vector of fixed length, from a list.\<close>

definition fixed_vector :: "nat \<Rightarrow> 'a list \<Rightarrow> lc_error + 'a list" where
  "fixed_vector n xs = (if length xs = n then Inr xs else Inl LCE_SszTypesError)"

definition lc_state :: "state_error + 'a \<Rightarrow> lc_error + 'a" where
  "lc_state = map_sum LCE_BeaconStateError id"

definition lc_arith :: "'a option \<Rightarrow> lc_error + 'a" where
  "lc_arith x = ok_or x LCE_ArithError"

section \<open>Headers\<close>

text \<open>The variants are Altair, Capella, Deneb, Electra, Fulu and Daisugi; a header of Altair has no payload
  header and no branch.\<close>

record lc_header =
  lh_variant :: fork_name
  lh_beacon :: block_header
  lh_execution :: exec_header
  lh_execution_branch :: "root list"

definition default_lc_header :: "'o lc_env \<Rightarrow> fork_name \<Rightarrow> lc_header" where
  "default_lc_header V f = \<lparr>lh_variant = f, lh_beacon = le_empty_header V, lh_execution = default_header (le_sizes V),
     lh_execution_branch = replicate execution_payload_proof_len (replicate 32 0)\<rparr>"

definition blinded_header :: "fork_name \<Rightarrow> 'o block_body \<Rightarrow> lc_error + exec_header" where
  "blinded_header f body =
     rbind (lc_state (body_payload body)) (\<lambda>payload.
     case payload of
       Blinded g header \<Rightarrow> if g = f then Inr header else Inl (LCE_BeaconStateError BSE_IncorrectStateVariant)
     | Full _ \<Rightarrow> Inl (LCE_BeaconStateError BSE_IncorrectStateVariant))"

text \<open>\<open>LightClientHeaderX::block_to_light_client_header\<close>.\<close>

definition lc_header_at :: "'o lc_env \<Rightarrow> fork_name \<Rightarrow> 'o signed_block \<Rightarrow> lc_error + lc_header" where
  "lc_header_at V f sb =
     (let message = sg_message sb; body = bk_body message; beacon = block_header_of (le_roots V) message in
      if f = Altair then Inr ((default_lc_header V Altair)\<lparr>lh_beacon := beacon\<rparr>)
      else
        rbind (blinded_header f body) (\<lambda>header.
        rbind (if bb_variant body = f then Inr () else Inl LCE_BeaconBlockBodyError) (\<lambda>_.
        rbind (lc_state (block_body_merkle_proof (le_roots V) (le_payload_index V) (le_payload_proof_len V) body
            (le_payload_index V))) (\<lambda>execution_branch.
        rbind (fixed_vector execution_payload_proof_len execution_branch) (\<lambda>execution_branch.
        Inr \<lparr>lh_variant = f, lh_beacon = beacon, lh_execution = header, lh_execution_branch = execution_branch\<rparr>)))))"

text \<open>The variant of the light client types at a fork.\<close>

definition lc_variant :: "fork_name \<Rightarrow> lc_error + fork_name" where
  "lc_variant f = (case f of
     Base \<Rightarrow> Inl LCE_AltairForkNotActive | Altair \<Rightarrow> Inr Altair | Bellatrix \<Rightarrow> Inr Altair
   | Gloas \<Rightarrow> Inl LCE_GloasNotImplemented | _ \<Rightarrow> Inr f)"

definition lc_block_fork :: "'o lc_env \<Rightarrow> 'o signed_block \<Rightarrow> lc_error + fork_name" where
  "lc_block_fork V sb =
     (case block_fork_name (le_sizes V) (le_spec V) (sg_message sb) of
        Inl _ \<Rightarrow> Inl LCE_InconsistentFork | Inr f \<Rightarrow> Inr f)"

definition block_to_light_client_header :: "'o lc_env \<Rightarrow> 'o signed_block \<Rightarrow> lc_error + lc_header" where
  "block_to_light_client_header V sb =
     rbind (lc_block_fork V sb) (\<lambda>f. rbind (lc_variant f) (\<lambda>variant. lc_header_at V variant sb))"

section \<open>Bootstraps\<close>

record lc_bootstrap =
  lb_variant :: fork_name
  lb_header :: lc_header
  lb_current_sync_committee :: sync_committee
  lb_current_sync_committee_branch :: "root list"

definition bootstrap_new ::
  "'o lc_env \<Rightarrow> 'o signed_block \<Rightarrow> sync_committee \<Rightarrow> root list \<Rightarrow> lc_error + lc_bootstrap" where
  "bootstrap_new V sb committee branch =
     rbind (lc_block_fork V sb) (\<lambda>f.
     rbind (lc_variant f) (\<lambda>variant.
     rbind (lc_header_at V variant sb) (\<lambda>header.
     rbind (fixed_vector (current_sync_committee_proof_len variant) branch) (\<lambda>branch.
     Inr \<lparr>lb_variant = variant, lb_header = header, lb_current_sync_committee = committee,
       lb_current_sync_committee_branch = branch\<rparr>))))"

definition from_beacon_state ::
  "'o lc_env \<Rightarrow> 'o beacon_state \<Rightarrow> 'o signed_block \<Rightarrow> lc_error + lc_bootstrap" where
  "from_beacon_state V st sb =
     rbind (lc_state (compute_current_sync_committee_proof (le_state_roots V) st)) (\<lambda>branch.
     rbind (lc_state (partial_getter (altair_enabled (st_variant st)) (bs_current_sync_committee (st_participation st))))
       (\<lambda>committee. bootstrap_new V sb committee branch))"

definition bootstrap_slot :: "lc_bootstrap \<Rightarrow> slot" where
  "bootstrap_slot b = bh_slot (lh_beacon (lb_header b))"

section \<open>Updates\<close>

record 'o lc_update =
  lu_variant :: fork_name
  lu_attested_header :: lc_header
  lu_next_sync_committee :: sync_committee
  lu_next_sync_committee_branch :: "root list"
  lu_finalized_header :: lc_header
  lu_finality_branch :: "root list"
  lu_sync_aggregate :: 'o
  lu_signature_slot :: slot

text \<open>A finalized block of another fork than the attested block gives the default header.\<close>

definition finalized_header_for ::
  "'o lc_env \<Rightarrow> fork_name \<Rightarrow> fork_name \<Rightarrow> 'o signed_block option \<Rightarrow> lc_error + lc_header" where
  "finalized_header_for V f variant finalized_block = (case finalized_block of
     Some sb \<Rightarrow> if block_variant (sg_message sb) = f then lc_header_at V variant sb
       else Inr (default_lc_header V variant)
   | None \<Rightarrow> Inr (default_lc_header V variant))"

definition update_new ::
  "'o lc_env \<Rightarrow> 'o \<Rightarrow> slot \<Rightarrow> sync_committee \<Rightarrow> root list \<Rightarrow> root list \<Rightarrow> 'o signed_block \<Rightarrow> 'o signed_block option
     \<Rightarrow> lc_error + 'o lc_update" where
  "update_new V aggregate block_slot committee committee_branch finality_branch attested_block finalized_block =
     rbind (lc_block_fork V attested_block) (\<lambda>f.
     rbind (lc_variant f) (\<lambda>variant.
     rbind (lc_header_at V variant attested_block) (\<lambda>attested_header.
     rbind (finalized_header_for V f variant finalized_block) (\<lambda>finalized_header.
     rbind (fixed_vector (next_sync_committee_proof_len variant) committee_branch) (\<lambda>committee_branch.
     rbind (fixed_vector (finalized_root_proof_len variant) finality_branch) (\<lambda>finality_branch.
     Inr \<lparr>lu_variant = variant, lu_attested_header = attested_header, lu_next_sync_committee = committee,
       lu_next_sync_committee_branch = committee_branch, lu_finalized_header = finalized_header,
       lu_finality_branch = finality_branch, lu_sync_aggregate = aggregate, lu_signature_slot = block_slot\<rparr>))))))"

definition attested_header_slot :: "'o lc_update \<Rightarrow> slot" where
  "attested_header_slot u = bh_slot (lh_beacon (lu_attested_header u))"

definition finalized_header_slot :: "'o lc_update \<Rightarrow> slot" where
  "finalized_header_slot u = bh_slot (lh_beacon (lu_finalized_header u))"

definition compute_sync_committee_period_at_slot :: "'o lc_env \<Rightarrow> slot \<Rightarrow> epoch option" where
  "compute_sync_committee_period_at_slot V slot =
     safe_div (epoch_of (ss_eth (le_sizes V)) slot) (epochs_per_sync_committee_period (sp_altair (le_spec V)))"

definition attested_header_sync_committee_period :: "'o lc_env \<Rightarrow> 'o lc_update \<Rightarrow> lc_error + epoch" where
  "attested_header_sync_committee_period V u =
     lc_arith (compute_sync_committee_period_at_slot V (attested_header_slot u))"

definition signature_slot_sync_committee_period :: "'o lc_env \<Rightarrow> 'o lc_update \<Rightarrow> lc_error + epoch" where
  "signature_slot_sync_committee_period V u =
     lc_arith (compute_sync_committee_period_at_slot V (lu_signature_slot u))"

definition is_empty_branch :: "root list \<Rightarrow> bool" where
  "is_empty_branch branch \<longleftrightarrow> list_all (\<lambda>r. r = replicate 32 0) branch"

definition is_next_sync_committee_branch_empty :: "'o lc_update \<Rightarrow> bool" where
  "is_next_sync_committee_branch_empty u = is_empty_branch (lu_next_sync_committee_branch u)"

definition is_finality_branch_empty :: "'o lc_update \<Rightarrow> bool" where
  "is_finality_branch_empty u = is_empty_branch (lu_finality_branch u)"

definition is_sync_committee_update :: "'o lc_env \<Rightarrow> 'o lc_update \<Rightarrow> lc_error + bool" where
  "is_sync_committee_update V u =
     (if is_next_sync_committee_branch_empty u then Inr False
      else rbind (attested_header_sync_committee_period V u) (\<lambda>a.
        rbind (signature_slot_sync_committee_period V u) (\<lambda>b. Inr (a = b))))"

definition has_sync_committee_finality :: "'o lc_env \<Rightarrow> 'o lc_update \<Rightarrow> lc_error + bool" where
  "has_sync_committee_finality V u =
     rbind (lc_arith (compute_sync_committee_period_at_slot V (finalized_header_slot u))) (\<lambda>a.
     rbind (attested_header_sync_committee_period V u) (\<lambda>b. Inr (a = b)))"

definition num_set_bits :: "bool list \<Rightarrow> nat" where
  "num_set_bits bits = length (filter id bits)"

text \<open>Whether \<open>new\<close> is better than the update of \<open>self\<close>.\<close>

definition is_better_light_client_update ::
  "'o lc_env \<Rightarrow> 'o lc_update \<Rightarrow> 'o lc_update \<Rightarrow> lc_error + bool" where
  "is_better_light_client_update V self new =
     (let bits = le_sync_committee_bits V;
          max_active = length (bits (lu_sync_aggregate new));
          new_active = num_set_bits (bits (lu_sync_aggregate new));
          prev_active = num_set_bits (bits (lu_sync_aggregate self)) in
      rbind (lc_arith (checked_mul new_active 3)) (\<lambda>new3.
      rbind (lc_arith (checked_mul max_active 2)) (\<lambda>max2.
      rbind (lc_arith (checked_mul prev_active 3)) (\<lambda>prev3.
      let new_super = new3 \<ge> max2; prev_super = prev3 \<ge> max2 in
      if new_super \<noteq> prev_super then Inr new_super
      else if \<not> new_super \<and> new_active \<noteq> prev_active then Inr (new_active > prev_active)
      else
        rbind (is_sync_committee_update V new) (\<lambda>new_relevant.
        rbind (is_sync_committee_update V self) (\<lambda>prev_relevant.
        if new_relevant \<noteq> prev_relevant then Inr new_relevant
        else
          let new_finality = \<not> is_finality_branch_empty new; prev_finality = \<not> is_finality_branch_empty self in
          if new_finality \<noteq> prev_finality then Inr new_finality
          else
            rbind (if new_finality
              then rbind (has_sync_committee_finality V new) (\<lambda>a.
                rbind (has_sync_committee_finality V self) (\<lambda>b. Inr (if a \<noteq> b then Some a else None)))
              else Inr None) (\<lambda>committee_finality.
            case committee_finality of Some a \<Rightarrow> Inr a
            | None \<Rightarrow>
                if new_active \<noteq> prev_active then Inr (new_active > prev_active)
                else if attested_header_slot new \<noteq> attested_header_slot self
                then Inr (attested_header_slot new < attested_header_slot self)
                else Inr (lu_signature_slot new < lu_signature_slot self))))))))"

section \<open>Finality and optimistic updates\<close>

record 'o lc_finality_update =
  lf_variant :: fork_name
  lf_attested_header :: lc_header
  lf_finalized_header :: lc_header
  lf_finality_branch :: "root list"
  lf_sync_aggregate :: 'o
  lf_signature_slot :: slot

definition finality_update_new ::
  "'o lc_env \<Rightarrow> 'o signed_block \<Rightarrow> 'o signed_block \<Rightarrow> root list \<Rightarrow> 'o \<Rightarrow> slot \<Rightarrow> lc_error + 'o lc_finality_update" where
  "finality_update_new V attested_block finalized_block finality_branch aggregate signature_slot =
     rbind (lc_block_fork V attested_block) (\<lambda>f.
     rbind (lc_variant f) (\<lambda>variant.
     rbind (lc_header_at V variant attested_block) (\<lambda>attested_header.
     rbind (lc_header_at V variant finalized_block) (\<lambda>finalized_header.
     rbind (fixed_vector (finalized_root_proof_len variant) finality_branch) (\<lambda>finality_branch.
     Inr \<lparr>lf_variant = variant, lf_attested_header = attested_header, lf_finalized_header = finalized_header,
       lf_finality_branch = finality_branch, lf_sync_aggregate = aggregate, lf_signature_slot = signature_slot\<rparr>)))))"

definition get_attested_header_slot :: "'o lc_finality_update \<Rightarrow> slot" where
  "get_attested_header_slot u = bh_slot (lh_beacon (lf_attested_header u))"

definition get_attested_header_root :: "'o lc_env \<Rightarrow> 'o lc_finality_update \<Rightarrow> root" where
  "get_attested_header_root V u = le_canonical_root V (lh_beacon (lf_attested_header u))"

definition get_finalized_header_root :: "'o lc_env \<Rightarrow> 'o lc_finality_update \<Rightarrow> root" where
  "get_finalized_header_root V u = le_canonical_root V (lh_beacon (lf_finalized_header u))"

definition finality_is_latest :: "'o lc_finality_update \<Rightarrow> slot \<Rightarrow> slot \<Rightarrow> bool" where
  "finality_is_latest self attested_slot signature_slot =
     (let prev_slot = get_attested_header_slot self in
      if attested_slot > prev_slot then True
      else attested_slot = prev_slot \<and> signature_slot > lf_signature_slot self)"

record 'o lc_optimistic_update =
  lo_variant :: fork_name
  lo_attested_header :: lc_header
  lo_sync_aggregate :: 'o
  lo_signature_slot :: slot

definition optimistic_update_new ::
  "'o lc_env \<Rightarrow> 'o signed_block \<Rightarrow> 'o \<Rightarrow> slot \<Rightarrow> lc_error + 'o lc_optimistic_update" where
  "optimistic_update_new V attested_block aggregate signature_slot =
     rbind (lc_block_fork V attested_block) (\<lambda>f.
     rbind (lc_variant f) (\<lambda>variant.
     rbind (lc_header_at V variant attested_block) (\<lambda>attested_header.
     Inr \<lparr>lo_variant = variant, lo_attested_header = attested_header, lo_sync_aggregate = aggregate,
       lo_signature_slot = signature_slot\<rparr>)))"

definition optimistic_slot :: "'o lc_optimistic_update \<Rightarrow> slot" where
  "optimistic_slot u = bh_slot (lh_beacon (lo_attested_header u))"

definition get_canonical_root :: "'o lc_env \<Rightarrow> 'o lc_optimistic_update \<Rightarrow> root" where
  "get_canonical_root V u = le_canonical_root V (lh_beacon (lo_attested_header u))"

definition get_parent_root :: "'o lc_optimistic_update \<Rightarrow> root" where
  "get_parent_root u = bh_parent_root (lh_beacon (lo_attested_header u))"

definition optimistic_is_latest :: "'o lc_optimistic_update \<Rightarrow> slot \<Rightarrow> slot \<Rightarrow> bool" where
  "optimistic_is_latest self attested_slot signature_slot =
     (let prev_slot = optimistic_slot self in
      if attested_slot > prev_slot then True
      else attested_slot = prev_slot \<and> signature_slot > lo_signature_slot self)"

section \<open>Decoding and lengths\<close>

text \<open>The decoders of the variants are generated; \<open>decode\<close> holds those of one type.\<close>

definition decode_at_fork ::
  "string \<Rightarrow> (fork_name \<Rightarrow> byte list \<Rightarrow> decode_error + 'u) \<Rightarrow> byte list \<Rightarrow> fork_name \<Rightarrow> decode_error + 'u" where
  "decode_at_fork name decode bytes f =
     (case lc_variant f of
        Inr variant \<Rightarrow> decode variant bytes
      | Inl _ \<Rightarrow> Inl (DE_BytesInvalid (name @ '' decoding for '' @ fork_display f @ '' not implemented'')))"

definition header_from_ssz_bytes where
  "header_from_ssz_bytes = decode_at_fork ''LightClientHeader''"

definition bootstrap_from_ssz_bytes where
  "bootstrap_from_ssz_bytes = decode_at_fork ''LightClientBootstrap''"

definition update_from_ssz_bytes where
  "update_from_ssz_bytes = decode_at_fork ''LightClientUpdate''"

definition finality_update_from_ssz_bytes where
  "finality_update_from_ssz_bytes = decode_at_fork ''LightClientFinalityUpdate''"

definition optimistic_update_from_ssz_bytes where
  "optimistic_update_from_ssz_bytes = decode_at_fork ''LightClientOptimisticUpdate''"

text \<open>The deserialisers with a fork as context. The names in the messages are those of the source.\<close>

definition deserialize_at_fork ::
  "string \<Rightarrow> (fork_name \<Rightarrow> string) \<Rightarrow> (fork_name \<Rightarrow> 'j \<Rightarrow> string + 'u) \<Rightarrow> 'j \<Rightarrow> fork_name \<Rightarrow> string + 'u" where
  "deserialize_at_fork name unsupported deserialize json f =
     (case lc_variant f of
        Inr variant \<Rightarrow> map_sum (\<lambda>e. name @ '' failed to deserialize: '' @ e) id (deserialize variant json)
      | Inl _ \<Rightarrow> Inl (unsupported f @ '' failed to deserialize: unsupported fork '' @ [CHR 0x27] @ fork_display f @ [CHR 0x27]))"

definition header_context_deserialize where
  "header_context_deserialize = deserialize_at_fork ''LightClientFinalityUpdate'' (\<lambda>_. ''LightClientFinalityUpdate'')"

definition bootstrap_context_deserialize where
  "bootstrap_context_deserialize = deserialize_at_fork ''LightClientBootstrap'' (\<lambda>_. ''LightClientBootstrap'')"

definition update_context_deserialize where
  "update_context_deserialize = deserialize_at_fork ''LightClientUpdate'' (\<lambda>_. ''LightClientUpdate'')"

definition finality_update_context_deserialize where
  "finality_update_context_deserialize = deserialize_at_fork ''LightClientFinalityUpdate''
     (\<lambda>f. if f = Base then ''LightClientFinalityUpdate'' else ''LightClientBootstrap'')"

definition optimistic_update_context_deserialize where
  "optimistic_update_context_deserialize = deserialize_at_fork ''LightClientOptimisticUpdate''
     (\<lambda>f. if f = Base then ''LightClientOptimisticUpdate'' else ''LightClientBootstrap'')"

text \<open>The longest encodings: the fixed part of the variant and, for each header, its \<open>extra_data\<close>.\<close>

definition lc_header_max_var_len :: "nat \<Rightarrow> fork_name \<Rightarrow> nat" where
  "lc_header_max_var_len max_extra_data_bytes f =
     (if gloas_enabled f then 0
      else if capella_enabled f then ssz_max_var_len_for_fork max_extra_data_bytes f else 0)"

definition bootstrap_max_len :: "(fork_name \<Rightarrow> nat) \<Rightarrow> nat \<Rightarrow> fork_name \<Rightarrow> nat" where
  "bootstrap_max_len fixed_len max_extra_data_bytes f =
     (case f of Base \<Rightarrow> 0 | Altair \<Rightarrow> fixed_len Altair | Bellatrix \<Rightarrow> fixed_len Altair | Gloas \<Rightarrow> fixed_len Altair
      | _ \<Rightarrow> fixed_len f) + lc_header_max_var_len max_extra_data_bytes f"

definition update_max_len :: "(fork_name \<Rightarrow> nat) \<Rightarrow> nat \<Rightarrow> fork_name \<Rightarrow> nat" where
  "update_max_len fixed_len max_extra_data_bytes f =
     (case f of Base \<Rightarrow> 0 | Bellatrix \<Rightarrow> 0 | Gloas \<Rightarrow> 0 | _ \<Rightarrow> fixed_len f) +
     2 * lc_header_max_var_len max_extra_data_bytes f"

definition finality_update_max_len :: "(fork_name \<Rightarrow> nat) \<Rightarrow> nat \<Rightarrow> fork_name \<Rightarrow> nat" where
  "finality_update_max_len fixed_len max_extra_data_bytes f =
     (case f of Base \<Rightarrow> 0 | Altair \<Rightarrow> fixed_len Altair | Bellatrix \<Rightarrow> fixed_len Altair | Gloas \<Rightarrow> 0 | _ \<Rightarrow> fixed_len f) +
     2 * lc_header_max_var_len max_extra_data_bytes f"

definition optimistic_update_max_len :: "(fork_name \<Rightarrow> nat) \<Rightarrow> nat \<Rightarrow> fork_name \<Rightarrow> nat" where
  "optimistic_update_max_len fixed_len max_extra_data_bytes f =
     (case f of Base \<Rightarrow> 0 | Altair \<Rightarrow> fixed_len Altair | Bellatrix \<Rightarrow> fixed_len Altair | Gloas \<Rightarrow> 0 | _ \<Rightarrow> fixed_len f) +
     lc_header_max_var_len max_extra_data_bytes f"

end
