(* ===== verification/Light_Client_Facts.thy ===== *)
theory Light_Client_Facts
  imports Light_Client
begin

text \<open>
  Light clients: the ranking of updates is a lexicographic order, and a bootstrap made from a state and a
  block proves the committee and the payload at their places.
\<close>

declare log2_up.simps [simp del]

section \<open>The ranking of updates\<close>

text \<open>What an update is ranked by, most important first: a super majority, the participation without one,
  a committee of the period, finality, finality in the period, the participation, and age.\<close>

definition period_of :: "'o lc_env \<Rightarrow> slot \<Rightarrow> epoch" where
  "period_of V slot = epoch_of (ss_eth (le_sizes V)) slot div epochs_per_sync_committee_period (sp_altair (le_spec V))"

definition active_members :: "'o lc_env \<Rightarrow> 'o lc_update \<Rightarrow> nat" where
  "active_members V u = num_set_bits (le_sync_committee_bits V (lu_sync_aggregate u))"

definition update_key :: "'o lc_env \<Rightarrow> nat \<Rightarrow> 'o lc_update \<Rightarrow> nat list" where
  "update_key V committee u =
     (let super = 3 * active_members V u \<ge> 2 * committee;
          relevant = \<not> is_next_sync_committee_branch_empty u \<and>
            period_of V (attested_header_slot u) = period_of V (lu_signature_slot u);
          final = \<not> is_finality_branch_empty u;
          final_in_period = period_of V (finalized_header_slot u) = period_of V (attested_header_slot u) in
      [of_bool super, if super then 0 else active_members V u, of_bool relevant, of_bool final,
       of_bool (final \<and> final_in_period), active_members V u,
       2 ^ 64 - unat (attested_header_slot u), 2 ^ 64 - unat (lu_signature_slot u)])"

text \<open>The committee of every aggregate has the same size.\<close>

definition committee_of :: "'o lc_env \<Rightarrow> nat \<Rightarrow> 'o lc_update \<Rightarrow> bool" where
  "committee_of V n u \<longleftrightarrow> length (le_sync_committee_bits V (lu_sync_aggregate u)) = n"

lemma num_set_bits_le: "num_set_bits bits \<le> length bits"
  by (simp add: num_set_bits_def)

lemma period_Some:
  assumes "epochs_per_sync_committee_period (sp_altair (le_spec V)) \<noteq> 0"
  shows "compute_sync_committee_period_at_slot V slot = Some (period_of V slot)"
  using assms by (simp add: compute_sync_committee_period_at_slot_def safe_div_def period_of_def)

lemma committee_periods:
  assumes "epochs_per_sync_committee_period (sp_altair (le_spec V)) \<noteq> 0"
  shows "is_sync_committee_update V u = Inr (\<not> is_next_sync_committee_branch_empty u \<and>
      period_of V (attested_header_slot u) = period_of V (lu_signature_slot u))"
    and "has_sync_committee_finality V u =
      Inr (period_of V (finalized_header_slot u) = period_of V (attested_header_slot u))"
  by (simp_all add: is_sync_committee_update_def has_sync_committee_finality_def attested_header_sync_committee_period_def
      signature_slot_sync_committee_period_def period_Some [OF assms] lc_arith_def ok_or_def)

lemma older_first: "2 ^ 64 - unat (a :: u64) < 2 ^ 64 - unat b \<longleftrightarrow> b < a"
proof -
  have "unat a < 2 ^ 64" "unat b < 2 ^ 64" using unsigned_less [of a] unsigned_less [of b] by simp_all
  then have "2 ^ 64 - unat a < 2 ^ 64 - unat b \<longleftrightarrow> unat b < unat a" by linarith
  then show ?thesis by (simp add: word_less_nat_alt)
qed

lemma older_same: "2 ^ 64 - unat (a :: u64) = 2 ^ 64 - unat b \<longleftrightarrow> a = b"
proof -
  have "unat a < 2 ^ 64" "unat b < 2 ^ 64" using unsigned_less [of a] unsigned_less [of b] by simp_all
  then have "2 ^ 64 - unat a = 2 ^ 64 - unat b \<longleftrightarrow> unat a = unat b" by linarith
  then show ?thesis by (simp add: word_unat_eq_iff)
qed

text \<open>The comparison as one decision list over what the two updates are ranked by.\<close>

lemma ranking_steps:
  fixes a a' :: nat and x x' y y' :: u64
  shows "(if s' \<noteq> s then s' else if \<not> s' \<and> a' \<noteq> a then a' > a else if r' \<noteq> r then r' else if f' \<noteq> f then f'
      else if f' \<and> c' \<noteq> c then c' else if a' \<noteq> a then a' > a else if x' \<noteq> x then x' < x else y' < y) \<longleftrightarrow>
    [of_bool s, if s then 0 else a, of_bool r, of_bool f, of_bool (f \<and> c), a, 2 ^ 64 - unat x, 2 ^ 64 - unat y] <
    [of_bool s', if s' then 0 else a', of_bool r', of_bool f', of_bool (f' \<and> c'), a', 2 ^ 64 - unat x', 2 ^ 64 - unat y']"
  unfolding Cons_less_Cons older_first older_same
  by (cases s; cases s'; cases r; cases r'; cases f; cases f'; cases c; cases c'; auto)

lemma ranking_body:
  fixes a a' :: nat and x x' y y' :: u64
  shows "(if s' \<noteq> s then Inr s' else if \<not> s' \<and> a' \<noteq> a then Inr (a' > a)
    else if r' \<noteq> r then Inr r' else if f' \<noteq> f then Inr f'
    else rbind (if f' then Inr (if c' \<noteq> c then Some c' else None) else Inr None)
        (\<lambda>d. case d of Some i \<Rightarrow> Inr i
          | None \<Rightarrow> if a' \<noteq> a then Inr (a' > a) else if x' \<noteq> x then Inr (x' < x) else Inr (y' < y))) =
    Inr (if s' \<noteq> s then s' else if \<not> s' \<and> a' \<noteq> a then a' > a else if r' \<noteq> r then r' else if f' \<noteq> f then f'
      else if f' \<and> c' \<noteq> c then c' else if a' \<noteq> a then a' > a else if x' \<noteq> x then x' < x else y' < y)"
  by (cases s; cases s'; cases r; cases r'; cases f; cases f'; cases c; cases c'; simp)

text \<open>
  C34. The ranking of light client updates is a lexicographic order: one update is better than another
  exactly when its key is greater, so the ranking is total up to equal keys, never goes both ways, and the
  best of several updates does not depend on the order in which they arrive.\<close>

theorem update_ranking:
  assumes "epochs_per_sync_committee_period (sp_altair (le_spec V)) \<noteq> 0" and "committee_of V n self" and "committee_of V n new"
    and "3 * n < 2 ^ 64"
  shows "is_better_light_client_update V self new = Inr (update_key V n self < update_key V n new)"
proof -
  have active: "active_members V u \<le> n" if "committee_of V n u" for u
    using that num_set_bits_le [of "le_sync_committee_bits V (lu_sync_aggregate u)"] by (simp add: active_members_def committee_of_def)
  have mul: "checked_mul (active_members V u) 3 = Some (3 * active_members V u)" if "committee_of V n u" for u
    using active [OF that] assms(4) by (simp add: checked_mul_def mult.commute)
  have size: "checked_mul n 2 = Some (2 * n)" using assms(4) by (simp add: checked_mul_def mult.commute)
  have len: "length (le_sync_committee_bits V (lu_sync_aggregate new)) = n" using assms(3) by (simp add: committee_of_def)
  show ?thesis
    unfolding update_key_def Let_def ranking_steps [symmetric] is_better_light_client_update_def len
      committee_periods [OF assms(1)] active_members_def [symmetric] mul [OF assms(2)] mul [OF assms(3)] size
    by (simp only: lc_arith_def ok_or_def option.case rbind_simps ranking_body)
qed

section \<open>Bootstraps\<close>

text \<open>The generalized indices of the specification, and a tree that proves each of its leaves with one root
  for each level.\<close>

definition proves_leaves :: "(root list \<Rightarrow> nat \<Rightarrow> nat \<Rightarrow> state_error + root list) \<Rightarrow> bool" where
  "proves_leaves tree \<longleftrightarrow> (\<forall>leaves i d. i < length leaves \<and> length leaves \<le> 2 ^ d \<longrightarrow>
     (\<exists>p. tree leaves i d = Inr p \<and> length p = d))"

definition proofs_lawful :: "'o lc_env \<Rightarrow> bool" where
  "proofs_lawful V \<longleftrightarrow> (let H = le_state_roots V in
     hr_current_sync_committee_index H = 54 \<and> hr_current_sync_committee_index_electra H = 86 \<and>
     hr_next_sync_committee_index H = 55 \<and> hr_next_sync_committee_index_electra H = 87 \<and>
     hr_finalized_root_index H = 105 \<and> hr_finalized_root_index_electra H = 169 \<and>
     le_payload_index V = 25 \<and> le_payload_proof_len V = 4 \<and> proves_leaves (hr_proof H) \<and> proves_leaves (lr_proof (le_roots V)))"

lemmas state_leaves = get_beacon_state_leaves_def versioning_leaves_def participation_leaves_def finality_leaves_def
  altair_leaves_def execution_leaves_def capella_leaves_def electra_leaves_def gloas_leaves_def

lemma length_state_leaves: "length (get_beacon_state_leaves H st) = num_fields (st_variant st)"
  by (cases "st_variant st") (simp_all add: state_leaves)

lemma early_leaves: "\<exists>rest. get_beacon_state_leaves H st = versioning_leaves H st @ participation_leaves H st @ finality_leaves H st @
    (if st_variant st \<noteq> Base then altair_leaves H st else []) @ rest"
  unfolding get_beacon_state_leaves_def Let_def by simp

lemma sync_committee_leaves:
  assumes "st_variant st \<noteq> Base"
  shows "get_beacon_state_leaves H st ! 22 = hr_sync_committee H (bs_current_sync_committee (st_participation st))"
    and "get_beacon_state_leaves H st ! 23 = hr_sync_committee H (bs_next_sync_committee (st_participation st))"
    and "get_beacon_state_leaves H st ! 20 = hr_checkpoint H (bs_finalized_checkpoint (st_finality st))"
  using early_leaves [of H st] assms
  by (auto simp: versioning_leaves_def participation_leaves_def finality_leaves_def altair_leaves_def)

lemma payload_leaf:
  assumes "has_payload (bb_variant b)"
  shows "body_merkle_leaves R b ! 9 = payload_root R (bb_execution_payload b)"
    and "9 < length (body_merkle_leaves R b)" and "length (body_merkle_leaves R b) \<le> 16"
  using assms by (cases "bb_variant b"; simp add: body_merkle_leaves_def has_payload_def Let_def)+

lemma log2_up_pow: "log2_up (2 ^ k) = k"
proof (induction k)
  case (Suc k)
  have "(2 * 2 ^ k + 1) div 2 = (2 ^ k :: nat)" "\<not> 2 * 2 ^ k \<le> (1 :: nat)"
    using one_le_power [of "2 :: nat" k] by (simp, linarith)
  then show ?case using Suc by (subst log2_up.simps) (simp only: power_Suc if_False)
qed (simp add: log2_up.simps)

lemma state_depth: "f \<noteq> Base \<Longrightarrow> log2_up (num_fields f) = (if electra_enabled f then 6 else 5)"
  by (cases f) (simp_all add: enabled_defs fork_order log2_up.simps)

lemma state_fields_pow2:
  "num_fields_pow2 st = 2 ^ log2_up (num_fields (st_variant st))" "log2_up (num_fields_pow2 st) = log2_up (num_fields (st_variant st))"
  by (simp_all add: num_fields_pow2_def fork_name_unchecked_def log2_up_pow)

text \<open>The proofs of the committees and of the finalized root are proofs of their fields.\<close>

lemma state_proofs:
  assumes lawful: "proofs_lawful V" and base: "st_variant st \<noteq> Base"
  defines "leaves \<equiv> get_beacon_state_leaves (le_state_roots V) st" and "d \<equiv> (if electra_enabled (st_variant st) then 6 else 5 :: nat)"
  shows "compute_current_sync_committee_proof (le_state_roots V) st = hr_proof (le_state_roots V) leaves 22 d"
    and "compute_next_sync_committee_proof (le_state_roots V) st = hr_proof (le_state_roots V) leaves 23 d"
    and "compute_finalized_root_proof (le_state_roots V) st = rbind (hr_proof (le_state_roots V) leaves 20 d)
      (\<lambda>p. Inr (hr_u64 (le_state_roots V) (cp_epoch (bs_finalized_checkpoint (st_finality st))) # p))"
    and "i \<le> 23 \<Longrightarrow> \<exists>p. hr_proof (le_state_roots V) leaves i d = Inr p \<and> length p = d"
proof -
  have n: "24 \<le> length leaves" "length leaves \<le> 2 ^ d"
    using base by (cases "st_variant st"; simp add: leaves_def d_def length_state_leaves enabled_defs fork_order)+
  have sub: "arith (usize_safe_sub (if electra_enabled (st_variant st) then 64 + k else 32 + k) (num_fields_pow2 st)) = Inr k" for k
    using base by (simp add: usize_safe_sub_def state_fields_pow2 state_depth ok_or_def)
  have pow: "log2_up (num_fields_pow2 st) = d"
    using base by (simp add: state_fields_pow2(2) state_depth d_def)
  note law = lawful [unfolded proofs_lawful_def Let_def]
  show "compute_current_sync_committee_proof (le_state_roots V) st = hr_proof (le_state_roots V) leaves 22 d"
    using sub [of 22] law n(1) unfolding compute_current_sync_committee_proof_def Let_def fork_name_unchecked_def
    by (cases "electra_enabled (st_variant st)") (simp_all add: generate_proof_def pow leaves_def [symmetric])
  show "compute_next_sync_committee_proof (le_state_roots V) st = hr_proof (le_state_roots V) leaves 23 d"
    using sub [of 23] law n(1) unfolding compute_next_sync_committee_proof_def Let_def fork_name_unchecked_def
    by (cases "electra_enabled (st_variant st)") (simp_all add: generate_proof_def pow leaves_def [symmetric])
  show "compute_finalized_root_proof (le_state_roots V) st = rbind (hr_proof (le_state_roots V) leaves 20 d)
      (\<lambda>p. Inr (hr_u64 (le_state_roots V) (cp_epoch (bs_finalized_checkpoint (st_finality st))) # p))"
    using sub [of 20] law n(1) unfolding compute_finalized_root_proof_def Let_def fork_name_unchecked_def
    by (cases "electra_enabled (st_variant st)") (simp_all add: generate_proof_def pow leaves_def [symmetric])
  show "i \<le> 23 \<Longrightarrow> \<exists>p. hr_proof (le_state_roots V) leaves i d = Inr p \<and> length p = d"
    using law n unfolding proves_leaves_def by simp
qed

lemma payload_header_made:
  assumes lawful: "proofs_lawful V" and f: "capella_enabled f" "f \<noteq> Gloas"
    and body: "block_variant (sg_message sb) = f" "bb_execution_payload (bk_body (sg_message sb)) = Blinded f h"
  shows "\<exists>p. lr_proof (le_roots V) (body_merkle_leaves (le_roots V) (bk_body (sg_message sb))) 9 4 = Inr p \<and>
    lc_header_at V f sb = Inr \<lparr>lh_variant = f, lh_beacon = block_header_of (le_roots V) (sg_message sb),
      lh_execution = h, lh_execution_branch = p\<rparr>"
proof -
  have has: "has_payload f" and altair: "f \<noteq> Altair" using f by (cases f; simp add: has_payload_def enabled_defs fork_order)+
  note leaf = payload_leaf [of "bk_body (sg_message sb)" "le_roots V"]
  obtain p where "lr_proof (le_roots V) (body_merkle_leaves (le_roots V) (bk_body (sg_message sb))) 9 4 = Inr p" "length p = 4"
  proof -
    have "proves_leaves (lr_proof (le_roots V))" using lawful by (simp add: proofs_lawful_def Let_def)
    moreover have "length (body_merkle_leaves (le_roots V) (bk_body (sg_message sb))) \<le> 2 ^ 4" using leaf(3) body(1) has by simp
    ultimately show thesis using that leaf(2) body(1) has unfolding proves_leaves_def by blast
  qed
  then show ?thesis using lawful altair has body
    by (simp add: lc_header_at_def Let_def blinded_header_def body_payload_def partial_getter_def lc_state_def
        proofs_lawful_def block_body_merkle_proof_def usize_safe_sub_def NUM_BEACON_BLOCK_BODY_HASH_TREE_ROOT_LEAVES_def ok_or_def
        fixed_vector_def execution_payload_proof_len_def)
qed

text \<open>
  C33. A bootstrap for a block of any fork from Altair to Fulu and Daisugi can be made from a state with the
  same shape: it has the header of the block, the committee of the state with the proof of exactly that
  field of the state, and from Capella on the payload header of the block with the proof of exactly that
  field of the body.\<close>

theorem bootstrap_from_state:
  assumes lawful: "proofs_lawful V"
    and block: "block_fork_name (le_sizes V) (le_spec V) (sg_message sb) = Inr f" "f \<notin> {Base, Gloas}"
      "capella_enabled f \<longrightarrow> bb_execution_payload (bk_body (sg_message sb)) = Blinded f h"
    and state: "st_variant st \<noteq> Base" "electra_enabled (st_variant st) = electra_enabled f"
  shows "\<exists>b. from_beacon_state V st sb = Inr b \<and> lb_variant b = (if f = Bellatrix then Altair else f) \<and>
    lh_beacon (lb_header b) = block_header_of (le_roots V) (sg_message sb) \<and>
    lb_current_sync_committee b = bs_current_sync_committee (st_participation st) \<and>
    (let leaves = get_beacon_state_leaves (le_state_roots V) st in
       leaves ! 22 = hr_sync_committee (le_state_roots V) (lb_current_sync_committee b) \<and>
       hr_proof (le_state_roots V) leaves 22 (if electra_enabled f then 6 else 5) = Inr (lb_current_sync_committee_branch b)) \<and>
    (capella_enabled f \<longrightarrow> (let leaves = body_merkle_leaves (le_roots V) (bk_body (sg_message sb)) in
       lh_execution (lb_header b) = h \<and> leaves ! 9 = lr_header (le_roots V) f h \<and>
       lr_proof (le_roots V) leaves 9 4 = Inr (lh_execution_branch (lb_header b))))"
proof -
  let ?H = "le_state_roots V" let ?v = "if f = Bellatrix then Altair else f"
  have variant: "block_variant (sg_message sb) = f" using block(1) by (auto simp: block_fork_name_def Let_def split: if_splits)
  have fork: "lc_block_fork V sb = Inr f" "lc_variant f = Inr ?v"
    using block(1,2) by (auto simp: lc_block_fork_def lc_variant_def split: fork_name.splits)
  obtain branch where branch: "compute_current_sync_committee_proof ?H st = Inr branch"
    "hr_proof ?H (get_beacon_state_leaves ?H st) 22 (if electra_enabled f then 6 else 5) = Inr branch"
    "length branch = (if electra_enabled f then 6 else 5)"
    using state_proofs(1) [OF lawful state(1)] state_proofs(4) [OF lawful state(1), of 22] state(2) by auto
  have len: "current_sync_committee_proof_len ?v = (if electra_enabled f then 6 else 5)"
    using block(2) by (cases f) (auto simp: current_sync_committee_proof_len_def enabled_defs fork_order)
  have altair: "altair_enabled (st_variant st)" using state(1) by (cases "st_variant st") (auto simp: enabled_defs fork_order)
  have new: "from_beacon_state V st sb = rbind (lc_header_at V ?v sb) (\<lambda>header.
      Inr \<lparr>lb_variant = ?v, lb_header = header, lb_current_sync_committee = bs_current_sync_committee (st_participation st),
        lb_current_sync_committee_branch = branch\<rparr>)"
    by (simp only: from_beacon_state_def branch bootstrap_new_def fork lc_state_def altair partial_getter_def map_sum.simps id_apply
        if_True rbind_simps fixed_vector_def len refl [THEN eqTrueI])
  show ?thesis
  proof (cases "capella_enabled f")
    case True
    then have "f \<noteq> Bellatrix" "has_payload f" using block(2) by (cases f; simp add: enabled_defs fork_order has_payload_def)+
    moreover obtain p where "lr_proof (le_roots V) (body_merkle_leaves (le_roots V) (bk_body (sg_message sb))) 9 4 = Inr p"
      "lc_header_at V f sb = Inr \<lparr>lh_variant = f, lh_beacon = block_header_of (le_roots V) (sg_message sb),
        lh_execution = h, lh_execution_branch = p\<rparr>"
      using payload_header_made [OF lawful True _ variant] block(2,3) True by auto
    ultimately show ?thesis
      using new branch(2) sync_committee_leaves(1) [OF state(1)] payload_leaf(1) [of "bk_body (sg_message sb)"] variant block(3) True
      by (simp add: Let_def)
  next
    case False
    then have "?v = Altair" using block(2) by (cases f) (simp_all add: enabled_defs fork_order)
    then show ?thesis using new branch(2) sync_committee_leaves(1) [OF state(1)] False
      by (simp add: lc_header_at_def Let_def)
  qed
qed

section \<open>Across an upgrade\<close>

text \<open>
  Across an upgrade no finality update can be made: when the attested block is of Capella or later and the
  finalized block of another fork, it fails, while an update takes the default header and keeps the
  finality branch.\<close>

theorem finality_across_upgrade:
  assumes attested: "block_fork_name (le_sizes V) (le_spec V) (sg_message attested) = Inr f" "capella_enabled f" "f \<noteq> Gloas"
    and finalized: "block_variant (sg_message finalized) \<noteq> f" "payload_variant (bb_execution_payload (bk_body (sg_message finalized))) \<noteq> f"
  shows "(\<exists>e. finality_update_new V attested finalized branch aggregate slot = Inl e) \<and>
    (\<forall>u. update_new V aggregate slot committee committee_branch branch attested (Some finalized) = Inr u \<longrightarrow>
       lu_finalized_header u = default_lc_header V f \<and> lu_finality_branch u = branch)"
proof -
  have fork: "lc_block_fork V attested = Inr f" "lc_variant f = Inr f" "f \<noteq> Altair"
    using attested by (cases f; simp add: lc_block_fork_def lc_variant_def enabled_defs fork_order)+
  have "\<exists>e. blinded_header f (bk_body (sg_message finalized)) = Inl e"
  proof (cases "lc_state (body_payload (bk_body (sg_message finalized)))")
    case (Inr p)
    then have "p = bb_execution_payload (bk_body (sg_message finalized))"
      by (auto simp: lc_state_def body_payload_def partial_getter_def map_sum.simps split: if_splits)
    then show ?thesis using Inr finalized(2)
      by (cases "bb_execution_payload (bk_body (sg_message finalized))") (simp_all add: blinded_header_def)
  qed (simp add: blinded_header_def)
  then have "\<exists>e. lc_header_at V f finalized = Inl e"
    using fork(3) by (auto simp: lc_header_at_def Let_def)
  then have "\<exists>e. finality_update_new V attested finalized branch aggregate slot = Inl e"
    by (cases "lc_header_at V f attested") (auto simp: finality_update_new_def fork)
  moreover have "lu_finalized_header u = default_lc_header V f \<and> lu_finality_branch u = branch"
    if "update_new V aggregate slot committee committee_branch branch attested (Some finalized) = Inr u" for u
    using that finalized(1) by (auto simp: update_new_def fork finalized_header_for_def rbind_Inr fixed_vector_def split: if_splits)
  ultimately show ?thesis by blast
qed

end
