(* ===== verification/Gossip_Topics.thy ===== *)
theory Gossip_Topics
  imports Chain_Spec Text_Codec
begin

text \<open>
  The gossip topics (\<open>beacon_node/lighthouse_network/src/types/topics.rs\<close>): which topics a node subscribes
  to at a fork, and the names of topics with their parser. The \<open>hex\<close> crate and the number of sync subnets
  of the preset are parameters; a hash set of subnets is the list in the order of its iteration.
\<close>

section \<open>Topics\<close>

definition TOPIC_PREFIX :: string where "TOPIC_PREFIX = ''eth2''"
definition SSZ_SNAPPY_ENCODING_POSTFIX :: string where "SSZ_SNAPPY_ENCODING_POSTFIX = ''ssz_snappy''"
definition BEACON_BLOCK_TOPIC :: string where "BEACON_BLOCK_TOPIC = ''beacon_block''"
definition BEACON_AGGREGATE_AND_PROOF_TOPIC :: string where
  "BEACON_AGGREGATE_AND_PROOF_TOPIC = ''beacon_aggregate_and_proof''"
definition BEACON_ATTESTATION_PREFIX :: string where "BEACON_ATTESTATION_PREFIX = ''beacon_attestation_''"
definition DATA_COLUMN_SIDECAR_PREFIX :: string where "DATA_COLUMN_SIDECAR_PREFIX = ''data_column_sidecar_''"
definition VOLUNTARY_EXIT_TOPIC :: string where "VOLUNTARY_EXIT_TOPIC = ''voluntary_exit''"
definition PROPOSER_SLASHING_TOPIC :: string where "PROPOSER_SLASHING_TOPIC = ''proposer_slashing''"
definition ATTESTER_SLASHING_TOPIC :: string where "ATTESTER_SLASHING_TOPIC = ''attester_slashing''"
definition SIGNED_CONTRIBUTION_AND_PROOF_TOPIC :: string where
  "SIGNED_CONTRIBUTION_AND_PROOF_TOPIC = ''sync_committee_contribution_and_proof''"
definition SYNC_COMMITTEE_PREFIX_TOPIC :: string where "SYNC_COMMITTEE_PREFIX_TOPIC = ''sync_committee_''"
definition BLS_TO_EXECUTION_CHANGE_TOPIC :: string where "BLS_TO_EXECUTION_CHANGE_TOPIC = ''bls_to_execution_change''"
definition EXECUTION_PAYLOAD :: string where "EXECUTION_PAYLOAD = ''execution_payload''"
definition EXECUTION_PAYLOAD_BID :: string where "EXECUTION_PAYLOAD_BID = ''execution_payload_bid''"
definition PAYLOAD_ATTESTATION :: string where "PAYLOAD_ATTESTATION = ''payload_attestation_message''"
definition PROPOSER_PREFERENCES :: string where "PROPOSER_PREFERENCES = ''proposer_preferences''"
definition LIGHT_CLIENT_FINALITY_UPDATE :: string where "LIGHT_CLIENT_FINALITY_UPDATE = ''light_client_finality_update''"
definition LIGHT_CLIENT_OPTIMISTIC_UPDATE :: string where
  "LIGHT_CLIENT_OPTIMISTIC_UPDATE = ''light_client_optimistic_update''"

datatype gossip_kind =
    GK_BeaconBlock
  | GK_BeaconAggregateAndProof
  | GK_DataColumnSidecar u64
  | GK_Attestation u64
  | GK_VoluntaryExit
  | GK_ProposerSlashing
  | GK_AttesterSlashing
  | GK_SignedContributionAndProof
  | GK_SyncCommitteeMessage u64
  | GK_BlsToExecutionChange
  | GK_ExecutionPayload
  | GK_PayloadAttestation
  | GK_ExecutionPayloadBid
  | GK_ProposerPreferences
  | GK_LightClientFinalityUpdate
  | GK_LightClientOptimisticUpdate

datatype gossip_encoding = SSZSnappy

record gossip_topic =
  gt_encoding :: gossip_encoding
  gt_fork_digest :: "byte list"
  gt_kind :: gossip_kind

datatype subnet = Subnet_Attestation u64 | Subnet_SyncCommittee u64 | Subnet_DataColumn u64

definition topic_new :: "gossip_kind \<Rightarrow> gossip_encoding \<Rightarrow> byte list \<Rightarrow> gossip_topic" where
  "topic_new kind encoding fork_digest = \<lparr>gt_encoding = encoding, gt_fork_digest = fork_digest, gt_kind = kind\<rparr>"

section \<open>Subscriptions\<close>

record topic_config =
  tc_enable_light_client_server :: bool
  tc_subscribe_all_subnets :: bool
  tc_sampling_subnets :: "u64 list"

definition count_up :: "u64 \<Rightarrow> u64 list" where
  "count_up n = map of_nat [0..<unat n]"

definition core_topics_to_subscribe :: "u64 \<Rightarrow> fork_name \<Rightarrow> topic_config \<Rightarrow> chain_spec \<Rightarrow> gossip_kind list" where
  "core_topics_to_subscribe sync_committee_subnet_count f opts s =
     [GK_BeaconBlock, GK_BeaconAggregateAndProof, GK_VoluntaryExit, GK_ProposerSlashing, GK_AttesterSlashing] @
     (if tc_subscribe_all_subnets opts
      then map GK_Attestation (count_up (attestation_subnet_count (sp_networking s))) else []) @
     (if altair_enabled f then
        [GK_SignedContributionAndProof] @
        (if tc_subscribe_all_subnets opts then map GK_SyncCommitteeMessage (count_up sync_committee_subnet_count) else []) @
        (if tc_enable_light_client_server opts then [GK_LightClientFinalityUpdate, GK_LightClientOptimisticUpdate] else [])
      else []) @
     (if capella_enabled f then [GK_BlsToExecutionChange] else []) @
     (if fulu_enabled f then map GK_DataColumnSidecar (tc_sampling_subnets opts) else []) @
     (if gloas_enabled f
      then [GK_ExecutionPayload, GK_ExecutionPayloadBid, GK_PayloadAttestation, GK_ProposerPreferences] else [])"

definition is_fork_non_core_topic :: "gossip_topic \<Rightarrow> fork_name \<Rightarrow> bool" where
  "is_fork_non_core_topic topic f \<longleftrightarrow> (case gt_kind topic of
     GK_Attestation _ \<Rightarrow> True | GK_SyncCommitteeMessage _ \<Rightarrow> True | _ \<Rightarrow> False)"

definition all_topics_at_fork :: "u64 \<Rightarrow> u64 list \<Rightarrow> fork_name \<Rightarrow> chain_spec \<Rightarrow> gossip_kind list" where
  "all_topics_at_fork sync_committee_subnet_count all_column_subnets f s =
     core_topics_to_subscribe sync_committee_subnet_count f
       \<lparr>tc_enable_light_client_server = True, tc_subscribe_all_subnets = True, tc_sampling_subnets = all_column_subnets\<rparr> s"

definition use_partial_messages :: "bool \<Rightarrow> gossip_kind \<Rightarrow> bool" where
  "use_partial_messages enable_partial_columns kind \<longleftrightarrow>
     (case kind of GK_DataColumnSidecar _ \<Rightarrow> enable_partial_columns | _ \<Rightarrow> False)"

section \<open>Names\<close>

text \<open>\<open>Display\<close> of a kind; the names without an index are derived from the constructors.\<close>

fun kind_display :: "gossip_kind \<Rightarrow> string" where
  "kind_display (GK_Attestation i) = ''beacon_attestation_'' @ show_u64 i"
| "kind_display (GK_SyncCommitteeMessage i) = ''sync_committee_'' @ show_u64 i"
| "kind_display (GK_DataColumnSidecar i) = DATA_COLUMN_SIDECAR_PREFIX @ show_u64 i"
| "kind_display GK_BeaconBlock = ''beacon_block''"
| "kind_display GK_BeaconAggregateAndProof = ''beacon_aggregate_and_proof''"
| "kind_display GK_VoluntaryExit = ''voluntary_exit''"
| "kind_display GK_ProposerSlashing = ''proposer_slashing''"
| "kind_display GK_AttesterSlashing = ''attester_slashing''"
| "kind_display GK_SignedContributionAndProof = ''signed_contribution_and_proof''"
| "kind_display GK_BlsToExecutionChange = ''bls_to_execution_change''"
| "kind_display GK_ExecutionPayload = ''execution_payload''"
| "kind_display GK_PayloadAttestation = ''payload_attestation''"
| "kind_display GK_ExecutionPayloadBid = ''execution_payload_bid''"
| "kind_display GK_ProposerPreferences = ''proposer_preferences''"
| "kind_display GK_LightClientFinalityUpdate = ''light_client_finality_update''"
| "kind_display GK_LightClientOptimisticUpdate = ''light_client_optimistic_update''"

text \<open>The name of a kind in a topic.\<close>

fun kind_topic :: "gossip_kind \<Rightarrow> string" where
  "kind_topic GK_BeaconBlock = BEACON_BLOCK_TOPIC"
| "kind_topic GK_BeaconAggregateAndProof = BEACON_AGGREGATE_AND_PROOF_TOPIC"
| "kind_topic GK_VoluntaryExit = VOLUNTARY_EXIT_TOPIC"
| "kind_topic GK_ProposerSlashing = PROPOSER_SLASHING_TOPIC"
| "kind_topic GK_AttesterSlashing = ATTESTER_SLASHING_TOPIC"
| "kind_topic (GK_Attestation i) = BEACON_ATTESTATION_PREFIX @ show_u64 i"
| "kind_topic GK_SignedContributionAndProof = SIGNED_CONTRIBUTION_AND_PROOF_TOPIC"
| "kind_topic (GK_SyncCommitteeMessage i) = SYNC_COMMITTEE_PREFIX_TOPIC @ show_u64 i"
| "kind_topic (GK_DataColumnSidecar i) = DATA_COLUMN_SIDECAR_PREFIX @ show_u64 i"
| "kind_topic GK_BlsToExecutionChange = BLS_TO_EXECUTION_CHANGE_TOPIC"
| "kind_topic GK_ExecutionPayload = EXECUTION_PAYLOAD"
| "kind_topic GK_PayloadAttestation = PAYLOAD_ATTESTATION"
| "kind_topic GK_ExecutionPayloadBid = EXECUTION_PAYLOAD_BID"
| "kind_topic GK_ProposerPreferences = PROPOSER_PREFERENCES"
| "kind_topic GK_LightClientFinalityUpdate = LIGHT_CLIENT_FINALITY_UPDATE"
| "kind_topic GK_LightClientOptimisticUpdate = LIGHT_CLIENT_OPTIMISTIC_UPDATE"

record hex_crate =
  hx_encode :: "byte list \<Rightarrow> string"
  hx_decode :: "string \<Rightarrow> string + byte list"

definition encoding_postfix :: "gossip_encoding \<Rightarrow> string" where
  "encoding_postfix e = (case e of SSZSnappy \<Rightarrow> SSZ_SNAPPY_ENCODING_POSTFIX)"

definition topic_display :: "hex_crate \<Rightarrow> gossip_topic \<Rightarrow> string" where
  "topic_display X t =
     ''/'' @ TOPIC_PREFIX @ ''/'' @ hx_encode X (gt_fork_digest t) @ ''/'' @ kind_topic (gt_kind t) @ ''/'' @
     encoding_postfix (gt_encoding t)"

section \<open>The parser\<close>

text \<open>A prefix that matches with an index that is not a number gives no kind at all.\<close>

definition subnet_topic_index :: "string \<Rightarrow> gossip_kind option" where
  "subnet_topic_index topic =
     (case strip_prefix BEACON_ATTESTATION_PREFIX topic of
        Some index \<Rightarrow> map_option GK_Attestation (parse_u64 index)
      | None \<Rightarrow>
     (case strip_prefix SYNC_COMMITTEE_PREFIX_TOPIC topic of
        Some index \<Rightarrow> map_option GK_SyncCommitteeMessage (parse_u64 index)
      | None \<Rightarrow>
     (case strip_prefix DATA_COLUMN_SIDECAR_PREFIX topic of
        Some index \<Rightarrow> map_option GK_DataColumnSidecar (parse_u64 index)
      | None \<Rightarrow> None)))"

definition decode_kind :: "string \<Rightarrow> string + gossip_kind" where
  "decode_kind part =
     (if part = BEACON_BLOCK_TOPIC then Inr GK_BeaconBlock
      else if part = BEACON_AGGREGATE_AND_PROOF_TOPIC then Inr GK_BeaconAggregateAndProof
      else if part = SIGNED_CONTRIBUTION_AND_PROOF_TOPIC then Inr GK_SignedContributionAndProof
      else if part = VOLUNTARY_EXIT_TOPIC then Inr GK_VoluntaryExit
      else if part = PROPOSER_SLASHING_TOPIC then Inr GK_ProposerSlashing
      else if part = ATTESTER_SLASHING_TOPIC then Inr GK_AttesterSlashing
      else if part = BLS_TO_EXECUTION_CHANGE_TOPIC then Inr GK_BlsToExecutionChange
      else if part = EXECUTION_PAYLOAD then Inr GK_ExecutionPayload
      else if part = EXECUTION_PAYLOAD_BID then Inr GK_ExecutionPayloadBid
      else if part = PAYLOAD_ATTESTATION then Inr GK_PayloadAttestation
      else if part = PROPOSER_PREFERENCES then Inr GK_ProposerPreferences
      else if part = LIGHT_CLIENT_FINALITY_UPDATE then Inr GK_LightClientFinalityUpdate
      else if part = LIGHT_CLIENT_OPTIMISTIC_UPDATE then Inr GK_LightClientOptimisticUpdate
      else ok_or (subnet_topic_index part) (''Unknown topic: '' @ part))"

definition decode_topic :: "hex_crate \<Rightarrow> string \<Rightarrow> string + gossip_topic" where
  "decode_topic X topic =
     (let parts = split_on (CHR ''/'') topic in
      if length parts = 5 \<and> parts ! 1 = TOPIC_PREFIX then
        rbind (map_sum (\<lambda>e. ''Could not decode fork_digest hex: '' @ e) id (hx_decode X (parts ! 2))) (\<lambda>digest_bytes.
        if length digest_bytes \<noteq> 4
        then Inl (''Invalid gossipsub fork digest size: '' @ show_nat (length digest_bytes))
        else
          rbind (if parts ! 4 = SSZ_SNAPPY_ENCODING_POSTFIX then Inr SSZSnappy
            else Inl (''Unknown encoding: '' @ topic)) (\<lambda>encoding.
          rbind (decode_kind (parts ! 3)) (\<lambda>kind.
          Inr \<lparr>gt_encoding = encoding, gt_fork_digest = digest_bytes, gt_kind = kind\<rparr>)))
      else Inl (''Unknown topic: '' @ topic))"

definition topic_subnet_id :: "gossip_topic \<Rightarrow> subnet option" where
  "topic_subnet_id t = (case gt_kind t of
     GK_Attestation i \<Rightarrow> Some (Subnet_Attestation i)
   | GK_SyncCommitteeMessage i \<Rightarrow> Some (Subnet_SyncCommittee i)
   | GK_DataColumnSidecar i \<Rightarrow> Some (Subnet_DataColumn i)
   | _ \<Rightarrow> None)"

fun kind_from_subnet :: "subnet \<Rightarrow> gossip_kind" where
  "kind_from_subnet (Subnet_Attestation i) = GK_Attestation i"
| "kind_from_subnet (Subnet_SyncCommittee i) = GK_SyncCommitteeMessage i"
| "kind_from_subnet (Subnet_DataColumn i) = GK_DataColumnSidecar i"

definition subnet_from_topic_hash :: "hex_crate \<Rightarrow> string \<Rightarrow> subnet option" where
  "subnet_from_topic_hash X topic_hash =
     (case decode_topic X topic_hash of Inl _ \<Rightarrow> None | Inr t \<Rightarrow> topic_subnet_id t)"

end
