(* ===== verification/Gossip_Facts.thy ===== *)
theory Gossip_Facts
  imports Gossip_Topics
begin

text \<open>The names of topics round trip, the parser accepts exactly the names of a grammar, and subscriptions
  grow with the forks.\<close>

text \<open>What is relied on: hexadecimal digits are read back as they were written, and none is a slash.\<close>

definition hex_lawful :: "hex_crate \<Rightarrow> bool" where
  "hex_lawful X \<longleftrightarrow> (\<forall>b. hx_decode X (hx_encode X b) = Inr b \<and> CHR ''/'' \<notin> set (hx_encode X b))"

lemmas topic_names = TOPIC_PREFIX_def SSZ_SNAPPY_ENCODING_POSTFIX_def BEACON_BLOCK_TOPIC_def
  BEACON_AGGREGATE_AND_PROOF_TOPIC_def BEACON_ATTESTATION_PREFIX_def DATA_COLUMN_SIDECAR_PREFIX_def
  VOLUNTARY_EXIT_TOPIC_def PROPOSER_SLASHING_TOPIC_def ATTESTER_SLASHING_TOPIC_def
  SIGNED_CONTRIBUTION_AND_PROOF_TOPIC_def SYNC_COMMITTEE_PREFIX_TOPIC_def BLS_TO_EXECUTION_CHANGE_TOPIC_def
  EXECUTION_PAYLOAD_def EXECUTION_PAYLOAD_BID_def PAYLOAD_ATTESTATION_def PROPOSER_PREFERENCES_def
  LIGHT_CLIENT_FINALITY_UPDATE_def LIGHT_CLIENT_OPTIMISTIC_UPDATE_def

lemma number_not_word: "\<not> is_digit c \<Longrightarrow> show_u64 n \<noteq> c # cs"
  using show_u64_digits [of n] by auto

lemma not_digits: "\<not> is_digit CHR ''c''" "\<not> is_digit CHR ''/''"
  by (simp_all add: is_digit_def)

lemma decode_kind_topic: "decode_kind (kind_topic k) = Inr k"
proof (cases k)
  case (GK_SyncCommitteeMessage i)
  have "show_u64 i \<noteq> CHR ''c'' # cs" for cs by (rule number_not_word [OF not_digits(1)])
  then show ?thesis using GK_SyncCommitteeMessage
    by (simp add: decode_kind_def subnet_topic_index_def topic_names strip_prefix_def parse_show_u64 ok_or_def)
qed (simp_all add: decode_kind_def subnet_topic_index_def topic_names strip_prefix_def parse_show_u64 ok_or_def)

lemma number_no_slash: "CHR ''/'' \<notin> set (show_u64 i)"
  using show_u64_digits [of i] not_digits(2) by (auto simp: list_all_iff)

lemma kind_no_slash: "CHR ''/'' \<notin> set (kind_topic k)"
  by (cases k) (simp_all add: topic_names number_no_slash)

lemma topic_display_parts:
  "topic_display X t = join_with (CHR ''/'') [[], TOPIC_PREFIX, hx_encode X (gt_fork_digest t), kind_topic (gt_kind t),
     SSZ_SNAPPY_ENCODING_POSTFIX]"
  by (cases "gt_encoding t") (simp add: topic_display_def encoding_postfix_def)

text \<open>
  The parser accepts exactly the strings of five parts, with any first part, whose second part is the
  prefix, whose third is four bytes in hexadecimal, whose fourth is the name of a kind and whose last is the
  encoding; the topic is what these parts name.\<close>

theorem topics_exact: "decode_topic X s = Inr t \<longleftrightarrow> (\<exists>first digest name.
    CHR ''/'' \<notin> set first \<and> CHR ''/'' \<notin> set digest \<and> CHR ''/'' \<notin> set name \<and>
    s = first @ ''/eth2/'' @ digest @ ''/'' @ name @ ''/ssz_snappy'' \<and>
    hx_decode X digest = Inr (gt_fork_digest t) \<and> length (gt_fork_digest t) = 4 \<and> decode_kind name = Inr (gt_kind t))"
  (is "_ \<longleftrightarrow> ?words")
proof
  assume ok: "decode_topic X s = Inr t"
  then have "length (split_on (CHR ''/'') s) = 5" by (auto simp: decode_topic_def Let_def split: if_splits)
  then obtain a b c d e where parts: "split_on (CHR ''/'') s = [a, b, c, d, e]"
    by (auto simp: eval_nat_numeral length_Suc_conv)
  have slash: "\<forall>w \<in> set [a, b, c, d, e]. CHR ''/'' \<notin> set w" and s: "s = join_with (CHR ''/'') [a, b, c, d, e]"
    using parts split_eq_iff by metis+
  have "b = TOPIC_PREFIX" "e = SSZ_SNAPPY_ENCODING_POSTFIX" "hx_decode X c = Inr (gt_fork_digest t)"
    "length (gt_fork_digest t) = 4" "decode_kind d = Inr (gt_kind t)"
    using ok by (auto simp: decode_topic_def Let_def parts rbind_Inr split: if_splits) (cases "hx_decode X c"; simp)+
  then show ?words using slash s by (intro exI [of _ a] exI [of _ c] exI [of _ d]) (simp add: topic_names)
next
  assume ?words
  then obtain a c d where *: "CHR ''/'' \<notin> set a" "CHR ''/'' \<notin> set c" "CHR ''/'' \<notin> set d"
    "s = a @ ''/eth2/'' @ c @ ''/'' @ d @ ''/ssz_snappy''" "hx_decode X c = Inr (gt_fork_digest t)"
    "length (gt_fork_digest t) = 4" "decode_kind d = Inr (gt_kind t)" by blast
  have "split_on (CHR ''/'') s = [a, ''eth2'', c, d, ''ssz_snappy'']"
    unfolding split_eq_iff using * by simp
  then show "decode_topic X s = Inr t" using * by (cases t) (simp add: decode_topic_def topic_names, metis gossip_encoding.exhaust)
qed

text \<open>
  C35. The name of a topic is parsed back as the topic, with the subnet of the topic, so two topics of
  different fork digests, kinds or subnets never share a name.\<close>

theorem topics_roundtrip:
  assumes "hex_lawful X" and "length (gt_fork_digest t) = 4"
  shows "decode_topic X (topic_display X t) = Inr t \<and> subnet_from_topic_hash X (topic_display X t) = topic_subnet_id t \<and>
    (\<forall>t'. length (gt_fork_digest t') = 4 \<and> topic_display X t' = topic_display X t \<longrightarrow> t' = t)"
proof -
  have decode: "decode_topic X (topic_display X t) = Inr t" if "length (gt_fork_digest t) = 4" for t
  proof -
    have "split_on (CHR ''/'') (topic_display X t) = [[], TOPIC_PREFIX, hx_encode X (gt_fork_digest t), kind_topic (gt_kind t),
        SSZ_SNAPPY_ENCODING_POSTFIX]"
      unfolding split_eq_iff topic_display_parts using assms(1) kind_no_slash [of "gt_kind t"]
      by (simp add: hex_lawful_def topic_names)
    then show ?thesis using assms(1) that
      by (cases t) (simp add: decode_topic_def hex_lawful_def decode_kind_topic, metis gossip_encoding.exhaust)
  qed
  then show ?thesis using decode [OF assms(2)] by (auto simp: subnet_from_topic_hash_def) (metis sum.inject(2))
qed

text \<open>
  Subscriptions grow with the forks: a node keeps every core topic at a later fork, Daisugi has
  the topics of Electra, and every core topic is among all topics of the fork.\<close>

theorem topics_grow:
  assumes "f \<le> g"
  shows "set (core_topics_to_subscribe n f opts s) \<subseteq> set (core_topics_to_subscribe n g opts s) \<and>
    core_topics_to_subscribe n Daisugi opts s = core_topics_to_subscribe n Electra opts s \<and>
    (set (tc_sampling_subnets opts) \<subseteq> set columns \<longrightarrow>
       set (core_topics_to_subscribe n f opts s) \<subseteq> set (all_topics_at_fork n columns f s))"
proof (intro conjI impI)
  have mono: "altair_enabled f \<Longrightarrow> altair_enabled g" "capella_enabled f \<Longrightarrow> capella_enabled g"
    "fulu_enabled f \<Longrightarrow> fulu_enabled g" "gloas_enabled f \<Longrightarrow> gloas_enabled g"
    using assms by (auto simp: enabled_defs)
  then show "set (core_topics_to_subscribe n f opts s) \<subseteq> set (core_topics_to_subscribe n g opts s)"
    by (auto simp: core_topics_to_subscribe_def)
  show "core_topics_to_subscribe n Daisugi opts s = core_topics_to_subscribe n Electra opts s"
    by (simp add: core_topics_to_subscribe_def enabled_defs fork_order)
  show "set (core_topics_to_subscribe n f opts s) \<subseteq> set (all_topics_at_fork n columns f s)"
    if "set (tc_sampling_subnets opts) \<subseteq> set columns"
    using that by (auto simp: core_topics_to_subscribe_def all_topics_at_fork_def)
qed

end
