(* ===== verification/Network_Witnesses.thy ===== *)
theory Network_Witnesses
  imports Light_Client_Facts Gossip_Facts Block_Witnesses
begin

text \<open>
  The theorems about light clients and gossip topics, applied to two updates of one period, to a bootstrap of
  the development network and to a topic with the hexadecimal codec of \<open>Text_Codec\<close>.
\<close>

section \<open>Light clients\<close>

text \<open>A tree with one root for each level, whose roots are all zero.\<close>

definition flat_proof :: "root list \<Rightarrow> nat \<Rightarrow> nat \<Rightarrow> state_error + root list" where
  "flat_proof leaves i d = Inr (replicate d zero_hash)"

definition flat_roots :: "'o leaf_roots" where
  "flat_roots = \<lparr>lr_signature = (\<lambda>s. zero_hash), lr_eth1_data = (\<lambda>d. zero_hash), lr_graffiti = (\<lambda>g. zero_hash),
     lr_list = (\<lambda>xs. zero_hash), lr_sync_aggregate = (\<lambda>a. zero_hash), lr_payload = (\<lambda>p. zero_hash),
     lr_header = (\<lambda>f h. replicate 32 3), lr_commitments = (\<lambda>cs. zero_hash), lr_requests = (\<lambda>r. zero_hash),
     lr_bid = (\<lambda>b. zero_hash), lr_container = (\<lambda>rs. replicate 32 9), lr_proof = flat_proof\<rparr>"

definition flat_state_roots :: "'o state_roots" where
  "flat_state_roots = \<lparr>hr_u64 = (\<lambda>n. zero_hash), hr_root = id, hr_fork = (\<lambda>f. zero_hash), hr_header = (\<lambda>h. zero_hash),
     hr_root_vector = (\<lambda>rs. zero_hash), hr_root_list = (\<lambda>rs. zero_hash), hr_eth1_data = (\<lambda>d. zero_hash),
     hr_eth1_list = (\<lambda>ds. zero_hash), hr_validators = (\<lambda>vs. zero_hash), hr_u64_list = (\<lambda>ns. zero_hash),
     hr_u64_vector = (\<lambda>ns. zero_hash), hr_list = (\<lambda>xs. zero_hash), hr_flags = (\<lambda>fs. zero_hash), hr_bits = (\<lambda>bs. zero_hash),
     hr_checkpoint = (\<lambda>c. zero_hash), hr_sync_committee = (\<lambda>c. replicate 32 5), hr_payload_header = (\<lambda>f h. zero_hash),
     hr_pending_deposits = (\<lambda>ds. zero_hash), hr_partial_withdrawals = (\<lambda>ws. zero_hash), hr_builders = (\<lambda>bs. zero_hash),
     hr_builder_payments = (\<lambda>ps. zero_hash), hr_builder_withdrawals = (\<lambda>ws. zero_hash), hr_bid = (\<lambda>b. zero_hash),
     hr_ptc_window = (\<lambda>w. zero_hash), hr_proof = flat_proof,
     hr_current_sync_committee_index = 54, hr_current_sync_committee_index_electra = 86,
     hr_next_sync_committee_index = 55, hr_next_sync_committee_index_electra = 87,
     hr_finalized_root_index = 105, hr_finalized_root_index_electra = 169\<rparr>"

definition light_env :: "('o \<Rightarrow> bool list) \<Rightarrow> 'o lc_env" where
  "light_env bits = \<lparr>le_sizes = sample_sizes, le_spec = devnet, le_roots = flat_roots, le_state_roots = flat_state_roots,
     le_empty_header = \<lparr>bh_slot = 0, bh_proposer_index = 0, bh_parent_root = zero_hash, bh_state_root = zero_hash, bh_body_root = zero_hash\<rparr>,
     le_payload_index = 25, le_payload_proof_len = 4, le_sync_committee_bits = bits, le_canonical_root = bh_body_root\<rparr>"

lemma light_env_simps [simp]:
  "le_sizes (light_env bits) = sample_sizes" "le_spec (light_env bits) = devnet" "le_roots (light_env bits) = flat_roots"
  "le_state_roots (light_env bits) = flat_state_roots" "le_sync_committee_bits (light_env bits) = bits"
  by (simp_all add: light_env_def)

lemma light_env_lawful: "proofs_lawful (light_env bits)"
  by (simp add: proofs_lawful_def light_env_def flat_roots_def flat_state_roots_def proves_leaves_def flat_proof_def)

definition light_header :: "slot \<Rightarrow> lc_header" where
  "light_header slot = \<lparr>lh_variant = Capella,
     lh_beacon = \<lparr>bh_slot = slot, bh_proposer_index = 0, bh_parent_root = zero_hash, bh_state_root = zero_hash, bh_body_root = zero_hash\<rparr>,
     lh_execution = sample_header, lh_execution_branch = replicate 4 zero_hash\<rparr>"

text \<open>An update of a committee of four that \<open>bits\<close> signed.\<close>

definition signed_update :: "slot \<Rightarrow> bool list \<Rightarrow> bool list lc_update" where
  "signed_update slot bits = \<lparr>lu_variant = Capella, lu_attested_header = light_header slot,
     lu_next_sync_committee = \<lparr>sc_pubkeys = [], sc_aggregate_pubkey = []\<rparr>, lu_next_sync_committee_branch = replicate 5 zero_hash,
     lu_finalized_header = light_header 0, lu_finality_branch = replicate 6 zero_hash,
     lu_sync_aggregate = bits, lu_signature_slot = slot + 1\<rparr>"

lemma update_ranking_witness:
  "is_better_light_client_update (light_env id) (signed_update 3 [True, True, False, False]) (signed_update 8 [True, True, True, False]) =
     Inr True"
proof -
  have committees: "committee_of (light_env id) 4 (signed_update s [a, b, c, d])" for s a b c d
    by (simp add: committee_of_def signed_update_def)
  have "epochs_per_sync_committee_period (sp_altair devnet) \<noteq> 0"
    by (simp add: devnet_def make_genesis_spec_def set_genesis_epochs_def set_fork_epoch_def Let_def mainnet_def mainnet_altair_def)
  moreover have "update_key (light_env id) 4 (signed_update 3 [True, True, False, False])
      < update_key (light_env id) 4 (signed_update 8 [True, True, True, False])"
    by (simp add: update_key_def Let_def active_members_def signed_update_def num_set_bits_def)
  ultimately show ?thesis
    using update_ranking [of "light_env id" 4 "signed_update 3 [True, True, False, False]" "signed_update 8 [True, True, True, False]"]
      committees by simp
qed

lemma bootstrap_from_state_witness:
  "\<exists>b. from_beacon_state (light_env (\<lambda>_. [])) daisugi_now (clone_as_blinded block_hashes proof_block) = Inr b \<and>
     lb_variant b = Daisugi \<and> eh_recursive_stark_block_deps_hash (lh_execution (lb_header b)) = replicate 32 8"
proof -
  let ?sb = "clone_as_blinded block_hashes proof_block"
  have blinded: "?sb = blinded_with proof_block (Blinded Daisugi (header_from_daisugi block_hashes proof_payload))"
    using into_blinded_some(2) [of proof_block proof_payload header_from_daisugi block_hashes]
    by (simp add: has_payload_def header_from_def proof_payload_def)
  have "fork_name_at_slot mainnet_e devnet 321 = Daisugi"
    by (simp add: fork_name_at_slot_def epoch_of_def devnet_forks)
  then have fork: "block_fork_name (le_sizes (light_env (\<lambda>_. []))) (le_spec (light_env (\<lambda>_. []))) (sg_message ?sb) = Inr Daisugi"
    unfolding blinded by (simp add: block_fork_name_def blinded_with_def proof_block_def Let_def)
  have body: "bb_execution_payload (bk_body (sg_message ?sb)) = Blinded Daisugi (header_from_daisugi block_hashes proof_payload)"
    unfolding blinded by (simp add: blinded_with_def)
  have deps: "eh_recursive_stark_block_deps_hash (header_from_daisugi block_hashes proof_payload) = replicate 32 8"
    by (simp add: header_from_daisugi_def proof_payload_def)
  show ?thesis
    using bootstrap_from_state [OF light_env_lawful fork, where h = "header_from_daisugi block_hashes proof_payload"
        and st = daisugi_now] body deps
    by (fastforce simp: Let_def enabled_defs fork_order)
qed

section \<open>Topics\<close>

definition hex_x :: hex_crate where
  "hex_x = \<lparr>hx_encode = hex_encode, hx_decode = (\<lambda>s. ok_or (hex_decode s) ''Odd number of digits'')\<rparr>"

lemma hex_no_slash: "CHR ''/'' \<notin> set (hex_encode bs)"
proof -
  have "hex_digit n \<noteq> CHR ''/''" if "n < 16" for n
    using hex_value_digit [OF that] by (auto simp: hex_value_def)
  moreover have "unat (b :: byte) div 16 < 16" for b using unat_byte_less [of b] by (simp add: less_mult_imp_div_less)
  moreover have "unat (b :: byte) mod 16 < 16" for b by simp
  ultimately have "CHR ''/'' \<notin> set [hex_digit (unat b div 16), hex_digit (unat b mod 16)]" for b :: byte
    by (metis empty_iff empty_set set_ConsD)
  then show ?thesis unfolding hex_encode_def set_concat set_map by blast
qed

lemma hex_x_lawful: "hex_lawful hex_x"
  by (simp add: hex_lawful_def hex_x_def hex_decode_encode hex_no_slash ok_or_def)

lemma topics_roundtrip_witness:
  "decode_topic hex_x ''/eth2/01020304/beacon_attestation_7/ssz_snappy'' = Inr (topic_new (GK_Attestation 7) SSZSnappy [1, 2, 3, 4])"
proof -
  have name: "topic_display hex_x (topic_new (GK_Attestation 7) SSZSnappy [1, 2, 3, 4]) = ''/eth2/01020304/beacon_attestation_7/ssz_snappy''"
    by code_simp
  show ?thesis using topics_roundtrip [OF hex_x_lawful, of "topic_new (GK_Attestation 7) SSZSnappy [1, 2, 3, 4]"]
    unfolding name by (simp add: topic_new_def)
qed

lemma topics_grow_witness: "GK_BeaconBlock \<in> set (core_topics_to_subscribe 4 Daisugi
    \<lparr>tc_enable_light_client_server = False, tc_subscribe_all_subnets = False, tc_sampling_subnets = []\<rparr> devnet)"
proof -
  have "Base \<le> Daisugi" by (simp add: fork_order)
  from topics_grow [OF this] show ?thesis by (auto simp: core_topics_to_subscribe_def)
qed

end
