(* ===== verification/Spec2Isabelle.thy ===== *)
theory Spec2Isabelle
  imports Library_Witnesses Claims_Adapter Fork_Name Slot_Witnesses Payload_Witnesses
    Whir_Witnesses Cpu_Witnesses Cache_Witnesses Genesis_Witnesses Network_Witnesses
begin

text \<open>
  A verification library for the proof-aggregation code of AA-PQ (Daisugi). Paths are relative
  to \<open>src/aggregation/frames\<close>; \<open>LH\<close> stands for
  \<open>consensus/fork/overlays/lighthouse/files\<close>.

  \<^bold>\<open>The program.\<close> A frame transaction carries post-quantum signatures or proofs, each binding a
  32-byte data hash to a verification key. A dependency is 96 bytes: a scheme byte, the data hash
  and the hash of the key. A node collects dependencies with witnesses, and the native library
  \<open>adaptive/native/ffi/src/lib.rs\<close> turns them into one recursive proof for the canonical
  sorted list of dependencies, whose Keccak hash the block carries. The library is called through
  a C interface, in the node's process or by the pipe worker \<open>adaptive/worker.rs\<close>, and proves
  with the mixed profile \<open>rec_aggregation/src/eip8288_mixed.rs\<close>, which builds the hints of
  one self-recursive guest program. The feasibility verifier \<open>prover/src/lib.rs\<close> and the
  probe \<open>integration/one-hop/src/main.rs\<close> are smaller adapters of the same idea. The
  consensus overlay schedules the fork that carries the proofs: Daisugi, a branch off Electra. Its
  beacon state is upgraded at the activation epoch, its execution payload carries the recursive
  proof and the hash of the dependencies, and the block hash commits to both.

  \<^bold>\<open>Theories, in the order of the code.\<close>
  \<^item> \<open>Prelude\<close>: errors as \<open>option\<close>, sums and \<open>outcome\<close> (\<open>Crash\<close> is a panic), checked
    arithmetic, little-endian bytes, sorted sets as lists, and the locale of decoders with an
    exact inverse, on which all readers are built.
  \<^item> \<open>Text_Codec\<close>: decimal and hexadecimal numbers as text, and the parts of a string.
  \<^item> \<open>Wire\<close>: \<open>Reader\<close>, \<open>put_number\<close>, \<open>put_blob\<close>, \<open>put_deps\<close> and the limits.
  \<^item> \<open>Preflight\<close>: the pass that bounds every allocation before deserialisation. A serialised
    proof is described by a grammar (\<open>wire_mixed\<close>); the pass is shown to accept exactly its
    words within the bounds.
  \<^item> \<open>Program_Codec\<close>: the two encoders and the strict decoder of guest programs.
  \<^item> \<open>Backend\<close>: the record of external functions (hashes, signature scheme, proof system,
    compiler, serialiser), one field per function the code calls in a crate outside the
    repository.
  \<^item> \<open>Mixed_Profile\<close>, \<open>Mixed_Prepare\<close>: dependency sets, capacity, payloads, the guest
    fixpoint and the statement; then the preparation as a fold over raw signatures, generic
    proofs and children that threads a hint log, and \<open>aggregate_mixed\<close>.
  \<^item> \<open>Aggregation\<close>: \<open>decode_stark\<close>, \<open>decode_aggregate\<close>, the bounded recursion and
    \<open>prove_aggregate\<close>.
  \<^item> \<open>Mixed_Facts\<close>, \<open>Mixed_Sound\<close>, \<open>Aggregation_Facts\<close>: exact characterisations of
    the decoders, soundness of what is output, and completeness on a complete machine. The
    locale \<open>merging\<close> proves once what a merge tree keeps; it is interpreted for the soundness
    and for the completeness of nodes. The locale of the two preflight walkers is interpreted for
    rows and for phases.
  \<^item> \<open>Abi\<close>: the C interface over an explicit memory, allocation map and panic-hook state, and
    the worker's request loop.
  \<^item> \<open>Claims_Adapter\<close>: the feasibility verifier with its lock, and the probe over a map of
    files.
  \<^item> \<open>Fork_Name\<close>, \<open>Chain_Types\<close>, \<open>Chain_Spec\<close>, \<open>Chain_Presets\<close>,
    \<open>Chain_Config\<close> and their \<open>_Facts\<close>: \<open>fork_name.rs\<close> and \<open>chain_spec.rs\<close> of
    \<open>LH/consensus/types/src\<close>. A specification is a record of groups of fields, the groups of
    the source's comments; the presets are written out; \<open>Config\<close> is extracted and applied
    field by field.
  \<^item> \<open>Beacon_State\<close>, \<open>Beacon_Churn\<close> and \<open>Beacon_Facts\<close>: \<open>beacon_state.rs\<close>. The
    variants of the state are a fork name beside one record of all fields in groups; the ring
    buffers of roots, mixes and slashings; balances, the total balance cache, churn limits and the
    exit and consolidation queues. The locale \<open>ring_buffer\<close> is interpreted for the four
    buffers, \<open>churn_queue\<close> for the two queues.
  \<^item> \<open>Slot_Processing\<close>, \<open>Slot_Facts\<close>: \<open>per_slot_processing.rs\<close> and
    \<open>upgrade/daisugi.rs\<close> of \<open>LH/consensus/state_processing\<close>: the roots cached for a slot,
    the upgrades in their order and the upgrade from Electra to Daisugi.
  \<^item> \<open>Beacon_Selection\<close>, \<open>Selection_Facts\<close>: proposers, sync committees and payload
    timeliness committees of \<open>beacon_state.rs\<close>, and the registry of builders. The sampling loops
    end by their checked counter; the locale \<open>selection_loop\<close> gives their result, and the two
    ways of selecting by balance are shown to agree.
  \<^item> \<open>Beacon_Caches\<close>, \<open>Cache_Facts\<close>: building, advancing and dropping the caches of a
    state. The locale \<open>kept_relation\<close> says what every step over a state keeps.
  \<^item> \<open>Block_Types\<close>, \<open>Blinding_Facts\<close>: \<open>payload.rs\<close>, \<open>dumb_macros.rs\<close>,
    \<open>beacon_block.rs\<close>, \<open>beacon_block_body.rs\<close> and \<open>signed_beacon_block.rs\<close>: full and
    blinded payloads, bodies and blocks over all variants, blinding and its inverse, and decoding.
  \<^item> \<open>Block_Processing\<close>, \<open>Block_Facts\<close>: \<open>per_block_processing.rs\<close> as steps over the
    state and the context, and what an accepted block satisfies.
  \<^item> \<open>Chain_Runs\<close>: runs of slots and blocks as an inductive relation, with the invariants
    of the chain of payloads and of the fork schedule by rule induction (locale
    \<open>slot_relation\<close>). \<open>Builder_Facts\<close>: the debts of builders stay covered.
  \<^item> \<open>Genesis\<close>, \<open>Genesis_Facts\<close>: \<open>genesis.rs\<close>: the state of genesis from deposits,
    through the upgrades scheduled for the first epoch.
  \<^item> \<open>State_Proofs\<close>, \<open>Light_Client\<close>, \<open>Light_Client_Facts\<close>: the Merkle leaves of a
    state and a body, and the types of \<open>LH/consensus/types/src/light_client\<close>: headers,
    bootstraps and updates, and their ranking.
  \<^item> \<open>Gossip_Topics\<close>, \<open>Gossip_Facts\<close>: \<open>topics.rs\<close> of
    \<open>LH/beacon_node/lighthouse_network\<close>: subscriptions by fork, the names of topics and their
    parser.
  \<^item> \<open>Frame_Envelope\<close>, \<open>Frame_Facts\<close>: \<open>versioned_hashes.rs\<close> of
    \<open>LH/beacon_node/execution_layer\<close>. The loop over blob hashes is a
    \<open>partial_function\<close>, and it is proved that it returns; the parser is shown to accept
    exactly the words of a grammar (\<open>encode_frame\<close>).
  \<^item> \<open>Exec_Payload\<close>, \<open>Payload_Facts\<close>: the payload that carries a proof, its headers, its
    block hash and the request with its optimistic checks (\<open>aggregate_payload.rs\<close>,
    \<open>block_hash.rs\<close>, \<open>aggregate_block_hash.rs\<close>, \<open>new_payload_request.rs\<close>,
    \<open>aggregate_json.rs\<close>).
  \<^item> \<open>Multilinear\<close>, \<open>Sumcheck_Kernels\<close>, \<open>Sumcheck_Kernel_Facts\<close>,
    \<open>Streamed_Facts\<close>: the tables and sumcheck kernels of the polynomial commitment
    \<open>adaptive/native/leanvm-overlay/files/crates/pcs/src/whir.rs\<close>, with their chunks, stages
    and windows of shared buffers, over any commutative ring of characteristic two. The locale
    \<open>round_witness\<close> is the trait \<open>RoundWitness\<close>; it is interpreted for base and for
    extension elements, and every kernel is shown to compute its sum and its fold.
  \<^item> \<open>Sumcheck_Prover\<close>, \<open>Sumcheck_Prover_Facts\<close>: the running sumcheck and the lane
    rounds over a stored and over a streamed basis.
  \<^item> \<open>Whir_Verifier\<close>, \<open>Whir_Prover\<close>: the succinct verifier as a computation that
    reads the transcript, and the recursive prover with its commitments.
  \<^item> \<open>Whir_Lockstep\<close>, \<open>Whir_Rounds\<close>, \<open>Whir_Queries\<close>, \<open>Whir_Claims\<close>,
    \<open>Whir_Codes\<close>, \<open>Whir_Weights\<close>, \<open>Whir_Levels\<close>, \<open>Whir_Complete\<close>: prover and
    verifier in lockstep. A step of the prover is matched by a computation of the verifier that
    reads what was sent (\<open>lock\<close>); the rounds, the query positions, the claims, the commitments of
    a level, the final weights and the levels are each shown to keep the two together, with the
    invariant \<open>levels_match\<close> between levels, and the verifier accepts the opening. Sampled
    positions are shown to be digits of the challenges.
  \<^item> \<open>Cpu_Proof\<close>, \<open>Cpu_Facts\<close>, \<open>Cpu_Complete\<close>: the proof of a program run
    (\<open>adaptive/native/leanvm-overlay/files/crates/lean_vm/src/cpu/mod.rs\<close>), composed of a bus, a
    sumcheck of the tables, two hash circuits and one opening; what an accepted proof has opened, that
    it is about one statement, and, with the same lockstep, that the proofs of the prover are accepted.
  \<^item> \<open>Sample_Machine\<close>, \<open>Library_Witnesses\<close>, \<open>Chain_Witnesses\<close>,
    \<open>Slot_Witnesses\<close>, \<open>Payload_Witnesses\<close>, \<open>Whir_Witnesses\<close>,
    \<open>Cpu_Witnesses\<close>, \<open>Selection_Witnesses\<close>, \<open>Block_Witnesses\<close>, \<open>Cache_Witnesses\<close>,
    \<open>Genesis_Witnesses\<close>, \<open>Network_Witnesses\<close>: a concrete machine,
    network, state, block, RLP library and field on which the theorems with hypotheses are applied.

  \<^bold>\<open>External code\<close> is a parameter: the fields of \<open>backend\<close>, \<open>externals\<close>,
  \<open>probe_externals\<close>, \<open>chain_externals\<close>, \<open>slot_externals\<close>, \<open>rlp\<close>,
  \<open>block_externals\<close>, \<open>tree_hashes\<close>, \<open>primitives\<close>, \<open>transmitter\<close>,
  \<open>receiver\<close>, \<open>pcs_externals\<close>, \<open>selection_externals\<close>, \<open>cache_externals\<close>,
  \<open>leaf_roots\<close>, \<open>state_roots\<close>, \<open>block_calls\<close>, \<open>block_codec\<close>, \<open>empty_values\<close>,
  \<open>genesis_externals\<close>, \<open>hex_crate\<close>, \<open>cpu_env\<close> with its parts, and the constants and lengths held beside them in
  \<open>state_spec\<close> and \<open>lc_env\<close>. Documented behaviours are assumed where a
  theorem needs them, by name: \<open>machine_complete\<close> (a proof the prover returns for a statement
  verifies), \<open>claims_lawful\<close> (evaluation claims the library itself builds are well formed),
  \<open>serializer_lawful\<close> (the fixed-width serialiser writes words of the wire grammar and reads
  back what it wrote), \<open>slot_externals_lawful\<close> (epoch processing keeps the slot and the variant;
  each upgrade of another fork sets its own variant), \<open>rlp_lawful\<close> (the decoder accepts exactly
  the canonical encodings), \<open>header_lawful\<close> (the encoded base header is an RLP list),
  \<open>primitives_lawful\<close> (reduction of unreduced accumulators is additive, a parallel reduction
  gives the sequential result, the extension field has characteristic two), \<open>fills\<close> (a basis
  filler writes the window it is asked for), \<open>pcs_lawful\<close> (encoding applies the generator matrix
  of a linear code, the induced basis of a set of positions is the weighted sum of its rows, equality
  tables and limbs are what they are named after, a Merkle tree of \<open>n\<close> leaves has \<open>2 n - 1\<close> nodes)
  \<open>transcript_lawful\<close> (the verifier's reads return what the prover sent, both draw the same
  challenges, and rows open against the root of the tree they were taken from),
  \<open>calls_keep_core\<close> (the operations of a block leave its header, payload header, slot and
  variant alone), \<open>slots_keep_chain\<close> (so does an epoch), \<open>blinding_lawful\<close> (upstream calls see a
  blinded block as they see the block), \<open>codec_typed\<close> (a decoder of a variant returns blocks of
  it), \<open>shuffle_lawful\<close> (shuffling an index stays in range), \<open>caches_lawful\<close> (a cache that was
  built for an epoch says so), \<open>genesis_lawful\<close> (applying a deposit keeps the chain fields and
  each upgrade sets its own variant), \<open>proofs_lawful\<close> (the generalized indices of the
  specification; a tree proves each of its leaves with one root for each level),
  \<open>hex_lawful\<close> (hexadecimal is read as it was written and has no slash), \<open>tower_lawful\<close> (an
  element is its three limbs) and \<open>parts_lawful\<close> (each argument a run is proved with is complete by
  itself, and a witness is what the execution promises). The
  soundness and exactness theorems of the aggregation library do not need them.

  \<^bold>\<open>Integers.\<close> Fields of the specification are words of their width with the source's
  saturating or checked arithmetic; lengths and counters of the library are natural numbers, with
  \<open>checked_add\<close> and \<open>checked_mul\<close> where the code checks.

  \<^bold>\<open>Termination.\<close> The guest fixpoint has the source's eight rounds. The merge loop and the
  worker loop are total functions, by the length of the node list and of the remaining input; the
  sampling of positions is, by the number of positions missing, and the selection loops of the
  beacon state are, by the distance of the counter from its overflow.

  \<^bold>\<open>Not modelled.\<close> The interpreter, layout and sub-arguments of the virtual machine and the
  compiler (other files and crates, not in the repository), the text of the guest, profiling output, and scheduling: the
  prover's lock serialises calls and the thread pool has no effect but speed. Of the consensus
  client, the files named above are modelled; the rest is upstream code with one fork added.
\<close>

end
